(* ===== verification/Prelude.thy ===== *)
theory Prelude
  imports Main "HOL-Library.Word"
begin

text \<open>
  Shared vocabulary of the development: the machine integers of the C code, its error codes,
  C arrays of bytes with explicit bounds, little-endian stores and loads, and the
  collections of facts that the component theories extend.

  A C array of bytes is a function from indices to bytes; the bound of the array is checked by
  the definitions that index it (\<open>store_bytes\<close> answers \<open>None\<close> for a write past the end).
\<close>

unbundle bit_operations_syntax

named_theorems access_simps \<open>what an operation reads back after a write\<close>
named_theorems frame_simps \<open>what an operation leaves alone\<close>
named_theorems inv_intros \<open>preservation of the components' invariants\<close>

type_synonym u8 = "8 word"
type_synonym u16 = "16 word"
type_synonym u32 = "32 word"
type_synonym u64 = "64 word"

text \<open>The error codes the kernel code returns; \<open>Inl e\<close> is the C value \<open>-e\<close>.\<close>

datatype errno =
    EINVAL | ENOMEM | ENODEV | EBUSY | EFAULT | ENOENT | EACCES | ENOSPC | ENXIO
  | ENOTTY | ENOTSUPP | EALREADY | EBADF | EAGAIN | EMFILE | ETIMEDOUT | EIO | ENODATA | EDOM

type_synonym 'a res = "errno + 'a"

subsection \<open>Byte arrays\<close>

type_synonym bytes = "nat \<Rightarrow> u8"

definition poke :: "bytes \<Rightarrow> nat \<Rightarrow> u8 list \<Rightarrow> bytes" where
  "poke f off bs = (\<lambda>i. if off \<le> i \<and> i < off + length bs then bs ! (i - off) else f i)"

definition store_bytes :: "nat \<Rightarrow> bytes \<Rightarrow> nat \<Rightarrow> u8 list \<Rightarrow> bytes option" where
  "store_bytes limit f off bs = (if off + length bs \<le> limit then Some (poke f off bs) else None)"

definition le16 :: "u16 \<Rightarrow> u8 list" where
  "le16 x = [ucast x, ucast (drop_bit 8 x)]"

definition le32 :: "u32 \<Rightarrow> u8 list" where
  "le32 x = [ucast x, ucast (drop_bit 8 x), ucast (drop_bit 16 x), ucast (drop_bit 24 x)]"

definition le64 :: "u64 \<Rightarrow> u8 list" where
  "le64 x = map (\<lambda>k. ucast (drop_bit (8 * k) x)) [0..<8]"

definition get16 :: "bytes \<Rightarrow> nat \<Rightarrow> u16" where
  "get16 f i = ucast (f i) OR push_bit 8 (ucast (f (i + 1)))"

definition get32 :: "bytes \<Rightarrow> nat \<Rightarrow> u32" where
  "get32 f i = ucast (f i) OR push_bit 8 (ucast (f (i + 1)))
     OR push_bit 16 (ucast (f (i + 2))) OR push_bit 24 (ucast (f (i + 3)))"

definition bytes_of :: "bytes \<Rightarrow> nat \<Rightarrow> nat \<Rightarrow> u8 list" where
  "bytes_of f off n = map (\<lambda>k. f (off + k)) [0..<n]"

lemma length_le [simp]: "length (le16 x) = 2" "length (le32 y) = 4" "length (le64 z) = 8"
  by (simp_all add: le16_def le32_def le64_def)

lemma poke_outside [frame_simps]: "i < off \<or> off + length bs \<le> i \<Longrightarrow> poke f off bs i = f i"
  by (auto simp: poke_def)

lemma poke_inside [access_simps]: "k < length bs \<Longrightarrow> poke f off bs (off + k) = bs ! k"
  by (simp add: poke_def)

lemma poke_first [access_simps]: "bs \<noteq> [] \<Longrightarrow> poke f off bs off = bs ! 0"
  using poke_inside [of 0 bs f off] by simp

lemma poke_Nil [simp]: "poke f off [] = f"
  by (rule ext) (auto simp: poke_def)

lemma store_bytes_Some:
  "store_bytes limit f off bs = Some g \<longleftrightarrow> off + length bs \<le> limit \<and> g = poke f off bs"
  by (auto simp: store_bytes_def)

lemma length_bytes_of [simp]: "length (bytes_of f off n) = n"
  by (simp add: bytes_of_def)

lemma bytes_of_append: "bytes_of f off (m + n) = bytes_of f off m @ bytes_of f (off + m) n"
  by (rule nth_equalityI) (auto simp: bytes_of_def nth_append)

lemma bytes_of_poke_before [frame_simps]: "off + n \<le> at \<Longrightarrow> bytes_of (poke f at bs) off n = bytes_of f off n"
  by (auto simp: bytes_of_def poke_def)

lemma bytes_of_poke [access_simps]: "bytes_of (poke f off bs) off (length bs) = bs"
  by (rule nth_equalityI) (simp_all add: bytes_of_def poke_def)

subsection \<open>Little-endian round trips\<close>

lemma join16: "(ucast (ucast x :: u8) :: u16) OR push_bit 8 (ucast (ucast (drop_bit 8 x) :: u8)) = x"
  for x :: u16
  by (rule bit_word_eqI) (auto simp: bit_simps)

lemma join32:
  "(ucast (ucast x :: u8) :: u32) OR push_bit 8 (ucast (ucast (drop_bit 8 x) :: u8))
     OR push_bit 16 (ucast (ucast (drop_bit 16 x) :: u8))
     OR push_bit 24 (ucast (ucast (drop_bit 24 x) :: u8)) = x"
  for x :: u32
proof (rule bit_word_eqI)
  fix n
  assume "n < LENGTH(32)"
  then consider "n < 8" | "8 \<le> n \<and> n < 16" | "16 \<le> n \<and> n < 24" | "24 \<le> n \<and> n < 32"
    by fastforce
  then show "bit ((ucast (ucast x :: u8) :: u32) OR push_bit 8 (ucast (ucast (drop_bit 8 x) :: u8))
     OR push_bit 16 (ucast (ucast (drop_bit 16 x) :: u8))
     OR push_bit 24 (ucast (ucast (drop_bit 24 x) :: u8))) n = bit x n"
    by cases (auto simp: bit_simps)
qed

lemma get16_poke_le16 [access_simps]: "get16 (poke f off (le16 x)) off = x"
  using join16 [of x] by (simp add: get16_def poke_def le16_def)

lemma get32_poke_le32 [access_simps]: "get32 (poke f off (le32 x)) off = x"
  using join32 [of x] by (simp add: get32_def poke_def le32_def eval_nat_numeral)

lemma get16_cong:
  assumes "f i = g i" "f (i + 1) = g (i + 1)"
  shows "get16 f i = get16 g i"
  using assms by (simp add: get16_def)

lemma get32_cong:
  assumes "f i = g i" "f (i + 1) = g (i + 1)" "f (i + 2) = g (i + 2)" "f (i + 3) = g (i + 3)"
  shows "get32 f i = get32 g i"
  using assms by (simp add: get32_def)

subsection \<open>Words\<close>

lemma unat_sub_if_le: "y \<le> x \<Longrightarrow> unat (x - y) = unat x - unat y"
  for x y :: "'a::len word"
  by (simp add: unat_sub)

lemma unat_add_small: "unat x + unat y < 2 ^ LENGTH('a) \<Longrightarrow> unat (x + y) = unat x + unat y"
  for x y :: "'a::len word"
  by (simp add: unat_word_ariths)

lemma unat_pow2: "n < LENGTH('a) \<Longrightarrow> unat (2 ^ n :: 'a::len word) = 2 ^ n"
proof -
  assume n: "n < LENGTH('a)"
  have "unat (of_nat (2 ^ n) :: 'a word) = 2 ^ n"
    using n by (simp only: unsigned_of_nat) (simp add: take_bit_nat_eq_self power_strict_increasing)
  then show ?thesis by simp
qed

lemma unat_drop_bit: "unat (drop_bit n x) = unat x div 2 ^ n"
  for x :: "'a::len word"
proof -
  have "unat (drop_bit n x) = drop_bit n (unat x)"
    by (subst unsigned_drop_bit_eq) (simp only: take_bit_nat_eq_self unsigned_less)
  then show ?thesis by (simp only: drop_bit_eq_div)
qed
lemma unat_take_bit: "unat (take_bit n x) = unat x mod 2 ^ n"
  for x :: "'a::len word"
proof -
  have "unat (take_bit n x) = take_bit n (unat x)"
    by (subst unsigned_take_bit_eq) (rule refl)
  then show ?thesis by (simp only: take_bit_eq_mod)
qed
lemma take_bit_add_right: "take_bit n (a + take_bit n b) = take_bit n (a + b)"
  for a b :: "'a::len word"
proof (cases "n < LENGTH('a)")
  case True
  then have le: "(2::nat) ^ n dvd 2 ^ LENGTH('a)" by (simp add: le_imp_power_dvd)
  have "unat (take_bit n (a + take_bit n b)) = unat (take_bit n (a + b))"
    by (simp only: unat_take_bit unat_word_ariths mod_mod_cancel [OF le] mod_add_right_eq)
  then show ?thesis by (simp only: word_unat_eq_iff)
next
  case False
  then show ?thesis by (simp add: take_bit_word_eq_self)
qed

lemma bit_small: "unat x < 2 ^ n \<Longrightarrow> bit x k \<Longrightarrow> k < n"
  for x :: "'a::len word"
proof -
  assume "unat x < 2 ^ n"
  then have eq: "take_bit n (unat x) = unat x" by (rule take_bit_nat_eq_self)
  assume "bit x k"
  then have "bit (unat x) k" by (simp add: bit_unsigned_iff bit_imp_le_length)
  then have "bit (take_bit n (unat x)) k" by (simp only: eq)
  then show "k < n" by (simp add: bit_take_bit_iff)
qed

lemma ucast_NOT_0 [simp]: "(ucast (- 1 :: u32) :: u8) = - 1"
  by (rule bit_word_eqI) (simp add: bit_simps)

lemma ucast16_32 [simp]: "(ucast (ucast (x :: u16) :: u32) :: u16) = x"
  by (rule bit_word_eqI) (simp add: bit_simps)

lemma and_not_disjoint: "a AND b = 0 \<Longrightarrow> a AND NOT b = a"
  for a b :: "'a::len word"
proof -
  assume "a AND b = 0"
  then have "(a AND b) OR (a AND NOT b) = a AND NOT b" by simp
  then show ?thesis by (simp only: bit.conj_disj_distrib [symmetric] bit.disj_cancel_right) simp
qed

lemma length_filter_le_bound: "length xs \<le> n \<Longrightarrow> length (filter P xs) \<le> n"
  by (rule le_trans [OF length_filter_le])

subsection \<open>Byte-addressed memories\<close>

definition mem_get :: "(u64 \<Rightarrow> u8) \<Rightarrow> u64 \<Rightarrow> nat \<Rightarrow> u8 list" where
  "mem_get io phys n = map (\<lambda>k. io (phys + of_nat k)) [0..<n]"

definition mem_put :: "(u64 \<Rightarrow> u8) \<Rightarrow> u64 \<Rightarrow> u8 list \<Rightarrow> u64 \<Rightarrow> u8" where
  "mem_put io phys bs = (\<lambda>a. if unat (a - phys) < length bs then bs ! unat (a - phys) else io a)"

lemma length_mem_get [simp]: "length (mem_get io phys n) = n"
  by (simp add: mem_get_def)

lemma mem_get_put [access_simps]:
  "length bs \<le> 2 ^ 64 \<Longrightarrow> mem_get (mem_put io phys bs) phys (length bs) = bs"
  by (rule nth_equalityI) (simp_all add: mem_get_def mem_put_def unsigned_of_nat take_bit_nat_eq_self)

lemma mem_put_other [frame_simps]: "length bs \<le> unat (a - phys) \<Longrightarrow> mem_put io phys bs a = io a"
  by (simp add: mem_put_def)

lemma mem_get_disjoint [frame_simps]:
  assumes "\<And>k. k < n \<Longrightarrow> length bs \<le> unat (a + of_nat k - phys)"
  shows "mem_get (mem_put io phys bs) a n = mem_get io a n"
  using assms by (simp add: mem_get_def mem_put_other)

lemma mem_put_Nil [simp]: "mem_put io phys [] = io"
  by (simp add: mem_put_def)

subsection \<open>Writes byte by byte\<close>

definition put_bytes :: "(u64 \<Rightarrow> u8) \<Rightarrow> (u64 \<times> u8) list \<Rightarrow> u64 \<Rightarrow> u8" where
  "put_bytes io kvs = fold (\<lambda>kv m. m(fst kv := snd kv)) kvs io"

definition addr_range :: "u64 \<Rightarrow> nat \<Rightarrow> u64 list" where
  "addr_range phys n = map (\<lambda>k. phys + of_nat k) [0..<n]"

definition splice :: "'a list \<Rightarrow> nat \<Rightarrow> 'a list \<Rightarrow> 'a list" where
  "splice xs d ys = take d xs @ ys @ drop (d + length ys) xs"

lemma length_addr_range [simp]: "length (addr_range phys n) = n"
  by (simp add: addr_range_def)

lemma mem_get_range: "mem_get io phys n = map io (addr_range phys n)"
  by (simp add: mem_get_def addr_range_def)

lemma put_bytes_simps [simp]:
  "put_bytes io [] = io" "put_bytes io (kv # kvs) = put_bytes (io(fst kv := snd kv)) kvs"
  "put_bytes io (kvs @ kws) = put_bytes (put_bytes io kvs) kws"
  by (simp_all add: put_bytes_def)

lemma put_bytes_other [frame_simps]: "a \<notin> fst ` set kvs \<Longrightarrow> put_bytes io kvs a = io a"
  by (induction kvs arbitrary: io) auto

lemma put_bytes_get [access_simps]:
  assumes "distinct as" "length as = length bs"
  shows "map (put_bytes io (zip as bs)) as = bs"
  using assms
proof (induction as arbitrary: bs io)
  case (Cons a as)
  then obtain b cs where bs: "bs = b # cs" "length as = length cs" by (cases bs) auto
  have "put_bytes (io(a := b)) (zip as cs) a = b"
    using Cons.prems(1) by (subst put_bytes_other) (auto dest: set_zip_leftD)
  moreover have "map (put_bytes (io(a := b)) (zip as cs)) as = cs"
    using Cons.prems(1) bs(2) by (intro Cons.IH) simp_all
  ultimately show ?case by (simp add: bs(1) del: fun_upd_apply)
qed simp

lemma distinct_addr_range: "n \<le> 2 ^ 64 \<Longrightarrow> distinct (addr_range phys n)"
proof -
  assume n: "n \<le> 2 ^ 64"
  have "i = j" if "i < n" "j < n" "(of_nat i :: u64) = of_nat j" for i j
  proof -
    from that(3) have "unat (of_nat i :: u64) = unat (of_nat j :: u64)" by simp
    with that(1,2) n show ?thesis by (simp add: unsigned_of_nat take_bit_nat_eq_self)
  qed
  then show ?thesis by (auto simp: addr_range_def distinct_map inj_on_def)
qed

lemma mem_put_bytes:
  assumes "length bs \<le> 2 ^ 64"
  shows "mem_put io phys bs = put_bytes io (zip (addr_range phys (length bs)) bs)"
proof (rule ext)
  fix a
  show "mem_put io phys bs a = put_bytes io (zip (addr_range phys (length bs)) bs) a"
  proof (cases "unat (a - phys) < length bs")
    case True
    then have a: "addr_range phys (length bs) ! unat (a - phys) = a"
      by (simp add: addr_range_def add_diff_eq)
    have "map (put_bytes io (zip (addr_range phys (length bs)) bs)) (addr_range phys (length bs)) = bs"
      by (intro put_bytes_get distinct_addr_range assms) simp
    then have "put_bytes io (zip (addr_range phys (length bs)) bs)
        (addr_range phys (length bs) ! unat (a - phys)) = bs ! unat (a - phys)"
      using True by (metis length_addr_range nth_map)
    with a True show ?thesis by (simp add: mem_put_def)
  next
    case False
    have "a \<noteq> phys + of_nat k" if "k < length bs" for k
      using False that assms by (auto simp: unsigned_of_nat take_bit_nat_eq_self)
    then have "a \<notin> set (addr_range phys (length bs))"
      by (simp add: addr_range_def image_iff)
    then have "a \<notin> fst ` set (zip (addr_range phys (length bs)) bs)"
      by (auto dest: set_zip_leftD)
    then show ?thesis
      using False by (simp add: mem_put_def put_bytes_other)
  qed
qed

lemma length_splice [simp]: "d + length ys \<le> length xs \<Longrightarrow> length (splice xs d ys) = length xs"
  by (simp add: splice_def)

lemma splice_append:
  "d + length ys + length zs \<le> length xs \<Longrightarrow>
     splice (splice xs d ys) (d + length ys) zs = splice xs d (ys @ zs)"
  by (simp add: splice_def add.commute add.left_commute)

lemma splice_Nil [simp]: "splice xs d [] = xs"
  by (simp add: splice_def)

lemma splice_all: "length ys = length xs \<Longrightarrow> splice xs 0 ys = ys"
  by (simp add: splice_def)

subsection \<open>64-bit little-endian values\<close>

definition of_le :: "u8 list \<Rightarrow> u64" where
  "of_le bs = foldr (\<lambda>b x. ucast b OR push_bit 8 x) bs 0"

lemma of_le_map:
  "of_le (map (\<lambda>k. ucast (drop_bit (8 * (i + k)) x)) [0..<n]) = take_bit (8 * n) (drop_bit (8 * i) x)"
  for x :: u64
proof (induction n arbitrary: i)
  case (Suc n)
  have "map (\<lambda>k. ucast (drop_bit (8 * (i + k)) x) :: u8) [0..<Suc n] =
      ucast (drop_bit (8 * i) x) # map (\<lambda>k. ucast (drop_bit (8 * (Suc i + k)) x)) [0..<n]"
    by (simp only: upt_conv_Cons [OF zero_less_Suc] list.map map_Suc_upt [symmetric] map_map comp_def)
      simp
  then have "of_le (map (\<lambda>k. ucast (drop_bit (8 * (i + k)) x)) [0..<Suc n]) =
      ucast (ucast (drop_bit (8 * i) x) :: u8) OR push_bit 8 (take_bit (8 * n) (drop_bit (8 * Suc i) x))"
    using Suc.IH [of "Suc i"] by (simp only: of_le_def foldr.simps comp_def)
  also have "\<dots> = take_bit (8 * Suc n) (drop_bit (8 * i) x)"
    by (rule bit_word_eqI) (auto simp: bit_simps algebra_simps)
  finally show ?case .
qed (simp add: of_le_def)

lemma of_le_le64 [access_simps]: "of_le (le64 x) = x"
  using of_le_map [of 0 x 8] by (simp add: le64_def take_bit_word_eq_self)

lemma of_le_Cons: "of_le (b # bs) = ucast b OR push_bit 8 (of_le bs)"
  by (simp add: of_le_def)

lemma of_le_bit: "bit (of_le bs) i \<Longrightarrow> i < 8 * length bs"
proof (induction bs arbitrary: i)
  case (Cons b bs)
  from Cons.prems consider "i < 8" | "8 \<le> i" "bit (of_le bs) (i - 8)"
    by (auto simp: of_le_Cons bit_simps dest: bit_imp_le_length)
  then show ?case
  proof cases
    case 2
    with Cons.IH [of "i - 8"] show ?thesis by simp
  qed simp
qed (simp add: of_le_def)

lemma of_le_nth:
  "length bs \<le> 8 \<Longrightarrow> k < length bs \<Longrightarrow> ucast (drop_bit (8 * k) (of_le bs)) = bs ! k"
proof (induction bs arbitrary: k)
  case (Cons b bs)
  show ?case
  proof (cases k)
    case 0
    show ?thesis unfolding 0 of_le_Cons by (rule bit_word_eqI) (auto simp: bit_simps)
  next
    case (Suc j)
    have "drop_bit 8 (of_le (b # bs)) = of_le bs"
    proof (rule bit_word_eqI)
      fix i
      assume "i < LENGTH(64)"
      then show "bit (drop_bit 8 (of_le (b # bs))) i = bit (of_le bs) i"
        using of_le_bit [of bs i] Cons.prems(1)
        by (auto simp: of_le_Cons bit_simps dest: bit_imp_le_length)
    qed
    then have "drop_bit (8 * k) (of_le (b # bs)) = drop_bit (8 * j) (of_le bs)"
      using drop_bit_drop_bit [of "8 * j" 8 "of_le (b # bs)"] by (simp add: Suc add.commute)
    with Cons.IH [of j] Cons.prems Suc show ?thesis by simp
  qed
qed simp

lemma le64_of_le: "length bs = 8 \<Longrightarrow> le64 (of_le bs) = bs"
  by (rule nth_equalityI) (simp_all add: le64_def of_le_nth)

lemma mem_put_same: "mem_put io a (mem_get io a n) = io"
proof (rule ext)
  fix x
  show "mem_put io a (mem_get io a n) x = io x"
    by (simp add: mem_put_def mem_get_def add_diff_eq)
qed

lemma addr_range_add: "addr_range p (a + b) = addr_range p a @ addr_range (p + of_nat a) b"
  by (rule nth_equalityI) (auto simp: addr_range_def nth_append add.assoc simp flip: of_nat_add)

lemma mem_put_append:
  assumes "length xs + length ys \<le> 2 ^ 64"
  shows "mem_put (mem_put io p xs) (p + of_nat (length xs)) ys = mem_put io p (xs @ ys)"
  using assms by (simp add: mem_put_bytes addr_range_add)

end
