(* ===== verification/Caps.thy ===== *)
theory Caps
  imports Prelude
begin

text \<open>
  The capability manager of \<^verbatim>\<open>kernel/framework/capabilities.c\<close>: its data types and the
  operations that create it and add capabilities to it.

  The C entry carries a type tag and two unions (configuration and run-time state); each
  constructor of \<open>cap_body\<close> is one value of the tag with its member of both unions. The array
  \<open>caps[MAX_PCI_CAPS]\<close> with its counter \<open>num_caps\<close> is the list of the entries in use. Whether
  an allocation succeeds is an argument of the operation that allocates.

  The lemmas here are about layout: every operation keeps \<open>mgr_inv\<close>, which says where each
  standard capability was put, with the wrap-around of the 8-bit \<open>next_offset\<close> written out.
\<close>

definition MAX_PCI_CAPS :: nat where
  "MAX_PCI_CAPS = 16"

definition PCI_CFG_SPACE_SIZE :: nat where
  "PCI_CFG_SPACE_SIZE = 256"

definition PCI_EXP_TYPE_ENDPOINT :: u8 where
  "PCI_EXP_TYPE_ENDPOINT = 0"

lemmas cap_consts = MAX_PCI_CAPS_def PCI_CFG_SPACE_SIZE_def PCI_EXP_TYPE_ENDPOINT_def

record msi_config =
  has_64bit :: bool
  has_per_vector_masking :: bool
  num_vectors_log2 :: u8

record msix_config =
  bar_index :: u8
  table_offset :: u32
  pba_offset :: u32
  table_size :: u16

record pm_config =
  d1_support :: bool
  d2_support :: bool
  pme_support :: bool
  pm_version :: u8

record pcie_config =
  device_type :: u8
  link_width :: u8
  link_speed :: u8

record vsec_config =
  vsec_vendor_id :: u16
  vsec_id :: u16
  vsec_rev :: u8
  vsec_length :: u16
  vsec_data :: "u8 list"

record pasid_config =
  max_pasid_width :: u8
  execute_permission :: bool
  privileged_mode :: bool

record msi_state =
  msi_control :: u16
  address_lo :: u32
  address_hi :: u32
  msi_data :: u16
  mask_bits :: u32

record msix_state =
  msix_control :: u16

record pm_state =
  pm_control :: u16
  pm_status :: u16

record pasid_state =
  pasid_control :: u16
  pasid_value :: u32

datatype cap_body =
    Cap_MSI msi_config msi_state
  | Cap_MSIX msix_config msix_state
  | Cap_PM pm_config pm_state
  | Cap_PCIE pcie_config
  | Cap_VSEC vsec_config
  | Cap_PASID pasid_config pasid_state

record cap_entry =
  cap_offset :: u8
  ext_offset :: u16
  is_extended :: bool
  cap_size :: u8
  body :: cap_body

record cap_manager =
  caps :: "cap_entry list"
  next_offset :: u8
  ext_next_offset :: u16

text \<open>
  The part of \<open>struct pciem_root_complex\<close> that capabilities touch. The BAR and device parts
  extend this record, so that every operation below applies to the whole root complex.
\<close>

record rc_caps =
  cfg :: bytes
  ext_cfg :: bytes
  cap_mgr :: "cap_manager option"

subsection \<open>Helpers\<close>

definition msi_cap_size :: "msi_config \<Rightarrow> u8" where
  "msi_cap_size c =
     (let s = 10; s = (if has_64bit c then s + 4 else s); s = s + 2
      in if has_per_vector_masking c then s + 8 else s)"

fun is_msi :: "cap_body \<Rightarrow> bool" where
  "is_msi (Cap_MSI _ _) = True"
| "is_msi _ = False"

fun is_pcie :: "cap_body \<Rightarrow> bool" where
  "is_pcie (Cap_PCIE _) = True"
| "is_pcie _ = False"

definition pciem_cap_manager_find :: "cap_manager \<Rightarrow> (cap_body \<Rightarrow> bool) \<Rightarrow> cap_entry option" where
  "pciem_cap_manager_find mgr has_type = find (\<lambda>c. has_type (body c)) (caps mgr)"

definition pciem_check_msi_address_width :: "u8 \<Rightarrow> bool \<Rightarrow> unit res" where
  "pciem_check_msi_address_width dtype is64 =
     (if dtype = PCI_EXP_TYPE_ENDPOINT \<and> \<not> is64 then Inl EINVAL else Inr ())"

definition pciem_init_cap_manager :: "bool \<Rightarrow> 'a rc_caps_scheme \<Rightarrow> 'a rc_caps_scheme" where
  "pciem_init_cap_manager mem_ok v =
     (case cap_mgr v of
        Some _ \<Rightarrow> v
      | None \<Rightarrow>
          if \<not> mem_ok then v
          else v\<lparr>cap_mgr := Some \<lparr>caps = [], next_offset = 0x40,
                                  ext_next_offset = of_nat PCI_CFG_SPACE_SIZE\<rparr>\<rparr>)"

definition pciem_cleanup_cap_manager :: "'a rc_caps_scheme \<Rightarrow> 'a rc_caps_scheme" where
  "pciem_cleanup_cap_manager v = v\<lparr>cap_mgr := None\<rparr>"

subsection \<open>Adding capabilities\<close>

text \<open>
  The guard every \<open>pciem_add_cap_*\<close> starts with, and the tail every one ends with: fill the next
  slot of the array, advance the offset and the counter.
\<close>

definition cap_slot :: "'a rc_caps_scheme \<Rightarrow> cap_manager res" where
  "cap_slot v =
     (case cap_mgr v of
        None \<Rightarrow> Inl ENOMEM
      | Some mgr \<Rightarrow> if length (caps mgr) \<ge> MAX_PCI_CAPS then Inl ENOMEM else Inr mgr)"

definition push_std :: "cap_manager \<Rightarrow> u8 \<Rightarrow> cap_body \<Rightarrow> cap_manager" where
  "push_std mgr sz b =
     mgr\<lparr>caps := caps mgr @ [\<lparr>cap_offset = next_offset mgr, ext_offset = 0, is_extended = False,
                              cap_size = sz, body = b\<rparr>],
         next_offset := next_offset mgr + sz\<rparr>"

definition push_ext :: "cap_manager \<Rightarrow> u8 \<Rightarrow> cap_body \<Rightarrow> cap_manager" where
  "push_ext mgr sz b =
     mgr\<lparr>caps := caps mgr @ [\<lparr>cap_offset = 0, ext_offset = ext_next_offset mgr,
                              is_extended = True, cap_size = sz, body = b\<rparr>],
         ext_next_offset := ext_next_offset mgr + ucast sz\<rparr>"

definition msi_state0 :: msi_state where
  "msi_state0 = \<lparr>msi_control = 0, address_lo = 0, address_hi = 0, msi_data = 0, mask_bits = 0\<rparr>"

definition pciem_add_cap_msi ::
    "'a rc_caps_scheme \<Rightarrow> msi_config \<Rightarrow> unit res \<times> 'a rc_caps_scheme" where
  "pciem_add_cap_msi v c =
     (case cap_slot v of
        Inl e \<Rightarrow> (Inl e, v)
      | Inr mgr \<Rightarrow>
          (case map_option body (pciem_cap_manager_find mgr is_pcie) of
             Some (Cap_PCIE p) \<Rightarrow>
               (case pciem_check_msi_address_width (device_type p) (has_64bit c) of
                  Inl e \<Rightarrow> (Inl e, v)
                | Inr _ \<Rightarrow>
                    (Inr (), v\<lparr>cap_mgr := Some (push_std mgr (msi_cap_size c)
                                                  (Cap_MSI c msi_state0))\<rparr>))
           | _ \<Rightarrow> (Inl EINVAL, v)))"

definition pciem_add_cap_msix ::
    "'a rc_caps_scheme \<Rightarrow> msix_config \<Rightarrow> unit res \<times> 'a rc_caps_scheme" where
  "pciem_add_cap_msix v c =
     (case cap_slot v of
        Inl e \<Rightarrow> (Inl e, v)
      | Inr mgr \<Rightarrow>
          (Inr (), v\<lparr>cap_mgr := Some (push_std mgr 12
             (Cap_MSIX c \<lparr>msix_control = (table_size c - 1) AND 0x7FF\<rparr>))\<rparr>))"

definition pciem_add_cap_pm ::
    "'a rc_caps_scheme \<Rightarrow> pm_config \<Rightarrow> unit res \<times> 'a rc_caps_scheme" where
  "pciem_add_cap_pm v c =
     (case cap_slot v of
        Inl e \<Rightarrow> (Inl e, v)
      | Inr mgr \<Rightarrow>
          (Inr (), v\<lparr>cap_mgr := Some (push_std mgr 8
             (Cap_PM c \<lparr>pm_control = 0, pm_status = 0\<rparr>))\<rparr>))"

definition pciem_add_cap_pcie ::
    "'a rc_caps_scheme \<Rightarrow> pcie_config \<Rightarrow> unit res \<times> 'a rc_caps_scheme" where
  "pciem_add_cap_pcie v c =
     (case cap_slot v of
        Inl e \<Rightarrow> (Inl e, v)
      | Inr mgr \<Rightarrow>
          (case (case map_option body (pciem_cap_manager_find mgr is_msi) of
                   Some (Cap_MSI m _) \<Rightarrow>
                     pciem_check_msi_address_width (device_type c) (has_64bit m)
                 | _ \<Rightarrow> Inr ()) of
             Inl e \<Rightarrow> (Inl e, v)
           | Inr _ \<Rightarrow> (Inr (), v\<lparr>cap_mgr := Some (push_std mgr 60 (Cap_PCIE c))\<rparr>)))"

definition pciem_add_cap_vsec ::
    "bool \<Rightarrow> 'a rc_caps_scheme \<Rightarrow> vsec_config \<Rightarrow> unit res \<times> 'a rc_caps_scheme" where
  "pciem_add_cap_vsec mem_ok v c =
     (case cap_slot v of
        Inl e \<Rightarrow> (Inl e, v)
      | Inr mgr \<Rightarrow>
          if \<not> mem_ok then (Inl ENOMEM, v)
          else (Inr (), v\<lparr>cap_mgr := Some (push_std mgr (ucast (8 + vsec_length c))
             (Cap_VSEC (c\<lparr>vsec_data := take (unat (vsec_length c)) (vsec_data c)\<rparr>)))\<rparr>))"

definition pciem_add_cap_pasid ::
    "'a rc_caps_scheme \<Rightarrow> pasid_config \<Rightarrow> unit res \<times> 'a rc_caps_scheme" where
  "pciem_add_cap_pasid v c =
     (case cap_slot v of
        Inl e \<Rightarrow> (Inl e, v)
      | Inr mgr \<Rightarrow>
          (Inr (), v\<lparr>cap_mgr := Some (push_ext mgr 8
             (Cap_PASID c \<lparr>pasid_control = 0, pasid_value = 0\<rparr>))\<rparr>))"

text \<open>One request to add a capability, of any kind.\<close>

datatype cap_op =
    Add_MSI msi_config
  | Add_MSIX msix_config
  | Add_PM pm_config
  | Add_PCIE pcie_config
  | Add_VSEC bool vsec_config
  | Add_PASID pasid_config

fun add_cap :: "cap_op \<Rightarrow> 'a rc_caps_scheme \<Rightarrow> unit res \<times> 'a rc_caps_scheme" where
  "add_cap (Add_MSI c) v = pciem_add_cap_msi v c"
| "add_cap (Add_MSIX c) v = pciem_add_cap_msix v c"
| "add_cap (Add_PM c) v = pciem_add_cap_pm v c"
| "add_cap (Add_PCIE c) v = pciem_add_cap_pcie v c"
| "add_cap (Add_VSEC ok c) v = pciem_add_cap_vsec ok v c"
| "add_cap (Add_PASID c) v = pciem_add_cap_pasid v c"

primrec add_caps :: "cap_op list \<Rightarrow> 'a rc_caps_scheme \<Rightarrow> 'a rc_caps_scheme" where
  "add_caps [] v = v"
| "add_caps (req # reqs) v = add_caps reqs (snd (add_cap req v))"

lemmas add_cap_defs =
  pciem_add_cap_msi_def pciem_add_cap_msix_def pciem_add_cap_pm_def pciem_add_cap_pcie_def
  pciem_add_cap_vsec_def pciem_add_cap_pasid_def

subsection \<open>The layout of the capabilities\<close>

fun body_size :: "cap_body \<Rightarrow> u8" where
  "body_size (Cap_MSI c _) = msi_cap_size c"
| "body_size (Cap_MSIX _ _) = 12"
| "body_size (Cap_PM _ _) = 8"
| "body_size (Cap_PCIE _) = 60"
| "body_size (Cap_VSEC c) = ucast (8 + vsec_length c)"
| "body_size (Cap_PASID _ _) = 8"

fun is_pasid :: "cap_body \<Rightarrow> bool" where
  "is_pasid (Cap_PASID _ _) = True"
| "is_pasid _ = False"

definition std_caps :: "cap_manager \<Rightarrow> cap_entry list" where
  "std_caps mgr = filter (\<lambda>c. \<not> is_extended c) (caps mgr)"

definition ext_caps :: "cap_manager \<Rightarrow> cap_entry list" where
  "ext_caps mgr = filter is_extended (caps mgr)"

definition caps_len :: "cap_entry list \<Rightarrow> nat" where
  "caps_len cs = sum_list (map (\<lambda>c. unat (cap_size c)) cs)"

text \<open>
  \<open>layout n cs\<close>: the capabilities \<open>cs\<close> follow one another from \<open>n\<close> on, the recorded 8-bit offset
  being the true position modulo 256. \<open>ext_layout\<close> is the same for the 16-bit extended offsets.
\<close>

fun layout :: "nat \<Rightarrow> cap_entry list \<Rightarrow> bool" where
  "layout n [] = True"
| "layout n (c # cs) =
     (unat (cap_offset c) = n mod 256 \<and> layout (n + unat (cap_size c)) cs)"

fun ext_layout :: "nat \<Rightarrow> cap_entry list \<Rightarrow> bool" where
  "ext_layout n [] = True"
| "ext_layout n (c # cs) =
     (unat (ext_offset c) = n \<and> ext_layout (n + unat (cap_size c)) cs)"

definition entry_ok :: "cap_entry \<Rightarrow> bool" where
  "entry_ok c \<longleftrightarrow> cap_size c = body_size (body c) \<and> is_extended c = is_pasid (body c)"

definition mgr_inv :: "cap_manager \<Rightarrow> bool" where
  "mgr_inv mgr \<longleftrightarrow>
     length (caps mgr) \<le> MAX_PCI_CAPS \<and> list_all entry_ok (caps mgr) \<and>
     layout 64 (std_caps mgr) \<and> unat (next_offset mgr) = (64 + caps_len (std_caps mgr)) mod 256 \<and>
     ext_layout 256 (ext_caps mgr) \<and>
     unat (ext_next_offset mgr) = 256 + caps_len (ext_caps mgr)"

definition caps_inv :: "'a rc_caps_scheme \<Rightarrow> bool" where
  "caps_inv v \<longleftrightarrow> (case cap_mgr v of None \<Rightarrow> True | Some mgr \<Rightarrow> mgr_inv mgr)"

lemma caps_len_simps [simp]:
  "caps_len [] = 0" "caps_len (c # cs) = unat (cap_size c) + caps_len cs"
  "caps_len (cs @ ds) = caps_len cs + caps_len ds"
  by (simp_all add: caps_len_def)

lemma layout_append [simp]:
  "layout n (cs @ ds) \<longleftrightarrow> layout n cs \<and> layout (n + caps_len cs) ds"
  by (induction cs arbitrary: n) (auto simp: add.assoc)

lemma ext_layout_append [simp]:
  "ext_layout n (cs @ ds) \<longleftrightarrow> ext_layout n cs \<and> ext_layout (n + caps_len cs) ds"
  by (induction cs arbitrary: n) (auto simp: add.assoc)

lemma std_caps_push [simp]:
  "std_caps (push_std mgr sz b) = std_caps mgr @
     [\<lparr>cap_offset = next_offset mgr, ext_offset = 0, is_extended = False, cap_size = sz, body = b\<rparr>]"
  "std_caps (push_ext mgr sz b) = std_caps mgr"
  by (simp_all add: std_caps_def push_std_def push_ext_def)

lemma ext_caps_push [simp]:
  "ext_caps (push_ext mgr sz b) = ext_caps mgr @
     [\<lparr>cap_offset = 0, ext_offset = ext_next_offset mgr, is_extended = True, cap_size = sz,
       body = b\<rparr>]"
  "ext_caps (push_std mgr sz b) = ext_caps mgr"
  by (simp_all add: ext_caps_def push_std_def push_ext_def)

lemma caps_len_const: "(\<And>c. c \<in> set cs \<Longrightarrow> unat (cap_size c) = k) \<Longrightarrow> caps_len cs = k * length cs"
  by (induction cs) auto

lemma entry_ok_ext_size: "entry_ok c \<Longrightarrow> is_extended c \<Longrightarrow> unat (cap_size c) = 8"
  by (cases "body c") (auto simp: entry_ok_def)

lemma ext_caps_len:
  assumes "list_all entry_ok (caps mgr)"
  shows "caps_len (ext_caps mgr) = 8 * length (ext_caps mgr)"
  using assms by (intro caps_len_const) (auto simp: ext_caps_def list_all_iff entry_ok_ext_size)

lemma push_std_inv [inv_intros]:
  assumes inv: "mgr_inv mgr" and room: "length (caps mgr) < MAX_PCI_CAPS"
    and sz: "sz = body_size b" and b: "\<not> is_pasid b"
  shows "mgr_inv (push_std mgr sz b)"
proof -
  have "unat (next_offset mgr + sz) = (64 + caps_len (std_caps mgr) + unat sz) mod 256"
    using inv by (simp add: mgr_inv_def unat_word_ariths mod_simps add.assoc)
  then show ?thesis
    using inv room sz b
    by (auto simp: mgr_inv_def push_std_def entry_ok_def std_caps_def ext_caps_def
        split del: if_split) (simp_all add: add.assoc)
qed

lemma push_ext_inv [inv_intros]:
  assumes inv: "mgr_inv mgr" and room: "length (caps mgr) < MAX_PCI_CAPS" and b: "is_pasid b"
  shows "mgr_inv (push_ext mgr 8 b)"
proof -
  have "length (ext_caps mgr) \<le> length (caps mgr)"
    by (simp add: ext_caps_def)
  then have len: "caps_len (ext_caps mgr) < 128"
    using inv room ext_caps_len [of mgr] by (simp add: mgr_inv_def cap_consts)
  then have "unat (ext_next_offset mgr + ucast (8 :: u8)) = 256 + caps_len (ext_caps mgr) + 8"
    using inv by (subst unat_add_small) (simp_all add: mgr_inv_def)
  moreover have "body_size b = 8" "ext_layout (256 + caps_len (ext_caps mgr))
      [\<lparr>cap_offset = 0, ext_offset = ext_next_offset mgr, is_extended = True, cap_size = 8, body = b\<rparr>]"
    using inv b by (cases b; simp add: mgr_inv_def)+
  ultimately show ?thesis
    using inv room b by (simp add: mgr_inv_def push_ext_def entry_ok_def std_caps_def ext_caps_def)
qed

lemma cap_slot_Inr:
  "cap_slot v = Inr mgr \<longleftrightarrow> cap_mgr v = Some mgr \<and> length (caps mgr) < MAX_PCI_CAPS"
  by (auto simp: cap_slot_def split: option.splits if_splits)

lemma cap_slot_Inl: "cap_slot v = Inl e \<Longrightarrow> e = ENOMEM"
  by (auto simp: cap_slot_def split: option.splits if_splits)

lemmas cap_splits = option.splits sum.splits cap_body.splits if_splits

text \<open>Every capability operation either leaves the manager alone or pushes one entry.\<close>

lemma add_msi_result:
  "cap_slot v = Inr mgr \<Longrightarrow>
     pciem_add_cap_msi v c = (Inl EINVAL, v) \<or>
     pciem_add_cap_msi v c =
       (Inr (), v\<lparr>cap_mgr := Some (push_std mgr (msi_cap_size c) (Cap_MSI c msi_state0))\<rparr>)"
  by (simp add: pciem_add_cap_msi_def pciem_check_msi_address_width_def
      split: option.split cap_body.split)

lemma add_pcie_result:
  "cap_slot v = Inr mgr \<Longrightarrow>
     pciem_add_cap_pcie v c = (Inl EINVAL, v) \<or>
     pciem_add_cap_pcie v c = (Inr (), v\<lparr>cap_mgr := Some (push_std mgr 60 (Cap_PCIE c))\<rparr>)"
  by (simp add: pciem_add_cap_pcie_def pciem_check_msi_address_width_def
      split: option.split cap_body.split)

lemma add_cap_cases:
  obtains (same) e where "add_cap op v = (Inl e, v)"
  | (std) mgr sz b where "cap_slot v = Inr mgr" "sz = body_size b" "\<not> is_pasid b"
      "add_cap op v = (Inr (), v\<lparr>cap_mgr := Some (push_std mgr sz b)\<rparr>)"
  | (ext) mgr b where "cap_slot v = Inr mgr" "is_pasid b"
      "add_cap op v = (Inr (), v\<lparr>cap_mgr := Some (push_ext mgr 8 b)\<rparr>)"
proof (cases "cap_slot v")
  case (Inl e)
  then have "add_cap op v = (Inl e, v)"
    by (cases op) (simp_all add: add_cap_defs)
  then show ?thesis by (rule same)
next
  case (Inr mgr)
  show ?thesis
  proof (cases op)
    case (Add_MSI c)
    with Inr add_msi_result [of v mgr c] show ?thesis
      by (auto intro: same std [where b = "Cap_MSI c msi_state0"])
  next
    case (Add_PCIE c)
    with Inr add_pcie_result [of v mgr c] show ?thesis
      by (auto intro: same std [where b = "Cap_PCIE c"])
  next
    case (Add_MSIX c)
    with Inr show ?thesis
      by (intro std [where b = "Cap_MSIX c \<lparr>msix_control = (table_size c - 1) AND 0x7FF\<rparr>"])
        (simp_all add: pciem_add_cap_msix_def)
  next
    case (Add_PM c)
    with Inr show ?thesis
      by (intro std [where b = "Cap_PM c \<lparr>pm_control = 0, pm_status = 0\<rparr>"])
        (simp_all add: pciem_add_cap_pm_def)
  next
    case (Add_VSEC ok c)
    show ?thesis
    proof (cases ok)
      case True
      with Inr Add_VSEC show ?thesis
        by (intro std [where b = "Cap_VSEC (c\<lparr>vsec_data := take (unat (vsec_length c)) (vsec_data c)\<rparr>)"])
          (simp_all add: pciem_add_cap_vsec_def)
    next
      case False
      with Inr Add_VSEC show ?thesis
        by (intro same) (simp add: pciem_add_cap_vsec_def)
    qed
  next
    case (Add_PASID c)
    with Inr show ?thesis
      by (intro ext [where b = "Cap_PASID c \<lparr>pasid_control = 0, pasid_value = 0\<rparr>"])
        (simp_all add: pciem_add_cap_pasid_def)
  qed
qed

lemma caps_inv_add [inv_intros]: "caps_inv v \<Longrightarrow> caps_inv (snd (add_cap op v))"
  by (rule add_cap_cases [of op v])
    (auto simp: caps_inv_def cap_slot_Inr intro: push_std_inv push_ext_inv)

lemma caps_inv_init [inv_intros]: "caps_inv v \<Longrightarrow> caps_inv (pciem_init_cap_manager ok v)"
  by (auto simp: caps_inv_def pciem_init_cap_manager_def mgr_inv_def std_caps_def ext_caps_def
      cap_consts split: option.splits)

lemma add_cap_frame [frame_simps]:
  "cfg (snd (add_cap op v)) = cfg v" "ext_cfg (snd (add_cap op v)) = ext_cfg v"
  by (rule add_cap_cases [of op v]; simp)+

subsection \<open>The MSI address-width rule\<close>

text \<open>
  PCI Express endpoints must use 64-bit MSI addresses. The code checks the first PCIe
  capability against a new MSI capability, and the first MSI capability against a new PCIe one.
\<close>

fun width_ok :: "cap_body option \<Rightarrow> cap_body option \<Rightarrow> bool" where
  "width_ok (Some (Cap_PCIE p)) (Some (Cap_MSI m _)) =
     (device_type p = PCI_EXP_TYPE_ENDPOINT \<longrightarrow> has_64bit m)"
| "width_ok None (Some (Cap_MSI m _)) = False"
| "width_ok _ _ = True"

definition msi_width_inv :: "'a rc_caps_scheme \<Rightarrow> bool" where
  "msi_width_inv v \<longleftrightarrow>
     (case cap_mgr v of None \<Rightarrow> True
      | Some mgr \<Rightarrow> width_ok (map_option body (pciem_cap_manager_find mgr is_pcie))
                            (map_option body (pciem_cap_manager_find mgr is_msi)))"

lemma find_append: "find P (xs @ ys) = (case find P xs of None \<Rightarrow> find P ys | Some x \<Rightarrow> Some x)"
  by (induction xs) auto

lemma find_push [simp]:
  "pciem_cap_manager_find (push_std mgr sz b) P =
     (case pciem_cap_manager_find mgr P of
        None \<Rightarrow> if P b then Some \<lparr>cap_offset = next_offset mgr, ext_offset = 0, is_extended = False,
                                cap_size = sz, body = b\<rparr> else None
      | Some c \<Rightarrow> Some c)"
  "\<not> P b \<Longrightarrow> pciem_cap_manager_find (push_ext mgr sz b) P = pciem_cap_manager_find mgr P"
  by (simp_all add: pciem_cap_manager_find_def push_std_def push_ext_def find_append
      split: option.splits)

lemma find_pcie_body:
  "pciem_cap_manager_find mgr is_pcie = Some c \<Longrightarrow> \<exists>p. body c = Cap_PCIE p"
  by (cases "body c") (auto simp: pciem_cap_manager_find_def find_Some_iff)

lemma find_msi_body:
  "pciem_cap_manager_find mgr is_msi = Some c \<Longrightarrow> \<exists>m st. body c = Cap_MSI m st"
  by (cases "body c") (auto simp: pciem_cap_manager_find_def find_Some_iff)

lemma check_width_Inr:
  "pciem_check_msi_address_width d is64 = Inr u \<longleftrightarrow> (d = PCI_EXP_TYPE_ENDPOINT \<longrightarrow> is64)"
  by (auto simp: pciem_check_msi_address_width_def)

lemma msi_width_add_msi:
  assumes inv: "msi_width_inv v"
  shows "msi_width_inv (snd (pciem_add_cap_msi v c))"
proof (cases "snd (pciem_add_cap_msi v c) = v")
  case True
  with inv show ?thesis by simp
next
  case False
  then obtain mgr p d where slot: "cap_slot v = Inr mgr"
    and found: "pciem_cap_manager_find mgr is_pcie = Some d" "body d = Cap_PCIE p"
    and width: "pciem_check_msi_address_width (device_type p) (has_64bit c) = Inr ()"
    by (auto simp: pciem_add_cap_msi_def split: sum.splits option.splits cap_body.splits)
  then have new: "snd (pciem_add_cap_msi v c) =
      v\<lparr>cap_mgr := Some (push_std mgr (msi_cap_size c) (Cap_MSI c msi_state0))\<rparr>"
    by (simp add: pciem_add_cap_msi_def)
  from slot found width inv show ?thesis
    unfolding new
    by (cases "pciem_cap_manager_find mgr is_msi")
      (auto simp: msi_width_inv_def cap_slot_Inr check_width_Inr)
qed

lemma msi_width_add_pcie:
  assumes inv: "msi_width_inv v"
  shows "msi_width_inv (snd (pciem_add_cap_pcie v c))"
proof (cases "cap_slot v")
  case (Inl e)
  with inv show ?thesis by (simp add: pciem_add_cap_pcie_def)
next
  case (Inr mgr)
  then have mgr: "cap_mgr v = Some mgr" by (simp add: cap_slot_Inr)
  show ?thesis
  proof (cases "pciem_cap_manager_find mgr is_msi")
    case None
    with Inr mgr show ?thesis
      by (simp add: pciem_add_cap_pcie_def msi_width_inv_def split: option.split)
  next
    case (Some d)
    then obtain m st where d: "body d = Cap_MSI m st" by (blast dest: find_msi_body)
    from inv mgr Some d obtain e p where
      e: "pciem_cap_manager_find mgr is_pcie = Some e" "body e = Cap_PCIE p"
      by (cases "pciem_cap_manager_find mgr is_pcie")
        (auto simp: msi_width_inv_def dest: find_pcie_body)
    from inv mgr Some d e Inr show ?thesis
      by (auto simp: pciem_add_cap_pcie_def msi_width_inv_def pciem_check_msi_address_width_def)
  qed
qed

lemma msi_width_push_other:
  assumes "msi_width_inv v" "cap_mgr v = Some mgr" "\<not> is_msi b" "\<not> is_pcie b"
  shows "msi_width_inv (v\<lparr>cap_mgr := Some (push_std mgr sz b)\<rparr>)"
    and "msi_width_inv (v\<lparr>cap_mgr := Some (push_ext mgr sz b)\<rparr>)"
  using assms by (auto simp: msi_width_inv_def split: option.splits)

lemma msi_width_add [inv_intros]: "msi_width_inv v \<Longrightarrow> msi_width_inv (snd (add_cap op v))"
proof (cases op)
  case (Add_MSI c)
  then show "msi_width_inv v \<Longrightarrow> ?thesis" by (simp add: msi_width_add_msi)
next
  case (Add_PCIE c)
  then show "msi_width_inv v \<Longrightarrow> ?thesis" by (simp add: msi_width_add_pcie)
qed (auto simp: pciem_add_cap_msix_def pciem_add_cap_pm_def pciem_add_cap_vsec_def
    pciem_add_cap_pasid_def cap_slot_Inr split: sum.splits intro: msi_width_push_other)

lemma msi_width_init [inv_intros]: "msi_width_inv v \<Longrightarrow> msi_width_inv (pciem_init_cap_manager ok v)"
  by (auto simp: msi_width_inv_def pciem_init_cap_manager_def pciem_cap_manager_find_def
      split: option.splits)

lemma caps_inv_adds [inv_intros]: "caps_inv v \<Longrightarrow> caps_inv (add_caps ops v)"
  by (induction ops arbitrary: v) (auto intro: caps_inv_add)

lemma msi_width_adds [inv_intros]: "msi_width_inv v \<Longrightarrow> msi_width_inv (add_caps ops v)"
  by (induction ops arbitrary: v) (auto intro: msi_width_add)

lemma no_mgr_inv: "cap_mgr v = None \<Longrightarrow> caps_inv v" "cap_mgr v = None \<Longrightarrow> msi_width_inv v"
  by (simp_all add: caps_inv_def msi_width_inv_def)

end
