(* ===== verification/CapsBuild.thy ===== *)
theory CapsBuild
  imports Caps
begin

text \<open>
  \<open>pciem_build_config_space\<close> of \<^verbatim>\<open>kernel/framework/capabilities.c\<close>: the capability
  manager written into the configuration space as the two linked lists that PCI software walks.

  Each capability is written from its offset on, byte after byte; \<open>emit_std\<close> and \<open>emit_ext\<close> are
  the bytes of the C \<open>switch\<close>. The C code checks no bound: a write past the end of \<open>cfg[256]\<close> or
  \<open>ext_cfg\<close> is out of range, and the model answers \<open>None\<close> for it.

  The main result, \<open>build_walk\<close>, is the refinement: when the capabilities fit, the chain that
  starts at the capability pointer visits exactly the standard capabilities of the manager, in
  the order in which they were added, with their PCI identifiers, and then ends.
\<close>

definition EXT_CFG_SIZE :: nat where
  "EXT_CFG_SIZE = 4096 - PCI_CFG_SPACE_SIZE"

definition PCI_STATUS :: nat where
  "PCI_STATUS = 6"

definition PCI_CAPABILITY_LIST :: nat where
  "PCI_CAPABILITY_LIST = 0x34"

definition PCI_STATUS_CAP_LIST :: u32 where
  "PCI_STATUS_CAP_LIST = 0x10"

lemmas cfg_consts = cap_consts EXT_CFG_SIZE_def PCI_STATUS_def PCI_CAPABILITY_LIST_def
  PCI_STATUS_CAP_LIST_def

subsection \<open>The bytes of one capability\<close>

definition msi_flags :: "msi_config \<Rightarrow> u16" where
  "msi_flags c =
     (if has_64bit c then 0x80 else 0) OR (if has_per_vector_masking c then 0x100 else 0)
       OR push_bit 1 (ucast (num_vectors_log2 c))"

definition pm_caps :: "pm_config \<Rightarrow> u16" where
  "pm_caps c =
     (ucast (pm_version c) AND 3) OR (if d1_support c then 0x200 else 0)
       OR (if d2_support c then 0x400 else 0)
       OR (if pme_support c then 0x800 OR 0x4000 OR 0x8000 else 0)"

definition pcie_link :: "pcie_config \<Rightarrow> u32" where
  "pcie_link c = (ucast (link_speed c) AND 0xF) OR push_bit 4 (ucast (link_width c) AND 0x3F)"

fun emit_std :: "cap_body \<Rightarrow> u8 \<Rightarrow> u8 list" where
  "emit_std (Cap_MSI c _) next_ptr =
     [5, next_ptr] @ le16 (msi_flags c) @ le32 0 @ (if has_64bit c then le32 0 else []) @ le16 0
       @ (if has_per_vector_masking c then le32 0 @ le32 0 else [])"
| "emit_std (Cap_MSIX c _) next_ptr =
     [0x11, next_ptr] @ le16 ((table_size c - 1) AND 0x7FF)
       @ le32 ((table_offset c AND NOT 7) OR (ucast (bar_index c) AND 7))
       @ le32 ((pba_offset c AND NOT 7) OR (ucast (bar_index c) AND 7))"
| "emit_std (Cap_PM c _) next_ptr =
     [1, next_ptr] @ le16 (pm_caps c) @ le16 0 @ [0, 0]"
| "emit_std (Cap_PCIE c) next_ptr =
     [0x10, next_ptr] @ le16 (push_bit 4 (ucast (device_type c)) OR 2) @ le32 0x8000 @ le32 0
       @ le32 (pcie_link c) @ le32 (push_bit 16 (pcie_link c)) @ replicate 40 0"
| "emit_std (Cap_VSEC c) next_ptr =
     [9, next_ptr, ucast ((8 + vsec_length c) AND 0xFF), 0] @ le16 (vsec_vendor_id c)
       @ [ucast (vsec_id c AND 0xFF),
          ucast ((drop_bit 8 (vsec_id c) AND 0xF) OR push_bit 4 (ucast (vsec_rev c) AND 0xF))]
       @ vsec_data c"
| "emit_std (Cap_PASID _ _) next_ptr = []"

definition pasid_cap_reg :: "pasid_config \<Rightarrow> u16" where
  "pasid_cap_reg c =
     (if execute_permission c then 2 else 0) OR (if privileged_mode c then 4 else 0)
       OR (if max_pasid_width c > 0 then push_bit 8 (ucast (max_pasid_width c - 1)) else 0)"

fun emit_ext :: "cap_body \<Rightarrow> u16 \<Rightarrow> u8 list" where
  "emit_ext (Cap_PASID c _) next_ext =
     le32 (0x1B OR push_bit 16 1 OR push_bit 20 (ucast next_ext)) @ le16 (pasid_cap_reg c) @ le16 0"
| "emit_ext _ next_ext = []"

text \<open>The search for the next capability of the same kind, over the entries that follow.\<close>

definition next_std :: "cap_entry list \<Rightarrow> u8" where
  "next_std cs = (case find (\<lambda>c. \<not> is_extended c) cs of None \<Rightarrow> 0 | Some c \<Rightarrow> cap_offset c)"

definition next_ext :: "cap_entry list \<Rightarrow> u16" where
  "next_ext cs = (case find is_extended cs of None \<Rightarrow> 0 | Some c \<Rightarrow> ext_offset c)"

subsection \<open>The two loops\<close>

definition first_std :: "bool \<Rightarrow> cap_entry \<Rightarrow> bytes \<Rightarrow> bytes" where
  "first_std has_std c f =
     (if has_std then f
      else f(PCI_CAPABILITY_LIST := cap_offset c,
             PCI_STATUS := f PCI_STATUS OR ucast (drop_bit 8 PCI_STATUS_CAP_LIST)))"

fun build_std :: "bool \<Rightarrow> bytes \<Rightarrow> cap_entry list \<Rightarrow> (bool \<times> bytes) option" where
  "build_std has_std f [] = Some (has_std, f)"
| "build_std has_std f (c # cs) =
     (if is_extended c then build_std has_std f cs
      else (case store_bytes PCI_CFG_SPACE_SIZE (first_std has_std c f) (unat (cap_offset c))
                   (emit_std (body c) (next_std cs)) of
              None \<Rightarrow> None
            | Some g \<Rightarrow> build_std True g cs))"

fun build_ext :: "bytes \<Rightarrow> cap_entry list \<Rightarrow> bytes option" where
  "build_ext f [] = Some f"
| "build_ext f (c # cs) =
     (if \<not> is_extended c then build_ext f cs
      else (case store_bytes EXT_CFG_SIZE f (unat (ext_offset c) - PCI_CFG_SPACE_SIZE)
                   (emit_ext (body c) (next_ext cs)) of
              None \<Rightarrow> None
            | Some g \<Rightarrow> build_ext g cs))"

definition clear_cap_list :: "bytes \<Rightarrow> bytes" where
  "clear_cap_list f =
     f(PCI_CAPABILITY_LIST := 0,
       PCI_STATUS := f PCI_STATUS AND ucast (NOT (drop_bit 8 PCI_STATUS_CAP_LIST)))"

definition pciem_build_config_space :: "'a rc_caps_scheme \<Rightarrow> 'a rc_caps_scheme option" where
  "pciem_build_config_space v =
     (case cap_mgr v of
        None \<Rightarrow> Some (v\<lparr>cfg := clear_cap_list (cfg v)\<rparr>)
      | Some mgr \<Rightarrow>
          if caps mgr = [] then Some (v\<lparr>cfg := clear_cap_list (cfg v)\<rparr>)
          else (case build_std False (cfg v) (caps mgr) of
                  None \<Rightarrow> None
                | Some (has_std, f) \<Rightarrow>
                    (case build_ext (ext_cfg v) (caps mgr) of
                       None \<Rightarrow> None
                     | Some e \<Rightarrow>
                         Some (v\<lparr>cfg := (if has_std then f else clear_cap_list f),
                                 ext_cfg := e\<rparr>))))"

subsection \<open>Sizes and headers of the emitted bytes\<close>

fun cap_id :: "cap_body \<Rightarrow> u8" where
  "cap_id (Cap_MSI _ _) = 5"
| "cap_id (Cap_MSIX _ _) = 0x11"
| "cap_id (Cap_PM _ _) = 1"
| "cap_id (Cap_PCIE _) = 0x10"
| "cap_id (Cap_VSEC _) = 9"
| "cap_id (Cap_PASID _ _) = 0x1B"

text \<open>The 8-bit size of a vendor-specific capability must hold its header and data.\<close>

fun vsec_fits :: "cap_body \<Rightarrow> bool" where
  "vsec_fits (Cap_VSEC c) = (8 + unat (vsec_length c) < 256 \<and> length (vsec_data c) \<le> unat (vsec_length c))"
| "vsec_fits _ = True"

definition std_fit :: "cap_manager \<Rightarrow> bool" where
  "std_fit mgr \<longleftrightarrow> 64 + caps_len (std_caps mgr) \<le> 256 \<and> list_all (\<lambda>c. vsec_fits (body c)) (caps mgr)"

lemma body_size_ge: "vsec_fits b \<Longrightarrow> 8 \<le> unat (body_size b)"
  by (cases b) (auto simp: msi_cap_size_def Let_def unsigned_ucast_eq unat_word_ariths take_bit_eq_mod)

lemma emit_std_length: "vsec_fits b \<Longrightarrow> length (emit_std b nx) \<le> unat (body_size b)"
  by (cases b) (auto simp: msi_cap_size_def Let_def unsigned_ucast_eq unat_word_ariths take_bit_eq_mod)

lemma emit_std_header:
  assumes "\<not> is_pasid b"
  shows "2 \<le> length (emit_std b nx)" "emit_std b nx ! 0 = cap_id b" "emit_std b nx ! 1 = nx"
  using assms by (cases b; simp)+

subsection \<open>What the first loop writes\<close>

text \<open>
  What PCI software sees of the list: from a pointer, the capability's offset and identifier,
  then the rest of the list at its next pointer; \<open>0\<close> ends it. The fuel bounds the walk, as the
  walkers of PCI software do.
\<close>

fun cap_chain :: "bytes \<Rightarrow> nat \<Rightarrow> u8 \<Rightarrow> (u8 \<times> u8) list" where
  "cap_chain f 0 p = []"
| "cap_chain f (Suc k) p =
     (if p = 0 then [] else (p, f (unat p)) # cap_chain f k (f (unat p + 1)))"

definition std_of :: "cap_entry list \<Rightarrow> cap_entry list" where
  "std_of cs = filter (\<lambda>c. \<not> is_extended c) cs"

lemma std_of_simps [simp]:
  "std_of [] = []" "is_extended c \<Longrightarrow> std_of (c # cs) = std_of cs"
  "\<not> is_extended c \<Longrightarrow> std_of (c # cs) = c # std_of cs"
  by (simp_all add: std_of_def)

lemma next_std_of: "next_std cs = (case std_of cs of [] \<Rightarrow> 0 | c # _ \<Rightarrow> cap_offset c)"
  by (induction cs) (auto simp: next_std_def std_of_def)

definition listing :: "cap_entry list \<Rightarrow> (u8 \<times> u8) list" where
  "listing cs = map (\<lambda>c. (cap_offset c, cap_id (body c))) (std_of cs)"

definition std_ready :: "nat \<Rightarrow> cap_entry list \<Rightarrow> bool" where
  "std_ready n cs \<longleftrightarrow> 64 \<le> n \<and> layout n (std_of cs) \<and> n + caps_len (std_of cs) \<le> 256 \<and>
     list_all entry_ok cs \<and> list_all (\<lambda>c. vsec_fits (body c)) cs"

lemma std_ready_Cons:
  assumes "std_ready n (c # cs)" "\<not> is_extended c"
  shows "std_ready (n + unat (cap_size c)) cs" and "unat (cap_offset c) = n" and "cap_offset c \<noteq> 0"
    and "\<not> is_pasid (body c)" and "n + length (emit_std (body c) nx) \<le> n + unat (cap_size c)"
    and "n + unat (cap_size c) \<le> 256"
proof -
  have ok: "entry_ok c" "vsec_fits (body c)" using assms(1) by (auto simp: std_ready_def)
  then have sz: "8 \<le> unat (cap_size c)" using body_size_ge [of "body c"] by (simp add: entry_ok_def)
  show le: "n + unat (cap_size c) \<le> 256" using assms by (simp add: std_ready_def)
  with assms sz show off: "unat (cap_offset c) = n" by (simp add: std_ready_def)
  show "std_ready (n + unat (cap_size c)) cs" using assms by (simp add: std_ready_def)
  show "cap_offset c \<noteq> 0" using off assms(1) by (auto simp: std_ready_def)
  show "\<not> is_pasid (body c)" using ok assms(2) by (simp add: entry_ok_def)
  show "n + length (emit_std (body c) nx) \<le> n + unat (cap_size c)"
    using ok emit_std_length [of "body c" nx] by (simp add: entry_ok_def)
qed

lemma first_std_other [frame_simps]:
  "h \<or> i \<noteq> PCI_CAPABILITY_LIST \<Longrightarrow> first_std h c f i = f i"
  by (auto simp: first_std_def cfg_consts)

lemma first_std_ptr [access_simps]:
  "first_std False c f PCI_CAPABILITY_LIST = cap_offset c"
  by (simp add: first_std_def cfg_consts)

text \<open>The bytes of a capability stand in the configuration space at its offset.\<close>

definition emitted :: "bytes \<Rightarrow> cap_entry \<Rightarrow> bool" where
  "emitted g c \<longleftrightarrow> (\<exists>nx. \<forall>j<length (emit_std (body c) nx).
     g (unat (cap_offset c) + j) = emit_std (body c) nx ! j)"

definition std_post :: "bool \<Rightarrow> nat \<Rightarrow> bytes \<Rightarrow> cap_entry list \<Rightarrow> bool \<Rightarrow> bytes \<Rightarrow> bool" where
  "std_post h n f cs h' g \<longleftrightarrow>
     h' = (h \<or> std_of cs \<noteq> []) \<and>
     (\<forall>i<n. h \<or> i \<noteq> PCI_CAPABILITY_LIST \<longrightarrow> g i = f i) \<and>
     (\<not> h \<and> std_of cs \<noteq> [] \<longrightarrow> g PCI_CAPABILITY_LIST = next_std cs) \<and>
     (\<not> h \<and> std_of cs = [] \<longrightarrow> g = f) \<and>
     (\<forall>k\<ge>length (std_of cs). cap_chain g k (next_std cs) = listing cs) \<and>
     list_all (emitted g) (std_of cs)"

lemma build_std_spec:
  "std_ready n cs \<Longrightarrow> \<exists>h' g. build_std h f cs = Some (h', g) \<and> std_post h n f cs h' g"
proof (induction cs arbitrary: h n f)
  case Nil
  have "cap_chain f k 0 = []" for k by (cases k) simp_all
  then show ?case by (simp add: std_post_def next_std_of listing_def)
next
  case (Cons c cs)
  show ?case
  proof (cases "is_extended c")
    case True
    with Cons.prems have "std_ready n cs" by (simp add: std_ready_def)
    from Cons.IH [OF this] True show ?thesis
      by (auto simp: std_post_def next_std_of listing_def)
  next
    case False
    note ready = std_ready_Cons [OF Cons.prems False]
    define bs where "bs = emit_std (body c) (next_std cs)"
    define f1 where "f1 = poke (first_std h c f) n bs"
    have len: "2 \<le> length bs" "n + length bs \<le> n + unat (cap_size c)" "64 \<le> n"
      using emit_std_header(1) [OF ready(4)] ready(5) Cons.prems by (auto simp: bs_def std_ready_def)
    have store: "store_bytes PCI_CFG_SPACE_SIZE (first_std h c f) (unat (cap_offset c)) bs = Some f1"
      using len ready(2,6) by (simp add: store_bytes_def f1_def cap_consts)
    obtain h' g where g: "build_std True f1 cs = Some (h', g)"
      and post: "std_post True (n + unat (cap_size c)) f1 cs h' g"
      using Cons.IH [OF ready(1), of True f1] by blast
    have below: "g i = f1 i" if "i < n + unat (cap_size c)" for i
      using post that by (simp add: std_post_def)
    have hd: "g n = cap_id (body c)" "g (n + 1) = next_std cs"
      using below [of n] below [of "n + 1"] len emit_std_header [OF ready(4), of "next_std cs"]
      by (auto simp: f1_def bs_def poke_def)
    have "std_post h n f (c # cs) h' g"
    proof -
      have "cap_chain g k (next_std (c # cs)) = listing (c # cs)" if k: "k \<ge> length (std_of (c # cs))" for k
      proof -
        from k False obtain k' where "k = Suc k'" "k' \<ge> length (std_of cs)"
          by (cases k) auto
        with post hd ready(2,3) False show ?thesis
          by (simp add: std_post_def next_std_of [of "c # cs"] listing_def)
      qed
      moreover have "g PCI_CAPABILITY_LIST = cap_offset c" if "\<not> h"
        using below [of PCI_CAPABILITY_LIST] len that
        by (simp add: f1_def poke_def first_std_ptr cfg_consts)
          (simp add: first_std_def cfg_consts)
      moreover have "g i = f i" if "i < n" "h \<or> i \<noteq> PCI_CAPABILITY_LIST" for i
        using below [of i] that by (simp add: f1_def poke_def first_std_other)
      moreover have "emitted g c"
        unfolding emitted_def ready(2)
        using below len by (intro exI [of _ "next_std cs"]) (auto simp: f1_def bs_def poke_def)
      ultimately show ?thesis
        using post False by (auto simp: std_post_def next_std_of [of "c # cs"])
    qed
    then show ?thesis using g store False by (auto simp: bs_def)
  qed
qed

lemma build_std_overflow:
  assumes "cs = pre @ c # post" "\<not> is_extended c"
    and "256 < unat (cap_offset c) + length (emit_std (body c) (next_std post))"
  shows "build_std h f cs = None"
  using assms
proof (induction pre arbitrary: cs h f)
  case Nil
  then show ?case by (simp add: store_bytes_def cap_consts)
next
  case (Cons d pre)
  then show ?case by (auto split: option.splits)
qed

subsection \<open>The extended list\<close>

fun ext_chain :: "bytes \<Rightarrow> nat \<Rightarrow> nat \<Rightarrow> (nat \<times> u16) list" where
  "ext_chain e 0 p = []"
| "ext_chain e (Suc k) p =
     (if p < PCI_CFG_SPACE_SIZE then []
      else let h = get32 e (p - PCI_CFG_SPACE_SIZE)
           in (p, ucast h) # ext_chain e k (unat (drop_bit 20 h)))"

definition ext_of :: "cap_entry list \<Rightarrow> cap_entry list" where
  "ext_of cs = filter is_extended cs"

lemma ext_of_simps [simp]:
  "ext_of [] = []" "is_extended c \<Longrightarrow> ext_of (c # cs) = c # ext_of cs"
  "\<not> is_extended c \<Longrightarrow> ext_of (c # cs) = ext_of cs"
  by (simp_all add: ext_of_def)

lemma next_ext_of: "next_ext cs = (case ext_of cs of [] \<Rightarrow> 0 | c # _ \<Rightarrow> ext_offset c)"
  by (induction cs) (auto simp: next_ext_def ext_of_def)

definition ext_listing :: "cap_entry list \<Rightarrow> (nat \<times> u16) list" where
  "ext_listing cs = map (\<lambda>c. (unat (ext_offset c), ucast (cap_id (body c)))) (ext_of cs)"

definition ext_ready :: "nat \<Rightarrow> cap_entry list \<Rightarrow> bool" where
  "ext_ready n cs \<longleftrightarrow> 256 \<le> n \<and> ext_layout n (ext_of cs) \<and> n + caps_len (ext_of cs) \<le> 4096 \<and>
     list_all entry_ok cs"

definition ext_header :: "u16 \<Rightarrow> u32" where
  "ext_header nx = 0x1B OR push_bit 16 1 OR push_bit 20 (ucast nx)"

lemma ext_header_id: "(ucast (ext_header nx) :: u16) = 0x1B"
proof (rule bit_word_eqI)
  fix k
  assume k: "k < LENGTH(16)"
  have "bit (0x10000 :: u32) k = False"
    using k bit_push_bit_iff [of 16 "1 :: u32" k] by simp
  with k show "bit (ucast (ext_header nx) :: u16) k = bit (0x1B :: u16) k"
    by (auto simp: ext_header_def bit_simps)
qed

lemma ext_header_next:
  assumes "unat nx < 4096"
  shows "unat (drop_bit 20 (ext_header nx)) = unat nx"
proof -
  have small: "k < 12" if "bit nx k" for k
    using bit_small [of nx 12 k] assms that by simp
  have "drop_bit 20 (ext_header nx) = ucast nx"
  proof (rule bit_word_eqI)
    fix k
    assume "k < LENGTH(32)"
    moreover have "\<not> bit (0x1B :: u32) (20 + k)" "\<not> bit (push_bit 16 1 :: u32) (20 + k)"
      by (simp_all add: bit_simps bit_numeral_rec)
    ultimately show "bit (drop_bit 20 (ext_header nx)) k = bit (ucast nx :: u32) k"
      by (auto simp: ext_header_def bit_simps dest: small)
  qed
  then show ?thesis using assms by (simp add: unsigned_ucast_eq take_bit_nat_eq_self)
qed

lemma get32_header:
  assumes "\<And>i. i < 8 \<Longrightarrow> e (n + i) = poke f n (emit_ext (Cap_PASID c st) nx) (n + i)"
  shows "get32 e n = ext_header nx"
proof -
  have "get32 e n = get32 (poke f n (le32 (ext_header nx))) n"
    using assms [of 0] assms [of 1] assms [of 2] assms [of 3]
    by (intro get32_cong) (simp_all add: poke_def ext_header_def nth_append)
  then show ?thesis by (simp add: access_simps)
qed

lemma build_ext_spec:
  "ext_ready n cs \<Longrightarrow> \<exists>g. build_ext f cs = Some g \<and> (\<forall>i < n - 256. g i = f i) \<and>
     (\<forall>k\<ge>length (ext_of cs). ext_chain g k (unat (next_ext cs)) = ext_listing cs)"
proof (induction cs arbitrary: n f)
  case Nil
  have "ext_chain f k 0 = []" for k by (cases k) (simp_all add: cfg_consts)
  then show ?case by (simp add: next_ext_of ext_listing_def)
next
  case (Cons c cs)
  show ?case
  proof (cases "is_extended c")
    case False
    with Cons.prems have "ext_ready n cs" by (simp add: ext_ready_def)
    from Cons.IH [OF this] False show ?thesis
      by (auto simp: next_ext_of ext_listing_def)
  next
    case True
    from Cons.prems have ok: "entry_ok c" by (simp add: ext_ready_def)
    with True obtain p st where b: "body c = Cap_PASID p st" and sz: "unat (cap_size c) = 8"
      by (cases "body c") (auto simp: entry_ok_def)
    from Cons.prems True sz have n: "unat (ext_offset c) = n" "256 \<le> n" "n + 8 \<le> 4096"
      and ready: "ext_ready (n + 8) cs"
      by (auto simp: ext_ready_def)
    define f1 where "f1 = poke f (n - 256) (emit_ext (body c) (next_ext cs))"
    have store: "store_bytes EXT_CFG_SIZE f (unat (ext_offset c) - PCI_CFG_SPACE_SIZE)
        (emit_ext (body c) (next_ext cs)) = Some f1"
      using n b by (simp add: store_bytes_def f1_def cfg_consts)
    obtain g where g: "build_ext f1 cs = Some g" "\<And>i. i < n - 256 + 8 \<Longrightarrow> g i = f1 i"
      and chain: "\<And>k. k \<ge> length (ext_of cs) \<Longrightarrow> ext_chain g k (unat (next_ext cs)) = ext_listing cs"
      using Cons.IH [OF ready, of f1] n(2) by auto
    have nxt: "unat (next_ext cs) < 4096"
    proof (cases "ext_of cs")
      case (Cons a l)
      then have "a \<in> set (ext_of cs)" by simp
      then have "unat (cap_size a) = 8"
        using ready by (auto simp: ext_ready_def ext_of_def list_all_iff intro: entry_ok_ext_size)
      with Cons ready show ?thesis by (simp add: next_ext_of ext_ready_def)
    qed (simp add: next_ext_of)
    have hdr: "get32 g (n - 256) = ext_header (next_ext cs)"
      by (rule get32_header [of _ _ f p st]) (simp add: g(2) f1_def b)
    have "ext_chain g k (unat (next_ext (c # cs))) = ext_listing (c # cs)"
      if k: "k \<ge> length (ext_of (c # cs))" for k
    proof -
      from k True obtain k' where "k = Suc k'" "k' \<ge> length (ext_of cs)" by (cases k) auto
      then show ?thesis
        using True n hdr chain [of k'] b
        by (simp add: next_ext_of [of "c # cs"] ext_listing_def cfg_consts Let_def ext_header_id
            ext_header_next [OF nxt])
    qed
    moreover have "g i = f i" if "i < n - 256" for i
      using g(2) [of i] that by (simp add: f1_def poke_def)
    ultimately show ?thesis using g(1) store True by auto
  qed
qed

subsection \<open>The whole configuration space\<close>

lemma mgr_inv_ready:
  assumes "mgr_inv mgr"
  shows "std_fit mgr \<Longrightarrow> std_ready 64 (caps mgr)" and "ext_ready 256 (caps mgr)"
proof -
  show "std_fit mgr \<Longrightarrow> std_ready 64 (caps mgr)"
    using assms by (simp add: std_fit_def std_ready_def mgr_inv_def std_of_def std_caps_def)
  have "length (ext_caps mgr) \<le> 16"
    using assms by (simp add: mgr_inv_def ext_caps_def cap_consts length_filter_le_bound)
  then show "ext_ready 256 (caps mgr)"
    using assms ext_caps_len [of mgr]
    by (simp add: ext_ready_def mgr_inv_def ext_of_def ext_caps_def)
qed

lemma std_of_length: "mgr_inv mgr \<Longrightarrow> length (std_of (caps mgr)) \<le> 16"
  by (simp add: mgr_inv_def std_of_def cap_consts length_filter_le_bound)

lemma ext_of_length: "mgr_inv mgr \<Longrightarrow> length (ext_of (caps mgr)) \<le> 16"
  by (simp add: mgr_inv_def ext_of_def cap_consts length_filter_le_bound)

lemma clear_cap_list_at [access_simps]:
  "clear_cap_list f PCI_CAPABILITY_LIST = 0" "clear_cap_list f PCI_STATUS = f PCI_STATUS"
  "i \<noteq> PCI_CAPABILITY_LIST \<Longrightarrow> clear_cap_list f i = f i"
  by (simp_all add: clear_cap_list_def cfg_consts)

lemma build_ok:
  assumes mgr: "cap_mgr v = Some mgr" and inv: "mgr_inv mgr" and fit: "std_fit mgr"
  obtains v' where "pciem_build_config_space v = Some v'"
    and "cap_chain (cfg v') 48 (cfg v' PCI_CAPABILITY_LIST) = listing (caps mgr)"
    and "ext_of (caps mgr) \<noteq> [] \<Longrightarrow> ext_chain (ext_cfg v') 48 256 = ext_listing (caps mgr)"
    and "\<And>i. i < 64 \<Longrightarrow> i \<noteq> PCI_CAPABILITY_LIST \<Longrightarrow> cfg v' i = cfg v i"
    and "cap_mgr v' = cap_mgr v"
    and "list_all (emitted (cfg v')) (std_of (caps mgr))"
proof -
  obtain h' g where g: "build_std False (cfg v) (caps mgr) = Some (h', g)"
    "std_post False 64 (cfg v) (caps mgr) h' g"
    using build_std_spec [OF mgr_inv_ready(1) [OF inv fit]] by blast
  obtain e where e: "build_ext (ext_cfg v) (caps mgr) = Some e"
    "\<And>k. k \<ge> length (ext_of (caps mgr)) \<Longrightarrow>
        ext_chain e k (unat (next_ext (caps mgr))) = ext_listing (caps mgr)"
    using build_ext_spec [OF mgr_inv_ready(2) [OF inv]] by blast
  define v' where "v' = (if caps mgr = [] then v\<lparr>cfg := clear_cap_list (cfg v)\<rparr>
    else v\<lparr>cfg := (if h' then g else clear_cap_list g), ext_cfg := e\<rparr>)"
  have "cap_chain f 48 0 = []" for f by (simp add: numeral_eq_Suc)
  then have chain: "cap_chain (cfg v') 48 (cfg v' PCI_CAPABILITY_LIST) = listing (caps mgr)"
    using g(2) std_of_length [OF inv]
    by (cases "std_of (caps mgr)") (auto simp: v'_def std_post_def listing_def access_simps)
  have ext: "ext_chain (ext_cfg v') 48 256 = ext_listing (caps mgr)"
    if "ext_of (caps mgr) \<noteq> []"
  proof -
    have "caps mgr \<noteq> []" "unat (next_ext (caps mgr)) = 256"
      using that mgr_inv_ready(2) [OF inv]
      by (auto simp: next_ext_of ext_ready_def split: list.splits)
    with e(2) [of 48] ext_of_length [OF inv] show ?thesis by (simp add: v'_def)
  qed
  have frame: "cfg v' i = cfg v i" if "i < 64" "i \<noteq> PCI_CAPABILITY_LIST" for i
    using g(2) that by (auto simp: v'_def std_post_def access_simps)
  have built: "pciem_build_config_space v = Some v'"
    using mgr g(1) e(1) by (simp add: pciem_build_config_space_def v'_def)
  have mgr': "cap_mgr v' = cap_mgr v" by (simp add: v'_def)
  have bytes: "list_all (emitted (cfg v')) (std_of (caps mgr))"
    using g(2) by (cases "std_of (caps mgr)") (auto simp: v'_def std_post_def)
  show ?thesis by (rule that [OF built chain ext frame mgr' bytes])
qed

end
