(* ===== verification/CapsAccess.thy ===== *)
theory CapsAccess
  imports CapsBuild
begin

text \<open>
  Accesses of the guest to the registers of a capability:
  \<open>pciem_handle_cap_read\<close> and \<open>pciem_handle_cap_write\<close> of
  \<^verbatim>\<open>kernel/framework/capabilities.c\<close> with their per-capability handlers.

  A read answers \<open>Some value\<close> where the C function returns true and \<open>None\<close> where it returns
  false (the caller then reads the raw byte view). A write answers whether it was consumed, the
  new entry and the new byte view; the handlers write the accepted value back to the byte view.

  The results: a write is read back (after the masks of the register), a write changes no byte
  outside the accessed range, and the byte view agrees with the typed state for every register
  that was written.
\<close>

definition handle_msi_read :: "msi_config \<Rightarrow> msi_state \<Rightarrow> nat \<Rightarrow> int \<Rightarrow> u32 option" where
  "handle_msi_read c st off sz =
     (if off = 2 \<and> sz = 2 then Some (ucast (msi_control st))
      else if off = 4 then Some (address_lo st)
      else if has_64bit c then
        (if off = 8 then Some (address_hi st)
         else if off = 12 then Some (ucast (msi_data st)) else None)
      else (if off = 8 then Some (ucast (msi_data st)) else None))"

definition handle_msix_read :: "msix_state \<Rightarrow> nat \<Rightarrow> int \<Rightarrow> u32 option" where
  "handle_msix_read st off sz =
     (if off = 2 \<and> sz = 2 then Some (ucast (msix_control st)) else None)"

definition handle_pm_read :: "pm_state \<Rightarrow> nat \<Rightarrow> int \<Rightarrow> u32 option" where
  "handle_pm_read st off sz =
     (if off = 4 \<and> sz = 2 then Some (ucast (pm_control st)) else None)"

definition handle_pasid_read :: "pasid_state \<Rightarrow> nat \<Rightarrow> int \<Rightarrow> u32 option" where
  "handle_pasid_read st off sz =
     (if off = 6 \<and> sz = 2 then Some (ucast (pasid_control st)) else None)"

definition cap_base :: "cap_entry \<Rightarrow> int" where
  "cap_base c = (if is_extended c then int (unat (ext_offset c)) else int (unat (cap_offset c)))"

definition cap_covers :: "int \<Rightarrow> cap_entry \<Rightarrow> bool" where
  "cap_covers pos c \<longleftrightarrow> \<not> (pos < cap_base c \<or> pos \<ge> cap_base c + int (unat (cap_size c)))"

fun read_entry :: "cap_body \<Rightarrow> nat \<Rightarrow> int \<Rightarrow> u32 option" where
  "read_entry (Cap_MSI c st) off sz = handle_msi_read c st off sz"
| "read_entry (Cap_MSIX c st) off sz = handle_msix_read st off sz"
| "read_entry (Cap_PM c st) off sz = handle_pm_read st off sz"
| "read_entry (Cap_PASID c st) off sz = handle_pasid_read st off sz"
| "read_entry _ off sz = None"

fun cap_read_loop :: "cap_entry list \<Rightarrow> int \<Rightarrow> int \<Rightarrow> u32 option" where
  "cap_read_loop [] pos sz = None"
| "cap_read_loop (c # cs) pos sz =
     (if cap_covers pos c then read_entry (body c) (nat (pos - cap_base c)) sz
      else cap_read_loop cs pos sz)"

definition pciem_handle_cap_read :: "'a rc_caps_scheme \<Rightarrow> int \<Rightarrow> int \<Rightarrow> u32 option" where
  "pciem_handle_cap_read v pos sz =
     (case cap_mgr v of None \<Rightarrow> None | Some mgr \<Rightarrow> cap_read_loop (caps mgr) pos sz)"

subsection \<open>Writes\<close>

text \<open>
  A handler answers the new typed state and the bytes it stores at the register, or \<open>None\<close> where
  the C handler returns false.
\<close>

definition handle_msi_write ::
    "msi_config \<Rightarrow> msi_state \<Rightarrow> nat \<Rightarrow> int \<Rightarrow> u32 \<Rightarrow> (msi_state \<times> u8 list) option" where
  "handle_msi_write c st off sz val =
     (if off = 2 \<and> sz = 2 then Some (st\<lparr>msi_control := ucast val\<rparr>, le16 (ucast val))
      else if off = 4 \<and> sz = 4 then Some (st\<lparr>address_lo := val\<rparr>, le32 val)
      else if has_64bit c then
        (if off = 8 \<and> sz = 4 then Some (st\<lparr>address_hi := val\<rparr>, le32 val)
         else if off = 12 \<and> sz = 2 then Some (st\<lparr>msi_data := ucast val\<rparr>, le16 (ucast val))
         else if off = 16 \<and> sz = 4 then Some (st\<lparr>mask_bits := val\<rparr>, le32 val)
         else None)
      else
        (if off = 8 \<and> sz = 2 then Some (st\<lparr>msi_data := ucast val\<rparr>, le16 (ucast val))
         else if off = 12 \<and> sz = 4 then Some (st\<lparr>mask_bits := val\<rparr>, le32 val)
         else None))"

definition handle_msix_write ::
    "msix_state \<Rightarrow> nat \<Rightarrow> int \<Rightarrow> u32 \<Rightarrow> (msix_state \<times> u8 list) option" where
  "handle_msix_write st off sz val =
     (if off = 2 \<and> sz = 2 then
        let ctl = (msix_control st AND 0x07FF) OR ucast (val AND 0xC000)
        in Some (st\<lparr>msix_control := ctl\<rparr>, le16 ctl)
      else None)"

definition handle_pm_write ::
    "pm_state \<Rightarrow> nat \<Rightarrow> int \<Rightarrow> u32 \<Rightarrow> (pm_state \<times> u8 list) option" where
  "handle_pm_write st off sz val =
     (if off = 4 \<and> sz = 2 then
        let ctl = ucast (val AND (0x3 OR 0x100 OR 0x8000))
        in Some (st\<lparr>pm_control := ctl\<rparr>, le16 ctl)
      else None)"

definition handle_pasid_write ::
    "pasid_state \<Rightarrow> nat \<Rightarrow> int \<Rightarrow> u32 \<Rightarrow> (pasid_state \<times> u8 list) option" where
  "handle_pasid_write st off sz val =
     (if off = 6 \<and> sz = 2 then
        let ctl = ucast (val AND (0x1 OR 0x2 OR 0x4))
        in Some (st\<lparr>pasid_control := ctl\<rparr>, le16 ctl)
      else None)"

text \<open>
  The \<open>switch\<close> of \<open>pciem_handle_cap_write\<close>: \<open>None\<close> for false; for true the new body and the bytes
  to store (none for the capabilities of the default branch, whose writes are swallowed).
\<close>

fun write_entry :: "cap_body \<Rightarrow> nat \<Rightarrow> int \<Rightarrow> u32 \<Rightarrow> (cap_body \<times> u8 list) option" where
  "write_entry (Cap_MSI c st) off sz val =
     map_option (\<lambda>(st', bs). (Cap_MSI c st', bs)) (handle_msi_write c st off sz val)"
| "write_entry (Cap_MSIX c st) off sz val =
     map_option (\<lambda>(st', bs). (Cap_MSIX c st', bs)) (handle_msix_write st off sz val)"
| "write_entry (Cap_PM c st) off sz val =
     map_option (\<lambda>(st', bs). (Cap_PM c st', bs)) (handle_pm_write st off sz val)"
| "write_entry (Cap_PASID c st) off sz val =
     map_option (\<lambda>(st', bs). (Cap_PASID c st', bs)) (handle_pasid_write st off sz val)"
| "write_entry b off sz val = Some (b, [])"

fun cap_write_loop ::
    "cap_entry list \<Rightarrow> int \<Rightarrow> int \<Rightarrow> u32 \<Rightarrow> (cap_entry list \<times> cap_entry \<times> u8 list) option" where
  "cap_write_loop [] pos sz val = None"
| "cap_write_loop (c # cs) pos sz val =
     (if cap_covers pos c then
        (case write_entry (body c) (nat (pos - cap_base c)) sz val of
           None \<Rightarrow> None
         | Some (b, bs) \<Rightarrow> Some (c\<lparr>body := b\<rparr> # cs, c, bs))
      else map_option (\<lambda>(cs', r). (c # cs', r)) (cap_write_loop cs pos sz val))"

definition pciem_handle_cap_write ::
    "'a rc_caps_scheme \<Rightarrow> int \<Rightarrow> int \<Rightarrow> u32 \<Rightarrow> bool \<times> 'a rc_caps_scheme" where
  "pciem_handle_cap_write v pos sz val =
     (case cap_mgr v of
        None \<Rightarrow> (False, v)
      | Some mgr \<Rightarrow>
          (case cap_write_loop (caps mgr) pos sz val of
             None \<Rightarrow> (False, v)
           | Some (cs, c, bs) \<Rightarrow>
               (True,
                (if is_extended c
                 then v\<lparr>cap_mgr := Some (mgr\<lparr>caps := cs\<rparr>),
                        ext_cfg := poke (ext_cfg v) (nat pos - PCI_CFG_SPACE_SIZE) bs\<rparr>
                 else v\<lparr>cap_mgr := Some (mgr\<lparr>caps := cs\<rparr>), cfg := poke (cfg v) (nat pos) bs\<rparr>))))"

lemmas read_defs = handle_msi_read_def handle_msix_read_def handle_pm_read_def handle_pasid_read_def
lemmas write_defs =
  handle_msi_write_def handle_msix_write_def handle_pm_write_def handle_pasid_write_def

subsection \<open>The writes of one entry\<close>

lemma write_entry_length:
  "write_entry b off sz val = Some (b', bs) \<Longrightarrow> int (length bs) = sz \<or> bs = []"
  by (cases b) (auto simp: write_defs Let_def split: if_splits)

lemma write_entry_shape:
  "write_entry b off sz val = Some (b', bs) \<Longrightarrow>
     body_size b' = body_size b \<and> is_pasid b' = is_pasid b \<and> is_msi b' = is_msi b \<and>
     is_pcie b' = is_pcie b \<and> cap_id b' = cap_id b \<and> vsec_fits b' = vsec_fits b"
  by (cases b) (auto split: if_splits)

text \<open>
  The register a guest writes and reads: the value a 2- or 4-byte write leaves, after the
  write masks of its capability.
\<close>

fun reg_mask :: "cap_body \<Rightarrow> nat \<Rightarrow> u32" where
  "reg_mask (Cap_MSI c st) off = (if off = 2 then 0xFFFF else 0xFFFFFFFF)"
| "reg_mask (Cap_MSIX c st) off = 0xC000"
| "reg_mask (Cap_PM c st) off = 0x8103"
| "reg_mask (Cap_PASID c st) off = 7"
| "reg_mask _ off = 0"

lemma write_entry_reg:
  assumes "write_entry b off sz val = Some (b', bs)" "bs \<noteq> []"
  shows "2 \<le> off" and "sz = 2 \<or> sz = 4"
  using assms by (cases b; auto simp: write_defs Let_def split: if_splits)+

lemma mask_ucast16: "(ucast (ucast (x :: u32) :: u16) :: u32) = x AND 0xFFFF"
proof (rule bit_word_eqI)
  fix k
  assume k: "k < LENGTH(32)"
  have "bit (0xFFFF :: u32) k \<longleftrightarrow> k < 16"
    using bit_mask_iff [of 16 k, where 'a = u32] k by (simp add: mask_eq_exp_minus_1)
  with k show "bit (ucast (ucast x :: u16) :: u32) k = bit (x AND 0xFFFF) k"
    by (auto simp: bit_simps)
qed

text \<open>
  What a register reads after an accepted write: the written value under the write mask, with
  the read-only table-size field of MSI-X kept. The MSI mask register has no read handler.
\<close>

fun reg_after :: "cap_body \<Rightarrow> nat \<Rightarrow> u32 \<Rightarrow> u32" where
  "reg_after (Cap_MSI c st) off val =
     (if off = 2 \<or> (off = 12 \<and> has_64bit c) \<or> (off = 8 \<and> \<not> has_64bit c) then val AND 0xFFFF else val)"
| "reg_after (Cap_MSIX c st) off val = (ucast (msix_control st) AND 0x07FF) OR (val AND 0xC000)"
| "reg_after (Cap_PM c st) off val = val AND 0x8103"
| "reg_after (Cap_PASID c st) off val = val AND 7"
| "reg_after _ off val = 0"

fun is_mask_reg :: "cap_body \<Rightarrow> nat \<Rightarrow> bool" where
  "is_mask_reg (Cap_MSI c st) off = (off = (if has_64bit c then 16 else 12))"
| "is_mask_reg _ off = False"

lemma ucast_and: "(ucast (x AND y :: 'a::len word) :: 'b::len word) = ucast x AND ucast y"
  by (rule bit_word_eqI) (auto simp: bit_simps)

lemma ucast_or: "(ucast (x OR y :: 'a::len word) :: 'b::len word) = ucast x OR ucast y"
  by (rule bit_word_eqI) (auto simp: bit_simps)

lemma write_entry_read:
  assumes "write_entry b off sz val = Some (b', bs)" "bs \<noteq> []" "\<not> is_mask_reg b off"
  shows "read_entry b' off sz = Some (reg_after b off val)"
proof (cases b)
  case (Cap_MSI c st)
  with assms show ?thesis
    by (auto simp: write_defs read_defs mask_ucast16 split: if_splits)
next
  case (Cap_MSIX c st)
  with assms show ?thesis
    by (auto simp: write_defs read_defs Let_def ucast_or ucast_and mask_ucast16 and.assoc split: if_splits)
next
  case (Cap_PM c st)
  with assms show ?thesis
    by (auto simp: write_defs read_defs Let_def mask_ucast16 and.assoc split: if_splits)
next
  case (Cap_PASID c st)
  with assms show ?thesis
    by (auto simp: write_defs read_defs Let_def mask_ucast16 and.assoc split: if_splits)
qed (use assms in auto)

text \<open>The bytes that go to the byte view are those of the value the register then reads.\<close>

lemma write_entry_bytes:
  assumes "write_entry b off sz val = Some (b', bs)" "bs \<noteq> []" "read_entry b' off sz = Some r"
  shows "bs = (if sz = 2 then le16 (ucast r) else le32 r)"
  using assms
  by (cases b) (auto simp: write_defs read_defs Let_def split: if_splits)

subsection \<open>The loops over the capabilities\<close>

lemma cap_write_loop_Some:
  assumes "cap_write_loop cs pos sz val = Some (cs', c, bs)"
  obtains pre post b where "cs = pre @ c # post" "cs' = pre @ c\<lparr>body := b\<rparr> # post"
    "\<forall>d\<in>set pre. \<not> cap_covers pos d" "cap_covers pos c"
    "write_entry (body c) (nat (pos - cap_base c)) sz val = Some (b, bs)"
  using assms
proof (induction cs arbitrary: cs' thesis)
  case Nil
  then show ?case by simp
next
  case (Cons d cs)
  show ?case
  proof (cases "cap_covers pos d")
    case True
    with Cons.prems(2) obtain b where "write_entry (body d) (nat (pos - cap_base d)) sz val = Some (b, bs)"
      "c = d" "cs' = d\<lparr>body := b\<rparr> # cs"
      by (auto split: option.splits)
    with True show ?thesis using Cons.prems(1) [of "[]" cs b] by simp
  next
    case False
    with Cons.prems(2) obtain ds where ds: "cap_write_loop cs pos sz val = Some (ds, c, bs)"
      "cs' = d # ds"
      by auto
    obtain pre post b where "cs = pre @ c # post" "ds = pre @ c\<lparr>body := b\<rparr> # post"
      "\<forall>d\<in>set pre. \<not> cap_covers pos d" "cap_covers pos c"
      "write_entry (body c) (nat (pos - cap_base c)) sz val = Some (b, bs)"
      using Cons.IH [OF _ ds(1)] by metis
    with False ds(2) show ?thesis using Cons.prems(1) [of "d # pre" post b] by simp
  qed
qed

lemma cap_read_loop_at:
  assumes "\<forall>d\<in>set pre. \<not> cap_covers pos d" "cap_covers pos c"
  shows "cap_read_loop (pre @ c # post) pos sz = read_entry (body c) (nat (pos - cap_base c)) sz"
  using assms by (induction pre) auto

lemma cap_covers_body [simp]: "cap_covers pos (c\<lparr>body := b\<rparr>) = cap_covers pos c"
  "cap_base (c\<lparr>body := b\<rparr>) = cap_base c"
  by (simp_all add: cap_covers_def cap_base_def)

text \<open>A successful capability write, taken apart.\<close>

lemma cap_write_cases:
  assumes "pciem_handle_cap_write v pos sz val = (True, v')"
  obtains mgr pre c post b bs where "cap_mgr v = Some mgr" "caps mgr = pre @ c # post"
    "cap_mgr v' = Some (mgr\<lparr>caps := pre @ c\<lparr>body := b\<rparr> # post\<rparr>)"
    "\<forall>d\<in>set pre. \<not> cap_covers pos d" "cap_covers pos c"
    "write_entry (body c) (nat (pos - cap_base c)) sz val = Some (b, bs)"
    "cfg v' = (if is_extended c then cfg v else poke (cfg v) (nat pos) bs)"
    "ext_cfg v' = (if is_extended c then poke (ext_cfg v) (nat pos - PCI_CFG_SPACE_SIZE) bs else ext_cfg v)"
proof -
  from assms obtain mgr cs c bs where mgr: "cap_mgr v = Some mgr"
    and loop: "cap_write_loop (caps mgr) pos sz val = Some (cs, c, bs)"
    and v': "v' = (if is_extended c
        then v\<lparr>cap_mgr := Some (mgr\<lparr>caps := cs\<rparr>),
               ext_cfg := poke (ext_cfg v) (nat pos - PCI_CFG_SPACE_SIZE) bs\<rparr>
        else v\<lparr>cap_mgr := Some (mgr\<lparr>caps := cs\<rparr>), cfg := poke (cfg v) (nat pos) bs\<rparr>)"
    by (auto simp: pciem_handle_cap_write_def split: option.splits prod.splits)
  from loop show ?thesis
  proof (rule cap_write_loop_Some)
    fix pre post b
    assume "caps mgr = pre @ c # post" "cs = pre @ c\<lparr>body := b\<rparr> # post"
      "\<forall>d\<in>set pre. \<not> cap_covers pos d" "cap_covers pos c"
      "write_entry (body c) (nat (pos - cap_base c)) sz val = Some (b, bs)"
    with mgr v' show ?thesis by (intro that) auto
  qed
qed

lemma cap_write_refused:
  "pciem_handle_cap_write v pos sz val = (False, v') \<Longrightarrow> v' = v"
  by (auto simp: pciem_handle_cap_write_def split: option.splits prod.splits if_splits)

lemma cap_write_hit:
  assumes "cap_mgr v = Some mgr" "find (cap_covers pos) (caps mgr) = Some c"
  shows "fst (pciem_handle_cap_write v pos sz val) \<longleftrightarrow>
    write_entry (body c) (nat (pos - cap_base c)) sz val \<noteq> None"
proof -
  have "cap_write_loop cs pos sz val = None \<longleftrightarrow>
      write_entry (body c) (nat (pos - cap_base c)) sz val = None"
    if "find (cap_covers pos) cs = Some c" for cs
    using that by (induction cs) (auto split: if_splits option.splits)
  from this [OF assms(2)] show ?thesis
    using assms(1) by (auto simp: pciem_handle_cap_write_def split: option.splits)
qed

text \<open>Only the accessed bytes change, and the layout of the capabilities is untouched.\<close>

lemma cap_write_frame:
  assumes "pciem_handle_cap_write v pos sz val = (ok, v')" "0 \<le> pos" "0 \<le> sz"
  shows "\<lbrakk>nat pos \<le> i \<Longrightarrow> nat pos + nat sz \<le> i\<rbrakk> \<Longrightarrow> cfg v' i = cfg v i"
    and "\<lbrakk>nat pos - PCI_CFG_SPACE_SIZE \<le> i \<Longrightarrow> nat pos - PCI_CFG_SPACE_SIZE + nat sz \<le> i\<rbrakk> \<Longrightarrow>
           ext_cfg v' i = ext_cfg v i"
proof -
  have "((nat pos \<le> i \<longrightarrow> nat pos + nat sz \<le> i) \<longrightarrow> cfg v' i = cfg v i) \<and>
    ((nat pos - PCI_CFG_SPACE_SIZE \<le> i \<longrightarrow> nat pos - PCI_CFG_SPACE_SIZE + nat sz \<le> i) \<longrightarrow>
       ext_cfg v' i = ext_cfg v i)"
  proof (cases ok)
    case False
    with assms show ?thesis by (auto dest: cap_write_refused)
  next
    case True
    with assms(1) have "pciem_handle_cap_write v pos sz val = (True, v')" by simp
    then show ?thesis
    proof (rule cap_write_cases)
      fix mgr pre c post b bs
      assume w: "write_entry (body c) (nat (pos - cap_base c)) sz val = Some (b, bs)"
        and eqs: "cfg v' = (if is_extended c then cfg v else poke (cfg v) (nat pos) bs)"
          "ext_cfg v' = (if is_extended c then poke (ext_cfg v) (nat pos - PCI_CFG_SPACE_SIZE) bs
             else ext_cfg v)"
      have "length bs \<le> nat sz" using write_entry_length [OF w] by auto
      then show ?thesis by (auto simp: eqs poke_def)
    qed
  qed
  then show "\<lbrakk>nat pos \<le> i \<Longrightarrow> nat pos + nat sz \<le> i\<rbrakk> \<Longrightarrow> cfg v' i = cfg v i"
    and "\<lbrakk>nat pos - PCI_CFG_SPACE_SIZE \<le> i \<Longrightarrow> nat pos - PCI_CFG_SPACE_SIZE + nat sz \<le> i\<rbrakk> \<Longrightarrow>
           ext_cfg v' i = ext_cfg v i"
    by blast+
qed

lemma layout_body: "layout n (pre @ c\<lparr>body := b\<rparr> # post) = layout n (pre @ c # post)"
  "ext_layout n (pre @ c\<lparr>body := b\<rparr> # post) = ext_layout n (pre @ c # post)"
  by simp_all

lemma caps_inv_write [inv_intros]:
  assumes "caps_inv v" "pciem_handle_cap_write v pos sz val = (ok, v')"
  shows "caps_inv v'"
proof (cases ok)
  case False
  with assms show ?thesis by (auto dest: cap_write_refused)
next
  case True
  with assms(2) have "pciem_handle_cap_write v pos sz val = (True, v')" by simp
  then show ?thesis
  proof (rule cap_write_cases)
    fix mgr pre c post b bs
    assume mgr: "cap_mgr v = Some mgr" "caps mgr = pre @ c # post"
      "cap_mgr v' = Some (mgr\<lparr>caps := pre @ c\<lparr>body := b\<rparr> # post\<rparr>)"
      and w: "write_entry (body c) (nat (pos - cap_base c)) sz val = Some (b, bs)"
    from assms(1) mgr write_entry_shape [OF w] show ?thesis
      by (cases "is_extended c") (auto simp: caps_inv_def mgr_inv_def std_caps_def ext_caps_def entry_ok_def)
  qed
qed

text \<open>A write that hits a register is read back under the register's mask.\<close>

fun is_vsec :: "cap_body \<Rightarrow> bool" where
  "is_vsec (Cap_VSEC _) = True"
| "is_vsec _ = False"

lemma cap_write_read:
  assumes w: "pciem_handle_cap_write v pos sz val = (True, v')" and mgr: "cap_mgr v = Some mgr"
    and c: "find (cap_covers pos) (caps mgr) = Some c"
    and reg: "\<not> is_mask_reg (body c) (nat (pos - cap_base c))"
    and state: "\<not> is_pcie (body c)" "\<not> is_vsec (body c)"
  shows "pciem_handle_cap_read v' pos sz = Some (reg_after (body c) (nat (pos - cap_base c)) val)"
  using w
proof (rule cap_write_cases)
  fix mgr' pre d post b bs
  assume h: "cap_mgr v = Some mgr'" "caps mgr' = pre @ d # post"
    "cap_mgr v' = Some (mgr'\<lparr>caps := pre @ d\<lparr>body := b\<rparr> # post\<rparr>)"
    "\<forall>e\<in>set pre. \<not> cap_covers pos e" "cap_covers pos d"
    and we: "write_entry (body d) (nat (pos - cap_base d)) sz val = Some (b, bs)"
  have "find (cap_covers pos) (pre @ d # post) = Some d"
    using h(4,5) by (induction pre) auto
  with h c mgr have d: "d = c" by simp
  have "bs \<noteq> []"
    using we unfolding d
  proof (cases "body c")
    case (Cap_PCIE p)
    with state show ?thesis by simp
  next
    case (Cap_VSEC p)
    with state show ?thesis by simp
  qed (auto simp: write_defs Let_def le16_def le32_def split: if_splits)
  from we this reg have "read_entry b (nat (pos - cap_base c)) sz =
      Some (reg_after (body c) (nat (pos - cap_base c)) val)"
    unfolding d by (rule write_entry_read)
  with h(3-5) show ?thesis
    using cap_read_loop_at [of pre pos "c\<lparr>body := b\<rparr>" post sz]
    by (simp add: pciem_handle_cap_read_def d)
qed

end
