(* ===== verification/Pool.thy ===== *)
theory Pool
  imports Prelude
begin

text \<open>
  The physical memory pool of \<^verbatim>\<open>kernel/framework/pool.c\<close>, from which BARs are carved.

  The kernel's general-purpose allocator (\<^verbatim>\<open>lib/genalloc.c\<close>), the bitmap search and the
  resource tree are not part of the repository: the allocator state is a type parameter \<open>'g\<close> and
  its operations are arguments, as is the answer of each fallible kernel call. The text parser
  \<open>sscanf\<close> is an argument too. What the pool relies on is stated by \<open>bitmap_fit_ok\<close> (the
  documented result of \<open>bitmap_find_next_zero_area_off\<close>) and \<open>genpool_places\<close> (a successful
  allocation is the start of the chunk plus the pages the placement algorithm answered).
\<close>

definition PAGE_SHIFT :: nat where
  "PAGE_SHIFT = 12"

text \<open>A placement algorithm as genalloc calls it: bitmap, pages, start bit, bits, chunk address.\<close>

type_synonym 'm bitmap_search = "'m \<Rightarrow> u64 \<Rightarrow> u64 \<Rightarrow> u64 \<Rightarrow> u64 \<Rightarrow> u64 \<Rightarrow> u64"
type_synonym 'm fit_algo = "'m \<Rightarrow> u64 \<Rightarrow> u64 \<Rightarrow> u64 \<Rightarrow> u64 \<Rightarrow> u64"

definition fit_align_mask :: "nat \<Rightarrow> u64 \<Rightarrow> u64" where
  "fit_align_mask order align = drop_bit order (align + push_bit order 1 - 1) - 1"

definition fit_align_off :: "nat \<Rightarrow> u64 \<Rightarrow> u64 \<Rightarrow> u64" where
  "fit_align_off order align start_addr = drop_bit order (start_addr AND (align - 1))"

definition pciem_first_fit_align :: "'m bitmap_search \<Rightarrow> nat \<Rightarrow> u64 \<Rightarrow> 'm fit_algo" where
  "pciem_first_fit_align search order align = (\<lambda>bm sz start nr start_addr.
     search bm sz start nr (fit_align_mask order align) (fit_align_off order align start_addr))"

record 'g mempool =
  pool_base :: u64
  pool_size :: u64
  gpool :: "'g option"
  res_start :: u64
  res_end :: u64
  res_claimed :: bool

definition is_pow2 :: "u64 \<Rightarrow> bool" where
  "is_pow2 s \<longleftrightarrow> \<not> (s = 0 \<or> (s AND (s - 1)) \<noteq> 0)"

definition pciem_pool_alloc ::
    "('g \<Rightarrow> u64 \<Rightarrow> 'm fit_algo \<Rightarrow> u64 \<times> 'g) \<Rightarrow> 'm bitmap_search \<Rightarrow> 'g mempool \<Rightarrow> u64 \<Rightarrow>
       u64 \<times> 'g mempool" where
  "pciem_pool_alloc galloc search p sz =
     (case gpool p of
        None \<Rightarrow> (0, p)
      | Some g \<Rightarrow>
          if \<not> is_pow2 sz then (0, p)
          else (let (addr, g') = galloc g sz (pciem_first_fit_align search PAGE_SHIFT sz)
                in (addr, p\<lparr>gpool := Some g'\<rparr>)))"

definition pciem_pool_free ::
    "('g \<Rightarrow> u64 \<Rightarrow> u64 \<Rightarrow> 'g) \<Rightarrow> 'g mempool \<Rightarrow> u64 \<Rightarrow> u64 \<Rightarrow> 'g mempool" where
  "pciem_pool_free gfree p addr sz =
     (case gpool p of
        None \<Rightarrow> p
      | Some g \<Rightarrow>
          if addr = 0 \<or> addr < pool_base p \<or> addr + sz > pool_base p + pool_size p then p
          else p\<lparr>gpool := Some (gfree g addr sz)\<rparr>)"

text \<open>
  \<open>pciem_pool_init\<close>: the answers of the kernel are the two \<open>sscanf\<close> attempts, whether the range
  could be claimed in \<open>iomem\<close>, the created allocator and the result of adding the chunk.
\<close>

record 'g pool_env =
  scan_0x :: "string \<Rightarrow> (u64 \<times> u64) option"
  scan_plain :: "string \<Rightarrow> (u64 \<times> u64) option"
  claim_iomem :: "u64 \<Rightarrow> u64 \<Rightarrow> bool"
  create_gpool :: "'g option"
  add_chunk :: "'g \<Rightarrow> u64 \<Rightarrow> u64 \<Rightarrow> errno + 'g"

definition scan_region :: "(string \<Rightarrow> (u64 \<times> u64) option) \<Rightarrow> (string \<Rightarrow> (u64 \<times> u64) option) \<Rightarrow>
    string \<Rightarrow> (u64 \<times> u64) option" where
  "scan_region scan1 scan2 str = (case scan1 str of Some r \<Rightarrow> Some r | None \<Rightarrow> scan2 str)"

definition pciem_pool_init ::
    "'g pool_env \<Rightarrow> string option \<Rightarrow> 'g mempool \<Rightarrow> unit res \<times> 'g mempool" where
  "pciem_pool_init env phys_region p =
     (if phys_region = None \<or> phys_region = Some [] then (Inr (), p)
      else case scan_region (scan_0x env) (scan_plain env) (the phys_region) of
        None \<Rightarrow> (Inl EINVAL, p)
      | Some (base, sz) \<Rightarrow>
          if \<not> is_pow2 sz then (Inl EINVAL, p)
          else
            let p1 = p\<lparr>res_start := base, res_end := base + sz - 1\<rparr>
            in if \<not> claim_iomem env (res_start p1) (res_end p1) then (Inl EBUSY, p1)
               else (case create_gpool env of
                       None \<Rightarrow> (Inl ENOMEM, p1\<lparr>res_claimed := False\<rparr>)
                     | Some g \<Rightarrow>
                         (case add_chunk env g base sz of
                            Inl e \<Rightarrow> (Inl e, p1\<lparr>res_claimed := False\<rparr>)
                          | Inr g' \<Rightarrow>
                              (Inr (), p1\<lparr>pool_base := base, pool_size := sz,
                                         gpool := Some g', res_claimed := True\<rparr>))))"

definition pciem_pool_exit :: "'g mempool \<Rightarrow> 'g mempool" where
  "pciem_pool_exit p =
     (case gpool p of None \<Rightarrow> p
      | Some _ \<Rightarrow> p\<lparr>gpool := None, pool_size := 0, res_claimed := False\<rparr>)"

definition pciem_pool_insert ::
    "(u64 \<times> u64 \<Rightarrow> u64 \<times> u64 \<Rightarrow> bool) \<Rightarrow> 'g mempool \<Rightarrow> u64 \<times> u64 \<Rightarrow> bool" where
  "pciem_pool_insert insert_resource p res = insert_resource (res_start p, res_end p) res"

subsection \<open>Powers of two and alignment\<close>

lemma is_pow2_power: "k < 64 \<Longrightarrow> is_pow2 (2 ^ k)"
proof -
  assume k: "k < 64"
  have "(2 ^ k :: u64) AND (2 ^ k - 1) = 0"
    by (rule bit_word_eqI) (auto simp: bit_simps simp flip: mask_eq_exp_minus_1)
  moreover have "(2 ^ k :: u64) \<noteq> 0"
    using k by (simp add: exp_eq_zero_iff)
  ultimately show ?thesis by (simp add: is_pow2_def)
qed

text \<open>
  The documented result of the bitmap search: where the wanted bits fit into the bitmap, the
  offset index is aligned.
\<close>

definition bitmap_fit_ok :: "'m bitmap_search \<Rightarrow> bool" where
  "bitmap_fit_ok search \<longleftrightarrow>
     (\<forall>bm bits start nr mask off.
        unat (search bm bits start nr mask off) + unat nr \<le> unat bits \<longrightarrow>
        (search bm bits start nr mask off + off) AND mask = 0)"

lemma and_mask_take_bit: "x AND (2 ^ k - 1) = take_bit k x"
  for x :: "'a::len word"
  by (simp add: take_bit_eq_mask mask_eq_exp_minus_1)

lemma pow2_split: "PAGE_SHIFT \<le> k \<Longrightarrow> (2::nat) ^ k = 2 ^ (k - 12) * 4096"
proof -
  assume "PAGE_SHIFT \<le> k"
  then have "(2::nat) ^ k = 2 ^ (k - 12 + 12)" by (simp add: PAGE_SHIFT_def)
  then show ?thesis by (simp add: power_add)
qed

lemma fit_align_mask_pow2:
  assumes k: "PAGE_SHIFT \<le> k" "k < 64"
  shows "fit_align_mask PAGE_SHIFT (2 ^ k) = 2 ^ (k - 12) - 1"
proof -
  have pk: "unat (2 ^ k :: u64) = 2 ^ k"
    using k by (simp add: unat_pow2)
  have "(2::nat) ^ k \<le> 2 ^ 63" using k by (intro power_increasing) simp_all
  then have "unat ((2 ^ k :: u64) + 4095) = 2 ^ k + 4095"
    using pk by (subst unat_add_small) simp_all
  then have "unat (drop_bit 12 ((2 ^ k :: u64) + 4095)) = 2 ^ (k - 12)"
    using pow2_split [OF k(1)] by (simp only: unat_drop_bit) simp
  moreover have "unat (2 ^ (k - 12) :: u64) = 2 ^ (k - 12)"
    using k by (simp add: unat_pow2)
  ultimately have "drop_bit 12 ((2 ^ k :: u64) + 4095) = 2 ^ (k - 12)"
    by (simp add: word_unat_eq_iff)
  then show ?thesis by (simp add: fit_align_mask_def PAGE_SHIFT_def add_diff_eq [symmetric])
qed

text \<open>A found place is aligned to the allocation size, provided the chunk starts on a page.\<close>

lemma fit_aligned:
  assumes ok: "bitmap_fit_ok search" and k: "PAGE_SHIFT \<le> k" "k < 64"
    and chunk: "take_bit PAGE_SHIFT start_addr = 0"
    and idx: "idx = pciem_first_fit_align search PAGE_SHIFT (2 ^ k) bm bits start nr start_addr"
    and fits: "unat idx + unat nr \<le> unat bits"
  shows "take_bit k (start_addr + push_bit PAGE_SHIFT idx) = 0"
proof -
  define s where "s = drop_bit 12 start_addr"
  have start: "start_addr = push_bit 12 s"
    using bits_ident [of 12 start_addr] chunk by (simp add: s_def PAGE_SHIFT_def)
  have off: "fit_align_off PAGE_SHIFT (2 ^ k) start_addr = take_bit (k - 12) s"
    by (simp add: fit_align_off_def PAGE_SHIFT_def and_mask_take_bit drop_bit_take_bit s_def)
  have "(idx + take_bit (k - 12) s) AND (2 ^ (k - 12) - 1) = 0"
    using ok fits fit_align_mask_pow2 [OF k] off
    unfolding bitmap_fit_ok_def idx pciem_first_fit_align_def by simp
  then have "take_bit (k - 12) (s + idx) = 0"
    by (simp only: and_mask_take_bit take_bit_add_right add.commute)
  then have "take_bit k (push_bit 12 (s + idx)) = 0"
    by (simp add: take_bit_push_bit)
  then show ?thesis by (simp add: start PAGE_SHIFT_def push_bit_add)
qed

text \<open>
  The documented result of \<open>gen_pool_alloc_algo\<close> on a pool of one chunk: 0, or the place the
  algorithm found, when the wanted pages fit there.
\<close>

definition genpool_places :: "('g \<Rightarrow> u64 \<Rightarrow> 'm fit_algo \<Rightarrow> u64 \<times> 'g) \<Rightarrow> u64 \<Rightarrow> bool" where
  "genpool_places galloc chunk \<longleftrightarrow>
     (\<forall>g sz algo. fst (galloc g sz algo) = 0 \<or>
        (\<exists>bm bits start nr. unat (algo bm bits start nr chunk) + unat nr \<le> unat bits \<and>
           fst (galloc g sz algo) = chunk + push_bit PAGE_SHIFT (algo bm bits start nr chunk)))"

lemma pool_alloc_aligned:
  assumes "bitmap_fit_ok search" "genpool_places galloc chunk" "take_bit PAGE_SHIFT chunk = 0"
    and "PAGE_SHIFT \<le> k" "k < 64" and "pciem_pool_alloc galloc search p (2 ^ k) = (addr, p')"
  shows "take_bit k addr = 0"
proof (cases "addr = 0")
  case False
  with assms(6) obtain g where "addr = fst (galloc g (2 ^ k) (pciem_first_fit_align search PAGE_SHIFT (2 ^ k)))"
    by (auto simp: pciem_pool_alloc_def split: option.splits prod.splits if_splits) (metis fst_conv)
  with assms(2) False obtain bm bits start nr where
    "unat (pciem_first_fit_align search PAGE_SHIFT (2 ^ k) bm bits start nr chunk) + unat nr \<le> unat bits"
    "addr = chunk + push_bit PAGE_SHIFT (pciem_first_fit_align search PAGE_SHIFT (2 ^ k) bm bits start nr chunk)"
    unfolding genpool_places_def by blast
  with fit_aligned [OF assms(1,4,5,3) refl] show ?thesis by simp
qed simp

end
