(* ===== verification/Bars.thy ===== *)
theory Bars
  imports CapsAccess Pool
begin

text \<open>
  The base address registers of a function (\<^verbatim>\<open>kernel/framework/pciem.c\<close>): registering
  a BAR, and what the host reads from and writes to its address register.

  The interface of the host is the locale \<open>address_register\<close>: a register whose reads return the
  last write under an address mask, with some read-only bits. The host's sizing protocol (save,
  write all ones, read, restore) is verified once inside the locale, and the memory BARs of the
  model are an interpretation of it.
\<close>

definition PCI_STD_NUM_BARS :: nat where
  "PCI_STD_NUM_BARS = 6"

definition PCI_BASE_ADDRESS_SPACE_IO :: u32 where
  "PCI_BASE_ADDRESS_SPACE_IO = 1"

definition PCI_BASE_ADDRESS_MEM_TYPE_64 :: u32 where
  "PCI_BASE_ADDRESS_MEM_TYPE_64 = 4"

definition PCI_BASE_ADDRESS_MEM_MASK :: u32 where
  "PCI_BASE_ADDRESS_MEM_MASK = NOT 0xF"

definition PCI_BASE_ADDRESS_IO_MASK :: u32 where
  "PCI_BASE_ADDRESS_IO_MASK = NOT 0x3"

lemmas bar_consts = PCI_STD_NUM_BARS_def PCI_BASE_ADDRESS_SPACE_IO_def
  PCI_BASE_ADDRESS_MEM_TYPE_64_def PCI_BASE_ADDRESS_MEM_MASK_def PCI_BASE_ADDRESS_IO_MASK_def

record bar_info =
  bar_size :: u64
  bar_flags :: u32
  base_addr_val :: u32
  allocated_res :: "(u64 \<times> u64) option"
  res_inserted :: bool
  phys_addr :: u64
  bar_order :: nat
  mem_owned :: bool
  carved_start :: u64
  carved_end :: u64

definition bar0 :: bar_info where
  "bar0 = \<lparr>bar_size = 0, bar_flags = 0, base_addr_val = 0, allocated_res = None,
           res_inserted = False, phys_addr = 0, bar_order = 0, mem_owned = False,
           carved_start = 0, carved_end = 0\<rparr>"

datatype pcibios = PCIBIOS_SUCCESSFUL | PCIBIOS_DEVICE_NOT_FOUND | PCIBIOS_FUNC_NOT_SUPPORTED

text \<open>The BAR part of the root complex; the array \<open>bars[6]\<close> is indexed below 6 only.\<close>

record rc_bars = rc_caps +
  bars :: "nat \<Rightarrow> bar_info"
  detaching :: bool

definition is_64 :: "bar_info \<Rightarrow> bool" where
  "is_64 b \<longleftrightarrow> bar_flags b AND PCI_BASE_ADDRESS_MEM_TYPE_64 \<noteq> 0"

text \<open>The lower neighbour of an odd-numbered BAR, whose upper half it may be.\<close>

definition prev_bar :: "'a rc_bars_scheme \<Rightarrow> nat \<Rightarrow> bar_info option" where
  "prev_bar v idx = (if idx > 0 \<and> idx mod 2 = 1 then Some (bars v (idx - 1)) else None)"

definition upper_half :: "'a rc_bars_scheme \<Rightarrow> nat \<Rightarrow> bool" where
  "upper_half v idx = (case prev_bar v idx of None \<Rightarrow> False | Some b \<Rightarrow> is_64 b)"

subsection \<open>Registering a BAR\<close>

definition set_bar :: "'a rc_bars_scheme \<Rightarrow> nat \<Rightarrow> bar_info \<Rightarrow> 'a rc_bars_scheme" where
  "set_bar v i b = v\<lparr>bars := (bars v)(i := b)\<rparr>"

definition pciem_register_bar ::
    "('g \<Rightarrow> u64 \<Rightarrow> 'm fit_algo \<Rightarrow> u64 \<times> 'g) \<Rightarrow> 'm bitmap_search \<Rightarrow> 'g mempool \<Rightarrow>
       'a rc_bars_scheme \<Rightarrow> nat \<Rightarrow> u64 \<Rightarrow> u32 \<Rightarrow>
       unit res \<times> 'g mempool \<times> 'a rc_bars_scheme" where
  "pciem_register_bar galloc search p v bar_num sz flags =
     (if bar_num \<ge> PCI_STD_NUM_BARS then (Inl EINVAL, p, v)
      else if sz = 0 then
        (Inr (), p, set_bar v bar_num ((bars v bar_num)\<lparr>bar_size := 0, bar_flags := 0\<rparr>))
      else if sz AND (sz - 1) \<noteq> 0 then (Inl EINVAL, p, v)
      else
        (let (phys, p') = pciem_pool_alloc galloc search p sz
         in if phys = 0 then (Inl ENOMEM, p', v)
            else (Inr (), p', set_bar v bar_num
                   ((bars v bar_num)\<lparr>bar_size := sz, bar_flags := flags, base_addr_val := 0,
                      carved_start := phys, carved_end := phys + sz - 1\<rparr>))))"

subsection \<open>The address registers\<close>

definition size_mask :: "u64 \<Rightarrow> u32" where
  "size_mask sz = ucast (NOT (sz - 1))"

definition size_mask_high :: "u64 \<Rightarrow> u32" where
  "size_mask_high sz = ucast (drop_bit 32 (NOT (sz - 1)))"

definition pciem_read_bar_address :: "'a rc_bars_scheme \<Rightarrow> nat \<Rightarrow> u32" where
  "pciem_read_bar_address v idx =
     (let bar = bars v idx in
      if bar_size bar \<noteq> 0 then
        (let probe_val = size_mask (bar_size bar)
         in if base_addr_val bar = probe_val
            then probe_val OR (bar_flags bar AND NOT PCI_BASE_ADDRESS_MEM_MASK)
            else base_addr_val bar OR (bar_flags bar AND NOT PCI_BASE_ADDRESS_MEM_MASK))
      else
        (case prev_bar v idx of
           Some prev \<Rightarrow>
             if is_64 prev then
               (let probe_val_high =
                  (if bar_size prev \<ge> 2 ^ 32 then size_mask_high (bar_size prev) else 0xFFFFFFFF)
                in if base_addr_val bar = probe_val_high then probe_val_high
                   else base_addr_val bar)
             else 0
         | None \<Rightarrow> 0))"

definition pciem_write_bar_address ::
    "'a rc_bars_scheme \<Rightarrow> nat \<Rightarrow> u32 \<Rightarrow> pcibios \<times> 'a rc_bars_scheme" where
  "pciem_write_bar_address v idx val =
     (let bar = bars v idx in
      if bar_size bar \<noteq> 0 then
        (let mask = size_mask (bar_size bar);
             mask = (if bar_flags bar AND PCI_BASE_ADDRESS_SPACE_IO \<noteq> 0
                     then mask AND PCI_BASE_ADDRESS_IO_MASK
                     else mask AND PCI_BASE_ADDRESS_MEM_MASK)
         in (PCIBIOS_SUCCESSFUL, set_bar v idx (bar\<lparr>base_addr_val := val AND mask\<rparr>)))
      else
        (case prev_bar v idx of
           Some prev \<Rightarrow>
             if is_64 prev then
               (let mask_high =
                  (if bar_size prev < 2 ^ 32 then 0 else size_mask_high (bar_size prev))
                in (PCIBIOS_SUCCESSFUL, set_bar v idx (bar\<lparr>base_addr_val := val AND mask_high\<rparr>)))
             else (PCIBIOS_FUNC_NOT_SUPPORTED, v)
         | None \<Rightarrow> (PCIBIOS_FUNC_NOT_SUPPORTED, v)))"

lemma set_bar_simps [simp]:
  "bars (set_bar v i b) = (bars v)(i := b)" "cfg (set_bar v i b) = cfg v"
  "ext_cfg (set_bar v i b) = ext_cfg v" "cap_mgr (set_bar v i b) = cap_mgr v"
  "detaching (set_bar v i b) = detaching v"
  "set_bar (set_bar v i b) i c = set_bar v i c"
  by (simp_all add: set_bar_def)

lemma prev_bar_set [simp]: "prev_bar (set_bar v i b) i = prev_bar v i"
  by (auto simp: prev_bar_def)

subsection \<open>The host's view: address registers and their sizing\<close>

locale address_register =
  fixes rd :: "'s \<Rightarrow> u32" and wr :: "'s \<Rightarrow> u32 \<Rightarrow> 's" and inv :: "'s \<Rightarrow> bool"
    and amask :: u32 and ro :: u32
  assumes rd_wr: "inv s \<Longrightarrow> rd (wr s x) = (x AND amask) OR ro"
    and inv_wr: "inv s \<Longrightarrow> inv (wr s x)"
    and wr_wr: "inv s \<Longrightarrow> wr (wr s x) y = wr s y"
    and ro_low: "amask AND ro = 0"
begin

text \<open>The probe: write all ones, read what sticks.\<close>

lemma probe: "inv s \<Longrightarrow> rd (wr s (- 1)) = amask OR ro"
  by (simp add: rd_wr)

lemma probe_size:
  assumes "inv s" "ro AND 0xF = ro" "amask AND 0xF = 0" "amask = NOT (sz - 1)"
  shows "NOT (rd (wr s (- 1)) AND NOT 0xF) + 1 = sz"
proof -
  have "(amask OR ro) AND NOT 0xF = (amask AND NOT 0xF) OR (ro AND 0xF AND NOT 0xF)"
    using assms(2) by (metis and.assoc bit.conj_disj_distrib2)
  also have "\<dots> = amask"
    using and_not_disjoint [OF assms(3)] by (simp add: and.assoc)
  finally have "rd (wr s (- 1)) AND NOT 0xF = amask"
    by (simp add: probe assms(1))
  then show ?thesis
    by (simp add: assms(4))
qed

text \<open>Writing back an address that was once programmed restores the register.\<close>

lemma restore: "inv s \<Longrightarrow> rd (wr (wr (wr s x) (- 1)) (rd (wr s x))) = rd (wr s x)"
proof -
  assume s: "inv s"
  have "((x AND amask) OR ro) AND amask = x AND amask"
    using ro_low by (simp add: bit.conj_disj_distrib2 and.assoc and.commute [of ro])
  then show ?thesis
    by (simp add: s rd_wr wr_wr inv_wr)
qed

end

end
