(* ===== verification/Conf.thy ===== *)
theory Conf
  imports Bars
begin

text \<open>
  Configuration-space accesses (\<^verbatim>\<open>kernel/framework/pciem.c\<close>):
  \<open>pciem_conf_read_impl\<close> and \<open>pciem_conf_write_impl\<close>, and the bus operations that dispatch to
  them: \<open>vph_*\<close> for a virtual root bus and \<open>proxy_*\<close> for a slot of a host bus.

  A pointer to a function that may be NULL is an \<open>option\<close>; the array of functions of a slot is a
  map from function numbers. The read answers the C return code and the value stored through the
  pointer.
\<close>

definition PCI_BASE_ADDRESS_0 :: int where
  "PCI_BASE_ADDRESS_0 = 0x10"

definition PCI_ROM_ADDRESS :: int where
  "PCI_ROM_ADDRESS = 0x30"

definition PCI_CFG_SPACE_EXP_SIZE :: int where
  "PCI_CFG_SPACE_EXP_SIZE = 4096"

definition PCIEM_MAX_FUNCTIONS :: nat where
  "PCIEM_MAX_FUNCTIONS = 8"

lemmas conf_consts = cfg_consts bar_consts PCI_BASE_ADDRESS_0_def PCI_ROM_ADDRESS_def
  PCI_CFG_SPACE_EXP_SIZE_def PCIEM_MAX_FUNCTIONS_def

text \<open>A sum of two C integers: 32 bits, wrapping around (the kernel is compiled with \<^verbatim>\<open>-fno-strict-overflow\<close>).\<close>

definition c_int :: "int \<Rightarrow> int" where
  "c_int x = signed_take_bit 31 x"

lemma c_int_small: "- (2 ^ 31) \<le> x \<Longrightarrow> x < 2 ^ 31 \<Longrightarrow> c_int x = x"
  by (simp add: c_int_def signed_take_bit_int_eq_self)

definition raw_read :: "bytes \<Rightarrow> nat \<Rightarrow> int \<Rightarrow> u32" where
  "raw_read f i sz =
     (if sz = 1 then ucast (f i) else if sz = 2 then ucast (get16 f i)
      else if sz = 4 then get32 f i else - 1)"

definition raw_write :: "bytes \<Rightarrow> nat \<Rightarrow> int \<Rightarrow> u32 \<Rightarrow> bytes option" where
  "raw_write f i sz val =
     (if sz = 1 then Some (poke f i [ucast val]) else if sz = 2 then Some (poke f i (le16 (ucast val)))
      else if sz = 4 then Some (poke f i (le32 val)) else None)"

definition in_bar_regs :: "int \<Rightarrow> int \<Rightarrow> bool" where
  "in_bar_regs pos sz \<longleftrightarrow>
     pos \<ge> PCI_BASE_ADDRESS_0 \<and> pos < PCI_BASE_ADDRESS_0 + 4 * int PCI_STD_NUM_BARS \<and>
     pos mod 4 = 0 \<and> sz = 4"

definition bar_index_of :: "int \<Rightarrow> nat" where
  "bar_index_of pos = nat ((pos - PCI_BASE_ADDRESS_0) div 4)"

definition pciem_conf_read_impl ::
    "'a rc_bars_scheme option \<Rightarrow> int \<Rightarrow> int \<Rightarrow> pcibios \<times> u32" where
  "pciem_conf_read_impl vo pos sz =
     (case vo of
        None \<Rightarrow> (PCIBIOS_DEVICE_NOT_FOUND, - 1)
      | Some v \<Rightarrow>
          if detaching v then (PCIBIOS_DEVICE_NOT_FOUND, - 1)
          else if pos \<ge> int PCI_CFG_SPACE_SIZE then
            (if c_int (pos + sz) > PCI_CFG_SPACE_EXP_SIZE then (PCIBIOS_DEVICE_NOT_FOUND, - 1)
             else (case pciem_handle_cap_read v pos sz of
                     Some val \<Rightarrow> (PCIBIOS_SUCCESSFUL, val)
                   | None \<Rightarrow>
                       (PCIBIOS_SUCCESSFUL,
                        raw_read (ext_cfg v) (nat (pos - int PCI_CFG_SPACE_SIZE)) sz)))
          else if pos < 0 \<or> c_int (pos + sz) > int PCI_CFG_SPACE_SIZE then (PCIBIOS_DEVICE_NOT_FOUND, - 1)
          else (case pciem_handle_cap_read v pos sz of
                  Some val \<Rightarrow> (PCIBIOS_SUCCESSFUL, val)
                | None \<Rightarrow>
                    if in_bar_regs pos sz
                    then (PCIBIOS_SUCCESSFUL, pciem_read_bar_address v (bar_index_of pos))
                    else if pos = PCI_ROM_ADDRESS \<and> sz = 4 then (PCIBIOS_SUCCESSFUL, 0)
                    else (PCIBIOS_SUCCESSFUL, raw_read (cfg v) (nat pos) sz)))"

definition pciem_conf_write_impl ::
    "'a rc_bars_scheme option \<Rightarrow> int \<Rightarrow> int \<Rightarrow> u32 \<Rightarrow> pcibios \<times> 'a rc_bars_scheme option" where
  "pciem_conf_write_impl vo pos sz val =
     (case vo of
        None \<Rightarrow> (PCIBIOS_DEVICE_NOT_FOUND, None)
      | Some v \<Rightarrow>
          if detaching v then (PCIBIOS_SUCCESSFUL, Some v)
          else if pos \<ge> int PCI_CFG_SPACE_SIZE then
            (if c_int (pos + sz) > PCI_CFG_SPACE_EXP_SIZE then (PCIBIOS_DEVICE_NOT_FOUND, Some v)
             else (let (ok, v') = pciem_handle_cap_write v pos sz val in
                   if ok then (PCIBIOS_SUCCESSFUL, Some v')
                   else (case raw_write (ext_cfg v') (nat (pos - int PCI_CFG_SPACE_SIZE)) sz val of
                           None \<Rightarrow> (PCIBIOS_FUNC_NOT_SUPPORTED, Some v')
                         | Some e \<Rightarrow> (PCIBIOS_SUCCESSFUL, Some (v'\<lparr>ext_cfg := e\<rparr>)))))
          else if pos < 0 \<or> c_int (pos + sz) > int PCI_CFG_SPACE_SIZE then (PCIBIOS_DEVICE_NOT_FOUND, Some v)
          else (let (ok, v') = pciem_handle_cap_write v pos sz val in
                if ok then (PCIBIOS_SUCCESSFUL, Some v')
                else if in_bar_regs pos sz then
                  (let (rc, w) = pciem_write_bar_address v' (bar_index_of pos) val in (rc, Some w))
                else if pos = PCI_ROM_ADDRESS then (PCIBIOS_SUCCESSFUL, Some v')
                else (case raw_write (cfg v') (nat pos) sz val of
                        None \<Rightarrow> (PCIBIOS_FUNC_NOT_SUPPORTED, Some v')
                      | Some f \<Rightarrow> (PCIBIOS_SUCCESSFUL, Some (v'\<lparr>cfg := f\<rparr>)))))"

subsection \<open>The bus operations\<close>

definition PCI_SLOT :: "nat \<Rightarrow> nat" where
  "PCI_SLOT devfn = (devfn div 8) mod 32"

definition PCI_FUNC :: "nat \<Rightarrow> nat" where
  "PCI_FUNC devfn = devfn mod 8"

type_synonym 'a funcs = "nat \<Rightarrow> 'a option"

definition vph_get_rc_for_devfn :: "'a funcs \<Rightarrow> nat \<Rightarrow> 'a option" where
  "vph_get_rc_for_devfn fs devfn =
     (let func = PCI_FUNC devfn in
      if PCI_SLOT devfn \<noteq> 0 then None
      else if func \<ge> PCIEM_MAX_FUNCTIONS then None
      else fs func)"

definition vph_read_config :: "'a rc_bars_scheme funcs \<Rightarrow> nat \<Rightarrow> int \<Rightarrow> int \<Rightarrow> pcibios \<times> u32" where
  "vph_read_config fs devfn pos sz =
     (case vph_get_rc_for_devfn fs devfn of
        None \<Rightarrow> (PCIBIOS_DEVICE_NOT_FOUND, - 1)
      | Some v \<Rightarrow> pciem_conf_read_impl (Some v) pos sz)"

definition vph_write_config ::
    "'a rc_bars_scheme funcs \<Rightarrow> nat \<Rightarrow> int \<Rightarrow> int \<Rightarrow> u32 \<Rightarrow> pcibios \<times> 'a rc_bars_scheme funcs" where
  "vph_write_config fs devfn pos sz val =
     (case vph_get_rc_for_devfn fs devfn of
        None \<Rightarrow> (PCIBIOS_DEVICE_NOT_FOUND, fs)
      | Some v \<Rightarrow>
          (let (rc, v') = pciem_conf_write_impl (Some v) pos sz val
           in (rc, fs(PCI_FUNC devfn := v'))))"

text \<open>
  Attached to a host bus, the function claims one slot of it; everything else goes to the
  operations the bus had before, which are arguments here. (The C code finds its own state from
  the operations pointer, so its check that the pointer is its own cannot fail.)
\<close>

record 'a hijack =
  target_busnr :: nat
  hijacked_slot :: nat
  sibling_funcs :: "'a funcs"

definition proxy_read_config ::
    "(nat \<Rightarrow> nat \<Rightarrow> int \<Rightarrow> int \<Rightarrow> pcibios \<times> u32) \<Rightarrow> 'a rc_bars_scheme hijack \<Rightarrow>
       nat \<Rightarrow> nat \<Rightarrow> int \<Rightarrow> int \<Rightarrow> pcibios \<times> u32" where
  "proxy_read_config original_read h busnr devfn pos sz =
     (if busnr \<noteq> target_busnr h \<or> PCI_SLOT devfn \<noteq> hijacked_slot h
      then original_read busnr devfn pos sz
      else let func = PCI_FUNC devfn in
        if func \<ge> PCIEM_MAX_FUNCTIONS then (PCIBIOS_DEVICE_NOT_FOUND, - 1)
        else (case sibling_funcs h func of
                None \<Rightarrow> (PCIBIOS_DEVICE_NOT_FOUND, - 1)
              | Some fn \<Rightarrow> pciem_conf_read_impl (Some fn) pos sz))"

definition proxy_write_config ::
    "('h \<Rightarrow> nat \<Rightarrow> nat \<Rightarrow> int \<Rightarrow> int \<Rightarrow> u32 \<Rightarrow> pcibios \<times> 'h) \<Rightarrow> 'h \<Rightarrow> 'a rc_bars_scheme hijack \<Rightarrow>
       nat \<Rightarrow> nat \<Rightarrow> int \<Rightarrow> int \<Rightarrow> u32 \<Rightarrow> pcibios \<times> 'h \<times> 'a rc_bars_scheme hijack" where
  "proxy_write_config original_write host h busnr devfn pos sz val =
     (if busnr \<noteq> target_busnr h \<or> PCI_SLOT devfn \<noteq> hijacked_slot h
      then (let (rc, host') = original_write host busnr devfn pos sz val in (rc, host', h))
      else let func = PCI_FUNC devfn in
        if func \<ge> PCIEM_MAX_FUNCTIONS then (PCIBIOS_DEVICE_NOT_FOUND, host, h)
        else (case sibling_funcs h func of
                None \<Rightarrow> (PCIBIOS_DEVICE_NOT_FOUND, host, h)
              | Some fn \<Rightarrow>
                  (let (rc, fn') = pciem_conf_write_impl (Some fn) pos sz val
                   in (rc, host, h\<lparr>sibling_funcs := (sibling_funcs h)(func := fn')\<rparr>))))"

subsection \<open>A well-formed configuration space\<close>

definition caps_fit :: "'a rc_caps_scheme \<Rightarrow> bool" where
  "caps_fit v \<longleftrightarrow> (case cap_mgr v of None \<Rightarrow> True | Some mgr \<Rightarrow> std_fit mgr)"

definition conf_ok :: "'a rc_bars_scheme \<Rightarrow> bool" where
  "conf_ok v \<longleftrightarrow> caps_inv v \<and> caps_fit v \<and> \<not> detaching v"

lemma layout_bounds:
  assumes "layout n cs" "n + caps_len cs \<le> 256" "c \<in> set cs" "0 < unat (cap_size c)"
  shows "n \<le> unat (cap_offset c) \<and> unat (cap_offset c) + unat (cap_size c) \<le> 256"
  using assms
proof (induction cs arbitrary: n)
  case Nil
  then show ?case by simp
next
  case (Cons d cs)
  show ?case
  proof (cases "c = d")
    case True
    with Cons.prems have "n < 256" by simp
    with True Cons.prems show ?thesis by simp
  next
    case False
    with Cons.prems have "n + unat (cap_size d) \<le> unat (cap_offset c) \<and>
        unat (cap_offset c) + unat (cap_size c) \<le> 256"
      by (intro Cons.IH) auto
    then show ?thesis by simp
  qed
qed

lemma ext_layout_bounds:
  assumes "ext_layout n cs" "c \<in> set cs"
  shows "n \<le> unat (ext_offset c) \<and> unat (ext_offset c) + unat (cap_size c) \<le> n + caps_len cs"
  using assms by (induction cs arbitrary: n) fastforce+

text \<open>Where the capabilities lie: standard ones in [64, 256), extended ones from 256 on.\<close>

lemma cap_range:
  assumes inv: "mgr_inv mgr" and fit: "std_fit mgr" and c: "c \<in> set (caps mgr)"
  shows "\<not> is_extended c \<Longrightarrow> 64 \<le> cap_base c \<and> cap_base c + int (unat (cap_size c)) \<le> 256"
    and "is_extended c \<Longrightarrow> 256 \<le> cap_base c \<and> cap_base c + int (unat (cap_size c)) \<le> 384"
proof -
  have "0 < unat (cap_size c)"
    using inv fit c body_size_ge [of "body c"]
    by (auto simp: mgr_inv_def std_fit_def entry_ok_def list_all_iff)
  then have std: "64 \<le> unat (cap_offset c) \<and> unat (cap_offset c) + unat (cap_size c) \<le> 256"
    if "\<not> is_extended c"
    using layout_bounds [of 64 "std_caps mgr" c] inv fit c that
    by (simp add: mgr_inv_def std_fit_def std_caps_def)
  show "64 \<le> cap_base c \<and> cap_base c + int (unat (cap_size c)) \<le> 256" if "\<not> is_extended c"
    unfolding cap_base_def using std [OF that] that by (simp only: if_False) linarith
  have "length (ext_caps mgr) \<le> 16"
    using inv by (simp add: mgr_inv_def ext_caps_def cap_consts length_filter_le_bound)
  then have ext: "256 \<le> unat (ext_offset c) \<and> unat (ext_offset c) + unat (cap_size c) \<le> 384"
    if "is_extended c"
    using ext_layout_bounds [of 256 "ext_caps mgr" c] inv c that ext_caps_len [of mgr]
    by (simp add: mgr_inv_def ext_caps_def)
  show "256 \<le> cap_base c \<and> cap_base c + int (unat (cap_size c)) \<le> 384" if "is_extended c"
    unfolding cap_base_def using ext [OF that] that by (simp only: if_True) linarith
qed

lemma cap_covers_range:
  assumes inv: "mgr_inv mgr" and fit: "std_fit mgr" and c: "c \<in> set (caps mgr)"
    and cov: "cap_covers pos c"
  shows "64 \<le> pos" and "is_extended c \<longleftrightarrow> 256 \<le> pos" and "pos < 384"
  using cap_range [OF inv fit c] cov by (cases "is_extended c"; auto simp: cap_covers_def)+

lemma cap_read_loop_None: "\<forall>c\<in>set cs. \<not> cap_covers pos c \<Longrightarrow> cap_read_loop cs pos sz = None"
  by (induction cs) auto

lemma cap_write_loop_None: "\<forall>c\<in>set cs. \<not> cap_covers pos c \<Longrightarrow> cap_write_loop cs pos sz val = None"
  by (induction cs) auto

lemma header_not_covered:
  assumes "caps_inv v" "caps_fit v" "pos < 64"
  shows "pciem_handle_cap_read v pos sz = None" "pciem_handle_cap_write v pos sz val = (False, v)"
proof -
  have "\<forall>c\<in>set (caps mgr). \<not> cap_covers pos c" if "cap_mgr v = Some mgr" for mgr
    using cap_covers_range(1) [of mgr _ pos] that assms
    by (fastforce simp: caps_inv_def caps_fit_def)
  then show "pciem_handle_cap_read v pos sz = None" "pciem_handle_cap_write v pos sz val = (False, v)"
    by (auto simp: pciem_handle_cap_read_def pciem_handle_cap_write_def cap_read_loop_None
        cap_write_loop_None split: option.split)
qed

text \<open>A capability write keeps the rest of the root complex and the well-formedness.\<close>

lemma cap_write_keeps [frame_simps]:
  assumes "pciem_handle_cap_write v pos sz val = (ok, v')"
  shows "bars v' = bars v" "detaching v' = detaching v"
  using assms
  by (auto simp: pciem_handle_cap_write_def split: option.splits prod.splits if_splits)

lemma caps_fit_write [inv_intros]:
  assumes "caps_fit v" "pciem_handle_cap_write v pos sz val = (ok, v')"
  shows "caps_fit v'"
proof (cases ok)
  case False
  with assms show ?thesis by (auto dest: cap_write_refused)
next
  case True
  with assms(2) have "pciem_handle_cap_write v pos sz val = (True, v')" by simp
  then show ?thesis
  proof (rule cap_write_cases)
    fix mgr pre c post b bs
    assume mgr: "cap_mgr v = Some mgr" "caps mgr = pre @ c # post"
      "cap_mgr v' = Some (mgr\<lparr>caps := pre @ c\<lparr>body := b\<rparr> # post\<rparr>)"
      and w: "write_entry (body c) (nat (pos - cap_base c)) sz val = Some (b, bs)"
    from assms(1) mgr write_entry_shape [OF w] show ?thesis
      by (cases "is_extended c") (auto simp: caps_fit_def std_fit_def std_caps_def)
  qed
qed

lemma write_bar_keeps [frame_simps]:
  assumes "pciem_write_bar_address v i val = (rc, v')"
  shows "cfg v' = cfg v" "ext_cfg v' = ext_cfg v" "cap_mgr v' = cap_mgr v" "detaching v' = detaching v"
    "j \<noteq> i \<Longrightarrow> bars v' j = bars v j"
  using assms by (auto simp: pciem_write_bar_address_def Let_def split: if_splits option.splits)

lemma conf_ok_write [inv_intros]:
  assumes "conf_ok v" "pciem_conf_write_impl (Some v) pos sz val = (rc, Some v')"
  shows "conf_ok v'"
proof -
  obtain ok w where w: "pciem_handle_cap_write v pos sz val = (ok, w)"
    by (cases "pciem_handle_cap_write v pos sz val")
  have ok: "conf_ok w"
    using assms(1) caps_inv_write [OF _ w] caps_fit_write [OF _ w] cap_write_keeps [OF w]
    by (simp add: conf_ok_def)
  have ok_bar: "conf_ok (snd (pciem_write_bar_address w i val))" for i
    using ok write_bar_keeps(3,4) [of w i val]
    by (cases "pciem_write_bar_address w i val") (simp add: conf_ok_def caps_inv_def caps_fit_def)
  from assms ok ok_bar [of "bar_index_of pos"] show ?thesis
    by (cases "pciem_write_bar_address w (bar_index_of pos) val")
      (auto simp: pciem_conf_write_impl_def w conf_ok_def caps_inv_def caps_fit_def
        split: if_splits option.splits)
qed

subsection \<open>The address registers seen through configuration space\<close>

definition bar_pos :: "nat \<Rightarrow> int" where
  "bar_pos idx = PCI_BASE_ADDRESS_0 + 4 * int idx"

definition bar_rd :: "nat \<Rightarrow> 'a rc_bars_scheme \<Rightarrow> u32" where
  "bar_rd idx v = snd (pciem_conf_read_impl (Some v) (bar_pos idx) 4)"

definition bar_wr :: "nat \<Rightarrow> 'a rc_bars_scheme \<Rightarrow> u32 \<Rightarrow> 'a rc_bars_scheme" where
  "bar_wr idx v x = the (snd (pciem_conf_write_impl (Some v) (bar_pos idx) 4 x))"

lemma bar_access:
  assumes ok: "conf_ok v" and idx: "idx < PCI_STD_NUM_BARS"
  shows "bar_rd idx v = pciem_read_bar_address v idx"
    and "pciem_conf_read_impl (Some v) (bar_pos idx) 4 =
           (PCIBIOS_SUCCESSFUL, pciem_read_bar_address v idx)"
    and "bar_wr idx v x = snd (pciem_write_bar_address v idx x)"
    and "pciem_conf_write_impl (Some v) (bar_pos idx) 4 x =
           (fst (pciem_write_bar_address v idx x), Some (snd (pciem_write_bar_address v idx x)))"
proof -
  have pos: "bar_pos idx < 64" "0 \<le> bar_pos idx" "in_bar_regs (bar_pos idx) 4"
    "bar_index_of (bar_pos idx) = idx"
    using idx by (auto simp: bar_pos_def conf_consts in_bar_regs_def bar_index_of_def)
  note hdr = header_not_covered [OF _ _ pos(1), of v]
  have "caps_inv v" "caps_fit v" "\<not> detaching v" using ok by (simp_all add: conf_ok_def)
  moreover have "c_int (bar_pos idx + 4) = bar_pos idx + 4" using pos(1,2) by (intro c_int_small) simp_all
  ultimately have "caps_inv v" "caps_fit v" "\<not> detaching v" "c_int (bar_pos idx + 4) = bar_pos idx + 4" by simp_all
  note facts = this hdr [OF this(1,2)] pos
  show rd: "pciem_conf_read_impl (Some v) (bar_pos idx) 4 =
      (PCIBIOS_SUCCESSFUL, pciem_read_bar_address v idx)"
    using facts by (simp add: pciem_conf_read_impl_def cap_consts)
  then show "bar_rd idx v = pciem_read_bar_address v idx" by (simp add: bar_rd_def)
  show wr: "pciem_conf_write_impl (Some v) (bar_pos idx) 4 x =
      (fst (pciem_write_bar_address v idx x), Some (snd (pciem_write_bar_address v idx x)))"
    using facts by (simp add: pciem_conf_write_impl_def cap_consts split: prod.split)
  then show "bar_wr idx v x = snd (pciem_write_bar_address v idx x)" by (simp add: bar_wr_def)
qed

text \<open>A memory BAR of a given size and flags, in a well-formed function.\<close>

definition mem_bar :: "nat \<Rightarrow> u64 \<Rightarrow> u32 \<Rightarrow> 'a rc_bars_scheme \<Rightarrow> bool" where
  "mem_bar idx sz fl v \<longleftrightarrow>
     conf_ok v \<and> idx < PCI_STD_NUM_BARS \<and> bar_size (bars v idx) = sz \<and> bar_flags (bars v idx) = fl \<and>
     sz \<noteq> 0 \<and> fl AND PCI_BASE_ADDRESS_SPACE_IO = 0"

text \<open>The upper half of a 64-bit BAR of a given size.\<close>

definition high_bar :: "nat \<Rightarrow> u64 \<Rightarrow> 'a rc_bars_scheme \<Rightarrow> bool" where
  "high_bar idx sz v \<longleftrightarrow>
     conf_ok v \<and> idx + 1 < PCI_STD_NUM_BARS \<and> even idx \<and> bar_size (bars v idx) = sz \<and>
     is_64 (bars v idx) \<and> bar_size (bars v (idx + 1)) = 0"

lemma conf_ok_set_bar [simp]: "conf_ok (set_bar v i b) = conf_ok v"
  by (simp add: conf_ok_def caps_inv_def caps_fit_def)

lemma mem_bar_wr:
  assumes "mem_bar idx sz fl v"
  shows "bar_wr idx v x =
    set_bar v idx ((bars v idx)\<lparr>base_addr_val := x AND (size_mask sz AND PCI_BASE_ADDRESS_MEM_MASK)\<rparr>)"
  using assms by (auto simp: mem_bar_def bar_access pciem_write_bar_address_def Let_def)

lemma mem_bar_rd:
  assumes "mem_bar idx sz fl v"
  shows "bar_rd idx v = base_addr_val (bars v idx) OR (fl AND NOT PCI_BASE_ADDRESS_MEM_MASK)"
  using assms by (auto simp: mem_bar_def bar_access pciem_read_bar_address_def Let_def)

lemma prev_of_odd: "even idx \<Longrightarrow> prev_bar v (idx + 1) = Some (bars v idx)"
  by (simp add: prev_bar_def) presburger

lemma high_bar_wr:
  assumes "high_bar idx sz v"
  shows "bar_wr (idx + 1) v x = set_bar v (idx + 1) ((bars v (idx + 1))\<lparr>base_addr_val :=
    x AND (if sz < 2 ^ 32 then 0 else size_mask_high sz)\<rparr>)"
  using assms by (simp add: high_bar_def bar_access pciem_write_bar_address_def Let_def prev_of_odd
      del: add_2_eq_Suc' One_nat_def Suc_eq_plus1_left)

lemma high_bar_rd:
  assumes "high_bar idx sz v"
  shows "bar_rd (idx + 1) v = base_addr_val (bars v (idx + 1))"
  using assms by (simp add: high_bar_def bar_access pciem_read_bar_address_def Let_def prev_of_odd
      del: One_nat_def)

interpretation bar: address_register "bar_rd idx" "bar_wr idx" "mem_bar idx sz fl"
    "size_mask sz AND PCI_BASE_ADDRESS_MEM_MASK" "fl AND NOT PCI_BASE_ADDRESS_MEM_MASK"
  for idx sz fl
proof unfold_locales
  fix s :: "'a rc_bars_scheme" and x y :: u32
  assume s: "mem_bar idx sz fl s"
  show inv: "mem_bar idx sz fl (bar_wr idx s x)"
    using s by (simp add: mem_bar_wr) (simp add: mem_bar_def)
  show "bar_rd idx (bar_wr idx s x) =
      (x AND (size_mask sz AND PCI_BASE_ADDRESS_MEM_MASK)) OR (fl AND NOT PCI_BASE_ADDRESS_MEM_MASK)"
    using mem_bar_rd [OF inv] by (simp add: mem_bar_wr [OF s])
  show "bar_wr idx (bar_wr idx s x) y = bar_wr idx s y"
    using mem_bar_wr [OF inv, of y] by (simp add: mem_bar_wr [OF s])
next
  show "(size_mask sz AND PCI_BASE_ADDRESS_MEM_MASK) AND (fl AND NOT PCI_BASE_ADDRESS_MEM_MASK) = 0"
    by (rule bit_word_eqI) (auto simp: bit_and_iff bit_not_iff)
qed

interpretation high: address_register "bar_rd (idx + 1)" "bar_wr (idx + 1)" "high_bar idx sz"
    "if sz < 2 ^ 32 then 0 else size_mask_high sz" 0
  for idx sz
proof unfold_locales
  fix s :: "'a rc_bars_scheme" and x y :: u32
  assume s: "high_bar idx sz s"
  show inv: "high_bar idx sz (bar_wr (idx + 1) s x)"
    unfolding high_bar_wr [OF s] using s by (simp add: high_bar_def)
  show "bar_rd (idx + 1) (bar_wr (idx + 1) s x) = (x AND (if sz < 2 ^ 32 then 0 else size_mask_high sz)) OR 0"
    unfolding high_bar_rd [OF inv] unfolding high_bar_wr [OF s] by simp
  show "bar_wr (idx + 1) (bar_wr (idx + 1) s x) y = bar_wr (idx + 1) s y"
    unfolding high_bar_wr [OF inv, of y] unfolding high_bar_wr [OF s] by simp
qed simp

subsection \<open>Writes stay inside the arrays, and reads of plain bytes return them\<close>

lemma raw_write_Some:
  assumes "raw_write f i sz val = Some g"
  shows "\<And>j. \<lbrakk>i \<le> j \<Longrightarrow> i + nat sz \<le> j\<rbrakk> \<Longrightarrow> g j = f j" and "raw_read g i sz = take_bit (8 * nat sz) val"
proof -
  show "\<And>j. \<lbrakk>i \<le> j \<Longrightarrow> i + nat sz \<le> j\<rbrakk> \<Longrightarrow> g j = f j"
    using assms by (auto simp: raw_write_def poke_def split: if_splits)
  have low: "(ucast (ucast val :: u8) :: u32) = take_bit 8 val"
    "(ucast (ucast val :: u16) :: u32) = take_bit 16 val"
    by (rule bit_word_eqI; auto simp: bit_simps)+
  show "raw_read g i sz = take_bit (8 * nat sz) val"
    using assms
    by (auto simp: raw_write_def raw_read_def low get16_poke_le16 get32_poke_le32
        poke_first take_bit_word_eq_self split: if_splits)
qed

text \<open>The part of a configuration write that is neither a capability nor a BAR.\<close>

definition plain_reg :: "'a rc_bars_scheme \<Rightarrow> int \<Rightarrow> int \<Rightarrow> bool" where
  "plain_reg v pos sz \<longleftrightarrow>
     0 \<le> pos \<and> pos + sz \<le> int PCI_CFG_SPACE_SIZE \<and> sz \<in> {1, 2, 4} \<and> \<not> in_bar_regs pos sz \<and>
     pos \<noteq> PCI_ROM_ADDRESS \<and>
     (case cap_mgr v of None \<Rightarrow> True | Some mgr \<Rightarrow> \<forall>c\<in>set (caps mgr). \<not> cap_covers pos c)"

lemma plain_access:
  assumes "\<not> detaching v" "plain_reg v pos sz"
  shows "pciem_conf_read_impl (Some v) pos sz = (PCIBIOS_SUCCESSFUL, raw_read (cfg v) (nat pos) sz)"
    and "pciem_conf_write_impl (Some v) pos sz val =
           (PCIBIOS_SUCCESSFUL, Some (v\<lparr>cfg := the (raw_write (cfg v) (nat pos) sz val)\<rparr>))"
proof -
  have none: "pciem_handle_cap_read v pos sz = None" "pciem_handle_cap_write v pos sz val = (False, v)"
    using assms(2)
    by (auto simp: plain_reg_def pciem_handle_cap_read_def pciem_handle_cap_write_def
        cap_read_loop_None cap_write_loop_None split: option.splits)
  have pos: "\<not> pos \<ge> int PCI_CFG_SPACE_SIZE" "\<not> (pos < 0 \<or> pos + sz > int PCI_CFG_SPACE_SIZE)"
    "\<not> in_bar_regs pos sz" "pos \<noteq> PCI_ROM_ADDRESS" "sz = 1 \<or> sz = 2 \<or> sz = 4"
    using assms(2) by (auto simp: plain_reg_def)
  moreover have "c_int (pos + sz) = pos + sz"
    using pos(1,2,5) by (intro c_int_small) (auto simp: cfg_consts)
  ultimately have pos: "\<not> pos \<ge> int PCI_CFG_SPACE_SIZE" "\<not> (pos < 0 \<or> c_int (pos + sz) > int PCI_CFG_SPACE_SIZE)"
    "\<not> in_bar_regs pos sz" "pos \<noteq> PCI_ROM_ADDRESS" "sz = 1 \<or> sz = 2 \<or> sz = 4" by simp_all
  show "pciem_conf_read_impl (Some v) pos sz = (PCIBIOS_SUCCESSFUL, raw_read (cfg v) (nat pos) sz)"
    using assms(1) none(1) pos by (simp add: pciem_conf_read_impl_def)
  show "pciem_conf_write_impl (Some v) pos sz val =
      (PCIBIOS_SUCCESSFUL, Some (v\<lparr>cfg := the (raw_write (cfg v) (nat pos) sz val)\<rparr>))"
    using assms(1) none(2) pos by (auto simp: pciem_conf_write_impl_def raw_write_def)
qed

text \<open>Every write to a well-formed function stays inside its two arrays.\<close>

lemma cap_write_side:
  assumes "conf_ok v" "pciem_handle_cap_write v pos sz val = (ok, u)"
  shows "int PCI_CFG_SPACE_SIZE \<le> pos \<Longrightarrow> cfg u = cfg v"
    and "\<not> int PCI_CFG_SPACE_SIZE \<le> pos \<Longrightarrow> ext_cfg u = ext_cfg v"
  using assms cap_covers_range(2)
  by (cases ok; auto simp: conf_ok_def caps_inv_def caps_fit_def cap_consts
      dest: cap_write_refused elim!: cap_write_cases)+

lemma conf_write_in_bounds:
  assumes ok: "conf_ok v" and sz: "0 \<le> sz" "pos + sz < 2 ^ 31"
    and w: "pciem_conf_write_impl (Some v) pos sz val = (rc, Some v')"
  shows "PCI_CFG_SPACE_SIZE \<le> i \<Longrightarrow> cfg v' i = cfg v i"
    and "EXT_CFG_SIZE \<le> i \<Longrightarrow> ext_cfg v' i = ext_cfg v i"
proof -
  obtain ok' u where u: "pciem_handle_cap_write v pos sz val = (ok', u)"
    by (cases "pciem_handle_cap_write v pos sz val")
  have bar: "cfg w = cfg u" "ext_cfg w = ext_cfg u"
    if "pciem_write_bar_address u n val = (rc', w)" for n rc' w
    using write_bar_keeps [OF that] by simp_all
  have "(PCI_CFG_SPACE_SIZE \<le> i \<longrightarrow> cfg v' i = cfg v i) \<and>
    (EXT_CFG_SIZE \<le> i \<longrightarrow> ext_cfg v' i = ext_cfg v i)"
  proof (cases "pos < 0")
    case True
    with ok w show ?thesis by (simp add: pciem_conf_write_impl_def conf_ok_def)
  next
    case False
    then have pos: "0 \<le> pos" by simp
    have end_pos: "c_int (pos + sz) = pos + sz" using pos sz by (intro c_int_small) simp_all
    note fr = cap_write_frame [OF u pos sz(1)]
    show ?thesis
    proof (cases "pos \<ge> int PCI_CFG_SPACE_SIZE")
      case True
      then have cfg_same: "cfg u = cfg v" using cap_write_side(1) [OF ok u] by simp
      show ?thesis
      proof (cases "pos + sz > PCI_CFG_SPACE_EXP_SIZE")
        case True
        with \<open>pos \<ge> int PCI_CFG_SPACE_SIZE\<close> ok w show ?thesis
          by (simp add: pciem_conf_write_impl_def conf_ok_def end_pos)
      next
        case False
        then have "nat pos - PCI_CFG_SPACE_SIZE + nat sz \<le> EXT_CFG_SIZE"
          using \<open>pos \<ge> int PCI_CFG_SPACE_SIZE\<close> sz(1) by (simp add: conf_consts nat_le_iff)
        with False \<open>pos \<ge> int PCI_CFG_SPACE_SIZE\<close> ok w u cfg_same fr(2) [of i] show ?thesis
          by (auto simp: pciem_conf_write_impl_def conf_ok_def end_pos nat_diff_distrib
              split: if_splits option.splits dest: raw_write_Some(1) [where j = i])
      qed
    next
      case False
      then have ext_same: "ext_cfg u = ext_cfg v" using cap_write_side(2) [OF ok u] by simp
      show ?thesis
      proof (cases "pos + sz > int PCI_CFG_SPACE_SIZE")
        case True
        with False ok w show ?thesis
          by (simp add: pciem_conf_write_impl_def conf_ok_def end_pos)
      next
        case in_cfg: False
        then have "nat pos + nat sz \<le> PCI_CFG_SPACE_SIZE" using pos sz(1) by simp
        with in_cfg False pos ok w u ext_same fr(1) [of i] bar show ?thesis
          by (auto simp: pciem_conf_write_impl_def conf_ok_def end_pos
              split: if_splits option.splits prod.splits dest: raw_write_Some(1) [where j = i])
      qed
    qed
  qed
  then show "PCI_CFG_SPACE_SIZE \<le> i \<Longrightarrow> cfg v' i = cfg v i"
    and "EXT_CFG_SIZE \<le> i \<Longrightarrow> ext_cfg v' i = ext_cfg v i"
    by blast+
qed

end
