(* ===== verification/P2P.thy ===== *)
theory P2P
  imports Pool
begin

text \<open>
  Peer-to-peer windows (\<^verbatim>\<open>kernel/framework/p2p.c\<close>): the whitelist of physical regions, its
  parser, and the reads and writes that go through it.

  The mapped I/O memory is a function from physical addresses to bytes; a mapping gives access to
  exactly the bytes of its region, and an access past its end is the outcome \<open>None\<close>. Whether an
  allocation or a mapping succeeds is answered by the environment record.

  The list of regions keeps the parser's invariant \<open>disjoint_regions\<close>; under it an access that
  passed the check stays inside the region the data moves through.
\<close>

datatype p2p_name = Indexed nat | Dynamic u64 | Named string

record p2p_region =
  phys_start :: u64
  region_size :: u64
  region_name :: p2p_name

record p2p_manager =
  regions :: "p2p_region list"
  max_transfer_size :: u64
  p2p_enabled :: bool

record p2p_env =
  dup_ok :: bool
  alloc_ok :: "nat \<Rightarrow> bool"
  ioremap_ok :: "u64 \<Rightarrow> u64 \<Rightarrow> bool"
  region_scan_0x :: "string \<Rightarrow> (u64 \<times> u64) option"
  region_scan_plain :: "string \<Rightarrow> (u64 \<times> u64) option"

definition PCIEM_P2P_MAX_TRANSFER :: u64 where
  "PCIEM_P2P_MAX_TRANSFER = 16 * 1024 * 1024"

definition region_end :: "p2p_region \<Rightarrow> u64" where
  "region_end r = phys_start r + region_size r"

subsection \<open>The parser of the module parameter\<close>

text \<open>\<open>strsep\<close> with the delimiter ',': empty tokens are tokens.\<close>

fun split_commas :: "string \<Rightarrow> string list" where
  "split_commas [] = [[]]"
| "split_commas (c # cs) =
     (if c = CHR '','' then [] # split_commas cs
      else (case split_commas cs of t # ts \<Rightarrow> (c # t) # ts | [] \<Rightarrow> [[c]]))"

definition regions_overlap :: "u64 \<Rightarrow> u64 \<Rightarrow> p2p_region \<Rightarrow> bool" where
  "regions_overlap phys sz existing \<longleftrightarrow>
     phys < region_end existing \<and> phys + sz > phys_start existing"

definition parse_token ::
    "p2p_env \<Rightarrow> nat \<Rightarrow> p2p_region list \<times> nat \<Rightarrow> string \<Rightarrow> p2p_region list \<times> nat" where
  "parse_token env i acc tok =
     (let (rs, count) = acc in
      case scan_region (region_scan_0x env) (region_scan_plain env) tok of
        None \<Rightarrow> (rs, count)
      | Some (phys, sz) \<Rightarrow>
          if sz = 0 \<or> sz > 2 ^ 40 then (rs, count)
          else if list_ex (regions_overlap phys sz) rs then (rs, count)
          else if \<not> alloc_ok env i then (rs, count)
          else if \<not> ioremap_ok env phys sz then (rs, count)
          else (rs @ [\<lparr>phys_start = phys, region_size = sz, region_name = Indexed count\<rparr>],
                count + 1))"

fun parse_tokens ::
    "p2p_env \<Rightarrow> nat \<Rightarrow> p2p_region list \<times> nat \<Rightarrow> string list \<Rightarrow> p2p_region list \<times> nat" where
  "parse_tokens env i acc [] = acc"
| "parse_tokens env i acc (t # ts) = parse_tokens env (i + 1) (parse_token env i acc t) ts"

definition parse_p2p_regions :: "p2p_env \<Rightarrow> p2p_manager \<Rightarrow> string option \<Rightarrow> unit res \<times> p2p_manager" where
  "parse_p2p_regions env mgr str =
     (if str = None \<or> str = Some [] then (Inr (), mgr)
      else if \<not> dup_ok env then (Inl ENOMEM, mgr)
      else let (rs, count) = parse_tokens env 0 (regions mgr, 0) (split_commas (the str))
           in (Inr (), mgr\<lparr>regions := rs,
                          p2p_enabled := (if count > 0 then True else p2p_enabled mgr)\<rparr>))"

definition pciem_p2p_init :: "bool \<Rightarrow> p2p_env \<Rightarrow> string option \<Rightarrow> p2p_manager option \<Rightarrow>
    unit res \<times> p2p_manager option" where
  "pciem_p2p_init mem_ok env str old =
     (if \<not> mem_ok then (Inl ENOMEM, old)
      else case parse_p2p_regions env
             \<lparr>regions = [], max_transfer_size = PCIEM_P2P_MAX_TRANSFER, p2p_enabled = False\<rparr> str of
        (Inl e, mgr) \<Rightarrow> (Inl e, old)
      | (Inr _, mgr) \<Rightarrow> (Inr (), Some mgr))"

definition pciem_p2p_cleanup :: "p2p_manager option \<Rightarrow> p2p_manager option" where
  "pciem_p2p_cleanup m = None"

subsection \<open>Dynamic regions\<close>

definition region_label :: "string option \<Rightarrow> u64 \<Rightarrow> p2p_name" where
  "region_label name phys = (case name of None \<Rightarrow> Dynamic phys | Some s \<Rightarrow> Named (take 30 s))"

definition pciem_p2p_register_region ::
    "bool \<Rightarrow> p2p_env \<Rightarrow> p2p_manager option \<Rightarrow> u64 \<Rightarrow> u64 \<Rightarrow> string option \<Rightarrow>
       unit res \<times> p2p_manager option" where
  "pciem_p2p_register_region mem_ok env m phys sz name =
     (case m of
        None \<Rightarrow> (Inl EINVAL, None)
      | Some mgr \<Rightarrow>
          if sz = 0 \<or> sz > PCIEM_P2P_MAX_TRANSFER then (Inl EINVAL, m)
          else if \<not> mem_ok then (Inl ENOMEM, m)
          else if \<not> ioremap_ok env phys sz then (Inl ENOMEM, m)
          else (Inr (), Some (mgr\<lparr>regions := regions mgr @
                 [\<lparr>phys_start = phys, region_size = sz, region_name = region_label name phys\<rparr>],
                 p2p_enabled := True\<rparr>)))"

fun drop_region :: "u64 \<Rightarrow> p2p_region list \<Rightarrow> p2p_region list option" where
  "drop_region phys [] = None"
| "drop_region phys (r # rs) =
     (if phys_start r = phys then Some rs else map_option ((#) r) (drop_region phys rs))"

definition pciem_p2p_unregister_region ::
    "p2p_manager option \<Rightarrow> u64 \<Rightarrow> unit res \<times> p2p_manager option" where
  "pciem_p2p_unregister_region m phys =
     (case m of
        None \<Rightarrow> (Inl EINVAL, None)
      | Some mgr \<Rightarrow>
          (case drop_region phys (regions mgr) of
             None \<Rightarrow> (Inl ENOENT, m)
           | Some rs \<Rightarrow> (Inr (), Some (mgr\<lparr>regions := rs\<rparr>))))"

subsection \<open>Accesses\<close>

definition pciem_p2p_get_region :: "p2p_manager option \<Rightarrow> u64 \<Rightarrow> p2p_region option" where
  "pciem_p2p_get_region m phys =
     (case m of
        None \<Rightarrow> None
      | Some mgr \<Rightarrow> find (\<lambda>r. phys \<ge> phys_start r \<and> phys < region_end r) (regions mgr))"

definition pciem_p2p_validate_access :: "p2p_manager option \<Rightarrow> u64 \<Rightarrow> u64 \<Rightarrow> unit res" where
  "pciem_p2p_validate_access m phys len =
     (case m of
        None \<Rightarrow> Inl EINVAL
      | Some mgr \<Rightarrow>
          if \<not> p2p_enabled mgr then Inl EACCES
          else if len = 0 \<or> len > max_transfer_size mgr then Inl EINVAL
          else if phys + len < phys then Inl EINVAL
          else if list_ex (\<lambda>r. phys \<ge> phys_start r \<and> phys + len \<le> region_end r) (regions mgr)
          then Inr ()
          else Inl EACCES)"

text \<open>The I/O memory behind the mapping of a region; \<open>None\<close> is an access past its end.\<close>

definition io_read :: "(u64 \<Rightarrow> u8) \<Rightarrow> p2p_region \<Rightarrow> u64 \<Rightarrow> u64 \<Rightarrow> u8 list option" where
  "io_read io r off len =
     (if unat off + unat len \<le> unat (region_size r)
      then Some (map (\<lambda>k. io (phys_start r + off + of_nat k)) [0..<unat len])
      else None)"

definition io_write :: "(u64 \<Rightarrow> u8) \<Rightarrow> p2p_region \<Rightarrow> u64 \<Rightarrow> u8 list \<Rightarrow> (u64 \<Rightarrow> u8) option" where
  "io_write io r off bs =
     (if unat off + length bs \<le> unat (region_size r)
      then Some (\<lambda>a. if unat (a - (phys_start r + off)) < length bs
                     then bs ! unat (a - (phys_start r + off)) else io a)
      else None)"

text \<open>The outer \<open>None\<close> is an out-of-bounds access of the mapping.\<close>

definition pciem_p2p_read ::
    "(u64 \<Rightarrow> u8) \<Rightarrow> p2p_manager option \<Rightarrow> u64 \<Rightarrow> u64 \<Rightarrow> u8 list res option" where
  "pciem_p2p_read io m phys len =
     (case pciem_p2p_validate_access m phys len of
        Inl e \<Rightarrow> Some (Inl e)
      | Inr _ \<Rightarrow>
          (case pciem_p2p_get_region m phys of
             None \<Rightarrow> Some (Inl EFAULT)
           | Some r \<Rightarrow> map_option Inr (io_read io r (phys - phys_start r) len)))"

definition pciem_p2p_write ::
    "(u64 \<Rightarrow> u8) \<Rightarrow> p2p_manager option \<Rightarrow> u64 \<Rightarrow> u8 list \<Rightarrow> (unit res \<times> (u64 \<Rightarrow> u8)) option" where
  "pciem_p2p_write io m phys bs =
     (case pciem_p2p_validate_access m phys (of_nat (length bs)) of
        Inl e \<Rightarrow> Some (Inl e, io)
      | Inr _ \<Rightarrow>
          (case pciem_p2p_get_region m phys of
             None \<Rightarrow> Some (Inl EFAULT, io)
           | Some r \<Rightarrow> map_option (Pair (Inr ())) (io_write io r (phys - phys_start r) bs)))"

subsection \<open>The whitelist\<close>

text \<open>
  What \<open>ioremap\<close> promises: it refuses empty ranges and ranges past the physical address space
  (whose width is below 64 bits on every architecture the module builds for).
\<close>

definition ioremap_checks :: "p2p_env \<Rightarrow> bool" where
  "ioremap_checks env \<longleftrightarrow>
     (\<forall>phys sz. ioremap_ok env phys sz \<longrightarrow> 0 < unat sz \<and> unat phys + unat sz < 2 ^ 64)"

definition region_ok :: "p2p_region \<Rightarrow> bool" where
  "region_ok r \<longleftrightarrow> 0 < unat (region_size r) \<and> unat (phys_start r) + unat (region_size r) < 2 ^ 64"

definition in_region :: "u64 \<Rightarrow> p2p_region \<Rightarrow> bool" where
  "in_region a r \<longleftrightarrow> phys_start r \<le> a \<and> a < region_end r"

definition disjoint_regions :: "p2p_region list \<Rightarrow> bool" where
  "disjoint_regions rs \<longleftrightarrow> list_all region_ok rs \<and>
     sorted_wrt (\<lambda>r s. \<forall>a. \<not> (in_region a r \<and> in_region a s)) rs"

definition p2p_inv :: "p2p_manager option \<Rightarrow> bool" where
  "p2p_inv m \<longleftrightarrow> (case m of None \<Rightarrow> True | Some mgr \<Rightarrow> disjoint_regions (regions mgr))"

lemma region_end_nat: "region_ok r \<Longrightarrow> unat (region_end r) = unat (phys_start r) + unat (region_size r)"
  by (simp add: region_end_def region_ok_def unat_add_small)

lemma not_overlap_disjoint:
  assumes "\<not> regions_overlap phys sz r"
  shows "\<not> (in_region a r \<and> in_region a \<lparr>phys_start = phys, region_size = sz, region_name = n\<rparr>)"
proof
  assume a: "in_region a r \<and> in_region a \<lparr>phys_start = phys, region_size = sz, region_name = n\<rparr>"
  then have bounds: "phys \<le> a" "a < region_end r" "phys_start r \<le> a" "a < phys + sz"
    unfolding in_region_def region_end_def p2p_region.select_convs by blast+
  from le_less_trans [OF bounds(1,2)] le_less_trans [OF bounds(3,4)] assms show False
    unfolding regions_overlap_def by blast
qed

lemma parse_token_inv [inv_intros]:
  assumes env: "ioremap_checks env" and inv: "disjoint_regions rs"
    and eq: "parse_token env i (rs, n) tok = (rs', n')"
  shows "disjoint_regions rs'"
proof -
  consider "rs' = rs"
    | phys sz where "\<not> list_ex (regions_overlap phys sz) rs" "ioremap_ok env phys sz"
      "rs' = rs @ [\<lparr>phys_start = phys, region_size = sz, region_name = Indexed n\<rparr>]"
  proof (cases "scan_region (region_scan_0x env) (region_scan_plain env) tok")
    case (Some ps)
    obtain phys sz where ps: "ps = (phys, sz)" by (cases ps)
    show thesis
    proof (cases "rs' = rs")
      case False
      with eq Some ps have "\<not> list_ex (regions_overlap phys sz) rs \<and> ioremap_ok env phys sz \<and>
          rs' = rs @ [\<lparr>phys_start = phys, region_size = sz, region_name = Indexed n\<rparr>]"
        by (simp add: parse_token_def split: if_split_asm)
      then show thesis using that(2) by blast
    qed (rule that(1))
  next
    case None
    with eq have "rs' = rs" by (simp add: parse_token_def)
    then show thesis by (rule that(1))
  qed
  then show ?thesis
  proof cases
    case 2
    with env have ok: "region_ok \<lparr>phys_start = phys, region_size = sz, region_name = Indexed n\<rparr>"
      by (simp add: ioremap_checks_def region_ok_def)
    have "\<forall>r\<in>set rs. \<not> regions_overlap phys sz r"
      using 2(1) by (simp add: list_ex_iff)
    then have "\<forall>r\<in>set rs. \<forall>a. \<not> (in_region a r \<and>
        in_region a \<lparr>phys_start = phys, region_size = sz, region_name = Indexed n\<rparr>)"
      using not_overlap_disjoint by blast
    with ok inv 2(3) show ?thesis
      by (simp add: disjoint_regions_def sorted_wrt_append)
  qed (use inv in simp)
qed

lemma parse_tokens_inv [inv_intros]:
  assumes "ioremap_checks env" "disjoint_regions (fst acc)"
  shows "disjoint_regions (fst (parse_tokens env i acc ts))"
  using assms(2)
proof (induction ts arbitrary: i acc)
  case (Cons t ts)
  have "disjoint_regions (fst (parse_token env i acc t))"
    using parse_token_inv [OF assms(1), of "fst acc" i "snd acc" t] Cons.prems
    by (metis prod.collapse)
  with Cons.IH show ?case by simp
qed simp

lemma p2p_init_inv [inv_intros]:
  assumes "ioremap_checks env" "p2p_inv old" "pciem_p2p_init mem_ok env str old = (rc, m)"
  shows "p2p_inv m"
proof -
  have "disjoint_regions (fst (parse_tokens env 0 ([], 0) (split_commas (the str))))"
    by (rule parse_tokens_inv [OF assms(1)]) (simp add: disjoint_regions_def)
  with assms(2,3) show ?thesis
    by (auto simp: pciem_p2p_init_def parse_p2p_regions_def p2p_inv_def disjoint_regions_def
        split: if_splits prod.splits)
qed

lemma drop_region_Some:
  "drop_region phys rs = Some rs' \<Longrightarrow>
     \<exists>pre r post. rs = pre @ r # post \<and> rs' = pre @ post \<and> phys_start r = phys"
proof (induction rs arbitrary: rs')
  case (Cons r rs)
  show ?case
  proof (cases "phys_start r = phys")
    case True
    with Cons.prems show ?thesis by (intro exI [of _ "[]"]) auto
  next
    case False
    with Cons.prems obtain rs2 where d: "drop_region phys rs = Some rs2" "rs' = r # rs2" by auto
    from Cons.IH [OF d(1)] obtain pre q post
      where "rs = pre @ q # post" "rs2 = pre @ post" "phys_start q = phys" by blast
    with d(2) show ?thesis by (intro exI [of _ "r # pre"]) auto
  qed
qed simp

lemma p2p_unregister_inv [inv_intros]:
  assumes "p2p_inv m" "pciem_p2p_unregister_region m phys = (rc, m')"
  shows "p2p_inv m'"
  using assms
  by (auto simp: pciem_p2p_unregister_region_def p2p_inv_def disjoint_regions_def sorted_wrt_append
      split: option.splits dest!: drop_region_Some)

text \<open>An access that passed the check and the region it goes through.\<close>

lemma validate_Inr:
  assumes "pciem_p2p_validate_access (Some mgr) phys len = Inr ()"
  obtains r where "r \<in> set (regions mgr)" "phys_start r \<le> phys" "phys + len \<le> region_end r"
    "phys < phys + len"
proof -
  from assms have "\<not> phys + len < phys" "len \<noteq> 0"
    and ex: "list_ex (\<lambda>r. phys \<ge> phys_start r \<and> phys + len \<le> region_end r) (regions mgr)"
    by (simp_all add: pciem_p2p_validate_access_def split: if_splits)
  then have "phys < phys + len" by (metis add_cancel_right_right linorder_neqE)
  with ex that show ?thesis unfolding list_ex_iff by blast
qed

lemma disjoint_unique:
  assumes rs: "disjoint_regions rs" and r: "r \<in> set rs" "in_region a r"
    and s: "s \<in> set rs" "in_region a s"
  shows "r = s"
proof -
  obtain i j where ij: "i < length rs" "rs ! i = r" "j < length rs" "rs ! j = s"
    using r(1) s(1) by (auto simp: in_set_conv_nth)
  have "\<not> (in_region a (rs ! k) \<and> in_region a (rs ! l))" if "k < l" "l < length rs" for k l
    using rs that by (simp add: disjoint_regions_def sorted_wrt_iff_nth_less)
  with ij r(2) s(2) have "i = j" by (metis linorder_neqE_nat)
  with ij show ?thesis by simp
qed

lemma access_region:
  assumes inv: "p2p_inv (Some mgr)" and ok: "pciem_p2p_validate_access (Some mgr) phys len = Inr ()"
  obtains r where "pciem_p2p_get_region (Some mgr) phys = Some r" "r \<in> set (regions mgr)"
    "unat (phys - phys_start r) + unat len \<le> unat (region_size r)" "phys_start r \<le> phys"
proof -
  obtain r where r: "r \<in> set (regions mgr)" "phys_start r \<le> phys" "phys + len \<le> region_end r"
    and lt: "phys < phys + len"
    using ok by (rule validate_Inr)
  have disj: "disjoint_regions (regions mgr)" using inv by (simp add: p2p_inv_def)
  have here: "in_region phys r"
    using r(2) order_less_le_trans [OF lt r(3)] unfolding in_region_def by blast
  have "find (\<lambda>r. phys \<ge> phys_start r \<and> phys < region_end r) (regions mgr) \<noteq> None"
    using r(1) here unfolding find_None_iff in_region_def by blast
  then obtain s where s: "find (\<lambda>r. phys \<ge> phys_start r \<and> phys < region_end r) (regions mgr) = Some s"
    by blast
  then have "s \<in> set (regions mgr)" "in_region phys s"
    by (auto simp: find_Some_iff in_region_def)
  with disjoint_unique [OF disj this r(1) here] s
  have get: "pciem_p2p_get_region (Some mgr) phys = Some r"
    by (simp add: pciem_p2p_get_region_def)
  have okr: "region_ok r" using disj r(1) by (simp add: disjoint_regions_def list_all_iff)
  have "unat (phys + len) = unat phys + unat len"
    using lt by (metis less_imp_le unat_plus_simple)
  moreover have "unat (phys + len) \<le> unat (phys_start r) + unat (region_size r)"
    using r(3) region_end_nat [OF okr] by (simp add: word_le_nat_alt)
  moreover have "unat (phys - phys_start r) = unat phys - unat (phys_start r)"
    using r(2) by (rule unat_sub_if_le)
  moreover have "unat (phys_start r) \<le> unat phys" using r(2) by (simp add: word_le_nat_alt)
  ultimately have "unat (phys - phys_start r) + unat len \<le> unat (region_size r)" by linarith
  with get r(1,2) that show ?thesis by blast
qed

lemma io_write_at:
  "io_write io r (phys - phys_start r) bs =
     (if unat (phys - phys_start r) + length bs \<le> unat (region_size r)
      then Some (mem_put io phys bs) else None)"
proof -
  have eq: "phys_start r + (phys - phys_start r) = phys" by (simp add: add_diff_eq)
  show ?thesis unfolding io_write_def mem_put_def eq by (rule refl)
qed

text \<open>Under the invariant the accesses are those of the physical memory itself.\<close>

lemma p2p_read_spec [access_simps]:
  assumes "p2p_inv m"
  shows "pciem_p2p_read io m phys len =
    Some (case pciem_p2p_validate_access m phys len of Inl e \<Rightarrow> Inl e
          | Inr _ \<Rightarrow> Inr (mem_get io phys (unat len)))"
proof (cases "pciem_p2p_validate_access m phys len")
  case (Inr u)
  then obtain mgr where m: "m = Some mgr"
    by (cases m) (simp_all add: pciem_p2p_validate_access_def)
  from Inr assms m obtain r where "pciem_p2p_get_region m phys = Some r"
    "unat (phys - phys_start r) + unat len \<le> unat (region_size r)"
    by (metis access_region old.unit.exhaust)
  with Inr show ?thesis by (simp add: pciem_p2p_read_def io_read_def mem_get_def)
qed (simp add: pciem_p2p_read_def)

lemma p2p_write_spec [access_simps]:
  assumes "p2p_inv m" "length bs < 2 ^ 64"
  shows "pciem_p2p_write io m phys bs =
    Some (case pciem_p2p_validate_access m phys (of_nat (length bs)) of Inl e \<Rightarrow> (Inl e, io)
          | Inr _ \<Rightarrow> (Inr (), mem_put io phys bs))"
proof (cases "pciem_p2p_validate_access m phys (of_nat (length bs))")
  case (Inr u)
  then obtain mgr where m: "m = Some mgr"
    by (cases m) (simp_all add: pciem_p2p_validate_access_def)
  have len: "unat (of_nat (length bs) :: u64) = length bs"
    using assms(2) by (simp add: unsigned_of_nat take_bit_nat_eq_self)
  from Inr assms m obtain r where "pciem_p2p_get_region m phys = Some r"
    "unat (phys - phys_start r) + length bs \<le> unat (region_size r)"
    by (metis access_region len old.unit.exhaust)
  with Inr show ?thesis by (simp add: pciem_p2p_write_def io_write_at)
qed (simp add: pciem_p2p_write_def)

subsection \<open>Properties\<close>

lemma window_offset:
  fixes phys len a :: u64
  assumes "phys < phys + len" "unat (a - phys) < unat len"
  shows "phys \<le> a \<and> a < phys + len"
proof -
  have sum: "unat (phys + len) = unat phys + unat len"
    using assms(1) by (metis less_imp_le unat_plus_simple)
  moreover have "unat (phys + len) < 2 ^ 64"
    by (rule order_less_le_trans [OF unsigned_less]) simp
  ultimately have "unat phys + unat (a - phys) < 2 ^ 64"
    using assms(2) by linarith
  then have "unat (phys + (a - phys)) = unat phys + unat (a - phys)"
    by (intro unat_add_small) simp
  moreover have "phys + (a - phys) = a" by (simp add: add_diff_eq)
  ultimately have "unat a = unat phys + unat (a - phys)" by (simp only:)
  with assms(2) sum show ?thesis by (simp add: word_le_nat_alt word_less_nat_alt)
qed

text \<open>
  C34. The whitelist confines peer-to-peer accesses. After the module parameter was parsed, whatever
  it was, no read or write runs past the end of the mapping it goes through, and a write changes
  memory only inside a registered region; everything else is refused with an error.
\<close>

theorem p2p_confined:
  assumes env: "ioremap_checks env" and init: "pciem_p2p_init ok env str None = (Inr (), m)"
    and len: "length bs < 2 ^ 64"
  shows "pciem_p2p_read io m phys n \<noteq> None \<and>
    (\<exists>rc io'. pciem_p2p_write io m phys bs = Some (rc, io') \<and>
       (\<forall>a. io' a \<noteq> io a \<longrightarrow> (\<exists>mgr. m = Some mgr \<and> (\<exists>r\<in>set (regions mgr). in_region a r))))"
proof -
  have inv: "p2p_inv m"
    using p2p_init_inv [OF env _ init] by (simp add: p2p_inv_def)
  have "\<exists>mgr. m = Some mgr \<and> (\<exists>r\<in>set (regions mgr). in_region a r)"
    if v: "pciem_p2p_validate_access m phys (of_nat (length bs)) = Inr ()"
      and a: "mem_put io phys bs a \<noteq> io a" for a
  proof -
    obtain mgr where m: "m = Some mgr" using v by (cases m) (simp_all add: pciem_p2p_validate_access_def)
    have n: "unat (of_nat (length bs) :: u64) = length bs"
      using len by (simp add: unsigned_of_nat take_bit_nat_eq_self)
    from a have "unat (a - phys) < unat (of_nat (length bs) :: u64)"
      unfolding n by (auto simp: mem_put_def split: if_splits)
    note off = window_offset [OF _ this]
    from v [unfolded m] obtain r where r: "r \<in> set (regions mgr)" "phys_start r \<le> phys"
      "phys + of_nat (length bs) \<le> region_end r" "phys < phys + of_nat (length bs)"
      by (rule validate_Inr)
    with off [OF r(4)] have "in_region a r" unfolding in_region_def
      by (meson order_trans less_le_trans)
    with m r(1) show ?thesis by blast
  qed
  with p2p_read_spec [OF inv, of io phys n] p2p_write_spec [OF inv len, of io phys] show ?thesis
    by (cases "pciem_p2p_validate_access m phys (of_nat (length bs))") auto
qed

text \<open>An environment for the witnesses: one region of 4 KiB at 0x1000.\<close>

definition env0 :: p2p_env where
  "env0 = \<lparr>dup_ok = True, alloc_ok = (\<lambda>_. True),
           ioremap_ok = (\<lambda>phys sz. 0 < unat sz \<and> unat phys + unat sz < 2 ^ 64),
           region_scan_0x = (\<lambda>s. if s = ''0x1000:0x1000'' then Some (0x1000, 0x1000) else None),
           region_scan_plain = (\<lambda>s. None)\<rparr>"

lemma env0_ok: "ioremap_checks env0"
  by (simp add: ioremap_checks_def env0_def)

definition p2p0 :: p2p_manager where
  "p2p0 = \<lparr>regions = [\<lparr>phys_start = 0x1000, region_size = 0x1000, region_name = Indexed 0\<rparr>],
           max_transfer_size = PCIEM_P2P_MAX_TRANSFER, p2p_enabled = True\<rparr>"

lemma p2p0_init: "pciem_p2p_init True env0 (Some ''0x1000:0x1000,bad'') None = (Inr (), Some p2p0)"
  by (simp add: pciem_p2p_init_def parse_p2p_regions_def env0_def p2p0_def parse_token_def scan_region_def)

theorem p2p_confined_witness:
  "pciem_p2p_read (\<lambda>_. 0) (Some p2p0) 0x1FFF 2 \<noteq> None"
  using p2p_confined [OF env0_ok p2p0_init, of "[]" "\<lambda>_. 0" "0x1FFF" 2] by simp

text \<open>
  Data written through a peer-to-peer window is read back, and no other byte of physical
  memory changes: whenever a write is accepted, the read of the same range returns the bytes.
\<close>

theorem p2p_write_read:
  assumes "p2p_inv m" and "length bs < 2 ^ 64" and "pciem_p2p_write io m phys bs = Some (Inr (), io')"
  shows "pciem_p2p_read io' m phys (of_nat (length bs)) = Some (Inr bs) \<and>
    (\<forall>a. length bs \<le> unat (a - phys) \<longrightarrow> io' a = io a)"
proof -
  have n: "unat (of_nat (length bs) :: u64) = length bs"
    using assms(2) by (simp add: unsigned_of_nat take_bit_nat_eq_self)
  have "pciem_p2p_validate_access m phys (of_nat (length bs)) = Inr () \<and> io' = mem_put io phys bs"
    using assms(3) p2p_write_spec [OF assms(1,2), of io phys] by (simp split: sum.splits)
  then show ?thesis
    using p2p_read_spec [OF assms(1), of io' phys "of_nat (length bs)"] n assms(2)
    by (simp add: mem_get_put mem_put_other)
qed

theorem p2p_write_read_witness:
  "\<exists>io'. pciem_p2p_write (\<lambda>_. 0) (Some p2p0) 0x1004 [1, 2, 3] = Some (Inr (), io') \<and>
     pciem_p2p_read io' (Some p2p0) 0x1004 3 = Some (Inr [1, 2, 3])"
proof -
  have inv: "p2p_inv (Some p2p0)"
    using p2p_init_inv [OF env0_ok _ p2p0_init] by (simp add: p2p_inv_def)
  obtain io' where w: "pciem_p2p_write (\<lambda>_. 0) (Some p2p0) 0x1004 [1, 2, 3] = Some (Inr (), io')"
    using p2p_write_spec [OF inv, of "[1, 2, 3]" "\<lambda>_. 0" "0x1004"]
    by (simp add: pciem_p2p_validate_access_def p2p0_def region_end_def PCIEM_P2P_MAX_TRANSFER_def)
  from p2p_write_read [OF inv _ w] w show ?thesis by auto
qed

text \<open>
  Regions registered at run time are not checked against the existing ones, and then the
  whitelist no longer confines accesses: with a region of 4 KiB and a later one of 8 KiB at the same
  address, a read of 8 KiB passes the check (against the second) and runs past the mapping of the
  first.
\<close>

theorem p2p_dynamic_overlap:
  assumes "ioremap_checks env" and "m0 = Some \<lparr>regions = [], max_transfer_size = PCIEM_P2P_MAX_TRANSFER,
      p2p_enabled = False\<rparr>"
    and "pciem_p2p_register_region True env m0 0x1000 0x1000 None = (Inr (), m1)"
    and "pciem_p2p_register_region True env m1 0x1000 0x2000 None = (Inr (), m2)"
  shows "pciem_p2p_validate_access m2 0x1000 0x2000 = Inr () \<and> pciem_p2p_read io m2 0x1000 0x2000 = None"
proof -
  have "m2 = Some \<lparr>regions = [\<lparr>phys_start = 0x1000, region_size = 0x1000, region_name = Dynamic 0x1000\<rparr>,
        \<lparr>phys_start = 0x1000, region_size = 0x2000, region_name = Dynamic 0x1000\<rparr>],
      max_transfer_size = PCIEM_P2P_MAX_TRANSFER, p2p_enabled = True\<rparr>"
    using assms(2-4)
    by (auto simp: pciem_p2p_register_region_def region_label_def split: if_splits)
  then show ?thesis
    by (simp add: pciem_p2p_read_def pciem_p2p_validate_access_def pciem_p2p_get_region_def region_end_def
        io_read_def PCIEM_P2P_MAX_TRANSFER_def)
qed

theorem p2p_dynamic_overlap_witness:
  "\<exists>m1 m2. pciem_p2p_register_region True env0 (Some \<lparr>regions = [],
        max_transfer_size = PCIEM_P2P_MAX_TRANSFER, p2p_enabled = False\<rparr>) 0x1000 0x1000 None = (Inr (), m1) \<and>
     pciem_p2p_register_region True env0 m1 0x1000 0x2000 None = (Inr (), m2) \<and>
     pciem_p2p_read (\<lambda>_. 0) m2 0x1000 0x2000 = None"
proof -
  define m0 where "m0 = Some \<lparr>regions = [], max_transfer_size = PCIEM_P2P_MAX_TRANSFER, p2p_enabled = False\<rparr>"
  obtain m1 where m1: "pciem_p2p_register_region True env0 m0 0x1000 0x1000 None = (Inr (), m1)" "m1 \<noteq> None"
    by (simp add: pciem_p2p_register_region_def m0_def env0_def PCIEM_P2P_MAX_TRANSFER_def)
  obtain m2 where m2: "pciem_p2p_register_region True env0 m1 0x1000 0x2000 None = (Inr (), m2)"
    using m1(2) by (auto simp: pciem_p2p_register_region_def env0_def PCIEM_P2P_MAX_TRANSFER_def)
  from p2p_dynamic_overlap [OF env0_ok m0_def m1(1) m2, of "\<lambda>_. 0"] m1(1) m2 show ?thesis
    unfolding m0_def by blast
qed

end
