(* ===== verification/Device.thy ===== *)
theory Device
  imports Conf P2P "HOL-Library.Log_Nat"
begin

text \<open>
  The life of a function (\<^verbatim>\<open>kernel/framework/pciem.c\<close>): \<open>pciem_complete_init\<close> with its two bus
  modes, \<open>pciem_attach_function\<close>, the start of the device and \<open>pciem_teardown_device\<close>.

  A root complex is known to the bus by its address, here the number \<open>rc_id\<close>. The state of the host
  (\<open>host\<close>) is what the code changes of it: the operations of the host bus a function attaches to, and
  the table \<open>priv->funcs\<close> of every synthetic root bus that is registered. The answers of the PCI core,
  of the allocators and of the interrupt code are the fields of \<open>dev_env\<close>;
  a read of a configuration register answers whether it succeeded and the value it stored; \<open>sized_regs\<close> are the
  address registers of a function the PCI core sizes when it scans it, in order. The union \<open>mode_state\<close> is
  written by one mode only, its parts are separate fields; \<open>bar->pages\<close> and \<open>bar->res\<close> are never read.
\<close>

datatype bus_mode = VIRTUAL_ROOT | ATTACH_TO_HOST

text \<open>The operations a host bus points to: its own, or the proxy of the root complex at an address.\<close>

datatype bus_ops = Host_ops | Proxy_of nat

record pdev =
  pd_bus :: nat
  pd_devfn :: nat
  pd_resources :: "nat \<Rightarrow> (u64 \<times> u64) option"

record rc_dev = rc_bars +
  rc_id :: nat
  func_index :: nat
  rc_mode :: bus_mode
  pciem_pdev :: "pdev option"
  root_bus :: "nat option"
  bridge_priv :: "nat option"
  assigned_busnr :: nat
  hj_bus :: "nat option"
  hj_slot :: nat
  original_ops :: "bus_ops option"
  siblings :: "nat \<Rightarrow> nat option"
  shared_pdev :: bool
  p2p_mgr :: "p2p_manager option"
  intx_virq :: "nat \<Rightarrow> int"
  intx_domain :: bool
  pending_irq :: int
  activated :: bool

text \<open>
  A synthetic root bus: the table of functions its operations consult, and the functions the PCI core
  found when it scanned the bus.
\<close>

record root =
  rb_funcs :: "nat \<Rightarrow> nat option"
  rb_devs :: "nat \<Rightarrow> bool"

record host =
  busops :: bus_ops
  root_buses :: "nat \<Rightarrow> root option"

record dev_env =
  platform_dev :: "unit res"
  p2p_mem :: bool
  p2p_answers :: p2p_env
  p2p_param :: "string option"
  res_alloc :: "nat \<Rightarrow> bool"
  name_alloc :: "nat \<Rightarrow> bool"
  insert_resource :: "u64 \<times> u64 \<Rightarrow> u64 \<times> u64 \<Rightarrow> bool"
  entry_alloc :: "nat \<Rightarrow> bool"
  other_bus :: "nat \<Rightarrow> bool"
  bridge_alloc :: bool
  intx_create :: bool
  irq_mapping :: "nat \<Rightarrow> int"
  scan_bridge :: bool
  bridge_bus :: bool
  enumerates :: "(nat \<Rightarrow> nat option) \<Rightarrow> nat \<Rightarrow> bool"
  bus_zero :: "nat option"
  pci_devices :: "(nat \<times> bool) option list"
  read_dword :: "nat \<Rightarrow> nat \<Rightarrow> bool \<times> u32"
  scan_single :: "nat \<Rightarrow> nat \<Rightarrow> bool"
  sized_regs :: "nat \<Rightarrow> nat list"
  driver_bound :: bool

text \<open>A fresh root complex (\<open>kzalloc\<close>); user space chooses its index and mode afterwards.\<close>

definition pciem_alloc_root_complex :: "bool \<Rightarrow> nat \<Rightarrow> rc_dev res" where
  "pciem_alloc_root_complex mem_ok addr =
     (if \<not> mem_ok then Inl ENOMEM
      else Inr \<lparr>cfg = (\<lambda>_. 0), ext_cfg = (\<lambda>_. 0), cap_mgr = None, bars = (\<lambda>_. bar0), detaching = False,
             rc_id = addr, func_index = 0, rc_mode = VIRTUAL_ROOT, pciem_pdev = None, root_bus = None,
             bridge_priv = None, assigned_busnr = 0, hj_bus = None, hj_slot = 0, original_ops = None,
             siblings = (\<lambda>_. None), shared_pdev = False, p2p_mgr = None, intx_virq = (\<lambda>_. 0),
             intx_domain = False, pending_irq = 0, activated = False\<rparr>)"

subsection \<open>Memory of the BARs\<close>

definition get_order :: "u64 \<Rightarrow> nat" where
  "get_order s = (if unat s \<le> 4096 then 0 else floorlog 2 ((unat s - 1) div 4096))"

text \<open>The address registers of BAR \<open>i\<close> set to where its memory is.\<close>

definition place_bar :: "nat \<Rightarrow> 'a rc_bars_scheme \<Rightarrow> 'a rc_bars_scheme" where
  "place_bar i v =
     (let bar = bars v i;
          v1 = set_bar v i (bar\<lparr>base_addr_val := ucast (phys_addr bar)\<rparr>)
      in if is_64 bar \<and> i + 1 < PCI_STD_NUM_BARS
         then set_bar v1 (i + 1) ((bars v1 (i + 1))\<lparr>base_addr_val := ucast (drop_bit 32 (phys_addr bar))\<rparr>)
         else v1)"

definition prepare_bar :: "dev_env \<Rightarrow> 'g mempool \<Rightarrow> nat \<Rightarrow> 'a rc_bars_scheme \<Rightarrow> unit res \<times> 'a rc_bars_scheme" where
  "prepare_bar env p i v =
     (let bar = bars v i in
      if bar_size bar = 0 \<or> upper_half v i then (Inr (), v)
      else
        (let v = set_bar v i (bar\<lparr>bar_order := get_order (bar_size bar)\<rparr>);
             mem = (carved_start bar, carved_end bar)
         in if carved_start bar = 0 then (Inl ENOMEM, v)
            else if \<not> res_alloc env i then (Inl ENOMEM, v)
            else if \<not> name_alloc env i then (Inl ENOMEM, v)
            else if \<not> pciem_pool_insert (insert_resource env) p mem then (Inl EBUSY, v)
            else (Inr (), place_bar i (set_bar v i
                    ((bars v i)\<lparr>allocated_res := Some mem, res_inserted := True, mem_owned := True,
                               phys_addr := carved_start bar\<rparr>)))))"

fun prepare_bars :: "dev_env \<Rightarrow> 'g mempool \<Rightarrow> nat list \<Rightarrow> 'a rc_bars_scheme \<Rightarrow> unit res \<times> 'a rc_bars_scheme" where
  "prepare_bars env p [] v = (Inr (), v)"
| "prepare_bars env p (i # is) v =
     (case prepare_bar env p i v of
        (Inl e, v') \<Rightarrow> (Inl e, v')
      | (Inr _, v') \<Rightarrow> prepare_bars env p is v')"

type_synonym windows = "(nat \<times> u64 \<times> u64) list"

definition pciem_reserve_bar_res :: "dev_env \<Rightarrow> bar_info \<Rightarrow> nat \<Rightarrow> windows \<Rightarrow> windows res" where
  "pciem_reserve_bar_res env bar i ws =
     (case allocated_res bar of
        None \<Rightarrow> Inr ws
      | Some r \<Rightarrow> if \<not> entry_alloc env i then Inl ENOMEM else Inr (ws @ [(i, r)]))"

fun pciem_reserve_bars_res :: "dev_env \<Rightarrow> 'a rc_bars_scheme \<Rightarrow> nat list \<Rightarrow> windows \<Rightarrow> windows res" where
  "pciem_reserve_bars_res env v [] ws = Inr ws"
| "pciem_reserve_bars_res env v (i # is) ws =
     (if bar_size (bars v i) = 0 \<or> upper_half v i then pciem_reserve_bars_res env v is ws
      else (case pciem_reserve_bar_res env (bars v i) i ws of
              Inl e \<Rightarrow> Inl e
            | Inr ws' \<Rightarrow> pciem_reserve_bars_res env v is ws'))"

definition pciem_cleanup_bar ::
    "('g \<Rightarrow> u64 \<Rightarrow> u64 \<Rightarrow> 'g) \<Rightarrow> 'g mempool \<Rightarrow> bar_info \<Rightarrow> 'g mempool \<times> bar_info" where
  "pciem_cleanup_bar gfree p bar =
     (let bar1 = (if allocated_res bar \<noteq> None \<and> mem_owned bar
                  then bar\<lparr>allocated_res := None, res_inserted := False\<rparr> else bar)
      in if carved_start bar1 \<noteq> 0
         then (pciem_pool_free gfree p (carved_start bar1) (carved_end bar1 - carved_start bar1 + 1),
               bar1\<lparr>carved_start := 0, carved_end := 0\<rparr>)
         else (p, bar1))"

fun cleanup_bars :: "('g \<Rightarrow> u64 \<Rightarrow> u64 \<Rightarrow> 'g) \<Rightarrow> nat list \<Rightarrow> 'g mempool \<Rightarrow> 'a rc_bars_scheme \<Rightarrow>
    'g mempool \<times> 'a rc_bars_scheme" where
  "cleanup_bars gfree [] p v = (p, v)"
| "cleanup_bars gfree (i # is) p v =
     (let (p', b) = pciem_cleanup_bar gfree p (bars v i) in cleanup_bars gfree is p' (set_bar v i b))"

abbreviation all_bars :: "nat list" where
  "all_bars \<equiv> [0..<PCI_STD_NUM_BARS]"

definition pciem_cleanup_bars ::
    "('g \<Rightarrow> u64 \<Rightarrow> u64 \<Rightarrow> 'g) \<Rightarrow> 'g mempool \<Rightarrow> 'a rc_bars_scheme \<Rightarrow> 'g mempool \<times> 'a rc_bars_scheme" where
  "pciem_cleanup_bars gfree p v = cleanup_bars gfree all_bars p v"

subsection \<open>A scan of the PCI core\<close>

text \<open>
  What a scan does to the function it finds: every address register is sized through the bus operations, that is
  saved, written with all ones, read, and written back.
\<close>

definition size_register :: "nat \<Rightarrow> 'a rc_bars_scheme \<Rightarrow> 'a rc_bars_scheme" where
  "size_register i v =
     (if detaching v \<or> i \<ge> PCI_STD_NUM_BARS then v
      else snd (pciem_write_bar_address (snd (pciem_write_bar_address v i (- 1))) i (pciem_read_bar_address v i)))"

lemma size_register_conf:
  assumes "conf_ok v" "i < PCI_STD_NUM_BARS"
  shows "size_register i v = bar_wr i (bar_wr i v (- 1)) (bar_rd i v)"
proof -
  have "conf_ok (snd (pciem_write_bar_address v i (- 1)))"
    using assms(1) write_bar_keeps(3,4) [of v i "- 1"]
    by (cases "pciem_write_bar_address v i (- 1)") (simp add: conf_ok_def caps_inv_def caps_fit_def)
  with assms show ?thesis by (simp add: size_register_def bar_access) (simp add: conf_ok_def)
qed

fun size_registers :: "nat list \<Rightarrow> 'a rc_bars_scheme \<Rightarrow> 'a rc_bars_scheme" where
  "size_registers [] v = v"
| "size_registers (i # is) v = size_registers is (size_register i v)"

subsection \<open>The virtual root\<close>

definition bus_exists :: "dev_env \<Rightarrow> host \<Rightarrow> nat \<Rightarrow> bool" where
  "bus_exists env h n \<longleftrightarrow> other_bus env n \<or> root_buses h n \<noteq> None"

function free_busnr :: "(nat \<Rightarrow> bool) \<Rightarrow> nat \<Rightarrow> nat option" where
  "free_busnr taken n = (if taken n then (if n + 1 > 255 then None else free_busnr taken (n + 1)) else Some n)"
  by pat_completeness auto
termination by (relation "measure (\<lambda>(_, n). 256 - n)") auto

declare free_busnr.simps [simp del]

text \<open>The resources of the device at function 0, where the bus has one, and its address registers.\<close>

fun bus_resources :: "nat list \<Rightarrow> 'a rc_bars_scheme \<Rightarrow> (nat \<Rightarrow> (u64 \<times> u64) option) \<Rightarrow>
    'a rc_bars_scheme \<times> (nat \<Rightarrow> (u64 \<times> u64) option)" where
  "bus_resources [] v rs = (v, rs)"
| "bus_resources (i # is) v rs =
     (if bar_size (bars v i) > 0 \<and> allocated_res (bars v i) \<noteq> None
      then bus_resources is (place_bar i v)
             (rs(i := Some (phys_addr (bars v i), phys_addr (bars v i) + bar_size (bars v i) - 1)))
      else bus_resources is v rs)"

definition pciem_bus_init_resources :: "(nat \<Rightarrow> bool) \<Rightarrow> 'a rc_bars_scheme \<Rightarrow>
    'a rc_bars_scheme \<times> (nat \<Rightarrow> (u64 \<times> u64) option)" where
  "pciem_bus_init_resources devs v = (if \<not> devs 0 then (v, Map.empty) else bus_resources all_bars v Map.empty)"

definition pciem_init_virtual_root_mode :: "dev_env \<Rightarrow> host \<Rightarrow> rc_dev \<Rightarrow> unit res \<times> host \<times> rc_dev" where
  "pciem_init_virtual_root_mode env h v =
     (case free_busnr (bus_exists env h) 1 of
        None \<Rightarrow> (Inl EBUSY, h, v)
      | Some busnr \<Rightarrow>
          if \<not> bridge_alloc env then (Inl ENOMEM, h, v)
          else
            (let funcs = (\<lambda>_. None)(func_index v := Some (rc_id v));
                 v1 = v\<lparr>bridge_priv := Some busnr\<rparr>
             in if \<not> intx_create env then (Inl ENOMEM, h, v1\<lparr>intx_domain := False\<rparr>)
                else
                  (let v2 = v1\<lparr>intx_domain := True,
                               intx_virq := (\<lambda>i. if i < 4 then irq_mapping env i else intx_virq v i)\<rparr>
                   in if \<not> scan_bridge env then (Inl ENODEV, h, v2)
                      else let v2 = size_registers (sized_regs env (func_index v)) v2
                      in if \<not> bridge_bus env then (Inl ENODEV, h, v2\<lparr>root_bus := None\<rparr>)
                      else
                        (let devs = enumerates env funcs;
                             h1 = h\<lparr>root_buses := (root_buses h)(busnr := Some \<lparr>rb_funcs = funcs, rb_devs = devs\<rparr>)\<rparr>;
                             (v3, rs) = pciem_bus_init_resources devs (v2\<lparr>root_bus := Some busnr\<rparr>)
                         in if \<not> devs (func_index v) then (Inl ENODEV, h1, v3\<lparr>pciem_pdev := None\<rparr>)
                            else (Inr (), h1,
                              v3\<lparr>pciem_pdev := Some \<lparr>pd_bus = busnr, pd_devfn = func_index v, pd_resources = rs\<rparr>,
                                 assigned_busnr := busnr\<rparr>)))))"

subsection \<open>Attaching to a bus of the host\<close>

definition pciem_find_suitable_root_bus :: "dev_env \<Rightarrow> nat option" where
  "pciem_find_suitable_root_bus env =
     (case bus_zero env of
        Some b \<Rightarrow> Some b
      | None \<Rightarrow> map_option fst (find (\<lambda>(_, has_parent). \<not> has_parent)
                  (map the (filter (\<lambda>d. d \<noteq> None) (pci_devices env)))))"

definition absent :: "u32 \<Rightarrow> bool" where
  "absent vendor \<longleftrightarrow> vendor = 0xFFFFFFFF \<or> vendor = 0"

fun free_slot :: "(nat \<Rightarrow> nat \<Rightarrow> bool \<times> u32) \<Rightarrow> nat list \<Rightarrow> nat res" where
  "free_slot rd [] = Inl ENOSPC"
| "free_slot rd (slot # slots) =
     (let (ok, vendor) = rd (8 * slot) 0; (ok_class, class) = rd (8 * slot) 8;
          (_, vendor1) = rd (8 * slot + 1) 0
      in if \<not> ok then free_slot rd slots
         else if absent vendor then
           (if ok_class \<and> drop_bit 8 (drop_bit 8 class) = 6 then free_slot rd slots
            else if absent vendor1 then Inr slot else free_slot rd slots)
         else free_slot rd slots)"

definition pciem_find_free_slot :: "(nat \<Rightarrow> nat \<Rightarrow> bool \<times> u32) \<Rightarrow> nat option \<Rightarrow> nat res" where
  "pciem_find_free_slot rd bus = (case bus of None \<Rightarrow> Inl ENODEV | Some _ \<Rightarrow> free_slot rd [1..<32])"

fun place_bars :: "nat list \<Rightarrow> 'a rc_bars_scheme \<Rightarrow> 'a rc_bars_scheme" where
  "place_bars [] v = v"
| "place_bars (i # is) v =
     place_bars is (if bar_size (bars v i) = 0 \<or> upper_half v i then v else place_bar i v)"

definition host_resources :: "'a rc_bars_scheme \<Rightarrow> nat \<Rightarrow> (u64 \<times> u64) option" where
  "host_resources v i =
     (if i < PCI_STD_NUM_BARS \<and> bar_size (bars v i) \<noteq> 0 \<and> \<not> upper_half v i
      then allocated_res (bars v i) else None)"

definition pciem_init_attach_to_host_mode :: "dev_env \<Rightarrow> host \<Rightarrow> rc_dev \<Rightarrow> unit res \<times> host \<times> rc_dev" where
  "pciem_init_attach_to_host_mode env h v =
     (case pciem_find_suitable_root_bus env of
        None \<Rightarrow> (Inl ENODEV, h, v)
      | Some bus \<Rightarrow>
          if func_index v \<noteq> 0 then (Inl EINVAL, h, v)
          else (case pciem_find_free_slot (read_dword env) (Some bus) of
                  Inl _ \<Rightarrow> (Inl ENOSPC, h, v)
                | Inr slot \<Rightarrow>
                    (let v1 = size_registers (sized_regs env 0) (place_bars all_bars
                           (v\<lparr>hj_bus := Some bus, hj_slot := slot, original_ops := Some (busops h),
                              siblings := (siblings v)(0 := Some (rc_id v))\<rparr>));
                         h1 = h\<lparr>busops := Proxy_of (rc_id v)\<rparr>
                     in if \<not> scan_single env slot 0
                        then (Inl ENODEV, h1\<lparr>busops := the (original_ops v1)\<rparr>, v1)
                        else (Inr (), h1,
                          v1\<lparr>pciem_pdev := Some \<lparr>pd_bus = bus, pd_devfn = 8 * slot, pd_resources = host_resources v1\<rparr>,
                             root_bus := Some bus\<rparr>))))"

subsection \<open>Bringing a function up\<close>

definition remove_root_bus :: "nat \<Rightarrow> host \<Rightarrow> host" where
  "remove_root_bus b h = h\<lparr>root_buses := (root_buses h)(b := None)\<rparr>"

definition fail_bars :: "('g \<Rightarrow> u64 \<Rightarrow> u64 \<Rightarrow> 'g) \<Rightarrow> errno \<Rightarrow> 'g mempool \<Rightarrow> host \<Rightarrow> rc_dev \<Rightarrow>
    unit res \<times> 'g mempool \<times> host \<times> rc_dev" where
  "fail_bars gfree e p h v = (let (p', v') = pciem_cleanup_bars gfree p v in (Inl e, p', h, v'\<lparr>shared_pdev := False\<rparr>))"

definition fail_device :: "host \<Rightarrow> rc_dev \<Rightarrow> host \<times> rc_dev" where
  "fail_device h v =
     (let v1 = v\<lparr>pciem_pdev := None\<rparr> in
      case rc_mode v of
        VIRTUAL_ROOT \<Rightarrow>
          (case root_bus v of Some b \<Rightarrow> (remove_root_bus b h, v1\<lparr>root_bus := None\<rparr>) | None \<Rightarrow> (h, v1))
      | ATTACH_TO_HOST \<Rightarrow>
          (case (hj_bus v, original_ops v) of (Some _, Some ops) \<Rightarrow> (h\<lparr>busops := ops\<rparr>, v1) | _ \<Rightarrow> (h, v1)))"

definition bus_init :: "dev_env \<Rightarrow> host \<Rightarrow> rc_dev \<Rightarrow> unit res \<times> host \<times> rc_dev" where
  "bus_init env h v =
     (case rc_mode v of
        VIRTUAL_ROOT \<Rightarrow> pciem_init_virtual_root_mode env h v
      | ATTACH_TO_HOST \<Rightarrow> pciem_init_attach_to_host_mode env h v)"

definition pciem_complete_init ::
    "dev_env \<Rightarrow> ('g \<Rightarrow> u64 \<Rightarrow> u64 \<Rightarrow> 'g) \<Rightarrow> 'g mempool \<Rightarrow> host \<Rightarrow> rc_dev \<Rightarrow>
       unit res \<times> 'g mempool \<times> host \<times> rc_dev" where
  "pciem_complete_init env gfree p h v =
     (case platform_dev env of
        Inl e \<Rightarrow> (Inl e, p, h, v\<lparr>shared_pdev := False\<rparr>)
      | Inr _ \<Rightarrow>
          (let v1 = v\<lparr>shared_pdev := True,
                      p2p_mgr := snd (pciem_p2p_init (p2p_mem env) (p2p_answers env) (p2p_param env) (p2p_mgr v))\<rparr>
           in case prepare_bars env p all_bars v1 of
                (Inl e, v2) \<Rightarrow> fail_bars gfree e p h v2
              | (Inr _, v2) \<Rightarrow>
                  (case pciem_reserve_bars_res env v2 all_bars [] of
                     Inl e \<Rightarrow> fail_bars gfree e p h v2
                   | Inr ws \<Rightarrow>
                       (case bus_init env h v2 of
                          (Inr _, h', v3) \<Rightarrow> (Inr (), p, h', v3)
                        | (Inl e, h', v3) \<Rightarrow>
                            (let (h'', v4) = fail_device h' v3 in fail_bars gfree e p h'' v4)))))"

subsection \<open>Further functions of the slot\<close>

definition pciem_set_multifunction :: "'a rc_caps_scheme \<Rightarrow> nat \<Rightarrow> 'a rc_caps_scheme" where
  "pciem_set_multifunction func0 num_funcs =
     (if num_funcs \<le> 1 then func0 else func0\<lparr>cfg := (cfg func0)(0x0E := cfg func0 0x0E OR 0x80)\<rparr>)"

text \<open>The root of \<open>func0\<close> must still be registered: \<open>None\<close> is an access to a bridge that is gone.\<close>

definition pciem_attach_function ::
    "dev_env \<Rightarrow> host \<Rightarrow> rc_dev \<Rightarrow> rc_dev \<Rightarrow> (unit res \<times> host \<times> rc_dev \<times> rc_dev) option" where
  "pciem_attach_function env h func0 fn =
     (let fidx = func_index fn in
      if fidx = 0 \<or> fidx \<ge> PCIEM_MAX_FUNCTIONS then Some (Inl EINVAL, h, func0, fn)
      else if func_index func0 \<noteq> 0 then Some (Inl EINVAL, h, func0, fn)
      else (case rc_mode func0 of
        VIRTUAL_ROOT \<Rightarrow>
          (case (bridge_priv func0, root_bus func0) of
             (Some b, Some bus) \<Rightarrow>
               (case (root_buses h b, root_buses h bus) of
                  (Some r, Some r') \<Rightarrow>
                    (let fn1 = fn\<lparr>root_bus := Some bus\<rparr> in
                     if rb_devs r' fidx
                     then Some (Inr (),
                            h\<lparr>root_buses := (root_buses h)(b := Some (r\<lparr>rb_funcs := (rb_funcs r)(fidx := Some (rc_id fn))\<rparr>))\<rparr>,
                            func0, fn1\<lparr>pciem_pdev := Some \<lparr>pd_bus = bus, pd_devfn = fidx, pd_resources = Map.empty\<rparr>\<rparr>)
                     else Some (Inl ENODEV,
                            h\<lparr>root_buses := (root_buses h)(b := Some (r\<lparr>rb_funcs := (rb_funcs r)(fidx := None)\<rparr>))\<rparr>,
                            func0, fn1\<lparr>pciem_pdev := None\<rparr>))
                | _ \<Rightarrow> None)
           | _ \<Rightarrow> Some (Inl ENODEV, h, func0, fn))
      | ATTACH_TO_HOST \<Rightarrow>
          (let fn1 = size_registers (sized_regs env fidx) (place_bars all_bars
                 (fn\<lparr>hj_bus := hj_bus func0, hj_slot := hj_slot func0, original_ops := original_ops func0,
                     root_bus := root_bus func0\<rparr>))
           in if \<not> scan_single env (hj_slot func0) fidx
              then Some (Inl ENODEV, h, func0\<lparr>siblings := (siblings func0)(fidx := None)\<rparr>, fn1)
              else (case root_bus func0 of
                 None \<Rightarrow> None
               | Some bus \<Rightarrow>
                   Some (Inr (), h, func0\<lparr>siblings := (siblings func0)(fidx := Some (rc_id fn))\<rparr>,
                     fn1\<lparr>pciem_pdev := Some \<lparr>pd_bus = bus, pd_devfn = 8 * hj_slot func0 + fidx,
                                           pd_resources = host_resources fn1\<rparr>\<rparr>)))))"

subsection \<open>Starting the device\<close>

text \<open>Whether the start succeeded; then the work is scheduled.\<close>

definition pciem_start_device :: "rc_dev \<Rightarrow> unit res" where
  "pciem_start_device v = (if activated v then Inl EALREADY else Inr ())"

text \<open>The scheduled work: the devices it adds (bus and function number), by way of the object store.\<close>

definition pciem_activation_work_func :: "(nat \<Rightarrow> rc_dev option) \<Rightarrow> host \<Rightarrow> rc_dev \<Rightarrow> (nat \<times> nat) list \<times> rc_dev" where
  "pciem_activation_work_func objs h v =
     ((case rc_mode v of
         VIRTUAL_ROOT \<Rightarrow>
           (case root_bus v of
              None \<Rightarrow> []
            | Some b \<Rightarrow> (case root_buses h b of
                 None \<Rightarrow> []
               | Some r \<Rightarrow> map (\<lambda>f. (b, f)) (filter (rb_devs r) [0..<256])))
       | ATTACH_TO_HOST \<Rightarrow>
           concat (map (\<lambda>f. case Option.bind (siblings v f) objs of
                None \<Rightarrow> []
              | Some fn \<Rightarrow> (case pciem_pdev fn of None \<Rightarrow> [] | Some d \<Rightarrow> [(pd_bus d, pd_devfn d)]))
             [0..<PCIEM_MAX_FUNCTIONS])),
      v\<lparr>activated := True\<rparr>)"

subsection \<open>Interrupts\<close>

text \<open>What the PCI core knows of the interrupts of a device.\<close>

record irq_view =
  msix_enabled :: bool
  msix_vecs :: int
  vector_irq :: "int \<Rightarrow> int"
  legacy_irq :: int

definition pciem_trigger_msi :: "irq_view \<Rightarrow> rc_dev \<Rightarrow> int \<Rightarrow> unit res \<times> rc_dev" where
  "pciem_trigger_msi view v vector =
     (case pciem_pdev v of
        None \<Rightarrow> (Inl ENODEV, v)
      | Some dev \<Rightarrow>
          (let irq = (if msix_enabled view
                      then vector_irq view (if vector < 0 \<or> vector \<ge> msix_vecs view then 0 else vector)
                      else legacy_irq view)
           in if irq \<le> 0 then (Inl EINVAL, v) else (Inr (), v\<lparr>pending_irq := irq\<rparr>)))"

text \<open>The queued work: the interrupt it raises, if any.\<close>

definition pciem_msi_irq_work_func :: "rc_dev \<Rightarrow> int option" where
  "pciem_msi_irq_work_func v = (if pending_irq v \<noteq> 0 then Some (pending_irq v) else None)"

definition pciem_map_irq :: "(nat \<Rightarrow> rc_dev option) \<Rightarrow> (nat \<Rightarrow> nat option) option \<Rightarrow> nat \<Rightarrow> nat \<Rightarrow> int" where
  "pciem_map_irq objs priv devfn pin =
     (case priv of
        None \<Rightarrow> 0
      | Some funcs \<Rightarrow>
          if PCI_FUNC devfn \<ge> PCIEM_MAX_FUNCTIONS then 0
          else (case Option.bind (funcs (PCI_FUNC devfn)) objs of
                  None \<Rightarrow> 0
                | Some v \<Rightarrow> if 1 \<le> pin \<and> pin \<le> 4 then intx_virq v (pin - 1) else 0))"

subsection \<open>Taking a function down\<close>

text \<open>\<open>None\<close>: the root bus of the function was removed before, and is removed again.\<close>

definition pciem_teardown_device ::
    "dev_env \<Rightarrow> ('g \<Rightarrow> u64 \<Rightarrow> u64 \<Rightarrow> 'g) \<Rightarrow> 'g mempool \<Rightarrow> host \<Rightarrow> rc_dev \<Rightarrow> ('g mempool \<times> host \<times> rc_dev) option" where
  "pciem_teardown_device env gfree p h v =
     (let v1 = (case pciem_pdev v of
                  None \<Rightarrow> v
                | Some _ \<Rightarrow> v\<lparr>detaching := (driver_bound env \<or> detaching v), pciem_pdev := None\<rparr>);
          bus = (case root_bus v of
                   None \<Rightarrow> Some h
                 | Some b \<Rightarrow>
                     (case rc_mode v of
                        VIRTUAL_ROOT \<Rightarrow> if root_buses h b = None then None else Some (remove_root_bus b h)
                      | ATTACH_TO_HOST \<Rightarrow>
                          (case original_ops v of None \<Rightarrow> Some h | Some ops \<Rightarrow> Some (h\<lparr>busops := ops\<rparr>))))
      in case bus of
           None \<Rightarrow> None
         | Some h' \<Rightarrow>
             (let (p', v2) = pciem_cleanup_bars gfree p (v1\<lparr>root_bus := None\<rparr>)
              in Some (p', h',
                   (pciem_cleanup_cap_manager v2)\<lparr>intx_virq := (\<lambda>i. if i < 4 then 0 else intx_virq v2 i),
                      intx_domain := False, shared_pdev := False,
                      p2p_mgr := pciem_p2p_cleanup (p2p_mgr v2)\<rparr>)))"

text \<open>\<open>pciem_free_root_complex\<close>: the object at \<open>addr\<close> is torn down and freed.\<close>

definition pciem_free_root_complex ::
    "dev_env \<Rightarrow> ('g \<Rightarrow> u64 \<Rightarrow> u64 \<Rightarrow> 'g) \<Rightarrow> 'g mempool \<Rightarrow> host \<Rightarrow> (nat \<Rightarrow> rc_dev option) \<Rightarrow> nat option \<Rightarrow>
       ('g mempool \<times> host \<times> (nat \<Rightarrow> rc_dev option)) option" where
  "pciem_free_root_complex env gfree p h objs addr =
     (case addr of
        None \<Rightarrow> Some (p, h, objs)
      | Some a \<Rightarrow>
          (case objs a of
             None \<Rightarrow> None
           | Some v \<Rightarrow>
               (case pciem_teardown_device env gfree p h v of
                  None \<Rightarrow> None
                | Some (p', h', _) \<Rightarrow> Some (p', h', objs(a := None)))))"

subsection \<open>Loading and unloading the module\<close>

record 'g module_state =
  m_pool :: "'g mempool"
  nomsi_domain :: bool
  misc_device :: bool

definition pciem_init_virtual_root_nomsi_domain :: "bool \<Rightarrow> 'g module_state \<Rightarrow> unit res \<times> 'g module_state" where
  "pciem_init_virtual_root_nomsi_domain domain_ok m =
     (if nomsi_domain m then (Inr (), m)
      else if \<not> domain_ok then (Inl ENOMEM, m)
      else (Inr (), m\<lparr>nomsi_domain := True\<rparr>))"

definition pciem_cleanup_virtual_root_nomsi_domain :: "'g module_state \<Rightarrow> 'g module_state" where
  "pciem_cleanup_virtual_root_nomsi_domain m = m\<lparr>nomsi_domain := False\<rparr>"

definition pool_down :: "'g module_state \<Rightarrow> 'g module_state" where
  "pool_down m = m\<lparr>m_pool := pciem_pool_exit (m_pool m)\<rparr>"

definition pciem_init :: "'g pool_env \<Rightarrow> string option \<Rightarrow> bool \<Rightarrow> unit res \<Rightarrow> 'g module_state \<Rightarrow> unit res \<times> 'g module_state" where
  "pciem_init penv phys_region domain_ok misc m =
     (case pciem_pool_init penv phys_region (m_pool m) of
        (Inl e, p) \<Rightarrow> (Inl e, m\<lparr>m_pool := p\<rparr>)
      | (Inr _, p) \<Rightarrow>
          (case pciem_init_virtual_root_nomsi_domain domain_ok (m\<lparr>m_pool := p\<rparr>) of
             (Inl e, m1) \<Rightarrow> (Inl e, pool_down m1)
           | (Inr _, m1) \<Rightarrow>
               (case misc of
                  Inl e \<Rightarrow> (Inl e, pool_down (pciem_cleanup_virtual_root_nomsi_domain m1))
                | Inr _ \<Rightarrow> (Inr (), m1\<lparr>misc_device := True\<rparr>))))"

definition pciem_exit :: "'g module_state \<Rightarrow> 'g module_state" where
  "pciem_exit m = pool_down (pciem_cleanup_virtual_root_nomsi_domain (m\<lparr>misc_device := False\<rparr>))"

end
