(* ===== verification/HostView.thy ===== *)
theory HostView
  imports Conf
begin

text \<open>
  What the host sees of a function through configuration space: end-to-end properties of the
  capability manager (\<^verbatim>\<open>kernel/framework/capabilities.c\<close>) and of the configuration and BAR
  accesses (\<^verbatim>\<open>kernel/framework/pciem.c\<close>), over the operations of the theories Caps, CapsBuild,
  CapsAccess, Bars and Conf. The small values \<open>rc0\<close>, \<open>rc1\<close> are the inputs of the witnesses.
\<close>

subsection \<open>Capabilities\<close>

definition rc0 :: rc_bars where
  "rc0 = \<lparr>cfg = (\<lambda>_. 0), ext_cfg = (\<lambda>_. 0), cap_mgr = None, bars = (\<lambda>_. bar0),
          detaching = False\<rparr>"

definition pcie0 :: pcie_config where
  "pcie0 = \<lparr>device_type = 0, link_width = 1, link_speed = 1\<rparr>"

definition msi0 :: msi_config where
  "msi0 = \<lparr>has_64bit = True, has_per_vector_masking = False, num_vectors_log2 = 0\<rparr>"

definition pasid0 :: pasid_config where
  "pasid0 = \<lparr>max_pasid_width = 20, execute_permission = True, privileged_mode = False\<rparr>"

definition rc1 :: rc_bars where
  "rc1 = add_caps [Add_PCIE pcie0, Add_MSI msi0, Add_PASID pasid0]
           (pciem_init_cap_manager True rc0)"

definition mgr1 :: cap_manager where
  "mgr1 = \<lparr>caps =
      [\<lparr>cap_offset = 64, ext_offset = 0, is_extended = False, cap_size = 60, body = Cap_PCIE pcie0\<rparr>,
       \<lparr>cap_offset = 124, ext_offset = 0, is_extended = False, cap_size = 16,
         body = Cap_MSI msi0 msi_state0\<rparr>,
       \<lparr>cap_offset = 0, ext_offset = 256, is_extended = True, cap_size = 8,
         body = Cap_PASID pasid0 \<lparr>pasid_control = 0, pasid_value = 0\<rparr>\<rparr>],
     next_offset = 140, ext_next_offset = 264\<rparr>"

lemma rc1_mgr: "cap_mgr rc1 = Some mgr1"
  by (simp add: rc1_def rc0_def pcie0_def msi0_def mgr1_def pciem_init_cap_manager_def add_cap_defs
      cap_slot_def push_std_def push_ext_def msi_cap_size_def pciem_cap_manager_find_def cap_consts
      pciem_check_msi_address_width_def)

lemma mgr1_fit: "std_fit mgr1"
  by (simp add: std_fit_def mgr1_def std_caps_def)

text \<open>
  C1. The guest sees exactly the capabilities that were added. Whatever capabilities are added to a
  fresh manager, when their total size fits into the 192 bytes after the header, building the
  configuration space succeeds (nothing is written out of range), and the walk every PCI driver
  makes from the capability pointer at 0x34 meets precisely the standard capabilities, at the
  offsets the manager recorded, with the right identifiers, in the order of addition, and ends.
  The bytes of every capability's registers stand at its offset.
\<close>

theorem build_then_walk:
  assumes "cap_mgr v = None"
    and "cap_mgr (add_caps ops (pciem_init_cap_manager True v)) = Some mgr" and "std_fit mgr"
  shows "\<exists>v'. pciem_build_config_space (add_caps ops (pciem_init_cap_manager True v)) = Some v' \<and>
    cap_chain (cfg v') 48 (cfg v' PCI_CAPABILITY_LIST) = listing (caps mgr) \<and>
    list_all (emitted (cfg v')) (std_of (caps mgr))"
proof -
  have "mgr_inv mgr"
    using caps_inv_adds [OF caps_inv_init [OF no_mgr_inv(1) [OF assms(1)]], of ops True] assms(2)
    by (simp add: caps_inv_def)
  from assms(2) this assms(3) show ?thesis by (rule build_ok) blast
qed

theorem build_then_walk_witness:
  "\<exists>v'. pciem_build_config_space rc1 = Some v' \<and>
     cap_chain (cfg v') 48 (cfg v' PCI_CAPABILITY_LIST) = [(64, 0x10), (124, 5)]"
  using build_then_walk [of rc0 "[Add_PCIE pcie0, Add_MSI msi0, Add_PASID pasid0]" mgr1]
    rc1_mgr mgr1_fit
  by (auto simp: rc1_def rc0_def mgr1_def listing_def std_of_def)

text \<open>
  The same for the extended list: once a PASID capability was added, the walk of the extended
  capability headers from 0x100 meets precisely the extended capabilities, with identifier 0x1B,
  each header pointing to the next one and the last one ending the list.
\<close>

theorem build_then_ext_walk:
  assumes "cap_mgr v = None"
    and "cap_mgr (add_caps ops (pciem_init_cap_manager True v)) = Some mgr" and "std_fit mgr"
    and "ext_of (caps mgr) \<noteq> []"
  shows "\<exists>v'. pciem_build_config_space (add_caps ops (pciem_init_cap_manager True v)) = Some v' \<and>
    ext_chain (ext_cfg v') 48 256 = ext_listing (caps mgr)"
proof -
  have "mgr_inv mgr"
    using caps_inv_adds [OF caps_inv_init [OF no_mgr_inv(1) [OF assms(1)]], of ops True] assms(2)
    by (simp add: caps_inv_def)
  from assms(2) this assms(3) show ?thesis by (rule build_ok) (use assms(4) in blast)
qed

theorem build_then_ext_walk_witness:
  "\<exists>v'. pciem_build_config_space rc1 = Some v' \<and> ext_chain (ext_cfg v') 48 256 = [(256, 0x1B)]"
  using build_then_ext_walk [of rc0 "[Add_PCIE pcie0, Add_MSI msi0, Add_PASID pasid0]" mgr1]
    rc1_mgr mgr1_fit
  by (simp add: rc1_def rc0_def mgr1_def ext_listing_def ext_of_def)

text \<open>
  No sequence of capability requests makes the function advertise a PCI Express endpoint
  together with a 32-bit MSI capability, and an MSI capability is never there without a PCI Express
  capability (as far as the first capability of each kind goes, which is what the code compares).
\<close>

theorem msi_width_always_ok:
  assumes "cap_mgr v = None"
    and "cap_mgr (add_caps ops (pciem_init_cap_manager True v)) = Some mgr"
    and "pciem_cap_manager_find mgr is_msi = Some c" and "body c = Cap_MSI m st"
  shows "\<exists>d p. pciem_cap_manager_find mgr is_pcie = Some d \<and> body d = Cap_PCIE p \<and>
    (device_type p = PCI_EXP_TYPE_ENDPOINT \<longrightarrow> has_64bit m)"
proof -
  have "msi_width_inv (add_caps ops (pciem_init_cap_manager True v))"
    by (intro msi_width_adds msi_width_init no_mgr_inv(2) assms(1))
  with assms(2-4) show ?thesis
    by (cases "pciem_cap_manager_find mgr is_pcie") (auto simp: msi_width_inv_def dest: find_pcie_body)
qed

theorem msi_width_always_ok_witness:
  "\<exists>d p. pciem_cap_manager_find mgr1 is_pcie = Some d \<and> body d = Cap_PCIE p \<and>
     (device_type p = PCI_EXP_TYPE_ENDPOINT \<longrightarrow> has_64bit msi0)"
  by (rule msi_width_always_ok [of rc0 "[Add_PCIE pcie0, Add_MSI msi0, Add_PASID pasid0]" mgr1
        "\<lparr>cap_offset = 124, ext_offset = 0, is_extended = False, cap_size = 16,
          body = Cap_MSI msi0 msi_state0\<rparr>" msi0 msi_state0])
    (use rc1_mgr in \<open>simp_all add: rc1_def rc0_def mgr1_def pciem_cap_manager_find_def\<close>)

text \<open>
  The manager's bookkeeping under any requests: at most 16 capabilities, the standard ones laid
  out one after the other from 0x40 with their offsets taken modulo 256 (the 8-bit offset wraps
  silently), the extended ones one after the other from 0x100.
\<close>

theorem cap_layout_wraps:
  assumes "cap_mgr v = None"
    and "cap_mgr (add_caps ops (pciem_init_cap_manager True v)) = Some mgr"
  shows "length (caps mgr) \<le> 16 \<and> layout 64 (std_caps mgr) \<and>
    unat (next_offset mgr) = (64 + caps_len (std_caps mgr)) mod 256 \<and> ext_layout 256 (ext_caps mgr)"
proof -
  have "caps_inv (add_caps ops (pciem_init_cap_manager True v))"
    by (intro caps_inv_adds caps_inv_init no_mgr_inv(1) assms(1))
  with assms(2) show ?thesis by (simp add: caps_inv_def mgr_inv_def cap_consts)
qed

theorem cap_layout_wraps_witness:
  "length (caps mgr1) \<le> 16 \<and> layout 64 (std_caps mgr1) \<and>
     unat (next_offset mgr1) = (64 + caps_len (std_caps mgr1)) mod 256 \<and> ext_layout 256 (ext_caps mgr1)"
  by (rule cap_layout_wraps [of rc0 "[Add_PCIE pcie0, Add_MSI msi0, Add_PASID pasid0]"])
    (use rc1_mgr in \<open>simp_all add: rc1_def rc0_def\<close>)

text \<open>
  Nothing stops user space from adding more capabilities than fit. With four PCI Express
  capabilities (60 bytes each, a request the ioctl accepts four times) every addition succeeds and
  building the configuration space writes past the end of \<open>cfg[256]\<close>.
\<close>

lemma add_pcie_push:
  assumes "cap_mgr v = Some mgr" "length (caps mgr) < MAX_PCI_CAPS"
    and "list_all (\<lambda>d. is_pcie (body d)) (caps mgr)"
  shows "pciem_add_cap_pcie v c = (Inr (), v\<lparr>cap_mgr := Some (push_std mgr 60 (Cap_PCIE c))\<rparr>)"
proof -
  have "find (\<lambda>d. is_msi (body d)) (caps mgr) = None"
  proof -
    have "\<not> is_msi (body d)" if "d \<in> set (caps mgr)" for d
      using assms(3) that by (cases "body d") (auto simp: list_all_iff)
    then show ?thesis by (auto simp: find_None_iff)
  qed
  with assms(1,2) show ?thesis
    by (simp add: pciem_add_cap_pcie_def cap_slot_def pciem_cap_manager_find_def)
qed

definition pcie_mgr :: "pcie_config \<Rightarrow> u8 list \<Rightarrow> u8 \<Rightarrow> cap_manager" where
  "pcie_mgr c offs nxt = \<lparr>caps = map (\<lambda>i. \<lparr>cap_offset = i, ext_offset = 0, is_extended = False,
      cap_size = 60, body = Cap_PCIE c\<rparr>) offs, next_offset = nxt, ext_next_offset = 256\<rparr>"

lemma add_pcie_mgr:
  assumes "cap_mgr v = Some (pcie_mgr c offs nxt)" "length offs < 16"
  shows "pciem_add_cap_pcie v c = (Inr (), v\<lparr>cap_mgr := Some (pcie_mgr c (offs @ [nxt]) (nxt + 60))\<rparr>)"
  using add_pcie_push [OF assms(1), of c] assms(2)
  by (simp add: pcie_mgr_def push_std_def cap_consts list_all_iff)

lemma pcie_mgr_overflow:
  assumes "cap_mgr v = Some (pcie_mgr c [64, 124, 184, 244] nxt)"
  shows "pciem_build_config_space v = None"
proof -
  have "build_std False f (caps (pcie_mgr c [64, 124, 184, 244] nxt)) = None" for f
    by (rule build_std_overflow [where post = "[]" and c = "\<lparr>cap_offset = 244, ext_offset = 0,
            is_extended = False, cap_size = 60, body = Cap_PCIE c\<rparr>"
          and pre = "caps (pcie_mgr c [64, 124, 184] nxt)"])
      (simp_all add: pcie_mgr_def)
  with assms show ?thesis by (simp add: pciem_build_config_space_def) (simp add: pcie_mgr_def)
qed

theorem four_pcie_caps_overflow:
  assumes "cap_mgr v = None"
  shows "fst (add_cap (Add_PCIE c) (add_caps [Add_PCIE c, Add_PCIE c, Add_PCIE c]
             (pciem_init_cap_manager True v))) = Inr () \<and>
    pciem_build_config_space (add_caps [Add_PCIE c, Add_PCIE c, Add_PCIE c, Add_PCIE c]
             (pciem_init_cap_manager True v)) = None"
proof -
  define v0 where "v0 = pciem_init_cap_manager True v"
  have m0: "cap_mgr v0 = Some (pcie_mgr c [] 64)"
    using assms by (simp add: v0_def pciem_init_cap_manager_def pcie_mgr_def cap_consts)
  note step = add_pcie_mgr [where c = c]
  have "add_caps [Add_PCIE c, Add_PCIE c, Add_PCIE c] v0 =
      v0\<lparr>cap_mgr := Some (pcie_mgr c [64, 124, 184] 244)\<rparr>"
    by (simp add: step [OF m0] step)
  moreover have "pciem_add_cap_pcie (v0\<lparr>cap_mgr := Some (pcie_mgr c [64, 124, 184] 244)\<rparr>) c =
      (Inr (), v0\<lparr>cap_mgr := Some (pcie_mgr c [64, 124, 184, 244] (244 + 60))\<rparr>)"
    by (simp add: step)
  ultimately show ?thesis
    using pcie_mgr_overflow [of "v0\<lparr>cap_mgr := Some (pcie_mgr c [64, 124, 184, 244] (244 + 60))\<rparr>"]
    by (simp add: v0_def)
qed

theorem four_pcie_caps_overflow_witness:
  "pciem_build_config_space
     (add_caps [Add_PCIE pcie0, Add_PCIE pcie0, Add_PCIE pcie0, Add_PCIE pcie0]
        (pciem_init_cap_manager True rc0)) = None"
  using four_pcie_caps_overflow [of rc0 pcie0] by (simp add: rc0_def)

subsection \<open>Configuration accesses\<close>

definition rc2 :: rc_bars where
  "rc2 = the (pciem_build_config_space rc1)"

lemma rc1_caps_inv: "caps_inv rc1"
  unfolding rc1_def by (intro caps_inv_adds caps_inv_init no_mgr_inv(1)) (simp add: rc0_def)

lemma add_caps_same:
  "bars (add_caps ops v) = bars v" "detaching (add_caps ops v) = detaching v"
  for v :: "'a rc_bars_scheme"
proof -
  have "bars (snd (add_cap req v)) = bars v \<and> detaching (snd (add_cap req v)) = detaching v"
    for req and v :: "'a rc_bars_scheme"
    by (rule add_cap_cases [of req v]) simp_all
  then show "bars (add_caps ops v) = bars v" "detaching (add_caps ops v) = detaching v"
    by (induction ops arbitrary: v) simp_all
qed

lemma rc1_plain: "\<not> detaching rc1" "bars rc1 = (\<lambda>_. bar0)"
  unfolding rc1_def add_caps_same by (simp_all add: rc0_def pciem_init_cap_manager_def)

lemma build_same:
  assumes "pciem_build_config_space v = Some v'"
  shows "bars v' = bars v" "detaching v' = detaching v" "cap_mgr v' = cap_mgr v"
  using assms
  by (auto simp: pciem_build_config_space_def split: option.splits if_splits prod.splits)

lemma rc2_built: "pciem_build_config_space rc1 = Some rc2"
proof -
  have "mgr_inv mgr1" using rc1_caps_inv by (simp add: caps_inv_def rc1_mgr)
  with rc1_mgr obtain v' where "pciem_build_config_space rc1 = Some v'"
    by (rule build_ok [OF _ _ mgr1_fit])
  then show ?thesis by (simp add: rc2_def)
qed

lemma rc2_ok: "conf_ok rc2" "cap_mgr rc2 = Some mgr1"
  using build_same [OF rc2_built] rc1_caps_inv rc1_plain mgr1_fit
  by (simp_all add: conf_ok_def caps_inv_def caps_fit_def rc1_mgr)

text \<open>
  C2. A configuration write is memory safe and keeps the function well-formed: at any position (negative
  ones and ones past the end included) and of any size whose sum is a C integer, accepted or refused, the
  capability manager keeps its layout, and no byte outside \<open>cfg[256]\<close> and \<open>ext_cfg[3840]\<close> changes. The
  positions of the PCI core end below 4096; where the sum does overflow, see the theorem after it.
\<close>

theorem conf_write_safe:
  assumes "conf_ok v" and "0 \<le> sz" and "pos + sz < 2 ^ 31" and "pciem_conf_write_impl (Some v) pos sz val = (rc, Some v')"
  shows "conf_ok v' \<and> (\<forall>i. PCI_CFG_SPACE_SIZE \<le> i \<longrightarrow> cfg v' i = cfg v i) \<and>
    (\<forall>i. EXT_CFG_SIZE \<le> i \<longrightarrow> ext_cfg v' i = ext_cfg v i)"
  using conf_ok_write [OF assms(1,4)] conf_write_in_bounds [OF assms] by blast

theorem conf_write_safe_witness:
  "\<exists>rc v'. pciem_conf_write_impl (Some rc2) 124 4 0xFFFFFFFF = (rc, Some v') \<and> conf_ok v' \<and>
     (\<forall>i. PCI_CFG_SPACE_SIZE \<le> i \<longrightarrow> cfg v' i = cfg rc2 i)"
proof -
  obtain rc vo where w: "pciem_conf_write_impl (Some rc2) 124 4 0xFFFFFFFF = (rc, vo)"
    by (cases "pciem_conf_write_impl (Some rc2) 124 4 0xFFFFFFFF")
  then obtain v' where "vo = Some v'"
    by (auto simp: pciem_conf_write_impl_def Let_def split: if_splits option.splits prod.splits)
  with w conf_write_safe [OF rc2_ok(1), of 4 124 "0xFFFFFFFF" rc v'] show ?thesis by simp
qed

text \<open>
  The bound check adds two signed integers: near the largest one the sum is negative, the check passes,
  and the bytes are written two gigabytes behind the array.
\<close>

theorem conf_write_overflows:
  assumes "conf_ok v"
  shows "pciem_conf_write_impl (Some v) 0x7FFFFFFC 4 val =
    (PCIBIOS_SUCCESSFUL, Some (v\<lparr>ext_cfg := poke (ext_cfg v) 0x7FFFFEFC (le32 val)\<rparr>))"
proof -
  have "\<not> cap_covers 0x7FFFFFFC c" if "cap_mgr v = Some mgr" "c \<in> set (caps mgr)" for mgr c
    using cap_covers_range(3) [of mgr c "0x7FFFFFFC"] that assms by (auto simp: conf_ok_def caps_inv_def caps_fit_def)
  then have "pciem_handle_cap_write v 0x7FFFFFFC 4 val = (False, v)"
    by (auto simp: pciem_handle_cap_write_def cap_write_loop_None split: option.split)
  moreover have "c_int (0x7FFFFFFC + 4) = - (2 ^ 31)" by (simp add: c_int_def)
  ultimately show ?thesis using assms by (simp add: pciem_conf_write_impl_def conf_ok_def conf_consts raw_write_def)
qed

theorem conf_write_overflows_witness:
  "pciem_conf_write_impl (Some rc2) 0x7FFFFFFC 4 7 =
    (PCIBIOS_SUCCESSFUL, Some (rc2\<lparr>ext_cfg := poke (ext_cfg rc2) 0x7FFFFEFC (le32 7)\<rparr>))"
  using conf_write_overflows [OF rc2_ok(1)] by simp



text \<open>
  C21. The host sizes a memory BAR correctly: for every BAR of a power-of-two size from 16 bytes to
  2 GiB, the protocol of PCI software (write all ones to the address register, read it back, clear
  the flag bits, negate) computes exactly the registered size, and writing the saved value back
  restores the register.
\<close>

lemma size_mask_pow2:
  assumes "4 \<le> k" "k < 32"
  shows "size_mask (2 ^ k) = NOT (2 ^ k - 1)"
    and "size_mask (2 ^ k) AND PCI_BASE_ADDRESS_MEM_MASK = NOT (2 ^ k - 1)"
    and "(NOT (2 ^ k - 1) :: u32) AND 0xF = 0"
proof -
  have F: "(0xF :: u32) = mask 4" by (simp add: mask_eq_exp_minus_1)
  show a: "size_mask (2 ^ k) = NOT (2 ^ k - 1)"
    by (rule bit_word_eqI)
      (auto simp: size_mask_def bit_simps simp flip: mask_eq_exp_minus_1)
  show "size_mask (2 ^ k) AND PCI_BASE_ADDRESS_MEM_MASK = NOT (2 ^ k - 1)"
    unfolding a PCI_BASE_ADDRESS_MEM_MASK_def F using assms(1)
    by (intro bit_word_eqI) (auto simp: bit_simps simp flip: mask_eq_exp_minus_1)
  show "(NOT (2 ^ k - 1) :: u32) AND 0xF = 0"
    unfolding F using assms(1)
    by (intro bit_word_eqI) (auto simp: bit_simps simp flip: mask_eq_exp_minus_1)
qed

lemma flag_bits: "(fl AND NOT PCI_BASE_ADDRESS_MEM_MASK) AND 0xF = fl AND NOT PCI_BASE_ADDRESS_MEM_MASK"
  by (simp add: PCI_BASE_ADDRESS_MEM_MASK_def and.assoc)

theorem bar_sizing:
  assumes "4 \<le> k" and "k < 32" and "mem_bar idx (2 ^ k) fl v"
  shows "NOT (bar_rd idx (bar_wr idx v (- 1)) AND NOT 0xF) + 1 = 2 ^ k \<and>
    bar_rd idx (bar_wr idx (bar_wr idx (bar_wr idx v x) (- 1)) (bar_rd idx (bar_wr idx v x))) =
      bar_rd idx (bar_wr idx v x)"
  using bar.probe_size [OF assms(3) flag_bits, of "2 ^ k"] bar.restore [OF assms(3), of x]
    size_mask_pow2 [OF assms(1,2)] by simp

definition rc3 :: rc_bars where
  "rc3 = set_bar (set_bar rc2 0 (bar0\<lparr>bar_size := 2 ^ 16, bar_flags := 0xC\<rparr>))
           2 (bar0\<lparr>bar_size := 2 ^ 36, bar_flags := 0xC\<rparr>)"

lemma rc3_bars: "mem_bar 0 (2 ^ 16) 0xC rc3" "high_bar 0 (2 ^ 16) rc3" "mem_bar 2 (2 ^ 36) 0xC rc3"
    "high_bar 2 (2 ^ 36) rc3"
  using rc2_ok(1) build_same(1) [OF rc2_built] rc1_plain(2)
  by (simp_all add: mem_bar_def high_bar_def rc3_def bar_consts is_64_def bar0_def)

theorem bar_sizing_witness:
  "NOT (bar_rd 0 (bar_wr 0 rc3 (- 1)) AND NOT 0xF) + 1 = 2 ^ 16"
  using bar_sizing [of 16 0 "0xC" rc3] rc3_bars(1) by simp

text \<open>
  A 64-bit BAR of 4 GiB or more is sized through its two registers: the low register probes to
  the flags alone, the high one to the upper half of the size mask, and the 64-bit value the host
  forms of them gives the registered size.
\<close>

theorem wide_bar_sizing:
  assumes "32 \<le> k" and "k < 64" and "mem_bar idx (2 ^ k) fl v" and "high_bar idx (2 ^ k) v"
  shows "NOT (push_bit 32 (ucast (bar_rd (idx + 1) (bar_wr (idx + 1) v (- 1)))) OR
           ucast (bar_rd idx (bar_wr idx v (- 1)) AND NOT 0xF)) + 1 = (2 ^ k :: u64)"
proof -
  have low: "size_mask (2 ^ k) = 0"
    using assms(1) by (intro bit_word_eqI)
      (auto simp: size_mask_def bit_simps simp flip: mask_eq_exp_minus_1)
  have big: "\<not> (2 ^ k :: u64) < 2 ^ 32"
  proof -
    have "(2::nat) ^ 32 \<le> 2 ^ k" using assms(1) by (rule power_increasing) simp
    then show ?thesis using assms(2) by (simp add: word_less_nat_alt unat_pow2 not_less)
  qed
  have "bar_rd idx (bar_wr idx v (- 1)) AND NOT 0xF = 0"
    using bar.probe [OF assms(3)] flag_bits [of fl] low
    by (simp add: PCI_BASE_ADDRESS_MEM_MASK_def and.assoc)
  moreover have "bar_rd (idx + 1) (bar_wr (idx + 1) v (- 1)) = size_mask_high (2 ^ k)"
    using high.probe [OF assms(4)] big by simp
  moreover have "push_bit 32 (ucast (size_mask_high (2 ^ k))) = (NOT (2 ^ k - 1) :: u64)"
    using assms(1,2) by (intro bit_word_eqI)
      (auto simp: size_mask_high_def bit_simps simp flip: mask_eq_exp_minus_1)
  ultimately show ?thesis by simp
qed

theorem wide_bar_sizing_witness:
  "NOT (push_bit 32 (ucast (bar_rd 3 (bar_wr 3 rc3 (- 1)))) OR
     ucast (bar_rd 2 (bar_wr 2 rc3 (- 1)) AND NOT 0xF)) + 1 = (2 ^ 36 :: u64)"
  using wide_bar_sizing [of 36 2 "0xC" rc3] rc3_bars(3,4) by simp

text \<open>
  The upper address register of a 64-bit BAR below 4 GiB is hard-wired to zero: whatever the
  host writes to it, it reads back 0, so the host cannot place such a BAR above 4 GiB.
\<close>

theorem small_wide_bar_high_zero:
  assumes "high_bar idx sz v" and "sz < 2 ^ 32"
  shows "bar_rd (idx + 1) (bar_wr (idx + 1) v x) = 0"
  using high.rd_wr [OF assms(1), of x] assms(2) by simp

theorem small_wide_bar_high_zero_witness:
  "bar_rd 1 (bar_wr 1 rc3 0x00000001) = 0"
  using small_wide_bar_high_zero [OF rc3_bars(2), of 1] by simp

text \<open>
  Ordinary registers hold what was last written: a write of 1, 2 or 4 bytes to any position
  that is neither a capability, an address register nor the expansion ROM is read back in full, no
  other byte changes. This covers the identification registers too: the Vendor ID at 0 is as
  writable as the Command register (PCI makes it read-only).
\<close>

theorem plain_register_read_back:
  assumes "\<not> detaching v" and "plain_reg v pos sz"
  shows "\<exists>v'. pciem_conf_write_impl (Some v) pos sz val = (PCIBIOS_SUCCESSFUL, Some v') \<and>
    pciem_conf_read_impl (Some v') pos sz = (PCIBIOS_SUCCESSFUL, take_bit (8 * nat sz) val) \<and>
    (\<forall>i. \<not> (nat pos \<le> i \<and> i < nat pos + nat sz) \<longrightarrow> cfg v' i = cfg v i)"
proof -
  obtain f where f: "raw_write (cfg v) (nat pos) sz val = Some f"
    using assms(2) by (auto simp: plain_reg_def raw_write_def)
  have "plain_reg (v\<lparr>cfg := f\<rparr>) pos sz" using assms(2) by (simp add: plain_reg_def)
  with assms f show ?thesis
    using raw_write_Some [OF f]
    by (intro exI [of _ "v\<lparr>cfg := f\<rparr>"]) (auto simp: plain_access)
qed

theorem plain_register_read_back_witness:
  "\<exists>v'. pciem_conf_write_impl (Some rc2) 0 2 0xBEEF = (PCIBIOS_SUCCESSFUL, Some v') \<and>
     pciem_conf_read_impl (Some v') 0 2 = (PCIBIOS_SUCCESSFUL, 0xBEEF)"
proof -
  have "plain_reg rc2 0 2" "\<not> detaching rc2"
    using rc2_ok by (auto simp: plain_reg_def conf_consts in_bar_regs_def mgr1_def cap_covers_def
        cap_base_def conf_ok_def)
  from plain_register_read_back [OF this(2,1), of "0xBEEF"] show ?thesis by (auto simp: take_bit_eq_mod)
qed

text \<open>
  The MSI flags that were configured are invisible to the host. Right after the capability list
  was built, the byte view holds the flags (64-bit addressing, masking, number of vectors), but a
  16-bit read of the message control register, which is how the host asks for them, gives 0: it is
  answered from the typed state, which nobody initialises with the flags.
\<close>

theorem msi_flags_hidden:
  assumes "caps_inv w" and "\<not> detaching w" and "cap_mgr w = Some mgr" and "std_fit mgr"
    and "pciem_build_config_space w = Some v"
    and "find (cap_covers (int (unat (cap_offset c)) + 2)) (caps mgr) = Some c"
    and "body c = Cap_MSI m msi_state0"
  shows "get16 (cfg v) (unat (cap_offset c) + 2) = msi_flags m \<and>
    pciem_conf_read_impl (Some v) (int (unat (cap_offset c)) + 2) 2 = (PCIBIOS_SUCCESSFUL, 0)"
proof -
  have inv: "mgr_inv mgr" using assms(1,3) by (simp add: caps_inv_def)
  have mem: "c \<in> set (caps mgr)" using assms(6) by (auto simp: find_Some_iff)
  with inv assms(7) have std: "\<not> is_extended c" "c \<in> set (std_of (caps mgr))"
    by (auto simp: mgr_inv_def list_all_iff entry_ok_def std_of_def)
  have "list_all (emitted (cfg v)) (std_of (caps mgr))"
    by (rule build_ok [OF assms(3) inv assms(4)]) (use assms(5) in simp)
  with std(2) obtain nx where em: "\<And>j. j < length (emit_std (body c) nx) \<Longrightarrow>
      cfg v (unat (cap_offset c) + j) = emit_std (body c) nx ! j"
    by (auto simp: list_all_iff emitted_def)
  have "get16 (cfg v) (unat (cap_offset c) + 2) = msi_flags m"
    using em [of 2] em [of 3] join16 [of "msi_flags m"] assms(7)
    by (simp add: get16_def le16_def eval_nat_numeral)
  moreover have "cap_read_loop cs pos 2 = read_entry (body c) (nat (pos - cap_base c)) 2"
    if "find (cap_covers pos) cs = Some c" for cs pos
    using that by (induction cs) (auto split: if_splits)
  from this [OF assms(6)] have "pciem_handle_cap_read v (int (unat (cap_offset c)) + 2) 2 = Some 0"
    using assms(3,7) build_same(3) [OF assms(5)] std(1)
    by (simp add: pciem_handle_cap_read_def handle_msi_read_def msi_state0_def cap_base_def)
  moreover have lim: "int (unat (cap_offset c)) + 2 + 2 \<le> int PCI_CFG_SPACE_SIZE"
  proof -
    have "8 \<le> unat (cap_size c)"
      using body_size_ge [of "body c"] inv mem assms(7)
      by (simp add: mgr_inv_def list_all_iff entry_ok_def)
    moreover have "int (unat (cap_offset c)) + int (unat (cap_size c)) \<le> 256"
      using cap_range(1) [OF inv assms(4) mem std(1)] std(1) by (simp only: cap_base_def if_False)
    ultimately show ?thesis unfolding cap_consts by linarith
  qed
  moreover have "\<not> int (unat (cap_offset c)) + 2 < 0" by linarith
  moreover have "c_int (int (unat (cap_offset c)) + 2 + 2) = int (unat (cap_offset c)) + 2 + 2"
    using lim by (intro c_int_small) (simp_all add: cap_consts)
  ultimately show ?thesis
    using assms(2) build_same(2) [OF assms(5)] by (simp add: pciem_conf_read_impl_def)
qed

theorem msi_flags_hidden_witness:
  "get16 (cfg rc2) 126 = 0x80 \<and> pciem_conf_read_impl (Some rc2) 126 2 = (PCIBIOS_SUCCESSFUL, 0)"
proof -
  define c where "c = \<lparr>cap_offset = 124, ext_offset = 0, is_extended = False, cap_size = 16,
    body = Cap_MSI msi0 msi_state0\<rparr>"
  have "find (cap_covers 126) (caps mgr1) = Some c"
    by (simp add: c_def mgr1_def cap_covers_def cap_base_def)
  with msi_flags_hidden [OF rc1_caps_inv rc1_plain(1) rc1_mgr mgr1_fit rc2_built, of c msi0]
  show ?thesis by (simp add: c_def msi_flags_def msi0_def)
qed

subsection \<open>Bus operations\<close>

text \<open>
  The functions of a virtual root bus are isolated from one another: a configuration write to
  one device and function number leaves every other function of the bus as it was and is exactly a
  write to the addressed function; slots other than 0 and absent functions refuse the access and
  change nothing.
\<close>

theorem vph_isolation:
  shows "case vph_get_rc_for_devfn fs devfn of
      None \<Rightarrow> vph_write_config fs devfn pos sz val = (PCIBIOS_DEVICE_NOT_FOUND, fs)
    | Some v \<Rightarrow> PCI_SLOT devfn = 0 \<and> fs (PCI_FUNC devfn) = Some v \<and>
        fst (vph_write_config fs devfn pos sz val) = fst (pciem_conf_write_impl (Some v) pos sz val) \<and>
        snd (vph_write_config fs devfn pos sz val) (PCI_FUNC devfn) =
          snd (pciem_conf_write_impl (Some v) pos sz val) \<and>
        (\<forall>g. g \<noteq> PCI_FUNC devfn \<longrightarrow> snd (vph_write_config fs devfn pos sz val) g = fs g)"
  by (auto simp: vph_write_config_def vph_get_rc_for_devfn_def Let_def split: option.split
      prod.split if_splits)

theorem vph_isolation_witness:
  "snd (vph_write_config [0 \<mapsto> rc2, 1 \<mapsto> rc3] 1 4 2 7) 0 = Some rc2"
  using vph_isolation [of "[0 \<mapsto> rc2, 1 \<mapsto> rc3]" 1 4 2 7]
  by (simp add: vph_get_rc_for_devfn_def PCI_SLOT_def PCI_FUNC_def PCIEM_MAX_FUNCTIONS_def)

text \<open>
  Attached to a host bus, the emulator is transparent for everybody else: a write to another
  bus or another slot is forwarded unchanged to the operations the bus had before and touches no
  emulated function, and a write to the claimed slot never reaches the host's operations.
\<close>

theorem proxy_transparent:
  "if busnr \<noteq> target_busnr h \<or> PCI_SLOT devfn \<noteq> hijacked_slot h
   then proxy_write_config orig host h busnr devfn pos sz val =
          (fst (orig host busnr devfn pos sz val), snd (orig host busnr devfn pos sz val), h)
   else fst (snd (proxy_write_config orig host h busnr devfn pos sz val)) = host \<and>
        target_busnr (snd (snd (proxy_write_config orig host h busnr devfn pos sz val))) = target_busnr h \<and>
        hijacked_slot (snd (snd (proxy_write_config orig host h busnr devfn pos sz val))) = hijacked_slot h \<and>
        sibling_funcs (snd (snd (proxy_write_config orig host h busnr devfn pos sz val))) =
          snd (vph_write_config (sibling_funcs h) (PCI_FUNC devfn) pos sz val)"
  by (auto simp: proxy_write_config_def vph_write_config_def vph_get_rc_for_devfn_def PCI_FUNC_def
      PCI_SLOT_def PCIEM_MAX_FUNCTIONS_def Let_def split: option.split prod.split)

theorem proxy_transparent_witness:
  "proxy_write_config (\<lambda>n b d p s v. (PCIBIOS_SUCCESSFUL, n + 1)) (0 :: nat)
      \<lparr>target_busnr = 0, hijacked_slot = 3, sibling_funcs = [0 \<mapsto> rc2]\<rparr> 0 16 4 2 7 =
    (PCIBIOS_SUCCESSFUL, 1, \<lparr>target_busnr = 0, hijacked_slot = 3, sibling_funcs = [0 \<mapsto> rc2]\<rparr>)"
  using proxy_transparent [of 0 "\<lparr>target_busnr = 0, hijacked_slot = 3, sibling_funcs = [0 \<mapsto> rc2]\<rparr>"
      16 "\<lambda>n b d p s v. (PCIBIOS_SUCCESSFUL, n + 1)" "0 :: nat" 4 2 7]
  by (simp add: PCI_SLOT_def)

subsection \<open>Registering BARs\<close>

text \<open>
  A registered BAR is naturally aligned, as PCI demands: with an allocator that behaves as
  documented and a pool that starts on a page, a BAR of \<open>2 ^ k\<close> bytes (a page or more) is carved at
  a multiple of its size; it gets the requested size and flags and a cleared address, and no other
  BAR and no configuration byte changes.
\<close>

theorem register_bar_aligned:
  assumes "bitmap_fit_ok search" and "genpool_places galloc chunk" and "take_bit PAGE_SHIFT chunk = 0"
    and "PAGE_SHIFT \<le> k" and "k < 64"
    and "pciem_register_bar galloc search p v i (2 ^ k) fl = (Inr (), p', v')"
  shows "take_bit k (carved_start (bars v' i)) = 0 \<and> carved_start (bars v' i) \<noteq> 0 \<and>
    carved_end (bars v' i) = carved_start (bars v' i) + 2 ^ k - 1 \<and> bar_size (bars v' i) = 2 ^ k \<and>
    bar_flags (bars v' i) = fl \<and> base_addr_val (bars v' i) = 0 \<and>
    (\<forall>j. j \<noteq> i \<longrightarrow> bars v' j = bars v j) \<and> cfg v' = cfg v"
proof -
  obtain addr q where alloc: "pciem_pool_alloc galloc search p (2 ^ k) = (addr, q)"
    by (cases "pciem_pool_alloc galloc search p (2 ^ k)")
  have "(2 ^ k :: u64) \<noteq> 0" using assms(5) by (simp add: exp_eq_zero_iff)
  with assms(6) alloc pool_alloc_aligned [OF assms(1-5) alloc] show ?thesis
    by (auto simp: pciem_register_bar_def split: if_splits)
qed

definition galloc0 :: "unit \<Rightarrow> u64 \<Rightarrow> unit fit_algo \<Rightarrow> u64 \<times> unit" where
  "galloc0 g sz algo = (let idx = algo () 16 0 1 (2 ^ 32) in
     (if unat idx + 1 \<le> 16 then 2 ^ 32 + push_bit PAGE_SHIFT idx else 0, g))"

definition search0 :: "unit bitmap_search" where
  "search0 bm bits start nr msk off = - off"

definition pool0 :: "unit mempool" where
  "pool0 = \<lparr>pool_base = 2 ^ 32, pool_size = 0x10000, gpool = Some (), res_start = 2 ^ 32,
            res_end = 2 ^ 32 + 0xFFFF, res_claimed = True\<rparr>"

lemma alloc0_ok: "bitmap_fit_ok search0" "genpool_places galloc0 (2 ^ 32)"
proof -
  show "bitmap_fit_ok search0" by (simp add: bitmap_fit_ok_def search0_def)
  have one: "unat (1 :: u64) = 1" "unat (16 :: u64) = 16" by simp_all
  show "genpool_places galloc0 (2 ^ 32)"
    unfolding genpool_places_def galloc0_def Let_def
    by (simp only: fst_conv) (metis one)
qed

theorem register_bar_aligned_witness:
  "take_bit 13 (carved_start (bars (snd (snd (pciem_register_bar galloc0 search0 pool0 rc2 0 (2 ^ 13) 0xC))) 0)) = 0"
proof -
  have "pciem_register_bar galloc0 search0 pool0 rc2 0 (2 ^ 13) 0xC =
    (Inr (), snd (pciem_register_bar galloc0 search0 pool0 rc2 0 (2 ^ 13) 0xC))"
    by (simp add: pciem_register_bar_def bar_consts pciem_pool_alloc_def pool0_def galloc0_def
        search0_def is_pow2_def pciem_first_fit_align_def fit_align_off_def PAGE_SHIFT_def)
  with register_bar_aligned [OF alloc0_ok, of 13 pool0 rc2 0 "0xC"] show ?thesis
    by (cases "snd (pciem_register_bar galloc0 search0 pool0 rc2 0 (2 ^ 13) 0xC)")
      (simp add: PAGE_SHIFT_def)
qed

text \<open>
  Taking a BAR back does not return its memory: after a BAR was registered (which carved a
  region out of the pool), registering it again with size 0 succeeds, forgets that the BAR exists
  and leaves the allocator exactly as it was, so the region stays allocated.
\<close>

theorem register_bar_leaks:
  assumes "pciem_register_bar galloc search p v i sz fl = (Inr (), p', v')" and "sz \<noteq> 0"
  shows "carved_start (bars v' i) \<noteq> 0 \<and>
    pciem_register_bar galloc search p' v' i 0 fl' =
      (Inr (), p', set_bar v' i ((bars v' i)\<lparr>bar_size := 0, bar_flags := 0\<rparr>))"
  using assms by (auto simp: pciem_register_bar_def split: if_splits prod.splits)

theorem register_bar_leaks_witness:
  "fst (snd (pciem_register_bar galloc0 search0
     (fst (snd (pciem_register_bar galloc0 search0 pool0 rc2 0 (2 ^ 13) 0xC)))
     (snd (snd (pciem_register_bar galloc0 search0 pool0 rc2 0 (2 ^ 13) 0xC))) 0 0 0)) =
   fst (snd (pciem_register_bar galloc0 search0 pool0 rc2 0 (2 ^ 13) 0xC))"
proof -
  have "pciem_register_bar galloc0 search0 pool0 rc2 0 (2 ^ 13) 0xC =
    (Inr (), snd (pciem_register_bar galloc0 search0 pool0 rc2 0 (2 ^ 13) 0xC))"
    by (simp add: pciem_register_bar_def bar_consts pciem_pool_alloc_def pool0_def galloc0_def
        search0_def is_pow2_def pciem_first_fit_align_def fit_align_off_def PAGE_SHIFT_def)
  with register_bar_leaks [of galloc0 search0 pool0 rc2 0 "2 ^ 13" "0xC"] show ?thesis
    by (cases "snd (pciem_register_bar galloc0 search0 pool0 rc2 0 (2 ^ 13) 0xC)") simp
qed

end
