(* ===== verification/DeviceLife.thy ===== *)
theory DeviceLife
  imports Device HostView
begin

text \<open>
  What bringing a function up and taking it down does: the address registers the host finds, what a
  failed initialisation leaves behind, and that tearing down undoes initialising.
\<close>

subsection \<open>Loops over the BARs touch nothing else\<close>

definition bars_only :: "'a rc_bars_scheme \<Rightarrow> 'a rc_bars_scheme \<Rightarrow> bool" where
  "bars_only v v' \<longleftrightarrow> v' = v\<lparr>bars := bars v'\<rparr>"

text \<open>What registration fixed of a BAR: no loop over the BARs changes it.\<close>

definition statics_eq :: "'a rc_bars_scheme \<Rightarrow> 'a rc_bars_scheme \<Rightarrow> bool" where
  "statics_eq v v' \<longleftrightarrow> (\<forall>j. bar_size (bars v' j) = bar_size (bars v j) \<and> bar_flags (bars v' j) = bar_flags (bars v j) \<and>
     carved_start (bars v' j) = carved_start (bars v j) \<and> carved_end (bars v' j) = carved_end (bars v j))"

definition active :: "'a rc_bars_scheme \<Rightarrow> nat \<Rightarrow> bool" where
  "active v i \<longleftrightarrow> bar_size (bars v i) \<noteq> 0 \<and> \<not> upper_half v i"

lemma bars_only_refl [simp]: "bars_only v v"
  by (simp add: bars_only_def)

lemma bars_only_trans: "bars_only u v \<Longrightarrow> bars_only v w \<Longrightarrow> bars_only u w"
  unfolding bars_only_def by (metis (no_types, lifting) rc_bars.surjective rc_bars.update_convs(1))

lemma bars_only_set [simp]: "bars_only v (set_bar v i b)"
  by (simp add: bars_only_def set_bar_def)

lemma bars_only_place [simp]: "bars_only v (place_bar i v)"
  by (simp add: bars_only_def place_bar_def set_bar_def Let_def)

lemma statics_eq_refl [simp]: "statics_eq v v"
  by (simp add: statics_eq_def)

lemma statics_eq_trans: "statics_eq u v \<Longrightarrow> statics_eq v w \<Longrightarrow> statics_eq u w"
  by (simp add: statics_eq_def)

lemma statics_eq_place [simp]: "statics_eq v (place_bar i v)"
  by (simp add: statics_eq_def place_bar_def Let_def)

lemma statics_eq_set: "bar_size b = bar_size (bars v i) \<Longrightarrow> bar_flags b = bar_flags (bars v i) \<Longrightarrow>
    carved_start b = carved_start (bars v i) \<Longrightarrow> carved_end b = carved_end (bars v i) \<Longrightarrow>
    statics_eq v (set_bar v i b)"
  by (simp add: statics_eq_def)

lemma statics_fields:
  assumes "statics_eq v v'"
  shows "bar_size (bars v' j) = bar_size (bars v j)" "bar_flags (bars v' j) = bar_flags (bars v j)"
    "carved_start (bars v' j) = carved_start (bars v j)" "carved_end (bars v' j) = carved_end (bars v j)"
    "is_64 (bars v' j) = is_64 (bars v j)" "upper_half v' j = upper_half v j" "active v' j = active v j"
proof -
  show a: "bar_size (bars v' j) = bar_size (bars v j)" "bar_flags (bars v' j) = bar_flags (bars v j)"
    "carved_start (bars v' j) = carved_start (bars v j)" "carved_end (bars v' j) = carved_end (bars v j)" for j
    using assms by (simp_all add: statics_eq_def)
  show b: "is_64 (bars v' j) = is_64 (bars v j)" for j using a by (simp add: is_64_def)
  show c: "upper_half v' j = upper_half v j" by (simp add: upper_half_def prev_bar_def b)
  show "active v' j = active v j" using a(1) c by (simp add: active_def)
qed

text \<open>The registers of a BAR that has its memory.\<close>

definition backed :: "'a rc_bars_scheme \<Rightarrow> nat \<Rightarrow> bool" where
  "backed v i \<longleftrightarrow> allocated_res (bars v i) = Some (carved_start (bars v i), carved_end (bars v i)) \<and>
     phys_addr (bars v i) = carved_start (bars v i) \<and> mem_owned (bars v i) \<and> carved_start (bars v i) \<noteq> 0"

definition placed :: "'a rc_bars_scheme \<Rightarrow> nat \<Rightarrow> bool" where
  "placed v i \<longleftrightarrow> base_addr_val (bars v i) = ucast (carved_start (bars v i)) \<and>
     (even i \<and> is_64 (bars v i) \<longrightarrow> base_addr_val (bars v (i + 1)) = ucast (drop_bit 32 (carved_start (bars v i))))"

lemma place_bar_bars:
  "bars (place_bar i v) j = (bars v j)\<lparr>base_addr_val :=
     (if j = i then ucast (phys_addr (bars v i))
      else if j = i + 1 \<and> is_64 (bars v i) \<and> i + 1 < PCI_STD_NUM_BARS then ucast (drop_bit 32 (phys_addr (bars v i)))
      else base_addr_val (bars v j))\<rparr>"
  by (simp add: place_bar_def Let_def)

lemma place_bar_backed [simp]: "backed (place_bar i v) j = backed v j"
  by (simp add: backed_def place_bar_bars)

lemma place_bar_placed: "backed v i \<Longrightarrow> i < PCI_STD_NUM_BARS \<Longrightarrow> placed (place_bar i v) i"
  by (auto simp: backed_def placed_def place_bar_bars is_64_def PCI_STD_NUM_BARS_def)

lemma place_bar_keeps:
  assumes "placed v j" "j < i" "\<not> upper_half v i"
  shows "placed (place_bar i v) j"
proof -
  have "\<not> (even j \<and> is_64 (bars v j) \<and> i = j + 1)"
    using assms(3) by (auto simp: upper_half_def prev_bar_def)
  then show ?thesis using assms(1,2) by (auto simp: placed_def place_bar_bars is_64_def)
qed

subsection \<open>Sizing registers\<close>

text \<open>What every access to the address registers keeps: all of a BAR but the register.\<close>

definition same_but_base :: "'a rc_bars_scheme \<Rightarrow> 'a rc_bars_scheme \<Rightarrow> bool" where
  "same_but_base v w \<longleftrightarrow> (\<forall>j. \<exists>b. bars w j = (bars v j)\<lparr>base_addr_val := b\<rparr>)"

lemma bar_same: "\<exists>b. (x :: bar_info) = x\<lparr>base_addr_val := b\<rparr>"
  by (rule exI [of _ "base_addr_val x"]) simp

lemma same_but_base_refl [simp]: "same_but_base v v"
  unfolding same_but_base_def using bar_same by blast

lemma same_but_base_trans:
  assumes "same_but_base u v" "same_but_base v w"
  shows "same_but_base u w"
  unfolding same_but_base_def
proof
  fix j
  obtain b c where "bars v j = (bars u j)\<lparr>base_addr_val := b\<rparr>" "bars w j = (bars v j)\<lparr>base_addr_val := c\<rparr>"
    using assms unfolding same_but_base_def by blast
  then have "bars w j = (bars u j)\<lparr>base_addr_val := c\<rparr>" by simp
  then show "\<exists>b. bars w j = (bars u j)\<lparr>base_addr_val := b\<rparr>" by blast
qed

lemma same_but_base_write: "same_but_base v (snd (pciem_write_bar_address v i x))"
proof -
  have "same_but_base v (set_bar v i ((bars v i)\<lparr>base_addr_val := y\<rparr>))" for y
    using bar_same by (auto simp: same_but_base_def)
  then show ?thesis by (auto simp: pciem_write_bar_address_def Let_def split: option.split)
qed

lemma write_bar_only: "bars_only v (snd (pciem_write_bar_address v i x))"
  by (auto simp: pciem_write_bar_address_def Let_def split: option.split)

lemma same_but_base_size: "same_but_base v (size_register i v)"
  by (auto simp: size_register_def intro: same_but_base_trans [OF same_but_base_write same_but_base_write])

lemma size_registers_only: "bars_only v (size_registers is v)"
proof (induction "is" arbitrary: v)
  case (Cons i "is")
  have "bars_only v (size_register i v)"
    by (auto simp: size_register_def intro: bars_only_trans [OF write_bar_only write_bar_only])
  then show ?case using Cons [of "size_register i v"] bars_only_trans by (metis size_registers.simps(2))
qed simp

lemma size_registers_detaching [simp]: "detaching (size_registers is v) = detaching v"
  by (subst size_registers_only [of v "is", unfolded bars_only_def]) simp

lemma same_but_base_registers: "same_but_base v (size_registers is v)"
proof (induction "is" arbitrary: v)
  case (Cons i "is")
  show ?case using same_but_base_trans [OF same_but_base_size [of v i] Cons] by simp
qed simp

lemma size_registers_fields [simp]:
  "bar_size (bars (size_registers is v) j) = bar_size (bars v j)" "bar_flags (bars (size_registers is v) j) = bar_flags (bars v j)"
  "carved_start (bars (size_registers is v) j) = carved_start (bars v j)"
  "carved_end (bars (size_registers is v) j) = carved_end (bars v j)"
  "allocated_res (bars (size_registers is v) j) = allocated_res (bars v j)"
  "mem_owned (bars (size_registers is v) j) = mem_owned (bars v j)" "phys_addr (bars (size_registers is v) j) = phys_addr (bars v j)"
proof -
  obtain b where "bars (size_registers is v) j = (bars v j)\<lparr>base_addr_val := b\<rparr>"
    using same_but_base_registers [of v "is"] by (auto simp: same_but_base_def)
  then show "bar_size (bars (size_registers is v) j) = bar_size (bars v j)"
    "bar_flags (bars (size_registers is v) j) = bar_flags (bars v j)"
    "carved_start (bars (size_registers is v) j) = carved_start (bars v j)"
    "carved_end (bars (size_registers is v) j) = carved_end (bars v j)"
    "allocated_res (bars (size_registers is v) j) = allocated_res (bars v j)"
    "mem_owned (bars (size_registers is v) j) = mem_owned (bars v j)" "phys_addr (bars (size_registers is v) j) = phys_addr (bars v j)"
    by simp_all
qed

lemma size_registers_statics [simp]: "statics_eq v (size_registers is v)"
  by (simp add: statics_eq_def)

lemma size_registers_backed [simp]: "backed (size_registers is v) j = backed v j"
  by (simp add: backed_def)

lemma size_registers_cong: "bars v = bars w \<Longrightarrow> detaching v = detaching w \<Longrightarrow> bars (size_registers is v) = bars (size_registers is w)"
  for v :: "'a rc_bars_scheme" and w :: "'a rc_bars_scheme"
proof (induction "is" arbitrary: v w)
  case (Cons i "is")
  have wr: "bars (snd (pciem_write_bar_address v i x)) = bars (snd (pciem_write_bar_address w i x))"
    if "bars v = bars w" for v w :: "'a rc_bars_scheme" and x
    using that by (auto simp: pciem_write_bar_address_def prev_bar_def Let_def split: option.split)
  have "prev_bar v i = prev_bar w i" using Cons.prems(1) by (simp add: prev_bar_def)
  then have "pciem_read_bar_address v i = pciem_read_bar_address w i"
    using Cons.prems(1) by (simp add: pciem_read_bar_address_def cong: if_cong)
  then have eq: "bars (size_register i v) = bars (size_register i w)"
    unfolding size_register_def Cons.prems(2) using Cons.prems(1) wr [OF wr [OF Cons.prems(1)]] by (simp split: if_split)
  have "detaching (size_register i v) = detaching (size_register i w)"
    using Cons.prems(2) size_registers_detaching [of "[i]" v] size_registers_detaching [of "[i]" w] by simp
  from Cons.IH [OF eq this] show ?case by simp
qed simp

subsection \<open>Placing all BARs\<close>

lemma place_bars_frame: "bars_only v (place_bars is v) \<and> statics_eq v (place_bars is v)"
proof (induction "is" v rule: place_bars.induct)
  case (2 i "is" v)
  then show ?case
    using bars_only_trans [OF bars_only_place [of v i]] statics_eq_trans [OF statics_eq_place [of v i]]
    by (cases "bar_size (bars v i) = 0 \<or> upper_half v i") simp_all
qed simp_all

lemma place_bars_backed [simp]: "backed (place_bars is v) j = backed v j"
  by (induction "is" v rule: place_bars.induct) simp_all

lemma place_bars_placed:
  assumes "k + length is \<le> PCI_STD_NUM_BARS" "is = [k..<k + length is]"
    and "\<forall>j<PCI_STD_NUM_BARS. active v j \<longrightarrow> backed v j" "\<forall>j<k. active v j \<longrightarrow> placed v j"
  shows "\<forall>j<k + length is. active v j \<longrightarrow> placed (place_bars is v) j"
  using assms
proof (induction "is" arbitrary: k v)
  case Nil
  then show ?case by simp
next
  case (Cons i "is")
  have "i # is = k # [Suc k..<k + length (i # is)]"
    using Cons.prems(2) upt_conv_Cons [of k "k + length (i # is)"] by simp
  then have i: "i = k" and rest: "is = [k + 1..<k + 1 + length is]" by auto
  define w where "w = (if active v k then place_bar k v else v)"
  have w: "place_bars (i # is) v = place_bars is w" by (simp add: w_def i active_def)
  have st: "statics_eq v w" "bars_only v w" by (simp_all add: w_def)
  have act: "active w j = active v j" for j using statics_fields(7) [OF st(1)] .
  have bk: "backed w j = backed v j" for j by (simp add: w_def)
  have "placed w j" if j: "j < k + 1" "active v j" for j
  proof (cases "j = k")
    case True
    then show ?thesis using j Cons.prems(1,3) place_bar_placed [of v k] by (simp add: w_def)
  next
    case False
    then have "placed v j" "j < k" using j Cons.prems(4) by auto
    then show ?thesis using place_bar_keeps [of v j k] by (auto simp: w_def active_def)
  qed
  then have "\<forall>j<k + 1 + length is. active w j \<longrightarrow> placed (place_bars is w) j"
    using Cons.prems rest by (intro Cons.IH) (auto simp: act bk)
  then show ?case by (simp add: w act del: place_bars.simps)
qed

text \<open>On BARs that have memory exactly when active, the virtual root sets up the same registers.\<close>

lemma bus_resources_place:
  assumes "\<forall>j\<in>set is. allocated_res (bars v j) \<noteq> None \<longleftrightarrow> active v j"
  shows "fst (bus_resources is v rs) = place_bars is v"
  using assms
proof (induction "is" v rs rule: bus_resources.induct)
  case (2 i "is" v rs)
  have st: "statics_eq v (place_bar i v)" by simp
  have "allocated_res (bars (place_bar i v) j) = allocated_res (bars v j)" for j by (simp add: place_bar_bars)
  moreover have "active (place_bar i v) j = active v j" for j using statics_fields(7) [OF st] .
  moreover have "bar_size (bars v i) > 0 \<and> allocated_res (bars v i) \<noteq> None \<longleftrightarrow>
      \<not> (bar_size (bars v i) = 0 \<or> upper_half v i)"
    using 2(3) by (auto simp: active_def word_gt_0)
  ultimately show ?case using 2 by (simp del: fun_upd_apply)
qed simp

subsection \<open>Giving every BAR its memory\<close>

text \<open>Before initialisation no BAR has memory; after the loop the active ones have it.\<close>

definition unbacked :: "'a rc_bars_scheme \<Rightarrow> bool" where
  "unbacked v \<longleftrightarrow> (\<forall>j. allocated_res (bars v j) = None)"

lemma prepare_bar_frame:
  assumes "prepare_bar env p i v = (rc, v')"
  shows "bars_only v v' \<and> statics_eq v v' \<and> (\<forall>j. j \<noteq> i \<longrightarrow> allocated_res (bars v' j) = allocated_res (bars v j) \<and>
    (backed v j \<longrightarrow> backed v' j)) \<and> (allocated_res (bars v' i) \<noteq> allocated_res (bars v i) \<longrightarrow> mem_owned (bars v' i)) \<and>
    (\<forall>j. mem_owned (bars v j) \<longrightarrow> mem_owned (bars v' j))"
  using assms bars_only_trans [OF bars_only_set bars_only_place]
  by (auto simp: prepare_bar_def Let_def statics_eq_def place_bar_bars backed_def split: if_splits)

lemma prepare_bar_ok:
  assumes "prepare_bar env p i v = (Inr (), v')"
  shows "if active v i then backed v' i else v' = v"
  using assms by (auto simp: prepare_bar_def Let_def active_def backed_def place_bar_bars split: if_splits)

lemma prepare_bar_fails:
  assumes "active v i" "carved_start (bars v i) = 0"
  shows "fst (prepare_bar env p i v) = Inl ENOMEM"
  using assms by (simp add: prepare_bar_def Let_def active_def)

lemma prepare_bars_frame:
  "prepare_bars env p is v = (rc, v') \<Longrightarrow> bars_only v v' \<and> statics_eq v v' \<and>
    (\<forall>j. (allocated_res (bars v j) \<noteq> None \<longrightarrow> mem_owned (bars v j)) \<longrightarrow>
       (allocated_res (bars v' j) \<noteq> None \<longrightarrow> mem_owned (bars v' j))) \<and>
    (\<forall>j. j \<notin> set is \<longrightarrow> allocated_res (bars v' j) = allocated_res (bars v j) \<and> (backed v j \<longrightarrow> backed v' j))"
proof (induction "is" arbitrary: v)
  case (Cons i "is" v)
  obtain rc1 v1 where one: "prepare_bar env p i v = (rc1, v1)" by (cases "prepare_bar env p i v")
  note f = prepare_bar_frame [OF one]
  have own: "allocated_res (bars v j) \<noteq> None \<longrightarrow> mem_owned (bars v j) \<Longrightarrow>
      allocated_res (bars v1 j) \<noteq> None \<longrightarrow> mem_owned (bars v1 j)" for j
    using f by (cases "j = i") metis+
  show ?case
  proof (cases rc1)
    case (Inl e)
    then have "v' = v1" using Cons(2) one by simp
    then show ?thesis using f own by auto
  next
    case (Inr u)
    then have rest: "prepare_bars env p is v1 = (rc, v')" using Cons(2) one by simp
    have "bars_only v v'" "statics_eq v v'"
      using f Cons(1) [OF rest] bars_only_trans statics_eq_trans by blast+
    then show ?thesis using f own Cons(1) [OF rest] Inr by auto
  qed
qed simp

lemma prepare_bars_ok:
  assumes "prepare_bars env p is v = (Inr (), v')" "distinct is"
  shows "\<forall>i\<in>set is. if active v i then backed v' i else allocated_res (bars v' i) = allocated_res (bars v i)"
  using assms
proof (induction "is" arbitrary: v)
  case (Cons i "is" v)
  obtain rc1 v1 where one: "prepare_bar env p i v = (rc1, v1)" by (cases "prepare_bar env p i v")
  then have rc1: "rc1 = Inr ()" using Cons(2) by (cases rc1) auto
  then have rest: "prepare_bars env p is v1 = (Inr (), v')" using Cons(2) one by simp
  note f = prepare_bar_frame [OF one] and fr = prepare_bars_frame [OF rest]
  have act: "active v1 j = active v j" for j using f statics_fields(7) by blast
  have "if active v i then backed v' i else allocated_res (bars v' i) = allocated_res (bars v i)"
    using prepare_bar_ok [OF one [unfolded rc1]] fr Cons(3) by auto
  moreover have "if active v j then backed v' j else allocated_res (bars v' j) = allocated_res (bars v j)"
    if "j \<in> set is" for j
  proof -
    have "j \<noteq> i" using that Cons(3) by auto
    then show ?thesis using that Cons(1) [OF rest] Cons(3) act f by auto
  qed
  ultimately show ?case by simp
qed simp

text \<open>A BAR that lost its carved memory stops the loop.\<close>

lemma prepare_bars_fails:
  assumes "i \<in> set is" "active v i" "carved_start (bars v i) = 0"
  shows "\<exists>e. fst (prepare_bars env p is v) = Inl e"
  using assms
proof (induction "is" arbitrary: v)
  case (Cons k "is" v)
  obtain rc1 v1 where one: "prepare_bar env p k v = (rc1, v1)" by (cases "prepare_bar env p k v")
  show ?case
  proof (cases rc1)
    case (Inr u)
    then have "k \<noteq> i" using one prepare_bar_fails [OF Cons(3,4), of env p] by auto
    moreover have "active v1 i" "carved_start (bars v1 i) = 0"
      using prepare_bar_frame [OF one] Cons(3,4) statics_fields(3,7) by metis+
    ultimately show ?thesis using Cons(1) Cons(2) Inr one by simp
  qed (use one in simp)
qed simp

subsection \<open>Giving the memory back\<close>

lemma cleanup_bar_pool:
  "carved_start b = carved_start b' \<Longrightarrow> carved_end b = carved_end b' \<Longrightarrow>
    fst (pciem_cleanup_bar gfree p b) = fst (pciem_cleanup_bar gfree p b')"
  by (simp add: pciem_cleanup_bar_def Let_def)

lemma cleanup_bar_fields:
  "carved_start (snd (pciem_cleanup_bar gfree p b)) = 0"
  "bar_size (snd (pciem_cleanup_bar gfree p b)) = bar_size b"
  "bar_flags (snd (pciem_cleanup_bar gfree p b)) = bar_flags b"
  "(allocated_res b \<noteq> None \<longrightarrow> mem_owned b) \<Longrightarrow> allocated_res (snd (pciem_cleanup_bar gfree p b)) = None"
  by (cases "allocated_res b"; auto simp: pciem_cleanup_bar_def Let_def)+

lemma cleanup_bars_pool:
  "(\<forall>j. carved_start (bars v' j) = carved_start (bars v j) \<and> carved_end (bars v' j) = carved_end (bars v j)) \<Longrightarrow>
    fst (cleanup_bars gfree is p v') = fst (cleanup_bars gfree is p v)"
proof (induction "is" arbitrary: p v v')
  case (Cons i "is")
  have eq: "fst (pciem_cleanup_bar gfree p (bars v' i)) = fst (pciem_cleanup_bar gfree p (bars v i))"
    using Cons(2) by (intro cleanup_bar_pool) simp_all
  have ends: "carved_end (snd (pciem_cleanup_bar gfree p (bars v' i))) = carved_end (snd (pciem_cleanup_bar gfree p (bars v i)))"
    using Cons(2) by (simp add: pciem_cleanup_bar_def Let_def)
  show ?case
    using eq by (simp add: split_beta) (intro Cons(1), simp add: Cons(2) cleanup_bar_fields(1) ends)
qed simp

lemma cleanup_bars_frame:
  "bars_only v (snd (cleanup_bars gfree is p v)) \<and>
    (\<forall>j. bar_size (bars (snd (cleanup_bars gfree is p v)) j) = bar_size (bars v j) \<and>
      bar_flags (bars (snd (cleanup_bars gfree is p v)) j) = bar_flags (bars v j))"
proof (induction "is" arbitrary: p v)
  case (Cons i "is")
  let ?w = "set_bar v i (snd (pciem_cleanup_bar gfree p (bars v i)))"
  have "bars_only v (snd (cleanup_bars gfree is (fst (pciem_cleanup_bar gfree p (bars v i))) ?w))"
    using Cons bars_only_trans [OF bars_only_set] by blast
  then show ?case using Cons by (simp add: split_beta cleanup_bar_fields)
qed simp

lemma cleanup_bars_clear:
  assumes "(\<forall>j. allocated_res (bars v j) \<noteq> None \<longrightarrow> mem_owned (bars v j))"
  shows "(\<forall>j\<in>set is. carved_start (bars (snd (cleanup_bars gfree is p v)) j) = 0 \<and>
      allocated_res (bars (snd (cleanup_bars gfree is p v)) j) = None) \<and>
    (\<forall>j. (carved_start (bars v j) = 0 \<longrightarrow> carved_start (bars (snd (cleanup_bars gfree is p v)) j) = 0) \<and>
      (allocated_res (bars v j) = None \<longrightarrow> allocated_res (bars (snd (cleanup_bars gfree is p v)) j) = None))"
  using assms
proof (induction "is" arbitrary: p v)
  case (Cons i "is")
  let ?b = "snd (pciem_cleanup_bar gfree p (bars v i))"
  let ?w = "set_bar v i ?b"
  have "\<forall>j. allocated_res (bars ?w j) \<noteq> None \<longrightarrow> mem_owned (bars ?w j)"
    using Cons(2) cleanup_bar_fields(4) [of "bars v i" gfree p] by simp
  note IH = Cons(1) [OF this, of "fst (pciem_cleanup_bar gfree p (bars v i))"]
  have own: "carved_start ?b = 0" "allocated_res ?b = None"
    using Cons(2) cleanup_bar_fields(1,4) by blast+
  let ?r = "snd (cleanup_bars gfree is (fst (pciem_cleanup_bar gfree p (bars v i))) ?w)"
  have r: "snd (cleanup_bars gfree (i # is) p v) = ?r" by (simp add: split_beta)
  have zero: "carved_start (bars v j) = 0 \<or> j = i \<Longrightarrow> carved_start (bars ?r j) = 0" for j
    using IH own by (cases "j = i") auto
  have none: "allocated_res (bars v j) = None \<or> j = i \<Longrightarrow> allocated_res (bars ?r j) = None" for j
    using IH own by (cases "j = i") auto
  show ?case unfolding r using IH zero none by auto
qed simp

subsection \<open>The two bus modes\<close>

lemma place_bars_cong: "bars v = bars w \<Longrightarrow> bars (place_bars is v) = bars (place_bars is w)" for v :: "'a rc_bars_scheme"
proof (induction "is" arbitrary: v w)
  case (Cons i "is")
  have "bars (place_bar i v) = bars (place_bar i w)" using Cons(2) by (intro ext) (simp add: place_bar_bars)
  moreover have "upper_half v i = upper_half w i" using Cons(2) by (simp add: upper_half_def prev_bar_def)
  ultimately show ?case using Cons by simp
qed simp

lemma bars_only_dev:
  fixes v v' :: "'a rc_dev_scheme"
  assumes "bars_only v v'"
  shows "cfg v' = cfg v" "ext_cfg v' = ext_cfg v" "cap_mgr v' = cap_mgr v" "detaching v' = detaching v"
    "rc_id v' = rc_id v" "func_index v' = func_index v" "rc_mode v' = rc_mode v" "pciem_pdev v' = pciem_pdev v"
    "root_bus v' = root_bus v" "original_ops v' = original_ops v" "hj_bus v' = hj_bus v"
    "bridge_priv v' = bridge_priv v" "siblings v' = siblings v" "hj_slot v' = hj_slot v"
    "activated v' = activated v" "p2p_mgr v' = p2p_mgr v"
  by (subst assms [unfolded bars_only_def], simp)+

lemmas place_frame = bars_only_dev [OF place_bars_frame [THEN conjunct1]] bars_only_dev [OF size_registers_only]

lemma free_busnr_free: "free_busnr taken n = Some m \<Longrightarrow> \<not> taken m"
proof (induction taken n rule: free_busnr.induct)
  case (1 taken n)
  then show ?case by (simp add: free_busnr.simps [of taken n] split: if_splits)
qed

text \<open>
  What a successful bus initialisation of function 0 leaves: its registers placed, its device there,
  and a host that the removal of the root bus, or putting back the operations, restores.
\<close>

lemma bus_resources_frame: "bars_only v (fst (bus_resources is v rs))"
proof (induction "is" v rs rule: bus_resources.induct)
  case (2 i "is" v rs)
  then show ?case using bars_only_trans [OF bars_only_place [of v i]]
    by (cases "bar_size (bars v i) > 0 \<and> allocated_res (bars v i) \<noteq> None")
      (auto simp del: fun_upd_apply not_None_eq)
qed simp

lemma virtual_root_ok:
  assumes "pciem_init_virtual_root_mode env h v = (Inr (), h', v')" and "func_index v = 0"
    and "\<forall>j\<in>set all_bars. allocated_res (bars v j) \<noteq> None \<longleftrightarrow> active v j"
  shows "bars v' = bars (place_bars all_bars (size_registers (sized_regs env 0) v))" "cfg v' = cfg v" "ext_cfg v' = ext_cfg v" "cap_mgr v' = cap_mgr v"
    "detaching v' = detaching v" "rc_mode v' = rc_mode v" "pciem_pdev v' \<noteq> None"
    "\<exists>b. root_bus v' = Some b \<and> root_buses h' b \<noteq> None \<and> remove_root_bus b h' = h"
proof -
  obtain b where b: "free_busnr (bus_exists env h) 1 = Some b"
    using assms(1) by (cases "free_busnr (bus_exists env h) 1") (auto simp: pciem_init_virtual_root_mode_def)
  define funcs where "funcs = (\<lambda>_. None)(func_index v := Some (rc_id v))"
  define v1 where "v1 = v\<lparr>bridge_priv := Some b, intx_domain := True,
     intx_virq := (\<lambda>i. if i < 4 then irq_mapping env i else intx_virq v i)\<rparr>"
  define v2 where "v2 = (size_registers (sized_regs env 0) v1)\<lparr>root_bus := Some b\<rparr>"
  note f1 = bars_only_dev [OF size_registers_only [of v1 "sized_regs env 0"]]
  obtain v3 rs where v3: "bus_resources all_bars v2 Map.empty = (v3, rs)"
    by (cases "bus_resources all_bars v2 Map.empty")
  have dev: "enumerates env funcs 0"
    using assms(1,2) b by (auto simp: pciem_init_virtual_root_mode_def funcs_def Let_def split: if_splits prod.splits)
  have v': "v' = v3\<lparr>pciem_pdev := Some \<lparr>pd_bus = b, pd_devfn = 0, pd_resources = rs\<rparr>, assigned_busnr := b\<rparr>"
      "h' = h\<lparr>root_buses := (root_buses h)(b := Some \<lparr>rb_funcs = funcs, rb_devs = enumerates env funcs\<rparr>)\<rparr>"
    using assms(1,2) b dev v3
    by (auto simp: pciem_init_virtual_root_mode_def pciem_bus_init_resources_def funcs_def v2_def v1_def Let_def split: if_splits)
  have "bars_only v2 v3" using bus_resources_frame [of v2 all_bars Map.empty] v3 by simp
  note f = bars_only_dev [OF this]
  have "upper_half v2 j = upper_half v j" for j by (simp add: upper_half_def prev_bar_def v2_def v1_def is_64_def split: option.split)
  then have "active v2 j = active v j" for j by (simp add: active_def v2_def v1_def)
  then have "v3 = place_bars all_bars v2"
    using bus_resources_place [of all_bars v2 Map.empty] v3 assms(3) by (simp add: v2_def v1_def)
  moreover have "bars v2 = bars (size_registers (sized_regs env 0) v)"
    using size_registers_cong [of v1 v] by (simp add: v2_def v1_def)
  ultimately show "bars v' = bars (place_bars all_bars (size_registers (sized_regs env 0) v))"
    using place_bars_cong by (simp add: v')
  show "cfg v' = cfg v" "ext_cfg v' = ext_cfg v" "cap_mgr v' = cap_mgr v" "detaching v' = detaching v"
    "rc_mode v' = rc_mode v" "pciem_pdev v' \<noteq> None"
    by (simp_all add: v' f) (simp_all add: v2_def f1, simp_all add: v1_def)
  have "root_buses h b = None" using free_busnr_free [OF b] by (simp add: bus_exists_def)
  then have "remove_root_bus b h' = h" by (simp add: v' remove_root_bus_def fun_upd_idem)
  then show "\<exists>b. root_bus v' = Some b \<and> root_buses h' b \<noteq> None \<and> remove_root_bus b h' = h"
    by (intro exI [of _ b]) (simp add: v' f, simp add: v2_def)
qed

lemma attach_ok:
  assumes "pciem_init_attach_to_host_mode env h v = (Inr (), h', v')"
  shows "bars v' = bars (size_registers (sized_regs env 0) (place_bars all_bars v))" "cfg v' = cfg v" "ext_cfg v' = ext_cfg v" "cap_mgr v' = cap_mgr v"
    "detaching v' = detaching v" "rc_mode v' = rc_mode v" "pciem_pdev v' \<noteq> None" "root_bus v' \<noteq> None"
    "original_ops v' = Some (busops h)" "h' = h\<lparr>busops := Proxy_of (rc_id v)\<rparr>" "func_index v = 0"
proof -
  obtain bus slot where bs: "pciem_find_suitable_root_bus env = Some bus"
      "pciem_find_free_slot (read_dword env) (Some bus) = Inr slot" "func_index v = 0"
    using assms by (auto simp: pciem_init_attach_to_host_mode_def split: option.splits sum.splits if_splits)
  define v1 where "v1 = v\<lparr>hj_bus := Some bus, hj_slot := slot, original_ops := Some (busops h),
      siblings := (siblings v)(0 := Some (rc_id v))\<rparr>"
  let ?v2 = "size_registers (sized_regs env 0) (place_bars all_bars v1)"
  note f1 = bars_only_dev [OF size_registers_only [of "place_bars all_bars v1" "sized_regs env 0"]]
  have r: "v' = ?v2\<lparr>pciem_pdev := Some \<lparr>pd_bus = bus, pd_devfn = 8 * slot, pd_resources = host_resources ?v2\<rparr>,
        root_bus := Some bus\<rparr>"
      "h' = h\<lparr>busops := Proxy_of (rc_id v)\<rparr>"
    using assms bs by (auto simp: pciem_init_attach_to_host_mode_def v1_def Let_def split: if_splits)
  show "h' = h\<lparr>busops := Proxy_of (rc_id v)\<rparr>" "func_index v = 0" using r bs by simp_all
  have "bars (place_bars all_bars v1) = bars (place_bars all_bars v)"
    using place_bars_cong [of v1 v all_bars] by (simp add: v1_def)
  moreover have "detaching (place_bars all_bars v1) = detaching (place_bars all_bars v)" by (simp add: place_frame) (simp add: v1_def)
  ultimately show "bars v' = bars (size_registers (sized_regs env 0) (place_bars all_bars v))"
    using size_registers_cong [of "place_bars all_bars v1" "place_bars all_bars v"] by (simp add: r)
  show "cfg v' = cfg v" "ext_cfg v' = ext_cfg v" "cap_mgr v' = cap_mgr v"
    "detaching v' = detaching v" "rc_mode v' = rc_mode v" "pciem_pdev v' \<noteq> None" "root_bus v' \<noteq> None"
    "original_ops v' = Some (busops h)"
    by (simp_all add: r f1 place_frame) (simp_all add: v1_def)
qed

subsection \<open>Complete initialisation\<close>

definition init_start :: "dev_env \<Rightarrow> rc_dev \<Rightarrow> rc_dev" where
  "init_start env v = v\<lparr>shared_pdev := True,
     p2p_mgr := snd (pciem_p2p_init (p2p_mem env) (p2p_answers env) (p2p_param env) (p2p_mgr v))\<rparr>"

lemma init_start_simps [simp]:
  "bars (init_start env v) = bars v" "cfg (init_start env v) = cfg v" "ext_cfg (init_start env v) = ext_cfg v"
  "cap_mgr (init_start env v) = cap_mgr v" "detaching (init_start env v) = detaching v"
  "func_index (init_start env v) = func_index v" "rc_mode (init_start env v) = rc_mode v"
  "rc_id (init_start env v) = rc_id v" "root_bus (init_start env v) = root_bus v"
  "original_ops (init_start env v) = original_ops v" "hj_bus (init_start env v) = hj_bus v"
  "active (init_start env v) i = active v i" "pciem_pdev (init_start env v) = pciem_pdev v"
  by (simp_all add: init_start_def active_def upper_half_def prev_bar_def)

lemma complete_init_ok:
  assumes "pciem_complete_init env gfree p h v = (Inr (), p', h', v')" "unbacked v"
  shows "p' = p \<and> (\<exists>v2. bus_init env h v2 = (Inr (), h', v') \<and> bars_only (init_start env v) v2 \<and> statics_eq v v2 \<and>
    (\<forall>i<PCI_STD_NUM_BARS. active v i \<longrightarrow> backed v2 i) \<and>
    (\<forall>j\<in>set all_bars. allocated_res (bars v2 j) \<noteq> None \<longleftrightarrow> active v2 j) \<and>
    (\<forall>j. allocated_res (bars v2 j) \<noteq> None \<longrightarrow> mem_owned (bars v2 j)))"
proof -
  obtain u where plat: "platform_dev env = Inr u"
    using assms(1) by (cases "platform_dev env") (auto simp: pciem_complete_init_def)
  obtain rc v2 where v2: "prepare_bars env p all_bars (init_start env v) = (rc, v2)"
    by (cases "prepare_bars env p all_bars (init_start env v)")
  have fb: "\<not> fst (fail_bars gfree e q k w) = Inr ()" for e q k w
    by (simp add: fail_bars_def split_beta)
  have fb': "fail_bars gfree e q k w = (Inr (), p', h', v') \<Longrightarrow> False" for e q k w
    using fb by (metis fst_conv)
  have init: "pciem_complete_init env gfree p h v = (case (rc, v2) of
        (Inl e, v2) \<Rightarrow> fail_bars gfree e p h v2
      | (Inr _, v2) \<Rightarrow>
          (case pciem_reserve_bars_res env v2 all_bars [] of
             Inl e \<Rightarrow> fail_bars gfree e p h v2
           | Inr ws \<Rightarrow>
               (case bus_init env h v2 of
                  (Inr _, h', v3) \<Rightarrow> (Inr (), p, h', v3)
                | (Inl e, h', v3) \<Rightarrow>
                    (let (h'', v4) = fail_device h' v3 in fail_bars gfree e p h'' v4))))"
    by (simp only: pciem_complete_init_def plat sum.case Let_def init_start_def [symmetric] v2)
  then have rc: "rc = Inr ()" and bus: "bus_init env h v2 = (Inr (), h', v')" and p: "p' = p"
    using assms(1) fb'
    by (auto split: sum.splits prod.splits)
  have own: "allocated_res (bars v2 j) \<noteq> None \<longrightarrow> mem_owned (bars v2 j)" for j
    using prepare_bars_frame [OF v2] assms(2) by (simp add: unbacked_def)
  have st: "bars_only (init_start env v) v2" "statics_eq (init_start env v) v2"
    using prepare_bars_frame [OF v2] by blast+
  then have "statics_eq v v2" by (simp add: statics_eq_def)
  moreover have ok: "if active v j then backed v2 j else allocated_res (bars v2 j) = None" if "j < PCI_STD_NUM_BARS" for j
    using prepare_bars_ok [OF v2 [unfolded rc]] assms(2) that by (simp add: unbacked_def)
  moreover have "allocated_res (bars v2 j) \<noteq> None \<longleftrightarrow> active v2 j" if "j < PCI_STD_NUM_BARS" for j
    using ok [OF that] statics_fields(7) [OF st(2)] by (auto simp: backed_def split: if_splits)
  moreover have "active v j \<longrightarrow> backed v2 j" if "j < PCI_STD_NUM_BARS" for j
    using ok [OF that] by (auto split: if_splits)
  ultimately show ?thesis using p bus st own
    by (intro conjI exI [of _ v2]) (simp_all del: not_None_eq)
qed

text \<open>The BARs after the bus was brought up: in one mode sized and then placed, in the other placed and then sized.\<close>

definition final_bars :: "dev_env \<Rightarrow> 'a rc_dev_scheme \<Rightarrow> nat \<Rightarrow> bar_info" where
  "final_bars env v =
     (case rc_mode v of
        VIRTUAL_ROOT \<Rightarrow> bars (place_bars all_bars (size_registers (sized_regs env 0) v))
      | ATTACH_TO_HOST \<Rightarrow> bars (size_registers (sized_regs env 0) (place_bars all_bars v)))"

lemma bus_init_ok:
  assumes "bus_init env h v = (Inr (), h', v')" and "func_index v = 0"
    and "\<forall>j\<in>set all_bars. allocated_res (bars v j) \<noteq> None \<longleftrightarrow> active v j"
  shows "bars v' = final_bars env v" "cfg v' = cfg v" "ext_cfg v' = ext_cfg v" "cap_mgr v' = cap_mgr v"
    "detaching v' = detaching v" "rc_mode v' = rc_mode v" "pciem_pdev v' \<noteq> None"
proof -
  have "bars v' = final_bars env v \<and> cfg v' = cfg v \<and> ext_cfg v' = ext_cfg v \<and> cap_mgr v' = cap_mgr v \<and>
    detaching v' = detaching v \<and> rc_mode v' = rc_mode v \<and> pciem_pdev v' \<noteq> None"
  proof (cases "rc_mode v")
    case VIRTUAL_ROOT
    then have "pciem_init_virtual_root_mode env h v = (Inr (), h', v')" using assms(1) by (simp add: bus_init_def)
    from virtual_root_ok [OF this assms(2,3)] VIRTUAL_ROOT show ?thesis by (simp add: final_bars_def)
  next
    case ATTACH_TO_HOST
    then have "pciem_init_attach_to_host_mode env h v = (Inr (), h', v')" using assms(1) by (simp add: bus_init_def)
    from attach_ok [OF this] ATTACH_TO_HOST show ?thesis by (simp add: final_bars_def)
  qed
  then show "bars v' = final_bars env v" "cfg v' = cfg v" "ext_cfg v' = ext_cfg v" "cap_mgr v' = cap_mgr v"
    "detaching v' = detaching v" "rc_mode v' = rc_mode v" "pciem_pdev v' \<noteq> None" by blast+
qed

text \<open>What is read from a register through its sizing.\<close>

lemma read_low:
  "bar_size (bars v i) \<noteq> 0 \<Longrightarrow> pciem_read_bar_address v i = base_addr_val (bars v i) OR (bar_flags (bars v i) AND 0xF)"
  by (simp add: pciem_read_bar_address_def Let_def PCI_BASE_ADDRESS_MEM_MASK_def)

lemma read_high:
  "even i \<Longrightarrow> is_64 (bars v i) \<Longrightarrow> bar_size (bars v (i + 1)) = 0 \<Longrightarrow>
    pciem_read_bar_address v (i + 1) = base_addr_val (bars v (i + 1))"
  by (simp add: pciem_read_bar_address_def Let_def prev_of_odd del: One_nat_def Suc_eq_plus1_left add_2_eq_Suc')

text \<open>An address the register can hold.\<close>

definition aligned_bar :: "bar_info \<Rightarrow> bool" where
  "aligned_bar b \<longleftrightarrow> carved_start b AND (bar_size b - 1) = 0 \<and> carved_start b AND 0xF = 0"

definition low_mask :: "bar_info \<Rightarrow> u32" where
  "low_mask b = size_mask (bar_size b) AND
     (if bar_flags b AND PCI_BASE_ADDRESS_SPACE_IO \<noteq> 0 then PCI_BASE_ADDRESS_IO_MASK else PCI_BASE_ADDRESS_MEM_MASK)"

lemma bit_nibble: "bit (0xF :: 'a::len word) n \<longleftrightarrow> n < 4 \<and> n < LENGTH('a)"
  using bit_mask_iff [where 'a = "'a word", of 4 n] by (auto simp: mask_eq_exp_minus_1)

lemma bit_pair: "bit (0x3 :: 'a::len word) n \<longleftrightarrow> n < 2 \<and> n < LENGTH('a)"
  using bit_mask_iff [where 'a = "'a word", of 2 n] by (auto simp: mask_eq_exp_minus_1)

lemma and_zero_bits: "(a :: 'a::len word) AND b = 0 \<Longrightarrow> bit a n \<Longrightarrow> \<not> bit b n"
  by (metis bit_and_iff bit_0_eq bot_apply bot_bool_def)

lemma low_mask_keeps:
  assumes "aligned_bar b"
  shows "((ucast (carved_start b) OR (bar_flags b AND 0xF)) AND low_mask b) OR (bar_flags b AND 0xF) =
    ucast (carved_start b) OR (bar_flags b AND 0xF)"
proof (rule bit_word_eqI)
  fix n :: nat
  assume n: "n < LENGTH(32)"
  have masks: "bit PCI_BASE_ADDRESS_IO_MASK n \<longleftrightarrow> \<not> n < 2" "bit PCI_BASE_ADDRESS_MEM_MASK n \<longleftrightarrow> \<not> n < 4"
    unfolding PCI_BASE_ADDRESS_IO_MASK_def PCI_BASE_ADDRESS_MEM_MASK_def bit_not_iff bit_nibble bit_pair
    using n by (auto simp: possible_bit_def)
  have "bit (carved_start b) n \<Longrightarrow> \<not> bit (bar_size b - 1) n \<and> \<not> n < 4"
    using assms n and_zero_bits [of "carved_start b" "bar_size b - 1" n] and_zero_bits [of "carved_start b" "0xF" n]
      bit_nibble [where 'a = 64, of n]
    by (simp add: aligned_bar_def)
  then show "bit (((ucast (carved_start b) OR (bar_flags b AND 0xF)) AND low_mask b) OR (bar_flags b AND 0xF)) n =
      bit (ucast (carved_start b) OR (bar_flags b AND 0xF) :: u32) n"
    using n masks bit_nibble [where 'a = 32, of n]
    by (auto simp: low_mask_def size_mask_def bit_and_iff bit_or_iff bit_not_iff bit_unsigned_iff)
qed

lemma size_register_other:
  assumes "j \<noteq> i"
  shows "bars (size_register i v) j = bars v j"
proof -
  have "bars (snd (pciem_write_bar_address v i x)) j = bars v j" for v :: "'a rc_bars_scheme" and x
    using write_bar_keeps(5) [of v i x _ _ j] assms by (cases "pciem_write_bar_address v i x") simp
  then show ?thesis by (simp add: size_register_def)
qed

lemma size_register_low:
  assumes "bar_size (bars v i) \<noteq> 0" "aligned_bar (bars v i)" "i < PCI_STD_NUM_BARS"
    and "pciem_read_bar_address v i = ucast (carved_start (bars v i)) OR (bar_flags (bars v i) AND 0xF)"
  shows "pciem_read_bar_address (size_register r v) i = pciem_read_bar_address v i"
proof (cases "r = i \<and> \<not> detaching v")
  case True
  then have "base_addr_val (bars (size_register r v) i) = pciem_read_bar_address v i AND low_mask (bars v i)"
    using assms(1,3) by (simp add: size_register_def pciem_write_bar_address_def low_mask_def Let_def is_64_def)
  moreover have "bar_size (bars (size_register r v) i) = bar_size (bars v i)" "bar_flags (bars (size_register r v) i) = bar_flags (bars v i)"
    using size_registers_fields(1,2) [of "[r]" v i] by simp_all
  ultimately show ?thesis
    using assms(1) low_mask_keeps [OF assms(2)] by (simp add: read_low [of "size_register r v"] assms(4))
next
  case False
  then have "bars (size_register r v) i = bars v i"
    using size_register_other [of i r v] by (cases "r = i") (simp_all add: size_register_def)
  with assms(1) show ?thesis by (simp add: read_low)
qed

lemma size_registers_low:
  assumes "bar_size (bars v i) \<noteq> 0" "aligned_bar (bars v i)" "i < PCI_STD_NUM_BARS"
    and "pciem_read_bar_address v i = ucast (carved_start (bars v i)) OR (bar_flags (bars v i) AND 0xF)"
  shows "pciem_read_bar_address (size_registers rs v) i = pciem_read_bar_address v i"
  using assms
proof (induction rs arbitrary: v)
  case (Cons r rs)
  note f = size_registers_fields [of "[r]" v i, simplified]
  have "aligned_bar (bars (size_register r v) i)" using Cons.prems(2) f by (simp add: aligned_bar_def)
  with Cons.IH [of "size_register r v"] Cons.prems size_register_low [OF Cons.prems, of r] f show ?case by simp
qed simp

definition high_mask :: "bar_info \<Rightarrow> u32" where
  "high_mask b = (if bar_size b < 2 ^ 32 then 0 else size_mask_high (bar_size b))"

lemma write_high:
  assumes "even i" "is_64 (bars v i)" "bar_size (bars v (i + 1)) = 0"
  shows "snd (pciem_write_bar_address v (i + 1) x) =
    set_bar v (i + 1) ((bars v (i + 1))\<lparr>base_addr_val := x AND high_mask (bars v i)\<rparr>)"
  using assms by (simp add: pciem_write_bar_address_def high_mask_def Let_def prev_of_odd
      del: One_nat_def Suc_eq_plus1_left add_2_eq_Suc')

lemma size_registers_high:
  assumes "even i" "is_64 (bars v i)" "bar_size (bars v (i + 1)) = 0" "i + 1 < PCI_STD_NUM_BARS" "\<not> detaching v"
  shows "pciem_read_bar_address (size_registers rs v) (i + 1) =
    (if i + 1 \<in> set rs then pciem_read_bar_address v (i + 1) AND high_mask (bars v i) else pciem_read_bar_address v (i + 1))"
  using assms
proof (induction rs arbitrary: v)
  case (Cons r rs)
  let ?w = "size_register r v"
  note f = size_registers_fields [of "[r]" v, simplified]
  have w: "is_64 (bars ?w i)" "bar_size (bars ?w (i + 1)) = 0" "\<not> detaching ?w" "high_mask (bars ?w i) = high_mask (bars v i)"
    using Cons.prems f size_registers_detaching [of "[r]" v] by (simp_all add: is_64_def high_mask_def)
  have "pciem_read_bar_address ?w (i + 1) =
      (if r = i + 1 then pciem_read_bar_address v (i + 1) AND high_mask (bars v i) else pciem_read_bar_address v (i + 1))"
  proof (cases "r = i + 1")
    case True
    then have "base_addr_val (bars ?w (i + 1)) = pciem_read_bar_address v (i + 1) AND high_mask (bars v i)"
      using Cons.prems write_high [of i v "- 1"]
        write_high [of i "snd (pciem_write_bar_address v (i + 1) (- 1))" "pciem_read_bar_address v (i + 1)"]
      by (simp add: size_register_def)
    with True read_high [OF Cons.prems(1) w(1,2)] show ?thesis by simp
  next
    case False
    then have "bars ?w (i + 1) = bars v (i + 1)" using size_register_other by metis
    with False read_high [OF Cons.prems(1) w(1,2)] read_high [OF Cons.prems(1-3)] show ?thesis by simp
  qed
  note rd = this
  note IH = Cons.IH [OF Cons.prems(1) w(1,2) Cons.prems(4) w(3)]
  show ?case unfolding size_registers.simps IH rd w(4) by (auto simp: and.assoc)
qed simp

lemma read_bars: "bars v = bars w \<Longrightarrow> pciem_read_bar_address v i = pciem_read_bar_address w i"
  by (simp add: pciem_read_bar_address_def prev_bar_def cong: if_cong)

lemma placed_reads:
  assumes "placed v i" "active v i" "i < PCI_STD_NUM_BARS"
  shows "pciem_read_bar_address v i = ucast (carved_start (bars v i)) OR (bar_flags (bars v i) AND 0xF)"
    and "even i \<Longrightarrow> is_64 (bars v i) \<Longrightarrow> bar_size (bars v (i + 1)) = 0 \<Longrightarrow>
      pciem_read_bar_address v (i + 1) = ucast (drop_bit 32 (carved_start (bars v i)))"
  using assms read_high [of i v] by (simp_all add: read_low placed_def active_def)

lemma init_registers:
  assumes "pciem_complete_init env gfree p h v = (Inr (), p', h', v')" "unbacked v" "func_index v = 0"
    and "i < PCI_STD_NUM_BARS" "active v i" "conf_ok v" "aligned_bar (bars v i)"
  shows "statics_eq v v'" "conf_ok v'"
    and "pciem_read_bar_address v' i = ucast (carved_start (bars v i)) OR (bar_flags (bars v i) AND 0xF)"
    and "even i \<Longrightarrow> is_64 (bars v i) \<Longrightarrow> bar_size (bars v (i + 1)) = 0 \<Longrightarrow>
      pciem_read_bar_address v' (i + 1) = ucast (drop_bit 32 (carved_start (bars v i))) AND
        (if rc_mode v = ATTACH_TO_HOST \<and> i + 1 \<in> set (sized_regs env 0) then high_mask (bars v i) else - 1)"
proof -
  obtain v2 where v2: "bus_init env h v2 = (Inr (), h', v')" "bars_only (init_start env v) v2" "statics_eq v v2"
    "\<forall>i<PCI_STD_NUM_BARS. active v i \<longrightarrow> backed v2 i"
    "\<forall>j\<in>set all_bars. allocated_res (bars v2 j) \<noteq> None \<longleftrightarrow> active v2 j"
    using complete_init_ok [OF assms(1,2)] by blast
  note f = bars_only_dev [OF v2(2)]
  have f0: "func_index v2 = 0" using f assms(3) by simp
  note b = bus_init_ok [OF v2(1) f0 v2(5)]
  show ok: "conf_ok v'"
    using assms(6) b f by (simp add: conf_ok_def caps_inv_def caps_fit_def)
  let ?rs = "sized_regs env 0"
  have st: "statics_eq v (place_bars all_bars w)" if "statics_eq v w" for w :: rc_dev
    using statics_eq_trans [OF that] place_bars_frame by blast
  have placed: "placed (place_bars all_bars w) i" if "statics_eq v w" "\<forall>j. backed w j = backed v2 j" for w :: rc_dev
  proof -
    have act: "active w j = active v j" for j using statics_fields(7) [OF that(1)] .
    have "\<forall>j<0 + length all_bars. active w j \<longrightarrow> placed (place_bars all_bars w) j"
      using v2(4) that(2) by (intro place_bars_placed) (simp_all add: act)
    then show ?thesis using assms(4,5) act by simp
  qed
  have "statics_eq v v' \<and> pciem_read_bar_address v' i = ucast (carved_start (bars v i)) OR (bar_flags (bars v i) AND 0xF) \<and>
    (even i \<and> is_64 (bars v i) \<and> bar_size (bars v (i + 1)) = 0 \<longrightarrow>
      pciem_read_bar_address v' (i + 1) = ucast (drop_bit 32 (carved_start (bars v i))) AND
        (if rc_mode v = ATTACH_TO_HOST \<and> i + 1 \<in> set ?rs then high_mask (bars v i) else - 1))"
  proof (cases "rc_mode v")
    case VIRTUAL_ROOT
    define w where "w = place_bars all_bars (size_registers ?rs v2)"
    have s1: "statics_eq v (size_registers ?rs v2)" using statics_eq_trans [OF v2(3)] by simp
    have w: "placed w i" "statics_eq v w" using placed [OF s1] st [OF s1] by (simp_all add: w_def)
    have "bars v' = bars w" using b(1) f VIRTUAL_ROOT by (simp add: final_bars_def w_def)
    moreover have "active w i" using statics_fields(7) [OF w(2)] assms(5) by simp
    ultimately show ?thesis
      using placed_reads [OF w(1) _ assms(4)] w(2) read_bars [of v' w] VIRTUAL_ROOT statics_fields [OF w(2)]
      by (simp add: statics_eq_def)
  next
    case ATTACH_TO_HOST
    define w where "w = place_bars all_bars v2"
    have w: "placed w i" "statics_eq v w" using placed [OF v2(3)] st [OF v2(3)] by (simp_all add: w_def)
    note wf = statics_fields [OF w(2)]
    have act: "active w i" using wf(7) assms(5) by simp
    have det: "\<not> detaching w" using f(4) assms(6) by (simp add: w_def place_frame conf_ok_def)
    have eq: "bars v' = bars (size_registers ?rs w)" using b(1) f ATTACH_TO_HOST by (simp add: final_bars_def w_def)
    have al: "aligned_bar (bars w i)" using assms(7) wf by (simp add: aligned_bar_def)
    have "pciem_read_bar_address (size_registers ?rs w) i = pciem_read_bar_address w i"
      using size_registers_low [OF _ al assms(4)] placed_reads(1) [OF w(1) act assms(4)] act by (simp add: active_def)
    moreover have "pciem_read_bar_address (size_registers ?rs w) (i + 1) =
        (if i + 1 \<in> set ?rs then pciem_read_bar_address w (i + 1) AND high_mask (bars w i) else pciem_read_bar_address w (i + 1))"
      if "even i" "is_64 (bars v i)" "bar_size (bars v (i + 1)) = 0"
    proof (rule size_registers_high [OF that(1) _ _ _ det])
      show "i + 1 < PCI_STD_NUM_BARS"
        using that(1) assms(4) by (auto simp: PCI_STD_NUM_BARS_def elim!: less_SucE evenE)
    qed (use that wf in simp_all)
    moreover have "statics_eq v v'" using w(2) eq by (simp add: statics_eq_def)
    moreover have "high_mask (bars w i) = high_mask (bars v i)" using wf by (simp add: high_mask_def)
    ultimately show ?thesis
      using placed_reads [OF w(1) act assms(4)] read_bars [OF eq] ATTACH_TO_HOST wf by simp
  qed
  then show "statics_eq v v'" "pciem_read_bar_address v' i = ucast (carved_start (bars v i)) OR (bar_flags (bars v i) AND 0xF)"
    and "even i \<Longrightarrow> is_64 (bars v i) \<Longrightarrow> bar_size (bars v (i + 1)) = 0 \<Longrightarrow>
      pciem_read_bar_address v' (i + 1) = ucast (drop_bit 32 (carved_start (bars v i))) AND
        (if rc_mode v = ATTACH_TO_HOST \<and> i + 1 \<in> set (sized_regs env 0) then high_mask (bars v i) else - 1)"
    by blast+
qed

lemma high_mask_keeps:
  assumes "aligned_bar b" "2 ^ 32 \<le> bar_size b"
  shows "ucast (drop_bit 32 (carved_start b)) AND high_mask b = ucast (drop_bit 32 (carved_start b))"
proof (rule bit_word_eqI)
  fix n :: nat
  assume "n < LENGTH(32)"
  then show "bit (ucast (drop_bit 32 (carved_start b)) AND high_mask b) n = bit (ucast (drop_bit 32 (carved_start b)) :: u32) n"
    using assms and_zero_bits [of "carved_start b" "bar_size b - 1" "32 + n"]
    by (auto simp: high_mask_def size_mask_high_def aligned_bar_def bit_simps not_less [symmetric])
qed

text \<open>
  C18. After a successful initialisation of function 0, in either bus mode and whatever registers the scan of
  the PCI core sizes, the host reads the address of its carved memory from the address register of every
  BAR whose memory is aligned to its size: the low half with the flag bits, and the high half from the next
  register of a 64-bit BAR. Except: in the attached mode the registers are written before the scan, and
  sizing the high half of a BAR below 4 GiB leaves zero in it.
\<close>

theorem bars_found_by_host:
  assumes "pciem_complete_init env gfree p h v = (Inr (), p', h', v')" and "unbacked v" and "func_index v = 0"
    and "conf_ok v" and "i < PCI_STD_NUM_BARS" and "active v i" and "aligned_bar (bars v i)"
  shows "bar_rd i v' = ucast (carved_start (bars v i)) OR (bar_flags (bars v i) AND 0xF) \<and>
    (even i \<and> is_64 (bars v i) \<and> bar_size (bars v (i + 1)) = 0 \<longrightarrow>
       bar_rd (i + 1) v' =
         (if rc_mode v = ATTACH_TO_HOST \<and> i + 1 \<in> set (sized_regs env 0) \<and> bar_size (bars v i) < 2 ^ 32 then 0
          else ucast (drop_bit 32 (carved_start (bars v i)))))"
proof -
  note r = init_registers [OF assms(1-3,5,6,4,7)]
  have "i + 1 < PCI_STD_NUM_BARS" if "even i" using that assms(5) by (auto simp: PCI_STD_NUM_BARS_def elim!: less_SucE evenE)
  then show ?thesis
    using r(3,4) assms(5) high_mask_keeps [OF assms(7)]
    by (auto simp: bar_access(1) [OF r(2)] high_mask_def not_less simp del: One_nat_def split: if_splits)
qed

text \<open>A function with one 64-bit BAR, on a host where every step succeeds.\<close>

definition sure_env :: dev_env where
  "sure_env = \<lparr>platform_dev = Inr (), p2p_mem = True, p2p_answers = env0, p2p_param = None,
     res_alloc = (\<lambda>_. True), name_alloc = (\<lambda>_. True), insert_resource = (\<lambda>_ _. True), entry_alloc = (\<lambda>_. True),
     other_bus = (\<lambda>_. False), bridge_alloc = True, intx_create = True, irq_mapping = (\<lambda>i. 40 + int i),
     scan_bridge = True, bridge_bus = True, enumerates = (\<lambda>fs f. fs 0 \<noteq> None \<and> fs f \<noteq> None),
     bus_zero = Some 0, pci_devices = [], read_dword = (\<lambda>_ _. (True, 0xFFFFFFFF)), scan_single = (\<lambda>_ _. True), sized_regs = (\<lambda>_. all_bars),
     driver_bound = False\<rparr>"

definition host0 :: host where
  "host0 = \<lparr>busops = Host_ops, root_buses = Map.empty\<rparr>"

definition dev0 :: rc_dev where
  "dev0 = (case pciem_alloc_root_complex True 1 of Inr v \<Rightarrow> v | Inl _ \<Rightarrow> undefined)"

definition dev1 :: rc_dev where
  "dev1 = set_bar dev0 0 (bar0\<lparr>bar_size := 2 ^ 16, bar_flags := 0xC, carved_start := 2 ^ 32, carved_end := 2 ^ 32 + 0xFFFF\<rparr>)"

lemma dev1_facts:
  "unbacked dev1" "func_index dev1 = 0" "conf_ok dev1" "active dev1 0" "root_bus dev1 = None" "original_ops dev1 = None"
  by (simp_all add: dev1_def dev0_def pciem_alloc_root_complex_def unbacked_def bar0_def conf_ok_def caps_inv_def
      caps_fit_def active_def upper_half_def prev_bar_def set_bar_def)

lemma prepare_bars_sure:
  assumes "\<forall>i\<in>set is. active v i \<longrightarrow> carved_start (bars v i) \<noteq> 0"
  shows "fst (prepare_bars sure_env p is v) = Inr ()"
  using assms
proof (induction "is" arbitrary: v)
  case (Cons i "is")
  obtain rc v1 where one: "prepare_bar sure_env p i v = (rc, v1)" by (cases "prepare_bar sure_env p i v")
  have rc: "rc = Inr ()"
    using one Cons(2) by (auto simp: prepare_bar_def Let_def active_def sure_env_def pciem_pool_insert_def split: if_splits)
  have "statics_eq v v1" using prepare_bar_frame [OF one] by blast
  note st = statics_fields [OF this]
  have "fst (prepare_bars sure_env p is v1) = Inr ()" using Cons st by simp
  then show ?case using one rc by simp
qed simp

lemma dev1_init: "\<exists>h' v'. pciem_complete_init sure_env gfree p host0 dev1 = (Inr (), p, h', v')"
proof -
  have b: "bars dev1 = (\<lambda>_. bar0)(0 := bar0\<lparr>bar_size := 2 ^ 16, bar_flags := 0xC, carved_start := 2 ^ 32, carved_end := 2 ^ 32 + 0xFFFF\<rparr>)"
    "rc_mode dev1 = VIRTUAL_ROOT" "func_index dev1 = 0" "rc_id dev1 = 1"
    by (simp_all add: dev1_def dev0_def pciem_alloc_root_complex_def set_bar_def)
  have busnr: "free_busnr (bus_exists sure_env host0) 1 = Some 1"
    by (simp add: free_busnr.simps bus_exists_def sure_env_def host0_def)
  have "\<forall>i\<in>set all_bars. active dev1 i \<longrightarrow> carved_start (bars dev1 i) \<noteq> 0"
    by (auto simp: active_def b bar0_def)
  then obtain v2 where prep: "prepare_bars sure_env p all_bars (init_start sure_env dev1) = (Inr (), v2)"
    using prepare_bars_sure [of all_bars "init_start sure_env dev1" p] by (metis init_start_simps(1,12) prod.collapse)
  have f: "func_index v2 = 0" "rc_mode v2 = VIRTUAL_ROOT" "rc_id v2 = 1"
    using bars_only_dev [of "init_start sure_env dev1" v2] prepare_bars_frame [OF prep] b by simp_all
  have ws: "\<exists>ws'. pciem_reserve_bars_res sure_env v2 is ws = Inr ws'" for "is" ws
    by (induction "is" arbitrary: ws) (auto simp: pciem_reserve_bar_res_def sure_env_def split: option.splits)
  obtain ws where "pciem_reserve_bars_res sure_env v2 all_bars [] = Inr ws" using ws by blast
  moreover have "\<exists>h' v'. bus_init sure_env host0 v2 = (Inr (), h', v')"
    using f busnr by (auto simp: bus_init_def pciem_init_virtual_root_mode_def Let_def sure_env_def split: prod.splits)
  ultimately show ?thesis
    using prep by (auto simp: pciem_complete_init_def init_start_def sure_env_def Let_def)
qed

theorem bars_found_by_host_witness:
  "\<exists>h' v'. pciem_complete_init sure_env (\<lambda>g _ _. g) pool0 host0 dev1 = (Inr (), pool0, h', v') \<and>
     bar_rd 0 v' = 0xC \<and> bar_rd 1 v' = 1"
proof -
  obtain h' v' where init: "pciem_complete_init sure_env (\<lambda>g _ _. g) pool0 host0 dev1 = (Inr (), pool0, h', v')"
    using dev1_init by blast
  have "bars dev1 0 = bar0\<lparr>bar_size := 2 ^ 16, bar_flags := 0xC, carved_start := 2 ^ 32, carved_end := 2 ^ 32 + 0xFFFF\<rparr>"
    "bars dev1 1 = bar0" by (simp_all add: dev1_def dev0_def pciem_alloc_root_complex_def)
  moreover have "rc_mode dev1 = VIRTUAL_ROOT" by (simp add: dev1_def dev0_def pciem_alloc_root_complex_def set_bar_def)
  moreover have "aligned_bar (bars dev1 0)" by (simp add: calculation(1) aligned_bar_def)
  ultimately show ?thesis
    using bars_found_by_host [OF init dev1_facts(1-3) _ dev1_facts(4)] init
    by (simp add: PCI_STD_NUM_BARS_def is_64_def PCI_BASE_ADDRESS_MEM_TYPE_64_def bar0_def)
qed

subsection \<open>Taking down what was brought up\<close>

definition owned :: "'a rc_bars_scheme \<Rightarrow> bool" where
  "owned v \<longleftrightarrow> (\<forall>j. allocated_res (bars v j) \<noteq> None \<longrightarrow> mem_owned (bars v j))"

text \<open>What placing registers keeps of the BARs.\<close>

definition same_memory :: "'a rc_bars_scheme \<Rightarrow> 'a rc_bars_scheme \<Rightarrow> bool" where
  "same_memory v w \<longleftrightarrow> statics_eq v w \<and> (\<forall>j. allocated_res (bars w j) = allocated_res (bars v j) \<and>
     mem_owned (bars w j) = mem_owned (bars v j))"

lemma same_memory_refl [simp]: "same_memory v v"
  by (simp add: same_memory_def)

lemma same_memory_trans: "same_memory u v \<Longrightarrow> same_memory v w \<Longrightarrow> same_memory u w"
  by (auto simp: same_memory_def intro: statics_eq_trans)

lemma same_memory_place: "same_memory v (place_bar i v)"
  by (simp add: same_memory_def place_bar_bars)

lemma same_memory_bars: "bars w = bars v \<Longrightarrow> same_memory v w"
  by (simp add: same_memory_def statics_eq_def)

lemma same_memory_place_bars: "same_memory v (place_bars is v)"
proof (induction "is" v rule: place_bars.induct)
  case (2 i "is" v)
  then show ?case using same_memory_trans [OF same_memory_place [of v i]]
    by (cases "bar_size (bars v i) = 0 \<or> upper_half v i") simp_all
qed simp

lemma same_memory_size: "same_memory v (size_registers is v)"
  by (simp add: same_memory_def)

lemma same_memory_resources: "same_memory v (fst (bus_resources is v rs))"
proof (induction "is" v rs rule: bus_resources.induct)
  case (2 i "is" v rs)
  then show ?case using same_memory_trans [OF same_memory_place [of v i]]
    by (cases "bar_size (bars v i) > 0 \<and> allocated_res (bars v i) \<noteq> None")
      (auto simp del: fun_upd_apply not_None_eq)
qed simp

lemma same_memory_final:
  assumes "bars w = final_bars env v"
  shows "same_memory v w"
proof (cases "rc_mode v")
  case VIRTUAL_ROOT
  then have "bars w = bars (place_bars all_bars (size_registers (sized_regs env 0) v))"
    using assms by (simp add: final_bars_def)
  then show ?thesis
    by (rule same_memory_trans [OF same_memory_trans [OF same_memory_size same_memory_place_bars] same_memory_bars])
next
  case ATTACH_TO_HOST
  then have "bars w = bars (size_registers (sized_regs env 0) (place_bars all_bars v))"
    using assms by (simp add: final_bars_def)
  then show ?thesis
    by (rule same_memory_trans [OF same_memory_trans [OF same_memory_place_bars same_memory_size] same_memory_bars])
qed

lemma owned_same: "same_memory v w \<Longrightarrow> owned v \<Longrightarrow> owned w"
  by (simp add: same_memory_def owned_def)

text \<open>Cleaning up after registers were placed gives back the same memory, and nothing is left.\<close>

lemma cleanup_after:
  fixes v w :: rc_dev
  assumes "same_memory v w" "owned v"
  shows "\<exists>w'. pciem_cleanup_bars gfree p w = (fst (pciem_cleanup_bars gfree p v), w') \<and> bars_only w w' \<and>
    (\<forall>i<PCI_STD_NUM_BARS. carved_start (bars w' i) = 0 \<and> allocated_res (bars w' i) = None) \<and>
    (\<forall>i. active w' i = active v i)"
proof (intro exI conjI)
  let ?w' = "snd (pciem_cleanup_bars gfree p w)"
  have pool: "fst (pciem_cleanup_bars gfree p w) = fst (pciem_cleanup_bars gfree p v)"
    unfolding pciem_cleanup_bars_def
    by (rule cleanup_bars_pool) (use assms(1) in \<open>simp add: same_memory_def statics_eq_def\<close>)
  show "pciem_cleanup_bars gfree p w = (fst (pciem_cleanup_bars gfree p v), ?w')"
    by (simp only: pool [symmetric] prod.collapse)
  note fr = cleanup_bars_frame [of w gfree all_bars p, folded pciem_cleanup_bars_def]
  show "bars_only w ?w'" using fr by blast
  have own: "\<forall>j. allocated_res (bars w j) \<noteq> None \<longrightarrow> mem_owned (bars w j)"
    using owned_same [OF assms] by (simp add: owned_def)
  show "\<forall>i<PCI_STD_NUM_BARS. carved_start (bars ?w' i) = 0 \<and> allocated_res (bars ?w' i) = None"
    using cleanup_bars_clear [OF own, of all_bars gfree p] by (simp add: pciem_cleanup_bars_def)
  have "upper_half ?w' i = upper_half w i" for i using fr by (simp add: upper_half_def prev_bar_def is_64_def)
  moreover have "active w i = active v i" for i using assms(1) statics_fields(7) by (auto simp: same_memory_def)
  ultimately show "\<forall>i. active ?w' i = active v i" using fr by (simp add: active_def)
qed

lemma virtual_root_fail:
  assumes "pciem_init_virtual_root_mode env h v = (Inl e, h1, v1)" "root_bus v = None"
  shows "fst (fail_device h1 (v1\<lparr>rc_mode := VIRTUAL_ROOT\<rparr>)) = h" "same_memory v v1" "rc_mode v1 = rc_mode v"
proof -
  have "fst (fail_device h1 (v1\<lparr>rc_mode := VIRTUAL_ROOT\<rparr>)) = h \<and> same_memory v v1 \<and> rc_mode v1 = rc_mode v"
  proof (cases "free_busnr (bus_exists env h) 1")
    case None
    then show ?thesis using assms by (auto simp: pciem_init_virtual_root_mode_def fail_device_def)
  next
    case (Some b)
    then have "root_buses h b = None" using free_busnr_free [OF Some] by (simp add: bus_exists_def)
    then have h: "h\<lparr>root_buses := root_buses h\<rparr> = h" "(root_buses h)(b := None) = root_buses h" by (simp_all add: fun_upd_idem)
    define funcs where "funcs = (\<lambda>_. None)(func_index v := Some (rc_id v))"
    define v1' where "v1' = v\<lparr>bridge_priv := Some b, intx_domain := True,
       intx_virq := (\<lambda>i. if i < 4 then irq_mapping env i else intx_virq v i)\<rparr>"
    define vs where "vs = size_registers (sized_regs env (func_index v)) v1'"
    define v2 where "v2 = vs\<lparr>root_bus := Some b\<rparr>"
    note fs = bars_only_dev [OF size_registers_only [of v1' "sized_regs env (func_index v)"], folded vs_def]
    have vs: "same_memory v vs" "root_bus vs = root_bus v" "rc_mode vs = rc_mode v"
      using same_memory_trans [OF same_memory_bars [of v1' v] same_memory_size [of v1']] fs
      by (simp_all add: vs_def v1'_def)
    define v3 where "v3 = fst (pciem_bus_init_resources (enumerates env funcs) v2)"
    have v3: "same_memory v v3" "bars_only v2 v3"
      using same_memory_resources [of v2 all_bars Map.empty] bus_resources_frame [of v2 all_bars Map.empty]
        same_memory_trans [OF vs(1)] same_memory_trans [OF same_memory_bars [of v2 vs]]
      by (auto simp: v3_def pciem_bus_init_resources_def v2_def same_memory_bars)
    note f = bars_only_dev [OF v3(2)]
    show ?thesis
    proof (cases "bridge_alloc env \<and> intx_create env \<and> scan_bridge env \<and> bridge_bus env")
      case True
      then have r: "v1 = v3\<lparr>pciem_pdev := None\<rparr>" "h1 = h\<lparr>root_buses := (root_buses h)
          (b := Some \<lparr>rb_funcs = funcs, rb_devs = enumerates env funcs\<rparr>)\<rparr>"
        using assms Some by (auto simp: pciem_init_virtual_root_mode_def v3_def v2_def vs_def v1'_def funcs_def Let_def
            split: prod.splits if_splits)
      have "root_bus v1 = Some b" "rc_mode v1 = rc_mode v" using r(1) f vs(3) by (simp_all add: v2_def)
      moreover have "same_memory v v1" using r(1) v3(1) same_memory_trans same_memory_bars [of v1 v3] by simp
      ultimately show ?thesis using r(2) h by (simp add: fail_device_def remove_root_bus_def)
    next
      case False
      then have "h1 = h \<and> root_bus v1 = None \<and> (bars v1 = bars v \<and> rc_mode v1 = rc_mode v \<or> v1 = vs\<lparr>root_bus := None\<rparr>)"
        using assms Some by (auto simp: pciem_init_virtual_root_mode_def vs_def v1'_def Let_def split: if_splits)
      then show ?thesis
        using vs(1,3) same_memory_trans [OF vs(1) same_memory_bars [of v1 vs]] by (auto simp: fail_device_def same_memory_bars)
    qed
  qed
  then show "fst (fail_device h1 (v1\<lparr>rc_mode := VIRTUAL_ROOT\<rparr>)) = h" "same_memory v v1" "rc_mode v1 = rc_mode v"
    by blast+
qed

lemma attach_fail:
  assumes "pciem_init_attach_to_host_mode env h v = (Inl e, h1, v1)" "original_ops v = None"
  shows "fst (fail_device h1 (v1\<lparr>rc_mode := ATTACH_TO_HOST\<rparr>)) = h" "same_memory v v1" "rc_mode v1 = rc_mode v"
proof -
  have "fst (fail_device h1 (v1\<lparr>rc_mode := ATTACH_TO_HOST\<rparr>)) = h \<and> same_memory v v1 \<and> rc_mode v1 = rc_mode v"
  proof (cases "pciem_find_suitable_root_bus env = None \<or> func_index v \<noteq> 0 \<or>
      (\<exists>e. pciem_find_free_slot (read_dword env) (pciem_find_suitable_root_bus env) = Inl e)")
    case True
    then have "h1 = h \<and> v1 = v"
      using assms by (auto simp: pciem_init_attach_to_host_mode_def split: option.splits if_splits sum.splits)
    then show ?thesis using assms(2) by (auto simp: fail_device_def Let_def split: option.split)
  next
    case False
    then obtain bus slot where bs: "pciem_find_suitable_root_bus env = Some bus"
      "pciem_find_free_slot (read_dword env) (Some bus) = Inr slot" "func_index v = 0"
      by (metis (no_types) not_None_eq sum.exhaust)
    define v2 where "v2 = v\<lparr>hj_bus := Some bus, hj_slot := slot, original_ops := Some (busops h),
      siblings := (siblings v)(0 := Some (rc_id v))\<rparr>"
    have r: "v1 = size_registers (sized_regs env 0) (place_bars all_bars v2)" "h1 = h\<lparr>busops := the (original_ops v1)\<rparr>"
      using assms bs by (auto simp: pciem_init_attach_to_host_mode_def v2_def Let_def split: if_splits)
    have "original_ops v1 = Some (busops h)" "hj_bus v1 = Some bus" "rc_mode v1 = rc_mode v"
      by (simp_all add: r(1) place_frame bars_only_dev [OF size_registers_only]) (simp_all add: v2_def)
    moreover have "same_memory v v2" by (intro same_memory_bars) (simp add: v2_def)
    then have "same_memory v v1"
      unfolding r(1) using same_memory_trans [OF same_memory_trans [OF _ same_memory_place_bars] same_memory_size] by blast
    ultimately show ?thesis using r(2) by (simp add: fail_device_def)
  qed
  then show "fst (fail_device h1 (v1\<lparr>rc_mode := ATTACH_TO_HOST\<rparr>)) = h" "same_memory v v1" "rc_mode v1 = rc_mode v"
    by blast+
qed

lemma bus_init_fail:
  assumes "bus_init env h v = (Inl e, h1, v1)" "root_bus v = None" "original_ops v = None"
  shows "\<exists>v2. fail_device h1 v1 = (h, v2) \<and> same_memory v v2"
proof -
  have same: "same_memory v1 (snd (fail_device h1 v1))"
    by (auto simp: fail_device_def Let_def same_memory_bars split: bus_mode.split option.split)
  show ?thesis
  proof (cases "rc_mode v")
    case VIRTUAL_ROOT
    then have "pciem_init_virtual_root_mode env h v = (Inl e, h1, v1)" using assms(1) by (simp add: bus_init_def)
    note f = virtual_root_fail [OF this assms(2)]
    have "v1\<lparr>rc_mode := VIRTUAL_ROOT\<rparr> = v1" using f(3) VIRTUAL_ROOT by simp
    then show ?thesis using f(1,2) same same_memory_trans by (metis prod.collapse)
  next
    case ATTACH_TO_HOST
    then have "pciem_init_attach_to_host_mode env h v = (Inl e, h1, v1)" using assms(1) by (simp add: bus_init_def)
    note f = attach_fail [OF this assms(3)]
    have "v1\<lparr>rc_mode := ATTACH_TO_HOST\<rparr> = v1" using f(3) ATTACH_TO_HOST by simp
    then show ?thesis using f(1,2) same same_memory_trans by (metis prod.collapse)
  qed
qed

text \<open>What the BARs of a function hold of the pool: start and length of each.\<close>

definition ranges_of :: "bar_info list \<Rightarrow> (u64 \<times> u64) list" where
  "ranges_of bs = map (\<lambda>b. (carved_start b, carved_end b - carved_start b + 1)) (filter (\<lambda>b. carved_start b \<noteq> 0) bs)"

definition carved_ranges :: "'a rc_bars_scheme \<Rightarrow> (u64 \<times> u64) list" where
  "carved_ranges v = ranges_of (map (bars v) all_bars)"

definition in_pool :: "'g mempool \<Rightarrow> u64 \<times> u64 \<Rightarrow> bool" where
  "in_pool p r \<longleftrightarrow> pool_base p \<le> fst r \<and> fst r + snd r \<le> pool_base p + pool_size p"

text \<open>The pool after these ranges were given to the free operation of its allocator.\<close>

definition after_frees :: "('g \<Rightarrow> u64 \<Rightarrow> u64 \<Rightarrow> 'g) \<Rightarrow> (u64 \<times> u64) list \<Rightarrow> 'g mempool \<Rightarrow> 'g mempool" where
  "after_frees gfree rs p = p\<lparr>gpool := map_option (\<lambda>g. foldl (\<lambda>g (a, n). gfree g a n) g rs) (gpool p)\<rparr>"

lemma cleanup_bars_frees:
  assumes "distinct is" "\<forall>r\<in>set (ranges_of (map (bars v) is)). in_pool p r"
  shows "fst (cleanup_bars gfree is p v) = after_frees gfree (ranges_of (map (bars v) is)) p"
  using assms
proof (induction "is" arbitrary: p v)
  case Nil
  show ?case by (simp add: after_frees_def ranges_of_def option.map_ident)
next
  case (Cons i "is")
  let ?b = "bars v i" and ?q = "fst (pciem_cleanup_bar gfree p (bars v i))"
  let ?w = "set_bar v i (snd (pciem_cleanup_bar gfree p (bars v i)))"
  have ranges: "ranges_of (map (bars v) (i # is)) =
      (if carved_start ?b = 0 then [] else [(carved_start ?b, carved_end ?b - carved_start ?b + 1)]) @ ranges_of (map (bars v) is)"
    by (simp add: ranges_of_def)
  have "carved_start ?b \<noteq> 0 \<Longrightarrow> in_pool p (carved_start ?b, carved_end ?b - carved_start ?b + 1)"
    using Cons.prems(2) unfolding ranges by simp
  then have q: "?q = (if carved_start ?b = 0 then p
      else p\<lparr>gpool := map_option (\<lambda>g. gfree g (carved_start ?b) (carved_end ?b - carved_start ?b + 1)) (gpool p)\<rparr>)"
    by (cases "gpool p") (auto simp: pciem_cleanup_bar_def pciem_pool_free_def in_pool_def Let_def)
  have same: "map (bars ?w) is = map (bars v) is" using Cons.prems(1) by auto
  have "in_pool ?q r = in_pool p r" for r by (simp add: q in_pool_def)
  then have "fst (cleanup_bars gfree is ?q ?w) = after_frees gfree (ranges_of (map (bars v) is)) ?q"
    using Cons.prems ranges by (intro Cons.IH [of ?w ?q, unfolded same]) simp_all
  moreover have "fst (cleanup_bars gfree (i # is) p v) = fst (cleanup_bars gfree is ?q ?w)" by (simp add: split_beta)
  ultimately show ?case
    unfolding ranges by (simp add: q after_frees_def option.map_comp comp_def)
qed

lemma pciem_cleanup_bars_frees:
  assumes "\<forall>r\<in>set (carved_ranges v). in_pool p r"
  shows "fst (pciem_cleanup_bars gfree p v) =
    after_frees gfree (carved_ranges v) p"
  using cleanup_bars_frees [of all_bars v p gfree] assms by (simp add: pciem_cleanup_bars_def carved_ranges_def)

text \<open>
  C32. Tearing down undoes a successful initialisation. The host is as it was before, root buses and
  bus operations included; every range of the pool a BAR held before it is handed to the free operation of the
  allocator, once, in the order of the BARs, and nothing else of the pool changes; the function has no device, no
  root bus and no memory left.
\<close>

theorem teardown_undoes_init:
  assumes "pciem_complete_init env gfree p h v = (Inr (), p', h', v')" and "unbacked v" and "func_index v = 0"
    and "\<forall>r\<in>set (carved_ranges v). in_pool p r"
  shows "\<exists>v''. pciem_teardown_device env' gfree p' h' v' =
      Some (after_frees gfree (carved_ranges v) p, h, v'') \<and>
    pciem_pdev v'' = None \<and> root_bus v'' = None \<and>
    (\<forall>i<PCI_STD_NUM_BARS. carved_start (bars v'' i) = 0 \<and> allocated_res (bars v'' i) = None)"
proof -
  obtain v2 where v2: "p' = p" "bus_init env h v2 = (Inr (), h', v')" "bars_only (init_start env v) v2" "statics_eq v v2"
    "\<forall>j\<in>set all_bars. allocated_res (bars v2 j) \<noteq> None \<longleftrightarrow> active v2 j"
    "\<forall>j. allocated_res (bars v2 j) \<noteq> None \<longrightarrow> mem_owned (bars v2 j)"
    using complete_init_ok [OF assms(1,2)] by blast
  have f0: "func_index v2 = 0" using bars_only_dev(6) [OF v2(3)] assms(3) by simp
  note b = bus_init_ok [OF v2(2) f0 v2(5)]
  have same: "same_memory v2 v'" using same_memory_final [OF b(1)] .
  define bus where "bus = (case root_bus v' of
      None \<Rightarrow> Some h'
    | Some b \<Rightarrow> (case rc_mode v' of
         VIRTUAL_ROOT \<Rightarrow> if root_buses h' b = None then None else Some (remove_root_bus b h')
       | ATTACH_TO_HOST \<Rightarrow> (case original_ops v' of None \<Rightarrow> Some h' | Some ops \<Rightarrow> Some (h'\<lparr>busops := ops\<rparr>))))"
  have bus: "bus = Some h"
  proof (cases "rc_mode v2")
    case VIRTUAL_ROOT
    then have "pciem_init_virtual_root_mode env h v2 = (Inr (), h', v')" using v2(2) by (simp add: bus_init_def)
    from virtual_root_ok(8) [OF this f0 v2(5)] b(6) VIRTUAL_ROOT show ?thesis by (auto simp: bus_def)
  next
    case ATTACH_TO_HOST
    then have "pciem_init_attach_to_host_mode env h v2 = (Inr (), h', v')" using v2(2) by (simp add: bus_init_def)
    from attach_ok(8-10) [OF this] b(6) ATTACH_TO_HOST show ?thesis by (auto simp: bus_def)
  qed
  define w where "w = (case pciem_pdev v' of
      None \<Rightarrow> v' | Some _ \<Rightarrow> v'\<lparr>detaching := (driver_bound env' \<or> detaching v'), pciem_pdev := None\<rparr>)\<lparr>root_bus := None\<rparr>"
  have w: "bars w = bars v'" "pciem_pdev w = None" "root_bus w = None"
    using b(7) by (auto simp: w_def)
  have "owned v2" using v2(6) by (simp add: owned_def)
  moreover have "same_memory v2 w" using same_memory_trans [OF same same_memory_bars] w(1) by metis
  ultimately obtain w' where w': "pciem_cleanup_bars gfree p w = (fst (pciem_cleanup_bars gfree p v2), w')"
    "bars_only w w'" "\<forall>i<PCI_STD_NUM_BARS. carved_start (bars w' i) = 0 \<and> allocated_res (bars w' i) = None"
    using cleanup_after [of v2 w gfree p] by blast
  have "fst (pciem_cleanup_bars gfree p v2) = fst (pciem_cleanup_bars gfree p v)"
    unfolding pciem_cleanup_bars_def by (rule cleanup_bars_pool) (use v2(4) in \<open>simp add: statics_eq_def\<close>)
  with w'(1) have "pciem_teardown_device env' gfree p' h' v' = Some (fst (pciem_cleanup_bars gfree p v), h,
      (pciem_cleanup_cap_manager w')\<lparr>intx_virq := (\<lambda>i. if i < 4 then 0 else intx_virq w' i),
         intx_domain := False, shared_pdev := False, p2p_mgr := pciem_p2p_cleanup (p2p_mgr w')\<rparr>)"
    using bus v2(1) unfolding pciem_teardown_device_def Let_def bus_def [symmetric] w_def [symmetric] by simp
  moreover have "pciem_pdev w' = None" "root_bus w' = None"
    using bars_only_dev(8,9) [OF w'(2)] w(2,3) by simp_all
  ultimately show ?thesis using w'(3) by (simp add: pciem_cleanup_cap_manager_def pciem_cleanup_bars_frees [OF assms(4)])
qed

text \<open>With an allocator that lists what it is given back.\<close>

theorem teardown_undoes_init_witness:
  "let pool = \<lparr>pool_base = 2 ^ 32, pool_size = 0x10000, gpool = Some [], res_start = 2 ^ 32, res_end = 2 ^ 32 + 0xFFFF, res_claimed = True\<rparr>;
       gfree = (\<lambda>g a n. g @ [(a, n)])
   in \<exists>h' v' v''. pciem_complete_init sure_env gfree pool host0 dev1 = (Inr (), pool, h', v') \<and>
     pciem_teardown_device sure_env gfree pool h' v' = Some (pool\<lparr>gpool := Some [(2 ^ 32, 0x10000)]\<rparr>, host0, v'') \<and>
     carved_start (bars v'' 0) = 0"
proof -
  define pool :: "(u64 \<times> u64) list mempool" where "pool = \<lparr>pool_base = 2 ^ 32, pool_size = 0x10000, gpool = Some [], res_start = 2 ^ 32,
    res_end = 2 ^ 32 + 0xFFFF, res_claimed = True\<rparr>"
  define gfree :: "(u64 \<times> u64) list \<Rightarrow> u64 \<Rightarrow> u64 \<Rightarrow> (u64 \<times> u64) list" where "gfree = (\<lambda>g a n. g @ [(a, n)])"
  obtain h' v' where init: "pciem_complete_init sure_env gfree pool host0 dev1 = (Inr (), pool, h', v')"
    using dev1_init by blast
  have "bars dev1 = (\<lambda>_. bar0)(0 := bar0\<lparr>bar_size := 2 ^ 16, bar_flags := 0xC, carved_start := 2 ^ 32, carved_end := 2 ^ 32 + 0xFFFF\<rparr>)"
    by (simp add: dev1_def dev0_def pciem_alloc_root_complex_def)
  then have r: "carved_ranges dev1 = [(2 ^ 32, 0x10000)]"
    by (simp add: carved_ranges_def ranges_of_def PCI_STD_NUM_BARS_def upt_conv_Cons bar0_def)
  have "\<forall>r\<in>set (carved_ranges dev1). in_pool pool r" by (simp add: r in_pool_def pool_def)
  from teardown_undoes_init [OF init dev1_facts(1,2) this, of sure_env] init r show ?thesis
    by (auto simp: PCI_STD_NUM_BARS_def Let_def pool_def gfree_def after_frees_def)
qed

subsection \<open>Failed initialisation\<close>

lemma complete_init_fail:
  assumes "pciem_complete_init env gfree p h v = (Inl e, p', h', v')" "unbacked v"
    and "root_bus v = None" "original_ops v = None" "platform_dev env = Inr ()"
  shows "\<exists>w. fail_bars gfree e p h w = (Inl e, p', h', v') \<and> statics_eq v w \<and> owned w"
proof -
  obtain rc v2 where v2: "prepare_bars env p all_bars (init_start env v) = (rc, v2)"
    by (cases "prepare_bars env p all_bars (init_start env v)")
  have init: "pciem_complete_init env gfree p h v = (case (rc, v2) of
        (Inl e, v2) \<Rightarrow> fail_bars gfree e p h v2
      | (Inr _, v2) \<Rightarrow>
          (case pciem_reserve_bars_res env v2 all_bars [] of
             Inl e \<Rightarrow> fail_bars gfree e p h v2
           | Inr ws \<Rightarrow>
               (case bus_init env h v2 of
                  (Inr _, h', v3) \<Rightarrow> (Inr (), p, h', v3)
                | (Inl e, h', v3) \<Rightarrow>
                    (let (h'', v4) = fail_device h' v3 in fail_bars gfree e p h'' v4))))"
    by (simp only: pciem_complete_init_def assms(5) sum.case Let_def init_start_def [symmetric] v2)
  have own: "owned v2" using prepare_bars_frame [OF v2] assms(2) by (simp add: unbacked_def owned_def)
  have fr: "bars_only (init_start env v) v2" "statics_eq (init_start env v) v2"
    using prepare_bars_frame [OF v2] by blast+
  have st: "statics_eq v v2" using fr(2) by (simp add: statics_eq_def)
  have fb: "fst (fail_bars gfree d q k w) = Inl d" for d q k w by (simp add: fail_bars_def split_beta)
  have here: ?thesis if "fail_bars gfree d p h v2 = (Inl e, p', h', v')" for d
    using that fb [of d p h v2] st own by (intro exI [of _ v2]) simp
  show ?thesis
  proof (cases "\<exists>ws h1 v3 d. rc = Inr () \<and> pciem_reserve_bars_res env v2 all_bars [] = Inr ws \<and>
      bus_init env h v2 = (Inl d, h1, v3)")
    case True
    then obtain ws h1 v3 d where t: "rc = Inr ()" "pciem_reserve_bars_res env v2 all_bars [] = Inr ws"
      "bus_init env h v2 = (Inl d, h1, v3)" by blast
    have "root_bus v2 = None" "original_ops v2 = None" using bars_only_dev(9,10) [OF fr(1)] assms(3,4) by simp_all
    then obtain v4 where v4: "fail_device h1 v3 = (h, v4)" "same_memory v2 v4" using bus_init_fail [OF t(3)] by blast
    have "fail_bars gfree d p h v4 = (Inl e, p', h', v')" using init t v4(1) assms(1) by simp
    moreover have "statics_eq v v4" using st v4(2) statics_eq_trans by (auto simp: same_memory_def)
    moreover have "owned v4" using owned_same v4(2) own by blast
    ultimately show ?thesis using fb [of d p h v4] by (intro exI [of _ v4]) simp
  next
    case False
    then show ?thesis
      using init assms(1) here by (auto split: sum.splits prod.splits)
  qed
qed

text \<open>
  A failed initialisation cannot be retried. Wherever it fails after the platform device was
  registered, the host is as before and the carved memory of every BAR has gone back to the pool,
  while the BARs keep their sizes; so every later attempt fails too, in any environment, as long as
  there is a BAR to back.
\<close>

theorem failed_init_is_final:
  assumes "pciem_complete_init env gfree p h v = (Inl e, p', h', v')" and "unbacked v"
    and "root_bus v = None" and "original_ops v = None" and "platform_dev env = Inr ()"
    and "i < PCI_STD_NUM_BARS" and "active v i"
  shows "h' = h \<and> p' = fst (pciem_cleanup_bars gfree p v) \<and> carved_start (bars v' i) = 0 \<and> active v' i \<and>
    (\<exists>d. fst (pciem_complete_init env2 gfree p2 h2 v') = Inl d)"
proof -
  obtain w where w: "fail_bars gfree e p h w = (Inl e, p', h', v')" "statics_eq v w" "owned w"
    using complete_init_fail [OF assms(1-5)] by blast
  obtain w' where w': "pciem_cleanup_bars gfree p w = (fst (pciem_cleanup_bars gfree p w), w')" "bars_only w w'"
    "\<forall>i<PCI_STD_NUM_BARS. carved_start (bars w' i) = 0 \<and> allocated_res (bars w' i) = None" "\<forall>i. active w' i = active w i"
    using cleanup_after [OF same_memory_refl w(3), of gfree p] by blast
  have r: "h' = h" "p' = fst (pciem_cleanup_bars gfree p w)" "v' = w'\<lparr>shared_pdev := False\<rparr>"
    using w(1) w'(1) by (simp_all add: fail_bars_def split_beta)
  have pool: "fst (pciem_cleanup_bars gfree p w) = fst (pciem_cleanup_bars gfree p v)"
    unfolding pciem_cleanup_bars_def by (rule cleanup_bars_pool) (use w(2) in \<open>simp add: statics_eq_def\<close>)
  have b: "bars v' = bars w'" by (simp add: r(3))
  have "active v' i = active w' i" using b by (simp add: active_def upper_half_def prev_bar_def)
  then have act: "active v' i" using w'(4) statics_fields(7) [OF w(2)] assms(7) by simp
  have zero: "carved_start (bars v' i) = 0" using w'(3) assms(6) b by simp
  have "\<exists>d. fst (pciem_complete_init env2 gfree p2 h2 v') = Inl d"
  proof (cases "platform_dev env2")
    case (Inr u)
    obtain d where "fst (prepare_bars env2 p2 all_bars (init_start env2 v')) = Inl d"
      using prepare_bars_fails [of i all_bars "init_start env2 v'" env2 p2] assms(6) act zero by auto
    then show ?thesis
      using Inr by (auto simp: pciem_complete_init_def init_start_def fail_bars_def Let_def split: prod.split)
  qed (simp add: pciem_complete_init_def)
  with r(1,2) pool act zero show ?thesis by simp
qed

text \<open>The host has no interrupt domain to give: the initialisation fails after the BARs have memory.\<close>

theorem failed_init_is_final_witness:
  "\<exists>p' v' d. pciem_complete_init (sure_env\<lparr>intx_create := False\<rparr>) (\<lambda>g _ _. g) pool0 host0 dev1 = (Inl d, p', host0, v') \<and>
     carved_start (bars v' 0) = 0 \<and> (\<exists>d. fst (pciem_complete_init sure_env (\<lambda>g _ _. g) pool0 host0 v') = Inl d)"
proof -
  let ?env = "sure_env\<lparr>intx_create := False\<rparr>"
  have fail: "fst (bus_init ?env host0 v) \<noteq> Inr ()" if "rc_mode v = VIRTUAL_ROOT" for v
    using that by (auto simp: bus_init_def pciem_init_virtual_root_mode_def split: option.split)
  obtain rc p' h' v' where i: "pciem_complete_init ?env (\<lambda>g _ _. g) pool0 host0 dev1 = (rc, p', h', v')"
    by (cases "pciem_complete_init ?env (\<lambda>g _ _. g) pool0 host0 dev1")
  have "rc \<noteq> Inr ()"
  proof
    assume "rc = Inr ()"
    then obtain v2 where "bus_init ?env host0 v2 = (Inr (), h', v')" "bars_only (init_start ?env dev1) v2"
      using complete_init_ok [OF i [unfolded \<open>rc = Inr ()\<close>] dev1_facts(1)] by blast
    moreover have "rc_mode v2 = VIRTUAL_ROOT"
      using bars_only_dev(7) [OF calculation(2)] by (simp add: dev1_def dev0_def pciem_alloc_root_complex_def set_bar_def)
    ultimately show False using fail [of v2] by simp
  qed
  then obtain d where d: "rc = Inl d" by (cases rc) auto
  have "platform_dev ?env = Inr ()" by (simp add: sure_env_def)
  from failed_init_is_final [OF i [unfolded d] dev1_facts(1,5,6) this _ dev1_facts(4), of sure_env pool0 host0] i d
  show ?thesis by (auto simp: PCI_STD_NUM_BARS_def)
qed

end
