(* ===== verification/Session.thy ===== *)
theory Session
  imports DeviceLife
begin

text \<open>
  The control ioctls of a session (\<^verbatim>\<open>kernel/framework/userspace.c\<close>): creating functions, giving
  them BARs, capabilities and identification registers, registering and starting the device, raising
  interrupts, asking for BARs, mapping them, and the release of the file descriptors.

  Root complexes are objects at addresses (\<open>k_objs\<close>); a session refers to them by address, as the code
  does. Every ioctl is one step here; what other threads see between the critical sections of an ioctl
  is the subject of theory SessionRaces. Arguments copied from user space are options (\<open>None\<close> when they
  cannot be read). A result \<open>None\<close> of registration is a write outside the configuration space or an
  access to freed memory; a session whose reference count drops to 0 is destroyed.
\<close>

datatype reg_state = UNREGISTERED | REGISTERING | REGISTERED

record session =
  slot_funcs :: "nat \<Rightarrow> nat option"
  num_funcs :: nat
  slot_mode :: bus_mode
  reg :: reg_state
  refcnt :: nat

record 'g kernel =
  k_pool :: "'g mempool"
  k_host :: host
  k_objs :: "nat \<Rightarrow> rc_dev option"
  k_next :: nat

definition pciem_userspace_create :: "bool \<Rightarrow> bool \<Rightarrow> bool \<Rightarrow> session res" where
  "pciem_userspace_create mem_ok ring_ok wq_ok =
     (if \<not> mem_ok \<or> \<not> ring_ok \<or> \<not> wq_ok then Inl ENOMEM
      else Inr \<lparr>slot_funcs = (\<lambda>_. None), num_funcs = 0, slot_mode = VIRTUAL_ROOT, reg = UNREGISTERED, refcnt = 1\<rparr>)"

definition us_get_rc :: "session \<Rightarrow> u8 \<Rightarrow> nat option" where
  "us_get_rc us func = (if unat func \<ge> PCIEM_MAX_FUNCTIONS then None else slot_funcs us (unat func))"

subsection \<open>The registration state\<close>

definition pciem_check_unregistered :: "session \<Rightarrow> unit res" where
  "pciem_check_unregistered us =
     (if slot_funcs us 0 = None then Inl EINVAL
      else case reg us of REGISTERING \<Rightarrow> Inl EBUSY | REGISTERED \<Rightarrow> Inl EINVAL | UNREGISTERED \<Rightarrow> Inr ())"

definition pciem_check_registered :: "session \<Rightarrow> unit res" where
  "pciem_check_registered us =
     (if slot_funcs us 0 = None then Inl EINVAL
      else case reg us of REGISTERING \<Rightarrow> Inl EBUSY | UNREGISTERED \<Rightarrow> Inl EINVAL | REGISTERED \<Rightarrow> Inr ())"

definition pciem_start_registration :: "session \<Rightarrow> unit res \<times> session" where
  "pciem_start_registration us =
     (if slot_funcs us 0 = None then (Inl EINVAL, us)
      else case reg us of
        UNREGISTERED \<Rightarrow> (Inr (), us\<lparr>reg := REGISTERING\<rparr>)
      | REGISTERING \<Rightarrow> (Inl EBUSY, us)
      | REGISTERED \<Rightarrow> (Inl EINVAL, us))"

definition pciem_cancel_registration :: "session \<Rightarrow> session" where
  "pciem_cancel_registration us = us\<lparr>reg := UNREGISTERED\<rparr>"

definition pciem_complete_registration :: "session \<Rightarrow> session" where
  "pciem_complete_registration us = us\<lparr>reg := REGISTERED\<rparr>"

subsection \<open>Creating functions\<close>

record create_cfg =
  cr_flags :: u32
  cr_func :: u8

definition bus_mode_of :: "u32 \<Rightarrow> bus_mode" where
  "bus_mode_of flags = (if flags AND 3 = 1 then ATTACH_TO_HOST else VIRTUAL_ROOT)"

text \<open>The first critical section: whether the function may be created.\<close>

definition create_check :: "session \<Rightarrow> nat \<Rightarrow> unit res" where
  "create_check us func =
     (if slot_funcs us func \<noteq> None then Inl EBUSY
      else if func > 0 \<and> slot_funcs us 0 = None then Inl EINVAL
      else Inr ())"

text \<open>The object, outside any lock; function 0 decides the mode of the slot.\<close>

definition create_object :: "bool \<Rightarrow> u32 \<Rightarrow> nat \<Rightarrow> session \<Rightarrow> rc_dev \<Rightarrow> session \<times> rc_dev" where
  "create_object cap_ok flags func us v =
     (let us' = (if func = 0 then us\<lparr>slot_mode := bus_mode_of flags\<rparr> else us)
      in (us', pciem_init_cap_manager cap_ok (v\<lparr>func_index := func, rc_mode := slot_mode us'\<rparr>)))"

text \<open>The second critical section: the object enters the slot.\<close>

definition create_commit :: "nat \<Rightarrow> nat \<Rightarrow> session \<Rightarrow> session" where
  "create_commit func addr us =
     us\<lparr>slot_funcs := (slot_funcs us)(func := Some addr), num_funcs := num_funcs us + 1\<rparr>"

definition pciem_ioctl_create_device ::
    "bool \<Rightarrow> bool \<Rightarrow> create_cfg option \<Rightarrow> 'g kernel \<Rightarrow> session \<Rightarrow> unit res \<times> 'g kernel \<times> session" where
  "pciem_ioctl_create_device mem_ok cap_ok arg k us =
     (case arg of None \<Rightarrow> (Inl EFAULT, k, us)
      | Some c \<Rightarrow>
          (let func = unat (cr_func c) in
           if func \<ge> PCIEM_MAX_FUNCTIONS then (Inl EINVAL, k, us)
           else (case create_check us func of
                   Inl e \<Rightarrow> (Inl e, k, us)
                 | Inr _ \<Rightarrow>
                     (case pciem_alloc_root_complex mem_ok (k_next k) of
                        Inl e \<Rightarrow> (Inl e, k, us)
                      | Inr v \<Rightarrow>
                          (let (us1, v1) = create_object cap_ok (cr_flags c) func us v
                           in (Inr (),
                               k\<lparr>k_objs := (k_objs k)(k_next k := Some v1), k_next := k_next k + 1\<rparr>,
                               create_commit func (k_next k) us1))))))"

subsection \<open>Describing a function\<close>

text \<open>
  Every one of these ioctls starts with the same steps: the session must be unregistered (for some,
  registered), the argument readable, and the function there.
\<close>

definition put_obj :: "nat \<Rightarrow> rc_dev \<Rightarrow> 'g kernel \<Rightarrow> 'g kernel" where
  "put_obj a v k = k\<lparr>k_objs := (k_objs k)(a := Some v)\<rparr>"

definition with_func :: "unit res \<Rightarrow> 'c option \<Rightarrow> ('c \<Rightarrow> u8) \<Rightarrow> 'g kernel \<Rightarrow> session \<Rightarrow> ('c \<times> nat \<times> rc_dev) res" where
  "with_func chk arg func_of k us =
     (case chk of Inl e \<Rightarrow> Inl e
      | Inr _ \<Rightarrow>
     (case arg of None \<Rightarrow> Inl EFAULT
      | Some c \<Rightarrow>
     (case us_get_rc us (func_of c) of None \<Rightarrow> Inl ENODEV
      | Some a \<Rightarrow> (case k_objs k a of None \<Rightarrow> Inl ENODEV | Some v \<Rightarrow> Inr (c, a, v)))))"

record bar_cfg =
  bc_index :: u32
  bc_flags :: u32
  bc_size :: u64
  bc_func :: u8

definition pciem_ioctl_add_bar ::
    "('g \<Rightarrow> u64 \<Rightarrow> 'm fit_algo \<Rightarrow> u64 \<times> 'g) \<Rightarrow> 'm bitmap_search \<Rightarrow> bar_cfg option \<Rightarrow>
       'g kernel \<Rightarrow> session \<Rightarrow> unit res \<times> 'g kernel" where
  "pciem_ioctl_add_bar galloc search arg k us =
     (case with_func (pciem_check_unregistered us) arg bc_func k us of
        Inl e \<Rightarrow> (Inl e, k)
      | Inr (c, a, v) \<Rightarrow>
          if unat (bc_index c) \<ge> PCI_STD_NUM_BARS then (Inl EINVAL, k)
          else if bc_size c \<noteq> 0 \<and> bc_size c AND (bc_size c - 1) \<noteq> 0 then (Inl EINVAL, k)
          else (let (rc, p, v') = pciem_register_bar galloc search (k_pool k) v (unat (bc_index c)) (bc_size c) (bc_flags c)
                in (rc, put_obj a v' (k\<lparr>k_pool := p\<rparr>))))"

text \<open>The capability request of user space; the vendor-specific capability has no case in the ioctl.\<close>

datatype cap_request =
    Req_MSI u8 u8 u8
  | Req_MSIX u8 u32 u32 u16
  | Req_PM
  | Req_PCIE
  | Req_VSEC
  | Req_PASID u8 u8 u8
  | Req_other u32

record cap_cfg =
  cc_req :: cap_request
  cc_func :: u8

fun request_cap :: "cap_request \<Rightarrow> 'a rc_caps_scheme \<Rightarrow> unit res \<times> 'a rc_caps_scheme" where
  "request_cap (Req_MSI n is64 masking) v =
     pciem_add_cap_msi v \<lparr>has_64bit = is64 \<noteq> 0, has_per_vector_masking = masking \<noteq> 0, num_vectors_log2 = n\<rparr>"
| "request_cap (Req_MSIX bir toff poff n) v =
     pciem_add_cap_msix v \<lparr>bar_index = bir, table_offset = toff, pba_offset = poff, table_size = n\<rparr>"
| "request_cap Req_PM v =
     pciem_add_cap_pm v \<lparr>d1_support = False, d2_support = False, pme_support = False, pm_version = 0\<rparr>"
| "request_cap Req_PCIE v = pciem_add_cap_pcie v \<lparr>device_type = 0, link_width = 0, link_speed = 0\<rparr>"
| "request_cap (Req_PASID w x p) v =
     pciem_add_cap_pasid v \<lparr>max_pasid_width = 0, execute_permission = False, privileged_mode = False\<rparr>"
| "request_cap Req_VSEC v = (Inl ENOTSUPP, v)"
| "request_cap (Req_other n) v = (Inl ENOTSUPP, v)"

definition pciem_ioctl_add_capability :: "cap_cfg option \<Rightarrow> 'g kernel \<Rightarrow> session \<Rightarrow> unit res \<times> 'g kernel" where
  "pciem_ioctl_add_capability arg k us =
     (case with_func (pciem_check_unregistered us) arg cc_func k us of
        Inl e \<Rightarrow> (Inl e, k)
      | Inr (c, a, v) \<Rightarrow> (let (rc, v') = request_cap (cc_req c) v in (rc, put_obj a v' k)))"

record config_regs =
  cs_func :: u8
  vendor_id :: u16
  device_id :: u16
  subsys_vendor_id :: u16
  subsys_device_id :: u16
  revision :: u8
  class_prog :: u8
  class_sub :: u8
  class_base :: u8
  header_type :: u8

definition identify :: "config_regs \<Rightarrow> bytes \<Rightarrow> bytes" where
  "identify c f =
     poke (poke (poke (poke (poke (poke (poke (poke (poke (poke (poke (poke f
       0x00 (le16 (vendor_id c))) 0x02 (le16 (device_id c))) 0x2C (le16 (subsys_vendor_id c)))
       0x2E (le16 (subsys_device_id c))) 0x08 [revision c]) 0x09 [class_prog c]) 0x0A [class_sub c])
       0x0B [class_base c]) 0x0E [header_type c]) 0x04 (le16 2)) 0x06 (le16 0x10)) 0x3D [1]"

definition pciem_ioctl_set_config :: "config_regs option \<Rightarrow> 'g kernel \<Rightarrow> session \<Rightarrow> unit res \<times> 'g kernel" where
  "pciem_ioctl_set_config arg k us =
     (case with_func (pciem_check_unregistered us) arg cs_func k us of
        Inl e \<Rightarrow> (Inl e, k)
      | Inr (c, a, v) \<Rightarrow> (Inr (), put_obj a (v\<lparr>cfg := identify c (cfg v)\<rparr>) k))"

subsection \<open>Registration\<close>

text \<open>Building the configuration space of every function of the slot.\<close>

fun build_all :: "nat list \<Rightarrow> session \<Rightarrow> 'g kernel \<Rightarrow> 'g kernel option" where
  "build_all [] us k = Some k"
| "build_all (f # fs) us k =
     (case slot_funcs us f of
        None \<Rightarrow> build_all fs us k
      | Some a \<Rightarrow>
          (case k_objs k a of
             None \<Rightarrow> None
           | Some v \<Rightarrow>
               (case pciem_build_config_space v of
                  None \<Rightarrow> None
                | Some v' \<Rightarrow> build_all fs us (put_obj a v' k))))"

text \<open>Bringing up one object of the kernel.\<close>

definition init_obj :: "dev_env \<Rightarrow> ('g \<Rightarrow> u64 \<Rightarrow> u64 \<Rightarrow> 'g) \<Rightarrow> nat \<Rightarrow> 'g kernel \<Rightarrow> (unit res \<times> 'g kernel) option" where
  "init_obj env gfree a k =
     (case k_objs k a of
        None \<Rightarrow> None
      | Some v \<Rightarrow>
          (let (rc, p, h, v') = pciem_complete_init env gfree (k_pool k) (k_host k) v
           in Some (rc, put_obj a v' (k\<lparr>k_pool := p, k_host := h\<rparr>))))"

definition attach_obj :: "dev_env \<Rightarrow> nat \<Rightarrow> nat \<Rightarrow> 'g kernel \<Rightarrow> (unit res \<times> 'g kernel) option" where
  "attach_obj env a0 a k =
     (case (k_objs k a0, k_objs k a) of
        (Some v0, Some v) \<Rightarrow>
          (case pciem_attach_function env (k_host k) v0 v of
             None \<Rightarrow> None
           | Some (rc, h, v0', v') \<Rightarrow> Some (rc, put_obj a v' (put_obj a0 v0' (k\<lparr>k_host := h\<rparr>))))
      | _ \<Rightarrow> None)"

text \<open>Functions 1 to 7: each is initialised, then attached to function 0; the first error ends the loop.\<close>

fun init_rest :: "(nat \<Rightarrow> dev_env) \<Rightarrow> ('g \<Rightarrow> u64 \<Rightarrow> u64 \<Rightarrow> 'g) \<Rightarrow> nat \<Rightarrow> nat list \<Rightarrow> session \<Rightarrow> 'g kernel \<Rightarrow>
    (unit res \<times> 'g kernel) option" where
  "init_rest env gfree a0 [] us k = Some (Inr (), k)"
| "init_rest env gfree a0 (f # fs) us k =
     (case slot_funcs us f of
        None \<Rightarrow> init_rest env gfree a0 fs us k
      | Some a \<Rightarrow>
          (case init_obj (env f) gfree a k of
             None \<Rightarrow> None
           | Some (Inl e, k1) \<Rightarrow> Some (Inl e, k1)
           | Some (Inr _, k1) \<Rightarrow>
               (case attach_obj (env f) a0 a k1 of
                  None \<Rightarrow> None
                | Some (Inl e, k2) \<Rightarrow> Some (Inl e, k2)
                | Some (Inr _, k2) \<Rightarrow> init_rest env gfree a0 fs us k2)))"

text \<open>
  The environment of function \<open>f\<close> is \<open>env f\<close>; \<open>fd\<close> is the answer of \<open>anon_inode_getfd\<close>. A failure of
  the file descriptor leaves the session registered.
\<close>

definition pciem_ioctl_register ::
    "(nat \<Rightarrow> dev_env) \<Rightarrow> ('g \<Rightarrow> u64 \<Rightarrow> u64 \<Rightarrow> 'g) \<Rightarrow> nat res \<Rightarrow> 'g kernel \<Rightarrow> session \<Rightarrow>
       (nat res \<times> 'g kernel \<times> session) option" where
  "pciem_ioctl_register env gfree fd k us =
     (case pciem_start_registration us of
        (Inl e, _) \<Rightarrow> Some (Inl e, k, us)
      | (Inr _, us1) \<Rightarrow>
          (case build_all [0..<PCIEM_MAX_FUNCTIONS] us1 k of
             None \<Rightarrow> None
           | Some k1 \<Rightarrow>
               (case slot_funcs us1 0 of
                  None \<Rightarrow> None
                | Some a0 \<Rightarrow>
                    (case k_objs k1 a0 of
                       None \<Rightarrow> None
                     | Some v0 \<Rightarrow>
                         (let k2 = (if num_funcs us1 > 1
                                    then put_obj a0 (pciem_set_multifunction v0 (num_funcs us1)) k1 else k1)
                          in case init_obj (env 0) gfree a0 k2 of
                               None \<Rightarrow> None
                             | Some (Inl e, k3) \<Rightarrow> Some (Inl e, k3, pciem_cancel_registration us1)
                             | Some (Inr _, k3) \<Rightarrow>
                                 (case init_rest env gfree a0 [1..<PCIEM_MAX_FUNCTIONS] us1 k3 of
                                    None \<Rightarrow> None
                                  | Some (Inl e, k4) \<Rightarrow> Some (Inl e, k4, pciem_cancel_registration us1)
                                  | Some (Inr _, k4) \<Rightarrow>
                                      (let us2 = pciem_complete_registration us1 in
                                       case fd of
                                         Inl e \<Rightarrow> Some (Inl e, k4, us2)
                                       | Inr n \<Rightarrow> Some (Inr n, k4, us2\<lparr>refcnt := refcnt us2 + 1\<rparr>))))))))"

subsection \<open>A registered device\<close>

definition pciem_ioctl_start :: "'g kernel \<Rightarrow> session \<Rightarrow> unit res" where
  "pciem_ioctl_start k us =
     (case pciem_check_registered us of
        Inl e \<Rightarrow> Inl e
      | Inr _ \<Rightarrow>
          (case Option.bind (slot_funcs us 0) (k_objs k) of
             None \<Rightarrow> Inl EINVAL
           | Some v \<Rightarrow> pciem_start_device v))"

record irq_req =
  ir_vector :: u32
  ir_func :: u8

definition pciem_ioctl_inject_irq :: "irq_view \<Rightarrow> irq_req option \<Rightarrow> 'g kernel \<Rightarrow> session \<Rightarrow> unit res \<times> 'g kernel" where
  "pciem_ioctl_inject_irq view arg k us =
     (case with_func (pciem_check_registered us) arg ir_func k us of
        Inl e \<Rightarrow> (Inl e, k)
      | Inr (c, a, v) \<Rightarrow>
          (case pciem_trigger_msi view v (sint (ir_vector c)) of
             (Inl _, v') \<Rightarrow> (Inl EFAULT, put_obj a v' k)
           | (Inr _, v') \<Rightarrow> (Inr (), put_obj a v' k)))"

record bar_query =
  bq_index :: u32
  bq_func :: u8

text \<open>The answer: physical address, size and flags of the BAR.\<close>

definition pciem_ioctl_get_bar_info ::
    "bool \<Rightarrow> bar_query option \<Rightarrow> 'g kernel \<Rightarrow> session \<Rightarrow> (u64 \<times> u64 \<times> u32) res" where
  "pciem_ioctl_get_bar_info copy_ok arg k us =
     (case pciem_check_registered us of
        Inl e \<Rightarrow> Inl e
      | Inr _ \<Rightarrow>
     (case arg of None \<Rightarrow> Inl EFAULT
      | Some q \<Rightarrow>
          if unat (bq_index q) \<ge> PCI_STD_NUM_BARS then Inl EINVAL
          else (case Option.bind (us_get_rc us (bq_func q)) (k_objs k) of
                  None \<Rightarrow> Inl ENODEV
                | Some v \<Rightarrow>
                    (let bar = bars v (unat (bq_index q)) in
                     if bar_size bar = 0 then Inl ENOENT
                     else if \<not> copy_ok then Inl EFAULT
                     else Inr (phys_addr bar, bar_size bar, bar_flags bar)))))"

text \<open>
  Mapping a BAR through the instance descriptor: the page offset carries function and BAR. The answer is
  the first page frame and the number of bytes handed out, which is what the caller asked for.
\<close>

definition pciem_instance_mmap ::
    "bool \<Rightarrow> u64 \<Rightarrow> u64 \<Rightarrow> 'g kernel \<Rightarrow> session \<Rightarrow> (u64 \<times> u64) res" where
  "pciem_instance_mmap remap_ok len pgoff k us =
     (let bi = unat (pgoff AND 7); fi = unat (drop_bit 3 pgoff) in
      if fi \<ge> PCIEM_MAX_FUNCTIONS \<or> bi \<ge> PCI_STD_NUM_BARS then Inl EINVAL
      else (case Option.bind (us_get_rc us (of_nat fi)) (k_objs k) of
              None \<Rightarrow> Inl ENODEV
            | Some v \<Rightarrow>
                (let bar = bars v bi in
                 if bar_size bar = 0 \<or> phys_addr bar = 0 then Inl EINVAL
                 else if \<not> remap_ok then Inl EAGAIN
                 else Inr (drop_bit PAGE_SHIFT (phys_addr bar), len))))"

text \<open>Mapping the event ring: its first page frame and, again, as many bytes as were asked for.\<close>

definition pciem_device_mmap :: "unit res \<Rightarrow> u64 \<Rightarrow> u64 \<Rightarrow> (u64 \<times> u64) res" where
  "pciem_device_mmap remap ring_phys len =
     (case remap of Inl e \<Rightarrow> Inl e | Inr _ \<Rightarrow> Inr (drop_bit PAGE_SHIFT ring_phys, len))"

subsection \<open>Release\<close>

fun free_funcs :: "dev_env \<Rightarrow> ('g \<Rightarrow> u64 \<Rightarrow> u64 \<Rightarrow> 'g) \<Rightarrow> nat list \<Rightarrow> session \<Rightarrow> 'g kernel \<Rightarrow> 'g kernel option" where
  "free_funcs env gfree [] us k = Some k"
| "free_funcs env gfree (f # fs) us k =
     (case pciem_free_root_complex env gfree (k_pool k) (k_host k) (k_objs k) (slot_funcs us f) of
        None \<Rightarrow> None
      | Some (p, h, objs) \<Rightarrow> free_funcs env gfree fs us (k\<lparr>k_pool := p, k_host := h, k_objs := objs\<rparr>))"

definition pciem_userspace_destroy :: "dev_env \<Rightarrow> ('g \<Rightarrow> u64 \<Rightarrow> u64 \<Rightarrow> 'g) \<Rightarrow> 'g kernel \<Rightarrow> session \<Rightarrow> 'g kernel option" where
  "pciem_userspace_destroy env gfree k us = free_funcs env gfree [0..<PCIEM_MAX_FUNCTIONS] us k"

text \<open>
  Both descriptors are released the same way (\<open>pciem_device_release\<close>, \<open>pciem_instance_release\<close>); the
  session is \<open>None\<close> once it is destroyed.
\<close>

definition pciem_release :: "dev_env \<Rightarrow> ('g \<Rightarrow> u64 \<Rightarrow> u64 \<Rightarrow> 'g) \<Rightarrow> 'g kernel \<Rightarrow> session \<Rightarrow> ('g kernel \<times> session option) option" where
  "pciem_release env gfree k us =
     (if refcnt us > 1 then Some (k, Some (us\<lparr>refcnt := refcnt us - 1\<rparr>))
      else map_option (\<lambda>k'. (k', None)) (pciem_userspace_destroy env gfree k us))"

end
