(* ===== verification/SessionLife.thy ===== *)
theory SessionLife
  imports Session
begin

text \<open>
  What holds of a session over its life: the invariant of its slot under every ioctl, what a successful
  registration shows to the host, why a slot with several functions never registers, and what a second
  attempt does to the bus it attached to.
\<close>

subsection \<open>What initialisation leaves alone\<close>

definition same_ident :: "rc_dev \<Rightarrow> rc_dev \<Rightarrow> bool" where
  "same_ident v v' \<longleftrightarrow> func_index v' = func_index v \<and> rc_id v' = rc_id v \<and> rc_mode v' = rc_mode v \<and>
     cap_mgr v' = cap_mgr v \<and> cfg v' = cfg v \<and> ext_cfg v' = ext_cfg v \<and> detaching v' = detaching v"

lemma same_ident_refl [simp]: "same_ident v v"
  by (simp add: same_ident_def)

lemma same_ident_trans: "same_ident u v \<Longrightarrow> same_ident v w \<Longrightarrow> same_ident u w"
  by (simp add: same_ident_def)

lemma bars_only_ident: "bars_only v v' \<Longrightarrow> same_ident v v'"
  using bars_only_dev [of v v'] by (simp add: same_ident_def)

lemma virtual_root_ident: "pciem_init_virtual_root_mode env h v = (rc, h', v') \<Longrightarrow> same_ident v v'"
proof -
  assume a: "pciem_init_virtual_root_mode env h v = (rc, h', v')"
  have r: "same_ident w (fst (pciem_bus_init_resources devs w))" for w devs
    using bars_only_ident [OF bus_resources_frame] by (simp add: pciem_bus_init_resources_def)
  show ?thesis
  proof (cases "free_busnr (bus_exists env h) 1")
    case None
    with a show ?thesis by (auto simp: pciem_init_virtual_root_mode_def)
  next
    case (Some b)
    define vs where "vs = size_registers (sized_regs env (func_index v)) (v\<lparr>bridge_priv := Some b, intx_domain := True,
       intx_virq := (\<lambda>i. if i < 4 then irq_mapping env i else intx_virq v i)\<rparr>)"
    define w where "w = vs\<lparr>root_bus := Some b\<rparr>"
    have vs: "same_ident v vs" by (simp add: same_ident_def vs_def place_frame)
    define w' where "w' = fst (pciem_bus_init_resources (enumerates env ((\<lambda>_. None)(func_index v := Some (rc_id v)))) w)"
    have "same_ident vs w'" using same_ident_trans [of vs w w'] r [of w] by (simp add: w'_def) (simp add: w_def same_ident_def)
    then have "same_ident v w'" using same_ident_trans [OF vs] by blast
    with a Some vs show ?thesis
      by (auto simp: pciem_init_virtual_root_mode_def same_ident_def w'_def w_def vs_def Let_def split: if_splits prod.splits)
  qed
qed

lemma attach_ident: "pciem_init_attach_to_host_mode env h v = (rc, h', v') \<Longrightarrow> same_ident v v'"
  by (auto simp: pciem_init_attach_to_host_mode_def same_ident_def Let_def place_frame
      split: option.splits sum.splits if_splits)

lemma fail_device_ident: "same_ident v (snd (fail_device h v))"
  by (auto simp: fail_device_def same_ident_def Let_def split: bus_mode.split option.split)

lemma fail_bars_ident: "fail_bars gfree e p h v = (rc, p', h', v') \<Longrightarrow> same_ident v v'"
  using bars_only_ident [OF cleanup_bars_frame [of v gfree all_bars p, THEN conjunct1]]
  by (auto simp: fail_bars_def pciem_cleanup_bars_def same_ident_def split: prod.splits)

lemma complete_init_ident:
  assumes "pciem_complete_init env gfree p h v = (rc, p', h', v')"
  shows "same_ident v v'"
proof (cases "platform_dev env")
  case (Inl e)
  then show ?thesis using assms by (auto simp: pciem_complete_init_def same_ident_def)
next
  case (Inr u)
  obtain rc2 v2 where v2: "prepare_bars env p all_bars (init_start env v) = (rc2, v2)"
    by (cases "prepare_bars env p all_bars (init_start env v)")
  have s: "same_ident v (init_start env v)" by (simp add: same_ident_def)
  have i2: "same_ident v v2"
    using same_ident_trans [OF s bars_only_ident] prepare_bars_frame [OF v2] by blast
  obtain rc3 h3 v3 where v3: "bus_init env h v2 = (rc3, h3, v3)" by (cases "bus_init env h v2")
  have i3: "same_ident v v3"
    using same_ident_trans [OF i2] v3 virtual_root_ident attach_ident
    by (auto simp: bus_init_def split: bus_mode.splits)
  have i4: "same_ident v (snd (fail_device h3 v3))" using same_ident_trans [OF i3 fail_device_ident] .
  have init: "pciem_complete_init env gfree p h v = (case (rc2, v2) of
        (Inl e, v2) \<Rightarrow> fail_bars gfree e p h v2
      | (Inr _, v2) \<Rightarrow>
          (case pciem_reserve_bars_res env v2 all_bars [] of
             Inl e \<Rightarrow> fail_bars gfree e p h v2
           | Inr ws \<Rightarrow>
               (case (rc3, h3, v3) of
                  (Inr _, h', v3) \<Rightarrow> (Inr (), p, h', v3)
                | (Inl e, h', v3) \<Rightarrow>
                    (let (h'', v4) = fail_device h' v3 in fail_bars gfree e p h'' v4))))"
    using v3 by (simp add: pciem_complete_init_def Inr Let_def init_start_def [symmetric] v2 split: sum.splits)
  show ?thesis
  proof (cases rc2)
    case (Inl e)
    then have "fail_bars gfree e p h v2 = (rc, p', h', v')" using init assms by simp
    from same_ident_trans [OF i2 fail_bars_ident [OF this]] show ?thesis .
  next
    case r2: (Inr u2)
    show ?thesis
    proof (cases "pciem_reserve_bars_res env v2 all_bars []")
      case (Inl e)
      then have "fail_bars gfree e p h v2 = (rc, p', h', v')" using init r2 assms by simp
      from same_ident_trans [OF i2 fail_bars_ident [OF this]] show ?thesis .
    next
      case r3: (Inr ws)
      show ?thesis
      proof (cases rc3)
        case (Inl e)
        then have "fail_bars gfree e p (fst (fail_device h3 v3)) (snd (fail_device h3 v3)) = (rc, p', h', v')"
          using init r2 r3 assms by (simp add: split_beta)
        from same_ident_trans [OF i4 fail_bars_ident [OF this]] show ?thesis .
      next
        case (Inr u3)
        then show ?thesis using init r2 r3 assms i3 by auto
      qed
    qed
  qed
qed

lemma attach_function_ident:
  assumes "pciem_attach_function env h v0 v = Some (rc, h', v0', v')"
  shows "same_ident v0 v0' \<and> same_ident v v'"
proof (cases "rc_mode v0")
  case VIRTUAL_ROOT
  then show ?thesis using assms
    by (auto simp: pciem_attach_function_def Let_def same_ident_def split: if_splits option.splits)
next
  case ATTACH_TO_HOST
  then show ?thesis using assms
    by (auto simp: pciem_attach_function_def Let_def same_ident_def place_frame split: if_splits option.splits)
qed

subsection \<open>The invariant of a slot\<close>

definition obj_ok :: "session \<Rightarrow> nat \<Rightarrow> nat \<Rightarrow> rc_dev \<Rightarrow> bool" where
  "obj_ok us f a v \<longleftrightarrow> func_index v = f \<and> rc_id v = a \<and> rc_mode v = slot_mode us \<and> caps_inv v"

definition slot_inv :: "'g kernel \<Rightarrow> session \<Rightarrow> bool" where
  "slot_inv k us \<longleftrightarrow>
     (\<forall>f a. slot_funcs us f = Some a \<longrightarrow> f < PCIEM_MAX_FUNCTIONS \<and> (\<exists>v. k_objs k a = Some v \<and> obj_ok us f a v)) \<and>
     (\<forall>f. slot_funcs us f \<noteq> None \<longrightarrow> slot_funcs us 0 \<noteq> None) \<and>
     num_funcs us = card {f. slot_funcs us f \<noteq> None} \<and> (\<forall>a\<ge>k_next k. k_objs k a = None)"

lemma slot_inv_obj:
  assumes "slot_inv k us" "slot_funcs us f = Some a"
  shows "\<exists>v. k_objs k a = Some v \<and> obj_ok us f a v" "f < PCIEM_MAX_FUNCTIONS"
  using assms by (auto simp: slot_inv_def)

text \<open>Updates of an object that keep its identity, and of the session outside its slot.\<close>

lemma slot_inv_put:
  assumes "slot_inv k us" "k_objs k a = Some v" "\<And>f. obj_ok us f a v \<Longrightarrow> obj_ok us f a v'"
    and "k_objs k' = (k_objs k)(a := Some v')" "k_next k' = k_next k"
  shows "slot_inv k' us"
proof -
  have nxt: "\<not> k_next k \<le> a" using assms(1,2) by (auto simp: slot_inv_def)
  have "f < PCIEM_MAX_FUNCTIONS \<and> (\<exists>w. k_objs k' b = Some w \<and> obj_ok us f b w)" if "slot_funcs us f = Some b" for f b
    using slot_inv_obj [OF assms(1) that] assms(2-4) by (cases "b = a") auto
  then show ?thesis using assms(1,4,5) nxt by (simp add: slot_inv_def)
qed

lemma slot_inv_put_obj:
  "slot_inv k us \<Longrightarrow> k_objs k a = Some v \<Longrightarrow> (\<And>f. obj_ok us f a v \<Longrightarrow> obj_ok us f a v') \<Longrightarrow> slot_inv (put_obj a v' k) us"
  by (rule slot_inv_put [of k us a v v']) (simp_all add: put_obj_def)

lemma slot_inv_kernel [simp]:
  "slot_inv (k\<lparr>k_pool := p\<rparr>) us = slot_inv k us" "slot_inv (k\<lparr>k_host := h\<rparr>) us = slot_inv k us"
  by (simp_all add: slot_inv_def)

lemma slot_inv_us:
  "slot_inv k us \<Longrightarrow> slot_funcs us' = slot_funcs us \<Longrightarrow> slot_mode us' = slot_mode us \<Longrightarrow>
    num_funcs us' = num_funcs us \<Longrightarrow> slot_inv k us'"
  by (simp add: slot_inv_def obj_ok_def)

lemma ident_obj_ok: "same_ident v v' \<Longrightarrow> obj_ok us f a v \<Longrightarrow> obj_ok us f a v'"
  by (simp add: same_ident_def obj_ok_def caps_inv_def)

lemma with_func_ok: "with_func chk arg fn k us = Inr (c, a, v) \<Longrightarrow> k_objs k a = Some v"
  by (auto simp: with_func_def split: sum.splits option.splits)

lemma create_inv:
  assumes "slot_inv k us" "pciem_ioctl_create_device mem_ok cap_ok arg k us = (rc, k', us')"
  shows "slot_inv k' us'"
proof (cases "rc = Inr ()")
  case False
  then have "k' = k \<and> us' = us"
    using assms(2) by (auto simp: pciem_ioctl_create_device_def Let_def split: option.splits if_splits sum.splits prod.splits)
  then show ?thesis using assms(1) by simp
next
  case True
  then obtain c v where c: "arg = Some c" "unat (cr_func c) < PCIEM_MAX_FUNCTIONS"
    "create_check us (unat (cr_func c)) = Inr ()" "pciem_alloc_root_complex mem_ok (k_next k) = Inr v"
    using assms(2)
    by (auto simp: pciem_ioctl_create_device_def Let_def not_le split: option.splits if_splits sum.splits prod.splits)
  define f where "f = unat (cr_func c)"
  have r: "slot_funcs us' = (slot_funcs us)(f := Some (k_next k))" "num_funcs us' = num_funcs us + 1"
    "slot_mode us' = (if f = 0 then bus_mode_of (cr_flags c) else slot_mode us)"
    "k_next k' = k_next k + 1"
    "k_objs k' = (k_objs k)(k_next k := Some (pciem_init_cap_manager cap_ok (v\<lparr>func_index := f, rc_mode := slot_mode us'\<rparr>)))"
    using assms(2) c
    by (auto simp: pciem_ioctl_create_device_def create_object_def create_commit_def f_def Let_def)
  have free: "slot_funcs us f = None" "f \<noteq> 0 \<Longrightarrow> slot_funcs us 0 \<noteq> None" "f < PCIEM_MAX_FUNCTIONS"
    using c(2,3) by (auto simp: create_check_def f_def split: if_splits)
  have new: "obj_ok us' f (k_next k) (pciem_init_cap_manager cap_ok (v\<lparr>func_index := f, rc_mode := slot_mode us'\<rparr>))"
    using c(4) by (auto simp: pciem_alloc_root_complex_def obj_ok_def pciem_init_cap_manager_def
        intro!: caps_inv_init [unfolded pciem_init_cap_manager_def] split: if_splits option.splits)
      (auto simp: caps_inv_def mgr_inv_def std_caps_def ext_caps_def cap_consts)
  have none: "f = 0 \<Longrightarrow> slot_funcs us g = None" for g
    using assms(1) free(1) by (cases "slot_funcs us g") (auto simp: slot_inv_def)
  have fin: "finite {g. slot_funcs us g \<noteq> None}"
    by (rule finite_subset [of _ "{..<PCIEM_MAX_FUNCTIONS}"]) (use assms(1) in \<open>auto simp: slot_inv_def\<close>)
  have set: "{g. slot_funcs us' g \<noteq> None} = insert f {g. slot_funcs us g \<noteq> None}" by (auto simp: r(1))
  have "card {g. slot_funcs us' g \<noteq> None} = num_funcs us'"
    unfolding set using fin free(1) assms(1) r(2) by (simp add: slot_inv_def)
  moreover have "\<exists>w. k_objs k' b = Some w \<and> obj_ok us' g b w \<and> g < PCIEM_MAX_FUNCTIONS"
    if g: "slot_funcs us' g = Some b" for g b
  proof (cases "g = f")
    case True
    then show ?thesis using g r(1,5) new free(3) by simp
  next
    case False
    then have old: "slot_funcs us g = Some b" using g r(1) by simp
    then have "f \<noteq> 0" using none [of g] by auto
    with slot_inv_obj [OF assms(1) old] r(3) have "\<exists>w. k_objs k b = Some w \<and> obj_ok us' g b w" "g < PCIEM_MAX_FUNCTIONS"
      by (auto simp: obj_ok_def)
    moreover have "b \<noteq> k_next k" using calculation(1) assms(1) by (auto simp: slot_inv_def)
    ultimately show ?thesis using r(5) by auto
  qed
  moreover have "slot_funcs us' 0 \<noteq> None" using r(1) free(2) by (cases "f = 0") auto
  moreover have "\<forall>a\<ge>k_next k'. k_objs k' a = None" using assms(1) r(4,5) by (simp add: slot_inv_def)
  ultimately show ?thesis unfolding slot_inv_def by metis
qed

lemma request_cap_inv: "caps_inv v \<Longrightarrow> caps_inv (snd (request_cap r v))"
  by (cases r)
    (use caps_inv_add [of v "Add_MSI c" for c] caps_inv_add [of v "Add_MSIX c" for c] caps_inv_add [of v "Add_PM c" for c]
       caps_inv_add [of v "Add_PCIE c" for c] caps_inv_add [of v "Add_PASID c" for c] in simp_all)

lemma request_cap_ident: "snd (request_cap r v) = v\<lparr>cap_mgr := cap_mgr (snd (request_cap r v))\<rparr>"
  by (cases r) (simp_all add: add_cap_defs split: sum.split option.split cap_body.split)

lemma register_bar_ident: "pciem_register_bar galloc search p v i sz fl = (rc, p', v') \<Longrightarrow> bars_only v v'"
  by (auto simp: pciem_register_bar_def split: if_splits prod.splits)

lemma add_bar_inv:
  assumes "slot_inv k us" "pciem_ioctl_add_bar galloc search arg k us = (rc, k')"
  shows "slot_inv k' us"
proof (cases "with_func (pciem_check_unregistered us) arg bc_func k us")
  case (Inr r)
  obtain c a v where r: "r = (c, a, v)" by (cases r)
  note obj = with_func_ok [OF Inr [unfolded r]]
  obtain rc2 p v' where reg: "pciem_register_bar galloc search (k_pool k) v (unat (bc_index c)) (bc_size c) (bc_flags c) = (rc2, p, v')"
    by (cases "pciem_register_bar galloc search (k_pool k) v (unat (bc_index c)) (bc_size c) (bc_flags c)")
  have "k' = k \<or> k' = put_obj a v' (k\<lparr>k_pool := p\<rparr>)"
    using assms(2) Inr r reg by (auto simp: pciem_ioctl_add_bar_def split: if_splits)
  moreover have "slot_inv (put_obj a v' (k\<lparr>k_pool := p\<rparr>)) us"
    by (rule slot_inv_put [OF assms(1) obj ident_obj_ok [OF bars_only_ident [OF register_bar_ident [OF reg]]]])
      (simp_all add: put_obj_def)
  ultimately show ?thesis using assms(1) by blast
qed (use assms in \<open>simp add: pciem_ioctl_add_bar_def\<close>)

lemma add_cap_inv:
  assumes "slot_inv k us" "pciem_ioctl_add_capability arg k us = (rc, k')"
  shows "slot_inv k' us"
proof (cases "with_func (pciem_check_unregistered us) arg cc_func k us")
  case (Inr r)
  obtain c a v where r: "r = (c, a, v)" by (cases r)
  note obj = with_func_ok [OF Inr [unfolded r]]
  have k': "k' = put_obj a (snd (request_cap (cc_req c) v)) k"
    using assms(2) Inr r by (auto simp: pciem_ioctl_add_capability_def split: prod.splits)
  have "obj_ok us f a (snd (request_cap (cc_req c) v))" if "obj_ok us f a v" for f
    using that request_cap_inv [of v "cc_req c"] by (subst request_cap_ident) (simp add: obj_ok_def caps_inv_def)
  from slot_inv_put_obj [OF assms(1) obj this] show ?thesis by (simp add: k')
qed (use assms in \<open>simp add: pciem_ioctl_add_capability_def\<close>)

lemma set_config_inv:
  assumes "slot_inv k us" "pciem_ioctl_set_config arg k us = (rc, k')"
  shows "slot_inv k' us"
proof (cases "with_func (pciem_check_unregistered us) arg cs_func k us")
  case (Inr r)
  obtain c a v where r: "r = (c, a, v)" by (cases r)
  note obj = with_func_ok [OF Inr [unfolded r]]
  have "k' = put_obj a (v\<lparr>cfg := identify c (cfg v)\<rparr>) k"
    using assms(2) Inr r by (simp add: pciem_ioctl_set_config_def)
  moreover have "obj_ok us f a (v\<lparr>cfg := identify c (cfg v)\<rparr>)" if "obj_ok us f a v" for f
    using that by (simp add: obj_ok_def caps_inv_def)
  ultimately show ?thesis using slot_inv_put_obj [OF assms(1) obj] by simp
qed (use assms in \<open>simp add: pciem_ioctl_set_config_def\<close>)

lemma inject_irq_inv:
  assumes "slot_inv k us" "pciem_ioctl_inject_irq view arg k us = (rc, k')"
  shows "slot_inv k' us"
proof (cases "with_func (pciem_check_registered us) arg ir_func k us")
  case (Inr r)
  obtain c a v where r: "r = (c, a, v)" by (cases r)
  note obj = with_func_ok [OF Inr [unfolded r]]
  obtain rc2 v' where t: "pciem_trigger_msi view v (sint (ir_vector c)) = (rc2, v')"
    by (cases "pciem_trigger_msi view v (sint (ir_vector c))")
  have "k' = put_obj a v' k"
    using assms(2) Inr r t by (auto simp: pciem_ioctl_inject_irq_def split: sum.splits)
  moreover have "same_ident v v'"
    using t by (auto simp: pciem_trigger_msi_def same_ident_def Let_def split: option.splits if_splits)
  ultimately show ?thesis using slot_inv_put_obj [OF assms(1) obj] ident_obj_ok by blast
qed (use assms in \<open>simp add: pciem_ioctl_inject_irq_def\<close>)

lemma build_ident: "pciem_build_config_space v = Some v' \<Longrightarrow> \<exists>f e. v' = v\<lparr>cfg := f, ext_cfg := e\<rparr>"
  by (auto simp: pciem_build_config_space_def split: option.splits if_splits prod.splits)
    (metis rc_caps.surjective rc_caps.update_convs(1,2))+

lemma build_obj_ok: "pciem_build_config_space v = Some v' \<Longrightarrow> obj_ok us f a v \<Longrightarrow> obj_ok us f a v'"
  using build_ident [of v v'] by (auto simp: obj_ok_def caps_inv_def)

lemma build_all_inv: "slot_inv k us \<Longrightarrow> build_all fs us k = Some k' \<Longrightarrow> slot_inv k' us"
proof (induction fs arbitrary: k)
  case (Cons f fs)
  show ?case
  proof (cases "slot_funcs us f")
    case (Some a)
    then obtain v v' where v: "k_objs k a = Some v" "pciem_build_config_space v = Some v'"
        "build_all fs us (put_obj a v' k) = Some k'"
      using Cons(3) by (auto split: option.splits)
    have "slot_inv (put_obj a v' k) us"
      by (rule slot_inv_put_obj [OF Cons(2) v(1)]) (rule build_obj_ok [OF v(2)])
    from Cons(1) [OF this v(3)] show ?thesis .
  qed (use Cons in simp)
qed simp

lemma init_obj_inv:
  assumes "slot_inv k us" "init_obj env gfree a k = Some (rc, k')"
  shows "slot_inv k' us"
proof -
  obtain v where v: "k_objs k a = Some v" using assms(2) by (auto simp: init_obj_def split: option.splits)
  obtain rc2 p h v' where i: "pciem_complete_init env gfree (k_pool k) (k_host k) v = (rc2, p, h, v')"
    by (cases "pciem_complete_init env gfree (k_pool k) (k_host k) v")
  have k': "k' = put_obj a v' (k\<lparr>k_pool := p, k_host := h\<rparr>)" using assms(2) v i by (simp add: init_obj_def)
  show ?thesis unfolding k'
    by (rule slot_inv_put_obj [of _ _ _ v]) (simp_all add: assms(1) v ident_obj_ok [OF complete_init_ident [OF i]])
qed

lemma attach_obj_inv:
  assumes "slot_inv k us" "attach_obj env a0 a k = Some (rc, k')"
  shows "slot_inv k' us"
proof -
  obtain v0 v where v: "k_objs k a0 = Some v0" "k_objs k a = Some v"
    using assms(2) by (auto simp: attach_obj_def split: option.splits)
  obtain h v0' v' where i: "pciem_attach_function env (k_host k) v0 v = Some (rc, h, v0', v')"
      and k': "k' = put_obj a v' (put_obj a0 v0' (k\<lparr>k_host := h\<rparr>))"
    using assms(2) v by (auto simp: attach_obj_def split: option.splits)
  note id = attach_function_ident [OF i]
  have one: "slot_inv (put_obj a0 v0' (k\<lparr>k_host := h\<rparr>)) us"
    by (rule slot_inv_put_obj [of _ _ _ v0]) (use assms(1) v id ident_obj_ok in auto)
  have other: "\<exists>w. k_objs (put_obj a0 v0' (k\<lparr>k_host := h\<rparr>)) a = Some w \<and> (\<forall>f. obj_ok us f a w \<longrightarrow> obj_ok us f a v')"
  proof (cases "a = a0")
    case True
    then have "v = v0" using v by simp
    then have "same_ident v0' v'" using id by (auto simp: same_ident_def)
    then show ?thesis using True ident_obj_ok by (auto simp: put_obj_def)
  next
    case False
    then show ?thesis using v id ident_obj_ok by (auto simp: put_obj_def)
  qed
  then show ?thesis unfolding k' using slot_inv_put_obj [OF one] by blast
qed

lemma init_rest_inv:
  "slot_inv k us \<Longrightarrow> init_rest env gfree a0 fs us k = Some (rc, k') \<Longrightarrow> slot_inv k' us"
proof (induction fs arbitrary: k)
  case (Cons f fs)
  show ?case
  proof (cases "slot_funcs us f")
    case (Some a)
    then obtain rc1 k1 where one: "init_obj (env f) gfree a k = Some (rc1, k1)"
      using Cons(3) by (auto split: option.splits)
    note i1 = init_obj_inv [OF Cons(2) one]
    show ?thesis
    proof (cases rc1)
      case (Inl e)
      then show ?thesis using Cons(3) Some one i1 by simp
    next
      case (Inr u)
      then obtain rc2 k2 where two: "attach_obj (env f) a0 a k1 = Some (rc2, k2)"
        using Cons(3) Some one by (auto split: option.splits)
      note i2 = attach_obj_inv [OF i1 two]
      show ?thesis using Cons(1) [OF i2] Cons(3) Some one Inr two i2 by (cases rc2) simp_all
    qed
  qed (use Cons in simp)
qed simp

text \<open>The cases of a registration that began.\<close>

lemma register_cases:
  assumes "pciem_ioctl_register env gfree fd k us = Some (r, k', us')"
  obtains (refused) e where "r = Inl e" "k' = k" "us' = us" "reg us \<noteq> UNREGISTERED \<or> slot_funcs us 0 = None"
  | (ran) us1 k1 a0 v0 k2 rc k3 where "reg us = UNREGISTERED" "us1 = us\<lparr>reg := REGISTERING\<rparr>"
      "build_all [0..<PCIEM_MAX_FUNCTIONS] us1 k = Some k1" "slot_funcs us 0 = Some a0" "k_objs k1 a0 = Some v0"
      "k2 = (if num_funcs us > 1 then put_obj a0 (pciem_set_multifunction v0 (num_funcs us)) k1 else k1)"
      "init_obj (env 0) gfree a0 k2 = Some (rc, k3)"
      "\<And>e. rc = Inl e \<Longrightarrow> r = Inl e \<and> k' = k3 \<and> us' = us"
      "rc = Inr () \<Longrightarrow> \<exists>rc4. init_rest env gfree a0 [1..<PCIEM_MAX_FUNCTIONS] us1 k3 = Some (rc4, k') \<and>
         (\<forall>e. rc4 = Inl e \<longrightarrow> r = Inl e \<and> us' = us) \<and>
         (rc4 = Inr () \<longrightarrow> r = fd \<and>
            us' = us\<lparr>reg := REGISTERED, refcnt := refcnt us + (case fd of Inl _ \<Rightarrow> 0 | Inr _ \<Rightarrow> 1)\<rparr>)"
proof (cases "reg us = UNREGISTERED \<and> slot_funcs us 0 \<noteq> None")
  case False
  then obtain e where "r = Inl e" "k' = k" "us' = us"
    using assms by (cases "reg us"; cases "slot_funcs us 0")
      (auto simp: pciem_ioctl_register_def pciem_start_registration_def)
  then show ?thesis using refused False by auto
next
  case True
  then have reg: "reg us = UNREGISTERED" by simp
  obtain a0 where a0: "slot_funcs us 0 = Some a0" using True by auto
  define us1 where "us1 = us\<lparr>reg := REGISTERING\<rparr>"
  have us1: "slot_funcs us1 0 = Some a0" "num_funcs us1 = num_funcs us" by (simp_all add: us1_def a0)
  have undo: "us1\<lparr>reg := UNREGISTERED\<rparr> = us" by (simp add: us1_def reg [symmetric])
  have start: "pciem_start_registration us = (Inr (), us1)" using reg a0 by (simp add: pciem_start_registration_def us1_def)
  obtain k1 where k1: "build_all [0..<PCIEM_MAX_FUNCTIONS] us1 k = Some k1"
    using assms by (cases "build_all [0..<PCIEM_MAX_FUNCTIONS] us1 k") (simp_all add: pciem_ioctl_register_def start)
  obtain v0 where v0: "k_objs k1 a0 = Some v0"
    using assms by (cases "k_objs k1 a0") (simp_all add: pciem_ioctl_register_def start k1 us1)
  define k2 where "k2 = (if num_funcs us > 1 then put_obj a0 (pciem_set_multifunction v0 (num_funcs us)) k1 else k1)"
  obtain rc k3 where k3: "init_obj (env 0) gfree a0 k2 = Some (rc, k3)"
    using assms by (cases "init_obj (env 0) gfree a0 k2") (auto simp: pciem_ioctl_register_def start k1 us1 v0 k2_def cong: if_cong)
  have r: "(case rc of
       Inl e \<Rightarrow> Some (Inl e, k3, us)
     | Inr _ \<Rightarrow>
         (case init_rest env gfree a0 [1..<PCIEM_MAX_FUNCTIONS] us1 k3 of
            None \<Rightarrow> None
          | Some (Inl e, k4) \<Rightarrow> Some (Inl e, k4, us)
          | Some (Inr _, k4) \<Rightarrow>
              (let us2 = pciem_complete_registration us1 in
               case fd of
                 Inl e \<Rightarrow> Some (Inl e, k4, us2)
               | Inr n \<Rightarrow> Some (Inr n, k4, us2\<lparr>refcnt := refcnt us2 + 1\<rparr>)))) = Some (r, k', us')"
    using assms unfolding pciem_ioctl_register_def start prod.case sum.case k1 option.case us1(1) v0 Let_def
      us1(2) k2_def [symmetric] k3 pciem_cancel_registration_def undo
    by (cases rc) simp_all
  show ?thesis
  proof (rule ran [OF reg us1_def k1 a0 v0 k2_def k3])
    show "rc = Inl e \<Longrightarrow> r = Inl e \<and> k' = k3 \<and> us' = us" for e using r by simp
    assume rc: "rc = Inr ()"
    then obtain rc4 k4 where k4: "init_rest env gfree a0 [1..<PCIEM_MAX_FUNCTIONS] us1 k3 = Some (rc4, k4)"
      using r by (cases "init_rest env gfree a0 [1..<PCIEM_MAX_FUNCTIONS] us1 k3") auto
    with r rc show "\<exists>rc4. init_rest env gfree a0 [1..<PCIEM_MAX_FUNCTIONS] us1 k3 = Some (rc4, k') \<and>
         (\<forall>e. rc4 = Inl e \<longrightarrow> r = Inl e \<and> us' = us) \<and>
         (rc4 = Inr () \<longrightarrow> r = fd \<and>
            us' = us\<lparr>reg := REGISTERED, refcnt := refcnt us + (case fd of Inl _ \<Rightarrow> 0 | Inr _ \<Rightarrow> 1)\<rparr>)"
      by (cases rc4; cases fd) (auto simp: us1_def pciem_complete_registration_def Let_def)
  qed
qed

lemma multifunction_obj_ok: "obj_ok us f a v \<Longrightarrow> obj_ok us f a (pciem_set_multifunction v n)"
  by (simp add: pciem_set_multifunction_def obj_ok_def caps_inv_def)

lemma register_inv:
  assumes "slot_inv k us" "pciem_ioctl_register env gfree fd k us = Some (r, k', us')"
  shows "slot_inv k' us'"
  using assms(2)
proof (cases rule: register_cases)
  case (ran us1 k1 a0 v0 k2 rc k3)
  have i1: "slot_inv k us1" by (rule slot_inv_us [OF assms(1)]) (simp_all add: ran(2))
  have i2: "slot_inv k2 us1"
    using build_all_inv [OF i1 ran(3)] slot_inv_put_obj [OF _ ran(5)] multifunction_obj_ok by (simp add: ran(6))
  have i3: "slot_inv k3 us1" using init_obj_inv [OF i2 ran(7)] .
  have undo: "slot_inv k'' us1 \<Longrightarrow> slot_funcs us'' = slot_funcs us \<Longrightarrow> slot_mode us'' = slot_mode us \<Longrightarrow>
      num_funcs us'' = num_funcs us \<Longrightarrow> slot_inv k'' us''" for k'' :: "'a kernel" and us''
    by (rule slot_inv_us [of k'' us1]) (simp_all add: ran(2))
  show ?thesis
  proof (cases rc)
    case (Inl e)
    then show ?thesis using ran(8) i3 undo by auto
  next
    case (Inr u)
    then obtain rc4 where rc4: "init_rest env gfree a0 [1..<PCIEM_MAX_FUNCTIONS] us1 k3 = Some (rc4, k')"
      "(\<forall>e. rc4 = Inl e \<longrightarrow> us' = us) \<and> (rc4 = Inr () \<longrightarrow>
        us' = us\<lparr>reg := REGISTERED, refcnt := refcnt us + (case fd of Inl _ \<Rightarrow> 0 | Inr _ \<Rightarrow> 1)\<rparr>)"
      using ran(9) by auto
    then have "slot_funcs us' = slot_funcs us \<and> slot_mode us' = slot_mode us \<and> num_funcs us' = num_funcs us"
      by (cases rc4) auto
    with rc4(1) show ?thesis using init_rest_inv [OF i3] undo by blast
  qed
qed (use assms in simp)

text \<open>A session from its first descriptor on: the ioctls that change it or the objects of its slot.\<close>

inductive session_step :: "('g \<Rightarrow> u64 \<Rightarrow> 'm fit_algo \<Rightarrow> u64 \<times> 'g) \<Rightarrow> 'm bitmap_search \<Rightarrow>
    'g kernel \<times> session \<Rightarrow> 'g kernel \<times> session \<Rightarrow> bool" for galloc search where
  create: "pciem_ioctl_create_device mem_ok cap_ok arg k us = (rc, k', us') \<Longrightarrow> session_step galloc search (k, us) (k', us')"
| add_bar: "pciem_ioctl_add_bar galloc search arg k us = (rc, k') \<Longrightarrow> session_step galloc search (k, us) (k', us)"
| add_capability: "pciem_ioctl_add_capability arg k us = (rc, k') \<Longrightarrow> session_step galloc search (k, us) (k', us)"
| set_config: "pciem_ioctl_set_config arg k us = (rc, k') \<Longrightarrow> session_step galloc search (k, us) (k', us)"
| register: "pciem_ioctl_register env gfree fd k us = Some (r, k', us') \<Longrightarrow> session_step galloc search (k, us) (k', us')"
| inject_irq: "pciem_ioctl_inject_irq view arg k us = (rc, k') \<Longrightarrow> session_step galloc search (k, us) (k', us)"
| release: "pciem_release env gfree k us = Some (k', Some us') \<Longrightarrow> session_step galloc search (k, us) (k', us')"

inductive session_reach :: "('g \<Rightarrow> u64 \<Rightarrow> 'm fit_algo \<Rightarrow> u64 \<times> 'g) \<Rightarrow> 'm bitmap_search \<Rightarrow>
    'g kernel \<Rightarrow> 'g kernel \<times> session \<Rightarrow> bool" for galloc search k0 where
  opened: "pciem_userspace_create m r w = Inr us \<Longrightarrow> session_reach galloc search k0 (k0, us)"
| step: "session_reach galloc search k0 s \<Longrightarrow> session_step galloc search s s' \<Longrightarrow> session_reach galloc search k0 s'"

inductive_cases session_stepE: "session_step galloc search s s'"

lemma session_step_inv: "session_step galloc search s s' \<Longrightarrow> slot_inv (fst s) (snd s) \<Longrightarrow> slot_inv (fst s') (snd s')"
proof (induction rule: session_step.induct)
  case (release env gfree k us k' us')
  then have "k' = k" "us' = us\<lparr>refcnt := refcnt us - 1\<rparr>" by (auto simp: pciem_release_def split: if_splits)
  with release(2) slot_inv_us [of k us us'] show ?case by simp
qed (auto intro: create_inv add_bar_inv add_cap_inv set_config_inv register_inv inject_irq_inv)

lemma session_reach_inv:
  assumes "session_reach galloc search k0 s" "\<forall>a\<ge>k_next k0. k_objs k0 a = None"
  shows "slot_inv (fst s) (snd s)"
  using assms
proof (induction rule: session_reach.induct)
  case (opened m r w us)
  then have "slot_funcs us = (\<lambda>_. None)" "num_funcs us = 0"
    by (auto simp: pciem_userspace_create_def split: if_splits)
  with opened(2) show ?case by (simp add: slot_inv_def)
qed (use session_step_inv in blast)

text \<open>
  C17. In a session whose ioctls run one after the other, the slot is always consistent, through every
  error path: the count of functions is the number of functions there, at most eight; every entry is a
  live object that knows its index, its address and the mode of the slot; function 0 exists if any
  does; and no two entries share an object.
\<close>

theorem slot_always_consistent:
  assumes "session_reach galloc search k0 (k, us)" and "\<forall>a\<ge>k_next k0. k_objs k0 a = None"
  shows "num_funcs us = card {f. slot_funcs us f \<noteq> None} \<and> num_funcs us \<le> PCIEM_MAX_FUNCTIONS \<and>
    (\<forall>f a. slot_funcs us f = Some a \<longrightarrow> slot_funcs us 0 \<noteq> None \<and>
       (\<exists>v. k_objs k a = Some v \<and> func_index v = f \<and> rc_id v = a \<and> rc_mode v = slot_mode us)) \<and>
    (\<forall>f g a. slot_funcs us f = Some a \<longrightarrow> slot_funcs us g = Some a \<longrightarrow> f = g)"
proof -
  have inv: "slot_inv k us" using session_reach_inv [OF assms] by simp
  have "{f. slot_funcs us f \<noteq> None} \<subseteq> {..<PCIEM_MAX_FUNCTIONS}" using inv by (auto simp: slot_inv_def)
  from card_mono [OF _ this] have "card {f. slot_funcs us f \<noteq> None} \<le> PCIEM_MAX_FUNCTIONS" by simp
  moreover have num: "num_funcs us = card {f. slot_funcs us f \<noteq> None}" using inv by (simp add: slot_inv_def)
  ultimately have "num_funcs us \<le> PCIEM_MAX_FUNCTIONS" by (simp only:)
  moreover have "slot_funcs us 0 \<noteq> None \<and>
      (\<exists>v. k_objs k a = Some v \<and> func_index v = f \<and> rc_id v = a \<and> rc_mode v = slot_mode us)"
    if "slot_funcs us f = Some a" for f a
  proof -
    have "slot_funcs us 0 \<noteq> None" using inv that unfolding slot_inv_def by blast
    then show ?thesis using slot_inv_obj(1) [OF inv that] by (auto simp: obj_ok_def)
  qed
  moreover have "f = g" if "slot_funcs us f = Some a" "slot_funcs us g = Some a" for f g a
    using slot_inv_obj(1) [OF inv that(1)] slot_inv_obj(1) [OF inv that(2)] by (auto simp: obj_ok_def)
  ultimately show ?thesis using num by blast
qed

definition kernel0 :: "unit kernel" where
  "kernel0 = \<lparr>k_pool = pool0, k_host = host0, k_objs = Map.empty, k_next = 1\<rparr>"

definition session0 :: session where
  "session0 = \<lparr>slot_funcs = (\<lambda>_. None), num_funcs = 0, slot_mode = VIRTUAL_ROOT, reg = UNREGISTERED, refcnt = 1\<rparr>"

definition one_func :: "unit res \<times> unit kernel \<times> session" where
  "one_func = pciem_ioctl_create_device True True (Some \<lparr>cr_flags = 1, cr_func = 0\<rparr>) kernel0 session0"

definition two_funcs :: "unit res \<times> unit kernel \<times> session" where
  "two_funcs = pciem_ioctl_create_device True True (Some \<lparr>cr_flags = 0, cr_func = 3\<rparr>) (fst (snd one_func)) (snd (snd one_func))"

lemma create_step: "session_step galloc search (k, us) (snd (pciem_ioctl_create_device True True arg k us))"
  using session_step.create [where k = k and us = us and arg = arg and mem_ok = True and cap_ok = True
    and galloc = galloc and search = search] by (metis prod.collapse)

lemma one_func_reach: "session_reach galloc0 search0 kernel0 (fst (snd one_func), snd (snd one_func))"
proof -
  have "session_reach galloc0 search0 kernel0 (kernel0, session0)"
    by (rule session_reach.opened [of True True True]) (simp add: pciem_userspace_create_def session0_def)
  from session_reach.step [OF this create_step] show ?thesis by (simp add: one_func_def)
qed

lemma two_funcs_reach: "session_reach galloc0 search0 kernel0 (snd two_funcs)"
  using session_reach.step [OF one_func_reach create_step] unfolding two_funcs_def .

lemmas create_defs = pciem_ioctl_create_device_def create_check_def create_object_def create_commit_def
  pciem_alloc_root_complex_def PCIEM_MAX_FUNCTIONS_def bus_mode_of_def

lemma one_func_simps: "slot_funcs (snd (snd one_func)) = [0 \<mapsto> 1]" "num_funcs (snd (snd one_func)) = 1"
    "slot_mode (snd (snd one_func)) = ATTACH_TO_HOST" "reg (snd (snd one_func)) = UNREGISTERED"
    "k_next (fst (snd one_func)) = 2"
  by (simp_all add: one_func_def create_defs kernel0_def session0_def)

lemma two_funcs_simps: "slot_funcs (snd (snd two_funcs)) = [0 \<mapsto> 1, 3 \<mapsto> 2]" "num_funcs (snd (snd two_funcs)) = 2"
    "slot_mode (snd (snd two_funcs)) = ATTACH_TO_HOST" "reg (snd (snd two_funcs)) = UNREGISTERED"
  by (simp_all add: two_funcs_def create_defs one_func_simps)

theorem slot_always_consistent_witness:
  "num_funcs (snd (snd two_funcs)) = card {f. slot_funcs (snd (snd two_funcs)) f \<noteq> None} \<and>
   num_funcs (snd (snd two_funcs)) = 2 \<and>
   (\<exists>v. k_objs (fst (snd two_funcs)) 2 = Some v \<and> func_index v = 3 \<and> rc_mode v = ATTACH_TO_HOST)"
proof -
  have "session_reach galloc0 search0 kernel0 (fst (snd two_funcs), snd (snd two_funcs))"
    using two_funcs_reach by simp
  moreover have "\<forall>a\<ge>k_next kernel0. k_objs kernel0 a = None" by (simp add: kernel0_def)
  ultimately have all: "num_funcs (snd (snd two_funcs)) = card {f. slot_funcs (snd (snd two_funcs)) f \<noteq> None} \<and>
      num_funcs (snd (snd two_funcs)) \<le> PCIEM_MAX_FUNCTIONS \<and>
      (\<forall>f a. slot_funcs (snd (snd two_funcs)) f = Some a \<longrightarrow> slot_funcs (snd (snd two_funcs)) 0 \<noteq> None \<and>
        (\<exists>v. k_objs (fst (snd two_funcs)) a = Some v \<and> func_index v = f \<and> rc_id v = a \<and>
          rc_mode v = slot_mode (snd (snd two_funcs)))) \<and>
      (\<forall>f g a. slot_funcs (snd (snd two_funcs)) f = Some a \<longrightarrow> slot_funcs (snd (snd two_funcs)) g = Some a \<longrightarrow> f = g)"
    by (rule slot_always_consistent)
  have "slot_funcs (snd (snd two_funcs)) 3 = Some 2" by (simp add: two_funcs_simps)
  with all [THEN conjunct2, THEN conjunct2, THEN conjunct1, rule_format, of 3 2]
  have "\<exists>v. k_objs (fst (snd two_funcs)) 2 = Some v \<and> func_index v = 3 \<and> rc_mode v = ATTACH_TO_HOST"
    by (auto simp: two_funcs_simps(3))
  with all [THEN conjunct1] show ?thesis by (simp only: two_funcs_simps(2))
qed

subsection \<open>Slots with several functions\<close>

lemma complete_init_bus:
  assumes "pciem_complete_init env gfree p h v = (Inr (), p', h', v')"
  shows "\<exists>w. bus_init env h w = (Inr (), h', v') \<and> same_ident v w"
proof -
  obtain u where plat: "platform_dev env = Inr u"
    using assms by (cases "platform_dev env") (auto simp: pciem_complete_init_def)
  obtain rc w where w: "prepare_bars env p all_bars (init_start env v) = (rc, w)"
    by (cases "prepare_bars env p all_bars (init_start env v)")
  have fb: "fail_bars gfree e q k x \<noteq> (Inr (), a, b, c)" for e q k x a b c
    by (auto simp: fail_bars_def split: prod.splits)
  have "bus_init env h w = (Inr (), h', v')"
    using assms
    by (auto simp: fb pciem_complete_init_def plat Let_def init_start_def [symmetric] w split: sum.splits prod.splits)
  moreover have "same_ident v (init_start env v)" by (simp add: same_ident_def)
  ultimately show ?thesis
    using same_ident_trans bars_only_ident prepare_bars_frame [OF w] by blast
qed

text \<open>A function other than 0 cannot be initialised on its own, in either mode.\<close>

lemma other_function_fails:
  assumes "func_index v \<noteq> 0" "\<forall>fs i. enumerates env fs i \<longrightarrow> fs 0 \<noteq> None"
  shows "fst (pciem_complete_init env gfree p h v) \<noteq> Inr ()"
proof
  assume "fst (pciem_complete_init env gfree p h v) = Inr ()"
  then obtain p' h' v' where "pciem_complete_init env gfree p h v = (Inr (), p', h', v')" by (metis prod.collapse)
  from complete_init_bus [OF this] obtain w where w: "bus_init env h w = (Inr (), h', v')" "func_index w \<noteq> 0"
    using assms(1) by (auto simp: same_ident_def)
  show False
  proof (cases "rc_mode w")
    case VIRTUAL_ROOT
    then have "\<exists>fs. enumerates env fs (func_index w) \<and> fs 0 = None"
      using w by (auto simp: bus_init_def pciem_init_virtual_root_mode_def Let_def split: option.splits if_splits prod.splits)
    then show False using assms(2) by blast
  next
    case ATTACH_TO_HOST
    then have "pciem_init_attach_to_host_mode env h w = (Inr (), h', v')" using w(1) by (simp add: bus_init_def)
    from attach_ok(11) [OF this] w(2) show False by simp
  qed
qed

lemma init_rest_fails:
  assumes "slot_inv k us" "f \<in> set fs" "slot_funcs us f = Some a" "0 \<notin> set fs"
    and "\<forall>g fs i. enumerates (env g) fs i \<longrightarrow> fs 0 \<noteq> None"
    and "init_rest env gfree a0 fs us k = Some (rc, k')"
  shows "\<exists>e. rc = Inl e"
  using assms(2-4,6)
proof (induction fs)
  case (Cons g fs)
  show ?case
  proof (cases "slot_funcs us g")
    case None
    then show ?thesis using Cons by auto
  next
    case (Some b)
    obtain v where v: "k_objs k b = Some v" "func_index v = g"
      using slot_inv_obj(1) [OF assms(1) Some] by (auto simp: obj_ok_def)
    have "\<forall>fs i. enumerates (env g) fs i \<longrightarrow> fs 0 \<noteq> None" using assms(5) by blast
    with other_function_fails [of v "env g" gfree "k_pool k" "k_host k"] v(2) Cons(4)
    obtain e p h v' where "pciem_complete_init (env g) gfree (k_pool k) (k_host k) v = (Inl e, p, h, v')"
      by (cases "pciem_complete_init (env g) gfree (k_pool k) (k_host k) v"; cases "fst (pciem_complete_init (env g) gfree (k_pool k) (k_host k) v)") auto
    then obtain k1 where "init_obj (env g) gfree b k = Some (Inl e, k1)"
      using v(1) by (auto simp: init_obj_def)
    then show ?thesis using Cons(5) Some by auto
  qed
qed simp

text \<open>
  A device with more than one function never registers. In the attach-to-host mode function 1 to 7
  is always refused; on a virtual root it gets a bus of its own, on which the PCI core finds nothing,
  because it looks at function 0 first (the hypothesis). Registration fails and the session counts as
  unregistered, although function 0 may be live on its bus by then.
\<close>

theorem several_functions_never_register:
  assumes "session_reach galloc search k0 (k, us)" and "\<forall>a\<ge>k_next k0. k_objs k0 a = None"
    and "slot_funcs us f = Some a" and "f \<noteq> 0" and "reg us = UNREGISTERED"
    and "\<forall>g fs i. enumerates (env g) fs i \<longrightarrow> fs 0 \<noteq> None"
    and "pciem_ioctl_register env gfree fd k us = Some (r, k', us')"
  shows "(\<exists>e. r = Inl e) \<and> us' = us"
  using assms(7)
proof (cases rule: register_cases)
  case (ran us1 k1 a0 v0 k2 rc k3)
  have inv: "slot_inv k us" using session_reach_inv [OF assms(1,2)] by simp
  have i1: "slot_inv k us1" by (rule slot_inv_us [OF inv]) (simp_all add: ran(2))
  have i2: "slot_inv k2 us1"
    using build_all_inv [OF i1 ran(3)] slot_inv_put_obj [OF _ ran(5)] multifunction_obj_ok by (simp add: ran(6))
  have i3: "slot_inv k3 us1" using init_obj_inv [OF i2 ran(7)] .
  have f: "f \<in> set [1..<PCIEM_MAX_FUNCTIONS]" "slot_funcs us1 f = Some a"
    using slot_inv_obj(2) [OF inv assms(3)] assms(3,4) by (simp_all add: ran(2))
  show ?thesis
  proof (cases rc)
    case (Inl e)
    then show ?thesis using ran(8) by blast
  next
    case (Inr u)
    then obtain rc4 where rc4: "init_rest env gfree a0 [1..<PCIEM_MAX_FUNCTIONS] us1 k3 = Some (rc4, k')"
      "\<forall>e. rc4 = Inl e \<longrightarrow> r = Inl e \<and> us' = us" using ran(9) by auto
    from init_rest_fails [OF i3 f _ assms(6) rc4(1)] rc4(2) show ?thesis by auto
  qed
qed simp

theorem several_functions_never_register_witness:
  "\<nexists>n k' us'. pciem_ioctl_register (\<lambda>_. sure_env) (\<lambda>g _ _. g) (Inr 7) (fst (snd two_funcs)) (snd (snd two_funcs)) =
      Some (Inr n, k', us')"
proof (intro notI, elim exE)
  fix n k' us'
  assume r: "pciem_ioctl_register (\<lambda>_. sure_env) (\<lambda>g _ _. g) (Inr 7) (fst (snd two_funcs)) (snd (snd two_funcs)) =
      Some (Inr n, k', us')"
  have "session_reach galloc0 search0 kernel0 (fst (snd two_funcs), snd (snd two_funcs))"
    using two_funcs_reach by simp
  from several_functions_never_register [OF this _ _ _ _ _ r, of 3 2] show False
    by (simp add: kernel0_def two_funcs_simps sure_env_def)
qed

end
