(* ===== verification/Visible.thy ===== *)
theory Visible
  imports SessionLife
begin

text \<open>
  What a registered device shows to the host, through the operations of the bus it sits on: a
  registration succeeds when the kernel services do, the host then finds the device under the
  identity user space gave it, and what a second device on the same host bus does to every other slot.
\<close>

subsection \<open>Registration succeeds\<close>

text \<open>A kernel in which no allocation or registration of a service fails.\<close>

definition willing :: "dev_env \<Rightarrow> bool" where
  "willing env \<longleftrightarrow> platform_dev env = Inr () \<and> (\<forall>i. res_alloc env i \<and> name_alloc env i \<and> entry_alloc env i) \<and>
     (\<forall>p m. insert_resource env p m) \<and> bridge_alloc env \<and> intx_create env \<and> scan_bridge env \<and> bridge_bus env \<and>
     (\<forall>fs. fs 0 \<noteq> None \<longrightarrow> enumerates env fs 0)"

text \<open>The place the mode asks for: a free bus number, or a free slot where the scan finds the device.\<close>

definition place_for :: "bus_mode \<Rightarrow> dev_env \<Rightarrow> host \<Rightarrow> bool" where
  "place_for m env h \<longleftrightarrow>
     (case m of
        VIRTUAL_ROOT \<Rightarrow> \<exists>n\<in>{1..255}. \<not> bus_exists env h n
      | ATTACH_TO_HOST \<Rightarrow> \<exists>b s. pciem_find_suitable_root_bus env = Some b \<and>
          pciem_find_free_slot (read_dword env) (Some b) = Inr s \<and> scan_single env s 0)"

lemma free_busnr_found: "\<not> taken n \<Longrightarrow> m \<le> n \<Longrightarrow> n \<le> 255 \<Longrightarrow> free_busnr taken m \<noteq> None"
proof (induction taken m rule: free_busnr.induct)
  case (1 taken m)
  show ?case
  proof (cases "taken m")
    case True
    then have "m \<noteq> n" using 1(2) by auto
    then show ?thesis using 1 True by (simp add: free_busnr.simps [of taken m])
  qed (simp add: free_busnr.simps)
qed

lemma bus_init_succeeds:
  assumes "willing env" "place_for (rc_mode v) env h" "func_index v = 0"
  shows "\<exists>h' v'. bus_init env h v = (Inr (), h', v')"
proof (cases "rc_mode v")
  case VIRTUAL_ROOT
  then obtain n where "1 \<le> n" "n \<le> 255" "\<not> bus_exists env h n" using assms(2) by (auto simp: place_for_def)
  then obtain b where b: "free_busnr (bus_exists env h) 1 = Some b"
    using free_busnr_found [of "bus_exists env h" n 1] by auto
  have "enumerates env ((\<lambda>_. None)(0 := Some (rc_id v))) 0" using assms(1) by (simp add: willing_def)
  then show ?thesis using VIRTUAL_ROOT b assms
    by (simp add: bus_init_def pciem_init_virtual_root_mode_def willing_def Let_def split_beta)
next
  case ATTACH_TO_HOST
  then show ?thesis using assms(2,3)
    by (auto simp: place_for_def bus_init_def pciem_init_attach_to_host_mode_def Let_def)
qed

lemma prepare_bars_succeeds:
  assumes "willing env" "\<forall>i\<in>set is. active v i \<longrightarrow> carved_start (bars v i) \<noteq> 0"
  shows "fst (prepare_bars env p is v) = Inr ()"
  using assms(2)
proof (induction "is" arbitrary: v)
  case (Cons i "is")
  obtain rc v1 where one: "prepare_bar env p i v = (rc, v1)" by (cases "prepare_bar env p i v")
  have rc: "rc = Inr ()"
    using one Cons(2) assms(1)
    by (auto simp: prepare_bar_def Let_def active_def willing_def pciem_pool_insert_def split: if_splits)
  have "statics_eq v v1" using prepare_bar_frame [OF one] by blast
  note st = statics_fields [OF this]
  have "fst (prepare_bars env p is v1) = Inr ()" using Cons st by simp
  then show ?case using one rc by simp
qed simp

lemma complete_init_succeeds:
  assumes env: "willing env" "place_for (rc_mode v) env h" and "func_index v = 0"
    and "\<forall>i<PCI_STD_NUM_BARS. active v i \<longrightarrow> carved_start (bars v i) \<noteq> 0"
  shows "\<exists>h' v'. pciem_complete_init env gfree p h v = (Inr (), p, h', v')"
proof -
  obtain v2 where prep: "prepare_bars env p all_bars (init_start env v) = (Inr (), v2)"
    using prepare_bars_succeeds [OF env(1), of all_bars "init_start env v" p] assms(4) by (cases "prepare_bars env p all_bars (init_start env v)") auto
  have f: "func_index v2 = 0" "rc_mode v2 = rc_mode v"
    using bars_only_dev [of "init_start env v" v2] prepare_bars_frame [OF prep] assms(3) by simp_all
  have ws: "\<exists>ws'. pciem_reserve_bars_res env v2 is ws = Inr ws'" for "is" ws
    using env(1) by (induction "is" arbitrary: ws) (auto simp: pciem_reserve_bar_res_def willing_def split: option.splits)
  obtain ws where "pciem_reserve_bars_res env v2 all_bars [] = Inr ws" using ws by blast
  moreover obtain h' v' where "bus_init env h v2 = (Inr (), h', v')"
    using bus_init_succeeds [OF env(1), of v2 h] env(2) f by auto
  ultimately show ?thesis
    using prep env(1) by (simp add: pciem_complete_init_def init_start_def [symmetric] willing_def Let_def)
qed

text \<open>The configuration space of a well-formed function is built, and only its list pointer changes in the header.\<close>

lemma build_header:
  assumes "caps_inv v" "caps_fit v"
  obtains v' where "pciem_build_config_space v = Some v'" "\<And>i. i < 64 \<Longrightarrow> i \<noteq> PCI_CAPABILITY_LIST \<Longrightarrow> cfg v' i = cfg v i"
    "cap_mgr v' = cap_mgr v" "bars v' = bars v" "detaching v' = detaching v"
proof (cases "cap_mgr v")
  case None
  then have "pciem_build_config_space v = Some (v\<lparr>cfg := clear_cap_list (cfg v)\<rparr>)" by (simp add: pciem_build_config_space_def)
  then show ?thesis using that by (simp add: access_simps)
next
  case (Some mgr)
  then have "mgr_inv mgr" "std_fit mgr" using assms by (simp_all add: caps_inv_def caps_fit_def)
  from Some this obtain v' where v': "pciem_build_config_space v = Some v'"
    "\<And>i. i < 64 \<Longrightarrow> i \<noteq> PCI_CAPABILITY_LIST \<Longrightarrow> cfg v' i = cfg v i" by (rule build_ok) blast
  show ?thesis by (rule that [OF v']) (simp_all add: build_same [OF v'(1)])
qed

text \<open>A slot with function 0 only.\<close>

lemma single_function:
  assumes "slot_inv k us" "num_funcs us = 1" "slot_funcs us 0 = Some a"
  shows "slot_funcs us = [0 \<mapsto> a]"
proof -
  have "card {f. slot_funcs us f \<noteq> None} = 1" using assms(1,2) by (simp add: slot_inv_def)
  then obtain g where "{f. slot_funcs us f \<noteq> None} = {g}" by (auto simp: card_1_singleton_iff)
  then have "slot_funcs us f \<noteq> None \<longleftrightarrow> f = g" for f by (simp only: set_eq_iff mem_Collect_eq singleton_iff)
  then have "slot_funcs us f = None" if "f \<noteq> 0" for f using that assms(3) by (metis option.distinct(1))
  then show ?thesis using assms(3) by (auto simp: fun_eq_iff)
qed

lemma build_all_single:
  assumes "slot_funcs us = [0 \<mapsto> a]" "k_objs k a = Some v" "pciem_build_config_space v = Some v'"
  shows "build_all [0..<PCIEM_MAX_FUNCTIONS] us k = Some (put_obj a v' k)"
proof -
  have "build_all fs us k = Some k" if "0 \<notin> set fs" for fs and k :: "'a kernel"
    using that assms(1) by (induction fs arbitrary: k) auto
  then have "build_all [1..<PCIEM_MAX_FUNCTIONS] us (put_obj a v' k) = Some (put_obj a v' k)" by simp
  moreover have "[0..<PCIEM_MAX_FUNCTIONS] = 0 # [1..<PCIEM_MAX_FUNCTIONS]" by (simp add: PCIEM_MAX_FUNCTIONS_def upt_rec)
  ultimately show ?thesis using assms by simp
qed

lemma init_rest_single: "slot_funcs us = [0 \<mapsto> a] \<Longrightarrow> 0 \<notin> set fs \<Longrightarrow> init_rest env gfree a0 fs us k = Some (Inr (), k)"
  by (induction fs) auto

text \<open>Registration of a single function is building its configuration space and bringing it up.\<close>

lemma register_single:
  assumes "slot_inv k us" "num_funcs us = 1" "slot_funcs us 0 = Some a" "reg us = UNREGISTERED"
    and "k_objs k a = Some v" "pciem_build_config_space v = Some v'"
    and "pciem_complete_init (env 0) gfree (k_pool k) (k_host k) v' = (rc, p, h, v2)"
  shows "pciem_ioctl_register env gfree (Inr n) k us =
    Some (case rc of Inl e \<Rightarrow> Inl e | Inr _ \<Rightarrow> Inr n,
          put_obj a v2 (k\<lparr>k_pool := p, k_host := h\<rparr>),
          case rc of Inl e \<Rightarrow> us | Inr _ \<Rightarrow> us\<lparr>reg := REGISTERED, refcnt := refcnt us + 1\<rparr>)"
proof -
  have slot: "slot_funcs us = [0 \<mapsto> a]" using single_function [OF assms(1-3)] .
  have "build_all [0..<PCIEM_MAX_FUNCTIONS] (us\<lparr>reg := REGISTERING\<rparr>) k = Some (put_obj a v' k)"
    using build_all_single [of "us\<lparr>reg := REGISTERING\<rparr>" a k v v'] slot assms(5,6) by simp
  moreover have "init_obj (env 0) gfree a (put_obj a v' k) = Some (rc, put_obj a v2 (k\<lparr>k_pool := p, k_host := h\<rparr>))"
    using assms(7) by (simp add: init_obj_def put_obj_def)
  moreover have "us\<lparr>reg := UNREGISTERED\<rparr> = us" by (simp add: assms(4) [symmetric])
  ultimately show ?thesis
    using slot assms(2,4) init_rest_single [of "us\<lparr>reg := REGISTERING\<rparr>" a "[1..<PCIEM_MAX_FUNCTIONS]" env gfree a]
    by (simp add: pciem_ioctl_register_def pciem_start_registration_def pciem_cancel_registration_def
        pciem_complete_registration_def put_obj_def split: sum.splits)
qed

lemma register_works:
  assumes "slot_inv k us" and "num_funcs us = 1" and "slot_funcs us 0 = Some a" and "reg us = UNREGISTERED"
    and "k_objs k a = Some v" and "caps_fit v" and "\<forall>i<PCI_STD_NUM_BARS. active v i \<longrightarrow> carved_start (bars v i) \<noteq> 0"
    and "willing (env 0)" and "place_for (slot_mode us) (env 0) (k_host k)"
  shows "\<exists>k'. pciem_ioctl_register env gfree (Inr n) k us =
    Some (Inr n, k', us\<lparr>reg := REGISTERED, refcnt := refcnt us + 1\<rparr>)"
proof -
  have ok: "obj_ok us 0 a v" using slot_inv_obj(1) [OF assms(1,3)] assms(5) by simp
  then obtain v' where v': "pciem_build_config_space v = Some v'" "bars v' = bars v"
    using build_header [of v] assms(6) by (auto simp: obj_ok_def)
  have ok': "obj_ok us 0 a v'" using build_obj_ok [OF v'(1) ok] .
  have "active v' i = active v i" for i using v'(2) by (simp add: active_def upper_half_def prev_bar_def)
  then have "\<forall>i<PCI_STD_NUM_BARS. active v' i \<longrightarrow> carved_start (bars v' i) \<noteq> 0" using assms(7) v'(2) by simp
  then obtain h2 v2 where "pciem_complete_init (env 0) gfree (k_pool k) (k_host k) v' = (Inr (), k_pool k, h2, v2)"
    using complete_init_succeeds [OF assms(8), of v' "k_host k" gfree "k_pool k"] assms(9) ok' by (auto simp: obj_ok_def)
  from register_single [where env = env, OF assms(1-5) v'(1) this] show ?thesis by simp
qed

text \<open>
  Registration makes progress. A session that holds function 0 only, well-formed and with memory
  behind each of its BARs, is registered by one call whenever the kernel services succeed and there is a
  place for the device, in either bus mode: the call returns the instance descriptor, which holds a
  reference of its own, and no branch in between can fail or run out of bounds.
\<close>

theorem registration_succeeds:
  assumes "session_reach galloc search k0 (k, us)" and "\<forall>a\<ge>k_next k0. k_objs k0 a = None"
    and "num_funcs us = 1" and "slot_funcs us 0 = Some a" and "reg us = UNREGISTERED" and "k_objs k a = Some v"
    and "caps_fit v" and "\<forall>i<PCI_STD_NUM_BARS. active v i \<longrightarrow> carved_start (bars v i) \<noteq> 0"
    and "willing (env 0)" and "place_for (slot_mode us) (env 0) (k_host k)"
  shows "\<exists>k'. pciem_ioctl_register env gfree (Inr n) k us =
    Some (Inr n, k', us\<lparr>reg := REGISTERED, refcnt := refcnt us + 1\<rparr>)"
proof -
  have "slot_inv k us" using session_reach_inv [OF assms(1,2)] by simp
  from register_works [where env = env, OF this assms(3-10)] show ?thesis .
qed

subsection \<open>Accesses through the bus\<close>

text \<open>
  A read of configuration space calls the \<open>read\<close> of the operations the bus points to. The proxy takes
  the operations the bus points to now (\<open>cur\<close>) for its own, finds its state from their address, and
  passes what is not meant for its slot to the operations that were there before. \<open>Wild\<close> is an access
  to an object that is not there; \<open>None\<close> is a call that never returns.
\<close>

datatype bus_answer = Answer "pcibios \<times> u32" | Wild

partial_function (option) ops_read ::
    "(nat \<Rightarrow> rc_dev option) \<Rightarrow> (nat \<Rightarrow> nat \<Rightarrow> int \<Rightarrow> int \<Rightarrow> pcibios \<times> u32) \<Rightarrow> bus_ops \<Rightarrow> bus_ops \<Rightarrow>
       nat \<Rightarrow> nat \<Rightarrow> int \<Rightarrow> int \<Rightarrow> bus_answer option" where
  "ops_read objs host_read cur called busnr devfn pos sz =
     (case called of
        Host_ops \<Rightarrow> Some (Answer (host_read busnr devfn pos sz))
      | Proxy_of _ \<Rightarrow>
          (case cur of
             Host_ops \<Rightarrow> Some Wild
           | Proxy_of x \<Rightarrow>
               (case objs x of
                  None \<Rightarrow> Some Wild
                | Some func0 \<Rightarrow>
                    if Some busnr \<noteq> hj_bus func0 \<or> PCI_SLOT devfn \<noteq> hj_slot func0
                    then (case original_ops func0 of
                            None \<Rightarrow> Some Wild
                          | Some ops \<Rightarrow> ops_read objs host_read cur ops busnr devfn pos sz)
                    else if PCI_FUNC devfn \<ge> PCIEM_MAX_FUNCTIONS then Some (Answer (PCIBIOS_DEVICE_NOT_FOUND, - 1))
                    else (case siblings func0 (PCI_FUNC devfn) of
                            None \<Rightarrow> Some (Answer (PCIBIOS_DEVICE_NOT_FOUND, - 1))
                          | Some a \<Rightarrow>
                              (case objs a of
                                 None \<Rightarrow> Some Wild
                               | Some fn \<Rightarrow> Some (Answer (pciem_conf_read_impl (Some fn) pos sz)))))))"

text \<open>A read of the host bus of the attach-to-host mode.\<close>

definition bus_read ::
    "(nat \<Rightarrow> rc_dev option) \<Rightarrow> (nat \<Rightarrow> nat \<Rightarrow> int \<Rightarrow> int \<Rightarrow> pcibios \<times> u32) \<Rightarrow> host \<Rightarrow>
       nat \<Rightarrow> nat \<Rightarrow> int \<Rightarrow> int \<Rightarrow> bus_answer option" where
  "bus_read objs host_read h busnr devfn pos sz = ops_read objs host_read (busops h) (busops h) busnr devfn pos sz"

text \<open>The operations of a virtual root find the functions through the table of the bridge.\<close>

definition root_read :: "(nat \<Rightarrow> rc_dev option) \<Rightarrow> root \<Rightarrow> nat \<Rightarrow> int \<Rightarrow> int \<Rightarrow> bus_answer" where
  "root_read objs r devfn pos sz =
     (if \<exists>a. rb_funcs r (PCI_FUNC devfn) = Some a \<and> objs a = None \<and> PCI_SLOT devfn = 0 then Wild
      else Answer (vph_read_config (\<lambda>f. Option.bind (rb_funcs r f) objs) devfn pos sz))"

lemma complete_init_place:
  assumes "pciem_complete_init env gfree p h v = (Inr (), p', h', v')" "func_index v = 0"
  shows "rc_mode v = VIRTUAL_ROOT \<Longrightarrow> \<exists>b r d. pciem_pdev v' = Some d \<and> pd_bus d = b \<and> pd_devfn d = 0 \<and>
      root_buses h' b = Some r \<and> rb_funcs r = [0 \<mapsto> rc_id v]"
    and "rc_mode v = ATTACH_TO_HOST \<Longrightarrow> \<exists>d. pciem_pdev v' = Some d \<and> hj_bus v' = Some (pd_bus d) \<and>
      pd_devfn d = 8 * hj_slot v' \<and> hj_slot v' < 32 \<and> siblings v' 0 = Some (rc_id v) \<and>
      original_ops v' = Some (busops h) \<and> busops h' = Proxy_of (rc_id v)"
proof -
  obtain w where w: "bus_init env h w = (Inr (), h', v')" "same_ident v w" using complete_init_bus [OF assms(1)] by blast
  then have f: "func_index w = 0" "rc_id w = rc_id v" "rc_mode w = rc_mode v" using assms(2) by (simp_all add: same_ident_def)
  show "\<exists>b r d. pciem_pdev v' = Some d \<and> pd_bus d = b \<and> pd_devfn d = 0 \<and> root_buses h' b = Some r \<and> rb_funcs r = [0 \<mapsto> rc_id v]"
    if "rc_mode v = VIRTUAL_ROOT"
    using w(1) f that
    by (auto simp: bus_init_def pciem_init_virtual_root_mode_def Let_def split: option.splits if_splits prod.splits)
  have "free_slot rd is = Inr s \<Longrightarrow> s \<in> set is" for rd "is" s
    by (induction "is") (auto simp: Let_def split: prod.splits if_splits)
  from this [of _ "[Suc 0..<32]"] have slot: "free_slot rd [Suc 0..<32] = Inr s \<Longrightarrow> s < 32" for rd s by simp
  show "\<exists>d. pciem_pdev v' = Some d \<and> hj_bus v' = Some (pd_bus d) \<and> pd_devfn d = 8 * hj_slot v' \<and> hj_slot v' < 32 \<and>
      siblings v' 0 = Some (rc_id v) \<and> original_ops v' = Some (busops h) \<and> busops h' = Proxy_of (rc_id v)"
    if "rc_mode v = ATTACH_TO_HOST"
    using w(1) f that
    by (auto dest: slot simp: bus_init_def pciem_init_attach_to_host_mode_def pciem_find_free_slot_def place_frame Let_def
        split: option.splits if_splits sum.splits)
qed

text \<open>An access that its proxy passes on to operations that are a proxy again comes back to the same state.\<close>

lemma proxy_of_proxy_never_returns:
  assumes "ops_read objs host_read cur called busnr devfn pos sz = Some y"
  shows "\<not> (\<exists>x v y. cur = Proxy_of x \<and> called \<noteq> Host_ops \<and> objs x = Some v \<and> original_ops v = Some (Proxy_of y) \<and>
    (Some busnr \<noteq> hj_bus v \<or> PCI_SLOT devfn \<noteq> hj_slot v))"
proof (rule ops_read.raw_induct [where P = "\<lambda>objs host_read cur called busnr devfn pos sz y.
    \<not> (\<exists>x v y. cur = Proxy_of x \<and> called \<noteq> Host_ops \<and> objs x = Some v \<and> original_ops v = Some (Proxy_of y) \<and>
      (Some busnr \<noteq> hj_bus v \<or> PCI_SLOT devfn \<noteq> hj_slot v))", OF _ assms], goal_cases)
  case (1 f objs host_read cur called busnr devfn pos sz z)
  show ?case
  proof (rule notI, elim exE conjE)
    fix x v y
    assume a: "cur = Proxy_of x" "called \<noteq> Host_ops" "objs x = Some v" "original_ops v = Some (Proxy_of y)"
      "Some busnr \<noteq> hj_bus v \<or> PCI_SLOT devfn \<noteq> hj_slot v"
    then have "f objs host_read cur (Proxy_of y) busnr devfn pos sz = Some z"
      using 1(2) by (cases called) simp_all
    from 1(1) [OF this] show False using a by simp
  qed
qed

text \<open>
  Attaching keeps the other slots of the bus working only if the bus had its own operations before.
  After a successful attachment, an access to any other slot is answered by the host's operations. If the
  bus pointed to a proxy already (a second session in attach-to-host mode), the proxy passes the access on
  to the first proxy, which takes the bus operations for its own again and finds the second state: every
  access to another slot of the host bus recurses and never returns.
\<close>

theorem attach_foreign_slots:
  assumes "pciem_complete_init env gfree p h v = (Inr (), p', h', v')" and "func_index v = 0"
    and "rc_mode v = ATTACH_TO_HOST" and "objs (rc_id v) = Some v'"
    and "Some busnr \<noteq> hj_bus v' \<or> PCI_SLOT devfn \<noteq> hj_slot v'"
  shows "bus_read objs host_read h' busnr devfn pos sz =
    (case busops h of Host_ops \<Rightarrow> Some (Answer (host_read busnr devfn pos sz)) | Proxy_of _ \<Rightarrow> None)"
proof -
  note d = complete_init_place(2) [OF assms(1-3)]
  show ?thesis
  proof (cases "busops h")
    case Host_ops
    then show ?thesis using d assms(4,5) by (auto simp: bus_read_def ops_read.simps)
  next
    case (Proxy_of y)
    have "bus_read objs host_read h' busnr devfn pos sz \<noteq> Some z" for z
      using proxy_of_proxy_never_returns [of objs host_read "busops h'" "busops h'" busnr devfn pos sz z] d assms(4,5) Proxy_of
      by (auto simp: bus_read_def)
    then have "bus_read objs host_read h' busnr devfn pos sz = None" by (simp only: not_Some_eq [symmetric]) simp
    then show ?thesis using Proxy_of by simp
  qed
qed

lemma join_ids:
  "(ucast (ucast x :: u8) :: u32) OR push_bit 8 (ucast (ucast (drop_bit 8 x) :: u8))
     OR push_bit 16 (ucast (ucast y :: u8)) OR push_bit 24 (ucast (ucast (drop_bit 8 y) :: u8)) =
   push_bit 16 (ucast y) OR ucast x"
  for x y :: u16
proof (rule bit_word_eqI)
  fix n
  assume "n < LENGTH(32)"
  then consider "n < 8" | "8 \<le> n \<and> n < 16" | "16 \<le> n \<and> n < 24" | "24 \<le> n \<and> n < 32" by fastforce
  then show "bit ((ucast (ucast x :: u8) :: u32) OR push_bit 8 (ucast (ucast (drop_bit 8 x) :: u8))
     OR push_bit 16 (ucast (ucast y :: u8)) OR push_bit 24 (ucast (ucast (drop_bit 8 y) :: u8))) n =
     bit (push_bit 16 (ucast y) OR ucast x :: u32) n"
    by cases (auto simp: bit_simps dest: bit_imp_le_length)
qed

lemma identify_ids: "get32 (identify c f) 0 = push_bit 16 (ucast (device_id c)) OR ucast (vendor_id c)"
  using join_ids [of "vendor_id c" "device_id c"] by (simp add: get32_def identify_def poke_def le16_def eval_nat_numeral)

text \<open>The identifiers are read from the first register of a well-formed function.\<close>

lemma read_ids:
  assumes "conf_ok v"
  shows "pciem_conf_read_impl (Some v) 0 4 = (PCIBIOS_SUCCESSFUL, get32 (cfg v) 0)"
proof -
  have "plain_reg v 0 4" using assms cap_covers_range(1) [of _ _ 0]
    by (fastforce simp: plain_reg_def conf_ok_def caps_inv_def caps_fit_def in_bar_regs_def conf_consts split: option.splits)
  with assms show ?thesis using plain_access(1) [of v 0 4] by (simp add: conf_ok_def raw_read_def)
qed

text \<open>
  What a registration shows: at the place where the PCI core enumerated the device, through the
  operations of that bus (the proxy or the virtual root), the first register of the function.
\<close>

lemma register_shows:
  assumes "slot_inv k us" and "num_funcs us = 1" and "slot_funcs us 0 = Some a" and "reg us = UNREGISTERED"
    and "k_objs k a = Some w" and "caps_fit w" and "\<not> detaching w"
    and "pciem_ioctl_register env gfree (Inr n) k us = Some (Inr m, k2, us2)"
  shows "\<exists>v2 d. k_objs k2 a = Some v2 \<and> pciem_pdev v2 = Some d \<and>
    (case slot_mode us of
       VIRTUAL_ROOT \<Rightarrow> map_option (\<lambda>r. root_read (k_objs k2) r (pd_devfn d) 0 4) (root_buses (k_host k2) (pd_bus d))
     | ATTACH_TO_HOST \<Rightarrow> bus_read (k_objs k2) host_read (k_host k2) (pd_bus d) (pd_devfn d) 0 4) =
    Some (Answer (PCIBIOS_SUCCESSFUL, get32 (cfg w) 0))"
proof -
  have ok: "obj_ok us 0 a w" using slot_inv_obj(1) [OF assms(1,3)] assms(5) by simp
  then have "caps_inv w" by (simp add: obj_ok_def)
  then obtain w' where w': "pciem_build_config_space w = Some w'" "\<And>i. i < 64 \<Longrightarrow> i \<noteq> PCI_CAPABILITY_LIST \<Longrightarrow> cfg w' i = cfg w i"
      "cap_mgr w' = cap_mgr w" "bars w' = bars w" "detaching w' = detaching w"
    using build_header [of w thesis] assms(6) by simp
  obtain rc p h v2 where init: "pciem_complete_init (env 0) gfree (k_pool k) (k_host k) w' = (rc, p, h, v2)"
    by (cases "pciem_complete_init (env 0) gfree (k_pool k) (k_host k) w'")
  note reg = register_single [where env = env and n = n, OF assms(1-5) w'(1) init]
  obtain u where rc: "rc = Inr u" using reg assms(8) by (cases rc) auto
  have k2: "k2 = put_obj a v2 (k\<lparr>k_pool := p, k_host := h\<rparr>)" using reg assms(8) rc by simp
  have same: "same_ident w' v2" using complete_init_ident [OF init] .
  have idx: "func_index w' = 0" "rc_id w' = a" "rc_mode w' = slot_mode us" "caps_inv w'"
    using build_obj_ok [OF w'(1) ok] by (simp_all add: obj_ok_def)
  have "conf_ok v2" using same idx(4) assms(6,7) w'(3,5)
    by (simp add: same_ident_def conf_ok_def caps_inv_def caps_fit_def)
  have "get32 (cfg v2) 0 = get32 (cfg w) 0"
    using same w'(2) by (intro get32_cong) (simp_all add: same_ident_def PCI_CAPABILITY_LIST_def)
  then have rd: "pciem_conf_read_impl (Some v2) 0 4 = (PCIBIOS_SUCCESSFUL, get32 (cfg w) 0)"
    using read_ids [OF \<open>conf_ok v2\<close>] by simp
  have init': "pciem_complete_init (env 0) gfree (k_pool k) (k_host k) w' = (Inr (), p, h, v2)" using init rc by simp
  have objs: "k_objs k2 a = Some v2" "k_host k2 = h" by (simp_all add: k2 put_obj_def)
  show ?thesis
  proof (cases "slot_mode us")
    case VIRTUAL_ROOT
    then obtain r d where d: "pciem_pdev v2 = Some d" "pd_devfn d = 0" "root_buses h (pd_bus d) = Some r" "rb_funcs r = [0 \<mapsto> a]"
      using complete_init_place(1) [OF init' idx(1)] idx by auto
    then have "root_read (k_objs k2) r 0 0 4 = Answer (pciem_conf_read_impl (Some v2) 0 4)"
      using objs by (simp add: root_read_def vph_read_config_def vph_get_rc_for_devfn_def PCI_SLOT_def PCI_FUNC_def PCIEM_MAX_FUNCTIONS_def)
    then show ?thesis using d objs rd VIRTUAL_ROOT by simp
  next
    case ATTACH_TO_HOST
    then obtain d where d: "pciem_pdev v2 = Some d" "hj_bus v2 = Some (pd_bus d)" "pd_devfn d = 8 * hj_slot v2" "hj_slot v2 < 32"
        "siblings v2 0 = Some a" "busops h = Proxy_of a"
      using complete_init_place(2) [OF init' idx(1)] idx by auto
    then have "bus_read (k_objs k2) host_read (k_host k2) (pd_bus d) (pd_devfn d) 0 4 = Some (Answer (pciem_conf_read_impl (Some v2) 0 4))"
      using objs by (simp add: bus_read_def ops_read.simps [of _ _ _ "Proxy_of _"] PCI_SLOT_def PCI_FUNC_def PCIEM_MAX_FUNCTIONS_def)
    then show ?thesis using d(1) objs rd ATTACH_TO_HOST by simp
  qed
qed

text \<open>
  C3. The host finds the device user space described. After \<open>SET_CONFIG\<close> and a successful \<open>REGISTER\<close> of
  a session with function 0 only, a read of the first register at the place where the PCI core enumerated
  the device, through the operations of that bus (the proxy or the virtual root), answers the device and
  vendor identifiers of the request.
\<close>

theorem registered_device_visible:
  assumes "session_reach galloc search k0 (k, us)" and "\<forall>a\<ge>k_next k0. k_objs k0 a = None"
    and "num_funcs us = 1" and "slot_funcs us 0 = Some a" and "reg us = UNREGISTERED" and "k_objs k a = Some v"
    and "caps_fit v" and "\<not> detaching v"
    and "pciem_ioctl_set_config (Some c) k us = (Inr (), k1)" and "cs_func c = 0"
    and "pciem_ioctl_register env gfree (Inr n) k1 us = Some (Inr m, k2, us2)"
  shows "\<exists>v2 d. k_objs k2 a = Some v2 \<and> pciem_pdev v2 = Some d \<and>
    (case slot_mode us of
       VIRTUAL_ROOT \<Rightarrow> map_option (\<lambda>r. root_read (k_objs k2) r (pd_devfn d) 0 4) (root_buses (k_host k2) (pd_bus d))
     | ATTACH_TO_HOST \<Rightarrow> bus_read (k_objs k2) host_read (k_host k2) (pd_bus d) (pd_devfn d) 0 4) =
    Some (Answer (PCIBIOS_SUCCESSFUL, push_bit 16 (ucast (device_id c)) OR ucast (vendor_id c)))"
proof -
  define w where "w = v\<lparr>cfg := identify c (cfg v)\<rparr>"
  have inv: "slot_inv k us" using session_reach_inv [OF assms(1,2)] by simp
  have "k1 = put_obj a w k"
    using assms(9) by (simp add: pciem_ioctl_set_config_def with_func_def pciem_check_unregistered_def us_get_rc_def
        w_def PCIEM_MAX_FUNCTIONS_def assms(4-6,10))
  then have w1: "k_objs k1 a = Some w" by (simp add: put_obj_def)
  have wf: "caps_fit w" "\<not> detaching w" using assms(7,8) by (simp_all add: w_def caps_fit_def)
  have ids: "get32 (cfg w) 0 = push_bit 16 (ucast (device_id c)) OR ucast (vendor_id c)"
    using identify_ids by (simp add: w_def)
  show ?thesis
    using register_shows [OF set_config_inv [OF inv assms(9)] assms(3-5) w1 wf assms(11)] unfolding ids .
qed

subsection \<open>Witnesses\<close>

lemma sure_willing: "willing sure_env" "place_for ATTACH_TO_HOST sure_env h"
proof -
  have "[1..<32] = 1 # [2..<32::nat]" by (simp add: upt_rec)
  then show "willing sure_env" "place_for ATTACH_TO_HOST sure_env h"
    by (simp_all add: willing_def place_for_def sure_env_def pciem_find_suitable_root_bus_def pciem_find_free_slot_def
        absent_def Let_def)
qed

definition obj1 :: rc_dev where
  "obj1 = the (k_objs (fst (snd one_func)) 1)"

lemma obj1_facts: "k_objs (fst (snd one_func)) (Suc 0) = Some obj1" "caps_fit obj1" "\<not> detaching obj1" "bars obj1 = (\<lambda>_. bar0)"
    "func_index obj1 = 0" "rc_mode obj1 = ATTACH_TO_HOST" "rc_id obj1 = 1"
  by (simp_all add: obj1_def one_func_def create_defs kernel0_def session0_def pciem_init_cap_manager_def caps_fit_def
      std_fit_def std_caps_def)

theorem registration_succeeds_witness:
  "\<exists>k'. pciem_ioctl_register (\<lambda>_. sure_env) (\<lambda>g _ _. g) (Inr 7) (fst (snd one_func)) (snd (snd one_func)) =
    Some (Inr 7, k', (snd (snd one_func))\<lparr>reg := REGISTERED, refcnt := refcnt (snd (snd one_func)) + 1\<rparr>)"
  by (rule registration_succeeds [OF one_func_reach, of 1 obj1])
    (simp_all add: one_func_simps obj1_facts sure_willing kernel0_def active_def bar0_def)

theorem attach_foreign_slots_witness:
  "\<exists>h1 v1 h2 v2 devfn. pciem_complete_init sure_env (\<lambda>g _ _. g) pool0 host0 obj1 = (Inr (), pool0, h1, v1) \<and>
     pciem_complete_init sure_env (\<lambda>g _ _. g) pool0 h1 (obj1\<lparr>rc_id := 2\<rparr>) = (Inr (), pool0, h2, v2) \<and>
     PCI_SLOT devfn \<noteq> hj_slot v2 \<and>
     bus_read [1 \<mapsto> v1] (\<lambda>_ _ _ _. (PCIBIOS_SUCCESSFUL, 42)) h1 0 devfn 0 4 = Some (Answer (PCIBIOS_SUCCESSFUL, 42)) \<and>
     bus_read [1 \<mapsto> v1, 2 \<mapsto> v2] (\<lambda>_ _ _ _. (PCIBIOS_SUCCESSFUL, 42)) h2 0 devfn 0 4 = None"
proof -
  have bars: "\<forall>i<PCI_STD_NUM_BARS. active v i \<longrightarrow> carved_start (bars v i) \<noteq> 0" if "bars v = (\<lambda>_. bar0)" for v :: rc_dev
    using that by (simp add: active_def bar0_def)
  obtain h1 v1 where one: "pciem_complete_init sure_env (\<lambda>g _ _. g) pool0 host0 obj1 = (Inr (), pool0, h1, v1)"
    using complete_init_succeeds [OF sure_willing(1), of obj1 host0] sure_willing(2) bars obj1_facts by metis
  obtain h2 v2 where two: "pciem_complete_init sure_env (\<lambda>g _ _. g) pool0 h1 (obj1\<lparr>rc_id := 2\<rparr>) = (Inr (), pool0, h2, v2)"
    using complete_init_succeeds [OF sure_willing(1), of "obj1\<lparr>rc_id := 2\<rparr>" h1 "\<lambda>g _ _. g" pool0]
      sure_willing(2) [of h1] bars [of "obj1\<lparr>rc_id := 2\<rparr>"] obj1_facts(4-6) by (simp del: all_simps) metis
  note d1 = complete_init_place(2) [OF one obj1_facts(5,6)]
  have d2: "hj_slot v2 < 32" using complete_init_place(2) [OF two] obj1_facts by auto
  obtain s where s: "s < 32" "s \<noteq> hj_slot v1" "s \<noteq> hj_slot v2"
  proof -
    have "\<not> {0, 1, 2::nat} \<subseteq> {hj_slot v1, hj_slot v2}" using card_mono [of "{hj_slot v1, hj_slot v2}" "{0, 1, 2}"]
      by (auto simp: card_insert_if split: if_splits)
    then obtain s where "s \<in> {0, 1, 2}" "s \<notin> {hj_slot v1, hj_slot v2}" by blast
    then show ?thesis using that [of s] by auto
  qed
  have devfn: "PCI_SLOT (8 * s) = s" using s(1) by (simp add: PCI_SLOT_def)
  have "bus_read [1 \<mapsto> v1] (\<lambda>_ _ _ _. (PCIBIOS_SUCCESSFUL, 42)) h1 0 (8 * s) 0 4 = Some (Answer (PCIBIOS_SUCCESSFUL, 42))"
    using attach_foreign_slots [OF one obj1_facts(5,6), of "[1 \<mapsto> v1]" 0 "8 * s"] obj1_facts(7) s devfn by (simp add: host0_def)
  moreover have "busops h1 = Proxy_of 1" using d1 obj1_facts(7) by auto
  then have "bus_read [1 \<mapsto> v1, 2 \<mapsto> v2] (\<lambda>_ _ _ _. (PCIBIOS_SUCCESSFUL, 42)) h2 0 (8 * s) 0 4 = None"
    using attach_foreign_slots [OF two, of "[1 \<mapsto> v1, 2 \<mapsto> v2]" 0 "8 * s"] obj1_facts s devfn by simp
  ultimately show ?thesis using one two s devfn by (intro exI [of _ h1] exI [of _ v1] exI [of _ h2] exI [of _ v2] exI [of _ "8 * s"]) simp
qed

definition ids0 :: config_regs where
  "ids0 = \<lparr>cs_func = 0, vendor_id = 0x1AF4, device_id = 0x1001, subsys_vendor_id = 0, subsys_device_id = 0, revision = 1,
     class_prog = 0, class_sub = 0, class_base = 1, header_type = 0\<rparr>"

theorem registered_device_visible_witness:
  "\<exists>k1 k2 us2 v2 d. pciem_ioctl_set_config (Some ids0) (fst (snd one_func)) (snd (snd one_func)) = (Inr (), k1) \<and>
     pciem_ioctl_register (\<lambda>_. sure_env) (\<lambda>g _ _. g) (Inr 7) k1 (snd (snd one_func)) = Some (Inr 7, k2, us2) \<and>
     k_objs k2 1 = Some v2 \<and> pciem_pdev v2 = Some d \<and>
     bus_read (k_objs k2) (\<lambda>_ _ _ _. (PCIBIOS_DEVICE_NOT_FOUND, - 1)) (k_host k2) (pd_bus d) (pd_devfn d) 0 4 =
       Some (Answer (PCIBIOS_SUCCESSFUL, 0x10011AF4))"
proof -
  define k where "k = fst (snd one_func)"
  define us where "us = snd (snd one_func)"
  note f = one_func_simps [folded k_def us_def]
  have reach: "session_reach galloc0 search0 kernel0 (k, us)" using one_func_reach by (simp add: k_def us_def)
  have new: "\<forall>a\<ge>k_next kernel0. k_objs kernel0 a = None" by (simp add: kernel0_def)
  have obj: "k_objs k (Suc 0) = Some obj1" using obj1_facts(1) by (simp add: k_def)
  define k1 where "k1 = put_obj (Suc 0) (obj1\<lparr>cfg := identify ids0 (cfg obj1)\<rparr>) k"
  have set: "pciem_ioctl_set_config (Some ids0) k us = (Inr (), k1)"
    by (simp add: pciem_ioctl_set_config_def with_func_def pciem_check_unregistered_def us_get_rc_def f obj k1_def
        ids0_def PCIEM_MAX_FUNCTIONS_def)
  have inv1: "slot_inv k1 us" using set_config_inv [OF _ set] session_reach_inv [OF reach new] by simp
  have obj': "k_objs k1 (Suc 0) = Some (obj1\<lparr>cfg := identify ids0 (cfg obj1)\<rparr>)" by (simp add: k1_def put_obj_def)
  have wf: "caps_fit (obj1\<lparr>cfg := identify ids0 (cfg obj1)\<rparr>)" using obj1_facts(2) by (simp add: caps_fit_def)
  obtain k2 us2 where reg: "pciem_ioctl_register (\<lambda>_. sure_env) (\<lambda>g _ _. g) (Inr 7) k1 us = Some (Inr 7, k2, us2)"
    using register_works [OF inv1 f(2) _ f(4) obj' wf, of "\<lambda>_. sure_env" "\<lambda>g _ _. g" 7]
    by (auto simp: f obj1_facts(4) active_def bar0_def sure_willing)
  show ?thesis
    using registered_device_visible [OF reach new f(2) _ f(4) obj obj1_facts(2,3) set _ reg] set reg
    by (simp add: f k_def [symmetric] us_def [symmetric]) (simp add: ids0_def)
qed

subsection \<open>Mapping a BAR\<close>

text \<open>
  A BAR that \<open>get_bar_info\<close> describes can be mapped through the instance descriptor at the page offset
  made of function and index, and what is mapped starts at the page of the address described. The length
  is not part of the check: any number of bytes is handed out, whatever the size of the BAR.
\<close>

theorem described_bar_maps:
  assumes "pciem_ioctl_get_bar_info copy_ok (Some q) k us = Inr (pa, sz, fl)" "pa \<noteq> 0"
  shows "pciem_instance_mmap True len (push_bit 3 (ucast (bq_func q)) OR ucast (bq_index q)) k us = Inr (drop_bit PAGE_SHIFT pa, len)"
proof -
  let ?pg = "push_bit 3 (ucast (bq_func q)) OR ucast (bq_index q) :: u64"
  obtain v where v: "Option.bind (us_get_rc us (bq_func q)) (k_objs k) = Some v" "unat (bq_index q) < PCI_STD_NUM_BARS"
      "bar_size (bars v (unat (bq_index q))) \<noteq> 0" "pa = phys_addr (bars v (unat (bq_index q)))"
    using assms(1) by (auto simp: pciem_ioctl_get_bar_info_def Let_def split: sum.splits if_splits option.splits)
  have i: "unat (bq_index q) < 8" using v(2) by (simp add: PCI_STD_NUM_BARS_def)
  have small: "\<not> bit (bq_index q) n" if "3 \<le> n" for n
  proof -
    have "take_bit 3 (bq_index q) = bq_index q"
      using i by (simp add: word_unat_eq_iff unsigned_take_bit_eq take_bit_nat_eq_self)
    then show ?thesis using that by (metis bit_take_bit_iff not_le)
  qed
  have fn: "drop_bit 3 ?pg = ucast (bq_func q)"
    by (rule bit_word_eqI) (auto simp: bit_simps small dest: bit_imp_le_length)
  have "take_bit 3 ?pg = ucast (bq_index q)"
    using small by (intro bit_word_eqI) (auto simp: bit_simps dest: bit_imp_le_length intro: leI)
  then have ix: "?pg AND 7 = ucast (bq_index q)" by (simp add: take_bit_eq_mask mask_eq_exp_minus_1)
  have func: "unat (bq_func q) < PCIEM_MAX_FUNCTIONS" using v(1) by (auto simp: us_get_rc_def split: if_splits)
  have uf: "unat (ucast (bq_func q) :: u64) = unat (bq_func q)" "unat (ucast (bq_index q) :: u64) = unat (bq_index q)"
    by (auto simp: unsigned_ucast_eq intro!: take_bit_nat_eq_self order_less_le_trans [OF unsigned_less])
  show ?thesis unfolding pciem_instance_mmap_def Let_def fn ix uf
    using v func assms(2) by simp
qed

definition mapped_kernel :: "unit kernel" where
  "mapped_kernel = \<lparr>k_pool = pool0, k_host = host0,
     k_objs = [1 \<mapsto> set_bar dev0 2 (bar0\<lparr>bar_size := 0x1000, phys_addr := 0x100000000\<rparr>)], k_next = 2\<rparr>"

definition mapped_session :: session where
  "mapped_session = \<lparr>slot_funcs = [0 \<mapsto> 1], num_funcs = 1, slot_mode = VIRTUAL_ROOT, reg = REGISTERED, refcnt = 2\<rparr>"

text \<open>One megabyte of a BAR of one page.\<close>

theorem described_bar_maps_witness:
  "pciem_ioctl_get_bar_info True (Some \<lparr>bq_index = 2, bq_func = 0\<rparr>) mapped_kernel mapped_session = Inr (0x100000000, 0x1000, 0) \<and>
   pciem_instance_mmap True 0x100000 2 mapped_kernel mapped_session = Inr (0x100000, 0x100000)"
proof -
  have "pciem_ioctl_get_bar_info True (Some \<lparr>bq_index = 2, bq_func = 0\<rparr>) mapped_kernel mapped_session = Inr (0x100000000, 0x1000, 0)"
    by (simp add: pciem_ioctl_get_bar_info_def pciem_check_registered_def us_get_rc_def PCIEM_MAX_FUNCTIONS_def
        PCI_STD_NUM_BARS_def mapped_kernel_def mapped_session_def bar0_def)
  with described_bar_maps [OF this, of "0x100000"] show ?thesis by (simp add: PAGE_SHIFT_def)
qed

end
