(* ===== verification/SessionRaces.thy ===== *)
theory SessionRaces
  imports Visible
begin

text \<open>
  Several threads on one session: the ioctls of \<^verbatim>\<open>userspace.c\<close> share it without a common lock. A step
  is what one thread does between two points where another can run: the two critical sections of
  \<open>pciem_ioctl_create_device\<close> with the allocation between them, the check of a describing ioctl and its
  effect, and the three updates of the registration state.
\<close>

datatype thread =
    Idle
  | Checked nat u32
  | Made nat nat
  | Describing nat
  | Registering

type_synonym 'g slot_state = "'g kernel \<times> session \<times> (nat \<Rightarrow> thread)"

inductive race_step :: "'g slot_state \<Rightarrow> 'g slot_state \<Rightarrow> bool" where
  create_begin: "ts t = Idle \<Longrightarrow> f < PCIEM_MAX_FUNCTIONS \<Longrightarrow> create_check us f = Inr () \<Longrightarrow>
     race_step (k, us, ts) (k, us, ts(t := Checked f flags))"
| create_fail: "ts t = Checked f flags \<Longrightarrow> pciem_alloc_root_complex mem_ok (k_next k) = Inl e \<Longrightarrow>
     race_step (k, us, ts) (k, us, ts(t := Idle))"
| create_make: "ts t = Checked f flags \<Longrightarrow> pciem_alloc_root_complex mem_ok (k_next k) = Inr v \<Longrightarrow>
     create_object cap_ok flags f us v = (us', v') \<Longrightarrow>
     race_step (k, us, ts)
       (k\<lparr>k_objs := (k_objs k)(k_next k := Some v'), k_next := k_next k + 1\<rparr>, us', ts(t := Made f (k_next k)))"
| create_end: "ts t = Made f a \<Longrightarrow> race_step (k, us, ts) (k, create_commit f a us, ts(t := Idle))"
| describe_begin: "ts t = Idle \<Longrightarrow> pciem_check_unregistered us = Inr () \<Longrightarrow> slot_funcs us f = Some a \<Longrightarrow>
     race_step (k, us, ts) (k, us, ts(t := Describing a))"
| describe_end: "ts t = Describing a \<Longrightarrow> k_objs k a = Some v \<Longrightarrow>
     race_step (k, us, ts) (put_obj a (v\<lparr>cfg := identify c (cfg v)\<rparr>) k, us, ts(t := Idle))"
| register_begin: "ts t = Idle \<Longrightarrow> pciem_start_registration us = (Inr (), us') \<Longrightarrow>
     race_step (k, us, ts) (k, us', ts(t := Registering))"
| register_fail: "ts t = Registering \<Longrightarrow> race_step (k, us, ts) (k, pciem_cancel_registration us, ts(t := Idle))"
| register_done: "ts t = Registering \<Longrightarrow> race_step (k, us, ts) (k, pciem_complete_registration us, ts(t := Idle))"

inductive race_reach :: "'g kernel \<Rightarrow> 'g slot_state \<Rightarrow> bool" for k0 where
  opened: "pciem_userspace_create m r w = Inr us \<Longrightarrow> race_reach k0 (k0, us, \<lambda>_. Idle)"
| step: "race_reach k0 s \<Longrightarrow> race_step s s' \<Longrightarrow> race_reach k0 s'"

subsection \<open>Registration excludes itself\<close>

definition reg_inv :: "'g slot_state \<Rightarrow> bool" where
  "reg_inv s \<longleftrightarrow> (case s of (k, us, ts) \<Rightarrow>
     (\<forall>t. ts t = Registering \<longrightarrow> reg us = REGISTERING) \<and>
     (reg us = REGISTERING \<longrightarrow> (\<exists>t. ts t = Registering)) \<and>
     (\<forall>t u. ts t = Registering \<longrightarrow> ts u = Registering \<longrightarrow> t = u))"

lemma reg_inv_other:
  assumes "reg_inv (k, us, ts)" "reg us' = reg us" "ts t \<noteq> Registering" "x \<noteq> Registering"
  shows "reg_inv (k', us', ts(t := x))"
  using assms unfolding reg_inv_def by (auto split: if_splits)

lemma reg_inv_step: "race_step s s' \<Longrightarrow> reg_inv s \<Longrightarrow> reg_inv s'"
proof (induction rule: race_step.induct)
  case (create_make ts t f flags mem_ok k v cap_ok us us' v')
  then have "reg us' = reg us" by (auto simp: create_object_def Let_def split: if_splits)
  with create_make show ?case by (simp add: reg_inv_other)
next
  case (register_begin ts t us us' k)
  then have "reg us = UNREGISTERED" "us' = us\<lparr>reg := REGISTERING\<rparr>"
    by (auto simp: pciem_start_registration_def split: if_splits reg_state.splits)
  with register_begin(3) show ?case by (auto simp: reg_inv_def)
next
  case (register_fail ts t k us)
  then show ?case by (auto simp: reg_inv_def pciem_cancel_registration_def)
next
  case (register_done ts t k us)
  then show ?case by (auto simp: reg_inv_def pciem_complete_registration_def)
qed (simp_all add: reg_inv_other create_commit_def)

lemma reg_inv_reach: "race_reach k0 s \<Longrightarrow> reg_inv s"
proof (induction rule: race_reach.induct)
  case (opened m r w us)
  then show ?case by (auto simp: pciem_userspace_create_def reg_inv_def split: if_splits)
qed (rule reg_inv_step)

text \<open>
  C31. Registration excludes itself. However the ioctls of the threads interleave, at most one of them is
  between the start of a registration and its end, the state says \<open>REGISTERING\<close> exactly while one is,
  and a registered session stays registered: no step of any thread takes it back.
\<close>

theorem registration_exclusive:
  assumes "race_reach k0 (k, us, ts)"
  shows "(\<forall>t u. ts t = Registering \<longrightarrow> ts u = Registering \<longrightarrow> t = u) \<and>
    (reg us = REGISTERING \<longleftrightarrow> (\<exists>t. ts t = Registering)) \<and>
    (\<forall>k' us' ts'. race_step (k, us, ts) (k', us', ts') \<longrightarrow> reg us = REGISTERED \<longrightarrow> reg us' = REGISTERED)"
proof -
  note inv = reg_inv_reach [OF assms, unfolded reg_inv_def, simplified]
  have "reg us' = REGISTERED" if "race_step (k, us, ts) (k', us', ts')" "reg us = REGISTERED" for k' us' ts'
    using that(1)
  proof cases
    case create_make
    then show ?thesis using that(2) by (auto simp: create_object_def Let_def split: if_splits)
  next
    case (register_begin t)
    then show ?thesis using that(2) by (auto simp: pciem_start_registration_def split: if_splits)
  next
    case (register_fail t)
    then show ?thesis using inv that(2) by auto
  qed (use that(2) in \<open>simp_all add: create_commit_def pciem_complete_registration_def\<close>)
  then show ?thesis using inv by blast
qed

lemma race_steps:
  "race_reach k0 s \<Longrightarrow> race_step s s1 \<Longrightarrow> race_step s1 s2 \<Longrightarrow> race_reach k0 s2"
  by (blast intro: race_reach.step)

subsection \<open>Creation does not\<close>

definition addr_inv :: "'g slot_state \<Rightarrow> bool" where
  "addr_inv s \<longleftrightarrow> (case s of (k, us, ts) \<Rightarrow>
     (\<forall>f a. slot_funcs us f = Some a \<longrightarrow> a < k_next k) \<and> (\<forall>t f a. ts t = Made f a \<longrightarrow> a < k_next k))"

lemma addr_inv_step: "race_step s s' \<Longrightarrow> addr_inv s \<Longrightarrow> addr_inv s'"
proof (induction rule: race_step.induct)
  case (create_make ts t f flags mem_ok k v cap_ok us us' v')
  then have "slot_funcs us' = slot_funcs us" by (auto simp: create_object_def Let_def split: if_splits)
  with create_make show ?case by (auto simp: addr_inv_def less_Suc_eq)
next
  case (register_begin ts t us us' k)
  then have "slot_funcs us' = slot_funcs us" by (auto simp: pciem_start_registration_def split: if_splits reg_state.splits)
  with register_begin show ?case by (auto simp: addr_inv_def)
qed (auto simp: addr_inv_def create_commit_def put_obj_def pciem_cancel_registration_def pciem_complete_registration_def)

lemma addr_inv_reach: "race_reach k0 s \<Longrightarrow> addr_inv s"
proof (induction rule: race_reach.induct)
  case (opened m r w us)
  then show ?case by (auto simp: pciem_userspace_create_def addr_inv_def split: if_splits)
qed (rule addr_inv_step)

text \<open>
  Creating a function is not atomic. The check that a place of the slot is empty and the store into
  it are two critical sections, and the count is raised without looking again: from every reachable state
  in which two threads are free and a function may be created, both can create it. The second one
  replaces the first object, which no place of the slot refers to any more and no release will free, and
  the count of functions exceeds their number from then on.
\<close>

theorem concurrent_create_leaks:
  assumes "race_reach k0 (k, us, ts)" and "ts t = Idle" and "ts u = Idle" and "t \<noteq> u"
    and "f < PCIEM_MAX_FUNCTIONS" and "create_check us f = Inr ()"
  shows "\<exists>k' us'. race_reach k0 (k', us', ts) \<and> num_funcs us' = num_funcs us + 2 \<and>
    slot_funcs us' = (slot_funcs us)(f \<mapsto> k_next k + 1) \<and> k_objs k' (k_next k) \<noteq> None \<and> k_next k \<notin> ran (slot_funcs us')"
proof -
  obtain v where v: "pciem_alloc_root_complex True (k_next k) = Inr v" by (simp add: pciem_alloc_root_complex_def)
  obtain w where w: "pciem_alloc_root_complex True (k_next k + 1) = Inr w" by (simp add: pciem_alloc_root_complex_def)
  obtain us1 v1 where one: "create_object True 0 f us v = (us1, v1)" by (cases "create_object True 0 f us v")
  obtain us2 w1 where two: "create_object True 0 f us1 w = (us2, w1)" by (cases "create_object True 0 f us1 w")
  define k1 where "k1 = k\<lparr>k_objs := (k_objs k)(k_next k := Some v1), k_next := k_next k + 1\<rparr>"
  define k2 where "k2 = k1\<lparr>k_objs := (k_objs k1)(k_next k1 := Some w1), k_next := k_next k1 + 1\<rparr>"
  define ts0 where "ts0 = ts(t := Checked f 0, u := Checked f 0)"
  define ts1 where "ts1 = ts0(t := Made f (k_next k))"
  define ts2 where "ts2 = ts1(u := Made f (k_next k1))"
  have us2: "slot_funcs us2 = slot_funcs us" "num_funcs us2 = num_funcs us"
    using one two by (auto simp: create_object_def Let_def split: if_splits)
  have s1: "race_step (k, us, ts) (k, us, ts(t := Checked f 0))" by (rule race_step.create_begin) (use assms in simp_all)
  have s2: "race_step (k, us, ts(t := Checked f 0)) (k, us, ts0)"
    unfolding ts0_def by (rule race_step.create_begin) (use assms in simp_all)
  have s3: "race_step (k, us, ts0) (k1, us1, ts1)"
    unfolding k1_def ts1_def by (rule race_step.create_make [OF _ v one]) (simp add: ts0_def assms(4))
  have s4: "race_step (k1, us1, ts1) (k2, us2, ts2)"
    unfolding k2_def ts2_def by (rule race_step.create_make [OF _ _ two]) (use w assms(4) in \<open>auto simp: ts1_def ts0_def k1_def\<close>)
  have s5: "race_step (k2, us2, ts2) (k2, create_commit f (k_next k) us2, ts2(t := Idle))"
    by (rule race_step.create_end) (simp add: ts2_def ts1_def assms(4))
  have s6: "race_step (k2, create_commit f (k_next k) us2, ts2(t := Idle))
      (k2, create_commit f (k_next k1) (create_commit f (k_next k) us2), ts2(t := Idle, u := Idle))"
    by (rule race_step.create_end) (use assms(4) in \<open>simp add: ts2_def\<close>)
  have "ts2(t := Idle, u := Idle) = ts" using assms(2,3) by (auto simp: ts2_def ts1_def ts0_def)
  with race_steps [OF race_steps [OF race_steps [OF assms(1) s1 s2] s3 s4] s5 s6]
  have reach: "race_reach k0 (k2, create_commit f (k_next k1) (create_commit f (k_next k) us2), ts)" by simp
  moreover have "k_next k \<notin> ran ((slot_funcs us)(f \<mapsto> k_next k + 1))"
    using addr_inv_reach [OF assms(1)] by (auto simp: addr_inv_def ran_def)
  ultimately show ?thesis using us2
    by (intro exI [of _ k2] exI [of _ "create_commit f (k_next k1) (create_commit f (k_next k) us2)"])
      (simp add: create_commit_def k2_def k1_def)
qed

lemma race_opened: "race_reach kernel0 (kernel0, session0, \<lambda>_. Idle)"
  by (rule race_reach.opened [of True True True]) (simp add: pciem_userspace_create_def session0_def)

lemma race_registering: "\<exists>k us. race_reach kernel0 (k, us, (\<lambda>_. Idle)(5 := Registering))"
proof -
  obtain v where v: "pciem_alloc_root_complex True (k_next kernel0) = Inr v" by (simp add: pciem_alloc_root_complex_def)
  obtain us1 v1 where obj: "create_object True 0 0 session0 v = (us1, v1)" by (cases "create_object True 0 0 session0 v")
  have s1: "race_step (kernel0, session0, \<lambda>_. Idle) (kernel0, session0, (\<lambda>_. Idle)(5 := Checked 0 0))"
    by (rule race_step.create_begin) (simp_all add: PCIEM_MAX_FUNCTIONS_def create_check_def session0_def)
  have s2: "race_step (kernel0, session0, (\<lambda>_. Idle)(5 := Checked 0 0))
      (kernel0\<lparr>k_objs := (k_objs kernel0)(k_next kernel0 := Some v1), k_next := k_next kernel0 + 1\<rparr>, us1,
       (\<lambda>_. Idle)(5 := Checked 0 0, 5 := Made 0 (k_next kernel0)))"
    by (rule race_step.create_make [OF _ v obj]) simp
  have s3: "race_step (k, us1, (\<lambda>_. Idle)(5 := Checked 0 0, 5 := Made 0 a)) (k, create_commit 0 a us1, \<lambda>_. Idle)"
    for k :: "unit kernel" and a
    using race_step.create_end [of "(\<lambda>_. Idle)(5 := Made 0 a)" 5 0 a k us1] by (simp add: fun_upd_idem)
  have s4: "race_step (k, create_commit 0 a us1, \<lambda>_. Idle)
      (k, (create_commit 0 a us1)\<lparr>reg := REGISTERING\<rparr>, (\<lambda>_. Idle)(5 := Registering))" for k :: "unit kernel" and a
    by (rule race_step.register_begin)
      (use obj in \<open>auto simp: pciem_start_registration_def create_commit_def create_object_def session0_def Let_def\<close>)
  from race_steps [OF race_steps [OF race_opened s1 s2] s3 s4] show ?thesis by (intro exI)
qed

theorem registration_exclusive_witness:
  "\<exists>k us. race_reach kernel0 (k, us, (\<lambda>_. Idle)(5 := Registering)) \<and> reg us = REGISTERING"
proof -
  obtain k us where "race_reach kernel0 (k, us, (\<lambda>_. Idle)(5 := Registering))" using race_registering by blast
  moreover from registration_exclusive [OF this, THEN conjunct2, THEN conjunct1] have "reg us = REGISTERING" by (metis fun_upd_same)
  ultimately show ?thesis by blast
qed

theorem concurrent_create_leaks_witness:
  "\<exists>k us. race_reach kernel0 (k, us, \<lambda>_. Idle) \<and> num_funcs us = 2 \<and> slot_funcs us = [0 \<mapsto> 2] \<and> k_objs k 1 \<noteq> None"
proof -
  have "create_check session0 0 = Inr ()" "k_next kernel0 = 1" "num_funcs session0 = 0" "slot_funcs session0 = (\<lambda>_. None)"
    by (simp_all add: kernel0_def session0_def create_check_def)
  with concurrent_create_leaks [OF race_opened, of 0 1 0] obtain k us where
    "race_reach kernel0 (k, us, \<lambda>_. Idle)" "num_funcs us = 2" "slot_funcs us = [0 \<mapsto> 2]" "k_objs k 1 \<noteq> None"
    by (auto simp: PCIEM_MAX_FUNCTIONS_def numeral_2_eq_2 simp del: not_None_eq)
  then show ?thesis by blast
qed

end
