(* ===== verification/Ring.thy ===== *)
theory Ring
  imports Prelude "HOL-Library.Signed_Division"
begin

text \<open>
  The event ring shared between the kernel and user space and its notification
  (\<^verbatim>\<open>kernel/framework/userspace.c\<close>), with the two kinds of consumer of the repository:
  \<^verbatim>\<open>examples/protopciem/userspace/protopciem_card.c\<close> and
  \<^verbatim>\<open>examples/bochs_bga/bochs_card.c\<close>.

  \<open>head\<close> and \<open>tail\<close> are 32-bit counters in memory that user space can write; the kernel reads them
  as signed integers, with the signed remainder of C. A push that would write outside
  \<open>events[256]\<close> is the outcome \<open>None\<close>, and so is a notification through a NULL eventfd.

  The contract of the ring is the locale \<open>bounded_queue\<close>; the kernel's push and the consumer's
  pop are an interpretation of it as long as both counters stay in range.
\<close>

record event =
  ev_seq :: u64
  ev_type :: u32
  ev_bar :: u32
  ev_offset :: u64
  ev_size :: u32
  ev_data :: u64
  ev_timestamp :: u64

definition PCIEM_RING_SIZE :: int where
  "PCIEM_RING_SIZE = 256"

record shared_ring =
  ring_head :: u32
  ring_tail :: u32
  events :: "nat \<Rightarrow> event"

definition ring_next :: "u32 \<Rightarrow> u32" where
  "ring_next t = word_of_int (sint (t + 1) smod PCIEM_RING_SIZE)"

definition pciem_shared_ring_push :: "shared_ring \<Rightarrow> event \<Rightarrow> (bool \<times> shared_ring) option" where
  "pciem_shared_ring_push r ev =
     (let tail = ring_tail r; next_tail = ring_next tail; head = ring_head r
      in if next_tail = head then Some (False, r)
         else if 0 \<le> sint tail \<and> sint tail < PCIEM_RING_SIZE
         then Some (True, r\<lparr>events := (events r)(nat (sint tail) := ev), ring_tail := next_tail\<rparr>)
         else None)"

definition pciem_shared_ring_alloc :: "(nat \<Rightarrow> event) \<Rightarrow> bool \<Rightarrow> shared_ring res" where
  "pciem_shared_ring_alloc zeroed page_ok =
     (if \<not> page_ok then Inl ENOMEM
      else Inr \<lparr>ring_head = 0, ring_tail = 0, events = zeroed\<rparr>)"

subsection \<open>Consumers\<close>

text \<open>One round of the consumer of protopciem: take the event at \<open>head\<close>, advance modulo the size.\<close>

definition ring_pop :: "shared_ring \<Rightarrow> (event \<times> shared_ring) option" where
  "ring_pop r =
     (let head = ring_head r; tail = ring_tail r
      in if head = tail then None
         else Some (events r (unat head), r\<lparr>ring_head := ring_next head\<rparr>))"

text \<open>
  The consumer of bochs_bga: \<open>tail\<close> is read once, the unsigned \<open>head\<close> runs up to it, reduced modulo
  the size only to index the events. The result is the handled events and the last \<open>head\<close> stored.
\<close>

function bochs_drain :: "(nat \<Rightarrow> event) \<Rightarrow> u32 \<Rightarrow> u32 \<Rightarrow> event list \<times> u32" where
  "bochs_drain evs head tail =
     (if head \<noteq> tail then
        (let ev = evs (unat head mod 256); (rest, h) = bochs_drain evs (head + 1) tail
         in (ev # rest, h))
      else ([], head))"
  by pat_completeness auto
termination
proof (relation "measure (\<lambda>(evs, head, tail). unat (tail - head))")
  fix evs :: "nat \<Rightarrow> event" and head tail :: u32
  assume "head \<noteq> tail"
  then have "tail - head \<noteq> 0" by simp
  then have "unat (tail - head - 1) < unat (tail - head)"
    by (metis measure_unat)
  then show "((evs, head + 1, tail), evs, head, tail) \<in> measure (\<lambda>(evs, head, tail). unat (tail - head))"
    by (simp add: diff_diff_eq)
qed simp_all

declare bochs_drain.simps [simp del]

subsection \<open>Notification\<close>

record notifier =
  eventfd :: "nat option"
  event_pending :: bool
  signals :: "nat \<Rightarrow> nat"

definition pciem_eventfd_signal :: "'a notifier_scheme \<Rightarrow> 'a notifier_scheme option" where
  "pciem_eventfd_signal us =
     (case eventfd us of None \<Rightarrow> None
      | Some e \<Rightarrow> Some (us\<lparr>signals := (signals us)(e := signals us e + 1)\<rparr>))"

definition notify_event :: "'a notifier_scheme \<Rightarrow> 'a notifier_scheme option" where
  "notify_event us =
     (case eventfd us of Some _ \<Rightarrow> pciem_eventfd_signal us
      | None \<Rightarrow> Some (us\<lparr>event_pending := True\<rparr>))"

record us_events = notifier +
  shared_ring :: shared_ring

definition pciem_userspace_queue_event :: "u64 \<Rightarrow> us_events option \<Rightarrow> event \<Rightarrow> us_events option option" where
  "pciem_userspace_queue_event now uso ev =
     (case uso of
        None \<Rightarrow> Some None
      | Some us \<Rightarrow>
          (case pciem_shared_ring_push (shared_ring us) (ev\<lparr>ev_timestamp := now\<rparr>) of
             None \<Rightarrow> None
           | Some (_, r) \<Rightarrow> map_option Some (notify_event (us\<lparr>shared_ring := r\<rparr>))))"

text \<open>
  \<open>pciem_ioctl_set_eventfd\<close> in its two critical steps; \<open>fdget\<close> is the kernel's lookup of a
  descriptor. The ioctl exchanges the eventfd under the lock, then looks at what was pending.
\<close>

definition eventfd_install :: "'a notifier_scheme \<Rightarrow> nat option \<Rightarrow> nat option \<times> 'a notifier_scheme" where
  "eventfd_install us new = (eventfd us, us\<lparr>eventfd := new\<rparr>)"

definition eventfd_finish :: "'a notifier_scheme \<Rightarrow> nat option \<Rightarrow> 'a notifier_scheme option" where
  "eventfd_finish us old =
     (case old of
        Some _ \<Rightarrow> Some us
      | None \<Rightarrow> if event_pending us then pciem_eventfd_signal (us\<lparr>event_pending := False\<rparr>) else Some us)"

definition pciem_ioctl_set_eventfd ::
    "(int \<Rightarrow> nat res) \<Rightarrow> 'a notifier_scheme \<Rightarrow> int option \<Rightarrow> (unit res \<times> 'a notifier_scheme) option" where
  "pciem_ioctl_set_eventfd fdget us arg =
     (case arg of
        None \<Rightarrow> Some (Inl EFAULT, us)
      | Some fd \<Rightarrow>
          (case (if fd \<ge> 0 then map_sum id Some (fdget fd) else Inr None) of
             Inl e \<Rightarrow> Some (Inl e, us)
           | Inr new \<Rightarrow>
               (let (old, us') = eventfd_install us new
                in map_option (Pair (Inr ())) (eventfd_finish us' old))))"

subsection \<open>The contract of a bounded queue\<close>

datatype 'e queue_op = Push 'e | Pop

datatype 'e queue_answer = Accepted | Refused | Taken 'e | Nothing

text \<open>What the operations answer, one after the other; and the queue of at most \<open>cap\<close> elements they should be.\<close>

fun run_queue ::
    "('s \<Rightarrow> 'e \<Rightarrow> (bool \<times> 's) option) \<Rightarrow> ('s \<Rightarrow> ('e \<times> 's) option) \<Rightarrow> 'e queue_op list \<Rightarrow>
       's \<Rightarrow> ('e queue_answer list \<times> 's) option" where
  "run_queue enq deq [] s = Some ([], s)"
| "run_queue enq deq (Push e # ops) s =
     (case enq s e of
        None \<Rightarrow> None
      | Some (ok, s') \<Rightarrow> map_option (map_prod ((#) (if ok then Accepted else Refused)) id) (run_queue enq deq ops s'))"
| "run_queue enq deq (Pop # ops) s =
     (case deq s of
        None \<Rightarrow> map_option (map_prod ((#) Nothing) id) (run_queue enq deq ops s)
      | Some (e, s') \<Rightarrow> map_option (map_prod ((#) (Taken e)) id) (run_queue enq deq ops s'))"

fun queue_spec :: "nat \<Rightarrow> 'e queue_op list \<Rightarrow> 'e list \<Rightarrow> 'e queue_answer list \<times> 'e list" where
  "queue_spec cap [] q = ([], q)"
| "queue_spec cap (Push e # ops) q =
     (if length q < cap then map_prod ((#) Accepted) id (queue_spec cap ops (q @ [e]))
      else map_prod ((#) Refused) id (queue_spec cap ops q))"
| "queue_spec cap (Pop # ops) [] = map_prod ((#) Nothing) id (queue_spec cap ops [])"
| "queue_spec cap (Pop # ops) (e # q) = map_prod ((#) (Taken e)) id (queue_spec cap ops q)"

locale bounded_queue =
  fixes enq :: "'s \<Rightarrow> 'e \<Rightarrow> (bool \<times> 's) option" and deq :: "'s \<Rightarrow> ('e \<times> 's) option"
    and content :: "'s \<Rightarrow> 'e list" and inv :: "'s \<Rightarrow> bool" and capacity :: nat
  assumes enq_spec: "inv s \<Longrightarrow> \<exists>s'. enq s e = Some (length (content s) < capacity, s') \<and> inv s' \<and>
      content s' = (if length (content s) < capacity then content s @ [e] else content s)"
    and deq_empty: "inv s \<Longrightarrow> content s = [] \<Longrightarrow> deq s = None"
    and deq_spec: "inv s \<Longrightarrow> content s = e # es \<Longrightarrow> \<exists>s'. deq s = Some (e, s') \<and> inv s' \<and> content s' = es"
begin

text \<open>
  Any interleaving of pushes and pops runs without fault and answers what the specification answers:
  nothing is lost, duplicated, reordered or refused without need.
\<close>

lemma fifo:
  "inv s \<Longrightarrow> \<exists>s'. run_queue enq deq ops s = Some (fst (queue_spec capacity ops (content s)), s') \<and>
    inv s' \<and> content s' = snd (queue_spec capacity ops (content s))"
proof (induction ops arbitrary: s)
  case (Cons op ops)
  show ?case
  proof (cases op)
    case (Push e)
    from enq_spec [OF Cons.prems, of e] obtain s' where s': "inv s'"
      "enq s e = Some (length (content s) < capacity, s')"
      "content s' = (if length (content s) < capacity then content s @ [e] else content s)"
      by blast
    from Cons.IH [OF s'(1)] s'(2,3) show ?thesis
      by (cases "length (content s) < capacity") (auto simp: Push)
  next
    case Pop
    show ?thesis
    proof (cases "content s")
      case Nil
      from Cons.IH [OF Cons.prems] show ?thesis
        by (auto simp: Pop Nil deq_empty [OF Cons.prems Nil])
    next
      case (Cons e es)
      from deq_spec [OF \<open>inv s\<close> Cons] obtain s' where s': "deq s = Some (e, s')" "inv s'" "content s' = es"
        by blast
      from Cons.IH [OF s'(2)] show ?thesis by (auto simp: Pop Cons s'(1,3))
    qed
  qed
qed simp

end

subsection \<open>The ring keeps the contract\<close>

definition ring_ok :: "shared_ring \<Rightarrow> bool" where
  "ring_ok r \<longleftrightarrow> unat (ring_head r) < 256 \<and> unat (ring_tail r) < 256"

definition ring_len :: "nat \<Rightarrow> nat \<Rightarrow> nat" where
  "ring_len h t = (if h \<le> t then t - h else t + 256 - h)"

definition ring_content :: "shared_ring \<Rightarrow> event list" where
  "ring_content r = map (\<lambda>k. events r ((unat (ring_head r) + k) mod 256))
     [0..<ring_len (unat (ring_head r)) (unat (ring_tail r))]"

lemma ring_next_nat:
  assumes "unat t < 256"
  shows "unat (ring_next t) = (unat t + 1) mod 256" "sint t = int (unat t)"
proof -
  have si: "sint x = int (unat x)" if "unat x < 2 ^ 31" for x :: u32
  proof -
    have "uint x < 2 ^ 31" using that by (metis of_nat_less_iff of_nat_numeral of_nat_power uint_nat)
    moreover have "- (2 ^ 31) \<le> uint x" using unsigned_greater_eq [of x] by (rule order_trans [rotated]) simp
    ultimately have "signed_take_bit 31 (uint x) = uint x" by (intro signed_take_bit_int_eq_self)
    then show ?thesis by (simp add: sint_uint)
  qed
  then show s: "sint t = int (unat t)" using assms by simp
  have u: "unat (t + 1) = unat t + 1" using assms by (subst unat_add_small) simp_all
  then have "sint (t + 1) = int (unat t + 1)" using si [of "t + 1"] assms by simp
  then have "ring_next t = word_of_int (int ((unat t + 1) mod 256))"
    by (simp only: ring_next_def PCIEM_RING_SIZE_def signed_modulo_int_def zmod_int sgn_of_nat abs_of_nat)
      simp
  then show "unat (ring_next t) = (unat t + 1) mod 256"
    by (simp add: unsigned_of_nat take_bit_nat_eq_self)
qed

lemma ring_content_nth:
  assumes "k < length (ring_content r)"
  shows "ring_content r ! k = events r ((unat (ring_head r) + k) mod 256)"
  using assms by (simp add: ring_content_def)

lemma ring_len_facts:
  assumes "h < 256" "t < 256"
  shows "ring_len h t < 256" "ring_len h t = 0 \<longleftrightarrow> h = t" "(t + 1) mod 256 = h \<longleftrightarrow> ring_len h t = 255"
    and "(t + 1) mod 256 \<noteq> h \<Longrightarrow> ring_len h ((t + 1) mod 256) = ring_len h t + 1"
    and "h \<noteq> t \<Longrightarrow> ring_len ((h + 1) mod 256) t = ring_len h t - 1"
    and "(h + ring_len h t) mod 256 = t"
proof -
  have next_cases: "(x + 1) mod 256 = (if x = 255 then 0 else x + 1)" if "x < 256" for x :: nat
    using that by auto
  show "ring_len h t < 256" "ring_len h t = 0 \<longleftrightarrow> h = t" using assms by (auto simp: ring_len_def)
  show "(t + 1) mod 256 = h \<longleftrightarrow> ring_len h t = 255"
    unfolding next_cases [OF assms(2)] using assms by (auto simp: ring_len_def)
  show "(t + 1) mod 256 \<noteq> h \<Longrightarrow> ring_len h ((t + 1) mod 256) = ring_len h t + 1"
    unfolding next_cases [OF assms(2)] using assms by (auto simp: ring_len_def)
  show "h \<noteq> t \<Longrightarrow> ring_len ((h + 1) mod 256) t = ring_len h t - 1"
    unfolding next_cases [OF assms(1)] using assms by (auto simp: ring_len_def)
  show "(h + ring_len h t) mod 256 = t" using assms by (auto simp: ring_len_def)
qed

lemma ring_slot:
  assumes "h < 256" "t < 256" "k < ring_len h t"
  shows "(h + k) mod 256 \<noteq> t"
proof (cases "h \<le> t")
  case True
  with assms have "h + k < t" by (simp add: ring_len_def)
  with assms(2) show ?thesis by simp
next
  case False
  with assms have "k < t + 256 - h" by (simp add: ring_len_def)
  with False assms show ?thesis
    by (cases "h + k < 256") (auto simp: mod_if)
qed

interpretation ring: bounded_queue pciem_shared_ring_push ring_pop ring_content ring_ok 255
proof unfold_locales
  fix r :: shared_ring and ev :: event
  assume ok: "ring_ok r"
  define h t where "h = unat (ring_head r)" and "t = unat (ring_tail r)"
  have b: "h < 256" "t < 256" using ok by (simp_all add: ring_ok_def h_def t_def)
  note facts = ring_len_facts [OF b]
  have nxt: "unat (ring_next (ring_tail r)) = (t + 1) mod 256" "sint (ring_tail r) = int t"
    using ring_next_nat [of "ring_tail r"] b by (simp_all add: t_def)
  have full: "ring_next (ring_tail r) = ring_head r \<longleftrightarrow> ring_len h t = 255"
    using facts(3) nxt(1) by (simp add: word_unat_eq_iff h_def)
  have len: "length (ring_content r) = ring_len h t" by (simp add: ring_content_def h_def t_def)
  show "\<exists>s'. pciem_shared_ring_push r ev = Some (length (ring_content r) < 255, s') \<and> ring_ok s' \<and>
      ring_content s' = (if length (ring_content r) < 255 then ring_content r @ [ev] else ring_content r)"
  proof (cases "ring_len h t = 255")
    case True
    with full have "pciem_shared_ring_push r ev = Some (False, r)"
      by (simp add: pciem_shared_ring_push_def Let_def)
    with True ok len show ?thesis by simp
  next
    case False
    define r' where "r' = r\<lparr>events := (events r)(t := ev), ring_tail := ring_next (ring_tail r)\<rparr>"
    have push: "pciem_shared_ring_push r ev = Some (True, r')"
      using False full nxt(2) b by (simp add: pciem_shared_ring_push_def Let_def r'_def PCIEM_RING_SIZE_def)
    have tail': "unat (ring_tail r') = (t + 1) mod 256" "unat (ring_head r') = h"
      using nxt(1) by (simp_all add: r'_def h_def)
    then have ok': "ring_ok r'" using b by (simp add: ring_ok_def)
    have len': "ring_len h ((t + 1) mod 256) = ring_len h t + 1"
      using facts(3,4) False by simp
    have old: "events r' ((h + k) mod 256) = events r ((h + k) mod 256)" if "k < ring_len h t" for k
      using ring_slot [OF b that] by (simp add: r'_def)
    have new: "events r' ((h + ring_len h t) mod 256) = ev" by (simp add: facts(6) r'_def)
    have "ring_content r' = ring_content r @ [ev]"
      unfolding ring_content_def tail' len' h_def [symmetric] t_def [symmetric]
      using old new by simp
    with push ok' len False facts(1) show ?thesis by auto
  qed
next
  fix r :: shared_ring
  assume ok: "ring_ok r" and "ring_content r = []"
  then have "ring_len (unat (ring_head r)) (unat (ring_tail r)) = 0"
    by (simp add: ring_content_def)
  then have "unat (ring_head r) = unat (ring_tail r)"
    using ring_len_facts(2) [of "unat (ring_head r)" "unat (ring_tail r)"] ok by (simp add: ring_ok_def)
  then have "ring_head r = ring_tail r" by (simp add: word_unat_eq_iff)
  then show "ring_pop r = None" by (simp add: ring_pop_def Let_def)
next
  fix r :: shared_ring and e es
  assume ok: "ring_ok r" and c: "ring_content r = e # es"
  define h t where "h = unat (ring_head r)" and "t = unat (ring_tail r)"
  have b: "h < 256" "t < 256" using ok by (simp_all add: ring_ok_def h_def t_def)
  have pos: "0 < ring_len h t"
    using arg_cong [OF c, of length] by (simp add: ring_content_def h_def t_def)
  then have ne: "h \<noteq> t" using ring_len_facts(2) [OF b] by auto
  define r' where "r' = r\<lparr>ring_head := ring_next (ring_head r)\<rparr>"
  have head': "unat (ring_head r') = (h + 1) mod 256" "unat (ring_tail r') = t"
    using ring_next_nat(1) [of "ring_head r"] b by (simp_all add: r'_def h_def t_def)
  have pop: "ring_pop r = Some (events r h, r')"
    using ne by (auto simp: ring_pop_def Let_def r'_def h_def t_def)
  have e: "e = events r h"
    using ring_content_nth [of 0 r] c b by (simp add: h_def)
  have es: "es = map (\<lambda>k. events r ((h + Suc k) mod 256)) [0..<ring_len h t - 1]"
  proof -
    obtain m where m: "ring_len h t = Suc m" using pos by (cases "ring_len h t") auto
    have "[0..<Suc m] = 0 # map Suc [0..<m]" by (simp add: upt_conv_Cons map_Suc_upt del: upt_Suc)
    then have "ring_content r = events r (h mod 256) # map (\<lambda>k. events r ((h + Suc k) mod 256)) [0..<m]"
      unfolding ring_content_def h_def [symmetric] t_def [symmetric] m by (simp add: comp_def del: upt_Suc)
    with c m show ?thesis by simp
  qed
  have "ring_content r' = es"
    unfolding ring_content_def head' ring_len_facts(5) [OF b ne] es
    by (simp add: r'_def mod_simps)
  moreover have "ring_ok r'" using head' b by (simp add: ring_ok_def)
  ultimately show "\<exists>s'. ring_pop r = Some (e, s') \<and> ring_ok s' \<and> ring_content s' = es"
    using pop e by blast
qed

subsection \<open>Interleavings of events and of set_eventfd\<close>

text \<open>
  Events arrive at any time (each notification is one critical section of \<open>eventfd_lock\<close>); one
  thread registers eventfds, its two steps separated by any number of events. The program counter
  holds what the ioctl found installed.
\<close>

datatype setter = Idle | Swapped "nat option"

record notify_sys =
  notif :: notifier
  setter_pc :: setter

inductive notify_step :: "notify_sys \<Rightarrow> notify_sys \<Rightarrow> bool" where
  event: "notify_event (notif s) = Some n \<Longrightarrow> notify_step s (s\<lparr>notif := n\<rparr>)"
| install: "setter_pc s = Idle \<Longrightarrow> eventfd_install (notif s) (Some e) = (old, n) \<Longrightarrow>
    notify_step s (s\<lparr>notif := n, setter_pc := Swapped old\<rparr>)"
| finish: "setter_pc s = Swapped old \<Longrightarrow> eventfd_finish (notif s) old = Some n \<Longrightarrow>
    notify_step s (s\<lparr>notif := n, setter_pc := Idle\<rparr>)"

inductive_cases notify_stepE: "notify_step s s'"

inductive notify_reach :: "notify_sys \<Rightarrow> bool" where
  start: "notify_reach \<lparr>notif = \<lparr>eventfd = None, event_pending = False, signals = (\<lambda>_. 0)\<rparr>, setter_pc = Idle\<rparr>"
| step: "notify_reach s \<Longrightarrow> notify_step s s' \<Longrightarrow> notify_reach s'"

definition notify_inv :: "notify_sys \<Rightarrow> bool" where
  "notify_inv s \<longleftrightarrow>
     (event_pending (notif s) \<longrightarrow> eventfd (notif s) = None \<or> setter_pc s = Swapped None) \<and>
     (setter_pc s \<noteq> Idle \<longrightarrow> eventfd (notif s) \<noteq> None)"

lemma notify_inv_step [inv_intros]:
  assumes "notify_inv s" "notify_step s s'"
  shows "notify_inv s'"
  using assms(2,1)
  by (cases rule: notify_step.cases)
    (auto simp: notify_inv_def notify_event_def pciem_eventfd_signal_def eventfd_install_def
      eventfd_finish_def split: option.splits if_splits)

lemma notify_inv_reach: "notify_reach s \<Longrightarrow> notify_inv s"
proof (induction rule: notify_reach.induct)
  case start
  show ?case by (simp add: notify_inv_def)
next
  case (step s s')
  from step.IH step.hyps(2) show ?case by (rule notify_inv_step)
qed

subsection \<open>Properties\<close>

text \<open>
  C14. The ring is a queue of at most 255 events: from a fresh ring, under every interleaving of kernel
  pushes and consumer pops, no operation runs out of the array and each answers what the queue
  answers. A push is accepted if and only if fewer than 255 events wait, a pop takes the oldest one, and
  what is left in the ring at the end is what is left in the queue, in order.
\<close>

theorem ring_fifo:
  assumes "pciem_shared_ring_alloc zeroed True = Inr r"
  shows "\<exists>r'. run_queue pciem_shared_ring_push ring_pop ops r = Some (fst (queue_spec 255 ops []), r') \<and>
    ring_content r' = snd (queue_spec 255 ops [])"
proof -
  have "ring_ok r" "ring_content r = []"
    using assms by (auto simp: pciem_shared_ring_alloc_def ring_ok_def ring_content_def ring_len_def)
  with ring.fifo [of r ops] show ?thesis by auto
qed

definition event0 :: event where
  "event0 = \<lparr>ev_seq = 0, ev_type = 2, ev_bar = 0, ev_offset = 4, ev_size = 4, ev_data = 7, ev_timestamp = 0\<rparr>"

theorem ring_fifo_witness:
  "\<exists>r'. run_queue pciem_shared_ring_push ring_pop [Push event0, Pop, Pop, Push event0]
      \<lparr>ring_head = 0, ring_tail = 0, events = (\<lambda>_. event0)\<rparr> =
      Some ([Accepted, Taken event0, Nothing, Accepted], r') \<and> ring_content r' = [event0]"
  using ring_fifo [of "\<lambda>_. event0" "\<lparr>ring_head = 0, ring_tail = 0, events = (\<lambda>_. event0)\<rparr>"
      "[Push event0, Pop, Pop, Push event0]"]
  by (simp add: pciem_shared_ring_alloc_def)

text \<open>
  The kernel trusts a \<open>tail\<close> that user space can write: with any value outside the array, a push
  into a ring that does not look full writes outside \<open>events[256]\<close> (far outside: the index is any
  32-bit signed number).
\<close>

theorem ring_tail_trusted:
  assumes "\<not> (0 \<le> sint (ring_tail r) \<and> sint (ring_tail r) < 256)"
    and "ring_next (ring_tail r) \<noteq> ring_head r"
  shows "pciem_shared_ring_push r ev = None"
  using assms by (simp add: pciem_shared_ring_push_def PCIEM_RING_SIZE_def Let_def)

theorem ring_tail_trusted_witness:
  "pciem_shared_ring_push \<lparr>ring_head = 0, ring_tail = 0x7FFFFFF0, events = (\<lambda>_. event0)\<rparr> event0 = None"
  by (rule ring_tail_trusted) (simp_all add: ring_next_def PCIEM_RING_SIZE_def signed_modulo_int_def)

text \<open>
  The consumer of the bochs example handles exactly the queued events while the ring has not
  wrapped around; once it has (\<open>tail\<close> below \<open>head\<close>), one wake-up handles more than four billion
  stale events before it stops.
\<close>

lemma bochs_drain_spec:
  "bochs_drain evs head tail =
     (map (\<lambda>k. evs ((unat (head + of_nat k)) mod 256)) [0..<unat (tail - head)], tail)"
proof (induction evs head tail rule: bochs_drain.induct)
  case (1 evs head tail)
  show ?case
  proof (cases "head = tail")
    case True
    then show ?thesis by (subst bochs_drain.simps) simp
  next
    case False
    then have "tail - head \<noteq> 0" by simp
    then obtain m where m: "unat (tail - head) = Suc m"
      by (metis not0_implies_Suc unat_eq_0)
    have "tail - (head + 1) = tail - head - 1" by simp
    then have "unat (tail - (head + 1)) = m"
      using m \<open>tail - head \<noteq> 0\<close> by (metis diff_Suc_1 unat_minus_one)
    moreover have "[0..<Suc m] = 0 # map Suc [0..<m]"
      by (simp add: upt_conv_Cons map_Suc_upt del: upt_Suc)
    ultimately show ?thesis
      using False 1 by (subst bochs_drain.simps) (simp add: m comp_def add.assoc del: upt_Suc)
  qed
qed

theorem bochs_consumer:
  assumes "ring_ok r" and "bochs_drain (events r) (ring_head r) (ring_tail r) = (handled, h)"
  shows "(unat (ring_head r) \<le> unat (ring_tail r) \<longrightarrow> handled = ring_content r \<and> h = ring_tail r) \<and>
    (unat (ring_tail r) < unat (ring_head r) \<longrightarrow> length handled > 2 ^ 32 - 257)"
proof -
  have h: "handled = map (\<lambda>k. events r (unat (ring_head r + of_nat k) mod 256)) [0..<unat (ring_tail r - ring_head r)]"
    "h = ring_tail r"
    using assms(2) [unfolded bochs_drain_spec] by auto
  have b: "unat (ring_head r) < 256" "unat (ring_tail r) < 256" using assms(1) by (simp_all add: ring_ok_def)
  have "handled = ring_content r" if le: "unat (ring_head r) \<le> unat (ring_tail r)"
  proof -
    have "unat (ring_tail r - ring_head r) = ring_len (unat (ring_head r)) (unat (ring_tail r))"
      using le by (simp add: ring_len_def unat_sub_if_le word_le_nat_alt)
    moreover have "unat (ring_head r + of_nat k) = unat (ring_head r) + k" if "k < 256" for k
    proof -
      have "unat (of_nat k :: u32) = k" using that by (simp add: unsigned_of_nat take_bit_nat_eq_self)
      with that b show ?thesis by (subst unat_add_small) simp_all
    qed
    moreover have "ring_len (unat (ring_head r)) (unat (ring_tail r)) < 256"
      using ring_len_facts(1) b by blast
    ultimately show ?thesis by (simp add: h ring_content_def)
  qed
  moreover have "length handled > 2 ^ 32 - 257" if lt: "unat (ring_tail r) < unat (ring_head r)"
  proof -
    have "unat (ring_tail r - ring_head r) = unat (ring_tail r) + 2 ^ 32 - unat (ring_head r)"
      using lt by (simp add: unat_sub_if' )
    with b show ?thesis by (simp add: h)
  qed
  ultimately show ?thesis using h(2) by blast
qed

theorem bochs_consumer_witness:
  "length (fst (bochs_drain (\<lambda>_. event0) 250 5)) > 2 ^ 32 - 257"
  using bochs_consumer [of "\<lparr>ring_head = 250, ring_tail = 5, events = (\<lambda>_. event0)\<rparr>"
      "fst (bochs_drain (\<lambda>_. event0) 250 5)" "snd (bochs_drain (\<lambda>_. event0) 250 5)"]
  by (simp add: ring_ok_def)

text \<open>Every step keeps the signals given; it keeps a pending notification, or signals somebody.\<close>

lemma step_signals:
  assumes "notify_step s s'"
  shows "signals (notif s) e \<le> signals (notif s') e"
    and "event_pending (notif s) \<Longrightarrow> event_pending (notif s') \<or> (\<exists>e. signals (notif s) e < signals (notif s') e)"
  using assms
  by (cases rule: notify_step.cases;
      auto simp: notify_event_def pciem_eventfd_signal_def eventfd_install_def eventfd_finish_def split: option.splits if_splits)+

text \<open>Since an event that found the signal counts \<open>before\<close>: somebody was signalled, or the event is still pending.\<close>

definition heard :: "(nat \<Rightarrow> nat) \<Rightarrow> notify_sys \<Rightarrow> bool" where
  "heard before s \<longleftrightarrow> (\<forall>e. before e \<le> signals (notif s) e) \<and>
     (event_pending (notif s) \<or> (\<exists>e. before e < signals (notif s) e))"

lemma heard_step: "heard before s \<Longrightarrow> notify_step s s' \<Longrightarrow> heard before s'"
  using step_signals [of s s'] unfolding heard_def by (meson le_trans less_le_trans le_less_trans)

lemma heard_steps: "notify_step\<^sup>*\<^sup>* s s' \<Longrightarrow> heard before s \<Longrightarrow> heard before s'"
  by (induction rule: rtranclp_induct) (blast intro: heard_step)+

lemma heard_event: "notify_event (notif s) = Some n \<Longrightarrow> heard (signals (notif s)) (s\<lparr>notif := n\<rparr>)"
  by (auto simp: heard_def notify_event_def pciem_eventfd_signal_def split: option.splits)

lemma notify_reach_steps: "notify_step\<^sup>*\<^sup>* s s' \<Longrightarrow> notify_reach s \<Longrightarrow> notify_reach s'"
  by (induction rule: rtranclp_induct) (blast intro: notify_reach.step)+

text \<open>
  C28. No wake-up is lost: under every interleaving of events with the steps of set_eventfd (with valid
  descriptors), the notification of an event never fails; if an eventfd is installed it is signalled at
  once, once, and no other; and in any case, whenever an eventfd is installed later and no registration is in
  progress, some eventfd has been signalled since the event.
\<close>

theorem no_lost_wakeup:
  assumes "notify_reach s"
  shows "\<exists>n. notify_event (notif s) = Some n \<and>
    (\<forall>e. eventfd (notif s) = Some e \<longrightarrow> signals n = (signals (notif s))(e := signals (notif s) e + 1)) \<and>
    (\<forall>s'. notify_step\<^sup>*\<^sup>* (s\<lparr>notif := n\<rparr>) s' \<and> eventfd (notif s') \<noteq> None \<and> setter_pc s' = Idle \<longrightarrow>
       (\<exists>e. signals (notif s) e < signals (notif s') e))"
proof -
  obtain n where n: "notify_event (notif s) = Some n"
    by (cases "eventfd (notif s)") (simp_all add: notify_event_def pciem_eventfd_signal_def)
  then have step: "notify_step s (s\<lparr>notif := n\<rparr>)" by (rule notify_step.event)
  have "\<exists>e. signals (notif s) e < signals (notif s') e"
    if r: "notify_step\<^sup>*\<^sup>* (s\<lparr>notif := n\<rparr>) s'" "eventfd (notif s') \<noteq> None" "setter_pc s' = Idle" for s'
  proof -
    have "notify_inv s'" using notify_inv_reach notify_reach_steps [OF r(1) notify_reach.step [OF assms step]] by blast
    then have "\<not> event_pending (notif s')" using r(2,3) by (auto simp: notify_inv_def)
    with heard_steps [OF r(1) heard_event [OF n]] show ?thesis by (auto simp: heard_def)
  qed
  moreover have "signals n = (signals (notif s))(e := signals (notif s) e + 1)" if "eventfd (notif s) = Some e" for e
    using n that by (auto simp: notify_event_def pciem_eventfd_signal_def)
  ultimately show ?thesis using n by blast
qed

text \<open>An event before the first registration is signalled by the registration.\<close>

theorem no_lost_wakeup_witness:
  "let s0 = \<lparr>notif = \<lparr>eventfd = None, event_pending = False, signals = (\<lambda>_. 0)\<rparr>, setter_pc = Idle\<rparr>;
       s1 = \<lparr>notif = \<lparr>eventfd = None, event_pending = True, signals = (\<lambda>_. 0)\<rparr>, setter_pc = Idle\<rparr>;
       s3 = \<lparr>notif = \<lparr>eventfd = Some 5, event_pending = False, signals = (\<lambda>_. 0)(5 := 1)\<rparr>, setter_pc = Idle\<rparr>
   in notify_event (notif s0) = Some (notif s1) \<and> notify_step\<^sup>*\<^sup>* s1 s3 \<and>
     (\<exists>e. signals (notif s0) e < signals (notif s3) e)"
proof -
  define s0 where "s0 = \<lparr>notif = \<lparr>eventfd = None, event_pending = False, signals = (\<lambda>_. 0)\<rparr>, setter_pc = Idle\<rparr>"
  define s1 where "s1 = \<lparr>notif = \<lparr>eventfd = None, event_pending = True, signals = (\<lambda>_. 0)\<rparr>, setter_pc = Idle\<rparr>"
  define s2 where "s2 = \<lparr>notif = \<lparr>eventfd = Some 5, event_pending = True, signals = (\<lambda>_. 0)\<rparr>, setter_pc = Swapped None\<rparr>"
  define s3 where "s3 = \<lparr>notif = \<lparr>eventfd = Some 5, event_pending = False, signals = (\<lambda>_. 0)(5 := 1)\<rparr>, setter_pc = Idle\<rparr>"
  have n: "notify_event (notif s0) = Some (notif s1)" "s0\<lparr>notif := notif s1\<rparr> = s1"
    by (simp_all add: s0_def s1_def notify_event_def)
  have "notify_step s1 (s1\<lparr>notif := notif s2, setter_pc := Swapped None\<rparr>)"
    by (rule notify_step.install) (simp_all add: s1_def s2_def eventfd_install_def)
  moreover have "notify_step s2 (s2\<lparr>notif := notif s3, setter_pc := Idle\<rparr>)"
    by (rule notify_step.finish [where old = None]) (simp_all add: s2_def s3_def eventfd_finish_def pciem_eventfd_signal_def)
  ultimately have "notify_step s1 s2" "notify_step s2 s3" by (simp_all add: s1_def s2_def s3_def)
  then have run: "notify_step\<^sup>*\<^sup>* s1 s3" by auto
  have "notify_reach s0" unfolding s0_def by (rule notify_reach.start)
  moreover have "eventfd (notif s3) \<noteq> None" "setter_pc s3 = Idle" by (simp_all add: s3_def)
  ultimately have "\<exists>e. signals (notif s0) e < signals (notif s3) e"
    using no_lost_wakeup [of s0] run n by auto
  with run n(1) show ?thesis by (simp add: s0_def s1_def s3_def)
qed

text \<open>
  Unregistering an eventfd that was never registered crashes when events are pending: with no
  eventfd installed and an event queued before, \<open>set_eventfd\<close> with a negative descriptor signals the
  NULL eventfd.
\<close>

theorem unregister_pending_crash:
  assumes "eventfd us = None" and "notify_event us = Some us'" and "fd < 0"
  shows "pciem_ioctl_set_eventfd fdget us' (Some fd) = None"
  using assms
  by (auto simp: pciem_ioctl_set_eventfd_def notify_event_def eventfd_install_def eventfd_finish_def
      pciem_eventfd_signal_def)

theorem unregister_pending_crash_witness:
  "pciem_ioctl_set_eventfd (\<lambda>_. Inl EBADF) \<lparr>eventfd = None, event_pending = True, signals = (\<lambda>_. 0)\<rparr> (Some (- 1))
     = None"
  using unregister_pending_crash [of "\<lparr>eventfd = None, event_pending = False, signals = (\<lambda>_. 0)\<rparr>"
      "\<lparr>eventfd = None, event_pending = True, signals = (\<lambda>_. 0)\<rparr>" "- 1" "\<lambda>_. Inl EBADF"]
  by (simp add: notify_event_def)

end
