(* ===== verification/Nvme.thy ===== *)
theory Nvme
  imports Ring "HOL-Library.Monad_Syntax"
begin

text \<open>
  The NVMe controller of \<^verbatim>\<open>examples/nvme/nvme_card.c\<close>: the user-space program that plays an NVMe disk
  through the framework. It keeps sixteen queue pairs, the register page BAR 0, the identify data and
  a disk of one gigabyte in memory; it learns of register writes through the event ring and reaches
  the host's memory through the DMA ioctls.

  What the ioctls do is an argument, the record \<open>nvme_host\<close> over a world of the caller's choice;
  \<^verbatim>\<open>NvmeHost.thy\<close> instantiates it with the ioctls of the framework. An outcome \<open>None\<close> is an
  execution that does not return, or C code with no defined behaviour: an access past the end of the
  disk or of the register page, or a remainder by zero.
\<close>

definition NVME_DISK_SIZE :: u64 where
  "NVME_DISK_SIZE = 1 * (1024 * 1024 * 1024)"

definition NVME_TOTAL_SECTORS :: u64 where
  "NVME_TOTAL_SECTORS = (1 * 1024 * 1024 * 1024) div 4096"

definition MAX_QUEUES :: u16 where
  "MAX_QUEUES = 16"

definition NVME_BAR0_SIZE :: nat where
  "NVME_BAR0_SIZE = 8192"

definition NVME_STATUS :: "u32 \<Rightarrow> u32 \<Rightarrow> u32" where
  "NVME_STATUS sct sc = push_bit 1 (push_bit 8 sct OR sc)"

definition NVME_SUCCESS :: u32 where "NVME_SUCCESS = NVME_STATUS 0 0x00"
definition NVME_INVALID_FIELD :: u32 where "NVME_INVALID_FIELD = NVME_STATUS 0 0x02"
definition NVME_INTERNAL :: u32 where "NVME_INTERNAL = NVME_STATUS 0 0x06"
definition NVME_INVALID_NS :: u32 where "NVME_INVALID_NS = NVME_STATUS 0 0x0b"
definition NVME_INVALID_QUEUE_CREATE :: u32 where "NVME_INVALID_QUEUE_CREATE = NVME_STATUS 1 0x04"
definition NVME_INVALID_QUEUE_DELETE :: u32 where "NVME_INVALID_QUEUE_DELETE = NVME_STATUS 1 0x03"

lemmas nvme_status_defs = NVME_SUCCESS_def NVME_INVALID_FIELD_def NVME_INTERNAL_def
  NVME_INVALID_NS_def NVME_INVALID_QUEUE_CREATE_def NVME_INVALID_QUEUE_DELETE_def

subsection \<open>Commands and completions\<close>

record nvme_command =
  c_opcode :: u8
  c_flags :: u8
  c_id :: u16
  c_nsid :: u32
  c_prp1 :: u64
  c_prp2 :: u64
  c_dw10 :: u32
  c_dw11 :: u32
  c_dw12 :: u32

definition get64 :: "bytes \<Rightarrow> nat \<Rightarrow> u64" where
  "get64 f i = of_le (bytes_of f i 8)"

text \<open>The 64 bytes of a submission queue entry, read as the packed structure.\<close>

definition nvme_command_of :: "u8 list \<Rightarrow> nvme_command" where
  "nvme_command_of bs =
     (let f = (\<lambda>i. bs ! i) in
      \<lparr>c_opcode = f 0, c_flags = f 1, c_id = get16 f 2, c_nsid = get32 f 4,
       c_prp1 = get64 f 24, c_prp2 = get64 f 32,
       c_dw10 = get32 f 40, c_dw11 = get32 f 44, c_dw12 = get32 f 48\<rparr>)"

text \<open>The fields of the unions \<open>cdw10_t\<close>, \<open>cdw11_t\<close> and \<open>cdw12_t\<close>.\<close>

definition cdw_lo8 :: "u32 \<Rightarrow> u8" where "cdw_lo8 raw = ucast raw"
definition cdw_lo16 :: "u32 \<Rightarrow> u16" where "cdw_lo16 raw = ucast raw"
definition cdw_hi16 :: "u32 \<Rightarrow> u16" where "cdw_hi16 raw = ucast (drop_bit 16 raw)"

record nvme_completion =
  cpl_result :: u32
  cpl_sq_head :: u16
  cpl_sq_id :: u16
  cpl_command_id :: u16
  cpl_status :: u16

definition nvme_completion_bytes :: "nvme_completion \<Rightarrow> u8 list" where
  "nvme_completion_bytes c =
     le32 (cpl_result c) @ le32 0 @ le16 (cpl_sq_head c) @ le16 (cpl_sq_id c) @
     le16 (cpl_command_id c) @ le16 (cpl_status c)"

subsection \<open>The device\<close>

record nvme_queue =
  q_created :: bool
  sq_size :: u16
  cq_size :: u16
  sq_addr :: u64
  cq_addr :: u64
  sq_tail :: u16
  sq_head :: u16
  cq_tail :: u16
  cq_head :: u16
  cq_phase :: u8
  q_vector :: u16
  q_id :: u16

record nvme_device =
  nvme_running :: bool
  nvme_enabled :: bool
  nvme_csts :: u32
  queues :: "nvme_queue list"
  bar0 :: bytes
  disk :: bytes

text \<open>
  The calls the card makes: an immediate DMA write and read (\<open>PCIEM_IOCTL_DMA\<close>), an indirect one in
  each direction (\<open>PCIEM_IOCTL_DMA_INDIRECT\<close>; \<open>host_in\<close> gets what the card's buffer holds and
  returns what it holds afterwards, success or not), the interrupt and the memory allocator.
\<close>

record 'w nvme_host =
  host_write :: "u64 \<Rightarrow> u8 list \<Rightarrow> 'w \<Rightarrow> (bool \<times> 'w) option"
  host_read :: "u64 \<Rightarrow> nat \<Rightarrow> 'w \<Rightarrow> (u8 list option \<times> 'w) option"
  host_out :: "u64 \<Rightarrow> u64 \<Rightarrow> u8 list \<Rightarrow> 'w \<Rightarrow> (bool \<times> 'w) option"
  host_in :: "u64 \<Rightarrow> u64 \<Rightarrow> u8 list \<Rightarrow> 'w \<Rightarrow> (bool \<times> u8 list \<times> 'w) option"
  host_irq :: "u32 \<Rightarrow> 'w \<Rightarrow> bool \<times> 'w"
  host_calloc :: "'w \<Rightarrow> bool"

definition size2mask :: "u64 \<Rightarrow> u64" where
  "size2mask s = (if s \<ge> 8 then 0xFFFFFFFFFFFFFFFF else push_bit (unat (push_bit 3 s)) 1 - 1)"

definition nvme_read_reg :: "nvme_device \<Rightarrow> u32 \<Rightarrow> u32 \<Rightarrow> u64 option" where
  "nvme_read_reg dev offset sz =
     (if sz = 4 then
        (if unat offset + 4 \<le> NVME_BAR0_SIZE then Some (ucast (get32 (bar0 dev) (unat offset))) else None)
      else if sz = 8 then
        (if unat offset + 8 \<le> NVME_BAR0_SIZE then Some (get64 (bar0 dev) (unat offset)) else None)
      else Some 0)"

definition nvme_write_reg :: "nvme_device \<Rightarrow> u32 \<Rightarrow> u64 \<Rightarrow> u32 \<Rightarrow> nvme_device option" where
  "nvme_write_reg dev offset v sz =
     (let bs = (if sz = 2 then le16 (ucast v) else if sz = 4 then le32 (ucast v)
                else if sz = 8 then le64 v else [])
      in if bs = [] then Some dev
         else map_option (\<lambda>b. dev\<lparr>bar0 := b\<rparr>) (store_bytes NVME_BAR0_SIZE (bar0 dev) (unat offset) bs))"

definition nvme_dma_rw ::
    "'w nvme_host \<Rightarrow> u64 \<Rightarrow> u64 \<Rightarrow> u8 list \<Rightarrow> bool \<Rightarrow> 'w \<Rightarrow> (bool \<times> u8 list \<times> 'w) option" where
  "nvme_dma_rw H p1 p2 buf write_to_host w =
     (if write_to_host then do { (ok, w) \<leftarrow> host_out H p1 p2 buf w; Some (ok, buf, w) }
      else host_in H p1 p2 buf w)"

definition nvme_get_queue :: "nvme_device \<Rightarrow> u16 \<Rightarrow> nat option" where
  "nvme_get_queue dev idx = (if idx \<ge> MAX_QUEUES then None else Some (unat idx))"

definition set_lo32 :: "u64 \<Rightarrow> u32 \<Rightarrow> u64" where
  "set_lo32 dst v = (dst AND 0xFFFFFFFF00000000) OR ucast v"

definition set_hi32 :: "u64 \<Rightarrow> u32 \<Rightarrow> u64" where
  "set_hi32 dst v = (dst AND 0x00000000FFFFFFFF) OR push_bit 32 (ucast v)"

definition upd_queue :: "nat \<Rightarrow> (nvme_queue \<Rightarrow> nvme_queue) \<Rightarrow> nvme_device \<Rightarrow> nvme_device" where
  "upd_queue i f dev = dev\<lparr>queues := (queues dev)[i := f (queues dev ! i)]\<rparr>"

definition nvme_reset_queue :: "nvme_queue \<Rightarrow> nvme_queue" where
  "nvme_reset_queue q =
     \<lparr>q_created = False, sq_size = 0, cq_size = 0, sq_addr = 0, cq_addr = 0, sq_tail = 0, sq_head = 0,
      cq_tail = 0, cq_head = 0, cq_phase = 1, q_vector = 0, q_id = q_id q\<rparr>"

definition nvme_reset_queues :: "nvme_device \<Rightarrow> nvme_device" where
  "nvme_reset_queues dev =
     fold (\<lambda>i. upd_queue i (\<lambda>q. nvme_reset_queue (q\<lparr>q_id := of_nat i\<rparr>))) [0..<unat MAX_QUEUES] dev"

subsection \<open>Admin commands\<close>

text \<open>The data of IDENTIFY: a namespace, the controller, the namespace list and an empty list.\<close>

definition nvme_id_ns :: "u8 list" where
  "nvme_id_ns = le64 NVME_TOTAL_SECTORS @ le64 NVME_TOTAL_SECTORS @ le64 NVME_TOTAL_SECTORS @
     replicate 106 0 @ [12] @ replicate 3965 0"

definition c_string :: "nat \<Rightarrow> string \<Rightarrow> u8 list" where
  "c_string n s = map of_char s @ replicate (n - length s) 0"

definition NVME_VS :: "u32 \<Rightarrow> u32 \<Rightarrow> u32 \<Rightarrow> u32" where
  "NVME_VS ma mi te = push_bit 16 ma OR push_bit 8 mi OR te"

definition nvme_ctrl_id :: "u8 list" where
  "nvme_ctrl_id =
     le16 0x1234 @ le16 0x5678 @ c_string 20 ''PCIEM-NVME-001     '' @
     c_string 40 ''PCIem Virtual NVMe SSD                 '' @ c_string 8 ''1.0    '' @
     replicate 8 0 @ le32 (NVME_VS 1 0 0) @ replicate 428 0 @ [0x66, 0x44] @ replicate 2 0 @ le32 1 @
     replicate 3576 0"

text \<open>The DMA of a reply, with the status the code makes of its result.\<close>

definition nvme_reply :: "'w nvme_host \<Rightarrow> u64 \<Rightarrow> u8 list \<Rightarrow> 'w \<Rightarrow> (u32 \<times> 'w) option" where
  "nvme_reply H addr data w =
     do { (ok, w) \<leftarrow> host_write H addr data w; Some (if ok then NVME_SUCCESS else NVME_INTERNAL, w) }"

definition nvme_identify_cns0 :: "'w nvme_host \<Rightarrow> nvme_command \<Rightarrow> 'w \<Rightarrow> (u32 \<times> 'w) option" where
  "nvme_identify_cns0 H cmd w =
     (if c_nsid cmd \<noteq> 1 then Some (NVME_INVALID_NS, w) else nvme_reply H (c_prp1 cmd) nvme_id_ns w)"

definition nvme_identify_cns1 :: "'w nvme_host \<Rightarrow> nvme_command \<Rightarrow> 'w \<Rightarrow> (u32 \<times> 'w) option" where
  "nvme_identify_cns1 H cmd w =
     (if c_nsid cmd \<noteq> 0 then Some (NVME_INVALID_NS, w) else nvme_reply H (c_prp1 cmd) nvme_ctrl_id w)"

definition nvme_identify_cns2 :: "'w nvme_host \<Rightarrow> nvme_command \<Rightarrow> 'w \<Rightarrow> (u32 \<times> 'w) option" where
  "nvme_identify_cns2 H cmd w =
     (if c_nsid cmd \<noteq> 0 then Some (NVME_INVALID_NS, w)
      else if \<not> host_calloc H w then Some (NVME_INTERNAL, w)
      else nvme_reply H (c_prp1 cmd) (le32 1 @ replicate 4092 0) w)"

definition nvme_identify_cns3 :: "'w nvme_host \<Rightarrow> nvme_command \<Rightarrow> 'w \<Rightarrow> (u32 \<times> 'w) option" where
  "nvme_identify_cns3 H cmd w =
     (if c_nsid cmd > 1 then Some (NVME_INVALID_NS, w)
      else if \<not> host_calloc H w then Some (NVME_INTERNAL, w)
      else nvme_reply H (c_prp1 cmd) (replicate 4096 0) w)"

definition nvme_identify :: "'w nvme_host \<Rightarrow> nvme_command \<Rightarrow> 'w \<Rightarrow> (u32 \<times> 'w) option" where
  "nvme_identify H cmd w =
     (let cns = cdw_lo8 (c_dw10 cmd) in
      if cns = 0 then nvme_identify_cns0 H cmd w
      else if cns = 1 then nvme_identify_cns1 H cmd w
      else if cns = 2 then nvme_identify_cns2 H cmd w
      else if cns = 3 then nvme_identify_cns3 H cmd w
      else Some (NVME_INVALID_FIELD, w))"

definition nvme_create_cq :: "nvme_device \<Rightarrow> nvme_command \<Rightarrow> u32 \<times> nvme_device" where
  "nvme_create_cq dev cmd =
     (let qsize = cdw_hi16 (c_dw10 cmd); vector = cdw_hi16 (c_dw11 cmd) in
      case nvme_get_queue dev (cdw_lo16 (c_dw10 cmd)) of
        None \<Rightarrow> (NVME_INVALID_QUEUE_CREATE, dev)
      | Some i \<Rightarrow> (NVME_SUCCESS, upd_queue i (\<lambda>q. q\<lparr>cq_addr := c_prp1 cmd, cq_size := qsize + 1,
                     q_vector := vector, q_created := True\<rparr>) dev))"

definition nvme_create_sq :: "nvme_device \<Rightarrow> nvme_command \<Rightarrow> u32 \<times> nvme_device" where
  "nvme_create_sq dev cmd =
     (let qsize = cdw_hi16 (c_dw10 cmd) in
      case nvme_get_queue dev (cdw_lo16 (c_dw10 cmd)) of
        None \<Rightarrow> (NVME_INVALID_QUEUE_CREATE, dev)
      | Some i \<Rightarrow> (NVME_SUCCESS, upd_queue i (\<lambda>q. q\<lparr>sq_addr := c_prp1 cmd, sq_size := qsize + 1,
                     q_created := True\<rparr>) dev))"

definition nvme_delete_queue :: "nvme_device \<Rightarrow> nvme_command \<Rightarrow> u32 \<times> nvme_device" where
  "nvme_delete_queue dev cmd =
     (let qidx = cdw_lo16 (c_dw10 cmd) in
      if qidx \<ge> MAX_QUEUES then (NVME_INVALID_QUEUE_DELETE, dev)
      else (NVME_SUCCESS, upd_queue (unat qidx) nvme_reset_queue dev))"

text \<open>The status and what is left in \<open>*result\<close>.\<close>

definition nvme_get_log_page :: "nvme_command \<Rightarrow> u32 \<Rightarrow> u32 \<times> u32" where
  "nvme_get_log_page cmd res =
     (let lid = (ucast (c_dw10 cmd AND 0xff) :: u8) in
      if lid = 0x01 \<or> lid = 0x02 then (NVME_SUCCESS, 0) else (NVME_INVALID_FIELD, res))"

definition nvme_set_features :: "nvme_command \<Rightarrow> u32 \<Rightarrow> u32 \<times> u32" where
  "nvme_set_features cmd res =
     (let fid = cdw_lo8 (c_dw10 cmd) in
      if fid = 0x07 then
        (NVME_SUCCESS, push_bit 16 (ucast MAX_QUEUES - 1) OR (ucast MAX_QUEUES - 1))
      else if fid \<in> {0x01, 0x02, 0x05, 0x06, 0x08, 0x09, 0x0B, 0x04, 0x0A, 0x11, 0x12, 0x13, 0x14}
      then (NVME_SUCCESS, res)
      else (NVME_INVALID_FIELD, res))"

definition nvme_execute_admin_command ::
    "'w nvme_host \<Rightarrow> nvme_device \<Rightarrow> nvme_command \<Rightarrow> u32 \<Rightarrow> 'w \<Rightarrow> (u32 \<times> u32 \<times> nvme_device \<times> 'w) option" where
  "nvme_execute_admin_command H dev cmd res w =
     (let opc = c_opcode cmd in
      if opc = 0x02 then (let (st, res) = nvme_get_log_page cmd res in Some (st, res, dev, w))
      else if opc = 0x06 then do { (st, w) \<leftarrow> nvme_identify H cmd w; Some (st, res, dev, w) }
      else if opc = 0x05 then (let (st, dev) = nvme_create_cq dev cmd in Some (st, res, dev, w))
      else if opc = 0x01 then (let (st, dev) = nvme_create_sq dev cmd in Some (st, res, dev, w))
      else if opc = 0x04 \<or> opc = 0x00 then
        (let (st, dev) = nvme_delete_queue dev cmd in Some (st, res, dev, w))
      else if opc = 0x09 then (let (st, res) = nvme_set_features cmd res in Some (st, res, dev, w))
      else Some (NVME_INVALID_FIELD, res, dev, w))"

subsection \<open>I/O commands\<close>

definition nvme_offset :: "nvme_command \<Rightarrow> u64" where
  "nvme_offset cmd = push_bit 12 (ucast (c_dw10 cmd) OR push_bit 32 (ucast (c_dw11 cmd)))"

definition nvme_len :: "nvme_command \<Rightarrow> u64" where
  "nvme_len cmd = push_bit 12 (ucast (ucast (cdw_lo16 (c_dw12 cmd)) + 1 :: u32))"

definition nvme_io_write ::
    "'w nvme_host \<Rightarrow> nvme_device \<Rightarrow> nvme_command \<Rightarrow> 'w \<Rightarrow> (u32 \<times> nvme_device \<times> 'w) option" where
  "nvme_io_write H dev cmd w =
     (let offset = nvme_offset cmd; len = nvme_len cmd in
      if offset \<ge> NVME_DISK_SIZE then Some (NVME_INVALID_FIELD, dev, w)
      else if unat offset + unat len > unat NVME_DISK_SIZE then None
      else do {
        (ok, data, w) \<leftarrow> nvme_dma_rw H (c_prp1 cmd) (c_prp2 cmd)
                           (bytes_of (disk dev) (unat offset) (unat len)) False w;
        Some (if ok then NVME_SUCCESS else NVME_INTERNAL,
              dev\<lparr>disk := poke (disk dev) (unat offset) data\<rparr>, w) })"

definition nvme_io_read ::
    "'w nvme_host \<Rightarrow> nvme_device \<Rightarrow> nvme_command \<Rightarrow> 'w \<Rightarrow> (u32 \<times> nvme_device \<times> 'w) option" where
  "nvme_io_read H dev cmd w =
     (let offset = nvme_offset cmd; len = nvme_len cmd in
      if offset \<ge> NVME_DISK_SIZE then Some (NVME_INVALID_FIELD, dev, w)
      else if unat offset + unat len > unat NVME_DISK_SIZE then None
      else do {
        (ok, _, w) \<leftarrow> nvme_dma_rw H (c_prp1 cmd) (c_prp2 cmd)
                        (bytes_of (disk dev) (unat offset) (unat len)) True w;
        Some (if ok then NVME_SUCCESS else NVME_INTERNAL, dev, w) })"

definition nvme_execute_io_command ::
    "'w nvme_host \<Rightarrow> nvme_device \<Rightarrow> nvme_command \<Rightarrow> 'w \<Rightarrow> (u32 \<times> nvme_device \<times> 'w) option" where
  "nvme_execute_io_command H dev cmd w =
     (if c_opcode cmd = 0x00 then Some (NVME_SUCCESS, dev, w)
      else if c_opcode cmd = 0x02 then nvme_io_read H dev cmd w
      else if c_opcode cmd = 0x01 then nvme_io_write H dev cmd w
      else Some (NVME_INVALID_FIELD, dev, w))"

subsection \<open>Serving a queue\<close>

text \<open>
  The pointer \<open>q\<close> of the code is the index of a queue: the fields are read again after the command,
  which may have reset the very queue it came from.
\<close>

definition nvme_advance_cq :: "nvme_queue \<Rightarrow> nvme_queue" where
  "nvme_advance_cq q =
     (let q = q\<lparr>cq_tail := cq_tail q + 1\<rparr> in
      if cq_tail q = cq_size q then q\<lparr>cq_tail := 0, cq_phase := cq_phase q XOR 1\<rparr> else q)"

definition nvme_run :: "'w nvme_host \<Rightarrow> nvme_device \<Rightarrow> nvme_command \<Rightarrow> nat \<Rightarrow> 'w \<Rightarrow>
    (u32 \<times> u32 \<times> nvme_device \<times> 'w) option" where
  "nvme_run H dev cmd i w =
     (if q_id (queues dev ! i) = 0 then nvme_execute_admin_command H dev cmd 0 w
      else do { (st, dev, w) \<leftarrow> nvme_execute_io_command H dev cmd w; Some (st, 0, dev, w) })"

definition nvme_cpl_of :: "nvme_queue \<Rightarrow> nvme_command \<Rightarrow> u32 \<Rightarrow> u32 \<Rightarrow> nvme_completion" where
  "nvme_cpl_of q cmd st res =
     \<lparr>cpl_result = res, cpl_sq_head = sq_head q, cpl_sq_id = q_id q, cpl_command_id = c_id cmd,
      cpl_status = ucast (st OR ucast (cq_phase q AND 1))\<rparr>"

definition nvme_execute_command ::
    "'w nvme_host \<Rightarrow> nvme_device \<Rightarrow> nvme_command \<Rightarrow> nat \<Rightarrow> 'w \<Rightarrow> (nvme_device \<times> 'w) option" where
  "nvme_execute_command H dev cmd i w =
     do {
       (st, res, dev, w) \<leftarrow> nvme_run H dev cmd i w;
       let q = queues dev ! i;
       (_, w) \<leftarrow> host_write H (cq_addr q + ucast (cq_tail q) * 16)
                   (nvme_completion_bytes (nvme_cpl_of q cmd st res)) w;
       let dev = upd_queue i nvme_advance_cq dev;
       Some (dev, snd (host_irq H (ucast (q_vector (queues dev ! i))) w)) }"

definition nvme_read_sq_entry ::
    "'w nvme_host \<Rightarrow> nvme_queue \<Rightarrow> 'w \<Rightarrow> (nvme_command option \<times> 'w) option" where
  "nvme_read_sq_entry H q w =
     do { (r, w) \<leftarrow> host_read H (sq_addr q + ucast (sq_head q) * 64) 64 w;
          Some (map_option nvme_command_of r, w) }"

definition nvme_next_head :: "nvme_queue \<Rightarrow> u16" where
  "nvme_next_head q = of_nat ((unat (sq_head q) + 1) mod unat (sq_size q))"

text \<open>
  One round of the loop that serves a queue, and how it ends: the loop is left, there is another round,
  the head is divided by a queue size of 0, or a call faulted (the disk overrun, or memory of the host).
\<close>

datatype 'w serve_outcome = Leaves nvme_device 'w | Again nvme_device 'w | Divides_by_zero | Faults

definition serve_round :: "'w nvme_host \<Rightarrow> nat \<Rightarrow> nvme_device \<Rightarrow> 'w \<Rightarrow> 'w serve_outcome" where
  "serve_round H i dev w =
     (let q = queues dev ! i in
      if sq_head q = sq_tail q then Leaves dev w
      else (case nvme_read_sq_entry H q w of
              None \<Rightarrow> Faults
            | Some (None, w) \<Rightarrow> Again dev w
            | Some (Some cmd, w) \<Rightarrow>
                if sq_size q = 0 then Divides_by_zero
                else (case nvme_execute_command H (upd_queue i (\<lambda>q. q\<lparr>sq_head := nvme_next_head q\<rparr>) dev) cmd i w of
                        None \<Rightarrow> Faults
                      | Some (dev, w) \<Rightarrow> Again dev w)))"

text \<open>The loop. \<open>None\<close>: it crashes or never ends; \<open>serve_rounds\<close> tells which.\<close>

partial_function (option) nvme_serve ::
    "'w nvme_host \<Rightarrow> nat \<Rightarrow> nvme_device \<Rightarrow> 'w \<Rightarrow> (nvme_device \<times> 'w) option" where
  "nvme_serve H i dev w =
     (case serve_round H i dev w of
        Leaves dev w \<Rightarrow> Some (dev, w)
      | Again dev w \<Rightarrow> nvme_serve H i dev w
      | _ \<Rightarrow> None)"

text \<open>The loop cut off after so many rounds.\<close>

fun serve_rounds :: "'w nvme_host \<Rightarrow> nat \<Rightarrow> nat \<Rightarrow> nvme_device \<Rightarrow> 'w \<Rightarrow> 'w serve_outcome" where
  "serve_rounds H i 0 dev w = Again dev w"
| "serve_rounds H i (Suc n) dev w =
     (case serve_round H i dev w of Again dev w \<Rightarrow> serve_rounds H i n dev w | out \<Rightarrow> out)"

lemma nvme_serve_unfold:
  "nvme_serve H i dev w =
     (let q = queues dev ! i in
      if sq_head q = sq_tail q then Some (dev, w)
      else do {
        (r, w) \<leftarrow> nvme_read_sq_entry H q w;
        case r of
          None \<Rightarrow> nvme_serve H i dev w
        | Some cmd \<Rightarrow>
            if sq_size q = 0 then None
            else do {
              (dev, w) \<leftarrow> nvme_execute_command H
                 (upd_queue i (\<lambda>q. q\<lparr>sq_head := nvme_next_head q\<rparr>) dev) cmd i w;
              nvme_serve H i dev w } })"
  by (subst nvme_serve.simps) (simp add: serve_round_def Let_def split: option.split prod.split)

text \<open>The loop returns exactly if some number of rounds leaves it.\<close>

lemma serve_rounds_serve: "serve_rounds H i n dev w = Leaves d w' \<Longrightarrow> nvme_serve H i dev w = Some (d, w')"
proof (induction n arbitrary: dev w)
  case (Suc n)
  then show ?case by (subst nvme_serve.simps) (simp split: serve_outcome.splits)
qed simp

lemma serve_serve_rounds:
  assumes "nvme_serve H i dev w = Some r"
  shows "\<exists>n. serve_rounds H i n dev w = Leaves (fst r) (snd r)"
proof (rule nvme_serve.raw_induct
    [where P = "\<lambda>H i dev w r. \<exists>n. serve_rounds H i n dev w = Leaves (fst r) (snd r)", OF _ assms])
  fix serve and H :: "'w nvme_host" and i dev w r
  assume IH: "\<And>H i dev w r. serve H i dev w = Some r \<Longrightarrow> \<exists>n. serve_rounds H i n dev w = Leaves (fst r) (snd r)"
    and body: "(case serve_round H i dev w of Leaves dev w \<Rightarrow> Some (dev, w) | Again dev w \<Rightarrow> serve H i dev w | _ \<Rightarrow> None) = Some r"
  show "\<exists>n. serve_rounds H i n dev w = Leaves (fst r) (snd r)"
  proof (cases "serve_round H i dev w")
    case (Leaves d w')
    with body have "serve_rounds H i (Suc 0) dev w = Leaves (fst r) (snd r)" by auto
    then show ?thesis by blast
  next
    case (Again d w')
    with body have "serve H i d w' = Some r" by simp
    from IH [OF this] obtain n where "serve_rounds H i n d w' = Leaves (fst r) (snd r)" by blast
    then have "serve_rounds H i (Suc n) dev w = Leaves (fst r) (snd r)" by (simp add: Again)
    then show ?thesis by blast
  qed (use body in auto)
qed

definition nvme_handle_doorbell_write ::
    "'w nvme_host \<Rightarrow> event \<Rightarrow> nvme_device \<Rightarrow> 'w \<Rightarrow> (nvme_device \<times> 'w) option" where
  "nvme_handle_doorbell_write H ev dev w =
     (let qidx = (ucast ((ev_offset ev - 0x1000) div 8) :: u16);
          is_cq = ((ev_offset ev - 0x1000) mod 8 \<ge> 4)
      in case nvme_get_queue dev qidx of
           None \<Rightarrow> Some (dev, w)
         | Some i \<Rightarrow>
             if is_cq then do {
               dev \<leftarrow> nvme_write_reg (upd_queue i (\<lambda>q. q\<lparr>cq_head := ucast (ev_data ev AND 0xffff)\<rparr>) dev)
                        (0x1004 + ucast qidx * 8) (ev_data ev) 4;
               Some (dev, w) }
             else do {
               (dev, w) \<leftarrow> nvme_serve H i
                  (upd_queue i (\<lambda>q. q\<lparr>sq_tail := ucast (ev_data ev AND 0xffff)\<rparr>) dev) w;
               dev \<leftarrow> nvme_write_reg dev (0x1000 + ucast qidx * 8) (ev_data ev) 4;
               Some (dev, w) })"

subsection \<open>Registers\<close>

definition nvme_enable :: "nvme_device \<Rightarrow> nvme_device option" where
  "nvme_enable dev =
     do {
       aqa \<leftarrow> nvme_read_reg dev 0x24 4;
       asq_lo \<leftarrow> nvme_read_reg dev 0x28 4;
       asq_hi \<leftarrow> nvme_read_reg dev 0x2c 4;
       acq_lo \<leftarrow> nvme_read_reg dev 0x30 4;
       acq_hi \<leftarrow> nvme_read_reg dev 0x34 4;
       let aqa = (ucast aqa :: u32);
       Some ((upd_queue 0 (\<lambda>q. q\<lparr>sq_size := ucast ((aqa AND 0xffff) + 1),
               cq_size := ucast ((drop_bit 16 aqa AND 0xffff) + 1),
               sq_addr := set_hi32 (set_lo32 (sq_addr q) (ucast asq_lo)) (ucast asq_hi),
               cq_addr := set_hi32 (set_lo32 (cq_addr q) (ucast acq_lo)) (ucast acq_hi)\<rparr>) dev)
             \<lparr>nvme_enabled := True\<rparr>) }"

text \<open>The bit fields of CC and CSTS.\<close>

definition cc_en :: "u32 \<Rightarrow> bool" where "cc_en raw \<longleftrightarrow> bit raw 0"
definition cc_shn :: "u32 \<Rightarrow> u32" where "cc_shn raw = drop_bit 14 raw AND 3"

definition csts_set_rdy :: "bool \<Rightarrow> u32 \<Rightarrow> u32" where
  "csts_set_rdy b raw = (raw AND NOT 1) OR (if b then 1 else 0)"

definition csts_set_shst :: "u32 \<Rightarrow> u32 \<Rightarrow> u32" where
  "csts_set_shst v raw = (raw AND NOT 0xC) OR push_bit 2 (v AND 3)"

definition nvme_put_csts :: "u32 \<Rightarrow> nvme_device \<Rightarrow> nvme_device option" where
  "nvme_put_csts raw dev = nvme_write_reg (dev\<lparr>nvme_csts := raw\<rparr>) 0x1c (ucast raw) 4"

definition nvme_handle_cc_write :: "event \<Rightarrow> nvme_device \<Rightarrow> nvme_device option" where
  "nvme_handle_cc_write ev dev =
     (let cc = (ucast (ev_data ev) :: u32); csts = nvme_csts dev in
      if cc_shn cc \<noteq> 0 then do {
        let csts = csts_set_rdy False (csts_set_shst 1 csts);
        dev \<leftarrow> nvme_put_csts csts dev;
        let dev = nvme_reset_queues (dev\<lparr>nvme_enabled := False\<rparr>);
        let csts = csts_set_rdy False (csts_set_shst 2 csts);
        dev \<leftarrow> nvme_put_csts csts dev;
        Some (dev\<lparr>nvme_running := False\<rparr>) }
      else if cc_en cc then do {
        dev \<leftarrow> nvme_enable dev;
        nvme_put_csts (csts_set_shst 0 (csts_set_rdy True csts)) dev }
      else nvme_put_csts 0 (nvme_reset_queues (dev\<lparr>nvme_enabled := False\<rparr>)))"

text \<open>A register of the admin queue: refused while the controller is enabled.\<close>

definition nvme_admin_reg ::
    "(nvme_queue \<Rightarrow> nvme_queue) \<Rightarrow> u32 \<Rightarrow> event \<Rightarrow> nvme_device \<Rightarrow> nvme_device option" where
  "nvme_admin_reg f offset ev dev =
     (if nvme_enabled dev then Some dev
      else nvme_write_reg (upd_queue 0 f dev) offset (ev_data ev) 4)"

definition nvme_handle_write ::
    "'w nvme_host \<Rightarrow> event \<Rightarrow> nvme_device \<Rightarrow> 'w \<Rightarrow> (nvme_device \<times> 'w) option" where
  "nvme_handle_write H ev dev w =
     (let off = ev_offset ev; d = ev_data ev; here = map_option (\<lambda>dev. (dev, w)) in
      if ev_bar ev \<noteq> 0 then Some (dev, w)
      else if off = 0x14 then here (nvme_handle_cc_write ev dev)
      else if off = 0x24 then
        here (nvme_admin_reg (\<lambda>q. q\<lparr>sq_size := ucast ((d AND 0xffff) + 1),
                cq_size := ucast ((drop_bit 16 d AND 0xffff) + 1)\<rparr>) 0x24 ev dev)
      else if off = 0x28 then
        here (nvme_admin_reg (\<lambda>q. q\<lparr>sq_addr := set_lo32 (sq_addr q) (ucast d)\<rparr>) 0x28 ev dev)
      else if off = 0x2c then
        here (nvme_admin_reg (\<lambda>q. q\<lparr>sq_addr := set_hi32 (sq_addr q) (ucast d)\<rparr>) 0x2c ev dev)
      else if off = 0x30 then
        here (nvme_admin_reg (\<lambda>q. q\<lparr>cq_addr := set_lo32 (cq_addr q) (ucast d)\<rparr>) 0x30 ev dev)
      else if off = 0x34 then
        here (nvme_admin_reg (\<lambda>q. q\<lparr>cq_addr := set_hi32 (cq_addr q) (ucast d)\<rparr>) 0x34 ev dev)
      else if off < 0x1000 then Some (dev, w)
      else if \<not> nvme_enabled dev then Some (dev, w)
      else nvme_handle_doorbell_write H ev dev w)"

subsection \<open>The event loop\<close>

text \<open>
  The inner loop: the counters are read again in every round, the masked data goes back into the
  slot of the ring.
\<close>

partial_function (option) nvme_drain ::
    "'w nvme_host \<Rightarrow> shared_ring \<Rightarrow> nvme_device \<Rightarrow> 'w \<Rightarrow> (shared_ring \<times> nvme_device \<times> 'w) option" where
  "nvme_drain H r dev w =
     (let head = ring_head r; tail = ring_tail r in
      if head = tail then Some (r, dev, w)
      else if sint head < 0 \<or> PCIEM_RING_SIZE \<le> sint head then None
      else do {
        let k = nat (sint head);
        let ev = events r k;
        let ev = ev\<lparr>ev_data := ev_data ev AND size2mask (ucast (ev_size ev))\<rparr>;
        (dev, w) \<leftarrow> (if ev_type ev AND 2 \<noteq> 0 then nvme_handle_write H ev dev w else Some (dev, w));
        nvme_drain H (r\<lparr>events := (events r)(k := ev), ring_head := ring_next head\<rparr>) dev w })"

text \<open>
  The outer loop, over what the card finds each time \<open>poll\<close> returns: \<open>None\<close> for a time-out, otherwise
  the ring. The loop leaves what it does not look at, once the controller is shut down.
\<close>

fun dev_wake_loop ::
    "'w nvme_host \<Rightarrow> shared_ring option list \<Rightarrow> nvme_device \<Rightarrow> 'w \<Rightarrow>
       (shared_ring option list \<times> nvme_device \<times> 'w) option" where
  "dev_wake_loop H [] dev w = Some ([], dev, w)"
| "dev_wake_loop H (None # wakes) dev w =
     (if \<not> nvme_running dev then Some (None # wakes, dev, w) else dev_wake_loop H wakes dev w)"
| "dev_wake_loop H (Some r # wakes) dev w =
     (if \<not> nvme_running dev then Some (Some r # wakes, dev, w)
      else do { (_, dev, w) \<leftarrow> nvme_drain H r dev w; dev_wake_loop H wakes dev w })"

definition dev_event_loop ::
    "'w nvme_host \<Rightarrow> shared_ring option list \<Rightarrow> nvme_device \<Rightarrow> 'w \<Rightarrow>
       (shared_ring option list \<times> nvme_device \<times> 'w) option" where
  "dev_event_loop H wakes dev w = dev_wake_loop H wakes (dev\<lparr>nvme_running := True\<rparr>) w"

definition dev_prepare_ro_regs :: "nvme_device \<Rightarrow> nvme_device option" where
  "dev_prepare_ro_regs dev =
     do {
       dev \<leftarrow> nvme_write_reg dev 0x08 (ucast (NVME_VS 1 0 0)) 4;
       nvme_write_reg dev 0x00 (63 OR push_bit 24 10 OR push_bit 37 1) 8 }"

end
