(* ===== verification/NvmeQueues.thy ===== *)
theory NvmeQueues
  imports Nvme
begin

text \<open>
  The queue pairs of the NVMe card: what serving a submission queue does, against a reference in
  which the \<open>k\<close>-th command of a doorbell is fetched from, and completed to, an address computed from
  \<open>k\<close> alone; the phase tags of the completion queue; the doorbells the loop never returns from.
\<close>

subsection \<open>Device fields\<close>

lemma upd_queue_simps [simp]:
  "nvme_running (upd_queue i f dev) = nvme_running dev" "nvme_enabled (upd_queue i f dev) = nvme_enabled dev"
  "nvme_csts (upd_queue i f dev) = nvme_csts dev" "bar0 (upd_queue i f dev) = bar0 dev"
  "disk (upd_queue i f dev) = disk dev" "length (queues (upd_queue i f dev)) = length (queues dev)"
  by (simp_all add: upd_queue_def)

lemma upd_queue_at [simp]:
  "i < length (queues dev) \<Longrightarrow> queues (upd_queue i f dev) ! i = f (queues dev ! i)"
  "i \<noteq> j \<Longrightarrow> queues (upd_queue i f dev) ! j = queues dev ! j"
  by (simp_all add: upd_queue_def)

lemma upd_queue_twice: "i < length (queues dev) \<Longrightarrow>
    upd_queue i f (upd_queue i g dev) = upd_queue i (\<lambda>q. f (g q)) dev"
  by (simp add: upd_queue_def)

definition set_queue :: "nat \<Rightarrow> nvme_queue \<Rightarrow> nvme_device \<Rightarrow> nvme_device" where
  "set_queue i q = upd_queue i (\<lambda>_. q)"

lemma set_queue_simps [simp]:
  "i < length (queues dev) \<Longrightarrow> queues (set_queue i q dev) ! i = q"
  "i < length (queues dev) \<Longrightarrow> upd_queue i f (set_queue i q dev) = set_queue i (f q) dev"
  "length (queues (set_queue i q dev)) = length (queues dev)" "disk (set_queue i q dev) = disk dev"
  by (simp_all add: set_queue_def upd_queue_twice)

lemma set_queue_same: "set_queue i (queues dev ! i) dev = dev"
  by (simp add: set_queue_def upd_queue_def)

text \<open>An I/O command changes nothing of the card but its disk, and does not look at the queues.\<close>

lemma set_queue_disk: "(set_queue i q dev)\<lparr>disk := d\<rparr> = set_queue i q (dev\<lparr>disk := d\<rparr>)"
  by (simp add: set_queue_def upd_queue_def)

lemma io_command_frame:
  "nvme_execute_io_command H (set_queue i q dev) cmd w =
     map_option (\<lambda>(st, dev, w). (st, set_queue i q dev, w)) (nvme_execute_io_command H dev cmd w)"
  by (auto simp: nvme_execute_io_command_def nvme_io_write_def nvme_io_read_def set_queue_disk
      Let_def split: bind_split)

lemma io_command_keeps:
  "nvme_execute_io_command H dev cmd w = Some (st, dev', w') \<Longrightarrow> \<exists>d. dev' = dev\<lparr>disk := d\<rparr>"
  by (auto simp: nvme_execute_io_command_def nvme_io_write_def nvme_io_read_def Let_def
      split: if_splits bind_splits) (metis nvme_device.surjective nvme_device.update_convs(6))+

lemma io_command_length:
  "nvme_execute_io_command H dev cmd w = Some (st, dev', w') \<Longrightarrow> queues dev' = queues dev"
  using io_command_keeps by fastforce

subsection \<open>The queue after so many commands\<close>

definition queue_ok :: "nvme_queue \<Rightarrow> bool" where
  "queue_ok q \<longleftrightarrow> sq_head q < sq_size q \<and> sq_tail q < sq_size q \<and> cq_tail q < cq_size q"

definition slot_of :: "nvme_queue \<Rightarrow> nat \<Rightarrow> nat" where
  "slot_of q k = (unat (sq_head q) + k) mod unat (sq_size q)"

definition cq_slot :: "nvme_queue \<Rightarrow> nat \<Rightarrow> nat" where
  "cq_slot q k = (unat (cq_tail q) + k) mod unat (cq_size q)"

definition phase_at :: "nvme_queue \<Rightarrow> nat \<Rightarrow> u8" where
  "phase_at q k = (if odd ((unat (cq_tail q) + k) div unat (cq_size q)) then cq_phase q XOR 1 else cq_phase q)"

definition queue_after :: "nvme_queue \<Rightarrow> nat \<Rightarrow> nvme_queue" where
  "queue_after q k = q\<lparr>sq_head := of_nat (slot_of q k), cq_tail := of_nat (cq_slot q k), cq_phase := phase_at q k\<rparr>"

definition pending :: "nvme_queue \<Rightarrow> nat" where
  "pending q = (unat (sq_tail q) + unat (sq_size q) - unat (sq_head q)) mod unat (sq_size q)"

lemma small16: "x < unat (s :: u16) \<Longrightarrow> unat (of_nat x :: u16) = x"
proof -
  assume "x < unat s"
  moreover have "unat s < 2 ^ LENGTH(16)" by (rule unsigned_less)
  ultimately have "x < 2 ^ LENGTH(16)" by (rule order_less_trans)
  then show ?thesis by (simp add: unsigned_of_nat take_bit_nat_eq_self)
qed

lemma queue_okD:
  assumes "queue_ok q"
  shows "0 < unat (sq_size q)" "0 < unat (cq_size q)" "unat (sq_head q) < unat (sq_size q)"
    "unat (sq_tail q) < unat (sq_size q)" "unat (cq_tail q) < unat (cq_size q)"
  using assms by (auto simp: queue_ok_def word_less_nat_alt)

lemma slots_small:
  assumes "queue_ok q"
  shows "slot_of q k < unat (sq_size q)" "cq_slot q k < unat (cq_size q)"
    "unat (of_nat (slot_of q k) :: u16) = slot_of q k" "unat (of_nat (cq_slot q k) :: u16) = cq_slot q k"
proof -
  show a: "slot_of q k < unat (sq_size q)" and b: "cq_slot q k < unat (cq_size q)"
    using queue_okD [OF assms] by (simp_all add: slot_of_def cq_slot_def)
  show "unat (of_nat (slot_of q k) :: u16) = slot_of q k" "unat (of_nat (cq_slot q k) :: u16) = cq_slot q k"
    by (rule small16 [OF a], rule small16 [OF b])
qed

lemma queue_after_0: "queue_ok q \<Longrightarrow> queue_after q 0 = q"
  using queue_okD [of q] by (simp add: queue_after_def slot_of_def cq_slot_def phase_at_def)

lemma next_head_after:
  "queue_ok q \<Longrightarrow> nvme_next_head (queue_after q k) = of_nat (slot_of q (Suc k))"
  by (simp add: nvme_next_head_def queue_after_def slots_small) (simp add: slot_of_def mod_Suc_eq)

definition cq_after :: "nvme_queue \<Rightarrow> nat \<Rightarrow> nvme_queue" where
  "cq_after q k = q\<lparr>cq_tail := of_nat (cq_slot q k), cq_phase := phase_at q k\<rparr>"

lemma cq_small:
  assumes "cq_tail q < cq_size q"
  shows "cq_slot q k < unat (cq_size q)" "unat (of_nat (cq_slot q k) :: u16) = cq_slot q k"
proof -
  show a: "cq_slot q k < unat (cq_size q)" using assms by (simp add: cq_slot_def word_less_nat_alt)
  show "unat (of_nat (cq_slot q k) :: u16) = cq_slot q k" by (rule small16 [OF a])
qed

lemma advance_cq_after:
  assumes "cq_tail q < cq_size q"
  shows "nvme_advance_cq (cq_after q k) = cq_after q (Suc k)"
proof -
  let ?c = "unat (cq_size q)"
  note s = cq_small [OF assms, of k]
  have c: "0 < ?c" using assms by (auto simp: word_less_nat_alt)
  have wrap: "of_nat (cq_slot q k) + 1 = cq_size q \<longleftrightarrow> Suc (cq_slot q k) = ?c"
  proof -
    have "unat (cq_size q) < 2 ^ LENGTH(16)" by (rule unsigned_less)
    with s(1) have lt: "unat (of_nat (cq_slot q k) :: u16) + unat (1 :: u16) < 2 ^ LENGTH(16)"
      by (simp add: s(2))
    have "unat (of_nat (cq_slot q k) + 1 :: u16) = Suc (cq_slot q k)"
      using unat_add_small [OF lt] by (simp add: s(2))
    then show ?thesis by (metis word_unat_eq_iff)
  qed
  have "cq_slot q (Suc k) = (if Suc (cq_slot q k) = ?c then 0 else Suc (cq_slot q k))"
    "phase_at q (Suc k) = (if Suc (cq_slot q k) = ?c then phase_at q k XOR 1 else phase_at q k)"
    using c by (auto simp: cq_slot_def phase_at_def mod_Suc div_Suc xor.assoc)
  then show ?thesis
    using wrap by (simp add: cq_after_def nvme_advance_cq_def Let_def)
qed

lemma advance_after:
  assumes "queue_ok q"
  shows "nvme_advance_cq ((queue_after q k)\<lparr>sq_head := of_nat (slot_of q (Suc k))\<rparr>) = queue_after q (Suc k)"
proof -
  have "queue_after q j = (cq_after (q\<lparr>sq_head := of_nat (slot_of q j)\<rparr>) j)"
    "(queue_after q j)\<lparr>sq_head := h\<rparr> = cq_after (q\<lparr>sq_head := h\<rparr>) j" for j h
    by (simp_all add: queue_after_def cq_after_def cq_slot_def phase_at_def)
  then show ?thesis
    using assms advance_cq_after [of "q\<lparr>sq_head := of_nat (slot_of q (Suc k))\<rparr>" k] by (simp add: queue_ok_def)
qed

lemma reaches_tail:
  assumes "queue_ok q"
  shows "of_nat (slot_of q (pending q)) = sq_tail q"
    and "k < pending q \<Longrightarrow> of_nat (slot_of q k) \<noteq> sq_tail q"
proof -
  note d = queue_okD [OF assms]
  let ?h = "unat (sq_head q)" and ?t = "unat (sq_tail q)" and ?s = "unat (sq_size q)"
  have slots: "slot_of q k = (if ?h + k < ?s then ?h + k else ?h + k - ?s)" if "k < ?s" for k
    using d that by (auto simp: slot_of_def mod_if)
  have p: "pending q = (if ?h \<le> ?t then ?t - ?h else ?t + ?s - ?h)" "pending q < ?s"
    using d by (auto simp: pending_def mod_if)
  have "slot_of q (pending q) = ?t"
    using d p(1) unfolding slots [OF p(2)] by (auto split: if_splits)
  then show "of_nat (slot_of q (pending q)) = sq_tail q" by simp
  assume k: "k < pending q"
  then have "k < ?s" using p(2) by simp
  from slots [OF this] have "slot_of q k \<noteq> ?t"
    using d k p(1) by (auto split: if_splits)
  then show "of_nat (slot_of q k) \<noteq> sq_tail q"
    using slots_small(3) [OF assms, of k] by metis
qed

subsection \<open>The reference and the refinement\<close>

definition io_completion :: "nvme_queue \<Rightarrow> nat \<Rightarrow> nvme_command \<Rightarrow> u32 \<Rightarrow> nvme_completion" where
  "io_completion q k cmd st =
     \<lparr>cpl_result = 0, cpl_sq_head = of_nat (slot_of q (Suc k)), cpl_sq_id = q_id q, cpl_command_id = c_id cmd,
      cpl_status = ucast (st OR ucast (phase_at q k AND 1))\<rparr>"

text \<open>
  The \<open>n\<close> commands from number \<open>k\<close> on: fetch, execute, complete, interrupt. Nothing of the queue
  changes; every address is a function of the queue at the doorbell and of the number.
\<close>

fun io_rounds :: "'w nvme_host \<Rightarrow> nvme_queue \<Rightarrow> nat \<Rightarrow> nat \<Rightarrow> nvme_device \<Rightarrow> 'w \<Rightarrow> (nvme_device \<times> 'w) option" where
  "io_rounds H q k 0 dev w = Some (dev, w)"
| "io_rounds H q k (Suc n) dev w =
     do {
       (r, w) \<leftarrow> host_read H (sq_addr q + of_nat (slot_of q k) * 64) 64 w;
       bs \<leftarrow> r;
       let cmd = nvme_command_of bs;
       (st, dev, w) \<leftarrow> nvme_execute_io_command H dev cmd w;
       (_, w) \<leftarrow> host_write H (cq_addr q + of_nat (cq_slot q k) * 16)
                   (nvme_completion_bytes (io_completion q k cmd st)) w;
       io_rounds H q (Suc k) n dev (snd (host_irq H (ucast (q_vector q)) w)) }"

definition sq_readable :: "'w nvme_host \<Rightarrow> nvme_queue \<Rightarrow> bool" where
  "sq_readable H q \<longleftrightarrow>
     (\<forall>s<unat (sq_size q). \<forall>w w'. host_read H (sq_addr q + of_nat s * 64) 64 w \<noteq> Some (None, w'))"

lemma io_round_step:
  assumes ok: "queue_ok q" and i: "i < length (queues dev)" and idn: "q_id q \<noteq> 0"
    and rd: "sq_readable H q" and k: "k < pending q"
  shows "nvme_serve H i (set_queue i (queue_after q k) dev) w =
     do {
       (r, w) \<leftarrow> host_read H (sq_addr q + of_nat (slot_of q k) * 64) 64 w;
       bs \<leftarrow> r;
       let cmd = nvme_command_of bs;
       (st, dev, w) \<leftarrow> nvme_execute_io_command H dev cmd w;
       (_, w) \<leftarrow> host_write H (cq_addr q + of_nat (cq_slot q k) * 16)
                   (nvme_completion_bytes (io_completion q k cmd st)) w;
       nvme_serve H i (set_queue i (queue_after q (Suc k)) dev)
         (snd (host_irq H (ucast (q_vector q)) w)) }"
proof -
  have head: "sq_head (queue_after q k) \<noteq> sq_tail (queue_after q k)"
    using reaches_tail(2) [OF ok k] by (simp add: queue_after_def)
  have fields: "sq_addr (queue_after q k) = sq_addr q" "sq_size (queue_after q k) = sq_size q"
    "q_id (queue_after q k) = q_id q" "sq_head (queue_after q k) = of_nat (slot_of q k)"
    "cq_addr (queue_after q k) = cq_addr q" "cq_tail (queue_after q k) = of_nat (cq_slot q k)"
    "cq_phase (queue_after q k) = phase_at q k" for k
    by (simp_all add: queue_after_def)
  have vec: "q_vector (queue_after q (Suc k)) = q_vector q" by (simp add: queue_after_def)
  have s0: "sq_size q \<noteq> 0" using queue_okD(1) [OF ok] by auto
  have ucast_slots: "(ucast (of_nat (slot_of q k) :: u16) :: u64) = of_nat (slot_of q k)"
    "(ucast (of_nat (cq_slot q k) :: u16) :: u64) = of_nat (cq_slot q k)"
    using slots_small(3,4) [OF ok, of k] by (metis of_nat_unat)+
  have exec: "nvme_execute_command H (set_queue i ((queue_after q k)\<lparr>sq_head := of_nat (slot_of q (Suc k))\<rparr>) dev) cmd i w =
     do {
       (st, dev, w) \<leftarrow> nvme_execute_io_command H dev cmd w;
       (_, w) \<leftarrow> host_write H (cq_addr q + of_nat (cq_slot q k) * 16)
                   (nvme_completion_bytes (io_completion q k cmd st)) w;
       Some (set_queue i (queue_after q (Suc k)) dev, snd (host_irq H (ucast (q_vector q)) w)) }" for cmd w
  proof (cases "nvme_execute_io_command H dev cmd w")
    case None
    then show ?thesis
      using i idn by (simp add: nvme_execute_command_def nvme_run_def fields io_command_frame)
  next
    case (Some r)
    obtain st dev' w' where r: "r = (st, dev', w')" by (cases r)
    have len: "length (queues dev') = length (queues dev)"
      using io_command_length Some r by metis
    show ?thesis
      using i idn Some by (simp add: nvme_execute_command_def nvme_run_def fields io_command_frame r len
          Let_def advance_after [OF ok] vec ucast_slots nvme_cpl_of_def io_completion_def)
  qed
  have rdk: "host_read H (sq_addr q + of_nat (slot_of q k) * 64) 64 w \<noteq> Some (None, w')" for w'
    using rd slots_small(1) [OF ok] by (auto simp: sq_readable_def)
  show ?thesis
  proof (cases "host_read H (sq_addr q + of_nat (slot_of q k) * 64) 64 w")
    case None
    then show ?thesis
      using head i by (subst nvme_serve_unfold) (simp add: nvme_read_sq_entry_def fields ucast_slots)
  next
    case (Some r)
    then obtain bs w' where r: "r = (Some bs, w')" using rdk by (cases r; cases "fst r") auto
    show ?thesis
      using head i Some s0
      by (subst nvme_serve_unfold)
        (simp add: nvme_read_sq_entry_def fields ucast_slots r next_head_after [OF ok] exec Let_def case_prod_unfold)
  qed
qed

lemma io_rounds_serve:
  assumes "queue_ok q" "i < length (queues dev)" "q_id q \<noteq> 0" "sq_readable H q" "k + n = pending q"
  shows "nvme_serve H i (set_queue i (queue_after q k) dev) w =
     map_option (\<lambda>(dev, w). (set_queue i (queue_after q (pending q)) dev, w)) (io_rounds H q k n dev w)"
  using assms(2,5)
proof (induction n arbitrary: k dev w)
  case 0
  have "sq_head (queue_after q k) = sq_tail (queue_after q k)"
    using reaches_tail(1) [OF assms(1)] 0 by (simp add: queue_after_def)
  with 0 show ?case by (subst nvme_serve_unfold) simp
next
  case (Suc n)
  then have k: "k < pending q" by simp
  have IH: "nvme_execute_io_command H dev cmd w = Some (st, dev', w') \<Longrightarrow>
      nvme_serve H i (set_queue i (queue_after q (Suc k)) dev') w'' =
      map_option (\<lambda>(dev, w). (set_queue i (queue_after q (pending q)) dev, w)) (io_rounds H q (Suc k) n dev' w'')"
    for cmd st dev' w w' w''
    using Suc.IH [of dev' "Suc k" w''] io_command_length [of H dev cmd w st dev' w'] Suc.prems by simp
  show ?case
    unfolding io_round_step [OF assms(1) Suc.prems(1) assms(3,4) k] io_rounds.simps
    by (auto simp: Let_def IH split: bind_splits option.splits)
qed

subsection \<open>A doorbell\<close>

definition doorbell_offset :: "nat \<Rightarrow> u64" where
  "doorbell_offset i = 0x1000 + 8 * of_nat i"

lemma doorbell_decode:
  assumes "i < 16"
  shows "(ucast ((doorbell_offset i - 0x1000) div 8) :: u16) = of_nat i" "(doorbell_offset i - 0x1000) mod 8 = 0"
    "doorbell_offset i \<ge> 0x1000" "unat (of_nat i :: u16) = i" "unat (0x1000 + ucast (of_nat i :: u16) * 8 :: u32) = 0x1000 + 8 * i"
proof -
  have "i \<in> set [0..<16]" using assms by simp
  then have "i \<in> {0,1,2,3,4,5,6,7,8,9,10,11,12,13,14,15}" by (simp add: upt_conv_Cons) auto
  then show "(ucast ((doorbell_offset i - 0x1000) div 8) :: u16) = of_nat i" "(doorbell_offset i - 0x1000) mod 8 = 0"
    "doorbell_offset i \<ge> 0x1000" "unat (of_nat i :: u16) = i" "unat (0x1000 + ucast (of_nat i :: u16) * 8 :: u32) = 0x1000 + 8 * i"
    by (auto simp: doorbell_offset_def)
qed

lemma doorbell_handler:
  assumes "ev_bar ev = 0" "nvme_enabled dev" "ev_offset ev = doorbell_offset i" "i < 16"
  shows "nvme_handle_write H ev dev w = do {
      (dev, w) \<leftarrow> nvme_serve H i (upd_queue i (\<lambda>q. q\<lparr>sq_tail := ucast (ev_data ev AND 0xffff)\<rparr>) dev) w;
      Some (dev\<lparr>bar0 := poke (bar0 dev) (0x1000 + 8 * i) (le32 (ucast (ev_data ev)))\<rparr>, w) }"
proof -
  note d = doorbell_decode [OF assms(4)]
  have ge: "doorbell_offset i \<notin> {0x14, 0x24, 0x28, 0x2c, 0x30, 0x34}"
    using d(3) by (auto simp: word_le_nat_alt)
  have le32: "le32 x \<noteq> []" for x by (simp add: le32_def)
  have idx: "nvme_get_queue dev (of_nat i) = Some i"
    using assms(4) d(4) by (auto simp: nvme_get_queue_def MAX_QUEUES_def word_le_nat_alt)
  have reg: "nvme_write_reg dev' (0x1000 + ucast (of_nat i :: u16) * 8) v 4 =
      Some (dev'\<lparr>bar0 := poke (bar0 dev') (0x1000 + 8 * i) (le32 (ucast v))\<rparr>)" for dev' v
    using assms(4) by (simp add: nvme_write_reg_def store_bytes_def d(5) le32 NVME_BAR0_SIZE_def)
  have nl: "\<not> doorbell_offset i < 0x1000" using d(3) by (simp add: not_less)
  have "nvme_handle_write H ev dev w = nvme_handle_doorbell_write H ev dev w"
    using assms(1,2) nl ge by (simp add: nvme_handle_write_def Let_def assms(3))
  then show ?thesis
    by (simp add: nvme_handle_doorbell_write_def assms(3) d(1,2) idx reg)
qed

lemma doorbell_served:
  assumes "ev_bar ev = 0" "nvme_enabled dev" "ev_offset ev = doorbell_offset i" "i < 16"
    and "length (queues dev) = 16"
    and "q = (queues dev ! i)\<lparr>sq_tail := ucast (ev_data ev AND 0xffff)\<rparr>"
    and "queue_ok q" "q_id q \<noteq> 0" "sq_readable H q"
  shows "nvme_handle_write H ev dev w = do {
      (dev, w) \<leftarrow> io_rounds H q 0 (pending q) dev w;
      Some ((set_queue i (queue_after q (pending q)) dev)
              \<lparr>bar0 := poke (bar0 dev) (0x1000 + 8 * i) (le32 (ucast (ev_data ev)))\<rparr>, w) } \<and>
    sq_head (queue_after q (pending q)) = ucast (ev_data ev AND 0xffff)"
proof -
  have start: "upd_queue i (\<lambda>q. q\<lparr>sq_tail := ucast (ev_data ev AND 0xffff)\<rparr>) dev = set_queue i (queue_after q 0) dev"
    unfolding queue_after_0 [OF assms(7)] by (simp add: upd_queue_def set_queue_def assms(6))
  have i: "i < length (queues dev)" using assms(4,5) by simp
  have "nvme_handle_write H ev dev w = do {
      (dev, w) \<leftarrow> io_rounds H q 0 (pending q) dev w;
      Some ((set_queue i (queue_after q (pending q)) dev)
              \<lparr>bar0 := poke (bar0 dev) (0x1000 + 8 * i) (le32 (ucast (ev_data ev)))\<rparr>, w) }"
    unfolding doorbell_handler [OF assms(1-4)] start
    using io_rounds_serve [OF assms(7) i assms(8,9), of 0 "pending q" w]
    by (auto simp: set_queue_def split: bind_splits)
  moreover have "sq_head (queue_after q (pending q)) = ucast (ev_data ev AND 0xffff)"
    using reaches_tail(1) [OF assms(7)] by (simp add: queue_after_def assms(6))
  ultimately show ?thesis by blast
qed

text \<open>
  C16. Ringing the doorbell of an I/O submission queue serves exactly the pending commands, once
  each and in order: the loop over the shared 16-bit indices is the reference of \<open>n\<close> rounds, in which
  command number \<open>k\<close> is fetched from slot \<open>(head + k) mod size\<close>, executed, completed into slot
  \<open>(tail + k) mod size\<close> of the completion queue with the phase of that lap and followed by an
  interrupt; it ends with the head at the tail the host wrote, and the doorbell register holds it.
\<close>

theorem nvme_doorbell_refines:
  assumes "ev_bar ev = 0" "nvme_enabled dev" "ev_offset ev = doorbell_offset i" "i < 16"
    and "length (queues dev) = 16"
    and "q = (queues dev ! i)\<lparr>sq_tail := ucast (ev_data ev AND 0xffff)\<rparr>"
    and "queue_ok q" "q_id q \<noteq> 0" "sq_readable H q"
  shows "nvme_handle_write H ev dev w = do {
      (dev, w) \<leftarrow> io_rounds H q 0 (pending q) dev w;
      Some ((set_queue i (queue_after q (pending q)) dev)
              \<lparr>bar0 := poke (bar0 dev) (0x1000 + 8 * i) (le32 (ucast (ev_data ev)))\<rparr>, w) } \<and>
    sq_head (queue_after q (pending q)) = ucast (ev_data ev AND 0xffff)"
  using doorbell_served [OF assms] .

text \<open>A host that is plain memory, and a card with one I/O queue of four entries.\<close>

record ram_world =
  ram :: "u64 \<Rightarrow> u8"
  irqs :: "u32 list"

definition ram_host :: "ram_world nvme_host" where
  "ram_host =
     \<lparr>host_write = (\<lambda>a bs w. Some (True, w\<lparr>ram := mem_put (ram w) a bs\<rparr>)),
      host_read = (\<lambda>a n w. Some (Some (mem_get (ram w) a n), w)),
      host_out = (\<lambda>p1 p2 bs w. Some (True, w\<lparr>ram := mem_put (ram w) p1 bs\<rparr>)),
      host_in = (\<lambda>p1 p2 bs w. Some (True, mem_get (ram w) p1 (length bs), w)),
      host_irq = (\<lambda>v w. (True, w\<lparr>irqs := irqs w @ [v]\<rparr>)),
      host_calloc = (\<lambda>w. True)\<rparr>"

definition queue0 :: nvme_queue where
  "queue0 = \<lparr>q_created = True, sq_size = 4, cq_size = 4, sq_addr = 0x1000, cq_addr = 0x2000, sq_tail = 3,
     sq_head = 3, cq_tail = 3, cq_head = 0, cq_phase = 1, q_vector = 5, q_id = 1\<rparr>"

definition card0 :: nvme_device where
  "card0 = \<lparr>nvme_running = True, nvme_enabled = True, nvme_csts = 1, queues = replicate 16 queue0,
     bar0 = (\<lambda>_. 0), disk = (\<lambda>_. 0)\<rparr>"

definition ring_doorbell :: "u64 \<Rightarrow> event" where
  "ring_doorbell v = \<lparr>ev_seq = 0, ev_type = 2, ev_bar = 0, ev_offset = 0x1008, ev_size = 4, ev_data = v, ev_timestamp = 0\<rparr>"

lemma ram_host_simps [simp]:
  "host_write ram_host a bs w = Some (True, w\<lparr>ram := mem_put (ram w) a bs\<rparr>)"
  "host_read ram_host a n w = Some (Some (mem_get (ram w) a n), w)"
  "host_out ram_host p1 p2 bs w = Some (True, w\<lparr>ram := mem_put (ram w) p1 bs\<rparr>)"
  "host_in ram_host p1 p2 bs w = Some (True, mem_get (ram w) p1 (length bs), w)"
  "host_irq ram_host v w = (True, w\<lparr>irqs := irqs w @ [v]\<rparr>)" "host_calloc ram_host w"
  by (simp_all add: ram_host_def)

theorem nvme_doorbell_refines_witness:
  "\<exists>dev w. nvme_handle_write ram_host (ring_doorbell 1) card0 \<lparr>ram = (\<lambda>_. 0), irqs = []\<rparr> = Some (dev, w) \<and>
     irqs w = [5, 5] \<and> queues dev ! 1 = queue0\<lparr>sq_tail := 1, sq_head := 1, cq_tail := 1, cq_phase := 0\<rparr>"
proof -
  define q where "q = queue0\<lparr>sq_tail := 1\<rparr>"
  have pend: "pending q = Suc (Suc 0)" by (simp add: q_def queue0_def pending_def)
  have op: "c_opcode (nvme_command_of (mem_get f a 64)) = f a" for f a
    by (simp add: nvme_command_of_def Let_def mem_get_def)
  have flush: "nvme_execute_io_command H dev cmd w = Some (NVME_SUCCESS, dev, w)" if "c_opcode cmd = 0"
    for H :: "ram_world nvme_host" and dev cmd w
    using that by (simp add: nvme_execute_io_command_def)
  have slots: "slot_of q (Suc 0) = 0" "cq_slot q 0 = 3" "sq_addr q = 0x1000" "cq_addr q = 0x2000" "q_vector q = 5"
    by (simp_all add: slot_of_def cq_slot_def q_def queue0_def)
  have far: "mem_put f 0x2030 (nvme_completion_bytes c) 0x1000 = f 0x1000" for f c
    by (rule mem_put_other) (simp add: nvme_completion_bytes_def)
  have rounds: "\<exists>m. io_rounds ram_host q 0 (pending q) card0 \<lparr>ram = (\<lambda>_. 0), irqs = []\<rparr> =
      Some (card0, \<lparr>ram = m, irqs = [5, 5]\<rparr>)"
    by (simp add: pend op flush slots far Let_def)
  have after: "queue_after q (pending q) = queue0\<lparr>sq_tail := 1, sq_head := 1, cq_tail := 1, cq_phase := 0\<rparr>"
    unfolding pend by (simp add: queue_after_def slot_of_def cq_slot_def phase_at_def q_def queue0_def)
  have card: "length (queues card0) = 16" "queues card0 ! Suc 0 = queue0" "nvme_enabled card0"
    by (simp_all add: card0_def)
  have "nvme_handle_write ram_host (ring_doorbell 1) card0 \<lparr>ram = (\<lambda>_. 0), irqs = []\<rparr> = do {
      (dev, w) \<leftarrow> io_rounds ram_host q 0 (pending q) card0 \<lparr>ram = (\<lambda>_. 0), irqs = []\<rparr>;
      Some ((set_queue 1 (queue_after q (pending q)) dev)
              \<lparr>bar0 := poke (bar0 dev) (0x1000 + 8 * 1) (le32 (ucast (ev_data (ring_doorbell 1))))\<rparr>, w) } \<and>
      sq_head (queue_after q (pending q)) = ucast (ev_data (ring_doorbell 1) AND 0xffff)"
    by (rule nvme_doorbell_refines [where i = 1])
      (simp_all add: ring_doorbell_def doorbell_offset_def card q_def queue0_def queue_ok_def sq_readable_def)
  with rounds after card show ?thesis by auto
qed

subsection \<open>Doorbells that are never answered\<close>


lemma advance_cq_keeps [simp]:
  "sq_head (nvme_advance_cq q) = sq_head q" "sq_tail (nvme_advance_cq q) = sq_tail q"
  "sq_size (nvme_advance_cq q) = sq_size q" "q_id (nvme_advance_cq q) = q_id q"
  "sq_addr (nvme_advance_cq q) = sq_addr q" "cq_addr (nvme_advance_cq q) = cq_addr q"
  "q_vector (nvme_advance_cq q) = q_vector q"
  by (simp_all add: nvme_advance_cq_def Let_def)

text \<open>What a run of the loop that returns went through, as an induction rule.\<close>

lemma serve_induct [consumes 1, case_names stop retry round]:
  assumes "nvme_serve H i dev w = Some r"
    and stop: "\<And>dev w. sq_head (queues dev ! i) = sq_tail (queues dev ! i) \<Longrightarrow> P dev w (dev, w)"
    and retry: "\<And>dev w w' r. \<lbrakk>sq_head (queues dev ! i) \<noteq> sq_tail (queues dev ! i);
      nvme_read_sq_entry H (queues dev ! i) w = Some (None, w'); P dev w' r\<rbrakk> \<Longrightarrow> P dev w r"
    and round: "\<And>dev w w1 cmd dev' w2 r. \<lbrakk>sq_head (queues dev ! i) \<noteq> sq_tail (queues dev ! i);
      nvme_read_sq_entry H (queues dev ! i) w = Some (Some cmd, w1); sq_size (queues dev ! i) \<noteq> 0;
      nvme_execute_command H (upd_queue i (\<lambda>q. q\<lparr>sq_head := nvme_next_head q\<rparr>) dev) cmd i w1 = Some (dev', w2);
      P dev' w2 r\<rbrakk> \<Longrightarrow> P dev w r"
  shows "P dev w r"
proof -
  have "serve_rounds H i n dev w = Leaves (fst r) (snd r) \<Longrightarrow> P dev w r" for n
  proof (induction n arbitrary: dev w)
    case (Suc n)
    show ?case
    proof (cases "sq_head (queues dev ! i) = sq_tail (queues dev ! i)")
      case True
      with Suc.prems have "r = (dev, w)" by (cases r) (simp add: serve_round_def)
      with stop [OF True] show ?thesis by simp
    next
      case False
      with Suc.prems obtain e w1 where e: "nvme_read_sq_entry H (queues dev ! i) w = Some (e, w1)"
        by (cases "nvme_read_sq_entry H (queues dev ! i) w") (auto simp: serve_round_def Let_def)
      show ?thesis
      proof (cases e)
        case None
        with Suc False e have "P dev w1 r" by (simp add: serve_round_def Let_def)
        with retry [OF False] e None show ?thesis by blast
      next
        case (Some cmd)
        with Suc.prems False e obtain dev' w2 where x: "sq_size (queues dev ! i) \<noteq> 0"
          "nvme_execute_command H (upd_queue i (\<lambda>q. q\<lparr>sq_head := nvme_next_head q\<rparr>) dev) cmd i w1 = Some (dev', w2)"
          "serve_rounds H i n dev' w2 = Leaves (fst r) (snd r)"
          by (auto simp: serve_round_def Let_def split: option.splits if_splits)
        from round [OF False _ x(1,2) Suc.IH [OF x(3)]] e Some show ?thesis by blast
      qed
    qed
  qed simp
  with serve_serve_rounds [OF assms(1)] show ?thesis by blast
qed












subsection \<open>Phase tags\<close>

text \<open>
  What the host sees of the completion queue: the phase bit in every slot. Posting a completion
  writes the phase of the queue in the slot at its tail and advances.
\<close>

definition post_tag :: "nvme_queue \<times> (nat \<Rightarrow> bool) \<Rightarrow> nvme_queue \<times> (nat \<Rightarrow> bool)" where
  "post_tag = (\<lambda>(q, t). (nvme_advance_cq q, t(unat (cq_tail q) := bit (cq_phase q) 0)))"

lemma posted_queue:
  assumes "cq_tail q < cq_size q"
  shows "fst ((post_tag ^^ n) (q, t)) = cq_after q n"
proof (induction n)
  case 0
  have "unat (cq_tail q) < unat (cq_size q)" using assms by (simp add: word_less_nat_alt)
  then show ?case by (simp add: cq_after_def cq_slot_def phase_at_def)
next
  case (Suc n)
  then show ?case using advance_cq_after [OF assms, of n] by (simp add: post_tag_def case_prod_unfold)
qed

lemma posted_tags:
  assumes "cq_tail q = 0" "cq_phase q = 1" "0 < cq_size q" "s < unat (cq_size q)"
  shows "snd ((post_tag ^^ n) (q, \<lambda>_. False)) s =
     (if s < n mod unat (cq_size q) then even (n div unat (cq_size q)) else odd (n div unat (cq_size q)))"
proof (induction n)
  case (Suc n)
  have ct: "cq_tail q < cq_size q" using assms(1,3) by simp
  have tail: "unat (cq_tail (cq_after q n)) = n mod unat (cq_size q)"
    using cq_small(2) [OF ct, of n] assms(1) by (simp add: cq_after_def cq_slot_def)
  have ph: "bit (cq_phase (cq_after q n)) 0 = even (n div unat (cq_size q))"
    by (simp add: cq_after_def phase_at_def assms(1,2))
  have "snd ((post_tag ^^ Suc n) (q, \<lambda>_. False)) s =
      (if s = n mod unat (cq_size q) then even (n div unat (cq_size q)) else snd ((post_tag ^^ n) (q, \<lambda>_. False)) s)"
    using posted_queue [OF ct, of n "\<lambda>_. False"] tail ph by (simp add: post_tag_def case_prod_unfold)
  then show ?case using Suc assms(4) by (auto simp: mod_Suc div_Suc)
qed simp

lemma lap_cases:
  fixes m n S :: nat
  assumes "0 < S" "m + d * S \<le> n" "n \<le> m + Suc d * S"
  shows "(n div S = m div S + d \<and> m mod S \<le> n mod S) \<or> (n div S = m div S + Suc d \<and> n mod S \<le> m mod S)"
proof -
  have lo: "m div S + d \<le> n div S" and hi: "n div S \<le> m div S + Suc d"
    using div_le_mono [OF assms(2), of S] div_le_mono [OF assms(3), of S] assms(1)
    by (simp_all only: div_mult_self1 less_numeral_extra neq0_conv not_gr_zero)
  have n: "n = n div S * S + n mod S" and m: "m = m div S * S + m mod S" by simp_all
  show ?thesis
  proof (cases "n div S = m div S + d")
    case True
    then have "n = m div S * S + d * S + n mod S" using n by (simp add: add_mult_distrib)
    then have "m mod S \<le> n mod S" using assms(2) m by linarith
    with True show ?thesis by blast
  next
    case False
    then have e: "n div S = m div S + Suc d" using lo hi by simp
    then have "n = m div S * S + Suc d * S + n mod S" using n by (simp add: add_mult_distrib)
    then have "n mod S \<le> m mod S" using assms(3) m by linarith
    with e show ?thesis by blast
  qed
qed

text \<open>
  The phase tag tells the host which completions are new. After \<open>n\<close> completions on a queue that
  was just created, the host that waits for number \<open>m\<close> looks at slot \<open>m mod size\<close> for the phase of
  that lap: as long as it is at most one queue behind, it finds it there exactly when the completion
  has been posted. The card never looks at the head the host gives back, so nothing keeps the host
  within that distance; between one and two queues behind, posted completions look like old ones.
\<close>

theorem nvme_phase_tag:
  assumes "cq_tail q = 0" "cq_phase q = 1" "0 < cq_size q" "S = unat (cq_size q)"
  shows "(m \<le> n \<and> n \<le> m + S \<longrightarrow>
      (snd ((post_tag ^^ n) (q, \<lambda>_. False)) (m mod S) = even (m div S) \<longleftrightarrow> m < n)) \<and>
    (m + S < n \<and> n \<le> m + 2 * S \<longrightarrow>
      snd ((post_tag ^^ n) (q, \<lambda>_. False)) (m mod S) \<noteq> even (m div S))"
proof -
  have S: "0 < S" using assms(3,4) by (auto simp: word_less_nat_alt)
  have tag: "snd ((post_tag ^^ n) (q, \<lambda>_. False)) (m mod S) =
      (if m mod S < n mod S then even (n div S) else odd (n div S))"
    using posted_tags [OF assms(1-3), of "m mod S" n] S by (simp add: assms(4))
  have n: "n = n div S * S + n mod S" and m: "m = m div S * S + m mod S" by simp_all
  show ?thesis
  proof (intro conjI impI; elim conjE)
    assume b: "m \<le> n" "n \<le> m + S"
    consider "n div S = m div S" "m mod S \<le> n mod S" | "n div S = m div S + 1" "n mod S \<le> m mod S"
      using lap_cases [OF S, of m 0 n] b by auto
    then show "(snd ((post_tag ^^ n) (q, \<lambda>_. False)) (m mod S) = even (m div S)) = (m < n)"
    proof cases
      case 1
      then have "m < n \<longleftrightarrow> m mod S < n mod S" using n m by (metis nat_add_left_cancel_less)
      with 1 show ?thesis unfolding tag by auto
    next
      case 2
      then have "m < n" using b(1) by (metis add_cancel_right_right le_neq_implies_less one_neq_zero)
      with 2 show ?thesis unfolding tag by auto
    qed
  next
    assume b: "m + S < n" "n \<le> m + 2 * S"
    consider "n div S = m div S + 1" "m mod S \<le> n mod S" | "n div S = m div S + 2" "n mod S \<le> m mod S"
      using lap_cases [OF S, of m 1 n] b by auto
    then show "snd ((post_tag ^^ n) (q, \<lambda>_. False)) (m mod S) \<noteq> even (m div S)"
    proof cases
      case 1
      then have "n = m div S * S + S + n mod S" using n by (metis add_mult_distrib mult_1)
      with 1 b(1) m have "m mod S < n mod S" by linarith
      with 1 show ?thesis unfolding tag by auto
    next
      case 2
      then show ?thesis unfolding tag by auto
    qed
  qed
qed

theorem nvme_phase_tag_witness:
  "snd ((post_tag ^^ 5) (queue0\<lparr>cq_tail := 0\<rparr>, \<lambda>_. False)) (4 mod 4) = even (4 div 4 :: nat) \<and>
   snd ((post_tag ^^ 5) (queue0\<lparr>cq_tail := 0\<rparr>, \<lambda>_. False)) (5 mod 4) \<noteq> even (5 div 4 :: nat) \<and>
   snd ((post_tag ^^ 6) (queue0\<lparr>cq_tail := 0\<rparr>, \<lambda>_. False)) (1 mod 4) \<noteq> even (1 div 4 :: nat)"
proof -
  define T where "T n = snd ((post_tag ^^ n) (queue0\<lparr>cq_tail := 0\<rparr>, \<lambda>_. False))" for n
  have "(m \<le> n \<and> n \<le> m + 4 \<longrightarrow> (T n (m mod 4) = even (m div 4) \<longleftrightarrow> m < n)) \<and>
      (m + 4 < n \<and> n \<le> m + 2 * 4 \<longrightarrow> T n (m mod 4) \<noteq> even (m div 4))" for m n
    unfolding T_def by (rule nvme_phase_tag) (simp_all add: queue0_def)
  from this [of 4 5] this [of 5 5] this [of 1 6] show ?thesis unfolding T_def [symmetric] by simp
qed

end
