(* ===== verification/NvmeDisk.thy ===== *)
theory NvmeDisk
  imports NvmeQueues
begin

text \<open>
  The disk of the NVMe card: where a read or a write goes, what it leaves alone, and that a read
  gives back what was written. The contract of the indirect transfers, which is all these results
  need, is the locale \<open>nvme_transfers\<close>; \<^verbatim>\<open>NvmeHost.thy\<close> interprets it on the ioctls.
\<close>

definition io_start :: "nvme_command \<Rightarrow> nat" where
  "io_start cmd = unat (nvme_offset cmd)"

definition io_bytes :: "nvme_command \<Rightarrow> nat" where
  "io_bytes cmd = unat (nvme_len cmd)"

definition io_in_disk :: "nvme_command \<Rightarrow> bool" where
  "io_in_disk cmd \<longleftrightarrow> io_start cmd + io_bytes cmd \<le> 2 ^ 30"

definition io_slba :: "nvme_command \<Rightarrow> nat" where
  "io_slba cmd = unat (c_dw11 cmd) * 2 ^ 32 + unat (c_dw10 cmd)"

lemma disk_size: "unat NVME_DISK_SIZE = 2 ^ 30"
  by (simp add: NVME_DISK_SIZE_def)

lemma unat_up: "LENGTH('a) \<le> LENGTH('b) \<Longrightarrow> unat (ucast x :: 'b::len word) = unat x"
  for x :: "'a::len word"
proof -
  assume "LENGTH('a) \<le> LENGTH('b)"
  then have "(2 :: nat) ^ LENGTH('a) \<le> 2 ^ LENGTH('b)" by (rule power_increasing) simp
  moreover have "unat x < 2 ^ LENGTH('a)" by (rule unsigned_less)
  ultimately have "unat x < 2 ^ LENGTH('b)" by linarith
  then show ?thesis by (simp only: unsigned_ucast_eq take_bit_nat_eq_self)
qed

lemma unat_shift: "unat (push_bit n x) = unat x * 2 ^ n mod 2 ^ LENGTH('a)"
  for x :: "'a::len word"
  by (subst unsigned_push_bit_eq) (simp only: take_bit_eq_mod push_bit_eq_mult)

lemma io_bytes_eq: "io_bytes cmd = 4096 * (unat (cdw_lo16 (c_dw12 cmd)) + 1)"
proof -
  have nlb: "unat (cdw_lo16 (c_dw12 cmd)) < 2 ^ LENGTH(16)" by (rule unsigned_less)
  have a: "unat (ucast (cdw_lo16 (c_dw12 cmd)) + 1 :: u32) = unat (cdw_lo16 (c_dw12 cmd)) + 1"
    using nlb unat_add_small [of "ucast (cdw_lo16 (c_dw12 cmd)) :: u32" 1] by (simp add: unat_up)
  show ?thesis
    using nlb by (simp add: io_bytes_def nvme_len_def unat_shift unat_up a)
qed

lemma slba_word: "unat (ucast lo OR push_bit 32 (ucast hi) :: u64) = unat hi * 2 ^ 32 + unat lo"
  for lo hi :: u32
proof -
  have disj: "(ucast lo :: u64) AND push_bit 32 (ucast hi) = 0"
    by (rule bit_word_eqI) (auto simp: bit_simps dest: bit_imp_le_length)
  have b: "unat lo < 2 ^ LENGTH(32)" "unat hi < 2 ^ LENGTH(32)" by (rule unsigned_less)+
  have h: "unat (push_bit 32 (ucast hi) :: u64) = unat hi * 2 ^ 32"
    using b by (simp add: unat_shift unat_up)
  show ?thesis
    using disj unat_add_small [of "ucast lo :: u64" "push_bit 32 (ucast hi)"] b
    by (simp add: h unat_up flip: disjunctive_add_eq_or)
qed

lemma io_start_eq: "io_start cmd = io_slba cmd mod 2 ^ 52 * 4096"
proof -
  have "io_start cmd = io_slba cmd * 4096 mod (2 ^ 52 * 4096)"
    unfolding io_start_def nvme_offset_def unat_shift slba_word io_slba_def by simp
  then show ?thesis by (simp only: mult_mod_left)
qed

text \<open>The three outcomes of a transfer command.\<close>

lemma offset_test: "nvme_offset cmd \<ge> NVME_DISK_SIZE \<longleftrightarrow> 2 ^ 30 \<le> io_start cmd"
  by (simp add: word_le_nat_alt disk_size io_start_def)

lemma io_write_cases:
  "2 ^ 30 \<le> io_start cmd \<Longrightarrow> nvme_io_write H dev cmd w = Some (NVME_INVALID_FIELD, dev, w)"
  "io_start cmd < 2 ^ 30 \<Longrightarrow> \<not> io_in_disk cmd \<Longrightarrow> nvme_io_write H dev cmd w = None"
  "io_in_disk cmd \<Longrightarrow> nvme_io_write H dev cmd w = do {
     (ok, data, w) \<leftarrow> host_in H (c_prp1 cmd) (c_prp2 cmd) (bytes_of (disk dev) (io_start cmd) (io_bytes cmd)) w;
     Some (if ok then NVME_SUCCESS else NVME_INTERNAL, dev\<lparr>disk := poke (disk dev) (io_start cmd) data\<rparr>, w) }"
proof -
  show "2 ^ 30 \<le> io_start cmd \<Longrightarrow> nvme_io_write H dev cmd w = Some (NVME_INVALID_FIELD, dev, w)"
    by (simp add: nvme_io_write_def Let_def offset_test)
  show "io_start cmd < 2 ^ 30 \<Longrightarrow> \<not> io_in_disk cmd \<Longrightarrow> nvme_io_write H dev cmd w = None"
    by (simp add: nvme_io_write_def Let_def offset_test io_in_disk_def disk_size flip: io_start_def io_bytes_def)
  assume d: "io_in_disk cmd"
  have "0 < io_bytes cmd" by (simp add: io_bytes_eq)
  with d have "io_start cmd < 2 ^ 30" by (simp add: io_in_disk_def)
  with d show "nvme_io_write H dev cmd w = do {
     (ok, data, w) \<leftarrow> host_in H (c_prp1 cmd) (c_prp2 cmd) (bytes_of (disk dev) (io_start cmd) (io_bytes cmd)) w;
     Some (if ok then NVME_SUCCESS else NVME_INTERNAL, dev\<lparr>disk := poke (disk dev) (io_start cmd) data\<rparr>, w) }"
    by (simp add: nvme_io_write_def nvme_dma_rw_def Let_def offset_test io_in_disk_def disk_size flip: io_start_def io_bytes_def)
qed

lemma io_read_cases:
  "2 ^ 30 \<le> io_start cmd \<Longrightarrow> nvme_io_read H dev cmd w = Some (NVME_INVALID_FIELD, dev, w)"
  "io_start cmd < 2 ^ 30 \<Longrightarrow> \<not> io_in_disk cmd \<Longrightarrow> nvme_io_read H dev cmd w = None"
  "io_in_disk cmd \<Longrightarrow> nvme_io_read H dev cmd w = do {
     (ok, w) \<leftarrow> host_out H (c_prp1 cmd) (c_prp2 cmd) (bytes_of (disk dev) (io_start cmd) (io_bytes cmd)) w;
     Some (if ok then NVME_SUCCESS else NVME_INTERNAL, dev, w) }"
proof -
  show "2 ^ 30 \<le> io_start cmd \<Longrightarrow> nvme_io_read H dev cmd w = Some (NVME_INVALID_FIELD, dev, w)"
    by (simp add: nvme_io_read_def Let_def offset_test)
  show "io_start cmd < 2 ^ 30 \<Longrightarrow> \<not> io_in_disk cmd \<Longrightarrow> nvme_io_read H dev cmd w = None"
    by (simp add: nvme_io_read_def Let_def offset_test io_in_disk_def disk_size flip: io_start_def io_bytes_def)
  assume d: "io_in_disk cmd"
  have "0 < io_bytes cmd" by (simp add: io_bytes_eq)
  with d have "io_start cmd < 2 ^ 30" by (simp add: io_in_disk_def)
  with d show "nvme_io_read H dev cmd w = do {
     (ok, w) \<leftarrow> host_out H (c_prp1 cmd) (c_prp2 cmd) (bytes_of (disk dev) (io_start cmd) (io_bytes cmd)) w;
     Some (if ok then NVME_SUCCESS else NVME_INTERNAL, dev, w) }"
    by (simp add: nvme_io_read_def nvme_dma_rw_def Let_def offset_test io_in_disk_def disk_size case_prod_unfold
        flip: io_start_def io_bytes_def)
qed

subsection \<open>Runs of commands\<close>

fun run_io :: "'w nvme_host \<Rightarrow> nvme_command list \<Rightarrow> nvme_device \<Rightarrow> 'w \<Rightarrow> (nvme_device \<times> 'w) option" where
  "run_io H [] dev w = Some (dev, w)"
| "run_io H (c # cs) dev w = do { (_, dev, w) \<leftarrow> nvme_execute_io_command H dev c w; run_io H cs dev w }"

text \<open>A command that does not write the bytes another one covers.\<close>

definition apart :: "nvme_command \<Rightarrow> nvme_command \<Rightarrow> bool" where
  "apart c1 c \<longleftrightarrow> c_opcode c \<noteq> 1 \<or> io_start c1 + io_bytes c1 \<le> io_start c \<or> io_start c + io_bytes c \<le> io_start c1"

lemma io_command_read: "c_opcode c = 2 \<Longrightarrow> nvme_execute_io_command H dev c w = nvme_io_read H dev c w"
  by (simp add: nvme_execute_io_command_def)

lemma io_command_write: "c_opcode c = 1 \<Longrightarrow> nvme_execute_io_command H dev c w = nvme_io_write H dev c w"
  by (simp add: nvme_execute_io_command_def)

text \<open>Only a write within the disk changes it.\<close>

lemma io_command_disk:
  assumes "nvme_execute_io_command H dev c w = Some (st, dev', w')"
  shows "disk dev' = disk dev \<or> c_opcode c = 1 \<and> io_in_disk c \<and>
    (\<exists>ok data. host_in H (c_prp1 c) (c_prp2 c) (bytes_of (disk dev) (io_start c) (io_bytes c)) w = Some (ok, data, w') \<and>
      st = (if ok then NVME_SUCCESS else NVME_INTERNAL) \<and> dev' = dev\<lparr>disk := poke (disk dev) (io_start c) data\<rparr>)"
proof -
  consider "c_opcode c = 1" | "c_opcode c = 2" | "c_opcode c \<noteq> 1" "c_opcode c \<noteq> 2" by blast
  then show ?thesis
  proof cases
    case 1
    consider "2 ^ 30 \<le> io_start c" | "io_start c < 2 ^ 30" "\<not> io_in_disk c" | "io_in_disk c" by linarith
    then show ?thesis
      using assms 1 by cases (auto simp: io_command_write io_write_cases split: bind_splits)
  next
    case 2
    consider "2 ^ 30 \<le> io_start c" | "io_start c < 2 ^ 30" "\<not> io_in_disk c" | "io_in_disk c" by linarith
    then show ?thesis
      using assms 2 by cases (auto simp: io_command_read io_read_cases split: bind_splits)
  next
    case 3
    with assms show ?thesis by (auto simp: nvme_execute_io_command_def split: if_splits)
  qed
qed

lemma bytes_of_within:
  assumes "off \<le> off'" "off' + n \<le> off + length data" "\<And>i. off \<le> i \<Longrightarrow> i < off + length data \<Longrightarrow> g i = data ! (i - off)"
  shows "bytes_of g off' n = take n (drop (off' - off) data)"
  using assms by (intro nth_equalityI) (auto simp: bytes_of_def)

subsection \<open>The contract of the transfers\<close>

text \<open>An indirect transfer fills the card's buffer and nothing more.\<close>

locale nvme_transfers =
  fixes H :: "'w nvme_host"
  assumes in_length: "host_in H p1 p2 buf w = Some (ok, data, w') \<Longrightarrow> length data = length buf"
begin

lemma command_confined:
  assumes "nvme_execute_io_command H dev c w = Some (st, dev', w')"
    and "c_opcode c \<noteq> 1 \<or> i < io_start c \<or> io_start c + io_bytes c \<le> i"
  shows "disk dev' i = disk dev i"
  using io_command_disk [OF assms(1)] assms(2) in_length
  by (auto simp: bytes_of_def poke_outside)

lemma run_confined:
  assumes "run_io H cs dev w = Some (dev', w')"
    and "\<forall>c\<in>set cs. c_opcode c \<noteq> 1 \<or> i < io_start c \<or> io_start c + io_bytes c \<le> i"
  shows "disk dev' i = disk dev i"
  using assms
proof (induction cs arbitrary: dev w)
  case (Cons c cs)
  from Cons.prems(1) obtain st dev1 w1 where c: "nvme_execute_io_command H dev c w = Some (st, dev1, w1)"
    "run_io H cs dev1 w1 = Some (dev', w')" by (auto split: bind_splits)
  have "disk dev' i = disk dev1 i" using Cons.IH [OF c(2)] Cons.prems(2) by simp
  also have "\<dots> = disk dev i" using command_confined [OF c(1)] Cons.prems(2) by simp
  finally show ?case .
qed simp

lemma write_then_read:
  assumes "c_opcode c1 = 1" "nvme_execute_io_command H dev c1 w = Some (NVME_SUCCESS, dev1, w1)"
    and "run_io H cs dev1 w1 = Some (dev2, w2)" "\<forall>c\<in>set cs. apart c1 c"
    and "c_opcode c2 = 2" "io_start c1 \<le> io_start c2" "io_start c2 + io_bytes c2 \<le> io_start c1 + io_bytes c1"
  shows "\<exists>data. host_in H (c_prp1 c1) (c_prp2 c1) (bytes_of (disk dev) (io_start c1) (io_bytes c1)) w = Some (True, data, w1) \<and>
    length data = io_bytes c1 \<and>
    nvme_execute_io_command H dev2 c2 w2 = do {
      (ok, w) \<leftarrow> host_out H (c_prp1 c2) (c_prp2 c2) (take (io_bytes c2) (drop (io_start c2 - io_start c1) data)) w2;
      Some (if ok then NVME_SUCCESS else NVME_INTERNAL, dev2, w) }"
proof -
  have d1: "io_in_disk c1"
  proof (rule ccontr)
    assume "\<not> io_in_disk c1"
    with assms(1,2) io_write_cases(1,2) [of c1 H dev w] show False
      by (cases "2 ^ 30 \<le> io_start c1") (auto simp: io_command_write nvme_status_defs NVME_STATUS_def)
  qed
  from assms(1,2) d1 obtain data where data:
    "host_in H (c_prp1 c1) (c_prp2 c1) (bytes_of (disk dev) (io_start c1) (io_bytes c1)) w = Some (True, data, w1)"
    "dev1 = dev\<lparr>disk := poke (disk dev) (io_start c1) data\<rparr>"
    by (auto simp: io_command_write io_write_cases(3) nvme_status_defs NVME_STATUS_def split: bind_splits if_splits)
  have len: "length data = io_bytes c1" using in_length [OF data(1)] by (simp add: bytes_of_def)
  have keep: "disk dev2 i = data ! (i - io_start c1)"
    if "io_start c1 \<le> i" "i < io_start c1 + length data" for i
  proof -
    have "disk dev2 i = disk dev1 i"
      using assms(4) that len by (intro run_confined [OF assms(3)]) (auto simp: apart_def)
    with that show ?thesis by (simp add: data(2) poke_def)
  qed
  have "bytes_of (disk dev2) (io_start c2) (io_bytes c2) = take (io_bytes c2) (drop (io_start c2 - io_start c1) data)"
    using assms(6,7) len by (intro bytes_of_within) (simp_all add: keep)
  moreover have "io_in_disk c2" using d1 assms(7) by (simp add: io_in_disk_def)
  ultimately show ?thesis using data(1) len by (auto simp: io_command_read assms(5) io_read_cases(3))
qed

end

end
