(* ===== verification/NvmeCtrl.thy ===== *)
theory NvmeCtrl
  imports NvmeDisk
begin

text \<open>
  The NVMe controller as a state machine of register writes: the invariant of CSTS, what a controller
  that is off does, how the host sets it up, and the event loop that feeds it.
\<close>

subsection \<open>What serving a queue leaves alone\<close>

definition same_controller :: "nvme_device \<Rightarrow> nvme_device \<Rightarrow> bool" where
  "same_controller dev dev' \<longleftrightarrow> nvme_enabled dev' = nvme_enabled dev \<and> nvme_csts dev' = nvme_csts dev \<and>
     nvme_running dev' = nvme_running dev \<and> bar0 dev' = bar0 dev \<and> length (queues dev') = length (queues dev)"

lemma same_controller_refl [simp]: "same_controller dev dev"
  by (simp add: same_controller_def)

lemma same_controller_trans: "same_controller a b \<Longrightarrow> same_controller b c \<Longrightarrow> same_controller a c"
  by (simp add: same_controller_def)

lemma same_controller_upd [simp]:
  "same_controller dev (upd_queue i f dev)" "same_controller dev (dev\<lparr>disk := d\<rparr>)"
  by (simp_all add: same_controller_def)

lemma execute_same:
  assumes "nvme_execute_command H dev cmd i w = Some (dev', w')"
  shows "same_controller dev dev'"
proof -
  from assms obtain st res dev1 w1 where run: "nvme_run H dev cmd i w = Some (st, res, dev1, w1)"
    and dev': "dev' = upd_queue i nvme_advance_cq dev1"
    by (auto simp: nvme_execute_command_def Let_def split: bind_splits)
  have "same_controller dev dev1"
  proof (cases "q_id (queues dev ! i) = 0")
    case True
    with run show ?thesis
      by (auto simp: nvme_run_def nvme_execute_admin_command_def nvme_create_cq_def nvme_create_sq_def
          nvme_delete_queue_def Let_def split: if_splits bind_splits option.splits prod.splits)
  next
    case False
    with run obtain w2 where "nvme_execute_io_command H dev cmd w = Some (st, dev1, w2)"
      by (auto simp: nvme_run_def split: bind_splits)
    with io_command_keeps show ?thesis by (force simp: same_controller_def)
  qed
  then show ?thesis unfolding dev' by (rule same_controller_trans) simp
qed

lemma serve_same: "nvme_serve H i dev w = Some r \<Longrightarrow> same_controller dev (fst r)"
proof (induction rule: serve_induct)
  case (round dev w w1 cmd dev' w2 r)
  have "same_controller dev (upd_queue i (\<lambda>q. q\<lparr>sq_head := nvme_next_head q\<rparr>) dev)" by simp
  from this execute_same [OF round.hyps(4)] have "same_controller dev dev'" by (rule same_controller_trans)
  then show ?case using round.IH by (rule same_controller_trans)
qed simp_all

subsection \<open>Registers\<close>

lemma get32_poke_le32_other [access_simps]:
  "off' + 4 \<le> off \<or> off + 4 \<le> off' \<Longrightarrow> get32 (poke f off (le32 x)) off' = get32 f off'"
  by (intro get32_cong) (auto simp: poke_def)

lemma le32_ne [simp]: "le32 x \<noteq> []"
  by (simp add: le32_def)

lemma write_reg4:
  "unat off + 4 \<le> NVME_BAR0_SIZE \<Longrightarrow>
     nvme_write_reg dev off v 4 = Some (dev\<lparr>bar0 := poke (bar0 dev) (unat off) (le32 (ucast v))\<rparr>)"
  by (simp add: nvme_write_reg_def store_bytes_def)

lemma read_reg4:
  "unat off + 4 \<le> NVME_BAR0_SIZE \<Longrightarrow> nvme_read_reg dev off 4 = Some (ucast (get32 (bar0 dev) (unat off)))"
  by (simp add: nvme_read_reg_def)

lemma low32_of_wide [simp]: "(ucast (ucast x :: u64) :: u32) = x" for x :: u32
  by (rule bit_word_eqI) (simp add: bit_simps)

lemma put_csts: "nvme_put_csts raw dev = Some (dev\<lparr>nvme_csts := raw, bar0 := poke (bar0 dev) 0x1c (le32 raw)\<rparr>)"
  using write_reg4 [of "0x1c" "dev\<lparr>nvme_csts := raw\<rparr>" "ucast raw"] by (simp add: nvme_put_csts_def NVME_BAR0_SIZE_def)

definition reset_queue :: "nat \<Rightarrow> nvme_queue" where
  "reset_queue i = \<lparr>q_created = False, sq_size = 0, cq_size = 0, sq_addr = 0, cq_addr = 0, sq_tail = 0,
     sq_head = 0, cq_tail = 0, cq_head = 0, cq_phase = 1, q_vector = 0, q_id = of_nat i\<rparr>"

lemma reset_queues_upto:
  "n \<le> length (queues dev) \<Longrightarrow>
     fold (\<lambda>i. upd_queue i (\<lambda>q. nvme_reset_queue (q\<lparr>q_id := of_nat i\<rparr>))) [0..<n] dev =
       dev\<lparr>queues := map reset_queue [0..<n] @ drop n (queues dev)\<rparr>"
proof (induction n)
  case (Suc n)
  have "drop n (queues dev) = queues dev ! n # drop (Suc n) (queues dev)"
    using Suc.prems by (simp add: Cons_nth_drop_Suc)
  with Suc show ?case
    by (simp add: upd_queue_def nvme_reset_queue_def reset_queue_def list_update_append nth_append)
qed simp

lemma reset_queues_eq:
  "length (queues dev) = 16 \<Longrightarrow> nvme_reset_queues dev = dev\<lparr>queues := map reset_queue [0..<16]\<rparr>"
  using reset_queues_upto [of 16 dev] by (simp add: nvme_reset_queues_def MAX_QUEUES_def)

text \<open>What enabling loads into the admin queue from the register page.\<close>

definition load_regs :: "bytes \<Rightarrow> nvme_queue \<Rightarrow> nvme_queue" where
  "load_regs b q = q\<lparr>
      sq_size := ucast ((get32 b 0x24 AND 0xffff) + 1),
      cq_size := ucast ((drop_bit 16 (get32 b 0x24) AND 0xffff) + 1),
      sq_addr := set_hi32 (set_lo32 (sq_addr q) (get32 b 0x28)) (get32 b 0x2c),
      cq_addr := set_hi32 (set_lo32 (cq_addr q) (get32 b 0x30)) (get32 b 0x34)\<rparr>"

lemma enable_eq: "nvme_enable dev = Some ((upd_queue 0 (load_regs (bar0 dev)) dev)\<lparr>nvme_enabled := True\<rparr>)"
  by (simp add: nvme_enable_def read_reg4 NVME_BAR0_SIZE_def Let_def load_regs_def [abs_def])

subsection \<open>The controller's status\<close>

text \<open>
  CSTS has three values: not ready, ready, shut down. It is ready exactly while the controller is
  enabled, and the register page shows it.
\<close>

definition ctrl_ok :: "nvme_device \<Rightarrow> bool" where
  "ctrl_ok dev \<longleftrightarrow> length (queues dev) = 16 \<and> nvme_csts dev \<in> {0, 1, 8} \<and>
     (nvme_csts dev = 1 \<longleftrightarrow> nvme_enabled dev) \<and> get32 (bar0 dev) 0x1c = nvme_csts dev"

lemma csts_values:
  assumes "raw \<in> {0, 1, 8}"
  shows "csts_set_rdy False (csts_set_shst 2 (csts_set_rdy False (csts_set_shst 1 raw))) = 8"
    "csts_set_shst 0 (csts_set_rdy True raw) = 1"
  using assms by (auto simp: csts_set_rdy_def csts_set_shst_def)

text \<open>The three things a write to CC does.\<close>

lemma cc_write_cases:
  fixes ev :: event
  assumes "ctrl_ok dev"
  defines "cc \<equiv> (ucast (ev_data ev) :: u32)"
  shows "cc_shn cc \<noteq> 0 \<Longrightarrow> \<exists>b. nvme_handle_cc_write ev dev = Some (dev\<lparr>nvme_enabled := False,
      queues := map reset_queue [0..<16], nvme_csts := 8, bar0 := b, nvme_running := False\<rparr>) \<and> get32 b 0x1c = 8"
    and "cc_shn cc = 0 \<Longrightarrow> cc_en cc \<Longrightarrow> nvme_handle_cc_write ev dev =
      Some ((upd_queue 0 (load_regs (bar0 dev)) dev)\<lparr>nvme_enabled := True, nvme_csts := 1,
        bar0 := poke (bar0 dev) 0x1c (le32 1)\<rparr>)"
    and "cc_shn cc = 0 \<Longrightarrow> \<not> cc_en cc \<Longrightarrow> nvme_handle_cc_write ev dev =
      Some (dev\<lparr>nvme_enabled := False, nvme_csts := 0, queues := map reset_queue [0..<16],
        bar0 := poke (bar0 dev) 0x1c (le32 0)\<rparr>)"
proof -
  have len: "length (queues dev) = 16" and raw: "nvme_csts dev \<in> {0, 1, 8}"
    using assms(1) unfolding ctrl_ok_def by blast+
  note v = csts_values [OF raw]
  show "cc_shn cc \<noteq> 0 \<Longrightarrow> \<exists>b. nvme_handle_cc_write ev dev = Some (dev\<lparr>nvme_enabled := False,
      queues := map reset_queue [0..<16], nvme_csts := 8, bar0 := b, nvme_running := False\<rparr>) \<and> get32 b 0x1c = 8"
    by (rule exI [of _ "poke (poke (bar0 dev) 0x1c (le32 (csts_set_rdy False (csts_set_shst 1 (nvme_csts dev))))) 0x1c (le32 8)"])
      (simp add: nvme_handle_cc_write_def Let_def put_csts reset_queues_eq len v cc_def access_simps)
  show "cc_shn cc = 0 \<Longrightarrow> cc_en cc \<Longrightarrow> nvme_handle_cc_write ev dev =
      Some ((upd_queue 0 (load_regs (bar0 dev)) dev)\<lparr>nvme_enabled := True, nvme_csts := 1,
        bar0 := poke (bar0 dev) 0x1c (le32 1)\<rparr>)"
    by (simp add: nvme_handle_cc_write_def Let_def put_csts enable_eq v cc_def)
  show "cc_shn cc = 0 \<Longrightarrow> \<not> cc_en cc \<Longrightarrow> nvme_handle_cc_write ev dev =
      Some (dev\<lparr>nvme_enabled := False, nvme_csts := 0, queues := map reset_queue [0..<16],
        bar0 := poke (bar0 dev) 0x1c (le32 0)\<rparr>)"
    by (simp add: nvme_handle_cc_write_def Let_def put_csts reset_queues_eq len cc_def)
qed

text \<open>Each kind of event.\<close>

definition admin_regs :: "u64 set" where
  "admin_regs = {0x24, 0x28, 0x2c, 0x30, 0x34}"

definition admin_set :: "u64 \<Rightarrow> u64 \<Rightarrow> nvme_queue \<Rightarrow> nvme_queue" where
  "admin_set off d q =
     (if off = 0x24 then q\<lparr>sq_size := ucast ((d AND 0xffff) + 1), cq_size := ucast ((drop_bit 16 d AND 0xffff) + 1)\<rparr>
      else if off = 0x28 then q\<lparr>sq_addr := set_lo32 (sq_addr q) (ucast d)\<rparr>
      else if off = 0x2c then q\<lparr>sq_addr := set_hi32 (sq_addr q) (ucast d)\<rparr>
      else if off = 0x30 then q\<lparr>cq_addr := set_lo32 (cq_addr q) (ucast d)\<rparr>
      else q\<lparr>cq_addr := set_hi32 (cq_addr q) (ucast d)\<rparr>)"

lemma admin_regs_cases:
  "off \<in> admin_regs \<longleftrightarrow> off = 0x24 \<or> off = 0x28 \<or> off = 0x2c \<or> off = 0x30 \<or> off = 0x34"
  by (simp add: admin_regs_def)

lemma admin_write:
  assumes "ev_bar ev = 0" "ev_offset ev \<in> admin_regs"
  shows "nvme_handle_write H ev dev w = Some (if nvme_enabled dev then dev
      else (upd_queue 0 (admin_set (ev_offset ev) (ev_data ev)) dev)
             \<lparr>bar0 := poke (bar0 dev) (unat (ev_offset ev)) (le32 (ucast (ev_data ev)))\<rparr>, w)"
proof -
  have reg: "nvme_admin_reg f off ev dev = Some (if nvme_enabled dev then dev
      else (upd_queue 0 f dev)\<lparr>bar0 := poke (bar0 dev) (unat off) (le32 (ucast (ev_data ev)))\<rparr>)"
    if "unat off + 4 \<le> NVME_BAR0_SIZE" for f off
    using that by (simp add: nvme_admin_reg_def write_reg4)
  show ?thesis
    using assms unfolding admin_regs_cases
    by (elim disjE) (simp_all add: nvme_handle_write_def Let_def reg NVME_BAR0_SIZE_def admin_set_def [abs_def])
qed

text \<open>Every other write below the doorbells, and every write to a doorbell of a disabled controller, is ignored.\<close>

lemma ignored_write:
  assumes "ev_bar ev \<noteq> 0 \<or> (ev_offset ev \<noteq> 0x14 \<and> ev_offset ev \<notin> admin_regs \<and>
     (ev_offset ev < 0x1000 \<or> \<not> nvme_enabled dev))"
  shows "nvme_handle_write H ev dev w = Some (dev, w)"
  using assms by (auto simp: nvme_handle_write_def Let_def admin_regs_def)

lemma cc_write: "ev_bar ev = 0 \<Longrightarrow> ev_offset ev = 0x14 \<Longrightarrow>
    nvme_handle_write H ev dev w = map_option (\<lambda>dev. (dev, w)) (nvme_handle_cc_write ev dev)"
  by (simp add: nvme_handle_write_def Let_def)

lemma doorbell_write:
  assumes "ev_bar ev = 0" "\<not> ev_offset ev < 0x1000" "nvme_enabled dev" "ev_offset ev \<notin> admin_regs" "ev_offset ev \<noteq> 0x14"
  shows "nvme_handle_write H ev dev w = nvme_handle_doorbell_write H ev dev w"
  using assms by (simp add: nvme_handle_write_def Let_def admin_regs_def)

text \<open>A doorbell changes no register but its own, which lies above the others.\<close>

lemma doorbell_same:
  assumes "nvme_handle_doorbell_write H ev dev w = Some (dev', w')"
  shows "nvme_enabled dev' = nvme_enabled dev \<and> nvme_csts dev' = nvme_csts dev \<and>
    nvme_running dev' = nvme_running dev \<and> length (queues dev') = length (queues dev) \<and>
    (\<forall>i<0x1000. bar0 dev' i = bar0 dev i)"
proof -
  define qidx where "qidx = (ucast ((ev_offset ev - 0x1000) div 8) :: u16)"
  show ?thesis
  proof (cases "nvme_get_queue dev qidx")
    case None
    with assms show ?thesis by (simp add: nvme_handle_doorbell_write_def qidx_def)
  next
    case (Some i)
    then have "unat qidx < 16" by (auto simp: nvme_get_queue_def MAX_QUEUES_def word_le_nat_alt not_le split: if_splits)
    then have off: "unat (0x1000 + ucast qidx * 8 :: u32) = 0x1000 + unat qidx * 8"
      "unat (0x1004 + ucast qidx * 8 :: u32) = 0x1004 + unat qidx * 8"
      by (simp_all add: unat_word_ariths unat_up)
    have reg: "nvme_write_reg d (0x1000 + ucast qidx * 8) v 4 = Some (d\<lparr>bar0 := poke (bar0 d) (0x1000 + unat qidx * 8) (le32 (ucast v))\<rparr>)"
      "nvme_write_reg d (0x1004 + ucast qidx * 8) v 4 = Some (d\<lparr>bar0 := poke (bar0 d) (0x1004 + unat qidx * 8) (le32 (ucast v))\<rparr>)"
      for d v
      using \<open>unat qidx < 16\<close> by (simp_all add: write_reg4 off NVME_BAR0_SIZE_def)
    have sv: "same_controller dev dev1" if "nvme_serve H i (upd_queue i f dev) w = Some (dev1, w1)" for f dev1 w1
      using serve_same [OF that] same_controller_trans [OF same_controller_upd(1)] by simp
    show ?thesis
      using assms Some
      by (auto simp: nvme_handle_doorbell_write_def qidx_def [symmetric] reg poke_def same_controller_def
          split: bind_splits if_splits dest!: sv)
  qed
qed

subsection \<open>The invariant of the status\<close>

lemma ctrl_ok_write [inv_intros]:
  assumes "ctrl_ok dev" "nvme_handle_write H ev dev w = Some (dev', w')"
  shows "ctrl_ok dev'"
proof -
  have len: "length (queues dev) = 16" using assms(1) by (simp add: ctrl_ok_def)
  consider "ev_bar ev \<noteq> 0 \<or> (ev_offset ev \<noteq> 0x14 \<and> ev_offset ev \<notin> admin_regs \<and> (ev_offset ev < 0x1000 \<or> \<not> nvme_enabled dev))"
    | "ev_bar ev = 0" "ev_offset ev = 0x14"
    | "ev_bar ev = 0" "ev_offset ev \<in> admin_regs"
    | "ev_bar ev = 0" "\<not> ev_offset ev < 0x1000" "nvme_enabled dev" "ev_offset ev \<notin> admin_regs" "ev_offset ev \<noteq> 0x14"
    by blast
  then show ?thesis
  proof cases
    case 1
    with assms show ?thesis by (simp add: ignored_write)
  next
    case 2
    with assms(2) have "nvme_handle_cc_write ev dev = Some dev'" by (auto simp: cc_write)
    then show ?thesis
      using cc_write_cases [OF assms(1), of ev] len
      by (cases "cc_shn (ucast (ev_data ev)) = 0"; cases "cc_en (ucast (ev_data ev))")
        (auto simp: ctrl_ok_def access_simps)
  next
    case 3
    then have "unat (ev_offset ev) \<ge> 0x20" by (auto simp: admin_regs_def)
    with assms 3 show ?thesis by (auto simp: admin_write ctrl_ok_def access_simps split: if_splits)
  next
    case 4
    with assms(2) have "nvme_handle_doorbell_write H ev dev w = Some (dev', w')" by (simp add: doorbell_write)
    from doorbell_same [OF this] have s: "nvme_enabled dev' = nvme_enabled dev" "nvme_csts dev' = nvme_csts dev"
      "length (queues dev') = length (queues dev)" "\<forall>i<0x1000. bar0 dev' i = bar0 dev i" by blast+
    from s(4) have "get32 (bar0 dev') 0x1c = get32 (bar0 dev) 0x1c" by (intro get32_cong) simp_all
    with s(1-3) assms(1) show ?thesis by (auto simp: ctrl_ok_def)
  qed
qed

subsection \<open>The event loop\<close>

definition nvme_event :: "'w nvme_host \<Rightarrow> event \<Rightarrow> nvme_device \<Rightarrow> 'w \<Rightarrow> (nvme_device \<times> 'w) option" where
  "nvme_event H ev dev w =
     (let ev = ev\<lparr>ev_data := ev_data ev AND size2mask (ucast (ev_size ev))\<rparr> in
      if ev_type ev AND 2 \<noteq> 0 then nvme_handle_write H ev dev w else Some (dev, w))"

fun nvme_events :: "'w nvme_host \<Rightarrow> event list \<Rightarrow> nvme_device \<Rightarrow> 'w \<Rightarrow> (nvme_device \<times> 'w) option" where
  "nvme_events H [] dev w = Some (dev, w)"
| "nvme_events H (ev # evs) dev w = do { (dev, w) \<leftarrow> nvme_event H ev dev w; nvme_events H evs dev w }"

lemma ctrl_ok_events [inv_intros]:
  "ctrl_ok dev \<Longrightarrow> nvme_events H evs dev w = Some (dev', w') \<Longrightarrow> ctrl_ok dev'"
proof (induction evs arbitrary: dev w)
  case (Cons ev evs)
  then show ?case
    by (auto simp: nvme_event_def Let_def split: bind_splits if_splits intro: ctrl_ok_write)
qed simp

text \<open>Taking the event at the head, with its slot rewritten, is the consumer's pop.\<close>

lemma drain_pop:
  assumes "ring_ok r" "ring_content r = e # es"
  shows "\<exists>r'. ring_ok r' \<and> ring_content r' = es \<and> (\<forall>dev w.
    nvme_drain H r dev w = do { (dev, w) \<leftarrow> nvme_event H e dev w; nvme_drain H r' dev w })"
proof -
  define h where "h = unat (ring_head r)"
  define t where "t = unat (ring_tail r)"
  have b: "h < 256" "t < 256" using assms(1) by (simp_all add: ring_ok_def h_def t_def)
  from ring.deq_spec [OF assms] obtain r1 where r1: "ring_pop r = Some (e, r1)" "ring_ok r1" "ring_content r1 = es"
    by blast
  then have ne: "ring_head r \<noteq> ring_tail r" and e: "e = events r h" and r1_eq: "r1 = r\<lparr>ring_head := ring_next (ring_head r)\<rparr>"
    by (auto simp: ring_pop_def Let_def h_def split: if_splits)
  have s: "sint (ring_head r) = int h" "unat (ring_next (ring_head r)) = (h + 1) mod 256"
    using ring_next_nat [of "ring_head r"] b by (simp_all add: h_def)
  define r' where "r' = r\<lparr>events := (events r)(h := e\<lparr>ev_data := ev_data e AND size2mask (ucast (ev_size e))\<rparr>),
     ring_head := ring_next (ring_head r)\<rparr>"
  have hd: "unat (ring_head r1) = (h + 1) mod 256" "unat (ring_tail r1) = t" "events r1 = events r"
    "ring_head r' = ring_head r1" "ring_tail r' = ring_tail r1"
    using s by (simp_all add: r1_eq r'_def t_def)
  have htne: "h \<noteq> t" using ne by (simp add: h_def t_def word_unat_eq_iff)
  have other: "((h + 1) mod 256 + k) mod 256 \<noteq> h" if "k < ring_len ((h + 1) mod 256) t" for k
  proof -
    have "k < 255" using that ring_len_facts(5) [OF b htne] ring_len_facts(1) [OF b] by linarith
    then show ?thesis using b(1) by (simp add: mod_simps) (auto simp: mod_if)
  qed
  have "ring_content r' = es"
    unfolding r1(3) [symmetric] ring_content_def hd using other by (simp add: r'_def)
  moreover have "ring_ok r'" using r1(2) by (simp add: ring_ok_def hd)
  moreover have "nvme_drain H r dev w = do { (dev, w) \<leftarrow> nvme_event H e dev w; nvme_drain H r' dev w }" for dev w
    using ne s b by (subst nvme_drain.simps)
      (simp add: Let_def nvme_event_def e h_def [symmetric] PCIEM_RING_SIZE_def r'_def)
  ultimately show ?thesis by blast
qed

lemma drain_all:
  assumes "ring_ok r"
  shows "\<exists>r'. ring_ok r' \<and> ring_content r' = [] \<and> (\<forall>dev w.
    nvme_drain H r dev w = map_option (\<lambda>(dev, w). (r', dev, w)) (nvme_events H (ring_content r) dev w))"
  using assms
proof (induction "ring_content r" arbitrary: r)
  case Nil
  then have "ring_head r = ring_tail r"
    using ring.deq_empty [of r] by (auto simp: ring_pop_def Let_def split: if_splits)
  then have "nvme_drain H r dev w = Some (r, dev, w)" for dev w by (subst nvme_drain.simps) simp
  with Nil show ?case by (intro exI [of _ r]) (simp flip: Nil(1))
next
  case (Cons e es)
  have c: "ring_content r = e # es" using Cons.hyps(2) by simp
  from drain_pop [OF Cons.prems c] obtain r1 where r1: "ring_ok r1" "ring_content r1 = es"
    "\<And>dev w. nvme_drain H r dev w = do { (dev, w) \<leftarrow> nvme_event H e dev w; nvme_drain H r1 dev w }"
    by blast
  from Cons.hyps(1) [of r1] r1(1,2) obtain r' where r': "ring_ok r'" "ring_content r' = []"
    "\<And>dev w. nvme_drain H r1 dev w = map_option (\<lambda>(dev, w). (r', dev, w)) (nvme_events H es dev w)"
    by blast
  have "nvme_drain H r dev w = map_option (\<lambda>(dev, w). (r', dev, w)) (nvme_events H (e # es) dev w)" for dev w
    unfolding r1(3) r'(3) by (auto split: bind_splits)
  with r' show ?case unfolding c by blast
qed

subsection \<open>Setting the controller up\<close>

lemma low_mask: "(0x00000000FFFFFFFF :: u64) = mask 32" "(0xFFFFFFFF00000000 :: u64) = NOT (mask 32)"
  by (simp_all add: mask_eq_exp_minus_1)

lemma join_halves: "set_hi32 (set_lo32 x lo) hi = push_bit 32 (ucast hi) OR ucast lo"
  unfolding set_hi32_def set_lo32_def low_mask
  by (rule bit_word_eqI) (auto simp: bit_simps dest: bit_imp_le_length)

lemma mask4: "(ucast (d AND size2mask 4) :: u32) = ucast d" for d :: u64
proof -
  have "size2mask 4 = mask 32" by (simp add: size2mask_def mask_eq_exp_minus_1)
  then show ?thesis by (simp only:) (rule bit_word_eqI, auto simp: bit_simps)
qed

text \<open>
  A traced four-byte write to the register page, and those of them a host makes while it sets the
  admin queue up: the five registers, and CC with neither a shutdown nor the enable bit.
\<close>

definition reg_write :: "event \<Rightarrow> bool" where
  "reg_write ev \<longleftrightarrow> ev_type ev AND 2 \<noteq> 0 \<and> ev_bar ev = 0 \<and> ev_size ev = 4"

definition cc_off :: "event \<Rightarrow> bool" where
  "cc_off ev \<longleftrightarrow> reg_write ev \<and> ev_offset ev = 0x14 \<and> cc_shn (ucast (ev_data ev)) = 0 \<and> \<not> cc_en (ucast (ev_data ev))"

definition cc_on :: "event \<Rightarrow> bool" where
  "cc_on ev \<longleftrightarrow> reg_write ev \<and> ev_offset ev = 0x14 \<and> cc_shn (ucast (ev_data ev)) = 0 \<and> cc_en (ucast (ev_data ev))"

definition setup_write :: "event \<Rightarrow> bool" where
  "setup_write ev \<longleftrightarrow> cc_off ev \<or> reg_write ev \<and> ev_offset ev \<in> admin_regs"

text \<open>The register file the writes amount to: the last value written wins.\<close>

fun reg_file :: "event list \<Rightarrow> (u64 \<Rightarrow> u32) \<Rightarrow> u64 \<Rightarrow> u32" where
  "reg_file [] m = m"
| "reg_file (ev # evs) m = reg_file evs (if ev_offset ev \<in> admin_regs then m(ev_offset ev := ucast (ev_data ev)) else m)"

definition admin_queue :: "(u64 \<Rightarrow> u32) \<Rightarrow> nvme_queue" where
  "admin_queue m = (reset_queue 0)\<lparr>
     sq_size := ucast ((m 0x24 AND 0xffff) + 1), cq_size := ucast ((drop_bit 16 (m 0x24) AND 0xffff) + 1),
     sq_addr := push_bit 32 (ucast (m 0x2c)) OR ucast (m 0x28),
     cq_addr := push_bit 32 (ucast (m 0x34)) OR ucast (m 0x30)\<rparr>"

definition setting_up :: "(u64 \<Rightarrow> u32) \<Rightarrow> nvme_device \<Rightarrow> bool" where
  "setting_up m dev \<longleftrightarrow> ctrl_ok dev \<and> \<not> nvme_enabled dev \<and> (\<forall>off\<in>admin_regs. get32 (bar0 dev) (unat off) = m off) \<and>
     (\<exists>ss cs sa ca. queues dev = (map reset_queue [0..<16])
        [0 := (reset_queue 0)\<lparr>sq_size := ss, cq_size := cs, sq_addr := sa, cq_addr := ca\<rparr>])"

lemma event_is_write:
  "reg_write ev \<Longrightarrow> nvme_event H ev dev w =
     nvme_handle_write H (ev\<lparr>ev_data := ev_data ev AND size2mask 4\<rparr>) dev w"
  by (simp add: nvme_event_def reg_write_def Let_def)

lemma reset_queues_list: "map reset_queue [0..<16] = (map reset_queue [0..<16])[0 := (reset_queue 0)
    \<lparr>sq_size := 0, cq_size := 0, sq_addr := 0, cq_addr := 0\<rparr>]"
proof -
  have "(reset_queue 0)\<lparr>sq_size := 0, cq_size := 0, sq_addr := 0, cq_addr := 0\<rparr> = reset_queue 0"
    by (simp add: reset_queue_def)
  moreover have "(map reset_queue [0..<16])[0 := reset_queue 0] = map reset_queue [0..<16]"
    by (metis list_update_id nth_map_upt add_0 diff_zero zero_less_numeral)
  ultimately show ?thesis by simp
qed

lemma disable_write:
  assumes "ctrl_ok dev" "cc_off ev" "\<forall>off\<in>admin_regs. get32 (bar0 dev) (unat off) = m off"
  shows "\<exists>dev'. nvme_event H ev dev w = Some (dev', w) \<and> setting_up m dev'"
proof -
  let ?ev = "ev\<lparr>ev_data := ev_data ev AND size2mask 4\<rparr>"
  let ?dev = "dev\<lparr>nvme_enabled := False, nvme_csts := 0, queues := map reset_queue [0..<16],
      bar0 := poke (bar0 dev) 0x1c (le32 0)\<rparr>"
  have rw: "reg_write ev" and off: "ev_bar ?ev = 0" "ev_offset ?ev = 0x14"
    using assms(2) by (simp_all add: cc_off_def reg_write_def)
  have "nvme_handle_cc_write ?ev dev = Some ?dev"
    using assms(2) by (intro cc_write_cases(3) [OF assms(1)]) (simp_all add: cc_off_def mask4)
  then have ev: "nvme_event H ev dev w = Some (?dev, w)"
    unfolding event_is_write [OF rw] cc_write [OF off] by simp
  have "ctrl_ok ?dev" by (simp add: ctrl_ok_def access_simps)
  moreover have "\<forall>off\<in>admin_regs. get32 (bar0 ?dev) (unat off) = m off"
    using assms(3) by (simp add: admin_regs_def access_simps)
  moreover have "\<exists>ss cs sa ca. queues ?dev = (map reset_queue [0..<16])
        [0 := (reset_queue 0)\<lparr>sq_size := ss, cq_size := cs, sq_addr := sa, cq_addr := ca\<rparr>]"
    using reset_queues_list by auto
  ultimately have "setting_up m ?dev" by (simp add: setting_up_def)
  with ev show ?thesis by blast
qed

lemma setup_step:
  assumes "setting_up m dev" "setup_write ev"
  shows "\<exists>dev'. nvme_event H ev dev w = Some (dev', w) \<and>
    setting_up (if ev_offset ev \<in> admin_regs then m(ev_offset ev := ucast (ev_data ev)) else m) dev'"
proof (cases "cc_off ev")
  case True
  then have "ev_offset ev \<notin> admin_regs" by (simp add: cc_off_def admin_regs_def)
  with True disable_write [OF _ True, of dev m H w] assms(1) show ?thesis by (simp add: setting_up_def)
next
  case False
  let ?ev = "ev\<lparr>ev_data := ev_data ev AND size2mask 4\<rparr>"
  have a: "reg_write ev" "ev_offset ev \<in> admin_regs" using assms(2) False by (simp_all add: setup_write_def)
  let ?f = "admin_set (ev_offset ?ev) (ev_data ?ev)"
  let ?dev = "(upd_queue 0 ?f dev)\<lparr>bar0 := poke (bar0 dev) (unat (ev_offset ev)) (le32 (ucast (ev_data ev)))\<rparr>"
  have ev: "nvme_event H ev dev w = Some (?dev, w)"
    using a assms(1) admin_write [of ?ev H dev w]
    by (simp add: event_is_write setting_up_def reg_write_def mask4)
  from assms(1) have ok: "ctrl_ok dev" "\<not> nvme_enabled dev" by (simp_all add: setting_up_def)
  have "ctrl_ok ?dev" using ctrl_ok_write [OF ok(1), of H ?ev w ?dev w] ev a(1) by (simp add: event_is_write)
  moreover have "\<forall>off\<in>admin_regs. get32 (bar0 ?dev) (unat off) = (m(ev_offset ev := ucast (ev_data ev))) off"
    using assms(1) a(2) unfolding setting_up_def admin_regs_cases Ball_def by (auto simp: access_simps)
  moreover have "\<exists>ss cs sa ca. queues ?dev = (map reset_queue [0..<16])
        [0 := (reset_queue 0)\<lparr>sq_size := ss, cq_size := cs, sq_addr := sa, cq_addr := ca\<rparr>]"
  proof -
    from assms(1) obtain ss cs sa ca where qs: "queues dev = (map reset_queue [0..<16])
        [0 := (reset_queue 0)\<lparr>sq_size := ss, cq_size := cs, sq_addr := sa, cq_addr := ca\<rparr>]"
      by (auto simp: setting_up_def)
    have "\<exists>ss' cs' sa' ca'. ?f ((reset_queue 0)\<lparr>sq_size := ss, cq_size := cs, sq_addr := sa, cq_addr := ca\<rparr>) =
        (reset_queue 0)\<lparr>sq_size := ss', cq_size := cs', sq_addr := sa', cq_addr := ca'\<rparr>"
      by (auto simp: admin_set_def reset_queue_def)
    then obtain ss' cs' sa' ca' where f: "?f ((reset_queue 0)\<lparr>sq_size := ss, cq_size := cs, sq_addr := sa, cq_addr := ca\<rparr>) =
        (reset_queue 0)\<lparr>sq_size := ss', cq_size := cs', sq_addr := sa', cq_addr := ca'\<rparr>" by blast
    have "queues ?dev = (map reset_queue [0..<16])
        [0 := ?f ((reset_queue 0)\<lparr>sq_size := ss, cq_size := cs, sq_addr := sa, cq_addr := ca\<rparr>)]"
      by (simp add: upd_queue_def qs)
    then show ?thesis unfolding f by blast
  qed
  ultimately have "setting_up (m(ev_offset ev := ucast (ev_data ev))) ?dev" using ok by (simp add: setting_up_def)
  with ev a(2) show ?thesis by auto
qed

lemma setup_steps:
  "setting_up m dev \<Longrightarrow> list_all setup_write evs \<Longrightarrow>
     \<exists>dev'. nvme_events H evs dev w = Some (dev', w) \<and> setting_up (reg_file evs m) dev'"
proof (induction evs arbitrary: m dev)
  case (Cons ev evs)
  from setup_step [OF Cons.prems(1), of ev H w] Cons.prems(2) obtain dev1 where
    "nvme_event H ev dev w = Some (dev1, w)"
    "setting_up (if ev_offset ev \<in> admin_regs then m(ev_offset ev := ucast (ev_data ev)) else m) dev1" by auto
  with Cons.IH [OF this(2)] Cons.prems(2) show ?case by auto
qed simp

text \<open>
  A host sets the controller up by disabling it, writing the admin queue's registers in any order
  and any number of times, and enabling it: whatever state the controller was in, it comes up ready
  with an admin queue of exactly the sizes and the 64-bit addresses last written (or left in the
  registers from before), empty, in phase 1 and with identifier 0, all I/O queues deleted, and no
  access to the host's memory on the way.
\<close>

theorem nvme_admin_setup:
  assumes "ctrl_ok dev" "cc_off ev0" "list_all setup_write evs" "cc_on ev1"
  shows "\<exists>dev'. nvme_events H (ev0 # evs @ [ev1]) dev w = Some (dev', w) \<and>
    queues dev' = (map reset_queue [0..<16])[0 := admin_queue (reg_file evs (\<lambda>off. get32 (bar0 dev) (unat off)))] \<and>
    nvme_enabled dev' \<and> get32 (bar0 dev') 0x1c = 1"
proof -
  let ?m = "\<lambda>off. get32 (bar0 dev) (unat off)"
  let ?ev = "ev1\<lparr>ev_data := ev_data ev1 AND size2mask 4\<rparr>"
  have "\<forall>off\<in>admin_regs. get32 (bar0 dev) (unat off) = ?m off" by simp
  from disable_write [OF assms(1,2) this, of H w] obtain dev1 where
    d1: "nvme_event H ev0 dev w = Some (dev1, w)" "setting_up ?m dev1" by (elim exE conjE)
  from setup_steps [OF d1(2) assms(3), of H w] obtain dev2 where
    d2: "nvme_events H evs dev1 w = Some (dev2, w)" "setting_up (reg_file evs ?m) dev2" by (elim exE conjE)
  have ok: "ctrl_ok dev2" using d2(2) by (simp add: setting_up_def)
  define dev3 where "dev3 = (upd_queue 0 (load_regs (bar0 dev2)) dev2)\<lparr>nvme_enabled := True, nvme_csts := 1,
        bar0 := poke (bar0 dev2) 0x1c (le32 1)\<rparr>"
  have "nvme_handle_cc_write ?ev dev2 = Some dev3"
    unfolding dev3_def using assms(4) by (intro cc_write_cases(2) [OF ok]) (simp_all add: cc_on_def mask4)
  then have d3: "nvme_event H ev1 dev2 w = Some (dev3, w)"
    using assms(4) by (simp add: cc_on_def event_is_write cc_write reg_write_def)
  have run: "nvme_events H (xs @ ys) d v = do { (d, v) \<leftarrow> nvme_events H xs d v; nvme_events H ys d v }" for xs ys d v
    by (induction xs arbitrary: d v) (auto split: bind_splits)
  have "nvme_events H (ev0 # evs @ [ev1]) dev w = Some (dev3, w)" by (simp add: run d1(1) d2(1) d3)
  moreover have "queues dev3 = (map reset_queue [0..<16])[0 := admin_queue (reg_file evs ?m)]"
  proof -
    from d2(2) obtain ss cs sa ca where qs: "queues dev2 = (map reset_queue [0..<16])
        [0 := (reset_queue 0)\<lparr>sq_size := ss, cq_size := cs, sq_addr := sa, cq_addr := ca\<rparr>]"
      and regs: "\<forall>off\<in>admin_regs. get32 (bar0 dev2) (unat off) = reg_file evs ?m off"
      by (auto simp: setting_up_def)
    have "load_regs (bar0 dev2) ((reset_queue 0)\<lparr>sq_size := ss, cq_size := cs, sq_addr := sa, cq_addr := ca\<rparr>) =
        admin_queue (reg_file evs ?m)"
      using regs by (simp add: load_regs_def admin_queue_def join_halves admin_regs_def)
    then show ?thesis by (simp add: dev3_def upd_queue_def qs)
  qed
  ultimately show ?thesis by (auto simp: dev3_def access_simps)
qed

definition card_off :: nvme_device where
  "card_off = card0\<lparr>nvme_enabled := False, nvme_csts := 0\<rparr>"

definition wr :: "u64 \<Rightarrow> u64 \<Rightarrow> event" where
  "wr off v = \<lparr>ev_seq = 0, ev_type = 2, ev_bar = 0, ev_offset = off, ev_size = 4, ev_data = v, ev_timestamp = 0\<rparr>"

lemma card_off_ok: "ctrl_ok card_off"
  by (simp add: ctrl_ok_def card_off_def card0_def get32_def)

theorem nvme_admin_setup_witness:
  "\<exists>dev'. nvme_events ram_host (wr 0x14 0 # [wr 0x28 0x2000, wr 0x24 0x1F003F, wr 0x2c 1, wr 0x30 0x3000] @ [wr 0x14 0x460001])
      card_off \<lparr>ram = (\<lambda>_. 0), irqs = []\<rparr> = Some (dev', \<lparr>ram = (\<lambda>_. 0), irqs = []\<rparr>) \<and>
    sq_addr (queues dev' ! 0) = 0x100002000 \<and> cq_addr (queues dev' ! 0) = 0x3000 \<and>
    sq_size (queues dev' ! 0) = 0x40 \<and> cq_size (queues dev' ! 0) = 0x20 \<and> get32 (bar0 dev') 0x1c = 1"
proof -
  have zero: "get32 (bar0 card_off) k = 0" for k by (simp add: card_off_def card0_def get32_def)
  have q: "admin_queue (reg_file [wr 0x28 0x2000, wr 0x24 0x1F003F, wr 0x2c 1, wr 0x30 0x3000] (\<lambda>_. 0)) =
      (reset_queue 0)\<lparr>sq_size := 0x40, cq_size := 0x20, sq_addr := 0x100002000, cq_addr := 0x3000\<rparr>"
    by (simp add: admin_queue_def admin_regs_def wr_def)
  have "\<exists>dev'. nvme_events ram_host (wr 0x14 0 # [wr 0x28 0x2000, wr 0x24 0x1F003F, wr 0x2c 1, wr 0x30 0x3000] @ [wr 0x14 0x460001])
      card_off \<lparr>ram = (\<lambda>_. 0), irqs = []\<rparr> = Some (dev', \<lparr>ram = (\<lambda>_. 0), irqs = []\<rparr>) \<and>
    queues dev' = (map reset_queue [0..<16])[0 := admin_queue (reg_file [wr 0x28 0x2000, wr 0x24 0x1F003F,
      wr 0x2c 1, wr 0x30 0x3000] (\<lambda>off. get32 (bar0 card_off) (unat off)))] \<and>
    nvme_enabled dev' \<and> get32 (bar0 dev') 0x1c = 1"
    by (rule nvme_admin_setup [OF card_off_ok])
      (simp_all add: wr_def cc_off_def cc_on_def setup_write_def reg_write_def admin_regs_def cc_shn_def cc_en_def)
  then show ?thesis unfolding zero q by auto
qed

text \<open>
  The event loop hands every queued event to the controller once, in the order the kernel queued
  them and with its data cut to the width of the access, and leaves the ring empty; through all of
  them CSTS stays truthful: it is ready (1) exactly while the controller is enabled, otherwise it says
  not ready (0) or shut down (8), and the register page shows it.
\<close>

theorem nvme_drain_in_order:
  assumes "ring_ok r" "ctrl_ok dev"
  shows "\<exists>r'. ring_content r' = [] \<and>
    nvme_drain H r dev w = map_option (\<lambda>(dev, w). (r', dev, w)) (nvme_events H (ring_content r) dev w) \<and>
    (nvme_events H (ring_content r) dev w = None \<or>
     (\<exists>dev' w'. nvme_events H (ring_content r) dev w = Some (dev', w') \<and>
       nvme_csts dev' \<in> {0, 1, 8} \<and> (nvme_csts dev' = 1 \<longleftrightarrow> nvme_enabled dev') \<and>
       get32 (bar0 dev') 0x1c = nvme_csts dev'))"
proof -
  from drain_all [OF assms(1), of H] obtain r' where r': "ring_content r' = []"
    "nvme_drain H r dev w = map_option (\<lambda>(dev, w). (r', dev, w)) (nvme_events H (ring_content r) dev w)" by blast
  have "nvme_events H (ring_content r) dev w = None \<or>
     (\<exists>dev' w'. nvme_events H (ring_content r) dev w = Some (dev', w') \<and> ctrl_ok dev')"
    using ctrl_ok_events [OF assms(2)] by (cases "nvme_events H (ring_content r) dev w") auto
  with r' show ?thesis unfolding ctrl_ok_def by (intro exI [of _ r'] conjI) auto
qed

theorem nvme_drain_in_order_witness:
  "\<exists>r'. ring_content r' = [] \<and>
    nvme_drain ram_host \<lparr>ring_head = 255, ring_tail = 1, events = (\<lambda>_. wr 0x40 7)\<rparr> card_off \<lparr>ram = (\<lambda>_. 0), irqs = []\<rparr> =
      Some (r', card_off, \<lparr>ram = (\<lambda>_. 0), irqs = []\<rparr>)"
proof -
  let ?r = "\<lparr>ring_head = 255, ring_tail = 1, events = (\<lambda>_. wr 0x40 7)\<rparr>"
  have c: "ring_content ?r = [wr 0x40 7, wr 0x40 7]"
    by (simp add: ring_content_def ring_len_def upt_conv_Cons)
  have e: "nvme_event ram_host (wr 0x40 7) card_off w = Some (card_off, w)" for w
    by (simp add: nvme_event_def Let_def wr_def nvme_handle_write_def)
  have "ring_ok ?r" by (simp add: ring_ok_def)
  from nvme_drain_in_order [OF this card_off_ok, of ram_host "\<lparr>ram = (\<lambda>_. 0), irqs = []\<rparr>"]
  show ?thesis unfolding c by (auto simp: e)
qed

text \<open>
  A controller that is off is quiet: until CC enables it, no write to the register page makes it
  touch the host's memory or raise an interrupt, every event is handled without fault, and it stays off.
\<close>

theorem nvme_disabled_quiet:
  assumes "ctrl_ok dev" "\<not> nvme_enabled dev"
    and "\<not> (ev_bar ev = 0 \<and> ev_offset ev = 0x14 \<and> cc_shn (ucast (ev_data ev)) = 0 \<and> cc_en (ucast (ev_data ev)))"
  shows "\<exists>dev'. nvme_handle_write H ev dev w = Some (dev', w) \<and> \<not> nvme_enabled dev'"
proof -
  consider "ev_bar ev \<noteq> 0 \<or> (ev_offset ev \<noteq> 0x14 \<and> ev_offset ev \<notin> admin_regs)"
    | "ev_bar ev = 0" "ev_offset ev = 0x14" | "ev_bar ev = 0" "ev_offset ev \<in> admin_regs" by blast
  then show ?thesis
  proof cases
    case 1
    with assms(2) have "nvme_handle_write H ev dev w = Some (dev, w)" by (intro ignored_write) auto
    with assms(2) show ?thesis by auto
  next
    case 2
    with assms show ?thesis
      using cc_write_cases(1,3) [OF assms(1), of ev]
      by (cases "cc_shn (ucast (ev_data ev)) = 0") (auto simp: cc_write)
  next
    case 3
    with assms(2) show ?thesis by (simp add: admin_write)
  qed
qed

theorem nvme_disabled_quiet_witness:
  "\<exists>dev'. nvme_handle_write ram_host (ring_doorbell 1) card_off \<lparr>ram = (\<lambda>_. 0), irqs = []\<rparr> =
     Some (dev', \<lparr>ram = (\<lambda>_. 0), irqs = []\<rparr>) \<and> \<not> nvme_enabled dev'"
  by (rule nvme_disabled_quiet [OF card_off_ok]) (simp_all add: ring_doorbell_def card_off_def)

end
