(* ===== verification/Dma.thy ===== *)
theory Dma
  imports Prelude
begin

text \<open>
  DMA to and from the guest (\<^verbatim>\<open>kernel/framework/dma.c\<close>): translation of an I/O virtual range page
  by page, the copies in both directions, and the atomic operations.

  Physical memory is a function from addresses to bytes. The kernel's IOMMU, its page array
  allocation, \<open>pfn_valid\<close> and \<open>memremap\<close> are arguments, collected in \<open>dma_env\<close>; a mapping of a
  physical range is the address it was made for. The cache synchronisation has no effect here.

  The loop over the pages is \<open>partial_function (option)\<close>: that it returns is part of the results.
\<close>

record dma_env =
  iommu :: "(u64 \<Rightarrow> u64) option"
  array_ok :: "u64 \<Rightarrow> bool"
  pfn_valid :: "u64 \<Rightarrow> bool"
  memremap_ok :: "u64 \<Rightarrow> u64 \<Rightarrow> bool"

record dma_mapping =
  map_addr :: u64
  map_ram :: bool

definition PAGE_SIZE :: u64 where
  "PAGE_SIZE = 4096"

definition page_align_down :: "u64 \<Rightarrow> u64" where
  "page_align_down a = a AND NOT 0xFFF"

definition page_align :: "u64 \<Rightarrow> u64" where
  "page_align a = (a + 0xFFF) AND NOT 0xFFF"

definition offset_in_page :: "u64 \<Rightarrow> u64" where
  "offset_in_page a = a AND 0xFFF"

definition pciem_map_phys :: "dma_env \<Rightarrow> u64 \<Rightarrow> u64 \<Rightarrow> dma_mapping res" where
  "pciem_map_phys env paddr len =
     (let ram = pfn_valid env (drop_bit 12 paddr)
      in if ram \<or> memremap_ok env paddr len then Inr \<lparr>map_addr = paddr, map_ram = ram\<rparr>
         else Inl EFAULT)"

definition translate_iova_once :: "dma_env \<Rightarrow> u64 \<Rightarrow> u64" where
  "translate_iova_once env iova = (case iommu env of Some tr \<Rightarrow> tr iova | None \<Rightarrow> iova)"

partial_function (option) translate_loop ::
    "dma_env \<Rightarrow> u64 \<Rightarrow> u64 \<Rightarrow> u64 list \<Rightarrow> u64 list res option" where
  "translate_loop env iova iova_end acc =
     (if iova < iova_end then
        (let pa = translate_iova_once env iova in
         if pa = 0 then Some (Inl EFAULT)
         else translate_loop env (iova + PAGE_SIZE) iova_end (acc @ [pa]))
      else Some (Inr acc))"

definition translate_iova :: "dma_env \<Rightarrow> u64 \<Rightarrow> u64 \<Rightarrow> u64 list res option" where
  "translate_iova env guest_iova len =
     (let iova_start = page_align_down guest_iova;
          iova_end = page_align (guest_iova + len);
          max_pages = drop_bit 12 (iova_end - iova_start)
      in if \<not> array_ok env max_pages then Some (Inl ENOMEM)
         else translate_loop env iova_start iova_end [])"

subsection \<open>The copies\<close>

text \<open>\<open>off\<close> is the offset into the first page, \<open>d\<close> how much of the buffer is done.\<close>

fun read_pages ::
    "dma_env \<Rightarrow> (u64 \<Rightarrow> u8) \<Rightarrow> u64 \<Rightarrow> u64 list \<Rightarrow> u8 list \<Rightarrow> nat \<Rightarrow> unit res \<times> u8 list" where
  "read_pages env mem off [] dst d = (Inr (), dst)"
| "read_pages env mem off (p # ps) dst d =
     (let chunk_len = min (4096 - unat off) (length dst - d) in
      case pciem_map_phys env p PAGE_SIZE of
        Inl e \<Rightarrow> (Inl e, dst)
      | Inr m \<Rightarrow>
          read_pages env mem 0 ps (splice dst d (mem_get mem (map_addr m + off) chunk_len))
            (d + chunk_len))"

fun write_pages ::
    "dma_env \<Rightarrow> (u64 \<Rightarrow> u8) \<Rightarrow> u64 \<Rightarrow> u64 list \<Rightarrow> u8 list \<Rightarrow> nat \<Rightarrow> unit res \<times> (u64 \<Rightarrow> u8)" where
  "write_pages env mem off [] src s = (Inr (), mem)"
| "write_pages env mem off (p # ps) src s =
     (let chunk_len = min (4096 - unat off) (length src - s) in
      case pciem_map_phys env p PAGE_SIZE of
        Inl e \<Rightarrow> (Inl ENOMEM, mem)
      | Inr m \<Rightarrow>
          write_pages env (mem_put mem (map_addr m + off) (take chunk_len (drop s src))) 0 ps src
            (s + chunk_len))"

text \<open>The number of pages goes through an \<open>unsigned int\<close>.\<close>

definition pciem_dma_read_from_guest ::
    "dma_env \<Rightarrow> (u64 \<Rightarrow> u8) \<Rightarrow> u64 \<Rightarrow> u8 list \<Rightarrow> (unit res \<times> u8 list) option" where
  "pciem_dma_read_from_guest env mem guest_iova dst =
     (if dst = [] then Some (Inl EINVAL, dst)
      else case translate_iova env guest_iova (of_nat (length dst)) of
        None \<Rightarrow> None
      | Some (Inl e) \<Rightarrow> Some (Inl e, dst)
      | Some (Inr pages) \<Rightarrow>
          Some (read_pages env mem (offset_in_page guest_iova)
                  (take (length pages mod 2 ^ 32) pages) dst 0))"

definition pciem_dma_write_to_guest ::
    "dma_env \<Rightarrow> (u64 \<Rightarrow> u8) \<Rightarrow> u64 \<Rightarrow> u8 list \<Rightarrow> (unit res \<times> (u64 \<Rightarrow> u8)) option" where
  "pciem_dma_write_to_guest env mem guest_iova src =
     (if src = [] then Some (Inl EINVAL, mem)
      else case translate_iova env guest_iova (of_nat (length src)) of
        None \<Rightarrow> None
      | Some (Inl e) \<Rightarrow> Some (Inl e, mem)
      | Some (Inr pages) \<Rightarrow>
          Some (write_pages env mem (offset_in_page guest_iova)
                  (take (length pages mod 2 ^ 32) pages) src 0))"

subsection \<open>Atomic operations\<close>

datatype atomic_op = FETCH_ADD | FETCH_SUB | SWAP | CAS | FETCH_AND | FETCH_OR | FETCH_XOR

definition atomic_code :: "u32 \<Rightarrow> atomic_op option" where
  "atomic_code op = (if op = 1 then Some FETCH_ADD else if op = 2 then Some FETCH_SUB
     else if op = 3 then Some SWAP else if op = 4 then Some CAS else if op = 5 then Some FETCH_AND
     else if op = 6 then Some FETCH_OR else if op = 7 then Some FETCH_XOR else None)"

fun atomic_new :: "atomic_op \<Rightarrow> u64 \<Rightarrow> u64 \<Rightarrow> u64 \<Rightarrow> u64" where
  "atomic_new FETCH_ADD old operand compare = old + operand"
| "atomic_new FETCH_SUB old operand compare = old - operand"
| "atomic_new SWAP old operand compare = operand"
| "atomic_new CAS old operand compare = (if old = compare then operand else old)"
| "atomic_new FETCH_AND old operand compare = old AND operand"
| "atomic_new FETCH_OR old operand compare = old OR operand"
| "atomic_new FETCH_XOR old operand compare = old XOR operand"

definition do_atomic_op ::
    "dma_env \<Rightarrow> (u64 \<Rightarrow> u8) \<Rightarrow> u64 \<Rightarrow> u32 \<Rightarrow> u64 \<Rightarrow> u64 \<Rightarrow> u64 \<times> (u64 \<Rightarrow> u8)" where
  "do_atomic_op env mem guest_iova op operand compare =
     (if guest_iova AND 7 \<noteq> 0 then (0, mem)
      else let phys_addr = translate_iova_once env (page_align_down guest_iova) in
        if phys_addr = 0 then (0, mem)
        else (case pciem_map_phys env (phys_addr + offset_in_page guest_iova) 8 of
                Inl e \<Rightarrow> (0, mem)
              | Inr m \<Rightarrow>
                  if map_addr m AND 7 \<noteq> 0 then (0, mem)
                  else (case atomic_code op of
                          None \<Rightarrow> (0, mem)
                        | Some a \<Rightarrow>
                            (let old_val = of_le (mem_get mem (map_addr m) 8)
                             in (old_val, mem_put mem (map_addr m) (le64 (atomic_new a old_val operand compare)))))))"

definition pciem_dma_atomic_fetch_add where
  "pciem_dma_atomic_fetch_add env mem iova val = do_atomic_op env mem iova 1 val 0"

definition pciem_dma_atomic_fetch_sub where
  "pciem_dma_atomic_fetch_sub env mem iova val = do_atomic_op env mem iova 2 val 0"

definition pciem_dma_atomic_swap where
  "pciem_dma_atomic_swap env mem iova val = do_atomic_op env mem iova 3 val 0"

definition pciem_dma_atomic_cas where
  "pciem_dma_atomic_cas env mem iova expected new_val = do_atomic_op env mem iova 4 new_val expected"

definition pciem_dma_atomic_fetch_and where
  "pciem_dma_atomic_fetch_and env mem iova val = do_atomic_op env mem iova 5 val 0"

definition pciem_dma_atomic_fetch_or where
  "pciem_dma_atomic_fetch_or env mem iova val = do_atomic_op env mem iova 6 val 0"

definition pciem_dma_atomic_fetch_xor where
  "pciem_dma_atomic_fetch_xor env mem iova val = do_atomic_op env mem iova 7 val 0"

lemmas atomic_defs = pciem_dma_atomic_fetch_add_def pciem_dma_atomic_fetch_sub_def
  pciem_dma_atomic_swap_def pciem_dma_atomic_cas_def pciem_dma_atomic_fetch_and_def
  pciem_dma_atomic_fetch_or_def pciem_dma_atomic_fetch_xor_def

subsection \<open>Pages and offsets\<close>

lemma mask12: "(0xFFF :: u64) = mask 12"
  by (simp add: mask_eq_exp_minus_1)

lemma offset_take_bit: "offset_in_page a = take_bit 12 a"
  by (simp add: offset_in_page_def mask12 take_bit_eq_mask)

lemma offset_nat: "unat (offset_in_page a) = unat a mod 4096"
  by (simp add: offset_take_bit unat_take_bit)

lemma down_minus: "page_align_down a = a - offset_in_page a"
proof -
  have "page_align_down a OR offset_in_page a = a" and "page_align_down a AND offset_in_page a = 0"
    by (rule bit_word_eqI; auto simp: page_align_down_def offset_in_page_def bit_simps)+
  then have "page_align_down a + offset_in_page a = a"
    using word_plus_and_or [of "page_align_down a" "offset_in_page a"] by simp
  then show ?thesis by (simp add: eq_diff_eq)
qed

lemma down_nat: "unat (page_align_down a) = unat a div 4096 * 4096"
proof -
  have "offset_in_page a \<le> a" by (simp add: word_le_nat_alt offset_nat)
  then have "unat (page_align_down a) = unat a - unat a mod 4096"
    by (simp add: down_minus unat_sub_if_le offset_nat)
  then show ?thesis by (simp add: minus_mod_eq_div_mult)
qed

lemma align_nat: "page_align a = page_align_down (a + 0xFFF)"
  by (simp add: page_align_def page_align_down_def)

text \<open>A range in terms of its first page: byte \<open>m\<close> after a page boundary.\<close>

lemma page_of_offset:
  assumes "offset_in_page s = 0"
  shows "offset_in_page (s + of_nat m) = of_nat (m mod 4096)"
    and "page_align_down (s + of_nat m) = s + of_nat (m div 4096 * 4096)"
proof -
  have "take_bit 12 (s + of_nat m) = take_bit 12 (of_nat m + take_bit 12 s)"
    by (simp only: take_bit_add_right) (simp only: add.commute)
  also have "\<dots> = take_bit 12 (of_nat m)"
    using assms by (simp add: offset_take_bit)
  also have "\<dots> = of_nat (m mod 4096)"
    by (simp only: take_bit_of_nat) (simp add: take_bit_eq_mod)
  finally show off: "offset_in_page (s + of_nat m) = of_nat (m mod 4096)"
    by (simp only: offset_take_bit)
  have "(of_nat m :: u64) = of_nat (m div 4096 * 4096) + of_nat (m mod 4096)"
    by (simp only: of_nat_add [symmetric] div_mult_mod_eq)
  with off show "page_align_down (s + of_nat m) = s + of_nat (m div 4096 * 4096)"
    by (simp only: down_minus) simp
qed

definition page_list :: "dma_env \<Rightarrow> u64 \<Rightarrow> nat \<Rightarrow> u64 list" where
  "page_list env s n = map (\<lambda>k. translate_iova_once env (s + of_nat (k * 4096))) [0..<n]"

lemma page_list_Suc:
  "page_list env s (Suc n) = translate_iova_once env s # page_list env (s + PAGE_SIZE) n"
proof -
  have "[0..<Suc n] = 0 # map Suc [0..<n]" by (simp add: upt_conv_Cons map_Suc_upt del: upt_Suc)
  then show ?thesis
    by (simp only: page_list_def list.map map_map) (simp add: PAGE_SIZE_def comp_def algebra_simps)
qed

lemma pages_between:
  fixes x y :: nat
  assumes "x mod 4096 = 0" "y mod 4096 = 0"
  shows "(y - x) div 4096 = 0 \<Longrightarrow> y \<le> x"
    and "Suc n = (y - x) div 4096 \<Longrightarrow> x + 4096 \<le> y \<and> n = (y - (x + 4096)) div 4096"
proof -
  from assms obtain a b where "x = 4096 * a" "y = 4096 * b"
    by (auto simp: mod_eq_0_iff_dvd elim!: dvdE)
  moreover from this have "y - x = 4096 * (b - a)" "y - (x + 4096) = 4096 * (b - (a + 1))"
    by (simp_all add: diff_mult_distrib2 algebra_simps)
  ultimately show "(y - x) div 4096 = 0 \<Longrightarrow> y \<le> x"
    and "Suc n = (y - x) div 4096 \<Longrightarrow> x + 4096 \<le> y \<and> n = (y - (x + 4096)) div 4096"
    by auto
qed

lemma translate_loop_spec:
  assumes "offset_in_page iova = 0" "offset_in_page e = 0" "n = (unat e - unat iova) div 4096"
  shows "translate_loop env iova e acc =
    Some (if 0 \<in> set (page_list env iova n) then Inl EFAULT else Inr (acc @ page_list env iova n))"
  using assms
proof (induction n arbitrary: iova acc)
  case 0
  have "unat iova mod 4096 = 0" "unat e mod 4096 = 0"
    using 0 by (simp_all add: offset_nat [symmetric])
  then have "unat e \<le> unat iova" using 0(3) pages_between(1) by metis
  then have "\<not> iova < e" by (simp add: word_less_nat_alt)
  then show ?case by (subst translate_loop.simps) (simp add: page_list_def)
next
  case (Suc n)
  have al: "unat iova mod 4096 = 0" "unat e mod 4096 = 0"
    using Suc.prems by (simp_all add: offset_nat [symmetric])
  note step = pages_between(2) [OF al Suc.prems(3)]
  then have gap: "unat iova + 4096 \<le> unat e" by (rule conjunct1)
  then have lt: "iova < e" by (simp add: word_less_nat_alt)
  have "unat iova + 4096 < 2 ^ 64"
    using gap by (rule le_less_trans) (rule order_less_le_trans [OF unsigned_less], simp)
  then have next_page: "unat (iova + PAGE_SIZE) = unat iova + 4096"
    by (simp add: PAGE_SIZE_def unat_add_small)
  have IH: "translate_loop env (iova + PAGE_SIZE) e acc' =
      Some (if 0 \<in> set (page_list env (iova + PAGE_SIZE) n) then Inl EFAULT
            else Inr (acc' @ page_list env (iova + PAGE_SIZE) n))" for acc'
  proof (rule Suc.IH)
    have "unat (offset_in_page (iova + PAGE_SIZE)) = 0"
      using al by (simp add: offset_nat next_page)
    then show "offset_in_page (iova + PAGE_SIZE) = 0" by (simp add: unat_eq_0)
    show "n = (unat e - unat (iova + PAGE_SIZE)) div 4096"
      using step by (simp add: next_page)
  qed (rule Suc.prems(2))
  show ?case
    using lt by (subst translate_loop.simps) (simp add: Let_def IH page_list_Suc)
qed

lemma offset_down [simp]: "offset_in_page (page_align_down a) = 0" "offset_in_page (page_align a) = 0"
proof -
  have "unat (offset_in_page (page_align_down a)) = 0" for a by (simp add: offset_nat down_nat)
  then show "offset_in_page (page_align_down a) = 0" "offset_in_page (page_align a) = 0"
    by (simp_all add: unat_eq_0 align_nat)
qed

lemma translate_iova_spec:
  assumes "array_ok env (drop_bit 12 (page_align (iova + len) - page_align_down iova))"
    and "n = (unat (page_align (iova + len)) - unat (page_align_down iova)) div 4096"
  shows "translate_iova env iova len =
    Some (if 0 \<in> set (page_list env (page_align_down iova) n) then Inl EFAULT
          else Inr (page_list env (page_align_down iova) n))"
  using assms translate_loop_spec [of "page_align_down iova" "page_align (iova + len)" n env "[]"]
  by (simp add: translate_iova_def Let_def)

text \<open>The translation always returns.\<close>

lemma translate_iova_returns: "translate_iova env iova len \<noteq> None"
  using translate_loop_spec [of "page_align_down iova" "page_align (iova + len)" _ env "[]"]
  by (simp add: translate_iova_def Let_def)

subsection \<open>The copies, byte by byte\<close>

definition mappable :: "dma_env \<Rightarrow> u64 \<Rightarrow> bool" where
  "mappable env p \<longleftrightarrow> pfn_valid env (drop_bit 12 p) \<or> memremap_ok env p PAGE_SIZE"

fun chunk_addrs :: "nat \<Rightarrow> nat \<Rightarrow> u64 list \<Rightarrow> u64 list" where
  "chunk_addrs off rest [] = []"
| "chunk_addrs off rest (p # ps) =
     addr_range (p + of_nat off) (min (4096 - off) rest) @ chunk_addrs 0 (rest - min (4096 - off) rest) ps"

lemma map_phys_ok: "mappable env p \<Longrightarrow>
    pciem_map_phys env p PAGE_SIZE = Inr \<lparr>map_addr = p, map_ram = pfn_valid env (drop_bit 12 p)\<rparr>"
  by (simp add: mappable_def pciem_map_phys_def)

lemma length_chunk_addrs: "length (chunk_addrs off rest ps) \<le> rest"
proof (induction off rest ps rule: chunk_addrs.induct)
  case (2 off rest p ps)
  moreover have "min (4096 - off) rest \<le> rest" by simp
  ultimately show ?case by (simp del: min.bounded_iff) linarith
qed simp

lemma read_pages_ok:
  assumes "list_all (mappable env) ps" "d \<le> length dst"
  shows "read_pages env mem off ps dst d =
    (Inr (), splice dst d (map mem (chunk_addrs (unat off) (length dst - d) ps)))"
  using assms
proof (induction ps arbitrary: off dst d)
  case (Cons p ps)
  define c where "c = min (4096 - unat off) (length dst - d)"
  have len: "length (mem_get mem (p + off) c) = c" by simp
  have c: "d + c \<le> length dst" using Cons.prems(2) by (simp add: c_def)
  define dst' where "dst' = splice dst d (mem_get mem (p + off) c)"
  have dst': "length dst' = length dst" using c by (simp add: dst'_def)
  have "read_pages env mem off (p # ps) dst d = read_pages env mem 0 ps dst' (d + c)"
    using Cons.prems(1) by (simp add: map_phys_ok dst'_def c_def Let_def)
  also have "\<dots> = (Inr (), splice dst' (d + c) (map mem (chunk_addrs 0 (length dst' - (d + c)) ps)))"
    using Cons.IH [of "d + c" dst' 0] Cons.prems(1) c dst' by simp
  also have "splice dst' (d + c) (map mem (chunk_addrs 0 (length dst' - (d + c)) ps)) =
      splice dst d (mem_get mem (p + off) c @ map mem (chunk_addrs 0 (length dst - d - c) ps))"
    using splice_append [of d "mem_get mem (p + off) c" "map mem (chunk_addrs 0 (length dst - d - c) ps)" dst]
      c dst' length_chunk_addrs [of 0 "length dst - d - c" ps] len
    by (simp add: dst'_def)
  finally show ?case by (simp add: c_def mem_get_range)
qed simp

lemma write_pages_ok:
  assumes "list_all (mappable env) ps" "s \<le> length src" "length src \<le> 2 ^ 64"
  shows "write_pages env mem off ps src s =
    (Inr (), put_bytes mem (zip (chunk_addrs (unat off) (length src - s) ps) (drop s src)))"
  using assms(1,2)
proof (induction ps arbitrary: off mem s)
  case (Cons p ps)
  define c where "c = min (4096 - unat off) (length src - s)"
  have c: "s + c \<le> length src" using Cons.prems(2) by (simp add: c_def)
  define bs where "bs = take c (drop s src)"
  have bs: "length bs = c" using c by (simp add: bs_def)
  have "write_pages env mem off (p # ps) src s =
      write_pages env (mem_put mem (p + off) bs) 0 ps src (s + c)"
    using Cons.prems(1) by (simp add: map_phys_ok bs_def c_def Let_def)
  also have "\<dots> = (Inr (), put_bytes (mem_put mem (p + off) bs)
      (zip (chunk_addrs 0 (length src - (s + c)) ps) (drop (s + c) src)))"
    using Cons.IH [of "s + c"] Cons.prems(1) c by simp
  also have "mem_put mem (p + off) bs = put_bytes mem (zip (addr_range (p + off) c) bs)"
    using mem_put_bytes [of bs mem "p + off"] bs c assms(3) by simp
  finally show ?case
    by (simp add: zip_append1 bs_def c_def add.commute [of s])
qed simp

definition phys_of :: "dma_env \<Rightarrow> u64 \<Rightarrow> u64" where
  "phys_of env a = translate_iova_once env (page_align_down a) + offset_in_page a"

definition dma_addrs :: "dma_env \<Rightarrow> u64 \<Rightarrow> nat \<Rightarrow> u64 list" where
  "dma_addrs env iova n = map (\<lambda>k. phys_of env (iova + of_nat k)) [0..<n]"

lemma length_dma_addrs [simp]: "length (dma_addrs env iova n) = n"
  by (simp add: dma_addrs_def)

lemma map_upt_add: "map f [0..<c + m] = map f [0..<c] @ map (\<lambda>k. f (c + k)) [0..<m]"
  by (rule nth_equalityI) (auto simp: nth_append)

lemma chunk_addrs_pages:
  assumes "offset_in_page s = 0" "off < 4096"
  shows "chunk_addrs off rest (page_list env s n) = dma_addrs env (s + of_nat off) (min rest (4096 * n - off))"
  using assms
proof (induction n arbitrary: s off rest)
  case (Suc n)
  define c where "c = min (4096 - off) rest"
  have here: "phys_of env (s + of_nat (off + k)) = translate_iova_once env s + of_nat (off + k)"
    if "k < c" for k
  proof -
    have "off + k < 4096" using that by (simp add: c_def less_diff_conv add.commute)
    then show ?thesis
      by (simp add: phys_of_def page_of_offset [OF Suc.prems(1)] del: of_nat_add)
  qed
  have first: "addr_range (translate_iova_once env s + of_nat off) c =
      dma_addrs env (s + of_nat off) c"
    using here by (simp add: addr_range_def dma_addrs_def add.assoc)
  have off': "offset_in_page (s + PAGE_SIZE) = 0"
    using page_of_offset(1) [OF Suc.prems(1), of 4096] by (simp add: PAGE_SIZE_def)
  have rest: "chunk_addrs 0 (rest - c) (page_list env (s + PAGE_SIZE) n) =
      dma_addrs env (s + PAGE_SIZE) (min (rest - c) (4096 * n))"
    using Suc.IH [OF off', of 0 "rest - c"] by simp
  have whole: "min rest (4096 * Suc n - off) = c + min (rest - c) (4096 * n)"
  proof (cases "rest \<le> 4096 - off")
    case False
    then have "c = 4096 - off" by (simp add: c_def)
    then show ?thesis using False Suc.prems(2) by (simp add: min_def) linarith
  qed (simp add: c_def)
  have shift: "s + PAGE_SIZE + of_nat k = s + of_nat off + of_nat (c + k)" if "k < min (rest - c) (4096 * n)" for k
  proof -
    have "c = 4096 - off" using that by (simp add: c_def min_def split: if_splits)
    then have "off + (c + k) = 4096 + k" using Suc.prems(2) by simp
    then have "(of_nat off :: u64) + of_nat (c + k) = of_nat (4096 + k)" by (metis of_nat_add)
    then show ?thesis by (simp add: PAGE_SIZE_def add.assoc)
  qed
  have "dma_addrs env (s + PAGE_SIZE) (min (rest - c) (4096 * n)) =
      map (\<lambda>k. phys_of env (s + of_nat off + of_nat (c + k))) [0..<min (rest - c) (4096 * n)]"
    unfolding dma_addrs_def by (rule map_cong [OF refl]) (simp only: set_upt atLeastLessThan_iff shift)
  with first rest show ?case
    unfolding page_list_Suc chunk_addrs.simps c_def [symmetric] whole
    by (simp add: dma_addrs_def map_upt_add)
qed (simp add: page_list_def dma_addrs_def)

text \<open>A range whose end, rounded up to a page, does not wrap around, with everything mapped.\<close>

definition range_pages :: "u64 \<Rightarrow> nat \<Rightarrow> nat" where
  "range_pages iova n = (unat (page_align (iova + of_nat n)) - unat (page_align_down iova)) div 4096"

definition dma_ok :: "dma_env \<Rightarrow> u64 \<Rightarrow> nat \<Rightarrow> bool" where
  "dma_ok env iova n \<longleftrightarrow>
     0 < n \<and> n < 2 ^ 32 \<and> unat iova + n + 4095 < 2 ^ 64 \<and>
     array_ok env (drop_bit 12 (page_align (iova + of_nat n) - page_align_down iova)) \<and>
     (\<forall>p\<in>set (page_list env (page_align_down iova) (range_pages iova n)). p \<noteq> 0 \<and> mappable env p)"

lemma of_nat_small: "n < 2 ^ 64 \<Longrightarrow> unat (of_nat n :: u64) = n"
  by (simp add: unsigned_of_nat take_bit_nat_eq_self)

lemma range_pages_bounds:
  assumes "unat iova + n + 4095 < 2 ^ 64" "n < 2 ^ 32"
  shows "n \<le> 4096 * range_pages iova n - unat (offset_in_page iova)" "range_pages iova n < 2 ^ 32"
proof -
  define x where "x = unat iova"
  have "unat (of_nat n :: u64) = n" using assms(2) by (simp add: of_nat_small)
  then have "unat (iova + of_nat n) = x + n"
    using assms(1) by (subst unat_add_small) (simp_all add: x_def)
  then have "unat (iova + of_nat n + 0xFFF) = x + n + 4095"
    using assms(1) by (subst unat_add_small) (simp_all add: x_def)
  then have "unat (page_align (iova + of_nat n)) = (x + n + 4095) div 4096 * 4096"
    by (simp only: align_nat down_nat)
  then have "range_pages iova n = ((x + n + 4095) div 4096 * 4096 - x div 4096 * 4096) div 4096"
    by (simp add: range_pages_def down_nat x_def)
  also have "\<dots> = (x + n + 4095) div 4096 - x div 4096"
    by (simp flip: diff_mult_distrib)
  finally have r: "range_pages iova n = (x + n + 4095) div 4096 - x div 4096" .
  have m: "(x + n + 4095) div 4096 * 4096 + (x + n + 4095) mod 4096 = x + n + 4095"
    "x div 4096 * 4096 + x mod 4096 = x" "(x + n + 4095) mod 4096 < 4096" "x mod 4096 < 4096"
    by simp_all
  then show "n \<le> 4096 * range_pages iova n - unat (offset_in_page iova)"
    by (simp only: r offset_nat diff_mult_distrib2 x_def [symmetric]) linarith
  show "range_pages iova n < 2 ^ 32"
    unfolding r using m assms(2) by simp
qed

lemma dma_pages:
  assumes "dma_ok env iova n"
  shows "translate_iova env iova (of_nat n) =
      Some (Inr (page_list env (page_align_down iova) (range_pages iova n)))"
    and "list_all (mappable env) (page_list env (page_align_down iova) (range_pages iova n))"
    and "take (length (page_list env (page_align_down iova) (range_pages iova n)) mod 2 ^ 32)
      (page_list env (page_align_down iova) (range_pages iova n)) =
      page_list env (page_align_down iova) (range_pages iova n)"
    and "chunk_addrs (unat (offset_in_page iova)) n (page_list env (page_align_down iova) (range_pages iova n)) =
      dma_addrs env iova n"
proof -
  note ok = assms [unfolded dma_ok_def]
  have n: "unat iova + n + 4095 < 2 ^ 64" "n < 2 ^ 32" using ok by auto
  note b = range_pages_bounds [OF this]
  show "translate_iova env iova (of_nat n) =
      Some (Inr (page_list env (page_align_down iova) (range_pages iova n)))"
    using ok translate_iova_spec [of env iova "of_nat n" "range_pages iova n"]
    by (auto simp: range_pages_def)
  show "list_all (mappable env) (page_list env (page_align_down iova) (range_pages iova n))"
    using ok by (simp add: list_all_iff)
  show "take (length (page_list env (page_align_down iova) (range_pages iova n)) mod 2 ^ 32)
      (page_list env (page_align_down iova) (range_pages iova n)) =
      page_list env (page_align_down iova) (range_pages iova n)"
    using b(2) by (simp add: page_list_def)
  have "page_align_down iova + of_nat (unat (offset_in_page iova)) = iova"
    by (simp add: down_minus)
  moreover have "unat (offset_in_page iova) < 4096" by (simp add: offset_nat)
  ultimately show "chunk_addrs (unat (offset_in_page iova)) n
      (page_list env (page_align_down iova) (range_pages iova n)) = dma_addrs env iova n"
    using chunk_addrs_pages [of "page_align_down iova" "unat (offset_in_page iova)" n env "range_pages iova n"] b(1)
    by (simp add: min_absorb1)
qed

lemma dma_read_ok [access_simps]:
  assumes "dma_ok env iova (length dst)"
  shows "pciem_dma_read_from_guest env mem iova dst =
    Some (Inr (), map mem (dma_addrs env iova (length dst)))"
proof -
  have "dst \<noteq> []" using assms by (auto simp: dma_ok_def)
  with dma_pages [OF assms] read_pages_ok [OF dma_pages(2) [OF assms], of 0 dst mem "offset_in_page iova"]
  show ?thesis by (simp add: pciem_dma_read_from_guest_def splice_all)
qed

lemma dma_write_ok [access_simps]:
  assumes "dma_ok env iova (length src)"
  shows "pciem_dma_write_to_guest env mem iova src =
    Some (Inr (), put_bytes mem (zip (dma_addrs env iova (length src)) src))"
proof -
  have "src \<noteq> []" "length src \<le> 2 ^ 64" using assms by (auto simp: dma_ok_def)
  with dma_pages [OF assms] write_pages_ok [OF dma_pages(2) [OF assms], of 0 src mem "offset_in_page iova"]
  show ?thesis by (simp add: pciem_dma_write_to_guest_def)
qed

text \<open>Every call returns.\<close>

lemma dma_returns:
  "pciem_dma_read_from_guest env mem iova dst \<noteq> None" "pciem_dma_write_to_guest env mem iova src \<noteq> None"
  using translate_iova_returns [of env iova "of_nat (length dst)"]
    translate_iova_returns [of env iova "of_nat (length src)"]
  by (auto simp: pciem_dma_read_from_guest_def pciem_dma_write_to_guest_def split: option.splits sum.splits)

subsection \<open>Distinct frames\<close>

text \<open>
  What an IOMMU translation that is one-to-one on the pages of a range gives: the frames are page
  aligned and no two pages share one.
\<close>

definition frames_ok :: "dma_env \<Rightarrow> u64 \<Rightarrow> nat \<Rightarrow> bool" where
  "frames_ok env iova n \<longleftrightarrow>
     (\<forall>k<n. offset_in_page (translate_iova_once env (page_align_down (iova + of_nat k))) = 0) \<and>
     (\<forall>j<n. \<forall>k<n. translate_iova_once env (page_align_down (iova + of_nat j)) =
        translate_iova_once env (page_align_down (iova + of_nat k)) \<longrightarrow>
        page_align_down (iova + of_nat j) = page_align_down (iova + of_nat k))"

lemma frame_split:
  assumes "offset_in_page f = 0" "offset_in_page g = 0"
    and "f + offset_in_page a = g + offset_in_page b"
  shows "f = g" "offset_in_page a = offset_in_page b"
proof -
  have "offset_in_page (f + offset_in_page a) = offset_in_page a" if "offset_in_page f = 0" for f a
  proof -
    have "unat (offset_in_page a) mod 4096 = unat (offset_in_page a)" by (simp add: offset_nat)
    with page_of_offset(1) [OF that, of "unat (offset_in_page a)"] show ?thesis by simp
  qed
  with assms show "offset_in_page a = offset_in_page b" by metis
  with assms(3) show "f = g" by simp
qed

lemma distinct_dma_addrs:
  assumes "frames_ok env iova n" "n \<le> 2 ^ 64"
  shows "distinct (dma_addrs env iova n)"
proof -
  have "j = k" if h: "j < n" "k < n" "phys_of env (iova + of_nat j) = phys_of env (iova + of_nat k)" for j k
  proof -
    note fr = assms(1) [unfolded frames_ok_def]
    have al: "offset_in_page (translate_iova_once env (page_align_down (iova + of_nat j))) = 0"
      "offset_in_page (translate_iova_once env (page_align_down (iova + of_nat k))) = 0"
      using fr h(1,2) by blast+
    note sp = frame_split [OF al h(3) [unfolded phys_of_def]]
    then have "page_align_down (iova + of_nat j) = page_align_down (iova + of_nat k)"
      using fr h(1,2) by blast
    with sp(2) have "iova + of_nat j = iova + of_nat k" by (simp add: down_minus)
    then have "unat (of_nat j :: u64) = unat (of_nat k :: u64)" by simp
    with h(1,2) assms(2) show ?thesis by (simp add: of_nat_small)
  qed
  then show ?thesis by (auto simp: dma_addrs_def distinct_map inj_on_def)
qed

subsection \<open>Properties\<close>

text \<open>
  C35. DMA data round trip: for a mapped range of guest addresses whose pages translate to distinct
  frames, a write succeeds and the read of the same range returns exactly the written bytes, however
  the range is split over pages; physical bytes outside the translated range keep their values.
\<close>

theorem dma_write_then_read:
  assumes "dma_ok env iova (length src)" and "frames_ok env iova (length src)"
    and "length dst = length src"
  shows "\<exists>mem'. pciem_dma_write_to_guest env mem iova src = Some (Inr (), mem') \<and>
    pciem_dma_read_from_guest env mem' iova dst = Some (Inr (), src) \<and>
    (\<forall>a. a \<notin> set (dma_addrs env iova (length src)) \<longrightarrow> mem' a = mem a)"
proof -
  define mem' where "mem' = put_bytes mem (zip (dma_addrs env iova (length src)) src)"
  have "length src \<le> 2 ^ 64" using assms(1) by (auto simp: dma_ok_def)
  note dis = distinct_dma_addrs [OF assms(2) this]
  have "map mem' (dma_addrs env iova (length src)) = src"
    unfolding mem'_def using dis by (rule put_bytes_get) simp
  moreover have "mem' a = mem a" if "a \<notin> set (dma_addrs env iova (length src))" for a
    unfolding mem'_def using that by (intro put_bytes_other) (auto dest: set_zip_leftD)
  ultimately show ?thesis
    using dma_write_ok [OF assms(1)] dma_read_ok [of env iova dst mem'] assms(1,3)
    by (intro exI [of _ mem']) (simp add: mem'_def)
qed

text \<open>No IOMMU, and every page is RAM.\<close>

definition ram_env :: dma_env where
  "ram_env = \<lparr>iommu = None, array_ok = (\<lambda>_. True), pfn_valid = (\<lambda>_. True), memremap_ok = (\<lambda>_ _. False)\<rparr>"

lemma ram_env_ok:
  assumes "4096 \<le> unat iova" "0 < n" "n < 2 ^ 32" "unat iova + n + 4095 < 2 ^ 64"
  shows "dma_ok ram_env iova n" "frames_ok ram_env iova n"
proof -
  define s where "s = page_align_down iova"
  have s0: "4096 \<le> unat s" "unat s \<le> unat iova"
    using assms(1) by (simp_all add: s_def down_nat)
  have "unat (s + of_nat (k * 4096)) \<noteq> 0" if k: "k < range_pages iova n" for k
  proof -
    have "unat (of_nat n :: u64) = n" using assms(3) by (simp add: of_nat_small)
    then have "unat (iova + of_nat n) = unat iova + n"
      using assms(4) by (subst unat_add_small) simp_all
    then have "unat (iova + of_nat n + 0xFFF) = unat iova + n + 4095"
      using assms(4) by (subst unat_add_small) simp_all
    then have "unat (page_align (iova + of_nat n)) \<le> unat iova + n + 4095"
      by (simp add: align_nat down_nat)
    moreover have "k * 4096 + 4096 \<le> unat (page_align (iova + of_nat n)) - unat s"
    proof -
      have "k + 1 \<le> (unat (page_align (iova + of_nat n)) - unat s) div 4096"
        using k by (simp add: range_pages_def s_def)
      then have "(k + 1) * 4096 \<le> (unat (page_align (iova + of_nat n)) - unat s) div 4096 * 4096"
        by (rule mult_le_mono1)
      also have "\<dots> \<le> unat (page_align (iova + of_nat n)) - unat s" by simp
      finally show ?thesis by simp
    qed
    ultimately have "unat s + k * 4096 < 2 ^ 64" using assms(4) s0 by linarith
    moreover from this have "unat (of_nat (k * 4096) :: u64) = k * 4096" by (intro of_nat_small) simp
    ultimately have "unat (s + of_nat (k * 4096)) = unat s + k * 4096"
      by (subst unat_add_small) simp_all
    with s0 show ?thesis by simp
  qed
  then have "s + of_nat (k * 4096) \<noteq> 0" if "k < range_pages iova n" for k
    using that by (metis unat_0)
  with assms show "dma_ok ram_env iova n"
    by (auto simp: dma_ok_def page_list_def ram_env_def translate_iova_once_def mappable_def s_def
        simp del: of_nat_mult)
  show "frames_ok ram_env iova n"
    by (simp add: frames_ok_def ram_env_def translate_iova_once_def)
qed

theorem dma_write_then_read_witness:
  "\<exists>mem'. pciem_dma_write_to_guest ram_env (\<lambda>_. 0) 0x1FFE [1, 2, 3, 4] = Some (Inr (), mem') \<and>
     pciem_dma_read_from_guest ram_env mem' 0x1FFE [0, 0, 0, 0] = Some (Inr (), [1, 2, 3, 4])"
  using dma_write_then_read [of ram_env "0x1FFE" "[1, 2, 3, 4]" "[0, 0, 0, 0]" "\<lambda>_. 0"]
    ram_env_ok [of "0x1FFE" "Suc (Suc (Suc (Suc 0)))"] by auto

text \<open>
  A translation fault is atomic: when any page of the range has no translation, both directions
  fail with EFAULT before the first byte is copied, so neither guest memory nor the buffer changes.
\<close>

theorem dma_fault_atomic:
  assumes "0 < length buf"
    and "array_ok env (drop_bit 12 (page_align (iova + of_nat (length buf)) - page_align_down iova))"
    and "0 \<in> set (page_list env (page_align_down iova) (range_pages iova (length buf)))"
  shows "pciem_dma_read_from_guest env mem iova buf = Some (Inl EFAULT, buf) \<and>
    pciem_dma_write_to_guest env mem iova buf = Some (Inl EFAULT, mem)"
proof -
  have "translate_iova env iova (of_nat (length buf)) = Some (Inl EFAULT)"
    using translate_iova_spec [OF assms(2) refl] assms(3) by (simp add: range_pages_def)
  with assms(1) show ?thesis
    by (auto simp: pciem_dma_read_from_guest_def pciem_dma_write_to_guest_def)
qed

theorem dma_fault_atomic_witness:
  "pciem_dma_write_to_guest (ram_env\<lparr>iommu := Some (\<lambda>p. if p = 0x2000 then 0 else p)\<rparr>) (\<lambda>_. 7) 0x1FFE
     [1, 2, 3, 4] = Some (Inl EFAULT, \<lambda>_. 7)"
proof -
  have "range_pages 0x1FFE (Suc (Suc (Suc (Suc 0)))) = 2"
    by (simp add: range_pages_def page_align_def page_align_down_def)
  then have "0 \<in> set (page_list (ram_env\<lparr>iommu := Some (\<lambda>p. if p = 0x2000 then 0 else p)\<rparr>)
      (page_align_down 0x1FFE) (range_pages 0x1FFE (Suc (Suc (Suc (Suc 0))))))"
    by (simp add: page_list_def translate_iova_once_def page_align_down_def numeral_2_eq_2)
  then show ?thesis
    using dma_fault_atomic [of "[1, 2, 3, 4]" "ram_env\<lparr>iommu := Some (\<lambda>p. if p = 0x2000 then 0 else p)\<rparr>" "0x1FFE"]
    by (simp add: ram_env_def)
qed

lemma top_page_translation:
  assumes "0 < n" and n0: "n < 2 ^ 32" "2 ^ 64 \<le> unat iova + n + 4095"
    and ok: "array_ok env (drop_bit 12 (page_align (iova + of_nat n) - page_align_down iova))"
  shows "translate_iova env iova (of_nat n) = Some (Inr [])"
proof -
  have n: "n < 2 ^ 32" "2 ^ 64 \<le> unat iova + n + 4095" "unat (of_nat n :: u64) = n"
    using n0 by (simp_all add: of_nat_small)
  have lt: "unat iova < 2 ^ 64" by (rule order_less_le_trans [OF unsigned_less]) simp
  have "unat (iova + of_nat n + 0xFFF) = (unat iova + n + 4095) mod 2 ^ 64"
    using n(3) by (simp add: unat_word_ariths mod_simps)
  also have "\<dots> = unat iova + n + 4095 - 2 ^ 64"
    using n(1,2) lt by (subst le_mod_geq) simp_all
  finally have "unat (page_align (iova + of_nat n)) \<le> unat iova + n + 4095 - 2 ^ 64"
    by (simp add: align_nat down_nat)
  moreover have "unat (page_align_down iova) > unat iova - 4096"
    using n(1,2) by (simp add: down_nat)
  ultimately have "range_pages iova n = 0"
    using n(1,2) lt by (simp add: range_pages_def)
  then show ?thesis
    using translate_iova_spec [OF ok refl] by (simp add: range_pages_def page_list_def)
qed

text \<open>
  At the top of the address space the page count wraps around: for a range whose rounded-up end
  exceeds \<open>2 ^ 64\<close> (the last page included), a read reports success without copying anything, so the
  caller's buffer keeps what it held. A write reports success and writes nothing.
\<close>

theorem dma_top_page_ignored:
  assumes "0 < length buf" and "length buf < 2 ^ 32" and "2 ^ 64 \<le> unat iova + length buf + 4095"
    and "array_ok env (drop_bit 12 (page_align (iova + of_nat (length buf)) - page_align_down iova))"
  shows "pciem_dma_read_from_guest env mem iova buf = Some (Inr (), buf) \<and>
    pciem_dma_write_to_guest env mem iova buf = Some (Inr (), mem)"
  using top_page_translation [OF assms] assms(1)
  by (auto simp: pciem_dma_read_from_guest_def pciem_dma_write_to_guest_def)

theorem dma_top_page_ignored_witness:
  "pciem_dma_read_from_guest ram_env (\<lambda>_. 1) 0xFFFFFFFFFFFFF000 [9, 9] = Some (Inr (), [9, 9])"
  using dma_top_page_ignored [of "[9, 9]" "0xFFFFFFFFFFFFF000" ram_env "\<lambda>_. 1"]
  by (simp add: ram_env_def)

lemma low3: "a AND 7 = take_bit 3 a" for a :: u64
  by (simp add: take_bit_eq_mask mask_eq_exp_minus_1)

lemma frame_low3:
  assumes "offset_in_page f = 0"
  shows "(f + offset_in_page a) AND 7 = a AND 7"
proof -
  have "unat (offset_in_page a) mod 4096 = unat (offset_in_page a)" by (simp add: offset_nat)
  with page_of_offset(1) [OF assms, of "unat (offset_in_page a)"]
  have "take_bit 12 (f + offset_in_page a) = take_bit 12 a"
    by (simp add: offset_take_bit)
  then have "take_bit 3 (take_bit 12 (f + offset_in_page a)) = take_bit 3 (take_bit 12 a)" by simp
  then show ?thesis by (simp add: low3)
qed

text \<open>
  An atomic operation on an aligned, translated and mapped guest address returns the 64-bit
  value that was there, leaves the value the operation computes from it, and changes no other byte;
  a compare-and-swap that does not match changes nothing.
\<close>

theorem atomic_correct:
  assumes "iova AND 7 = 0" and "translate_iova_once env (page_align_down iova) \<noteq> 0"
    and "offset_in_page (translate_iova_once env (page_align_down iova)) = 0"
    and "pfn_valid env (drop_bit 12 (phys_of env iova)) \<or> memremap_ok env (phys_of env iova) 8"
    and "atomic_code op = Some a" and "do_atomic_op env mem iova op operand compare = (old, mem')"
  shows "old = of_le (mem_get mem (phys_of env iova) 8) \<and>
    of_le (mem_get mem' (phys_of env iova) 8) = atomic_new a old operand compare \<and>
    (\<forall>x. 8 \<le> unat (x - phys_of env iova) \<longrightarrow> mem' x = mem x) \<and>
    (a = CAS \<and> old \<noteq> compare \<longrightarrow> mem' = mem)"
proof -
  define pa where "pa = phys_of env iova"
  have "pa AND 7 = 0"
    using frame_low3 [OF assms(3), of iova] assms(1) by (simp add: pa_def phys_of_def)
  moreover have sum: "translate_iova_once env (page_align_down iova) + offset_in_page iova = pa"
    by (simp add: pa_def phys_of_def)
  moreover have "pciem_map_phys env pa 8 = Inr \<lparr>map_addr = pa, map_ram = pfn_valid env (drop_bit 12 pa)\<rparr>"
    using assms(4) by (simp add: pciem_map_phys_def pa_def)
  ultimately have eq: "old = of_le (mem_get mem pa 8)"
    "mem' = mem_put mem pa (le64 (atomic_new a old operand compare))"
    using assms(1,2,5,6) unfolding do_atomic_op_def Let_def sum by auto
  have "mem_get mem' pa 8 = le64 (atomic_new a old operand compare)"
    using mem_get_put [of "le64 (atomic_new a old operand compare)" mem pa] by (simp add: eq(2))
  moreover have "mem' = mem" if "a = CAS" "old \<noteq> compare"
    using that by (simp add: eq le64_of_le mem_put_same)
  moreover have "mem' x = mem x" if "8 \<le> unat (x - pa)" for x
    using that by (simp add: eq(2) mem_put_other)
  ultimately show ?thesis using eq(1) by (auto simp: pa_def of_le_le64)
qed

theorem atomic_correct_witness:
  "fst (do_atomic_op ram_env (\<lambda>_. 0) 0x2008 1 5 0) = 0 \<and>
    of_le (mem_get (snd (do_atomic_op ram_env (\<lambda>_. 0) 0x2008 1 5 0)) 0x2008 8) = 5"
proof -
  have "phys_of ram_env 0x2008 = 0x2008"
    by (simp add: phys_of_def ram_env_def translate_iova_once_def down_minus)
  moreover have "of_le (mem_get (\<lambda>_. 0) 0x2008 8) = 0"
    by (simp add: of_le_def mem_get_def upt_rec)
  ultimately show ?thesis
    using atomic_correct [of "0x2008" ram_env 1 FETCH_ADD "\<lambda>_. 0" 5 0
        "fst (do_atomic_op ram_env (\<lambda>_. 0) 0x2008 1 5 0)" "snd (do_atomic_op ram_env (\<lambda>_. 0) 0x2008 1 5 0)"]
    by (simp add: ram_env_def translate_iova_once_def atomic_code_def page_align_down_def offset_in_page_def)
qed

end
