(* ===== verification/DmaIoctl.thy ===== *)
theory DmaIoctl
  imports Dma P2P
begin

text \<open>
  The ioctls that move data between user space and the guest
  (\<^verbatim>\<open>kernel/framework/userspace.c\<close>): \<open>pciem_ioctl_dma\<close>, \<open>pciem_ioctl_dma_atomic\<close> and
  \<open>pciem_ioctl_p2p\<close>.

  The world of an ioctl is physical memory, the caller's memory and the number of live kernel
  buffers. What the kernel answers is passed in: the result of \<open>pciem_check_registered\<close>, the
  argument structure (\<open>None\<close> when it cannot be copied from user space), \<open>kmalloc\<close> (by the number of the
  allocation and the size; it hands out a buffer with whatever bytes it held), and which user ranges are accessible.
\<close>

record user_env =
  can_read_user :: "u64 \<Rightarrow> nat \<Rightarrow> bool"
  can_write_user :: "u64 \<Rightarrow> nat \<Rightarrow> bool"
  kmalloc :: "nat \<Rightarrow> nat \<Rightarrow> u8 list option"

record dma_world =
  gmem :: "u64 \<Rightarrow> u8"
  umem :: "u64 \<Rightarrow> u8"
  kbufs :: nat

record dma_op =
  op_iova :: u64
  op_user :: u64
  op_length :: u32
  op_flags :: u32
  op_func :: u8

record atomic_req =
  at_iova :: u64
  at_operand :: u64
  at_compare :: u64
  at_type :: u32
  at_func :: u8

definition PCIEM_DMA_FLAG_WRITE :: u32 where
  "PCIEM_DMA_FLAG_WRITE = 2"

definition kalloc :: "dma_world \<Rightarrow> dma_world" where
  "kalloc w = w\<lparr>kbufs := kbufs w + 1\<rparr>"

definition kfree :: "dma_world \<Rightarrow> dma_world" where
  "kfree w = w\<lparr>kbufs := kbufs w - 1\<rparr>"

subsection \<open>One transfer through a kernel buffer\<close>

text \<open>
  The body shared by the ioctls: copy from user space and write to the guest, or read from the guest
  and copy out. The last component is the content of the buffer afterwards.
\<close>

definition copy_to_guest ::
    "dma_env \<Rightarrow> user_env \<Rightarrow> dma_world \<Rightarrow> u64 \<Rightarrow> u64 \<Rightarrow> u8 list \<Rightarrow> (unit res \<times> dma_world \<times> u8 list) option" where
  "copy_to_guest env uenv w iova uptr buf =
     (if \<not> can_read_user uenv uptr (length buf) then Some (Inl EFAULT, w, buf)
      else (let data = mem_get (umem w) uptr (length buf) in
        case pciem_dma_write_to_guest env (gmem w) iova data of
          None \<Rightarrow> None
        | Some (rc, g) \<Rightarrow> Some (rc, w\<lparr>gmem := g\<rparr>, data)))"

definition copy_from_guest ::
    "dma_env \<Rightarrow> user_env \<Rightarrow> dma_world \<Rightarrow> u64 \<Rightarrow> u64 \<Rightarrow> u8 list \<Rightarrow> (unit res \<times> dma_world \<times> u8 list) option" where
  "copy_from_guest env uenv w iova uptr buf =
     (case pciem_dma_read_from_guest env (gmem w) iova buf of
        None \<Rightarrow> None
      | Some (Inl e, data) \<Rightarrow> Some (Inl e, w, data)
      | Some (Inr _, data) \<Rightarrow>
          if can_write_user uenv uptr (length data)
          then Some (Inr (), w\<lparr>umem := mem_put (umem w) uptr data\<rparr>, data)
          else Some (Inl EFAULT, w, data))"

definition pciem_ioctl_dma ::
    "dma_env \<Rightarrow> user_env \<Rightarrow> unit res \<Rightarrow> (u8 \<Rightarrow> bool) \<Rightarrow> dma_op option \<Rightarrow> dma_world \<Rightarrow> (unit res \<times> dma_world) option" where
  "pciem_ioctl_dma env uenv chk has_func arg w =
     (case chk of Inl e \<Rightarrow> Some (Inl e, w)
      | Inr _ \<Rightarrow>
     (case arg of None \<Rightarrow> Some (Inl EFAULT, w)
      | Some op \<Rightarrow>
      if op_length op = 0 then Some (Inl EINVAL, w)
      else (case kmalloc uenv 0 (unat (op_length op)) of
        None \<Rightarrow> Some (Inl ENOMEM, w)
      | Some buf \<Rightarrow>
          let w = kalloc w in
          if \<not> has_func (op_func op) then Some (Inl ENODEV, w)
          else (case (if op_flags op AND PCIEM_DMA_FLAG_WRITE \<noteq> 0
                      then copy_to_guest env uenv w (op_iova op) (op_user op) buf
                      else copy_from_guest env uenv w (op_iova op) (op_user op) buf) of
                  None \<Rightarrow> None
                | Some (rc, w', _) \<Rightarrow> Some (rc, kfree w')))))"

definition pciem_ioctl_p2p ::
    "user_env \<Rightarrow> unit res \<Rightarrow> (u8 \<Rightarrow> p2p_manager option option) \<Rightarrow> dma_op option \<Rightarrow> dma_world \<Rightarrow>
       (unit res \<times> dma_world) option" where
  "pciem_ioctl_p2p uenv chk get_func arg w =
     (case chk of Inl e \<Rightarrow> Some (Inl e, w)
      | Inr _ \<Rightarrow>
     (case arg of None \<Rightarrow> Some (Inl EFAULT, w)
      | Some op \<Rightarrow>
      if op_length op = 0 then Some (Inl EINVAL, w)
      else (case kmalloc uenv 0 (unat (op_length op)) of
        None \<Rightarrow> Some (Inl ENOMEM, w)
      | Some buf \<Rightarrow>
          let w = kalloc w in
          (case get_func (op_func op) of
             None \<Rightarrow> Some (Inl ENODEV, w)
           | Some p2p \<Rightarrow>
               if op_flags op AND PCIEM_DMA_FLAG_WRITE \<noteq> 0 then
                 (if \<not> can_read_user uenv (op_user op) (length buf) then Some (Inl EFAULT, kfree w)
                  else (case pciem_p2p_write (gmem w) p2p (op_iova op)
                               (mem_get (umem w) (op_user op) (length buf)) of
                          None \<Rightarrow> None
                        | Some (rc, g) \<Rightarrow> Some (rc, kfree (w\<lparr>gmem := g\<rparr>))))
               else
                 (case pciem_p2p_read (gmem w) p2p (op_iova op) (ucast (op_length op)) of
                    None \<Rightarrow> None
                  | Some (Inl e) \<Rightarrow> Some (Inl e, kfree w)
                  | Some (Inr data) \<Rightarrow>
                      if can_write_user uenv (op_user op) (length data)
                      then Some (Inr (), kfree (w\<lparr>umem := mem_put (umem w) (op_user op) data\<rparr>))
                      else Some (Inl EFAULT, kfree w))))))"

text \<open>The result goes back in the caller's structure; it is \<open>Inr\<close> of the value copied out.\<close>

definition atomic_dispatch :: "dma_env \<Rightarrow> (u64 \<Rightarrow> u8) \<Rightarrow> atomic_req \<Rightarrow> (u64 \<times> (u64 \<Rightarrow> u8)) option" where
  "atomic_dispatch env mem r =
     (case atomic_code (at_type r) of
        None \<Rightarrow> None
      | Some FETCH_ADD \<Rightarrow> Some (pciem_dma_atomic_fetch_add env mem (at_iova r) (at_operand r))
      | Some FETCH_SUB \<Rightarrow> Some (pciem_dma_atomic_fetch_sub env mem (at_iova r) (at_operand r))
      | Some SWAP \<Rightarrow> Some (pciem_dma_atomic_swap env mem (at_iova r) (at_operand r))
      | Some CAS \<Rightarrow> Some (pciem_dma_atomic_cas env mem (at_iova r) (at_compare r) (at_operand r))
      | Some FETCH_AND \<Rightarrow> Some (pciem_dma_atomic_fetch_and env mem (at_iova r) (at_operand r))
      | Some FETCH_OR \<Rightarrow> Some (pciem_dma_atomic_fetch_or env mem (at_iova r) (at_operand r))
      | Some FETCH_XOR \<Rightarrow> Some (pciem_dma_atomic_fetch_xor env mem (at_iova r) (at_operand r)))"

definition pciem_ioctl_dma_atomic ::
    "dma_env \<Rightarrow> bool \<Rightarrow> unit res \<Rightarrow> (u8 \<Rightarrow> bool) \<Rightarrow> atomic_req option \<Rightarrow> dma_world \<Rightarrow> u64 res \<times> dma_world" where
  "pciem_ioctl_dma_atomic env copy_out_ok chk has_func arg w =
     (case chk of Inl e \<Rightarrow> (Inl e, w)
      | Inr _ \<Rightarrow>
     (case arg of None \<Rightarrow> (Inl EFAULT, w)
      | Some r \<Rightarrow>
          if \<not> has_func (at_func r) then (Inl ENODEV, w)
          else (case atomic_dispatch env (gmem w) r of
                  None \<Rightarrow> (Inl EINVAL, w)
                | Some (result, g) \<Rightarrow>
                    (if copy_out_ok then Inr result else Inl EFAULT, w\<lparr>gmem := g\<rparr>))))"

text \<open>The compare-and-swap of the ioctl is the operation with its operands in the right places.\<close>

lemma atomic_dispatch_eq:
  "atomic_code (at_type r) = Some a \<Longrightarrow>
     atomic_dispatch env mem r = Some (do_atomic_op env mem (at_iova r) (at_type r) (at_operand r)
       (if a = CAS then at_compare r else 0))"
  by (cases a)
    (auto simp: atomic_dispatch_def atomic_defs atomic_code_def split: if_splits)

subsection \<open>Every call returns, and what it leaves\<close>

lemma copy_returns [simp]:
  "copy_to_guest env uenv w iova uptr buf \<noteq> None" "copy_from_guest env uenv w iova uptr buf \<noteq> None"
  using dma_returns(1) [of env "gmem w" iova buf]
    dma_returns(2) [of env "gmem w" iova "mem_get (umem w) uptr (length buf)"]
  by (auto simp: copy_to_guest_def copy_from_guest_def Let_def split: option.splits prod.splits sum.splits)

lemma copy_kbufs [frame_simps]:
  "copy_to_guest env uenv w iova uptr buf = Some (rc, w', b') \<Longrightarrow> kbufs w' = kbufs w"
  "copy_from_guest env uenv w iova uptr buf = Some (rc, w', b') \<Longrightarrow> kbufs w' = kbufs w"
  by (auto simp: copy_to_guest_def copy_from_guest_def Let_def
      split: option.splits prod.splits sum.splits if_splits)

lemma copy_from_guest_frame [frame_simps]:
  "copy_from_guest env uenv w iova uptr buf = Some (rc, w', b') \<Longrightarrow> gmem w' = gmem w"
  by (auto simp: copy_from_guest_def split: option.splits prod.splits sum.splits if_splits)

lemma copy_to_guest_ok [access_simps]:
  assumes "dma_ok env iova (length buf)" "can_read_user uenv uptr (length buf)"
  shows "copy_to_guest env uenv w iova uptr buf =
    Some (Inr (), w\<lparr>gmem := put_bytes (gmem w) (zip (dma_addrs env iova (length buf))
      (mem_get (umem w) uptr (length buf)))\<rparr>, mem_get (umem w) uptr (length buf))"
  using assms dma_write_ok [of env iova "mem_get (umem w) uptr (length buf)" "gmem w"]
  by (simp add: copy_to_guest_def Let_def)

lemma copy_from_guest_ok [access_simps]:
  assumes "dma_ok env iova (length buf)" "can_write_user uenv uptr (length buf)"
  shows "copy_from_guest env uenv w iova uptr buf =
    Some (Inr (), w\<lparr>umem := mem_put (umem w) uptr (map (gmem w) (dma_addrs env iova (length buf)))\<rparr>,
      map (gmem w) (dma_addrs env iova (length buf)))"
  using assms dma_read_ok [OF assms(1), of "gmem w"] by (simp add: copy_from_guest_def)

text \<open>What \<open>kmalloc\<close> hands out has the size asked for, whatever the bytes in it.\<close>

definition kmalloc_ok :: "user_env \<Rightarrow> bool" where
  "kmalloc_ok uenv \<longleftrightarrow> (\<forall>i n b. kmalloc uenv i n = Some b \<longrightarrow> length b = n)"

text \<open>The two directions of the DMA ioctl on a mapped range, for a buffer of user space that may be used so.\<close>

lemma length_as_word:
  assumes "dma_ok env iova n"
  shows "unat (of_nat n :: u32) = n" "(of_nat n :: u32) \<noteq> 0"
proof -
  have "n < 2 ^ 32" "0 < n" using assms by (auto simp: dma_ok_def)
  then show "unat (of_nat n :: u32) = n"
    by (simp add: unsigned_of_nat take_bit_nat_eq_self)
  with \<open>0 < n\<close> show "(of_nat n :: u32) \<noteq> 0" by (metis less_numeral_extra(3) unat_0)
qed

lemma dma_ioctl_write_ok:
  assumes "dma_ok env iova n" "kmalloc_ok uenv" "kmalloc uenv 0 n \<noteq> None" "can_read_user uenv src n" "has_func f"
  shows "pciem_ioctl_dma env uenv (Inr ()) has_func
      (Some \<lparr>op_iova = iova, op_user = src, op_length = of_nat n, op_flags = 2, op_func = f\<rparr>) w =
    Some (Inr (), w\<lparr>gmem := put_bytes (gmem w) (zip (dma_addrs env iova n) (mem_get (umem w) src n))\<rparr>)"
proof -
  obtain buf where "kmalloc uenv 0 n = Some buf" "length buf = n"
    using assms(2,3) by (auto simp: kmalloc_ok_def)
  then show ?thesis
    using length_as_word [OF assms(1)] assms(1,4,5) copy_to_guest_ok [of env iova buf uenv src "kalloc w"]
    by (simp add: pciem_ioctl_dma_def PCIEM_DMA_FLAG_WRITE_def Let_def kalloc_def kfree_def)
qed

lemma dma_ioctl_read_ok:
  assumes "dma_ok env iova n" "kmalloc_ok uenv" "kmalloc uenv 0 n \<noteq> None" "can_write_user uenv dst n" "has_func f"
  shows "pciem_ioctl_dma env uenv (Inr ()) has_func
      (Some \<lparr>op_iova = iova, op_user = dst, op_length = of_nat n, op_flags = 1, op_func = f\<rparr>) w =
    Some (Inr (), w\<lparr>umem := mem_put (umem w) dst (map (gmem w) (dma_addrs env iova n))\<rparr>)"
proof -
  obtain buf where "kmalloc uenv 0 n = Some buf" "length buf = n"
    using assms(2,3) by (auto simp: kmalloc_ok_def)
  then show ?thesis
    using length_as_word [OF assms(1)] assms(1,4,5) copy_from_guest_ok [of env iova buf uenv dst "kalloc w"]
    by (simp add: pciem_ioctl_dma_def PCIEM_DMA_FLAG_WRITE_def Let_def kalloc_def kfree_def)
qed

subsection \<open>Properties\<close>

text \<open>
  What user space hands to the DMA ioctl arrives: when the range is mapped on distinct frames,
  writing from one user address and reading the same guest range to another returns 0 twice and
  leaves at the second address exactly the bytes of the first, and no kernel buffer is left over.
\<close>

theorem dma_ioctl_round_trip:
  assumes "dma_ok env iova n" and "frames_ok env iova n" and "kmalloc_ok uenv"
    and "kmalloc uenv 0 n \<noteq> None" and "can_read_user uenv src n" and "can_write_user uenv dst n"
    and "has_func f"
  shows "\<exists>w1 w2. pciem_ioctl_dma env uenv (Inr ()) has_func
      (Some \<lparr>op_iova = iova, op_user = src, op_length = of_nat n, op_flags = 2, op_func = f\<rparr>) w = Some (Inr (), w1) \<and>
    pciem_ioctl_dma env uenv (Inr ()) has_func
      (Some \<lparr>op_iova = iova, op_user = dst, op_length = of_nat n, op_flags = 1, op_func = f\<rparr>) w1 = Some (Inr (), w2) \<and>
    mem_get (umem w2) dst n = mem_get (umem w) src n \<and> kbufs w2 = kbufs w"
proof -
  have n: "n \<le> 2 ^ 64" using assms(1) by (simp add: dma_ok_def)
  define data where "data = mem_get (umem w) src n"
  define w1 where "w1 = w\<lparr>gmem := put_bytes (gmem w) (zip (dma_addrs env iova n) data)\<rparr>"
  have "map (gmem w1) (dma_addrs env iova n) = data"
    unfolding w1_def using distinct_dma_addrs [OF assms(2) n] by (simp add: put_bytes_get data_def)
  then have "mem_get (mem_put (umem w) dst (map (gmem w1) (dma_addrs env iova n))) dst n = data"
    using mem_get_put [of data "umem w" dst] n by (simp add: data_def)
  with dma_ioctl_write_ok [of env iova n uenv src has_func f w] dma_ioctl_read_ok [of env iova n uenv dst has_func f w1] assms
  show ?thesis unfolding data_def by (simp add: w1_def data_def)
qed

definition uenv0 :: user_env where
  "uenv0 = \<lparr>can_read_user = (\<lambda>_ _. True), can_write_user = (\<lambda>_ _. True), kmalloc = (\<lambda>i n. Some (replicate n 0x5A))\<rparr>"

definition world0 :: dma_world where
  "world0 = \<lparr>gmem = (\<lambda>_. 0), umem = (\<lambda>a. ucast a), kbufs = 0\<rparr>"

lemma uenv0_ok: "kmalloc_ok uenv0"
  by (simp add: kmalloc_ok_def uenv0_def)

theorem dma_ioctl_round_trip_witness:
  "\<exists>w1 w2. pciem_ioctl_dma ram_env uenv0 (Inr ()) (\<lambda>f. f = 0)
      (Some \<lparr>op_iova = 0x1FFE, op_user = 0x100, op_length = 8, op_flags = 2, op_func = 0\<rparr>) world0 = Some (Inr (), w1) \<and>
    pciem_ioctl_dma ram_env uenv0 (Inr ()) (\<lambda>f. f = 0)
      (Some \<lparr>op_iova = 0x1FFE, op_user = 0x200, op_length = 8, op_flags = 1, op_func = 0\<rparr>) w1 = Some (Inr (), w2) \<and>
    mem_get (umem w2) 0x200 8 = mem_get (umem world0) 0x100 8"
  using dma_ioctl_round_trip [OF ram_env_ok [of "0x1FFE" 8] uenv0_ok, of "0x100" "0x200" "\<lambda>f. f = 0" 0 world0]
  by (auto simp: uenv0_def)

text \<open>
  The DMA ioctl discloses kernel memory: a read from the last page of the guest's address space
  copies nothing from the guest and returns success, and user space receives the kernel buffer as
  \<open>kmalloc\<close> handed it out, with whatever it held before.
\<close>

theorem dma_ioctl_discloses_buffer:
  assumes "0 < n" and "n < 2 ^ 32" and "2 ^ 64 \<le> unat iova + n + 4095"
    and "array_ok env (drop_bit 12 (page_align (iova + of_nat n) - page_align_down iova))"
    and "kmalloc uenv 0 n = Some buf" and "length buf = n" and "can_write_user uenv dst n" and "has_func f"
  shows "\<exists>w'. pciem_ioctl_dma env uenv (Inr ()) has_func
      (Some \<lparr>op_iova = iova, op_user = dst, op_length = of_nat n, op_flags = 1, op_func = f\<rparr>) w = Some (Inr (), w') \<and>
    mem_get (umem w') dst n = buf"
proof -
  have n: "unat (of_nat n :: u32) = n" "(of_nat n :: u32) \<noteq> 0"
  proof -
    show "unat (of_nat n :: u32) = n" using assms(2) by (simp add: unsigned_of_nat take_bit_nat_eq_self)
    with assms(1) show "(of_nat n :: u32) \<noteq> 0" by (metis less_numeral_extra(3) unat_0)
  qed
  have rd: "pciem_dma_read_from_guest env mem iova buf = Some (Inr (), buf)" for mem
  proof -
    have "translate_iova env iova (of_nat (length buf)) = Some (Inr [])"
      using top_page_translation [of n iova env] assms(1-4,6) by simp
    with assms(1,6) show ?thesis by (auto simp: pciem_dma_read_from_guest_def)
  qed
  define w' where "w' = w\<lparr>umem := mem_put (umem w) dst buf\<rparr>"
  have "pciem_ioctl_dma env uenv (Inr ()) has_func
      (Some \<lparr>op_iova = iova, op_user = dst, op_length = of_nat n, op_flags = 1, op_func = f\<rparr>) w = Some (Inr (), w')"
    using assms(5-8) n rd
    by (simp add: pciem_ioctl_dma_def PCIEM_DMA_FLAG_WRITE_def Let_def copy_from_guest_def kalloc_def
        kfree_def w'_def)
  moreover have "mem_get (umem w') dst n = buf"
    using mem_get_put [of buf "umem w" dst] assms(2,6) by (simp add: w'_def)
  ultimately show ?thesis by blast
qed

theorem dma_ioctl_discloses_buffer_witness:
  "\<exists>w'. pciem_ioctl_dma ram_env uenv0 (Inr ()) (\<lambda>f. f = 0)
      (Some \<lparr>op_iova = 0xFFFFFFFFFFFFF000, op_user = 0x200, op_length = 2, op_flags = 1, op_func = 0\<rparr>) world0
      = Some (Inr (), w') \<and> mem_get (umem w') 0x200 2 = replicate 2 0x5A"
  using dma_ioctl_discloses_buffer [of 2 "0xFFFFFFFFFFFFF000" ram_env uenv0 "replicate 2 0x5A" "0x200" "\<lambda>f. f = 0" 0 world0]
  by (simp add: uenv0_def ram_env_def)

text \<open>
  The ioctl frees the buffer it allocates on every path but one: when the addressed function
  does not exist, it returns ENODEV with the buffer still allocated.
\<close>

theorem dma_ioctl_buffers:
  "pciem_ioctl_dma env uenv chk has_func arg w \<noteq> None \<and>
   (\<forall>rc w'. pciem_ioctl_dma env uenv chk has_func arg w = Some (rc, w') \<longrightarrow>
      kbufs w' = kbufs w + (if chk = Inr () \<and> (\<exists>op. arg = Some op \<and> op_length op \<noteq> 0 \<and>
         kmalloc uenv 0 (unat (op_length op)) \<noteq> None \<and> \<not> has_func (op_func op)) then 1 else 0))"
proof -
  show ?thesis
  proof (cases chk)
    case (Inr u)
    show ?thesis
    proof (cases "\<exists>op buf. arg = Some op \<and> op_length op \<noteq> 0 \<and> kmalloc uenv 0 (unat (op_length op)) = Some buf")
      case True
      then obtain op buf where arg: "arg = Some op" "op_length op \<noteq> 0"
        "kmalloc uenv 0 (unat (op_length op)) = Some buf" by blast
      define x where "x = (if op_flags op AND PCIEM_DMA_FLAG_WRITE \<noteq> 0
        then copy_to_guest env uenv (kalloc w) (op_iova op) (op_user op) buf
        else copy_from_guest env uenv (kalloc w) (op_iova op) (op_user op) buf)"
      obtain rc w' b where x: "x = Some (rc, w', b)"
        by (cases x) (auto simp: x_def split: if_splits)
      then have "kbufs w' = kbufs w + 1"
        by (auto simp: x_def kalloc_def dest!: copy_kbufs split: if_splits)
      moreover have "pciem_ioctl_dma env uenv chk has_func arg w =
          (if has_func (op_func op) then Some (rc, kfree w') else Some (Inl ENODEV, kalloc w))"
        using x arg Inr by (simp add: pciem_ioctl_dma_def Let_def x_def [symmetric])
      ultimately show ?thesis using arg Inr by (simp add: kalloc_def kfree_def)
    next
      case False
      with Inr show ?thesis
        by (cases arg) (auto simp: pciem_ioctl_dma_def split: option.split)
    qed
  qed (simp add: pciem_ioctl_dma_def)
qed

theorem dma_ioctl_buffers_witness:
  "\<exists>w'. pciem_ioctl_dma ram_env uenv0 (Inr ()) (\<lambda>f. f = 0)
      (Some \<lparr>op_iova = 0x1000, op_user = 0x200, op_length = 2, op_flags = 1, op_func = 3\<rparr>) world0 = Some (Inl ENODEV, w') \<and>
    kbufs w' = 1"
  using dma_ioctl_buffers [of ram_env uenv0 "Inr ()" "\<lambda>f. f = 0"
      "Some \<lparr>op_iova = 0x1000, op_user = 0x200, op_length = 2, op_flags = 1, op_func = 3\<rparr>" world0]
  by (auto simp: pciem_ioctl_dma_def uenv0_def world0_def Let_def)

end
