(* ===== verification/Prp.thy ===== *)
theory Prp
  imports DmaIoctl
begin

text \<open>
  Indirect DMA over a physical region page list: \<open>pciem_ioctl_dma_indirect\<close> of
  \<^verbatim>\<open>kernel/framework/userspace.c\<close>.

  The request names a first page, a second page or a list of pages, and the list may continue in
  another list through its last entry. The loop over the list is \<open>partial_function (option)\<close>:
  \<open>None\<close> means the ioctl never returns. An entry read past the end of the list buffer is the
  outcome \<open>Overread\<close>. Counters are 32-bit words, as in the code (the signed \<open>list_idx\<close> is compared
  with an unsigned bound).
\<close>

record prp_req =
  prp1 :: u64
  prp2 :: u64
  prp_user :: u64
  prp_length :: u32
  prp_page_size :: u32
  prp_flags :: u32
  prp_func :: u8

record prp_state =
  world :: dma_world
  data_buf :: "u8 list"
  list_buf :: "u8 list"

datatype prp_result = Returned "unit res" prp_state | Overread

definition prp_entry :: "prp_state \<Rightarrow> u32 \<Rightarrow> u64 option" where
  "prp_entry st i =
     (if 8 * unat i + 8 \<le> length (list_buf st)
      then Some (of_le (take 8 (drop (8 * unat i) (list_buf st)))) else None)"

text \<open>One chunk of data, through the first bytes of the data buffer.\<close>

definition prp_xfer ::
    "dma_env \<Rightarrow> user_env \<Rightarrow> bool \<Rightarrow> prp_state \<Rightarrow> u64 \<Rightarrow> u64 \<Rightarrow> u32 \<Rightarrow> (unit res \<times> prp_state) option" where
  "prp_xfer env uenv wr st iova uptr chunk =
     (let buf = take (unat chunk) (data_buf st) in
      case (if wr then copy_to_guest env uenv (world st) iova uptr buf
            else copy_from_guest env uenv (world st) iova uptr buf) of
        None \<Rightarrow> None
      | Some (rc, w, b) \<Rightarrow>
          Some (rc, st\<lparr>world := w, data_buf := b @ drop (length b) (data_buf st)\<rparr>))"

definition prp_read_list :: "dma_env \<Rightarrow> prp_state \<Rightarrow> u64 \<Rightarrow> u32 \<Rightarrow> (unit res \<times> prp_state) option" where
  "prp_read_list env st iova list_bytes =
     (case pciem_dma_read_from_guest env (gmem (world st)) iova (take (unat list_bytes) (list_buf st)) of
        None \<Rightarrow> None
      | Some (rc, b) \<Rightarrow> Some (rc, st\<lparr>list_buf := b @ drop (length b) (list_buf st)\<rparr>))"

definition prp_list_bytes :: "u32 \<Rightarrow> u64 \<Rightarrow> u32" where
  "prp_list_bytes page_size cur = page_size - ucast (cur AND ucast (page_size - 1))"

partial_function (option) prp_loop ::
    "dma_env \<Rightarrow> user_env \<Rightarrow> bool \<Rightarrow> u32 \<Rightarrow> u32 \<Rightarrow> u32 \<Rightarrow> u32 \<Rightarrow> u64 \<Rightarrow> prp_state \<Rightarrow> prp_result option" where
  "prp_loop env uenv wr page_size list_idx max_entries remaining user_ptr st =
     (if remaining = 0 then Some (Returned (Inr ()) st)
      else (case prp_entry st list_idx of
        None \<Rightarrow> Some Overread
      | Some prp \<Rightarrow>
          if list_idx = max_entries - 1 \<and> remaining > page_size then
            (case prp_read_list env st prp (prp_list_bytes page_size prp) of
               None \<Rightarrow> None
             | Some r \<Rightarrow>
                 (case fst r of
                    Inl e \<Rightarrow> Some (Returned (Inl e) (snd r))
                  | Inr _ \<Rightarrow>
                      prp_loop env uenv wr page_size 0 (prp_list_bytes page_size prp div 8)
                        remaining user_ptr (snd r)))
          else
            (let chunk = (if remaining < page_size then remaining else page_size) in
             case prp_xfer env uenv wr st prp user_ptr chunk of
               None \<Rightarrow> None
             | Some r \<Rightarrow>
                 (case fst r of
                    Inl e \<Rightarrow> Some (Returned (Inl e) (snd r))
                  | Inr _ \<Rightarrow>
                      prp_loop env uenv wr page_size (list_idx + 1) max_entries
                        (remaining - chunk) (user_ptr + ucast chunk) (snd r)))))"

text \<open>
  The body after the buffers are there; leaving through \<open>out\<close> frees both of them, the missing
  function does not.
\<close>

definition free_bufs :: "prp_result option \<Rightarrow> prp_result option" where
  "free_bufs r = map_option (\<lambda>x. case x of Returned rc st \<Rightarrow> Returned rc (st\<lparr>world := kfree (kfree (world st))\<rparr>)
     | Overread \<Rightarrow> Overread) r"

definition prp_second ::
    "dma_env \<Rightarrow> user_env \<Rightarrow> bool \<Rightarrow> prp_req \<Rightarrow> u32 \<Rightarrow> u64 \<Rightarrow> prp_state \<Rightarrow> prp_result option" where
  "prp_second env uenv wr req remaining user_ptr st =
     (if remaining \<le> prp_page_size req then
        map_option (\<lambda>r. Returned (fst r) (snd r)) (prp_xfer env uenv wr st (prp2 req) user_ptr remaining)
      else
        (let list_bytes = prp_list_bytes (prp_page_size req) (prp2 req) in
         case prp_read_list env st (prp2 req) list_bytes of
           None \<Rightarrow> None
         | Some (Inl e, st') \<Rightarrow> Some (Returned (Inl e) st')
         | Some (Inr _, st') \<Rightarrow>
             prp_loop env uenv wr (prp_page_size req) 0 (list_bytes div 8) remaining user_ptr st'))"

definition prp_transfer ::
    "dma_env \<Rightarrow> user_env \<Rightarrow> bool \<Rightarrow> prp_req \<Rightarrow> prp_state \<Rightarrow> prp_result option" where
  "prp_transfer env uenv wr req st =
     (let page_size = prp_page_size req;
          offset = ucast (prp1 req AND ucast (page_size - 1));
          chunk = page_size - offset;
          chunk = (if chunk > prp_length req then prp_length req else chunk)
      in case prp_xfer env uenv wr st (prp1 req) (prp_user req) chunk of
           None \<Rightarrow> None
         | Some (Inl e, st') \<Rightarrow> Some (Returned (Inl e) st')
         | Some (Inr _, st') \<Rightarrow>
             if prp_length req - chunk = 0 then Some (Returned (Inr ()) st')
             else prp_second env uenv wr req (prp_length req - chunk) (prp_user req + ucast chunk) st')"

definition page_size_bad :: "u32 \<Rightarrow> bool" where
  "page_size_bad s \<longleftrightarrow> s < 4096 \<or> s > 65536 \<or> (s AND (s - 1)) \<noteq> 0"

definition pciem_ioctl_dma_indirect ::
    "dma_env \<Rightarrow> user_env \<Rightarrow> unit res \<Rightarrow> (u8 \<Rightarrow> bool) \<Rightarrow> prp_req option \<Rightarrow> dma_world \<Rightarrow> prp_result option" where
  "pciem_ioctl_dma_indirect env uenv chk has_func arg w =
     (let st0 = \<lparr>world = w, data_buf = [], list_buf = []\<rparr> in
      case chk of Inl e \<Rightarrow> Some (Returned (Inl e) st0)
      | Inr _ \<Rightarrow>
     (case arg of None \<Rightarrow> Some (Returned (Inl EFAULT) st0)
      | Some req \<Rightarrow>
          if prp_length req = 0 then Some (Returned (Inr ()) st0)
          else if page_size_bad (prp_page_size req) then Some (Returned (Inl EINVAL) st0)
          else (case (kmalloc uenv 0 (unat (prp_page_size req)), kmalloc uenv 1 (unat (prp_page_size req))) of
                  (Some lb, Some db) \<Rightarrow>
                    (let st = \<lparr>world = kalloc (kalloc w), data_buf = db, list_buf = lb\<rparr> in
                     if \<not> has_func (prp_func req) then Some (Returned (Inl ENODEV) st)
                     else free_bufs (prp_transfer env uenv (prp_flags req AND PCIEM_DMA_FLAG_WRITE \<noteq> 0) req st))
                | _ \<Rightarrow> Some (Returned (Inl ENOMEM) st0))))"

subsection \<open>What a request means\<close>

text \<open>
  The segments of guest memory a list of pages stands for: whole pages, the last one cut to what
  remains.
\<close>

fun page_segs :: "nat \<Rightarrow> nat \<Rightarrow> u64 list \<Rightarrow> (u64 \<times> nat) list" where
  "page_segs psz rest [] = []"
| "page_segs psz rest (p # ps) = (p, min psz rest) # page_segs psz (rest - min psz rest) ps"

definition seg_data :: "dma_env \<Rightarrow> (u64 \<Rightarrow> u8) \<Rightarrow> (u64 \<times> nat) list \<Rightarrow> u8 list" where
  "seg_data env g segs = concat (map (\<lambda>(a, n). map g (dma_addrs env a n)) segs)"

definition segs_ok :: "dma_env \<Rightarrow> (u64 \<times> nat) list \<Rightarrow> bool" where
  "segs_ok env segs \<longleftrightarrow> list_all (\<lambda>(a, n). dma_ok env a n) segs"

definition seg_len :: "(u64 \<times> nat) list \<Rightarrow> nat" where
  "seg_len segs = sum_list (map snd segs)"

definition list_entry :: "dma_env \<Rightarrow> (u64 \<Rightarrow> u8) \<Rightarrow> u32 \<Rightarrow> u64 \<Rightarrow> nat \<Rightarrow> u64" where
  "list_entry env g psz cur k =
     of_le (take 8 (drop (8 * k) (map g (dma_addrs env cur (unat (prp_list_bytes psz cur))))))"

text \<open>
  The pages a list at \<open>cur\<close> names when \<open>n\<close> pages are wanted: its first \<open>n\<close> entries if it has that
  many, otherwise all but the last, which points to the list that continues it. The lists lie at
  addresses of the set \<open>L\<close>.
\<close>

inductive prp_pages :: "dma_env \<Rightarrow> u64 set \<Rightarrow> (u64 \<Rightarrow> u8) \<Rightarrow> u32 \<Rightarrow> u64 \<Rightarrow> nat \<Rightarrow> u64 list \<Rightarrow> bool"
  for env L g psz where
  last_list: "dma_ok env cur (unat (prp_list_bytes psz cur)) \<Longrightarrow>
     set (dma_addrs env cur (unat (prp_list_bytes psz cur))) \<subseteq> L \<Longrightarrow>
     n \<le> unat (prp_list_bytes psz cur) div 8 \<Longrightarrow>
     prp_pages env L g psz cur n (map (list_entry env g psz cur) [0..<n])"
| chained: "dma_ok env cur (unat (prp_list_bytes psz cur)) \<Longrightarrow>
     set (dma_addrs env cur (unat (prp_list_bytes psz cur))) \<subseteq> L \<Longrightarrow>
     unat (prp_list_bytes psz cur) div 8 = Suc m \<Longrightarrow> Suc m < n \<Longrightarrow>
     prp_pages env L g psz (list_entry env g psz cur m) (n - m) rest \<Longrightarrow>
     prp_pages env L g psz cur n (map (list_entry env g psz cur) [0..<m] @ rest)"

text \<open>A range of user memory every part of which is accessible.\<close>

definition user_range :: "(u64 \<Rightarrow> nat \<Rightarrow> bool) \<Rightarrow> u64 \<Rightarrow> nat \<Rightarrow> bool" where
  "user_range acc a n \<longleftrightarrow> (\<forall>off len. off + len \<le> n \<longrightarrow> acc (a + of_nat off) len)"

lemma user_range_sub: "user_range acc a n \<Longrightarrow> c + d \<le> n \<Longrightarrow> user_range acc (a + of_nat c) d"
  unfolding user_range_def
proof (intro allI impI)
  fix off len
  assume h: "\<forall>off len. off + len \<le> n \<longrightarrow> acc (a + of_nat off) len" "c + d \<le> n" "off + len \<le> d"
  from h(2,3) have "c + off + len \<le> n" by linarith
  with h(1) have "acc (a + of_nat (c + off)) len" by blast
  then show "acc (a + of_nat c + of_nat off) len" by (simp add: add.assoc)
qed

lemma user_range_whole: "user_range acc a n \<Longrightarrow> acc a n"
  unfolding user_range_def by (erule allE [of _ 0]) simp

definition seg_addrs :: "dma_env \<Rightarrow> (u64 \<times> nat) list \<Rightarrow> u64 list" where
  "seg_addrs env segs = concat (map (\<lambda>(a, n). dma_addrs env a n) segs)"

lemma seg_simps [simp]:
  "seg_data env g [] = []" "seg_data env g ((a, n) # segs) = map g (dma_addrs env a n) @ seg_data env g segs"
  "segs_ok env []" "segs_ok env ((a, n) # segs) \<longleftrightarrow> dma_ok env a n \<and> segs_ok env segs"
  "seg_addrs env [] = []" "seg_addrs env ((a, n) # segs) = dma_addrs env a n @ seg_addrs env segs"
  "seg_len [] = 0" "seg_len ((a, n) # segs) = n + seg_len segs"
  by (simp_all add: seg_data_def segs_ok_def seg_addrs_def seg_len_def)

lemma length_seg_data [simp]: "length (seg_data env g segs) = seg_len segs" "length (seg_addrs env segs) = seg_len segs"
  by (induction segs) (auto simp: seg_len_def)

lemma seg_data_addrs: "seg_data env g segs = map g (seg_addrs env segs)"
  by (induction segs) auto

lemma min_split: "min a r + min x (r - min a r) = min (a + x) r" for a r x :: nat
  by (cases "a \<le> r") (auto simp: min_def)

lemma seg_len_pages: "seg_len (page_segs psz rest ps) = min (psz * length ps) rest"
proof (induction psz rest ps rule: page_segs.induct)
  case (2 psz rest p ps)
  have "seg_len (page_segs psz rest (p # ps)) = min psz rest + seg_len (page_segs psz (rest - min psz rest) ps)"
    by simp
  then show ?case by (simp only: 2 min_split) simp
qed simp

lemma page_segs_append:
  "page_segs psz rest (ps @ qs) = page_segs psz rest ps @ page_segs psz (rest - min (psz * length ps) rest) qs"
proof (induction psz rest ps rule: page_segs.induct)
  case (2 psz rest p ps)
  have "rest - min psz rest - min (psz * length ps) (rest - min psz rest) =
      rest - min (psz * length (p # ps)) rest"
    using min_split [of psz rest "psz * length ps"] by simp
  then show ?case using 2 by simp
qed simp

lemma seg_append [simp]:
  "seg_data env g (xs @ ys) = seg_data env g xs @ seg_data env g ys"
  "segs_ok env (xs @ ys) \<longleftrightarrow> segs_ok env xs \<and> segs_ok env ys"
  "seg_addrs env (xs @ ys) = seg_addrs env xs @ seg_addrs env ys"
  "seg_len (xs @ ys) = seg_len xs + seg_len ys"
  by (simp_all add: seg_data_def segs_ok_def seg_addrs_def seg_len_def)

subsection \<open>The contract of one direction\<close>

definition buf_ok :: "u32 \<Rightarrow> prp_state \<Rightarrow> bool" where
  "buf_ok psz st \<longleftrightarrow> length (data_buf st) = unat psz \<and> length (list_buf st) = unat psz"

text \<open>
  Both directions run the same loop. What the loop needs of a transfer is this contract: \<open>eff segs p\<close>
  is the effect of having moved the segments \<open>segs\<close> with user memory from \<open>p\<close> on; \<open>good\<close> says which
  segments can be moved and \<open>usr\<close> which user ranges; the guest addresses in \<open>L\<close>, where the lists
  are, keep their values.
\<close>

locale prp_direction =
  fixes env :: dma_env and uenv :: user_env and wr :: bool and L :: "u64 set"
    and usr :: "u64 \<Rightarrow> nat \<Rightarrow> bool" and good :: "(u64 \<times> nat) list \<Rightarrow> bool"
    and eff :: "(u64 \<times> nat) list \<Rightarrow> u64 \<Rightarrow> prp_state \<Rightarrow> prp_state \<Rightarrow> bool"
  assumes xfer: "buf_ok psz st \<Longrightarrow> good [(iova, unat chunk)] \<Longrightarrow> chunk \<le> psz \<Longrightarrow> usr uptr (unat chunk) \<Longrightarrow>
      \<exists>st'. prp_xfer env uenv wr st iova uptr chunk = Some (Inr (), st') \<and>
        eff [(iova, unat chunk)] uptr st st' \<and> list_buf st' = list_buf st"
    and eff_nil: "eff [] uptr st st"
    and eff_trans: "eff xs p st st' \<Longrightarrow> eff ys (p + of_nat (seg_len xs)) st' st'' \<Longrightarrow>
      seg_len xs + seg_len ys \<le> 2 ^ 64 \<Longrightarrow> eff (xs @ ys) p st st''"
    and eff_keeps: "good segs \<Longrightarrow> eff segs p st st' \<Longrightarrow> a \<in> L \<Longrightarrow> gmem (world st') a = gmem (world st) a"
    and eff_bufs: "eff segs p st st' \<Longrightarrow> buf_ok psz st \<Longrightarrow> buf_ok psz st'"
    and eff_world: "eff segs p st' st'' \<Longrightarrow> world st' = world st \<Longrightarrow> buf_ok psz st \<Longrightarrow> buf_ok psz st' \<Longrightarrow>
      eff segs p st st''"
    and usr_sub: "usr a n \<Longrightarrow> c + d \<le> n \<Longrightarrow> usr (a + of_nat c) d"
    and good_append: "good (xs @ ys) \<longleftrightarrow> good xs \<and> good ys"
    and good_nil: "good []"

subsection \<open>Chunks\<close>

lemma chunk_nat:
  fixes r psz :: u32
  shows "unat (if r < psz then r else psz) = min (unat psz) (unat r)"
    "(ucast (if r < psz then r else psz) :: u64) = of_nat (min (unat psz) (unat r))"
    "r - (if r < psz then r else psz) = of_nat (unat r - min (unat psz) (unat r))"
proof -
  show a: "unat (if r < psz then r else psz) = min (unat psz) (unat r)"
    by (simp add: word_less_nat_alt min_def)
  then show "(ucast (if r < psz then r else psz) :: u64) = of_nat (min (unat psz) (unat r))"
    by (metis of_nat_unat)
  have "(if r < psz then r else psz) \<le> r" by auto
  then have "unat (r - (if r < psz then r else psz)) = unat r - min (unat psz) (unat r)"
    by (simp only: unat_sub_if_le a)
  from arg_cong [OF this, of "of_nat :: nat \<Rightarrow> u32"]
  show "r - (if r < psz then r else psz) = of_nat (unat r - min (unat psz) (unat r))"
    by simp
qed

subsection \<open>Reading a list of pages\<close>

lemma list_bytes_bounds:
  assumes "0 < unat psz"
  shows "prp_list_bytes psz cur \<le> psz" "0 < unat (prp_list_bytes psz cur)"
proof -
  have "(ucast (cur AND ucast (psz - 1)) :: u32) = ucast cur AND (psz - 1)"
    by (rule bit_word_eqI) (auto simp: bit_simps)
  then have le: "(ucast (cur AND ucast (psz - 1)) :: u32) \<le> psz - 1"
    by (simp add: word_and_le1)
  have "psz \<noteq> 0" using assms by auto
  then have m: "unat (psz - 1) = unat psz - 1" by (rule unat_minus_one)
  then have lt: "unat (ucast (cur AND ucast (psz - 1)) :: u32) < unat psz"
    using le assms by (simp add: word_le_nat_alt)
  then have "unat (prp_list_bytes psz cur) = unat psz - unat (ucast (cur AND ucast (psz - 1)) :: u32)"
    unfolding prp_list_bytes_def by (intro unat_sub_if_le) (simp add: word_le_nat_alt)
  with lt show "prp_list_bytes psz cur \<le> psz" "0 < unat (prp_list_bytes psz cur)"
    by (simp_all add: word_le_nat_alt)
qed

definition holds_list :: "dma_env \<Rightarrow> u32 \<Rightarrow> u64 \<Rightarrow> prp_state \<Rightarrow> bool" where
  "holds_list env psz cur st \<longleftrightarrow>
     take (unat (prp_list_bytes psz cur)) (list_buf st) =
       map (gmem (world st)) (dma_addrs env cur (unat (prp_list_bytes psz cur)))"

lemma prp_read_list_ok:
  assumes "buf_ok psz st" "0 < unat psz" "dma_ok env cur (unat (prp_list_bytes psz cur))"
  shows "\<exists>st'. prp_read_list env st cur (prp_list_bytes psz cur) = Some (Inr (), st') \<and>
    world st' = world st \<and> data_buf st' = data_buf st \<and> buf_ok psz st' \<and> holds_list env psz cur st' \<and>
    drop (unat (prp_list_bytes psz cur)) (list_buf st') = drop (unat (prp_list_bytes psz cur)) (list_buf st)"
proof -
  define b where "b = unat (prp_list_bytes psz cur)"
  have b: "b \<le> unat psz" using list_bytes_bounds(1) [OF assms(2)] by (simp add: b_def word_le_nat_alt)
  then have "length (take b (list_buf st)) = b" using assms(1) by (simp add: buf_ok_def)
  with assms(3) dma_read_ok [of env cur "take b (list_buf st)" "gmem (world st)"]
  have "pciem_dma_read_from_guest env (gmem (world st)) cur (take b (list_buf st)) =
      Some (Inr (), map (gmem (world st)) (dma_addrs env cur b))"
    by (simp add: b_def)
  then show ?thesis
    using b assms(1) by (simp add: prp_read_list_def holds_list_def b_def buf_ok_def)
qed

lemma unat_div8: "unat (x div 8 :: u32) = unat x div 8"
  by (simp add: unat_div)

lemma holds_entry:
  assumes "buf_ok psz st" "0 < unat psz" "holds_list env psz cur st"
    and "k < unat (prp_list_bytes psz cur) div 8"
  shows "prp_entry st (of_nat k) = Some (list_entry env (gmem (world st)) psz cur k)"
proof -
  define b where "b = unat (prp_list_bytes psz cur)"
  have b: "b \<le> length (list_buf st)"
    using list_bytes_bounds(1) [OF assms(2)] assms(1) by (simp add: b_def buf_ok_def word_le_nat_alt)
  have k: "8 * k + 8 \<le> b" using assms(4) by (simp add: b_def)
  have "b < 2 ^ 32" unfolding b_def by (rule order_less_le_trans [OF unsigned_less]) simp
  with k have "unat (of_nat k :: u32) = k" by (simp add: unsigned_of_nat take_bit_nat_eq_self)
  moreover have "take 8 (drop (8 * k) (list_buf st)) = take 8 (drop (8 * k) (take b (list_buf st)))"
    using k by (simp add: drop_take min_def)
  ultimately show ?thesis
    using k b assms(3) by (simp add: prp_entry_def list_entry_def holds_list_def b_def)
qed

lemma list_entry_cong:
  assumes "set (dma_addrs env cur (unat (prp_list_bytes psz cur))) \<subseteq> L" "\<forall>a\<in>L. g' a = g a"
  shows "list_entry env g' psz cur k = list_entry env g psz cur k"
proof -
  have "map g' (dma_addrs env cur (unat (prp_list_bytes psz cur))) = map g (dma_addrs env cur (unat (prp_list_bytes psz cur)))"
    using assms by (intro map_cong) auto
  then show ?thesis unfolding list_entry_def by (simp only:)
qed

lemma holds_list_cong:
  assumes "holds_list env psz cur st" "list_buf st' = list_buf st"
    and "set (dma_addrs env cur (unat (prp_list_bytes psz cur))) \<subseteq> L"
    and "\<forall>a\<in>L. gmem (world st') a = gmem (world st) a"
  shows "holds_list env psz cur st'"
proof -
  have "map (gmem (world st')) (dma_addrs env cur (unat (prp_list_bytes psz cur))) =
      map (gmem (world st)) (dma_addrs env cur (unat (prp_list_bytes psz cur)))"
    using assms(3,4) by (intro map_cong) auto
  with assms(1,2) show ?thesis unfolding holds_list_def by (simp only:)
qed

lemma prp_pages_dma: "prp_pages env L g psz cur n ps \<Longrightarrow> dma_ok env cur (unat (prp_list_bytes psz cur))"
  by (cases rule: prp_pages.cases) auto

lemma prp_pages_length: "prp_pages env L g psz cur n ps \<Longrightarrow> length ps = n"
  by (induction rule: prp_pages.induct) auto

lemma prp_loop_done [simp]: "prp_loop env uenv wr psz i mx 0 uptr st = Some (Returned (Inr ()) st)"
  by (subst prp_loop.simps) simp

lemma prp_step_chain:
  assumes "buf_ok psz st" "0 < unat psz" "prp_entry st i = Some next_list" "i = mx - 1" "remaining > psz"
    and "dma_ok env next_list (unat (prp_list_bytes psz next_list))"
  shows "\<exists>st'. prp_loop env uenv wr psz i mx remaining uptr st =
      prp_loop env uenv wr psz 0 (prp_list_bytes psz next_list div 8) remaining uptr st' \<and>
    world st' = world st \<and> data_buf st' = data_buf st \<and> buf_ok psz st' \<and> holds_list env psz next_list st'"
proof -
  obtain st' where st': "prp_read_list env st next_list (prp_list_bytes psz next_list) = Some (Inr (), st')"
    "world st' = world st" "data_buf st' = data_buf st" "buf_ok psz st'" "holds_list env psz next_list st'"
    using prp_read_list_ok [OF assms(1,2,6)] by blast
  have "remaining \<noteq> 0" using assms(5) by auto
  with assms(3-5) st'(1) have "prp_loop env uenv wr psz i mx remaining uptr st =
      prp_loop env uenv wr psz 0 (prp_list_bytes psz next_list div 8) remaining uptr st'"
    by (subst prp_loop.simps)
      (simp only: if_True if_False simp_thms option.case fst_conv snd_conv sum.case)
  with st' show ?thesis by blast
qed

subsection \<open>Requests\<close>

text \<open>
  The segments a request stands for: the rest of the first page; then, if more is wanted, the second
  page, or the pages of the list when one page does not suffice.
\<close>

definition first_len :: "prp_req \<Rightarrow> nat" where
  "first_len req = min (unat (prp_list_bytes (prp_page_size req) (prp1 req))) (unat (prp_length req))"

inductive prp_plan :: "dma_env \<Rightarrow> u64 set \<Rightarrow> (u64 \<Rightarrow> u8) \<Rightarrow> prp_req \<Rightarrow> (u64 \<times> nat) list \<Rightarrow> bool"
  for env L g req where
  one: "unat (prp_length req) = first_len req \<Longrightarrow> prp_plan env L g req [(prp1 req, first_len req)]"
| two: "first_len req < unat (prp_length req) \<Longrightarrow>
     unat (prp_length req) - first_len req \<le> unat (prp_page_size req) \<Longrightarrow>
     prp_plan env L g req [(prp1 req, first_len req), (prp2 req, unat (prp_length req) - first_len req)]"
| many: "unat (prp_page_size req) < unat (prp_length req) - first_len req \<Longrightarrow>
     unat (prp_page_size req) * (n - 1) < unat (prp_length req) - first_len req \<Longrightarrow>
     unat (prp_length req) - first_len req \<le> unat (prp_page_size req) * n \<Longrightarrow>
     prp_pages env L g (prp_page_size req) (prp2 req) n ps \<Longrightarrow>
     prp_plan env L g req ((prp1 req, first_len req) #
       page_segs (unat (prp_page_size req)) (unat (prp_length req) - first_len req) ps)"

lemma page_size_pos: "\<not> page_size_bad psz \<Longrightarrow> 0 < unat psz"
  by (auto simp: page_size_bad_def word_less_nat_alt not_less)

lemma first_chunk:
  assumes "0 < unat (prp_page_size req)"
    and "chunk = (if prp_page_size req - ucast (prp1 req AND ucast (prp_page_size req - 1)) > prp_length req
      then prp_length req else prp_page_size req - ucast (prp1 req AND ucast (prp_page_size req - 1)))"
  shows "unat chunk = first_len req" "chunk \<le> prp_page_size req" "chunk \<le> prp_length req"
    "unat (prp_length req - chunk) = unat (prp_length req) - first_len req"
    "(ucast chunk :: u64) = of_nat (first_len req)"
proof -
  have c: "chunk = (if prp_list_bytes (prp_page_size req) (prp1 req) > prp_length req then prp_length req
      else prp_list_bytes (prp_page_size req) (prp1 req))"
    using assms(2) by (simp add: prp_list_bytes_def)
  then show a: "unat chunk = first_len req"
    by (simp add: first_len_def word_less_nat_alt min_def)
  show le: "chunk \<le> prp_length req" using c by auto
  show "chunk \<le> prp_page_size req"
  proof (cases "prp_list_bytes (prp_page_size req) (prp1 req) > prp_length req")
    case True
    then have "prp_length req \<le> prp_page_size req"
      using list_bytes_bounds(1) [OF assms(1), of "prp1 req"] by (meson less_imp_le order_trans)
    with True c show ?thesis by simp
  qed (use c list_bytes_bounds(1) [OF assms(1), of "prp1 req"] in simp)
  show "unat (prp_length req - chunk) = unat (prp_length req) - first_len req"
    using le a by (simp add: unat_sub_if_le)
  show "(ucast chunk :: u64) = of_nat (first_len req)" using a by (metis of_nat_unat)
qed

subsection \<open>The loop, in either direction\<close>

context prp_direction
begin

lemma good_cons: "good (x # xs) \<longleftrightarrow> good [x] \<and> good xs"
  using good_append [of "[x]" xs] by simp

lemma step_data:
  assumes "buf_ok psz st" "remaining \<noteq> 0" "prp_entry st i = Some p" "\<not> (i = mx - 1 \<and> remaining > psz)"
    and "chunk = (if remaining < psz then remaining else psz)" "good [(p, unat chunk)]" "usr uptr (unat chunk)"
  shows "\<exists>st'. prp_loop env uenv wr psz i mx remaining uptr st =
      prp_loop env uenv wr psz (i + 1) mx (remaining - chunk) (uptr + ucast chunk) st' \<and>
    eff [(p, unat chunk)] uptr st st' \<and> list_buf st' = list_buf st"
proof -
  have "chunk \<le> psz" using assms(5) by auto
  from xfer [OF assms(1,6) this assms(7)] obtain st' where st':
    "prp_xfer env uenv wr st p uptr chunk = Some (Inr (), st')"
    "eff [(p, unat chunk)] uptr st st'" "list_buf st' = list_buf st"
    by blast
  have "prp_loop env uenv wr psz i mx remaining uptr st =
      prp_loop env uenv wr psz (i + 1) mx (remaining - chunk) (uptr + ucast chunk) st'"
    using assms(2-4) st'(1) unfolding assms(5)
    by (subst prp_loop.simps) (simp only: Let_def if_False option.case fst_conv snd_conv sum.case)
  with st' show ?thesis by blast
qed

text \<open>Runs of data entries.\<close>

lemma run_gen:
  assumes "buf_ok psz st" "0 < unat psz" "\<forall>k<length ps. prp_entry st (of_nat (i + k)) = Some (ps ! k)"
    and "\<forall>k<length ps. \<not> ((of_nat (i + k) :: u32) = mx - 1 \<and> unat psz * (k + 1) < unat r)"
    and "ps \<noteq> [] \<longrightarrow> unat psz * (length ps - 1) < unat r"
    and "good (page_segs (unat psz) (unat r) ps)" "usr uptr (unat r)"
  shows "\<exists>st'. prp_loop env uenv wr psz (of_nat i) mx r uptr st =
      prp_loop env uenv wr psz (of_nat (i + length ps)) mx
        (of_nat (unat r - min (unat psz * length ps) (unat r)))
        (uptr + of_nat (min (unat psz * length ps) (unat r))) st' \<and>
    eff (page_segs (unat psz) (unat r) ps) uptr st st' \<and>
    list_buf st' = list_buf st"
  using assms
proof (induction ps arbitrary: i r uptr st)
  case Nil
  then show ?case by (intro exI [of _ st]) (simp add: eff_nil)
next
  case (Cons p ps)
  define P where "P = unat psz"
  define c where "c = min P (unat r)"
  define chunk where "chunk = (if r < psz then r else psz)"
  have chunk: "unat chunk = c" "(ucast chunk :: u64) = of_nat c" "r - chunk = of_nat (unat r - c)"
    using chunk_nat [of r psz] by (simp_all add: chunk_def c_def P_def)
  have rpos: "0 < unat r" using Cons.prems(5) by simp
  have e0: "prp_entry st (of_nat i) = Some p" using Cons.prems(3) by force
  have nochain: "\<not> ((of_nat i :: u32) = mx - 1 \<and> r > psz)"
    using Cons.prems(4) by (force simp: word_less_nat_alt)
  have "r \<noteq> 0" using rpos by auto
  have goods: "good [(p, c)]" "good (page_segs P (unat r - c) ps)"
    using Cons.prems(6) good_cons [of "(p, c)" "page_segs P (unat r - c) ps"] by (simp_all add: c_def P_def)
  have usr: "usr uptr (unat chunk)"
    using usr_sub [OF Cons.prems(7), of 0 c] by (simp add: chunk c_def)
  obtain st1 where st1: "prp_loop env uenv wr psz (of_nat i) mx r uptr st =
      prp_loop env uenv wr psz (of_nat i + 1) mx (r - chunk) (uptr + ucast chunk) st1"
    "eff [(p, c)] uptr st st1" "list_buf st1 = list_buf st"
    using step_data [OF Cons.prems(1) \<open>r \<noteq> 0\<close> e0 nochain chunk_def _ usr] goods(1) unfolding chunk(1) by blast
  have r': "unat (of_nat (unat r - c) :: u32) = unat r - c"
    by (metis chunk(1,3) unat_sub_if_le chunk_def linorder_not_less order_refl order_less_imp_le)
  have entries: "\<forall>k<length ps. prp_entry st1 (of_nat ((i + 1) + k)) = Some (ps ! k)"
  proof (intro allI impI)
    fix k
    assume "k < length ps"
    then have "prp_entry st (of_nat (i + Suc k)) = Some ((p # ps) ! Suc k)"
      using Cons.prems(3) by (metis Suc_less_eq length_Cons)
    moreover have "i + 1 + k = i + Suc k" by simp
    ultimately show "prp_entry st1 (of_nat ((i + 1) + k)) = Some (ps ! k)"
      unfolding prp_entry_def st1(3) by (simp only: nth_Cons_Suc)
  qed
  have full: "ps \<noteq> [] \<Longrightarrow> c = P"
    using Cons.prems(5) by (cases ps) (auto simp: c_def P_def)
  define r1 where "r1 = (of_nat (unat r - c) :: u32)"
  have r1: "unat r1 = unat r - c" using r' by (simp add: r1_def)
  have Pc: "P * length (p # ps) = P + P * length ps" by simp
  have "\<exists>st'. prp_loop env uenv wr psz (of_nat (i + 1)) mx r1 (uptr + of_nat c) st1 =
      prp_loop env uenv wr psz (of_nat (i + 1 + length ps)) mx
        (of_nat (unat r1 - min (unat psz * length ps) (unat r1)))
        (uptr + of_nat c + of_nat (min (unat psz * length ps) (unat r1))) st' \<and>
    eff (page_segs (unat psz) (unat r1) ps) (uptr + of_nat c) st1 st' \<and>
    list_buf st' = list_buf st1"
  proof (rule Cons.IH)
    show "buf_ok psz st1" using eff_bufs [OF st1(2) Cons.prems(1)] .
    show "0 < unat psz" by (rule Cons.prems(2))
    show "\<forall>k<length ps. prp_entry st1 (of_nat (i + 1 + k)) = Some (ps ! k)" by (rule entries)
    show "\<forall>k<length ps. \<not> ((of_nat (i + 1 + k) :: u32) = mx - 1 \<and> unat psz * (k + 1) < unat r1)"
    proof (intro allI impI)
      fix k
      assume k: "k < length ps"
      then have "\<not> ((of_nat (i + Suc k) :: u32) = mx - 1 \<and> P * (Suc k + 1) < unat r)"
        using Cons.prems(4) unfolding P_def by (metis Suc_less_eq length_Cons)
      moreover from k have "ps \<noteq> []" by (cases ps) auto
      then have "c = P" by (rule full)
      ultimately show "\<not> ((of_nat (i + 1 + k) :: u32) = mx - 1 \<and> unat psz * (k + 1) < unat r1)"
        by (auto simp: r1 P_def)
    qed
    show "ps \<noteq> [] \<longrightarrow> unat psz * (length ps - 1) < unat r1"
    proof
      assume "ps \<noteq> []"
      moreover from this have "P * length ps < unat r" using Cons.prems(5) by (simp add: P_def)
      moreover have "P * length ps = P + P * (length ps - 1)"
        using \<open>ps \<noteq> []\<close> by (cases ps) auto
      ultimately show "unat psz * (length ps - 1) < unat r1"
        using full by (simp add: r1 P_def)
    qed
    show "good (page_segs (unat psz) (unat r1) ps)"
      using goods(2) by (simp add: r1 P_def)
    show "usr (uptr + of_nat c) (unat r1)"
      using usr_sub [OF Cons.prems(7), of c "unat r1"] by (simp add: r1 c_def)
  qed
  then obtain st2 where st2: "prp_loop env uenv wr psz (of_nat (i + 1)) mx r1 (uptr + of_nat c) st1 =
      prp_loop env uenv wr psz (of_nat (i + 1 + length ps)) mx
        (of_nat (unat r1 - min (P * length ps) (unat r1)))
        (uptr + of_nat c + of_nat (min (P * length ps) (unat r1))) st2"
    "eff (page_segs P (unat r - c) ps) (uptr + of_nat c) st1 st2"
    "list_buf st2 = list_buf st1"
    unfolding P_def r1 by blast
  have d: "c + min (P * length ps) (unat r - c) = min (P * length (p # ps)) (unat r)"
    using min_split [of P "unat r" "P * length ps"] by (simp add: c_def)
  then have d': "unat r - c - min (P * length ps) (unat r - c) = unat r - min (P * length (p # ps)) (unat r)"
    "uptr + of_nat c + of_nat (min (P * length ps) (unat r - c)) =
      uptr + of_nat (min (P * length (p # ps)) (unat r))"
    by (simp_all add: add.assoc flip: of_nat_add d)
  have loop: "prp_loop env uenv wr psz (of_nat i) mx r uptr st =
      prp_loop env uenv wr psz (of_nat (i + length (p # ps))) mx
        (of_nat (unat r - min (P * length (p # ps)) (unat r)))
        (uptr + of_nat (min (P * length (p # ps)) (unat r))) st2"
    using st1(1) st2(1) unfolding chunk(2,3) r1_def [symmetric] r1 d' by (simp add: add.commute)
  have "unat r < 2 ^ 32" by (rule order_less_le_trans [OF unsigned_less]) simp
  then have small: "c + seg_len (page_segs P (unat r - c) ps) \<le> 2 ^ 64"
    using d by (simp add: seg_len_pages)
  have "eff ([(p, c)] @ page_segs P (unat r - c) ps) uptr st st2"
    using st1(2) st2(2) small by (intro eff_trans [where st' = st1]) simp_all
  then have "eff (page_segs P (unat r) (p # ps)) uptr st st2" by (simp add: c_def)
  with loop st2(3) st1(3) show ?case unfolding P_def by auto
qed

lemma run:
  assumes "buf_ok psz st" "0 < unat psz" "\<forall>k<length ps. prp_entry st (of_nat (i + k)) = Some (ps ! k)"
    and "i + length ps \<le> unat mx" "i + length ps < unat mx \<or> unat r \<le> unat psz * length ps"
    and "ps \<noteq> [] \<longrightarrow> unat psz * (length ps - 1) < unat r"
    and "good (page_segs (unat psz) (unat r) ps)" "usr uptr (unat r)"
  shows "\<exists>st'. prp_loop env uenv wr psz (of_nat i) mx r uptr st =
      prp_loop env uenv wr psz (of_nat (i + length ps)) mx
        (of_nat (unat r - min (unat psz * length ps) (unat r)))
        (uptr + of_nat (min (unat psz * length ps) (unat r))) st' \<and>
    eff (page_segs (unat psz) (unat r) ps) uptr st st' \<and>
    list_buf st' = list_buf st"
proof (rule run_gen [OF assms(1-3) _ assms(6-8)], intro allI impI notI)
  fix k
  assume k: "k < length ps" and h: "(of_nat (i + k) :: u32) = mx - 1 \<and> unat psz * (k + 1) < unat r"
  have imx: "i + k < unat mx" using k assms(4) by simp
  then have "mx \<noteq> 0" by auto
  then have "unat (mx - 1) = unat mx - 1" by (rule unat_minus_one)
  moreover have "i + k < 2 ^ 32"
    using imx by (rule order_less_le_trans) (rule order_trans [OF less_imp_le [OF unsigned_less]], simp)
  then have "unat (of_nat (i + k) :: u32) = i + k"
    by (simp only: unsigned_of_nat) (simp add: take_bit_nat_eq_self)
  ultimately have "i + k = unat mx - 1" using h by metis
  with k imx assms(4,5) have "length ps = k + 1" "unat r \<le> unat psz * length ps" by auto
  with h show False by simp
qed

text \<open>Lists, and lists that continue in others.\<close>

lemma entry_at:
  assumes "buf_ok psz st" "0 < unat psz" "holds_list env psz cur st" "\<forall>a\<in>L. gmem (world st) a = g a"
    and "set (dma_addrs env cur (unat (prp_list_bytes psz cur))) \<subseteq> L" "k < unat (prp_list_bytes psz cur) div 8"
  shows "prp_entry st (of_nat k) = Some (list_entry env g psz cur k)"
  using holds_entry [OF assms(1-3,6)] list_entry_cong [OF assms(5,4)] by simp

lemma list_run:
  assumes "prp_pages env L g psz cur n ps"
    and "buf_ok psz st" "0 < unat psz" "holds_list env psz cur st" "\<forall>a\<in>L. gmem (world st) a = g a"
    and "unat psz * (n - 1) < unat r" "unat r \<le> unat psz * n"
    and "good (page_segs (unat psz) (unat r) ps)" "usr uptr (unat r)"
  shows "\<exists>st'. prp_loop env uenv wr psz 0 (prp_list_bytes psz cur div 8) r uptr st = Some (Returned (Inr ()) st') \<and>
    eff (page_segs (unat psz) (unat r) ps) uptr st st'"
  using assms
proof (induction arbitrary: r uptr st rule: prp_pages.induct)
  case (last_list cur n)
  have "\<exists>st'. prp_loop env uenv wr psz (of_nat 0) (prp_list_bytes psz cur div 8) r uptr st =
      prp_loop env uenv wr psz (of_nat (0 + length (map (list_entry env g psz cur) [0..<n])))
        (prp_list_bytes psz cur div 8)
        (of_nat (unat r - min (unat psz * length (map (list_entry env g psz cur) [0..<n])) (unat r)))
        (uptr + of_nat (min (unat psz * length (map (list_entry env g psz cur) [0..<n])) (unat r))) st' \<and>
    eff (page_segs (unat psz) (unat r) (map (list_entry env g psz cur) [0..<n])) uptr st st' \<and>
    list_buf st' = list_buf st"
    using last_list.prems last_list.hyps entry_at [OF last_list.prems(1-4) last_list.hyps(2)]
    by (intro run) (simp_all add: unat_div8)
  with last_list.prems show ?case by auto
next
  case (chained cur m n rest)
  define P where "P = unat psz"
  define ps where "ps = map (list_entry env g psz cur) [0..<m]"
  define mx where "mx = prp_list_bytes psz cur div 8"
  have len: "length ps = m" by (simp add: ps_def)
  have mx: "unat mx = Suc m" using chained.hyps(3) by (simp add: mx_def unat_div8)
  have big: "P * m + P < unat r"
  proof -
    have "P * Suc m \<le> P * (n - 1)" using chained.hyps(4) by (intro mult_le_mono2) simp
    with chained.prems(5) show ?thesis by (simp add: P_def)
  qed
  have segs: "page_segs P (unat r) (ps @ rest) = page_segs P (unat r) ps @ page_segs P (unat r - P * m) rest"
    using big len by (simp add: page_segs_append min_def)
  have oks: "good (page_segs P (unat r) ps)" "good (page_segs P (unat r - P * m) rest)"
    using chained.prems(7) segs good_append by (simp_all add: P_def ps_def)
  have "\<exists>st'. prp_loop env uenv wr psz (of_nat 0) mx r uptr st =
      prp_loop env uenv wr psz (of_nat (0 + length ps)) mx
        (of_nat (unat r - min (unat psz * length ps) (unat r)))
        (uptr + of_nat (min (unat psz * length ps) (unat r))) st' \<and>
    eff (page_segs (unat psz) (unat r) ps) uptr st st' \<and>
    list_buf st' = list_buf st"
  proof (rule run)
    show "\<forall>k<length ps. prp_entry st (of_nat (0 + k)) = Some (ps ! k)"
      using entry_at [OF chained.prems(1-4) chained.hyps(2)] chained.hyps(3) by (simp add: ps_def)
    show "ps \<noteq> [] \<longrightarrow> unat psz * (length ps - 1) < unat r"
    proof
      have "P * (m - 1) \<le> P * m" by (rule mult_le_mono2) simp
      with big have "P * (m - 1) < unat r" by linarith
      then show "unat psz * (length ps - 1) < unat r" by (simp only: len P_def)
    qed
  qed (use chained.prems(1,2,8) oks(1) mx len in \<open>simp_all add: P_def\<close>)
  then obtain st1 where st1: "prp_loop env uenv wr psz 0 mx r uptr st =
      prp_loop env uenv wr psz (of_nat m) mx (of_nat (unat r - P * m)) (uptr + of_nat (P * m)) st1"
    "eff (page_segs P (unat r) ps) uptr st st1" "list_buf st1 = list_buf st"
    using big by (auto simp: len P_def min_def)
  define r1 where "r1 = (of_nat (unat r - P * m) :: u32)"
  have "unat r < 2 ^ 32" by (rule order_less_le_trans [OF unsigned_less]) simp
  then have r1: "unat r1 = unat r - P * m" by (simp add: r1_def unsigned_of_nat take_bit_nat_eq_self)
  have kept: "\<forall>a\<in>L. gmem (world st1) a = gmem (world st) a" using eff_keeps [OF oks(1) st1(2)] by blast
  then have g1: "\<forall>a\<in>L. gmem (world st1) a = g a" using chained.prems(4) by simp
  have ok1: "buf_ok psz st1" using eff_bufs [OF st1(2) chained.prems(1)] .
  have holds1: "holds_list env psz cur st1"
    using holds_list_cong [OF chained.prems(3) st1(3) chained.hyps(2) kept] .
  have entry: "prp_entry st1 (of_nat m) = Some (list_entry env g psz cur m)"
    using entry_at [OF ok1 chained.prems(2) holds1 g1 chained.hyps(2)] chained.hyps(3) by simp
  have "mx \<noteq> 0" using mx by auto
  then have "unat (mx - 1) = m" using mx by (simp add: unat_minus_one)
  from arg_cong [OF this, of "of_nat :: nat \<Rightarrow> u32"] have idx: "of_nat m = mx - 1" by simp
  have "r1 > psz" using big r1 by (simp add: word_less_nat_alt P_def)
  from prp_step_chain [OF ok1 chained.prems(2) entry idx this prp_pages_dma [OF chained.hyps(5)]]
  obtain st2 where st2: "prp_loop env uenv wr psz (of_nat m) mx r1 (uptr + of_nat (P * m)) st1 =
      prp_loop env uenv wr psz 0 (prp_list_bytes psz (list_entry env g psz cur m) div 8) r1
        (uptr + of_nat (P * m)) st2"
    "world st2 = world st1" "buf_ok psz st2" "holds_list env psz (list_entry env g psz cur m) st2"
    by blast
  have "\<exists>st'. prp_loop env uenv wr psz 0 (prp_list_bytes psz (list_entry env g psz cur m) div 8) r1
        (uptr + of_nat (P * m)) st2 = Some (Returned (Inr ()) st') \<and>
    eff (page_segs (unat psz) (unat r1) rest) (uptr + of_nat (P * m)) st2 st'"
  proof (rule chained.IH [OF st2(3) chained.prems(2) st2(4)])
    show "\<forall>a\<in>L. gmem (world st2) a = g a" using st2(2) g1 by simp
    show "unat psz * (n - m - 1) < unat r1" "unat r1 \<le> unat psz * (n - m)"
    proof -
      have "P * (n - m) = P * n - P * m" "P * (n - m - 1) = P * (n - 1) - P * m"
        using chained.hyps(4) by (simp_all add: diff_mult_distrib2 [symmetric] diff_commute)
      moreover have "P * m \<le> P * (n - 1)" using chained.hyps(4) by (intro mult_le_mono2) simp
      moreover have "P * (n - 1) < unat r" "unat r \<le> P * n"
        using chained.prems(5,6) by (simp_all only: P_def)
      ultimately have "P * (n - m - 1) < unat r1 \<and> unat r1 \<le> P * (n - m)"
        unfolding r1 by linarith
      then show "unat psz * (n - m - 1) < unat r1" "unat r1 \<le> unat psz * (n - m)"
        by (simp_all only: P_def)
    qed
    show "good (page_segs (unat psz) (unat r1) rest)" using oks(2) by (simp add: r1 P_def)
    show "usr (uptr + of_nat (P * m)) (unat r1)"
      using usr_sub [OF chained.prems(8), of "P * m" "unat r1"] big by (simp add: r1)
  qed
  then obtain st3 where st3: "prp_loop env uenv wr psz 0 (prp_list_bytes psz (list_entry env g psz cur m) div 8) r1
        (uptr + of_nat (P * m)) st2 = Some (Returned (Inr ()) st3)"
    "eff (page_segs P (unat r - P * m) rest) (uptr + of_nat (P * m)) st2 st3"
    unfolding r1 P_def by blast
  have l1: "seg_len (page_segs P (unat r) ps) = P * m"
    using big len by (simp add: seg_len_pages min_def)
  have "eff (page_segs P (unat r) (ps @ rest)) uptr st st3"
    unfolding segs
  proof (rule eff_trans [OF st1(2)])
    show "eff (page_segs P (unat r - P * m) rest) (uptr + of_nat (seg_len (page_segs P (unat r) ps))) st1 st3"
      unfolding l1 by (rule eff_world [OF st3(2) st2(2) ok1 st2(3)])
    have "seg_len (page_segs P (unat r - P * m) rest) \<le> unat r - P * m" by (simp add: seg_len_pages)
    moreover have "unat r < 2 ^ 64" using \<open>unat r < 2 ^ 32\<close> by simp
    ultimately show "seg_len (page_segs P (unat r) ps) + seg_len (page_segs P (unat r - P * m) rest) \<le> 2 ^ 64"
      unfolding l1 using big by linarith
  qed
  with st1(1) st2(1) st3(1) show ?case
    unfolding P_def ps_def mx_def r1_def by auto
qed

text \<open>The part of a request after its first chunk, and all of it.\<close>

lemma transfer_first:
  assumes "buf_ok (prp_page_size req) st" "0 < unat (prp_page_size req)"
    and "good [(prp1 req, first_len req)]" "usr (prp_user req) (first_len req)"
  shows "\<exists>st' r. prp_transfer env uenv wr req st =
      (if r = 0 then Some (Returned (Inr ()) st')
       else prp_second env uenv wr req r (prp_user req + of_nat (first_len req)) st') \<and>
    unat r = unat (prp_length req) - first_len req \<and> list_buf st' = list_buf st \<and>
    eff [(prp1 req, first_len req)] (prp_user req) st st'"
proof -
  define chunk where "chunk = (if prp_page_size req - ucast (prp1 req AND ucast (prp_page_size req - 1)) > prp_length req
      then prp_length req else prp_page_size req - ucast (prp1 req AND ucast (prp_page_size req - 1)))"
  note c = first_chunk [OF assms(2) chunk_def]
  obtain st' where "prp_xfer env uenv wr st (prp1 req) (prp_user req) chunk = Some (Inr (), st')"
    "eff [(prp1 req, first_len req)] (prp_user req) st st'"
    "list_buf st' = list_buf st"
    using xfer [OF assms(1) _ c(2), of "prp1 req" "prp_user req"] assms(3,4) c(1) by auto
  then show ?thesis
    using c(4,5)
    by (intro exI [of _ st'] exI [of _ "prp_length req - chunk"])
      (simp add: prp_transfer_def Let_def chunk_def [symmetric])
qed

lemma transfer_all:
  assumes plan: "prp_plan env L (gmem (world st)) req segs" and buf: "buf_ok (prp_page_size req) st"
    and pos: "0 < unat (prp_page_size req)" and segs: "good segs" and usr: "usr (prp_user req) (unat (prp_length req))"
  shows "\<exists>st'. prp_transfer env uenv wr req st = Some (Returned (Inr ()) st') \<and> eff segs (prp_user req) st st'"
proof -
  let ?p = "prp_page_size req" and ?u = "prp_user req + of_nat (first_len req)"
  have fl: "first_len req \<le> unat (prp_length req)" by (simp add: first_len_def)
  obtain tl where tl: "segs = (prp1 req, first_len req) # tl" using plan by (cases rule: prp_plan.cases) auto
  have goods: "good [(prp1 req, first_len req)]" "good tl" using segs good_cons unfolding tl by blast+
  have usr0: "usr (prp_user req) (first_len req)" using usr_sub [OF usr, of 0] fl by simp
  obtain st1 r where st1: "prp_transfer env uenv wr req st =
      (if r = 0 then Some (Returned (Inr ()) st1) else prp_second env uenv wr req r ?u st1)"
    "unat r = unat (prp_length req) - first_len req" "list_buf st1 = list_buf st"
    "eff [(prp1 req, first_len req)] (prp_user req) st st1"
    using transfer_first [OF buf pos goods(1) usr0] by blast
  have ok1: "buf_ok ?p st1" using eff_bufs [OF st1(4) buf] .
  have usr1: "usr ?u (unat r)" using usr_sub [OF usr] st1(2) fl by simp
  have small: "unat r < 2 ^ 32" "first_len req < 2 ^ 32"
  proof -
    show "unat r < 2 ^ 32" by (rule order_less_le_trans [OF unsigned_less]) simp
    show "first_len req < 2 ^ 32"
      using fl by (rule le_less_trans) (rule order_less_le_trans [OF unsigned_less], simp)
  qed
  have join: "eff segs (prp_user req) st st'" if "eff tl ?u st1 st'" "seg_len tl \<le> unat r" for st'
    using eff_trans [OF st1(4), of tl st'] that small unfolding tl by simp
  from plan show ?thesis
  proof cases
    case one
    then have "r = 0" using st1(2) by (simp add: unat_eq_0)
    with st1 one show ?thesis by auto
  next
    case two
    then have r: "r \<noteq> 0" "r \<le> ?p" "tl = [(prp2 req, unat r)]" using st1(2) tl by (auto simp: word_le_nat_alt)
    then obtain st2 where st2: "prp_xfer env uenv wr st1 (prp2 req) ?u r = Some (Inr (), st2)" "eff tl ?u st1 st2"
      using xfer [OF ok1 _ r(2) usr1] goods(2) by blast
    have "prp_transfer env uenv wr req st = Some (Returned (Inr ()) st2)"
      using st1(1) r(1,2) st2(1) by (simp add: prp_second_def)
    with join [OF st2(2)] r(3) show ?thesis by simp
  next
    case (many n ps)
    then have r: "r \<noteq> 0" "\<not> r \<le> ?p" and tl': "tl = page_segs (unat ?p) (unat r) ps"
      using st1(2) tl by (auto simp: word_le_nat_alt)
    obtain st2 where st2: "prp_read_list env st1 (prp2 req) (prp_list_bytes ?p (prp2 req)) = Some (Inr (), st2)"
      "world st2 = world st1" "buf_ok ?p st2" "holds_list env ?p (prp2 req) st2"
      using prp_read_list_ok [OF ok1 pos prp_pages_dma [OF many(5)]] by blast
    have agree: "\<forall>a\<in>L. gmem (world st2) a = gmem (world st) a"
      using eff_keeps [OF goods(1) st1(4)] st2(2) by simp
    have "\<exists>st'. prp_loop env uenv wr ?p 0 (prp_list_bytes ?p (prp2 req) div 8) r ?u st2 = Some (Returned (Inr ()) st') \<and>
      eff (page_segs (unat ?p) (unat r) ps) ?u st2 st'"
      using many goods(2) tl' st1(2) usr1 by (intro list_run [OF many(5) st2(3) pos st2(4) agree]) simp_all
    then obtain st3 where st3: "prp_loop env uenv wr ?p 0 (prp_list_bytes ?p (prp2 req) div 8) r ?u st2 =
        Some (Returned (Inr ()) st3)" "eff tl ?u st2 st3" unfolding tl' by blast
    have "prp_transfer env uenv wr req st = Some (Returned (Inr ()) st3)"
      using st1(1) r st2(1) st3(1) by (simp add: prp_second_def Let_def)
    with join [OF eff_world [OF st3(2) st2(2) ok1 st2(3)]] tl' show ?thesis by (simp add: seg_len_pages)
  qed
qed

end

subsection \<open>The two directions\<close>

text \<open>What a stretch of reads leaves: the data at the user address, everything else alone.\<close>

definition moved :: "u8 list \<Rightarrow> u64 \<Rightarrow> prp_state \<Rightarrow> prp_state \<Rightarrow> bool" where
  "moved data uptr st st' \<longleftrightarrow>
     world st' = (world st)\<lparr>umem := mem_put (umem (world st)) uptr data\<rparr> \<and>
     length (data_buf st') = length (data_buf st) \<and> length (list_buf st') = length (list_buf st)"

definition moved_in :: "dma_env \<Rightarrow> (u64 \<times> nat) list \<Rightarrow> u64 \<Rightarrow> prp_state \<Rightarrow> prp_state \<Rightarrow> bool" where
  "moved_in env segs uptr st st' \<longleftrightarrow> moved (seg_data env (gmem (world st)) segs) uptr st st'"

text \<open>And a stretch of writes: the user's bytes at the addresses of the segments, one by one.\<close>

definition moved_out :: "dma_env \<Rightarrow> (u64 \<times> nat) list \<Rightarrow> u64 \<Rightarrow> prp_state \<Rightarrow> prp_state \<Rightarrow> bool" where
  "moved_out env segs uptr st st' \<longleftrightarrow>
     world st' = (world st)\<lparr>gmem := put_bytes (gmem (world st))
       (zip (seg_addrs env segs) (mem_get (umem (world st)) uptr (seg_len segs)))\<rparr> \<and>
     length (data_buf st') = length (data_buf st) \<and> length (list_buf st') = length (list_buf st)"

definition clear_of :: "dma_env \<Rightarrow> u64 set \<Rightarrow> (u64 \<times> nat) list \<Rightarrow> bool" where
  "clear_of env L segs \<longleftrightarrow> segs_ok env segs \<and> set (seg_addrs env segs) \<inter> L = {}"

lemma xfer_length: "buf_ok psz st \<Longrightarrow> chunk \<le> psz \<Longrightarrow> length (take (unat chunk) (data_buf st)) = unat chunk"
  by (simp add: buf_ok_def word_le_nat_alt)

lemma mem_get_append: "mem_get f p (a + b) = mem_get f p a @ mem_get f (p + of_nat a) b"
  by (simp add: mem_get_range addr_range_add)

interpretation rd: prp_direction env uenv False UNIV "user_range (can_write_user uenv)" "segs_ok env" "moved_in env"
  for env uenv
proof unfold_locales
  fix psz st iova uptr and chunk :: u32
  assume h: "buf_ok psz st" "segs_ok env [(iova, unat chunk)]" "chunk \<le> psz" "user_range (can_write_user uenv) uptr (unat chunk)"
  from h user_range_whole [OF h(4)]
    copy_from_guest_ok [of env iova "take (unat chunk) (data_buf st)" uenv uptr "world st", unfolded xfer_length [OF h(1,3)]]
  have "copy_from_guest env uenv (world st) iova uptr (take (unat chunk) (data_buf st)) =
    Some (Inr (), (world st)\<lparr>umem := mem_put (umem (world st)) uptr
        (map (gmem (world st)) (dma_addrs env iova (unat chunk)))\<rparr>,
      map (gmem (world st)) (dma_addrs env iova (unat chunk)))"
    by simp
  moreover have "unat chunk \<le> unat psz" using h(3) by (simp add: word_le_nat_alt)
  ultimately show "\<exists>st'. prp_xfer env uenv False st iova uptr chunk = Some (Inr (), st') \<and>
      moved_in env [(iova, unat chunk)] uptr st st' \<and> list_buf st' = list_buf st"
    using h(1) by (simp add: prp_xfer_def Let_def moved_in_def moved_def buf_ok_def)
next
  fix xs ys p st st' st''
  assume "moved_in env xs p st st'" "moved_in env ys (p + of_nat (seg_len xs)) st' st''" "seg_len xs + seg_len ys \<le> 2 ^ 64"
  then show "moved_in env (xs @ ys) p st st''"
    using mem_put_append [of "seg_data env (gmem (world st)) xs" "seg_data env (gmem (world st)) ys" "umem (world st)" p]
    by (simp add: moved_in_def moved_def)
qed (auto simp: moved_in_def moved_def buf_ok_def intro: user_range_sub)

interpretation wr: prp_direction env uenv True L "user_range (can_read_user uenv)" "clear_of env L" "moved_out env"
  for env uenv L
proof unfold_locales
  fix psz st iova uptr and chunk :: u32
  assume h: "buf_ok psz st" "clear_of env L [(iova, unat chunk)]" "chunk \<le> psz" "user_range (can_read_user uenv) uptr (unat chunk)"
  from h user_range_whole [OF h(4)]
    copy_to_guest_ok [of env iova "take (unat chunk) (data_buf st)" uenv uptr "world st", unfolded xfer_length [OF h(1,3)]]
  have "copy_to_guest env uenv (world st) iova uptr (take (unat chunk) (data_buf st)) =
    Some (Inr (), (world st)\<lparr>gmem := put_bytes (gmem (world st)) (zip (dma_addrs env iova (unat chunk))
      (mem_get (umem (world st)) uptr (unat chunk)))\<rparr>, mem_get (umem (world st)) uptr (unat chunk))"
    by (simp add: clear_of_def)
  moreover have "unat chunk \<le> unat psz" using h(3) by (simp add: word_le_nat_alt)
  ultimately show "\<exists>st'. prp_xfer env uenv True st iova uptr chunk = Some (Inr (), st') \<and>
      moved_out env [(iova, unat chunk)] uptr st st' \<and> list_buf st' = list_buf st"
    using h(1) by (simp add: prp_xfer_def Let_def moved_out_def buf_ok_def)
next
  fix segs p st st' and a :: u64
  assume "clear_of env L segs" "moved_out env segs p st st'" "a \<in> L"
  then show "gmem (world st') a = gmem (world st) a"
    by (auto simp: moved_out_def clear_of_def intro!: put_bytes_other dest: set_zip_leftD)
qed (auto simp: moved_out_def clear_of_def buf_ok_def mem_get_append intro: user_range_sub)

lemma indirect_start:
  assumes "kmalloc_ok uenv" "kmalloc uenv 0 (unat (prp_page_size req)) = Some lb"
    and "kmalloc uenv 1 (unat (prp_page_size req)) = Some db"
    and "prp_length req \<noteq> 0" "\<not> page_size_bad (prp_page_size req)" "has_func (prp_func req)"
  shows "pciem_ioctl_dma_indirect env uenv (Inr ()) has_func (Some req) w =
      free_bufs (prp_transfer env uenv (prp_flags req AND PCIEM_DMA_FLAG_WRITE \<noteq> 0) req
        \<lparr>world = kalloc (kalloc w), data_buf = db, list_buf = lb\<rparr>)"
    and "buf_ok (prp_page_size req) \<lparr>world = kalloc (kalloc w), data_buf = db, list_buf = lb\<rparr>"
  using assms by (auto simp: pciem_ioctl_dma_indirect_def Let_def buf_ok_def kmalloc_ok_def)

subsection \<open>Properties\<close>

text \<open>
  C15. An indirect read delivers what the region page list describes. For every request whose pages
  are mapped (one page, two pages, a list, or a chain of lists of any length), the ioctl returns 0,
  and the caller's buffer holds the bytes of the segments in order: the rest of the first page, the
  following pages in full and the last one as far as needed; guest memory is unchanged and both
  kernel buffers are freed.
\<close>

theorem indirect_read_correct:
  assumes "prp_plan env UNIV (gmem w) req segs" and "segs_ok env segs"
    and "user_range (can_write_user uenv) (prp_user req) (unat (prp_length req))"
    and "prp_length req \<noteq> 0" and "\<not> page_size_bad (prp_page_size req)" and "has_func (prp_func req)"
    and "prp_flags req AND PCIEM_DMA_FLAG_WRITE = 0" and "kmalloc_ok uenv"
    and "kmalloc uenv 0 (unat (prp_page_size req)) \<noteq> None"
    and "kmalloc uenv 1 (unat (prp_page_size req)) \<noteq> None"
  shows "\<exists>st. pciem_ioctl_dma_indirect env uenv (Inr ()) has_func (Some req) w = Some (Returned (Inr ()) st) \<and>
    world st = w\<lparr>umem := mem_put (umem w) (prp_user req) (seg_data env (gmem w) segs)\<rparr>"
proof -
  obtain lb db where b: "kmalloc uenv 0 (unat (prp_page_size req)) = Some lb"
    "kmalloc uenv 1 (unat (prp_page_size req)) = Some db" using assms(9,10) by auto
  define st0 where "st0 = \<lparr>world = kalloc (kalloc w), data_buf = db, list_buf = lb\<rparr>"
  have start: "pciem_ioctl_dma_indirect env uenv (Inr ()) has_func (Some req) w =
      free_bufs (prp_transfer env uenv False req st0)" "buf_ok (prp_page_size req) st0"
    using indirect_start(1) [where w = w and env = env and has_func = has_func, OF assms(8) b assms(4-6)]
      indirect_start(2) [where w = w and has_func = has_func, OF assms(8) b assms(4-6)] assms(7)
    by (simp_all add: st0_def)
  have plan: "prp_plan env UNIV (gmem (world st0)) req segs" using assms(1) by (simp add: st0_def kalloc_def)
  obtain st where "prp_transfer env uenv False req st0 = Some (Returned (Inr ()) st)"
    "moved (seg_data env (gmem (world st0)) segs) (prp_user req) st0 st"
    using rd.transfer_all [OF plan start(2) page_size_pos [OF assms(5)] assms(2,3)] unfolding moved_in_def by blast
  then show ?thesis
    using start(1)
    by (simp add: free_bufs_def moved_def st0_def kalloc_def kfree_def)
qed

text \<open>A request over three pages: two in full and a half, the list at 0x3000 naming the last two.\<close>

definition req0 :: prp_req where
  "req0 = \<lparr>prp1 = 0x1000, prp2 = 0x3FF0, prp_user = 0x100000, prp_length = 0x2800, prp_page_size = 4096,
           prp_flags = 1, prp_func = 0\<rparr>"

definition mem0 :: "u64 \<Rightarrow> u8" where
  "mem0 a = (if a = 0x3FF1 then 0x50 else if a = 0x3FF9 then 0x70 else 0)"

lemma req0_fields:
  "prp1 req0 = 0x1000" "prp2 req0 = 0x3FF0" "prp_length req0 = 0x2800" "prp_page_size req0 = 4096"
  by (simp_all add: req0_def)

lemma req0_list: "prp_list_bytes 4096 0x3FF0 = 16"
  by (simp add: prp_list_bytes_def)

lemma ram_addrs: "dma_addrs ram_env a n = map (\<lambda>k. a + of_nat k) [0..<n]"
  by (simp add: dma_addrs_def phys_of_def ram_env_def translate_iova_once_def down_minus)

lemma req0_entries:
  "list_entry ram_env mem0 4096 0x3FF0 0 = 0x5000" "list_entry ram_env mem0 4096 0x3FF0 1 = 0x7000"
  by (simp_all add: list_entry_def req0_list ram_addrs upt_rec mem0_def of_le_def)

lemma req0_plan:
  "prp_plan ram_env UNIV mem0 req0 [(0x1000, 4096), (0x5000, 4096), (0x7000, 2048)]"
    "segs_ok ram_env [(0x1000, 4096), (0x5000, 4096), (0x7000, 2048)]"
proof -
  have first: "first_len req0 = 4096" by (simp add: first_len_def prp_list_bytes_def req0_def)
  have "prp_pages ram_env UNIV mem0 4096 0x3FF0 2 (map (list_entry ram_env mem0 4096 0x3FF0) [0..<2])"
    by (rule prp_pages.last_list) (simp_all add: req0_list ram_env_ok(1))
  moreover have "[0..<2] = [0, 1]" by (simp add: upt_rec)
  ultimately have pages: "prp_pages ram_env UNIV mem0 4096 0x3FF0 2 [0x5000, 0x7000]"
    using req0_entries by simp
  have "prp_plan ram_env UNIV mem0 req0 ((prp1 req0, first_len req0) #
      page_segs (unat (prp_page_size req0)) (unat (prp_length req0) - first_len req0) [0x5000, 0x7000])"
    by (rule prp_plan.many [where n = 2]) (simp_all add: first pages req0_fields)
  then show "prp_plan ram_env UNIV mem0 req0 [(0x1000, 4096), (0x5000, 4096), (0x7000, 2048)]"
    by (simp add: first req0_fields)
  show "segs_ok ram_env [(0x1000, 4096), (0x5000, 4096), (0x7000, 2048)]"
    by (simp add: ram_env_ok(1))
qed

theorem indirect_read_correct_witness:
  "\<exists>st. pciem_ioctl_dma_indirect ram_env uenv0 (Inr ()) (\<lambda>f. f = 0) (Some req0) (world0\<lparr>gmem := mem0\<rparr>) =
     Some (Returned (Inr ()) st) \<and> kbufs (world st) = 0"
  using indirect_read_correct [of ram_env "world0\<lparr>gmem := mem0\<rparr>" req0
      "[(0x1000, 4096), (0x5000, 4096), (0x7000, 2048)]" uenv0 "\<lambda>f. f = 0"] req0_plan uenv0_ok
  by (force simp: req0_def user_range_def uenv0_def page_size_bad_def PCIEM_DMA_FLAG_WRITE_def world0_def)

text \<open>
  An indirect write stores the caller's buffer where the region page list says: for every request
  whose pages are mapped, at distinct addresses away from the lists, the ioctl returns 0, reading the
  segments in order gives exactly the bytes of the buffer, every other byte of guest memory and the
  caller's memory are unchanged, and both kernel buffers are freed.
\<close>

theorem indirect_write_correct:
  assumes "prp_plan env L (gmem w) req segs" and "segs_ok env segs" and "set (seg_addrs env segs) \<inter> L = {}"
    and "distinct (seg_addrs env segs)" and "user_range (can_read_user uenv) (prp_user req) (unat (prp_length req))"
    and "prp_length req \<noteq> 0" and "\<not> page_size_bad (prp_page_size req)" and "has_func (prp_func req)"
    and "prp_flags req AND PCIEM_DMA_FLAG_WRITE \<noteq> 0" and "kmalloc_ok uenv"
    and "kmalloc uenv 0 (unat (prp_page_size req)) \<noteq> None"
    and "kmalloc uenv 1 (unat (prp_page_size req)) \<noteq> None"
  shows "\<exists>st. pciem_ioctl_dma_indirect env uenv (Inr ()) has_func (Some req) w = Some (Returned (Inr ()) st) \<and>
    seg_data env (gmem (world st)) segs = mem_get (umem w) (prp_user req) (seg_len segs) \<and>
    (\<forall>a. a \<notin> set (seg_addrs env segs) \<longrightarrow> gmem (world st) a = gmem w a) \<and>
    umem (world st) = umem w \<and> kbufs (world st) = kbufs w"
proof -
  obtain lb db where b: "kmalloc uenv 0 (unat (prp_page_size req)) = Some lb"
    "kmalloc uenv 1 (unat (prp_page_size req)) = Some db" using assms(11,12) by auto
  define st0 where "st0 = \<lparr>world = kalloc (kalloc w), data_buf = db, list_buf = lb\<rparr>"
  have start: "pciem_ioctl_dma_indirect env uenv (Inr ()) has_func (Some req) w =
      free_bufs (prp_transfer env uenv True req st0)" "buf_ok (prp_page_size req) st0"
    using indirect_start(1) [where w = w and env = env and has_func = has_func, OF assms(10) b assms(6-8)]
      indirect_start(2) [where w = w and has_func = has_func, OF assms(10) b assms(6-8)] assms(9)
    by (simp_all add: st0_def)
  have plan: "prp_plan env L (gmem (world st0)) req segs" using assms(1) by (simp add: st0_def kalloc_def)
  have clear: "clear_of env L segs" using assms(2,3) by (simp add: clear_of_def)
  obtain st where st: "prp_transfer env uenv True req st0 = Some (Returned (Inr ()) st)" "moved_out env segs (prp_user req) st0 st"
    using wr.transfer_all [OF plan start(2) page_size_pos [OF assms(7)] clear assms(5)] by blast
  let ?data = "mem_get (umem w) (prp_user req) (seg_len segs)"
  let ?g = "put_bytes (gmem w) (zip (seg_addrs env segs) ?data)"
  have "pciem_ioctl_dma_indirect env uenv (Inr ()) has_func (Some req) w =
      Some (Returned (Inr ()) (st\<lparr>world := kfree (kfree (world st))\<rparr>))"
    using start(1) st(1) by (simp add: free_bufs_def)
  moreover have "kfree (kfree (world st)) = w\<lparr>gmem := ?g\<rparr>"
    using st(2) by (simp add: moved_out_def st0_def kalloc_def kfree_def)
  moreover have "map ?g (seg_addrs env segs) = ?data"
    using assms(4) by (intro put_bytes_get) simp_all
  moreover have "?g a = gmem w a" if "a \<notin> set (seg_addrs env segs)" for a
    using that by (intro put_bytes_other) (auto dest: set_zip_leftD)
  ultimately show ?thesis by (simp add: seg_data_addrs)
qed

text \<open>The same three pages, written: the ranges are apart from each other and from the list.\<close>

lemma ram_range:
  assumes "unat p + n \<le> 2 ^ 64"
  shows "distinct (dma_addrs ram_env p n)" "a \<in> set (dma_addrs ram_env p n) \<Longrightarrow> unat p \<le> unat a \<and> unat a < unat p + n"
proof -
  have r: "dma_addrs ram_env p n = addr_range p n" by (simp add: ram_addrs addr_range_def)
  show "distinct (dma_addrs ram_env p n)" unfolding r using assms by (intro distinct_addr_range) simp
  assume "a \<in> set (dma_addrs ram_env p n)"
  then obtain k where k: "k < n" "a = p + of_nat k" by (auto simp: ram_addrs)
  have "unat (of_nat k :: u64) = k" using k(1) assms by (intro of_nat_small) simp
  then have "unat a = unat p + k" using k assms unat_add_small [of p "of_nat k"] by simp
  with k(1) show "unat p \<le> unat a \<and> unat a < unat p + n" by simp
qed

theorem indirect_write_correct_witness:
  "\<exists>st. pciem_ioctl_dma_indirect ram_env uenv0 (Inr ()) (\<lambda>f. f = 0) (Some (req0\<lparr>prp_flags := 2\<rparr>)) (world0\<lparr>gmem := mem0\<rparr>) =
     Some (Returned (Inr ()) st) \<and>
     seg_data ram_env (gmem (world st)) [(0x1000, 4096), (0x5000, 4096), (0x7000, 2048)] = mem_get (umem world0) 0x100000 0x2800"
proof -
  define L where "L = set (dma_addrs ram_env 0x3FF0 16)"
  let ?segs = "[(0x1000, 4096), (0x5000, 4096), (0x7000, 2048)] :: (u64 \<times> nat) list"
  let ?req = "req0\<lparr>prp_flags := 2\<rparr>"
  have R: "distinct (dma_addrs ram_env 0x1000 4096)" "distinct (dma_addrs ram_env 0x5000 4096)"
    "distinct (dma_addrs ram_env 0x7000 2048)"
    "a \<in> set (dma_addrs ram_env 0x1000 4096) \<Longrightarrow> 0x1000 \<le> unat a \<and> unat a < 0x2000"
    "a \<in> set (dma_addrs ram_env 0x5000 4096) \<Longrightarrow> 0x5000 \<le> unat a \<and> unat a < 0x6000"
    "a \<in> set (dma_addrs ram_env 0x7000 2048) \<Longrightarrow> 0x7000 \<le> unat a \<and> unat a < 0x7800"
    "a \<in> L \<Longrightarrow> 0x3FF0 \<le> unat a \<and> unat a < 0x4000" for a
    using ram_range [of "0x1000" 4096] ram_range [of "0x5000" 4096] ram_range [of "0x7000" 2048]
      ram_range(2) [of "0x3FF0" 16] by (simp_all add: L_def)
  have dis: "set (dma_addrs ram_env 0x1000 4096) \<inter> set (dma_addrs ram_env 0x5000 4096) = {}"
    "set (dma_addrs ram_env 0x1000 4096) \<inter> set (dma_addrs ram_env 0x7000 2048) = {}"
    "set (dma_addrs ram_env 0x5000 4096) \<inter> set (dma_addrs ram_env 0x7000 2048) = {}"
    using R(4-6) by (fastforce simp: disjoint_iff)+
  have addrs: "seg_addrs ram_env ?segs = dma_addrs ram_env 0x1000 4096 @ dma_addrs ram_env 0x5000 4096 @ dma_addrs ram_env 0x7000 2048"
    by simp
  have clear: "set (seg_addrs ram_env ?segs) \<inter> L = {}"
    unfolding addrs set_append using R(4-7) by (fastforce simp: disjoint_iff)
  have dist: "distinct (seg_addrs ram_env ?segs)"
    unfolding addrs using R(1-3) dis by (simp add: Int_Un_distrib)
  have first: "first_len ?req = 4096" by (simp add: first_len_def prp_list_bytes_def req0_def)
  have "prp_pages ram_env L mem0 4096 0x3FF0 2 (map (list_entry ram_env mem0 4096 0x3FF0) [0..<2])"
    by (rule prp_pages.last_list) (simp_all add: req0_list ram_env_ok(1) L_def)
  moreover have "[0..<2] = [0, 1]" by (simp add: upt_rec)
  ultimately have pages: "prp_pages ram_env L mem0 4096 0x3FF0 2 [0x5000, 0x7000]"
    using req0_entries by simp
  have "prp_plan ram_env L mem0 ?req ((prp1 ?req, first_len ?req) #
      page_segs (unat (prp_page_size ?req)) (unat (prp_length ?req) - first_len ?req) [0x5000, 0x7000])"
    by (rule prp_plan.many [where n = 2]) (simp_all add: first pages req0_fields)
  then have plan: "prp_plan ram_env L (gmem (world0\<lparr>gmem := mem0\<rparr>)) ?req ?segs"
    by (simp add: first req0_fields)
  have "\<exists>st. pciem_ioctl_dma_indirect ram_env uenv0 (Inr ()) (\<lambda>f. f = 0) (Some ?req) (world0\<lparr>gmem := mem0\<rparr>) =
     Some (Returned (Inr ()) st) \<and>
    seg_data ram_env (gmem (world st)) ?segs = mem_get (umem (world0\<lparr>gmem := mem0\<rparr>)) (prp_user ?req) (seg_len ?segs) \<and>
    (\<forall>a. a \<notin> set (seg_addrs ram_env ?segs) \<longrightarrow> gmem (world st) a = gmem (world0\<lparr>gmem := mem0\<rparr>) a) \<and>
    umem (world st) = umem (world0\<lparr>gmem := mem0\<rparr>) \<and> kbufs (world st) = kbufs (world0\<lparr>gmem := mem0\<rparr>)"
    by (rule indirect_write_correct [OF plan req0_plan(2) clear dist])
      (simp_all add: uenv0_ok [unfolded uenv0_def] uenv0_def req0_def user_range_def page_size_bad_def PCIEM_DMA_FLAG_WRITE_def)
  then show ?thesis by (auto simp: req0_def)
qed

subsection \<open>Lists that never end\<close>

text \<open>
  The loop at a list whose last entry (here its only one) points back to the list: no result is
  possible, since a result would come from the same call one round later.
\<close>

definition at_self_chain :: "dma_env \<Rightarrow> u32 \<Rightarrow> u64 \<Rightarrow> prp_state \<Rightarrow> bool" where
  "at_self_chain env psz p st \<longleftrightarrow> buf_ok psz st \<and> 0 < unat psz \<and> prp_list_bytes psz p = 8 \<and>
     dma_ok env p 8 \<and> list_entry env (gmem (world st)) psz p 0 = p \<and> holds_list env psz p st"

lemma self_chain_entry: "at_self_chain env psz p st \<Longrightarrow> prp_entry st 0 = Some p"
  using holds_entry [of psz st env p 0] by (simp add: at_self_chain_def)

lemma self_chain_step:
  assumes "at_self_chain env psz p st"
  shows "\<exists>st'. prp_read_list env st p (prp_list_bytes psz p) = Some (Inr (), st') \<and> at_self_chain env psz p st'"
proof -
  have "buf_ok psz st" "0 < unat psz" "dma_ok env p (unat (prp_list_bytes psz p))"
    using assms by (simp_all add: at_self_chain_def)
  from prp_read_list_ok [OF this] obtain st' where st':
    "prp_read_list env st p (prp_list_bytes psz p) = Some (Inr (), st')"
    "world st' = world st" "buf_ok psz st'" "holds_list env psz p st'" by blast
  with assms have "at_self_chain env psz p st'" by (simp add: at_self_chain_def)
  with st'(1) show ?thesis by blast
qed

lemma self_chain_no_result:
  assumes "prp_loop env uenv wr psz i mx r uptr st = Some y"
  shows "\<not> (i = 0 \<and> mx = 1 \<and> psz < r \<and> at_self_chain env psz p st)"
proof (rule prp_loop.raw_induct [where P = "\<lambda>env uenv wr psz i mx r uptr st y.
    \<not> (i = 0 \<and> mx = 1 \<and> psz < r \<and> at_self_chain env psz p st)", OF _ assms], rule notI)
  fix loop and env :: dma_env and uenv :: user_env and wr psz i mx r uptr st y
  assume IH: "\<And>env uenv wr psz i mx r uptr st y. loop env uenv wr psz i mx r uptr st = Some y \<Longrightarrow>
      \<not> (i = 0 \<and> mx = 1 \<and> psz < r \<and> at_self_chain env psz p st)"
    and body: "(if r = 0 then Some (Returned (Inr ()) st)
      else (case prp_entry st i of
        None \<Rightarrow> Some Overread
      | Some prp \<Rightarrow>
          if i = mx - 1 \<and> r > psz then
            (case prp_read_list env st prp (prp_list_bytes psz prp) of
               None \<Rightarrow> None
             | Some q \<Rightarrow>
                 (case fst q of
                    Inl e \<Rightarrow> Some (Returned (Inl e) (snd q))
                  | Inr _ \<Rightarrow> loop env uenv wr psz 0 (prp_list_bytes psz prp div 8) r uptr (snd q)))
          else
            (let chunk = (if r < psz then r else psz) in
             case prp_xfer env uenv wr st prp uptr chunk of
               None \<Rightarrow> None
             | Some q \<Rightarrow>
                 (case fst q of
                    Inl e \<Rightarrow> Some (Returned (Inl e) (snd q))
                  | Inr _ \<Rightarrow> loop env uenv wr psz (i + 1) mx (r - chunk) (uptr + ucast chunk) (snd q))))) = Some y"
    and h: "i = 0 \<and> mx = 1 \<and> psz < r \<and> at_self_chain env psz p st"
  have "r \<noteq> 0" using h by auto
  obtain st' where st': "prp_read_list env st p (prp_list_bytes psz p) = Some (Inr (), st')"
    "at_self_chain env psz p st'" using self_chain_step h by blast
  have e: "prp_entry st 0 = Some p" using h self_chain_entry by blast
  have "loop env uenv wr psz 0 (prp_list_bytes psz p div 8) r uptr st' = Some y"
    using body h \<open>r \<noteq> 0\<close> e st'(1) by simp
  moreover have "prp_list_bytes psz p div 8 = 1" using h by (simp add: at_self_chain_def)
  ultimately have "loop env uenv wr psz 0 1 r uptr st' = Some y" by simp
  from IH [OF this] h st'(2) show False by simp
qed

text \<open>The state a read request is in when its list has been read for the first time.\<close>

lemma prp_transfer_list:
  assumes "buf_ok (prp_page_size req) st" "0 < unat (prp_page_size req)" "dma_ok env (prp1 req) (first_len req)"
    and "user_range (can_write_user uenv) (prp_user req) (first_len req)"
    and "unat (prp_page_size req) < unat (prp_length req) - first_len req"
    and "dma_ok env (prp2 req) (unat (prp_list_bytes (prp_page_size req) (prp2 req)))"
  shows "\<exists>st' r. prp_transfer env uenv False req st =
      prp_loop env uenv False (prp_page_size req) 0 (prp_list_bytes (prp_page_size req) (prp2 req) div 8) r
        (prp_user req + of_nat (first_len req)) st' \<and>
    unat r = unat (prp_length req) - first_len req \<and> buf_ok (prp_page_size req) st' \<and>
    gmem (world st') = gmem (world st) \<and> holds_list env (prp_page_size req) (prp2 req) st' \<and>
    drop (unat (prp_list_bytes (prp_page_size req) (prp2 req))) (list_buf st') =
      drop (unat (prp_list_bytes (prp_page_size req) (prp2 req))) (list_buf st)"
proof -
  have first: "segs_ok env [(prp1 req, first_len req)]" using assms(3) by simp
  obtain st1 r where st1: "prp_transfer env uenv False req st =
      (if r = 0 then Some (Returned (Inr ()) st1)
       else prp_second env uenv False req r (prp_user req + of_nat (first_len req)) st1)"
    "unat r = unat (prp_length req) - first_len req" "list_buf st1 = list_buf st"
    "moved (map (gmem (world st)) (dma_addrs env (prp1 req) (first_len req))) (prp_user req) st st1"
    using rd.transfer_first [OF assms(1,2) first assms(4)] unfolding moved_in_def seg_simps append_Nil2 by blast
  have ok1: "buf_ok (prp_page_size req) st1" using st1(4) assms(1) by (simp add: moved_def buf_ok_def)
  obtain st2 where st2: "prp_read_list env st1 (prp2 req) (prp_list_bytes (prp_page_size req) (prp2 req)) = Some (Inr (), st2)"
      "world st2 = world st1" "buf_ok (prp_page_size req) st2" "holds_list env (prp_page_size req) (prp2 req) st2"
      "drop (unat (prp_list_bytes (prp_page_size req) (prp2 req))) (list_buf st2) =
        drop (unat (prp_list_bytes (prp_page_size req) (prp2 req))) (list_buf st1)"
    using prp_read_list_ok [OF ok1 assms(2,6)] by blast
  have "r \<noteq> 0" "\<not> r \<le> prp_page_size req" using assms(5) st1(2) by (auto simp: word_le_nat_alt)
  then show ?thesis
    using st1 st2 by (intro exI [of _ st2] exI [of _ r]) (simp add: prp_second_def Let_def moved_def)
qed

text \<open>
  A region page list that points to itself makes the ioctl loop for ever: with a list that
  starts eight bytes before the end of its page and whose only entry is its own address, a read of
  more than one page beyond the first never returns, whatever the rest of the request is.
\<close>

theorem self_chain_never_returns:
  assumes "prp_list_bytes (prp_page_size req) (prp2 req) = 8"
    and "list_entry env (gmem w) (prp_page_size req) (prp2 req) 0 = prp2 req"
    and "dma_ok env (prp2 req) 8" and "dma_ok env (prp1 req) (first_len req)"
    and "user_range (can_write_user uenv) (prp_user req) (first_len req)"
    and "unat (prp_page_size req) < unat (prp_length req) - first_len req"
    and "\<not> page_size_bad (prp_page_size req)" and "has_func (prp_func req)"
    and "prp_flags req AND PCIEM_DMA_FLAG_WRITE = 0" and "kmalloc_ok uenv"
    and "kmalloc uenv 0 (unat (prp_page_size req)) \<noteq> None"
    and "kmalloc uenv 1 (unat (prp_page_size req)) \<noteq> None"
  shows "pciem_ioctl_dma_indirect env uenv (Inr ()) has_func (Some req) w = None"
proof -
  obtain lb db where b: "kmalloc uenv 0 (unat (prp_page_size req)) = Some lb"
    "kmalloc uenv 1 (unat (prp_page_size req)) = Some db" using assms(11,12) by auto
  define st0 where "st0 = \<lparr>world = kalloc (kalloc w), data_buf = db, list_buf = lb\<rparr>"
  have "prp_length req \<noteq> 0" using assms(6) by auto
  then have start: "pciem_ioctl_dma_indirect env uenv (Inr ()) has_func (Some req) w =
      free_bufs (prp_transfer env uenv False req st0)" "buf_ok (prp_page_size req) st0"
    using indirect_start(1) [where w = w and env = env and has_func = has_func, OF assms(10) b _ assms(7,8)]
      indirect_start(2) [where w = w and has_func = has_func, OF assms(10) b _ assms(7,8)] assms(9)
    by (simp_all add: st0_def)
  have pos: "0 < unat (prp_page_size req)" using page_size_pos [OF assms(7)] .
  have d8: "dma_ok env (prp2 req) (unat (prp_list_bytes (prp_page_size req) (prp2 req)))"
    using assms(1,3) by simp
  obtain st r where st: "prp_transfer env uenv False req st0 =
      prp_loop env uenv False (prp_page_size req) 0 (prp_list_bytes (prp_page_size req) (prp2 req) div 8) r
        (prp_user req + of_nat (first_len req)) st"
    "unat r = unat (prp_length req) - first_len req" "buf_ok (prp_page_size req) st"
    "gmem (world st) = gmem (world st0)" "holds_list env (prp_page_size req) (prp2 req) st"
    using prp_transfer_list [OF start(2) pos assms(4,5,6) d8] by blast
  have "at_self_chain env (prp_page_size req) (prp2 req) st"
    using st assms(1-3) pos by (simp add: at_self_chain_def st0_def kalloc_def)
  moreover have "prp_page_size req < r" using st(2) assms(6) by (simp add: word_less_nat_alt)
  ultimately have "prp_loop env uenv False (prp_page_size req) 0 1 r (prp_user req + of_nat (first_len req)) st \<noteq> Some y" for y
    using self_chain_no_result by blast
  then have "prp_transfer env uenv False req st0 = None"
    using st(1) assms(1) by (simp add: not_Some_eq [symmetric] del: not_Some_eq)
  with start(1) show ?thesis by (simp add: free_bufs_def)
qed

text \<open>A list at 0x3FF8 whose entry is 0x3FF8.\<close>

definition mem1 :: "u64 \<Rightarrow> u8" where
  "mem1 a = (if a = 0x3FF8 then 0xF8 else if a = 0x3FF9 then 0x3F else 0)"

theorem self_chain_never_returns_witness:
  "pciem_ioctl_dma_indirect ram_env uenv0 (Inr ()) (\<lambda>f. f = 0) (Some (req0\<lparr>prp2 := 0x3FF8\<rparr>))
     (world0\<lparr>gmem := mem1\<rparr>) = None"
  by (rule self_chain_never_returns)
    (simp_all add: user_range_def req0_def prp_list_bytes_def list_entry_def ram_addrs upt_rec mem1_def of_le_def first_len_def
       ram_env_ok(1) uenv0_ok [unfolded uenv0_def] uenv0_def page_size_bad_def PCIEM_DMA_FLAG_WRITE_def)

subsection \<open>Lists with no room for an entry\<close>

text \<open>Entry \<open>k\<close> of a list buffer: the bytes read from the list at \<open>p\<close>, then what was there before.\<close>

definition buffer_entry :: "dma_env \<Rightarrow> (u64 \<Rightarrow> u8) \<Rightarrow> u32 \<Rightarrow> u64 \<Rightarrow> u8 list \<Rightarrow> nat \<Rightarrow> u64" where
  "buffer_entry env g psz p lb k =
     (let n = unat (prp_list_bytes psz p)
      in of_le (take 8 (drop (8 * k) (map g (dma_addrs env p n) @ drop n lb))))"

lemma page_segs_full: "P * length qs \<le> m \<Longrightarrow> page_segs P m qs = map (\<lambda>q. (q, P)) qs"
  by (induction P m qs rule: page_segs.induct) auto

lemma run_to_buffer_end:
  assumes ok: "buf_ok psz st" and pos: "0 < unat psz" and small: "unat psz \<le> 65536"
    and holds: "holds_list env psz p st" and rest: "drop (unat (prp_list_bytes psz p)) (list_buf st) =
      drop (unat (prp_list_bytes psz p)) lb"
    and dma: "\<forall>k<unat psz div 8. dma_ok env (buffer_entry env (gmem (world st)) psz p lb k) (unat psz)"
    and len: "unat psz * (unat psz div 8) < unat r" and usr: "user_range (can_write_user uenv) uptr (unat r)"
  shows "prp_loop env uenv False psz 0 0 r uptr st = Some Overread"
proof -
  define n where "n = unat psz div 8"
  define ps where "ps = map (buffer_entry env (gmem (world st)) psz p lb) [0..<n]"
  have psn: "length ps = n" by (simp add: ps_def)
  have idx: "unat (of_nat k :: u32) = k" if "k \<le> n" for k
    using that small by (simp add: n_def unsigned_of_nat take_bit_nat_eq_self)
  have lb: "length (list_buf st) = unat psz" using ok by (simp add: buf_ok_def)
  have "list_buf st = map (gmem (world st)) (dma_addrs env p (unat (prp_list_bytes psz p))) @
      drop (unat (prp_list_bytes psz p)) lb"
    using holds rest append_take_drop_id [of "unat (prp_list_bytes psz p)" "list_buf st"] by (simp add: holds_list_def)
  then have e: "\<forall>k<length ps. prp_entry st (of_nat (0 + k)) = Some (ps ! k)"
    using idx lb by (auto simp: ps_def prp_entry_def n_def buffer_entry_def Let_def)
  have last: "\<forall>k<length ps. \<not> ((of_nat (0 + k) :: u32) = 0 - 1 \<and> unat psz * (k + 1) < unat r)"
  proof (intro allI impI notI)
    fix k assume k: "k < length ps" and "(of_nat (0 + k) :: u32) = 0 - 1 \<and> unat psz * (k + 1) < unat r"
    then have "(of_nat k :: u32) = 0xFFFFFFFF" by simp
    then have "unat (of_nat k :: u32) = 4294967295" by (simp only:) simp
    then show False using idx [of k] k small by (simp add: psn n_def)
  qed
  have lt: "unat psz * length ps < unat r" using len by (simp add: psn n_def)
  then have segs: "segs_ok env (page_segs (unat psz) (unat r) ps)"
    using dma by (simp add: page_segs_full segs_ok_def ps_def n_def list_all_iff)
  have "unat psz * (length ps - 1) \<le> unat psz * length ps" by simp
  with lt have le: "ps \<noteq> [] \<longrightarrow> unat psz * (length ps - 1) < unat r" by linarith
  obtain st' where st': "prp_loop env uenv False psz (of_nat 0) 0 r uptr st =
      prp_loop env uenv False psz (of_nat (0 + length ps)) 0
        (of_nat (unat r - min (unat psz * length ps) (unat r)))
        (uptr + of_nat (min (unat psz * length ps) (unat r))) st'" "list_buf st' = list_buf st"
    using rd.run_gen [OF ok pos e last le segs usr] by blast
  define r' :: u32 where "r' = of_nat (unat r - min (unat psz * length ps) (unat r))"
  have r': "unat r' = unat r - unat psz * length ps"
  proof -
    have "unat r - unat psz * length ps < 2 ^ 32" by (rule le_less_trans [OF diff_le_self], rule order_less_le_trans [OF unsigned_less]) simp
    then show ?thesis using lt unfolding r'_def by (simp del: of_nat_diff add: unsigned_of_nat take_bit_nat_eq_self)
  qed
  have "r' \<noteq> 0"
  proof
    assume "r' = 0"
    with r' lt show False by simp
  qed
  moreover have "prp_entry st' (of_nat n) = None"
    using st'(2) lb idx [of n] by (simp add: prp_entry_def n_def)
  ultimately have "prp_loop env uenv False psz (of_nat n) 0 r' q st' = Some Overread" for q
    by (subst prp_loop.simps) simp
  then show ?thesis using st'(1) by (simp add: r'_def psn)
qed

text \<open>
  A region page list that starts in the last seven bytes of its page has no whole entry; the
  number of entries is then 0 and the index of the chaining entry, one less, is \<open>0xFFFFFFFF\<close>. A long
  enough read takes whatever the kernel buffer held before for page addresses and, as long as they
  are mapped, goes on past the end of the buffer.
\<close>

theorem short_list_overreads:
  assumes "unat (prp_list_bytes (prp_page_size req) (prp2 req)) < 8"
    and "kmalloc_ok uenv" and "kmalloc uenv 0 (unat (prp_page_size req)) = Some lb"
    and "kmalloc uenv 1 (unat (prp_page_size req)) = Some db"
    and "prp_length req \<noteq> 0" and "\<not> page_size_bad (prp_page_size req)" and "has_func (prp_func req)"
    and "prp_flags req AND PCIEM_DMA_FLAG_WRITE = 0"
    and "dma_ok env (prp1 req) (first_len req)"
    and "dma_ok env (prp2 req) (unat (prp_list_bytes (prp_page_size req) (prp2 req)))"
    and "\<forall>k<unat (prp_page_size req) div 8.
      dma_ok env (buffer_entry env (gmem w) (prp_page_size req) (prp2 req) lb k) (unat (prp_page_size req))"
    and "unat (prp_page_size req) * (unat (prp_page_size req) div 8) < unat (prp_length req) - first_len req"
    and "user_range (can_write_user uenv) (prp_user req) (unat (prp_length req))"
  shows "pciem_ioctl_dma_indirect env uenv (Inr ()) has_func (Some req) w = Some Overread"
proof -
  define st0 where "st0 = \<lparr>world = kalloc (kalloc w), data_buf = db, list_buf = lb\<rparr>"
  have start: "pciem_ioctl_dma_indirect env uenv (Inr ()) has_func (Some req) w =
      free_bufs (prp_transfer env uenv False req st0)" "buf_ok (prp_page_size req) st0"
    using indirect_start(1) [where w = w and env = env and has_func = has_func, OF assms(2-7)]
      indirect_start(2) [where w = w and has_func = has_func, OF assms(2-7)] assms(8)
    by (simp_all add: st0_def)
  have pos: "0 < unat (prp_page_size req)" using page_size_pos [OF assms(6)] .
  have small: "unat (prp_page_size req) \<le> 65536" "8 \<le> unat (prp_page_size req)"
    using assms(6) by (auto simp: page_size_bad_def word_less_nat_alt)
  have fl: "first_len req \<le> unat (prp_length req)" by (simp add: first_len_def)
  have "unat (prp_page_size req) * 1 \<le> unat (prp_page_size req) * (unat (prp_page_size req) div 8)"
    using small(2) by (intro mult_le_mono2) simp
  then have more: "unat (prp_page_size req) < unat (prp_length req) - first_len req" using assms(12) by linarith
  obtain st r where st: "prp_transfer env uenv False req st0 =
      prp_loop env uenv False (prp_page_size req) 0 (prp_list_bytes (prp_page_size req) (prp2 req) div 8) r
        (prp_user req + of_nat (first_len req)) st"
    "unat r = unat (prp_length req) - first_len req" "buf_ok (prp_page_size req) st"
    "gmem (world st) = gmem (world st0)" "holds_list env (prp_page_size req) (prp2 req) st"
    "drop (unat (prp_list_bytes (prp_page_size req) (prp2 req))) (list_buf st) =
      drop (unat (prp_list_bytes (prp_page_size req) (prp2 req))) (list_buf st0)"
    using prp_transfer_list [OF start(2) pos assms(9) user_range_sub [OF assms(13), of 0 "first_len req", simplified, OF fl] more assms(10)] by blast
  have "unat (prp_list_bytes (prp_page_size req) (prp2 req) div 8) = 0" using assms(1) by (simp add: unat_div8)
  then have mx: "prp_list_bytes (prp_page_size req) (prp2 req) div 8 = 0" by (simp add: unat_eq_0)
  have g: "gmem (world st) = gmem w" "list_buf st0 = lb" using st(4) by (simp_all add: st0_def kalloc_def)
  have "user_range (can_write_user uenv) (prp_user req + of_nat (first_len req)) (unat r)"
    using user_range_sub [OF assms(13)] fl st(2) by simp
  then have "prp_loop env uenv False (prp_page_size req) 0 0 r (prp_user req + of_nat (first_len req)) st =
      Some Overread"
    using assms(11,12) st(2,6) g by (intro run_to_buffer_end [OF st(3) pos small(1) st(5)]) simp_all
  with st(1) mx start(1) show ?thesis by (simp add: free_bufs_def)
qed

text \<open>A list four bytes before the end of its page, in a buffer that held \<open>0x5A\<close> throughout.\<close>

definition stale_page :: "u8 list" where
  "stale_page = replicate 4096 0x5A"

definition long_req :: prp_req where
  "long_req = req0\<lparr>prp2 := 0x3FFC, prp_length := 0x300000\<rparr>"

lemma long_req_fields:
  "prp1 long_req = 0x1000" "prp2 long_req = 0x3FFC" "prp_length long_req = 0x300000" "prp_page_size long_req = 4096"
  "prp_flags long_req = 1" "prp_func long_req = 0" "prp_list_bytes 4096 0x3FFC = 4" "first_len long_req = 4096"
  by (simp_all add: long_req_def req0_def prp_list_bytes_def first_len_def)

lemma stale_entry: "Suc k < 512 \<Longrightarrow> take 8 (drop (8 * Suc k) (x @ drop 4 stale_page)) = replicate 8 0x5A" if "length x = 4"
proof -
  assume "Suc k < 512"
  then have "8 * k \<le> 4080" by simp
  then show ?thesis using that by (simp add: stale_page_def min_def)
qed

lemma long_req_entry:
  assumes "k < 512"
  shows "buffer_entry ram_env mem0 4096 0x3FFC stale_page k =
    (if k = 0 then 0x5A5A5A5A00000000 else 0x5A5A5A5A5A5A5A5A)"
proof -
  have m: "map mem0 (dma_addrs ram_env 0x3FFC 4) = [0, 0, 0, 0]"
    by (simp add: ram_addrs upt_rec mem0_def)
  have d: "take 4 (drop 4 stale_page) = replicate 4 0x5A" by (simp add: stale_page_def)
  show ?thesis
  proof (cases k)
    case 0
    have r4: "replicate 4 0x5A = [0x5A, 0x5A, 0x5A, 0x5A :: u8]" by (simp add: numeral_eq_Suc)
    show ?thesis using 0 m d unfolding r4 by (simp add: buffer_entry_def long_req_fields of_le_def)
  next
    case (Suc j)
    then have "take 8 (drop (8 * k) ([0, 0, 0, 0] @ drop 4 stale_page)) = replicate 8 0x5A"
      using assms stale_entry [of "[0, 0, 0, 0]" j] by simp
    moreover have "replicate 8 0x5A = [0x5A, 0x5A, 0x5A, 0x5A, 0x5A, 0x5A, 0x5A, 0x5A :: u8]"
      by (simp add: numeral_eq_Suc)
    ultimately show ?thesis using Suc m
      by (simp del: append.simps drop_append take_append add: buffer_entry_def long_req_fields) (simp add: of_le_def)
  qed
qed

theorem short_list_overreads_witness:
  "pciem_ioctl_dma_indirect ram_env uenv0 (Inr ()) (\<lambda>f. f = 0) (Some long_req) (world0\<lparr>gmem := mem0\<rparr>) =
     Some Overread"
proof (rule short_list_overreads [where lb = stale_page and db = stale_page])
  show "\<forall>k<unat (prp_page_size long_req) div 8. dma_ok ram_env (buffer_entry ram_env (gmem (world0\<lparr>gmem := mem0\<rparr>))
      (prp_page_size long_req) (prp2 long_req) stale_page k) (unat (prp_page_size long_req))"
    by (simp add: long_req_fields long_req_entry ram_env_ok(1))
  show "kmalloc uenv0 0 (unat (prp_page_size long_req)) = Some stale_page"
    "kmalloc uenv0 1 (unat (prp_page_size long_req)) = Some stale_page"
    by (simp_all add: uenv0_def stale_page_def long_req_fields)
  show "user_range (can_write_user uenv0) (prp_user long_req) (unat (prp_length long_req))"
    by (simp add: user_range_def uenv0_def)
qed (simp_all add: long_req_fields uenv0_ok ram_env_ok(1) page_size_bad_def PCIEM_DMA_FLAG_WRITE_def)

end
