(* ===== verification/NvmeHost.thy ===== *)
theory NvmeHost
  imports NvmeCtrl Prp
begin

text \<open>
  The NVMe card on the framework: the calls the card makes are the ioctls of \<^verbatim>\<open>DmaIoctl.thy\<close> and
  \<^verbatim>\<open>Prp.thy\<close>, over the guest's memory and the card's own.

  The card's buffers have addresses in its memory: \<open>buf_at\<close> for the structures on the stack,
  \<open>disk_at\<close> for the part of the disk a command works on. A call first puts what the card holds there;
  the interrupts are logged.
\<close>

record nvme_world =
  dma :: dma_world
  irq_log :: "u32 list"

definition ioctl_host ::
    "dma_env \<Rightarrow> user_env \<Rightarrow> u64 \<Rightarrow> u64 \<Rightarrow> (u32 \<Rightarrow> bool) \<Rightarrow> bool \<Rightarrow> nvme_world nvme_host" where
  "ioctl_host env uenv buf_at disk_at irq_ok calloc_ok =
     (let at_user = (\<lambda>a bs w. (dma w)\<lparr>umem := mem_put (umem (dma w)) a bs\<rparr>);
          dma_ioctl = (\<lambda>iova len flags d. pciem_ioctl_dma env uenv (Inr ()) (\<lambda>f. f = 0)
            (Some \<lparr>op_iova = iova, op_user = buf_at, op_length = of_nat len, op_flags = flags, op_func = 0\<rparr>) d);
          indirect = (\<lambda>p1 p2 len flags d. pciem_ioctl_dma_indirect env uenv (Inr ()) (\<lambda>f. f = 0)
            (Some \<lparr>prp1 = p1, prp2 = p2, prp_user = disk_at, prp_length = of_nat len, prp_page_size = 4096,
                   prp_flags = flags, prp_func = 0\<rparr>) d)
      in \<lparr>host_write = (\<lambda>iova bs w.
            case dma_ioctl iova (length bs) 2 (at_user buf_at bs w) of
              None \<Rightarrow> None
            | Some (rc, d) \<Rightarrow> Some (rc = Inr (), w\<lparr>dma := d\<rparr>)),
          host_read = (\<lambda>iova n w.
            case dma_ioctl iova n 1 (dma w) of
              None \<Rightarrow> None
            | Some (rc, d) \<Rightarrow> Some (if rc = Inr () then Some (mem_get (umem d) buf_at n) else None, w\<lparr>dma := d\<rparr>)),
          host_out = (\<lambda>p1 p2 bs w.
            case indirect p1 p2 (length bs) 2 (at_user disk_at bs w) of
              Some (Returned rc st) \<Rightarrow> Some (rc = Inr (), w\<lparr>dma := world st\<rparr>)
            | _ \<Rightarrow> None),
          host_in = (\<lambda>p1 p2 bs w.
            case indirect p1 p2 (length bs) 1 (at_user disk_at bs w) of
              Some (Returned rc st) \<Rightarrow> Some (rc = Inr (), mem_get (umem (world st)) disk_at (length bs), w\<lparr>dma := world st\<rparr>)
            | _ \<Rightarrow> None),
          host_irq = (\<lambda>v w. (irq_ok v, w\<lparr>irq_log := irq_log w @ [v]\<rparr>)),
          host_calloc = (\<lambda>_. calloc_ok)\<rparr>)"

interpretation card: nvme_transfers "ioctl_host env uenv buf_at disk_at irq_ok calloc_ok"
  for env uenv buf_at disk_at irq_ok calloc_ok
  by unfold_locales (auto simp: ioctl_host_def Let_def split: option.splits prp_result.splits)

subsection \<open>The calls, when the guest's pages are mapped\<close>

text \<open>
  What the host of the card provides: kernel memory, and access to the card's own buffers, of which
  the largest is a transfer of 65536 blocks.
\<close>

definition calls_ok :: "user_env \<Rightarrow> u64 \<Rightarrow> u64 \<Rightarrow> bool" where
  "calls_ok uenv buf_at disk_at \<longleftrightarrow> kmalloc_ok uenv \<and> (\<forall>i n. n \<le> 4096 \<longrightarrow> kmalloc uenv i n \<noteq> None) \<and>
     user_range (can_read_user uenv) buf_at 4096 \<and> user_range (can_write_user uenv) buf_at 4096 \<and>
     user_range (can_read_user uenv) disk_at (2 ^ 28) \<and> user_range (can_write_user uenv) disk_at (2 ^ 28)"

lemma user_range_part: "user_range acc a n \<Longrightarrow> k \<le> n \<Longrightarrow> acc a k"
  using user_range_whole [OF user_range_sub [of acc a n 0 k]] by simp

lemma ioctl_write:
  assumes "calls_ok uenv buf_at disk_at" "dma_ok env a (length bs)" "length bs \<le> 4096"
  shows "\<exists>u. host_write (ioctl_host env uenv buf_at disk_at irq_ok calloc_ok) a bs w = Some (True, w\<lparr>dma := (dma w)
      \<lparr>umem := u, gmem := put_bytes (gmem (dma w)) (zip (dma_addrs env a (length bs)) bs)\<rparr>\<rparr>)"
proof -
  define d where "d = (dma w)\<lparr>umem := mem_put (umem (dma w)) buf_at bs\<rparr>"
  have "mem_get (umem d) buf_at (length bs) = bs"
    using assms(3) mem_get_put [of bs "umem (dma w)" buf_at] by (simp add: d_def)
  moreover have "can_read_user uenv buf_at (length bs)" using assms(1,3) user_range_part by (auto simp: calls_ok_def)
  ultimately show ?thesis
    using dma_ioctl_write_ok [OF assms(2), of uenv buf_at "\<lambda>f. f = 0" 0 d] assms(1,3)
    by (intro exI [of _ "mem_put (umem (dma w)) buf_at bs"]) (auto simp: calls_ok_def ioctl_host_def Let_def d_def)
qed

lemma ioctl_read:
  assumes "calls_ok uenv buf_at disk_at" "dma_ok env a n" "n \<le> 4096"
  shows "\<exists>u. host_read (ioctl_host env uenv buf_at disk_at irq_ok calloc_ok) a n w =
    Some (Some (map (gmem (dma w)) (dma_addrs env a n)), w\<lparr>dma := (dma w)\<lparr>umem := u\<rparr>\<rparr>)"
proof -
  let ?data = "map (gmem (dma w)) (dma_addrs env a n)"
  have "mem_get (mem_put (umem (dma w)) buf_at ?data) buf_at n = ?data"
    using assms(3) mem_get_put [of ?data "umem (dma w)" buf_at] by simp
  moreover have "can_write_user uenv buf_at n" using assms(1,3) user_range_part by (auto simp: calls_ok_def)
  ultimately show ?thesis
    using dma_ioctl_read_ok [OF assms(2), of uenv buf_at "\<lambda>f. f = 0" 0 "dma w"] assms(1,3)
    by (intro exI [of _ "mem_put (umem (dma w)) buf_at ?data"]) (auto simp: calls_ok_def ioctl_host_def Let_def)
qed

text \<open>A queue that lies in mapped memory can be fetched from.\<close>

lemma mapped_queue_readable:
  assumes "calls_ok uenv buf_at disk_at" "\<forall>s<unat (sq_size q). dma_ok env (sq_addr q + of_nat s * 64) 64"
  shows "sq_readable (ioctl_host env uenv buf_at disk_at irq_ok calloc_ok) q"
  unfolding sq_readable_def
proof (intro allI impI notI)
  fix s w w'
  assume "s < unat (sq_size q)"
    and "host_read (ioctl_host env uenv buf_at disk_at irq_ok calloc_ok) (sq_addr q + of_nat s * 64) 64 w = Some (None, w')"
  with assms(2) ioctl_read [OF assms(1), of env "sq_addr q + of_nat s * 64" 64 irq_ok calloc_ok w] show False by auto
qed

subsection \<open>The disk commands, over the pages the command names\<close>

definition io_req :: "u64 \<Rightarrow> u32 \<Rightarrow> nvme_command \<Rightarrow> prp_req" where
  "io_req disk_at flags cmd = \<lparr>prp1 = c_prp1 cmd, prp2 = c_prp2 cmd, prp_user = disk_at,
     prp_length = of_nat (io_bytes cmd), prp_page_size = 4096, prp_flags = flags, prp_func = 0\<rparr>"

lemma io_req_fields [simp]:
  "prp_user (io_req disk_at flags cmd) = disk_at" "prp_page_size (io_req disk_at flags cmd) = 4096"
  "prp_flags (io_req disk_at flags cmd) = flags" "prp_func (io_req disk_at flags cmd) = 0"
  by (simp_all add: io_req_def)

lemma io_bytes_bound: "0 < io_bytes cmd" "io_bytes cmd \<le> 2 ^ 28"
proof -
  have "unat (cdw_lo16 (c_dw12 cmd)) < 2 ^ LENGTH(16)" by (rule unsigned_less)
  then show "0 < io_bytes cmd" "io_bytes cmd \<le> 2 ^ 28" by (simp_all add: io_bytes_eq)
qed

lemma io_req_length [simp]: "unat (prp_length (io_req disk_at flags cmd)) = io_bytes cmd"
  using io_bytes_bound [of cmd] by (simp add: io_req_def unsigned_of_nat take_bit_nat_eq_self)

lemma io_req_nonzero [simp]: "prp_length (io_req disk_at flags cmd) \<noteq> 0"
  using io_req_length [of disk_at flags cmd] io_bytes_bound(1) [of cmd] by (metis less_numeral_extra(3) unat_0)

lemma prp_plan_length: "prp_plan env L g req segs \<Longrightarrow> seg_len segs = unat (prp_length req)"
proof (induction rule: prp_plan.induct)
  case (many n ps)
  then show ?case by (simp add: seg_len_pages prp_pages_length min_def)
qed simp_all

lemma page_4096 [simp]: "\<not> page_size_bad 4096"
  by (simp add: page_size_bad_def)

lemma ioctl_in:
  assumes "calls_ok uenv buf_at disk_at" "prp_plan env UNIV (gmem (dma w)) (io_req disk_at 1 cmd) segs" "segs_ok env segs"
    and "length old = io_bytes cmd"
  shows "\<exists>u. host_in (ioctl_host env uenv buf_at disk_at irq_ok calloc_ok) (c_prp1 cmd) (c_prp2 cmd) old w =
    Some (True, seg_data env (gmem (dma w)) segs, w\<lparr>dma := (dma w)\<lparr>umem := u\<rparr>\<rparr>)"
proof -
  let ?d = "(dma w)\<lparr>umem := mem_put (umem (dma w)) disk_at old\<rparr>"
  have usr: "user_range (can_write_user uenv) disk_at (io_bytes cmd)"
    using assms(1) user_range_sub [of "can_write_user uenv" disk_at "2 ^ 28" 0 "io_bytes cmd"] io_bytes_bound(2) [of cmd]
    by (simp add: calls_ok_def)
  have "\<exists>st. pciem_ioctl_dma_indirect env uenv (Inr ()) (\<lambda>f. f = 0) (Some (io_req disk_at 1 cmd)) ?d =
      Some (Returned (Inr ()) st) \<and>
    world st = ?d\<lparr>umem := mem_put (umem ?d) (prp_user (io_req disk_at 1 cmd)) (seg_data env (gmem ?d) segs)\<rparr>"
    using assms usr by (intro indirect_read_correct) (simp_all add: calls_ok_def PCIEM_DMA_FLAG_WRITE_def)
  then obtain st where st: "pciem_ioctl_dma_indirect env uenv (Inr ()) (\<lambda>f. f = 0) (Some (io_req disk_at 1 cmd)) ?d =
      Some (Returned (Inr ()) st)"
    "world st = ?d\<lparr>umem := mem_put (umem ?d) disk_at (seg_data env (gmem (dma w)) segs)\<rparr>" by auto
  have len: "seg_len segs = io_bytes cmd" using prp_plan_length [OF assms(2)] by simp
  then have "mem_get (mem_put (umem ?d) disk_at (seg_data env (gmem (dma w)) segs)) disk_at (io_bytes cmd) =
      seg_data env (gmem (dma w)) segs"
    using mem_get_put [of "seg_data env (gmem (dma w)) segs" "umem ?d" disk_at] io_bytes_bound(2) [of cmd] by simp
  with st show ?thesis
    by (intro exI [of _ "umem (world st)"]) (simp add: ioctl_host_def Let_def io_req_def assms(4))
qed

lemma ioctl_out:
  assumes "calls_ok uenv buf_at disk_at" "prp_plan env L (gmem (dma w)) (io_req disk_at 2 cmd) segs" "segs_ok env segs"
    and "set (seg_addrs env segs) \<inter> L = {}" "distinct (seg_addrs env segs)" "length data = io_bytes cmd"
  shows "\<exists>g u. host_out (ioctl_host env uenv buf_at disk_at irq_ok calloc_ok) (c_prp1 cmd) (c_prp2 cmd) data w =
      Some (True, w\<lparr>dma := (dma w)\<lparr>gmem := g, umem := u\<rparr>\<rparr>) \<and>
    seg_data env g segs = data \<and> (\<forall>a. a \<notin> set (seg_addrs env segs) \<longrightarrow> g a = gmem (dma w) a)"
proof -
  let ?d = "(dma w)\<lparr>umem := mem_put (umem (dma w)) disk_at data\<rparr>"
  have usr: "user_range (can_read_user uenv) disk_at (io_bytes cmd)"
    using assms(1) user_range_sub [of "can_read_user uenv" disk_at "2 ^ 28" 0 "io_bytes cmd"] io_bytes_bound(2) [of cmd]
    by (simp add: calls_ok_def)
  have "\<exists>st. pciem_ioctl_dma_indirect env uenv (Inr ()) (\<lambda>f. f = 0) (Some (io_req disk_at 2 cmd)) ?d =
      Some (Returned (Inr ()) st) \<and>
    seg_data env (gmem (world st)) segs = mem_get (umem ?d) (prp_user (io_req disk_at 2 cmd)) (seg_len segs) \<and>
    (\<forall>a. a \<notin> set (seg_addrs env segs) \<longrightarrow> gmem (world st) a = gmem ?d a) \<and>
    umem (world st) = umem ?d \<and> kbufs (world st) = kbufs ?d"
    using assms usr by (intro indirect_write_correct [where L = L]) (simp_all add: calls_ok_def PCIEM_DMA_FLAG_WRITE_def)
  then obtain st where st: "pciem_ioctl_dma_indirect env uenv (Inr ()) (\<lambda>f. f = 0) (Some (io_req disk_at 2 cmd)) ?d =
      Some (Returned (Inr ()) st)"
    "seg_data env (gmem (world st)) segs = mem_get (mem_put (umem (dma w)) disk_at data) disk_at (seg_len segs)"
    "\<forall>a. a \<notin> set (seg_addrs env segs) \<longrightarrow> gmem (world st) a = gmem (dma w) a"
    "umem (world st) = umem ?d" "kbufs (world st) = kbufs (dma w)" by auto
  have len: "seg_len segs = length data" using prp_plan_length [OF assms(2)] assms(6) by simp
  have "seg_data env (gmem (world st)) segs = data"
    unfolding st(2) len using mem_get_put [of data "umem (dma w)" disk_at] io_bytes_bound(2) [of cmd] assms(6) by simp
  moreover have "world st = (dma w)\<lparr>gmem := gmem (world st), umem := umem (world st)\<rparr>"
    using st(5) by simp
  then have "host_out (ioctl_host env uenv buf_at disk_at irq_ok calloc_ok) (c_prp1 cmd) (c_prp2 cmd) data w =
      Some (True, w\<lparr>dma := (dma w)\<lparr>gmem := gmem (world st), umem := umem (world st)\<rparr>\<rparr>)"
    using st(1) by (simp add: ioctl_host_def Let_def io_req_def assms(6))
  ultimately show ?thesis using st(3) by blast
qed

text \<open>The two disk commands, on a guest whose pages are mapped.\<close>

lemma write_command:
  assumes "calls_ok uenv buf_at disk_at" "c_opcode cmd = 1" "io_in_disk cmd"
    and "prp_plan env UNIV (gmem (dma w)) (io_req disk_at 1 cmd) segs" "segs_ok env segs"
  shows "\<exists>u. nvme_execute_io_command (ioctl_host env uenv buf_at disk_at irq_ok calloc_ok) dev cmd w =
    Some (NVME_SUCCESS, dev\<lparr>disk := poke (disk dev) (io_start cmd) (seg_data env (gmem (dma w)) segs)\<rparr>,
      w\<lparr>dma := (dma w)\<lparr>umem := u\<rparr>\<rparr>)"
proof -
  obtain u where "host_in (ioctl_host env uenv buf_at disk_at irq_ok calloc_ok) (c_prp1 cmd) (c_prp2 cmd)
      (bytes_of (disk dev) (io_start cmd) (io_bytes cmd)) w =
    Some (True, seg_data env (gmem (dma w)) segs, w\<lparr>dma := (dma w)\<lparr>umem := u\<rparr>\<rparr>)"
    using ioctl_in [OF assms(1,4,5) length_bytes_of] by blast
  then show ?thesis
    by (intro exI [of _ u]) (simp add: io_command_write [OF assms(2)] io_write_cases(3) [OF assms(3)])
qed

lemma read_command:
  assumes "calls_ok uenv buf_at disk_at" "c_opcode cmd = 2" "io_in_disk cmd"
    and "prp_plan env L (gmem (dma w)) (io_req disk_at 2 cmd) segs" "segs_ok env segs"
    and "set (seg_addrs env segs) \<inter> L = {}" "distinct (seg_addrs env segs)"
  shows "\<exists>g u. nvme_execute_io_command (ioctl_host env uenv buf_at disk_at irq_ok calloc_ok) dev cmd w =
      Some (NVME_SUCCESS, dev, w\<lparr>dma := (dma w)\<lparr>gmem := g, umem := u\<rparr>\<rparr>) \<and>
    seg_data env g segs = bytes_of (disk dev) (io_start cmd) (io_bytes cmd) \<and>
    (\<forall>a. a \<notin> set (seg_addrs env segs) \<longrightarrow> g a = gmem (dma w) a)"
proof -
  obtain g u where "host_out (ioctl_host env uenv buf_at disk_at irq_ok calloc_ok) (c_prp1 cmd) (c_prp2 cmd)
      (bytes_of (disk dev) (io_start cmd) (io_bytes cmd)) w = Some (True, w\<lparr>dma := (dma w)\<lparr>gmem := g, umem := u\<rparr>\<rparr>)"
    "seg_data env g segs = bytes_of (disk dev) (io_start cmd) (io_bytes cmd)"
    "\<forall>a. a \<notin> set (seg_addrs env segs) \<longrightarrow> g a = gmem (dma w) a"
    using ioctl_out [OF assms(1,4-7) length_bytes_of] by blast
  then show ?thesis by (auto simp: io_command_read [OF assms(2)] io_read_cases(3) [OF assms(3)])
qed

subsection \<open>Properties\<close>

text \<open>
  C22. The disk keeps what a guest writes to it. A WRITE command whose pages are mapped succeeds; then
  any I/O commands run that do not write its blocks; then a READ of the same blocks, or of some of
  them, into pages of its own succeeds and puts in the guest's memory exactly the bytes that were at
  the pages of the WRITE when it ran, through both region page lists and both directions of the
  indirect DMA ioctl.
\<close>

theorem nvme_disk_roundtrip:
  assumes "calls_ok uenv buf_at disk_at" and "H = ioctl_host env uenv buf_at disk_at irq_ok calloc_ok"
    and "c_opcode c1 = 1" "io_in_disk c1" "prp_plan env UNIV (gmem (dma w)) (io_req disk_at 1 c1) segs1" "segs_ok env segs1"
    and "nvme_execute_io_command H dev c1 w = Some (st1, dev1, w1)"
    and "run_io H cs dev1 w1 = Some (dev2, w2)" "\<forall>c\<in>set cs. apart c1 c"
    and "c_opcode c2 = 2" "io_start c1 \<le> io_start c2" "io_start c2 + io_bytes c2 \<le> io_start c1 + io_bytes c1"
    and "prp_plan env L (gmem (dma w2)) (io_req disk_at 2 c2) segs2" "segs_ok env segs2"
    and "set (seg_addrs env segs2) \<inter> L = {}" "distinct (seg_addrs env segs2)"
  shows "st1 = NVME_SUCCESS \<and> (\<exists>w3. nvme_execute_io_command H dev2 c2 w2 = Some (NVME_SUCCESS, dev2, w3) \<and>
    seg_data env (gmem (dma w3)) segs2 =
      take (io_bytes c2) (drop (io_start c2 - io_start c1) (seg_data env (gmem (dma w)) segs1)))"
proof -
  let ?data = "seg_data env (gmem (dma w)) segs1"
  let ?part = "take (io_bytes c2) (drop (io_start c2 - io_start c1) ?data)"
  from write_command [OF assms(1,3-6), of irq_ok calloc_ok dev] assms(2,7)
  have ok: "st1 = NVME_SUCCESS" by auto
  from card.write_then_read [OF assms(3) _ _ assms(9-12), of env uenv buf_at disk_at irq_ok calloc_ok dev w dev1 w1 dev2 w2]
  obtain data where data: "host_in H (c_prp1 c1) (c_prp2 c1) (bytes_of (disk dev) (io_start c1) (io_bytes c1)) w = Some (True, data, w1)"
    "nvme_execute_io_command H dev2 c2 w2 = do {
      (ok, w) \<leftarrow> host_out H (c_prp1 c2) (c_prp2 c2) (take (io_bytes c2) (drop (io_start c2 - io_start c1) data)) w2;
      Some (if ok then NVME_SUCCESS else NVME_INTERNAL, dev2, w) }"
    using assms(2,7,8) ok by auto
  have "data = ?data"
    using ioctl_in [OF assms(1,5,6) length_bytes_of [of "disk dev" "io_start c1"], of irq_ok calloc_ok] data(1) assms(2) by auto
  moreover have "length ?part = io_bytes c2"
    using prp_plan_length [OF assms(5)] assms(11,12) by simp
  from ioctl_out [OF assms(1,13-16) this, of irq_ok calloc_ok] assms(2) obtain g u where
    "host_out H (c_prp1 c2) (c_prp2 c2) ?part w2 = Some (True, w2\<lparr>dma := (dma w2)\<lparr>gmem := g, umem := u\<rparr>\<rparr>)"
    "seg_data env g segs2 = ?part" by auto
  ultimately show ?thesis using data(2) ok by simp
qed

text \<open>One block, from the page at 0x8000 to the disk and back to the page at 0xA000.\<close>

definition block_cmd :: "u8 \<Rightarrow> u64 \<Rightarrow> nvme_command" where
  "block_cmd opc page = \<lparr>c_opcode = opc, c_flags = 0, c_id = 7, c_nsid = 1, c_prp1 = page, c_prp2 = 0,
     c_dw10 = 3, c_dw11 = 0, c_dw12 = 0\<rparr>"

definition demo_host :: "nvme_world nvme_host" where
  "demo_host = ioctl_host ram_env uenv0 0x100000 0x200000 (\<lambda>_. True) True"

definition demo_world :: "(u64 \<Rightarrow> u8) \<Rightarrow> nvme_world" where
  "demo_world g = \<lparr>dma = world0\<lparr>gmem := g\<rparr>, irq_log = []\<rparr>"

lemma uenv0_calls: "calls_ok uenv0 a b"
  using uenv0_ok by (simp add: calls_ok_def user_range_def uenv0_def)

lemma block_cmd_io [simp]:
  "c_opcode (block_cmd opc page) = opc" "c_prp1 (block_cmd opc page) = page"
  "io_bytes (block_cmd opc page) = 4096" "io_start (block_cmd opc page) = 12288" "io_in_disk (block_cmd opc page)"
  by (simp_all add: block_cmd_def io_bytes_eq io_start_eq io_slba_def io_in_disk_def cdw_lo16_def)

lemma one_page_plan:
  assumes "c_prp1 cmd = page" "io_bytes cmd = 4096" "prp_list_bytes 4096 page = 4096"
  shows "prp_plan env L g (io_req d f cmd) [(page, 4096)]"
proof -
  have "prp1 (io_req d f cmd) = page" using assms(1) by (simp add: io_req_def)
  then have "first_len (io_req d f cmd) = 4096" using assms by (simp add: first_len_def)
  with prp_plan.one [of "io_req d f cmd" env L g] assms show ?thesis
    by (simp add: io_req_def)
qed

theorem nvme_disk_roundtrip_witness:
  "\<exists>dev1 w1 w3. nvme_execute_io_command demo_host card0 (block_cmd 1 0x8000) (demo_world ucast) = Some (NVME_SUCCESS, dev1, w1) \<and>
     nvme_execute_io_command demo_host dev1 (block_cmd 2 0xA000) w1 = Some (NVME_SUCCESS, dev1, w3) \<and>
     map (gmem (dma w3)) (dma_addrs ram_env 0xA000 4096) = map ucast (dma_addrs ram_env 0x8000 4096)"
proof -
  have pages: "prp_list_bytes 4096 0x8000 = 4096" "prp_list_bytes 4096 0xA000 = 4096"
    by (simp_all add: prp_list_bytes_def)
  let ?w = "demo_world ucast"
  have plan1: "prp_plan ram_env UNIV (gmem (dma ?w)) (io_req 0x200000 1 (block_cmd 1 0x8000)) [(0x8000, 4096)]"
    by (rule one_page_plan) (simp_all add: pages)
  have ok1: "segs_ok ram_env [(0x8000, 4096)]" by (simp add: ram_env_ok(1))
  obtain u where run1: "nvme_execute_io_command demo_host card0 (block_cmd 1 0x8000) ?w =
      Some (NVME_SUCCESS, card0\<lparr>disk := poke (disk card0) 12288 (seg_data ram_env (gmem (dma ?w)) [(0x8000, 4096)])\<rparr>,
        ?w\<lparr>dma := (dma ?w)\<lparr>umem := u\<rparr>\<rparr>)"
    using write_command [OF uenv0_calls _ _ plan1 ok1, of "0x100000" "\<lambda>_. True" True card0] by (auto simp: demo_host_def)
  define dev1 where "dev1 = card0\<lparr>disk := poke (disk card0) 12288 (seg_data ram_env (gmem (dma ?w)) [(0x8000, 4096)])\<rparr>"
  define w1 where "w1 = ?w\<lparr>dma := (dma ?w)\<lparr>umem := u\<rparr>\<rparr>"
  have plan2: "prp_plan ram_env {} (gmem (dma w1)) (io_req 0x200000 2 (block_cmd 2 0xA000)) [(0xA000, 4096)]"
    by (rule one_page_plan) (simp_all add: pages)
  have "NVME_SUCCESS = NVME_SUCCESS \<and> (\<exists>w3. nvme_execute_io_command demo_host dev1 (block_cmd 2 0xA000) w1 = Some (NVME_SUCCESS, dev1, w3) \<and>
    seg_data ram_env (gmem (dma w3)) [(0xA000, 4096)] = take (io_bytes (block_cmd 2 0xA000))
      (drop (io_start (block_cmd 2 0xA000) - io_start (block_cmd 1 0x8000)) (seg_data ram_env (gmem (dma ?w)) [(0x8000, 4096)])))"
    by (rule nvme_disk_roundtrip [where cs = "[]" and L = "{}", OF uenv0_calls demo_host_def _ _ plan1 ok1 run1 _ _ _ _ _ plan2])
      (simp_all add: ram_env_ok(1) ram_range(1) dev1_def w1_def)
  then show ?thesis using run1 by (auto simp: dev1_def w1_def demo_world_def)
qed

text \<open>
  C38. What a READ or a WRITE can reach, in blocks of 4096 bytes: the start is taken modulo \<open>2 ^ 52\<close>, since
  the shift to bytes drops the high bits. A start beyond the disk is refused with nothing done; a
  transfer that fits answers success or an internal error and changes no byte of the disk outside its
  blocks; but the length is never compared with the disk, and a transfer that starts on it and ends
  beyond is an access past the end of the card's memory.
\<close>

theorem nvme_disk_bounds:
  assumes "c_opcode cmd = 1 \<or> c_opcode cmd = 2"
    and "start = io_slba cmd mod 2 ^ 52" "count = unat (cdw_lo16 (c_dw12 cmd)) + 1"
    and "run = nvme_execute_io_command (ioctl_host env uenv buf_at disk_at irq_ok calloc_ok) dev cmd w"
  shows "(2 ^ 18 \<le> start \<longrightarrow> run = Some (NVME_INVALID_FIELD, dev, w)) \<and>
    (start < 2 ^ 18 \<and> 2 ^ 18 < start + count \<longrightarrow> run = None) \<and>
    (\<forall>st dev' w'. start + count \<le> 2 ^ 18 \<and> run = Some (st, dev', w') \<longrightarrow>
      (st = NVME_SUCCESS \<or> st = NVME_INTERNAL) \<and>
      (\<forall>i. disk dev' i \<noteq> disk dev i \<longrightarrow> 4096 * start \<le> i \<and> i < 4096 * (start + count)))"
proof -
  have io: "io_start cmd = 4096 * start" "io_bytes cmd = 4096 * count"
    using assms(2,3) by (simp_all add: io_start_eq io_bytes_eq)
  have c0: "0 < count" using assms(3) by simp
  have far: "2 ^ 18 \<le> start \<longrightarrow> run = Some (NVME_INVALID_FIELD, dev, w)"
    using assms(1) io(1) by (auto simp: assms(4) io_command_write io_command_read io_write_cases(1) io_read_cases(1))
  have over: "start < 2 ^ 18 \<and> 2 ^ 18 < start + count \<longrightarrow> run = None"
  proof
    assume h: "start < 2 ^ 18 \<and> 2 ^ 18 < start + count"
    then have "io_start cmd < 2 ^ 30" "\<not> io_in_disk cmd" using io by (simp_all add: io_in_disk_def)
    with assms(1) show "run = None"
      by (auto simp: assms(4) io_command_write io_command_read io_write_cases(2) io_read_cases(2))
  qed
  have "(st = NVME_SUCCESS \<or> st = NVME_INTERNAL) \<and>
      (\<forall>i. disk dev' i \<noteq> disk dev i \<longrightarrow> 4096 * start \<le> i \<and> i < 4096 * (start + count))"
    if h: "start + count \<le> 2 ^ 18" "run = Some (st, dev', w')" for st dev' w'
  proof
    have d: "io_in_disk cmd" using h(1) io by (simp add: io_in_disk_def)
    then show "st = NVME_SUCCESS \<or> st = NVME_INTERNAL"
      using assms(1) h(2) by (auto simp: assms(4) io_command_write io_command_read io_write_cases(3) io_read_cases(3)
          split: bind_splits)
    show "\<forall>i. disk dev' i \<noteq> disk dev i \<longrightarrow> 4096 * start \<le> i \<and> i < 4096 * (start + count)"
    proof (intro allI impI, rule ccontr)
      fix i
      assume i: "disk dev' i \<noteq> disk dev i" "\<not> (4096 * start \<le> i \<and> i < 4096 * (start + count))"
      then have "c_opcode cmd \<noteq> 1 \<or> i < io_start cmd \<or> io_start cmd + io_bytes cmd \<le> i" using io by auto
      with card.command_confined [OF h(2) [unfolded assms(4)], of i] i(1) show False by simp
    qed
  qed
  with far over show ?thesis by blast
qed

theorem nvme_disk_bounds_witness:
  "nvme_execute_io_command demo_host card0 ((block_cmd 1 0x8000)\<lparr>c_dw10 := 0x3FFFF, c_dw12 := 1\<rparr>) (demo_world ucast) = None \<and>
   nvme_execute_io_command demo_host card0 ((block_cmd 1 0x8000)\<lparr>c_dw10 := 0x40000\<rparr>) (demo_world ucast) =
     Some (NVME_INVALID_FIELD, card0, demo_world ucast)"
proof -
  let ?c1 = "(block_cmd 1 0x8000)\<lparr>c_dw10 := 0x3FFFF, c_dw12 := 1\<rparr>" and ?c2 = "(block_cmd 1 0x8000)\<lparr>c_dw10 := 0x40000\<rparr>"
  have f: "c_opcode ?c1 = 1" "c_opcode ?c2 = 1" "io_slba ?c1 = 0x3FFFF" "io_slba ?c2 = 0x40000"
    "unat (cdw_lo16 (c_dw12 ?c1)) = 1"
    by (simp_all add: io_slba_def block_cmd_def cdw_lo16_def)
  have past: "nvme_execute_io_command demo_host card0 ?c1 (demo_world ucast) = None"
    unfolding demo_host_def using f
    by (intro nvme_disk_bounds [OF _ refl refl refl, THEN conjunct2, THEN conjunct1, rule_format]) simp_all
  have refused: "nvme_execute_io_command demo_host card0 ?c2 (demo_world ucast) = Some (NVME_INVALID_FIELD, card0, demo_world ucast)"
    unfolding demo_host_def using f
    by (intro nvme_disk_bounds [OF _ refl refl refl, THEN conjunct1, rule_format]) simp_all
  from past refused show ?thesis ..
qed

text \<open>
  C4. A READ goes all the way: when the host has put one READ command in a submission queue in its
  memory and writes the doorbell, the handler returns; the pages the command names hold the blocks of
  the disk, the next slot of the completion queue holds a success completion with the identifier of the
  command, the new head and the phase of the lap, the queue's interrupt has been raised once, and
  no other byte of guest memory has changed.
\<close>

theorem nvme_read_served:
  assumes "calls_ok uenv buf_at disk_at" and "H = ioctl_host env uenv buf_at disk_at irq_ok calloc_ok"
    and "ev_bar ev = 0" "nvme_enabled dev" "ev_offset ev = doorbell_offset i" "i < 16" "length (queues dev) = 16"
    and "q = (queues dev ! i)\<lparr>sq_tail := ucast (ev_data ev AND 0xffff)\<rparr>"
    and "queue_ok q" "q_id q \<noteq> 0" "pending q = 1"
    and "\<forall>s<unat (sq_size q). dma_ok env (sq_addr q + of_nat s * 64) 64"
    and "cmd = nvme_command_of (map (gmem (dma w)) (dma_addrs env (sq_addr q + of_nat (slot_of q 0) * 64) 64))"
    and "c_opcode cmd = 2" "io_in_disk cmd"
    and "prp_plan env L (gmem (dma w)) (io_req disk_at 2 cmd) segs" "segs_ok env segs"
    and "set (seg_addrs env segs) \<inter> L = {}" "distinct (seg_addrs env segs)"
    and "cqa = dma_addrs env (cq_addr q + of_nat (cq_slot q 0) * 16) 16" "distinct cqa"
    and "dma_ok env (cq_addr q + of_nat (cq_slot q 0) * 16) 16" "set cqa \<inter> set (seg_addrs env segs) = {}"
  shows "\<exists>dev' w'. nvme_handle_write H ev dev w = Some (dev', w') \<and>
    seg_data env (gmem (dma w')) segs = bytes_of (disk dev) (io_start cmd) (io_bytes cmd) \<and>
    map (gmem (dma w')) cqa = nvme_completion_bytes (io_completion q 0 cmd NVME_SUCCESS) \<and>
    irq_log w' = irq_log w @ [ucast (q_vector q)] \<and> queues dev' ! i = queue_after q 1 \<and> disk dev' = disk dev \<and>
    (\<forall>a. a \<notin> set cqa \<and> a \<notin> set (seg_addrs env segs) \<longrightarrow> gmem (dma w') a = gmem (dma w) a)"
proof -
  let ?cpl = "nvme_completion_bytes (io_completion q 0 cmd NVME_SUCCESS)"
  let ?cq = "cq_addr q + of_nat (cq_slot q 0) * 16"
  have H: "host_irq H v w = (irq_ok v, w\<lparr>irq_log := irq_log w @ [v]\<rparr>)" for v w
    by (simp add: assms(2) ioctl_host_def Let_def)
  have "dma_ok env (sq_addr q + of_nat (slot_of q 0) * 64) 64"
    using assms(12) slots_small(1) [OF assms(9), of 0] by blast
  from ioctl_read [OF assms(1) this, of irq_ok calloc_ok w] assms(2) obtain u1 where r:
    "host_read H (sq_addr q + of_nat (slot_of q 0) * 64) 64 w =
      Some (Some (map (gmem (dma w)) (dma_addrs env (sq_addr q + of_nat (slot_of q 0) * 64) 64)), w\<lparr>dma := (dma w)\<lparr>umem := u1\<rparr>\<rparr>)"
    by auto
  define w1 where "w1 = w\<lparr>dma := (dma w)\<lparr>umem := u1\<rparr>\<rparr>"
  have plan: "prp_plan env L (gmem (dma w1)) (io_req disk_at 2 cmd) segs" using assms(16) by (simp add: w1_def)
  from read_command [OF assms(1,14,15) plan assms(17-19), of irq_ok calloc_ok dev] assms(2) obtain g u2 where c:
    "nvme_execute_io_command H dev cmd w1 = Some (NVME_SUCCESS, dev, w1\<lparr>dma := (dma w1)\<lparr>gmem := g, umem := u2\<rparr>\<rparr>)"
    "seg_data env g segs = bytes_of (disk dev) (io_start cmd) (io_bytes cmd)"
    "\<forall>a. a \<notin> set (seg_addrs env segs) \<longrightarrow> g a = gmem (dma w) a" by (auto simp: w1_def)
  define w2 where "w2 = w1\<lparr>dma := (dma w1)\<lparr>gmem := g, umem := u2\<rparr>\<rparr>"
  have len: "length ?cpl = 16" by (simp add: nvme_completion_bytes_def)
  from ioctl_write [OF assms(1), of env ?cq ?cpl irq_ok calloc_ok w2] assms(2,22) len obtain u3 where wr:
    "host_write H ?cq ?cpl w2 = Some (True, w2\<lparr>dma := (dma w2)\<lparr>umem := u3, gmem := put_bytes g (zip cqa ?cpl)\<rparr>\<rparr>)"
    by (auto simp: w2_def assms(20))
  define w3 where "w3 = w2\<lparr>dma := (dma w2)\<lparr>umem := u3, gmem := put_bytes g (zip cqa ?cpl)\<rparr>,
      irq_log := irq_log w2 @ [ucast (q_vector q)]\<rparr>"
  have rounds: "io_rounds H q 0 (pending q) dev w = Some (dev, w3)"
    using r c(1) wr by (simp add: assms(11) w1_def [symmetric] w2_def [symmetric] assms(13) [symmetric] Let_def H w3_def)
  have rd: "sq_readable H q" using mapped_queue_readable [OF assms(1,12)] assms(2) by simp
  have run: "nvme_handle_write H ev dev w = Some ((set_queue i (queue_after q (pending q)) dev)
      \<lparr>bar0 := poke (bar0 dev) (0x1000 + 8 * i) (le32 (ucast (ev_data ev)))\<rparr>, w3)"
    using doorbell_served [OF assms(3-10) rd, of w] rounds by simp
  have "put_bytes g (zip cqa ?cpl) a = g a" if "a \<notin> set cqa" for a
    using that by (intro put_bytes_other) (auto dest: set_zip_leftD)
  moreover from this have "seg_data env (put_bytes g (zip cqa ?cpl)) segs = seg_data env g segs"
    unfolding seg_data_addrs using assms(23) by (intro map_cong) auto
  moreover have "map (put_bytes g (zip cqa ?cpl)) cqa = ?cpl"
    using assms(21) len by (intro put_bytes_get) (simp_all add: assms(20))
  ultimately show ?thesis
    using run c(2,3) assms(6,7,11)
    by (simp add: w3_def w2_def w1_def)
qed

text \<open>The card of \<open>queue0\<close>: the command in its slot 3, the page at 0x8000.\<close>

definition guest0 :: "u64 \<Rightarrow> u8" where
  "guest0 a = (if a = 0x10C0 then 2 else if a = 0x10C2 then 7 else if a = 0x10D9 then 0x80 else 0)"

lemma guest0_cmd:
  "nvme_command_of (map guest0 (dma_addrs ram_env 0x10C0 64)) = (block_cmd 2 0x8000)\<lparr>c_dw10 := 0, c_nsid := 0\<rparr>"
  by (simp add: nvme_command_of_def Let_def ram_addrs guest0_def block_cmd_def get16_def get32_def get64_def bytes_of_def
      of_le_def upt_rec)

theorem nvme_read_served_witness:
  "\<exists>dev' w'. nvme_handle_write demo_host (ring_doorbell 0) card0 (demo_world guest0) = Some (dev', w') \<and>
     map (gmem (dma w')) (dma_addrs ram_env 0x8000 4096) = replicate 4096 0 \<and>
     map (gmem (dma w')) (dma_addrs ram_env 0x2030 16) = [0, 0, 0, 0, 0, 0, 0, 0, 0, 0, 1, 0, 7, 0, 1, 0] \<and>
     irq_log w' = [5]"
proof -
  let ?q = "queue0\<lparr>sq_tail := 0\<rparr>" and ?cmd = "(block_cmd 2 0x8000)\<lparr>c_dw10 := 0, c_nsid := 0\<rparr>"
  have q: "slot_of ?q 0 = 3" "cq_slot ?q 0 = 3" "sq_addr ?q = 0x1000" "cq_addr ?q = 0x2000" "q_vector ?q = 5"
    "sq_size ?q = 4" "q_id ?q = 1" "slot_of ?q (Suc 0) = 0" "phase_at ?q 0 = 1"
    by (simp_all add: slot_of_def cq_slot_def phase_at_def queue0_def)
  have cmd: "c_prp1 ?cmd = 0x8000" "io_bytes ?cmd = 4096" "io_start ?cmd = 0" "c_opcode ?cmd = 2" "c_id ?cmd = 7"
    by (simp_all add: block_cmd_def io_bytes_eq io_start_eq io_slba_def cdw_lo16_def)
  have plan: "prp_plan ram_env {} (gmem (dma (demo_world guest0))) (io_req 0x200000 2 ?cmd) [(0x8000, 4096)]"
    by (rule one_page_plan) (simp_all add: cmd prp_list_bytes_def)
  have dis: "set (dma_addrs ram_env 0x2030 16) \<inter> set (seg_addrs ram_env [(0x8000, 4096)]) = {}"
    using ram_range(2) [of "0x2030" 16] ram_range(2) [of "0x8000" 4096] by (fastforce simp: disjoint_iff)
  have slots: "\<forall>s<unat (sq_size ?q). dma_ok ram_env (sq_addr ?q + of_nat s * 64) 64"
  proof (intro allI impI)
    fix s :: nat
    assume "s < unat (sq_size ?q)"
    then have "s = 0 \<or> s = 1 \<or> s = 2 \<or> s = 3" unfolding q by auto
    then show "dma_ok ram_env (sq_addr ?q + of_nat s * 64) 64"
      unfolding q by (elim disjE) (simp_all add: ram_env_ok(1))
  qed
  have fetched: "?cmd = nvme_command_of (map (gmem (dma (demo_world guest0))) (dma_addrs ram_env (sq_addr ?q + of_nat (slot_of ?q 0) * 64) 64))"
    using guest0_cmd unfolding q by (simp add: demo_world_def)
  have cqa: "dma_addrs ram_env 0x2030 16 = dma_addrs ram_env (cq_addr ?q + of_nat (cq_slot ?q 0) * 16) 16"
    unfolding q by simp
  have "\<exists>dev' w'. nvme_handle_write demo_host (ring_doorbell 0) card0 (demo_world guest0) = Some (dev', w') \<and>
    seg_data ram_env (gmem (dma w')) [(0x8000, 4096)] = bytes_of (disk card0) (io_start ?cmd) (io_bytes ?cmd) \<and>
    map (gmem (dma w')) (dma_addrs ram_env 0x2030 16) = nvme_completion_bytes (io_completion ?q 0 ?cmd NVME_SUCCESS) \<and>
    irq_log w' = irq_log (demo_world guest0) @ [ucast (q_vector ?q)] \<and> queues dev' ! 1 = queue_after ?q 1 \<and>
    disk dev' = disk card0 \<and>
    (\<forall>a. a \<notin> set (dma_addrs ram_env 0x2030 16) \<and> a \<notin> set (seg_addrs ram_env [(0x8000, 4096)]) \<longrightarrow>
      gmem (dma w') a = gmem (dma (demo_world guest0)) a)"
  proof (rule nvme_read_served [where i = 1, OF uenv0_calls demo_host_def _ _ _ _ _ _ _ _ _ slots fetched _ _ plan _ _ _ cqa _ _ dis])
    show "?q = (queues card0 ! 1)\<lparr>sq_tail := ucast (ev_data (ring_doorbell 0) AND 0xffff)\<rparr>"
      by (simp add: card0_def ring_doorbell_def)
    show "pending ?q = 1" by (simp add: pending_def queue0_def)
    show "dma_ok ram_env (cq_addr ?q + of_nat (cq_slot ?q 0) * 16) 16" unfolding q by (simp add: ram_env_ok(1))
    show "io_in_disk ?cmd" by (simp add: io_in_disk_def cmd)
  qed (simp_all add: ring_doorbell_def card0_def doorbell_offset_def queue_ok_def queue0_def cmd ram_env_ok(1) ram_range(1))
  moreover have "nvme_completion_bytes (io_completion ?q 0 ?cmd NVME_SUCCESS) = [0, 0, 0, 0, 0, 0, 0, 0, 0, 0, 1, 0, 7, 0, 1, 0]"
    by (simp add: io_completion_def q cmd nvme_completion_bytes_def le32_def le16_def nvme_status_defs NVME_STATUS_def)
  moreover have "bytes_of (disk card0) (io_start ?cmd) (io_bytes ?cmd) = replicate 4096 0"
    unfolding cmd by (simp add: card0_def bytes_of_def map_replicate_const)
  ultimately show ?thesis by (auto simp: demo_world_def q)
qed

end
