(* ===== verification/Trace.thy ===== *)
theory Trace
  imports Prelude
begin

text \<open>
  The MMIO tracer (\<^verbatim>\<open>kernel/trace/smptrace.c\<close> and its headers): a traced range of physical
  addresses has its kernel mappings poisoned, so that every access faults; the fault is emulated on a
  second mapping, the shadow, and reported. The page-table work and the emulation of instructions belong
  to the architectures (theories Riscv, Arm64, X86Trace); here they are arguments.

  \<open>None\<close> is \<open>BUG()\<close>. The shadow is the byte array behind \<open>shadow_va\<close>, the log \<open>io_calls\<close> holds the calls
  of the notifiers (whether a write, and the notification). The union of a notification is the value of
  the member its size selects; nothing reads another one.
\<close>

record smptrace_io =
  io_offset :: u64
  io_data :: u64
  io_size :: u32

datatype pt_level = Level_PTE | Level_PMD | Level_PUD

record smptrace_pte =
  pte_va :: u64
  pte_bits :: u64
  pte_level :: pt_level

record smptrace_map =
  map_va :: u64
  map_len :: u64
  map_pa :: u64
  ptes :: "smptrace_pte list"

record smptrace_ctx =
  notif_read :: bool
  notif_write :: bool
  opaque :: u64
  ctx_pa :: u64
  ctx_len :: u64
  stop_writes :: bool
  maps :: "smptrace_map list"
  shadow_mapped :: bool
  shadow :: bytes
  in_pf :: "nat \<Rightarrow> bool"
  badarea_kp :: bool
  iounmap_kp :: bool
  ioremap_krp :: bool
  io_calls :: "(bool \<times> smptrace_io) list"

definition smptrace_find_pte :: "smptrace_map \<Rightarrow> u64 \<Rightarrow> smptrace_pte option" where
  "smptrace_find_pte m va = find (\<lambda>p. pte_va p = va) (ptes m)"

definition smptrace_find_map_rcu :: "smptrace_ctx \<Rightarrow> u64 \<Rightarrow> smptrace_map option" where
  "smptrace_find_map_rcu ctx va = find (\<lambda>m. va \<ge> map_va m \<and> va < map_va m + map_len m) (maps ctx)"

subsection \<open>Emulated accesses\<close>

definition fill_io_notif :: "u8 list \<Rightarrow> u32 \<Rightarrow> u64 \<Rightarrow> smptrace_io option" where
  "fill_io_notif data sz off =
     (if sz \<in> {1, 2, 4, 8}
      then Some \<lparr>io_offset = off, io_data = of_le (take (unat sz) data), io_size = sz\<rparr>
      else None)"

text \<open>The offset into the traced range, and the check that the access is inside (\<open>BUG_ON\<close>).\<close>

definition io_off :: "smptrace_ctx \<Rightarrow> smptrace_map \<Rightarrow> u64 \<Rightarrow> u64" where
  "io_off ctx m addr = (map_pa m - ctx_pa ctx) + (addr - map_va m)"

definition io_outside :: "smptrace_ctx \<Rightarrow> u64 \<Rightarrow> u32 \<Rightarrow> bool" where
  "io_outside ctx off sz \<longleftrightarrow> off \<ge> ctx_len ctx \<or> off + ucast sz > ctx_len ctx"

definition notify_io :: "bool \<Rightarrow> u8 list \<Rightarrow> u32 \<Rightarrow> u64 \<Rightarrow> smptrace_ctx \<Rightarrow> smptrace_ctx option" where
  "notify_io wr data sz off ctx =
     (if (if wr then notif_write ctx else notif_read ctx)
      then map_option (\<lambda>io. ctx\<lparr>io_calls := io_calls ctx @ [(wr, io)]\<rparr>) (fill_io_notif data sz off)
      else Some ctx)"

definition smptrace_emulate_read ::
    "smptrace_ctx \<Rightarrow> smptrace_map \<Rightarrow> u64 \<Rightarrow> u32 \<Rightarrow> (u8 list \<times> smptrace_ctx) option" where
  "smptrace_emulate_read ctx m addr sz =
     (let off = io_off ctx m addr in
      if io_outside ctx off sz then None
      else (let dst = bytes_of (shadow ctx) (unat off) (unat sz)
            in map_option (Pair dst) (notify_io False dst sz off ctx)))"

definition smptrace_emulate_write ::
    "smptrace_ctx \<Rightarrow> smptrace_map \<Rightarrow> u64 \<Rightarrow> u32 \<Rightarrow> u8 list \<Rightarrow> smptrace_ctx option" where
  "smptrace_emulate_write ctx m addr sz src =
     (let off = io_off ctx m addr in
      if io_outside ctx off sz then None
      else notify_io True src sz off
        (if stop_writes ctx then ctx
         else ctx\<lparr>shadow := poke (shadow ctx) (unat off) (take (unat sz) src)\<rparr>))"

subsection \<open>Mappings come and go\<close>

text \<open>
  The page-table work of an architecture over tables of type \<open>'t\<close>: poisoning answers whether it
  succeeded, and the map with what it saved.
\<close>

type_synonym 't poison_fun = "smptrace_map \<Rightarrow> 't \<Rightarrow> unit res \<times> smptrace_map \<times> 't"
type_synonym 't restore_fun = "smptrace_map \<Rightarrow> 't \<Rightarrow> 't"

definition smptrace_enter_ioremap :: "u64 \<Rightarrow> u64 \<Rightarrow> u64 \<times> u64" where
  "smptrace_enter_ioremap arg0 arg1 = (arg0, arg1)"

text \<open>
  The return of \<open>ioremap\<close>: the answer is the value it returns now, and the address that was unmapped
  again, if any.
\<close>

definition smptrace_exit_ioremap ::
    "'t poison_fun \<Rightarrow> bool \<Rightarrow> u64 \<times> u64 \<Rightarrow> u64 \<Rightarrow> smptrace_ctx \<Rightarrow> 't \<Rightarrow> u64 \<times> u64 option \<times> smptrace_ctx \<times> 't" where
  "smptrace_exit_ioremap poison alloc_ok args va ctx t =
     (let (pa, len) = args in
      if pa < ctx_pa ctx \<or> pa \<ge> ctx_pa ctx + ctx_len ctx then (va, None, ctx, t)
      else if \<not> alloc_ok then (va, None, ctx, t)
      else (case poison \<lparr>map_va = va, map_len = len, map_pa = pa, ptes = []\<rparr> t of
              (Inl _, _, t') \<Rightarrow> (0, Some va, ctx, t')
            | (Inr _, m, t') \<Rightarrow> (va, None, ctx\<lparr>maps := maps ctx @ [m]\<rparr>, t')))"

fun take_map :: "u64 \<Rightarrow> smptrace_map list \<Rightarrow> smptrace_map option \<times> smptrace_map list" where
  "take_map va [] = (None, [])"
| "take_map va (m # ms) =
     (if map_va m = va then (Some m, ms) else (let (f, ms') = take_map va ms in (f, m # ms')))"

definition smptrace_enter_iounmap :: "'t restore_fun \<Rightarrow> u64 \<Rightarrow> smptrace_ctx \<Rightarrow> 't \<Rightarrow> smptrace_ctx \<times> 't" where
  "smptrace_enter_iounmap restore va ctx t =
     (case take_map va (maps ctx) of
        (None, _) \<Rightarrow> (ctx, t)
      | (Some m, ms) \<Rightarrow> (ctx\<lparr>maps := ms\<rparr>, restore m t))"

subsection \<open>Starting and stopping\<close>

text \<open>The answers of the registration of the three probes, in the order of the calls.\<close>

definition smptrace_register_probes :: "unit res \<Rightarrow> unit res \<Rightarrow> unit res \<Rightarrow> smptrace_ctx \<Rightarrow> unit res \<times> smptrace_ctx" where
  "smptrace_register_probes badarea iounmap ioremap ctx =
     (case badarea of
        Inl e \<Rightarrow> (Inl e, ctx\<lparr>shadow_mapped := False, ctx_pa := 0\<rparr>)
      | Inr _ \<Rightarrow>
     (case iounmap of
        Inl e \<Rightarrow> (Inl e, ctx\<lparr>badarea_kp := False, shadow_mapped := False, ctx_pa := 0\<rparr>)
      | Inr _ \<Rightarrow>
     (case ioremap of
        Inl e \<Rightarrow> (Inl e, ctx\<lparr>iounmap_kp := False, badarea_kp := False, shadow_mapped := False, ctx_pa := 0\<rparr>)
      | Inr _ \<Rightarrow> (Inr (), ctx\<lparr>badarea_kp := True, iounmap_kp := True, ioremap_krp := True\<rparr>))))"

definition smptrace_init :: "bool \<Rightarrow> (smptrace_ctx \<Rightarrow> unit res \<times> smptrace_ctx) \<Rightarrow> smptrace_ctx \<Rightarrow> unit res \<times> smptrace_ctx" where
  "smptrace_init percpu_ok activate ctx =
     (let ctx1 = ctx\<lparr>maps := []\<rparr> in
      if \<not> percpu_ok then (Inl ENOMEM, ctx1)
      else activate (ctx1\<lparr>in_pf := (\<lambda>_. False)\<rparr>))"

definition smptrace_deactivate :: "'t restore_fun \<Rightarrow> smptrace_ctx \<Rightarrow> 't \<Rightarrow> smptrace_ctx \<times> 't" where
  "smptrace_deactivate restore ctx t =
     (ctx\<lparr>ioremap_krp := False, iounmap_kp := False, maps := [], badarea_kp := False, shadow_mapped := False\<rparr>,
      fold restore (maps ctx) t)"

definition smptrace_destroy :: "'t restore_fun \<Rightarrow> smptrace_ctx \<Rightarrow> 't \<Rightarrow> smptrace_ctx \<times> 't" where
  "smptrace_destroy restore ctx t = smptrace_deactivate restore ctx t"

text \<open>\<open>smptrace_arch_activate\<close>: the shadow mapping, then the probes; the three architectures agree.\<close>

definition arch_activate :: "bool \<Rightarrow> unit res \<Rightarrow> unit res \<Rightarrow> unit res \<Rightarrow> smptrace_ctx \<Rightarrow> unit res \<times> smptrace_ctx" where
  "arch_activate ioremap_ok p1 p2 p3 ctx =
     (if \<not> ioremap_ok then (Inl ENOMEM, ctx\<lparr>shadow_mapped := False\<rparr>)
      else smptrace_register_probes p1 p2 p3 (ctx\<lparr>shadow_mapped := True\<rparr>))"

subsection \<open>The probe on the fault handler\<close>

text \<open>
  What the probes of the three architectures do after their own filters: the fault must be inside a
  poisoned mapping, and not be caused by an emulation on the same CPU; then the instruction is emulated.
  The answer says whether the fault counts as handled.
\<close>

definition fault_body ::
    "(smptrace_ctx \<Rightarrow> smptrace_map \<Rightarrow> u64 \<Rightarrow> 'r \<Rightarrow> (unit res \<times> smptrace_ctx \<times> 'r) option) \<Rightarrow>
       nat \<Rightarrow> smptrace_ctx \<Rightarrow> u64 \<Rightarrow> 'r \<Rightarrow> (bool \<times> smptrace_ctx \<times> 'r) option" where
  "fault_body emulate cpu ctx va regs =
     (case smptrace_find_map_rcu ctx va of
        None \<Rightarrow> Some (False, ctx, regs)
      | Some m \<Rightarrow>
          if in_pf ctx cpu then Some (False, ctx, regs)
          else (case emulate (ctx\<lparr>in_pf := (in_pf ctx)(cpu := True)\<rparr>) m va regs of
                  None \<Rightarrow> None
                | Some (rc, ctx', regs') \<Rightarrow>
                    Some (rc = Inr (), ctx'\<lparr>in_pf := (in_pf ctx')(cpu := False)\<rparr>, regs')))"

subsection \<open>What emulation leaves alone\<close>

text \<open>Same configuration: everything but the shadow, the log and the per-CPU flags.\<close>

definition same_config :: "smptrace_ctx \<Rightarrow> smptrace_ctx \<Rightarrow> bool" where
  "same_config ctx ctx' \<longleftrightarrow> ctx' = ctx\<lparr>shadow := shadow ctx', io_calls := io_calls ctx'\<rparr>"

lemma same_config_refl [simp]: "same_config ctx ctx"
  by (simp add: same_config_def)

lemma same_config_trans: "same_config a b \<Longrightarrow> same_config b c \<Longrightarrow> same_config a c"
  unfolding same_config_def by (cases a; cases b; cases c) simp

lemma same_config_fields:
  assumes "same_config ctx ctx'"
  shows "maps ctx' = maps ctx" "in_pf ctx' = in_pf ctx" "ctx_pa ctx' = ctx_pa ctx" "ctx_len ctx' = ctx_len ctx"
    "opaque ctx' = opaque ctx" "notif_read ctx' = notif_read ctx" "notif_write ctx' = notif_write ctx"
    "stop_writes ctx' = stop_writes ctx"
  using assms unfolding same_config_def by (cases ctx; cases ctx'; simp)+

lemma notify_io_Some:
  assumes "notify_io wr data sz off ctx = Some ctx'"
  shows "same_config ctx ctx'" "shadow ctx' = shadow ctx"
  using assms by (auto simp: notify_io_def same_config_def split: if_splits)

lemma emulate_read_Some:
  assumes "smptrace_emulate_read ctx m addr sz = Some (dst, ctx')"
  shows "same_config ctx ctx'" "shadow ctx' = shadow ctx" "length dst = unat sz"
    "dst = bytes_of (shadow ctx) (unat (io_off ctx m addr)) (unat sz)"
  using assms by (auto simp: smptrace_emulate_read_def Let_def bytes_of_def dest: notify_io_Some split: if_splits)

lemma emulate_write_Some:
  assumes "smptrace_emulate_write ctx m addr sz src = Some ctx'"
  shows "same_config ctx ctx'"
proof -
  let ?c = "if stop_writes ctx then ctx
    else ctx\<lparr>shadow := poke (shadow ctx) (unat (io_off ctx m addr)) (take (unat sz) src)\<rparr>"
  have "notify_io True src sz (io_off ctx m addr) ?c = Some ctx'"
    using assms by (simp add: smptrace_emulate_write_def Let_def split: if_splits)
  from notify_io_Some(1) [OF this] show ?thesis
    by (rule same_config_trans [rotated]) (simp add: same_config_def)
qed

text \<open>
  What the probe asks of the emulation of an instruction, and what it then guarantees to the kernel: a
  fault that it does not handle is left to the kernel exactly as it was, and one that it handles leaves
  the tracer as it was, up to the shadow and the log.
\<close>

locale fault_emulator =
  fixes emulate :: "smptrace_ctx \<Rightarrow> smptrace_map \<Rightarrow> u64 \<Rightarrow> 'r \<Rightarrow> (unit res \<times> smptrace_ctx \<times> 'r) option"
  assumes keeps_config: "emulate ctx m va regs = Some (rc, ctx', regs') \<Longrightarrow> same_config ctx ctx'"
    and fails_clean: "emulate ctx m va regs = Some (Inl e, ctx', regs') \<Longrightarrow> ctx' = ctx \<and> regs' = regs"
begin

lemma unhandled:
  assumes "fault_body emulate cpu ctx va regs = Some (False, ctx', regs')"
  shows "ctx' = ctx \<and> regs' = regs"
proof (cases "smptrace_find_map_rcu ctx va")
  case (Some m)
  show ?thesis
  proof (cases "in_pf ctx cpu")
    case False
    then obtain rc c where c: "emulate (ctx\<lparr>in_pf := (in_pf ctx)(cpu := True)\<rparr>) m va regs = Some (rc, c, regs')"
        "rc \<noteq> Inr ()" "ctx' = c\<lparr>in_pf := (in_pf c)(cpu := False)\<rparr>"
      using assms Some by (auto simp: fault_body_def split: option.splits)
    then obtain e where "rc = Inl e" by (cases rc) auto
    from fails_clean [OF c(1) [unfolded this]] c(3) False
    show ?thesis by (simp add: fun_upd_idem)
  qed (use assms Some in \<open>simp add: fault_body_def\<close>)
qed (use assms in \<open>simp add: fault_body_def\<close>)

lemma handled:
  assumes "fault_body emulate cpu ctx va regs = Some (True, ctx', regs')"
  shows "\<exists>m c. smptrace_find_map_rcu ctx va = Some m \<and> \<not> in_pf ctx cpu \<and>
    emulate (ctx\<lparr>in_pf := (in_pf ctx)(cpu := True)\<rparr>) m va regs = Some (Inr (), c, regs') \<and>
    ctx' = c\<lparr>in_pf := in_pf ctx\<rparr> \<and> same_config ctx ctx'"
proof -
  obtain m where m: "smptrace_find_map_rcu ctx va = Some m" "\<not> in_pf ctx cpu"
    using assms by (auto simp: fault_body_def split: option.splits if_splits)
  then obtain c where c: "emulate (ctx\<lparr>in_pf := (in_pf ctx)(cpu := True)\<rparr>) m va regs = Some (Inr (), c, regs')"
      "ctx' = c\<lparr>in_pf := (in_pf c)(cpu := False)\<rparr>"
    using assms by (auto simp: fault_body_def split: option.splits)
  note k = keeps_config [OF c(1)]
  have pf: "(in_pf c)(cpu := False) = in_pf ctx" using same_config_fields(2) [OF k] m(2) by (simp add: fun_upd_idem)
  have "same_config ctx (c\<lparr>in_pf := in_pf ctx\<rparr>)" using k unfolding same_config_def by (cases ctx; cases c) simp
  then show ?thesis using m c pf by auto
qed

end

end
