(* ===== verification/TraceBar.thy ===== *)
theory TraceBar
  imports Trace Ring Session
begin

text \<open>
  Tracing a BAR from user space (\<^verbatim>\<open>kernel/framework/userspace.c\<close>): the ioctl that starts the tracer of
  theory Trace on a registered BAR, the notifiers that turn its notifications into events of the shared
  ring, and the end of tracing when the session goes away.

  \<open>mem\<close> is the content of the traced BAR, which the shadow mapping shows. \<open>None\<close> is a kernel crash:
  \<open>BUG()\<close>, or a lock taken through a NULL function 0.
\<close>

definition PCIEM_EVENT_MMIO_READ :: u32 where "PCIEM_EVENT_MMIO_READ = 1"
definition PCIEM_EVENT_MMIO_WRITE :: u32 where "PCIEM_EVENT_MMIO_WRITE = 2"

subsection \<open>Notifications become events\<close>

text \<open>The member of the union that the size selects, widened.\<close>

definition trace_event :: "smptrace_ctx \<Rightarrow> smptrace_io \<Rightarrow> u32 \<Rightarrow> event option" where
  "trace_event ctx io ty =
     (let ev = (\<lambda>d. Some \<lparr>ev_seq = 0, ev_type = ty, ev_bar = ucast (opaque ctx), ev_offset = io_offset io,
                          ev_size = io_size io, ev_data = d, ev_timestamp = 0\<rparr>) in
      if io_size io = 1 then ev (ucast (ucast (io_data io) :: u8))
      else if io_size io = 2 then ev (ucast (ucast (io_data io) :: u16))
      else if io_size io = 4 then ev (ucast (ucast (io_data io) :: u32))
      else if io_size io = 8 then ev (io_data io)
      else None)"

definition pciem_notif_trace :: "u64 \<Rightarrow> smptrace_ctx \<Rightarrow> smptrace_io \<Rightarrow> u32 \<Rightarrow> us_events option \<Rightarrow> us_events option option" where
  "pciem_notif_trace now ctx io ty uso =
     (case trace_event ctx io ty of None \<Rightarrow> None | Some ev \<Rightarrow> pciem_userspace_queue_event now uso ev)"

definition pciem_notif_write :: "u64 \<Rightarrow> smptrace_ctx \<Rightarrow> smptrace_io \<Rightarrow> us_events option \<Rightarrow> us_events option option" where
  "pciem_notif_write now ctx io uso = pciem_notif_trace now ctx io PCIEM_EVENT_MMIO_WRITE uso"

definition pciem_notif_read :: "u64 \<Rightarrow> smptrace_ctx \<Rightarrow> smptrace_io \<Rightarrow> us_events option \<Rightarrow> us_events option option" where
  "pciem_notif_read now ctx io uso = pciem_notif_trace now ctx io PCIEM_EVENT_MMIO_READ uso"

text \<open>The calls of the notifiers that the tracer logged, in order; \<open>uso\<close> is the session of the tracer.\<close>

fun run_notifs :: "u64 \<Rightarrow> smptrace_ctx \<Rightarrow> (bool \<times> smptrace_io) list \<Rightarrow> us_events option \<Rightarrow> us_events option option" where
  "run_notifs now ctx [] uso = Some uso"
| "run_notifs now ctx ((wr, io) # calls) uso =
     (case (if wr then pciem_notif_write now ctx io uso else pciem_notif_read now ctx io uso) of
        None \<Rightarrow> None
      | Some uso' \<Rightarrow> run_notifs now ctx calls uso')"

subsection \<open>Starting and stopping\<close>

record pciem_tracer =
  tracer_us :: bool
  tracer_ctx :: smptrace_ctx

type_synonym tracers = "nat \<Rightarrow> nat \<Rightarrow> pciem_tracer"

record trace_req =
  tb_index :: u32
  tb_flags :: u32
  tb_func :: u8

definition set_tracer :: "nat \<Rightarrow> nat \<Rightarrow> pciem_tracer \<Rightarrow> tracers \<Rightarrow> tracers" where
  "set_tracer f i t trs = trs(f := (trs f)(i := t))"

text \<open>The tracer as the first critical section leaves it: cleared, then filled in.\<close>

definition traced_ctx :: "trace_req \<Rightarrow> bar_info \<Rightarrow> bytes \<Rightarrow> smptrace_ctx" where
  "traced_ctx q bar mem =
     \<lparr>notif_read = tb_flags q AND 1 \<noteq> 0, notif_write = tb_flags q AND 2 \<noteq> 0, opaque = ucast (tb_index q),
      ctx_pa = carved_start bar, ctx_len = bar_size bar, stop_writes = tb_flags q AND 4 \<noteq> 0,
      maps = [], shadow_mapped = False, shadow = mem, in_pf = (\<lambda>_. False),
      badarea_kp = False, iounmap_kp = False, ioremap_krp = False, io_calls = []\<rparr>"

definition pciem_ioctl_trace_bar ::
    "(smptrace_ctx \<Rightarrow> unit res \<times> smptrace_ctx) \<Rightarrow> bytes \<Rightarrow> trace_req option \<Rightarrow> 'g kernel \<Rightarrow> session \<Rightarrow> tracers \<Rightarrow>
       (unit res \<times> tracers) option" where
  "pciem_ioctl_trace_bar init mem arg k us trs =
     (case arg of None \<Rightarrow> Some (Inl EFAULT, trs)
      | Some q \<Rightarrow>
          (let f = unat (tb_func q); i = unat (tb_index q) in
           if f \<ge> PCIEM_MAX_FUNCTIONS then Some (Inl EINVAL, trs)
           else if i \<ge> PCI_STD_NUM_BARS then Some (Inl EINVAL, trs)
           else if slot_funcs us 0 = None then None
           else (case Option.bind (us_get_rc us (tb_func q)) (k_objs k) of
                   None \<Rightarrow> Some (Inl ENODEV, trs)
                 | Some v \<Rightarrow>
                     if tracer_us (trs f i) then Some (Inl EINVAL, trs)
                     else if carved_start (bars v i) = 0 \<or> bar_size (bars v i) = 0 then Some (Inl ENXIO, trs)
                     else (case init (traced_ctx q (bars v i) mem) of
                             (Inl e, c) \<Rightarrow> Some (Inl e, set_tracer f i \<lparr>tracer_us = False, tracer_ctx = c\<rparr> trs)
                           | (Inr _, c) \<Rightarrow> Some (Inr (), set_tracer f i \<lparr>tracer_us = True, tracer_ctx = c\<rparr> trs)))))"

fun destroy_tracers :: "'t restore_fun \<Rightarrow> (nat \<times> nat) list \<Rightarrow> tracers \<Rightarrow> 't \<Rightarrow> tracers \<times> 't" where
  "destroy_tracers restore [] trs t = (trs, t)"
| "destroy_tracers restore ((f, i) # fis) trs t =
     (if tracer_us (trs f i)
      then (let (c, t') = smptrace_destroy restore (tracer_ctx (trs f i)) t
            in destroy_tracers restore fis (set_tracer f i \<lparr>tracer_us = False, tracer_ctx = c\<rparr> trs) t')
      else destroy_tracers restore fis trs t)"

definition pciem_tracing_destroy :: "'t restore_fun \<Rightarrow> tracers \<Rightarrow> 't \<Rightarrow> tracers \<times> 't" where
  "pciem_tracing_destroy restore trs t =
     destroy_tracers restore (List.product [0..<PCIEM_MAX_FUNCTIONS] [0..<PCI_STD_NUM_BARS]) trs t"

subsection \<open>Lemmas\<close>

text \<open>A successful start leaves the tracer configured as the request says, with nothing mapped or logged.\<close>

lemma arch_activate_ok:
  "arch_activate ok p1 p2 p3 c = (Inr (), c') \<Longrightarrow>
     c' = c\<lparr>shadow_mapped := True, badarea_kp := True, iounmap_kp := True, ioremap_krp := True\<rparr>"
  by (auto simp: arch_activate_def smptrace_register_probes_def split: if_splits sum.splits)

lemma trace_bar_ok:
  assumes "pciem_ioctl_trace_bar (smptrace_init percpu (arch_activate ok p1 p2 p3)) mem (Some q) k us trs = Some (Inr (), trs')"
    and "Option.bind (us_get_rc us (tb_func q)) (k_objs k) = Some v"
  shows "trs' = set_tracer (unat (tb_func q)) (unat (tb_index q)) \<lparr>tracer_us = True, tracer_ctx =
     (traced_ctx q (bars v (unat (tb_index q))) mem)\<lparr>shadow_mapped := True, badarea_kp := True, iounmap_kp := True, ioremap_krp := True\<rparr>\<rparr> trs"
proof -
  let ?c = "traced_ctx q (bars v (unat (tb_index q))) mem"
  obtain c where c: "smptrace_init percpu (arch_activate ok p1 p2 p3) ?c = (Inr (), c)"
      "trs' = set_tracer (unat (tb_func q)) (unat (tb_index q)) \<lparr>tracer_us = True, tracer_ctx = c\<rparr> trs"
    using assms by (auto simp: pciem_ioctl_trace_bar_def Let_def split: if_splits sum.splits prod.splits)
  have same: "?c\<lparr>maps := [], in_pf := (\<lambda>_. False)\<rparr> = ?c" by (simp add: traced_ctx_def)
  have "arch_activate ok p1 p2 p3 ?c = (Inr (), c)"
    using c(1) by (simp add: smptrace_init_def Let_def same split: if_splits)
  from arch_activate_ok [OF this] c(2) show ?thesis by simp
qed

lemma of_le_short:
  assumes "length bs = n" "n \<in> {1, 2, 4, 8}"
  shows "n = 1 \<Longrightarrow> ucast (ucast (of_le bs) :: u8) = of_le bs" "n = 2 \<Longrightarrow> ucast (ucast (of_le bs) :: u16) = of_le bs"
    "n = 4 \<Longrightarrow> ucast (ucast (of_le bs) :: u32) = of_le bs"
  by (rule bit_word_eqI; use assms of_le_bit [of bs] in \<open>auto simp: bit_simps\<close>)+

lemma ucast_up_down: "ucast (ucast (x :: u32) :: u64) = x"
  by (rule bit_word_eqI) (auto simp: bit_simps)

text \<open>What one notification does to the ring.\<close>

lemma queue_event_content:
  assumes "ring_ok (shared_ring n)" "length (ring_content (shared_ring n)) < 255"
  shows "\<exists>n'. pciem_userspace_queue_event now (Some n) ev = Some (Some n') \<and> ring_ok (shared_ring n') \<and>
    ring_content (shared_ring n') = ring_content (shared_ring n) @ [ev\<lparr>ev_timestamp := now\<rparr>]"
proof -
  obtain r where r: "pciem_shared_ring_push (shared_ring n) (ev\<lparr>ev_timestamp := now\<rparr>) = Some (True, r)" "ring_ok r"
      "ring_content r = ring_content (shared_ring n) @ [ev\<lparr>ev_timestamp := now\<rparr>]"
    using ring.enq_spec [OF assms(1), of "ev\<lparr>ev_timestamp := now\<rparr>"] assms(2) by auto
  show ?thesis
    by (cases "eventfd n") (simp_all add: pciem_userspace_queue_event_def r notify_event_def pciem_eventfd_signal_def)
qed

lemma trace_event_filled:
  assumes "fill_io_notif src sz off = Some io" "unat sz \<le> length src"
  shows "trace_event ctx io ty = Some \<lparr>ev_seq = 0, ev_type = ty, ev_bar = ucast (opaque ctx), ev_offset = off, ev_size = sz,
    ev_data = of_le (take (unat sz) src), ev_timestamp = 0\<rparr>"
proof -
  have "sz \<in> {1, 2, 4, 8}" and io: "io = \<lparr>io_offset = off, io_data = of_le (take (unat sz) src), io_size = sz\<rparr>"
    using assms(1) by (auto simp: fill_io_notif_def split: if_splits)
  moreover have "length (take (unat sz) src) = unat sz" using assms(2) by simp
  ultimately show ?thesis
    using of_le_short [of "take (unat sz) src" "unat sz"] by (auto simp: trace_event_def)
qed

subsection \<open>Properties\<close>

text \<open>
  C19. What the driver stores into a traced BAR reaches user space: after a successful start with writes
  requested, the emulation of a store of 1, 2, 4 or 8 bytes that lies inside the BAR does not stop the
  kernel, and as long as the ring has room it appends exactly one event, naming the BAR, the offset inside
  it, the size and the value stored; the BAR itself changes unless the request asked to stop writes.
\<close>

theorem traced_store_event:
  assumes start: "pciem_ioctl_trace_bar (smptrace_init percpu (arch_activate ok p1 p2 p3)) mem (Some q) k us trs = Some (Inr (), trs')"
    and v: "Option.bind (us_get_rc us (tb_func q)) (k_objs k) = Some v"
    and "writes": "tb_flags q AND 2 \<noteq> 0"
    and off: "off = (map_pa m - carved_start (bars v (unat (tb_index q)))) + (addr - map_va m)"
    and sz: "sz \<in> {1, 2, 4, 8}" "unat sz \<le> length src" "unat off + unat sz \<le> unat (bar_size (bars v (unat (tb_index q))))"
    and ring: "ring_ok (shared_ring n)" "length (ring_content (shared_ring n)) < 255"
  shows "\<exists>ctx' n'. smptrace_emulate_write (tracer_ctx (trs' (unat (tb_func q)) (unat (tb_index q)))) m addr sz src = Some ctx' \<and>
    run_notifs now ctx' (io_calls ctx') (Some n) = Some (Some n') \<and>
    ring_content (shared_ring n') = ring_content (shared_ring n) @
      [\<lparr>ev_seq = 0, ev_type = PCIEM_EVENT_MMIO_WRITE, ev_bar = tb_index q, ev_offset = off, ev_size = sz,
        ev_data = of_le (take (unat sz) src), ev_timestamp = now\<rparr>] \<and>
    shadow ctx' = (if tb_flags q AND 4 \<noteq> 0 then mem else poke mem (unat off) (take (unat sz) src))"
proof -
  define c where "c = tracer_ctx (trs' (unat (tb_func q)) (unat (tb_index q)))"
  have c: "ctx_pa c = carved_start (bars v (unat (tb_index q)))" "ctx_len c = bar_size (bars v (unat (tb_index q)))"
      "opaque c = ucast (tb_index q)" "notif_write c" "stop_writes c = (tb_flags q AND 4 \<noteq> 0)" "shadow c = mem" "io_calls c = []"
    using "writes" by (simp_all add: c_def trace_bar_ok [OF start v] set_tracer_def traced_ctx_def)
  have io: "io_off c m addr = off" by (simp add: io_off_def c(1) off)
  have pos: "0 < unat sz" using sz(1) by auto
  have "off < ctx_len c" using sz(3) pos by (simp add: word_less_nat_alt c(2))
  moreover have "unat (off + ucast sz) = unat off + unat sz"
    using order_le_less_trans [OF sz(3) unsigned_less] sz(1) by (subst unat_add_small) auto
  ultimately have inside: "\<not> io_outside c off sz"
    using sz(3) by (simp add: io_outside_def word_less_nat_alt not_le c(2))
  obtain io where fill: "fill_io_notif src sz off = Some io" using sz(1) by (auto simp: fill_io_notif_def)
  define c' where "c' = (if stop_writes c then c else c\<lparr>shadow := poke mem (unat off) (take (unat sz) src)\<rparr>)"
  define w where "w = c'\<lparr>io_calls := [(True, io)]\<rparr>"
  have "smptrace_emulate_write c m addr sz src = Some w"
    using inside fill c by (simp add: smptrace_emulate_write_def Let_def io notify_io_def c'_def w_def)
  moreover have "opaque w = ucast (tb_index q)" "io_calls w = [(True, io)]"
    "shadow w = (if tb_flags q AND 4 \<noteq> 0 then mem else poke mem (unat off) (take (unat sz) src))"
    using c by (simp_all add: w_def c'_def)
  moreover from trace_event_filled [OF fill sz(2), of w PCIEM_EVENT_MMIO_WRITE] this(2)
  have "trace_event w io PCIEM_EVENT_MMIO_WRITE = Some \<lparr>ev_seq = 0, ev_type = PCIEM_EVENT_MMIO_WRITE, ev_bar = tb_index q,
      ev_offset = off, ev_size = sz, ev_data = of_le (take (unat sz) src), ev_timestamp = 0\<rparr>"
    using calculation(2) by (simp add: ucast_up_down)
  ultimately show ?thesis
    using queue_event_content [OF ring, of now "\<lparr>ev_seq = 0, ev_type = PCIEM_EVENT_MMIO_WRITE, ev_bar = tb_index q,
      ev_offset = off, ev_size = sz, ev_data = of_le (take (unat sz) src), ev_timestamp = 0\<rparr>"]
    by (auto simp: c_def pciem_notif_write_def pciem_notif_trace_def)
qed

definition traced_dev :: rc_dev where
  "traced_dev = set_bar dev0 2 (bar0\<lparr>bar_size := 0x1000, carved_start := 0x100000000\<rparr>)"

definition traced_kernel :: "unit kernel" where
  "traced_kernel = \<lparr>k_pool = pool0, k_host = host0, k_objs = [1 \<mapsto> traced_dev], k_next = 2\<rparr>"

definition traced_session :: session where
  "traced_session = \<lparr>slot_funcs = [0 \<mapsto> 1], num_funcs = 1, slot_mode = VIRTUAL_ROOT, reg = REGISTERED, refcnt = 2\<rparr>"

definition tracers0 :: tracers where
  "tracers0 = (\<lambda>_ _. \<lparr>tracer_us = False, tracer_ctx = traced_ctx \<lparr>tb_index = 0, tb_flags = 0, tb_func = 0\<rparr> bar0 (\<lambda>_. 0)\<rparr>)"

definition quiet :: us_events where
  "quiet = \<lparr>eventfd = None, event_pending = False, signals = (\<lambda>_. 0),
            shared_ring = \<lparr>ring_head = 0, ring_tail = 0, events = (\<lambda>_. event0)\<rparr>\<rparr>"

lemma quiet_ring: "ring_ok (shared_ring quiet)" "ring_content (shared_ring quiet) = []"
  by (simp_all add: quiet_def ring_ok_def ring_content_def ring_len_def)

text \<open>A driver stores 4 bytes at offset 0x14 of BAR 2, which it mapped at offset 0x10.\<close>

definition traced_map :: smptrace_map where
  "traced_map = \<lparr>map_va = 0xFFFF000000000000, map_len = 0x100, map_pa = 0x100000010, ptes = []\<rparr>"

theorem traced_store_event_witness:
  "\<exists>trs' ctx' n'. pciem_ioctl_trace_bar (smptrace_init True (arch_activate True (Inr ()) (Inr ()) (Inr ()))) (\<lambda>_. 0)
      (Some \<lparr>tb_index = 2, tb_flags = 2, tb_func = 0\<rparr>) traced_kernel traced_session tracers0 = Some (Inr (), trs') \<and>
    smptrace_emulate_write (tracer_ctx (trs' 0 2)) traced_map 0xFFFF000000000004 4 [1, 2, 3, 4] = Some ctx' \<and>
    run_notifs 9 ctx' (io_calls ctx') (Some quiet) = Some (Some n') \<and>
    ring_content (shared_ring n') = [\<lparr>ev_seq = 0, ev_type = PCIEM_EVENT_MMIO_WRITE, ev_bar = 2, ev_offset = 0x14, ev_size = 4,
        ev_data = of_le [1, 2, 3, 4], ev_timestamp = 9\<rparr>] \<and>
    shadow ctx' = poke (\<lambda>_. 0) 0x14 [1, 2, 3, 4]"
proof -
  let ?q = "\<lparr>tb_index = 2, tb_flags = 2, tb_func = 0\<rparr>"
  have v: "Option.bind (us_get_rc traced_session (tb_func ?q)) (k_objs traced_kernel) = Some traced_dev"
    by (simp add: us_get_rc_def PCIEM_MAX_FUNCTIONS_def traced_session_def traced_kernel_def)
  have bar: "bars traced_dev (unat (tb_index ?q)) = bar0\<lparr>bar_size := 0x1000, carved_start := 0x100000000\<rparr>"
    by (simp add: traced_dev_def)
  obtain trs' where start: "pciem_ioctl_trace_bar (smptrace_init True (arch_activate True (Inr ()) (Inr ()) (Inr ()))) (\<lambda>_. 0)
      (Some ?q) traced_kernel traced_session tracers0 = Some (Inr (), trs')"
    using v bar by (auto simp: pciem_ioctl_trace_bar_def Let_def smptrace_init_def arch_activate_def
        smptrace_register_probes_def PCIEM_MAX_FUNCTIONS_def PCI_STD_NUM_BARS_def traced_session_def tracers0_def)
  then show ?thesis
    using traced_store_event [OF start v, where off = "0x14" and m = traced_map and addr = "0xFFFF000000000004" and sz = 4
        and src = "[1, 2, 3, 4]" and n = quiet and now = 9] bar quiet_ring
    by (simp add: traced_map_def)
qed

end
