(* ===== verification/Irqfd.thy ===== *)
theory Irqfd
  imports Session
begin

text \<open>
  Interrupts raised through eventfds (\<^verbatim>\<open>kernel/framework/userspace.c\<close>): \<open>set_irqfd\<close> hangs an object on the
  wait queue of an eventfd; a write to the eventfd queues its work, and the work raises the interrupt.
  An eventfd is its counter. An object is listed until its shutdown is requested, and freed by the queued
  shutdown. \<open>None\<close> is \<open>BUG()\<close>.
\<close>

record irqfd =
  irq_trigger :: nat
  irq_vector :: u32
  irq_flags :: u32
  irq_func :: u8
  waiting :: bool
  listed :: bool
  inject_queued :: bool
  shutdown_queued :: bool

record irqfds =
  cleanup_wq :: bool
  items :: "irqfd list"

definition pciem_irqfds_init :: "bool \<Rightarrow> irqfds res" where
  "pciem_irqfds_init wq_ok = (if wq_ok then Inr \<lparr>cleanup_wq = True, items = []\<rparr> else Inl ENOMEM)"

subsection \<open>The work of an irqfd\<close>

definition pciem_irqfd_work :: "irq_view \<Rightarrow> 'g kernel \<Rightarrow> session option \<Rightarrow> irqfd \<Rightarrow> 'g kernel option" where
  "pciem_irqfd_work view k uso i =
     (case uso of None \<Rightarrow> Some k
      | Some us \<Rightarrow>
          (case us_get_rc us (irq_func i) of None \<Rightarrow> Some k
           | Some a \<Rightarrow>
               (case k_objs k a of None \<Rightarrow> Some k
                | Some v \<Rightarrow>
                    (case pciem_trigger_msi view v (sint (irq_vector i)) of
                       (Inl _, _) \<Rightarrow> None
                     | (Inr _, v') \<Rightarrow> Some (put_obj a v' k)))))"

definition irqfd_run :: "irq_view \<Rightarrow> 'g kernel \<Rightarrow> session option \<Rightarrow> irqfd \<Rightarrow> (irqfd \<times> 'g kernel) option" where
  "irqfd_run view k uso i =
     (if inject_queued i then map_option (Pair (i\<lparr>inject_queued := False\<rparr>)) (pciem_irqfd_work view k uso i)
      else Some (i, k))"

subsection \<open>Shutdown\<close>

definition pciem_irqfd_shutdown :: "irqfd \<Rightarrow> irqfd" where
  "pciem_irqfd_shutdown i = (if listed i then i\<lparr>listed := False, shutdown_queued := True\<rparr> else i)"

text \<open>The queued shutdown leaves the wait queue, runs what is still queued, and frees the object.\<close>

definition pciem_irqfd_shutdown_work :: "irq_view \<Rightarrow> session option \<Rightarrow> irqfd \<Rightarrow> 'g kernel \<Rightarrow> 'g kernel option" where
  "pciem_irqfd_shutdown_work view uso i k = map_option snd (irqfd_run view k uso (i\<lparr>waiting := False\<rparr>))"

fun run_shutdowns :: "irq_view \<Rightarrow> session option \<Rightarrow> irqfd list \<Rightarrow> 'g kernel \<Rightarrow> (irqfd list \<times> 'g kernel) option" where
  "run_shutdowns view uso [] k = Some ([], k)"
| "run_shutdowns view uso (i # is) k =
     (if shutdown_queued i
      then (case pciem_irqfd_shutdown_work view uso i k of None \<Rightarrow> None | Some k' \<Rightarrow> run_shutdowns view uso is k')
      else map_option (\<lambda>(is', k'). (i # is', k')) (run_shutdowns view uso is k))"

definition pciem_irqfds_shutdown :: "irq_view \<Rightarrow> session option \<Rightarrow> irqfds \<Rightarrow> 'g kernel \<Rightarrow> (irqfds \<times> 'g kernel) option" where
  "pciem_irqfds_shutdown view uso fds k =
     (if \<not> cleanup_wq fds then Some (fds, k)
      else map_option (\<lambda>(is, k'). (\<lparr>cleanup_wq = False, items = is\<rparr>, k'))
             (run_shutdowns view uso (map pciem_irqfd_shutdown (items fds)) k))"

subsection \<open>Wake-ups and registration\<close>

text \<open>The wake-up of an eventfd, readable or hung up: the counter it leaves and the object.\<close>

definition pciem_irqfd_wakeup :: "bool \<Rightarrow> bool \<Rightarrow> nat \<Rightarrow> irqfd \<Rightarrow> nat \<times> irqfd" where
  "pciem_irqfd_wakeup pollin pollhup count i =
     (let (count', i1) = (if pollin then (0, i\<lparr>inject_queued := True\<rparr>) else (count, i))
      in (count', if pollhup then pciem_irqfd_shutdown i1 else i1))"

definition pciem_irqfd_ptable_queue_proc :: "irqfd \<Rightarrow> irqfd" where
  "pciem_irqfd_ptable_queue_proc i = i\<lparr>waiting := True, listed := True\<rparr>"

record irqfd_cfg =
  ic_eventfd :: int
  ic_vector :: u32
  ic_flags :: u32
  ic_func :: u8

definition irqfd_of :: "irqfd_cfg \<Rightarrow> nat \<Rightarrow> irqfd" where
  "irqfd_of req e = \<lparr>irq_trigger = e, irq_vector = ic_vector req, irq_flags = ic_flags req, irq_func = ic_func req,
     waiting = False, listed = False, inject_queued = False, shutdown_queued = False\<rparr>"

text \<open>The answer of \<open>vfs_poll\<close>, after the object is on the wait queue.\<close>

definition irqfd_polled :: "nat \<Rightarrow> irqfd \<Rightarrow> irqfd" where
  "irqfd_polled count i = (if count > 0 then i\<lparr>inject_queued := True\<rparr> else i)"

definition pciem_ioctl_set_irqfd ::
    "(int \<Rightarrow> nat res) \<Rightarrow> bool \<Rightarrow> bool \<Rightarrow> (nat \<Rightarrow> nat) \<Rightarrow> irqfd_cfg option \<Rightarrow> session \<Rightarrow> irqfds \<Rightarrow> unit res \<times> irqfds" where
  "pciem_ioctl_set_irqfd ctx_fdget file_ok mem_ok counts arg us fds =
     (case pciem_check_registered us of Inl e \<Rightarrow> (Inl e, fds)
      | Inr _ \<Rightarrow>
     (case arg of None \<Rightarrow> (Inl EFAULT, fds)
      | Some req \<Rightarrow>
          if \<not> mem_ok then (Inl ENOMEM, fds)
          else (case ctx_fdget (ic_eventfd req) of
                  Inl e \<Rightarrow> (Inl e, fds)
                | Inr e \<Rightarrow>
                    if \<not> file_ok then (Inl EBADF, fds)
                    else (Inr (), fds\<lparr>items := items fds @
                            [irqfd_polled (counts e) (pciem_irqfd_ptable_queue_proc (irqfd_of req e))]\<rparr>))))"

subsection \<open>Interleavings of writes with set_irqfd and the work\<close>

text \<open>
  The eventfd is written at any time, the two effects of \<open>set_irqfd\<close> on the object come in order, and
  the work runs whenever it is queued. \<open>unserved\<close> says that a write has happened that no run of the work
  has followed yet.
\<close>

datatype irq_phase = Prepared | Hooked | Armed

record irq_sys =
  count :: nat
  ifd :: irqfd
  phase :: irq_phase
  unserved :: bool

definition eventfd_write :: "nat \<Rightarrow> irq_sys \<Rightarrow> irq_sys" where
  "eventfd_write n s =
     (if waiting (ifd s)
      then (let (c, i) = pciem_irqfd_wakeup True False (count s + n) (ifd s) in s\<lparr>count := c, ifd := i, unserved := True\<rparr>)
      else s\<lparr>count := count s + n, unserved := True\<rparr>)"

inductive irq_step :: "irq_sys \<Rightarrow> irq_sys \<Rightarrow> bool" where
  "write": "n > 0 \<Longrightarrow> irq_step s (eventfd_write n s)"
| hook: "phase s = Prepared \<Longrightarrow> irq_step s (s\<lparr>ifd := pciem_irqfd_ptable_queue_proc (ifd s), phase := Hooked\<rparr>)"
| arm: "phase s = Hooked \<Longrightarrow> irq_step s (s\<lparr>ifd := irqfd_polled (count s) (ifd s), phase := Armed\<rparr>)"
| work: "inject_queued (ifd s) \<Longrightarrow> irq_step s (s\<lparr>ifd := (ifd s)\<lparr>inject_queued := False\<rparr>, unserved := False\<rparr>)"

inductive irq_reach :: "irq_sys \<Rightarrow> bool" where
  start: "irq_reach \<lparr>count = c, ifd = irqfd_of req e, phase = Prepared, unserved = (c > 0)\<rparr>"
| step: "irq_reach s \<Longrightarrow> irq_step s s' \<Longrightarrow> irq_reach s'"

definition irq_inv :: "irq_sys \<Rightarrow> bool" where
  "irq_inv s \<longleftrightarrow> (waiting (ifd s) \<longleftrightarrow> phase s \<noteq> Prepared) \<and>
     (unserved s \<longrightarrow> inject_queued (ifd s) \<or> (phase s \<noteq> Armed \<and> count s > 0))"

lemma irq_step_inv:
  assumes "irq_step s s'" "irq_inv s"
  shows "irq_inv s'"
  using assms
  by (cases rule: irq_step.cases)
    (auto simp: irq_inv_def eventfd_write_def pciem_irqfd_wakeup_def pciem_irqfd_ptable_queue_proc_def irqfd_polled_def)

lemma irq_reach_inv: "irq_reach s \<Longrightarrow> irq_inv s"
proof (induction rule: irq_reach.induct)
  case (start c req e)
  show ?case by (simp add: irq_inv_def irqfd_of_def)
qed (rule irq_step_inv)

subsection \<open>Every object is listed or about to be freed\<close>

definition irqfds_inv :: "irqfds \<Rightarrow> bool" where
  "irqfds_inv fds \<longleftrightarrow> (\<forall>i\<in>set (items fds). listed i \<noteq> shutdown_queued i)"

lemma shutdown_queued_after: "listed i \<noteq> shutdown_queued i \<Longrightarrow> shutdown_queued (pciem_irqfd_shutdown i)"
  by (simp add: pciem_irqfd_shutdown_def)

lemma set_irqfd_inv: "irqfds_inv fds \<Longrightarrow> irqfds_inv (snd (pciem_ioctl_set_irqfd g f m counts arg us fds))"
  by (auto simp: irqfds_inv_def pciem_ioctl_set_irqfd_def irqfd_polled_def pciem_irqfd_ptable_queue_proc_def irqfd_of_def
      split: sum.splits option.splits)

lemma wakeup_inv: "listed i \<noteq> shutdown_queued i \<Longrightarrow> pciem_irqfd_wakeup a b c i = (c', i') \<Longrightarrow> listed i' \<noteq> shutdown_queued i'"
  by (auto simp: pciem_irqfd_wakeup_def pciem_irqfd_shutdown_def split: if_splits)

lemma run_shutdowns_all: "\<forall>i\<in>set is. shutdown_queued i \<Longrightarrow> run_shutdowns view uso is k = Some (is', k') \<Longrightarrow> is' = []"
  by (induction "is" arbitrary: k) (auto split: option.splits)

lemma shutdown_frees_all:
  assumes "irqfds_inv fds" "cleanup_wq fds" "pciem_irqfds_shutdown view uso fds k = Some (fds', k')"
  shows "items fds' = [] \<and> \<not> cleanup_wq fds'"
proof -
  have "\<forall>i\<in>set (map pciem_irqfd_shutdown (items fds)). shutdown_queued i"
    using assms(1) by (auto simp: irqfds_inv_def intro: shutdown_queued_after)
  from run_shutdowns_all [OF this] assms(2,3) show ?thesis by (auto simp: pciem_irqfds_shutdown_def)
qed

subsection \<open>Properties\<close>

text \<open>
  No write to an irqfd is lost: under every interleaving of writes to the eventfd with the steps of
  \<open>set_irqfd\<close> and the runs of the work, once \<open>set_irqfd\<close> has returned, a write that no injection has
  followed yet has left the injection queued. This includes writes made before the call.
\<close>

theorem irqfd_no_lost_write:
  assumes "irq_reach s" "phase s = Armed" "unserved s"
  shows "inject_queued (ifd s) \<and> irq_step s (s\<lparr>ifd := (ifd s)\<lparr>inject_queued := False\<rparr>, unserved := False\<rparr>)"
  using irq_reach_inv [OF assms(1)] assms(2,3) by (auto simp: irq_inv_def intro: irq_step.work)

definition demo_irqfd :: irqfd_cfg where
  "demo_irqfd = \<lparr>ic_eventfd = 7, ic_vector = 2, ic_flags = 0, ic_func = 0\<rparr>"

definition written_early :: irq_sys where
  "written_early = \<lparr>count = 3, ifd = irqfd_polled 3 (pciem_irqfd_ptable_queue_proc (irqfd_of demo_irqfd 4)), phase = Armed, unserved = True\<rparr>"

lemma written_early_reach: "irq_reach written_early"
proof -
  let ?s = "\<lparr>count = 3, ifd = irqfd_of demo_irqfd 4, phase = Prepared, unserved = True\<rparr>"
  have "irq_reach ?s" using irq_reach.start [of 3 demo_irqfd 4] by simp
  note irq_reach.step [OF this irq_step.hook, simplified]
  note irq_reach.step [OF this irq_step.arm, simplified]
  then show ?thesis by (simp add: written_early_def)
qed

theorem irqfd_no_lost_write_witness:
  "inject_queued (ifd written_early) \<and> phase written_early = Armed"
  using irqfd_no_lost_write [OF written_early_reach] by (simp add: written_early_def)

text \<open>
  An irqfd raises what the ioctl would raise: on a registered session, the work of an irqfd of an
  existing function has the effect of \<open>inject_irq\<close> with the same vector and function, except that where
  the ioctl answers \<open>EFAULT\<close> (no device, or no interrupt for it yet) the work stops the kernel.
\<close>

theorem irqfd_like_ioctl:
  assumes "pciem_check_registered us = Inr ()" "us_get_rc us (irq_func i) = Some a" "k_objs k a = Some v"
    and "r = pciem_ioctl_inject_irq view (Some \<lparr>ir_vector = irq_vector i, ir_func = irq_func i\<rparr>) k us"
  shows "fst r \<in> {Inr (), Inl EFAULT} \<and>
    pciem_irqfd_work view k (Some us) i = (if fst r = Inr () then Some (snd r) else None)"
  using assms by (simp add: pciem_irqfd_work_def pciem_ioctl_inject_irq_def with_func_def split: sum.splits prod.splits)

definition irq_session :: session where
  "irq_session = \<lparr>slot_funcs = [0 \<mapsto> 1], num_funcs = 1, slot_mode = VIRTUAL_ROOT, reg = REGISTERED, refcnt = 2\<rparr>"

definition irq_kernel :: "pdev option \<Rightarrow> unit kernel" where
  "irq_kernel p = \<lparr>k_pool = pool0, k_host = host0, k_objs = [1 \<mapsto> dev0\<lparr>pciem_pdev := p\<rparr>], k_next = 2\<rparr>"

text \<open>The device is there but has no interrupt: writing to the eventfd stops the kernel.\<close>

definition idle_pdev :: pdev where
  "idle_pdev = \<lparr>pd_bus = 3, pd_devfn = 0, pd_resources = Map.empty\<rparr>"

definition no_irq :: irq_view where
  "no_irq = \<lparr>msix_enabled = False, msix_vecs = 0, vector_irq = (\<lambda>_. 0), legacy_irq = 0\<rparr>"

theorem irqfd_like_ioctl_witness:
  "pciem_irqfd_work no_irq (irq_kernel (Some idle_pdev)) (Some irq_session) (irqfd_of demo_irqfd 4) = None"
proof -
  have "pciem_check_registered irq_session = Inr ()" "us_get_rc irq_session (irq_func (irqfd_of demo_irqfd 4)) = Some 1"
    "k_objs (irq_kernel (Some idle_pdev)) 1 = Some (dev0\<lparr>pciem_pdev := Some idle_pdev\<rparr>)"
    by (simp_all add: pciem_check_registered_def us_get_rc_def PCIEM_MAX_FUNCTIONS_def irqfd_of_def demo_irqfd_def
        irq_session_def irq_kernel_def)
  from irqfd_like_ioctl [OF this refl, of no_irq] show ?thesis
    by (simp add: pciem_ioctl_inject_irq_def with_func_def pciem_check_registered_def us_get_rc_def PCIEM_MAX_FUNCTIONS_def
        irqfd_of_def demo_irqfd_def irq_session_def irq_kernel_def pciem_trigger_msi_def Let_def no_irq_def)
qed

end
