(* ===== verification/Dispatch.thy ===== *)
theory Dispatch
  imports TraceBar Irqfd Prp Visible
begin

text \<open>
  The character device \<^verbatim>\<open>/dev/pciem\<close>: opening it makes a session, \<open>pciem_device_ioctl\<close> selects the
  operation by the number of the command, and each descriptor (the device itself, and the instance
  that registration hands out) holds a reference to the session, which is destroyed with the last of
  them. Here the state of all the operations comes together: the session with its slot, its event
  ring, its tracers and its irqfds, and the machine behind it.

  Everything the kernel answers during one call is the record \<open>services\<close>; \<open>user_args\<close> is what
  \<open>copy_from_user\<close> finds at the argument of the call, read as each of the structures.
\<close>

subsection \<open>State\<close>

record us_state =
  us_slot :: session
  us_ev :: us_events
  us_tracers :: tracers
  us_irqfds :: irqfds

record ('g, 't) machine =
  m_kernel :: "'g kernel"
  m_dma :: dma_world
  m_tables :: 't

record ('g, 't) services =
  sv_mem :: "nat \<Rightarrow> bool"
  sv_gfree :: "'g \<Rightarrow> u64 \<Rightarrow> u64 \<Rightarrow> 'g"
  sv_dev :: "nat \<Rightarrow> dev_env"
  sv_fd :: "nat res"
  sv_view :: irq_view
  sv_dma :: dma_env
  sv_user :: user_env
  sv_copy_out :: bool
  sv_eventfd :: "int \<Rightarrow> nat res"
  sv_file :: bool
  sv_counts :: "nat \<Rightarrow> nat"
  sv_trace :: "smptrace_ctx \<Rightarrow> unit res \<times> smptrace_ctx"
  sv_shadow :: bytes
  sv_restore :: "'t restore_fun"

record user_args =
  ua_create :: "create_cfg option"
  ua_bar :: "bar_cfg option"
  ua_cap :: "cap_cfg option"
  ua_config :: "config_regs option"
  ua_irq :: "irq_req option"
  ua_dma :: "dma_op option"
  ua_atomic :: "atomic_req option"
  ua_p2p :: "dma_op option"
  ua_query :: "bar_query option"
  ua_eventfd :: "int option"
  ua_irqfd :: "irqfd_cfg option"
  ua_indirect :: "prp_req option"
  ua_trace :: "trace_req option"

text \<open>A call without an argument.\<close>

definition no_args :: user_args where
  "no_args = \<lparr>ua_create = None, ua_bar = None, ua_cap = None, ua_config = None, ua_irq = None, ua_dma = None,
     ua_atomic = None, ua_p2p = None, ua_query = None, ua_eventfd = None, ua_irqfd = None, ua_indirect = None, ua_trace = None\<rparr>"

subsection \<open>Command numbers\<close>

text \<open>The numbers as \<^verbatim>\<open>_IO\<close>, \<^verbatim>\<open>_IOW\<close> and \<^verbatim>\<open>_IOWR\<close> make them: direction, size of the structure, type, number.\<close>

definition ioc :: "u32 \<Rightarrow> u32 \<Rightarrow> u32 \<Rightarrow> u32" where
  "ioc dir sz nr = push_bit 30 dir OR push_bit 16 sz OR push_bit 8 0xAF OR nr"

definition PCIEM_IOCTL_CREATE_DEVICE :: u32 where "PCIEM_IOCTL_CREATE_DEVICE = ioc 3 8 10"
definition PCIEM_IOCTL_ADD_BAR :: u32 where "PCIEM_IOCTL_ADD_BAR = ioc 1 24 11"
definition PCIEM_IOCTL_ADD_CAPABILITY :: u32 where "PCIEM_IOCTL_ADD_CAPABILITY = ioc 1 24 12"
definition PCIEM_IOCTL_SET_CONFIG :: u32 where "PCIEM_IOCTL_SET_CONFIG = ioc 1 24 13"
definition PCIEM_IOCTL_REGISTER :: u32 where "PCIEM_IOCTL_REGISTER = ioc 0 0 14"
definition PCIEM_IOCTL_INJECT_IRQ :: u32 where "PCIEM_IOCTL_INJECT_IRQ = ioc 1 8 15"
definition PCIEM_IOCTL_DMA :: u32 where "PCIEM_IOCTL_DMA = ioc 3 32 16"
definition PCIEM_IOCTL_DMA_ATOMIC :: u32 where "PCIEM_IOCTL_DMA_ATOMIC = ioc 3 48 17"
definition PCIEM_IOCTL_P2P :: u32 where "PCIEM_IOCTL_P2P = ioc 3 32 18"
definition PCIEM_IOCTL_GET_BAR_INFO :: u32 where "PCIEM_IOCTL_GET_BAR_INFO = ioc 3 32 19"
definition PCIEM_IOCTL_SET_EVENTFD :: u32 where "PCIEM_IOCTL_SET_EVENTFD = ioc 1 8 21"
definition PCIEM_IOCTL_SET_IRQFD :: u32 where "PCIEM_IOCTL_SET_IRQFD = ioc 1 16 22"
definition PCIEM_IOCTL_DMA_INDIRECT :: u32 where "PCIEM_IOCTL_DMA_INDIRECT = ioc 3 48 24"
definition PCIEM_IOCTL_TRACE_BAR :: u32 where "PCIEM_IOCTL_TRACE_BAR = ioc 3 12 25"
definition PCIEM_IOCTL_START :: u32 where "PCIEM_IOCTL_START = ioc 0 0 26"

lemmas ioctl_numbers = ioc_def PCIEM_IOCTL_CREATE_DEVICE_def PCIEM_IOCTL_ADD_BAR_def PCIEM_IOCTL_ADD_CAPABILITY_def
  PCIEM_IOCTL_SET_CONFIG_def PCIEM_IOCTL_REGISTER_def PCIEM_IOCTL_INJECT_IRQ_def PCIEM_IOCTL_DMA_def
  PCIEM_IOCTL_DMA_ATOMIC_def PCIEM_IOCTL_P2P_def PCIEM_IOCTL_GET_BAR_INFO_def PCIEM_IOCTL_SET_EVENTFD_def
  PCIEM_IOCTL_SET_IRQFD_def PCIEM_IOCTL_DMA_INDIRECT_def PCIEM_IOCTL_TRACE_BAR_def PCIEM_IOCTL_START_def

subsection \<open>Opening\<close>

definition no_ctx :: smptrace_ctx where
  "no_ctx = \<lparr>notif_read = False, notif_write = False, opaque = 0, ctx_pa = 0, ctx_len = 0, stop_writes = False,
     maps = [], shadow_mapped = False, shadow = (\<lambda>_. 0), in_pf = (\<lambda>_. False),
     badarea_kp = False, iounmap_kp = False, ioremap_krp = False, io_calls = []\<rparr>"

text \<open>
  \<open>pciem_open\<close> with \<open>pciem_userspace_create\<close>: the answers of the three allocations in their order. The
  rest of the session is the zeroed structure.
\<close>

definition pciem_open :: "(nat \<Rightarrow> bool) \<Rightarrow> us_state res" where
  "pciem_open mem =
     (case pciem_userspace_create (mem 0) (mem 1) (mem 2) of
        Inl e \<Rightarrow> Inl e
      | Inr slot \<Rightarrow>
          (case (pciem_shared_ring_alloc
                   (\<lambda>_. \<lparr>ev_seq = 0, ev_type = 0, ev_bar = 0, ev_offset = 0, ev_size = 0, ev_data = 0, ev_timestamp = 0\<rparr>) (mem 1),
                 pciem_irqfds_init (mem 2)) of
             (Inr r, Inr fds) \<Rightarrow>
               Inr \<lparr>us_slot = slot,
                    us_ev = \<lparr>eventfd = None, event_pending = False, signals = (\<lambda>_. 0), shared_ring = r\<rparr>,
                    us_tracers = (\<lambda>_ _. \<lparr>tracer_us = False, tracer_ctx = no_ctx\<rparr>), us_irqfds = fds\<rparr>
           | _ \<Rightarrow> Inl ENOMEM))"

subsection \<open>The commands\<close>

datatype answer = Code "unit res" | Fd "nat res" | Old_value "u64 res" | Bar_info "(u64 \<times> u64 \<times> u32) res"

text \<open>The function a DMA ioctl names.\<close>

definition func_there :: "('g, 't) machine \<Rightarrow> us_state \<Rightarrow> u8 \<Rightarrow> bool" where
  "func_there m s f \<longleftrightarrow> us_get_rc (us_slot s) f \<noteq> None"

definition func_p2p :: "('g, 't) machine \<Rightarrow> us_state \<Rightarrow> u8 \<Rightarrow> p2p_manager option option" where
  "func_p2p m s f = map_option p2p_mgr (Option.bind (us_get_rc (us_slot s) f) (k_objs (m_kernel m)))"

definition pciem_device_ioctl ::
    "('g \<Rightarrow> u64 \<Rightarrow> 'm fit_algo \<Rightarrow> u64 \<times> 'g) \<Rightarrow> 'm bitmap_search \<Rightarrow> ('g, 't) services \<Rightarrow> u32 \<Rightarrow> user_args \<Rightarrow>
       ('g, 't) machine \<Rightarrow> us_state \<Rightarrow> (answer \<times> ('g, 't) machine \<times> us_state) option" where
  "pciem_device_ioctl galloc search E cmd A m s =
     (let k = m_kernel m; us = us_slot s; chk = pciem_check_registered us;
          kernel = (\<lambda>(rc, k'). Some (Code rc, m\<lparr>m_kernel := k'\<rparr>, s))
      in if cmd = PCIEM_IOCTL_CREATE_DEVICE then
           (case pciem_ioctl_create_device (sv_mem E 0) (sv_mem E 1) (ua_create A) k us of
              (rc, k', us') \<Rightarrow> Some (Code rc, m\<lparr>m_kernel := k'\<rparr>, s\<lparr>us_slot := us'\<rparr>))
         else if cmd = PCIEM_IOCTL_ADD_BAR then kernel (pciem_ioctl_add_bar galloc search (ua_bar A) k us)
         else if cmd = PCIEM_IOCTL_ADD_CAPABILITY then kernel (pciem_ioctl_add_capability (ua_cap A) k us)
         else if cmd = PCIEM_IOCTL_SET_CONFIG then kernel (pciem_ioctl_set_config (ua_config A) k us)
         else if cmd = PCIEM_IOCTL_REGISTER then
           (case pciem_ioctl_register (sv_dev E) (sv_gfree E) (sv_fd E) k us of
              None \<Rightarrow> None
            | Some (r, k', us') \<Rightarrow> Some (Fd r, m\<lparr>m_kernel := k'\<rparr>, s\<lparr>us_slot := us'\<rparr>))
         else if cmd = PCIEM_IOCTL_START then Some (Code (pciem_ioctl_start k us), m, s)
         else if cmd = PCIEM_IOCTL_INJECT_IRQ then kernel (pciem_ioctl_inject_irq (sv_view E) (ua_irq A) k us)
         else if cmd = PCIEM_IOCTL_DMA then
           (case pciem_ioctl_dma (sv_dma E) (sv_user E) chk (func_there m s) (ua_dma A) (m_dma m) of
              None \<Rightarrow> None
            | Some (rc, w) \<Rightarrow> Some (Code rc, m\<lparr>m_dma := w\<rparr>, s))
         else if cmd = PCIEM_IOCTL_DMA_ATOMIC then
           (case pciem_ioctl_dma_atomic (sv_dma E) (sv_copy_out E) chk (func_there m s) (ua_atomic A) (m_dma m) of
              (r, w) \<Rightarrow> Some (Old_value r, m\<lparr>m_dma := w\<rparr>, s))
         else if cmd = PCIEM_IOCTL_P2P then
           (case pciem_ioctl_p2p (sv_user E) chk (func_p2p m s) (ua_p2p A) (m_dma m) of
              None \<Rightarrow> None
            | Some (rc, w) \<Rightarrow> Some (Code rc, m\<lparr>m_dma := w\<rparr>, s))
         else if cmd = PCIEM_IOCTL_GET_BAR_INFO then
           Some (Bar_info (pciem_ioctl_get_bar_info (sv_copy_out E) (ua_query A) k us), m, s)
         else if cmd = PCIEM_IOCTL_SET_EVENTFD then
           (case pciem_ioctl_set_eventfd (sv_eventfd E) (us_ev s) (ua_eventfd A) of
              None \<Rightarrow> None
            | Some (rc, ev) \<Rightarrow> Some (Code rc, m, s\<lparr>us_ev := ev\<rparr>))
         else if cmd = PCIEM_IOCTL_SET_IRQFD then
           (case pciem_ioctl_set_irqfd (sv_eventfd E) (sv_file E) (sv_mem E 0) (sv_counts E) (ua_irqfd A) us (us_irqfds s) of
              (rc, fds) \<Rightarrow> Some (Code rc, m, s\<lparr>us_irqfds := fds\<rparr>))
         else if cmd = PCIEM_IOCTL_DMA_INDIRECT then
           (case pciem_ioctl_dma_indirect (sv_dma E) (sv_user E) chk (func_there m s) (ua_indirect A) (m_dma m) of
              Some (Returned rc st) \<Rightarrow> Some (Code rc, m\<lparr>m_dma := world st\<rparr>, s)
            | _ \<Rightarrow> None)
         else if cmd = PCIEM_IOCTL_TRACE_BAR then
           (case pciem_ioctl_trace_bar (sv_trace E) (sv_shadow E) (ua_trace A) k us (us_tracers s) of
              None \<Rightarrow> None
            | Some (rc, trs) \<Rightarrow> Some (Code rc, m, s\<lparr>us_tracers := trs\<rparr>))
         else Some (Code (Inl ENOTTY), m, s))"

text \<open>The file operations that \<open>pciem_device_fops\<close> does not provide.\<close>

definition device_fops_read :: "(nat \<Rightarrow> nat res) option" where "device_fops_read = None"
definition device_fops_write :: "(nat \<Rightarrow> nat res) option" where "device_fops_write = None"
definition device_fops_poll :: "u32 option" where "device_fops_poll = None"

definition pciem_read :: "nat \<Rightarrow> nat res" where
  "pciem_read n = (case device_fops_read of Some f \<Rightarrow> f n | None \<Rightarrow> Inl EINVAL)"

definition pciem_write :: "nat \<Rightarrow> nat res" where
  "pciem_write n = (case device_fops_write of Some f \<Rightarrow> f n | None \<Rightarrow> Inl EINVAL)"

definition pciem_poll :: u32 where
  "pciem_poll = (case device_fops_poll of Some ready \<Rightarrow> ready | None \<Rightarrow> 0)"

subsection \<open>Closing\<close>

definition us_destroy ::
    "('g, 't) services \<Rightarrow> ('g, 't) machine \<Rightarrow> us_state \<Rightarrow> ('g, 't) machine option" where
  "us_destroy E m s =
     (let t = snd (pciem_tracing_destroy (sv_restore E) (us_tracers s) (m_tables m)) in
      case pciem_irqfds_shutdown (sv_view E) (Some (us_slot s)) (us_irqfds s) (m_kernel m) of
        None \<Rightarrow> None
      | Some (_, k) \<Rightarrow>
          map_option (\<lambda>k'. m\<lparr>m_kernel := k', m_tables := t\<rparr>)
            (pciem_userspace_destroy (sv_dev E 0) (sv_gfree E) k (us_slot s)))"

text \<open>Both descriptors are released the same way; the session is \<open>None\<close> once it is destroyed.\<close>

definition pciem_put ::
    "('g, 't) services \<Rightarrow> ('g, 't) machine \<Rightarrow> us_state \<Rightarrow> (('g, 't) machine \<times> us_state option) option" where
  "pciem_put E m s =
     (if refcnt (us_slot s) > 1 then Some (m, Some (s\<lparr>us_slot := (us_slot s)\<lparr>refcnt := refcnt (us_slot s) - 1\<rparr>\<rparr>))
      else map_option (\<lambda>m'. (m', None)) (us_destroy E m s))"

definition pciem_device_release where "pciem_device_release = pciem_put"
definition pciem_instance_release where "pciem_instance_release = pciem_put"

end
