(* ===== verification/DispatchLife.thy ===== *)
theory DispatchLife
  imports Dispatch
begin

text \<open>
  The life of a session behind its descriptors: every sequence of commands, events and closes keeps
  the reference count equal to the number of open descriptors, and the last close gives everything
  back. The commands refine the steps of a session (theory SessionLife), so its invariant carries over.
\<close>

subsection \<open>Descriptors and steps\<close>

record ('g, 't) chardev =
  cd_machine :: "('g, 't) machine"
  cd_us :: "us_state option"
  cd_device :: bool
  cd_instances :: nat

definition hands_out :: "answer \<Rightarrow> nat" where
  "hands_out ans = (case ans of Fd (Inr _) \<Rightarrow> 1 | _ \<Rightarrow> 0)"

inductive cdev_step :: "('g \<Rightarrow> u64 \<Rightarrow> 'm fit_algo \<Rightarrow> u64 \<times> 'g) \<Rightarrow> 'm bitmap_search \<Rightarrow>
    ('g, 't) chardev \<Rightarrow> ('g, 't) chardev \<Rightarrow> bool" for galloc search where
  ioctl: "cd_device c \<Longrightarrow> cd_us c = Some s \<Longrightarrow>
    pciem_device_ioctl galloc search E cmd A (cd_machine c) s = Some (ans, m, s') \<Longrightarrow>
    cdev_step galloc search c (c\<lparr>cd_machine := m, cd_us := Some s', cd_instances := cd_instances c + hands_out ans\<rparr>)"
| event: "cd_us c = Some s \<Longrightarrow> pciem_userspace_queue_event now (Some (us_ev s)) ev = Some (Some e) \<Longrightarrow>
    cdev_step galloc search c (c\<lparr>cd_us := Some (s\<lparr>us_ev := e\<rparr>)\<rparr>)"
| wakeup: "cd_us c = Some s \<Longrightarrow> i < length (items (us_irqfds s)) \<Longrightarrow>
    pciem_irqfd_wakeup pollin pollhup n (items (us_irqfds s) ! i) = (n', q) \<Longrightarrow>
    cdev_step galloc search c (c\<lparr>cd_us := Some (s\<lparr>us_irqfds := (us_irqfds s)\<lparr>items := (items (us_irqfds s))[i := q]\<rparr>\<rparr>)\<rparr>)"
| work: "cd_us c = Some s \<Longrightarrow> i < length (items (us_irqfds s)) \<Longrightarrow>
    irqfd_run view (m_kernel (cd_machine c)) (Some (us_slot s)) (items (us_irqfds s) ! i) = Some (q, k) \<Longrightarrow>
    cdev_step galloc search c (c\<lparr>cd_machine := (cd_machine c)\<lparr>m_kernel := k\<rparr>,
      cd_us := Some (s\<lparr>us_irqfds := (us_irqfds s)\<lparr>items := (items (us_irqfds s))[i := q]\<rparr>\<rparr>)\<rparr>)"
| close_device: "cd_device c \<Longrightarrow> cd_us c = Some s \<Longrightarrow> pciem_device_release E (cd_machine c) s = Some (m, us) \<Longrightarrow>
    cdev_step galloc search c (c\<lparr>cd_machine := m, cd_us := us, cd_device := False\<rparr>)"
| close_instance: "0 < cd_instances c \<Longrightarrow> cd_us c = Some s \<Longrightarrow> pciem_instance_release E (cd_machine c) s = Some (m, us) \<Longrightarrow>
    cdev_step galloc search c (c\<lparr>cd_machine := m, cd_us := us, cd_instances := cd_instances c - 1\<rparr>)"

inductive cdev_reach :: "('g \<Rightarrow> u64 \<Rightarrow> 'm fit_algo \<Rightarrow> u64 \<times> 'g) \<Rightarrow> 'm bitmap_search \<Rightarrow>
    ('g, 't) machine \<Rightarrow> ('g, 't) chardev \<Rightarrow> bool" for galloc search m0 where
  opened: "pciem_open mem = Inr s \<Longrightarrow>
    cdev_reach galloc search m0 \<lparr>cd_machine = m0, cd_us = Some s, cd_device = True, cd_instances = 0\<rparr>"
| step: "cdev_reach galloc search m0 c \<Longrightarrow> cdev_step galloc search c c' \<Longrightarrow> cdev_reach galloc search m0 c'"

inductive_cases cdev_stepE: "cdev_step galloc search c c'"

subsection \<open>What a command does to the session\<close>

text \<open>The numbers differ, so that each command selects its own operation, and any other number none.\<close>

definition command_numbers :: "u32 list" where
  "command_numbers = [PCIEM_IOCTL_CREATE_DEVICE, PCIEM_IOCTL_ADD_BAR, PCIEM_IOCTL_ADD_CAPABILITY, PCIEM_IOCTL_SET_CONFIG,
     PCIEM_IOCTL_REGISTER, PCIEM_IOCTL_START, PCIEM_IOCTL_INJECT_IRQ, PCIEM_IOCTL_DMA, PCIEM_IOCTL_DMA_ATOMIC,
     PCIEM_IOCTL_P2P, PCIEM_IOCTL_GET_BAR_INFO, PCIEM_IOCTL_SET_EVENTFD, PCIEM_IOCTL_SET_IRQFD,
     PCIEM_IOCTL_DMA_INDIRECT, PCIEM_IOCTL_TRACE_BAR]"

lemma ioctl_values:
  "PCIEM_IOCTL_CREATE_DEVICE = 0xC008AF0A"
  "PCIEM_IOCTL_ADD_BAR = 0x4018AF0B"
  "PCIEM_IOCTL_ADD_CAPABILITY = 0x4018AF0C"
  "PCIEM_IOCTL_SET_CONFIG = 0x4018AF0D"
  "PCIEM_IOCTL_REGISTER = 0xAF0E"
  "PCIEM_IOCTL_INJECT_IRQ = 0x4008AF0F"
  "PCIEM_IOCTL_DMA = 0xC020AF10"
  "PCIEM_IOCTL_DMA_ATOMIC = 0xC030AF11"
  "PCIEM_IOCTL_P2P = 0xC020AF12"
  "PCIEM_IOCTL_GET_BAR_INFO = 0xC020AF13"
  "PCIEM_IOCTL_SET_EVENTFD = 0x4008AF15"
  "PCIEM_IOCTL_SET_IRQFD = 0x4010AF16"
  "PCIEM_IOCTL_DMA_INDIRECT = 0xC030AF18"
  "PCIEM_IOCTL_TRACE_BAR = 0xC00CAF19"
  "PCIEM_IOCTL_START = 0xAF1A"
  by (simp_all add: ioctl_numbers)

lemma command_numbers_distinct: "distinct command_numbers"
  by (simp add: command_numbers_def ioctl_values)

lemma other_command:
  "cmd \<notin> set command_numbers \<Longrightarrow> pciem_device_ioctl galloc search E cmd A m s = Some (Code (Inl ENOTTY), m, s)"
  by (simp add: command_numbers_def pciem_device_ioctl_def Let_def)

lemma select:
  "pciem_device_ioctl galloc search E PCIEM_IOCTL_CREATE_DEVICE A m s =
     (case pciem_ioctl_create_device (sv_mem E 0) (sv_mem E 1) (ua_create A) (m_kernel m) (us_slot s) of
        (rc, k', us') \<Rightarrow> Some (Code rc, m\<lparr>m_kernel := k'\<rparr>, s\<lparr>us_slot := us'\<rparr>))"
  "pciem_device_ioctl galloc search E PCIEM_IOCTL_ADD_BAR A m s =
     (case pciem_ioctl_add_bar galloc search (ua_bar A) (m_kernel m) (us_slot s) of
        (rc, k') \<Rightarrow> Some (Code rc, m\<lparr>m_kernel := k'\<rparr>, s))"
  "pciem_device_ioctl galloc search E PCIEM_IOCTL_ADD_CAPABILITY A m s =
     (case pciem_ioctl_add_capability (ua_cap A) (m_kernel m) (us_slot s) of
        (rc, k') \<Rightarrow> Some (Code rc, m\<lparr>m_kernel := k'\<rparr>, s))"
  "pciem_device_ioctl galloc search E PCIEM_IOCTL_SET_CONFIG A m s =
     (case pciem_ioctl_set_config (ua_config A) (m_kernel m) (us_slot s) of
        (rc, k') \<Rightarrow> Some (Code rc, m\<lparr>m_kernel := k'\<rparr>, s))"
  "pciem_device_ioctl galloc search E PCIEM_IOCTL_REGISTER A m s =
     (case pciem_ioctl_register (sv_dev E) (sv_gfree E) (sv_fd E) (m_kernel m) (us_slot s) of
        None \<Rightarrow> None
      | Some (r, k', us') \<Rightarrow> Some (Fd r, m\<lparr>m_kernel := k'\<rparr>, s\<lparr>us_slot := us'\<rparr>))"
  "pciem_device_ioctl galloc search E PCIEM_IOCTL_START A m s = Some (Code (pciem_ioctl_start (m_kernel m) (us_slot s)), m, s)"
  "pciem_device_ioctl galloc search E PCIEM_IOCTL_SET_EVENTFD A m s =
     (case pciem_ioctl_set_eventfd (sv_eventfd E) (us_ev s) (ua_eventfd A) of
        None \<Rightarrow> None
      | Some (rc, ev) \<Rightarrow> Some (Code rc, m, s\<lparr>us_ev := ev\<rparr>))"
  "pciem_device_ioctl galloc search E PCIEM_IOCTL_TRACE_BAR A m s =
     (case pciem_ioctl_trace_bar (sv_trace E) (sv_shadow E) (ua_trace A) (m_kernel m) (us_slot s) (us_tracers s) of
        None \<Rightarrow> None
      | Some (rc, trs) \<Rightarrow> Some (Code rc, m, s\<lparr>us_tracers := trs\<rparr>))"
  by (simp_all add: pciem_device_ioctl_def ioctl_values)

text \<open>
  A command is a step of the session, or leaves the slot and the kernel's objects alone; only
  registration hands out a descriptor.
\<close>

lemma ioctl_session:
  assumes "pciem_device_ioctl galloc search E cmd A m s = Some (ans, m', s')"
  shows "m_kernel m' = m_kernel m \<and> us_slot s' = us_slot s \<or>
    session_step galloc search (m_kernel m, us_slot s) (m_kernel m', us_slot s')"
  using assms
  by (auto simp: pciem_device_ioctl_def Let_def intro: session_step.intros
      split: if_splits prod.splits option.splits prp_result.splits)

lemma register_refs:
  assumes "pciem_ioctl_register env gfree fd k us = Some (r, k', us')"
  shows "slot_funcs us' = slot_funcs us \<and>
    (case r of Inr n \<Rightarrow> reg us = UNREGISTERED \<and> reg us' = REGISTERED \<and> refcnt us' = refcnt us + 1
     | Inl e \<Rightarrow> refcnt us' = refcnt us \<and> (reg us = REGISTERED \<longrightarrow> reg us' = REGISTERED))"
  using assms
proof (cases rule: register_cases)
  case (ran us1 k1 a0 v0 k2 rc k3)
  show ?thesis
  proof (cases rc)
    case (Inl e)
    then show ?thesis using ran(8) by simp
  next
    case (Inr u)
    then obtain rc4 where rc4: "(\<forall>e. rc4 = Inl e \<longrightarrow> r = Inl e \<and> us' = us) \<and> (rc4 = Inr () \<longrightarrow> r = fd \<and>
        us' = us\<lparr>reg := REGISTERED, refcnt := refcnt us + (case fd of Inl _ \<Rightarrow> 0 | Inr _ \<Rightarrow> 1)\<rparr>)"
      using ran(9) by auto
    then show ?thesis using ran(1) by (cases rc4; cases fd) auto
  qed
qed simp

lemma create_refs:
  "pciem_ioctl_create_device mem_ok cap_ok arg k us = (rc, k', us') \<Longrightarrow>
     refcnt us' = refcnt us \<and> reg us' = reg us \<and> (\<forall>f. slot_funcs us f \<noteq> None \<longrightarrow> slot_funcs us' f \<noteq> None)"
  by (auto simp: pciem_ioctl_create_device_def create_object_def create_commit_def Let_def
      split: option.splits if_splits sum.splits prod.splits)

lemma trace_bar_tracers:
  assumes "pciem_ioctl_trace_bar init mem arg k us trs = Some (rc, trs')" "tracer_us (trs' f i)"
  shows "tracer_us (trs f i) \<or> f < PCIEM_MAX_FUNCTIONS \<and> i < PCI_STD_NUM_BARS \<and> slot_funcs us f \<noteq> None"
  using assms
  by (auto simp: pciem_ioctl_trace_bar_def Let_def set_tracer_def us_get_rc_def bind_eq_Some_conv not_le
      split: option.splits if_splits sum.splits prod.splits)

lemma ioctl_refs:
  assumes "pciem_device_ioctl galloc search E cmd A m s = Some (ans, m', s')"
  shows "refcnt (us_slot s') = refcnt (us_slot s) + hands_out ans"
    "0 < hands_out ans \<Longrightarrow> hands_out ans = 1 \<and> reg (us_slot s) = UNREGISTERED \<and> reg (us_slot s') = REGISTERED"
    "reg (us_slot s) = REGISTERED \<Longrightarrow> reg (us_slot s') = REGISTERED"
    "slot_funcs (us_slot s) f \<noteq> None \<Longrightarrow> slot_funcs (us_slot s') f \<noteq> None"
  using assms
  by (auto simp: pciem_device_ioctl_def Let_def hands_out_def split: if_splits prod.splits option.splits
      prp_result.splits sum.splits dest!: create_refs register_refs)

lemma create_slots:
  "pciem_ioctl_create_device mem_ok cap_ok arg k us = (rc, k', us') \<Longrightarrow> slot_funcs us f = Some a \<Longrightarrow> slot_funcs us' f = Some a"
  by (auto simp: pciem_ioctl_create_device_def create_check_def create_object_def create_commit_def Let_def
      split: option.splits if_splits sum.splits prod.splits)

lemma ioctl_slots:
  assumes "pciem_device_ioctl galloc search E cmd A m s = Some (ans, m', s')" "slot_funcs (us_slot s) f = Some a"
  shows "slot_funcs (us_slot s') f = Some a"
  using assms
  by (auto simp: pciem_device_ioctl_def Let_def split: if_splits prod.splits option.splits
      prp_result.splits sum.splits dest: create_slots dest!: register_refs)

lemma ioctl_tracers:
  assumes "pciem_device_ioctl galloc search E cmd A m s = Some (ans, m', s')" "tracer_us (us_tracers s' f i)"
  shows "tracer_us (us_tracers s f i) \<or> f < PCIEM_MAX_FUNCTIONS \<and> i < PCI_STD_NUM_BARS \<and> slot_funcs (us_slot s) f \<noteq> None"
  using assms
  by (auto simp: pciem_device_ioctl_def Let_def split: if_splits prod.splits option.splits
      prp_result.splits dest: trace_bar_tracers)

lemma ioctl_irqfds:
  assumes "pciem_device_ioctl galloc search E cmd A m s = Some (ans, m', s')"
  shows "irqfds_inv (us_irqfds s) \<Longrightarrow> irqfds_inv (us_irqfds s')" "cleanup_wq (us_irqfds s') = cleanup_wq (us_irqfds s)"
proof -
  have "us_irqfds s' = us_irqfds s \<or>
    (\<exists>g f mm c arg us. us_irqfds s' = snd (pciem_ioctl_set_irqfd g f mm c arg us (us_irqfds s)))"
    using assms
    by (auto simp: pciem_device_ioctl_def Let_def split: if_splits prod.splits option.splits prp_result.splits) (metis snd_conv)
  moreover have "cleanup_wq (snd (pciem_ioctl_set_irqfd g f mm c arg us fds)) = cleanup_wq fds" for g f mm c arg us fds
    by (simp add: pciem_ioctl_set_irqfd_def split: sum.split option.split)
  ultimately show "irqfds_inv (us_irqfds s) \<Longrightarrow> irqfds_inv (us_irqfds s')" "cleanup_wq (us_irqfds s') = cleanup_wq (us_irqfds s)"
    using set_irqfd_inv by auto
qed

subsection \<open>The invariant\<close>

definition state_ok :: "'g kernel \<Rightarrow> us_state \<Rightarrow> bool" where
  "state_ok k s \<longleftrightarrow> slot_inv k (us_slot s) \<and> irqfds_inv (us_irqfds s) \<and> cleanup_wq (us_irqfds s) \<and>
     (\<forall>f i. tracer_us (us_tracers s f i) \<longrightarrow> f < PCIEM_MAX_FUNCTIONS \<and> i < PCI_STD_NUM_BARS \<and> slot_funcs (us_slot s) f \<noteq> None)"

definition cdev_inv :: "('g, 't) chardev \<Rightarrow> bool" where
  "cdev_inv c \<longleftrightarrow>
     (case cd_us c of
        None \<Rightarrow> \<not> cd_device c \<and> cd_instances c = 0
      | Some s \<Rightarrow> refcnt (us_slot s) = of_bool (cd_device c) + cd_instances c \<and> (cd_device c \<or> 0 < cd_instances c) \<and>
          cd_instances c \<le> 1 \<and> (0 < cd_instances c \<longrightarrow> reg (us_slot s) = REGISTERED) \<and> state_ok (m_kernel (cd_machine c)) s)"

lemma irqfd_run_objs:
  assumes "irqfd_run view k (Some us) i = Some (i', k')"
  shows "k' = k \<or> (\<exists>f a v v'. slot_funcs us f = Some a \<and> k_objs k a = Some v \<and> same_ident v v' \<and> k' = put_obj a v' k)"
    "listed i' = listed i" "shutdown_queued i' = shutdown_queued i"
proof -
  have same: "pciem_trigger_msi view v n = (rc, v') \<Longrightarrow> same_ident v v'" for v n rc v'
    by (auto simp: pciem_trigger_msi_def same_ident_def Let_def split: option.splits if_splits)
  show "k' = k \<or> (\<exists>f a v v'. slot_funcs us f = Some a \<and> k_objs k a = Some v \<and> same_ident v v' \<and> k' = put_obj a v' k)"
    using assms
    by (auto simp: irqfd_run_def pciem_irqfd_work_def us_get_rc_def split: if_splits option.splits sum.splits prod.splits) (metis same)
  show "listed i' = listed i" "shutdown_queued i' = shutdown_queued i"
    using assms by (auto simp: irqfd_run_def split: if_splits)
qed

lemma irqfd_run_inv:
  assumes "slot_inv k us" "irqfd_run view k (Some us) i = Some (i', k')"
  shows "slot_inv k' us"
  using irqfd_run_objs(1) [OF assms(2)] slot_inv_put_obj [OF assms(1)] ident_obj_ok assms(1) by metis

lemma irqfds_inv_update: "irqfds_inv fds \<Longrightarrow> listed q \<noteq> shutdown_queued q \<Longrightarrow> irqfds_inv (fds\<lparr>items := (items fds)[i := q]\<rparr>)"
  using set_update_subset_insert [of "items fds" i q] by (auto simp: irqfds_inv_def)

lemma state_ok_items:
  assumes "state_ok k s" "slot_inv k' (us_slot s)" "listed q \<noteq> shutdown_queued q"
  shows "state_ok k' (s\<lparr>us_irqfds := (us_irqfds s)\<lparr>items := (items (us_irqfds s))[i := q]\<rparr>\<rparr>)"
  using assms irqfds_inv_update [of "us_irqfds s" q i] by (simp add: state_ok_def)

lemma state_ok_item:
  "state_ok k s \<Longrightarrow> i < length (items (us_irqfds s)) \<Longrightarrow>
     listed (items (us_irqfds s) ! i) \<noteq> shutdown_queued (items (us_irqfds s) ! i)"
  by (simp add: state_ok_def irqfds_inv_def)

lemma state_ok_slot: "state_ok k s \<Longrightarrow> slot_inv k (us_slot s)"
  by (simp add: state_ok_def)

lemma ioctl_state_ok:
  assumes "pciem_device_ioctl galloc search E cmd A m s = Some (ans, m', s')" "state_ok (m_kernel m) s"
  shows "state_ok (m_kernel m') s'"
proof -
  have "slot_inv (m_kernel m') (us_slot s')"
    using ioctl_session [OF assms(1)] assms(2) session_step_inv by (fastforce simp: state_ok_def)
  then show ?thesis
    using ioctl_refs(4) [OF assms(1)] ioctl_tracers [OF assms(1)] ioctl_irqfds [OF assms(1)] assms(2)
    unfolding state_ok_def by blast
qed

lemma put_inv:
  assumes "state_ok (m_kernel m) s" "pciem_put E m s = Some (m', us)"
  shows "1 < refcnt (us_slot s) \<Longrightarrow> m' = m \<and> us = Some (s\<lparr>us_slot := (us_slot s)\<lparr>refcnt := refcnt (us_slot s) - 1\<rparr>\<rparr>)"
    "refcnt (us_slot s) \<le> 1 \<Longrightarrow> us = None \<and> us_destroy E m s = Some m'"
  using assms(2) by (auto simp: pciem_put_def)

lemma state_ok_refcnt: "state_ok k (s\<lparr>us_slot := (us_slot s)\<lparr>refcnt := n\<rparr>\<rparr>) = state_ok k s"
  by (simp add: state_ok_def slot_inv_def obj_ok_def)

lemma cdev_inv_same_slot:
  assumes "cdev_inv c" "cd_us c = Some s" "us_slot s' = us_slot s" "state_ok (m_kernel m) s'"
  shows "cdev_inv (c\<lparr>cd_machine := m, cd_us := Some s'\<rparr>)"
  using assms by (simp add: cdev_inv_def)

lemma cdev_step_inv: "cdev_step galloc search c c' \<Longrightarrow> cdev_inv c \<Longrightarrow> cdev_inv c'"
proof (induction rule: cdev_step.induct)
  case (ioctl c s E cmd A ans m s')
  then have inv: "refcnt (us_slot s) = 1 + cd_instances c" "cd_instances c \<le> 1"
      "0 < cd_instances c \<longrightarrow> reg (us_slot s) = REGISTERED" "state_ok (m_kernel (cd_machine c)) s"
    by (simp_all add: cdev_inv_def)
  note refs = ioctl_refs [OF ioctl(3)]
  have "0 < hands_out ans \<longrightarrow> cd_instances c = 0" using refs(2) inv(3) by auto
  then show ?case
    using refs(1-3) inv ioctl(1) ioctl_state_ok [OF ioctl(3) inv(4)] by (cases "hands_out ans = 0") (auto simp: cdev_inv_def)
next
  case (event c s now ev e)
  then show ?case by (auto simp: cdev_inv_def state_ok_def)
next
  case (wakeup c s i pollin pollhup n n' q)
  then have ok: "state_ok (m_kernel (cd_machine c)) s" by (simp add: cdev_inv_def)
  from state_ok_items [OF ok state_ok_slot [OF ok] wakeup_inv [OF state_ok_item [OF ok wakeup(2)] wakeup(3)]]
  have "cdev_inv (c\<lparr>cd_machine := cd_machine c, cd_us := Some (s\<lparr>us_irqfds := (us_irqfds s)\<lparr>items := (items (us_irqfds s))[i := q]\<rparr>\<rparr>)\<rparr>)"
    by (intro cdev_inv_same_slot [OF wakeup(4,1)]) simp_all
  then show ?case by simp
next
  case (work c s i view q k)
  then have ok: "state_ok (m_kernel (cd_machine c)) s" by (simp add: cdev_inv_def)
  have "listed q \<noteq> shutdown_queued q"
    using state_ok_item [OF ok work(2)] irqfd_run_objs(2,3) [OF work(3)] by simp
  from state_ok_items [OF ok irqfd_run_inv [OF state_ok_slot [OF ok] work(3)] this]
  show ?case by (intro cdev_inv_same_slot [OF work(4,1)]) simp_all
next
  case (close_device c s E m us)
  then have inv: "refcnt (us_slot s) = 1 + cd_instances c" "cd_instances c \<le> 1" "state_ok (m_kernel (cd_machine c)) s"
      "0 < cd_instances c \<longrightarrow> reg (us_slot s) = REGISTERED"
    by (simp_all add: cdev_inv_def)
  have put: "pciem_put E (cd_machine c) s = Some (m, us)" using close_device(3) by (simp add: pciem_device_release_def)
  show ?case
  proof (cases "cd_instances c")
    case 0
    with put_inv(2) [OF inv(3) put] inv(1) have "us = None" by simp
    with 0 show ?thesis by (simp add: cdev_inv_def)
  next
    case (Suc n)
    with put_inv(1) [OF inv(3) put] inv(1) have
      "m = cd_machine c \<and> us = Some (s\<lparr>us_slot := (us_slot s)\<lparr>refcnt := refcnt (us_slot s) - 1\<rparr>\<rparr>)" by simp
    with Suc inv show ?thesis by (simp add: cdev_inv_def state_ok_refcnt)
  qed
next
  case (close_instance c s E m us)
  then have inv: "refcnt (us_slot s) = of_bool (cd_device c) + 1" "cd_instances c = 1" "state_ok (m_kernel (cd_machine c)) s"
    by (auto simp: cdev_inv_def)
  have put: "pciem_put E (cd_machine c) s = Some (m, us)" using close_instance(3) by (simp add: pciem_instance_release_def)
  show ?case
  proof (cases "cd_device c")
    case False
    with put_inv(2) [OF inv(3) put] inv(1) have "us = None" by simp
    with False inv(2) show ?thesis by (simp add: cdev_inv_def)
  next
    case True
    with put_inv(1) [OF inv(3) put] inv(1) have
      "m = cd_machine c \<and> us = Some (s\<lparr>us_slot := (us_slot s)\<lparr>refcnt := refcnt (us_slot s) - 1\<rparr>\<rparr>)" by simp
    with True inv show ?thesis by (simp add: cdev_inv_def state_ok_refcnt)
  qed
qed

lemma cdev_reach_inv:
  assumes "cdev_reach galloc search m0 c" "\<forall>a\<ge>k_next (m_kernel m0). k_objs (m_kernel m0) a = None"
  shows "cdev_inv c"
  using assms
proof (induction rule: cdev_reach.induct)
  case (opened mem s)
  then show ?case
    by (auto simp: pciem_open_def pciem_userspace_create_def pciem_shared_ring_alloc_def pciem_irqfds_init_def
        cdev_inv_def state_ok_def slot_inv_def irqfds_inv_def split: sum.splits if_splits)
qed (use cdev_step_inv in blast)

subsection \<open>The last close\<close>

text \<open>The mappings the tracers of a session have poisoned, in the order in which they are restored.\<close>

definition traced_maps :: "tracers \<Rightarrow> smptrace_map list" where
  "traced_maps trs = concat (map (\<lambda>(f, i). if tracer_us (trs f i) then maps (tracer_ctx (trs f i)) else [])
     (List.product [0..<PCIEM_MAX_FUNCTIONS] [0..<PCI_STD_NUM_BARS]))"

lemma destroy_tracers_tables:
  "distinct fis \<Longrightarrow> snd (destroy_tracers restore fis trs t) =
     fold restore (concat (map (\<lambda>(f, i). if tracer_us (trs f i) then maps (tracer_ctx (trs f i)) else []) fis)) t"
proof (induction restore fis trs t rule: destroy_tracers.induct)
  case (2 restore f i fis trs t)
  have rest: "map (\<lambda>(g, j). if tracer_us (set_tracer f i x trs g j) then maps (tracer_ctx (set_tracer f i x trs g j)) else []) fis
      = map (\<lambda>(g, j). if tracer_us (trs g j) then maps (tracer_ctx (trs g j)) else []) fis" for x
    using 2(3) by (intro map_cong refl) (auto simp: set_tracer_def)
  show ?case
    using 2 by (cases "tracer_us (trs f i)") (simp_all add: smptrace_destroy_def smptrace_deactivate_def rest)
qed simp

lemma tracing_destroy_tables:
  "snd (pciem_tracing_destroy restore trs t) = fold restore (traced_maps trs) t"
  by (simp add: pciem_tracing_destroy_def traced_maps_def destroy_tracers_tables distinct_product)

definition in_slot :: "session \<Rightarrow> nat \<Rightarrow> bool" where
  "in_slot us a \<longleftrightarrow> (\<exists>f<PCIEM_MAX_FUNCTIONS. slot_funcs us f = Some a)"

lemma irqfd_run_other:
  assumes "irqfd_run view k (Some us) i = Some (i', k')" "\<forall>f. slot_funcs us f \<noteq> Some a"
  shows "k_objs k' a = k_objs k a"
  using irqfd_run_objs(1) [OF assms(1)] assms(2) by (auto simp: put_obj_def)

lemma run_shutdowns_other:
  assumes "run_shutdowns view (Some us) is k = Some (is', k')" "\<forall>f. slot_funcs us f \<noteq> Some a"
  shows "k_objs k' a = k_objs k a"
  using assms(1)
proof (induction "is" arbitrary: k is')
  case (Cons i "is")
  show ?case
  proof (cases "shutdown_queued i")
    case True
    then obtain i' k1 where "irqfd_run view k (Some us) (i\<lparr>waiting := False\<rparr>) = Some (i', k1)"
        "run_shutdowns view (Some us) is k1 = Some (is', k')"
      using Cons(2) by (auto simp: pciem_irqfd_shutdown_work_def split: option.splits)
    then show ?thesis using Cons(1) irqfd_run_other [OF _ assms(2)] by metis
  next
    case False
    then obtain is1 where "run_shutdowns view (Some us) is k = Some (is1, k')" using Cons(2) by auto
    then show ?thesis by (rule Cons(1))
  qed
qed simp

lemma free_funcs_objs:
  "free_funcs env gfree fs us k = Some k' \<Longrightarrow>
     k_objs k' a = (if \<exists>f\<in>set fs. slot_funcs us f = Some a then None else k_objs k a)"
proof (induction fs arbitrary: k)
  case (Cons f fs)
  obtain p h objs where o: "pciem_free_root_complex env gfree (k_pool k) (k_host k) (k_objs k) (slot_funcs us f) = Some (p, h, objs)"
      "free_funcs env gfree fs us (k\<lparr>k_pool := p, k_host := h, k_objs := objs\<rparr>) = Some k'"
    using Cons(2) by (auto split: option.splits)
  have "objs a = (if slot_funcs us f = Some a then None else k_objs k a)"
    using o(1) by (auto simp: pciem_free_root_complex_def split: option.splits prod.splits)
  with Cons(1) [OF o(2)] show ?case by simp
qed simp

lemma destroy_effect:
  assumes "us_destroy E m s = Some m'" "slot_inv k (us_slot s)"
  shows "k_objs (m_kernel m') a = (if in_slot (us_slot s) a then None else k_objs (m_kernel m) a)"
    "m_tables m' = fold (sv_restore E) (traced_maps (us_tracers s)) (m_tables m)" "m_dma m' = m_dma m"
proof -
  obtain fds k1 k2 where d: "pciem_irqfds_shutdown (sv_view E) (Some (us_slot s)) (us_irqfds s) (m_kernel m) = Some (fds, k1)"
      "pciem_userspace_destroy (sv_dev E 0) (sv_gfree E) k1 (us_slot s) = Some k2"
      "m' = m\<lparr>m_kernel := k2, m_tables := fold (sv_restore E) (traced_maps (us_tracers s)) (m_tables m)\<rparr>"
    using assms(1) by (auto simp: us_destroy_def Let_def tracing_destroy_tables split: option.splits prod.splits)
  have "k_objs k1 a = k_objs (m_kernel m) a" if "\<not> in_slot (us_slot s) a"
  proof -
    have "\<forall>f. slot_funcs (us_slot s) f \<noteq> Some a"
      using that slot_inv_obj(2) [OF assms(2)] unfolding in_slot_def by blast
    from run_shutdowns_other [OF _ this] d(1) show ?thesis
      by (auto simp: pciem_irqfds_shutdown_def split: if_splits)
  qed
  then show "k_objs (m_kernel m') a = (if in_slot (us_slot s) a then None else k_objs (m_kernel m) a)"
    using free_funcs_objs [OF d(2) [unfolded pciem_userspace_destroy_def], of a] d(3) by (auto simp: in_slot_def)
  show "m_tables m' = fold (sv_restore E) (traced_maps (us_tracers s)) (m_tables m)" "m_dma m' = m_dma m"
    using d(3) by simp_all
qed

subsection \<open>No object is lost\<close>

text \<open>No operation adds an object to the kernel, except creation, whose object enters the slot.\<close>

lemma put_obj_dom: "k_objs k a \<noteq> None \<Longrightarrow> dom (k_objs (put_obj a v k)) = dom (k_objs k)"
  by (auto simp: put_obj_def)

lemma build_all_dom: "build_all fs us k = Some k' \<Longrightarrow> dom (k_objs k') = dom (k_objs k)"
proof (induction fs arbitrary: k)
  case (Cons f fs)
  then show ?case by (auto split: option.splits simp: put_obj_dom)
qed simp

lemma init_obj_dom: "init_obj env gfree a k = Some (rc, k') \<Longrightarrow> dom (k_objs k') = dom (k_objs k)"
  by (auto simp: init_obj_def put_obj_def split: option.splits prod.splits if_splits)

lemma attach_obj_dom: "attach_obj env a0 a k = Some (rc, k') \<Longrightarrow> dom (k_objs k') = dom (k_objs k)"
  by (auto simp: attach_obj_def put_obj_def split: option.splits if_splits)

lemma init_rest_dom: "init_rest env gfree a0 fs us k = Some (rc, k') \<Longrightarrow> dom (k_objs k') = dom (k_objs k)"
proof (induction fs arbitrary: k)
  case (Cons f fs)
  show ?case
  proof (cases "slot_funcs us f")
    case None
    then show ?thesis using Cons by simp
  next
    case (Some a)
    then obtain rc1 k1 where k1: "init_obj (env f) gfree a k = Some (rc1, k1)" using Cons(2) by (auto split: option.splits)
    note d1 = init_obj_dom [OF k1]
    show ?thesis
    proof (cases rc1)
      case (Inl e)
      then show ?thesis using Cons(2) Some k1 d1 by simp
    next
      case (Inr u)
      then obtain rc2 k2 where k2: "attach_obj (env f) a0 a k1 = Some (rc2, k2)" using Cons(2) Some k1 by (auto split: option.splits)
      then have "dom (k_objs k2) = dom (k_objs k)" using attach_obj_dom d1 by metis
      then show ?thesis using Cons Some k1 Inr k2 by (cases rc2) auto
    qed
  qed
qed simp

lemma register_dom:
  assumes "pciem_ioctl_register env gfree fd k us = Some (r, k', us')"
  shows "dom (k_objs k') = dom (k_objs k)"
  using assms
proof (cases rule: register_cases)
  case (ran us1 k1 a0 v0 k2 rc k3)
  have "dom (k_objs k2) = dom (k_objs k1)" using put_obj_dom [of k1 a0] ran(5,6) by simp
  then have d3: "dom (k_objs k3) = dom (k_objs k)" using build_all_dom [OF ran(3)] init_obj_dom [OF ran(7)] by simp
  show ?thesis
  proof (cases rc)
    case (Inl e)
    then show ?thesis using ran(8) d3 by simp
  next
    case (Inr u)
    then obtain rc4 where "init_rest env gfree a0 [1..<PCIEM_MAX_FUNCTIONS] us1 k3 = Some (rc4, k')" using ran(9) by auto
    from init_rest_dom [OF this] d3 show ?thesis by simp
  qed
qed simp

lemma domsub: "dom m' = dom m \<Longrightarrow> m' a = Some y \<Longrightarrow> \<exists>z. m a = Some z"
  by (metis domD domI)

lemma ioctl_dom:
  assumes "pciem_device_ioctl galloc search E cmd A m s = Some (ans, m', s')" "k_objs (m_kernel m') a \<noteq> None"
  shows "k_objs (m_kernel m) a \<noteq> None \<or> in_slot (us_slot s') a"
proof -
  have create: "a \<in> dom (k_objs k') \<Longrightarrow> a \<in> dom (k_objs k) \<or> in_slot us' a"
    if "pciem_ioctl_create_device mem_ok cap_ok arg k us = (rc, k', us')" for mem_ok cap_ok arg k us rc k' us'
    using that
    by (auto simp: pciem_ioctl_create_device_def create_object_def create_commit_def in_slot_def Let_def not_le
        split: option.splits if_splits sum.splits prod.splits)
  have bar: "dom (k_objs k') = dom (k_objs k)" if "pciem_ioctl_add_bar galloc search arg k us = (rc, k')" for arg k us rc k'
    using that by (auto simp: pciem_ioctl_add_bar_def put_obj_def dest!: with_func_ok split: sum.splits  prod.splits if_splits)
  have cap: "dom (k_objs k') = dom (k_objs k)" if "pciem_ioctl_add_capability arg k us = (rc, k')" for arg k us rc k'
    using that by (auto simp: pciem_ioctl_add_capability_def put_obj_def dest!: with_func_ok split: sum.splits prod.splits if_splits)
  have conf: "dom (k_objs k') = dom (k_objs k)" if "pciem_ioctl_set_config arg k us = (rc, k')" for arg k us rc k'
    using that by (auto simp: pciem_ioctl_set_config_def put_obj_def dest!: with_func_ok split: sum.splits if_splits)
  have irq: "dom (k_objs k') = dom (k_objs k)" if "pciem_ioctl_inject_irq view arg k us = (rc, k')" for view arg k us rc k'
    using that by (auto simp: pciem_ioctl_inject_irq_def put_obj_def dest!: with_func_ok split: sum.splits prod.splits if_splits)
  show ?thesis
    using assms domsub [OF bar] domsub [OF cap] domsub [OF conf] domsub [OF irq] domsub [OF register_dom]
    by (auto simp: pciem_device_ioctl_def Let_def split: if_splits prod.splits option.splits prp_result.splits dest: create [OF _ domI])
qed

lemma irqfd_run_dom: "irqfd_run view k (Some us) i = Some (i', k') \<Longrightarrow> dom (k_objs k') = dom (k_objs k)"
  using irqfd_run_objs(1) [of view k us i i' k'] by (auto simp: put_obj_def split: if_splits)

text \<open>Every object made since the device was opened is in the slot.\<close>

definition accounted :: "nat \<Rightarrow> ('g, 't) chardev \<Rightarrow> bool" where
  "accounted n c \<longleftrightarrow> (\<forall>a\<ge>n. k_objs (m_kernel (cd_machine c)) a \<noteq> None \<longrightarrow> (\<exists>s. cd_us c = Some s \<and> in_slot (us_slot s) a))"

lemma put_accounted:
  assumes "state_ok (m_kernel (cd_machine c)) s" "cd_us c = Some s" "pciem_put E (cd_machine c) s = Some (m, us)" "accounted n c"
  shows "accounted n (c\<lparr>cd_machine := m, cd_us := us, cd_device := d, cd_instances := i\<rparr>)"
proof (cases "1 < refcnt (us_slot s)")
  case True
  then show ?thesis using put_inv(1) [OF assms(1,3)] assms(2,4) by (simp add: accounted_def in_slot_def)
next
  case False
  then have us: "us = None" and d: "us_destroy E (cd_machine c) s = Some m" using put_inv(2) [OF assms(1,3)] by simp_all
  show ?thesis using destroy_effect(1) [OF d state_ok_slot [OF assms(1)]] us assms(2,4) by (auto simp: accounted_def)
qed

lemma cdev_step_accounted:
  "cdev_step galloc search c c' \<Longrightarrow> cdev_inv c \<Longrightarrow> accounted n c \<Longrightarrow> accounted n c'"
proof (induction rule: cdev_step.induct)
  case (ioctl c s E cmd A ans m s')
  have "in_slot (us_slot s) a \<Longrightarrow> in_slot (us_slot s') a" for a
    using ioctl_slots [OF ioctl(3)] by (auto simp: in_slot_def)
  then show ?case using ioctl_dom [OF ioctl(3)] ioctl(2,5) by (simp add: accounted_def) blast
next
  case (event c s now ev e)
  then show ?case by (simp add: accounted_def)
next
  case (wakeup c s i pollin pollhup n n' q)
  then show ?case by (simp add: accounted_def)
next
  case (work c s i view q k)
  from irqfd_run_dom [OF work(3)] work(1,5) show ?case by (auto simp: accounted_def dest: domsub)
next
  case (close_device c s E m us)
  then have "state_ok (m_kernel (cd_machine c)) s" by (simp add: cdev_inv_def)
  from put_accounted [OF this close_device(2) close_device(3) [unfolded pciem_device_release_def] close_device(5), where d = False and i = "cd_instances c"]
  show ?case by simp
next
  case (close_instance c s E m us)
  then have "state_ok (m_kernel (cd_machine c)) s" by (simp add: cdev_inv_def)
  from put_accounted [OF this close_instance(2) close_instance(3) [unfolded pciem_instance_release_def] close_instance(5), where d = "cd_device c" and i = "cd_instances c - 1"]
  show ?case by simp
qed

lemma cdev_reach_accounted:
  assumes "cdev_reach galloc search m0 c" "\<forall>a\<ge>k_next (m_kernel m0). k_objs (m_kernel m0) a = None"
  shows "accounted (k_next (m_kernel m0)) c"
  using assms
proof (induction rule: cdev_reach.induct)
  case (opened mem s)
  then show ?case by (simp add: accounted_def)
next
  case (step c c')
  from step(3) [OF step(4)] cdev_step_accounted [OF step(2) cdev_reach_inv [OF step(1,4)]] show ?case by simp
qed

subsection \<open>Properties\<close>

text \<open>
  C13. A session lives exactly as long as one of its descriptors. Through every sequence of commands on
  the device, events, writes to eventfds with the work they queue, and closes, the session is there
  while the device or the instance is open and no longer; its reference count is the number of open
  descriptors; there is at most one instance, and only of a registered device; and the slot, the
  tracers and the irqfds are consistent: a tracer belongs to a function that exists, an irqfd is either
  listed or on its way to be freed.
\<close>

theorem session_lives_while_open:
  assumes "cdev_reach galloc search m0 c" and "\<forall>a\<ge>k_next (m_kernel m0). k_objs (m_kernel m0) a = None"
  shows "case cd_us c of
      None \<Rightarrow> \<not> cd_device c \<and> cd_instances c = 0
    | Some s \<Rightarrow> (cd_device c \<or> cd_instances c = 1) \<and> refcnt (us_slot s) = of_bool (cd_device c) + cd_instances c \<and>
        cd_instances c \<le> 1 \<and> (cd_instances c = 1 \<longrightarrow> reg (us_slot s) = REGISTERED) \<and>
        (\<forall>f a. slot_funcs (us_slot s) f = Some a \<longrightarrow> k_objs (m_kernel (cd_machine c)) a \<noteq> None) \<and>
        (\<forall>f i. tracer_us (us_tracers s f i) \<longrightarrow> slot_funcs (us_slot s) f \<noteq> None \<and> i < PCI_STD_NUM_BARS) \<and>
        (\<forall>q\<in>set (items (us_irqfds s)). listed q \<noteq> shutdown_queued q)"
proof (cases "cd_us c")
  case None
  then show ?thesis using cdev_reach_inv [OF assms] by (simp add: cdev_inv_def)
next
  case (Some s)
  note inv = cdev_reach_inv [OF assms, unfolded cdev_inv_def Some option.case]
  then have ok: "state_ok (m_kernel (cd_machine c)) s" by simp
  from slot_inv_obj(1) [OF state_ok_slot [OF ok]]
  have "k_objs (m_kernel (cd_machine c)) a \<noteq> None" if "slot_funcs (us_slot s) f = Some a" for f a
    using that by blast
  then show ?thesis using inv Some ok by (auto simp: state_ok_def irqfds_inv_def)
qed

text \<open>
  C30. Closing a descriptor frees nothing as long as another one is open; closing the last one, be it the
  device or the instance, frees every function of the slot and no other object of the kernel, and
  restores every mapping that a tracer has poisoned. Nothing is lost on the way: of all the objects made
  since the device was opened, none is left.
\<close>

theorem last_close_frees:
  assumes "cdev_reach galloc search m0 c" and "\<forall>a\<ge>k_next (m_kernel m0). k_objs (m_kernel m0) a = None"
    and "cd_us c = Some s" and "pciem_put E (cd_machine c) s = Some (m', us')"
  shows "cd_device c \<and> cd_instances c = 1 \<and> m' = cd_machine c \<and> us' \<noteq> None \<or>
    (cd_device c \<longleftrightarrow> cd_instances c = 0) \<and> us' = None \<and>
    (\<forall>a. k_objs (m_kernel m') a = (if in_slot (us_slot s) a then None else k_objs (m_kernel (cd_machine c)) a)) \<and>
    (\<forall>a\<ge>k_next (m_kernel m0). k_objs (m_kernel m') a = None) \<and>
    m_tables m' = fold (sv_restore E) (traced_maps (us_tracers s)) (m_tables (cd_machine c))"
proof -
  have inv: "refcnt (us_slot s) = of_bool (cd_device c) + cd_instances c" "cd_device c \<or> 0 < cd_instances c"
      "cd_instances c \<le> 1" "state_ok (m_kernel (cd_machine c)) s"
    using cdev_reach_inv [OF assms(1,2)] by (simp_all add: cdev_inv_def assms(3))
  note put = put_inv [OF inv(4) assms(4)]
  show ?thesis
  proof (cases "cd_device c \<and> cd_instances c = 1")
    case True
    then show ?thesis using put(1) inv(1) by simp
  next
    case False
    then have "refcnt (us_slot s) \<le> 1" "cd_device c \<longleftrightarrow> cd_instances c = 0" using inv(1-3) by auto
    moreover from this(1) have "us' = None" and d: "us_destroy E (cd_machine c) s = Some m'" using put(2) by simp_all
    moreover have "k_objs (m_kernel m') a = None" if "k_next (m_kernel m0) \<le> a" for a
      using cdev_reach_accounted [OF assms(1,2)] that assms(3) destroy_effect(1) [OF d state_ok_slot [OF inv(4)], of a]
      by (auto simp: accounted_def)
    ultimately show ?thesis using destroy_effect [OF d state_ok_slot [OF inv(4)]] by blast
  qed
qed

subsection \<open>An example\<close>

definition services0 :: "(unit, unit) services" where
  "services0 = \<lparr>sv_mem = (\<lambda>_. True), sv_gfree = (\<lambda>g _ _. g), sv_dev = (\<lambda>_. sure_env), sv_fd = Inr 7, sv_view = no_irq,
     sv_dma = ram_env, sv_user = uenv0, sv_copy_out = True, sv_eventfd = (\<lambda>_. Inr 5), sv_file = True, sv_counts = (\<lambda>_. 0),
     sv_trace = smptrace_init True (arch_activate True (Inr ()) (Inr ()) (Inr ())), sv_shadow = (\<lambda>_. 0), sv_restore = (\<lambda>_ t. t)\<rparr>"

definition machine0 :: "(unit, unit) machine" where
  "machine0 = \<lparr>m_kernel = kernel0, m_dma = world0, m_tables = ()\<rparr>"

definition opened0 :: us_state where
  "opened0 = (case pciem_open (\<lambda>_. True) of Inr s \<Rightarrow> s)"

lemma opened0_simps: "pciem_open (\<lambda>_. True) = Inr opened0" "us_slot opened0 = session0" "items (us_irqfds opened0) = []"
    "cleanup_wq (us_irqfds opened0)" "us_tracers opened0 = (\<lambda>_ _. \<lparr>tracer_us = False, tracer_ctx = no_ctx\<rparr>)"
  by (simp_all add: opened0_def pciem_open_def pciem_userspace_create_def pciem_shared_ring_alloc_def
      pciem_irqfds_init_def session0_def)

text \<open>Opening the device and creating function 0.\<close>

definition created0 :: "(unit, unit) chardev" where
  "created0 = \<lparr>cd_machine = machine0\<lparr>m_kernel := fst (snd one_func)\<rparr>, cd_us = Some (opened0\<lparr>us_slot := snd (snd one_func)\<rparr>),
     cd_device = True, cd_instances = 0\<rparr>"

lemma created0_reach: "cdev_reach galloc0 search0 machine0 created0"
proof -
  let ?c = "\<lparr>cd_machine = machine0, cd_us = Some opened0, cd_device = True, cd_instances = 0\<rparr>"
  have r: "cdev_reach galloc0 search0 machine0 ?c" by (rule cdev_reach.opened [OF opened0_simps(1)])
  have "pciem_device_ioctl galloc0 search0 services0 PCIEM_IOCTL_CREATE_DEVICE
      (no_args\<lparr>ua_create := Some \<lparr>cr_flags = 1, cr_func = 0\<rparr>\<rparr>) machine0 opened0 =
    Some (Code (fst one_func), machine0\<lparr>m_kernel := fst (snd one_func)\<rparr>, opened0\<lparr>us_slot := snd (snd one_func)\<rparr>)"
    by (simp add: select services0_def no_args_def one_func_def machine0_def opened0_simps split: prod.split)
  with cdev_step.ioctl [of ?c opened0 galloc0 search0 services0 PCIEM_IOCTL_CREATE_DEVICE]
  have "cdev_step galloc0 search0 ?c created0" by (force simp: created0_def hands_out_def)
  with r show ?thesis by (rule cdev_reach.step)
qed

lemma fresh0: "\<forall>a\<ge>k_next (m_kernel machine0). k_objs (m_kernel machine0) a = None"
  by (simp add: machine0_def kernel0_def)

theorem session_lives_while_open_witness:
  "\<exists>s. cd_us created0 = Some s \<and> refcnt (us_slot s) = 1 \<and> k_objs (m_kernel (cd_machine created0)) 1 \<noteq> None"
proof -
  have "slot_funcs (us_slot (the (cd_us created0))) 0 = Some 1" by (simp add: created0_def one_func_simps)
  then show ?thesis
    using session_lives_while_open [OF created0_reach fresh0] by (simp add: created0_def)
qed

lemma created0_closes: "\<exists>m. pciem_put services0 (cd_machine created0) (the (cd_us created0)) = Some (m, None)"
proof -
  let ?s = "snd (snd one_func)" and ?k = "fst (snd one_func)"
  have slot: "slot_funcs ?s = [0 \<mapsto> 1]" "refcnt ?s = 1"
    by (simp_all add: one_func_simps) (simp add: one_func_def create_defs kernel0_def session0_def)
  obtain v where v: "k_objs ?k 1 = Some v" "pciem_pdev v = None" "root_bus v = None"
    by (simp add: one_func_def create_defs kernel0_def session0_def pciem_init_cap_manager_def)
  obtain p h w where t: "pciem_teardown_device sure_env (\<lambda>g _ _. g) (k_pool ?k) (k_host ?k) v = Some (p, h, w)"
    using v by (simp add: pciem_teardown_device_def split_beta)
  have rest: "free_funcs sure_env gfree [Suc 0..<PCIEM_MAX_FUNCTIONS] ?s k = Some k" for gfree and k :: "unit kernel"
    using slot by (simp add: PCIEM_MAX_FUNCTIONS_def upt_rec pciem_free_root_complex_def)
  have "[0..<PCIEM_MAX_FUNCTIONS] = 0 # [Suc 0..<PCIEM_MAX_FUNCTIONS]" by (simp add: PCIEM_MAX_FUNCTIONS_def upt_rec)
  then have "pciem_userspace_destroy sure_env (\<lambda>g _ _. g) ?k ?s \<noteq> None"
    using rest slot v t by (simp add: pciem_userspace_destroy_def pciem_free_root_complex_def)
  then show ?thesis
    using slot(2) by (auto simp: pciem_put_def us_destroy_def created0_def opened0_simps services0_def machine0_def pciem_irqfds_shutdown_def)
qed

theorem last_close_frees_witness:
  "\<exists>m. pciem_put services0 (cd_machine created0) (the (cd_us created0)) = Some (m, None) \<and> k_objs (m_kernel m) 1 = None"
proof -
  obtain m where m: "pciem_put services0 (cd_machine created0) (the (cd_us created0)) = Some (m, None)"
    using created0_closes by blast
  have us: "cd_us created0 = Some (the (cd_us created0))" by (simp add: created0_def)
  have "in_slot (us_slot (the (cd_us created0))) 1"
    by (auto simp: in_slot_def created0_def one_func_simps PCIEM_MAX_FUNCTIONS_def)
  with last_close_frees [OF created0_reach fresh0 us m] m show ?thesis by auto
qed

end
