(* ===== verification/NvmeBoot.thy ===== *)
theory NvmeBoot
  imports DispatchLife Nvme
begin

text \<open>
  How the NVMe card of \<^verbatim>\<open>examples/nvme/nvme_card.c\<close> comes up and goes away: \<open>dev_register\<close>,
  \<open>dev_alloc_resources\<close>, \<open>dev_destroy\<close> and \<open>main\<close> up to its event loop, over the character device of
  theory Dispatch. The descriptors of the card are a \<open>chardev\<close>; the services of the kernel during the
  n-th call are \<open>E n\<close>. The eventfd is a number of the process (\<open>- 1\<close> when \<open>eventfd\<close> fails).
\<close>

subsection \<open>What the card asks for\<close>

definition nvme_config :: config_regs where
  "nvme_config = \<lparr>cs_func = 0, vendor_id = 0x1234, device_id = 0x5678, subsys_vendor_id = 0x1234,
     subsys_device_id = 0x0001, revision = 0x01, class_prog = 0x02, class_sub = 0x08, class_base = 0x01, header_type = 0\<rparr>"

definition nvme_bar :: "u32 \<Rightarrow> bar_cfg" where
  "nvme_bar i = \<lparr>bc_index = i, bc_flags = 0, bc_size = 8192, bc_func = 0\<rparr>"

definition nvme_msix :: cap_cfg where
  "nvme_msix = \<lparr>cc_req = Req_MSIX 2 0 4096 MAX_QUEUES, cc_func = 0\<rparr>"

definition nvme_trace :: trace_req where
  "nvme_trace = \<lparr>tb_index = 0, tb_flags = 2, tb_func = 0\<rparr>"

text \<open>The commands before the eventfd, in their order.\<close>

definition register_cmds :: "(u32 \<times> user_args) list" where
  "register_cmds =
     [(PCIEM_IOCTL_CREATE_DEVICE, no_args\<lparr>ua_create := Some \<lparr>cr_flags = 0, cr_func = 0\<rparr>\<rparr>),
      (PCIEM_IOCTL_SET_CONFIG, no_args\<lparr>ua_config := Some nvme_config\<rparr>),
      (PCIEM_IOCTL_ADD_BAR, no_args\<lparr>ua_bar := Some (nvme_bar 0)\<rparr>),
      (PCIEM_IOCTL_ADD_BAR, no_args\<lparr>ua_bar := Some (nvme_bar 2)\<rparr>),
      (PCIEM_IOCTL_ADD_CAPABILITY, no_args\<lparr>ua_cap := Some nvme_msix\<rparr>),
      (PCIEM_IOCTL_TRACE_BAR, no_args\<lparr>ua_trace := Some nvme_trace\<rparr>)]"

subsection \<open>Descriptors\<close>

type_synonym ('g, 'm, 't) card_env =
  "('g \<Rightarrow> u64 \<Rightarrow> 'm fit_algo \<Rightarrow> u64 \<times> 'g) \<times> 'm bitmap_search \<times> (nat \<Rightarrow> ('g, 't) services)"

text \<open>A command on the device descriptor.\<close>

fun card_ioctl :: "('g, 'm, 't) card_env \<Rightarrow> nat \<Rightarrow> u32 \<Rightarrow> user_args \<Rightarrow> ('g, 't) chardev \<Rightarrow> (answer \<times> ('g, 't) chardev) option" where
  "card_ioctl (galloc, search, E) n cmd A c =
     (case cd_us c of
        None \<Rightarrow> None
      | Some s \<Rightarrow>
          (case pciem_device_ioctl galloc search (E n) cmd A (cd_machine c) s of
             None \<Rightarrow> None
           | Some (ans, m, s') \<Rightarrow>
               Some (ans, c\<lparr>cd_machine := m, cd_us := Some s', cd_instances := cd_instances c + hands_out ans\<rparr>)))"

fun card_ioctls :: "('g, 'm, 't) card_env \<Rightarrow> nat \<Rightarrow> (u32 \<times> user_args) list \<Rightarrow> ('g, 't) chardev \<Rightarrow> (bool \<times> ('g, 't) chardev) option" where
  "card_ioctls X n [] c = Some (True, c)"
| "card_ioctls X n ((cmd, A) # cmds) c =
     (case card_ioctl X n cmd A c of
        None \<Rightarrow> None
      | Some (ans, c') \<Rightarrow> if ans = Code (Inr ()) then card_ioctls X (n + 1) cmds c' else Some (False, c'))"

definition close_instance :: "('g, 't) services \<Rightarrow> ('g, 't) chardev \<Rightarrow> ('g, 't) chardev option" where
  "close_instance E c =
     (case cd_us c of
        None \<Rightarrow> None
      | Some s \<Rightarrow>
          map_option (\<lambda>(m, us). c\<lparr>cd_machine := m, cd_us := us, cd_instances := cd_instances c - 1\<rparr>)
            (pciem_instance_release E (cd_machine c) s))"

definition close_device :: "('g, 't) services \<Rightarrow> ('g, 't) chardev \<Rightarrow> ('g, 't) chardev option" where
  "close_device E c =
     (case cd_us c of
        None \<Rightarrow> None
      | Some s \<Rightarrow>
          map_option (\<lambda>(m, us). c\<lparr>cd_machine := m, cd_us := us, cd_device := False\<rparr>)
            (pciem_device_release E (cd_machine c) s))"

text \<open>
  \<open>dev_destroy\<close>: the instance first, the device last. It closes descriptor 0 or 1 of the process
  where it means its eventfd, and unmaps the ring and the BAR; neither shows here.
\<close>

definition dev_destroy :: "('g, 't) services \<Rightarrow> ('g, 't) chardev \<Rightarrow> ('g, 't) chardev option" where
  "dev_destroy E c =
     Option.bind (if 0 < cd_instances c then close_instance E c else Some c)
       (\<lambda>c. if cd_device c then close_device E c else Some c)"

definition dev_fail :: "int \<Rightarrow> ('g, 't) services \<Rightarrow> ('g, 't) chardev \<Rightarrow> (int \<times> ('g, 't) chardev) option" where
  "dev_fail ret E c = map_option (Pair ret) (dev_destroy E c)"

subsection \<open>Registration\<close>

text \<open>
  The answer is what \<open>dev_register\<close> returns. A failing command leaves its \<open>- 1\<close> in \<open>ret\<close>; after the
  last of them \<open>ret\<close> is 0, and it is still 0 when \<open>eventfd\<close> fails.
\<close>

definition dev_register ::
    "('g, 'm, 't) card_env \<Rightarrow> int \<Rightarrow> ('g, 't) machine \<Rightarrow> (int \<times> ('g, 't) chardev) option" where
  "dev_register X fd m =
     (let E = snd (snd X) in
      case pciem_open (sv_mem (E 0)) of
        Inl e \<Rightarrow> Some (1, \<lparr>cd_machine = m, cd_us = None, cd_device = False, cd_instances = 0\<rparr>)
      | Inr s \<Rightarrow>
          (case card_ioctls X 1 register_cmds \<lparr>cd_machine = m, cd_us = Some s, cd_device = True, cd_instances = 0\<rparr> of
             None \<Rightarrow> None
           | Some (ok, c) \<Rightarrow>
               if \<not> ok then dev_fail (- 1) (E 9) c
               else if fd < 0 then dev_fail 0 (E 9) c
               else (case card_ioctl X 7 PCIEM_IOCTL_SET_EVENTFD (no_args\<lparr>ua_eventfd := Some fd\<rparr>) c of
                       None \<Rightarrow> None
                     | Some (ans, c) \<Rightarrow>
                         if ans \<noteq> Code (Inr ()) then dev_fail (- 1) (E 9) c
                         else (case card_ioctl X 8 PCIEM_IOCTL_REGISTER no_args c of
                                 Some (Fd (Inr n), c) \<Rightarrow> Some (0, c)
                               | Some (_, c) \<Rightarrow> dev_fail 1 (E 9) c
                               | None \<Rightarrow> None))))"

subsection \<open>Memory\<close>

definition nvme_zeroed :: "bytes \<Rightarrow> nvme_device" where
  "nvme_zeroed mem =
     \<lparr>nvme_running = False, nvme_enabled = False, nvme_csts = 0,
      queues = replicate (unat MAX_QUEUES)
        \<lparr>q_created = False, sq_size = 0, cq_size = 0, sq_addr = 0, cq_addr = 0, sq_tail = 0, sq_head = 0,
         cq_tail = 0, cq_head = 0, cq_phase = 0, q_vector = 0, q_id = 0\<rparr>,
      bar0 = mem, disk = (\<lambda>_. 0)\<rparr>"

text \<open>
  \<open>dev_alloc_resources\<close>: BAR 0 through the instance, its read-only registers, the ring through the
  device, and the disk. \<open>mem\<close> is what the BAR holds before, \<open>remap\<close> and \<open>ring\<close> are the answers of the
  kernel to the mappings, \<open>heap\<close> that of \<open>calloc\<close>.
\<close>

definition map_bar0 :: "bool \<Rightarrow> ('g, 't) chardev \<Rightarrow> bool" where
  "map_bar0 remap c =
     (0 < cd_instances c \<and>
      (case cd_us c of
         None \<Rightarrow> False
       | Some s \<Rightarrow> (case pciem_instance_mmap remap 8192 0 (m_kernel (cd_machine c)) (us_slot s) of Inl _ \<Rightarrow> False | Inr _ \<Rightarrow> True)))"

definition dev_alloc_resources ::
    "('g, 't) services \<Rightarrow> bool \<Rightarrow> unit res \<Rightarrow> bool \<Rightarrow> bytes \<Rightarrow> ('g, 't) chardev \<Rightarrow>
       (int \<times> nvme_device \<times> ('g, 't) chardev) option" where
  "dev_alloc_resources E remap ring heap mem c =
     (let fail = (\<lambda>dev. map_option (\<lambda>c. (1, dev, c)) (dev_destroy E c)) in
      if \<not> map_bar0 remap c then fail (nvme_zeroed mem)
      else (case dev_prepare_ro_regs (nvme_zeroed mem) of
              None \<Rightarrow> None
            | Some dev \<Rightarrow>
                if \<not> cd_device c \<or> isl (pciem_device_mmap ring 0 12416) then fail dev
                else if \<not> heap then fail dev
                else Some (0, dev, c)))"

text \<open>
  \<open>main\<close> up to the event loop: the status with which the process ends, or 0 and the card ready to
  run. \<open>err\<close> ends the process without \<open>dev_destroy\<close>; the kernel then closes its descriptors, the
  device, which was opened first, before the instance.
\<close>

definition process_exit :: "('g, 't) services \<Rightarrow> ('g, 't) chardev \<Rightarrow> ('g, 't) chardev option" where
  "process_exit E c =
     Option.bind (if cd_device c then close_device E c else Some c)
       (\<lambda>c. if 0 < cd_instances c then close_instance E c else Some c)"

definition nvme_main ::
    "('g, 'm, 't) card_env \<Rightarrow> int \<Rightarrow> bool \<Rightarrow> unit res \<Rightarrow> (nat \<Rightarrow> bool) \<Rightarrow> bytes \<Rightarrow> ('g, 't) machine \<Rightarrow>
       (int \<times> nvme_device \<times> ('g, 't) chardev) option" where
  "nvme_main X fd remap ring heap mem m =
     (let E = snd (snd X); stop = (\<lambda>dev c. map_option (\<lambda>c. (1, dev, c)) (process_exit (E 12) c)) in
      case dev_register X fd m of
        None \<Rightarrow> None
      | Some (ret, c) \<Rightarrow>
          if ret \<noteq> 0 then stop (nvme_zeroed mem) c
          else (case dev_alloc_resources (E 10) remap ring (heap 0) mem c of
                  None \<Rightarrow> None
                | Some (ret, dev, c) \<Rightarrow>
                    if ret \<noteq> 0 then stop dev c
                    else if \<not> heap 1 then Option.bind (dev_destroy (E 11) c) (stop dev)
                    else (case card_ioctl X 11 PCIEM_IOCTL_START no_args c of
                            None \<Rightarrow> None
                          | Some (ans, c) \<Rightarrow> if ans = Code (Inr ()) then Some (0, dev, c) else stop dev c)))"

subsection \<open>The card only takes steps of the device\<close>

text \<open>A state of the card: one its calls can lead to, or that of a card that could not open the device.\<close>

definition card_reach :: "('g, 'm, 't) card_env \<Rightarrow> ('g, 't) machine \<Rightarrow> ('g, 't) chardev \<Rightarrow> bool" where
  "card_reach X m c \<longleftrightarrow> cdev_reach (fst X) (fst (snd X)) m c \<or>
     c = \<lparr>cd_machine = m, cd_us = None, cd_device = False, cd_instances = 0\<rparr>"

definition fresh_kernel :: "('g, 't) machine \<Rightarrow> bool" where
  "fresh_kernel m \<longleftrightarrow> (\<forall>a\<ge>k_next (m_kernel m). k_objs (m_kernel m) a = None)"

lemma card_reach_inv:
  assumes "card_reach X m c" "fresh_kernel m"
  shows "cdev_inv c \<and> accounted (k_next (m_kernel m)) c"
proof (cases "cdev_reach (fst X) (fst (snd X)) m c")
  case True
  then show ?thesis using cdev_reach_inv cdev_reach_accounted assms(2) unfolding fresh_kernel_def by blast
next
  case False
  then have "c = \<lparr>cd_machine = m, cd_us = None, cd_device = False, cd_instances = 0\<rparr>"
    using assms(1) by (simp add: card_reach_def)
  then show ?thesis using assms(2) by (simp add: cdev_inv_def accounted_def fresh_kernel_def)
qed

lemma card_reach_open: "card_reach X m c \<Longrightarrow> cd_us c = Some s \<Longrightarrow> cdev_reach (fst X) (fst (snd X)) m c"
  by (auto simp: card_reach_def)

lemma card_ioctl_reach:
  assumes "card_ioctl X n cmd A c = Some (ans, c')" "card_reach X m c" "cd_device c"
  shows "card_reach X m c' \<and> cd_device c'"
proof -
  obtain galloc search E where X: "X = (galloc, search, E)" by (cases X)
  obtain s mm s' where s: "cd_us c = Some s" "pciem_device_ioctl galloc search (E n) cmd A (cd_machine c) s = Some (ans, mm, s')"
      "c' = c\<lparr>cd_machine := mm, cd_us := Some s', cd_instances := cd_instances c + hands_out ans\<rparr>"
    using assms(1) by (auto simp: X split: option.splits)
  have "cdev_reach galloc search m c" using card_reach_open [OF assms(2) s(1)] by (simp add: X)
  from cdev_reach.step [OF this cdev_step.ioctl [OF assms(3) s(1,2)]] show ?thesis
    using assms(3) by (simp add: card_reach_def X s(3))
qed

lemma card_ioctls_reach:
  "card_ioctls X n cmds c = Some (ok, c') \<Longrightarrow> card_reach X m c \<Longrightarrow> cd_device c \<Longrightarrow> card_reach X m c' \<and> cd_device c'"
proof (induction cmds arbitrary: n c)
  case (Cons x cmds)
  obtain cmd A where x: "x = (cmd, A)" by (cases x)
  obtain ans c1 where c1: "card_ioctl X n cmd A c = Some (ans, c1)" using Cons(2) by (auto simp: x split: option.splits)
  note r = card_ioctl_reach [OF c1 Cons(3,4)]
  show ?case
  proof (cases "ans = Code (Inr ())")
    case True
    then have "card_ioctls X (n + 1) cmds c1 = Some (ok, c')" using Cons(2) c1 by (simp add: x)
    from Cons(1) [OF this] r show ?thesis by simp
  next
    case False
    then show ?thesis using Cons(2) c1 r by (simp add: x)
  qed
qed simp

lemma close_instance_reach:
  assumes "close_instance E c = Some c'" "card_reach X m c" "0 < cd_instances c"
  shows "card_reach X m c' \<and> cd_device c' = cd_device c \<and> cd_instances c' = cd_instances c - 1"
proof -
  obtain s mm us where s: "cd_us c = Some s" "pciem_instance_release E (cd_machine c) s = Some (mm, us)"
      "c' = c\<lparr>cd_machine := mm, cd_us := us, cd_instances := cd_instances c - 1\<rparr>"
    using assms(1) by (auto simp: close_instance_def split: option.splits)
  from cdev_reach.step [OF card_reach_open [OF assms(2) s(1)] cdev_step.close_instance [OF assms(3) s(1,2)]] s(3)
  show ?thesis by (simp add: card_reach_def)
qed

lemma close_device_reach:
  assumes "close_device E c = Some c'" "card_reach X m c" "cd_device c"
  shows "card_reach X m c' \<and> \<not> cd_device c' \<and> cd_instances c' = cd_instances c"
proof -
  obtain s mm us where s: "cd_us c = Some s" "pciem_device_release E (cd_machine c) s = Some (mm, us)"
      "c' = c\<lparr>cd_machine := mm, cd_us := us, cd_device := False\<rparr>"
    using assms(1) by (auto simp: close_device_def split: option.splits)
  from cdev_reach.step [OF card_reach_open [OF assms(2) s(1)] cdev_step.close_device [OF assms(3) s(1,2)]] s(3)
  show ?thesis by (simp add: card_reach_def)
qed

text \<open>Both ways of closing everything.\<close>

lemma destroy_reach:
  assumes "dev_destroy E c = Some c' \<or> process_exit E c = Some c'" "card_reach X m c" "fresh_kernel m"
  shows "card_reach X m c' \<and> \<not> cd_device c' \<and> cd_instances c' = 0"
proof -
  have le: "cd_instances c \<le> 1" using card_reach_inv [OF assms(2,3)] by (cases "cd_us c") (simp_all add: cdev_inv_def)
  have inst: "card_reach X m d' \<and> cd_device d' = cd_device d \<and> cd_instances d' = 0"
    if "(if 0 < cd_instances d then close_instance E d else Some d) = Some d'" "card_reach X m d" "cd_instances d \<le> 1" for d d'
    using that close_instance_reach [of E d d' X m] by (cases "0 < cd_instances d") simp_all
  have dev: "card_reach X m d' \<and> \<not> cd_device d' \<and> cd_instances d' = cd_instances d"
    if "(if cd_device d then close_device E d else Some d) = Some d'" "card_reach X m d" for d d'
    using that close_device_reach [of E d d' X m] by (cases "cd_device d") simp_all
  show ?thesis using assms(1)
  proof
    assume "dev_destroy E c = Some c'"
    then obtain d where d: "(if 0 < cd_instances c then close_instance E c else Some c) = Some d"
        "(if cd_device d then close_device E d else Some d) = Some c'"
      by (auto simp: dev_destroy_def bind_eq_Some_conv)
    from inst [OF d(1) assms(2) le] dev [OF d(2)] show ?thesis by simp
  next
    assume "process_exit E c = Some c'"
    then obtain d where d: "(if cd_device c then close_device E c else Some c) = Some d"
        "(if 0 < cd_instances d then close_instance E d else Some d) = Some c'"
      by (auto simp: process_exit_def bind_eq_Some_conv)
    from dev [OF d(1) assms(2)] inst [OF d(2)] le show ?thesis by simp
  qed
qed

text \<open>When everything is closed, nothing is left.\<close>

lemma closed_nothing:
  assumes "card_reach X m c" "fresh_kernel m" "\<not> cd_device c" "cd_instances c = 0"
  shows "cd_us c = None" "k_next (m_kernel m) \<le> a \<Longrightarrow> k_objs (m_kernel (cd_machine c)) a = None"
proof -
  have inv: "cdev_inv c" "accounted (k_next (m_kernel m)) c" using card_reach_inv [OF assms(1,2)] by simp_all
  show us: "cd_us c = None" using inv(1) assms(3,4) by (cases "cd_us c") (simp_all add: cdev_inv_def)
  show "k_next (m_kernel m) \<le> a \<Longrightarrow> k_objs (m_kernel (cd_machine c)) a = None"
    using inv(2) us by (auto simp: accounted_def)
qed

lemma dev_fail_reach:
  "dev_fail ret E c = Some (ret', c') \<Longrightarrow> card_reach X m c \<Longrightarrow> fresh_kernel m \<Longrightarrow>
     ret' = ret \<and> card_reach X m c' \<and> \<not> cd_device c' \<and> cd_instances c' = 0"
  using destroy_reach [of E c c' X m] by (auto simp: dev_fail_def)

lemma dev_register_reach:
  assumes "dev_register X fd m = Some (ret, c)" "fresh_kernel m"
  shows "card_reach X m c \<and> (ret \<noteq> 0 \<longrightarrow> \<not> cd_device c \<and> cd_instances c = 0)"
proof (cases "pciem_open (sv_mem (snd (snd X) 0))")
  case (Inl e)
  then show ?thesis using assms(1) by (auto simp: dev_register_def Let_def card_reach_def)
next
  case (Inr s)
  let ?c0 = "\<lparr>cd_machine = m, cd_us = Some s, cd_device = True, cd_instances = 0\<rparr>"
  have r0: "card_reach X m ?c0" using cdev_reach.opened [OF Inr] by (simp add: card_reach_def)
  obtain ok c1 where c1: "card_ioctls X 1 register_cmds ?c0 = Some (ok, c1)"
    using assms(1) Inr by (auto simp: dev_register_def Let_def split: option.splits)
  have r1: "card_reach X m c1" "cd_device c1" using card_ioctls_reach [OF c1 r0] by simp_all
  note fail = dev_fail_reach [OF _ _ assms(2)]
  show ?thesis
  proof (cases "ok \<and> \<not> fd < 0")
    case False
    then show ?thesis using assms(1) Inr c1 fail [OF _ r1(1)] by (auto simp: dev_register_def Let_def split: if_splits)
  next
    case True
    then obtain ans c2 where c2: "card_ioctl X 7 PCIEM_IOCTL_SET_EVENTFD (no_args\<lparr>ua_eventfd := Some fd\<rparr>) c1 = Some (ans, c2)"
      using assms(1) Inr c1 by (auto simp: dev_register_def Let_def split: option.splits)
    have r2: "card_reach X m c2" "cd_device c2" using card_ioctl_reach [OF c2 r1] by simp_all
    show ?thesis
    proof (cases "ans = Code (Inr ())")
      case False
      then show ?thesis using True assms(1) Inr c1 c2 fail [OF _ r2(1)] by (auto simp: dev_register_def Let_def)
    next
      case ans: True
      then obtain ans3 c3 where c3: "card_ioctl X 8 PCIEM_IOCTL_REGISTER no_args c2 = Some (ans3, c3)"
        using True assms(1) Inr c1 c2 by (auto simp: dev_register_def Let_def split: option.splits)
      have r3: "card_reach X m c3" using card_ioctl_reach [OF c3 r2] by simp
      have "(case ans3 of Fd (Inr n) \<Rightarrow> Some (0, c3) | _ \<Rightarrow> dev_fail 1 (snd (snd X) 9) c3) = Some (ret, c)"
        using assms(1) True Inr c1 c2 ans c3 by (simp add: dev_register_def Let_def split: answer.split sum.split)
      then show ?thesis using r3 fail [OF _ r3] by (auto split: answer.splits sum.splits)
    qed
  qed
qed

lemma alloc_resources_reach:
  assumes "dev_alloc_resources E remap ring heap mem c = Some (ret, dev, c')" "card_reach X m c" "fresh_kernel m"
  shows "card_reach X m c' \<and> (ret = 0 \<longrightarrow> c' = c \<and> cd_device c)"
  using assms(1,2) destroy_reach [OF _ assms(2,3)]
  by (auto simp: dev_alloc_resources_def Let_def split: if_splits option.splits)

lemma nvme_main_reach:
  assumes "nvme_main X fd remap ring heap mem m = Some (st, dev, c)" "fresh_kernel m"
  shows "card_reach X m c \<and> (st \<noteq> 0 \<longrightarrow> \<not> cd_device c \<and> cd_instances c = 0)"
proof -
  note stop = destroy_reach [OF disjI2 _ assms(2), of "snd (snd X) 12" _ _ X]
  obtain ret c1 where c1: "dev_register X fd m = Some (ret, c1)"
    using assms(1) by (auto simp: nvme_main_def Let_def split: option.splits)
  have r1: "card_reach X m c1" using dev_register_reach [OF c1 assms(2)] by simp
  show ?thesis
  proof (cases "ret = 0")
    case False
    then show ?thesis using assms(1) c1 stop [OF _ r1] by (auto simp: nvme_main_def Let_def)
  next
    case ret: True
    obtain ret2 dev2 c2 where c2: "dev_alloc_resources (snd (snd X) 10) remap ring (heap 0) mem c1 = Some (ret2, dev2, c2)"
      using assms(1) c1 ret by (auto simp: nvme_main_def Let_def split: option.splits)
    have r2: "card_reach X m c2" "ret2 = 0 \<longrightarrow> cd_device c2" using alloc_resources_reach [OF c2 r1 assms(2)] by auto
    show ?thesis
    proof (cases "ret2 = 0 \<and> heap 1")
      case False
      have "\<exists>c3. card_reach X m c3 \<and> process_exit (snd (snd X) 12) c3 = Some c \<and> st = 1"
        using False assms(1) c1 ret c2 r2 destroy_reach [OF disjI1 r2(1) assms(2)]
        by (auto simp: nvme_main_def Let_def bind_eq_Some_conv split: if_splits)
      then show ?thesis using stop by blast
    next
      case True
      then obtain ans c3 where c3: "card_ioctl X 11 PCIEM_IOCTL_START no_args c2 = Some (ans, c3)"
        using assms(1) c1 ret c2 by (auto simp: nvme_main_def Let_def split: option.splits)
      have r3: "card_reach X m c3" using card_ioctl_reach [OF c3 r2(1)] r2(2) True by simp
      have "(if ans = Code (Inr ()) then Some (0, dev2, c3)
          else map_option (\<lambda>c. (1, dev2, c)) (process_exit (snd (snd X) 12) c3)) = Some (st, dev, c)"
        using assms(1) True c1 ret c2 c3 by (simp add: nvme_main_def Let_def)
      then show ?thesis using r3 stop [OF _ r3] by (auto split: if_splits)
    qed
  qed
qed

subsection \<open>A successful start\<close>

text \<open>The state of function 0 as the commands build it up: described, with its BARs, with MSI-X.\<close>

definition nvme_function :: "nat \<Rightarrow> u64 \<Rightarrow> u64 \<Rightarrow> rc_dev" where
  "nvme_function a p0 p2 =
     (let made = (\<lambda>p. Bars.bar0\<lparr>bar_size := 8192, carved_start := p, carved_end := p + 8192 - 1\<rparr>);
          v = (case pciem_alloc_root_complex True a of Inr v \<Rightarrow> pciem_init_cap_manager True v)
      in snd (pciem_add_cap_msix
           (set_bar (set_bar (v\<lparr>cfg := identify nvme_config (cfg v)\<rparr>) 0 (made p0)) 2 (made p2))
           \<lparr>bar_index = 2, table_offset = 0, pba_offset = 4096, table_size = MAX_QUEUES\<rparr>))"

text \<open>The pool gives both BARs an address.\<close>

definition pool_serves :: "('g \<Rightarrow> u64 \<Rightarrow> 'm fit_algo \<Rightarrow> u64 \<times> 'g) \<Rightarrow> 'm bitmap_search \<Rightarrow> 'g mempool \<Rightarrow> u64 \<Rightarrow> u64 \<Rightarrow> 'g mempool \<Rightarrow> bool" where
  "pool_serves galloc search p p0 p2 p' \<longleftrightarrow>
     (\<exists>p1. pciem_pool_alloc galloc search p 8192 = (p0, p1) \<and> pciem_pool_alloc galloc search p1 8192 = (p2, p')) \<and>
     p0 \<noteq> 0 \<and> p2 \<noteq> 0"

definition nvme_ctx :: "u64 \<Rightarrow> bytes \<Rightarrow> smptrace_ctx" where
  "nvme_ctx p mem = (traced_ctx nvme_trace (Bars.bar0\<lparr>bar_size := 8192, carved_start := p\<rparr>) mem)
     \<lparr>shadow_mapped := True, badarea_kp := True, iounmap_kp := True, ioremap_krp := True\<rparr>"

lemma traced_ctx_bar: "traced_ctx q (Bars.bar0\<lparr>bar_size := n, carved_start := p, carved_end := e\<rparr>) mem =
    traced_ctx q (Bars.bar0\<lparr>bar_size := n, carved_start := p\<rparr>) mem"
  by (simp add: traced_ctx_def)

lemma card_ioctls_step:
  "card_ioctl X n cmd A c = Some (Code (Inr ()), c') \<Longrightarrow> card_ioctls X n ((cmd, A) # cmds) c = card_ioctls X (n + 1) cmds c'"
  by simp

lemma register_cmds_run:
  assumes "fresh_kernel m" and "pciem_open (sv_mem (E 0)) = Inr s"
    and "\<forall>i\<in>{1..6}. sv_mem (E i) = (\<lambda>_. True)"
    and "pool_serves galloc search (k_pool (m_kernel m)) p0 p2 p'"
    and "sv_trace (E 6) = smptrace_init True (arch_activate True (Inr ()) (Inr ()) (Inr ()))"
  shows "\<exists>c s' a. card_ioctls (galloc, search, E) 1 register_cmds
      \<lparr>cd_machine = m, cd_us = Some s, cd_device = True, cd_instances = 0\<rparr> = Some (True, c) \<and>
    cd_us c = Some s' \<and> cd_instances c = 0 \<and> cd_device c \<and> a = k_next (m_kernel m) \<and>
    us_slot s' = \<lparr>slot_funcs = [0 \<mapsto> a], num_funcs = 1, slot_mode = VIRTUAL_ROOT, reg = UNREGISTERED, refcnt = 1\<rparr> \<and>
    us_ev s' = us_ev s \<and> us_tracers s' 0 0 = \<lparr>tracer_us = True, tracer_ctx = nvme_ctx p0 (sv_shadow (E 6))\<rparr> \<and>
    k_objs (m_kernel (cd_machine c)) a = Some (nvme_function a p0 p2) \<and> k_host (m_kernel (cd_machine c)) = k_host (m_kernel m)"
proof -
  have opn: "us_slot s = session0" "us_tracers s = (\<lambda>_ _. \<lparr>tracer_us = False, tracer_ctx = no_ctx\<rparr>)"
    using assms(2) by (auto simp: pciem_open_def pciem_userspace_create_def session0_def split: if_splits sum.splits)
  obtain p1 where pool: "pciem_pool_alloc galloc search (k_pool (m_kernel m)) 8192 = (p0, p1)"
      "pciem_pool_alloc galloc search p1 8192 = (p2, p')" "p0 \<noteq> 0" "p2 \<noteq> 0"
    using assms(4) by (auto simp: pool_serves_def)
  have mem: "sv_mem (E 1) = (\<lambda>_. True)" using assms(3) by simp
  have same: "traced_ctx q b mm\<lparr>maps := [], in_pf := (\<lambda>_. False)\<rparr> = traced_ctx q b mm" for q b mm by (simp add: traced_ctx_def)
  define a where "a = k_next (m_kernel m)"
  define v0 where "v0 = (case pciem_alloc_root_complex True a of Inr v \<Rightarrow> pciem_init_cap_manager True v)"
  define v1 where "v1 = v0\<lparr>cfg := identify nvme_config (cfg v0)\<rparr>"
  let ?made = "\<lambda>p. Bars.bar0\<lparr>bar_size := 8192, carved_start := p, carved_end := p + 8192 - 1\<rparr>"
  define v2 where "v2 = set_bar v1 0 (?made p0)"
  define v3 where "v3 = set_bar v2 2 (?made p2)"
  have v4: "nvme_function a p0 p2 = snd (pciem_add_cap_msix v3 \<lparr>bar_index = 2, table_offset = 0, pba_offset = 4096, table_size = MAX_QUEUES\<rparr>)"
    by (simp add: nvme_function_def v3_def v2_def v1_def v0_def Let_def)
  define us where "us = \<lparr>slot_funcs = [0 \<mapsto> a], num_funcs = 1, slot_mode = VIRTUAL_ROOT, reg = UNREGISTERED, refcnt = 1\<rparr>"
  define K where "K = (\<lambda>v p. (m_kernel m)\<lparr>k_objs := (k_objs (m_kernel m))(a := Some v), k_next := a + 1, k_pool := p\<rparr>)"
  define C where "C = (\<lambda>v p trs. \<lparr>cd_machine = m\<lparr>m_kernel := K v p\<rparr>, cd_us = Some (s\<lparr>us_slot := us, us_tracers := trs\<rparr>),
     cd_device = True, cd_instances = 0\<rparr>)"
  let ?X = "(galloc, search, E)" and ?p = "k_pool (m_kernel m)"
  have 1: "card_ioctl ?X 1 PCIEM_IOCTL_CREATE_DEVICE (no_args\<lparr>ua_create := Some \<lparr>cr_flags = 0, cr_func = 0\<rparr>\<rparr>)
      \<lparr>cd_machine = m, cd_us = Some s, cd_device = True, cd_instances = 0\<rparr> = Some (Code (Inr ()), C v0 ?p (us_tracers s))"
    using mem by (simp add: select opn session0_def no_args_def create_defs C_def K_def us_def v0_def a_def hands_out_def)
  have K: "k_objs (K v p) a = Some v" "k_pool (K v p) = p" "put_obj a w (K v p) = K w p" "(K v p)\<lparr>k_pool := q\<rparr> = K v q" for v w p q
    by (simp_all add: K_def put_obj_def)
  have C: "cd_us (C v p trs) = Some (s\<lparr>us_slot := us, us_tracers := trs\<rparr>)" "m_kernel (cd_machine (C v p trs)) = K v p"
      "C v p trs\<lparr>cd_machine := cd_machine (C v p trs)\<lparr>m_kernel := K w q\<rparr>, cd_us := Some (s\<lparr>us_slot := us, us_tracers := trs'\<rparr>),
         cd_instances := cd_instances (C v p trs)\<rparr> = C w q trs'"
      "C v p trs\<lparr>cd_machine := cd_machine (C v p trs)\<lparr>m_kernel := K w q\<rparr>, cd_us := Some (s\<lparr>us_slot := us, us_tracers := trs'\<rparr>)\<rparr> = C w q trs'"
      "C v p trs\<lparr>cd_us := Some (s\<lparr>us_slot := us, us_tracers := trs'\<rparr>)\<rparr> = C v p trs'" for v w p q trs trs'
    by (simp_all add: C_def)
  have reach: "pciem_check_unregistered us = Inr ()" "us_get_rc us 0 = Some a"
    by (simp_all add: us_def pciem_check_unregistered_def us_get_rc_def PCIEM_MAX_FUNCTIONS_def)
  note wf = with_func_def reach K
  have 2: "card_ioctl ?X 2 PCIEM_IOCTL_SET_CONFIG (no_args\<lparr>ua_config := Some nvme_config\<rparr>) (C v0 ?p trs) =
      Some (Code (Inr ()), C v1 ?p trs)" for trs
    by (simp add: select C no_args_def pciem_ioctl_set_config_def wf nvme_config_def [THEN arg_cong [where f = cs_func]] v1_def hands_out_def)
  have bars: "bars v3 0 = ?made p0" "bars v2 2 = Bars.bar0" "bars v1 0 = Bars.bar0"
    by (simp_all add: v3_def v2_def v1_def v0_def pciem_alloc_root_complex_def pciem_init_cap_manager_def)
  have 3: "card_ioctl ?X 3 PCIEM_IOCTL_ADD_BAR (no_args\<lparr>ua_bar := Some (nvme_bar 0)\<rparr>) (C v1 ?p trs) =
      Some (Code (Inr ()), C v2 p1 trs)" for trs
    using pool bars by (simp add: select C no_args_def pciem_ioctl_add_bar_def wf nvme_bar_def v2_def hands_out_def
        pciem_register_bar_def PCI_STD_NUM_BARS_def Bars.bar0_def)
  have 4: "card_ioctl ?X 4 PCIEM_IOCTL_ADD_BAR (no_args\<lparr>ua_bar := Some (nvme_bar 2)\<rparr>) (C v2 p1 trs) =
      Some (Code (Inr ()), C v3 p' trs)" for trs
    using pool bars by (simp add: select C no_args_def pciem_ioctl_add_bar_def wf nvme_bar_def v3_def hands_out_def
        pciem_register_bar_def PCI_STD_NUM_BARS_def Bars.bar0_def)
  define v4 where "v4 = nvme_function a p0 p2"
  have msix: "request_cap (cc_req nvme_msix) v3 = (Inr (), v4)"
    by (simp add: v4_def v4 nvme_msix_def pciem_add_cap_msix_def cap_slot_def v3_def v2_def v1_def v0_def
        pciem_alloc_root_complex_def pciem_init_cap_manager_def MAX_PCI_CAPS_def)
  have 5: "card_ioctl ?X 5 PCIEM_IOCTL_ADD_CAPABILITY (no_args\<lparr>ua_cap := Some nvme_msix\<rparr>) (C v3 p' trs) =
      Some (Code (Inr ()), C v4 p' trs)" for trs
    using msix by (simp add: select C no_args_def pciem_ioctl_add_capability_def wf nvme_msix_def hands_out_def)
  have bar4: "bars v4 0 = ?made p0"
    using bars(1) by (simp add: v4_def v4 pciem_add_cap_msix_def split: sum.split)
  let ?t = "\<lparr>tracer_us = True, tracer_ctx = nvme_ctx p0 (sv_shadow (E 6))\<rparr>"
  have init: "sv_trace (E 6) (traced_ctx nvme_trace (?made p0) (sv_shadow (E 6))) = (Inr (), nvme_ctx p0 (sv_shadow (E 6)))"
    using assms(5) by (simp add: smptrace_init_def Let_def same traced_ctx_bar nvme_ctx_def arch_activate_def smptrace_register_probes_def)
  have trace: "pciem_ioctl_trace_bar (sv_trace (E 6)) (sv_shadow (E 6)) (Some nvme_trace) (K v4 p') us (us_tracers s) =
      Some (Inr (), set_tracer 0 0 ?t (us_tracers s))"
    using init bar4 pool(3) reach
    by (simp add: pciem_ioctl_trace_bar_def Let_def K opn us_def nvme_trace_def PCIEM_MAX_FUNCTIONS_def PCI_STD_NUM_BARS_def)
  have 6: "card_ioctl ?X 6 PCIEM_IOCTL_TRACE_BAR (no_args\<lparr>ua_trace := Some nvme_trace\<rparr>) (C v4 p' (us_tracers s)) =
      Some (Code (Inr ()), C v4 p' (set_tracer 0 0 ?t (us_tracers s)))"
    using trace by (simp add: select C no_args_def hands_out_def)
  note run = card_ioctls_step
  have nums: "(1::nat) + 1 = 2" "(2::nat) + 1 = 3" "(3::nat) + 1 = 4" "(4::nat) + 1 = 5" "(5::nat) + 1 = 6" by simp_all
  have "card_ioctls ?X 1 register_cmds \<lparr>cd_machine = m, cd_us = Some s, cd_device = True, cd_instances = 0\<rparr> =
      Some (True, C v4 p' (set_tracer 0 0 ?t (us_tracers s)))"
    by (simp only: register_cmds_def run [OF 1] run [OF 2] run [OF 3] run [OF 4] run [OF 5] run [OF 6] nums card_ioctls.simps(1))
  moreover have "k_host (K v4 p') = k_host (m_kernel m)" by (simp add: K_def)
  moreover have "cd_instances (C v p trs) = 0" "cd_device (C v p trs)" for v p trs by (simp_all add: C_def)
  moreover have "set_tracer 0 0 ?t (us_tracers s) 0 0 = ?t" by (simp add: set_tracer_def)
  ultimately show ?thesis
    using C(1,2) [of v4 p'] K(1) [of v4 p'] us_def a_def v4_def
    by (intro exI [of _ "C v4 p' (set_tracer 0 0 ?t (us_tracers s))"]
        exI [of _ "s\<lparr>us_slot := us, us_tracers := set_tracer 0 0 ?t (us_tracers s)\<rparr>"] exI [of _ a] conjI) simp_all
qed

lemma nvme_function_facts:
  "caps_fit (nvme_function a p0 p2)" "\<not> detaching (nvme_function a p0 p2)"
  "get32 (cfg (nvme_function a p0 p2)) 0 = 0x56781234"
  "p0 \<noteq> 0 \<Longrightarrow> p2 \<noteq> 0 \<Longrightarrow> active (nvme_function a p0 p2) i \<Longrightarrow> carved_start (bars (nvme_function a p0 p2) i) \<noteq> 0"
proof -
  define v where "v = set_bar (set_bar ((case pciem_alloc_root_complex True a of Inr v \<Rightarrow> pciem_init_cap_manager True v)
      \<lparr>cfg := identify nvme_config (\<lambda>_. 0)\<rparr>) 0 (Bars.bar0\<lparr>bar_size := 8192, carved_start := p0, carved_end := p0 + 8192 - 1\<rparr>))
      2 (Bars.bar0\<lparr>bar_size := 8192, carved_start := p2, carved_end := p2 + 8192 - 1\<rparr>)"
  have v: "nvme_function a p0 p2 = snd (pciem_add_cap_msix v \<lparr>bar_index = 2, table_offset = 0, pba_offset = 4096, table_size = MAX_QUEUES\<rparr>)"
    by (simp add: nvme_function_def v_def Let_def pciem_alloc_root_complex_def pciem_init_cap_manager_def)
  have f: "cap_mgr v = Some \<lparr>caps = [], next_offset = 0x40, ext_next_offset = 0x100\<rparr>" "\<not> detaching v"
      "cfg v = identify nvme_config (\<lambda>_. 0)" "bars v i = (if i = 2 then Bars.bar0\<lparr>bar_size := 8192, carved_start := p2, carved_end := p2 + 8192 - 1\<rparr>
        else if i = 0 then Bars.bar0\<lparr>bar_size := 8192, carved_start := p0, carved_end := p0 + 8192 - 1\<rparr> else Bars.bar0)" for i
    by (simp_all add: v_def pciem_alloc_root_complex_def pciem_init_cap_manager_def cap_consts)
  show "caps_fit (nvme_function a p0 p2)" "\<not> detaching (nvme_function a p0 p2)"
    by (simp_all add: v pciem_add_cap_msix_def cap_slot_def f MAX_PCI_CAPS_def caps_fit_def std_fit_def std_caps_def push_std_def)
  show "get32 (cfg (nvme_function a p0 p2)) 0 = 0x56781234"
    by (simp add: v pciem_add_cap_msix_def cap_slot_def f MAX_PCI_CAPS_def identify_ids) (simp add: nvme_config_def)
  show "p0 \<noteq> 0 \<Longrightarrow> p2 \<noteq> 0 \<Longrightarrow> active (nvme_function a p0 p2) i \<Longrightarrow> carved_start (bars (nvme_function a p0 p2) i) \<noteq> 0"
    by (auto simp: v pciem_add_cap_msix_def cap_slot_def f MAX_PCI_CAPS_def active_def Bars.bar0_def split: if_splits)
qed

text \<open>
  C25. The card comes up. On a kernel that grants what it is asked for, \<open>dev_register\<close> returns 0: the
  session is registered with one instance, the eventfd is installed, writes to the 8192 bytes of
  BAR 0 are traced and reads are not, and the host reads the identifiers of the card at the place of
  the device on its virtual root.
\<close>

theorem nvme_registers:
  assumes "fresh_kernel m" and "\<forall>i<9. sv_mem (E i) = (\<lambda>_. True)"
    and "pool_serves galloc search (k_pool (m_kernel m)) p0 p2 p'"
    and "sv_trace (E 6) = smptrace_init True (arch_activate True (Inr ()) (Inr ()) (Inr ()))"
    and "0 \<le> fd" and "sv_eventfd (E 7) fd = Inr e"
    and "willing (sv_dev (E 8) 0)" and "place_for VIRTUAL_ROOT (sv_dev (E 8) 0) (k_host (m_kernel m))" and "sv_fd (E 8) = Inr n"
  shows "\<exists>c s v d r. dev_register (galloc, search, E) fd m = Some (0, c) \<and> cd_us c = Some s \<and> cd_device c \<and> cd_instances c = 1 \<and>
    reg (us_slot s) = REGISTERED \<and> eventfd (us_ev s) = Some e \<and>
    tracer_us (us_tracers s 0 0) \<and> notif_write (tracer_ctx (us_tracers s 0 0)) \<and> \<not> notif_read (tracer_ctx (us_tracers s 0 0)) \<and>
    ctx_pa (tracer_ctx (us_tracers s 0 0)) = p0 \<and> ctx_len (tracer_ctx (us_tracers s 0 0)) = 8192 \<and>
    k_objs (m_kernel (cd_machine c)) (k_next (m_kernel m)) = Some v \<and> pciem_pdev v = Some d \<and>
    root_buses (k_host (m_kernel (cd_machine c))) (pd_bus d) = Some r \<and>
    root_read (k_objs (m_kernel (cd_machine c))) r (pd_devfn d) 0 4 = Answer (PCIBIOS_SUCCESSFUL, 0x56781234)"
proof -
  let ?X = "(galloc, search, E)"
  define a where "a = k_next (m_kernel m)"
  obtain s where s: "pciem_open (sv_mem (E 0)) = Inr s" "eventfd (us_ev s) = None" "\<not> event_pending (us_ev s)"
    using assms(2) by (simp add: pciem_open_def pciem_userspace_create_def pciem_shared_ring_alloc_def pciem_irqfds_init_def)
  let ?c0 = "\<lparr>cd_machine = m, cd_us = Some s, cd_device = True, cd_instances = 0\<rparr>"
  have mem: "\<forall>i\<in>{1..6}. sv_mem (E i) = (\<lambda>_. True)" using assms(2) by auto
  obtain c1 s1 where c1: "card_ioctls ?X 1 register_cmds ?c0 = Some (True, c1)" "cd_us c1 = Some s1" "cd_instances c1 = 0" "cd_device c1"
      "us_slot s1 = \<lparr>slot_funcs = [0 \<mapsto> a], num_funcs = 1, slot_mode = VIRTUAL_ROOT, reg = UNREGISTERED, refcnt = 1\<rparr>"
      "us_ev s1 = us_ev s" "us_tracers s1 0 0 = \<lparr>tracer_us = True, tracer_ctx = nvme_ctx p0 (sv_shadow (E 6))\<rparr>"
      "k_objs (m_kernel (cd_machine c1)) a = Some (nvme_function a p0 p2)" "k_host (m_kernel (cd_machine c1)) = k_host (m_kernel m)"
    using register_cmds_run [OF assms(1) s(1) mem assms(3,4)] unfolding a_def by blast
  have r1: "card_reach ?X m c1"
    using card_ioctls_reach [OF c1(1), of m] cdev_reach.opened [OF s(1), of galloc search m] by (simp add: card_reach_def)
  let ?k = "m_kernel (cd_machine c1)"
  have inv: "slot_inv ?k (us_slot s1)"
    using card_reach_inv [OF r1 assms(1)] c1(2) by (simp add: cdev_inv_def state_ok_slot)
  define c2 where "c2 = c1\<lparr>cd_us := Some (s1\<lparr>us_ev := us_ev s1\<lparr>eventfd := Some e\<rparr>\<rparr>)\<rparr>"
  have set: "card_ioctl ?X 7 PCIEM_IOCTL_SET_EVENTFD (no_args\<lparr>ua_eventfd := Some fd\<rparr>) c1 = Some (Code (Inr ()), c2)"
    using assms(5,6) s(2,3) c1(2,6)
    by (simp add: select no_args_def pciem_ioctl_set_eventfd_def eventfd_install_def eventfd_finish_def hands_out_def c2_def)
  have slot: "num_funcs (us_slot s1) = 1" "slot_funcs (us_slot s1) 0 = Some a" "reg (us_slot s1) = UNREGISTERED"
      "slot_mode (us_slot s1) = VIRTUAL_ROOT" by (simp_all add: c1(5))
  have carved: "\<forall>i<PCI_STD_NUM_BARS. active (nvme_function a p0 p2) i \<longrightarrow> carved_start (bars (nvme_function a p0 p2) i) \<noteq> 0"
    using nvme_function_facts(4) assms(3) by (simp add: pool_serves_def)
  obtain k' where k': "pciem_ioctl_register (sv_dev (E 8)) (sv_gfree (E 8)) (Inr n) ?k (us_slot s1) =
      Some (Inr n, k', (us_slot s1)\<lparr>reg := REGISTERED, refcnt := refcnt (us_slot s1) + 1\<rparr>)"
    using register_works [where env = "sv_dev (E 8)" and gfree = "sv_gfree (E 8)" and n = n,
        OF inv slot(1-3) c1(8) nvme_function_facts(1) carved assms(7)] assms(8) slot(4) c1(9)
    by auto
  define c3 where "c3 = c2\<lparr>cd_machine := cd_machine c1\<lparr>m_kernel := k'\<rparr>, cd_us := Some (s1\<lparr>us_ev := us_ev s1\<lparr>eventfd := Some e\<rparr>,
      us_slot := (us_slot s1)\<lparr>reg := REGISTERED, refcnt := refcnt (us_slot s1) + 1\<rparr>\<rparr>), cd_instances := 1\<rparr>"
  have reg: "card_ioctl ?X 8 PCIEM_IOCTL_REGISTER no_args c2 = Some (Fd (Inr n), c3)"
    using k' assms(9) c1(3) by (simp add: select c2_def c3_def hands_out_def)
  have "dev_register ?X fd m = Some (0, c3)"
    using s(1) c1(1) set reg assms(5) by (simp add: dev_register_def Let_def)
  moreover obtain v d where "k_objs k' a = Some v" "pciem_pdev v = Some d"
      "map_option (\<lambda>r. root_read (k_objs k') r (pd_devfn d) 0 4) (root_buses (k_host k') (pd_bus d)) =
        Some (Answer (PCIBIOS_SUCCESSFUL, 0x56781234))"
    using register_shows [OF inv slot(1-3) c1(8) nvme_function_facts(1,2) k'] slot(4) nvme_function_facts(3) by auto
  ultimately show ?thesis
    using c1(4,7) by (auto simp: c3_def c2_def a_def nvme_ctx_def traced_ctx_def nvme_trace_def)
qed

text \<open>
  A card that does not come up leaves nothing behind. Whatever fails on the way (opening the device,
  any of its commands, the eventfd, a mapping, an allocation, the start) and whichever way the program
  then ends, when it ends with a status other than 0 both descriptors are closed, the session is gone, and
  of all the objects of the kernel made for it none is left.
\<close>

theorem nvme_failure_leaves_nothing:
  assumes "nvme_main X fd remap ring heap mem m = Some (st, dev, c)" and "fresh_kernel m" and "st \<noteq> 0"
  shows "cd_us c = None \<and> \<not> cd_device c \<and> cd_instances c = 0 \<and>
    (\<forall>a\<ge>k_next (m_kernel m). k_objs (m_kernel (cd_machine c)) a = None)"
proof -
  have r: "card_reach X m c" "\<not> cd_device c" "cd_instances c = 0" using nvme_main_reach [OF assms(1,2)] assms(3) by simp_all
  then show ?thesis using closed_nothing [OF r(1) assms(2)] by blast
qed

text \<open>
  A process that cannot make an eventfd: the card closes everything, and \<open>dev_register\<close> reports success.
\<close>

theorem eventfd_failure_reports_success:
  assumes "fresh_kernel m" and "pciem_open (sv_mem (E 0)) = Inr s" and "fd < 0"
    and "card_ioctls (galloc, search, E) 1 register_cmds
           \<lparr>cd_machine = m, cd_us = Some s, cd_device = True, cd_instances = 0\<rparr> = Some (True, c)"
    and "dev_destroy (E 9) c = Some c'"
  shows "dev_register (galloc, search, E) fd m = Some (0, c') \<and> \<not> cd_device c' \<and> cd_us c' = None"
proof -
  have reg: "dev_register (galloc, search, E) fd m = Some (0, c')"
    using assms by (simp add: dev_register_def Let_def dev_fail_def)
  have "card_reach (galloc, search, E) m c"
    using card_ioctls_reach [OF assms(4), of m] cdev_reach.opened [OF assms(2), of galloc search m] by (simp add: card_reach_def)
  from destroy_reach [OF disjI1 [OF assms(5)] this assms(1)]
  have "card_reach (galloc, search, E) m c'" "\<not> cd_device c'" "cd_instances c' = 0" by simp_all
  with reg closed_nothing(1) [OF this(1) assms(1) this(2,3)] show ?thesis by simp
qed

subsection \<open>Examples\<close>

definition card_env0 :: "(unit, unit, unit) card_env" where
  "card_env0 = (galloc0, search0, \<lambda>_. services0)"

lemma card_pool: "pool_serves galloc0 search0 pool0 (2 ^ 32) (2 ^ 32) pool0"
  by (simp add: pool_serves_def pciem_pool_alloc_def pool0_def galloc0_def search0_def is_pow2_def
      pciem_first_fit_align_def fit_align_off_def PAGE_SHIFT_def)

lemma machine0_simps: "fresh_kernel machine0" "k_pool (m_kernel machine0) = pool0" "k_host (m_kernel machine0) = host0"
    "k_next (m_kernel machine0) = 1"
  by (simp_all add: fresh_kernel_def machine0_def kernel0_def)

lemma virtual_place: "place_for VIRTUAL_ROOT sure_env host0"
  by (auto simp: place_for_def bus_exists_def sure_env_def host0_def intro!: bexI [of _ 1])

theorem nvme_registers_witness:
  "\<exists>c s. dev_register card_env0 4 machine0 = Some (0, c) \<and> cd_us c = Some s \<and> reg (us_slot s) = REGISTERED \<and>
    eventfd (us_ev s) = Some 5 \<and> ctx_len (tracer_ctx (us_tracers s 0 0)) = 8192"
proof -
  have "\<exists>c s v d r. dev_register (galloc0, search0, \<lambda>_. services0) 4 machine0 = Some (0, c) \<and> cd_us c = Some s \<and> cd_device c \<and>
      cd_instances c = 1 \<and> reg (us_slot s) = REGISTERED \<and> eventfd (us_ev s) = Some 5 \<and>
      tracer_us (us_tracers s 0 0) \<and> notif_write (tracer_ctx (us_tracers s 0 0)) \<and> \<not> notif_read (tracer_ctx (us_tracers s 0 0)) \<and>
      ctx_pa (tracer_ctx (us_tracers s 0 0)) = 2 ^ 32 \<and> ctx_len (tracer_ctx (us_tracers s 0 0)) = 8192 \<and>
      k_objs (m_kernel (cd_machine c)) (k_next (m_kernel machine0)) = Some v \<and> pciem_pdev v = Some d \<and>
      root_buses (k_host (m_kernel (cd_machine c))) (pd_bus d) = Some r \<and>
      root_read (k_objs (m_kernel (cd_machine c))) r (pd_devfn d) 0 4 = Answer (PCIBIOS_SUCCESSFUL, 0x56781234)"
    by (rule nvme_registers [OF machine0_simps(1)])
      (use card_pool sure_willing(1) virtual_place in \<open>simp_all add: machine0_simps services0_def\<close>)
  then show ?thesis unfolding card_env0_def by blast
qed

text \<open>A card for which the device cannot be opened.\<close>

theorem nvme_failure_leaves_nothing_witness:
  "\<exists>c. nvme_main (galloc0, search0, \<lambda>_. services0\<lparr>sv_mem := (\<lambda>_. False)\<rparr>) 4 True (Inr ()) (\<lambda>_. True) (\<lambda>_. 0) machine0 =
      Some (1, nvme_zeroed (\<lambda>_. 0), c) \<and> cd_us c = None \<and> k_objs (m_kernel (cd_machine c)) 1 = None"
proof -
  let ?X = "(galloc0, search0, \<lambda>_. services0\<lparr>sv_mem := (\<lambda>_. False)\<rparr>)"
  let ?c = "\<lparr>cd_machine = machine0, cd_us = None, cd_device = False, cd_instances = 0\<rparr>"
  have "dev_register ?X 4 machine0 = Some (1, ?c)"
    by (simp add: dev_register_def pciem_open_def pciem_userspace_create_def)
  then have m: "nvme_main ?X 4 True (Inr ()) (\<lambda>_. True) (\<lambda>_. 0) machine0 = Some (1, nvme_zeroed (\<lambda>_. 0), ?c)"
    by (simp add: nvme_main_def process_exit_def)
  from nvme_failure_leaves_nothing [OF m machine0_simps(1)] m machine0_simps(4) show ?thesis by simp
qed

end
