(* ===== verification/CardHost.thy ===== *)
theory CardHost
  imports Ring Prp "HOL-Library.Monad_Syntax"
begin

text \<open>
  What the example cards of \<^verbatim>\<open>examples/\<close> have in common: the calls a card makes (the DMA ioctl in both
  directions, the interrupt, and its output to the world outside the guest) as a record of functions,
  what a card relies on as the locale \<open>card_memory\<close>, its interpretation on the DMA ioctl of
  \<^verbatim>\<open>DmaIoctl.thy\<close>, and the loop that empties the event ring.
\<close>

subsection \<open>The calls of a card\<close>

record 'w card_host =
  card_read :: "u64 \<Rightarrow> nat \<Rightarrow> 'w \<Rightarrow> (u8 list option \<times> 'w) option"
  card_write :: "u64 \<Rightarrow> u8 list \<Rightarrow> 'w \<Rightarrow> (bool \<times> 'w) option"
  card_out :: "u8 list \<Rightarrow> 'w \<Rightarrow> 'w"
  card_irq :: "'w \<Rightarrow> 'w"

locale card_memory =
  fixes H :: "'w card_host" and mem :: "'w \<Rightarrow> u64 \<Rightarrow> u8" and sent :: "'w \<Rightarrow> u8 list list" and irqs :: "'w \<Rightarrow> nat"
    and addrs :: "u64 \<Rightarrow> nat \<Rightarrow> u64 list" and good :: "u64 \<Rightarrow> nat \<Rightarrow> bool"
  assumes read_ok: "good a n \<Longrightarrow> \<exists>w'. card_read H a n w = Some (Some (map (mem w) (addrs a n)), w') \<and>
      mem w' = mem w \<and> sent w' = sent w \<and> irqs w' = irqs w"
    and write_ok: "good a (length bs) \<Longrightarrow> \<exists>w'. card_write H a bs w = Some (True, w') \<and>
      mem w' = put_bytes (mem w) (zip (addrs a (length bs)) bs) \<and> sent w' = sent w \<and> irqs w' = irqs w"
    and send_ok: "mem (card_out H f w) = mem w" "sent (card_out H f w) = sent w @ [f]" "irqs (card_out H f w) = irqs w"
    and irq_ok: "mem (card_irq H w) = mem w" "sent (card_irq H w) = sent w" "irqs (card_irq H w) = irqs w + 1"
    and addrs_ok: "length (addrs a n) = n" "k \<le> n \<Longrightarrow> take k (addrs a n) = addrs a k"

subsection \<open>The calls over the ioctls\<close>

text \<open>
  A card's buffers are at \<open>buf_at\<close> in its memory; what it puts out and its interrupts are logged.
\<close>

record card_world =
  card_dma :: dma_world
  card_sent :: "u8 list list"
  card_irqs :: nat

definition card_ioctl_host :: "dma_env \<Rightarrow> user_env \<Rightarrow> u64 \<Rightarrow> card_world card_host" where
  "card_ioctl_host env uenv buf_at =
     (let dma_rw = (\<lambda>iova len flags d. pciem_ioctl_dma env uenv (Inr ()) (\<lambda>f. f = 0)
            (Some \<lparr>op_iova = iova, op_user = buf_at, op_length = of_nat len, op_flags = flags, op_func = 0\<rparr>) d)
      in \<lparr>card_read = (\<lambda>iova n w.
            case dma_rw iova n 1 (card_dma w) of
              None \<Rightarrow> None
            | Some (rc, d) \<Rightarrow> Some (if rc = Inr () then Some (mem_get (umem d) buf_at n) else None, w\<lparr>card_dma := d\<rparr>)),
          card_write = (\<lambda>iova bs w.
            case dma_rw iova (length bs) 2 ((card_dma w)\<lparr>umem := mem_put (umem (card_dma w)) buf_at bs\<rparr>) of
              None \<Rightarrow> None
            | Some (rc, d) \<Rightarrow> Some (rc = Inr (), w\<lparr>card_dma := d\<rparr>)),
          card_out = (\<lambda>f w. w\<lparr>card_sent := card_sent w @ [f]\<rparr>),
          card_irq = (\<lambda>w. w\<lparr>card_irqs := card_irqs w + 1\<rparr>)\<rparr>)"

text \<open>Ranges the card can transfer: mapped for the guest, and the card's own buffer usable for as many bytes.\<close>

definition card_good :: "dma_env \<Rightarrow> user_env \<Rightarrow> u64 \<Rightarrow> u64 \<Rightarrow> nat \<Rightarrow> bool" where
  "card_good env uenv buf_at a n \<longleftrightarrow> dma_ok env a n \<and> kmalloc_ok uenv \<and> kmalloc uenv 0 n \<noteq> None \<and>
     can_read_user uenv buf_at n \<and> can_write_user uenv buf_at n"

lemma card_read_ok:
  assumes "card_good env uenv buf_at a n"
  shows "\<exists>u. card_read (card_ioctl_host env uenv buf_at) a n w =
    Some (Some (map (gmem (card_dma w)) (dma_addrs env a n)), w\<lparr>card_dma := (card_dma w)\<lparr>umem := u\<rparr>\<rparr>)"
proof -
  let ?data = "map (gmem (card_dma w)) (dma_addrs env a n)"
  have "n \<le> 2 ^ 64" using assms by (simp add: card_good_def dma_ok_def)
  then have "mem_get (mem_put (umem (card_dma w)) buf_at ?data) buf_at n = ?data"
    using mem_get_put [of ?data "umem (card_dma w)" buf_at] by simp
  then show ?thesis
    using dma_ioctl_read_ok [of env a n uenv buf_at "\<lambda>f. f = 0" 0 "card_dma w"] assms
    by (intro exI [of _ "mem_put (umem (card_dma w)) buf_at ?data"]) (simp add: card_ioctl_host_def Let_def card_good_def)
qed

lemma card_write_ok:
  assumes "card_good env uenv buf_at a (length bs)"
  shows "\<exists>u. card_write (card_ioctl_host env uenv buf_at) a bs w = Some (True, w\<lparr>card_dma := (card_dma w)
    \<lparr>umem := u, gmem := put_bytes (gmem (card_dma w)) (zip (dma_addrs env a (length bs)) bs)\<rparr>\<rparr>)"
proof -
  define d where "d = (card_dma w)\<lparr>umem := mem_put (umem (card_dma w)) buf_at bs\<rparr>"
  have "length bs \<le> 2 ^ 64" using assms by (simp add: card_good_def dma_ok_def)
  then have "mem_get (umem d) buf_at (length bs) = bs"
    using mem_get_put [of bs "umem (card_dma w)" buf_at] by (simp add: d_def)
  then show ?thesis
    using dma_ioctl_write_ok [of env a "length bs" uenv buf_at "\<lambda>f. f = 0" 0 d] assms
    by (intro exI [of _ "mem_put (umem (card_dma w)) buf_at bs"]) (simp add: card_ioctl_host_def Let_def card_good_def d_def)
qed

lemma take_dma_addrs: "k \<le> n \<Longrightarrow> take k (dma_addrs env a n) = dma_addrs env a k"
  by (simp add: dma_addrs_def take_map)

interpretation host: card_memory "card_ioctl_host env uenv buf_at" "\<lambda>w. gmem (card_dma w)" card_sent card_irqs
    "dma_addrs env" "card_good env uenv buf_at"
  for env uenv buf_at
proof unfold_locales
  fix a :: u64 and n :: nat and w
  assume "card_good env uenv buf_at a n"
  from card_read_ok [OF this, of w] show "\<exists>w'. card_read (card_ioctl_host env uenv buf_at) a n w =
      Some (Some (map (gmem (card_dma w)) (dma_addrs env a n)), w') \<and> gmem (card_dma w') = gmem (card_dma w) \<and>
      card_sent w' = card_sent w \<and> card_irqs w' = card_irqs w" by auto
next
  fix a :: u64 and bs :: "u8 list" and w
  assume "card_good env uenv buf_at a (length bs)"
  from card_write_ok [OF this, of w] show "\<exists>w'. card_write (card_ioctl_host env uenv buf_at) a bs w = Some (True, w') \<and>
      gmem (card_dma w') = put_bytes (gmem (card_dma w)) (zip (dma_addrs env a (length bs)) bs) \<and>
      card_sent w' = card_sent w \<and> card_irqs w' = card_irqs w" by auto
qed (simp_all add: card_ioctl_host_def Let_def take_dma_addrs)

lemma card_good0: "4096 \<le> unat a \<Longrightarrow> 0 < n \<Longrightarrow> n < 2 ^ 32 \<Longrightarrow> unat a + n + 4095 < 2 ^ 64 \<Longrightarrow> card_good ram_env uenv0 b a n"
  using ram_env_ok(1) uenv0_ok by (simp add: card_good_def uenv0_def)

subsection \<open>Rings in guest memory\<close>

text \<open>The numbers of \<open>k\<close> places of a ring of \<open>n\<close>, from \<open>h\<close> on.\<close>

definition ring_slots :: "nat \<Rightarrow> nat \<Rightarrow> nat \<Rightarrow> nat list" where
  "ring_slots n h k = map (\<lambda>j. (h + j) mod n) [0..<k]"

lemma ring_slots_simps [simp]:
  "ring_slots n h 0 = []" "h < n \<Longrightarrow> ring_slots n h (Suc k) = h # ring_slots n (Suc h mod n) k"
proof -
  assume h: "h < n"
  have "ring_slots n h (Suc k) = (h + 0) mod n # map (\<lambda>j. (h + Suc j) mod n) [0..<k]"
    unfolding ring_slots_def by (simp add: upt_conv_Cons map_Suc_upt [symmetric] del: upt_Suc)
  then show "ring_slots n h (Suc k) = h # ring_slots n (Suc h mod n) k"
    using h by (simp add: ring_slots_def mod_simps)
qed (simp add: ring_slots_def)

lemma ring_walk: "h < n \<Longrightarrow> 0 < k \<Longrightarrow> k < n \<Longrightarrow> (h + k) mod n \<noteq> h" for h k n :: nat
  by (auto simp: mod_if)

subsection \<open>The event loop\<close>

text \<open>
  One wake-up of a card's event thread: \<open>head\<close> is the thread's own copy, each event is handled in turn by
  \<open>f\<close> on the card's state, and the tail is read again after every event.
\<close>

partial_function (option) ring_drain ::
    "(event \<Rightarrow> 's \<Rightarrow> 's option) \<Rightarrow> u32 \<Rightarrow> shared_ring \<Rightarrow> 's \<Rightarrow> (shared_ring \<times> 's) option" where
  "ring_drain f head r s =
     (if head = ring_tail r then Some (r, s)
      else if sint head < 0 \<or> PCIEM_RING_SIZE \<le> sint head then None
      else do {
        s \<leftarrow> f (events r (nat (sint head))) s;
        ring_drain f (ring_next head) (r\<lparr>ring_head := ring_next head\<rparr>) s })"

fun card_events :: "(event \<Rightarrow> 's \<Rightarrow> 's option) \<Rightarrow> event list \<Rightarrow> 's \<Rightarrow> 's option" where
  "card_events f [] s = Some s"
| "card_events f (ev # evs) s = do { s \<leftarrow> f ev s; card_events f evs s }"

lemma card_events_append: "card_events f (xs @ ys) s = do { s \<leftarrow> card_events f xs s; card_events f ys s }"
proof (induction xs arbitrary: s)
  case (Cons x xs)
  then have "card_events f (xs @ ys) = (\<lambda>s. card_events f xs s \<bind> card_events f ys)" by (rule ext)
  then show ?case by simp
qed simp

text \<open>The loop hands out the queued events in their order, and leaves the ring empty.\<close>

lemma ring_drain_all:
  assumes "ring_ok r"
  shows "\<exists>r'. ring_content r' = [] \<and>
    (\<forall>s. ring_drain f (ring_head r) r s = map_option (Pair r') (card_events f (ring_content r) s))"
  using assms
proof (induction "ring_content r" arbitrary: r)
  case Nil
  then have "ring_head r = ring_tail r"
    using ring.deq_empty [of r] by (auto simp: ring_pop_def Let_def split: if_splits)
  then have "ring_drain f (ring_head r) r s = Some (r, s)" for s by (subst ring_drain.simps) simp
  with Nil show ?case by (intro exI [of _ r]) (simp flip: Nil(1))
next
  case (Cons e es)
  have c: "ring_content r = e # es" using Cons.hyps(2) by simp
  define h where "h = unat (ring_head r)"
  have b: "h < 256" using Cons.prems by (simp add: ring_ok_def h_def)
  from ring.deq_spec [OF Cons.prems c] obtain r1 where r1: "ring_pop r = Some (e, r1)" "ring_ok r1" "ring_content r1 = es"
    by blast
  then have ne: "ring_head r \<noteq> ring_tail r" and e: "e = events r h"
    and r1_eq: "r1 = r\<lparr>ring_head := ring_next (ring_head r)\<rparr>"
    by (auto simp: ring_pop_def Let_def h_def split: if_splits)
  have "sint (ring_head r) = int h" using ring_next_nat [of "ring_head r"] b by (simp add: h_def)
  then have step: "ring_drain f (ring_head r) r s = do { s \<leftarrow> f e s; ring_drain f (ring_head r1) r1 s }" for s
    using ne b by (subst ring_drain.simps) (simp add: e r1_eq PCIEM_RING_SIZE_def)
  from Cons.hyps(1) [of r1] r1(2,3) obtain r' where r': "ring_content r' = []"
    "\<And>s. ring_drain f (ring_head r1) r1 s = map_option (Pair r') (card_events f es s)" by blast
  have "ring_drain f (ring_head r) r s = map_option (Pair r') (card_events f (e # es) s)" for s
    unfolding step r'(2) by (auto split: bind_splits)
  with r'(1) show ?case unfolding c by blast
qed

end
