(* ===== verification/E1000.thy ===== *)
theory E1000
  imports CardHost
begin

text \<open>
  The network card of \<^verbatim>\<open>examples/e1000/e1000_card.c\<close>: an Intel 82540EM whose register page is BAR 0,
  with its EEPROM behind two interfaces, its transmit ring served when the driver moves the tail, and
  its receive ring filled by a thread of its own. What the card calls (the DMA ioctl in both
  directions, the raw socket, the interrupt) is the record \<open>card_host\<close> over a world of the caller's
  choice. \<open>None\<close> is an execution that does not return or has no defined behaviour.
\<close>

subsection \<open>Constants\<close>

definition E1000_CTRL_SLU :: u32 where "E1000_CTRL_SLU = push_bit 6 1"
definition E1000_CTRL_RST :: u32 where "E1000_CTRL_RST = push_bit 26 1"
definition E1000_STATUS_LU :: u32 where "E1000_STATUS_LU = push_bit 2 1"
definition E1000_STATUS_1000FD :: u32 where
  "E1000_STATUS_1000FD = E1000_STATUS_LU OR push_bit 0 1 OR push_bit 6 2"

definition E1000_EECD_SK :: u32 where "E1000_EECD_SK = push_bit 0 1"
definition E1000_EECD_CS :: u32 where "E1000_EECD_CS = push_bit 1 1"
definition E1000_EECD_DI :: u32 where "E1000_EECD_DI = push_bit 2 1"
definition E1000_EECD_DO :: u32 where "E1000_EECD_DO = push_bit 3 1"
definition E1000_EECD_REQ :: u32 where "E1000_EECD_REQ = push_bit 6 1"
definition E1000_EECD_GNT :: u32 where "E1000_EECD_GNT = push_bit 7 1"
definition E1000_EECD_TYPE :: u32 where "E1000_EECD_TYPE = push_bit 13 1"

definition E1000_EERD_START :: u32 where "E1000_EERD_START = push_bit 0 1"
definition E1000_EERD_DONE :: u32 where "E1000_EERD_DONE = push_bit 4 1"

definition E1000_MDIC_READY :: u32 where "E1000_MDIC_READY = push_bit 28 1"
definition E1000_MDIC_OP_READ :: u32 where "E1000_MDIC_OP_READ = push_bit 26 2"
definition E1000_MDIC_OP_MASK :: u32 where "E1000_MDIC_OP_MASK = push_bit 26 3"

definition E1000_ICR_TXDW :: u32 where "E1000_ICR_TXDW = push_bit 0 1"
definition E1000_ICR_RXT0 :: u32 where "E1000_ICR_RXT0 = push_bit 7 1"

lemmas eecd_bits = E1000_EECD_SK_def E1000_EECD_CS_def E1000_EECD_DI_def E1000_EECD_DO_def E1000_EECD_REQ_def
  E1000_EECD_GNT_def E1000_EECD_TYPE_def

definition E1000_BAR_SIZE :: nat where "E1000_BAR_SIZE = 128 * 1024"
definition EEPROM_SIZE :: nat where "EEPROM_SIZE = 64"
definition RX_DESC_BUF_SIZE :: nat where "RX_DESC_BUF_SIZE = 2048"

subsection \<open>State\<close>

record eecd_sm =
  last_sk :: bool
  in_data :: bool
  bit_count :: int
  data_bit :: nat
  shift_reg :: u32
  data_out :: u16

text \<open>The packet under assembly lives in static storage of \<open>process_tx\<close>.\<close>

record e1000_device =
  e_bar0 :: bytes
  link_up :: bool
  my_mac :: "u8 list"
  tx_ring_addr :: u64
  rx_ring_addr :: u64
  tx_ring_len :: u32
  rx_ring_len :: u32
  tx_head :: u16
  tx_tail :: u16
  rx_head :: u16
  rx_tail :: u16
  eeprom :: "u16 list"
  eecd :: eecd_sm
  icr_shadow :: u32
  pkt_buf :: bytes
  pkt_len :: u32

definition reg_put :: "nat \<Rightarrow> u32 \<Rightarrow> e1000_device \<Rightarrow> e1000_device" where
  "reg_put off v dev = dev\<lparr>e_bar0 := poke (e_bar0 dev) off (le32 v)\<rparr>"

definition reg_get :: "nat \<Rightarrow> e1000_device \<Rightarrow> u32" where
  "reg_get off dev = get32 (e_bar0 dev) off"

subsection \<open>EEPROM\<close>

definition mac_word :: "u8 list \<Rightarrow> nat \<Rightarrow> u16" where
  "mac_word mac i = ucast (mac ! i) OR push_bit 8 (ucast (mac ! (i + 1)))"

definition e1000_eeprom_init :: "u8 list \<Rightarrow> u16 list" where
  "e1000_eeprom_init mac =
     (let e = (replicate EEPROM_SIZE 0)[0 := mac_word mac 0, 1 := mac_word mac 2, 2 := mac_word mac 4, 0x0A := 0x8000]
      in e[EEPROM_SIZE - 1 := 0xBABA - sum_list (take (EEPROM_SIZE - 1) e)])"

text \<open>
  A write to EECD, whose pins the driver moves by hand: the value the register gets and the state of
  the serial machine. Nothing is shifted while the chip is not selected; a rising clock shifts a bit of
  the command in, or a bit of the word out.
\<close>

definition eecd_shift :: "u16 list \<Rightarrow> u32 \<Rightarrow> eecd_sm \<Rightarrow> eecd_sm" where
  "eecd_shift rom val s =
     (let s = s\<lparr>shift_reg := push_bit 1 (shift_reg s) OR (if val AND E1000_EECD_DI \<noteq> 0 then 1 else 0),
               bit_count := bit_count s + 1\<rparr>
      in if bit_count s = 9 then
           (let opcode = (ucast (drop_bit 6 (shift_reg s) AND 0x7) :: u8);
                addr = (ucast (shift_reg s AND 0x3F) :: u8)
            in if opcode = 0x6 \<and> unat addr < EEPROM_SIZE
               then s\<lparr>data_out := rom ! unat addr, data_bit := 15, in_data := True\<rparr> else s)
         else s)"

definition eecd_write :: "u16 list \<Rightarrow> u32 \<Rightarrow> eecd_sm \<Rightarrow> u32 \<times> eecd_sm" where
  "eecd_write rom v s =
     (let new_sk = (v AND E1000_EECD_SK \<noteq> 0); new_cs = (v AND E1000_EECD_CS \<noteq> 0);
          val = (if v AND E1000_EECD_REQ \<noteq> 0 then v OR E1000_EECD_GNT else v) OR E1000_EECD_TYPE;
          (val, s) =
            (if \<not> new_cs then (val, \<lparr>last_sk = False, in_data = False, bit_count = 0, data_bit = 0, shift_reg = 0, data_out = 0\<rparr>)
             else if new_sk \<and> \<not> last_sk s then
               (if \<not> in_data s then (val, eecd_shift rom val s)
                else (if bit (data_out s) (data_bit s) then val OR E1000_EECD_DO else val AND NOT E1000_EECD_DO,
                      if data_bit s > 0 then s\<lparr>data_bit := data_bit s - 1\<rparr> else s))
             else (val, s))
      in (val, s\<lparr>last_sk := new_sk\<rparr>))"

text \<open>A read through EERD: address in, word out, done at once.\<close>

definition eerd_word :: "u16 list \<Rightarrow> u32 \<Rightarrow> u32" where
  "eerd_word rom val =
     (let addr = (ucast (drop_bit 8 val AND 0x7F) :: u8);
          data = (if unat addr < EEPROM_SIZE then rom ! unat addr else 0)
      in E1000_EERD_DONE OR push_bit 16 (ucast data))"

text \<open>The registers of the PHY, as MDIC reads them.\<close>

definition phy_reg :: "u8 \<Rightarrow> u16" where
  "phy_reg r =
     (if r = 0 then 0x1140 else if r = 1 then 0x786D OR 0x0004 else if r = 2 then 0x0141
      else if r = 3 then 0x0C50 else if r = 4 then 0x01E1 else if r = 5 then 0x45E1
      else if r = 17 then 0xAC08 else 0)"

definition mdic_word :: "u32 \<Rightarrow> u32" where
  "mdic_word val =
     (if val AND E1000_MDIC_OP_MASK = E1000_MDIC_OP_READ
      then E1000_MDIC_READY OR ucast (phy_reg (ucast (drop_bit 16 val AND 0x1F))) OR (val AND 0x03FF0000)
      else E1000_MDIC_READY OR (val AND NOT E1000_MDIC_OP_MASK))"

subsection \<open>Transmission\<close>

record e1000_tx_desc =
  td_addr :: u64
  td_length :: u16
  td_cso :: u8
  td_cmd :: u8
  td_status :: u8
  td_css :: u8
  td_special :: u16

definition tx_desc_of :: "u8 list \<Rightarrow> e1000_tx_desc" where
  "tx_desc_of bs = (let f = (\<lambda>i. bs ! i) in
     \<lparr>td_addr = of_le (bytes_of f 0 8), td_length = get16 f 8, td_cso = f 10, td_cmd = f 11, td_status = f 12,
      td_css = f 13, td_special = get16 f 14\<rparr>)"

definition tx_desc_bytes :: "e1000_tx_desc \<Rightarrow> u8 list" where
  "tx_desc_bytes d = le64 (td_addr d) @ le16 (td_length d) @ [td_cso d, td_cmd d, td_status d, td_css d] @ le16 (td_special d)"

definition tx_is_ctx :: "e1000_tx_desc \<Rightarrow> bool" where
  "tx_is_ctx d \<longleftrightarrow> td_cmd d AND push_bit 5 1 \<noteq> 0 \<and> td_cso d AND 0xF0 = 0"

definition tx_eop :: "e1000_tx_desc \<Rightarrow> bool" where
  "tx_eop d \<longleftrightarrow> td_cmd d AND 1 \<noteq> 0 \<and> \<not> tx_is_ctx d"

definition PKT_BUF_SIZE :: nat where "PKT_BUF_SIZE = 16384"

text \<open>The data of a descriptor joins the packet; when its DMA fails the buffer keeps what it held.\<close>

definition tx_collect :: "'w card_host \<Rightarrow> e1000_tx_desc \<Rightarrow> e1000_device \<Rightarrow> 'w \<Rightarrow> (e1000_device \<times> 'w) option" where
  "tx_collect H d dev w =
     (if \<not> tx_is_ctx d \<and> td_length d \<noteq> 0 \<and> td_addr d \<noteq> 0 \<and> unat (pkt_len dev) + unat (td_length d) \<le> PKT_BUF_SIZE
      then do {
        (r, w) \<leftarrow> card_read H (td_addr d) (unat (td_length d)) w;
        let buf = (case r of None \<Rightarrow> pkt_buf dev | Some data \<Rightarrow> poke (pkt_buf dev) (unat (pkt_len dev)) data);
        Some (dev\<lparr>pkt_buf := buf, pkt_len := pkt_len dev + ucast (td_length d)\<rparr>, w) }
      else Some (dev, w))"

definition tx_emit :: "'w card_host \<Rightarrow> e1000_tx_desc \<Rightarrow> e1000_device \<Rightarrow> 'w \<Rightarrow> e1000_device \<times> 'w" where
  "tx_emit H d dev w =
     (if tx_eop d then
        (dev\<lparr>pkt_len := 0\<rparr>,
         if pkt_len dev > 0 then card_out H (bytes_of (pkt_buf dev) 0 (unat (pkt_len dev))) w else w)
      else (dev, w))"

definition tx_next :: "e1000_device \<Rightarrow> u16" where
  "tx_next dev = of_nat ((unat (tx_head dev) + 1) mod (unat (tx_ring_len dev) div 16))"

text \<open>One descriptor, from the packet data to the head register; \<open>irq\<close> collects the requests for a report.\<close>

definition tx_one :: "'w card_host \<Rightarrow> u64 \<Rightarrow> e1000_tx_desc \<Rightarrow> e1000_device \<Rightarrow> 'w \<Rightarrow> (e1000_device \<times> 'w) option" where
  "tx_one H daddr d dev w =
     do {
       (dev, w) \<leftarrow> tx_collect H d dev w;
       let (dev, w) = tx_emit H d dev w;
       (_, w) \<leftarrow> card_write H daddr (tx_desc_bytes (d\<lparr>td_status := td_status d OR 1\<rparr>)) w;
       if unat (tx_ring_len dev) div 16 = 0 then None
       else let dev = dev\<lparr>tx_head := tx_next dev\<rparr> in Some (reg_put 0x3810 (ucast (tx_head dev)) dev, w) }"

partial_function (option) tx_loop :: "'w card_host \<Rightarrow> bool \<Rightarrow> e1000_device \<Rightarrow> 'w \<Rightarrow> (bool \<times> e1000_device \<times> 'w) option" where
  "tx_loop H irq dev w =
     (if tx_head dev = tx_tail dev then Some (irq, dev, w)
      else do {
        let daddr = tx_ring_addr dev + ucast (tx_head dev) * 16;
        (r, w) \<leftarrow> card_read H daddr 16 w;
        case r of
          None \<Rightarrow> Some (irq, dev, w)
        | Some bs \<Rightarrow>
            do { (dev, w) \<leftarrow> tx_one H daddr (tx_desc_of bs) dev w;
                 tx_loop H (irq \<or> td_cmd (tx_desc_of bs) AND push_bit 3 1 \<noteq> 0) dev w } })"

text \<open>A cause is added to the shadow and the register; then the driver is interrupted.\<close>

definition raise_cause :: "'w card_host \<Rightarrow> u32 \<Rightarrow> e1000_device \<Rightarrow> 'w \<Rightarrow> e1000_device \<times> 'w" where
  "raise_cause H c dev w =
     (let dev = dev\<lparr>icr_shadow := icr_shadow dev OR c\<rparr> in (reg_put 0xC0 (icr_shadow dev) dev, card_irq H w))"

definition process_tx :: "'w card_host \<Rightarrow> e1000_device \<Rightarrow> 'w \<Rightarrow> (e1000_device \<times> 'w) option" where
  "process_tx H dev w =
     do { (irq, dev, w) \<leftarrow> tx_loop H False dev w;
          Some (if irq then raise_cause H E1000_ICR_TXDW dev w else (dev, w)) }"

subsection \<open>Reception\<close>

record e1000_rx_desc =
  rd_addr :: u64
  rd_length :: u16
  rd_csum :: u16
  rd_status :: u8
  rd_errors :: u8
  rd_special :: u16

definition rx_desc_of :: "u8 list \<Rightarrow> e1000_rx_desc" where
  "rx_desc_of bs = (let f = (\<lambda>i. bs ! i) in
     \<lparr>rd_addr = of_le (bytes_of f 0 8), rd_length = get16 f 8, rd_csum = get16 f 10, rd_status = f 12,
      rd_errors = f 13, rd_special = get16 f 14\<rparr>)"

definition rx_desc_bytes :: "e1000_rx_desc \<Rightarrow> u8 list" where
  "rx_desc_bytes d = le64 (rd_addr d) @ le16 (rd_length d) @ le16 (rd_csum d) @ [rd_status d, rd_errors d] @ le16 (rd_special d)"

definition e1000_rx_filter :: "e1000_device \<Rightarrow> u8 list \<Rightarrow> bool" where
  "e1000_rx_filter dev pkt \<longleftrightarrow>
     (if take 6 pkt = my_mac dev then True
      else if take 6 pkt = replicate 6 0xff then True
      else pkt ! 0 AND 1 \<noteq> 0)"

definition rx_ring_size :: "e1000_device \<Rightarrow> nat" where
  "rx_ring_size dev = unat (rx_ring_len dev) div 16"

definition rx_next :: "e1000_device \<Rightarrow> u16" where
  "rx_next dev = of_nat ((unat (rx_head dev) + 1) mod rx_ring_size dev)"

text \<open>The packet is spread over descriptors; the loop stops early when the ring has no room or a descriptor no buffer.\<close>

function rx_store :: "'w card_host \<Rightarrow> u8 list \<Rightarrow> e1000_device \<Rightarrow> 'w \<Rightarrow> (e1000_device \<times> 'w) option" where
  "rx_store H pkt dev w =
     (if pkt = [] \<or> rx_next dev = rx_tail dev then Some (dev, w)
      else do {
        let daddr = rx_ring_addr dev + ucast (rx_head dev) * 16;
        (r, w) \<leftarrow> card_read H daddr 16 w;
        case r of
          None \<Rightarrow> Some (dev, w)
        | Some bs \<Rightarrow>
            (let d = rx_desc_of bs; chunk = take RX_DESC_BUF_SIZE pkt; rest = drop RX_DESC_BUF_SIZE pkt in
             if rd_addr d = 0 then Some (dev, w)
             else do {
               (_, w) \<leftarrow> card_write H (rd_addr d) chunk w;
               (_, w) \<leftarrow> card_write H daddr (rx_desc_bytes (d\<lparr>rd_length := of_nat (length chunk),
                           rd_status := 1 OR (if rest = [] then 2 else 0), rd_errors := 0\<rparr>)) w;
               rx_store H rest (reg_put 0x2810 (ucast (rx_next dev)) (dev\<lparr>rx_head := rx_next dev\<rparr>)) w }) })"
  by pat_completeness auto
termination by (relation "measure (\<lambda>(H, pkt, dev, w). length pkt)") (auto simp: RX_DESC_BUF_SIZE_def)

declare rx_store.simps [simp del]

text \<open>What the receiving thread does with one packet from the socket.\<close>

definition rx_packet :: "'w card_host \<Rightarrow> u8 list \<Rightarrow> e1000_device \<Rightarrow> 'w \<Rightarrow> (e1000_device \<times> 'w) option" where
  "rx_packet H pkt dev w =
     (if length pkt < 14 \<or> \<not> e1000_rx_filter dev pkt \<or> rx_ring_size dev = 0 then Some (dev, w)
      else do { (dev, w) \<leftarrow> rx_store H pkt dev w; Some (raise_cause H E1000_ICR_RXT0 dev w) })"

subsection \<open>Registers\<close>

definition e1000_handle_read :: "event \<Rightarrow> e1000_device \<Rightarrow> e1000_device" where
  "e1000_handle_read ev dev =
     (if ev_bar ev \<noteq> 0 then dev
      else if ev_offset ev = 0xC0 then reg_put 0xC0 0 (dev\<lparr>icr_shadow := 0\<rparr>)
      else dev)"

definition mac_lo :: "u8 list \<Rightarrow> u32" where
  "mac_lo mac = ucast (mac ! 0) OR push_bit 8 (ucast (mac ! 1)) OR push_bit 16 (ucast (mac ! 2)) OR push_bit 24 (ucast (mac ! 3))"

definition mac_hi :: "u8 list \<Rightarrow> u32" where
  "mac_hi mac = ucast (mac ! 4) OR push_bit 8 (ucast (mac ! 5)) OR push_bit 31 1"

definition e1000_reset :: "u32 \<Rightarrow> e1000_device \<Rightarrow> e1000_device" where
  "e1000_reset val dev =
     (let dev = reg_put 0x0000 (val AND NOT E1000_CTRL_RST) dev;
          dev = reg_put 0x0008 E1000_STATUS_1000FD dev;
          dev = reg_put 0x5400 (mac_lo (my_mac dev)) dev;
          dev = reg_put 0x5404 (mac_hi (my_mac dev)) dev;
          dev = reg_put 0x0010 E1000_EECD_TYPE dev;
          dev = dev\<lparr>tx_ring_addr := 0, rx_ring_addr := 0, tx_ring_len := 0, rx_ring_len := 0, tx_head := 0, tx_tail := 0\<rparr>;
          dev = reg_put 0x0008 E1000_STATUS_1000FD dev;
          dev = reg_put 0x3810 0 (dev\<lparr>rx_head := 0, rx_tail := 0\<rparr>);
          dev = reg_put 0x0008 (reg_get 0x0008 dev AND NOT E1000_STATUS_LU) dev
      in dev\<lparr>link_up := False\<rparr>)"

definition set_low32 :: "u64 \<Rightarrow> u32 \<Rightarrow> u64" where
  "set_low32 a v = (a AND 0xffffffff00000000) OR ucast v"

definition set_high32 :: "u64 \<Rightarrow> u32 \<Rightarrow> u64" where
  "set_high32 a v = (a AND 0x00000000ffffffff) OR push_bit 32 (ucast v)"

text \<open>The end of the handler, for the registers that keep what is written.\<close>

definition e1000_keep :: "event \<Rightarrow> u32 \<Rightarrow> e1000_device \<Rightarrow> e1000_device option" where
  "e1000_keep ev val dev =
     (if ev_size ev = 4 \<and> ev_offset ev \<noteq> 0x0008
      then map_option (\<lambda>b. dev\<lparr>e_bar0 := b\<rparr>) (store_bytes E1000_BAR_SIZE (e_bar0 dev) (unat (ev_offset ev)) (le32 val))
      else Some dev)"

definition set_mac :: "nat \<Rightarrow> u32 \<Rightarrow> nat \<Rightarrow> e1000_device \<Rightarrow> e1000_device" where
  "set_mac i val n dev = dev\<lparr>my_mac := fold (\<lambda>j m. m[i + j := ucast (drop_bit (8 * j) val)]) [0..<n] (my_mac dev)\<rparr>"

definition e1000_write_val :: "'w card_host \<Rightarrow> event \<Rightarrow> u32 \<Rightarrow> e1000_device \<Rightarrow> 'w \<Rightarrow> (e1000_device \<times> 'w) option" where
  "e1000_write_val H ev val dev w =
     (let off = ev_offset ev;
          keep = (\<lambda>dev w. map_option (\<lambda>dev. (dev, w)) (e1000_keep ev val dev))
      in if off = 0x0000 then
           (if val AND E1000_CTRL_RST \<noteq> 0 then Some (e1000_reset val dev, w)
            else if val AND E1000_CTRL_SLU \<noteq> 0
            then keep (reg_put 0x0008 (reg_get 0x0008 dev OR E1000_STATUS_1000FD) (dev\<lparr>link_up := True\<rparr>)) w
            else keep dev w)
         else if off = 0x0010 then
           (let (v, s) = eecd_write (eeprom dev) val (eecd dev) in Some (reg_put 0x0010 v (dev\<lparr>eecd := s\<rparr>), w))
         else if off = 0x00C8 then Some (raise_cause H val dev w)
         else if off = 0x0014 then
           (if val AND E1000_EERD_START \<noteq> 0 then Some (reg_put 0x0014 (eerd_word (eeprom dev) val) dev, w) else keep dev w)
         else if off = 0x0020 then Some (reg_put 0x0020 (mdic_word val) dev, w)
         else if off = 0x3800 then keep (dev\<lparr>tx_ring_addr := set_low32 (tx_ring_addr dev) val\<rparr>) w
         else if off = 0x3804 then keep (dev\<lparr>tx_ring_addr := set_high32 (tx_ring_addr dev) val\<rparr>) w
         else if off = 0x3808 then keep (dev\<lparr>tx_ring_len := val\<rparr>) w
         else if off = 0x3818 then
           do { (dev, w) \<leftarrow> process_tx H (dev\<lparr>tx_tail := ucast (val AND 0xffff)\<rparr>) w; keep dev w }
         else if off = 0x2800 then keep (dev\<lparr>rx_ring_addr := set_low32 (rx_ring_addr dev) val\<rparr>) w
         else if off = 0x2804 then keep (dev\<lparr>rx_ring_addr := set_high32 (rx_ring_addr dev) val\<rparr>) w
         else if off = 0x2808 then keep (dev\<lparr>rx_ring_len := val\<rparr>) w
         else if off = 0x2818 then
           (let dev = dev\<lparr>rx_tail := ucast (val AND 0xffff)\<rparr>; dev = dev\<lparr>rx_head := rx_tail dev\<rparr>
            in keep (reg_put 0x2810 (ucast (rx_tail dev)) dev) w)
         else if off = 0x5400 then keep (set_mac 0 val 4 dev) w
         else if off = 0x5404 then keep (set_mac 4 val 2 dev) w
         else keep dev w)"

text \<open>The value of the event; a shift by 64 or more has no defined result.\<close>

definition e1000_handle_write :: "'w card_host \<Rightarrow> event \<Rightarrow> e1000_device \<Rightarrow> 'w \<Rightarrow> (e1000_device \<times> 'w) option" where
  "e1000_handle_write H ev dev w =
     (if ev_bar ev \<noteq> 0 then Some (dev, w)
      else if unat (ev_size ev * 8) \<ge> 64 then None
      else e1000_write_val H ev (ucast (ev_data ev AND (push_bit (unat (ev_size ev * 8)) 1 - 1))) dev w)"

subsection \<open>The event thread\<close>

definition e1000_event :: "'w card_host \<Rightarrow> event \<Rightarrow> e1000_device \<Rightarrow> 'w \<Rightarrow> (e1000_device \<times> 'w) option" where
  "e1000_event H ev dev w =
     (if ev_type ev = 2 then e1000_handle_write H ev dev w
      else if ev_type ev = 1 then Some (e1000_handle_read ev dev, w)
      else Some (dev, w))"

text \<open>One wake-up.\<close>

definition e1000_drain ::
    "'w card_host \<Rightarrow> shared_ring \<Rightarrow> e1000_device \<Rightarrow> 'w \<Rightarrow> (shared_ring \<times> e1000_device \<times> 'w) option" where
  "e1000_drain H r dev w = ring_drain (\<lambda>ev (dev, w). e1000_event H ev dev w) (ring_head r) r (dev, w)"

text \<open>The registers \<open>main\<close> fills in before the driver can look.\<close>

definition e1000_power_up :: "u8 list \<Rightarrow> bytes \<Rightarrow> e1000_device" where
  "e1000_power_up mac mem =
     reg_put 0x0010 E1000_EECD_TYPE (reg_put 0x5404 (mac_hi mac) (reg_put 0x5400 (mac_lo mac)
       (reg_put 0x0008 E1000_STATUS_1000FD
         \<lparr>e_bar0 = mem, link_up = False, my_mac = mac, tx_ring_addr = 0, rx_ring_addr = 0, tx_ring_len = 0, rx_ring_len = 0,
          tx_head = 0, tx_tail = 0, rx_head = 0, rx_tail = 0, eeprom = e1000_eeprom_init mac,
          eecd = \<lparr>last_sk = False, in_data = False, bit_count = 0, data_bit = 0, shift_reg = 0, data_out = 0\<rparr>,
          icr_shadow = 0, pkt_buf = (\<lambda>_. 0), pkt_len = 0\<rparr>)))"

end
