(* ===== verification/E1000Eeprom.thy ===== *)
theory E1000Eeprom
  imports E1000
begin

text \<open>
  The two ways a driver reads the EEPROM of the e1000 card: by moving the pins of the serial part
  through EECD, and through EERD, which answers at once. Both give the word the model holds, and the
  words together have the checksum drivers look for.
\<close>

subsection \<open>The serial machine under a driver\<close>

text \<open>The value a driver writes to hold the three pins; \<open>x\<close> is whatever else it writes.\<close>

definition pins :: "u32 \<Rightarrow> bool \<Rightarrow> bool \<Rightarrow> bool \<Rightarrow> u32" where
  "pins x cs sk di = (x AND NOT 7) OR (if sk then 1 else 0) OR (if cs then 2 else 0) OR (if di then 4 else 0)"

lemma eecd_bit_iff:
  "v AND E1000_EECD_SK \<noteq> 0 \<longleftrightarrow> bit v 0" "v AND E1000_EECD_CS \<noteq> 0 \<longleftrightarrow> bit v 1" "v AND E1000_EECD_DI \<noteq> 0 \<longleftrightarrow> bit v 2"
  "v AND E1000_EECD_DO \<noteq> 0 \<longleftrightarrow> bit v 3"
  by (simp_all only: eecd_bits bit_iff_and_push_bit_not_eq_0)

lemma pins_bit [simp]: "bit (pins x cs sk di) 0 = sk" "bit (pins x cs sk di) 1 = cs" "bit (pins x cs sk di) 2 = di"
  "bit (pins x cs sk di) (Suc 0) = cs"
  by (simp_all add: pins_def bit_simps)

definition eecd_idle :: eecd_sm where
  "eecd_idle = \<lparr>last_sk = False, in_data = False, bit_count = 0, data_bit = 0, shift_reg = 0, data_out = 0\<rparr>"

lemma eecd_deselect: "snd (eecd_write rom (pins x False sk di) s) = eecd_idle\<lparr>last_sk := sk\<rparr>"
  by (simp add: eecd_write_def Let_def eecd_bit_iff eecd_idle_def)

lemma eecd_low: "snd (eecd_write rom (pins x True False di) s) = s\<lparr>last_sk := False\<rparr>"
  by (simp add: eecd_write_def Let_def eecd_bit_iff)

definition shift_bit :: "bool \<Rightarrow> u32 \<Rightarrow> u32" where
  "shift_bit b r = push_bit 1 r OR (if b then 1 else 0)"

lemma eecd_shift_eq:
  "eecd_shift rom val s =
     (if bit_count s = 8 then
        (let r = shift_bit (bit val 2) (shift_reg s); s = s\<lparr>shift_reg := r, bit_count := 9\<rparr>
         in if drop_bit 6 r AND 7 = 6 then s\<lparr>data_out := rom ! unat (r AND 0x3F), data_bit := 15, in_data := True\<rparr> else s)
      else s\<lparr>shift_reg := shift_bit (bit val 2) (shift_reg s), bit_count := bit_count s + 1\<rparr>)"
proof -
  have small: "unat (ucast (x AND m) :: u8) = unat (x AND m)" if "unat m \<le> 63" for x m :: u32
  proof -
    have "unat (x AND m) \<le> unat m" by (simp only: word_le_nat_alt [symmetric] word_and_le1)
    with that show ?thesis by (simp add: unsigned_ucast_eq take_bit_nat_eq_self)
  qed
  have op: "(ucast (x AND 7) :: u8) = 6 \<longleftrightarrow> x AND 7 = 6" for x :: u32
    using small [of 7 x] by (simp add: word_unat_eq_iff)
  have addr: "unat (ucast (x AND 63) :: u8) = unat (x AND 63)" "unat (x AND 63) < 64" for x :: u32
    using small [of 63 x] word_and_le1 [of x 63] by (auto simp: word_le_nat_alt)
  show ?thesis
    by (simp add: eecd_shift_def Let_def eecd_bit_iff shift_bit_def op addr EEPROM_SIZE_def)
qed

text \<open>A driver reads a word: deselect, nine bits in (start, opcode, address), sixteen bits out.\<close>

definition clock_in :: "u16 list \<Rightarrow> u32 \<Rightarrow> bool \<Rightarrow> eecd_sm \<Rightarrow> eecd_sm" where
  "clock_in rom x b s = snd (eecd_write rom (pins x True True b) (snd (eecd_write rom (pins x True False b) s)))"

fun clock_out :: "u16 list \<Rightarrow> u32 \<Rightarrow> nat \<Rightarrow> eecd_sm \<Rightarrow> bool list" where
  "clock_out rom x 0 s = []"
| "clock_out rom x (Suc n) s =
     (let (v, s) = eecd_write rom (pins x True True False) (snd (eecd_write rom (pins x True False False) s))
      in (v AND E1000_EECD_DO \<noteq> 0) # clock_out rom x n s)"

definition read_command :: "6 word \<Rightarrow> bool list" where
  "read_command a = [True, True, False] @ map (\<lambda>i. bit a (5 - i)) [0..<6]"

definition eecd_read :: "u16 list \<Rightarrow> u32 \<Rightarrow> 6 word \<Rightarrow> eecd_sm \<Rightarrow> bool list" where
  "eecd_read rom x a s =
     clock_out rom x 16 (fold (clock_in rom x) (read_command a) (snd (eecd_write rom (pins x False False False) s)))"

lemma eecd_keep_bit [simp]: "bit (v OR E1000_EECD_GNT) 2 = bit v 2" "bit (v OR E1000_EECD_TYPE) 2 = bit v 2"
  by (simp_all add: E1000_EECD_GNT_def E1000_EECD_TYPE_def bit_simps)

lemma eecd_shift_cong: "bit v 2 = bit v' 2 \<Longrightarrow> eecd_shift rom v t = eecd_shift rom v' t"
  by (simp only: eecd_shift_eq)

lemma eecd_high_in:
  assumes "\<not> in_data s" "\<not> last_sk s"
  shows "snd (eecd_write rom (pins x True True b) s) = (eecd_shift rom (pins x True True b) s)\<lparr>last_sk := True\<rparr>"
proof -
  have "eecd_shift rom ((if r then v OR E1000_EECD_GNT else v) OR E1000_EECD_TYPE) s = eecd_shift rom v s" for r v
    by (rule eecd_shift_cong) simp
  with assms show ?thesis
    unfolding eecd_write_def eecd_bit_iff pins_bit Let_def by simp
qed

lemma addr_small: "unat a < 64" for a :: "6 word"
proof -
  have "unat a < 2 ^ LENGTH(6)" by (rule unsigned_less)
  then show ?thesis by simp
qed

lemma clock_in_eq:
  assumes "\<not> in_data s"
  shows "clock_in rom x b s = (eecd_shift rom (pins x True True b) (s\<lparr>last_sk := False\<rparr>))\<lparr>last_sk := True\<rparr>"
  using eecd_high_in [of "s\<lparr>last_sk := False\<rparr>" rom x b] assms by (simp add: clock_in_def eecd_low)

lemma read_command_eq: "read_command a = [True, True, False, bit a 5, bit a 4, bit a 3, bit a 2, bit a 1, bit a 0]"
  by (simp add: read_command_def upt_rec)

lemma bit_shift_bit: "bit (shift_bit b r) n \<longleftrightarrow> n < 32 \<and> (if n = 0 then b else bit r (n - 1))"
proof -
  have "bit (push_bit 1 r) n \<longleftrightarrow> n < 32 \<and> n \<noteq> 0 \<and> bit r (n - 1)"
    by (cases n) (auto simp only: bit_push_bit_iff, auto)
  then show ?thesis by (auto simp: shift_bit_def bit_or_iff bit_1_iff)
qed

lemma bit_fold_shift:
  "bit (fold shift_bit bs r) n \<longleftrightarrow> n < 32 \<and> (if n < length bs then bs ! (length bs - 1 - n) else bit r (n - length bs))"
proof (induction bs arbitrary: r)
  case (Cons b bs)
  show ?case
    by (auto simp: Cons bit_shift_bit nth_Cons' not_less less_Suc_eq)
qed (auto dest: bit_imp_le_length)

lemma command_bits:
  fixes a :: "6 word"
  defines "r \<equiv> fold shift_bit (read_command a) 0"
  shows "drop_bit 6 r AND 7 = 6" "r AND 0x3F = ucast a"
proof -
  have m: "(0x3F :: u32) = mask 6" "(7 :: u32) = mask 3" by (simp_all add: mask_eq_exp_minus_1)
  have r: "bit r n \<longleftrightarrow> n < 9 \<and> read_command a ! (8 - n)" for n
    unfolding r_def bit_fold_shift by (simp add: read_command_def)
  have low: "bit r n = bit a n" if "n < 6" for n
  proof -
    have "[0..<6] ! (5 - n) = 5 - n" using nth_upt [of 0 "5 - n" 6] by simp
    with that show ?thesis unfolding r by (simp add: read_command_def nth_append)
  qed
  have up: "bit r n" if "bit a n" for n using low [of n] bit_imp_le_length [OF that] that by simp
  show "r AND 0x3F = ucast a"
    unfolding m using low up by (intro bit_word_eqI) (auto simp: bit_simps dest: bit_imp_le_length)
  have high: "bit r 6 = False" "bit r 7" "bit r 8" by (simp_all add: r read_command_def nth_append)
  have six: "bit (6 :: u32) n \<longleftrightarrow> n = 1 \<or> n = 2" for n
  proof -
    have "(6 :: u32) = push_bit 1 1 OR push_bit 2 1" by simp
    then show ?thesis by (auto simp only: bit_or_iff bit_push_bit_iff bit_1_iff) auto
  qed
  have "drop_bit 6 r AND mask 3 = 6"
  proof (rule bit_word_eqI)
    fix n :: nat
    consider "3 \<le> n" | "n = 0" | "n = 1" | "n = 2" by linarith
    then show "bit (drop_bit 6 r AND mask 3) n = bit (6 :: u32) n"
      unfolding six by cases (auto simp: bit_simps high)
  qed
  then show "drop_bit 6 r AND 7 = 6" unfolding m by simp
qed

lemma clock_in_shift:
  assumes "\<not> in_data s" "bit_count s \<noteq> 8"
  shows "clock_in rom x b s = s\<lparr>shift_reg := shift_bit b (shift_reg s), bit_count := bit_count s + 1, last_sk := True\<rparr>"
  using assms by (simp add: clock_in_eq eecd_shift_eq)

lemma fold_clock_in:
  assumes "\<not> in_data s" "bit_count s + int (length bs) \<le> 8" "bs \<noteq> []"
  shows "fold (clock_in rom x) bs s =
    s\<lparr>shift_reg := fold shift_bit bs (shift_reg s), bit_count := bit_count s + int (length bs), last_sk := True\<rparr>"
  using assms
proof (induction bs arbitrary: s)
  case (Cons b bs)
  show ?case
  proof (cases "bs = []")
    case False
    then show ?thesis using Cons.prems by (simp add: clock_in_shift Cons.IH)
  qed (use Cons.prems in \<open>simp add: clock_in_shift\<close>)
qed simp

lemma command_taken:
  "fold (clock_in rom x) (read_command a) (eecd_idle\<lparr>last_sk := k\<rparr>) =
     \<lparr>last_sk = True, in_data = True, bit_count = 9, data_bit = 15, shift_reg = fold shift_bit (read_command a) 0,
      data_out = rom ! unat a\<rparr>"
proof -
  define bs where "bs = butlast (read_command a)"
  have bs: "read_command a = bs @ [last (read_command a)]" "length bs = 8" "bs \<noteq> []"
    by (simp_all add: bs_def read_command_def)
  have r: "shift_bit (last (read_command a)) (fold shift_bit bs 0) = fold shift_bit (read_command a) 0"
    by (subst (2) bs(1)) simp
  have u: "unat (ucast a :: u32) = unat a" using addr_small [of a] by (simp add: unsigned_ucast_eq take_bit_nat_eq_self)
  show ?thesis
    using command_bits [of a] bs(2,3)
    by (subst bs(1)) (simp add: fold_clock_in eecd_idle_def clock_in_eq eecd_shift_eq r u)
qed

text \<open>The word comes out, most significant bit first; further clocks repeat the last bit.\<close>

lemma eecd_high_out:
  assumes "in_data s" "\<not> last_sk s"
  shows "fst (eecd_write rom (pins x True True b) s) AND E1000_EECD_DO \<noteq> 0 \<longleftrightarrow> bit (data_out s) (data_bit s)"
    "snd (eecd_write rom (pins x True True b) s) = s\<lparr>data_bit := data_bit s - 1, last_sk := True\<rparr>"
proof -
  have "bit (v OR E1000_EECD_DO) 3" "\<not> bit (v AND NOT E1000_EECD_DO) 3" for v
    by (simp_all add: E1000_EECD_DO_def bit_simps)
  with assms show "fst (eecd_write rom (pins x True True b) s) AND E1000_EECD_DO \<noteq> 0 \<longleftrightarrow> bit (data_out s) (data_bit s)"
    unfolding eecd_write_def eecd_bit_iff pins_bit Let_def by simp
  show "snd (eecd_write rom (pins x True True b) s) = s\<lparr>data_bit := data_bit s - 1, last_sk := True\<rparr>"
    using assms unfolding eecd_write_def eecd_bit_iff pins_bit Let_def by simp
qed

lemma clock_out_bits:
  assumes "in_data s"
  shows "clock_out rom x n s = map (\<lambda>i. bit (data_out s) (data_bit s - i)) [0..<n]"
  using assms
proof (induction n arbitrary: s)
  case (Suc n)
  let ?s = "s\<lparr>last_sk := False\<rparr>"
  have "clock_out rom x (Suc n) s = bit (data_out s) (data_bit s) # map (\<lambda>i. bit (data_out s) (data_bit s - 1 - i)) [0..<n]"
    using eecd_high_out [of ?s rom x False] Suc
    by (simp add: eecd_low Let_def case_prod_beta)
  also have "\<dots> = map (\<lambda>i. bit (data_out s) (data_bit s - i)) [0..<Suc n]"
    by (simp add: upt_conv_Cons map_Suc_upt [symmetric] del: upt_Suc)
  finally show ?case .
qed simp

lemma eecd_read_eq: "eecd_read rom x a s = map (\<lambda>i. bit (rom ! unat a) (15 - i)) [0..<16]"
  unfolding eecd_read_def eecd_deselect command_taken by (simp only: clock_out_bits eecd_sm.simps)

subsection \<open>EERD\<close>

lemma eerd_word_eq:
  fixes a :: "6 word"
  assumes "drop_bit 8 val AND 0x7F = ucast a"
  shows "drop_bit 16 (eerd_word rom val) = ucast (rom ! unat a)"
proof -
  have "(ucast (ucast a :: u32) :: u8) = ucast a" by (rule bit_word_eqI) (auto simp: bit_simps)
  then have a: "unat (ucast (ucast a :: u32) :: u8) = unat a"
    using addr_small [of a] by (simp add: unsigned_ucast_eq take_bit_nat_eq_self)
  have "unat a < EEPROM_SIZE" using addr_small [of a] by (simp add: EEPROM_SIZE_def)
  then have "eerd_word rom val = E1000_EERD_DONE OR push_bit 16 (ucast (rom ! unat a))"
    by (simp add: eerd_word_def assms a Let_def)
  moreover have "drop_bit 16 (E1000_EERD_DONE OR push_bit 16 (ucast d)) = (ucast d :: u32)" for d :: u16
    by (rule bit_word_eqI) (auto simp: E1000_EERD_DONE_def bit_simps dest: bit_imp_le_length)
  ultimately show ?thesis by simp
qed

lemma eecd_read_word: "fold shift_bit (eecd_read rom x a s) 0 = ucast (rom ! unat a)"
proof (rule bit_word_eqI)
  fix n
  have "[0..<16] ! (15 - n) = 15 - n" using nth_upt [of 0 "15 - n" 16] by simp
  then show "bit (fold shift_bit (eecd_read rom x a s) 0) n = bit (ucast (rom ! unat a) :: u32) n"
    by (auto simp: bit_fold_shift eecd_read_eq bit_simps dest: bit_imp_le_length)
qed

subsection \<open>The words the card powers up with\<close>

lemma sum_list_set: "i < length xs \<Longrightarrow> sum_list (xs[i := v]) = sum_list xs - xs ! i + v" for xs :: "'a::ab_group_add list"
  by (induction xs arbitrary: i) (auto split: nat.splits)

lemma eeprom_checksum: "sum_list (e1000_eeprom_init mac) = 0xBABA"
proof -
  have last: "sum_list (xs[63 := m - sum_list (take 63 xs)]) = m" if "length xs = 64" for xs :: "u16 list" and m
  proof -
    have "xs = take 63 xs @ [xs ! 63]" using that by (simp add: take_Suc_conv_app_nth [symmetric])
    then have "sum_list xs = sum_list (take 63 xs) + xs ! 63" by (metis sum_list.append sum_list.Cons sum_list.Nil add_0_right)
    then show ?thesis using that by (simp add: sum_list_set)
  qed
  show ?thesis by (simp add: e1000_eeprom_init_def EEPROM_SIZE_def Let_def last)
qed

lemma eeprom_mac:
  assumes "length mac = 6"
  shows "concat (map le16 (take 3 (e1000_eeprom_init mac))) = mac"
proof -
  have w: "le16 (mac_word mac i) = [mac ! i, mac ! (i + 1)]" for i
  proof -
    have "\<not> bit b (8 + n)" for b :: u8 and n by (auto dest: bit_imp_le_length)
    then show ?thesis unfolding le16_def mac_word_def by (auto intro!: bit_word_eqI simp: bit_simps)
  qed
  have "take 3 (e1000_eeprom_init mac) = [mac_word mac 0, mac_word mac 2, mac_word mac 4]"
    by (intro nth_equalityI) (auto simp: e1000_eeprom_init_def EEPROM_SIZE_def Let_def less_Suc_eq numeral_3_eq_3 numeral_2_eq_2)
  moreover have "map ((!) mac) [0..<6] = mac" using assms by (metis map_nth)
  then have "[mac ! 0, mac ! 1, mac ! 2, mac ! 3, mac ! 4, mac ! 5] = mac"
    by (simp add: upt_rec eval_nat_numeral)
  ultimately show ?thesis by (simp add: w eval_nat_numeral)
qed

text \<open>
  C37. What a driver reads of the EEPROM. Whatever state the serial machine was left in and whatever the
  driver writes to the other bits of EECD, clocking a read of each of the 64 words gives the word, and
  so does EERD; the words sum to 0xBABA modulo \<open>2 ^ 16\<close>, which is what drivers check, and the first three
  hold the address of the card.
\<close>

theorem eeprom_read_correct:
  assumes "length mac = 6" and "rom = e1000_eeprom_init mac"
  shows "map (\<lambda>a. fold shift_bit (eecd_read rom x (of_nat a) s) 0) [0..<64] = map ucast rom \<and>
    map (\<lambda>a. drop_bit 16 (eerd_word rom (push_bit 8 (of_nat a) OR E1000_EERD_START))) [0..<64] = map ucast rom \<and>
    sum_list rom = 0xBABA \<and> concat (map le16 (take 3 rom)) = mac"
proof -
  have len: "length rom = 64" by (simp add: assms(2) e1000_eeprom_init_def EEPROM_SIZE_def Let_def)
  have a: "unat (of_nat n :: 6 word) = n" if "n < 64" for n
    using that by (simp add: unsigned_of_nat take_bit_nat_eq_self)
  have cmd: "drop_bit 8 (push_bit 8 (of_nat n) OR E1000_EERD_START) AND 0x7F = (ucast (of_nat n :: 6 word) :: u32)" if "n < 64" for n
  proof -
    have m: "(0x7F :: u32) = mask 7" by (simp add: mask_eq_exp_minus_1)
    have "(of_nat n :: u32) = ucast (of_nat n :: 6 word)" 
      using that by (simp add: word_unat_eq_iff unsigned_ucast_eq unsigned_of_nat take_bit_nat_eq_self)
    then show ?thesis
      unfolding m by (auto intro!: bit_word_eqI simp: E1000_EERD_START_def bit_simps dest: bit_imp_le_length)
  qed
  show ?thesis
    using len a eeprom_checksum eeprom_mac [OF assms(1)] eerd_word_eq [OF cmd]
    by (auto simp: eecd_read_word assms(2) intro!: nth_equalityI)
qed

theorem eeprom_read_correct_witness:
  "sum_list (e1000_eeprom_init [0x52, 0x54, 0, 0x12, 0x34, 0x56]) = 0xBABA"
  using eeprom_read_correct [of "[0x52, 0x54, 0, 0x12, 0x34, 0x56]", OF _ refl] by simp

end
