(* ===== verification/E1000Tx.thy ===== *)
theory E1000Tx
  imports E1000Eeprom
begin

text \<open>
  The transmit ring of the e1000 card. What the driver has put in the ring means a list of frames
  (\<open>tx_frames\<close>); serving the ring sends exactly those. What the card needs of its host is the locale
  \<open>card_memory\<close>, which the receive ring shares; \<^verbatim>\<open>E1000Host.thy\<close> interprets it on the DMA ioctl.
\<close>

subsection \<open>What the ring means\<close>

definition slot_at :: "u64 \<Rightarrow> nat \<Rightarrow> u64" where
  "slot_at base i = base + of_nat i * 16"

definition tx_desc_at :: "(u64 \<Rightarrow> nat \<Rightarrow> u64 list) \<Rightarrow> (u64 \<Rightarrow> u8) \<Rightarrow> u64 \<Rightarrow> nat \<Rightarrow> e1000_tx_desc" where
  "tx_desc_at addrs m base i = tx_desc_of (map m (addrs (slot_at base i) 16))"

definition tx_has_data :: "e1000_tx_desc \<Rightarrow> bool" where
  "tx_has_data d \<longleftrightarrow> \<not> tx_is_ctx d \<and> td_length d \<noteq> 0 \<and> td_addr d \<noteq> 0"

definition tx_data :: "(u64 \<Rightarrow> nat \<Rightarrow> u64 list) \<Rightarrow> (u64 \<Rightarrow> u8) \<Rightarrow> e1000_tx_desc \<Rightarrow> u8 list" where
  "tx_data addrs m d = map m (addrs (td_addr d) (unat (td_length d)))"

text \<open>A descriptor's data joins the packet if it fits in 16384 bytes.\<close>

definition tx_join :: "(u64 \<Rightarrow> nat \<Rightarrow> u64 list) \<Rightarrow> (u64 \<Rightarrow> u8) \<Rightarrow> u8 list \<Rightarrow> e1000_tx_desc \<Rightarrow> u8 list" where
  "tx_join addrs m acc d =
     (if tx_has_data d \<and> length acc + unat (td_length d) \<le> PKT_BUF_SIZE then acc @ tx_data addrs m d else acc)"

text \<open>The frames of a list of descriptors, and what is left for the next one.\<close>

fun tx_frames :: "(u64 \<Rightarrow> nat \<Rightarrow> u64 list) \<Rightarrow> (u64 \<Rightarrow> u8) \<Rightarrow> u8 list \<Rightarrow> e1000_tx_desc list \<Rightarrow> u8 list list \<times> u8 list" where
  "tx_frames addrs m acc [] = ([], acc)"
| "tx_frames addrs m acc (d # ds) =
     (let acc = tx_join addrs m acc d
      in if tx_eop d then
           (let (fs, rest) = tx_frames addrs m [] ds in (if acc = [] then fs else acc # fs, rest))
         else tx_frames addrs m acc ds)"

text \<open>
  The part of the ring the card has to serve lies in memory it can reach, and no descriptor overlaps
  another one or the data of one.
\<close>

definition tx_ring_ok ::
    "(u64 \<Rightarrow> nat \<Rightarrow> u64 list) \<Rightarrow> (u64 \<Rightarrow> nat \<Rightarrow> bool) \<Rightarrow> (u64 \<Rightarrow> u8) \<Rightarrow> u64 \<Rightarrow> nat list \<Rightarrow> bool" where
  "tx_ring_ok addrs good m base slots \<longleftrightarrow>
     (\<forall>i\<in>set slots. good (slot_at base i) 16) \<and>
     distinct (concat (map (\<lambda>i. addrs (slot_at base i) 16) slots)) \<and>
     (\<forall>j\<in>set slots. let d = tx_desc_at addrs m base j in tx_has_data d \<longrightarrow>
        good (td_addr d) (unat (td_length d)) \<and>
        (\<forall>i\<in>set slots. set (addrs (slot_at base i) 16) \<inter> set (addrs (td_addr d) (unat (td_length d))) = {}))"

text \<open>The packet under assembly.\<close>

definition tx_pending :: "e1000_device \<Rightarrow> u8 list" where
  "tx_pending dev = bytes_of (pkt_buf dev) 0 (unat (pkt_len dev))"

definition tx_dev_ok :: "e1000_device \<Rightarrow> nat \<Rightarrow> nat \<Rightarrow> bool" where
  "tx_dev_ok dev n k \<longleftrightarrow> unat (tx_ring_len dev) div 16 = n \<and> n \<le> 65536 \<and> unat (tx_head dev) < n \<and> k < n \<and>
     unat (tx_tail dev) = (unat (tx_head dev) + k) mod n \<and> unat (pkt_len dev) \<le> PKT_BUF_SIZE"

lemma tx_frames_cong:
  "\<forall>d\<in>set ds. tx_has_data d \<longrightarrow> tx_data addrs m' d = tx_data addrs m d \<Longrightarrow>
     tx_frames addrs m' acc ds = tx_frames addrs m acc ds"
  by (induction ds arbitrary: acc) (auto simp: tx_join_def Let_def split: prod.splits)

lemma poke_poke: "length bs = length cs \<Longrightarrow> poke (poke f off bs) off cs = poke f off cs"
  by (rule ext) (simp add: poke_def)

text \<open>Writing one descriptor leaves the rest of the ring, and its data, as they were.\<close>

lemma tx_ring_step:
  assumes "tx_ring_ok addrs good m base (h # slots)"
    and "m' = put_bytes m (zip (addrs (slot_at base h) 16) bs)"
  shows "\<forall>i\<in>set slots. tx_desc_at addrs m' base i = tx_desc_at addrs m base i"
    "\<forall>i\<in>set slots. tx_has_data (tx_desc_at addrs m base i) \<longrightarrow>
       tx_data addrs m' (tx_desc_at addrs m base i) = tx_data addrs m (tx_desc_at addrs m base i)"
    "tx_ring_ok addrs good m' base slots"
proof -
  have keep: "m' a = m a" if "a \<notin> set (addrs (slot_at base h) 16)" for a
    unfolding assms(2) using that by (intro put_bytes_other) (auto dest: set_zip_leftD)
  have other: "set (addrs (slot_at base h) 16) \<inter> set (addrs (slot_at base i) 16) = {}" if "i \<in> set slots" for i
    using assms(1) that by (auto simp: tx_ring_ok_def)
  have same: "map m' (addrs (slot_at base i) 16) = map m (addrs (slot_at base i) 16)" if "i \<in> set slots" for i
    using other [OF that] by (intro map_cong refl keep) blast
  show d: "\<forall>i\<in>set slots. tx_desc_at addrs m' base i = tx_desc_at addrs m base i"
    unfolding tx_desc_at_def by (intro ballI) (simp only: same)
  show "\<forall>i\<in>set slots. tx_has_data (tx_desc_at addrs m base i) \<longrightarrow>
       tx_data addrs m' (tx_desc_at addrs m base i) = tx_data addrs m (tx_desc_at addrs m base i)"
    using assms(1) unfolding tx_data_def by (fastforce simp: tx_ring_ok_def Let_def disjoint_iff intro!: keep)
  show "tx_ring_ok addrs good m' base slots"
    using assms(1) d by (simp add: tx_ring_ok_def Let_def)
qed

definition tx_done :: "e1000_tx_desc \<Rightarrow> e1000_tx_desc" where
  "tx_done d = d\<lparr>td_status := td_status d OR 1\<rparr>"

definition tx_reports :: "e1000_tx_desc \<Rightarrow> bool" where
  "tx_reports d \<longleftrightarrow> td_cmd d AND push_bit 3 1 \<noteq> 0"

text \<open>The outcome of serving \<open>slots\<close>, whose descriptors were \<open>ds\<close>.\<close>

definition tx_outcome ::
    "(u64 \<Rightarrow> nat \<Rightarrow> u64 list) \<Rightarrow> (u64 \<Rightarrow> u8) \<Rightarrow> (u64 \<Rightarrow> u8) \<Rightarrow> u64 \<Rightarrow> nat list \<Rightarrow> bool" where
  "tx_outcome addrs m m' base slots \<longleftrightarrow>
     (\<forall>i\<in>set slots. map m' (addrs (slot_at base i) 16) = tx_desc_bytes (tx_done (tx_desc_at addrs m base i))) \<and>
     (\<forall>a. (\<forall>i\<in>set slots. a \<notin> set (addrs (slot_at base i) 16)) \<longrightarrow> m' a = m a)"

lemma tx_outcome_step:
  assumes "tx_ring_ok addrs good m base (h # slots)" "\<And>a. length (addrs a 16) = 16"
    and "m1 = put_bytes m (zip (addrs (slot_at base h) 16) (tx_desc_bytes (tx_done (tx_desc_at addrs m base h))))"
    and "tx_outcome addrs m1 m2 base slots"
  shows "tx_outcome addrs m m2 base (h # slots)"
proof -
  have d: "distinct (addrs (slot_at base h) 16)" "\<forall>i\<in>set slots. set (addrs (slot_at base h) 16) \<inter> set (addrs (slot_at base i) 16) = {}"
    using assms(1) by (auto simp: tx_ring_ok_def)
  have keep: "m1 a = m a" if "a \<notin> set (addrs (slot_at base h) 16)" for a
    unfolding assms(3) using that by (intro put_bytes_other) (auto dest: set_zip_leftD)
  have "map m1 (addrs (slot_at base h) 16) = tx_desc_bytes (tx_done (tx_desc_at addrs m base h))"
    unfolding assms(3) using d(1) assms(2) by (intro put_bytes_get) (simp_all add: tx_desc_bytes_def)
  moreover have "map m2 (addrs (slot_at base h) 16) = map m1 (addrs (slot_at base h) 16)"
    using assms(4) d(2) by (intro map_cong) (auto simp: tx_outcome_def disjoint_iff)
  ultimately show ?thesis
    using assms(4) keep tx_ring_step(1) [OF assms(1,3)] by (auto simp: tx_outcome_def)
qed

lemma slot_at_head: "base + ucast h * 16 = slot_at base (unat h)" for h :: u16
  by (simp add: slot_at_def)

lemma tx_next_dev_ok:
  assumes "tx_dev_ok dev n (Suc k)" "unat l \<le> PKT_BUF_SIZE"
  shows "tx_dev_ok (dev\<lparr>pkt_buf := b, pkt_len := l, tx_head := tx_next dev, e_bar0 := e\<rparr>) n k"
    "unat (tx_next dev) = Suc (unat (tx_head dev)) mod n"
proof -
  have n: "0 < n" "n \<le> 65536" using assms(1) by (simp_all add: tx_dev_ok_def)
  then have "Suc (unat (tx_head dev)) mod n < 65536" by (meson mod_less_divisor order_less_le_trans)
  with assms(1) show u: "unat (tx_next dev) = Suc (unat (tx_head dev)) mod n"
    by (simp add: tx_next_def tx_dev_ok_def unsigned_of_nat take_bit_nat_eq_self)
  show "tx_dev_ok (dev\<lparr>pkt_buf := b, pkt_len := l, tx_head := tx_next dev, e_bar0 := e\<rparr>) n k"
    using assms n by (simp add: tx_dev_ok_def u mod_simps)
qed

text \<open>A write of four bytes.\<close>

lemma e1000_write4:
  assumes "ev_bar ev = 0" "ev_size ev = 4"
  shows "e1000_handle_write H ev dev w = e1000_write_val H ev (ucast (ev_data ev)) dev w"
proof -
  have "(ucast (x AND mask 32) :: u32) = ucast x" for x :: u64
    by (auto intro!: bit_word_eqI simp: bit_simps)
  then have "ucast (ev_data ev AND 0xffffffff) = (ucast (ev_data ev) :: u32)"
    by (simp add: mask_eq_exp_minus_1)
  with assms show ?thesis by (simp add: e1000_handle_write_def)
qed

lemma low_word: "(ucast ((ucast x :: u32) AND 0xffff) :: u16) = ucast x" for x :: u64
proof -
  have "(ucast ((ucast x :: u32) AND mask 16) :: u16) = ucast x"
    by (auto intro!: bit_word_eqI simp: bit_simps)
  then show ?thesis by (simp add: mask_eq_exp_minus_1)
qed

lemma e1000_keep4:
  assumes "ev_size ev = 4" "ev_offset ev \<noteq> 8" "unat (ev_offset ev) + 4 \<le> E1000_BAR_SIZE"
  shows "e1000_keep ev val dev = Some (reg_put (unat (ev_offset ev)) val dev)"
  using assms by (simp add: e1000_keep_def store_bytes_def reg_put_def)

context card_memory
begin

lemma tx_collect_ok:
  assumes "tx_has_data d \<Longrightarrow> good (td_addr d) (unat (td_length d))" "unat (pkt_len dev) \<le> PKT_BUF_SIZE"
  shows "\<exists>b l w'. tx_collect H d dev w = Some (dev\<lparr>pkt_buf := b, pkt_len := l\<rparr>, w') \<and>
    bytes_of b 0 (unat l) = tx_join addrs (mem w) (tx_pending dev) d \<and> unat l \<le> PKT_BUF_SIZE \<and>
    mem w' = mem w \<and> sent w' = sent w \<and> irqs w' = irqs w"
proof (cases "tx_has_data d \<and> unat (pkt_len dev) + unat (td_length d) \<le> PKT_BUF_SIZE")
  case True
  let ?data = "tx_data addrs (mem w) d" and ?l = "pkt_len dev + ucast (td_length d)"
  have l: "unat ?l = unat (pkt_len dev) + unat (td_length d)"
    using True by (simp add: unat_word_ariths unsigned_ucast_eq take_bit_nat_eq_self PKT_BUF_SIZE_def)
  have len: "length ?data = unat (td_length d)" by (simp add: tx_data_def addrs_ok)
  from True assms(1) read_ok [of "td_addr d" "unat (td_length d)" w] obtain w' where
    w': "card_read H (td_addr d) (unat (td_length d)) w = Some (Some ?data, w')" "mem w' = mem w" "sent w' = sent w" "irqs w' = irqs w"
    by (auto simp: tx_data_def)
  have "bytes_of (poke (pkt_buf dev) (unat (pkt_len dev)) ?data) 0 (unat ?l) = tx_pending dev @ ?data"
    unfolding l bytes_of_append tx_pending_def using bytes_of_poke [of "pkt_buf dev" _ ?data] len
    by (simp add: bytes_of_poke_before)
  with True w' l show ?thesis
    by (intro exI [of _ "poke (pkt_buf dev) (unat (pkt_len dev)) ?data"] exI [of _ ?l] exI [of _ w'])
      (auto simp: tx_collect_def tx_has_data_def tx_join_def tx_pending_def Let_def)
next
  case False
  then show ?thesis
    using assms(2)
    by (intro exI [of _ "pkt_buf dev"] exI [of _ "pkt_len dev"] exI [of _ w])
      (auto simp: tx_collect_def tx_has_data_def tx_join_def tx_pending_def)
qed

lemma tx_emit_ok:
  "\<exists>w'. tx_emit H d dev w = (dev\<lparr>pkt_len := if tx_eop d then 0 else pkt_len dev\<rparr>, w') \<and> mem w' = mem w \<and>
    irqs w' = irqs w \<and> sent w' = sent w @ (if tx_eop d \<and> tx_pending dev \<noteq> [] then [tx_pending dev] else [])"
proof -
  have "tx_pending dev \<noteq> [] \<longleftrightarrow> pkt_len dev > 0"
    by (simp add: tx_pending_def bytes_of_def word_less_nat_alt)
  then show ?thesis by (auto simp: tx_emit_def send_ok tx_pending_def)
qed

lemma tx_one_ok:
  fixes w :: 'w
  assumes "tx_has_data d \<Longrightarrow> good (td_addr d) (unat (td_length d))" "unat (pkt_len dev) \<le> PKT_BUF_SIZE"
    and "good daddr 16" "unat (tx_ring_len dev) div 16 \<noteq> 0"
  defines "J \<equiv> tx_join addrs (mem w) (tx_pending dev) d"
  shows "\<exists>b l w'. tx_one H daddr d dev w = Some (dev\<lparr>pkt_buf := b, pkt_len := l, tx_head := tx_next dev,
      e_bar0 := poke (e_bar0 dev) 0x3810 (le32 (ucast (tx_next dev)))\<rparr>, w') \<and>
    bytes_of b 0 (unat l) = (if tx_eop d then [] else J) \<and> unat l \<le> PKT_BUF_SIZE \<and>
    mem w' = put_bytes (mem w) (zip (addrs daddr 16) (tx_desc_bytes (d\<lparr>td_status := td_status d OR 1\<rparr>))) \<and>
    irqs w' = irqs w \<and> sent w' = sent w @ (if tx_eop d \<and> J \<noteq> [] then [J] else [])"
proof -
  from tx_collect_ok [of d dev w] assms(1,2) obtain b l w1 where
    1: "tx_collect H d dev w = Some (dev\<lparr>pkt_buf := b, pkt_len := l\<rparr>, w1)" "bytes_of b 0 (unat l) = J"
      "unat l \<le> PKT_BUF_SIZE" "mem w1 = mem w" "sent w1 = sent w" "irqs w1 = irqs w" unfolding J_def by metis
  from tx_emit_ok [of d "dev\<lparr>pkt_buf := b, pkt_len := l\<rparr>" w1] 1 obtain w2 where
    2: "tx_emit H d (dev\<lparr>pkt_buf := b, pkt_len := l\<rparr>) w1 = (dev\<lparr>pkt_buf := b, pkt_len := if tx_eop d then 0 else l\<rparr>, w2)"
      "mem w2 = mem w" "irqs w2 = irqs w" "sent w2 = sent w @ (if tx_eop d \<and> J \<noteq> [] then [J] else [])"
    by (auto simp: tx_pending_def)
  let ?bs = "tx_desc_bytes (d\<lparr>td_status := td_status d OR 1\<rparr>)"
  have len: "length ?bs = 16" by (simp add: tx_desc_bytes_def)
  from write_ok [of daddr ?bs w2] assms(3) len 2 obtain w3 where
    3: "card_write H daddr ?bs w2 = Some (True, w3)" "mem w3 = put_bytes (mem w) (zip (addrs daddr 16) ?bs)"
      "irqs w3 = irqs w" "sent w3 = sent w @ (if tx_eop d \<and> J \<noteq> [] then [J] else [])" by auto
  show ?thesis
    using 1 2(1) 3 assms(4)
    by (intro exI [of _ b] exI [of _ "if tx_eop d then 0 else l"] exI [of _ w3])
      (auto simp: tx_one_def reg_put_def tx_next_def bytes_of_def)
qed

text \<open>One turn of the loop.\<close>

lemma tx_round:
  assumes "tx_dev_ok dev n (Suc k)" "tx_ring_ok addrs good (mem w) (tx_ring_addr dev) (unat (tx_head dev) # rest)"
  defines "h \<equiv> slot_at (tx_ring_addr dev) (unat (tx_head dev))"
    and "d \<equiv> tx_desc_at addrs (mem w) (tx_ring_addr dev) (unat (tx_head dev))"
  defines "J \<equiv> tx_join addrs (mem w) (tx_pending dev) d"
  shows "\<exists>b l w1. tx_loop H irq dev w = tx_loop H (irq \<or> tx_reports d) (dev\<lparr>pkt_buf := b, pkt_len := l,
        tx_head := tx_next dev, e_bar0 := poke (e_bar0 dev) 0x3810 (le32 (ucast (tx_next dev)))\<rparr>) w1 \<and>
    bytes_of b 0 (unat l) = (if tx_eop d then [] else J) \<and> unat l \<le> PKT_BUF_SIZE \<and>
    mem w1 = put_bytes (mem w) (zip (addrs h 16) (tx_desc_bytes (tx_done d))) \<and>
    irqs w1 = irqs w \<and> sent w1 = sent w @ (if tx_eop d \<and> J \<noteq> [] then [J] else [])"
proof -
  have good: "good h 16" "tx_has_data d \<Longrightarrow> good (td_addr d) (unat (td_length d))"
    using assms(2) by (auto simp: tx_ring_ok_def d_def h_def Let_def)
  have n: "unat (tx_head dev) < n" "Suc k < n" and t: "unat (tx_tail dev) = (unat (tx_head dev) + Suc k) mod n"
    and dv: "unat (pkt_len dev) \<le> PKT_BUF_SIZE" "unat (tx_ring_len dev) div 16 \<noteq> 0"
    using assms(1) by (simp_all add: tx_dev_ok_def)
  have ne: "tx_head dev \<noteq> tx_tail dev" using t ring_walk [OF n(1) _ n(2)] by (metis zero_less_Suc)
  from read_ok [OF good(1), of w] obtain w0 where
    r: "card_read H h 16 w = Some (Some (map (mem w) (addrs h 16)), w0)" "mem w0 = mem w" "sent w0 = sent w" "irqs w0 = irqs w"
    by blast
  from tx_one_ok [OF good(2) dv(1) good(1) dv(2), of w0, unfolded r(2-4)] obtain b l w1 where
    o: "tx_one H h d dev w0 = Some (dev\<lparr>pkt_buf := b, pkt_len := l, tx_head := tx_next dev,
        e_bar0 := poke (e_bar0 dev) 0x3810 (le32 (ucast (tx_next dev)))\<rparr>, w1)"
      "bytes_of b 0 (unat l) = (if tx_eop d then [] else J)" "unat l \<le> PKT_BUF_SIZE"
      "mem w1 = put_bytes (mem w) (zip (addrs h 16) (tx_desc_bytes (tx_done d)))"
      "irqs w1 = irqs w" "sent w1 = sent w @ (if tx_eop d \<and> J \<noteq> [] then [J] else [])"
    unfolding J_def tx_done_def by blast
  have "tx_loop H irq dev w = tx_loop H (irq \<or> tx_reports d) (dev\<lparr>pkt_buf := b, pkt_len := l,
        tx_head := tx_next dev, e_bar0 := poke (e_bar0 dev) 0x3810 (le32 (ucast (tx_next dev)))\<rparr>) w1"
    using ne r(1) o(1) by (subst tx_loop.simps)
      (simp add: slot_at_head d_def h_def tx_desc_at_def tx_reports_def Let_def)
  with o(2-6) show ?thesis by blast
qed

lemma tx_loop_ok:
  assumes "tx_dev_ok dev n k" "tx_ring_ok addrs good (mem w) (tx_ring_addr dev) (ring_slots n (unat (tx_head dev)) k)"
  defines "slots \<equiv> ring_slots n (unat (tx_head dev)) k"
  defines "ds \<equiv> map (tx_desc_at addrs (mem w) (tx_ring_addr dev)) slots"
  shows "\<exists>b l e w'. tx_loop H irq dev w = Some (irq \<or> list_ex tx_reports ds,
      dev\<lparr>pkt_buf := b, pkt_len := l, tx_head := tx_tail dev, e_bar0 := e\<rparr>, w') \<and>
    bytes_of b 0 (unat l) = snd (tx_frames addrs (mem w) (tx_pending dev) ds) \<and> unat l \<le> PKT_BUF_SIZE \<and>
    sent w' = sent w @ fst (tx_frames addrs (mem w) (tx_pending dev) ds) \<and> irqs w' = irqs w \<and>
    tx_outcome addrs (mem w) (mem w') (tx_ring_addr dev) slots \<and>
    e = (if k = 0 then e_bar0 dev else poke (e_bar0 dev) 0x3810 (le32 (ucast (tx_tail dev))))"
  using assms(1,2) unfolding slots_def ds_def
proof (induction k arbitrary: dev w irq)
  case 0
  then have "tx_head dev = tx_tail dev" by (simp add: tx_dev_ok_def word_unat_eq_iff)
  then show ?case
    using 0 by (intro exI [of _ "pkt_buf dev"] exI [of _ "pkt_len dev"] exI [of _ "e_bar0 dev"] exI [of _ w])
      (simp add: tx_loop.simps tx_pending_def tx_outcome_def tx_dev_ok_def)
next
  case (Suc k)
  let ?h = "unat (tx_head dev)" and ?base = "tx_ring_addr dev"
  define d where "d = tx_desc_at addrs (mem w) ?base ?h"
  define rest where "rest = ring_slots n (Suc ?h mod n) k"
  have slots: "ring_slots n ?h (Suc k) = ?h # rest"
    using Suc.prems(1) by (simp add: rest_def tx_dev_ok_def)
  note ok = Suc.prems(2) [unfolded slots]
  define J where "J = tx_join addrs (mem w) (tx_pending dev) d"
  define J' where "J' = (if tx_eop d then [] else J)"
  from tx_round [OF Suc.prems(1) ok, of irq, folded d_def, folded J_def J'_def] obtain b l w2 where
    o: "tx_loop H irq dev w = tx_loop H (irq \<or> tx_reports d) (dev\<lparr>pkt_buf := b, pkt_len := l,
        tx_head := tx_next dev, e_bar0 := poke (e_bar0 dev) 0x3810 (le32 (ucast (tx_next dev)))\<rparr>) w2"
      "bytes_of b 0 (unat l) = J'" "unat l \<le> PKT_BUF_SIZE"
      "mem w2 = put_bytes (mem w) (zip (addrs (slot_at ?base ?h) 16) (tx_desc_bytes (tx_done d)))"
      "irqs w2 = irqs w" "sent w2 = sent w @ (if tx_eop d \<and> J \<noteq> [] then [J] else [])"
    by blast
  define dev1 where "dev1 = dev\<lparr>pkt_buf := b, pkt_len := l, tx_head := tx_next dev,
        e_bar0 := poke (e_bar0 dev) 0x3810 (le32 (ucast (tx_next dev)))\<rparr>"
  have dev1: "tx_dev_ok dev1 n k" "unat (tx_head dev1) = Suc ?h mod n" "tx_ring_addr dev1 = ?base" "tx_tail dev1 = tx_tail dev"
    "tx_pending dev1 = J'"
    using tx_next_dev_ok [OF Suc.prems(1) o(3)] o(2) by (simp_all add: dev1_def tx_pending_def)
  note step = tx_ring_step [OF ok o(4)]
  let ?ds = "map (tx_desc_at addrs (mem w) ?base) rest"
  have ds: "map (tx_desc_at addrs (mem w2) ?base) rest = ?ds" using step(1) by simp
  have fr: "tx_frames addrs (mem w2) acc ?ds = tx_frames addrs (mem w) acc ?ds" for acc
    using step(2) by (intro tx_frames_cong) auto
  have "tx_ring_ok addrs good (mem w2) (tx_ring_addr dev1) (ring_slots n (unat (tx_head dev1)) k)"
    using step(3) by (simp add: dev1 rest_def)
  from Suc.IH [OF dev1(1) this, of "irq \<or> tx_reports d", unfolded dev1(2-5), folded rest_def, unfolded ds fr]
  obtain b' l' e' w' where
    i: "tx_loop H (irq \<or> tx_reports d) dev1 w2 = Some ((irq \<or> tx_reports d) \<or> list_ex tx_reports ?ds,
        dev1\<lparr>pkt_buf := b', pkt_len := l', tx_head := tx_tail dev, e_bar0 := e'\<rparr>, w')"
      "bytes_of b' 0 (unat l') = snd (tx_frames addrs (mem w) J' ?ds)" "unat l' \<le> PKT_BUF_SIZE"
      "sent w' = sent w2 @ fst (tx_frames addrs (mem w) J' ?ds)" "irqs w' = irqs w2"
      "tx_outcome addrs (mem w2) (mem w') ?base rest"
      "e' = (if k = 0 then e_bar0 dev1 else poke (e_bar0 dev1) 0x3810 (le32 (ucast (tx_tail dev))))"
    by blast
  have "e' = poke (e_bar0 dev) 0x3810 (le32 (ucast (tx_tail dev)))"
  proof (cases "k = 0")
    case True
    then have "tx_next dev = tx_tail dev" using dev1(1) by (simp add: tx_dev_ok_def word_unat_eq_iff dev1_def)
    with True i(7) show ?thesis by (simp add: dev1_def)
  qed (use i(7) in \<open>simp add: dev1_def poke_poke\<close>)
  moreover have "tx_outcome addrs (mem w) (mem w') ?base (?h # rest)"
    using tx_outcome_step [OF ok _ o(4) [unfolded d_def] i(6)] addrs_ok(1) by simp
  ultimately show ?case
    unfolding slots o(1) dev1_def [symmetric] i(1)
    using i(2-5) o(5,6)
    by (intro exI [of _ b'] exI [of _ l'] exI [of _ e'] exI [of _ w'])
      (simp add: dev1_def Let_def d_def [symmetric] J_def [symmetric] J'_def case_prod_beta)
qed

lemma process_tx_ok:
  assumes "tx_dev_ok dev n k" "tx_ring_ok addrs good (mem w) (tx_ring_addr dev) (ring_slots n (unat (tx_head dev)) k)"
  defines "slots \<equiv> ring_slots n (unat (tx_head dev)) k"
  defines "ds \<equiv> map (tx_desc_at addrs (mem w) (tx_ring_addr dev)) slots"
  defines "out \<equiv> tx_frames addrs (mem w) (tx_pending dev) ds"
  shows "\<exists>b l e c w'. process_tx H dev w = Some (dev\<lparr>pkt_buf := b, pkt_len := l, tx_head := tx_tail dev, e_bar0 := e, icr_shadow := c\<rparr>, w') \<and>
    bytes_of b 0 (unat l) = snd out \<and> sent w' = sent w @ fst out \<and>
    irqs w' = irqs w + (if list_ex tx_reports ds then 1 else 0) \<and>
    c = icr_shadow dev OR (if list_ex tx_reports ds then E1000_ICR_TXDW else 0) \<and>
    (list_ex tx_reports ds \<longrightarrow> get32 e 0xC0 = c) \<and> (0 < k \<longrightarrow> get32 e 0x3810 = ucast (tx_tail dev)) \<and>
    tx_outcome addrs (mem w) (mem w') (tx_ring_addr dev) slots"
proof -
  from tx_loop_ok [OF assms(1,2), of False, folded slots_def, folded ds_def, folded out_def] obtain b l e w' where
    1: "tx_loop H False dev w = Some (list_ex tx_reports ds, dev\<lparr>pkt_buf := b, pkt_len := l, tx_head := tx_tail dev, e_bar0 := e\<rparr>, w')"
      "bytes_of b 0 (unat l) = snd out" "sent w' = sent w @ fst out" "irqs w' = irqs w"
      "tx_outcome addrs (mem w) (mem w') (tx_ring_addr dev) slots"
      "e = (if k = 0 then e_bar0 dev else poke (e_bar0 dev) 0x3810 (le32 (ucast (tx_tail dev))))"
    by auto
  define r where "r = list_ex tx_reports ds"
  define c where "c = icr_shadow dev OR (if r then E1000_ICR_TXDW else 0)"
  define e' where "e' = (if r then poke e 0xC0 (le32 c) else e)"
  define w2 where "w2 = (if r then card_irq H w' else w')"
  have "get32 e' 0x3810 = get32 e 0x3810"
    by (cases r) (simp_all add: e'_def get32_def poke_def)
  moreover have "0 < k \<longrightarrow> get32 e 0x3810 = ucast (tx_tail dev)"
    by (simp add: 1(6) get32_poke_le32)
  moreover have "r \<longrightarrow> get32 e' 0xC0 = c"
    by (simp add: e'_def get32_poke_le32)
  moreover have "process_tx H dev w = Some (dev\<lparr>pkt_buf := b, pkt_len := l, tx_head := tx_tail dev, e_bar0 := e', icr_shadow := c\<rparr>, w2)"
    using 1(1) by (cases r) (simp_all add: process_tx_def r_def [symmetric] raise_cause_def reg_put_def c_def e'_def w2_def Let_def)
  moreover have "mem w2 = mem w'" "sent w2 = sent w'" "irqs w2 = irqs w' + (if r then 1 else 0)"
    by (simp_all add: w2_def irq_ok)
  ultimately show ?thesis
    using 1(2-5) unfolding r_def [symmetric]
    by (intro exI [of _ b] exI [of _ l] exI [of _ e'] exI [of _ c] exI [of _ w2]) (simp add: c_def)
qed

text \<open>The driver's write of the tail.\<close>

lemma tail_write_ok:
  assumes "ev_bar ev = 0" "ev_offset ev = 0x3818" "ev_size ev = 4" "t = ucast (ev_data ev)" "dev1 = dev\<lparr>tx_tail := t\<rparr>"
    and "tx_dev_ok dev1 n k" "tx_ring_ok addrs good (mem w) (tx_ring_addr dev) (ring_slots n (unat (tx_head dev)) k)"
  defines "slots \<equiv> ring_slots n (unat (tx_head dev)) k"
  defines "ds \<equiv> map (tx_desc_at addrs (mem w) (tx_ring_addr dev)) slots"
  defines "out \<equiv> tx_frames addrs (mem w) (tx_pending dev) ds"
  shows "\<exists>dev' w'. e1000_handle_write H ev dev w = Some (dev', w') \<and>
    sent w' = sent w @ fst out \<and> tx_pending dev' = snd out \<and>
    tx_head dev' = t \<and> (0 < k \<longrightarrow> reg_get 0x3810 dev' = ucast t) \<and>
    irqs w' = irqs w + (if list_ex tx_reports ds then 1 else 0) \<and>
    icr_shadow dev' = icr_shadow dev OR (if list_ex tx_reports ds then E1000_ICR_TXDW else 0) \<and>
    (list_ex tx_reports ds \<longrightarrow> reg_get 0xC0 dev' = icr_shadow dev') \<and>
    tx_outcome addrs (mem w) (mem w') (tx_ring_addr dev) slots"
proof -
  have same: "tx_ring_addr dev1 = tx_ring_addr dev" "tx_head dev1 = tx_head dev" "tx_pending dev1 = tx_pending dev"
    "tx_tail dev1 = t" "icr_shadow dev1 = icr_shadow dev"
    by (simp_all add: assms(5) tx_pending_def)
  from process_tx_ok [OF assms(6), of w, unfolded same, OF assms(7), folded slots_def, folded ds_def, folded out_def]
  obtain b l e c w' where
    1: "process_tx H dev1 w = Some (dev1\<lparr>pkt_buf := b, pkt_len := l, tx_head := t, e_bar0 := e, icr_shadow := c\<rparr>, w')"
      "bytes_of b 0 (unat l) = snd out" "sent w' = sent w @ fst out"
      "irqs w' = irqs w + (if list_ex tx_reports ds then 1 else 0)"
      "c = icr_shadow dev OR (if list_ex tx_reports ds then E1000_ICR_TXDW else 0)"
      "list_ex tx_reports ds \<longrightarrow> get32 e 0xC0 = c" "0 < k \<longrightarrow> get32 e 0x3810 = ucast t"
      "tx_outcome addrs (mem w) (mem w') (tx_ring_addr dev) slots"
    by blast
  define e' where "e' = poke e 0x3818 (le32 (ucast (ev_data ev)))"
  define dev' where "dev' = dev1\<lparr>pkt_buf := b, pkt_len := l, tx_head := t, e_bar0 := e', icr_shadow := c\<rparr>"
  have e': "get32 e' 0xC0 = get32 e 0xC0" "get32 e' 0x3810 = get32 e 0x3810"
    by (simp_all add: e'_def get32_def poke_def)
  have dev1: "dev\<lparr>tx_tail := ucast ((ucast (ev_data ev) :: u32) AND 0xffff)\<rparr> = dev1"
    by (simp add: assms(4,5) low_word)
  have "e1000_handle_write H ev dev w = Some (dev', w')"
    using assms(2,3) e1000_keep4 [of ev "ucast (ev_data ev)"] 1(1)
    by (simp add: e1000_write4 assms(1,3) e1000_write_val_def dev1 Let_def dev'_def e'_def reg_put_def E1000_BAR_SIZE_def)
  with 1(2-8) e' show ?thesis
    by (intro exI [of _ dev'] exI [of _ w']) (simp add: dev'_def tx_pending_def reg_get_def)
qed

end

end
