(* ===== verification/E1000Rx.thy ===== *)
theory E1000Rx
  imports E1000Tx
begin

text \<open>
  The receive ring of the e1000 card: a packet is spread over descriptors, and a driver that walks them
  (\<open>rx_frame\<close>) puts it together again.
\<close>

subsection \<open>Descriptors\<close>

lemma rx_desc_roundtrip: "rx_desc_of (rx_desc_bytes d) = d"
proof -
  have "bytes_of ((!) (rx_desc_bytes d)) 0 8 = le64 (rd_addr d)"
    by (rule nth_equalityI) (simp_all add: bytes_of_def rx_desc_bytes_def nth_append)
  moreover have "get16 ((!) (xs @ le16 v @ ys)) (length xs) = v" for xs v ys
    using join16 [of v] by (simp add: get16_def nth_append le16_def)
  from this [of "le64 (rd_addr d)" "rd_length d"] this [of "le64 (rd_addr d) @ le16 (rd_length d)" "rd_csum d"]
    this [of "le64 (rd_addr d) @ le16 (rd_length d) @ le16 (rd_csum d) @ [rd_status d, rd_errors d]" "rd_special d" "[]"]
  have "get16 ((!) (rx_desc_bytes d)) 8 = rd_length d" "get16 ((!) (rx_desc_bytes d)) 10 = rd_csum d"
    "get16 ((!) (rx_desc_bytes d)) 14 = rd_special d"
    by (simp_all add: rx_desc_bytes_def)
  moreover have "rx_desc_bytes d ! 12 = rd_status d" "rx_desc_bytes d ! 13 = rd_errors d"
    by (simp_all add: rx_desc_bytes_def nth_append)
  ultimately show ?thesis by (simp add: rx_desc_of_def Let_def of_le_le64)
qed

definition rx_desc_at :: "(u64 \<Rightarrow> nat \<Rightarrow> u64 list) \<Rightarrow> (u64 \<Rightarrow> u8) \<Rightarrow> u64 \<Rightarrow> nat \<Rightarrow> e1000_rx_desc" where
  "rx_desc_at addrs m base i = rx_desc_of (map m (addrs (slot_at base i) 16))"

definition rx_region :: "(u64 \<Rightarrow> nat \<Rightarrow> u64 list) \<Rightarrow> (u64 \<Rightarrow> u8) \<Rightarrow> u64 \<Rightarrow> nat \<Rightarrow> u64 list" where
  "rx_region addrs m base i =
     addrs (slot_at base i) 16 @ addrs (rd_addr (rx_desc_at addrs m base i)) RX_DESC_BUF_SIZE"

text \<open>The driver's side: buffers up to the descriptor that ends the packet, none of them still with the card.\<close>

fun rx_frame :: "(u64 \<Rightarrow> nat \<Rightarrow> u64 list) \<Rightarrow> (u64 \<Rightarrow> u8) \<Rightarrow> u64 \<Rightarrow> nat list \<Rightarrow> u8 list option" where
  "rx_frame addrs m base [] = None"
| "rx_frame addrs m base (i # slots) =
     (let d = rx_desc_at addrs m base i; data = map m (addrs (rd_addr d) (unat (rd_length d)))
      in if rd_status d AND 1 = 0 then None
         else if rd_status d AND 2 \<noteq> 0 then Some data
         else map_option ((@) data) (rx_frame addrs m base slots))"

text \<open>The descriptors hold buffers the card can reach, and nothing overlaps.\<close>

definition rx_ring_ok ::
    "(u64 \<Rightarrow> nat \<Rightarrow> u64 list) \<Rightarrow> (u64 \<Rightarrow> nat \<Rightarrow> bool) \<Rightarrow> (u64 \<Rightarrow> u8) \<Rightarrow> u64 \<Rightarrow> nat list \<Rightarrow> bool" where
  "rx_ring_ok addrs good m base slots \<longleftrightarrow>
     (\<forall>i\<in>set slots. let a = rd_addr (rx_desc_at addrs m base i) in good (slot_at base i) 16 \<and> a \<noteq> 0 \<and>
        (\<forall>c. 0 < c \<and> c \<le> RX_DESC_BUF_SIZE \<longrightarrow> good a c)) \<and>
     distinct (concat (map (rx_region addrs m base) slots))"

text \<open>A ring of \<open>n\<close> descriptors of which the card may fill \<open>f\<close>.\<close>

definition rx_dev_ok :: "e1000_device \<Rightarrow> nat \<Rightarrow> nat \<Rightarrow> bool" where
  "rx_dev_ok dev n f \<longleftrightarrow> rx_ring_size dev = n \<and> n \<le> 65536 \<and> unat (rx_head dev) < n \<and> f < n \<and>
     unat (rx_tail dev) = (unat (rx_head dev) + f + 1) mod n"

lemma rx_next_ok:
  assumes "rx_dev_ok dev n f"
  shows "unat (rx_next dev) = Suc (unat (rx_head dev)) mod n"
    "0 < f \<Longrightarrow> rx_next dev \<noteq> rx_tail dev"
    "f = Suc g \<Longrightarrow> rx_dev_ok (dev\<lparr>rx_head := rx_next dev, e_bar0 := e\<rparr>) n g"
proof -
  have n: "0 < n" "n \<le> 65536" using assms by (simp_all add: rx_dev_ok_def)
  then have "Suc (unat (rx_head dev)) mod n < 65536" by (meson mod_less_divisor order_less_le_trans)
  with assms show u: "unat (rx_next dev) = Suc (unat (rx_head dev)) mod n"
    by (simp add: rx_next_def rx_dev_ok_def unsigned_of_nat take_bit_nat_eq_self)
  have "(Suc (unat (rx_head dev)) mod n + (g + 1)) mod n = (Suc (unat (rx_head dev)) + (g + 1)) mod n"
    by (rule mod_add_left_eq)
  then show "rx_dev_ok (dev\<lparr>rx_head := rx_next dev, e_bar0 := e\<rparr>) n g" if "f = Suc g"
    using assms n that by (simp add: rx_dev_ok_def rx_ring_size_def u mod_simps)
  show "rx_next dev \<noteq> rx_tail dev" if "0 < f"
  proof -
    have t: "unat (rx_tail dev) = (Suc (unat (rx_head dev)) mod n + f) mod n" "f < n"
      using assms by (simp_all add: rx_dev_ok_def mod_simps)
    then have "unat (rx_tail dev) \<noteq> Suc (unat (rx_head dev)) mod n"
      using ring_walk [of "Suc (unat (rx_head dev)) mod n" n f] that n by simp
    then show ?thesis using u by auto
  qed
qed

lemma rx_ring_step:
  assumes "rx_ring_ok addrs good m base (h # slots)" "\<forall>a. a \<notin> set (rx_region addrs m base h) \<longrightarrow> m' a = m a"
  shows "\<forall>i\<in>set slots. rx_desc_at addrs m' base i = rx_desc_at addrs m base i"
    "\<forall>i\<in>set slots. rx_region addrs m' base i = rx_region addrs m base i"
    "rx_ring_ok addrs good m' base slots"
proof -
  have other: "set (rx_region addrs m base h) \<inter> set (rx_region addrs m base i) = {}" if "i \<in> set slots" for i
    using assms(1) that by (auto simp: rx_ring_ok_def)
  have same: "map m' (addrs (slot_at base i) 16) = map m (addrs (slot_at base i) 16)" if "i \<in> set slots" for i
    using other [OF that] by (intro map_cong refl assms(2) [rule_format]) (auto simp: rx_region_def)
  show d: "\<forall>i\<in>set slots. rx_desc_at addrs m' base i = rx_desc_at addrs m base i"
    unfolding rx_desc_at_def by (intro ballI) (simp only: same)
  then show r: "\<forall>i\<in>set slots. rx_region addrs m' base i = rx_region addrs m base i"
    by (simp add: rx_region_def)
  then have c: "map (rx_region addrs m' base) slots = map (rx_region addrs m base) slots" by simp
  show "rx_ring_ok addrs good m' base slots"
    using assms(1) d unfolding rx_ring_ok_def c Let_def by simp
qed

text \<open>The outcome: the driver finds the packet, and nothing outside descriptors and buffers has changed.\<close>

definition rx_outcome ::
    "(u64 \<Rightarrow> nat \<Rightarrow> u64 list) \<Rightarrow> (u64 \<Rightarrow> u8) \<Rightarrow> (u64 \<Rightarrow> u8) \<Rightarrow> u64 \<Rightarrow> nat list \<Rightarrow> u8 list \<Rightarrow> bool" where
  "rx_outcome addrs m m' base slots pkt \<longleftrightarrow>
     (pkt \<noteq> [] \<longrightarrow> rx_frame addrs m' base slots = Some pkt) \<and>
     (\<forall>a. (\<forall>i\<in>set slots. a \<notin> set (rx_region addrs m base i)) \<longrightarrow> m' a = m a)"

definition rx_filled :: "u8 list \<Rightarrow> e1000_rx_desc \<Rightarrow> e1000_rx_desc" where
  "rx_filled pkt d = d\<lparr>rd_length := of_nat (length (take RX_DESC_BUF_SIZE pkt)),
     rd_status := 1 OR (if drop RX_DESC_BUF_SIZE pkt = [] then 2 else 0), rd_errors := 0\<rparr>"

lemma rx_outcome_step:
  assumes ok: "rx_ring_ok addrs good m base (h # slots)" "d = rx_desc_at addrs m base h"
    and m1: "\<forall>a. a \<notin> set (rx_region addrs m base h) \<longrightarrow> m1 a = m a" "rx_desc_at addrs m1 base h = rx_filled pkt d"
      "map m1 (addrs (rd_addr d) (length (take RX_DESC_BUF_SIZE pkt))) = take RX_DESC_BUF_SIZE pkt"
    and m2: "rx_outcome addrs m1 m2 base slots (drop RX_DESC_BUF_SIZE pkt)"
    and part: "\<And>a k. k \<le> RX_DESC_BUF_SIZE \<Longrightarrow> set (addrs a k) \<subseteq> set (addrs a RX_DESC_BUF_SIZE)"
  shows "rx_outcome addrs m m2 base (h # slots) pkt"
proof -
  note step = rx_ring_step [OF ok(1) m1(1)]
  let ?c = "take RX_DESC_BUF_SIZE pkt"
  have far: "set (rx_region addrs m base h) \<inter> set (rx_region addrs m base i) = {}" if "i \<in> set slots" for i
    using ok(1) that by (auto simp: rx_ring_ok_def)
  have keep: "m2 a = m1 a" if "a \<in> set (rx_region addrs m base h)" for a
    using m2 far step(2) that unfolding rx_outcome_def by fastforce
  have "map m2 (addrs (slot_at base h) 16) = map m1 (addrs (slot_at base h) 16)"
    by (intro map_cong refl keep) (simp add: rx_region_def)
  then have d2: "rx_desc_at addrs m2 base h = rx_filled pkt d" using m1(2) by (simp only: rx_desc_at_def)
  have "map m2 (addrs (rd_addr d) (length ?c)) = map m1 (addrs (rd_addr d) (length ?c))"
    using part [of "length ?c" "rd_addr d"] by (intro map_cong refl keep) (auto simp: rx_region_def ok(2))
  then have data: "map m2 (addrs (rd_addr d) (length ?c)) = ?c" using m1(3) by (simp only:)
  have len: "unat (of_nat (length ?c) :: u16) = length ?c"
    by (simp add: unsigned_of_nat take_bit_nat_eq_self RX_DESC_BUF_SIZE_def)
  have "rx_frame addrs m2 base (h # slots) = Some pkt" if "pkt \<noteq> []"
  proof (cases "drop RX_DESC_BUF_SIZE pkt = []")
    case True
    with data len show ?thesis by (simp add: Let_def d2 rx_filled_def)
  next
    case False
    then have "rx_frame addrs m2 base slots = Some (drop RX_DESC_BUF_SIZE pkt)"
      using m2 by (simp add: rx_outcome_def)
    moreover have "rd_addr (rx_filled pkt d) = rd_addr d" "rd_status (rx_filled pkt d) = 1"
      "unat (rd_length (rx_filled pkt d)) = length ?c"
      using False len by (simp_all add: rx_filled_def)
    moreover have "(1 :: u8) AND 1 \<noteq> 0" "(1 :: u8) AND 2 = 0" by simp_all
    ultimately show ?thesis using data by (simp only: rx_frame.simps Let_def d2 if_False option.map append_take_drop_id) simp
  qed
  moreover have "m2 a = m a" if "\<forall>i\<in>set (h # slots). a \<notin> set (rx_region addrs m base i)" for a
    using m2 m1(1) step(2) that by (simp add: rx_outcome_def)
  ultimately show ?thesis unfolding rx_outcome_def by blast
qed

context card_memory
begin

lemma rx_round:
  assumes "rx_dev_ok dev n f" "0 < f" "pkt \<noteq> []"
    and "rx_ring_ok addrs good (mem w) (rx_ring_addr dev) (unat (rx_head dev) # rest)"
  defines "h \<equiv> slot_at (rx_ring_addr dev) (unat (rx_head dev))"
    and "d \<equiv> rx_desc_at addrs (mem w) (rx_ring_addr dev) (unat (rx_head dev))"
  shows "\<exists>w1. rx_store H pkt dev w = rx_store H (drop RX_DESC_BUF_SIZE pkt)
      (dev\<lparr>rx_head := rx_next dev, e_bar0 := poke (e_bar0 dev) 0x2810 (le32 (ucast (rx_next dev)))\<rparr>) w1 \<and>
    (\<forall>a. a \<notin> set (rx_region addrs (mem w) (rx_ring_addr dev) (unat (rx_head dev))) \<longrightarrow> mem w1 a = mem w a) \<and>
    rx_desc_at addrs (mem w1) (rx_ring_addr dev) (unat (rx_head dev)) = rx_filled pkt d \<and>
    map (mem w1) (addrs (rd_addr d) (length (take RX_DESC_BUF_SIZE pkt))) = take RX_DESC_BUF_SIZE pkt \<and>
    irqs w1 = irqs w \<and> sent w1 = sent w"
proof -
  let ?chunk = "take RX_DESC_BUF_SIZE pkt" and ?region = "rx_region addrs (mem w) (rx_ring_addr dev) (unat (rx_head dev))"
  let ?slot = "addrs h 16" and ?buf = "addrs (rd_addr d) (length (take RX_DESC_BUF_SIZE pkt))"
  have c: "0 < length ?chunk" "length ?chunk \<le> RX_DESC_BUF_SIZE"
    using assms(3) by (simp_all add: RX_DESC_BUF_SIZE_def)
  have good: "good h 16" "rd_addr d \<noteq> 0" "good (rd_addr d) (length ?chunk)"
    using assms(4) c by (auto simp: rx_ring_ok_def Let_def h_def d_def)
  have reg: "?region = ?slot @ addrs (rd_addr d) RX_DESC_BUF_SIZE" by (simp add: rx_region_def h_def d_def)
  have buf2: "?buf = take (length ?chunk) (addrs (rd_addr d) RX_DESC_BUF_SIZE)" by (rule sym [OF addrs_ok(2) [OF c(2)]])
  have buf: "set ?buf \<subseteq> set (addrs (rd_addr d) RX_DESC_BUF_SIZE)" unfolding buf2 by (rule set_take_subset)
  have "distinct ?region" using assms(4) by (simp add: rx_ring_ok_def)
  then have d2: "distinct ?slot" "distinct (addrs (rd_addr d) RX_DESC_BUF_SIZE)"
      "set ?slot \<inter> set (addrs (rd_addr d) RX_DESC_BUF_SIZE) = {}" by (simp_all add: reg)
  have dis: "distinct ?buf" unfolding buf2 using d2(2) by (rule distinct_take)
  have dis3: "set ?slot \<inter> set ?buf = {}" using d2(3) buf by blast
  from read_ok [OF good(1), of w] obtain w0 where
    r: "card_read H h 16 w = Some (Some (map (mem w) ?slot), w0)" "mem w0 = mem w" "sent w0 = sent w" "irqs w0 = irqs w" by blast
  from write_ok [OF good(3), of w0] obtain wb where
    b: "card_write H (rd_addr d) ?chunk w0 = Some (True, wb)" "mem wb = put_bytes (mem w) (zip ?buf ?chunk)"
      "sent wb = sent w" "irqs wb = irqs w" using r by auto
  define bs where "bs = rx_desc_bytes (rx_filled pkt d)"
  have len: "length bs = 16" by (simp add: bs_def rx_desc_bytes_def)
  from write_ok [of h bs wb] good(1) len obtain w1 where
    s: "card_write H h bs wb = Some (True, w1)" "mem w1 = put_bytes (mem wb) (zip ?slot bs)"
      "sent w1 = sent w" "irqs w1 = irqs w" using b by auto
  have ne: "(pkt = [] \<or> rx_next dev = rx_tail dev) = False" using assms(3) rx_next_ok(2) [OF assms(1,2)] by simp
  have d: "rx_desc_of (map (mem w) ?slot) = d" by (simp add: d_def rx_desc_at_def h_def)
  have filled: "d\<lparr>rd_length := of_nat (length ?chunk), rd_status := 1 OR (if drop RX_DESC_BUF_SIZE pkt = [] then 2 else 0),
      rd_errors := 0\<rparr> = rx_filled pkt d" by (simp only: rx_filled_def)
  have "rx_store H pkt dev w = rx_store H (drop RX_DESC_BUF_SIZE pkt)
      (dev\<lparr>rx_head := rx_next dev, e_bar0 := poke (e_bar0 dev) 0x2810 (le32 (ucast (rx_next dev)))\<rparr>) w1"
    by (subst rx_store.simps)
      (simp only: slot_at_head h_def [symmetric] ne if_False Let_def r(1) b(1) s(1) bind.bind_lunit prod.case option.case
        d good(2) filled bs_def [symmetric] reg_put_def e1000_device.simps, simp)
  moreover have "mem w1 a = mem w a" if "a \<notin> set ?region" for a
    using that buf unfolding s(2) b(2) reg by (subst put_bytes_other; auto dest!: set_zip_leftD)+
  moreover have "map (mem w1) ?slot = bs"
    unfolding s(2) using d2(1) len addrs_ok(1) by (intro put_bytes_get) simp_all
  then have "rx_desc_at addrs (mem w1) (rx_ring_addr dev) (unat (rx_head dev)) = rx_filled pkt d"
    by (simp add: rx_desc_at_def h_def [symmetric] bs_def rx_desc_roundtrip)
  moreover have kept: "map (mem w1) ?buf = map (mem wb) ?buf"
    unfolding s(2) using dis3 by (intro map_cong refl put_bytes_other) (auto dest!: set_zip_leftD)
  moreover have "map (mem wb) ?buf = ?chunk"
    unfolding b(2) using dis addrs_ok(1) by (intro put_bytes_get) simp_all
  with kept have "map (mem w1) ?buf = ?chunk" by (simp only:)
  ultimately show ?thesis using s(3,4) by blast
qed

lemma rx_store_ok:
  assumes "rx_dev_ok dev n (m + g)" "length pkt \<le> m * RX_DESC_BUF_SIZE" "(m - 1) * RX_DESC_BUF_SIZE < length pkt \<or> m = 0"
    and "rx_ring_ok addrs good (mem w) (rx_ring_addr dev) (ring_slots n (unat (rx_head dev)) m)"
  shows "\<exists>e w'. rx_store H pkt dev w = Some (dev\<lparr>rx_head := of_nat ((unat (rx_head dev) + m) mod n), e_bar0 := e\<rparr>, w') \<and>
    rx_outcome addrs (mem w) (mem w') (rx_ring_addr dev) (ring_slots n (unat (rx_head dev)) m) pkt \<and>
    irqs w' = irqs w \<and> sent w' = sent w \<and>
    e = (if m = 0 then e_bar0 dev else poke (e_bar0 dev) 0x2810 (le32 (of_nat ((unat (rx_head dev) + m) mod n))))"
  using assms
proof (induction m arbitrary: pkt dev w)
  case 0
  then have "pkt = []" by simp
  moreover have "of_nat (unat (rx_head dev) mod n) = rx_head dev" using 0(1) by (simp add: rx_dev_ok_def)
  ultimately show ?case
    by (intro exI [of _ "e_bar0 dev"] exI [of _ w]) (simp add: rx_store.simps rx_outcome_def)
next
  case (Suc m)
  let ?h = "unat (rx_head dev)" and ?base = "rx_ring_addr dev" and ?rest = "drop RX_DESC_BUF_SIZE pkt"
  define d where "d = rx_desc_at addrs (mem w) ?base ?h"
  define slots where "slots = ring_slots n (Suc ?h mod n) m"
  have sl: "ring_slots n ?h (Suc m) = ?h # slots" using Suc.prems(1) by (simp add: slots_def rx_dev_ok_def)
  note ok = Suc.prems(4) [unfolded sl]
  have ne: "pkt \<noteq> []" using Suc.prems(3) by auto
  from rx_round [OF Suc.prems(1) _ ne ok, folded d_def] obtain w1 where
    1: "rx_store H pkt dev w = rx_store H ?rest
        (dev\<lparr>rx_head := rx_next dev, e_bar0 := poke (e_bar0 dev) 0x2810 (le32 (ucast (rx_next dev)))\<rparr>) w1"
      "\<forall>a. a \<notin> set (rx_region addrs (mem w) ?base ?h) \<longrightarrow> mem w1 a = mem w a"
      "rx_desc_at addrs (mem w1) ?base ?h = rx_filled pkt d"
      "map (mem w1) (addrs (rd_addr d) (length (take RX_DESC_BUF_SIZE pkt))) = take RX_DESC_BUF_SIZE pkt"
      "irqs w1 = irqs w" "sent w1 = sent w" by auto
  define dev1 where "dev1 = dev\<lparr>rx_head := rx_next dev, e_bar0 := poke (e_bar0 dev) 0x2810 (le32 (ucast (rx_next dev)))\<rparr>"
  have dev1: "rx_dev_ok dev1 n (m + g)" "unat (rx_head dev1) = Suc ?h mod n" "rx_ring_addr dev1 = ?base"
    using rx_next_ok(1,3) [OF Suc.prems(1)] by (simp_all add: dev1_def)
  note step = rx_ring_step [OF ok 1(2)]
  have len: "length ?rest \<le> m * RX_DESC_BUF_SIZE" "(m - 1) * RX_DESC_BUF_SIZE < length ?rest \<or> m = 0"
    using Suc.prems(2,3) by (auto simp: RX_DESC_BUF_SIZE_def)
  have "rx_ring_ok addrs good (mem w1) (rx_ring_addr dev1) (ring_slots n (unat (rx_head dev1)) m)"
    using step(3) by (simp add: dev1 slots_def)
  from Suc.IH [OF dev1(1) len this, unfolded dev1(2,3), folded slots_def] obtain e w' where
    2: "rx_store H ?rest dev1 w1 = Some (dev1\<lparr>rx_head := of_nat ((Suc ?h mod n + m) mod n), e_bar0 := e\<rparr>, w')"
      "rx_outcome addrs (mem w1) (mem w') ?base slots ?rest" "irqs w' = irqs w1" "sent w' = sent w1"
      "e = (if m = 0 then e_bar0 dev1 else poke (e_bar0 dev1) 0x2810 (le32 (of_nat ((Suc ?h mod n + m) mod n))))"
    by blast
  have hd: "(Suc ?h mod n + m) mod n = (?h + Suc m) mod n" by (simp add: mod_simps)
  have "e = poke (e_bar0 dev) 0x2810 (le32 (of_nat ((?h + Suc m) mod n)))"
  proof (cases "m = 0")
    case True
    have "ucast (rx_next dev) = (of_nat (Suc ?h mod n) :: u32)"
      using rx_next_ok(1) [OF Suc.prems(1)] by (metis of_nat_unat)
    with True 2(5) show ?thesis by (simp add: dev1_def)
  qed (use 2(5) hd in \<open>simp add: dev1_def poke_poke\<close>)
  moreover have "rx_outcome addrs (mem w) (mem w') ?base (?h # slots) pkt"
    using rx_outcome_step [OF ok refl 1(2) 1(3,4) [unfolded d_def] 2(2)] addrs_ok(2) by (metis set_take_subset)
  ultimately show ?case
    unfolding sl 1(1) dev1_def [symmetric] 2(1) hd
    using 2(3,4) 1(5,6) by (intro exI [of _ e] exI [of _ w']) (simp add: dev1_def)
qed

text \<open>A packet the filter lets through, when the ring has room for it.\<close>

lemma rx_packet_ok:
  assumes "14 \<le> length pkt" "e1000_rx_filter dev pkt" "m = (length pkt + RX_DESC_BUF_SIZE - 1) div RX_DESC_BUF_SIZE"
    and "rx_dev_ok dev n (m + g)" "rx_ring_ok addrs good (mem w) (rx_ring_addr dev) (ring_slots n (unat (rx_head dev)) m)"
  shows "\<exists>dev' w'. rx_packet H pkt dev w = Some (dev', w') \<and>
    rx_outcome addrs (mem w) (mem w') (rx_ring_addr dev) (ring_slots n (unat (rx_head dev)) m) pkt \<and>
    unat (rx_head dev') = (unat (rx_head dev) + m) mod n \<and> reg_get 0x2810 dev' = ucast (rx_head dev') \<and>
    irqs w' = irqs w + 1 \<and> icr_shadow dev' = icr_shadow dev OR E1000_ICR_RXT0 \<and>
    reg_get 0xC0 dev' = icr_shadow dev' \<and> sent w' = sent w"
proof -
  have m: "length pkt \<le> m * RX_DESC_BUF_SIZE" "(m - 1) * RX_DESC_BUF_SIZE < length pkt \<or> m = 0" "0 < m"
    using assms(1) unfolding assms(3) RX_DESC_BUF_SIZE_def by linarith+
  have n: "0 < n" "rx_ring_size dev \<noteq> 0" "n \<le> 65536" using assms(4) by (auto simp: rx_dev_ok_def)
  define h where "h = (unat (rx_head dev) + m) mod n"
  have "h < 65536" unfolding h_def using n by (meson mod_less_divisor order_less_le_trans)
  then have h: "unat (of_nat h :: u16) = h" by (simp add: unsigned_of_nat take_bit_nat_eq_self)
  from rx_store_ok [OF assms(4) m(1,2) assms(5)] m(3) obtain e w1 where
    1: "rx_store H pkt dev w = Some (dev\<lparr>rx_head := of_nat h, e_bar0 := e\<rparr>, w1)"
      "rx_outcome addrs (mem w) (mem w1) (rx_ring_addr dev) (ring_slots n (unat (rx_head dev)) m) pkt"
      "irqs w1 = irqs w" "sent w1 = sent w" "e = poke (e_bar0 dev) 0x2810 (le32 (of_nat h))" by (auto simp: h_def)
  let ?c = "icr_shadow dev OR E1000_ICR_RXT0"
  define dev' where "dev' = dev\<lparr>rx_head := of_nat h, icr_shadow := ?c, e_bar0 := poke e 0xC0 (le32 ?c)\<rparr>"
  have "get32 (poke e 0xC0 (le32 ?c)) 0x2810 = get32 e 0x2810" by (simp add: get32_def poke_def)
  moreover have "get32 e 0x2810 = of_nat h" by (simp add: 1(5) get32_poke_le32)
  moreover have "ucast (of_nat h :: u16) = (of_nat h :: u32)" using h by (metis of_nat_unat)
  ultimately have "reg_get 0x2810 dev' = ucast (rx_head dev')" by (simp add: reg_get_def dev'_def)
  moreover have "rx_packet H pkt dev w = Some (dev', card_irq H w1)"
    using assms(1,2) n(2) 1(1) by (simp add: rx_packet_def raise_cause_def reg_put_def dev'_def Let_def)
  ultimately show ?thesis
    using 1(2-4) h by (intro exI [of _ dev'] exI [of _ "card_irq H w1"])
      (simp add: dev'_def reg_get_def get32_poke_le32 irq_ok h_def)
qed

end

text \<open>
  A write of the receive tail also moves the card's head there, so that the card fills from the tail
  on and takes the whole ring but one descriptor to be free.
\<close>

lemma rx_tail_write:
  assumes "ev_bar ev = 0" "ev_offset ev = 0x2818" "ev_size ev = 4"
    and "rx_ring_size dev = n" "n \<le> 65536" "unat (ucast (ev_data ev) :: u16) < n"
  shows "\<exists>e. e1000_handle_write H ev dev w =
      Some (dev\<lparr>rx_tail := ucast (ev_data ev), rx_head := ucast (ev_data ev), e_bar0 := e\<rparr>, w) \<and>
    rx_dev_ok (dev\<lparr>rx_tail := ucast (ev_data ev), rx_head := ucast (ev_data ev), e_bar0 := e\<rparr>) n (n - 1)"
proof -
  let ?t = "ucast (ev_data ev) :: u16"
  have "rx_dev_ok (dev\<lparr>rx_tail := ?t, rx_head := ?t, e_bar0 := e\<rparr>) n (n - 1)" for e
    using assms(4-6) by (simp add: rx_dev_ok_def rx_ring_size_def)
  moreover have "e1000_handle_write H ev dev w = Some (reg_put 0x2818 (ucast (ev_data ev))
      (reg_put 0x2810 (ucast ?t) (dev\<lparr>rx_tail := ?t, rx_head := ?t\<rparr>)), w)"
    using assms(1-3) e1000_keep4 [of ev "ucast (ev_data ev)"]
    by (simp add: e1000_write4 e1000_write_val_def Let_def low_word E1000_BAR_SIZE_def)
  ultimately show ?thesis
    by (intro exI [of _ "poke (poke (e_bar0 dev) 0x2810 (le32 (ucast ?t))) 0x2818 (le32 (ucast (ev_data ev)))"])
      (simp add: reg_put_def)
qed

end
