(* ===== verification/E1000Host.thy ===== *)
theory E1000Host
  imports E1000Rx
begin

text \<open>
  The e1000 card over the DMA ioctl: the properties of the two rings, and a small ring at work.
\<close>

subsection \<open>Properties\<close>

text \<open>
  C5. Transmission. When the driver moves the tail over \<open>k\<close> descriptors that lie in mapped memory and do
  not overlap, the handler returns; the socket has been given exactly the frames the descriptors
  describe, in their order (each made of the data up to a descriptor that ends a packet, what does not
  fit in 16384 bytes left out), an unfinished packet is kept for the next time, every descriptor is
  marked done and no other byte of guest memory has changed, head and head register are at the tail,
  and there is one interrupt, with its cause, when a descriptor asked for a report and none otherwise.
\<close>

theorem e1000_transmits:
  assumes "H = card_ioctl_host env uenv buf_at"
    and "ev_bar ev = 0" "ev_offset ev = 0x3818" "ev_size ev = 4" "t = ucast (ev_data ev)"
    and "tx_dev_ok (dev\<lparr>tx_tail := t\<rparr>) n k" "slots = ring_slots n (unat (tx_head dev)) k"
    and "tx_ring_ok (dma_addrs env) (card_good env uenv buf_at) (gmem (card_dma w)) (tx_ring_addr dev) slots"
    and "ds = map (tx_desc_at (dma_addrs env) (gmem (card_dma w)) (tx_ring_addr dev)) slots"
    and "(frames, rest) = tx_frames (dma_addrs env) (gmem (card_dma w)) (tx_pending dev) ds"
  shows "\<exists>dev' w'. e1000_handle_write H ev dev w = Some (dev', w') \<and>
    card_sent w' = card_sent w @ frames \<and> tx_pending dev' = rest \<and>
    tx_head dev' = t \<and> (0 < k \<longrightarrow> reg_get 0x3810 dev' = ucast t) \<and>
    card_irqs w' = card_irqs w + (if list_ex tx_reports ds then 1 else 0) \<and>
    icr_shadow dev' = icr_shadow dev OR (if list_ex tx_reports ds then E1000_ICR_TXDW else 0) \<and>
    (list_ex tx_reports ds \<longrightarrow> reg_get 0xC0 dev' = icr_shadow dev') \<and>
    tx_outcome (dma_addrs env) (gmem (card_dma w)) (gmem (card_dma w')) (tx_ring_addr dev) slots"
  using host.tail_write_ok [OF assms(2-5) refl assms(6), of env uenv buf_at w] assms(7-10)
  unfolding assms(1) by (metis fst_conv snd_conv)

text \<open>
  C6. Reception. After the driver has written a tail \<open>t\<close>, a packet the filter lets through is put into the
  descriptors from \<open>t\<close> on, \<open>m\<close> of them by its length; a driver that walks the ring from there finds the
  packet, all of it and nothing else, and no other memory of the guest has changed; the head register
  follows, and there is one interrupt with the cause RXT0.
\<close>

theorem e1000_receives:
  assumes "H = card_ioctl_host env uenv buf_at"
    and "ev_bar ev = 0" "ev_offset ev = 0x2818" "ev_size ev = 4" "t = (ucast (ev_data ev) :: u16)"
    and "rx_ring_size dev = n" "n \<le> 65536" "unat t < n"
    and "14 \<le> length pkt" "e1000_rx_filter dev pkt" "m = (length pkt + 2047) div 2048" "m < n"
    and "slots = ring_slots n (unat t) m"
    and "rx_ring_ok (dma_addrs env) (card_good env uenv buf_at) (gmem (card_dma w)) (rx_ring_addr dev) slots"
  shows "\<exists>dev1 dev2 w2. e1000_handle_write H ev dev w = Some (dev1, w) \<and> rx_packet H pkt dev1 w = Some (dev2, w2) \<and>
    rx_frame (dma_addrs env) (gmem (card_dma w2)) (rx_ring_addr dev) slots = Some pkt \<and>
    (\<forall>a. (\<forall>i\<in>set slots. a \<notin> set (rx_region (dma_addrs env) (gmem (card_dma w)) (rx_ring_addr dev) i)) \<longrightarrow>
      gmem (card_dma w2) a = gmem (card_dma w) a) \<and>
    unat (rx_head dev2) = (unat t + m) mod n \<and> reg_get 0x2810 dev2 = ucast (rx_head dev2) \<and>
    card_irqs w2 = card_irqs w + 1 \<and> icr_shadow dev2 = icr_shadow dev OR E1000_ICR_RXT0 \<and> reg_get 0xC0 dev2 = icr_shadow dev2"
proof -
  from rx_tail_write [OF assms(2-4,6,7), of H w] assms(5,8) obtain e where
    1: "e1000_handle_write H ev dev w = Some (dev\<lparr>rx_tail := t, rx_head := t, e_bar0 := e\<rparr>, w)"
      "rx_dev_ok (dev\<lparr>rx_tail := t, rx_head := t, e_bar0 := e\<rparr>) n (n - 1)" by auto
  define dev1 where "dev1 = dev\<lparr>rx_tail := t, rx_head := t, e_bar0 := e\<rparr>"
  have same: "rx_ring_addr dev1 = rx_ring_addr dev" "rx_head dev1 = t" "icr_shadow dev1 = icr_shadow dev"
    by (simp_all add: dev1_def)
  have "e1000_rx_filter dev1 pkt" using assms(10) by (simp add: dev1_def e1000_rx_filter_def)
  moreover have "m = (length pkt + RX_DESC_BUF_SIZE - 1) div RX_DESC_BUF_SIZE" using assms(11) by (simp add: RX_DESC_BUF_SIZE_def)
  moreover have "rx_dev_ok dev1 n (m + (n - 1 - m))" using 1(2) assms(12) by (simp add: dev1_def)
  ultimately obtain dev2 w2 where
    2: "rx_packet H pkt dev1 w = Some (dev2, w2)"
      "rx_outcome (dma_addrs env) (gmem (card_dma w)) (gmem (card_dma w2)) (rx_ring_addr dev) slots pkt"
      "unat (rx_head dev2) = (unat t + m) mod n" "reg_get 0x2810 dev2 = ucast (rx_head dev2)"
      "card_irqs w2 = card_irqs w + 1" "icr_shadow dev2 = icr_shadow dev OR E1000_ICR_RXT0" "reg_get 0xC0 dev2 = icr_shadow dev2"
    using host.rx_packet_ok [of pkt dev1 m n "n - 1 - m" env uenv buf_at w] assms(9,13,14) unfolding same assms(1) by blast
  moreover have "pkt \<noteq> []" using assms(9) by auto
  ultimately show ?thesis using 1(1) unfolding rx_outcome_def dev1_def by blast
qed

subsection \<open>A ring at work\<close>

text \<open>
  A guest with one descriptor at 0x1000 (two bytes at 0x2000, end of packet, report asked for), a ring of
  receive descriptors at 0x4000 whose first has the buffer 0x6000, and a card that knows both.
\<close>

definition e1000_guest :: "u64 \<Rightarrow> u8" where
  "e1000_guest a = (if a = 0x1001 then 0x20 else if a = 0x1008 then 2 else if a = 0x100B then 9
     else if a = 0x2000 then 0xAB else if a = 0x2001 then 0xCD else if a = 0x4001 then 0x60 else 0)"

definition e1000_world0 :: card_world where
  "e1000_world0 = \<lparr>card_dma = \<lparr>gmem = e1000_guest, umem = (\<lambda>_. 0), kbufs = 0\<rparr>, card_sent = [], card_irqs = 0\<rparr>"

definition e1000_card0 :: e1000_device where
  "e1000_card0 = (e1000_power_up [0x52, 0x54, 0, 0x12, 0x34, 0x56] (\<lambda>_. 0))
     \<lparr>tx_ring_addr := 0x1000, tx_ring_len := 32, rx_ring_addr := 0x4000, rx_ring_len := 64\<rparr>"

definition card_event :: "u64 \<Rightarrow> u64 \<Rightarrow> event" where
  "card_event off v = \<lparr>ev_seq = 0, ev_type = 2, ev_bar = 0, ev_offset = off, ev_size = 4, ev_data = v, ev_timestamp = 0\<rparr>"

lemma e1000_card0_simps [simp]:
  "tx_ring_addr e1000_card0 = 0x1000" "tx_ring_len e1000_card0 = 32" "rx_ring_addr e1000_card0 = 0x4000"
  "rx_ring_len e1000_card0 = 64" "tx_head e1000_card0 = 0" "pkt_len e1000_card0 = 0" "icr_shadow e1000_card0 = 0"
  by (simp_all add: e1000_card0_def e1000_power_up_def reg_put_def)

lemma e1000_tx_desc0:
  "tx_desc_at (dma_addrs ram_env) e1000_guest 0x1000 0 =
     \<lparr>td_addr = 0x2000, td_length = 2, td_cso = 0, td_cmd = 9, td_status = 0, td_css = 0, td_special = 0\<rparr>"
  by (simp add: tx_desc_at_def slot_at_def ram_addrs upt_rec tx_desc_of_def e1000_guest_def Let_def bytes_of_def of_le_def get16_def)

theorem e1000_transmits_witness:
  "\<exists>dev' w'. e1000_handle_write (card_ioctl_host ram_env uenv0 0x100000) (card_event 0x3818 1) e1000_card0 e1000_world0 = Some (dev', w') \<and>
     card_sent w' = [[0xAB, 0xCD]] \<and> card_irqs w' = 1 \<and> icr_shadow dev' = 1"
proof -
  let ?A = "dma_addrs ram_env" and ?m = "gmem (card_dma e1000_world0)"
  let ?d = "\<lparr>td_addr = 0x2000, td_length = 2, td_cso = 0, td_cmd = 9, td_status = 0, td_css = 0, td_special = 0\<rparr>"
  have m: "?m = e1000_guest" by (simp add: e1000_world0_def)
  have sl: "ring_slots 2 (unat (tx_head e1000_card0)) 1 = [0]" by (simp add: ring_slots_def)
  have dis: "set (?A 0x1000 16) \<inter> set (?A 0x2000 2) = {}"
    using ram_range(2) [of "0x1000" 16] ram_range(2) [of "0x2000" 2] by (fastforce simp: disjoint_iff)
  have bits: "(9 :: u8) AND push_bit 5 1 = 0" "(9 :: u8) AND 1 = 1" "(9 :: u8) AND push_bit 3 1 \<noteq> 0" by simp_all
  have d: "tx_has_data ?d" "tx_eop ?d" "tx_reports ?d" "tx_data ?A e1000_guest ?d = [0xAB, 0xCD]"
    by (simp_all add: tx_has_data_def tx_eop_def tx_is_ctx_def tx_reports_def tx_data_def ram_addrs upt_rec e1000_guest_def)
  have ok: "tx_ring_ok ?A (card_good ram_env uenv0 0x100000) ?m (tx_ring_addr e1000_card0) [0]"
    using dis d(1) ram_range(1) [of "0x1000" 16]
    by (simp add: tx_ring_ok_def m e1000_tx_desc0 card_good0 slot_at_def)
  have fr: "([[0xAB, 0xCD]], []) = tx_frames ?A ?m (tx_pending e1000_card0) [?d]"
    using d by (simp add: m tx_pending_def bytes_of_def tx_join_def PKT_BUF_SIZE_def)
  have dv: "tx_dev_ok (e1000_card0\<lparr>tx_tail := 1\<rparr>) 2 1" by (simp add: tx_dev_ok_def PKT_BUF_SIZE_def)
  have ds: "[?d] = map (tx_desc_at ?A ?m (tx_ring_addr e1000_card0)) [0]" by (simp add: m e1000_tx_desc0)
  have "\<exists>dev' w'. e1000_handle_write (card_ioctl_host ram_env uenv0 0x100000) (card_event 0x3818 1) e1000_card0 e1000_world0 = Some (dev', w') \<and>
    card_sent w' = card_sent e1000_world0 @ [[0xAB, 0xCD]] \<and> tx_pending dev' = [] \<and>
    tx_head dev' = 1 \<and> (0 < (1 :: nat) \<longrightarrow> reg_get 0x3810 dev' = ucast (1 :: u16)) \<and>
    card_irqs w' = card_irqs e1000_world0 + (if list_ex tx_reports [?d] then 1 else 0) \<and>
    icr_shadow dev' = icr_shadow e1000_card0 OR (if list_ex tx_reports [?d] then E1000_ICR_TXDW else 0) \<and>
    (list_ex tx_reports [?d] \<longrightarrow> reg_get 0xC0 dev' = icr_shadow dev') \<and>
    tx_outcome ?A ?m (gmem (card_dma w')) (tx_ring_addr e1000_card0) [0]"
    by (rule e1000_transmits [OF refl _ _ _ _ dv sl [symmetric] ok ds fr]) (simp_all add: card_event_def)
  then show ?thesis using d(3) by (auto simp: e1000_world0_def E1000_ICR_TXDW_def)
qed

theorem e1000_receives_witness:
  "\<exists>dev1 dev2 w2. e1000_handle_write (card_ioctl_host ram_env uenv0 0x100000) (card_event 0x2818 0) e1000_card0 e1000_world0 = Some (dev1, e1000_world0) \<and>
     rx_packet (card_ioctl_host ram_env uenv0 0x100000) (replicate 60 0xFF) dev1 e1000_world0 = Some (dev2, w2) \<and>
     rx_frame (dma_addrs ram_env) (gmem (card_dma w2)) 0x4000 [0] = Some (replicate 60 0xFF) \<and> card_irqs w2 = 1"
proof -
  let ?A = "dma_addrs ram_env" and ?m = "gmem (card_dma e1000_world0)" and ?H = "card_ioctl_host ram_env uenv0 0x100000"
  let ?pkt = "replicate 60 (0xFF :: u8)"
  have m: "?m = e1000_guest" by (simp add: e1000_world0_def)
  have a: "rd_addr (rx_desc_at ?A e1000_guest 0x4000 0) = 0x6000"
    by (simp add: rx_desc_at_def slot_at_def ram_addrs upt_rec rx_desc_of_def e1000_guest_def Let_def bytes_of_def of_le_def)
  have dis: "set (?A 0x4000 16) \<inter> set (?A 0x6000 2048) = {}"
    using ram_range(2) [of "0x4000" 16] ram_range(2) [of "0x6000" 2048] by (fastforce simp: disjoint_iff)
  have ok: "rx_ring_ok ?A (card_good ram_env uenv0 0x100000) ?m (rx_ring_addr e1000_card0) [0]"
    using dis ram_range(1) [of "0x4000" 16] ram_range(1) [of "0x6000" 2048]
    by (simp add: rx_ring_ok_def m a card_good0 slot_at_def rx_region_def RX_DESC_BUF_SIZE_def)
  have n: "rx_ring_size e1000_card0 = 4" by (simp add: rx_ring_size_def)
  have sl: "ring_slots 4 (unat (0 :: u16)) 1 = [0]" by (simp add: ring_slots_def)
  have f: "e1000_rx_filter e1000_card0 ?pkt" by (simp add: e1000_rx_filter_def)
  have "\<exists>dev1 dev2 w2. e1000_handle_write ?H (card_event 0x2818 0) e1000_card0 e1000_world0 = Some (dev1, e1000_world0) \<and>
    rx_packet ?H ?pkt dev1 e1000_world0 = Some (dev2, w2) \<and>
    rx_frame ?A (gmem (card_dma w2)) (rx_ring_addr e1000_card0) [0] = Some ?pkt \<and>
    (\<forall>a. (\<forall>i\<in>set [0]. a \<notin> set (rx_region ?A ?m (rx_ring_addr e1000_card0) i)) \<longrightarrow> gmem (card_dma w2) a = ?m a) \<and>
    unat (rx_head dev2) = (unat (0 :: u16) + 1) mod 4 \<and> reg_get 0x2810 dev2 = ucast (rx_head dev2) \<and>
    card_irqs w2 = card_irqs e1000_world0 + 1 \<and> icr_shadow dev2 = icr_shadow e1000_card0 OR E1000_ICR_RXT0 \<and> reg_get 0xC0 dev2 = icr_shadow dev2"
    by (rule e1000_receives [OF refl _ _ _ _ n _ _ _ f _ _ sl [symmetric] ok]) (simp_all add: card_event_def)
  then show ?thesis by (auto simp: e1000_world0_def)
qed

text \<open>
  A cause that is raised after the driver has loaded ICR and before the event of that load is served is
  lost: the event clears the shadow and the register, whatever they hold by then, and the driver has
  loaded the value from before.
\<close>

theorem icr_read_loses_cause:
  assumes "ev_bar ev = 0" "ev_offset ev = 0xC0"
  shows "reg_get 0xC0 (e1000_handle_read ev (fst (raise_cause H c dev w))) = 0 \<and>
    icr_shadow (e1000_handle_read ev (fst (raise_cause H c dev w))) = 0"
  using assms by (simp add: e1000_handle_read_def raise_cause_def Let_def reg_get_def reg_put_def get32_poke_le32)

text \<open>A ring without room drops the packet; the driver is interrupted all the same.\<close>

theorem full_ring_interrupts:
  assumes "14 \<le> length pkt" "e1000_rx_filter dev pkt" "rx_ring_size dev \<noteq> 0" "rx_next dev = rx_tail dev"
  shows "rx_packet H pkt dev w = Some (raise_cause H E1000_ICR_RXT0 dev w)"
  using assms by (simp add: rx_packet_def rx_store.simps)

text \<open>The event thread hands the card the queued events in their order and leaves the ring empty.\<close>

theorem e1000_drain_in_order:
  assumes "ring_ok r"
  shows "\<exists>r'. ring_content r' = [] \<and> e1000_drain H r dev w =
    map_option (Pair r') (card_events (\<lambda>ev (dev, w). e1000_event H ev dev w) (ring_content r) (dev, w))"
  using ring_drain_all [OF assms, of "\<lambda>ev (dev, w). e1000_event H ev dev w"] unfolding e1000_drain_def by blast

end
