(* ===== verification/Hda.thy ===== *)
theory Hda
  imports CardHost
begin

text \<open>
  The sound card of \<^verbatim>\<open>examples/hda/hda_card.c\<close>: an Intel HDA controller with one codec. Commands come in a
  ring in guest memory (CORB) and their answers go to another (RIRB); an output stream plays buffers of
  guest memory listed in a buffer descriptor list. What the card calls is a \<open>card_host\<close>, whose output is
  the sound; the clock and PipeWire are arguments. Writes to BAR 0 do not reach its memory but only the
  card, which stores what the register is to hold. \<open>None\<close> is an execution that does not return or has no
  defined behaviour.
\<close>

subsection \<open>State\<close>

definition HDA_MAX_BDL :: nat where "HDA_MAX_BDL = 256"
definition HDA_NUM_OSS :: nat where "HDA_NUM_OSS = 2"
definition HDA_BAR_SIZE :: nat where "HDA_BAR_SIZE = 0x4000"
definition HDA_MAX_BUF :: nat where "HDA_MAX_BUF = 256 * 1024"
definition HDA_PW_RING_SIZE :: u32 where "HDA_PW_RING_SIZE = push_bit 18 1"
definition HDA_SDBASE :: "nat \<Rightarrow> nat" where "HDA_SDBASE n = 0x80 + n * 0x20"

record hda_bdl_entry =
  be_addr :: u64
  be_length :: u32
  be_flags :: u32

record hda_stream =
  s_running :: bool
  s_cbl :: u32
  s_lvi :: u16
  s_fmt :: u16
  s_bdl_addr :: u64
  s_bdl :: "nat \<Rightarrow> hda_bdl_entry"
  s_lpib :: u32
  s_cur_idx :: u8
  s_bytes_since_irq :: u32
  s_period_bytes :: u32
  s_walclk :: u64
  s_deadline :: "int \<times> int"

record hda_state =
  h_bar0 :: bytes
  corb_addr :: u64
  corb_rp :: u16
  corb_size :: u16
  rirb_addr :: u64
  rirb_wp :: u16
  rirb_size :: u16
  rirb_count :: u8
  dpl_addr :: u64
  h_out :: "nat \<Rightarrow> hda_stream"
  pw_loop :: bool
  pw_stream :: bool
  pw_stride :: nat

text \<open>The clock, whether PipeWire gives a loop and a stream, and how much of its ring is filled.\<close>

record 'w hda_env =
  hv_now :: "'w \<Rightarrow> int \<times> int"
  hv_loop :: "'w \<Rightarrow> bool"
  hv_stream :: "'w \<Rightarrow> bool"
  hv_filled :: "'w \<Rightarrow> u32"

subsection \<open>Registers\<close>

definition br8 :: "nat \<Rightarrow> hda_state \<Rightarrow> u8" where "br8 off h = h_bar0 h off"
definition br16 :: "nat \<Rightarrow> hda_state \<Rightarrow> u16" where "br16 off h = get16 (h_bar0 h) off"
definition br32 :: "nat \<Rightarrow> hda_state \<Rightarrow> u32" where "br32 off h = get32 (h_bar0 h) off"

definition bw8 :: "nat \<Rightarrow> u8 \<Rightarrow> hda_state \<Rightarrow> hda_state" where "bw8 off v h = h\<lparr>h_bar0 := poke (h_bar0 h) off [v]\<rparr>"
definition bw16 :: "nat \<Rightarrow> u16 \<Rightarrow> hda_state \<Rightarrow> hda_state" where "bw16 off v h = h\<lparr>h_bar0 := poke (h_bar0 h) off (le16 v)\<rparr>"
definition bw32 :: "nat \<Rightarrow> u32 \<Rightarrow> hda_state \<Rightarrow> hda_state" where "bw32 off v h = h\<lparr>h_bar0 := poke (h_bar0 h) off (le32 v)\<rparr>"

text \<open>A store of the size of the access, wherever in the mapped BAR it goes.\<close>

definition bwn :: "nat \<Rightarrow> u32 \<Rightarrow> u32 \<Rightarrow> hda_state \<Rightarrow> hda_state option" where
  "bwn off val sz h =
     (let store = (\<lambda>bs. map_option (\<lambda>b. h\<lparr>h_bar0 := b\<rparr>) (store_bytes HDA_BAR_SIZE (h_bar0 h) off bs)) in
      if sz = 1 then store [ucast val] else if sz = 2 then store (le16 (ucast val)) else if sz = 4 then store (le32 val)
      else Some h)"

subsection \<open>The codec\<close>

definition codec_get_param :: "u8 \<Rightarrow> u8 \<Rightarrow> u32" where
  "codec_get_param nid param =
     (if nid = 0 then
        (if param = 0x00 then 0x80860000 else if param = 0x02 then 0x00100000 else if param = 0x04 then 0x00010001 else 0)
      else if nid = 1 then
        (if param = 0x00 then 0x80860000 else if param = 0x04 then 0x00020002 else if param = 0x05 then 0x00000001
         else if param = 0x08 then 0 else if param = 0x0A then 0x000A0060 else if param = 0x0B then 0x00000001
         else if param = 0x0D then 0 else if param = 0x12 then 0 else if param = 0x0F then 0x0000000F
         else if param = 0x11 then 0 else 0)
      else if nid = 2 then
        (if param = 0x09 then push_bit 20 0x0 OR push_bit 4 1 OR push_bit 2 1 OR 0x1 else if param = 0x0A then 0x000A0060
         else if param = 0x0B then 0x00000001 else if param = 0x0E then 0 else if param = 0x12 then push_bit 31 1
         else if param = 0x0F then 0x0000000F else 0)
      else if nid = 3 then
        (if param = 0x09 then push_bit 20 0x4 OR push_bit 8 1 OR 0x1 else if param = 0x0C then 0x00000018
         else if param = 0x0E then 0x00000001 else if param = 0x0D then 0 else if param = 0x12 then 0
         else if param = 0x0F then 0x0000000F else 0)
      else 0)"

definition hda_codec_verb :: "u8 \<Rightarrow> u16 \<Rightarrow> u8 \<Rightarrow> u32" where
  "hda_codec_verb nid verb payload =
     (let hi4 = drop_bit 8 verb AND 0xF in
      if hi4 = 0x2 \<or> hi4 = 0x3 then 0
      else if verb = 0xF00 then codec_get_param nid payload
      else if verb = 0xF01 then 0
      else if verb = 0xF02 then (if nid = 3 \<and> payload = 0 then 2 else 0)
      else if verb = 0xF07 then (if nid = 3 then 0x40 else 0)
      else if verb \<in> {0xF08, 0xF0D, 0xF0E, 0xF0F} then 0
      else if verb = 0xF09 then (if nid = 3 then 0x80000000 else 0)
      else if verb = 0xF0C then (if nid = 3 then 0x02 else 0)
      else if verb = 0xF1C then (if nid = 3 then 0x0221401f else 0)
      else if verb = 0xF12 then 0x80860000
      else 0)"

subsection \<open>Commands and answers\<close>

definition hda_fire_rirb_irq :: "'w card_host \<Rightarrow> hda_state \<Rightarrow> 'w \<Rightarrow> hda_state \<times> 'w" where
  "hda_fire_rirb_irq H h w =
     (let intctl = br32 0x20 h in
      if intctl AND push_bit 31 1 = 0 \<or> intctl AND push_bit 30 1 = 0 then (h, w)
      else
        (let h = bw8 0x5D (br8 0x5D h OR 1) h;
             h = bw32 0x24 (br32 0x24 h OR push_bit 30 1 OR push_bit 31 1) h
         in (h, card_irq H w)))"

text \<open>A command: the codec's address, the node, the verb and its payload; and the answer to it.\<close>

definition cmd_codec :: "u32 \<Rightarrow> u8" where "cmd_codec raw = ucast (drop_bit 28 raw) AND 0x0F"
definition cmd_nid :: "u32 \<Rightarrow> u8" where "cmd_nid raw = ucast (drop_bit 20 raw) AND 0x7F"
definition cmd_verb :: "u32 \<Rightarrow> u16" where "cmd_verb raw = ucast (drop_bit 8 raw) AND 0xFFF"
definition cmd_payload :: "u32 \<Rightarrow> u8" where "cmd_payload raw = ucast raw AND 0xFF"

definition hda_answer :: "u32 \<Rightarrow> u32" where
  "hda_answer raw = (if cmd_codec raw = 0 then hda_codec_verb (cmd_nid raw) (cmd_verb raw) (cmd_payload raw) else 0)"

text \<open>An entry of the answer ring: the 64-bit value with the codec's address in its upper half, little-endian.\<close>

definition rirb_bytes :: "u32 \<Rightarrow> u8 list" where
  "rirb_bytes raw = le32 (hda_answer raw) @ le32 (ucast (cmd_codec raw))"

text \<open>What follows an answer: both pointers, in the state and in their registers, and the count.\<close>

definition rirb_advance :: "'w card_host \<Rightarrow> u16 \<Rightarrow> u16 \<Rightarrow> hda_state \<Rightarrow> 'w \<Rightarrow> hda_state \<times> 'w" where
  "rirb_advance H next_rp next_wp h w =
     (let h = bw16 0x58 next_wp (h\<lparr>rirb_wp := next_wp\<rparr>);
          h = bw16 0x4A next_rp (h\<lparr>corb_rp := next_rp\<rparr>);
          h = h\<lparr>rirb_count := rirb_count h + 1\<rparr>
      in if rirb_count h > ucast (br16 0x5A h AND 0xFF) then
           (let h = h\<lparr>rirb_count := 0\<rparr> in if br8 0x5C h AND 1 \<noteq> 0 then hda_fire_rirb_irq H h w else (h, w))
         else (h, w))"

definition ring_step :: "u16 \<Rightarrow> u16 \<Rightarrow> u16" where
  "ring_step p n = of_nat ((unat p + 1) mod unat n)"

partial_function (option) corb_loop :: "'w card_host \<Rightarrow> u8 \<Rightarrow> u16 \<Rightarrow> u16 \<Rightarrow> hda_state \<Rightarrow> 'w \<Rightarrow> (hda_state \<times> 'w) option" where
  "corb_loop H corbwp corb_sz rirb_sz h w =
     (if corb_rp h = ucast corbwp then Some (h, w)
      else do {
        (r, w) \<leftarrow> card_read H (corb_addr h + ucast (ring_step (corb_rp h) corb_sz) * 4) 4 w;
        case r of
          None \<Rightarrow> Some (h, w)
        | Some bs \<Rightarrow> do {
            (ok, w) \<leftarrow> card_write H (rirb_addr h + ucast (ring_step (rirb_wp h) rirb_sz) * 8) (rirb_bytes (get32 ((!) bs) 0)) w;
            if \<not> ok then Some (h, w)
            else
              (let (h, w) = rirb_advance H (ring_step (corb_rp h) corb_sz) (ring_step (rirb_wp h) rirb_sz) h w
               in corb_loop H corbwp corb_sz rirb_sz h w) } })"

definition or_256 :: "u16 \<Rightarrow> u16" where
  "or_256 n = (if n \<noteq> 0 then n else 256)"

definition hda_process_corb :: "'w card_host \<Rightarrow> hda_state \<Rightarrow> 'w \<Rightarrow> (hda_state \<times> 'w) option" where
  "hda_process_corb H h w =
     (let corbwp = ucast (br16 0x48 h AND 0xFF); prev_wp = rirb_wp h in
      do {
        (h, w) \<leftarrow> corb_loop H corbwp (or_256 (corb_size h)) (or_256 (rirb_size h)) h w;
        Some (if rirb_wp h \<noteq> prev_wp \<and> br8 0x5C h AND 1 \<noteq> 0 then hda_fire_rirb_irq H h w else (h, w)) })"

subsection \<open>Sound\<close>

definition fmt_channels :: "u16 \<Rightarrow> nat" where "fmt_channels fmt = unat (fmt AND 0xF) + 1"

definition fmt_rate :: "u16 \<Rightarrow> nat" where
  "fmt_rate fmt =
     (let divi = unat (drop_bit 8 fmt AND 0x7) + 1; mult = unat (drop_bit 11 fmt AND 0x7) + 1;
          base_hz = (if fmt AND push_bit 14 1 \<noteq> 0 then 44100 else 48000)
      in base_hz * mult div divi)"

definition hda_fmt_bytes_per_sec :: "u16 \<Rightarrow> nat" where
  "hda_fmt_bytes_per_sec fmt =
     (let bits = [8, 16, 20, 24, 32, 16, 16, 16] ! unat (drop_bit 4 fmt AND 0x7)
      in fmt_rate fmt * fmt_channels fmt * (bits div 8))"

text \<open>Bytes per sample as PipeWire is told.\<close>

definition sample_bytes :: "u16 \<Rightarrow> nat" where
  "sample_bytes fmt =
     (let bits_f = drop_bit 4 fmt AND 0x7 in
      if bits_f = 0 then 1 else if bits_f = 1 then 2 else if bits_f = 2 \<or> bits_f = 3 then 3 else if bits_f = 4 then 4 else 2)"

definition hda_pw_setup :: "'w hda_env \<Rightarrow> u16 \<Rightarrow> hda_state \<Rightarrow> 'w \<Rightarrow> hda_state" where
  "hda_pw_setup V fmt h w =
     (let h = h\<lparr>pw_stride := sample_bytes fmt * fmt_channels fmt, pw_stream := False\<rparr> in
      if \<not> pw_loop h \<and> \<not> hv_loop V w then h
      else h\<lparr>pw_loop := True, pw_stream := hv_stream V w\<rparr>)"

text \<open>What does not fit in the ring of PipeWire is left out.\<close>

definition hda_pw_write :: "'w hda_env \<Rightarrow> 'w card_host \<Rightarrow> u8 list \<Rightarrow> hda_state \<Rightarrow> 'w \<Rightarrow> 'w" where
  "hda_pw_write V H buf h w =
     (if \<not> pw_stream h then w
      else (let to_write = min (length buf) (unat (HDA_PW_RING_SIZE - hv_filled V w))
            in if to_write = 0 then w else card_out H (take to_write buf) w))"

subsection \<open>Streams\<close>

definition upd_out :: "nat \<Rightarrow> (hda_stream \<Rightarrow> hda_stream) \<Rightarrow> hda_state \<Rightarrow> hda_state" where
  "upd_out i f h = h\<lparr>h_out := (h_out h)(i := f (h_out h i))\<rparr>"

definition hda_stream_stop :: "nat \<Rightarrow> hda_state \<Rightarrow> hda_state" where
  "hda_stream_stop i h = upd_out i (\<lambda>s. s\<lparr>s_running := False\<rparr>) h"

definition bdl_entry_of :: "u8 list \<Rightarrow> hda_bdl_entry" where
  "bdl_entry_of bs = \<lparr>be_addr = of_le (take 8 bs), be_length = get32 ((!) bs) 8, be_flags = get32 ((!) bs) 12\<rparr>"

text \<open>The list as it comes from guest memory, over what the array held.\<close>

definition load_bdl :: "nat \<Rightarrow> u8 list \<Rightarrow> (nat \<Rightarrow> hda_bdl_entry) \<Rightarrow> nat \<Rightarrow> hda_bdl_entry" where
  "load_bdl n bs bdl = (\<lambda>i. if i < n then bdl_entry_of (take 16 (drop (16 * i) bs)) else bdl i)"

definition stream_regs :: "nat \<Rightarrow> hda_state \<Rightarrow> hda_stream \<Rightarrow> hda_stream" where
  "stream_regs i h s =
     (let base = HDA_SDBASE i in
      s\<lparr>s_cbl := br32 (base + 0x08) h, s_lvi := br16 (base + 0x0C) h, s_fmt := br16 (base + 0x12) h,
        s_bdl_addr := ucast (br32 (base + 0x18) h) OR push_bit 32 (ucast (br32 (base + 0x1C) h))\<rparr>)"

definition stream_begin :: "int \<times> int \<Rightarrow> hda_stream \<Rightarrow> hda_stream" where
  "stream_begin now s =
     s\<lparr>s_lpib := 0, s_cur_idx := 0, s_bytes_since_irq := 0, s_walclk := 0,
       s_period_bytes := (if s_lvi s > 0 then s_cbl s div (ucast (s_lvi s) + 1) else s_cbl s), s_deadline := now, s_running := True\<rparr>"

definition hda_stream_start :: "'w hda_env \<Rightarrow> 'w card_host \<Rightarrow> nat \<Rightarrow> hda_state \<Rightarrow> 'w \<Rightarrow> (hda_state \<times> 'w) option" where
  "hda_stream_start V H i h w =
     (let h = upd_out i (stream_regs i h) h; s = h_out h i in
      if s_bdl_addr s = 0 \<or> s_cbl s = 0 \<or> unat (s_lvi s) \<ge> HDA_MAX_BDL then Some (h, w)
      else do {
        (r, w) \<leftarrow> card_read H (s_bdl_addr s) ((unat (s_lvi s) + 1) * 16) w;
        case r of
          None \<Rightarrow> Some (h, w)
        | Some bs \<Rightarrow>
            (let h = upd_out i (\<lambda>s. s\<lparr>s_bdl := load_bdl (unat (s_lvi s) + 1) bs (s_bdl s)\<rparr>) h;
                 h = hda_pw_setup V (s_fmt s) h w
             in Some (upd_out i (stream_begin (hv_now V w)) h, w)) })"

definition hda_write_lpib :: "'w card_host \<Rightarrow> nat \<Rightarrow> u32 \<Rightarrow> hda_state \<Rightarrow> 'w \<Rightarrow> (hda_state \<times> 'w) option" where
  "hda_write_lpib H i pos h w =
     (let h = bw32 (HDA_SDBASE i + 0x04) pos h in
      if dpl_addr h AND 1 \<noteq> 0 then
        do { (_, w) \<leftarrow> card_write H ((dpl_addr h AND NOT 1) + of_nat i * 8) (le32 pos) w; Some (h, w) }
      else Some (h, w))"

text \<open>
  The turns of \<open>stream_thread\<close> in the pieces between which it does not hold the lock: choose a stream and
  its entry; fetch the sound; move the position and the wall clock; the deadline; count the bytes, move to
  the next entry, and decide on the interrupt; raise it.
\<close>

definition stream_pick :: "hda_state \<Rightarrow> (nat \<times> hda_bdl_entry) option" where
  "stream_pick h =
     (case find (\<lambda>i. s_running (h_out h i)) [0..<HDA_NUM_OSS] of
        None \<Rightarrow> None
      | Some i \<Rightarrow> Some (i, s_bdl (h_out h i) (unat (s_cur_idx (h_out h i)))))"

definition stream_fetch :: "'w card_host \<Rightarrow> hda_bdl_entry \<Rightarrow> 'w \<Rightarrow> (u8 list option \<times> 'w) option" where
  "stream_fetch H e w = card_read H (be_addr e) (min (unat (be_length e)) HDA_MAX_BUF) w"

definition next_lpib :: "u32 \<Rightarrow> u32 \<Rightarrow> u32 \<Rightarrow> u32" where
  "next_lpib lpib len cbl = (let p = lpib + len in if p \<ge> cbl then p - cbl else p)"

definition stream_move :: "'w card_host \<Rightarrow> nat \<Rightarrow> hda_bdl_entry \<Rightarrow> hda_state \<Rightarrow> 'w \<Rightarrow> (hda_state \<times> 'w) option" where
  "stream_move H i e h w =
     (let s = h_out h i; pos = next_lpib (s_lpib s) (be_length e) (s_cbl s);
          h = upd_out i (\<lambda>s. s\<lparr>s_lpib := pos\<rparr>) h
      in do {
        (h, w) \<leftarrow> hda_write_lpib H i pos h w;
        let bps = hda_fmt_bytes_per_sec (s_fmt s);
        let clk = s_walclk s + of_nat (unat (be_length e) * 24000000 div bps);
        Some (if bps \<noteq> 0 then bw32 0x30 (ucast clk) (upd_out i (\<lambda>s. s\<lparr>s_walclk := clk\<rparr>) h) else h, w) })"

definition stream_pace :: "nat \<Rightarrow> hda_bdl_entry \<Rightarrow> hda_state \<Rightarrow> hda_state" where
  "stream_pace i e h =
     (let s = h_out h i; bps = hda_fmt_bytes_per_sec (s_fmt s) in
      if bps \<noteq> 0 \<and> s_running s then
        (let nsec = snd (s_deadline s) + int (unat (be_length e) * 1000000000 div bps)
         in upd_out i (\<lambda>s. s\<lparr>s_deadline := (fst (s_deadline s) + nsec div 1000000000, nsec mod 1000000000)\<rparr>) h)
      else h)"

definition stream_count :: "nat \<Rightarrow> hda_bdl_entry \<Rightarrow> hda_state \<Rightarrow> bool \<times> hda_state" where
  "stream_count i e h =
     (let s = h_out h i; n = s_bytes_since_irq s + be_length e;
          fire = (be_flags e AND 1 \<noteq> 0 \<and> br8 (HDA_SDBASE i) h AND 4 \<noteq> 0 \<and> n \<ge> s_period_bytes s)
      in (fire, upd_out i (\<lambda>s. s\<lparr>s_bytes_since_irq := (if fire then 0 else n),
                  s_cur_idx := (if ucast (s_cur_idx s) \<ge> s_lvi s then 0 else s_cur_idx s + 1)\<rparr>) h))"

definition stream_irq :: "'w card_host \<Rightarrow> nat \<Rightarrow> hda_state \<Rightarrow> 'w \<Rightarrow> hda_state \<times> 'w" where
  "stream_irq H i h w =
     (let sts = br8 (HDA_SDBASE i + 0x03) h; intsts = br32 0x24 h; intctl = br32 0x20 h;
          h = bw8 (HDA_SDBASE i + 0x03) (sts OR 4) h
      in if intctl AND push_bit 31 1 \<noteq> 0 \<and> intctl AND push_bit i 1 \<noteq> 0
         then (bw32 0x24 (intsts OR push_bit 31 1 OR push_bit i 1) h, card_irq H w) else (h, w))"

text \<open>A turn that nothing interrupts; without a running stream the thread waits.\<close>

definition stream_turn :: "'w hda_env \<Rightarrow> 'w card_host \<Rightarrow> hda_state \<Rightarrow> 'w \<Rightarrow> (hda_state \<times> 'w) option" where
  "stream_turn V H h w =
     (case stream_pick h of
        None \<Rightarrow> Some (h, w)
      | Some (i, e) \<Rightarrow> do {
          (r, w) \<leftarrow> stream_fetch H e w;
          (h, w) \<leftarrow> stream_move H i e h w;
          let w = (case r of None \<Rightarrow> w | Some bs \<Rightarrow> hda_pw_write V H bs h w);
          let (fire, h) = stream_count i e (stream_pace i e h);
          Some (if fire then stream_irq H i h w else (h, w)) })"

subsection \<open>Writes of the driver\<close>

definition hda_reset :: "hda_state \<Rightarrow> hda_state" where
  "hda_reset h =
     (let h = bw16 0x0E 0 (bw32 0x08 0 h);
          h = fold hda_stream_stop [0..<HDA_NUM_OSS] h;
          h = h\<lparr>corb_rp := 0, rirb_wp := 0, rirb_count := 0\<rparr>
      in bw16 0x58 0 (bw16 0x4A 0 h))"

definition size_code :: "u32 \<Rightarrow> u16" where
  "size_code v = (if v AND 3 = 2 then 256 else [2, 16, 0, 0] ! unat (v AND 3))"

definition low_half :: "u64 \<Rightarrow> u32 \<Rightarrow> u64" where "low_half a v = (a AND 0xFFFFFFFF00000000) OR ucast v"
definition high_half :: "u64 \<Rightarrow> u32 \<Rightarrow> u64" where "high_half a v = (a AND 0x00000000FFFFFFFF) OR push_bit 32 (ucast v)"

text \<open>The control register of a stream: reset, or up to four bytes and a start or stop.\<close>

definition sd_control :: "'w hda_env \<Rightarrow> 'w card_host \<Rightarrow> nat \<Rightarrow> u32 \<Rightarrow> u32 \<Rightarrow> hda_state \<Rightarrow> 'w \<Rightarrow> (hda_state \<times> 'w) option" where
  "sd_control V H i val sz h w =
     (let base = HDA_SDBASE i; old_ctl = br8 base h; new_ctl = ucast val :: u8;
          old_run = (old_ctl AND 2 \<noteq> 0); new_run = (new_ctl AND 2 \<noteq> 0)
      in if new_ctl AND 1 \<noteq> 0 then do {
           (h, w) \<leftarrow> hda_write_lpib H i 0 (hda_stream_stop i h) w;
           Some (bw8 (base + 0x03) 0x20 (bw8 base (new_ctl AND NOT 1) h), w) }
         else
           (let h = bw8 base new_ctl h;
                h = (if sz \<ge> 2 then bw8 (base + 0x01) (ucast (drop_bit 8 val AND 0xff)) h else h);
                h = (if sz \<ge> 3 then bw8 (base + 0x02) (ucast (drop_bit 16 val AND 0xff)) h else h);
                h = (if sz \<ge> 4 then bw8 (base + 0x03) (br8 (base + 0x03) h AND NOT (ucast (drop_bit 24 val AND 0xff))) h else h)
            in if new_run \<and> \<not> old_run then hda_stream_start V H i h w
               else Some (if \<not> new_run \<and> old_run then hda_stream_stop i h else h, w)))"

definition sd_write :: "'w hda_env \<Rightarrow> 'w card_host \<Rightarrow> nat \<Rightarrow> u32 \<Rightarrow> u32 \<Rightarrow> hda_state \<Rightarrow> 'w \<Rightarrow> (hda_state \<times> 'w) option" where
  "sd_write V H off val sz h w =
     (let i = (off - 0x80) div 0x20; sd_off = (off - 0x80) mod 0x20 in
      if sd_off = 0x03 then Some (bw8 (HDA_SDBASE i + 0x03) (br8 (HDA_SDBASE i + 0x03) h AND NOT (ucast val)) h, w)
      else if sd_off = 0x00 then sd_control V H i val sz h w
      else map_option (\<lambda>h. (h, w)) (bwn off val sz h))"

definition hda_write_val :: "'w hda_env \<Rightarrow> 'w card_host \<Rightarrow> nat \<Rightarrow> u32 \<Rightarrow> u32 \<Rightarrow> hda_state \<Rightarrow> 'w \<Rightarrow> (hda_state \<times> 'w) option" where
  "hda_write_val V H off val sz h w =
     (if off = 0x08 then Some (if val AND 1 \<noteq> 0 then bw16 0x0E 1 (bw32 0x08 val h) else hda_reset h, w)
      else if off = 0x0E then Some (bw16 0x0E (br16 0x0E h AND NOT (ucast val)) h, w)
      else if off = 0x20 then Some (bw32 0x20 val h, w)
      else if off = 0x24 then Some (bw32 0x24 (br32 0x24 h AND NOT val) h, w)
      else if off = 0x40 then Some (bw32 off val (h\<lparr>corb_addr := low_half (corb_addr h) val\<rparr>), w)
      else if off = 0x44 then Some (bw32 off val (h\<lparr>corb_addr := high_half (corb_addr h) val\<rparr>), w)
      else if off = 0x4E then
        Some (bw8 0x4E ((br8 0x4E h AND 0xF0) OR (ucast val AND 3)) (h\<lparr>corb_size := size_code val\<rparr>), w)
      else if off = 0x4A then
        Some (if val AND push_bit 15 1 \<noteq> 0 then bw16 0x4A (push_bit 15 1) (h\<lparr>corb_rp := 0\<rparr>) else bw16 0x4A 0 h, w)
      else if off = 0x4C then
        (let h = bw8 0x4C (ucast val) h in if val AND 2 \<noteq> 0 then hda_process_corb H h w else Some (h, w))
      else if off = 0x48 then
        (let h = bw16 0x48 (ucast val AND 0xFF) h in if br8 0x4C h AND 2 \<noteq> 0 then hda_process_corb H h w else Some (h, w))
      else if off = 0x50 then Some (bw32 off val (h\<lparr>rirb_addr := low_half (rirb_addr h) val\<rparr>), w)
      else if off = 0x54 then Some (bw32 off val (h\<lparr>rirb_addr := high_half (rirb_addr h) val\<rparr>), w)
      else if off = 0x5E then
        Some (bw8 0x5E ((br8 0x5E h AND 0xF0) OR (ucast val AND 3)) (h\<lparr>rirb_size := size_code val\<rparr>), w)
      else if off = 0x58 then Some (if val AND push_bit 15 1 \<noteq> 0 then bw16 0x58 0 (h\<lparr>rirb_wp := 0\<rparr>) else h, w)
      else if off = 0x5C then Some (bw8 0x5C (ucast val) h, w)
      else if off = 0x5D then Some (bw8 0x5D (br8 0x5D h AND NOT (ucast val)) h, w)
      else if off = 0x5A then Some (bw16 0x5A (ucast val AND 0xFF) h, w)
      else if off = 0x70 then Some (bw32 off val (h\<lparr>dpl_addr := low_half (dpl_addr h) val\<rparr>), w)
      else if off = 0x74 then Some (bw32 off val (h\<lparr>dpl_addr := high_half (dpl_addr h) val\<rparr>), w)
      else if off \<ge> 0x80 \<and> off < 0x80 + HDA_NUM_OSS * 0x20 then sd_write V H off val sz h w
      else map_option (\<lambda>h. (h, w)) (bwn off val sz h))"

text \<open>The value of the event; a shift by 64 or more has no defined result.\<close>

definition hda_handle_write :: "'w hda_env \<Rightarrow> 'w card_host \<Rightarrow> event \<Rightarrow> hda_state \<Rightarrow> 'w \<Rightarrow> (hda_state \<times> 'w) option" where
  "hda_handle_write V H ev h w =
     (if ev_bar ev \<noteq> 0 then Some (h, w)
      else if unat (ev_size ev * 8) \<ge> 64 then None
      else hda_write_val V H (unat (ucast (ev_offset ev) :: u32)) (ucast (ev_data ev AND (push_bit (unat (ev_size ev * 8)) 1 - 1)))
             (ev_size ev) h w)"

definition hda_event :: "'w hda_env \<Rightarrow> 'w card_host \<Rightarrow> event \<Rightarrow> hda_state \<Rightarrow> 'w \<Rightarrow> (hda_state \<times> 'w) option" where
  "hda_event V H ev h w = (if ev_type ev = 2 then hda_handle_write V H ev h w else Some (h, w))"

definition hda_drain :: "'w hda_env \<Rightarrow> 'w card_host \<Rightarrow> shared_ring \<Rightarrow> hda_state \<Rightarrow> 'w \<Rightarrow> (shared_ring \<times> hda_state \<times> 'w) option" where
  "hda_drain V H r h w = ring_drain (\<lambda>ev (h, w). hda_event V H ev h w) (ring_head r) r (h, w)"

definition hda_setup_shadow_regs :: "hda_state \<Rightarrow> hda_state" where
  "hda_setup_shadow_regs h =
     (let h = bw8 0x02 0x00 (bw8 0x03 0x01 (bw16 0x00 (push_bit 12 2 OR push_bit 8 0 OR push_bit 3 0 OR push_bit 0 1) h));
          h = bw16 0x06 0x001A (bw16 0x04 0x003C h);
          h = bw8 0x5E 0x40 (bw8 0x4E 0x40 h)
      in fold (\<lambda>i h. bw8 (HDA_SDBASE i + 0x03) 0x20 (bw16 (HDA_SDBASE i + 0x10) 0x0100 h)) [0..<HDA_NUM_OSS] h)"

end
