(* ===== verification/HdaRings.thy ===== *)
theory HdaRings
  imports Hda
begin

text \<open>
  The command and answer rings of the sound card: every pending command is answered in its turn, at the
  next place of the answer ring, and nothing else in guest memory changes.
\<close>

subsection \<open>What the rings mean\<close>

definition corb_at :: "u64 \<Rightarrow> nat \<Rightarrow> u64" where "corb_at base i = base + of_nat i * 4"
definition rirb_at :: "u64 \<Rightarrow> nat \<Rightarrow> u64" where "rirb_at base i = base + of_nat i * 8"

definition command_at :: "(u64 \<Rightarrow> nat \<Rightarrow> u64 list) \<Rightarrow> (u64 \<Rightarrow> u8) \<Rightarrow> u64 \<Rightarrow> nat \<Rightarrow> u32" where
  "command_at addrs m base i = get32 ((!) (map m (addrs (corb_at base i) 4))) 0"

text \<open>The places lie in memory the card can reach, and those of the answers overlap nothing.\<close>

definition hda_rings_ok ::
    "(u64 \<Rightarrow> nat \<Rightarrow> u64 list) \<Rightarrow> (u64 \<Rightarrow> nat \<Rightarrow> bool) \<Rightarrow> u64 \<Rightarrow> u64 \<Rightarrow> nat list \<Rightarrow> nat list \<Rightarrow> bool" where
  "hda_rings_ok addrs good cbase rbase cs rs \<longleftrightarrow>
     (\<forall>i\<in>set cs. good (corb_at cbase i) 4) \<and> (\<forall>i\<in>set rs. good (rirb_at rbase i) 8) \<and>
     distinct (concat (map (\<lambda>i. addrs (rirb_at rbase i) 8) rs)) \<and>
     (\<forall>i\<in>set cs. \<forall>j\<in>set rs. set (addrs (corb_at cbase i) 4) \<inter> set (addrs (rirb_at rbase j) 8) = {})"

text \<open>The commands are answered at the places \<open>rs\<close>.\<close>

definition answered ::
    "(u64 \<Rightarrow> nat \<Rightarrow> u64 list) \<Rightarrow> (u64 \<Rightarrow> u8) \<Rightarrow> (u64 \<Rightarrow> u8) \<Rightarrow> u64 \<Rightarrow> nat list \<Rightarrow> u32 list \<Rightarrow> bool" where
  "answered addrs m m' base rs cmds \<longleftrightarrow>
     list_all2 (\<lambda>i c. map m' (addrs (rirb_at base i) 8) = rirb_bytes c) rs cmds \<and>
     (\<forall>a. (\<forall>i\<in>set rs. a \<notin> set (addrs (rirb_at base i) 8)) \<longrightarrow> m' a = m a)"

lemma length_rirb_bytes [simp]: "length (rirb_bytes c) = 8"
  by (simp add: rirb_bytes_def)

lemma answered_step:
  assumes "hda_rings_ok addrs good cbase rbase (c # cs) (r # rs)" "\<And>a. length (addrs a 8) = 8"
    and "m1 = put_bytes m (zip (addrs (rirb_at rbase r) 8) (rirb_bytes raw))"
  shows "map (command_at addrs m1 cbase) cs = map (command_at addrs m cbase) cs" "hda_rings_ok addrs good cbase rbase cs rs"
    "answered addrs m1 m2 rbase rs cmds \<Longrightarrow> answered addrs m m2 rbase (r # rs) (raw # cmds)"
proof -
  have keep: "m1 a = m a" if "a \<notin> set (addrs (rirb_at rbase r) 8)" for a
    unfolding assms(3) using that by (intro put_bytes_other) (auto dest: set_zip_leftD)
  have "map m1 (addrs (corb_at cbase i) 4) = map m (addrs (corb_at cbase i) 4)" if "i \<in> set cs" for i
    using assms(1) that by (intro map_cong refl keep) (auto simp: hda_rings_ok_def disjoint_iff)
  then show "map (command_at addrs m1 cbase) cs = map (command_at addrs m cbase) cs"
    unfolding command_at_def by (intro map_cong refl) (simp only:)
  show "hda_rings_ok addrs good cbase rbase cs rs" using assms(1) by (simp add: hda_rings_ok_def)
  assume a: "answered addrs m1 m2 rbase rs cmds"
  have d: "distinct (addrs (rirb_at rbase r) 8)" "\<forall>i\<in>set rs. set (addrs (rirb_at rbase r) 8) \<inter> set (addrs (rirb_at rbase i) 8) = {}"
    using assms(1) by (auto simp: hda_rings_ok_def)
  have "map m1 (addrs (rirb_at rbase r) 8) = rirb_bytes raw"
    unfolding assms(3) using d(1) assms(2) by (intro put_bytes_get) simp_all
  moreover have "map m2 (addrs (rirb_at rbase r) 8) = map m1 (addrs (rirb_at rbase r) 8)"
    using a d(2) by (intro map_cong) (auto simp: answered_def disjoint_iff)
  ultimately show "answered addrs m m2 rbase (r # rs) (raw # cmds)"
    using a keep by (auto simp: answered_def)
qed

lemma answered_Nil: "answered addrs m m rbase [] []"
  by (simp add: answered_def)

subsection \<open>One answer\<close>

text \<open>The registers an answer may change: INTSTS, both pointers, and the status of the answer ring.\<close>

definition ring_regs :: "nat set" where
  "ring_regs = {0x24..<0x28} \<union> {0x4A..<0x4C} \<union> {0x58..<0x5A} \<union> {0x5D}"

definition same_regs :: "bytes \<Rightarrow> bytes \<Rightarrow> bool" where
  "same_regs b b' \<longleftrightarrow> (\<forall>off. off \<notin> ring_regs \<longrightarrow> b' off = b off)"

lemma ring_step_nat: "0 < unat n \<Longrightarrow> unat (ring_step p n) = Suc (unat p) mod unat n"
proof -
  assume "0 < unat n"
  then have "Suc (unat p) mod unat n < unat n" by simp
  also have "unat n < 2 ^ 16" by (rule order_less_le_trans [OF unsigned_less]) simp
  finally show ?thesis by (simp add: ring_step_def unsigned_of_nat take_bit_nat_eq_self)
qed

lemma unat_ucast8: "unat (ucast (x :: u8) :: u16) = unat x"
proof -
  have "unat x < 2 ^ 8" by (rule order_less_le_trans [OF unsigned_less]) simp
  then show ?thesis by (simp add: unsigned_ucast_eq take_bit_nat_eq_self)
qed

context card_memory
begin

lemma fire_ok:
  "\<exists>b w'. hda_fire_rirb_irq H h w = (h\<lparr>h_bar0 := b\<rparr>, w') \<and> same_regs (h_bar0 h) b \<and>
     (\<forall>off. off \<notin> {0x24..<0x28} \<union> {0x5D} \<longrightarrow> b off = h_bar0 h off) \<and> mem w' = mem w \<and> sent w' = sent w \<and>
     irqs w' = irqs w + (if br32 0x20 h AND push_bit 31 1 \<noteq> 0 \<and> br32 0x20 h AND push_bit 30 1 \<noteq> 0 then 1 else 0)"
proof (cases "br32 0x20 h AND push_bit 31 1 = 0 \<or> br32 0x20 h AND push_bit 30 1 = 0")
  case True
  then show ?thesis
    by (intro exI [of _ "h_bar0 h"] exI [of _ w]) (simp add: hda_fire_rirb_irq_def same_regs_def)
next
  case False
  define h1 where "h1 = bw8 0x5D (br8 0x5D h OR 1) h"
  define h2 where "h2 = bw32 0x24 (br32 0x24 h1 OR push_bit 30 1 OR push_bit 31 1) h1"
  have "hda_fire_rirb_irq H h w = (h2, card_irq H w)"
    using False by (simp add: hda_fire_rirb_irq_def h1_def h2_def Let_def)
  moreover have "h2 = h\<lparr>h_bar0 := h_bar0 h2\<rparr>" by (simp add: h1_def h2_def bw8_def bw32_def)
  moreover have "h_bar0 h2 off = h_bar0 h off" if "off \<notin> {0x24..<0x28} \<union> {0x5D}" for off
    using that by (auto simp: h1_def h2_def bw8_def bw32_def poke_def)
  moreover from this have "same_regs (h_bar0 h) (h_bar0 h2)" by (simp add: same_regs_def ring_regs_def)
  ultimately show ?thesis using False by (intro exI [of _ "h_bar0 h2"] exI [of _ "card_irq H w"]) (auto simp: irq_ok)
qed

lemma advance_ok:
  "\<exists>b c w'. rirb_advance H rp wp h w = (h\<lparr>h_bar0 := b, corb_rp := rp, rirb_wp := wp, rirb_count := c\<rparr>, w') \<and>
     same_regs (h_bar0 h) b \<and> get16 b 0x4A = rp \<and> get16 b 0x58 = wp \<and> mem w' = mem w \<and> sent w' = sent w \<and> irqs w \<le> irqs w'"
proof -
  define h1 where "h1 = (bw16 0x4A rp ((bw16 0x58 wp (h\<lparr>rirb_wp := wp\<rparr>))\<lparr>corb_rp := rp\<rparr>))\<lparr>rirb_count := rirb_count h + 1\<rparr>"
  have h1: "rirb_advance H rp wp h w =
      (if rirb_count h1 > ucast (br16 0x5A h1 AND 0xFF) then
         (if br8 0x5C (h1\<lparr>rirb_count := 0\<rparr>) AND 1 \<noteq> 0 then hda_fire_rirb_irq H (h1\<lparr>rirb_count := 0\<rparr>) w else (h1\<lparr>rirb_count := 0\<rparr>, w))
       else (h1, w))"
    by (simp add: rirb_advance_def h1_def bw16_def Let_def)
  have e: "h1\<lparr>rirb_count := c, h_bar0 := b\<rparr> = h\<lparr>h_bar0 := b, corb_rp := rp, rirb_wp := wp, rirb_count := c\<rparr>" for b c
    by (simp add: h1_def bw16_def)
  have e': "h1\<lparr>rirb_count := c\<rparr> = h\<lparr>h_bar0 := h_bar0 h1, corb_rp := rp, rirb_wp := wp, rirb_count := c\<rparr>" for c
    using e [where c = c and b = "h_bar0 h1"] by simp
  have e1: "h1 = h\<lparr>h_bar0 := h_bar0 h1, corb_rp := rp, rirb_wp := wp, rirb_count := rirb_count h1\<rparr>"
    using e' [of "rirb_count h1"] by simp
  have r: "get16 (h_bar0 h1) 0x4A = rp" "get16 (h_bar0 h1) 0x58 = wp" "same_regs (h_bar0 h) (h_bar0 h1)"
    using join16 [of rp] join16 [of wp]
    by (auto simp: h1_def bw16_def same_regs_def ring_regs_def get16_def poke_def le16_def)
  obtain b w' where f: "hda_fire_rirb_irq H (h1\<lparr>rirb_count := 0\<rparr>) w = (h1\<lparr>rirb_count := 0, h_bar0 := b\<rparr>, w')"
    "same_regs (h_bar0 h1) b" "\<forall>off. off \<notin> {0x24..<0x28} \<union> {0x5D} \<longrightarrow> b off = h_bar0 h1 off"
    "mem w' = mem w" "sent w' = sent w" "irqs w \<le> irqs w'"
    using fire_ok [of "h1\<lparr>rirb_count := 0\<rparr>" w] by auto
  have b: "get16 b 0x4A = rp" "get16 b 0x58 = wp" "same_regs (h_bar0 h) b"
    using r f(2,3) by (auto simp: get16_def same_regs_def)
  show ?thesis
  proof (cases "rirb_count h1 > ucast (br16 0x5A h1 AND 0xFF)")
    case False
    then have "rirb_advance H rp wp h w = (h\<lparr>h_bar0 := h_bar0 h1, corb_rp := rp, rirb_wp := wp, rirb_count := rirb_count h1\<rparr>, w)"
      unfolding e1 [symmetric] by (simp add: h1)
    with r show ?thesis by blast
  next
    case count: True
    show ?thesis
    proof (cases "br8 0x5C (h1\<lparr>rirb_count := 0\<rparr>) AND 1 \<noteq> 0")
      case True
      then have "rirb_advance H rp wp h w = (h\<lparr>h_bar0 := b, corb_rp := rp, rirb_wp := wp, rirb_count := 0\<rparr>, w')"
        using count f(1) by (simp add: h1 e)
      with b f(4-6) show ?thesis by blast
    next
      case False
      then have "rirb_advance H rp wp h w = (h\<lparr>h_bar0 := h_bar0 h1, corb_rp := rp, rirb_wp := wp, rirb_count := 0\<rparr>, w)"
        unfolding e' [symmetric] using count by (simp add: h1)
      with r show ?thesis by blast
    qed
  qed
qed

subsection \<open>All pending commands\<close>

lemma corb_step:
  assumes "good (corb_at (corb_addr h) c) 4" "good (rirb_at (rirb_addr h) r) 8"
    and "c = unat (ring_step (corb_rp h) csz)" "r = unat (ring_step (rirb_wp h) rsz)" "corb_rp h \<noteq> ucast corbwp"
  shows "\<exists>b n w'. corb_loop H corbwp csz rsz h w =
      corb_loop H corbwp csz rsz (h\<lparr>h_bar0 := b, corb_rp := ring_step (corb_rp h) csz, rirb_wp := ring_step (rirb_wp h) rsz, rirb_count := n\<rparr>) w' \<and>
    same_regs (h_bar0 h) b \<and> get16 b 0x4A = ring_step (corb_rp h) csz \<and> get16 b 0x58 = ring_step (rirb_wp h) rsz \<and>
    mem w' = put_bytes (mem w) (zip (addrs (rirb_at (rirb_addr h) r) 8) (rirb_bytes (command_at addrs (mem w) (corb_addr h) c))) \<and>
    sent w' = sent w \<and> irqs w \<le> irqs w'"
proof -
  have a: "corb_addr h + ucast (ring_step (corb_rp h) csz) * 4 = corb_at (corb_addr h) c"
    "rirb_addr h + ucast (ring_step (rirb_wp h) rsz) * 8 = rirb_at (rirb_addr h) r"
    by (simp_all add: corb_at_def rirb_at_def assms(3,4))
  let ?raw = "command_at addrs (mem w) (corb_addr h) c"
  from read_ok [OF assms(1), of w] obtain w1 where w1:
    "card_read H (corb_at (corb_addr h) c) 4 w = Some (Some (map (mem w) (addrs (corb_at (corb_addr h) c) 4)), w1)"
    "mem w1 = mem w" "sent w1 = sent w" "irqs w1 = irqs w" by blast
  from write_ok [of "rirb_at (rirb_addr h) r" "rirb_bytes ?raw" w1] assms(2) obtain w2 where w2:
    "card_write H (rirb_at (rirb_addr h) r) (rirb_bytes ?raw) w1 = Some (True, w2)"
    "mem w2 = put_bytes (mem w) (zip (addrs (rirb_at (rirb_addr h) r) 8) (rirb_bytes ?raw))" "sent w2 = sent w" "irqs w2 = irqs w"
    using w1(2-4) by auto
  from advance_ok [of "ring_step (corb_rp h) csz" "ring_step (rirb_wp h) rsz" h w2] obtain b n w3 where w3:
    "rirb_advance H (ring_step (corb_rp h) csz) (ring_step (rirb_wp h) rsz) h w2 =
      (h\<lparr>h_bar0 := b, corb_rp := ring_step (corb_rp h) csz, rirb_wp := ring_step (rirb_wp h) rsz, rirb_count := n\<rparr>, w3)"
    "same_regs (h_bar0 h) b" "get16 b 0x4A = ring_step (corb_rp h) csz" "get16 b 0x58 = ring_step (rirb_wp h) rsz"
    "mem w3 = mem w2" "sent w3 = sent w2" "irqs w2 \<le> irqs w3" by blast
  have "corb_loop H corbwp csz rsz h w =
      corb_loop H corbwp csz rsz (h\<lparr>h_bar0 := b, corb_rp := ring_step (corb_rp h) csz, rirb_wp := ring_step (rirb_wp h) rsz, rirb_count := n\<rparr>) w3"
    using assms(5) w1(1) w2(1) w3(1) by (subst corb_loop.simps) (simp add: a command_at_def)
  with w2 w3 show ?thesis by auto
qed

lemma corb_loop_ok:
  assumes "unat (corb_rp h) < unat csz" "k < unat csz" "unat corbwp = (unat (corb_rp h) + k) mod unat csz"
    and "unat (rirb_wp h) < unat rsz"
    and "hda_rings_ok addrs good (corb_addr h) (rirb_addr h) (ring_slots (unat csz) (Suc (unat (corb_rp h)) mod unat csz) k)
      (ring_slots (unat rsz) (Suc (unat (rirb_wp h)) mod unat rsz) k)"
  shows "\<exists>b n wp w'. corb_loop H corbwp csz rsz h w =
      Some (h\<lparr>h_bar0 := b, corb_rp := ucast corbwp, rirb_wp := wp, rirb_count := n\<rparr>, w') \<and>
    unat wp = (unat (rirb_wp h) + k) mod unat rsz \<and> same_regs (h_bar0 h) b \<and>
    (if k = 0 then b = h_bar0 h \<and> wp = rirb_wp h else get16 b 0x4A = ucast corbwp \<and> get16 b 0x58 = wp) \<and>
    answered addrs (mem w) (mem w') (rirb_addr h) (ring_slots (unat rsz) (Suc (unat (rirb_wp h)) mod unat rsz) k)
      (map (command_at addrs (mem w) (corb_addr h)) (ring_slots (unat csz) (Suc (unat (corb_rp h)) mod unat csz) k)) \<and>
    sent w' = sent w \<and> irqs w \<le> irqs w'"
  using assms
proof (induction k arbitrary: h w)
  case 0
  then have u: "corb_rp h = ucast corbwp" by (simp add: word_unat_eq_iff unat_ucast8)
  then show ?case
    using 0 by (intro exI [of _ "h_bar0 h"] exI [of _ "rirb_count h"] exI [of _ "rirb_wp h"] exI [of _ w])
      (simp add: corb_loop.simps answered_Nil same_regs_def)
next
  case (Suc k)
  let ?c = "Suc (unat (corb_rp h)) mod unat csz" and ?r = "Suc (unat (rirb_wp h)) mod unat rsz"
  let ?cs = "ring_slots (unat csz) (Suc ?c mod unat csz) k" and ?rs = "ring_slots (unat rsz) (Suc ?r mod unat rsz) k"
  let ?raw = "command_at addrs (mem w) (corb_addr h) ?c"
  have pos: "0 < unat csz" "0 < unat rsz" using Suc.prems(1,4) by simp_all
  have st: "unat (ring_step (corb_rp h) csz) = ?c" "unat (ring_step (rirb_wp h) rsz) = ?r"
    using ring_step_nat pos by simp_all
  have slots: "ring_slots (unat csz) ?c (Suc k) = ?c # ?cs" "ring_slots (unat rsz) ?r (Suc k) = ?r # ?rs"
    using pos by simp_all
  note ok = Suc.prems(5) [unfolded slots]
  have ne: "corb_rp h \<noteq> ucast corbwp"
  proof
    assume "corb_rp h = ucast corbwp"
    then have "unat (corb_rp h) = unat corbwp" by (simp add: unat_ucast8)
    then show False using Suc.prems(3) ring_walk [OF Suc.prems(1) _ Suc.prems(2)] by simp
  qed
  have good: "good (corb_at (corb_addr h) ?c) 4" "good (rirb_at (rirb_addr h) ?r) 8" using ok by (simp_all add: hda_rings_ok_def)
  from corb_step [OF good st [symmetric] ne, of w] obtain b n w1 where s: "corb_loop H corbwp csz rsz h w =
      corb_loop H corbwp csz rsz (h\<lparr>h_bar0 := b, corb_rp := ring_step (corb_rp h) csz, rirb_wp := ring_step (rirb_wp h) rsz, rirb_count := n\<rparr>) w1"
    "same_regs (h_bar0 h) b" "get16 b 0x4A = ring_step (corb_rp h) csz" "get16 b 0x58 = ring_step (rirb_wp h) rsz"
    "mem w1 = put_bytes (mem w) (zip (addrs (rirb_at (rirb_addr h) ?r) 8) (rirb_bytes ?raw))" "sent w1 = sent w" "irqs w \<le> irqs w1"
    by blast
  note as = answered_step [OF ok addrs_ok(1) s(5)]
  define h1 where "h1 = h\<lparr>h_bar0 := b, corb_rp := ring_step (corb_rp h) csz, rirb_wp := ring_step (rirb_wp h) rsz, rirb_count := n\<rparr>"
  have h1: "unat (corb_rp h1) = ?c" "unat (rirb_wp h1) = ?r" "corb_addr h1 = corb_addr h" "rirb_addr h1 = rirb_addr h" "h_bar0 h1 = b"
    using st by (simp_all add: h1_def)
  have pre: "unat (corb_rp h1) < unat csz" "k < unat csz" "unat corbwp = (unat (corb_rp h1) + k) mod unat csz" "unat (rirb_wp h1) < unat rsz"
    using pos Suc.prems(2,3) by (simp_all add: h1 mod_simps)
  have "hda_rings_ok addrs good (corb_addr h1) (rirb_addr h1) (ring_slots (unat csz) (Suc (unat (corb_rp h1)) mod unat csz) k)
      (ring_slots (unat rsz) (Suc (unat (rirb_wp h1)) mod unat rsz) k)" using as(2) by (simp add: h1)
  from Suc.IH [OF pre this, of w1] obtain b2 n2 wp w2 where r: "corb_loop H corbwp csz rsz h1 w1 =
      Some (h1\<lparr>h_bar0 := b2, corb_rp := ucast corbwp, rirb_wp := wp, rirb_count := n2\<rparr>, w2)"
    "unat wp = (?r + k) mod unat rsz" "same_regs b b2"
    "if k = 0 then b2 = b \<and> wp = rirb_wp h1 else get16 b2 0x4A = ucast corbwp \<and> get16 b2 0x58 = wp"
    "answered addrs (mem w1) (mem w2) (rirb_addr h) ?rs (map (command_at addrs (mem w1) (corb_addr h)) ?cs)"
    "sent w2 = sent w1" "irqs w1 \<le> irqs w2" unfolding h1 by blast
  have "k = 0 \<Longrightarrow> ucast corbwp = ring_step (corb_rp h) csz"
    using pre(3) h1(1) by (simp add: word_unat_eq_iff unat_ucast8 st)
  then have regs: "get16 b2 0x4A = ucast corbwp \<and> get16 b2 0x58 = wp" using r(4) s(3,4) by (cases "k = 0") (simp_all add: h1_def)
  have "answered addrs (mem w) (mem w2) (rirb_addr h) (?r # ?rs) (?raw # map (command_at addrs (mem w) (corb_addr h)) ?cs)"
    using as(3) r(5) unfolding as(1) by blast
  moreover have "same_regs (h_bar0 h) b2" using s(2) r(3) by (simp add: same_regs_def)
  moreover have "unat wp = (unat (rirb_wp h) + Suc k) mod unat rsz" using r(2) by (simp add: mod_simps)
  moreover have "corb_loop H corbwp csz rsz h w = Some (h\<lparr>h_bar0 := b2, corb_rp := ucast corbwp, rirb_wp := wp, rirb_count := n2\<rparr>, w2)"
    using s(1) r(1) by (simp add: h1_def)
  ultimately show ?case using regs r(6,7) s(6,7) unfolding slots
    by (intro exI [of _ b2] exI [of _ n2] exI [of _ wp] exI [of _ w2]) simp
qed

text \<open>The end of the loop may raise one more interrupt; it does when answers have come and they are wanted.\<close>

lemma process_corb_ok:
  assumes "ucast (br16 0x48 h AND 0xFF) = (p :: u8)" "unat (or_256 (corb_size h)) = nc" "unat (or_256 (rirb_size h)) = nr"
    and "unat (corb_rp h) < nc" "k < nc" "unat p = (unat (corb_rp h) + k) mod nc" "unat (rirb_wp h) < nr"
    and "cs = ring_slots nc (Suc (unat (corb_rp h)) mod nc) k" "rs = ring_slots nr (Suc (unat (rirb_wp h)) mod nr) k"
    and "hda_rings_ok addrs good (corb_addr h) (rirb_addr h) cs rs"
  shows "\<exists>h' w'. hda_process_corb H h w = Some (h', w') \<and>
    answered addrs (mem w) (mem w') (rirb_addr h) rs (map (command_at addrs (mem w) (corb_addr h)) cs) \<and>
    corb_rp h' = ucast p \<and> unat (rirb_wp h') = (unat (rirb_wp h) + k) mod nr \<and>
    (0 < k \<longrightarrow> br16 0x4A h' = ucast p \<and> br16 0x58 h' = rirb_wp h') \<and> sent w' = sent w \<and>
    (br8 0x5C h AND 1 \<noteq> 0 \<and> br32 0x20 h AND push_bit 31 1 \<noteq> 0 \<and> br32 0x20 h AND push_bit 30 1 \<noteq> 0 \<and> 0 < k \<and> k < nr \<longrightarrow>
      irqs w < irqs w')"
proof -
  obtain b n wp w1 where
    l: "corb_loop H p (or_256 (corb_size h)) (or_256 (rirb_size h)) h w =
        Some (h\<lparr>h_bar0 := b, corb_rp := ucast p, rirb_wp := wp, rirb_count := n\<rparr>, w1)"
      "unat wp = (unat (rirb_wp h) + k) mod nr" "same_regs (h_bar0 h) b"
      "if k = 0 then b = h_bar0 h \<and> wp = rirb_wp h else get16 b 0x4A = ucast p \<and> get16 b 0x58 = wp"
      "answered addrs (mem w) (mem w1) (rirb_addr h) rs (map (command_at addrs (mem w) (corb_addr h)) cs)"
      "sent w1 = sent w" "irqs w \<le> irqs w1"
    using corb_loop_ok [of h "or_256 (corb_size h)" k p "or_256 (rirb_size h)" w, unfolded assms(2,3),
        OF assms(4-7) assms(10) [unfolded assms(8,9)]] unfolding assms(8,9) by blast
  define h1 where "h1 = h\<lparr>h_bar0 := b, corb_rp := ucast p, rirb_wp := wp, rirb_count := n\<rparr>"
  have regs: "br8 0x5C h1 = br8 0x5C h" "br32 0x20 h1 = br32 0x20 h"
    using l(3) by (simp_all add: h1_def br8_def br32_def get32_def same_regs_def ring_regs_def)
  from fire_ok [of h1 w1] obtain b2 w2 where f: "hda_fire_rirb_irq H h1 w1 = (h1\<lparr>h_bar0 := b2\<rparr>, w2)"
    "\<forall>off. off \<notin> {0x24..<0x28} \<union> {0x5D} \<longrightarrow> b2 off = b off" "mem w2 = mem w1" "sent w2 = sent w1"
    "irqs w2 = irqs w1 + (if br32 0x20 h AND push_bit 31 1 \<noteq> 0 \<and> br32 0x20 h AND push_bit 30 1 \<noteq> 0 then 1 else 0)"
    unfolding regs by (auto simp: h1_def)
  have b2: "get16 b2 0x4A = get16 b 0x4A" "get16 b2 0x58 = get16 b 0x58" using f(2) by (simp_all add: get16_def)
  have p: "hda_process_corb H h w = Some (if wp \<noteq> rirb_wp h \<and> br8 0x5C h AND 1 \<noteq> 0 then (h1\<lparr>h_bar0 := b2\<rparr>, w2) else (h1, w1))"
    using l(1) f(1) regs(1) by (simp add: hda_process_corb_def assms(1) Let_def h1_def)
  show ?thesis
  proof (cases "wp \<noteq> rirb_wp h \<and> br8 0x5C h AND 1 \<noteq> 0")
    case True
    then show ?thesis using p l f b2
      by (intro exI [of _ "h1\<lparr>h_bar0 := b2\<rparr>"] exI [of _ w2]) (simp add: h1_def br16_def)
  next
    case False
    have "wp \<noteq> rirb_wp h" if "0 < k" "k < nr"
      using l(2) ring_walk [OF assms(7) that] by auto
    then show ?thesis using False p l
      by (intro exI [of _ h1] exI [of _ w1]) (auto simp: h1_def br16_def)
  qed
qed

lemma corbwp_write:
  assumes "ev_bar ev = 0" "ev_offset ev = 0x48" "ev_size ev = 2" "p = (ucast (ev_data ev) :: u8)" "br8 0x4C h AND 2 \<noteq> 0"
  shows "hda_handle_write V H ev h w = hda_process_corb H (bw16 0x48 (ucast p) h) w"
proof -
  have d: "ucast (ucast (ev_data ev AND 0xffff) :: u32) AND 0xFF = (ucast p :: u16)"
  proof -
    have "ucast (ucast (ev_data ev AND mask 16) :: u32) AND mask 8 = (ucast p :: u16)"
      unfolding assms(4) by (rule bit_word_eqI) (auto simp: bit_simps)
    then show ?thesis by (simp add: mask_eq_exp_minus_1)
  qed
  have "br8 0x4C (bw16 0x48 v h) = br8 0x4C h" for v by (simp add: br8_def bw16_def poke_def)
  then show ?thesis using assms(1-3,5) d by (simp add: hda_handle_write_def hda_write_val_def Let_def)
qed

text \<open>A write pointer outside the command ring is never reached: every round returns to a place of the ring.\<close>

lemma corb_loop_hangs:
  assumes "0 < unat csz" "unat csz \<le> unat corbwp" "0 < unat rsz" "corb_rp h \<noteq> ucast corbwp"
    and "\<forall>i<unat csz. good (corb_at (corb_addr h) i) 4" "\<forall>i<unat rsz. good (rirb_at (rirb_addr h) i) 8"
  shows "corb_loop H corbwp csz rsz h w = None"
proof -
  define inv :: "hda_state \<Rightarrow> bool" where "inv g \<longleftrightarrow> corb_addr g = corb_addr h \<and> rirb_addr g = rirb_addr h \<and> corb_rp g \<noteq> ucast corbwp" for g
  have "\<not> (H' = H \<and> p = corbwp \<and> cn = csz \<and> rn = rsz \<and> inv g)" if "corb_loop H' p cn rn g v = Some y" for H' p cn rn g v y
  proof (rule corb_loop.raw_induct [where P = "\<lambda>H' p cn rn g v y. \<not> (H' = H \<and> p = corbwp \<and> cn = csz \<and> rn = rsz \<and> inv g)", OF _ that],
      intro notI, elim conjE)
    fix loop and H' :: "'w card_host" and p cn rn g v y
    assume IH: "\<And>H' p cn rn g v y. loop H' p cn rn g v = Some y \<Longrightarrow> \<not> (H' = H \<and> p = corbwp \<and> cn = csz \<and> rn = rsz \<and> inv g)"
      and body: "(if corb_rp g = ucast p then Some (g, v)
      else do {
        (r, w) \<leftarrow> card_read H' (corb_addr g + ucast (ring_step (corb_rp g) cn) * 4) 4 v;
        case r of
          None \<Rightarrow> Some (g, w)
        | Some bs \<Rightarrow> do {
            (ok, w) \<leftarrow> card_write H' (rirb_addr g + ucast (ring_step (rirb_wp g) rn) * 8) (rirb_bytes (get32 ((!) bs) 0)) w;
            if \<not> ok then Some (g, w)
            else
              (let (h, w) = rirb_advance H' (ring_step (corb_rp g) cn) (ring_step (rirb_wp g) rn) g w
               in loop H' p cn rn h w) } }) = Some y"
      and eq: "H' = H" "p = corbwp" "cn = csz" "rn = rsz" "inv g"
    let ?c = "ring_step (corb_rp g) csz" and ?r = "ring_step (rirb_wp g) rsz"
    have g: "corb_addr g = corb_addr h" "rirb_addr g = rirb_addr h" "corb_rp g \<noteq> ucast corbwp" using eq(5) by (simp_all add: inv_def)
    have c: "unat ?c < unat csz" "unat ?r < unat rsz" using assms(1,3) by (simp_all add: ring_step_nat)
    then have "good (corb_at (corb_addr h) (unat ?c)) 4" "good (rirb_at (rirb_addr h) (unat ?r)) (length (rirb_bytes raw))" for raw
      using assms(5,6) by simp_all
    note ok = read_ok [OF this(1), of v] write_ok [OF this(2)]
    obtain bs w1 where 1: "card_read H (corb_at (corb_addr h) (unat ?c)) 4 v = Some (Some bs, w1)" using ok(1) by blast
    obtain w2 where 2: "card_write H (rirb_at (rirb_addr h) (unat ?r)) (rirb_bytes (get32 ((!) bs) 0)) w1 = Some (True, w2)"
      using ok(2) by blast
    obtain b n w3 where 3: "rirb_advance H ?c ?r g w2 = (g\<lparr>h_bar0 := b, corb_rp := ?c, rirb_wp := ?r, rirb_count := n\<rparr>, w3)"
      using advance_ok [of ?c ?r g w2] by blast
    have "corb_at (corb_addr h) (unat ?c) = corb_addr h + ucast ?c * 4" "rirb_at (rirb_addr h) (unat ?r) = rirb_addr h + ucast ?r * 8"
      by (simp_all add: corb_at_def rirb_at_def)
    then have "loop H corbwp csz rsz (g\<lparr>h_bar0 := b, corb_rp := ?c, rirb_wp := ?r, rirb_count := n\<rparr>) w3 = Some y"
      using body g 1 2 3 unfolding eq(1-4) by simp
    moreover have "?c \<noteq> ucast corbwp"
    proof
      assume "?c = ucast corbwp"
      then have "unat ?c = unat corbwp" by (simp add: unat_ucast8)
      then show False using c(1) assms(2) by simp
    qed
    then have "inv (g\<lparr>h_bar0 := b, corb_rp := ?c, rirb_wp := ?r, rirb_count := n\<rparr>)" using g by (simp add: inv_def)
    ultimately show False using IH by blast
  qed
  then show ?thesis using assms(4) by (cases "corb_loop H corbwp csz rsz h w") (auto simp: inv_def)
qed

lemma process_corb_hangs:
  assumes "unat (or_256 (corb_size h)) \<le> unat (ucast (br16 0x48 h AND 0xFF) :: u8)" "corb_rp h \<noteq> br16 0x48 h AND 0xFF"
    and "\<forall>i<unat (or_256 (corb_size h)). good (corb_at (corb_addr h) i) 4" "\<forall>i<unat (or_256 (rirb_size h)). good (rirb_at (rirb_addr h) i) 8"
  shows "hda_process_corb H h w = None"
proof -
  have pos: "0 < unat (or_256 n)" for n by (simp add: or_256_def unat_gt_0)
  have "ucast (ucast (br16 0x48 h AND mask 8) :: u8) = br16 0x48 h AND mask 8"
    by (rule bit_word_eqI) (auto simp: bit_simps)
  then have "corb_rp h \<noteq> ucast (ucast (br16 0x48 h AND 0xFF) :: u8)" using assms(2) by (simp add: mask_eq_exp_minus_1)
  from corb_loop_hangs [OF pos assms(1) pos this assms(3,4)] show ?thesis by (simp add: hda_process_corb_def)
qed

end

end
