(* ===== verification/HdaStream.thy ===== *)
theory HdaStream
  imports HdaRings
begin

text \<open>
  The output streams of the sound card: each turn of the thread plays the next buffer of the list, and the
  position the driver reads follows it round the cyclic buffer.
\<close>

subsection \<open>One turn\<close>

definition playing :: "nat \<Rightarrow> hda_state \<Rightarrow> bool" where
  "playing i h \<longleftrightarrow> find (\<lambda>i. s_running (h_out h i)) [0..<HDA_NUM_OSS] = Some i"

definition current :: "hda_stream \<Rightarrow> hda_bdl_entry" where
  "current s = s_bdl s (unat (s_cur_idx s))"

definition next_idx :: "hda_stream \<Rightarrow> u8" where
  "next_idx s = (if ucast (s_cur_idx s) \<ge> s_lvi s then 0 else s_cur_idx s + 1)"

definition played :: "u32 \<Rightarrow> u64 \<Rightarrow> int \<times> int \<Rightarrow> u32 \<Rightarrow> hda_stream \<Rightarrow> hda_stream" where
  "played pos clk dl n s = s\<lparr>s_lpib := pos, s_walclk := clk, s_deadline := dl, s_bytes_since_irq := n, s_cur_idx := next_idx s\<rparr>"

lemma playing_index: "playing i h \<Longrightarrow> i < 2 \<and> s_running (h_out h i)"
  by (auto simp: playing_def HDA_NUM_OSS_def find_Some_iff)

lemma upd_out_simps [simp]:
  "h_out (upd_out i f h) j = (if j = i then f (h_out h i) else h_out h j)" "h_bar0 (upd_out i f h) = h_bar0 h"
  "dpl_addr (upd_out i f h) = dpl_addr h" "pw_stream (upd_out i f h) = pw_stream h"
  "upd_out i g (upd_out i f h) = upd_out i (\<lambda>s. g (f s)) h"
  by (simp_all add: upd_out_def)

lemma upd_out_bar [simp]: "upd_out i f (h\<lparr>h_bar0 := b\<rparr>) = (upd_out i f h)\<lparr>h_bar0 := b\<rparr>"
  by (simp add: upd_out_def)

lemma playing_upd:
  assumes "playing i h" "s_running (f (h_out h i)) = s_running (h_out h i)"
  shows "playing i ((upd_out i f h)\<lparr>h_bar0 := b\<rparr>)"
proof -
  have "h_out ((upd_out i f h)\<lparr>h_bar0 := b\<rparr>) = (h_out h)(i := f (h_out h i))" by (simp add: upd_out_def)
  then have "s_running (h_out ((upd_out i f h)\<lparr>h_bar0 := b\<rparr>) j) = s_running (h_out h j)" for j
    using assms(2) by simp
  then show ?thesis using assms(1) by (simp add: playing_def)
qed

context card_memory
begin

lemma move_ok:
  assumes "dpl_addr h AND 1 = 0" "i < 2" "pos = next_lpib (s_lpib (h_out h i)) (be_length e) (s_cbl (h_out h i))"
  shows "\<exists>b clk. stream_move H i e h w = Some ((upd_out i (\<lambda>s. s\<lparr>s_lpib := pos, s_walclk := clk\<rparr>) h)\<lparr>h_bar0 := b\<rparr>, w) \<and>
    get32 b (HDA_SDBASE i + 4) = pos"
proof -
  let ?b = "poke (h_bar0 h) (HDA_SDBASE i + 4) (le32 pos)"
  have l: "hda_write_lpib H i pos (upd_out i (\<lambda>s. s\<lparr>s_lpib := pos\<rparr>) h) w =
      Some ((upd_out i (\<lambda>s. s\<lparr>s_lpib := pos\<rparr>) h)\<lparr>h_bar0 := ?b\<rparr>, w)"
    using assms(1) by (simp add: hda_write_lpib_def bw32_def Let_def)
  let ?bps = "hda_fmt_bytes_per_sec (s_fmt (h_out h i))"
  let ?clk = "s_walclk (h_out h i) + of_nat (unat (be_length e) * 24000000 div ?bps)"
  have g: "get32 (poke ?b 0x30 bs) (HDA_SDBASE i + 4) = pos" if "length bs = 4" for bs
    using get32_poke_le32 [of "h_bar0 h" "HDA_SDBASE i + 4" pos] that by (simp add: get32_def poke_outside HDA_SDBASE_def)
  show ?thesis
  proof (cases "?bps = 0")
    case True
    have e: "upd_out i (\<lambda>s. s\<lparr>s_lpib := pos\<rparr>) h = upd_out i (\<lambda>s. s\<lparr>s_lpib := pos, s_walclk := s_walclk (h_out h i)\<rparr>) h"
      by (simp add: upd_out_def)
    show ?thesis using True l get32_poke_le32 [of "h_bar0 h" "HDA_SDBASE i + 4" pos]
      by (intro exI [of _ ?b] exI [of _ "s_walclk (h_out h i)"]) (simp add: stream_move_def assms(3) [symmetric] Let_def, simp only: e)
  next
    case False
    then show ?thesis using l g [of "le32 (ucast ?clk)"]
      by (intro exI [of _ "poke ?b 0x30 (le32 (ucast ?clk))"] exI [of _ ?clk])
        (simp add: stream_move_def assms(3) [symmetric] Let_def bw32_def)
  qed
qed

lemma irq_turn_ok:
  assumes "i < 2"
  shows "\<exists>b w'. stream_irq H i h w = (h\<lparr>h_bar0 := b\<rparr>, w') \<and> get32 b (HDA_SDBASE i + 4) = get32 (h_bar0 h) (HDA_SDBASE i + 4) \<and>
    mem w' = mem w \<and> sent w' = sent w"
proof -
  let ?b = "poke (h_bar0 h) (HDA_SDBASE i + 3) [br8 (HDA_SDBASE i + 3) h OR 4]"
  let ?b2 = "poke ?b 0x24 (le32 (br32 0x24 h OR push_bit 31 1 OR push_bit i 1))"
  have 1: "get32 ?b (HDA_SDBASE i + 4) = get32 (h_bar0 h) (HDA_SDBASE i + 4)"
    by (simp add: get32_def poke_outside)
  have 2: "get32 ?b2 (HDA_SDBASE i + 4) = get32 ?b (HDA_SDBASE i + 4)"
    by (simp add: get32_def poke_outside HDA_SDBASE_def)
  show ?thesis
  proof (cases "br32 0x20 h AND push_bit 31 1 \<noteq> 0 \<and> br32 0x20 h AND push_bit i 1 \<noteq> 0")
    case True
    then have "stream_irq H i h w = (h\<lparr>h_bar0 := ?b2\<rparr>, card_irq H w)" by (simp add: stream_irq_def Let_def bw8_def bw32_def)
    with 1 2 show ?thesis by (auto simp: irq_ok)
  next
    case False
    then have "stream_irq H i h w = (h\<lparr>h_bar0 := ?b\<rparr>, w)" by (auto simp: stream_irq_def Let_def bw8_def)
    with 1 show ?thesis by auto
  qed
qed

end

lemma pace_ok: "\<exists>dl. stream_pace i e h = upd_out i (\<lambda>s. s\<lparr>s_deadline := dl\<rparr>) h"
proof -
  let ?s = "h_out h i" and ?bps = "hda_fmt_bytes_per_sec (s_fmt (h_out h i))"
  let ?n = "snd (s_deadline ?s) + int (unat (be_length e) * 1000000000 div ?bps)"
  let ?dl = "if ?bps \<noteq> 0 \<and> s_running ?s then (fst (s_deadline ?s) + ?n div 1000000000, ?n mod 1000000000) else s_deadline ?s"
  have "stream_pace i e h = upd_out i (\<lambda>s. s\<lparr>s_deadline := ?dl\<rparr>) h"
    by (simp add: stream_pace_def Let_def upd_out_def)
  then show ?thesis by blast
qed

lemma count_ok: "\<exists>fire n. stream_count i e h = (fire, upd_out i (\<lambda>s. s\<lparr>s_bytes_since_irq := n, s_cur_idx := next_idx s\<rparr>) h)"
  by (auto simp: stream_count_def next_idx_def Let_def upd_out_def)

context card_memory
begin

lemma stream_turn_ok:
  assumes "playing i h" "e = current (h_out h i)" "n = unat (be_length e)" "good (be_addr e) n" "0 < n" "n \<le> HDA_MAX_BUF"
    and "dpl_addr h AND 1 = 0" "pw_stream h" "\<And>w. hv_filled V w = 0"
    and "pos = next_lpib (s_lpib (h_out h i)) (be_length e) (s_cbl (h_out h i))"
  shows "\<exists>b clk dl m w'. stream_turn V H h w = Some ((upd_out i (played pos clk dl m) h)\<lparr>h_bar0 := b\<rparr>, w') \<and>
    get32 b (HDA_SDBASE i + 4) = pos \<and> mem w' = mem w \<and> sent w' = sent w @ [map (mem w) (addrs (be_addr e) n)]"
proof -
  have i: "i < 2" using playing_index [OF assms(1)] by simp
  have pick: "stream_pick h = Some (i, e)" using assms(1,2) by (simp add: stream_pick_def playing_def current_def)
  let ?data = "map (mem w) (addrs (be_addr e) n)"
  from read_ok [OF assms(4), of w] assms(3,6) obtain w1 where w1: "stream_fetch H e w = Some (Some ?data, w1)"
    "mem w1 = mem w" "sent w1 = sent w" by (auto simp: stream_fetch_def min_absorb1)
  from move_ok [OF assms(7) i assms(10), of w1] obtain b clk where
    m: "stream_move H i e h w1 = Some ((upd_out i (\<lambda>s. s\<lparr>s_lpib := pos, s_walclk := clk\<rparr>) h)\<lparr>h_bar0 := b\<rparr>, w1)"
      "get32 b (HDA_SDBASE i + 4) = pos" by blast
  define h1 where "h1 = (upd_out i (\<lambda>s. s\<lparr>s_lpib := pos, s_walclk := clk\<rparr>) h)\<lparr>h_bar0 := b\<rparr>"
  have len: "length ?data = n" by (simp add: addrs_ok(1))
  have "unat HDA_PW_RING_SIZE = HDA_MAX_BUF" by (simp add: HDA_PW_RING_SIZE_def HDA_MAX_BUF_def)
  then have o: "hda_pw_write V H ?data h1 w1 = card_out H ?data w1"
    using len assms(5,6,8,9) by (simp add: hda_pw_write_def h1_def Let_def min_absorb1)
  obtain dl where p: "stream_pace i e h1 = upd_out i (\<lambda>s. s\<lparr>s_deadline := dl\<rparr>) h1" using pace_ok by blast
  obtain fire k where c: "stream_count i e (upd_out i (\<lambda>s. s\<lparr>s_deadline := dl\<rparr>) h1) =
      (fire, upd_out i (\<lambda>s. s\<lparr>s_bytes_since_irq := k, s_cur_idx := next_idx s\<rparr>) (upd_out i (\<lambda>s. s\<lparr>s_deadline := dl\<rparr>) h1))"
    using count_ok by blast
  define h2 where "h2 = upd_out i (\<lambda>s. s\<lparr>s_bytes_since_irq := k, s_cur_idx := next_idx s\<rparr>) (upd_out i (\<lambda>s. s\<lparr>s_deadline := dl\<rparr>) h1)"
  have h2: "h2 = (upd_out i (played pos clk dl k) h)\<lparr>h_bar0 := b\<rparr>"
    by (simp add: h2_def h1_def upd_out_def played_def next_idx_def)
  have t: "stream_turn V H h w = Some (if fire then stream_irq H i h2 (card_out H ?data w1) else (h2, card_out H ?data w1))"
    using pick w1(1) m(1) [folded h1_def] o p c [folded h2_def] by (simp add: stream_turn_def)
  have w2: "mem (card_out H ?data w1) = mem w" "sent (card_out H ?data w1) = sent w @ [?data]" using w1 by (simp_all add: send_ok)
  show ?thesis
  proof (cases fire)
    case True
    from irq_turn_ok [OF i, of h2 "card_out H ?data w1"] obtain b' w' where
      "stream_irq H i h2 (card_out H ?data w1) = (h2\<lparr>h_bar0 := b'\<rparr>, w')"
      "get32 b' (HDA_SDBASE i + 4) = get32 (h_bar0 h2) (HDA_SDBASE i + 4)" "mem w' = mem w" "sent w' = sent w @ [?data]"
      unfolding w2 by blast
    moreover have "h2\<lparr>h_bar0 := b'\<rparr> = (upd_out i (played pos clk dl k) h)\<lparr>h_bar0 := b'\<rparr>" "h_bar0 h2 = b" by (simp_all add: h2)
    ultimately show ?thesis using t True m(2)
      by (intro exI [of _ b'] exI [of _ clk] exI [of _ dl] exI [of _ k] exI [of _ w']) simp
  next
    case False
    then show ?thesis using t m(2) w2 unfolding h2
      by (intro exI [of _ b] exI [of _ clk] exI [of _ dl] exI [of _ k] exI [of _ "card_out H ?data w1"]) simp
  qed
qed

end

subsection \<open>Several turns\<close>

fun stream_turns :: "'w hda_env \<Rightarrow> 'w card_host \<Rightarrow> nat \<Rightarrow> hda_state \<Rightarrow> 'w \<Rightarrow> (hda_state \<times> 'w) option" where
  "stream_turns V H 0 h w = Some (h, w)"
| "stream_turns V H (Suc k) h w = do { (h, w) \<leftarrow> stream_turn V H h w; stream_turns V H k h w }"

text \<open>The bytes in the first \<open>m\<close> buffers, and a list that covers the cyclic buffer with buffers the card takes whole.\<close>

definition bytes_before :: "(nat \<Rightarrow> hda_bdl_entry) \<Rightarrow> nat \<Rightarrow> nat" where
  "bytes_before bdl m = (\<Sum>j<m. unat (be_length (bdl j)))"

definition hda_list_ok :: "(u64 \<Rightarrow> nat \<Rightarrow> bool) \<Rightarrow> (nat \<Rightarrow> hda_bdl_entry) \<Rightarrow> nat \<Rightarrow> u32 \<Rightarrow> bool" where
  "hda_list_ok good bdl n cbl \<longleftrightarrow> unat cbl = bytes_before bdl n \<and>
     (\<forall>j<n. 0 < unat (be_length (bdl j)) \<and> unat (be_length (bdl j)) \<le> HDA_MAX_BUF \<and> good (be_addr (bdl j)) (unat (be_length (bdl j))))"

definition sound_of :: "(u64 \<Rightarrow> nat \<Rightarrow> u64 list) \<Rightarrow> (u64 \<Rightarrow> u8) \<Rightarrow> hda_bdl_entry \<Rightarrow> u8 list" where
  "sound_of addrs m e = map m (addrs (be_addr e) (unat (be_length e)))"

lemma bytes_before_Suc: "bytes_before bdl (Suc m) = bytes_before bdl m + unat (be_length (bdl m))"
  by (simp add: bytes_before_def)

lemma bytes_before_mono: "m \<le> n \<Longrightarrow> bytes_before bdl m \<le> bytes_before bdl n"
  unfolding bytes_before_def by (rule sum_mono2) auto

text \<open>The position after an entry is the sum up to the next entry, and 0 after the last.\<close>

lemma next_lpib_sum:
  assumes "hda_list_ok good bdl n cbl" "m < n" "unat pos = bytes_before bdl m"
  shows "unat (next_lpib pos (be_length (bdl m)) cbl) = bytes_before bdl (Suc m mod n)"
proof -
  have le: "bytes_before bdl (Suc m) \<le> unat cbl"
    using assms(1,2) bytes_before_mono [of "Suc m" n bdl] by (simp add: hda_list_ok_def)
  have "unat cbl < 2 ^ 32" by (rule order_less_le_trans [OF unsigned_less]) simp
  then have add: "unat (pos + be_length (bdl m)) = bytes_before bdl (Suc m)"
    using le assms(3) by (simp add: unat_word_ariths bytes_before_Suc)
  show ?thesis
  proof (cases "Suc m = n")
    case True
    then have "pos + be_length (bdl m) = cbl" using add assms(1) by (simp add: hda_list_ok_def word_unat_eq_iff)
    then show ?thesis using True by (simp add: next_lpib_def Let_def bytes_before_def)
  next
    case False
    then have "Suc m < n" using assms(2) by simp
    then have "bytes_before bdl (Suc (Suc m)) \<le> unat cbl" "0 < unat (be_length (bdl (Suc m)))"
      using assms(1) bytes_before_mono [of "Suc (Suc m)" n bdl] by (simp_all add: hda_list_ok_def)
    then have "unat (pos + be_length (bdl m)) < unat cbl" using add by (simp add: bytes_before_Suc)
    then have "\<not> pos + be_length (bdl m) \<ge> cbl" by (simp add: word_le_nat_alt)
    then show ?thesis using add \<open>Suc m < n\<close> by (simp add: next_lpib_def Let_def)
  qed
qed

lemma next_idx_mod:
  assumes "unat (s_lvi s) < 256" "unat (s_cur_idx s) \<le> unat (s_lvi s)"
  shows "unat (next_idx s) = Suc (unat (s_cur_idx s)) mod Suc (unat (s_lvi s))"
proof (cases "ucast (s_cur_idx s) \<ge> s_lvi s")
  case True
  then have "unat (s_cur_idx s) = unat (s_lvi s)" using assms(2) by (simp add: word_le_nat_alt unat_ucast8)
  then show ?thesis using True by (simp add: next_idx_def)
next
  case False
  then have "unat (s_cur_idx s) < unat (s_lvi s)" by (simp add: word_le_nat_alt unat_ucast8)
  then show ?thesis using False assms(1) by (simp add: next_idx_def unat_word_ariths)
qed

text \<open>A stream that plays a list, at the entry and the position its registers say.\<close>

definition plays :: "(u64 \<Rightarrow> nat \<Rightarrow> bool) \<Rightarrow> nat \<Rightarrow> (nat \<Rightarrow> hda_bdl_entry) \<Rightarrow> nat \<Rightarrow> hda_state \<Rightarrow> bool" where
  "plays good i bdl n h \<longleftrightarrow> playing i h \<and> dpl_addr h AND 1 = 0 \<and> pw_stream h \<and> n \<le> 256 \<and>
     hda_list_ok good bdl n (s_cbl (h_out h i)) \<and> (\<forall>j<n. s_bdl (h_out h i) j = bdl j) \<and> Suc (unat (s_lvi (h_out h i))) = n \<and>
     unat (s_cur_idx (h_out h i)) < n \<and> unat (s_lpib (h_out h i)) = bytes_before bdl (unat (s_cur_idx (h_out h i)))"

context card_memory
begin

lemma plays_turn:
  assumes "plays good i bdl n h" "m = unat (s_cur_idx (h_out h i))" "\<And>w. hv_filled V w = 0"
  shows "\<exists>h' w'. stream_turn V H h w = Some (h', w') \<and> plays good i bdl n h' \<and> unat (s_cur_idx (h_out h' i)) = Suc m mod n \<and>
    br32 (HDA_SDBASE i + 4) h' = s_lpib (h_out h' i) \<and> mem w' = mem w \<and> sent w' = sent w @ [sound_of addrs (mem w) (bdl m)]"
proof -
  let ?s = "h_out h i"
  define pos where "pos = next_lpib (s_lpib ?s) (be_length (bdl m)) (s_cbl ?s)"
  have p: "playing i h" "dpl_addr h AND 1 = 0" "pw_stream h" "n \<le> 256" "hda_list_ok good bdl n (s_cbl ?s)" "m < n"
    "Suc (unat (s_lvi ?s)) = n" "unat (s_lpib ?s) = bytes_before bdl m" "\<forall>j<n. s_bdl ?s j = bdl j"
    using assms(1,2) by (auto simp: plays_def)
  have e: "bdl m = current ?s" using p(6,9) assms(2) by (simp add: current_def)
  have len: "good (be_addr (bdl m)) (unat (be_length (bdl m)))" "0 < unat (be_length (bdl m))" "unat (be_length (bdl m)) \<le> HDA_MAX_BUF"
    using p(5,6) by (simp_all add: hda_list_ok_def)
  from stream_turn_ok [OF p(1) e refl len p(2,3) assms(3) pos_def, of w] obtain b clk dl c w' where
    t: "stream_turn V H h w = Some ((upd_out i (played pos clk dl c) h)\<lparr>h_bar0 := b\<rparr>, w')"
      "get32 b (HDA_SDBASE i + 4) = pos" "mem w' = mem w" "sent w' = sent w @ [sound_of addrs (mem w) (bdl m)]"
    unfolding sound_of_def by blast
  define h' where "h' = (upd_out i (played pos clk dl c) h)\<lparr>h_bar0 := b\<rparr>"
  have o: "h_out h' i = played pos clk dl c ?s" by (simp add: h'_def)
  have idx: "unat (next_idx ?s) = Suc m mod n"
    using next_idx_mod [of ?s] p(4,6,7) assms(2) by simp
  have pl: "playing i h'" unfolding h'_def using p(1) by (rule playing_upd) (simp add: played_def)
  have "plays good i bdl n h'"
    using pl p idx next_lpib_sum [OF p(5,6,8)] unfolding plays_def o
    by (simp add: h'_def played_def pos_def)
  then show ?thesis using t(1,3,4) t(2) idx unfolding h'_def [symmetric]
    by (intro exI [of _ h'] exI [of _ w']) (simp add: o played_def br32_def, simp add: h'_def)
qed

lemma plays_turns:
  assumes "plays good i bdl n h" "\<And>w. hv_filled V w = 0"
  shows "\<exists>h' w'. stream_turns V H k h w = Some (h', w') \<and> plays good i bdl n h' \<and>
    unat (s_cur_idx (h_out h' i)) = (unat (s_cur_idx (h_out h i)) + k) mod n \<and>
    (0 < k \<longrightarrow> br32 (HDA_SDBASE i + 4) h' = s_lpib (h_out h' i)) \<and> mem w' = mem w \<and>
    sent w' = sent w @ map (\<lambda>j. sound_of addrs (mem w) (bdl j)) (ring_slots n (unat (s_cur_idx (h_out h i))) k)"
  using assms(1)
proof (induction k arbitrary: h w)
  case 0
  then show ?case by (auto simp: plays_def)
next
  case (Suc k)
  let ?m = "unat (s_cur_idx (h_out h i))"
  have m: "?m < n" using Suc.prems by (simp add: plays_def)
  from plays_turn [OF Suc.prems refl assms(2), of w] obtain h1 w1 where
    1: "stream_turn V H h w = Some (h1, w1)" "plays good i bdl n h1" "unat (s_cur_idx (h_out h1 i)) = Suc ?m mod n"
      "br32 (HDA_SDBASE i + 4) h1 = s_lpib (h_out h1 i)" "mem w1 = mem w" "sent w1 = sent w @ [sound_of addrs (mem w) (bdl ?m)]"
    by blast
  from Suc.IH [OF 1(2), of w1] obtain h2 w2 where
    2: "stream_turns V H k h1 w1 = Some (h2, w2)" "plays good i bdl n h2" "unat (s_cur_idx (h_out h2 i)) = (Suc ?m mod n + k) mod n"
      "0 < k \<longrightarrow> br32 (HDA_SDBASE i + 4) h2 = s_lpib (h_out h2 i)" "mem w2 = mem w"
      "sent w2 = sent w1 @ map (\<lambda>j. sound_of addrs (mem w) (bdl j)) (ring_slots n (Suc ?m mod n) k)"
    unfolding 1(3,5) by blast
  have "br32 (HDA_SDBASE i + 4) h2 = s_lpib (h_out h2 i)"
    using 1(1,4) 2(1,4) by (cases k) simp_all
  then show ?case using 1 2 m by (intro exI [of _ h2] exI [of _ w2]) (simp add: mod_simps)
qed

end

end
