(* ===== verification/HdaHost.thy ===== *)
theory HdaHost
  imports HdaStream
begin

text \<open>
  The sound card over the DMA ioctl: the driver starts a stream, the properties of the rings and of the
  streams, and a small guest.
\<close>

subsection \<open>Starting a stream\<close>

context card_memory
begin

lemma stream_start_ok:
  assumes "s = stream_regs i h (h_out h i)" "s_bdl_addr s \<noteq> 0" "n = Suc (unat (s_lvi s))" "n \<le> 256" "good (s_bdl_addr s) (n * 16)"
    and "bdl = load_bdl n (map (mem w) (addrs (s_bdl_addr s) (n * 16))) (s_bdl s)" "hda_list_ok good bdl n (s_cbl s)" "s_cbl s \<noteq> 0"
    and "\<And>w. hv_loop V w" "\<And>w. hv_stream V w" "dpl_addr h AND 1 = 0" "i < 2" "\<forall>j<i. \<not> s_running (h_out h j)"
  shows "\<exists>h' w'. hda_stream_start V H i h w = Some (h', w') \<and> plays good i bdl n h' \<and> s_cur_idx (h_out h' i) = 0 \<and>
    mem w' = mem w \<and> sent w' = sent w"
proof -
  have lvi: "\<not> HDA_MAX_BDL \<le> unat (s_lvi s)" using assms(3,4) by (simp add: HDA_MAX_BDL_def)
  from read_ok [OF assms(5), of w] obtain w1 where w1:
    "card_read H (s_bdl_addr s) (n * 16) w = Some (Some (map (mem w) (addrs (s_bdl_addr s) (n * 16))), w1)" "mem w1 = mem w" "sent w1 = sent w"
    by blast
  define h1 where "h1 = upd_out i (\<lambda>t. s) h"
  have h1: "upd_out i (stream_regs i h) h = h1" "h_out h1 i = s" by (simp_all add: h1_def assms(1) upd_out_def)
  define h2 where "h2 = hda_pw_setup V (s_fmt s) (upd_out i (\<lambda>s. s\<lparr>s_bdl := bdl\<rparr>) h1) w1"
  define h3 where "h3 = upd_out i (stream_begin (hv_now V w1)) h2"
  let ?bs = "map (mem w) (addrs (s_bdl_addr s) (n * 16))"
  have "upd_out i (\<lambda>s. s\<lparr>s_bdl := load_bdl (unat (s_lvi s) + 1) ?bs (s_bdl s)\<rparr>) h1 = upd_out i (\<lambda>s. s\<lparr>s_bdl := bdl\<rparr>) h1"
    by (simp add: upd_out_def h1(2) assms(3,6))
  then have "hda_stream_start V H i h w = Some (h3, w1)"
    using assms(2,8) lvi w1(1) by (simp add: hda_stream_start_def h1 h2_def h3_def Let_def assms(3))
  moreover have o: "h_out h3 i = stream_begin (hv_now V w1) (s\<lparr>s_bdl := bdl\<rparr>)" "pw_stream h3" "dpl_addr h3 = dpl_addr h"
    "\<And>j. j \<noteq> i \<Longrightarrow> h_out h3 j = h_out h j"
    using assms(9,10) by (auto simp: h3_def h2_def h1_def hda_pw_setup_def Let_def upd_out_def)
  have "playing i h3"
  proof -
    have "s_running (h_out h3 i)" "\<forall>j<i. \<not> s_running (h_out h3 j)" using o assms(13) by (simp_all add: stream_begin_def)
    moreover have "i = 0 \<or> i = 1" using assms(12) by auto
    ultimately show ?thesis by (auto simp: playing_def HDA_NUM_OSS_def upt_rec)
  qed
  moreover from this have "plays good i bdl n h3"
    using assms(3,4,7,11) o by (simp add: plays_def stream_begin_def bytes_before_def)
  ultimately show ?thesis using w1(2,3) o(1) by (intro exI [of _ h3] exI [of _ w1]) (simp add: stream_begin_def)
qed

end

text \<open>What the driver writes to start a stream: the first byte of its control register.\<close>

lemma stream_regs_bw8: "stream_regs i (bw8 (HDA_SDBASE i) v h) s = stream_regs i h s"
  by (simp add: stream_regs_def bw8_def br32_def br16_def get32_def get16_def poke_outside Let_def)

lemma control_write:
  assumes "ev_bar ev = 0" "ev_offset ev = of_nat (HDA_SDBASE i)" "ev_size ev = 1" "i < 2"
    and "v = (ucast (ev_data ev) :: u8)" "v AND 1 = 0" "v AND 2 \<noteq> 0" "br8 (HDA_SDBASE i) h AND 2 = 0"
  shows "hda_handle_write V H ev h w = hda_stream_start V H i (bw8 (HDA_SDBASE i) v h) w"
proof -
  have d: "ucast (ucast (ev_data ev AND 0xff) :: u32) = v"
  proof -
    have "ucast (ucast (ev_data ev AND mask 8) :: u32) = (ucast (ev_data ev) :: u8)"
      by (rule bit_word_eqI) (auto simp: bit_simps)
    then show ?thesis by (simp add: mask_eq_exp_minus_1 assms(5))
  qed
  have off: "unat (ucast (of_nat (HDA_SDBASE i) :: u64) :: u32) = HDA_SDBASE i"
    using assms(4) by (auto simp: less_2_cases_iff HDA_SDBASE_def)
  let ?val = "ucast (ev_data ev AND 0xff) :: u32"
  have 1: "hda_handle_write V H ev h w = hda_write_val V H (HDA_SDBASE i) ?val 1 h w"
    using assms(1-3) off by (simp add: hda_handle_write_def)
  have 2: "hda_write_val V H (HDA_SDBASE i) ?val 1 h w = sd_write V H (HDA_SDBASE i) ?val 1 h w"
    using assms(4) by (simp add: hda_write_val_def HDA_SDBASE_def HDA_NUM_OSS_def)
  have 3: "sd_write V H (HDA_SDBASE i) ?val 1 h w = sd_control V H i ?val 1 h w"
    by (simp add: sd_write_def HDA_SDBASE_def Let_def)
  have "\<not> (2 :: u32) \<le> 1" "\<not> (3 :: u32) \<le> 1" "\<not> (4 :: u32) \<le> 1" by (simp_all add: word_le_nat_alt)
  then show ?thesis unfolding 1 2 3 using assms(6-8) by (simp add: sd_control_def Let_def d)
qed

lemma corbwp_reg: "br16 0x48 (bw16 0x48 (ucast p) h) AND 0xFF = ucast p" "ucast (br16 0x48 (bw16 0x48 (ucast p) h) AND 0xFF) = p"
    "ucast (ucast p :: u16) = p"
  for p :: u8
proof -
  have b: "br16 0x48 (bw16 0x48 (ucast p) h) = ucast p"
    using join16 [of "ucast p"] by (simp add: br16_def bw16_def get16_def poke_def le16_def)
  moreover have "ucast p AND mask 8 = (ucast p :: u16)" by (rule bit_word_eqI) (auto simp: bit_simps dest: bit_imp_le_length)
  ultimately show "br16 0x48 (bw16 0x48 (ucast p) h) AND 0xFF = ucast p" by (simp add: mask_eq_exp_minus_1)
  moreover show "ucast (ucast p :: u16) = p" by (rule bit_word_eqI) (auto simp: bit_simps)
  ultimately show "ucast (br16 0x48 (bw16 0x48 (ucast p) h) AND 0xFF) = p" by simp
qed

subsection \<open>Properties\<close>

text \<open>
  C8. Codec commands. When the driver moves the write pointer of the command ring \<open>k\<close> places forward
  while the engine runs, the handler returns; the \<open>k\<close> commands are answered in their order at the next
  \<open>k\<close> places of the answer ring, each answer being that of the codec, and no other byte of guest memory
  changes; both pointers and their registers are then at the last command and the last answer; and a
  driver that has switched the interrupts on gets one, unless it sent a whole ring of commands.
\<close>

theorem hda_answers:
  assumes "H = card_ioctl_host env uenv buf_at" "ev_bar ev = 0" "ev_offset ev = 0x48" "ev_size ev = 2" "p = (ucast (ev_data ev) :: u8)"
    and "br8 0x4C h AND 2 \<noteq> 0" "unat (or_256 (corb_size h)) = nc" "unat (or_256 (rirb_size h)) = nr"
    and "unat (corb_rp h) < nc" "k < nc" "unat p = (unat (corb_rp h) + k) mod nc" "unat (rirb_wp h) < nr"
    and "cs = ring_slots nc (Suc (unat (corb_rp h)) mod nc) k" "rs = ring_slots nr (Suc (unat (rirb_wp h)) mod nr) k"
    and "hda_rings_ok (dma_addrs env) (card_good env uenv buf_at) (corb_addr h) (rirb_addr h) cs rs"
  shows "\<exists>h' w'. hda_handle_write V H ev h w = Some (h', w') \<and>
    answered (dma_addrs env) (gmem (card_dma w)) (gmem (card_dma w')) (rirb_addr h) rs
      (map (command_at (dma_addrs env) (gmem (card_dma w)) (corb_addr h)) cs) \<and>
    corb_rp h' = ucast p \<and> unat (rirb_wp h') = (unat (rirb_wp h) + k) mod nr \<and>
    (0 < k \<longrightarrow> br16 0x4A h' = ucast p \<and> br16 0x58 h' = rirb_wp h') \<and> card_sent w' = card_sent w \<and>
    (br8 0x5C h AND 1 \<noteq> 0 \<and> br32 0x20 h AND push_bit 31 1 \<noteq> 0 \<and> br32 0x20 h AND push_bit 30 1 \<noteq> 0 \<and> 0 < k \<and> k < nr \<longrightarrow>
      card_irqs w < card_irqs w')"
proof -
  have same: "br8 0x5C (bw16 0x48 v h) = br8 0x5C h" "br32 0x20 (bw16 0x48 v h) = br32 0x20 h"
    "corb_size (bw16 0x48 v h) = corb_size h" "rirb_size (bw16 0x48 v h) = rirb_size h" "corb_rp (bw16 0x48 v h) = corb_rp h"
    "rirb_wp (bw16 0x48 v h) = rirb_wp h" "corb_addr (bw16 0x48 v h) = corb_addr h" "rirb_addr (bw16 0x48 v h) = rirb_addr h" for v
    by (simp_all add: br8_def br32_def get32_def bw16_def poke_def)
  show ?thesis
    unfolding host.corbwp_write [OF assms(2-6)] assms(1)
    using host.process_corb_ok [OF corbwp_reg(2) [of p h], unfolded same, OF assms(7-15), of w] .
qed

text \<open>
  C9. Playback. When the driver sets RUN in the control register of a stream whose descriptor list in guest
  memory covers its cyclic buffer with buffers of at most 256 KiB, the card reads the list; after any
  number \<open>k\<close> of turns of the sound thread PipeWire has been given exactly the bytes of the first \<open>k\<close>
  buffers, the list taken round and round, and the position register says where in the cyclic buffer
  that is; guest memory is as before.
\<close>

theorem hda_plays:
  assumes "H = card_ioctl_host env uenv buf_at" "ev_bar ev = 0" "ev_offset ev = of_nat (HDA_SDBASE i)" "ev_size ev = 1" "i < 2"
    and "v = (ucast (ev_data ev) :: u8)" "v AND 1 = 0" "v AND 2 \<noteq> 0" "br8 (HDA_SDBASE i) h AND 2 = 0"
    and "s = stream_regs i h (h_out h i)" "s_bdl_addr s \<noteq> 0" "n = Suc (unat (s_lvi s))" "n \<le> 256"
    and "card_good env uenv buf_at (s_bdl_addr s) (n * 16)"
    and "bdl = load_bdl n (map (gmem (card_dma w)) (dma_addrs env (s_bdl_addr s) (n * 16))) (s_bdl s)"
    and "hda_list_ok (card_good env uenv buf_at) bdl n (s_cbl s)" "s_cbl s \<noteq> 0"
    and "V = \<lparr>hv_now = now, hv_loop = (\<lambda>_. True), hv_stream = (\<lambda>_. True), hv_filled = (\<lambda>_. 0)\<rparr>"
    and "dpl_addr h AND 1 = 0" "\<forall>j<i. \<not> s_running (h_out h j)"
  shows "\<exists>h1 w1 h2 w2. hda_handle_write V H ev h w = Some (h1, w1) \<and> stream_turns V H k h1 w1 = Some (h2, w2) \<and>
    card_sent w2 = card_sent w @ map (\<lambda>j. sound_of (dma_addrs env) (gmem (card_dma w)) (bdl j)) (ring_slots n 0 k) \<and>
    unat (s_lpib (h_out h2 i)) = bytes_before bdl (k mod n) \<and>
    (0 < k \<longrightarrow> br32 (HDA_SDBASE i + 4) h2 = s_lpib (h_out h2 i)) \<and> gmem (card_dma w2) = gmem (card_dma w)"
proof -
  let ?h = "bw8 (HDA_SDBASE i) v h"
  have s: "s = stream_regs i ?h (h_out ?h i)" by (simp add: assms(10) stream_regs_bw8) (simp add: bw8_def)
  have d: "dpl_addr ?h AND 1 = 0" "\<forall>j<i. \<not> s_running (h_out ?h j)" using assms(19,20) by (simp_all add: bw8_def)
  have V: "hv_loop V w" "hv_stream V w" "hv_filled V w = 0" for w by (simp_all add: assms(18))
  from host.stream_start_ok [OF s assms(11-17) V(1,2) d(1) assms(5) d(2)] obtain h1 w1 where
    1: "hda_stream_start V H i ?h w = Some (h1, w1)" "plays (card_good env uenv buf_at) i bdl n h1" "s_cur_idx (h_out h1 i) = 0"
      "gmem (card_dma w1) = gmem (card_dma w)" "card_sent w1 = card_sent w"
    unfolding assms(1) by blast
  from host.plays_turns [OF 1(2) V(3), of k w1] obtain h2 w2 where
    2: "stream_turns V H k h1 w1 = Some (h2, w2)" "plays (card_good env uenv buf_at) i bdl n h2" "unat (s_cur_idx (h_out h2 i)) = k mod n"
      "0 < k \<longrightarrow> br32 (HDA_SDBASE i + 4) h2 = s_lpib (h_out h2 i)" "gmem (card_dma w2) = gmem (card_dma w1)"
      "card_sent w2 = card_sent w1 @ map (\<lambda>j. sound_of (dma_addrs env) (gmem (card_dma w1)) (bdl j)) (ring_slots n 0 k)"
    unfolding assms(1) 1(3) by auto
  have "unat (s_lpib (h_out h2 i)) = bytes_before bdl (k mod n)" using 2(2,3) by (simp add: plays_def)
  then show ?thesis using 1(1,4,5) 2 control_write [OF assms(2-9), of V H w]
    by (intro exI [of _ h1] exI [of _ w1] exI [of _ h2] exI [of _ w2]) simp
qed

text \<open>
  A write pointer outside the command ring (a ring of 2 or 16 places and a pointer of 8 bits) keeps the
  thread that serves the card's registers in the loop for ever.
\<close>

theorem corb_pointer_hangs:
  assumes "H = card_ioctl_host env uenv buf_at" "ev_bar ev = 0" "ev_offset ev = 0x48" "ev_size ev = 2" "p = (ucast (ev_data ev) :: u8)"
    and "br8 0x4C h AND 2 \<noteq> 0" "unat (or_256 (corb_size h)) \<le> unat p" "corb_rp h \<noteq> ucast p"
    and "\<forall>i<unat (or_256 (corb_size h)). card_good env uenv buf_at (corb_at (corb_addr h) i) 4"
    and "\<forall>i<unat (or_256 (rirb_size h)). card_good env uenv buf_at (rirb_at (rirb_addr h) i) 8"
  shows "hda_handle_write V H ev h w = None"
  unfolding host.corbwp_write [OF assms(2-6)] assms(1)
  using assms(7-10) by (intro host.process_corb_hangs) (simp_all add: corbwp_reg, simp_all add: bw16_def)

text \<open>A buffer longer than the cyclic buffer leaves the position outside it.\<close>

theorem long_buffer_lpib:
  "next_lpib 0 12 4 = 8" "\<not> next_lpib 0 12 4 < (4 :: u32)"
  by (simp_all add: next_lpib_def Let_def word_le_nat_alt word_less_nat_alt)

text \<open>
  What a driver that enumerates the codec finds: the audio group at node 1 with the widgets 2 and 3, an
  output converter and a pin that is connected to it.
\<close>

theorem codec_path:
  "hda_answer 0x000F0004 = 0x00010001 \<and> hda_answer 0x001F0005 = 1 \<and> hda_answer 0x001F0004 = 0x00020002 \<and>
   drop_bit 20 (hda_answer 0x002F0009) = 0 \<and> drop_bit 20 (hda_answer 0x003F0009) = 4 \<and>
   hda_answer 0x003F000E = 1 \<and> hda_answer 0x003F0200 = 2"
  by code_simp

text \<open>With a response interrupt count of 1 the first answer raises nothing.\<close>

theorem rintcnt_off_by_one:
  assumes "br16 0x5A h = 1" "rirb_count h = 0"
  shows "snd (rirb_advance H rp wp h w) = w"
proof -
  have "br16 0x5A ((bw16 0x4A rp ((bw16 0x58 wp (h\<lparr>rirb_wp := wp\<rparr>))\<lparr>corb_rp := rp\<rparr>))\<lparr>rirb_count := 1\<rparr>) = br16 0x5A h"
    by (simp add: br16_def bw16_def get16_def poke_outside)
  then show ?thesis using assms by (simp add: rirb_advance_def Let_def bw16_def)
qed

text \<open>A stereo stream of 20-bit samples at 48 kHz: two bytes a sample for the pace, three for PipeWire.\<close>

theorem format_20_bits:
  "hda_fmt_bytes_per_sec 0x0021 = fmt_rate 0x0021 * (2 * 2) \<and> fmt_channels 0x0021 = 2 \<and> sample_bytes 0x0021 = 3"
  by (simp add: hda_fmt_bytes_per_sec_def fmt_channels_def sample_bytes_def Let_def)

subsection \<open>A small guest\<close>

text \<open>
  Rings of two places at 0x1000 and 0x2000, with the command for the codec's vendor at place 1; a list of
  two buffers at 0x4000, of four and two bytes.
\<close>

definition hda_guest :: "u64 \<Rightarrow> u8" where
  "hda_guest a = (if a = 0x1006 then 0x0F else if a = 0x4001 then 0x60 else if a = 0x4008 then 4 else if a = 0x4011 then 0x70
     else if a = 0x4018 then 2 else if a = 0x6000 then 0xAB else if a = 0x7000 then 0xCD else 0)"

definition hda_world0 :: card_world where
  "hda_world0 = \<lparr>card_dma = \<lparr>gmem = hda_guest, umem = (\<lambda>_. 0), kbufs = 0\<rparr>, card_sent = [], card_irqs = 0\<rparr>"

definition hda_bar0 :: bytes where
  "hda_bar0 off = (if off = 0x23 then 0xC0 else if off = 0x4C then 2 else if off = 0x5C then 1 else if off = 0x88 then 6
     else if off = 0x8C then 1 else if off = 0x99 then 0x40 else 0)"

definition hda_stream0 :: hda_stream where
  "hda_stream0 = \<lparr>s_running = False, s_cbl = 0, s_lvi = 0, s_fmt = 0, s_bdl_addr = 0, s_bdl = (\<lambda>_. \<lparr>be_addr = 0, be_length = 0, be_flags = 0\<rparr>),
     s_lpib = 0, s_cur_idx = 0, s_bytes_since_irq = 0, s_period_bytes = 0, s_walclk = 0, s_deadline = (0, 0)\<rparr>"

definition hda_card0 :: hda_state where
  "hda_card0 = \<lparr>h_bar0 = hda_bar0, corb_addr = 0x1000, corb_rp = 0, corb_size = 2, rirb_addr = 0x2000, rirb_wp = 0, rirb_size = 2,
     rirb_count = 0, dpl_addr = 0, h_out = (\<lambda>_. hda_stream0), pw_loop = False, pw_stream = False, pw_stride = 0\<rparr>"

definition hda_write_of :: "u64 \<Rightarrow> u32 \<Rightarrow> u64 \<Rightarrow> event" where
  "hda_write_of off sz v = \<lparr>ev_seq = 0, ev_type = 2, ev_bar = 0, ev_offset = off, ev_size = sz, ev_data = v, ev_timestamp = 0\<rparr>"

definition hda_env0 :: "card_world hda_env" where
  "hda_env0 = \<lparr>hv_now = (\<lambda>_. (0, 0)), hv_loop = (\<lambda>_. True), hv_stream = (\<lambda>_. True), hv_filled = (\<lambda>_. 0)\<rparr>"

theorem hda_answers_witness:
  "\<exists>h' w'. hda_handle_write hda_env0 (card_ioctl_host ram_env uenv0 0x100000) (hda_write_of 0x48 2 1) hda_card0 hda_world0 = Some (h', w') \<and>
     map (gmem (card_dma w')) (dma_addrs ram_env 0x2008 8) = [0, 0, 0x86, 0x80, 0, 0, 0, 0] \<and> corb_rp h' = 1 \<and> 0 < card_irqs w'"
proof -
  let ?A = "dma_addrs ram_env" and ?m = "gmem (card_dma hda_world0)" and ?H = "card_ioctl_host ram_env uenv0 0x100000"
  have m: "?m = hda_guest" by (simp add: hda_world0_def)
  have at: "corb_at 0x1000 1 = 0x1004" "rirb_at 0x2000 1 = 0x2008" by (simp_all add: corb_at_def rirb_at_def)
  have sl: "[1] = ring_slots 2 (Suc (unat (corb_rp hda_card0)) mod 2) 1" "[1] = ring_slots 2 (Suc (unat (rirb_wp hda_card0)) mod 2) 1"
    by (simp_all add: hda_card0_def ring_slots_def)
  have dis: "set (?A 0x1004 4) \<inter> set (?A 0x2008 8) = {}"
    using ram_range(2) [of "0x1004" 4] ram_range(2) [of "0x2008" 8] by (fastforce simp: disjoint_iff)
  have ok: "hda_rings_ok ?A (card_good ram_env uenv0 0x100000) (corb_addr hda_card0) (rirb_addr hda_card0) [1] [1]"
    using dis ram_range(1) [of "0x2008" 8] by (simp add: hda_rings_ok_def hda_card0_def at [simplified] card_good0)
  have c: "command_at ?A hda_guest 0x1000 1 = 0x000F0000"
    by (simp add: command_at_def at [simplified] ram_addrs upt_rec hda_guest_def get32_def)
  have r: "rirb_bytes 0x000F0000 = [0, 0, 0x86, 0x80, 0, 0, 0, 0]" by code_simp
  have regs: "br8 0x4C hda_card0 = 2" "br8 0x5C hda_card0 = 1" "br32 0x20 hda_card0 = 0xC0000000"
    by (simp_all add: br8_def br32_def get32_def hda_card0_def hda_bar0_def)
  have "\<exists>h' w'. hda_handle_write hda_env0 ?H (hda_write_of 0x48 2 1) hda_card0 hda_world0 = Some (h', w') \<and>
    answered ?A ?m (gmem (card_dma w')) (rirb_addr hda_card0) [1] (map (command_at ?A ?m (corb_addr hda_card0)) [1]) \<and>
    corb_rp h' = ucast (1 :: u8) \<and> unat (rirb_wp h') = (unat (rirb_wp hda_card0) + 1) mod 2 \<and>
    (0 < (1 :: nat) \<longrightarrow> br16 0x4A h' = ucast (1 :: u8) \<and> br16 0x58 h' = rirb_wp h') \<and> card_sent w' = card_sent hda_world0 \<and>
    (br8 0x5C hda_card0 AND 1 \<noteq> 0 \<and> br32 0x20 hda_card0 AND push_bit 31 1 \<noteq> 0 \<and> br32 0x20 hda_card0 AND push_bit 30 1 \<noteq> 0 \<and>
      0 < (1 :: nat) \<and> 1 < (2 :: nat) \<longrightarrow> card_irqs hda_world0 < card_irqs w')"
    by (rule hda_answers [OF refl _ _ _ _ _ _ _ _ _ _ _ sl ok]) (simp_all add: hda_write_of_def regs or_256_def, simp_all add: hda_card0_def)
  moreover have "corb_addr hda_card0 = 0x1000" "rirb_addr hda_card0 = 0x2000" "card_irqs hda_world0 = 0"
    by (simp_all add: hda_card0_def hda_world0_def)
  ultimately show ?thesis using c r by (auto simp: regs m answered_def at [simplified])
qed

lemma hda_list0:
  "load_bdl 2 (map hda_guest (dma_addrs ram_env 0x4000 32)) bdl 0 = \<lparr>be_addr = 0x6000, be_length = 4, be_flags = 0\<rparr>"
  "load_bdl 2 (map hda_guest (dma_addrs ram_env 0x4000 32)) bdl 1 = \<lparr>be_addr = 0x7000, be_length = 2, be_flags = 0\<rparr>"
  by (simp_all add: load_bdl_def bdl_entry_of_def ram_addrs upt_rec hda_guest_def of_le_def get32_def)

theorem hda_plays_witness:
  "\<exists>h1 w1 h2 w2. hda_handle_write hda_env0
       (card_ioctl_host ram_env uenv0 0x100000) (hda_write_of 0x80 1 2) hda_card0 hda_world0 = Some (h1, w1) \<and>
     stream_turns hda_env0
       (card_ioctl_host ram_env uenv0 0x100000) 3 h1 w1 = Some (h2, w2) \<and>
     card_sent w2 = [[0xAB, 0, 0, 0], [0xCD, 0], [0xAB, 0, 0, 0]] \<and> s_lpib (h_out h2 0) = 4"
proof -
  let ?A = "dma_addrs ram_env" and ?m = "gmem (card_dma hda_world0)" and ?H = "card_ioctl_host ram_env uenv0 0x100000"
  define s where "s = stream_regs 0 hda_card0 (h_out hda_card0 0)"
  define bdl where "bdl = load_bdl 2 (map hda_guest (?A 0x4000 32)) (s_bdl s)"
  have m: "?m = hda_guest" by (simp add: hda_world0_def)
  have s: "s_bdl_addr s = 0x4000" "s_lvi s = 1" "s_cbl s = 6"
    by (simp_all add: s_def stream_regs_def HDA_SDBASE_def br32_def br16_def get32_def get16_def hda_card0_def hda_bar0_def Let_def)
  note e = hda_list0 [of "s_bdl s", folded bdl_def]
  have 2: "(j < 2) = (j = 0 \<or> j = 1)" for j :: nat by auto
  have ok: "hda_list_ok (card_good ram_env uenv0 0x100000) bdl 2 (s_cbl s)"
    using e unfolding hda_list_ok_def 2 by (auto simp: bytes_before_def s lessThan_nat_numeral HDA_MAX_BUF_def card_good0)
  have b: "bdl = load_bdl 2 (map ?m (?A (s_bdl_addr s) (2 * 16))) (s_bdl s)" by (simp add: m s bdl_def)
  have "\<exists>h1 w1 h2 w2. hda_handle_write hda_env0 ?H (hda_write_of 0x80 1 2) hda_card0 hda_world0 = Some (h1, w1) \<and>
    stream_turns hda_env0 ?H 3 h1 w1 = Some (h2, w2) \<and>
    card_sent w2 = card_sent hda_world0 @ map (\<lambda>j. sound_of ?A ?m (bdl j)) (ring_slots 2 0 3) \<and>
    unat (s_lpib (h_out h2 0)) = bytes_before bdl (3 mod 2) \<and>
    (0 < (3 :: nat) \<longrightarrow> br32 (HDA_SDBASE 0 + 4) h2 = s_lpib (h_out h2 0)) \<and> gmem (card_dma w2) = ?m"
    by (rule hda_plays [OF refl _ _ _ _ refl _ _ _ s_def _ _ _ _ b ok _ hda_env0_def])
      (simp_all add: hda_write_of_def s HDA_SDBASE_def card_good0, simp_all add: hda_card0_def br8_def hda_bar0_def)
  moreover have "ring_slots 2 0 3 = [0, 1, 0]" by (simp add: ring_slots_def upt_rec)
  moreover have "bytes_before bdl (3 mod 2) = 4" using e by (simp add: bytes_before_def)
  moreover have "sound_of ?A hda_guest (bdl 0) = [0xAB, 0, 0, 0]" "sound_of ?A hda_guest (bdl 1) = [0xCD, 0]"
    using e by (simp_all add: sound_of_def ram_addrs upt_rec hda_guest_def)
  moreover have "x = 4" if "unat x = 4" for x :: u32 using that by (simp add: word_unat_eq_iff)
  ultimately show ?thesis unfolding m by (auto simp: hda_world0_def)
qed

end
