(* ===== verification/Bochs.thy ===== *)
theory Bochs
  imports Ring "HOL-Library.Monad_Syntax"
begin

text \<open>
  The graphics card of \<^verbatim>\<open>examples/bochs_bga/bochs_card.c\<close>: the registers the guest writes through the event
  ring, and the thread that shows the frame buffer, BAR 0, in a window. What SDL answers is an argument; what
  the window shows is part of the state. \<open>None\<close> is a read past the end of the mapped frame buffer.
\<close>

subsection \<open>State\<close>

definition VBE_IDX_COUNT :: nat where "VBE_IDX_COUNT = 11"
definition BAR0_FB_SIZE :: nat where "BAR0_FB_SIZE = 16 * 1024 * 1024"
definition BGA_MMIO_VBE_OFFSET :: u64 where "BGA_MMIO_VBE_OFFSET = 0x500"

record bga_state =
  vbe :: "nat \<Rightarrow> u16"
  display_on :: bool
  lfb_mode :: bool
  mode_changed :: bool

datatype screen = Grey | Picture u32 u32 nat bytes

record bochs_dev =
  bga :: bga_state
  texture :: "(u32 \<times> u32) option"
  shown :: screen

text \<open>Whether SDL makes a texture, and the memory and the length of a row it gives when it locks one.\<close>

record sdl_env =
  sdl_texture :: "u32 \<Rightarrow> u32 \<Rightarrow> bool"
  sdl_lock :: "(bytes \<times> nat) option"

definition bga_zero :: bga_state where
  "bga_zero = \<lparr>vbe = (\<lambda>_. 0), display_on = False, lfb_mode = False, mode_changed = False\<rparr>"

subsection \<open>Registers\<close>

definition bga_fb_stride :: "bga_state \<Rightarrow> u32" where
  "bga_fb_stride s =
     (let vw = ucast (vbe s 6) :: u32; vw = (if vw = 0 then ucast (vbe s 1) else vw) in vw * (ucast (vbe s 3) div 8))"

definition bga_scanout_offset :: "bga_state \<Rightarrow> u32" where
  "bga_scanout_offset s = ucast (vbe s 9) * bga_fb_stride s + ucast (vbe s 8) * (ucast (vbe s 3) div 8)"

text \<open>What the guest reads: the identification and the largest mode, in BAR 2.\<close>

definition init_bar2_shadow :: "bytes \<Rightarrow> bytes" where
  "init_bar2_shadow bar2 =
     fold (\<lambda>(i, v) b. poke b (0x500 + 2 * i) (le16 v))
       [(0, 0xB0C5), (1, 4096), (2, 2160), (3, 32), (4, 0), (5, 0), (6, 4096), (7, 4320), (8, 0), (9, 0), (10, 256)] bar2"

text \<open>What a write to register \<open>idx\<close> does, and which accesses are writes of a register.\<close>

definition vbe_put :: "nat \<Rightarrow> u16 \<Rightarrow> bga_state \<Rightarrow> bga_state" where
  "vbe_put idx val s =
     (let s = s\<lparr>vbe := (vbe s)(idx := val)\<rparr>;
          s = (if idx = 4 then
                 (let was_on = display_on s;
                      s = s\<lparr>display_on := val AND 1 \<noteq> 0, lfb_mode := val AND 0x40 \<noteq> 0\<rparr>
                  in if display_on s \<noteq> was_on \<or> lfb_mode s then s\<lparr>mode_changed := True\<rparr> else s)
               else s)
      in if idx = 1 \<or> idx = 2 \<or> idx = 3 then s\<lparr>mode_changed := True\<rparr> else s)"

definition handle_bar2_write :: "event \<Rightarrow> bga_state \<Rightarrow> bga_state" where
  "handle_bar2_write ev s =
     (if ev_offset ev < BGA_MMIO_VBE_OFFSET then s
      else if ev_size ev \<noteq> 2 then s
      else
        (let byte_off = ucast (ev_offset ev - BGA_MMIO_VBE_OFFSET) :: u32 in
         if unat byte_off \<ge> VBE_IDX_COUNT * 2 then s
         else vbe_put (unat byte_off div 2) (ucast (ev_data ev)) s))"

definition bochs_event :: "event \<Rightarrow> bga_state \<Rightarrow> bga_state" where
  "bochs_event ev s =
     (if ev_type ev = 2 then (if ev_bar ev = 2 then handle_bar2_write ev s else s)
      else if ev_type ev = 6 then bga_zero\<lparr>mode_changed := True\<rparr>
      else s)"

text \<open>One wake-up of \<open>event_thread_fn\<close>, with its reading of the ring in theory Ring.\<close>

definition bochs_wakeup :: "shared_ring \<Rightarrow> bga_state \<Rightarrow> shared_ring \<times> bga_state" where
  "bochs_wakeup r s =
     (let (evs, head) = bochs_drain (events r) (ring_head r) (ring_tail r)
      in (r\<lparr>ring_head := head\<rparr>, fold bochs_event evs s))"

subsection \<open>The window\<close>

definition sdl_resize :: "sdl_env \<Rightarrow> u32 \<Rightarrow> u32 \<Rightarrow> bochs_dev \<Rightarrow> bool \<times> bochs_dev" where
  "sdl_resize S w h dev =
     (if texture dev = Some (w, h) then (True, dev)
      else if \<not> sdl_texture S w h then (False, dev\<lparr>texture := None\<rparr>)
      else (True, dev\<lparr>texture := Some (w, h)\<rparr>))"

text \<open>Row by row from the frame buffer to the texture.\<close>

definition copy_rows :: "bytes \<Rightarrow> nat \<Rightarrow> nat \<Rightarrow> nat \<Rightarrow> nat \<Rightarrow> nat \<Rightarrow> bytes \<Rightarrow> bytes option" where
  "copy_rows fb off stride n pitch rows tex =
     fold (\<lambda>row t. do { t \<leftarrow> t; if off + row * stride + n > BAR0_FB_SIZE then None
                          else Some (poke t (row * pitch) (bytes_of fb (off + row * stride) n)) }) [0..<rows] (Some tex)"

definition sdl_present_frame :: "sdl_env \<Rightarrow> bytes \<Rightarrow> bochs_dev \<Rightarrow> bochs_dev option" where
  "sdl_present_frame S fb dev =
     (let snap = bga dev; w = ucast (vbe snap 1) :: u32; h = ucast (vbe snap 2) :: u32; bpp = ucast (vbe snap 3) :: u32 in
      if w = 0 \<or> h = 0 \<or> bpp \<noteq> 32 then Some dev
      else if \<not> display_on snap then Some dev
      else
        (let (ok, dev) = sdl_resize S w h dev in
         if \<not> ok then Some dev
         else
           (let stride = bga_fb_stride snap; fb_off = bga_scanout_offset snap in
            if unat fb_off + unat h * unat stride > BAR0_FB_SIZE then Some dev
            else (case sdl_lock S of
                    None \<Rightarrow> Some dev
                  | Some (pixels, pitch) \<Rightarrow> do {
                      tex \<leftarrow> copy_rows fb (unat fb_off) (unat stride) (unat (w * 4)) pitch (unat h) pixels;
                      Some (dev\<lparr>shown := Picture w h pitch tex\<rparr>) }))))"

text \<open>A turn of \<open>main_loop\<close> after the window's own events; \<open>due\<close> says that the time of a frame has passed.\<close>

definition bochs_main_turn :: "sdl_env \<Rightarrow> bool \<Rightarrow> bytes \<Rightarrow> bochs_dev \<Rightarrow> bochs_dev option" where
  "bochs_main_turn S due fb dev =
     (let changed = mode_changed (bga dev); dev = dev\<lparr>bga := (bga dev)\<lparr>mode_changed := False\<rparr>\<rparr>;
          w = ucast (vbe (bga dev) 1) :: u32; h = ucast (vbe (bga dev) 2) :: u32;
          dev = (if \<not> changed then dev
                 else if w \<noteq> 0 \<and> h \<noteq> 0 \<and> display_on (bga dev) then snd (sdl_resize S w h dev)
                 else if \<not> display_on (bga dev) then dev\<lparr>shown := Grey\<rparr>
                 else dev)
      in if due then sdl_present_frame S fb dev else Some dev)"

text \<open>The mode the card starts with.\<close>

definition bochs_first_mode :: "bga_state \<Rightarrow> bga_state" where
  "bochs_first_mode s =
     s\<lparr>vbe := (vbe s)(0 := 0xB0C5, 1 := 1024, 2 := 768, 3 := 32, 6 := 1024, 7 := 1536)\<rparr>"

subsection \<open>What the guest sees of its writes\<close>

lemma copy_rows_ok:
  assumes "\<forall>row<rows. off + row * stride + n \<le> BAR0_FB_SIZE" "n \<le> pitch"
  shows "\<exists>t. copy_rows fb off stride n pitch rows tex = Some t \<and> (\<forall>row<rows. \<forall>i<n. t (row * pitch + i) = fb (off + row * stride + i))"
  using assms(1)
proof (induction rows)
  case (Suc m)
  then obtain t where t: "copy_rows fb off stride n pitch m tex = Some t"
    "\<forall>row<m. \<forall>i<n. t (row * pitch + i) = fb (off + row * stride + i)" by auto
  let ?t = "poke t (m * pitch) (bytes_of fb (off + m * stride) n)"
  have "copy_rows fb off stride n pitch (Suc m) tex = Some ?t"
    using t(1) Suc.prems [rule_format, of m] by (simp add: copy_rows_def)
  moreover have "?t (row * pitch + i) = fb (off + row * stride + i)" if "row < Suc m" "i < n" for row i
  proof (cases "row = m")
    case True
    then show ?thesis using that(2) by (simp add: poke_inside bytes_of_def)
  next
    case False
    then have "Suc row * pitch \<le> m * pitch" using that(1) by (intro mult_right_mono) auto
    then have "row * pitch + i < m * pitch" using that(2) assms(2) by simp
    then show ?thesis using t(2) that False by (simp add: poke_outside)
  qed
  ultimately show ?case by blast
qed (simp add: copy_rows_def)

text \<open>An event that is a write of a register, and the writes with which a driver sets a mode.\<close>

definition vbe_write :: "event \<Rightarrow> nat \<times> u16 \<Rightarrow> bool" where
  "vbe_write ev = (\<lambda>(idx, v). ev_type ev = 2 \<and> ev_bar ev = 2 \<and> ev_offset ev = 0x500 + 2 * of_nat idx \<and> ev_size ev = 2 \<and>
     ucast (ev_data ev) = v \<and> idx < VBE_IDX_COUNT)"

definition mode_writes :: "u16 \<Rightarrow> u16 \<Rightarrow> u16 \<Rightarrow> u16 \<Rightarrow> u16 \<Rightarrow> u16 \<Rightarrow> (nat \<times> u16) list" where
  "mode_writes w h vw vh x y = [(4, 0), (3, 32), (1, w), (2, h), (5, 0), (6, vw), (7, vh), (8, x), (9, y), (4, 0x41)]"

lemma vbe_write_put:
  assumes "vbe_write ev (idx, v)"
  shows "bochs_event ev s = vbe_put idx v s"
proof -
  have "idx < 11" using assms by (simp add: vbe_write_def VBE_IDX_COUNT_def)
  then have "idx \<in> {0, 1, 2, 3, 4, 5, 6, 7, 8, 9, 10}" unfolding insert_iff empty_iff by presburger
  then have "\<not> (0x500 + 2 * of_nat idx :: u64) < 0x500 \<and> unat (ucast (0x500 + 2 * of_nat idx - 0x500 :: u64) :: u32) = 2 * idx \<and> idx < 11"
    by (elim insertE emptyE) (simp_all add: word_less_nat_alt)
  then show ?thesis using assms
    by (simp add: bochs_event_def handle_bar2_write_def vbe_write_def BGA_MMIO_VBE_OFFSET_def VBE_IDX_COUNT_def Let_def)
qed

lemma writes_put: "list_all2 vbe_write evs ws \<Longrightarrow> fold bochs_event evs s = fold (\<lambda>(i, v). vbe_put i v) ws s"
  by (induction evs ws arbitrary: s rule: list_all2_induct) (auto simp: vbe_write_put)

subsection \<open>Properties\<close>

lemma mode_state:
  assumes "s' = fold (\<lambda>(i, v). vbe_put i v) (mode_writes w h vw vh x y) s"
  shows "display_on s'" "vbe s' 1 = w" "vbe s' 2 = h" "vbe s' 3 = 32" "vbe s' 6 = vw" "vbe s' 8 = x" "vbe s' 9 = y"
  unfolding assms mode_writes_def by (simp_all add: vbe_put_def Let_def)

lemma reg16: "unat v < 65536" "unat (ucast v :: u32) = unat v" for v :: u16
proof -
  show v: "unat v < 65536" by (rule order_less_le_trans [OF unsigned_less]) simp
  then show "unat (ucast v :: u32) = unat v" by (simp add: unsigned_ucast_eq take_bit_nat_eq_self)
qed

text \<open>Products of register values that do not exceed the frame buffer are exact in 32 bits.\<close>

lemma frame_exact:
  assumes "vbe s 3 = 32" "vbe s 6 = vw" "vbe s 8 = x" "vbe s 9 = y" "0 < unat vw"
    and "unat y * (unat vw * 4) + unat x * 4 \<le> BAR0_FB_SIZE"
  shows "unat (bga_fb_stride s) = unat vw * 4" "unat (bga_scanout_offset s) = unat y * (unat vw * 4) + unat x * 4"
proof -
  note small = reg16(1) and u = reg16(2)
  have "vw \<noteq> 0" using assms(5) by auto
  then have "(ucast vw :: u32) \<noteq> 0" using u [of vw] assms(5) by auto
  then have st: "bga_fb_stride s = ucast vw * 4" using assms(1,2) by (simp add: bga_fb_stride_def Let_def)
  then show 1: "unat (bga_fb_stride s) = unat vw * 4" using small [of vw] u [of vw] by (simp add: unat_word_ariths)
  have "unat y * (unat vw * 4) \<le> BAR0_FB_SIZE" using assms(6) by (rule add_leD1)
  then have "unat y * (unat vw * 4) < 2 ^ 32" by (rule le_less_trans) (simp add: BAR0_FB_SIZE_def)
  then have "unat (ucast y * bga_fb_stride s :: u32) = unat y * (unat vw * 4)"
    unfolding unat_word_ariths u 1 by (intro mod_less) simp
  moreover have "unat (ucast x * 4 :: u32) = unat x * 4"
    using small [of x] unfolding unat_word_ariths u by simp
  moreover have "bga_scanout_offset s = ucast y * bga_fb_stride s + ucast x * 4"
    using assms(1,3,4) by (simp add: bga_scanout_offset_def)
  moreover have "unat y * (unat vw * 4) + unat x * 4 < 2 ^ 32"
    using assms(6) by (rule le_less_trans) (simp add: BAR0_FB_SIZE_def)
  ultimately show "unat (bga_scanout_offset s) = unat y * (unat vw * 4) + unat x * 4"
    by (simp only: unat_word_ariths) simp
qed

lemma present_ok:
  assumes "display_on (bga dev)" "vbe (bga dev) 1 = w" "vbe (bga dev) 2 = h" "vbe (bga dev) 3 = 32" "vbe (bga dev) 6 = vw"
    and "vbe (bga dev) 8 = x" "vbe (bga dev) 9 = y" "0 < unat w" "0 < unat h" "unat x + unat w \<le> unat vw"
    and "(unat y + unat h) * (unat vw * 4) + unat x * 4 \<le> BAR0_FB_SIZE"
    and "sdl_texture S (ucast w) (ucast h)" "sdl_lock S = Some (pixels, pitch)" "unat w * 4 \<le> pitch"
  shows "\<exists>dev' tex. sdl_present_frame S fb dev = Some dev' \<and> shown dev' = Picture (ucast w) (ucast h) pitch tex \<and> bga dev' = bga dev \<and>
    (\<forall>py<unat h. \<forall>px<unat w. get32 tex (py * pitch + px * 4) = get32 fb (((unat y + py) * unat vw + unat x + px) * 4))"
proof -
  note small = reg16(1) and u = reg16(2)
  have n: "unat (ucast w * 4 :: u32) = unat w * 4" using small [of w] by (simp add: unat_word_ariths u)
  have nz: "(ucast w :: u32) \<noteq> 0" "(ucast h :: u32) \<noteq> 0" using u [of w] u [of h] assms(8,9) by auto
  have vw: "0 < unat vw" using assms(8,10) by simp
  have off: "unat y * (unat vw * 4) + unat x * 4 \<le> BAR0_FB_SIZE" using assms(11) by (simp add: add_mult_distrib)
  note fe = frame_exact [OF assms(4-7) vw off]
  have fit: "unat (bga_scanout_offset (bga dev)) + unat h * unat (bga_fb_stride (bga dev)) \<le> BAR0_FB_SIZE"
    using assms(11) unfolding fe by (simp add: add_mult_distrib)
  have rows: "\<forall>row<unat h. unat (bga_scanout_offset (bga dev)) + row * unat (bga_fb_stride (bga dev)) + unat w * 4 \<le> BAR0_FB_SIZE"
  proof (intro allI impI)
    fix row assume "row < unat h"
    then have "Suc row * (unat vw * 4) \<le> unat h * (unat vw * 4)" by (intro mult_right_mono) auto
    moreover have "(unat x + unat w) * 4 \<le> unat vw * 4" using assms(10) by simp
    ultimately show "unat (bga_scanout_offset (bga dev)) + row * unat (bga_fb_stride (bga dev)) + unat w * 4 \<le> BAR0_FB_SIZE"
      using assms(11) unfolding fe by (simp add: add_mult_distrib)
  qed
  from copy_rows_ok [OF rows assms(14), of fb pixels] obtain t where t:
    "copy_rows fb (unat (bga_scanout_offset (bga dev))) (unat (bga_fb_stride (bga dev))) (unat w * 4) pitch (unat h) pixels = Some t"
    "\<forall>row<unat h. \<forall>i<unat w * 4. t (row * pitch + i) = fb (unat (bga_scanout_offset (bga dev)) + row * unat (bga_fb_stride (bga dev)) + i)"
    by blast
  define dev1 where "dev1 = snd (sdl_resize S (ucast w) (ucast h) dev)"
  have r: "sdl_resize S (ucast w) (ucast h) dev = (True, dev1)" "bga dev1 = bga dev"
    using assms(12) by (simp_all add: sdl_resize_def dev1_def)
  have "sdl_present_frame S fb dev = Some (dev1\<lparr>shown := Picture (ucast w) (ucast h) pitch t\<rparr>)"
    using assms(1-4,13) nz r(1) fit t(1) by (simp add: sdl_present_frame_def Let_def n u)
  moreover have "get32 t (py * pitch + px * 4) = get32 fb (((unat y + py) * unat vw + unat x + px) * 4)"
    if "py < unat h" "px < unat w" for py px
  proof -
    have "t (py * pitch + px * 4 + k) = fb (((unat y + py) * unat vw + unat x + px) * 4 + k)" if k: "k < 4" for k
      using t(2) [rule_format, of py "px * 4 + k"] \<open>py < unat h\<close> \<open>px < unat w\<close> k unfolding fe by (simp add: algebra_simps)
    from this [of 0] this [of 1] this [of 2] this [of 3] show ?thesis by (simp add: get32_def)
  qed
  ultimately show ?thesis using r(2)
    by (intro exI [of _ "dev1\<lparr>shown := Picture (ucast w) (ucast h) pitch t\<rparr>"] exI [of _ t]) simp
qed

text \<open>
  C10. From the mode to the window. When the guest has set a mode (the writes with which the driver of this card
  does it, in its order) and they are what is queued in the event ring, then after one wake-up of the event thread and one
  turn of the main loop the window shows a picture of that size; each of its pixels is the pixel of the
  frame buffer at that place of the virtual screen, and no event is left.
\<close>

theorem bochs_shows_mode:
  assumes "ring_ok r" "unat (ring_head r) \<le> unat (ring_tail r)" "list_all2 vbe_write (ring_content r) (mode_writes w h vw vh x y)"
    and "bochs_wakeup r (bga dev) = (r', s')"
    and "0 < unat w" "0 < unat h" "unat x + unat w \<le> unat vw" "(unat y + unat h) * (unat vw * 4) + unat x * 4 \<le> BAR0_FB_SIZE"
    and "sdl_texture S (ucast w) (ucast h)" "sdl_lock S = Some (pixels, pitch)" "unat w * 4 \<le> pitch"
  shows "\<exists>dev' tex. bochs_main_turn S True fb (dev\<lparr>bga := s'\<rparr>) = Some dev' \<and> shown dev' = Picture (ucast w) (ucast h) pitch tex \<and>
    (\<forall>py<unat h. \<forall>px<unat w. get32 tex (py * pitch + px * 4) = get32 fb (((unat y + py) * unat vw + unat x + px) * 4)) \<and>
    ring_head r' = ring_tail r'"
proof -
  obtain evs hd where d: "bochs_drain (events r) (ring_head r) (ring_tail r) = (evs, hd)" by fastforce
  then have e: "evs = ring_content r" "hd = ring_tail r" using bochs_consumer [OF assms(1) d] assms(2) by auto
  then have s': "s' = fold (\<lambda>(i, v). vbe_put i v) (mode_writes w h vw vh x y) (bga dev)" "r' = r\<lparr>ring_head := ring_tail r\<rparr>"
    using assms(4) d writes_put [OF assms(3), of "bga dev"] by (simp_all add: bochs_wakeup_def)
  note st = mode_state [OF s'(1)]
  have nz: "(ucast w :: u32) \<noteq> 0" "(ucast h :: u32) \<noteq> 0"
    using reg16(2) [of w] reg16(2) [of h] assms(5,6) by auto
  define d1 where "d1 = (dev\<lparr>bga := s'\<lparr>mode_changed := False\<rparr>\<rparr>)"
  define d2 where "d2 = (if mode_changed s' then snd (sdl_resize S (ucast w) (ucast h) d1) else d1)"
  have t: "bochs_main_turn S True fb (dev\<lparr>bga := s'\<rparr>) = sdl_present_frame S fb d2"
    using st nz by (simp add: bochs_main_turn_def d2_def d1_def Let_def)
  have b: "bga d2 = s'\<lparr>mode_changed := False\<rparr>" by (simp add: d2_def d1_def sdl_resize_def)
  have "display_on (bga d2)" "vbe (bga d2) 1 = w" "vbe (bga d2) 2 = h" "vbe (bga d2) 3 = 32" "vbe (bga d2) 6 = vw"
    "vbe (bga d2) 8 = x" "vbe (bga d2) 9 = y" using st by (simp_all add: b)
  from present_ok [OF this assms(5-11), of fb] show ?thesis unfolding t using s'(2) by auto
qed

text \<open>
  A picture wider than the virtual screen: the test before the copy is for \<open>h * stride\<close> bytes, the copy of the
  last row takes \<open>4 * w\<close>, past the end of the mapping.
\<close>

theorem narrow_screen_reads_past_end:
  assumes "display_on (bga dev)" "vbe (bga dev) = (\<lambda>_. 0)(1 := 4096, 2 := 1, 3 := 32, 6 := 64, 9 := 65535)"
    and "sdl_texture S 4096 1" "sdl_lock S = Some (pixels, pitch)"
  shows "sdl_present_frame S fb dev = None"
proof -
  have "bga_fb_stride (bga dev) = 256" "bga_scanout_offset (bga dev) = 16776960"
    using assms(2) by (simp_all add: bga_fb_stride_def bga_scanout_offset_def Let_def)
  moreover have "copy_rows fb 16776960 256 16384 pitch 1 pixels = None" by (simp add: copy_rows_def BAR0_FB_SIZE_def)
  ultimately show ?thesis
    using assms by (simp add: sdl_present_frame_def sdl_resize_def Let_def BAR0_FB_SIZE_def)
qed

text \<open>A ring with the ten writes that set a mode of 640 by 480, and a window.\<close>

definition vbe_event :: "nat \<times> u16 \<Rightarrow> event" where
  "vbe_event iv = \<lparr>ev_seq = 0, ev_type = 2, ev_bar = 2, ev_offset = 0x500 + 2 * of_nat (fst iv), ev_size = 2,
     ev_data = ucast (snd iv), ev_timestamp = 0\<rparr>"

definition bochs_ring0 :: shared_ring where
  "bochs_ring0 = \<lparr>ring_head = 0, ring_tail = 10, events = (\<lambda>i. vbe_event (mode_writes 640 480 640 960 0 480 ! i))\<rparr>"

definition bochs_dev0 :: bochs_dev where
  "bochs_dev0 = \<lparr>bga = bochs_first_mode bga_zero, texture = None, shown = Grey\<rparr>"

theorem bochs_shows_mode_witness:
  "\<exists>dev' tex. bochs_main_turn \<lparr>sdl_texture = (\<lambda>_ _. True), sdl_lock = Some (\<lambda>_. 0, 2560)\<rparr> True (\<lambda>a. of_nat a)
      (bochs_dev0\<lparr>bga := snd (bochs_wakeup bochs_ring0 (bga bochs_dev0))\<rparr>) = Some dev' \<and>
    shown dev' = Picture 640 480 2560 tex \<and> get32 tex (2560 + 4) = get32 (\<lambda>a. of_nat a) ((481 * 640 + 1) * 4)"
proof -
  let ?S = "\<lparr>sdl_texture = (\<lambda>_ _. True), sdl_lock = Some (\<lambda>_. 0, 2560)\<rparr>" and ?fb = "\<lambda>a :: nat. of_nat a :: u8"
  have ok: "ring_ok bochs_ring0" by (simp add: ring_ok_def bochs_ring0_def)
  have le: "unat (ring_head bochs_ring0) \<le> unat (ring_tail bochs_ring0)" by (simp add: bochs_ring0_def)
  have all: "list_all2 vbe_write (ring_content bochs_ring0) (mode_writes 640 480 640 960 0 480)"
    by (simp add: ring_content_def ring_len_def bochs_ring0_def upt_rec mode_writes_def vbe_write_def vbe_event_def VBE_IDX_COUNT_def)
  obtain r' s' where w: "bochs_wakeup bochs_ring0 (bga bochs_dev0) = (r', s')" by fastforce
  have "\<exists>dev' tex. bochs_main_turn ?S True ?fb (bochs_dev0\<lparr>bga := s'\<rparr>) = Some dev' \<and> shown dev' = Picture (ucast (640 :: u16)) (ucast (480 :: u16)) 2560 tex \<and>
    (\<forall>py<unat (480 :: u16). \<forall>px<unat (640 :: u16). get32 tex (py * 2560 + px * 4) =
      get32 ?fb (((unat (480 :: u16) + py) * unat (640 :: u16) + unat (0 :: u16) + px) * 4)) \<and> ring_head r' = ring_tail r'"
    by (rule bochs_shows_mode [OF ok le all w]) (simp_all add: BAR0_FB_SIZE_def)
  then obtain dev' tex where "bochs_main_turn ?S True ?fb (bochs_dev0\<lparr>bga := s'\<rparr>) = Some dev'" "shown dev' = Picture 640 480 2560 tex"
    "\<forall>py<480. \<forall>px<640. get32 tex (py * 2560 + px * 4) = get32 ?fb (((480 + py) * 640 + px) * 4)" by auto
  from this(1,2) this(3) [rule_format, of 1 1] show ?thesis by (simp add: w)
qed

end
