(* ===== verification/CardBoot.thy ===== *)
theory CardBoot
  imports NvmeBoot Hda Bochs E1000
begin

text \<open>
  How the sound card, the graphics card, the network card and the accelerator
  (\<^verbatim>\<open>examples/hda/hda_card.c\<close>, \<^verbatim>\<open>examples/bochs_bga/bochs_card.c\<close>, \<^verbatim>\<open>examples/e1000/e1000_card.c\<close>,
  \<^verbatim>\<open>examples/protopciem/userspace/protopciem_card.c\<close>) come up and go away over the character device, in the
  terms of theory NvmeBoot. A program that comes up is in its loop; one that does not has ended. What the
  windows, the sockets and the threads answer are arguments.
\<close>

subsection \<open>What the cards ask for\<close>

definition create_cmd :: "u32 \<times> user_args" where
  "create_cmd = (PCIEM_IOCTL_CREATE_DEVICE, no_args\<lparr>ua_create := Some \<lparr>cr_flags = 0, cr_func = 0\<rparr>\<rparr>)"

definition config_cmd :: "config_regs \<Rightarrow> u32 \<times> user_args" where
  "config_cmd r = (PCIEM_IOCTL_SET_CONFIG, no_args\<lparr>ua_config := Some r\<rparr>)"

definition bar_cmd :: "u32 \<Rightarrow> u32 \<Rightarrow> u64 \<Rightarrow> u32 \<times> user_args" where
  "bar_cmd i flags sz = (PCIEM_IOCTL_ADD_BAR, no_args\<lparr>ua_bar := Some \<lparr>bc_index = i, bc_flags = flags, bc_size = sz, bc_func = 0\<rparr>\<rparr>)"

definition msi_cmd :: "u8 \<Rightarrow> u32 \<times> user_args" where
  "msi_cmd masking = (PCIEM_IOCTL_ADD_CAPABILITY, no_args\<lparr>ua_cap := Some \<lparr>cc_req = Req_MSI 0 1 masking, cc_func = 0\<rparr>\<rparr>)"

definition trace_cmd :: "u32 \<Rightarrow> u32 \<Rightarrow> u32 \<times> user_args" where
  "trace_cmd i flags = (PCIEM_IOCTL_TRACE_BAR, no_args\<lparr>ua_trace := Some \<lparr>tb_index = i, tb_flags = flags, tb_func = 0\<rparr>\<rparr>)"

definition eventfd_args :: "int \<Rightarrow> user_args" where
  "eventfd_args fd = no_args\<lparr>ua_eventfd := Some fd\<rparr>"

definition hda_config :: config_regs where
  "hda_config = \<lparr>cs_func = 0, vendor_id = 0x8086, device_id = 0x2668, subsys_vendor_id = 0x8086, subsys_device_id = 0x2668,
     revision = 0x01, class_prog = 0x00, class_sub = 0x03, class_base = 0x04, header_type = 0\<rparr>"

definition hda_cmds :: "(u32 \<times> user_args) list" where
  "hda_cmds = [create_cmd, config_cmd hda_config, bar_cmd 0 0 0x4000, msi_cmd 0, trace_cmd 0 6]"

definition bochs_config :: config_regs where
  "bochs_config = \<lparr>cs_func = 0, vendor_id = 0x1234, device_id = 0x1111, subsys_vendor_id = 0x1234, subsys_device_id = 0,
     revision = 0x02, class_prog = 0x00, class_sub = 0x80, class_base = 0x03, header_type = 0\<rparr>"

definition bochs_cmds :: "(u32 \<times> user_args) list" where
  "bochs_cmds = [create_cmd, config_cmd bochs_config, bar_cmd 0 0 0x1000000, bar_cmd 2 0 0x10000, trace_cmd 2 2]"

definition e1000_config :: config_regs where
  "e1000_config = \<lparr>cs_func = 0, vendor_id = 0x8086, device_id = 0x100E, subsys_vendor_id = 0x8086, subsys_device_id = 0x100E,
     revision = 0x03, class_prog = 0x00, class_sub = 0x00, class_base = 0x02, header_type = 0\<rparr>"

definition e1000_cmds :: "(u32 \<times> user_args) list" where
  "e1000_cmds = [create_cmd, config_cmd e1000_config, bar_cmd 0 0 0x20000, msi_cmd 0, trace_cmd 0 3]"

definition proto_config :: config_regs where
  "proto_config = \<lparr>cs_func = 0, vendor_id = 0x1F0C, device_id = 0x0001, subsys_vendor_id = 0, subsys_device_id = 0,
     revision = 0, class_prog = 0x00, class_sub = 0x00, class_base = 0x0b, header_type = 0\<rparr>"

definition proto_cmds :: "(u32 \<times> user_args) list" where
  "proto_cmds = [create_cmd, bar_cmd 0 4 0x10000, bar_cmd 2 12 0x100000, trace_cmd 0 2, msi_cmd 1, config_cmd proto_config]"

subsection \<open>Common steps\<close>

definition closed :: "('g, 't) machine \<Rightarrow> ('g, 't) chardev" where
  "closed m = \<lparr>cd_machine = m, cd_us = None, cd_device = False, cd_instances = 0\<rparr>"

definition opened :: "('g, 't) machine \<Rightarrow> us_state \<Rightarrow> ('g, 't) chardev" where
  "opened m s = \<lparr>cd_machine = m, cd_us = Some s, cd_device = True, cd_instances = 0\<rparr>"

text \<open>Commands whose answers the program does not look at.\<close>

fun card_calls :: "('g, 'm, 't) card_env \<Rightarrow> nat \<Rightarrow> (u32 \<times> user_args) list \<Rightarrow> ('g, 't) chardev \<Rightarrow> ('g, 't) chardev option" where
  "card_calls X n [] c = Some c"
| "card_calls X n ((cmd, A) # cmds) c = do { (_, c) \<leftarrow> card_ioctl X n cmd A c; card_calls X (n + 1) cmds c }"

definition map_instance :: "bool \<Rightarrow> u64 \<Rightarrow> u64 \<Rightarrow> ('g, 't) chardev \<Rightarrow> bool" where
  "map_instance remap len pgoff c =
     (0 < cd_instances c \<and>
      (case cd_us c of
         None \<Rightarrow> False
       | Some s \<Rightarrow> \<not> isl (pciem_instance_mmap remap len pgoff (m_kernel (cd_machine c)) (us_slot s))))"

definition map_ring :: "unit res \<Rightarrow> ('g, 't) chardev \<Rightarrow> bool" where
  "map_ring ring c \<longleftrightarrow> cd_device c \<and> \<not> isl (pciem_device_mmap ring 0 12416)"

subsection \<open>The sound card\<close>

text \<open>Whether the answer is 0; the eventfd itself is a number of the process.\<close>

definition hda_register :: "('g, 'm, 't) card_env \<Rightarrow> int \<Rightarrow> ('g, 't) machine \<Rightarrow> (bool \<times> ('g, 't) chardev) option" where
  "hda_register X fd m =
     (let E = snd (snd X); fail = (\<lambda>c. map_option (Pair False) (close_device (E 8) c)) in
      case pciem_open (sv_mem (E 0)) of
        Inl e \<Rightarrow> Some (False, closed m)
      | Inr s \<Rightarrow> do {
          (ok, c) \<leftarrow> card_ioctls X 1 hda_cmds (opened m s);
          if \<not> ok \<or> fd < 0 then fail c
          else do {
            (ans, c) \<leftarrow> card_ioctl X 6 PCIEM_IOCTL_SET_EVENTFD (eventfd_args fd) c;
            if ans \<noteq> Code (Inr ()) then fail c
            else do {
              (ans, c) \<leftarrow> card_ioctl X 7 PCIEM_IOCTL_REGISTER no_args c;
              case ans of Fd (Inr n) \<Rightarrow> Some (True, c) | _ \<Rightarrow> fail c } } })"

definition hda_main ::
    "('g, 'm, 't) card_env \<Rightarrow> int \<Rightarrow> bool \<Rightarrow> unit res \<Rightarrow> (nat \<Rightarrow> bool) \<Rightarrow> bytes \<Rightarrow> hda_state \<Rightarrow> ('g, 't) machine \<Rightarrow>
       (bool \<times> hda_state \<times> ('g, 't) chardev) option" where
  "hda_main X fd remap ring threads mem h m =
     (let stop = (\<lambda>h c. map_option (\<lambda>c. (False, h, c)) (process_exit (snd (snd X) 9) c)) in
      do {
        (ok, c) \<leftarrow> hda_register X fd m;
        if \<not> ok \<or> \<not> map_instance remap 0x4000 0 c \<or> \<not> map_ring ring c then stop h c
        else
          (let h = hda_setup_shadow_regs (h\<lparr>h_bar0 := mem\<rparr>) in
           if \<not> threads 0 then stop h c
           else do {
             (ans, c) \<leftarrow> card_ioctl X 8 PCIEM_IOCTL_START no_args c;
             if ans \<noteq> Code (Inr ()) \<or> \<not> threads 1 then stop h c else Some (True, h, c) }) })"

text \<open>The end of a card that ran: the instance, then the device.\<close>

definition hda_shutdown :: "('g, 't) services \<Rightarrow> ('g, 't) chardev \<Rightarrow> ('g, 't) chardev option" where
  "hda_shutdown E c = do { c \<leftarrow> close_instance E c; close_device E c }"

subsection \<open>The graphics card\<close>

text \<open>\<open>dev_setup\<close>; it leaves everything to \<open>dev_teardown\<close>, which closes in the order of \<open>dev_destroy\<close>.\<close>

definition bochs_setup ::
    "('g, 'm, 't) card_env \<Rightarrow> int \<Rightarrow> (nat \<Rightarrow> bool) \<Rightarrow> unit res \<Rightarrow> ('g, 't) machine \<Rightarrow> (bool \<times> ('g, 't) chardev) option" where
  "bochs_setup X fd remap ring m =
     (case pciem_open (sv_mem (snd (snd X) 0)) of
        Inl e \<Rightarrow> Some (False, closed m)
      | Inr s \<Rightarrow> do {
          (ok, c) \<leftarrow> card_ioctls X 1 bochs_cmds (opened m s);
          if \<not> ok \<or> fd < 0 then Some (False, c)
          else do {
            (ans, c) \<leftarrow> card_ioctl X 6 PCIEM_IOCTL_SET_EVENTFD (eventfd_args fd) c;
            if ans \<noteq> Code (Inr ()) then Some (False, c)
            else do {
              (ans, c) \<leftarrow> card_ioctl X 7 PCIEM_IOCTL_REGISTER no_args c;
              case ans of
                Fd (Inr n) \<Rightarrow> Some (map_ring ring c \<and> map_instance (remap 0) 0x1000000 0 c \<and> map_instance (remap 2) 0x10000 2 c, c)
              | _ \<Rightarrow> Some (False, c) } } })"

definition bochs_teardown :: "('g, 't) services \<Rightarrow> ('g, 't) chardev \<Rightarrow> ('g, 't) chardev option" where
  "bochs_teardown E c = do {
     c \<leftarrow> if 0 < cd_instances c then close_instance E c else Some c;
     if cd_device c then close_device E c else Some c }"

definition bochs_main ::
    "('g, 'm, 't) card_env \<Rightarrow> bool \<Rightarrow> int \<Rightarrow> (nat \<Rightarrow> bool) \<Rightarrow> unit res \<Rightarrow> bool \<Rightarrow> ('g, 't) machine \<Rightarrow>
       (bool \<times> ('g, 't) chardev) option" where
  "bochs_main X sdl fd remap ring thread m =
     (let stop = (\<lambda>c. map_option (Pair False) (bochs_teardown (snd (snd X) 9) c)) in
      if \<not> sdl then Some (False, closed m)
      else do {
        (ok, c) \<leftarrow> bochs_setup X fd remap ring m;
        if \<not> ok then stop c
        else do {
          (ans, c) \<leftarrow> card_ioctl X 8 PCIEM_IOCTL_START no_args c;
          if ans \<noteq> Code (Inr ()) \<or> \<not> thread then stop c else Some (True, c) } })"

subsection \<open>The network card\<close>

definition e1000_main ::
    "('g, 'm, 't) card_env \<Rightarrow> bool \<Rightarrow> int \<Rightarrow> bool \<Rightarrow> unit res \<Rightarrow> bool \<Rightarrow> bytes \<Rightarrow> ('g, 't) machine \<Rightarrow>
       (bool \<times> ('g, 't) chardev) option" where
  "e1000_main X interface fd remap ring sock mem m =
     (let E = snd (snd X); stop = (\<lambda>c. map_option (Pair False) (process_exit (E 9) c)) in
      if \<not> interface then Some (False, closed m)
      else
        (case pciem_open (sv_mem (E 0)) of
           Inl e \<Rightarrow> Some (False, closed m)
         | Inr s \<Rightarrow> do {
             c \<leftarrow> card_calls X 1 (e1000_cmds @ [(PCIEM_IOCTL_SET_EVENTFD, eventfd_args fd), (PCIEM_IOCTL_REGISTER, no_args)]) (opened m s);
             if \<not> map_instance remap 0x20000 0 c \<or> \<not> map_ring ring c \<or> \<not> sock then stop c
             else do { c \<leftarrow> card_calls X 8 [(PCIEM_IOCTL_START, no_args)] c; Some (True, c) } }))"

subsection \<open>The accelerator\<close>

definition register_device :: "('g, 'm, 't) card_env \<Rightarrow> ('g, 't) machine \<Rightarrow> (bool \<times> ('g, 't) chardev) option" where
  "register_device X m =
     (case pciem_open (sv_mem (snd (snd X) 0)) of
        Inl e \<Rightarrow> Some (False, closed m)
      | Inr s \<Rightarrow> do {
          c \<leftarrow> card_calls X 1 proto_cmds (opened m s);
          (ans, c) \<leftarrow> card_ioctl X 7 PCIEM_IOCTL_REGISTER no_args c;
          Some (case ans of Fd (Inr n) \<Rightarrow> True | _ \<Rightarrow> False, c) })"

definition map_device :: "(nat \<Rightarrow> bool) \<Rightarrow> unit res \<Rightarrow> ('g, 't) chardev \<Rightarrow> bool" where
  "map_device remap ring c \<longleftrightarrow>
     map_instance (remap 0) 0x10000 0 c \<and> map_instance (remap 2) 0x100000 2 c \<and> map_ring ring c"

text \<open>The eventfds of the card, \<open>- 1\<close> for one that could not be set up.\<close>

definition setup_eventfd :: "('g, 'm, 't) card_env \<Rightarrow> int \<Rightarrow> ('g, 't) chardev \<Rightarrow> (int \<times> ('g, 't) chardev) option" where
  "setup_eventfd X fd c =
     (if fd < 0 then Some (fd, c)
      else do {
        (ans, c) \<leftarrow> card_ioctl X 8 PCIEM_IOCTL_SET_EVENTFD (eventfd_args fd) c;
        Some (if ans = Code (Inr ()) then fd else - 1, c) })"

text \<open>\<open>func\<close> is what the stack holds in the field the program does not set.\<close>

definition setup_irq_fd :: "('g, 'm, 't) card_env \<Rightarrow> u8 \<Rightarrow> int \<Rightarrow> ('g, 't) chardev \<Rightarrow> (int \<times> ('g, 't) chardev) option" where
  "setup_irq_fd X func fd c =
     (if fd < 0 then Some (fd, c)
      else do {
        (ans, c) \<leftarrow> card_ioctl X 9 PCIEM_IOCTL_SET_IRQFD
           (no_args\<lparr>ua_irqfd := Some \<lparr>ic_eventfd = fd, ic_vector = 0, ic_flags = 0, ic_func = func\<rparr>\<rparr>) c;
        Some (if ans = Code (Inr ()) then fd else - 1, c) })"

definition destroy_device :: "('g, 't) services \<Rightarrow> ('g, 't) chardev \<Rightarrow> ('g, 't) chardev option" where
  "destroy_device E c = do {
     c \<leftarrow> if 0 < cd_instances c then close_instance E c else Some c;
     if cd_device c then close_device E c else Some c }"

text \<open>The card in its loop with its two eventfds, or ended; the status with which it ends is 0 all the same.\<close>

definition proto_main ::
    "('g, 'm, 't) card_env \<Rightarrow> bool \<Rightarrow> (nat \<Rightarrow> bool) \<Rightarrow> unit res \<Rightarrow> bool \<Rightarrow> u8 \<Rightarrow> int \<Rightarrow> int \<Rightarrow> ('g, 't) machine \<Rightarrow>
       (bool \<times> int \<times> int \<times> ('g, 't) chardev) option" where
  "proto_main X superuser remap ring sock func fd fd2 m =
     (let stop = (\<lambda>c. map_option (\<lambda>c. (False, - 1, - 1, c)) (destroy_device (snd (snd X) 10) c)) in
      if \<not> superuser then Some (False, - 1, - 1, closed m)
      else do {
        (ok, c) \<leftarrow> register_device X m;
        if \<not> ok \<or> \<not> map_device remap ring c \<or> \<not> sock then stop c
        else do {
          (efd, c) \<leftarrow> setup_eventfd X fd c;
          (qfd, c) \<leftarrow> setup_irq_fd X func fd2 c;
          Some (True, efd, qfd, c) } })"

end
