(* ===== verification/CardStart.thy ===== *)
theory CardStart
  imports CardBoot
begin

text \<open>
  What the start of the example cards leaves: every way a card ends closes everything, and the cards that ask
  for MSI never get it.
\<close>

subsection \<open>The cards only take steps of the device\<close>

lemma closed_reach: "card_reach X m (closed m)"
  by (simp add: card_reach_def closed_def)

lemma opened_reach: "pciem_open mem = Inr s \<Longrightarrow> card_reach X m (opened m s)"
  using cdev_reach.opened [of mem s "fst X" "fst (snd X)" m] by (simp add: card_reach_def opened_def)

lemma card_calls_reach:
  "card_calls X n cmds c = Some c' \<Longrightarrow> card_reach X m c \<Longrightarrow> cd_device c \<Longrightarrow> card_reach X m c' \<and> cd_device c'"
proof (induction X n cmds c rule: card_calls.induct)
  case (2 X n cmd A cmds c)
  then obtain ans c1 where "card_ioctl X n cmd A c = Some (ans, c1)" "card_calls X (n + 1) cmds c1 = Some c'"
    by (auto simp: bind_eq_Some_conv)
  with card_ioctl_reach [OF this(1) 2(3,4)] 2(1) show ?case by blast
qed simp

text \<open>Only a registration hands out a descriptor.\<close>

lemma ioctl_code:
  assumes "card_ioctl X n cmd A c = Some (ans, c')" "cmd \<noteq> PCIEM_IOCTL_REGISTER"
  shows "cd_instances c' = cd_instances c"
proof -
  obtain galloc search E where X: "X = (galloc, search, E)" by (cases X)
  obtain s mm s' where "pciem_device_ioctl galloc search (E n) cmd A (cd_machine c) s = Some (ans, mm, s')"
      "cd_instances c' = cd_instances c + hands_out ans"
    using assms(1) by (auto simp: X split: option.splits)
  with assms(2) show ?thesis
    by (auto simp: pciem_device_ioctl_def hands_out_def Let_def split: if_splits prod.splits option.splits prp_result.splits)
qed

lemma ioctls_code:
  assumes "card_ioctls X n cmds c = Some (ok, c')" "PCIEM_IOCTL_REGISTER \<notin> fst ` set cmds"
  shows "cd_instances c' = cd_instances c"
  using assms
proof (induction cmds arbitrary: n c)
  case (Cons x cmds)
  obtain cmd A where x: "x = (cmd, A)" by (cases x)
  obtain ans c1 where c1: "card_ioctl X n cmd A c = Some (ans, c1)" using Cons(2) by (auto simp: x split: option.splits)
  have "cmd \<noteq> PCIEM_IOCTL_REGISTER" using Cons(3) by (auto simp: x)
  note i = ioctl_code [OF c1 this]
  show ?case
  proof (cases "ans = Code (Inr ())")
    case True
    then have "card_ioctls X (n + 1) cmds c1 = Some (ok, c')" using Cons(2) c1 by (simp add: x)
    from Cons(1) [OF this] Cons(3) i show ?thesis by simp
  next
    case False
    then show ?thesis using Cons(2) c1 i by (simp add: x)
  qed
qed simp

text \<open>The three ways of closing what is open.\<close>

lemma teardown_eq: "bochs_teardown E c = dev_destroy E c" "destroy_device E c = dev_destroy E c"
  by (simp_all add: bochs_teardown_def destroy_device_def dev_destroy_def)

lemma close_device_all:
  assumes "close_device E c = Some c'" "card_reach X m c" "cd_device c" "cd_instances c = 0"
  shows "card_reach X m c' \<and> \<not> cd_device c' \<and> cd_instances c' = 0"
  using close_device_reach [OF assms(1-3)] assms(4) by simp

lemma cmds_no_register:
  "PCIEM_IOCTL_REGISTER \<notin> fst ` set hda_cmds" "PCIEM_IOCTL_REGISTER \<notin> fst ` set bochs_cmds"
  by (simp_all add: hda_cmds_def bochs_cmds_def create_cmd_def config_cmd_def bar_cmd_def msi_cmd_def trace_cmd_def ioctl_values)

lemma setfd_no_register: "PCIEM_IOCTL_SET_EVENTFD \<noteq> PCIEM_IOCTL_REGISTER"
  by (simp add: ioctl_values)

lemma hda_register_reach:
  assumes "hda_register X fd m = Some (ok, c)" "fresh_kernel m"
  shows "card_reach X m c \<and> (ok \<longrightarrow> cd_device c) \<and> (\<not> ok \<longrightarrow> \<not> cd_device c \<and> cd_instances c = 0)"
proof (cases "pciem_open (sv_mem (snd (snd X) 0))")
  case (Inl e)
  then show ?thesis using assms(1) closed_reach [of X m] by (auto simp: hda_register_def closed_def)
next
  case (Inr s)
  note open_ok = opened_reach [OF Inr, of X m]
  have dev: "cd_device (opened m s)" "cd_instances (opened m s) = 0" by (simp_all add: opened_def)
  obtain ok1 c1 where c1: "card_ioctls X 1 hda_cmds (opened m s) = Some (ok1, c1)"
    using assms(1) Inr by (auto simp: hda_register_def Let_def bind_eq_Some_conv)
  have r1: "card_reach X m c1" "cd_device c1" "cd_instances c1 = 0"
    using card_ioctls_reach [OF c1 open_ok dev(1)] ioctls_code [OF c1 cmds_no_register(1)] dev(2) by simp_all
  note fail = close_device_all [where X = X and m = m]
  show ?thesis
  proof (cases "\<not> ok1 \<or> fd < 0")
    case True
    then show ?thesis using assms(1) Inr c1 fail [OF _ r1] by (auto simp: hda_register_def)
  next
    case False
    then obtain ans c2 where c2: "card_ioctl X 6 PCIEM_IOCTL_SET_EVENTFD (eventfd_args fd) c1 = Some (ans, c2)"
      using assms(1) Inr c1 by (auto simp: hda_register_def Let_def bind_eq_Some_conv)
    have r2: "card_reach X m c2" "cd_device c2" "cd_instances c2 = 0"
      using card_ioctl_reach [OF c2 r1(1,2)] ioctl_code [OF c2 setfd_no_register] r1(3) by simp_all
    show ?thesis
    proof (cases "ans = Code (Inr ())")
      case False
      then show ?thesis using \<open>\<not> (\<not> ok1 \<or> fd < 0)\<close> assms(1) Inr c1 c2 fail [OF _ r2] by (auto simp: hda_register_def)
    next
      case ans: True
      then obtain ans3 c3 where c3: "card_ioctl X 7 PCIEM_IOCTL_REGISTER no_args c2 = Some (ans3, c3)"
        using False assms(1) Inr c1 c2 by (auto simp: hda_register_def Let_def bind_eq_Some_conv)
      have r3: "card_reach X m c3" "cd_device c3" using card_ioctl_reach [OF c3 r2(1,2)] by simp_all
      have h: "hands_out ans3 = 0 \<Longrightarrow> cd_instances c3 = 0"
        using c3 r2(3) by (cases X) (auto split: option.splits)
      have "(case ans3 of Fd (Inr n) \<Rightarrow> Some (True, c3) | _ \<Rightarrow> map_option (Pair False) (close_device (snd (snd X) 8) c3)) = Some (ok, c)"
        using assms(1) False Inr c1 c2 ans c3 by (simp add: hda_register_def Let_def split: answer.split sum.split)
      then show ?thesis using r3 fail [OF _ r3 h] by (auto simp: hands_out_def split: answer.splits sum.splits)
    qed
  qed
qed

lemma hda_main_reach:
  assumes "hda_main X fd remap ring threads mem h m = Some (up, h', c)" "fresh_kernel m"
  shows "card_reach X m c \<and> (up \<longrightarrow> cd_device c) \<and> (\<not> up \<longrightarrow> \<not> cd_device c \<and> cd_instances c = 0)"
proof -
  note stop = destroy_reach [OF disjI2 _ assms(2), of "snd (snd X) 9" _ _ X]
  obtain ok c1 where c1: "hda_register X fd m = Some (ok, c1)"
    using assms(1) by (auto simp: hda_main_def Let_def bind_eq_Some_conv)
  have r1: "card_reach X m c1" "ok \<Longrightarrow> cd_device c1" using hda_register_reach [OF c1 assms(2)] by simp_all
  show ?thesis
  proof (cases "ok \<and> map_instance remap 0x4000 0 c1 \<and> map_ring ring c1 \<and> threads 0")
    case False
    then show ?thesis using assms(1) c1 stop [OF _ r1(1)] by (auto simp: hda_main_def Let_def split: if_splits)
  next
    case True
    then obtain ans c2 where c2: "card_ioctl X 8 PCIEM_IOCTL_START no_args c1 = Some (ans, c2)"
      using assms(1) c1 by (auto simp: hda_main_def Let_def bind_eq_Some_conv)
    have r2: "card_reach X m c2" "cd_device c2" using card_ioctl_reach [OF c2 r1(1)] r1(2) True by simp_all
    show ?thesis using assms(1) True c1 c2 r2 stop [OF _ r2(1)] by (auto simp: hda_main_def Let_def split: if_splits)
  qed
qed

lemma bochs_setup_reach:
  assumes "bochs_setup X fd remap ring m = Some (ok, c)"
  shows "card_reach X m c \<and> (ok \<longrightarrow> cd_device c)"
proof (cases "pciem_open (sv_mem (snd (snd X) 0))")
  case (Inl e)
  then show ?thesis using assms closed_reach [of X m] by (auto simp: bochs_setup_def)
next
  case (Inr s)
  obtain ok1 c1 where c1: "card_ioctls X 1 bochs_cmds (opened m s) = Some (ok1, c1)"
    using assms Inr by (auto simp: bochs_setup_def bind_eq_Some_conv)
  have r1: "card_reach X m c1" "cd_device c1"
    using card_ioctls_reach [OF c1 opened_reach [OF Inr]] by (simp_all add: opened_def)
  show ?thesis
  proof (cases "\<not> ok1 \<or> fd < 0")
    case True
    then show ?thesis using assms Inr c1 r1 by (auto simp: bochs_setup_def)
  next
    case False
    then obtain ans c2 where c2: "card_ioctl X 6 PCIEM_IOCTL_SET_EVENTFD (eventfd_args fd) c1 = Some (ans, c2)"
      using assms Inr c1 by (auto simp: bochs_setup_def bind_eq_Some_conv)
    have r2: "card_reach X m c2" "cd_device c2" using card_ioctl_reach [OF c2 r1] by simp_all
    show ?thesis
    proof (cases "ans = Code (Inr ())")
      case True
      then obtain ans3 c3 where c3: "card_ioctl X 7 PCIEM_IOCTL_REGISTER no_args c2 = Some (ans3, c3)"
        using False assms Inr c1 c2 by (auto simp: bochs_setup_def bind_eq_Some_conv)
      have "card_reach X m c3" "cd_device c3" using card_ioctl_reach [OF c3 r2] by simp_all
      then show ?thesis using assms False True Inr c1 c2 c3 by (auto simp: bochs_setup_def split: answer.splits sum.splits)
    qed (use assms False Inr c1 c2 r2 in \<open>auto simp: bochs_setup_def\<close>)
  qed
qed

lemma bochs_main_reach:
  assumes "bochs_main X sdl fd remap ring thread m = Some (up, c)" "fresh_kernel m"
  shows "card_reach X m c \<and> (up \<longrightarrow> cd_device c) \<and> (\<not> up \<longrightarrow> \<not> cd_device c \<and> cd_instances c = 0)"
proof (cases sdl)
  case False
  then show ?thesis using assms(1) closed_reach [of X m] by (auto simp: bochs_main_def closed_def)
next
  case sdl: True
  note stop = destroy_reach [OF disjI1 _ assms(2), of "snd (snd X) 9" _ _ X]
  obtain ok c1 where c1: "bochs_setup X fd remap ring m = Some (ok, c1)"
    using assms(1) sdl by (auto simp: bochs_main_def Let_def bind_eq_Some_conv)
  have r1: "card_reach X m c1" "ok \<Longrightarrow> cd_device c1" using bochs_setup_reach [OF c1] by simp_all
  show ?thesis
  proof (cases ok)
    case False
    then show ?thesis using assms(1) sdl c1 stop [OF _ r1(1)] by (auto simp: bochs_main_def teardown_eq)
  next
    case True
    then obtain ans c2 where c2: "card_ioctl X 8 PCIEM_IOCTL_START no_args c1 = Some (ans, c2)"
      using assms(1) sdl c1 by (auto simp: bochs_main_def Let_def bind_eq_Some_conv)
    have r2: "card_reach X m c2" "cd_device c2" using card_ioctl_reach [OF c2 r1(1)] r1(2) True by simp_all
    show ?thesis using assms(1) sdl True c1 c2 r2 stop [OF _ r2(1)] by (auto simp: bochs_main_def teardown_eq split: if_splits)
  qed
qed

lemma e1000_main_reach:
  assumes "e1000_main X interface fd remap ring sock mem m = Some (up, c)" "fresh_kernel m"
  shows "card_reach X m c \<and> (up \<longrightarrow> cd_device c) \<and> (\<not> up \<longrightarrow> \<not> cd_device c \<and> cd_instances c = 0)"
proof (cases "\<not> interface \<or> isl (pciem_open (sv_mem (snd (snd X) 0)))")
  case True
  then show ?thesis using assms(1) closed_reach [of X m] by (auto simp: e1000_main_def closed_def Let_def split: sum.splits if_splits)
next
  case False
  then obtain s where op: "pciem_open (sv_mem (snd (snd X) 0)) = Inr s" by (cases "pciem_open (sv_mem (snd (snd X) 0))") auto
  let ?cmds = "e1000_cmds @ [(PCIEM_IOCTL_SET_EVENTFD, eventfd_args fd), (PCIEM_IOCTL_REGISTER, no_args)]"
  obtain c1 where c1: "card_calls X 1 ?cmds (opened m s) = Some c1"
    using assms(1) False op by (auto simp: e1000_main_def Let_def bind_eq_Some_conv)
  have r1: "card_reach X m c1" "cd_device c1"
    using card_calls_reach [OF c1 opened_reach [OF op]] by (simp_all add: opened_def)
  note stop = destroy_reach [OF disjI2 r1(1) assms(2), of "snd (snd X) 9"]
  show ?thesis
  proof (cases "\<not> map_instance remap 0x20000 0 c1 \<or> \<not> map_ring ring c1 \<or> \<not> sock")
    case True
    then show ?thesis using assms(1) False op c1 stop by (auto simp: e1000_main_def Let_def)
  next
    case up: False
    then have "up \<and> card_calls X 8 [(PCIEM_IOCTL_START, no_args)] c1 = Some c"
      using assms(1) False op c1 by (auto simp: e1000_main_def Let_def bind_eq_Some_conv)
    then show ?thesis using card_calls_reach [OF _ r1] by blast
  qed
qed

lemma register_device_reach:
  assumes "register_device X m = Some (ok, c)"
  shows "card_reach X m c \<and> (ok \<longrightarrow> cd_device c)"
proof (cases "pciem_open (sv_mem (snd (snd X) 0))")
  case (Inl e)
  then show ?thesis using assms closed_reach [of X m] by (auto simp: register_device_def)
next
  case (Inr s)
  obtain c1 ans where c1: "card_calls X 1 proto_cmds (opened m s) = Some c1" "card_ioctl X 7 PCIEM_IOCTL_REGISTER no_args c1 = Some (ans, c)"
    using assms Inr by (auto simp: register_device_def bind_eq_Some_conv)
  have "card_reach X m c1 \<and> cd_device c1" using card_calls_reach [OF c1(1) opened_reach [OF Inr]] by (simp add: opened_def)
  then show ?thesis using card_ioctl_reach [OF c1(2)] by blast
qed

lemma setup_fds_reach:
  "setup_eventfd X fd c = Some (fd', c') \<Longrightarrow> card_reach X m c \<Longrightarrow> cd_device c \<Longrightarrow> card_reach X m c' \<and> cd_device c'"
  "setup_irq_fd X func fd c = Some (fd', c') \<Longrightarrow> card_reach X m c \<Longrightarrow> cd_device c \<Longrightarrow> card_reach X m c' \<and> cd_device c'"
  by (auto simp: setup_eventfd_def setup_irq_fd_def bind_eq_Some_conv split: if_splits dest: card_ioctl_reach)

lemma proto_main_reach:
  assumes "proto_main X superuser remap ring sock func fd fd2 m = Some (up, e1, e2, c)" "fresh_kernel m"
  shows "card_reach X m c \<and> (up \<longrightarrow> cd_device c) \<and> (\<not> up \<longrightarrow> \<not> cd_device c \<and> cd_instances c = 0)"
proof (cases superuser)
  case False
  then show ?thesis using assms(1) closed_reach [of X m] by (auto simp: proto_main_def closed_def)
next
  case True
  obtain ok c1 where c1: "register_device X m = Some (ok, c1)"
    using assms(1) True by (auto simp: proto_main_def Let_def bind_eq_Some_conv)
  have r1: "card_reach X m c1" "ok \<Longrightarrow> cd_device c1" using register_device_reach [OF c1] by simp_all
  note stop = destroy_reach [OF disjI1 r1(1) assms(2), of "snd (snd X) 10"]
  show ?thesis
  proof (cases "ok \<and> map_device remap ring c1 \<and> sock")
    case False
    then show ?thesis using assms(1) True c1 stop by (auto simp: proto_main_def teardown_eq)
  next
    case ok: True
    then obtain c2 where "setup_eventfd X fd c1 = Some (e1, c2)" "setup_irq_fd X func fd2 c2 = Some (e2, c)" "up"
      using assms(1) True c1 by (auto simp: proto_main_def bind_eq_Some_conv)
    then show ?thesis using setup_fds_reach(1) [OF _ r1] setup_fds_reach(2) ok by blast
  qed
qed

end
