(* ===== verification/CardCaps.thy ===== *)
theory CardCaps
  imports CardStart
begin

text \<open>
  The properties of the starts: nothing is left of a card that has ended, and MSI, which the capability manager
  grants only after a PCI Express capability, is refused to every card that asks for it.
\<close>

subsection \<open>A function without capabilities\<close>

definition no_caps :: "('g, 't) chardev \<Rightarrow> bool" where
  "no_caps c \<longleftrightarrow> (\<forall>s a v mgr. cd_us c = Some s \<longrightarrow> slot_funcs (us_slot s) 0 = Some a \<longrightarrow>
     k_objs (m_kernel (cd_machine c)) a = Some v \<longrightarrow> cap_mgr v = Some mgr \<longrightarrow> caps mgr = [])"

lemma opened_no_funcs: "pciem_open mem = Inr s \<Longrightarrow> us_slot s = session0"
  by (auto simp: pciem_open_def pciem_userspace_create_def session0_def split: if_splits sum.splits)

lemma create_no_caps:
  assumes "card_ioctl X n (fst create_cmd) (snd create_cmd) (opened m s) = Some (ans, c)" "us_slot s = session0"
  shows "no_caps c"
  using assms
  by (cases X) (auto simp: no_caps_def opened_def create_cmd_def select no_args_def session0_def pciem_ioctl_create_device_def create_check_def
      create_object_def create_commit_def pciem_alloc_root_complex_def pciem_init_cap_manager_def Let_def split: if_splits sum.splits prod.splits)

lemma config_no_caps:
  assumes "card_ioctl X n (fst (config_cmd r)) (snd (config_cmd r)) c = Some (ans, c')" "no_caps c"
  shows "no_caps c'"
  using assms
  by (cases X) (auto simp: no_caps_def config_cmd_def select no_args_def pciem_ioctl_set_config_def with_func_def put_obj_def
      split: option.splits sum.splits if_splits)

lemma register_bar_caps:
  "pciem_register_bar galloc search p v i sz fl = (rc, p', v') \<Longrightarrow> cap_mgr v' = cap_mgr v"
  for v :: "'a rc_bars_scheme"
  by (auto simp: pciem_register_bar_def Let_def split: if_splits prod.splits)

lemma bar_no_caps:
  assumes "card_ioctl X n (fst (bar_cmd i fl sz)) (snd (bar_cmd i fl sz)) c = Some (ans, c')" "no_caps c"
  shows "no_caps c'"
  using assms
  by (cases X) (auto simp: no_caps_def bar_cmd_def select no_args_def pciem_ioctl_add_bar_def with_func_def put_obj_def Let_def
      dest!: register_bar_caps split: option.splits sum.splits if_splits prod.splits)

lemma trace_no_caps:
  assumes "card_ioctl X n (fst (trace_cmd i fl)) (snd (trace_cmd i fl)) c = Some (ans, c')" "no_caps c"
  shows "no_caps c'"
  using assms
  by (cases X) (auto simp: no_caps_def trace_cmd_def select split: option.splits prod.splits)

text \<open>The MSI request is refused, and changes nothing.\<close>

lemma msi_refused:
  assumes "\<And>mgr. cap_mgr v = Some mgr \<Longrightarrow> caps mgr = []"
  shows "\<exists>e. request_cap (Req_MSI k w x) v = (Inl e, v)"
  using assms
  by (cases "cap_mgr v") (auto simp: pciem_add_cap_msi_def cap_slot_def pciem_cap_manager_find_def)

lemma msi_no_caps:
  assumes "card_ioctl X n (fst (msi_cmd x)) (snd (msi_cmd x)) c = Some (ans, c')" "no_caps c"
  shows "no_caps c' \<and> ans \<noteq> Code (Inr ())"
proof -
  obtain galloc search E where X: "X = (galloc, search, E)" by (cases X)
  obtain s where s: "cd_us c = Some s" using assms(1) by (auto simp: X split: option.splits)
  let ?k = "m_kernel (cd_machine c)"
  obtain rc k where k: "pciem_ioctl_add_capability (Some \<lparr>cc_req = Req_MSI 0 1 x, cc_func = 0\<rparr>) ?k (us_slot s) = (rc, k)"
      "ans = Code rc" "c' = c\<lparr>cd_machine := (cd_machine c)\<lparr>m_kernel := k\<rparr>, cd_us := Some s, cd_instances := cd_instances c + hands_out ans\<rparr>"
    using assms(1) s by (auto simp: X msi_cmd_def select no_args_def split: prod.splits)
  have "rc \<noteq> Inr () \<and> k_objs k = k_objs ?k"
  proof (cases "with_func (pciem_check_unregistered (us_slot s)) (Some \<lparr>cc_req = Req_MSI 0 1 x, cc_func = 0\<rparr>) cc_func ?k (us_slot s)")
    case (Inl e)
    then show ?thesis using k(1) Inl by (auto simp: pciem_ioctl_add_capability_def)
  next
    case (Inr t)
    then obtain a v where t: "t = (\<lparr>cc_req = Req_MSI 0 1 x, cc_func = 0\<rparr>, a, v)" "slot_funcs (us_slot s) 0 = Some a" "k_objs ?k a = Some v"
      by (auto simp: with_func_def us_get_rc_def split: sum.splits option.splits if_splits)
    have "caps mgr = []" if "cap_mgr v = Some mgr" for mgr using assms(2) s t(2,3) that by (auto simp: no_caps_def)
    from msi_refused [where k = 0 and w = 1 and x = x, OF this] obtain e where "request_cap (Req_MSI 0 1 x) v = (Inl e, v)" by blast
    then show ?thesis using k(1) Inr t by (auto simp: pciem_ioctl_add_capability_def put_obj_def)
  qed
  then show ?thesis using assms(2) s k(2,3) by (auto simp: no_caps_def)
qed

subsection \<open>The cards that ask for MSI\<close>

lemma ioctls_Cons:
  "card_ioctls X n (x # xs) c = (case card_ioctl X n (fst x) (snd x) c of None \<Rightarrow> None
     | Some (ans, c') \<Rightarrow> if ans = Code (Inr ()) then card_ioctls X (n + 1) xs c' else Some (False, c'))"
  "card_calls X n (x # xs) c = do { (_, c) \<leftarrow> card_ioctl X n (fst x) (snd x) c; card_calls X (n + 1) xs c }"
  by (cases x; simp)+

lemma hda_cmds_fail:
  assumes "card_ioctls X n hda_cmds (opened m s) = Some (ok, c)" "us_slot s = session0"
  shows "\<not> ok"
proof (rule ccontr)
  assume "\<not> \<not> ok"
  then obtain c1 c2 c3 c4 where
    "card_ioctl X n (fst create_cmd) (snd create_cmd) (opened m s) = Some (Code (Inr ()), c1)"
    "card_ioctl X (n + 1) (fst (config_cmd hda_config)) (snd (config_cmd hda_config)) c1 = Some (Code (Inr ()), c2)"
    "card_ioctl X (n + 1 + 1) (fst (bar_cmd 0 0 0x4000)) (snd (bar_cmd 0 0 0x4000)) c2 = Some (Code (Inr ()), c3)"
    "card_ioctl X (n + 1 + 1 + 1) (fst (msi_cmd 0)) (snd (msi_cmd 0)) c3 = Some (Code (Inr ()), c4)"
    using assms(1) unfolding hda_cmds_def ioctls_Cons by (auto split: option.splits prod.splits if_splits)
  with create_no_caps [OF this(1) assms(2)] show False using config_no_caps bar_no_caps msi_no_caps by blast
qed

text \<open>
  C11. The sound card cannot come up. Whatever the kernel grants, its registration fails: the capability manager
  refuses MSI to a function without a PCI Express capability, which the card does not ask for. The
  program ends, its descriptors are closed, and nothing made for it is left in the kernel.
\<close>

theorem hda_never_registers:
  assumes "hda_main X fd remap ring threads mem h m = Some (up, h', c)" "fresh_kernel m"
  shows "\<not> up \<and> cd_us c = None \<and> \<not> cd_device c \<and> cd_instances c = 0 \<and>
    (\<forall>a\<ge>k_next (m_kernel m). k_objs (m_kernel (cd_machine c)) a = None)"
proof -
  obtain ok c1 where r: "hda_register X fd m = Some (ok, c1)"
    using assms(1) by (auto simp: hda_main_def Let_def bind_eq_Some_conv)
  have "\<not> ok"
  proof (cases "pciem_open (sv_mem (snd (snd X) 0))")
    case (Inr s)
    then obtain ok1 c2 where "card_ioctls X 1 hda_cmds (opened m s) = Some (ok1, c2)"
      using r by (auto simp: hda_register_def Let_def bind_eq_Some_conv)
    with hda_cmds_fail [OF this opened_no_funcs [OF Inr]] show ?thesis using r Inr by (auto simp: hda_register_def)
  qed (use r in \<open>auto simp: hda_register_def\<close>)
  then have up: "\<not> up" using assms(1) r by (auto simp: hda_main_def)
  have c: "card_reach X m c" "\<not> cd_device c" "cd_instances c = 0" using hda_main_reach [OF assms] up by simp_all
  then show ?thesis using closed_nothing [OF c(1) assms(2)] up by blast
qed

text \<open>
  The network card and the accelerator do not look at the answer, and go on without the capability: after their
  commands function 0 has none.
\<close>

theorem ignored_msi_is_missing:
  assumes "pciem_open mem = Inr s"
  shows "card_calls X n e1000_cmds (opened m s) = Some c \<Longrightarrow> no_caps c"
    "card_calls X n proto_cmds (opened m s) = Some c \<Longrightarrow> no_caps c"
  unfolding e1000_cmds_def proto_cmds_def ioctls_Cons
  by (auto simp: bind_eq_Some_conv dest!: create_no_caps [OF _ opened_no_funcs [OF assms]] config_no_caps bar_no_caps trace_no_caps msi_no_caps)

text \<open>Every card that has ended, at whatever point, has left nothing.\<close>

theorem ended_cards_leave_nothing:
  assumes "fresh_kernel m"
    and "hda_main X fd remap ring threads mem h m = Some (False, h', c) \<or> bochs_main X sdl fd remaps ring thread m = Some (False, c) \<or>
      e1000_main X interface fd remap ring sock mem m = Some (False, c) \<or>
      proto_main X superuser remaps ring sock func fd fd2 m = Some (False, e1, e2, c)"
  shows "cd_us c = None \<and> (\<forall>a\<ge>k_next (m_kernel m). k_objs (m_kernel (cd_machine c)) a = None)"
proof -
  have "card_reach X m c \<and> \<not> cd_device c \<and> cd_instances c = 0"
    using assms(2)
  proof (elim disjE)
    assume "hda_main X fd remap ring threads mem h m = Some (False, h', c)"
    from hda_main_reach [OF this assms(1)] show ?thesis by simp
  next
    assume "bochs_main X sdl fd remaps ring thread m = Some (False, c)"
    from bochs_main_reach [OF this assms(1)] show ?thesis by simp
  next
    assume "e1000_main X interface fd remap ring sock mem m = Some (False, c)"
    from e1000_main_reach [OF this assms(1)] show ?thesis by simp
  next
    assume "proto_main X superuser remaps ring sock func fd fd2 m = Some (False, e1, e2, c)"
    from proto_main_reach [OF this assms(1)] show ?thesis by simp
  qed
  then show ?thesis using closed_nothing [OF _ assms(1)] by blast
qed

end
