(* ===== verification/CardRun.thy ===== *)
theory CardRun
  imports CardCaps HdaHost
begin

text \<open>
  The start of a card step by step: the state a command leaves, and the graphics card, which comes up.
\<close>

subsection \<open>The state while a card describes its function\<close>

definition boot_slot :: "nat \<Rightarrow> session" where
  "boot_slot a = \<lparr>slot_funcs = [0 \<mapsto> a], num_funcs = 1, slot_mode = VIRTUAL_ROOT, reg = UNREGISTERED, refcnt = 1\<rparr>"

definition boot_kernel :: "'g kernel \<Rightarrow> rc_dev \<Rightarrow> 'g mempool \<Rightarrow> 'g kernel" where
  "boot_kernel k v p = k\<lparr>k_objs := (k_objs k)(k_next k := Some v), k_next := k_next k + 1, k_pool := p\<rparr>"

definition booting :: "('g, 't) machine \<Rightarrow> us_state \<Rightarrow> rc_dev \<Rightarrow> 'g mempool \<Rightarrow> tracers \<Rightarrow> ('g, 't) chardev" where
  "booting m s v p trs = \<lparr>cd_machine = m\<lparr>m_kernel := boot_kernel (m_kernel m) v p\<rparr>,
     cd_us = Some (s\<lparr>us_slot := boot_slot (k_next (m_kernel m)), us_tracers := trs\<rparr>), cd_device = True, cd_instances = 0\<rparr>"

definition boot_function :: "nat \<Rightarrow> rc_dev" where
  "boot_function a = (case pciem_alloc_root_complex True a of Inr v \<Rightarrow> pciem_init_cap_manager True v)"

definition carved_bar :: "u32 \<Rightarrow> u64 \<Rightarrow> u64 \<Rightarrow> bar_info \<Rightarrow> bar_info" where
  "carved_bar fl sz phys b = b\<lparr>bar_size := sz, bar_flags := fl, base_addr_val := 0, carved_start := phys, carved_end := phys + sz - 1\<rparr>"

lemma boot_kernel_simps:
  "k_objs (boot_kernel k v p) (k_next k) = Some v" "k_pool (boot_kernel k v p) = p" "k_host (boot_kernel k v p) = k_host k"
  "put_obj (k_next k) w (boot_kernel k v p) = boot_kernel k w p" "(boot_kernel k v p)\<lparr>k_pool := q\<rparr> = boot_kernel k v q"
  by (simp_all add: boot_kernel_def put_obj_def)

lemma booting_simps:
  "cd_us (booting m s v p trs) = Some (s\<lparr>us_slot := boot_slot (k_next (m_kernel m)), us_tracers := trs\<rparr>)"
  "m_kernel (cd_machine (booting m s v p trs)) = boot_kernel (m_kernel m) v p"
  "cd_device (booting m s v p trs)" "cd_instances (booting m s v p trs) = 0"
  by (simp_all add: booting_def)

lemma booting_eq:
  "\<lparr>cd_machine = (cd_machine (booting m s v p trs))\<lparr>m_kernel := boot_kernel (m_kernel m) w q\<rparr>,
     cd_us = Some (s\<lparr>us_slot := boot_slot (k_next (m_kernel m)), us_tracers := trs'\<rparr>), cd_device = True, cd_instances = 0\<rparr> = booting m s w q trs'"
  by (simp add: booting_def)

lemma booting_upd:
  "(booting m s v p trs)\<lparr>cd_machine := (cd_machine (booting m s v p trs))\<lparr>m_kernel := boot_kernel (m_kernel m) w q\<rparr>,
     cd_us := Some (s\<lparr>us_slot := boot_slot (k_next (m_kernel m)), us_tracers := trs'\<rparr>), cd_instances := 0\<rparr> = booting m s w q trs'"
  "(booting m s v p trs)\<lparr>cd_machine := (cd_machine (booting m s v p trs))\<lparr>m_kernel := boot_kernel (m_kernel m) w q\<rparr>,
     cd_us := Some (s\<lparr>us_slot := boot_slot (k_next (m_kernel m)), us_tracers := trs'\<rparr>)\<rparr> = booting m s w q trs'"
  "(booting m s v p trs)\<lparr>cd_us := Some (s\<lparr>us_slot := boot_slot (k_next (m_kernel m)), us_tracers := trs'\<rparr>)\<rparr> = booting m s v p trs'"
  by (simp_all add: booting_def)

lemma boot_slot_simps:
  "pciem_check_unregistered (boot_slot a) = Inr ()" "us_get_rc (boot_slot a) 0 = Some a" "slot_funcs (boot_slot a) 0 = Some a"
  "num_funcs (boot_slot a) = 1" "reg (boot_slot a) = UNREGISTERED" "slot_mode (boot_slot a) = VIRTUAL_ROOT"
  by (simp_all add: boot_slot_def pciem_check_unregistered_def us_get_rc_def PCIEM_MAX_FUNCTIONS_def)

lemmas boot_simps = select no_args_def with_func_def booting_simps booting_upd boot_kernel_simps boot_slot_simps hands_out_def

lemma boot_create:
  assumes "sv_mem (E n) = (\<lambda>_. True)" "us_slot s = session0"
  shows "card_ioctl (galloc, search, E) n (fst create_cmd) (snd create_cmd) (opened m s) =
    Some (Code (Inr ()), booting m s (boot_function (k_next (m_kernel m))) (k_pool (m_kernel m)) (us_tracers s))"
  using assms
  by (simp add: create_cmd_def opened_def select session0_def no_args_def create_defs hands_out_def booting_def boot_kernel_def
      boot_slot_def boot_function_def)

lemma boot_config:
  assumes "cs_func r = 0"
  shows "card_ioctl (galloc, search, E) n (fst (config_cmd r)) (snd (config_cmd r)) (booting m s v p trs) =
    Some (Code (Inr ()), booting m s (v\<lparr>cfg := identify r (cfg v)\<rparr>) p trs)"
  using assms by (simp add: config_cmd_def pciem_ioctl_set_config_def boot_simps)

lemma boot_bar:
  assumes "pciem_pool_alloc galloc search p sz = (phys, p')" "phys \<noteq> 0" "sz \<noteq> 0" "sz AND (sz - 1) = 0" "unat i < PCI_STD_NUM_BARS"
  shows "card_ioctl (galloc, search, E) n (fst (bar_cmd i fl sz)) (snd (bar_cmd i fl sz)) (booting m s v p trs) =
    Some (Code (Inr ()), booting m s (set_bar v (unat i) (carved_bar fl sz phys (bars v (unat i)))) p' trs)"
  using assms by (simp add: bar_cmd_def pciem_ioctl_add_bar_def pciem_register_bar_def carved_bar_def boot_simps)

lemma boot_msi:
  assumes "\<And>mgr. cap_mgr v = Some mgr \<Longrightarrow> caps mgr = []"
  shows "\<exists>e. card_ioctl (galloc, search, E) n (fst (msi_cmd x)) (snd (msi_cmd x)) (booting m s v p trs) =
    Some (Code (Inl e), booting m s v p trs)"
proof -
  obtain e where "request_cap (Req_MSI 0 1 x) v = (Inl e, v)"
    using msi_refused [where k = 0 and w = 1 and x = x and v = v] assms by blast
  then show ?thesis by (simp add: msi_cmd_def pciem_ioctl_add_capability_def boot_simps del: request_cap.simps)
qed

text \<open>The tracer of a BAR, on a kernel that lets it be installed.\<close>

definition traced :: "trace_req \<Rightarrow> bar_info \<Rightarrow> bytes \<Rightarrow> smptrace_ctx" where
  "traced q b mem = (traced_ctx q b mem)\<lparr>shadow_mapped := True, badarea_kp := True, iounmap_kp := True, ioremap_krp := True\<rparr>"

lemma boot_trace:
  assumes "sv_trace (E n) = smptrace_init True (arch_activate True (Inr ()) (Inr ()) (Inr ()))" "unat i < PCI_STD_NUM_BARS"
    and "carved_start (bars v (unat i)) \<noteq> 0" "bar_size (bars v (unat i)) \<noteq> 0" "\<not> tracer_us (trs 0 (unat i))"
    and "q = \<lparr>tb_index = i, tb_flags = fl, tb_func = 0\<rparr>"
  shows "card_ioctl (galloc, search, E) n (fst (trace_cmd i fl)) (snd (trace_cmd i fl)) (booting m s v p trs) =
    Some (Code (Inr ()), booting m s v p (set_tracer 0 (unat i)
      \<lparr>tracer_us = True, tracer_ctx = traced q (bars v (unat i)) (sv_shadow (E n))\<rparr> trs))"
proof -
  have same: "traced_ctx q b mm\<lparr>maps := [], in_pf := (\<lambda>_. False)\<rparr> = traced_ctx q b mm" for b mm by (simp add: traced_ctx_def)
  have "sv_trace (E n) (traced_ctx q (bars v (unat i)) (sv_shadow (E n))) = (Inr (), traced q (bars v (unat i)) (sv_shadow (E n)))"
    using assms(1) by (simp add: smptrace_init_def Let_def same traced_def arch_activate_def smptrace_register_probes_def)
  then show ?thesis
    using assms(2-6) by (simp add: trace_cmd_def pciem_ioctl_trace_bar_def Let_def boot_simps PCIEM_MAX_FUNCTIONS_def)
qed

subsection \<open>From the description to the host\<close>

lemma boot_registers:
  assumes "card_reach (galloc, search, E) m (booting m s v p trs)" "fresh_kernel m"
    and "eventfd (us_ev s) = None" "\<not> event_pending (us_ev s)"
    and "caps_fit v" "\<not> detaching v" "\<forall>i. bar_size (bars v i) \<noteq> 0 \<longrightarrow> carved_start (bars v i) \<noteq> 0"
    and "0 \<le> fd" "sv_eventfd (E n1) fd = Inr e"
    and "willing (sv_dev (E n2) 0)" "place_for VIRTUAL_ROOT (sv_dev (E n2) 0) (k_host (m_kernel m))" "sv_fd (E n2) = Inr nn"
  shows "\<exists>c1 c2 s2 v2 d r. card_ioctl (galloc, search, E) n1 PCIEM_IOCTL_SET_EVENTFD (eventfd_args fd) (booting m s v p trs) = Some (Code (Inr ()), c1) \<and>
    card_ioctl (galloc, search, E) n2 PCIEM_IOCTL_REGISTER no_args c1 = Some (Fd (Inr nn), c2) \<and>
    cd_us c2 = Some s2 \<and> cd_device c2 \<and> cd_instances c2 = 1 \<and> reg (us_slot s2) = REGISTERED \<and> eventfd (us_ev s2) = Some e \<and>
    us_tracers s2 = trs \<and> k_objs (m_kernel (cd_machine c2)) (k_next (m_kernel m)) = Some v2 \<and> pciem_pdev v2 = Some d \<and>
    root_buses (k_host (m_kernel (cd_machine c2))) (pd_bus d) = Some r \<and>
    root_read (k_objs (m_kernel (cd_machine c2))) r (pd_devfn d) 0 4 = Answer (PCIBIOS_SUCCESSFUL, get32 (cfg v) 0)"
proof -
  let ?X = "(galloc, search, E)" and ?a = "k_next (m_kernel m)" and ?k = "boot_kernel (m_kernel m) v p"
  let ?s = "s\<lparr>us_slot := boot_slot ?a, us_tracers := trs\<rparr>"
  let ?e = "us_ev s\<lparr>eventfd := Some e\<rparr>"
  have inv: "slot_inv ?k (boot_slot ?a)"
  proof -
    have "state_ok ?k ?s" using card_reach_inv [OF assms(1,2)] by (simp add: cdev_inv_def booting_simps)
    from state_ok_slot [OF this] show ?thesis by simp
  qed
  define c1 where "c1 = (booting m s v p trs)\<lparr>cd_us := Some (?s\<lparr>us_ev := ?e\<rparr>)\<rparr>"
  have set: "card_ioctl ?X n1 PCIEM_IOCTL_SET_EVENTFD (eventfd_args fd) (booting m s v p trs) = Some (Code (Inr ()), c1)"
    using assms(3,4,8,9)
    by (simp add: select eventfd_args_def no_args_def pciem_ioctl_set_eventfd_def eventfd_install_def eventfd_finish_def hands_out_def c1_def booting_simps)
  have obj: "k_objs ?k ?a = Some v" by (simp add: boot_kernel_simps)
  have carved: "\<forall>i<PCI_STD_NUM_BARS. active v i \<longrightarrow> carved_start (bars v i) \<noteq> 0" using assms(7) by (simp add: active_def)
  note slot = boot_slot_simps(4) boot_slot_simps(3) boot_slot_simps(5)
  obtain k' where k': "pciem_ioctl_register (sv_dev (E n2)) (sv_gfree (E n2)) (Inr nn) ?k (boot_slot ?a) =
      Some (Inr nn, k', (boot_slot ?a)\<lparr>reg := REGISTERED, refcnt := refcnt (boot_slot ?a) + 1\<rparr>)"
    using register_works [where env = "sv_dev (E n2)" and gfree = "sv_gfree (E n2)" and n = nn, OF inv slot obj assms(5) carved assms(10)]
      assms(11) by (auto simp: boot_slot_simps boot_kernel_simps)
  define c2 where "c2 = c1\<lparr>cd_machine := (cd_machine c1)\<lparr>m_kernel := k'\<rparr>, cd_us := Some (?s\<lparr>us_ev := ?e,
      us_slot := (boot_slot ?a)\<lparr>reg := REGISTERED, refcnt := refcnt (boot_slot ?a) + 1\<rparr>\<rparr>), cd_instances := 1\<rparr>"
  have reg: "card_ioctl ?X n2 PCIEM_IOCTL_REGISTER no_args c1 = Some (Fd (Inr nn), c2)"
    using k' assms(12) by (simp add: select c1_def c2_def hands_out_def booting_simps)
  from register_shows [OF inv slot obj assms(5,6) k'] obtain v2 d where
    "k_objs k' ?a = Some v2" "pciem_pdev v2 = Some d"
    "map_option (\<lambda>r. root_read (k_objs k') r (pd_devfn d) 0 4) (root_buses (k_host k') (pd_bus d)) =
      Some (Answer (PCIBIOS_SUCCESSFUL, get32 (cfg v) 0))" by (auto simp: boot_slot_simps)
  then show ?thesis using set reg
    by (intro exI [of _ c1] exI [of _ c2] exI [of _ "?s\<lparr>us_ev := ?e,
      us_slot := (boot_slot ?a)\<lparr>reg := REGISTERED, refcnt := refcnt (boot_slot ?a) + 1\<rparr>\<rparr>"] exI [of _ v2] exI [of _ d])
      (auto simp: c2_def c1_def booting_simps)
qed

lemma opened_fields:
  "pciem_open mem = Inr s \<Longrightarrow> eventfd (us_ev s) = None \<and> \<not> event_pending (us_ev s) \<and> us_tracers s = (\<lambda>_ _. \<lparr>tracer_us = False, tracer_ctx = no_ctx\<rparr>)"
  by (auto simp: pciem_open_def pciem_userspace_create_def pciem_shared_ring_alloc_def pciem_irqfds_init_def split: if_splits sum.splits)

lemma boot_function_simps:
  "cap_mgr (boot_function a) = Some \<lparr>caps = [], next_offset = 0x40, ext_next_offset = 0x100\<rparr>" "\<not> detaching (boot_function a)"
  "bars (boot_function a) i = Bars.bar0"
  by (simp_all add: boot_function_def pciem_alloc_root_complex_def pciem_init_cap_manager_def cap_consts)

lemma no_caps_fit: "cap_mgr v = Some \<lparr>caps = [], next_offset = 0x40, ext_next_offset = 0x100\<rparr> \<Longrightarrow> caps_fit v"
  by (simp add: caps_fit_def std_fit_def std_caps_def)

text \<open>The function of the graphics card as its commands leave it.\<close>

definition bochs_function :: "nat \<Rightarrow> u64 \<Rightarrow> u64 \<Rightarrow> rc_dev" where
  "bochs_function a p0 p2 =
     (let v = boot_function a; v = v\<lparr>cfg := identify bochs_config (cfg v)\<rparr>;
          v = set_bar v 0 (carved_bar 0 0x1000000 p0 (bars v 0))
      in set_bar v 2 (carved_bar 0 0x10000 p2 (bars v 2)))"

lemma bochs_function_facts:
  "cap_mgr (bochs_function a p0 p2) = Some \<lparr>caps = [], next_offset = 0x40, ext_next_offset = 0x100\<rparr>" "\<not> detaching (bochs_function a p0 p2)"
  "get32 (cfg (bochs_function a p0 p2)) 0 = 0x11111234"
  "p0 \<noteq> 0 \<Longrightarrow> p2 \<noteq> 0 \<Longrightarrow> bar_size (bars (bochs_function a p0 p2) i) \<noteq> 0 \<Longrightarrow> carved_start (bars (bochs_function a p0 p2) i) \<noteq> 0"
  "bars (bochs_function a p0 p2) 2 = carved_bar 0 0x10000 p2 Bars.bar0"
proof -
  show "get32 (cfg (bochs_function a p0 p2)) 0 = 0x11111234"
    by (simp add: bochs_function_def Let_def identify_ids) (simp add: bochs_config_def)
qed (auto simp: bochs_function_def Let_def boot_function_simps carved_bar_def Bars.bar0_def split: if_splits)

lemma bochs_cmds_run:
  assumes "pciem_open (sv_mem (E 0)) = Inr s" "sv_mem (E 1) = (\<lambda>_. True)"
    and "pciem_pool_alloc galloc search (k_pool (m_kernel m)) 0x1000000 = (p0, q)" "p0 \<noteq> 0"
    and "pciem_pool_alloc galloc search q 0x10000 = (p2, q')" "p2 \<noteq> 0"
    and "sv_trace (E 5) = smptrace_init True (arch_activate True (Inr ()) (Inr ()) (Inr ()))"
    and "t = \<lparr>tracer_us = True, tracer_ctx = traced \<lparr>tb_index = 2, tb_flags = 2, tb_func = 0\<rparr> (carved_bar 0 0x10000 p2 Bars.bar0) (sv_shadow (E 5))\<rparr>"
  shows "card_ioctls (galloc, search, E) 1 bochs_cmds (opened m s) =
    Some (True, booting m s (bochs_function (k_next (m_kernel m)) p0 p2) q' (set_tracer 0 2 t (us_tracers s)))"
proof -
  let ?X = "(galloc, search, E)" and ?a = "k_next (m_kernel m)"
  define v0 where "v0 = boot_function ?a"
  define v1 where "v1 = v0\<lparr>cfg := identify bochs_config (cfg v0)\<rparr>"
  define v2 where "v2 = set_bar v1 0 (carved_bar 0 0x1000000 p0 (bars v1 0))"
  define v3 where "v3 = set_bar v2 2 (carved_bar 0 0x10000 p2 (bars v2 2))"
  have v3: "v3 = bochs_function ?a p0 p2" by (simp add: v3_def v2_def v1_def v0_def bochs_function_def Let_def)
  have 1: "card_ioctl ?X 1 (fst create_cmd) (snd create_cmd) (opened m s) =
      Some (Code (Inr ()), booting m s v0 (k_pool (m_kernel m)) (us_tracers s))"
    unfolding v0_def by (rule boot_create) (use assms(2) opened_no_funcs [OF assms(1)] in simp_all)
  have 2: "card_ioctl ?X 2 (fst (config_cmd bochs_config)) (snd (config_cmd bochs_config)) (booting m s v0 (k_pool (m_kernel m)) (us_tracers s)) =
      Some (Code (Inr ()), booting m s v1 (k_pool (m_kernel m)) (us_tracers s))"
    unfolding v1_def by (rule boot_config) (simp add: bochs_config_def)
  have 3: "card_ioctl ?X 3 (fst (bar_cmd 0 0 0x1000000)) (snd (bar_cmd 0 0 0x1000000)) (booting m s v1 (k_pool (m_kernel m)) (us_tracers s)) =
      Some (Code (Inr ()), booting m s v2 q (us_tracers s))"
    using boot_bar [OF assms(3,4), of 0 E 3 0] by (simp add: v2_def PCI_STD_NUM_BARS_def)
  have 4: "card_ioctl ?X 4 (fst (bar_cmd 2 0 0x10000)) (snd (bar_cmd 2 0 0x10000)) (booting m s v2 q (us_tracers s)) =
      Some (Code (Inr ()), booting m s v3 q' (us_tracers s))"
    using boot_bar [OF assms(5,6), of 2 E 4 0] by (simp add: v3_def PCI_STD_NUM_BARS_def)
  have bar: "bars v3 2 = carved_bar 0 0x10000 p2 Bars.bar0" unfolding v3 by (rule bochs_function_facts(5))
  have 5: "card_ioctl ?X 5 (fst (trace_cmd 2 2)) (snd (trace_cmd 2 2)) (booting m s v3 q' (us_tracers s)) =
      Some (Code (Inr ()), booting m s v3 q' (set_tracer 0 2 t (us_tracers s)))"
    using boot_trace [where E = E and n = 5 and i = 2 and fl = 2 and v = v3 and trs = "us_tracers s" and galloc = galloc and search = search, OF assms(7) _ _ _ _ refl]
      opened_fields [OF assms(1)] assms(6,8) bar by (simp add: PCI_STD_NUM_BARS_def carved_bar_def)
  show ?thesis unfolding v3 [symmetric] bochs_cmds_def ioctls_Cons
    using 1 2 3 4 5 by (simp add: numeral_eq_Suc)
qed

text \<open>
  C12. The graphics card comes up. On a kernel that grants what it is asked for, \<open>dev_setup\<close> goes through all
  its commands: the session is registered with one instance and the eventfd installed, writes to the 64 KiB
  of BAR 2 are traced and reads are not, and the host reads the identifiers of the Bochs display at the
  place of the device on its virtual root; what is left to answer is for the three mappings.
\<close>

theorem bochs_registers:
  assumes "fresh_kernel m" "\<forall>i<8. sv_mem (E i) = (\<lambda>_. True)"
    and "pciem_pool_alloc galloc search (k_pool (m_kernel m)) 0x1000000 = (p0, q)" "p0 \<noteq> 0"
    and "pciem_pool_alloc galloc search q 0x10000 = (p2, q')" "p2 \<noteq> 0"
    and "sv_trace (E 5) = smptrace_init True (arch_activate True (Inr ()) (Inr ()) (Inr ()))"
    and "0 \<le> fd" "sv_eventfd (E 6) fd = Inr e"
    and "willing (sv_dev (E 7) 0)" "place_for VIRTUAL_ROOT (sv_dev (E 7) 0) (k_host (m_kernel m))" "sv_fd (E 7) = Inr n"
  shows "\<exists>c s v d r. bochs_setup (galloc, search, E) fd remap ring m =
      Some (map_ring ring c \<and> map_instance (remap 0) 0x1000000 0 c \<and> map_instance (remap 2) 0x10000 2 c, c) \<and>
    cd_us c = Some s \<and> cd_device c \<and> cd_instances c = 1 \<and> reg (us_slot s) = REGISTERED \<and> eventfd (us_ev s) = Some e \<and>
    tracer_us (us_tracers s 0 2) \<and> notif_write (tracer_ctx (us_tracers s 0 2)) \<and> \<not> notif_read (tracer_ctx (us_tracers s 0 2)) \<and>
    ctx_pa (tracer_ctx (us_tracers s 0 2)) = p2 \<and> ctx_len (tracer_ctx (us_tracers s 0 2)) = 0x10000 \<and>
    k_objs (m_kernel (cd_machine c)) (k_next (m_kernel m)) = Some v \<and> pciem_pdev v = Some d \<and>
    root_buses (k_host (m_kernel (cd_machine c))) (pd_bus d) = Some r \<and>
    root_read (k_objs (m_kernel (cd_machine c))) r (pd_devfn d) 0 4 = Answer (PCIBIOS_SUCCESSFUL, 0x11111234)"
proof -
  let ?X = "(galloc, search, E)" and ?a = "k_next (m_kernel m)"
  let ?q = "\<lparr>tb_index = 2, tb_flags = 2, tb_func = 0\<rparr>" and ?v = "bochs_function ?a p0 p2"
  let ?t = "\<lparr>tracer_us = True, tracer_ctx = traced ?q (carved_bar 0 0x10000 p2 Bars.bar0) (sv_shadow (E 5))\<rparr>"
  obtain s where s: "pciem_open (sv_mem (E 0)) = Inr s"
    using assms(2) by (simp add: pciem_open_def pciem_userspace_create_def pciem_shared_ring_alloc_def pciem_irqfds_init_def)
  have m1: "sv_mem (E 1) = (\<lambda>_. True)" using assms(2) by simp
  let ?c1 = "booting m s ?v q' (set_tracer 0 2 ?t (us_tracers s))"
  have c1: "card_ioctls ?X 1 bochs_cmds (opened m s) = Some (True, ?c1)"
    by (rule bochs_cmds_run [where E = E, OF s m1 assms(3-7) refl])
  have r1: "card_reach ?X m ?c1"
    using card_ioctls_reach [OF c1 opened_reach [OF s]] by (simp add: opened_def)
  have carved: "\<forall>i. bar_size (bars ?v i) \<noteq> 0 \<longrightarrow> carved_start (bars ?v i) \<noteq> 0"
    using bochs_function_facts(4) [OF assms(4,6)] by blast
  have ev: "eventfd (us_ev s) = None" "\<not> event_pending (us_ev s)" using opened_fields [OF s] by simp_all
  from boot_registers [where E = E and ?n1.0 = 6 and ?n2.0 = 7, OF r1 assms(1) ev no_caps_fit [OF bochs_function_facts(1)]
      bochs_function_facts(2) carved assms(8-12)]
  obtain c1' c2 s2 v2 d r where
    2: "card_ioctl ?X 6 PCIEM_IOCTL_SET_EVENTFD (eventfd_args fd) ?c1 = Some (Code (Inr ()), c1')"
      "card_ioctl ?X 7 PCIEM_IOCTL_REGISTER no_args c1' = Some (Fd (Inr n), c2)"
      "cd_us c2 = Some s2" "cd_device c2" "cd_instances c2 = 1" "reg (us_slot s2) = REGISTERED" "eventfd (us_ev s2) = Some e"
      "us_tracers s2 = set_tracer 0 2 ?t (us_tracers s)" "k_objs (m_kernel (cd_machine c2)) ?a = Some v2" "pciem_pdev v2 = Some d"
      "root_buses (k_host (m_kernel (cd_machine c2))) (pd_bus d) = Some r"
      "root_read (k_objs (m_kernel (cd_machine c2))) r (pd_devfn d) 0 4 = Answer (PCIBIOS_SUCCESSFUL, get32 (cfg ?v) 0)"
    by blast
  have "bochs_setup ?X fd remap ring m =
      Some (map_ring ring c2 \<and> map_instance (remap 0) 0x1000000 0 c2 \<and> map_instance (remap 2) 0x10000 2 c2, c2)"
    using s c1 2(1,2) assms(8) by (simp add: bochs_setup_def)
  then show ?thesis using 2(3-12) unfolding bochs_function_facts(3)
    by (intro exI [of _ c2] exI [of _ s2] exI [of _ v2] exI [of _ d] exI [of _ r])
      (simp add: set_tracer_def traced_def traced_ctx_def carved_bar_def)
qed

subsection \<open>Examples\<close>

lemma card_pools:
  "pciem_pool_alloc galloc0 search0 pool0 0x1000000 = (2 ^ 32, pool0)" "pciem_pool_alloc galloc0 search0 pool0 0x10000 = (2 ^ 32, pool0)"
  "pciem_pool_alloc galloc0 search0 pool0 0x4000 = (2 ^ 32, pool0)"
  by (simp_all add: pciem_pool_alloc_def pool0_def galloc0_def search0_def is_pow2_def
      pciem_first_fit_align_def fit_align_off_def PAGE_SHIFT_def)

theorem bochs_registers_witness:
  "\<exists>ok c s. bochs_setup card_env0 4 (\<lambda>_. True) (Inr ()) machine0 = Some (ok, c) \<and> cd_us c = Some s \<and> reg (us_slot s) = REGISTERED \<and>
    eventfd (us_ev s) = Some 5 \<and> ctx_len (tracer_ctx (us_tracers s 0 2)) = 0x10000"
proof -
  have nz: "(2 ^ 32 :: u64) \<noteq> 0" by simp
  have "\<exists>c s v d r. bochs_setup (galloc0, search0, \<lambda>_. services0) 4 (\<lambda>_. True) (Inr ()) machine0 =
      Some (map_ring (Inr ()) c \<and> map_instance ((\<lambda>_. True) (0 :: nat)) 0x1000000 0 c \<and> map_instance ((\<lambda>_. True) (2 :: nat)) 0x10000 2 c, c) \<and>
    cd_us c = Some s \<and> cd_device c \<and> cd_instances c = 1 \<and> reg (us_slot s) = REGISTERED \<and> eventfd (us_ev s) = Some 5 \<and>
    tracer_us (us_tracers s 0 2) \<and> notif_write (tracer_ctx (us_tracers s 0 2)) \<and> \<not> notif_read (tracer_ctx (us_tracers s 0 2)) \<and>
    ctx_pa (tracer_ctx (us_tracers s 0 2)) = 2 ^ 32 \<and> ctx_len (tracer_ctx (us_tracers s 0 2)) = 0x10000 \<and>
    k_objs (m_kernel (cd_machine c)) (k_next (m_kernel machine0)) = Some v \<and> pciem_pdev v = Some d \<and>
    root_buses (k_host (m_kernel (cd_machine c))) (pd_bus d) = Some r \<and>
    root_read (k_objs (m_kernel (cd_machine c))) r (pd_devfn d) 0 4 = Answer (PCIBIOS_SUCCESSFUL, 0x11111234)"
    by (rule bochs_registers [OF machine0_simps(1) _ _ nz _ nz])
      (use card_pools sure_willing(1) virtual_place in \<open>simp_all add: machine0_simps services0_def\<close>)
  then show ?thesis unfolding card_env0_def by fastforce
qed

text \<open>The sound card on the same kernel: its commands end at the request for MSI, and it closes the device.\<close>

lemma booting_closes:
  assumes "pciem_pdev v = None" "root_bus v = None"
  shows "\<exists>c. close_device services0 (booting machine0 opened0 v p (us_tracers opened0)) = Some c \<and> \<not> cd_device c \<and> cd_instances c = 0"
proof -
  let ?k = "boot_kernel (m_kernel machine0) v p" and ?s = "boot_slot (k_next (m_kernel machine0))"
  obtain p' h w where t: "pciem_teardown_device sure_env (\<lambda>g _ _. g) (k_pool ?k) (k_host ?k) v = Some (p', h, w)"
    using assms by (simp add: pciem_teardown_device_def split_beta)
  have rest: "free_funcs sure_env gfree [Suc 0..<PCIEM_MAX_FUNCTIONS] ?s k = Some k" for gfree and k :: "unit kernel"
    by (simp add: boot_slot_def PCIEM_MAX_FUNCTIONS_def upt_rec pciem_free_root_complex_def)
  have "[0..<PCIEM_MAX_FUNCTIONS] = 0 # [Suc 0..<PCIEM_MAX_FUNCTIONS]" by (simp add: PCIEM_MAX_FUNCTIONS_def upt_rec)
  then have "pciem_userspace_destroy sure_env (\<lambda>g _ _. g) ?k ?s \<noteq> None"
    using rest t by (simp add: pciem_userspace_destroy_def pciem_free_root_complex_def boot_slot_simps boot_kernel_simps)
  moreover have "refcnt ?s = 1" by (simp add: boot_slot_def)
  ultimately obtain mm where "pciem_put services0 (cd_machine (booting machine0 opened0 v p (us_tracers opened0)))
      (opened0\<lparr>us_slot := ?s, us_tracers := us_tracers opened0\<rparr>) = Some (mm, None)"
    by (auto simp: pciem_put_def us_destroy_def booting_def opened0_simps services0_def pciem_irqfds_shutdown_def)
  then show ?thesis by (simp add: close_device_def pciem_device_release_def booting_simps)
qed

theorem hda_never_registers_witness:
  "\<exists>c. hda_main card_env0 4 True (Inr ()) (\<lambda>_. True) (\<lambda>_. 0) hda_card0 machine0 = Some (False, hda_card0, c) \<and>
    cd_us c = None \<and> k_objs (m_kernel (cd_machine c)) 1 = None"
proof -
  let ?X = "(galloc0, search0, \<lambda>_ :: nat. services0)" and ?p = "k_pool (m_kernel machine0)"
  define v0 where "v0 = boot_function (k_next (m_kernel machine0))"
  define v1 where "v1 = v0\<lparr>cfg := identify hda_config (cfg v0)\<rparr>"
  define v2 where "v2 = set_bar v1 0 (carved_bar 0 0x4000 (2 ^ 32) (bars v1 0))"
  have nz: "(2 ^ 32 :: u64) \<noteq> 0" by simp
  have pool: "pciem_pool_alloc galloc0 search0 ?p 0x4000 = (2 ^ 32, ?p)" using card_pools(3) by (simp add: machine0_simps)
  have 1: "card_ioctl ?X 1 (fst create_cmd) (snd create_cmd) (opened machine0 opened0) =
      Some (Code (Inr ()), booting machine0 opened0 v0 ?p (us_tracers opened0))"
    unfolding v0_def by (rule boot_create) (simp_all add: services0_def opened0_simps)
  have 2: "card_ioctl ?X 2 (fst (config_cmd hda_config)) (snd (config_cmd hda_config)) (booting machine0 opened0 v0 ?p (us_tracers opened0)) =
      Some (Code (Inr ()), booting machine0 opened0 v1 ?p (us_tracers opened0))"
    unfolding v1_def by (rule boot_config) (simp add: hda_config_def)
  have 3: "card_ioctl ?X 3 (fst (bar_cmd 0 0 0x4000)) (snd (bar_cmd 0 0 0x4000)) (booting machine0 opened0 v1 ?p (us_tracers opened0)) =
      Some (Code (Inr ()), booting machine0 opened0 v2 ?p (us_tracers opened0))"
    using boot_bar [OF pool nz, of 0 "\<lambda>_. services0" 3 0] by (simp add: v2_def PCI_STD_NUM_BARS_def)
  have v2: "caps mgr = []" if "cap_mgr v2 = Some mgr" for mgr
    using that by (auto simp: v2_def v1_def v0_def boot_function_simps)
  from boot_msi [OF v2] obtain e where
    4: "card_ioctl ?X 4 (fst (msi_cmd 0)) (snd (msi_cmd 0)) (booting machine0 opened0 v2 ?p (us_tracers opened0)) =
      Some (Code (Inl e), booting machine0 opened0 v2 ?p (us_tracers opened0))" by blast
  have cmds: "card_ioctls ?X 1 hda_cmds (opened machine0 opened0) = Some (False, booting machine0 opened0 v2 ?p (us_tracers opened0))"
    unfolding hda_cmds_def ioctls_Cons using 1 2 3 4 by (simp add: numeral_eq_Suc)
  have "pciem_pdev v2 = None" "root_bus v2 = None"
    by (simp_all add: v2_def v1_def v0_def set_bar_def boot_function_def pciem_alloc_root_complex_def pciem_init_cap_manager_def)
  from booting_closes [OF this] obtain c where
    c: "close_device services0 (booting machine0 opened0 v2 ?p (us_tracers opened0)) = Some c" "\<not> cd_device c" "cd_instances c = 0" by blast
  have "hda_register ?X 4 machine0 = Some (False, c)"
    using cmds c(1) opened0_simps(1) by (simp add: hda_register_def services0_def)
  then have "hda_main card_env0 4 True (Inr ()) (\<lambda>_. True) (\<lambda>_. 0) hda_card0 machine0 = Some (False, hda_card0, c)"
    using c(2,3) by (simp add: hda_main_def card_env0_def process_exit_def)
  from hda_never_registers [OF this machine0_simps(1)] this show ?thesis by (simp add: machine0_simps)
qed

end
