(* ===== verification/ProtoGpu.thy ===== *)
theory ProtoGpu
  imports Prelude "HOL-Library.Monad_Syntax"
begin

text \<open>
  The drawing part of the accelerator backend that runs inside QEMU
  (\<^verbatim>\<open>examples/protopciem/qemu/protopciem_backend.c\<close>): pixels, lines, rectangles, and the interpreter of
  command buffers. \<open>None\<close> is an access outside the framebuffer or the command buffer.
\<close>

subsection \<open>Pixels\<close>

definition FB_WIDTH :: int where "FB_WIDTH = 640"
definition FB_HEIGHT :: int where "FB_HEIGHT = 480"
definition FB_SIZE :: nat where "FB_SIZE = 640 * 480 * 3"

type_synonym rgb = "u8 \<times> u8 \<times> u8"

definition gpu_draw_pixel :: "rgb \<Rightarrow> int \<Rightarrow> int \<Rightarrow> bytes \<Rightarrow> bytes option" where
  "gpu_draw_pixel = (\<lambda>(r, g, b) x y fb.
     if x < 0 \<or> x \<ge> FB_WIDTH \<or> y < 0 \<or> y \<ge> FB_HEIGHT then Some fb
     else store_bytes FB_SIZE fb (nat ((y * FB_WIDTH + x) * 3)) [r, g, b])"

subsection \<open>Lines\<close>

text \<open>The loop of \<open>gpu_draw_line\<close>, on its variables; the coordinates are 16 bits wide, so no sum leaves an \<open>int\<close>.\<close>

partial_function (option) line_loop ::
    "rgb \<Rightarrow> int \<Rightarrow> int \<Rightarrow> int \<Rightarrow> int \<Rightarrow> int \<Rightarrow> int \<Rightarrow> int \<Rightarrow> int \<Rightarrow> int \<Rightarrow> bytes \<Rightarrow> bytes option" where
  "line_loop c x1 y1 dx dy sx sy err x0 y0 fb =
     do {
       fb \<leftarrow> gpu_draw_pixel c x0 y0 fb;
       if x0 = x1 \<and> y0 = y1 then Some fb
       else
         (let e2 = 2 * err;
              (err, x0) = (if e2 \<ge> dy then (err + dy, x0 + sx) else (err, x0));
              (err, y0) = (if e2 \<le> dx then (err + dx, y0 + sy) else (err, y0))
          in line_loop c x1 y1 dx dy sx sy err x0 y0 fb) }"

definition gpu_draw_line :: "int \<Rightarrow> int \<Rightarrow> int \<Rightarrow> int \<Rightarrow> rgb \<Rightarrow> bytes \<Rightarrow> bytes option" where
  "gpu_draw_line x0 y0 x1 y1 c fb =
     (let dx = \<bar>x1 - x0\<bar>; sx = (if x0 < x1 then 1 else - 1);
          dy = - \<bar>y1 - y0\<bar>; sy = (if y0 < y1 then 1 else - 1)
      in line_loop c x1 y1 dx dy sx sy (dx + dy) x0 y0 fb)"

subsection \<open>Areas\<close>

definition gpu_clear :: "rgb \<Rightarrow> bytes \<Rightarrow> bytes option" where
  "gpu_clear = (\<lambda>(r, g, b) fb.
     if r = g \<and> g = b then store_bytes FB_SIZE fb 0 (replicate FB_SIZE r)
     else fold (\<lambda>i st. Option.bind st (\<lambda>fb. store_bytes FB_SIZE fb (i * 3) [r, g, b])) [0..<nat (FB_WIDTH * FB_HEIGHT)] (Some fb))"

text \<open>The source of a rectangle is the command buffer, \<open>limit\<close> bytes long, from \<open>data\<close> on.\<close>

definition cmd_bytes :: "nat \<Rightarrow> bytes \<Rightarrow> nat \<Rightarrow> nat \<Rightarrow> u8 list option" where
  "cmd_bytes limit buf off n = (if off + n \<le> limit then Some (bytes_of buf off n) else None)"

definition blit_pixel :: "nat \<Rightarrow> bytes \<Rightarrow> nat \<Rightarrow> u16 \<Rightarrow> u16 \<Rightarrow> u16 \<Rightarrow> nat \<Rightarrow> nat \<Rightarrow> bytes \<Rightarrow> bytes option" where
  "blit_pixel limit buf data x y width j i fb =
     do {
       px \<leftarrow> cmd_bytes limit buf (data + (j * unat width + i) * 3) 3;
       gpu_draw_pixel (px ! 0, px ! 1, px ! 2) (int (unat x) + int i) (int (unat y) + int j) fb }"

definition gpu_blit_rect :: "nat \<Rightarrow> bytes \<Rightarrow> nat \<Rightarrow> u16 \<Rightarrow> u16 \<Rightarrow> u16 \<Rightarrow> u16 \<Rightarrow> bytes \<Rightarrow> bytes option" where
  "gpu_blit_rect limit buf data x y width height fb =
     fold (\<lambda>j st. fold (\<lambda>i st. Option.bind st (blit_pixel limit buf data x y width j i)) [0..<unat width] st)
       [0..<unat height] (Some fb)"

subsection \<open>Command buffers\<close>

datatype 'a gpu_end = Fatal | Finished 'a

text \<open>
  One command at \<open>p\<close>; \<open>Fatal\<close> ends the process. The commands are packed, so their alignment is 1 and the
  test for it never fails.
\<close>

definition run_command :: "nat \<Rightarrow> bytes \<Rightarrow> nat \<Rightarrow> bytes \<Rightarrow> bytes gpu_end option" where
  "run_command limit buf p fb =
     (let opcode = get16 buf p in
      if opcode = 0 then Some (Finished fb)
      else if opcode = 1 then
        do { f \<leftarrow> cmd_bytes limit buf (p + 8) 3; fb \<leftarrow> gpu_clear (f ! 0, f ! 1, f ! 2) fb; Some (Finished fb) }
      else if opcode = 2 then
        do {
          f \<leftarrow> cmd_bytes limit buf (p + 8) 11;
          fb \<leftarrow> gpu_draw_line (int (unat (get16 ((!) f) 0))) (int (unat (get16 ((!) f) 2))) (int (unat (get16 ((!) f) 4)))
                 (int (unat (get16 ((!) f) 6))) (f ! 8, f ! 9, f ! 10) fb;
          Some (Finished fb) }
      else if opcode = 3 then
        do {
          f \<leftarrow> cmd_bytes limit buf (p + 8) 8;
          fb \<leftarrow> gpu_blit_rect limit buf (p + 16) (get16 ((!) f) 0) (get16 ((!) f) 2) (get16 ((!) f) 4) (get16 ((!) f) 6) fb;
          Some (Finished fb) }
      else Some Fatal)"

text \<open>\<open>len\<close> is the length the guest gave, which need not be that of the buffer.\<close>

function run_commands :: "nat \<Rightarrow> bytes \<Rightarrow> nat \<Rightarrow> nat \<Rightarrow> bytes \<Rightarrow> bytes gpu_end option" where
  "run_commands limit buf len p fb =
     (if p < len \<and> p + 8 \<le> len then
        (if limit < p + 8 then None
         else
           (let n = unat (get32 buf (p + 4)) in
            if n = 0 \<or> p + n > len then Some Fatal
            else (case run_command limit buf p fb of
                    None \<Rightarrow> None
                  | Some Fatal \<Rightarrow> Some Fatal
                  | Some (Finished fb) \<Rightarrow> run_commands limit buf len (p + n) fb)))
      else Some (Finished fb))"
  by pat_completeness auto
termination
  by (relation "measure (\<lambda>(limit, buf, len, p, fb). len - p)") auto

declare run_commands.simps [simp del]

definition backend_execute_command_buffer :: "nat \<Rightarrow> bytes \<Rightarrow> u32 \<Rightarrow> bytes \<Rightarrow> bytes gpu_end option" where
  "backend_execute_command_buffer limit buf dma_len fb = run_commands limit buf (unat dma_len) 0 fb"

subsection \<open>What a pixel, a clear and a rectangle do\<close>

definition plot :: "rgb \<Rightarrow> int \<times> int \<Rightarrow> bytes \<Rightarrow> bytes" where
  "plot = (\<lambda>(r, g, b) (x, y) fb.
     if 0 \<le> x \<and> x < 640 \<and> 0 \<le> y \<and> y < 480 then poke fb (nat ((y * 640 + x) * 3)) [r, g, b] else fb)"

lemma draw_pixel_plot: "gpu_draw_pixel c x y fb = Some (plot c (x, y) fb)"
proof -
  have "nat ((y * 640 + x) * 3) + 3 \<le> 640 * 480 * 3" if "0 \<le> x" "x < 640" "0 \<le> y" "y < 480"
    using that by (simp add: nat_le_iff)
  then show ?thesis
    by (auto simp: gpu_draw_pixel_def plot_def store_bytes_def FB_WIDTH_def FB_HEIGHT_def FB_SIZE_def split: prod.splits)
qed

subsection \<open>What a line is\<close>

text \<open>
  The points of a line: one per step of the longer axis, the other coordinate rounded to the nearest
  integer (halves upwards, as seen from the start).
\<close>

definition near :: "int \<Rightarrow> int \<Rightarrow> int \<Rightarrow> int" where
  "near k m n = (if n = 0 then 0 else (2 * k * m + n) div (2 * n))"

definition line_points :: "int \<Rightarrow> int \<Rightarrow> int \<Rightarrow> int \<Rightarrow> (int \<times> int) list" where
  "line_points x0 y0 x1 y1 =
     (let dx = \<bar>x1 - x0\<bar>; dy = \<bar>y1 - y0\<bar>; n = max dx dy;
          sx = (if x0 < x1 then 1 else - 1); sy = (if y0 < y1 then 1 else - 1)
      in map (\<lambda>k. (x0 + sx * near k dx n, y0 + sy * near k dy n)) [0..n])"

lemma near_iff: "0 < n \<Longrightarrow> near k m n = b \<longleftrightarrow> 2 * b * n \<le> 2 * k * m + n \<and> 2 * k * m + n < 2 * b * n + 2 * n"
proof -
  assume n: "0 < n"
  have "(2 * k * m + n) div (2 * n) = b" if "2 * b * n \<le> 2 * k * m + n" "2 * k * m + n < 2 * b * n + 2 * n"
    using that n by (intro int_div_pos_eq [of _ _ _ "2 * k * m + n - 2 * b * n"]) (auto simp: algebra_simps)
  moreover have "2 * ((2 * k * m + n) div (2 * n)) * n \<le> 2 * k * m + n"
    "2 * k * m + n < 2 * ((2 * k * m + n) div (2 * n)) * n + 2 * n"
  proof -
    define q where "q = (2 * k * m + n) div (2 * n)"
    define r where "r = (2 * k * m + n) mod (2 * n)"
    have "0 \<le> r" "r < 2 * n" using n by (simp_all add: r_def)
    moreover have "2 * k * m + n = 2 * n * q + r" unfolding q_def r_def by (rule mult_div_mod_eq [symmetric])
    ultimately show "2 * ((2 * k * m + n) div (2 * n)) * n \<le> 2 * k * m + n"
      "2 * k * m + n < 2 * ((2 * k * m + n) div (2 * n)) * n + 2 * n"
      unfolding q_def [symmetric] by (auto simp: algebra_simps)
  qed
  ultimately show ?thesis using n by (auto simp: near_def)
qed

lemma near_self: "0 < n \<Longrightarrow> near k n n = k"
  by (simp add: near_iff)

text \<open>One step of the loop moves from the nearest points of step \<open>k\<close> to those of \<open>k + 1\<close>.\<close>

lemma near_step:
  fixes dx dy k n :: int
  defines "a \<equiv> near k dx n" and "b \<equiv> near k dy n"
  assumes n: "n = max dx dy" "0 < n" "0 \<le> dx" "0 \<le> dy"
  defines "e2 \<equiv> 2 * ((b + 1) * dx - (a + 1) * dy)"
  shows "near (k + 1) dx n = (if e2 \<ge> - dy then a + 1 else a)" "near (k + 1) dy n = (if e2 \<le> dx then b + 1 else b)"
proof -
  show "near (k + 1) dx n = (if e2 \<ge> - dy then a + 1 else a)"
  proof (cases "dy \<le> dx")
    case True
    then have nn: "n = dx" using n by simp
    then have ab: "a = k" "2 * b * n \<le> 2 * k * dy + n" "2 * k * dy + n < 2 * b * n + 2 * n"
      using n near_self near_iff [of n k dy b] by (simp_all add: a_def b_def)
    then show ?thesis using True nn n near_self [of n "k + 1"] by (simp add: e2_def algebra_simps)
  next
    case False
    then have nn: "n = dy" using n by simp
    then have ab: "b = k" "2 * a * n \<le> 2 * k * dx + n" "2 * k * dx + n < 2 * a * n + 2 * n"
      using n near_self near_iff [of n k dx a] by (simp_all add: a_def b_def)
    show ?thesis unfolding near_iff [OF n(2)] using False nn n ab by (auto simp: e2_def algebra_simps)
  qed
  show "near (k + 1) dy n = (if e2 \<le> dx then b + 1 else b)"
  proof (cases "dy \<le> dx")
    case True
    then have nn: "n = dx" using n by simp
    then have ab: "a = k" "2 * b * n \<le> 2 * k * dy + n" "2 * k * dy + n < 2 * b * n + 2 * n"
      using n near_self near_iff [of n k dy b] by (simp_all add: a_def b_def)
    show ?thesis unfolding near_iff [OF n(2)] using True nn n ab by (auto simp: e2_def algebra_simps)
  next
    case False
    then have nn: "n = dy" using n by simp
    then have ab: "b = k" "2 * a * n \<le> 2 * k * dx + n" "2 * k * dx + n < 2 * a * n + 2 * n"
      using n near_self near_iff [of n k dx a] by (simp_all add: a_def b_def)
    then show ?thesis using False nn n near_self [of n "k + 1"] by (simp add: e2_def algebra_simps)
  qed
qed

lemma line_loop_step:
  assumes "\<not> (x = x1 \<and> y = y1)"
  shows "line_loop c x1 y1 dx dy sx sy err x y fb =
    line_loop c x1 y1 dx dy sx sy (err + (if 2 * err \<ge> dy then dy else 0) + (if 2 * err \<le> dx then dx else 0))
      (if 2 * err \<ge> dy then x + sx else x) (if 2 * err \<le> dx then y + sy else y) (plot c (x, y) fb)"
  using assms by (subst line_loop.simps) (auto simp: draw_pixel_plot Let_def)

lemma line_loop_points:
  fixes x0 y0 :: int
  assumes n: "n = max dx dy" "0 \<le> dx" "0 \<le> dy" and s: "sx \<noteq> 0" "sy \<noteq> 0" and k: "0 \<le> k" "k \<le> n"
  defines "pt \<equiv> \<lambda>k. (x0 + sx * near k dx n, y0 + sy * near k dy n)"
  shows "line_loop c (x0 + sx * dx) (y0 + sy * dy) dx (- dy) sx sy ((near k dy n + 1) * dx - (near k dx n + 1) * dy)
      (x0 + sx * near k dx n) (y0 + sy * near k dy n) fb = Some (fold (plot c) (map pt [k..n]) fb)"
  using k
proof (induction "nat (n - k)" arbitrary: k fb)
  case 0
  then have "k = n" by simp
  moreover have "near n dx n = dx" "near n dy n = dy"
    using n near_self [of n] by (auto simp: near_iff near_def max_def split: if_splits)
  ultimately show ?case by (subst line_loop.simps) (simp add: draw_pixel_plot pt_def)
next
  case (Suc m)
  then have "k < n" "0 < n" by simp_all
  note st = near_step [OF n(1) \<open>0 < n\<close> n(2,3), of k]
  have ne: "\<not> (near k dx n = dx \<and> near k dy n = dy)"
    using \<open>k < n\<close> \<open>0 < n\<close> n near_self [of n k] by (auto simp: max_def split: if_splits)
  have "[k..n] = k # [k + 1..n]" using \<open>k < n\<close> by (simp add: upto_rec1)
  moreover have "m = nat (n - (k + 1))" "0 \<le> k + 1" "k + 1 \<le> n" using Suc(2) Suc(3) \<open>k < n\<close> by simp_all
  note IH = Suc(1) [OF this]
  let ?a = "near k dx n" and ?b = "near k dy n"
  let ?e = "(?b + 1) * dx - (?a + 1) * dy"
  have "line_loop c (x0 + sx * dx) (y0 + sy * dy) dx (- dy) sx sy ?e (x0 + sx * ?a) (y0 + sy * ?b) fb =
    line_loop c (x0 + sx * dx) (y0 + sy * dy) dx (- dy) sx sy ((near (k + 1) dy n + 1) * dx - (near (k + 1) dx n + 1) * dy)
      (x0 + sx * near (k + 1) dx n) (y0 + sy * near (k + 1) dy n) (plot c (pt k) fb)"
  proof -
    have x: "(if 2 * ?e \<ge> - dy then x0 + sx * ?a + sx else x0 + sx * ?a) = x0 + sx * near (k + 1) dx n"
      and y: "(if 2 * ?e \<le> dx then y0 + sy * ?b + sy else y0 + sy * ?b) = y0 + sy * near (k + 1) dy n"
      by (simp_all only: st) (simp_all add: distrib_left)
    have e: "?e + (if 2 * ?e \<ge> - dy then - dy else 0) + (if 2 * ?e \<le> dx then dx else 0) =
        (near (k + 1) dy n + 1) * dx - (near (k + 1) dx n + 1) * dy"
      by (simp only: st) (simp add: distrib_right)
    have "\<not> (x0 + sx * ?a = x0 + sx * dx \<and> y0 + sy * ?b = y0 + sy * dy)" using ne s by simp
    from line_loop_step [OF this, of c dx "- dy" sx sy ?e fb] show ?thesis unfolding x y e pt_def .
  qed
  with IH show ?case unfolding \<open>[k..n] = _\<close> by simp
qed

lemma draw_line_points: "gpu_draw_line x0 y0 x1 y1 c fb = Some (fold (plot c) (line_points x0 y0 x1 y1) fb)"
proof -
  define dx where "dx = \<bar>x1 - x0\<bar>"
  define dy where "dy = \<bar>y1 - y0\<bar>"
  define sx :: int where "sx = (if x0 < x1 then 1 else - 1)"
  define sy :: int where "sy = (if y0 < y1 then 1 else - 1)"
  have e: "x0 + sx * dx = x1" "y0 + sy * dy = y1" by (simp_all add: dx_def dy_def sx_def sy_def)
  have z: "near 0 m n = 0" if "0 \<le> n" for m n using that by (cases "n = 0") (simp_all add: near_def)
  have "line_loop c x1 y1 dx (- dy) sx sy (dx - dy) x0 y0 fb =
      Some (fold (plot c) (map (\<lambda>k. (x0 + sx * near k dx (max dx dy), y0 + sy * near k dy (max dx dy))) [0..max dx dy]) fb)"
    using line_loop_points [OF refl, of dx dy sx sy 0 c x0 y0 fb] by (simp add: e z) (simp add: dx_def dy_def sx_def sy_def z)
  then show ?thesis
    by (simp add: gpu_draw_line_def line_points_def Let_def dx_def dy_def sx_def sy_def)
qed

lemma near_end: "0 \<le> m \<Longrightarrow> m \<le> n \<Longrightarrow> near n m n = m"
  by (cases "n = 0") (simp_all add: near_iff near_def)

text \<open>
  C24. Lines. For any end points and colour, the loop ends and has drawn exactly the points of the ideal
  line, one for each step along its longer axis with the other coordinate rounded to the nearest
  integer, from the first end point to the last; points outside the screen are left out.
\<close>

theorem gpu_line_correct:
  "gpu_draw_line x0 y0 x1 y1 c fb = Some (fold (plot c) (line_points x0 y0 x1 y1) fb) \<and>
   hd (line_points x0 y0 x1 y1) = (x0, y0) \<and> last (line_points x0 y0 x1 y1) = (x1, y1) \<and>
   length (line_points x0 y0 x1 y1) = nat (max \<bar>x1 - x0\<bar> \<bar>y1 - y0\<bar>) + 1"
proof -
  define n where "n = max \<bar>x1 - x0\<bar> \<bar>y1 - y0\<bar>"
  define f where "f = (\<lambda>k. (x0 + (if x0 < x1 then 1 else - 1) * near k \<bar>x1 - x0\<bar> n, y0 + (if y0 < y1 then 1 else - 1) * near k \<bar>y1 - y0\<bar> n))"
  have p: "line_points x0 y0 x1 y1 = map f [0..n]" by (simp add: line_points_def Let_def f_def n_def)
  have n: "0 \<le> n" "\<bar>x1 - x0\<bar> \<le> n" "\<bar>y1 - y0\<bar> \<le> n" by (simp_all add: n_def)
  have "[0..n] = 0 # [1..n]" using n(1) upto_rec1 [of 0 n] by simp
  then have "hd (map f [0..n]) = f 0" by simp
  moreover have "[0..n] = [0..n - 1] @ [n]" using n(1) upto_rec2 [of 0 n] by simp
  then have "last (map f [0..n]) = f n" by simp
  moreover have "near 0 m n = 0" for m using n(1) by (cases "n = 0") (simp_all add: near_def)
  then have "f 0 = (x0, y0)" by (simp add: f_def)
  moreover have "f n = (x1, y1)" using near_end [OF _ n(2)] near_end [OF _ n(3)] by (simp add: f_def)
  ultimately show ?thesis using draw_line_points [of x0 y0 x1 y1 c fb] n(1) by (simp add: p flip: n_def)
qed

end
