(* ===== verification/ProtoCmd.thy ===== *)
theory ProtoCmd
  imports ProtoGpu
begin

text \<open>
  The commands of the accelerator: what clearing and copying do to the framebuffer, the encoding of
  a list of commands in a buffer, and that the interpreter draws them in their order.
\<close>

subsection \<open>Areas, pixel by pixel\<close>

lemma fold_total:
  assumes "\<And>x s. x \<in> set xs \<Longrightarrow> f x s = Some (g x s)"
  shows "fold (\<lambda>x st. Option.bind st (f x)) xs (Some s) = Some (fold g xs s)"
  using assms by (induction xs arbitrary: s) simp_all

definition cleared :: "rgb \<Rightarrow> nat \<Rightarrow> bytes \<Rightarrow> bytes" where
  "cleared = (\<lambda>(r, g, b) n fb i. if i < 3 * n then (if i mod 3 = 0 then r else if i mod 3 = 1 then g else b) else fb i)"

lemma cleared_step: "poke (cleared (r, g, b) n fb) (n * 3) [r, g, b] = cleared (r, g, b) (Suc n) fb"
proof (rule ext)
  fix i
  have m: "(3 * n + 1) mod 3 = 1" "(3 * n + 2) mod 3 = 2" by presburger+
  consider "i < 3 * n" | "i = 3 * n" | "i = 3 * n + 1" | "i = 3 * n + 2" | "3 * n + 3 \<le> i" by linarith
  then show "poke (cleared (r, g, b) n fb) (n * 3) [r, g, b] i = cleared (r, g, b) (Suc n) fb i"
  proof cases
    case 4
    then show ?thesis using m by (simp add: poke_def cleared_def del: One_nat_def mod_mult_self4 mod_mult_self2)
  qed (simp_all add: poke_def cleared_def)
qed

lemma fold_clear:
  "3 * n \<le> FB_SIZE \<Longrightarrow> fold (\<lambda>i st. Option.bind st (\<lambda>fb. store_bytes FB_SIZE fb (i * 3) [r, g, b])) [0..<n] (Some fb) =
     Some (cleared (r, g, b) n fb)"
proof (induction n)
  case (Suc n)
  then show ?case by (simp add: store_bytes_def cleared_step)
qed (simp add: cleared_def)

lemma clear_correct: "gpu_clear c fb = Some (cleared c 307200 fb)"
proof -
  obtain r g b where c: "c = (r, g, b)" by (cases c)
  have n: "nat (FB_WIDTH * FB_HEIGHT) = 307200" by (simp add: FB_WIDTH_def FB_HEIGHT_def)
  have z: "poke fb 0 (replicate FB_SIZE v) = cleared (v, v, v) 307200 fb" for v
    by (rule ext) (simp add: poke_def cleared_def FB_SIZE_def)
  have s: "3 * 307200 \<le> FB_SIZE" by (simp add: FB_SIZE_def)
  show ?thesis
  proof (cases "r = g \<and> g = b")
    case True
    then show ?thesis by (simp add: gpu_clear_def c store_bytes_def z)
  next
    case False
    then show ?thesis unfolding gpu_clear_def c n using fold_clear [OF s, of r g b fb] by (simp only: split if_False)
  qed
qed

definition blit_colour :: "u8 list \<Rightarrow> nat \<Rightarrow> nat \<Rightarrow> nat \<Rightarrow> rgb" where
  "blit_colour d w j i = (let k = (j * w + i) * 3 in (d ! k, d ! (k + 1), d ! (k + 2)))"

definition blit :: "int \<Rightarrow> int \<Rightarrow> nat \<Rightarrow> nat \<Rightarrow> u8 list \<Rightarrow> bytes \<Rightarrow> bytes" where
  "blit x y w h d = fold (\<lambda>j. fold (\<lambda>i. plot (blit_colour d w j i) (x + int i, y + int j)) [0..<w]) [0..<h]"

lemma blit_index: "i < w \<Longrightarrow> j < h \<Longrightarrow> (j * w + i) * 3 + 3 \<le> w * h * 3" for i j w h :: nat
proof -
  assume "i < w" "j < h"
  then have "j * w + i < Suc j * w" "Suc j * w \<le> h * w" using mult_le_mono1 [of "Suc j" h w] by simp_all
  then show ?thesis by (simp add: mult.commute)
qed

lemma blit_correct:
  assumes "data + unat w * unat h * 3 \<le> limit" "d = bytes_of buf data (unat w * unat h * 3)"
  shows "gpu_blit_rect limit buf data x y w h fb = Some (blit (int (unat x)) (int (unat y)) (unat w) (unat h) d fb)"
proof -
  have px: "blit_pixel limit buf data x y w j i fb = Some (plot (blit_colour d (unat w) j i) (int (unat x) + int i, int (unat y) + int j) fb)"
    if "j < unat h" "i < unat w" for j i fb
    using blit_index [OF that(2,1)] assms
    by (simp add: blit_pixel_def cmd_bytes_def draw_pixel_plot blit_colour_def Let_def bytes_of_def add.assoc)
  have row: "fold (\<lambda>i st. Option.bind st (blit_pixel limit buf data x y w j i)) [0..<unat w] (Some fb) =
      Some (fold (\<lambda>i. plot (blit_colour d (unat w) j i) (int (unat x) + int i, int (unat y) + int j)) [0..<unat w] fb)"
    if "j < unat h" for j fb
    using px [OF that] by (intro fold_total) simp
  have "fold (\<lambda>j st. fold (\<lambda>i st. Option.bind st (blit_pixel limit buf data x y w j i)) [0..<unat w] st) js (Some fb) =
      Some (fold (\<lambda>j. fold (\<lambda>i. plot (blit_colour d (unat w) j i) (int (unat x) + int i, int (unat y) + int j)) [0..<unat w]) js fb)"
    if "set js \<subseteq> {..<unat h}" for js
    using that row by (induction js arbitrary: fb) simp_all
  then show ?thesis by (simp add: gpu_blit_rect_def blit_def atLeast0LessThan)
qed

subsection \<open>Commands and their encoding\<close>

datatype gpu_cmd =
    Nop | Clear rgb
  | Line u16 u16 u16 u16 rgb
  | Blit u16 u16 u16 u16 "u8 list"

definition header :: "u16 \<Rightarrow> nat \<Rightarrow> u8 list" where
  "header op_code n = le16 op_code @ le16 0 @ le32 (of_nat n)"

fun gpu_encode :: "gpu_cmd \<Rightarrow> u8 list" where
  "gpu_encode Nop = header 0 8"
| "gpu_encode (Clear (r, g, b)) = header 1 12 @ [r, g, b, 0]"
| "gpu_encode (Line x0 y0 x1 y1 (r, g, b)) = header 2 20 @ le16 x0 @ le16 y0 @ le16 x1 @ le16 y1 @ [r, g, b, 0]"
| "gpu_encode (Blit x y w h d) = header 3 (16 + length d) @ le16 x @ le16 y @ le16 w @ le16 h @ d"

fun gpu_cmd_ok :: "gpu_cmd \<Rightarrow> bool" where
  "gpu_cmd_ok (Blit x y w h d) \<longleftrightarrow> length d = unat w * unat h * 3 \<and> 16 + length d < 2 ^ 32"
| "gpu_cmd_ok _ \<longleftrightarrow> True"

fun gpu_draw :: "gpu_cmd \<Rightarrow> bytes \<Rightarrow> bytes" where
  "gpu_draw Nop fb = fb"
| "gpu_draw (Clear c) fb = cleared c 307200 fb"
| "gpu_draw (Line x0 y0 x1 y1 c) fb =
     fold (plot c) (line_points (int (unat x0)) (int (unat y0)) (int (unat x1)) (int (unat y1))) fb"
| "gpu_draw (Blit x y w h d) fb = blit (int (unat x)) (int (unat y)) (unat w) (unat h) d fb"

lemma length_header [simp]: "length (header op_code n) = 8"
  by (simp add: header_def)

lemma get16_at: "get16 ((!) (xs @ le16 v @ ys)) (length xs) = v"
  using join16 [of v] by (simp add: get16_def nth_append le16_def)

lemma get32_at: "get32 ((!) (xs @ le32 v @ ys)) (length xs) = v"
  using join32 [of v] by (simp add: get32_def nth_append le32_def eval_nat_numeral)

lemma bytes_of_nth: "bytes_of buf p n = xs \<Longrightarrow> k < n \<Longrightarrow> buf (p + k) = xs ! k"
  by (auto simp: bytes_of_def)

lemma header_fields:
  assumes "bytes_of buf p (8 + k) = header op_code n @ xs" "n < 2 ^ 32"
  shows "get16 buf p = op_code" "unat (get32 buf (p + 4)) = n" "bytes_of buf (p + 8) k = xs"
proof -
  let ?l = "header op_code n @ xs"
  have b: "buf (p + i) = ?l ! i" if "i < 8" for i using bytes_of_nth [OF assms(1)] that by simp
  have "get16 buf p = get16 ((!) ?l) 0" using b [of 0] b [of 1] by (simp add: get16_def)
  then show "get16 buf p = op_code" using get16_at [of "[]" op_code] by (simp add: header_def)
  have c: "buf (p + 4 + i) = ?l ! (4 + i)" if "i < 4" for i using b [of "4 + i"] that by (simp add: add.assoc)
  have "get32 buf (p + 4) = get32 ((!) ?l) 4"
    using c [of 0] by (simp only: get32_def c [of 1] c [of 2] c [of 3]) simp
  moreover have "get32 ((!) ?l) 4 = of_nat n"
    using get32_at [of "le16 op_code @ le16 0" "of_nat n" xs] by (simp add: header_def)
  ultimately show "unat (get32 buf (p + 4)) = n" using assms(2) by (simp add: unsigned_of_nat take_bit_nat_eq_self)
  have "bytes_of buf (p + 8) k = drop 8 (bytes_of buf p (8 + k))" by (simp add: bytes_of_append)
  then show "bytes_of buf (p + 8) k = xs" by (simp add: assms(1))
qed

subsection \<open>A command buffer is drawn as it is written\<close>

lemma length_encode: "length (gpu_encode c) \<ge> 8"
  by (cases c) auto

lemma encode_header:
  "\<exists>op_code xs. gpu_encode c = header op_code (length (gpu_encode c)) @ xs"
proof (cases c)
  case (Clear q)
  then show ?thesis by (cases q) (auto simp: eval_nat_numeral)
next
  case (Line x0 y0 x1 y1 q)
  then show ?thesis by (cases q) (auto simp: eval_nat_numeral le16_def)
qed (auto simp: le16_def)

lemma bytes_of_split:
  assumes "bytes_of buf p (length xs + length ys) = xs @ ys"
  shows "bytes_of buf p (length xs) = xs" "bytes_of buf (p + length xs) (length ys) = ys"
  using assms unfolding bytes_of_append by (simp_all add: append_eq_append_conv)

lemma cmd_bytes_prefix:
  assumes "bytes_of buf p n = xs @ ys" "p + n \<le> limit" "length xs = k"
  shows "cmd_bytes limit buf p k = Some xs"
proof -
  have n: "n = length xs + length ys" using arg_cong [OF assms(1), of length] by simp
  show ?thesis using bytes_of_split [of buf p xs ys] assms by (simp add: cmd_bytes_def n)
qed

lemma run_encoded:
  assumes "bytes_of buf p (length (gpu_encode c)) = gpu_encode c" "gpu_cmd_ok c" "p + length (gpu_encode c) \<le> limit"
  shows "run_command limit buf p fb = Some (Finished (gpu_draw c fb))"
    "unat (get32 buf (p + 4)) = length (gpu_encode c)"
proof -
  have "run_command limit buf p fb = Some (Finished (gpu_draw c fb)) \<and>
    unat (get32 buf (p + 4)) = length (gpu_encode c)"
  proof (cases c)
    case Nop
    then show ?thesis using header_fields [of buf p 0 0 8 "[]"] assms(1) by (simp add: run_command_def)
  next
    case (Clear q)
    obtain r g b where q: "q = (r, g, b)" by (cases q)
    have h: "bytes_of buf p (8 + 4) = header 1 12 @ [r, g, b, 0]" using assms(1) by (simp add: Clear q)
    note f = header_fields [OF h]
    have "cmd_bytes limit buf (p + 8) 3 = Some [r, g, b]"
      using cmd_bytes_prefix [of buf "p + 8" 4 "[r, g, b]" "[0]" limit 3] f(3) assms(3) by (simp add: Clear q)
    then show ?thesis using f(1,2) by (simp add: run_command_def clear_correct Clear q)
  next
    case (Line x0 y0 x1 y1 q)
    obtain r g b where q: "q = (r, g, b)" by (cases q)
    let ?f = "le16 x0 @ le16 y0 @ le16 x1 @ le16 y1 @ [r, g, b]"
    have h: "bytes_of buf p (8 + 12) = header 2 20 @ ?f @ [0]" using assms(1) by (simp add: Line q)
    note f = header_fields [OF h]
    have "cmd_bytes limit buf (p + 8) 11 = Some ?f"
      using cmd_bytes_prefix [of buf "p + 8" 12 ?f "[0]" limit 11] f(3) assms(3) by (simp add: Line q)
    moreover have "get16 ((!) ?f) 0 = x0" "get16 ((!) ?f) 2 = y0" "get16 ((!) ?f) 4 = x1" "get16 ((!) ?f) 6 = y1"
      using get16_at [of "[]" x0] get16_at [of "le16 x0" y0] get16_at [of "le16 x0 @ le16 y0" x1]
        get16_at [of "le16 x0 @ le16 y0 @ le16 x1" y1] by simp_all
    moreover have "?f ! 8 = r" "?f ! 9 = g" "?f ! 10 = b" by (simp_all add: le16_def)
    ultimately show ?thesis using f(1,2) by (simp add: run_command_def draw_line_points Line q)
  next
    case (Blit x y w h d)
    let ?f = "le16 x @ le16 y @ le16 w @ le16 h"
    have h: "bytes_of buf p (8 + (8 + length d)) = header 3 (16 + length d) @ ?f @ d" using assms(1) by (simp add: Blit add.assoc)
    have n: "16 + length d < 2 ^ 32" "length d = unat w * unat h * 3" using assms(2) unfolding Blit gpu_cmd_ok.simps by blast+
    note f = header_fields [OF h n(1)]
    have g: "bytes_of buf (p + 8) (length ?f + length d) = ?f @ d" using f(3) by simp
    have "cmd_bytes limit buf (p + 8) 8 = Some ?f"
      using cmd_bytes_prefix [OF g, of limit 8] assms(3) by (simp add: Blit)
    moreover have "get16 ((!) ?f) 0 = x" "get16 ((!) ?f) 2 = y" "get16 ((!) ?f) 4 = w" "get16 ((!) ?f) 6 = h"
      using get16_at [of "[]" x] get16_at [of "le16 x" y] get16_at [of "le16 x @ le16 y" w]
        get16_at [of "le16 x @ le16 y @ le16 w" h "[]"] by simp_all
    moreover have "gpu_blit_rect limit buf (p + 16) x y w h fb =
        Some (blit (int (unat x)) (int (unat y)) (unat w) (unat h) d fb)"
      using bytes_of_split(2) [OF g] assms(3) n(2) by (intro blit_correct) (simp_all add: Blit add.assoc)
    ultimately show ?thesis using f(1,2) by (simp add: run_command_def Blit)
  qed
  then show "run_command limit buf p fb = Some (Finished (gpu_draw c fb))"
    "unat (get32 buf (p + 4)) = length (gpu_encode c)" by simp_all
qed

definition gpu_encodes :: "gpu_cmd list \<Rightarrow> u8 list" where
  "gpu_encodes cs = concat (map gpu_encode cs)"

lemma run_commands_encoded:
  assumes "bytes_of buf p (length (gpu_encodes cs)) = gpu_encodes cs" "\<forall>c\<in>set cs. gpu_cmd_ok c"
    and "len = p + length (gpu_encodes cs)" "len \<le> limit"
  shows "run_commands limit buf len p fb = Some (Finished (fold gpu_draw cs fb))"
  using assms
proof (induction cs arbitrary: p fb)
  case Nil
  then show ?case by (subst run_commands.simps) (simp add: gpu_encodes_def)
next
  case (Cons c cs)
  let ?n = "length (gpu_encode c)"
  have e: "gpu_encodes (c # cs) = gpu_encode c @ gpu_encodes cs" by (simp add: gpu_encodes_def)
  have h: "bytes_of buf p (?n + length (gpu_encodes cs)) = gpu_encode c @ gpu_encodes cs"
    using Cons.prems(1) by (simp add: e)
  note s = bytes_of_split [OF h]
  have b: "p + ?n \<le> len" "len \<le> limit" using Cons.prems(3,4) by (simp_all add: e)
  have r: "run_command limit buf p fb = Some (Finished (gpu_draw c fb))" "unat (get32 buf (p + 4)) = ?n"
    using run_encoded(1) [OF s(1), of limit fb] run_encoded(2) [OF s(1), of limit] Cons.prems(2) b by simp_all
  have "run_commands limit buf len p fb = run_commands limit buf len (p + ?n) (gpu_draw c fb)"
    using b r length_encode [of c] by (subst run_commands.simps) (simp add: Let_def, force)
  also have "... = Some (Finished (fold gpu_draw cs (gpu_draw c fb)))"
    using s(2) Cons.prems by (intro Cons.IH) (simp_all add: e)
  finally show ?case by simp
qed

lemma command_buffer_drawn:
  assumes "bytes_of buf 0 (length (gpu_encodes cs)) = gpu_encodes cs" "\<forall>c\<in>set cs. gpu_cmd_ok c"
    and "length (gpu_encodes cs) \<le> limit" "length (gpu_encodes cs) < 2 ^ 32"
  shows "backend_execute_command_buffer limit buf (of_nat (length (gpu_encodes cs))) fb =
    Some (Finished (fold gpu_draw cs fb))"
  using run_commands_encoded [of buf 0 cs "length (gpu_encodes cs)" limit fb] assms
  by (simp add: backend_execute_command_buffer_def unsigned_of_nat take_bit_nat_eq_self)

end
