(* ===== verification/ProtoBackend.thy ===== *)
theory ProtoBackend
  imports ProtoCmd
begin

text \<open>
  The rest of the accelerator backend inside QEMU (\<^verbatim>\<open>examples/protopciem/qemu/protopciem_backend.c\<close>):
  its registers, the messages it gets from the card over a socket, the transfers it asks the card for,
  and the display. The socket and the pixel format of the display are arguments.
\<close>

subsection \<open>State and messages\<close>

definition REG_CONTROL :: u32 where "REG_CONTROL = 0x00"
definition REG_STATUS :: u32 where "REG_STATUS = 0x04"
definition REG_CMD :: u32 where "REG_CMD = 0x08"
definition REG_DATA :: u32 where "REG_DATA = 0x0C"
definition REG_RESULT_LO :: u32 where "REG_RESULT_LO = 0x10"
definition REG_RESULT_HI :: u32 where "REG_RESULT_HI = 0x14"
definition REG_DMA_SRC_LO :: u32 where "REG_DMA_SRC_LO = 0x20"
definition REG_DMA_SRC_HI :: u32 where "REG_DMA_SRC_HI = 0x24"
definition REG_DMA_DST_LO :: u32 where "REG_DMA_DST_LO = 0x28"
definition REG_DMA_DST_HI :: u32 where "REG_DMA_DST_HI = 0x2C"
definition REG_DMA_LEN :: u32 where "REG_DMA_LEN = 0x30"

definition STATUS_BUSY :: u32 where "STATUS_BUSY = 1"
definition STATUS_DONE :: u32 where "STATUS_DONE = 2"
definition STATUS_ERROR :: u32 where "STATUS_ERROR = 4"

definition CMD_ADD :: u32 where "CMD_ADD = 1"
definition CMD_MULTIPLY :: u32 where "CMD_MULTIPLY = 2"
definition CMD_XOR :: u32 where "CMD_XOR = 3"
definition CMD_EXECUTE_CMDBUF :: u32 where "CMD_EXECUTE_CMDBUF = 5"
definition CMD_DMA_FRAME :: u32 where "CMD_DMA_FRAME = 6"

definition MSG_REGISTER_WRITE :: u32 where "MSG_REGISTER_WRITE = 1"
definition MSG_REGISTER_READ :: u32 where "MSG_REGISTER_READ = 2"
definition MSG_RAISE_IRQ :: u32 where "MSG_RAISE_IRQ = 3"
definition MSG_DMA_READ :: u32 where "MSG_DMA_READ = 4"

lemmas proto_reg_defs = REG_CONTROL_def REG_STATUS_def REG_CMD_def REG_DATA_def REG_RESULT_LO_def REG_RESULT_HI_def
  REG_DMA_SRC_LO_def REG_DMA_SRC_HI_def REG_DMA_DST_LO_def REG_DMA_DST_HI_def REG_DMA_LEN_def

lemmas proto_cmd_defs = CMD_ADD_def CMD_MULTIPLY_def CMD_XOR_def CMD_EXECUTE_CMDBUF_def CMD_DMA_FRAME_def

lemmas proto_status_defs = STATUS_BUSY_def STATUS_DONE_def STATUS_ERROR_def

lemmas proto_msg_defs = MSG_REGISTER_WRITE_def MSG_REGISTER_READ_def MSG_RAISE_IRQ_def MSG_DMA_READ_def

definition CMD_BUFFER_SIZE :: nat where "CMD_BUFFER_SIZE = 4 * 1024 * 1024"

text \<open>The fields of a message its sender leaves uninitialised are 0 here; no receiver reads them.\<close>

record qemu_msg =
  m_type :: u32
  m_offset :: u32
  m_value :: u64
  m_addr :: u64
  m_len :: u32

record qemu_resp =
  r_status :: u32
  r_value :: u64

text \<open>\<open>q_surface\<close> is the surface of the console, when it has one: the bytes per row, and its memory.\<close>

record backend =
  q_control :: u32
  q_status :: u32
  q_cmd :: u32
  q_data :: u32
  q_result_lo :: u32
  q_result_hi :: u32
  q_dma_src_lo :: u32
  q_dma_src_hi :: u32
  q_dma_dst_lo :: u32
  q_dma_dst_hi :: u32
  q_dma_len :: u32
  q_cmd_buffer :: bytes
  q_framebuffer :: bytes
  q_surface :: "(nat \<times> bytes) option"

text \<open>
  The other side of the socket: \<open>q_call\<close> sends a request and gives the answer, if one came, and the data
  after it until the connection ended; \<open>q_send\<close> sends a message.
\<close>

record 'w q_peer =
  q_call :: "qemu_msg \<Rightarrow> 'w \<Rightarrow> (qemu_resp option \<times> u8 list \<times> 'w) option"
  q_send :: "qemu_msg \<Rightarrow> 'w \<Rightarrow> 'w option"
  q_rgb :: "u8 \<Rightarrow> u8 \<Rightarrow> u8 \<Rightarrow> u32"

subsection \<open>Operations\<close>

definition display_rows :: "(u8 \<Rightarrow> u8 \<Rightarrow> u8 \<Rightarrow> u32) \<Rightarrow> nat \<Rightarrow> bytes \<Rightarrow> bytes \<Rightarrow> bytes" where
  "display_rows rgb stride src =
     fold (\<lambda>y. fold (\<lambda>x d.
       let i = y * nat FB_WIDTH * 3 + x * 3
       in poke d (y * stride + 4 * x) (le32 (rgb (src i) (src (i + 1)) (src (i + 2))))) [0..<nat FB_WIDTH]) [0..<nat FB_HEIGHT]"

definition backend_update_display :: "'w q_peer \<Rightarrow> backend \<Rightarrow> backend" where
  "backend_update_display P s =
     s\<lparr>q_surface := map_option (\<lambda>(stride, d). (stride, display_rows (q_rgb P) stride (q_framebuffer s) d)) (q_surface s)\<rparr>"

text \<open>The result tells whether all \<open>len\<close> bytes came; what came is in the buffer in any case.\<close>

definition dma_read_from_guest :: "'w q_peer \<Rightarrow> u64 \<Rightarrow> bytes \<Rightarrow> u32 \<Rightarrow> 'w \<Rightarrow> (bool \<times> bytes \<times> 'w) option" where
  "dma_read_from_guest P guest_addr dst len w =
     do {
       (r, bs, w) \<leftarrow> q_call P \<lparr>m_type = MSG_DMA_READ, m_offset = 0, m_value = 0, m_addr = guest_addr, m_len = len\<rparr> w;
       case r of
         None \<Rightarrow> Some (False, dst, w)
       | Some resp \<Rightarrow>
           if r_status resp \<noteq> 0 then Some (False, dst, w)
           else Some (length (take (unat len) bs) = unat len, poke dst 0 (take (unat len) bs), w) }"

text \<open>What follows a step that may end the process.\<close>

definition and_then :: "'a gpu_end option \<Rightarrow> ('a \<Rightarrow> 'b gpu_end option) \<Rightarrow> 'b gpu_end option" where
  "and_then r f = (case r of None \<Rightarrow> None | Some Fatal \<Rightarrow> Some Fatal | Some (Finished x) \<Rightarrow> f x)"

lemma and_then_simps [simp]:
  "and_then None f = None" "and_then (Some Fatal) f = Some Fatal" "and_then (Some (Finished x)) f = f x"
  by (simp_all add: and_then_def)

definition backend_run :: "'w q_peer \<Rightarrow> backend \<Rightarrow> 'w \<Rightarrow> (backend \<times> 'w) gpu_end option" where
  "backend_run P s w =
     (let src = push_bit 32 (ucast (q_dma_src_hi s)) OR ucast (q_dma_src_lo s); len = q_dma_len s in
      if q_cmd s = CMD_EXECUTE_CMDBUF then
        (let len = (if unat len > CMD_BUFFER_SIZE then of_nat CMD_BUFFER_SIZE else len) in
         do {
           (ok, buf, w) \<leftarrow> dma_read_from_guest P src (q_cmd_buffer s) len w;
           let s = s\<lparr>q_cmd_buffer := buf\<rparr>;
           if ok then
             and_then (backend_execute_command_buffer CMD_BUFFER_SIZE buf (q_dma_len s) (q_framebuffer s))
               (\<lambda>fb. Some (Finished (s\<lparr>q_framebuffer := fb\<rparr>, w)))
           else Some (Finished (s, w)) })
      else if q_cmd s = CMD_DMA_FRAME then
        (if unat len \<noteq> FB_SIZE then Some Fatal
         else do {
           (ok, fb, w) \<leftarrow> dma_read_from_guest P src (q_framebuffer s) len w;
           let s = s\<lparr>q_framebuffer := fb\<rparr>;
           Some (Finished (if ok then backend_update_display P s else s, w)) })
      else Some Fatal)"

definition backend_process_complete :: "'w q_peer \<Rightarrow> backend \<Rightarrow> 'w \<Rightarrow> (backend \<times> 'w) gpu_end option" where
  "backend_process_complete P s w =
     and_then (backend_run P s w) (\<lambda>(s, w).
       let s = s\<lparr>q_status := (q_status s OR STATUS_DONE) AND NOT STATUS_BUSY\<rparr> in
       do {
         w \<leftarrow> q_send P \<lparr>m_type = MSG_RAISE_IRQ, m_offset = q_status s,
                m_value = push_bit 32 (ucast (q_result_hi s)) OR ucast (q_result_lo s), m_addr = 0, m_len = 0\<rparr> w;
         Some (Finished (s, w)) })"

definition backend_reg_read :: "u32 \<Rightarrow> backend \<Rightarrow> u32 option" where
  "backend_reg_read off s =
     (if off = REG_CONTROL then Some (q_control s)
      else if off = REG_STATUS then Some (q_status s)
      else if off = REG_CMD then Some (q_cmd s)
      else if off = REG_DATA then Some (q_data s)
      else if off = REG_RESULT_LO then Some (q_result_lo s)
      else if off = REG_RESULT_HI then Some (q_result_hi s)
      else if off = REG_DMA_SRC_LO then Some (q_dma_src_lo s)
      else if off = REG_DMA_SRC_HI then Some (q_dma_src_hi s)
      else if off = REG_DMA_DST_LO then Some (q_dma_dst_lo s)
      else if off = REG_DMA_DST_HI then Some (q_dma_dst_hi s)
      else if off = REG_DMA_LEN then Some (q_dma_len s)
      else None)"

definition backend_reg_write :: "'w q_peer \<Rightarrow> u32 \<Rightarrow> u64 \<Rightarrow> backend \<Rightarrow> 'w \<Rightarrow> (bool \<times> backend \<times> 'w) gpu_end option" where
  "backend_reg_write P off value s w =
     (let v = ucast value; fin = (\<lambda>s. Some (Finished (True, s, w))) in
      if off = REG_CONTROL then
        (let s = s\<lparr>q_control := v\<rparr> in
         if value AND 2 \<noteq> 0 then
           (case gpu_clear (0, 0, 0) (q_framebuffer s) of
              None \<Rightarrow> None
            | Some fb \<Rightarrow> fin (backend_update_display P (s\<lparr>q_status := 0, q_cmd := 0, q_data := 0, q_framebuffer := fb\<rparr>)))
         else fin s)
      else if off = REG_STATUS then fin (s\<lparr>q_status := v\<rparr>)
      else if off = REG_DATA then fin (s\<lparr>q_data := v\<rparr>)
      else if off = REG_RESULT_LO then fin (s\<lparr>q_result_lo := v\<rparr>)
      else if off = REG_RESULT_HI then fin (s\<lparr>q_result_hi := v\<rparr>)
      else if off = REG_DMA_SRC_LO then fin (s\<lparr>q_dma_src_lo := v\<rparr>)
      else if off = REG_DMA_SRC_HI then fin (s\<lparr>q_dma_src_hi := v\<rparr>)
      else if off = REG_DMA_DST_LO then fin (s\<lparr>q_dma_dst_lo := v\<rparr>)
      else if off = REG_DMA_DST_HI then fin (s\<lparr>q_dma_dst_hi := v\<rparr>)
      else if off = REG_DMA_LEN then fin (s\<lparr>q_dma_len := v\<rparr>)
      else if off = REG_CMD then
        and_then (backend_process_complete P (s\<lparr>q_cmd := v, q_status := (q_status s AND NOT STATUS_DONE) OR STATUS_BUSY\<rparr>) w)
          (\<lambda>(s, w). Some (Finished (True, s, w)))
      else Some (Finished (False, s, w)))"

text \<open>A whole message; the answer goes back to the card.\<close>

definition backend_handle_msg :: "'w q_peer \<Rightarrow> qemu_msg \<Rightarrow> backend \<Rightarrow> 'w \<Rightarrow> (qemu_resp \<times> backend \<times> 'w) gpu_end option" where
  "backend_handle_msg P msg s w =
     (if m_type msg = MSG_REGISTER_READ then
        (case backend_reg_read (m_offset msg) s of
           Some v \<Rightarrow> Some (Finished (\<lparr>r_status = 0, r_value = ucast v\<rparr>, s, w))
         | None \<Rightarrow> Some (Finished (\<lparr>r_status = - 1, r_value = 0\<rparr>, s, w)))
      else if m_type msg = MSG_REGISTER_WRITE then
        and_then (backend_reg_write P (m_offset msg) (m_value msg) s w)
          (\<lambda>(ok, s, w). Some (Finished (\<lparr>r_status = (if ok then 0 else - 1), r_value = 0\<rparr>, s, w)))
      else Some (Finished (\<lparr>r_status = - 1, r_value = 0\<rparr>, s, w)))"

definition backend_init :: "(nat \<times> bytes) option \<Rightarrow> backend" where
  "backend_init surface =
     \<lparr>q_control = 0, q_status = 0, q_cmd = 0, q_data = 0, q_result_lo = 0, q_result_hi = 0, q_dma_src_lo = 0,
      q_dma_src_hi = 0, q_dma_dst_lo = 0, q_dma_dst_hi = 0, q_dma_len = 0, q_cmd_buffer = (\<lambda>_. 0),
      q_framebuffer = (\<lambda>_. 0), q_surface = surface\<rparr>"

subsection \<open>What the display shows\<close>

text \<open>Stores at places four bytes apart do not disturb each other.\<close>

lemma fold_stores:
  assumes "distinct xs" "p \<in> set xs" "\<And>p q. p \<in> set xs \<Longrightarrow> q \<in> set xs \<Longrightarrow> p \<noteq> q \<Longrightarrow> off p + 4 \<le> off q \<or> off q + 4 \<le> off p"
  shows "get32 (fold (\<lambda>p d. poke d (off p) (le32 (v p))) xs d) (off p) = v p"
  using assms
proof (induction xs rule: rev_induct)
  case (snoc x xs)
  show ?case
  proof (cases "p = x")
    case True
    then show ?thesis by (simp add: get32_poke_le32)
  next
    case False
    then have "off p + 4 \<le> off x \<or> off x + 4 \<le> off p" using snoc.prems(2,3) by simp
    moreover have "get32 (fold (\<lambda>p d. poke d (off p) (le32 (v p))) xs d) (off p) = v p"
      using snoc.prems False by (intro snoc.IH) simp_all
    ultimately show ?thesis by (auto simp: get32_def poke_def)
  qed
qed simp

lemma fold_product: "fold (\<lambda>y. fold (f y) xs) ys d = fold (\<lambda>(y, x). f y x) (List.product ys xs) d"
proof (induction ys arbitrary: d)
  case (Cons y ys)
  have "fold (f y) xs d = fold (\<lambda>(y, x). f y x) (map (Pair y) xs) d" for d by (simp add: fold_map comp_def)
  then show ?case using Cons by simp
qed simp

lemma display_rows_shows:
  assumes "4 * 640 \<le> stride" "x < 640" "y < 480"
  shows "get32 (display_rows rgb stride src d) (y * stride + 4 * x) =
    (let i = (y * 640 + x) * 3 in rgb (src i) (src (i + 1)) (src (i + 2)))"
proof -
  define off :: "nat \<times> nat \<Rightarrow> nat" where "off = (\<lambda>(y, x). y * stride + 4 * x)"
  define v where "v = (\<lambda>(y, x). let i = y * 640 * 3 + x * 3 in rgb (src i) (src (i + 1)) (src (i + 2)))"
  let ?ps = "List.product [0..<480] [0..<640]"
  have apart: "off p + 4 \<le> off q \<or> off q + 4 \<le> off p" if "p \<in> set ?ps" "q \<in> set ?ps" "p \<noteq> q" for p q
  proof -
    obtain y x y' x' where p: "p = (y, x)" "q = (y', x')" by (cases p, cases q) blast
    have row: "b * stride + 4 * a + 4 \<le> b' * stride + 4 * a'" if "b < b'" "a < 640" for a b a' b' :: nat
    proof -
      have "b * stride + stride \<le> b' * stride" using that(1) mult_le_mono1 [of "Suc b" b' stride] by simp
      then show ?thesis using assms(1) that(2) by linarith
    qed
    have "x < 640" "x' < 640" using that(1,2) by (simp_all add: p)
    then show ?thesis using row [of y y' x x'] row [of y' y x' x] that(3) by (cases y y' rule: linorder_cases) (auto simp: p off_def)
  qed
  have "display_rows rgb stride src d = fold (\<lambda>p d. poke d (off p) (le32 (v p))) ?ps d"
    unfolding display_rows_def FB_WIDTH_def FB_HEIGHT_def fold_product
    by (intro fold_cong) (auto simp: off_def v_def Let_def)
  moreover have "get32 ... (off (y, x)) = v (y, x)"
    using apart assms(2,3) by (intro fold_stores) (simp_all add: distinct_product)
  ultimately show ?thesis by (simp add: off_def v_def Let_def algebra_simps)
qed

subsection \<open>What the interpreter reads\<close>

text \<open>
  The fetch of a command buffer stops at the end of the buffer in QEMU, its interpretation at the length
  the guest gave: a longer command buffer makes QEMU read past its allocation.
\<close>

theorem long_buffer_read_past_end:
  assumes "get16 buf 0 = 0" "unat (get32 buf 4) = CMD_BUFFER_SIZE"
  shows "backend_execute_command_buffer CMD_BUFFER_SIZE buf (of_nat (CMD_BUFFER_SIZE + 8)) fb = None"
proof -
  have "run_commands CMD_BUFFER_SIZE buf (CMD_BUFFER_SIZE + 8) CMD_BUFFER_SIZE fb = None"
    by (subst run_commands.simps) simp
  then have "run_commands CMD_BUFFER_SIZE buf (CMD_BUFFER_SIZE + 8) 0 fb = None"
    using assms by (subst run_commands.simps) (simp add: run_command_def CMD_BUFFER_SIZE_def)
  then show ?thesis by (simp add: backend_execute_command_buffer_def CMD_BUFFER_SIZE_def)
qed

text \<open>
  The length in a header is not compared with the size of its command: a CLEAR of 8 bytes takes its colour
  from the bytes after the submitted ones, which are left from an earlier command buffer.
\<close>

theorem short_command_reads_stale:
  assumes "get16 buf 0 = 1" "unat (get32 buf 4) = 8"
  shows "backend_execute_command_buffer CMD_BUFFER_SIZE buf 8 fb = Some (Finished (cleared (buf 8, buf 9, buf 10) 307200 fb))"
proof -
  have "run_command CMD_BUFFER_SIZE buf 0 fb = Some (Finished (cleared (buf 8, buf 9, buf 10) 307200 fb))"
    using assms(1) by (simp add: run_command_def cmd_bytes_def CMD_BUFFER_SIZE_def clear_correct bytes_of_def upt_rec)
  moreover have "run_commands CMD_BUFFER_SIZE buf 8 8 fb' = Some (Finished fb')" for fb'
    by (subst run_commands.simps) simp
  ultimately show ?thesis
    using assms(2) unfolding backend_execute_command_buffer_def
    by (subst run_commands.simps) (simp add: CMD_BUFFER_SIZE_def)
qed

end
