(* ===== verification/ProtoCard.thy ===== *)
theory ProtoCard
  imports ProtoBackend CardHost
begin

text \<open>
  The accelerator card, the user-space half of the device
  (\<^verbatim>\<open>examples/protopciem/userspace/protopciem_card.c\<close>): it computes simple commands itself and hands the
  graphics commands to the backend in QEMU. The calls of the card are a \<open>card_host\<close>; the outcome of a
  write to the interrupt eventfd is an argument.
\<close>

subsection \<open>State\<close>

text \<open>BAR 0 is shared with the guest and read as an array of 32-bit registers.\<close>

record device_state =
  p_bar0 :: "nat \<Rightarrow> u32"
  qemu_connected :: bool
  waiting_for_ack :: bool
  last_resp :: "qemu_resp option"
  irq_fd :: int

definition bar_reg :: "device_state \<Rightarrow> u32 \<Rightarrow> u32" where
  "bar_reg st off = p_bar0 st (unat off div 4)"

definition set_reg :: "u32 \<Rightarrow> u32 \<Rightarrow> device_state \<Rightarrow> device_state" where
  "set_reg off v st = st\<lparr>p_bar0 := (p_bar0 st)(unat off div 4 := v)\<rparr>"

lemma set_reg_fields [simp]:
  "qemu_connected (set_reg off v st) = qemu_connected st" "waiting_for_ack (set_reg off v st) = waiting_for_ack st"
  "last_resp (set_reg off v st) = last_resp st" "irq_fd (set_reg off v st) = irq_fd st"
  by (simp_all add: set_reg_def)

lemma reg_set_reg: "bar_reg (set_reg off v st) off' = (if unat off' div 4 = unat off div 4 then v else bar_reg st off')"
  by (simp add: bar_reg_def set_reg_def)

subsection \<open>Interrupts\<close>

text \<open>\<open>efd\<close> is a write of 1 to the eventfd, and whether all of it was written.\<close>

definition inject_irq :: "('w \<Rightarrow> bool \<times> 'w) \<Rightarrow> 'w card_host \<Rightarrow> device_state \<Rightarrow> 'w \<Rightarrow> 'w" where
  "inject_irq efd H st w =
     (if irq_fd st \<ge> 0 then (let (ok, w) = efd w in if ok then w else card_irq H w) else card_irq H w)"

subsection \<open>Commands the card computes\<close>

text \<open>The result and whether the command is known.\<close>

definition local_result :: "u32 \<Rightarrow> u32 \<Rightarrow> u64 option" where
  "local_result cmd data =
     (if cmd = CMD_ADD then Some (ucast data + ucast data)
      else if cmd = CMD_MULTIPLY then Some (ucast data * ucast data)
      else if cmd = CMD_XOR then Some (ucast (data XOR 0xFFFFFFFF))
      else None)"

definition process_command_local :: "(device_state \<Rightarrow> 'w \<Rightarrow> 'w) \<Rightarrow> device_state \<Rightarrow> 'w \<Rightarrow> device_state \<times> 'w" where
  "process_command_local inject st w =
     (let r = local_result (bar_reg st REG_CMD) (bar_reg st REG_DATA);
          result = (case r of None \<Rightarrow> 0 | Some v \<Rightarrow> v);
          status = (if r = None then STATUS_DONE OR STATUS_ERROR else STATUS_DONE);
          st = set_reg REG_RESULT_LO (ucast (result AND 0xFFFFFFFF)) st;
          st = set_reg REG_RESULT_HI (ucast (drop_bit 32 result)) st;
          st = set_reg REG_STATUS status st;
          st = set_reg REG_CMD 0 st
      in (st, inject st w))"

subsection \<open>Messages of the backend\<close>

text \<open>The bounce buffer has 4 MiB.\<close>

definition BOUNCE_SIZE :: nat where "BOUNCE_SIZE = 4 * 1024 * 1024"

text \<open>
  One turn of \<open>qemu_handler_thread\<close>. \<open>hdr\<close>, \<open>msg\<close> and \<open>value\<close> are what the reads of the first word, of
  the rest of a message and of the rest of an answer give (\<open>None\<close> when the read is short). The result
  tells whether the thread goes on, and what it sends, if anything: an answer and the data after it.
\<close>

type_synonym 'w turn = "bool \<times> (qemu_resp \<times> u8 list) option \<times> device_state \<times> 'w"

definition answer_dma :: "'w card_host \<Rightarrow> qemu_msg \<Rightarrow> device_state \<Rightarrow> 'w \<Rightarrow> 'w turn option" where
  "answer_dma H msg st w =
     (if unat (m_len msg) > BOUNCE_SIZE then None
      else do {
        (r, w) \<leftarrow> card_read H (m_addr msg) (unat (m_len msg)) w;
        Some (True, Some (case r of None \<Rightarrow> (\<lparr>r_status = - 1, r_value = 0\<rparr>, [])
                          | Some bs \<Rightarrow> (\<lparr>r_status = 0, r_value = 0\<rparr>, bs)), st, w) })"

definition raise_irq :: "('w \<Rightarrow> bool \<times> 'w) \<Rightarrow> 'w card_host \<Rightarrow> qemu_msg \<Rightarrow> device_state \<Rightarrow> 'w \<Rightarrow> device_state \<times> 'w" where
  "raise_irq efd H msg st w =
     (let result = m_value msg;
          st = set_reg REG_STATUS (m_offset msg) st;
          st = set_reg REG_RESULT_LO (ucast (result AND 0xFFFFFFFF)) st;
          st = set_reg REG_RESULT_HI (ucast (drop_bit 32 result)) st;
          st = set_reg REG_CMD 0 st
      in (st, inject_irq efd H st w))"

definition qemu_handler_turn ::
    "('w \<Rightarrow> bool \<times> 'w) \<Rightarrow> 'w card_host \<Rightarrow> u32 option \<Rightarrow> qemu_msg option \<Rightarrow> u64 option \<Rightarrow> device_state \<Rightarrow> 'w \<Rightarrow> 'w turn option" where
  "qemu_handler_turn efd H hdr msg value st w =
     (case hdr of
        None \<Rightarrow> Some (False, None, st\<lparr>qemu_connected := False\<rparr>, w)
      | Some h \<Rightarrow>
          if h = MSG_DMA_READ \<or> h = MSG_RAISE_IRQ then
            (case msg of
               None \<Rightarrow> Some (False, None, st, w)
             | Some msg \<Rightarrow>
                 if h = MSG_DMA_READ then answer_dma H msg st w
                 else (let (st, w) = raise_irq efd H msg st w in Some (True, None, st, w)))
          else
            (case value of
               None \<Rightarrow> Some (False, None, st, w)
             | Some v \<Rightarrow>
                 Some (True, None,
                   if waiting_for_ack st then st\<lparr>last_resp := Some \<lparr>r_status = h, r_value = v\<rparr>, waiting_for_ack := False\<rparr>
                   else st, w)))"

text \<open>Sending \<open>n\<close> bytes: \<open>wr\<close> is one \<open>write\<close>, its result and whether it was interrupted.\<close>

partial_function (option) writen :: "(nat \<Rightarrow> 'w \<Rightarrow> int \<times> bool \<times> 'w) \<Rightarrow> nat \<Rightarrow> nat \<Rightarrow> 'w \<Rightarrow> (bool \<times> 'w) option" where
  "writen wr n written w =
     (if written < n then
        (let (r, eintr, w) = wr (n - written) w in
         if r \<le> 0 then (if r < 0 \<and> eintr then writen wr n written w else Some (False, w))
         else writen wr n (written + nat r) w)
      else Some (True, w))"

subsection \<open>Commands for the backend\<close>

text \<open>
  \<open>l_post\<close> writes a message to the socket and tells whether it could; \<open>l_await\<close> runs the other thread until
  it clears \<open>waiting_for_ack\<close> or ten seconds have passed; \<open>l_inject\<close> is \<open>inject_irq\<close>.
\<close>

record 'w proto_link =
  l_post :: "qemu_msg \<Rightarrow> device_state \<Rightarrow> 'w \<Rightarrow> bool \<times> device_state \<times> 'w"
  l_await :: "device_state \<Rightarrow> 'w \<Rightarrow> (device_state \<times> 'w) option"
  l_inject :: "device_state \<Rightarrow> 'w \<Rightarrow> 'w"

definition send_register_write_sync :: "'w proto_link \<Rightarrow> u32 \<Rightarrow> u32 \<Rightarrow> device_state \<Rightarrow> 'w \<Rightarrow> (bool \<times> device_state \<times> 'w) option" where
  "send_register_write_sync L offset value st w =
     (let (ok, st, w) = l_post L \<lparr>m_type = MSG_REGISTER_WRITE, m_offset = offset, m_value = ucast value, m_addr = 0, m_len = 0\<rparr> st w in
      if \<not> ok then Some (False, st, w)
      else do {
        (st, w) \<leftarrow> l_await L (st\<lparr>waiting_for_ack := True\<rparr>) w;
        Some (if waiting_for_ack st then (False, st\<lparr>waiting_for_ack := False, qemu_connected := False\<rparr>, w) else (True, st, w)) })"

text \<open>The registers are sent in this order, each with its value at that time.\<close>

definition forward_regs :: "u32 list" where
  "forward_regs = [REG_CONTROL, REG_DATA, REG_DMA_SRC_LO, REG_DMA_SRC_HI, REG_DMA_DST_LO, REG_DMA_DST_HI, REG_DMA_LEN, REG_CMD]"

fun forward_each :: "'w proto_link \<Rightarrow> u32 list \<Rightarrow> device_state \<Rightarrow> 'w \<Rightarrow> (bool \<times> device_state \<times> 'w) option" where
  "forward_each L [] st w = Some (True, st, w)"
| "forward_each L (off # offs) st w =
     do {
       (ok, st, w) \<leftarrow> send_register_write_sync L off (bar_reg st off) st w;
       if ok then forward_each L offs st w else Some (False, st, w) }"

definition forward_command_to_qemu :: "'w proto_link \<Rightarrow> device_state \<Rightarrow> 'w \<Rightarrow> (bool \<times> device_state \<times> 'w) option" where
  "forward_command_to_qemu L st w = forward_each L forward_regs st w"

subsection \<open>Events\<close>

definition handle_bar0_write ::
    "'w proto_link \<Rightarrow> event \<Rightarrow> device_state \<Rightarrow> 'w \<Rightarrow> (device_state \<times> 'w) option" where
  "handle_bar0_write L ev st w =
     (if ev_offset ev \<noteq> ucast REG_CMD then Some (st, w)
      else
        (let cmd = bar_reg st REG_CMD in
         if cmd = 0 then Some (st, w)
         else
           (let st = set_reg REG_STATUS STATUS_BUSY st in
            if qemu_connected st \<and> (cmd = CMD_EXECUTE_CMDBUF \<or> cmd = CMD_DMA_FRAME)
            then map_option snd (forward_command_to_qemu L st w)
            else Some (process_command_local (l_inject L) st w))))"

definition handle_event ::
    "'w proto_link \<Rightarrow> event \<Rightarrow> device_state \<Rightarrow> 'w \<Rightarrow> (device_state \<times> 'w) option" where
  "handle_event L ev st w =
     (if ev_type ev = 2 \<and> ev_bar ev = 0 then handle_bar0_write L ev st w else Some (st, w))"

text \<open>
  One turn of the loop in \<open>main\<close>, by what the wait for the eventfd gives (\<open>No_fd\<close>: there is none). A turn
  takes at most one event, however many the eventfd stands for.
\<close>

datatype wait = No_fd | Interrupted | Select_failed | Ready | Elapsed

definition proto_main_turn ::
    "(event \<Rightarrow> 's \<Rightarrow> 's option) \<Rightarrow> wait \<Rightarrow> shared_ring \<Rightarrow> 's \<Rightarrow> (bool \<times> shared_ring \<times> 's) option" where
  "proto_main_turn f how r s =
     (if how = Interrupted then Some (True, r, s)
      else if how = Select_failed then Some (False, r, s)
      else (case ring_pop r of
              None \<Rightarrow> Some (True, r, s)
            | Some (ev, r') \<Rightarrow> do { s \<leftarrow> f ev s; Some (True, r', s) }))"

subsection \<open>Facts about the loops\<close>

text \<open>As long as every \<open>write\<close> takes something, all bytes are sent.\<close>

theorem writen_sends_all:
  assumes "\<And>k w. 0 < k \<Longrightarrow> 0 < fst (wr k w) \<and> fst (wr k w) \<le> int k"
  shows "\<exists>w'. writen wr n written w = Some (True, w')"
proof (induction "n - written" arbitrary: written w rule: less_induct)
  case less
  show ?case
  proof (cases "written < n")
    case True
    obtain r eintr w' where r: "wr (n - written) w = (r, eintr, w')" by (cases "wr (n - written) w") auto
    then have "0 < r" using assms [of "n - written" w] True by simp
    then have "n - (written + nat r) < n - written" using True by simp
    from less [OF this, of w'] show ?thesis using True r \<open>0 < r\<close> by (subst writen.simps) simp
  next
    case False
    then show ?thesis by (subst writen.simps) simp
  qed
qed

text \<open>
  A turn of the main loop takes one event, although the read of the eventfd has taken the notification of
  all of them: the rest waits for the next event or the end of a second.
\<close>

theorem main_turn_takes_one:
  assumes "ring_ok r" "ring_content r = ev # evs" "how \<in> {No_fd, Ready, Elapsed}"
  shows "\<exists>r'. proto_main_turn f how r s = map_option (\<lambda>s. (True, r', s)) (f ev s) \<and> ring_content r' = evs"
proof -
  from ring.deq_spec [OF assms(1,2)] obtain r' where "ring_pop r = Some (ev, r')" "ring_content r' = evs" by blast
  then show ?thesis using assms(3) by (intro exI [of _ r']) (auto simp: proto_main_turn_def split: bind_splits)
qed

end
