(* ===== verification/ProtoLink.thy ===== *)
theory ProtoLink
  imports ProtoCard
begin

text \<open>
  The accelerator card and its backend together: the card hands a command over, the backend fetches the
  command buffer through the card, draws it, and the card reports the end to the guest.
\<close>

subsection \<open>The two ends of the socket\<close>

text \<open>The card's handler thread as the backend sees it, and the backend as the card's main thread sees it.\<close>

definition proto_peer :: "('w \<Rightarrow> bool \<times> 'w) \<Rightarrow> 'w card_host \<Rightarrow> (u8 \<Rightarrow> u8 \<Rightarrow> u8 \<Rightarrow> u32) \<Rightarrow> (device_state \<times> 'w) q_peer" where
  "proto_peer efd H rgb =
     \<lparr>q_call = (\<lambda>msg (st, w). do {
        (_, reply, st, w) \<leftarrow> qemu_handler_turn efd H (Some (m_type msg)) (Some msg) None st w;
        Some (case reply of None \<Rightarrow> (None, [], st, w) | Some (resp, bs) \<Rightarrow> (Some resp, bs, st, w)) }),
      q_send = (\<lambda>msg (st, w). do {
        (_, _, st, w) \<leftarrow> qemu_handler_turn efd H (Some (m_type msg)) (Some msg) None st w;
        Some (st, w) }),
      q_rgb = rgb\<rparr>"

text \<open>The message under way, the backend while its process lives, and the world of the card.\<close>

type_synonym 'w link_world = "qemu_msg option \<times> backend option \<times> 'w"

definition backend_link :: "('w \<Rightarrow> bool \<times> 'w) \<Rightarrow> 'w card_host \<Rightarrow> (u8 \<Rightarrow> u8 \<Rightarrow> u8 \<Rightarrow> u32) \<Rightarrow> 'w link_world proto_link" where
  "backend_link efd H rgb =
     \<lparr>l_post = (\<lambda>msg st (_, q, w). (q \<noteq> None, st, Some msg, q, w)),
      l_await = (\<lambda>st (msg, q, w).
        case (msg, q) of
          (Some msg, Some q) \<Rightarrow>
            (case backend_handle_msg (proto_peer efd H rgb) msg q (st, w) of
               None \<Rightarrow> None
             | Some Fatal \<Rightarrow> do {
                 (_, _, st, w) \<leftarrow> qemu_handler_turn efd H None None None st w;
                 Some (st, None, None, w) }
             | Some (Finished (resp, q, st, w)) \<Rightarrow> do {
                 (_, _, st, w) \<leftarrow> qemu_handler_turn efd H (Some (r_status resp)) None (Some (r_value resp)) st w;
                 Some (st, None, Some q, w) })
        | _ \<Rightarrow> Some (st, msg, q, w)),
      l_inject = (\<lambda>st (msg, q, w). (msg, q, inject_irq efd H st w))\<rparr>"

definition acked :: "device_state \<Rightarrow> device_state" where
  "acked st = st\<lparr>last_resp := Some \<lparr>r_status = 0, r_value = 0\<rparr>, waiting_for_ack := False\<rparr>"

lemma acked_simps [simp]:
  "bar_reg (acked st) off = bar_reg st off" "acked (acked st) = acked st" "qemu_connected (acked st) = qemu_connected st"
  "irq_fd (acked st) = irq_fd st" "waiting_for_ack (acked st) = False" "p_bar0 (acked st) = p_bar0 st"
  "acked (st\<lparr>waiting_for_ack := b\<rparr>) = acked st"
  by (simp_all add: acked_def bar_reg_def)

lemma reg_waiting [simp]: "bar_reg (st\<lparr>waiting_for_ack := b\<rparr>) off = bar_reg st off"
  by (simp add: bar_reg_def)

lemma sync_ok:
  assumes "backend_reg_write (proto_peer efd H rgb) off (ucast v) q (st\<lparr>waiting_for_ack := True\<rparr>, w) =
      Some (Finished (True, q', st', w'))" "waiting_for_ack st'"
  shows "send_register_write_sync (backend_link efd H rgb) off v st (m, Some q, w) = Some (True, acked st', None, Some q', w')"
  using assms
  by (simp add: send_register_write_sync_def backend_link_def backend_handle_msg_def qemu_handler_turn_def proto_msg_defs
      acked_def)

lemma backend_write_plain:
  fixes v :: u32
  defines "vv \<equiv> (ucast v :: u64)"
  shows "v AND 2 = 0 \<Longrightarrow> backend_reg_write P REG_CONTROL vv q w = Some (Finished (True, q\<lparr>q_control := v\<rparr>, w))"
    "backend_reg_write P REG_DATA vv q w = Some (Finished (True, q\<lparr>q_data := v\<rparr>, w))"
    "backend_reg_write P REG_DMA_SRC_LO vv q w = Some (Finished (True, q\<lparr>q_dma_src_lo := v\<rparr>, w))"
    "backend_reg_write P REG_DMA_SRC_HI vv q w = Some (Finished (True, q\<lparr>q_dma_src_hi := v\<rparr>, w))"
    "backend_reg_write P REG_DMA_DST_LO vv q w = Some (Finished (True, q\<lparr>q_dma_dst_lo := v\<rparr>, w))"
    "backend_reg_write P REG_DMA_DST_HI vv q w = Some (Finished (True, q\<lparr>q_dma_dst_hi := v\<rparr>, w))"
    "backend_reg_write P REG_DMA_LEN vv q w = Some (Finished (True, q\<lparr>q_dma_len := v\<rparr>, w))"
proof -
  have low: "(ucast vv :: u32) = v" unfolding vv_def by (rule bit_word_eqI) (simp add: bit_simps)
  have "vv AND 2 = ucast (v AND 2)" unfolding vv_def by (rule bit_word_eqI) (auto simp: bit_simps dest: bit_imp_le_length)
  then show "v AND 2 = 0 \<Longrightarrow> backend_reg_write P REG_CONTROL vv q w = Some (Finished (True, q\<lparr>q_control := v\<rparr>, w))"
    by (simp add: backend_reg_write_def low Let_def)
  show "backend_reg_write P REG_DATA vv q w = Some (Finished (True, q\<lparr>q_data := v\<rparr>, w))"
    "backend_reg_write P REG_DMA_SRC_LO vv q w = Some (Finished (True, q\<lparr>q_dma_src_lo := v\<rparr>, w))"
    "backend_reg_write P REG_DMA_SRC_HI vv q w = Some (Finished (True, q\<lparr>q_dma_src_hi := v\<rparr>, w))"
    "backend_reg_write P REG_DMA_DST_LO vv q w = Some (Finished (True, q\<lparr>q_dma_dst_lo := v\<rparr>, w))"
    "backend_reg_write P REG_DMA_DST_HI vv q w = Some (Finished (True, q\<lparr>q_dma_dst_hi := v\<rparr>, w))"
    "backend_reg_write P REG_DMA_LEN vv q w = Some (Finished (True, q\<lparr>q_dma_len := v\<rparr>, w))"
    by (simp_all add: backend_reg_write_def Let_def proto_reg_defs low)
qed

definition forwarded :: "device_state \<Rightarrow> backend \<Rightarrow> backend" where
  "forwarded st q = q\<lparr>q_control := bar_reg st REG_CONTROL, q_data := bar_reg st REG_DATA, q_dma_src_lo := bar_reg st REG_DMA_SRC_LO,
     q_dma_src_hi := bar_reg st REG_DMA_SRC_HI, q_dma_dst_lo := bar_reg st REG_DMA_DST_LO, q_dma_dst_hi := bar_reg st REG_DMA_DST_HI,
     q_dma_len := bar_reg st REG_DMA_LEN\<rparr>"

text \<open>The seven registers arrive; the write of the command starts it.\<close>

lemma forward_sends:
  assumes "bar_reg st REG_CONTROL AND 2 = 0"
  shows "forward_command_to_qemu (backend_link efd H rgb) st (m, Some q, w) =
    send_register_write_sync (backend_link efd H rgb) REG_CMD (bar_reg st REG_CMD) (acked st) (None, Some (forwarded st q), w)"
proof -
  have s: "send_register_write_sync (backend_link efd H rgb) off (bar_reg st off) x (m, Some q, w) = Some (True, acked x, None, Some q', w)"
    if "\<And>y. backend_reg_write (proto_peer efd H rgb) off (ucast (bar_reg st off)) q (y, w) = Some (Finished (True, q', y, w))" for off q q' m x
    by (rule sync_ok [of efd H rgb off _ q x w q' "x\<lparr>waiting_for_ack := True\<rparr>", simplified]) (simp add: that)
  have e: "(\<lambda>(ok, st, w). if ok then forward_each L [] st w else Some (False, st, w)) = Some" for L by auto
  show ?thesis
    unfolding forward_command_to_qemu_def forward_regs_def
    by (simp add: s [OF backend_write_plain(1), OF assms] s [OF backend_write_plain(2)] s [OF backend_write_plain(3)]
        s [OF backend_write_plain(4)] s [OF backend_write_plain(5)] s [OF backend_write_plain(6)] s [OF backend_write_plain(7)]
        forwarded_def e)
qed

subsection \<open>A command buffer drawn, a frame shown\<close>

text \<open>The end of a command: what the guest sees in the registers.\<close>

definition finished :: "u32 \<Rightarrow> u64 \<Rightarrow> device_state \<Rightarrow> device_state" where
  "finished status result st = set_reg REG_CMD 0 (set_reg REG_RESULT_HI (ucast (drop_bit 32 result))
     (set_reg REG_RESULT_LO (ucast (result AND 0xFFFFFFFF)) (set_reg REG_STATUS status st)))"

lemma forwarded_busy [simp]: "forwarded (set_reg REG_STATUS v st) q = forwarded st q"
  by (simp add: forwarded_def reg_set_reg proto_reg_defs)

definition result_of :: "backend \<Rightarrow> u64" where
  "result_of q = push_bit 32 (ucast (q_result_hi q)) OR ucast (q_result_lo q)"

definition dma_src :: "backend \<Rightarrow> u64" where
  "dma_src q = push_bit 32 (ucast (q_dma_src_hi q)) OR ucast (q_dma_src_lo q)"

lemma ucast_low [simp]: "(ucast (ucast (v :: u32) :: u64) :: u32) = v"
  by (rule bit_word_eqI) (simp add: bit_simps)

lemma done_status: "x AND NOT STATUS_DONE = 0 \<Longrightarrow> ((x AND NOT STATUS_DONE OR STATUS_BUSY) OR STATUS_DONE) AND NOT STATUS_BUSY = STATUS_DONE"
  by (simp add: proto_status_defs)

lemma waiting_finished [simp]: "waiting_for_ack (finished s r st) = waiting_for_ack st" "qemu_connected (finished s r st) = qemu_connected st"
  "irq_fd (finished s r st) = irq_fd st"
  by (simp_all add: finished_def)

lemma reg_finished:
  "bar_reg (finished s r st) REG_STATUS = s" "bar_reg (finished s r st) REG_CMD = 0"
  "bar_reg (finished s r st) REG_RESULT_LO = ucast (r AND 0xFFFFFFFF)" "bar_reg (finished s r st) REG_RESULT_HI = ucast (drop_bit 32 r)"
  by (simp_all add: finished_def reg_set_reg proto_reg_defs)

locale proto_card = card_memory H mem sent irqs addrs good
  for H :: "'w card_host" and mem :: "'w \<Rightarrow> u64 \<Rightarrow> u8" and sent :: "'w \<Rightarrow> u8 list list" and irqs :: "'w \<Rightarrow> nat"
    and addrs :: "u64 \<Rightarrow> nat \<Rightarrow> u64 list" and good :: "u64 \<Rightarrow> nat \<Rightarrow> bool" +
  fixes efd :: "'w \<Rightarrow> bool \<times> 'w"
  assumes efd_ok: "mem (snd (efd w)) = mem w" "sent (snd (efd w)) = sent w"
      "irqs (snd (efd w)) = irqs w + (if fst (efd w) then 1 else 0)"
begin

lemma inject_once:
  "mem (inject_irq efd H st w) = mem w \<and> sent (inject_irq efd H st w) = sent w \<and> irqs (inject_irq efd H st w) = irqs w + 1"
  using efd_ok [of w] by (auto simp: inject_irq_def irq_ok split: prod.splits)

lemma fetch_ok:
  assumes "good src (unat len)" "unat len \<le> BOUNCE_SIZE"
  shows "\<exists>w'. dma_read_from_guest (proto_peer efd H rgb) src dst len (st, w) =
      Some (True, poke dst 0 (map (mem w) (addrs src (unat len))), st, w') \<and>
    mem w' = mem w \<and> sent w' = sent w \<and> irqs w' = irqs w"
proof -
  obtain w' where w': "card_read H src (unat len) w = Some (Some (map (mem w) (addrs src (unat len))), w')"
    "mem w' = mem w" "sent w' = sent w" "irqs w' = irqs w" using read_ok [OF assms(1)] by blast
  moreover have "\<not> BOUNCE_SIZE < unat len" using assms(2) by simp
  ultimately show ?thesis
    by (intro exI [of _ w']) (simp add: dma_read_from_guest_def proto_peer_def qemu_handler_turn_def answer_dma_def addrs_ok)
qed

lemma complete_ok:
  assumes "backend_run (proto_peer efd H rgb) q (st, w) = Some (Finished (q', st, w1))" "mem w1 = mem w" "sent w1 = sent w"
      "irqs w1 = irqs w" "q_status q' = q_status q" "(q_status q OR STATUS_DONE) AND NOT STATUS_BUSY = STATUS_DONE"
  shows "\<exists>w'. backend_process_complete (proto_peer efd H rgb) q (st, w) =
      Some (Finished (q'\<lparr>q_status := STATUS_DONE\<rparr>, finished STATUS_DONE (result_of q') st, w')) \<and>
    mem w' = mem w \<and> sent w' = sent w \<and> irqs w' = irqs w + 1"
  using assms inject_once [of "finished STATUS_DONE (result_of q') st" w1]
  by (intro exI [of _ "inject_irq efd H (finished STATUS_DONE (result_of q') st) w1"])
    (simp add: backend_process_complete_def proto_peer_def qemu_handler_turn_def raise_irq_def Let_def finished_def
      result_of_def proto_msg_defs)

lemma cmdbuf_ok:
  assumes "unat (q_dma_len q) = length (gpu_encodes cs)" "length (gpu_encodes cs) \<le> CMD_BUFFER_SIZE"
    and "\<forall>c\<in>set cs. gpu_cmd_ok c" "good (dma_src q) (length (gpu_encodes cs))"
    and "map (mem w) (addrs (dma_src q) (length (gpu_encodes cs))) = gpu_encodes cs" "q_status q AND NOT STATUS_DONE = 0"
  shows "\<exists>buf w'. backend_reg_write (proto_peer efd H rgb) REG_CMD (ucast CMD_EXECUTE_CMDBUF) q (st, w) =
      Some (Finished (True, q\<lparr>q_cmd := CMD_EXECUTE_CMDBUF, q_status := STATUS_DONE, q_cmd_buffer := buf,
        q_framebuffer := fold gpu_draw cs (q_framebuffer q)\<rparr>, finished STATUS_DONE (result_of q) st, w')) \<and>
    mem w' = mem w \<and> sent w' = sent w \<and> irqs w' = irqs w + 1"
proof -
  let ?q = "q\<lparr>q_cmd := CMD_EXECUTE_CMDBUF, q_status := q_status q AND NOT STATUS_DONE OR STATUS_BUSY\<rparr>"
  let ?buf = "poke (q_cmd_buffer q) 0 (gpu_encodes cs)"
  let ?q' = "?q\<lparr>q_cmd_buffer := ?buf, q_framebuffer := fold gpu_draw cs (q_framebuffer q)\<rparr>"
  have "unat (q_dma_len q) \<le> BOUNCE_SIZE" using assms(1,2) by (simp add: BOUNCE_SIZE_def CMD_BUFFER_SIZE_def)
  from fetch_ok [OF _ this, of "dma_src q" rgb "q_cmd_buffer q" st w] assms obtain w1 where
    w1: "dma_read_from_guest (proto_peer efd H rgb) (dma_src q) (q_cmd_buffer q) (q_dma_len q) (st, w) = Some (True, ?buf, st, w1)"
      "mem w1 = mem w" "sent w1 = sent w" "irqs w1 = irqs w" by auto
  have len: "of_nat (length (gpu_encodes cs)) = q_dma_len q" by (simp flip: assms(1))
  have "backend_execute_command_buffer CMD_BUFFER_SIZE ?buf (q_dma_len q) (q_framebuffer q) =
      Some (Finished (fold gpu_draw cs (q_framebuffer q)))"
    using command_buffer_drawn [of ?buf cs CMD_BUFFER_SIZE "q_framebuffer q"] assms(2,3)
    by (simp add: len bytes_of_poke CMD_BUFFER_SIZE_def)
  then have "backend_run (proto_peer efd H rgb) ?q (st, w) = Some (Finished (?q', st, w1))"
    using w1(1) assms(1,2) by (simp add: backend_run_def dma_src_def proto_cmd_defs Let_def)
  from complete_ok [OF this w1(2-4)] done_status [OF assms(6)] obtain w' where
    "backend_process_complete (proto_peer efd H rgb) ?q (st, w) =
      Some (Finished (?q'\<lparr>q_status := STATUS_DONE\<rparr>, finished STATUS_DONE (result_of ?q') st, w'))"
    "mem w' = mem w" "sent w' = sent w" "irqs w' = irqs w + 1" by auto
  then show ?thesis
    by (intro exI [of _ ?buf] exI [of _ w']) (simp add: backend_reg_write_def proto_reg_defs Let_def result_of_def)
qed

lemma frame_ok:
  assumes "unat (q_dma_len q) = FB_SIZE" "good (dma_src q) FB_SIZE" "q_status q AND NOT STATUS_DONE = 0"
  shows "\<exists>w'. backend_reg_write (proto_peer efd H rgb) REG_CMD (ucast CMD_DMA_FRAME) q (st, w) =
      Some (Finished (True, (backend_update_display (proto_peer efd H rgb) (q\<lparr>q_cmd := CMD_DMA_FRAME,
        q_framebuffer := poke (q_framebuffer q) 0 (map (mem w) (addrs (dma_src q) FB_SIZE))\<rparr>))\<lparr>q_status := STATUS_DONE\<rparr>,
        finished STATUS_DONE (result_of q) st, w')) \<and>
    mem w' = mem w \<and> sent w' = sent w \<and> irqs w' = irqs w + 1"
proof -
  let ?q = "q\<lparr>q_cmd := CMD_DMA_FRAME, q_status := q_status q AND NOT STATUS_DONE OR STATUS_BUSY\<rparr>"
  let ?fb = "poke (q_framebuffer q) 0 (map (mem w) (addrs (dma_src q) FB_SIZE))"
  let ?q' = "backend_update_display (proto_peer efd H rgb) (?q\<lparr>q_framebuffer := ?fb\<rparr>)"
  have "unat (q_dma_len q) \<le> BOUNCE_SIZE" using assms(1) by (simp add: BOUNCE_SIZE_def FB_SIZE_def)
  from fetch_ok [OF _ this, of "dma_src q" rgb "q_framebuffer q" st w] assms obtain w1 where
    w1: "dma_read_from_guest (proto_peer efd H rgb) (dma_src q) (q_framebuffer q) (q_dma_len q) (st, w) = Some (True, ?fb, st, w1)"
      "mem w1 = mem w" "sent w1 = sent w" "irqs w1 = irqs w" by auto
  then have "backend_run (proto_peer efd H rgb) ?q (st, w) = Some (Finished (?q', st, w1))"
    using assms(1) by (simp add: backend_run_def dma_src_def proto_cmd_defs Let_def)
  from complete_ok [OF this w1(2-4)] done_status [OF assms(3)] obtain w' where
    "backend_process_complete (proto_peer efd H rgb) ?q (st, w) =
      Some (Finished (?q'\<lparr>q_status := STATUS_DONE\<rparr>, finished STATUS_DONE (result_of ?q') st, w'))"
    "mem w' = mem w" "sent w' = sent w" "irqs w' = irqs w + 1"
    by (auto simp: backend_update_display_def)
  then show ?thesis
    by (intro exI [of _ w']) (simp add: backend_reg_write_def proto_reg_defs Let_def result_of_def backend_update_display_def)
qed

text \<open>A write of the command register, as the card handles it.\<close>

lemma forward_command:
  assumes "bar_reg st REG_CONTROL AND 2 = 0" "bar_reg st REG_CMD = cmd" "cmd \<noteq> 0" "cmd = CMD_EXECUTE_CMDBUF \<or> cmd = CMD_DMA_FRAME"
    and "qemu_connected st" "ev_type ev = 2" "ev_bar ev = 0" "ev_offset ev = 8"
    and "backend_reg_write (proto_peer efd H rgb) REG_CMD (ucast cmd) (forwarded st q)
      ((acked (set_reg REG_STATUS STATUS_BUSY st))\<lparr>waiting_for_ack := True\<rparr>, w) =
      Some (Finished (True, q', finished s r ((acked (set_reg REG_STATUS STATUS_BUSY st))\<lparr>waiting_for_ack := True\<rparr>), w'))"
  shows "handle_event (backend_link efd H rgb) ev st (m, Some q, w) =
    Some (acked (finished s r ((acked (set_reg REG_STATUS STATUS_BUSY st))\<lparr>waiting_for_ack := True\<rparr>)), None, Some q', w')"
proof -
  let ?st = "set_reg REG_STATUS STATUS_BUSY st"
  have r: "bar_reg ?st REG_CONTROL AND 2 = 0" "bar_reg ?st REG_CMD = cmd"
    using assms(1,2) by (simp_all add: reg_set_reg proto_reg_defs)
  have "send_register_write_sync (backend_link efd H rgb) REG_CMD cmd (acked ?st) (None, Some (forwarded st q), w) =
      Some (True, acked (finished s r ((acked ?st)\<lparr>waiting_for_ack := True\<rparr>)), None, Some q', w')"
    by (rule sync_ok [OF assms(9)]) (simp add: finished_def)
  then have "forward_command_to_qemu (backend_link efd H rgb) ?st (m, Some q, w) =
      Some (True, acked (finished s r ((acked ?st)\<lparr>waiting_for_ack := True\<rparr>)), None, Some q', w')"
    using forward_sends [OF r(1), of efd H rgb m q w] by (simp add: r(2))
  then show ?thesis
    using assms(2-8) by (auto simp: handle_event_def handle_bar0_write_def Let_def) (simp_all add: proto_reg_defs)
qed

lemma event_draws:
  assumes "bar_reg st REG_CONTROL AND 2 = 0" "bar_reg st REG_CMD = CMD_EXECUTE_CMDBUF" "qemu_connected st"
    and "ev_type ev = 2" "ev_bar ev = 0" "ev_offset ev = 8"
    and "src = push_bit 32 (ucast (bar_reg st REG_DMA_SRC_HI)) OR ucast (bar_reg st REG_DMA_SRC_LO)"
    and "unat (bar_reg st REG_DMA_LEN) = length (gpu_encodes cs)" "length (gpu_encodes cs) \<le> CMD_BUFFER_SIZE"
    and "\<forall>c\<in>set cs. gpu_cmd_ok c" "good src (length (gpu_encodes cs))"
    and "map (mem w) (addrs src (length (gpu_encodes cs))) = gpu_encodes cs" "q_status q AND NOT STATUS_DONE = 0"
  shows "\<exists>st' q' w'. handle_event (backend_link efd H rgb) ev st (m, Some q, w) = Some (st', None, Some q', w') \<and>
    q_framebuffer q' = fold gpu_draw cs (q_framebuffer q) \<and> q_status q' = STATUS_DONE \<and>
    bar_reg st' REG_CMD = 0 \<and> bar_reg st' REG_STATUS = STATUS_DONE \<and> qemu_connected st' \<and>
    bar_reg st' REG_RESULT_LO = ucast (result_of q AND 0xFFFFFFFF) \<and> bar_reg st' REG_RESULT_HI = ucast (drop_bit 32 (result_of q)) \<and>
    mem w' = mem w \<and> sent w' = sent w \<and> irqs w' = irqs w + 1"
proof -
  let ?st = "(acked (set_reg REG_STATUS STATUS_BUSY st))\<lparr>waiting_for_ack := True\<rparr>"
  have f: "unat (q_dma_len (forwarded st q)) = length (gpu_encodes cs)" "dma_src (forwarded st q) = src"
    "q_status (forwarded st q) AND NOT STATUS_DONE = 0" "result_of (forwarded st q) = result_of q"
    "q_framebuffer (forwarded st q) = q_framebuffer q"
    using assms(7,8,13) by (simp_all add: forwarded_def dma_src_def result_of_def)
  from cmdbuf_ok [OF f(1) assms(9,10), of w rgb ?st] assms(11,12) f(2,3) obtain buf w' where
    w': "backend_reg_write (proto_peer efd H rgb) REG_CMD (ucast CMD_EXECUTE_CMDBUF) (forwarded st q) (?st, w) =
      Some (Finished (True, (forwarded st q)\<lparr>q_cmd := CMD_EXECUTE_CMDBUF, q_status := STATUS_DONE, q_cmd_buffer := buf,
        q_framebuffer := fold gpu_draw cs (q_framebuffer (forwarded st q))\<rparr>,
        finished STATUS_DONE (result_of (forwarded st q)) ?st, w'))"
      "mem w' = mem w" "sent w' = sent w" "irqs w' = irqs w + 1" by auto
  have "CMD_EXECUTE_CMDBUF \<noteq> 0" by (simp add: proto_cmd_defs)
  from forward_command [OF assms(1,2) this _ assms(3-6) w'(1), of m] w'(2-4) show ?thesis
    by (simp add: reg_finished f assms(3))
qed

lemma event_shows:
  assumes "bar_reg st REG_CONTROL AND 2 = 0" "bar_reg st REG_CMD = CMD_DMA_FRAME" "qemu_connected st"
    and "ev_type ev = 2" "ev_bar ev = 0" "ev_offset ev = 8"
    and "src = push_bit 32 (ucast (bar_reg st REG_DMA_SRC_HI)) OR ucast (bar_reg st REG_DMA_SRC_LO)"
    and "unat (bar_reg st REG_DMA_LEN) = FB_SIZE" "good src FB_SIZE" "q_status q AND NOT STATUS_DONE = 0"
  shows "\<exists>st' q' w'. handle_event (backend_link efd H rgb) ev st (m, Some q, w) = Some (st', None, Some q', w') \<and>
    q_framebuffer q' = poke (q_framebuffer q) 0 (map (mem w) (addrs src FB_SIZE)) \<and>
    q_surface q' = map_option (\<lambda>(stride, d). (stride, display_rows rgb stride (q_framebuffer q') d)) (q_surface q) \<and>
    q_status q' = STATUS_DONE \<and> bar_reg st' REG_CMD = 0 \<and> bar_reg st' REG_STATUS = STATUS_DONE \<and> qemu_connected st' \<and>
    bar_reg st' REG_RESULT_LO = ucast (result_of q AND 0xFFFFFFFF) \<and> bar_reg st' REG_RESULT_HI = ucast (drop_bit 32 (result_of q)) \<and>
    mem w' = mem w \<and> sent w' = sent w \<and> irqs w' = irqs w + 1"
proof -
  let ?st = "(acked (set_reg REG_STATUS STATUS_BUSY st))\<lparr>waiting_for_ack := True\<rparr>"
  let ?q = "backend_update_display (proto_peer efd H rgb) ((forwarded st q)\<lparr>q_cmd := CMD_DMA_FRAME,
    q_framebuffer := poke (q_framebuffer q) 0 (map (mem w) (addrs src FB_SIZE))\<rparr>)"
  have f: "unat (q_dma_len (forwarded st q)) = FB_SIZE" "dma_src (forwarded st q) = src"
    "q_status (forwarded st q) AND NOT STATUS_DONE = 0" "result_of (forwarded st q) = result_of q"
    "q_framebuffer (forwarded st q) = q_framebuffer q" "q_surface (forwarded st q) = q_surface q"
    using assms(7,8,10) by (simp_all add: forwarded_def dma_src_def result_of_def)
  from frame_ok [OF f(1), of rgb ?st w] assms(9) f obtain w' where
    w': "backend_reg_write (proto_peer efd H rgb) REG_CMD (ucast CMD_DMA_FRAME) (forwarded st q) (?st, w) =
      Some (Finished (True, ?q\<lparr>q_status := STATUS_DONE\<rparr>, finished STATUS_DONE (result_of (forwarded st q)) ?st, w'))"
      "mem w' = mem w" "sent w' = sent w" "irqs w' = irqs w + 1" by auto
  have "CMD_DMA_FRAME \<noteq> 0" by (simp add: proto_cmd_defs)
  from forward_command [OF assms(1,2) this _ assms(3-6) w'(1), of m] w'(2-4) show ?thesis
    by (simp add: reg_finished f assms(3) backend_update_display_def proto_peer_def)
qed

end

subsection \<open>Over the ioctls\<close>

text \<open>A write to the interrupt eventfd raises the interrupt, unless the counter is full.\<close>

definition irqfd_write :: "bool \<Rightarrow> card_world \<Rightarrow> bool \<times> card_world" where
  "irqfd_write full w = (if full then (False, w) else (True, w\<lparr>card_irqs := card_irqs w + 1\<rparr>))"

interpretation accel: proto_card "card_ioctl_host env uenv buf_at" "\<lambda>w. gmem (card_dma w)" card_sent card_irqs
    "dma_addrs env" "card_good env uenv buf_at" "irqfd_write full"
  for env uenv buf_at full
  by unfold_locales (simp_all add: irqfd_write_def)

end
