(* ===== verification/ProtoDriver.thy ===== *)
theory ProtoDriver
  imports ProtoBackend
begin

text \<open>
  The guest's driver of the accelerator (\<^verbatim>\<open>examples/protopciem/driver/protopciem_driver.c\<close>): commands in
  interrupt and polling mode, the interrupt handler and its work, the character device, probe and
  remove. Accesses to BAR 0, the wait for the completion and the kernel's answers are arguments.
\<close>

subsection \<open>State\<close>

text \<open>\<open>work_queued\<close> is whether the work is on its queue, \<open>op_completion\<close> whether the completion is done.\<close>

record pci_device =
  d_irq :: int
  op_completion :: bool
  work_queued :: bool
  operation_pending :: bool
  last_command :: u32
  last_result :: u64
  operations_completed :: u64
  interrupts_received :: u64
  errors :: u64
  cmdbuf_phys :: u64
  cmdbuf_size :: nat
  framebuf_phys :: u64
  framebuf_size :: nat

definition MMAP_SIZE :: nat where "MMAP_SIZE = FB_SIZE * 2"

text \<open>The device as the driver sees it; \<open>bus_wait\<close> lets everything else run until the completion or the time-out.\<close>

record 'w pci_bus =
  bus_read :: "u32 \<Rightarrow> 'w \<Rightarrow> u32 \<times> 'w"
  bus_write :: "u32 \<Rightarrow> u32 \<Rightarrow> 'w \<Rightarrow> 'w"
  bus_store :: "u64 \<Rightarrow> u8 list \<Rightarrow> 'w \<Rightarrow> 'w"
  bus_wait :: "pci_device \<Rightarrow> 'w \<Rightarrow> (pci_device \<times> 'w) option"

definition pci_write_reg64 :: "'w pci_bus \<Rightarrow> u32 \<Rightarrow> u64 \<Rightarrow> 'w \<Rightarrow> 'w" where
  "pci_write_reg64 B off v w =
     bus_write B (off + 4) (ucast (drop_bit 32 v)) (bus_write B off (ucast (v AND 0xFFFFFFFF)) w)"

definition pci_read_result :: "'w pci_bus \<Rightarrow> 'w \<Rightarrow> u64 \<times> 'w" where
  "pci_read_result B w =
     (let (lo, w) = bus_read B REG_RESULT_LO w; (hi, w) = bus_read B REG_RESULT_HI w
      in (push_bit 32 (ucast hi) OR ucast lo, w))"

definition CTRL_ENABLE :: u32 where "CTRL_ENABLE = 1"
definition CTRL_RESET :: u32 where "CTRL_RESET = 2"

subsection \<open>Commands\<close>

text \<open>
  A loop \<open>while (timeout-- > 0)\<close> that reads the status until \<open>stop\<close> holds: the status it stopped at, if
  any, and the counter after the loop.
\<close>

fun poll_status :: "'w pci_bus \<Rightarrow> (u32 \<Rightarrow> bool) \<Rightarrow> nat \<Rightarrow> 'w \<Rightarrow> u32 option \<times> int \<times> 'w" where
  "poll_status B stop 0 w = (None, - 1, w)"
| "poll_status B stop (Suc t) w =
     (let (status, w) = bus_read B REG_STATUS w
      in if stop status then (Some status, int t, w) else poll_status B stop t w)"

definition pci_reset :: "'w pci_bus \<Rightarrow> 'w \<Rightarrow> unit res \<times> 'w" where
  "pci_reset B w =
     (let w = bus_write B REG_CONTROL CTRL_RESET w;
          w = bus_write B REG_CONTROL 0 w;
          (_, timeout, w) = poll_status B (\<lambda>s. s AND STATUS_BUSY = 0) 1000 w
      in (if timeout \<le> 0 then Inl ETIMEDOUT else Inr (), w))"

text \<open>
  The end of a command in interrupt mode and in polling mode. \<open>stale\<close> is what the variable
  \<open>local_result\<close> holds before it is assigned.
\<close>

definition finish_irq :: "'w pci_bus \<Rightarrow> pci_device \<Rightarrow> 'w \<Rightarrow> (u64 res \<times> pci_device \<times> 'w) option" where
  "finish_irq B adev w =
     do {
       (adev, w) \<leftarrow> bus_wait B adev w;
       if \<not> op_completion adev then Some (Inl ETIMEDOUT, adev\<lparr>operation_pending := False\<rparr>, w)
       else
         (let adev = adev\<lparr>op_completion := False\<rparr>; local_result = last_result adev;
              (status, w) = bus_read B REG_STATUS w;
              ret = (if status AND STATUS_ERROR \<noteq> 0 then Inl EIO else Inr local_result);
              w = bus_write B REG_CONTROL CTRL_ENABLE w
          in Some (ret, adev, w)) }"

definition finish_poll :: "u64 \<Rightarrow> 'w pci_bus \<Rightarrow> pci_device \<Rightarrow> 'w \<Rightarrow> u64 res \<times> pci_device \<times> 'w" where
  "finish_poll stale B adev w =
     (let (found, timeout, w) = poll_status B (\<lambda>s. s AND STATUS_DONE \<noteq> 0) 1000 w;
          (ret, adev, w) =
            (case found of
               None \<Rightarrow> (Inr stale, adev, w)
             | Some status \<Rightarrow>
                 (let (result, w) = pci_read_result B w; adev = adev\<lparr>last_result := result\<rparr>;
                      failed = (status AND STATUS_ERROR \<noteq> 0);
                      adev = (if failed then adev\<lparr>errors := errors adev + 1\<rparr> else adev)
                  in (if failed then Inl EIO else Inr stale, adev\<lparr>operations_completed := operations_completed adev + 1\<rparr>, w)));
          ret = (if timeout \<le> 0 then Inl ETIMEDOUT else ret);
          w = bus_write B REG_CONTROL CTRL_ENABLE w
      in (ret, adev\<lparr>operation_pending := False\<rparr>, w))"

definition command_regs :: "'w pci_bus \<Rightarrow> u32 \<Rightarrow> u32 \<Rightarrow> 'w \<Rightarrow> 'w" where
  "command_regs B cmd data w =
     (let w = bus_write B REG_STATUS 0 w;
          w = (if cmd \<noteq> CMD_EXECUTE_CMDBUF \<and> cmd \<noteq> CMD_DMA_FRAME then bus_write B REG_DATA data w else w);
          w = bus_write B REG_CONTROL CTRL_ENABLE w
      in bus_write B REG_CMD cmd w)"

definition pci_execute_command ::
    "u64 \<Rightarrow> 'w pci_bus \<Rightarrow> u32 \<Rightarrow> u32 \<Rightarrow> pci_device \<Rightarrow> 'w \<Rightarrow> (u64 res \<times> pci_device \<times> 'w) option" where
  "pci_execute_command stale B cmd data adev w =
     (if operation_pending adev then Some (Inl EBUSY, adev, w)
      else
        (let adev = adev\<lparr>operation_pending := True, last_command := cmd\<rparr>;
             adev = (if d_irq adev \<noteq> 0 then adev\<lparr>op_completion := False\<rparr> else adev);
             w = command_regs B cmd data w
         in if d_irq adev \<noteq> 0 then finish_irq B adev w else Some (finish_poll stale B adev w)))"

subsection \<open>Interrupts\<close>

text \<open>The handler answers whether the interrupt was the device's.\<close>

definition pci_irq_handler :: "'w pci_bus \<Rightarrow> pci_device \<Rightarrow> 'w \<Rightarrow> bool \<times> pci_device \<times> 'w" where
  "pci_irq_handler B adev w =
     (let (status, w) = bus_read B REG_STATUS w in
      if status AND (STATUS_DONE OR STATUS_ERROR) = 0 then (False, adev, w)
      else (True, adev\<lparr>interrupts_received := interrupts_received adev + 1, work_queued := True\<rparr>, bus_write B REG_STATUS 0 w))"

definition pci_work_handler :: "'w pci_bus \<Rightarrow> pci_device \<Rightarrow> 'w \<Rightarrow> pci_device \<times> 'w" where
  "pci_work_handler B adev w =
     (let adev = adev\<lparr>work_queued := False\<rparr> in
      if operation_pending adev then
        (let (status, w) = bus_read B REG_STATUS w;
             (result, w) = pci_read_result B w;
             adev = adev\<lparr>last_result := result\<rparr>;
             adev = (if status AND STATUS_ERROR \<noteq> 0 then adev\<lparr>errors := errors adev + 1\<rparr> else adev);
             w = bus_write B REG_CMD 0 w
         in (adev\<lparr>operations_completed := operations_completed adev + 1, operation_pending := False, op_completion := True\<rparr>, w))
      else (adev, w))"

subsection \<open>The character device\<close>

text \<open>\<open>buf\<close> is what \<open>copy_from_user\<close> gets, and whether that is all.\<close>

definition submit :: "u64 \<Rightarrow> 'w pci_bus \<Rightarrow> u64 \<Rightarrow> u32 \<Rightarrow> u32 \<Rightarrow> pci_device \<Rightarrow> 'w \<Rightarrow> (u64 res \<times> pci_device \<times> 'w) option" where
  "submit stale B phys len cmd adev w =
     (let w = pci_write_reg64 B REG_DMA_SRC_LO phys w;
          w = pci_write_reg64 B REG_DMA_DST_LO 0 w;
          w = bus_write B REG_DMA_LEN len w
      in pci_execute_command stale B cmd 0 adev w)"

definition protopciem_write ::
    "u64 \<Rightarrow> 'w pci_bus \<Rightarrow> bool \<times> u8 list \<Rightarrow> nat \<Rightarrow> pci_device \<Rightarrow> 'w \<Rightarrow> (nat res \<times> pci_device \<times> 'w) option" where
  "protopciem_write stale B buf cnt adev w =
     (if cnt = 0 then Some (Inr 0, adev, w)
      else if cnt > cmdbuf_size adev then Some (Inl EINVAL, adev, w)
      else
        (let w = bus_store B (cmdbuf_phys adev) (snd buf) w in
         if \<not> fst buf then Some (Inl EFAULT, adev, w)
         else do {
           (ret, adev, w) \<leftarrow> submit stale B (cmdbuf_phys adev) (of_nat cnt) CMD_EXECUTE_CMDBUF adev w;
           Some (case ret of Inl e \<Rightarrow> Inl e | Inr _ \<Rightarrow> Inr cnt, adev, w) }))"

definition PROTOPCIEM_IOCTL_SUBMIT_FRAME :: u32 where "PROTOPCIEM_IOCTL_SUBMIT_FRAME = 0x40046101"

definition protopciem_ioctl ::
    "u64 \<Rightarrow> 'w pci_bus \<Rightarrow> u32 \<Rightarrow> u32 option \<Rightarrow> pci_device \<Rightarrow> 'w \<Rightarrow> (unit res \<times> pci_device \<times> 'w) option" where
  "protopciem_ioctl stale B cmd arg adev w =
     (if cmd \<noteq> PROTOPCIEM_IOCTL_SUBMIT_FRAME then Some (Inl ENOTTY, adev, w)
      else (case arg of
              None \<Rightarrow> Some (Inl EFAULT, adev, w)
            | Some buffer_id \<Rightarrow>
                if buffer_id > 1 then Some (Inl EINVAL, adev, w)
                else do {
                  (ret, adev, w) \<leftarrow> submit stale B (framebuf_phys adev + ucast (buffer_id * of_nat FB_SIZE)) (of_nat FB_SIZE)
                                      CMD_DMA_FRAME adev w;
                  Some (case ret of Inl e \<Rightarrow> Inl e | Inr _ \<Rightarrow> Inr (), adev, w) }))"

text \<open>The mapping itself is \<open>dma_mmap_coherent\<close>, asked for \<open>size\<close> bytes.\<close>

definition protopciem_mmap :: "(nat \<Rightarrow> unit res) \<Rightarrow> nat \<Rightarrow> u64 \<Rightarrow> pci_device \<Rightarrow> unit res" where
  "protopciem_mmap coherent sz pgoff adev =
     (if push_bit 12 pgoff \<noteq> 0 \<or> sz > framebuf_size adev then Inl EINVAL else coherent sz)"

end
