(* ===== verification/ProtoSystem.thy ===== *)
theory ProtoSystem
  imports ProtoLink ProtoDriver
begin

text \<open>
  The accelerator as a whole: the guest's driver, the card and the backend. The driver's accesses to BAR 0
  leave events in the ring; while the driver waits, the card handles them, and every interrupt it raises
  runs the driver's handler and its work.
\<close>

subsection \<open>The bus between driver and card\<close>

type_synonym 'l proto_world = "device_state \<times> event list \<times> 'l"

definition guest_write :: "u32 \<Rightarrow> u32 \<Rightarrow> event" where
  "guest_write off v =
     \<lparr>ev_seq = 0, ev_type = 2, ev_bar = 0, ev_offset = ucast off, ev_size = 4, ev_data = ucast v, ev_timestamp = 0\<rparr>"

definition proto_regs :: "(u64 \<Rightarrow> u8 list \<Rightarrow> 'l \<Rightarrow> 'l) \<Rightarrow> 'l proto_world pci_bus" where
  "proto_regs store =
     \<lparr>bus_read = (\<lambda>off (st, evs, l). (bar_reg st off, st, evs, l)),
      bus_write = (\<lambda>off v (st, evs, l). (set_reg off v st, evs @ [guest_write off v], l)),
      bus_store = (\<lambda>a bs (st, evs, l). (st, evs, store a bs l)),
      bus_wait = (\<lambda>adev w. Some (adev, w))\<rparr>"

primrec deliver :: "'w pci_bus \<Rightarrow> nat \<Rightarrow> pci_device \<Rightarrow> 'w \<Rightarrow> pci_device \<times> 'w" where
  "deliver B 0 adev w = (adev, w)"
| "deliver B (Suc n) adev w =
     (let (_, adev, w) = pci_irq_handler B adev w;
          (adev, w) = (if work_queued adev then pci_work_handler B adev w else (adev, w))
      in deliver B n adev w)"

definition proto_card_runs :: "'l proto_link \<Rightarrow> event list \<Rightarrow> device_state \<Rightarrow> 'l \<Rightarrow> (device_state \<times> 'l) option" where
  "proto_card_runs L evs st l = card_events (\<lambda>ev (st, l). handle_event L ev st l) evs (st, l)"

definition proto_bus :: "'l proto_link \<Rightarrow> ('l \<Rightarrow> nat) \<Rightarrow> (u64 \<Rightarrow> u8 list \<Rightarrow> 'l \<Rightarrow> 'l) \<Rightarrow> 'l proto_world pci_bus" where
  "proto_bus L irqs store =
     (proto_regs store)\<lparr>bus_wait := (\<lambda>adev (st, evs, l). do {
        (st, l') \<leftarrow> proto_card_runs L evs st l;
        Some (deliver (proto_regs store) (irqs l' - irqs l) adev (st, [], l')) })\<rparr>"

lemma bus_ops [simp]:
  "bus_read (proto_bus L irqs store) off (st, evs, l) = (bar_reg st off, st, evs, l)"
  "bus_write (proto_bus L irqs store) off v (st, evs, l) = (set_reg off v st, evs @ [guest_write off v], l)"
  "bus_store (proto_bus L irqs store) a bs (st, evs, l) = (st, evs, store a bs l)"
  "bus_read (proto_regs store) off (st, evs, l) = (bar_reg st off, st, evs, l)"
  "bus_write (proto_regs store) off v (st, evs, l) = (set_reg off v st, evs @ [guest_write off v], l)"
  by (simp_all add: proto_bus_def proto_regs_def)

subsection \<open>Events and the command register\<close>

definition is_cmd :: "event \<Rightarrow> bool" where
  "is_cmd ev \<longleftrightarrow> ev_type ev = 2 \<and> ev_bar ev = 0 \<and> ev_offset ev = 8"

lemma other_event: "\<not> is_cmd ev \<or> bar_reg st REG_CMD = 0 \<Longrightarrow> handle_event L ev st l = Some (st, l)"
  by (auto simp: is_cmd_def handle_event_def handle_bar0_write_def Let_def) (simp_all add: proto_reg_defs)

lemma runs_idle: "bar_reg st REG_CMD = 0 \<Longrightarrow> proto_card_runs L evs st l = Some (st, l)"
  by (induction evs) (simp_all add: proto_card_runs_def other_event)

text \<open>
  However many events are queued, the first for the command register runs the command, and the others find
  the register clear.
\<close>

lemma runs_once:
  assumes "ev \<in> set evs" "is_cmd ev" "\<And>ev. is_cmd ev \<Longrightarrow> handle_event L ev st l = Some (st', l')" "bar_reg st' REG_CMD = 0"
  shows "proto_card_runs L evs st l = Some (st', l')"
  using assms(1)
proof (induction evs)
  case (Cons x xs)
  show ?case
  proof (cases "is_cmd x")
    case True
    then show ?thesis using runs_idle [OF assms(4), of L xs l'] by (simp add: proto_card_runs_def assms(3))
  next
    case False
    then have "ev \<in> set xs" using Cons.prems assms(2) by auto
    then show ?thesis using Cons.IH False by (simp add: proto_card_runs_def other_event)
  qed
qed simp

subsection \<open>One interrupt\<close>

text \<open>The registers a command ends with, and what the driver makes of the interrupt.\<close>

lemma combine: "push_bit 32 (ucast (ucast (drop_bit 32 r) :: u32)) OR ucast (ucast (r AND 0xFFFFFFFF) :: u32) = (r :: u64)"
proof -
  have m: "(0xFFFFFFFF :: u64) = mask 32" by (simp add: mask_eq_exp_minus_1)
  show ?thesis unfolding m by (rule bit_word_eqI) (auto simp: bit_simps)
qed

definition served :: "u64 \<Rightarrow> pci_device \<Rightarrow> pci_device" where
  "served r adev = adev\<lparr>interrupts_received := interrupts_received adev + 1, work_queued := False, last_result := r,
     operations_completed := operations_completed adev + 1, operation_pending := False, op_completion := True\<rparr>"

definition proto_quiet :: "device_state \<Rightarrow> device_state" where
  "proto_quiet st = set_reg REG_CMD 0 (set_reg REG_STATUS 0 st)"

lemma proto_quiet_simps [simp]:
  "bar_reg (proto_quiet st) REG_STATUS = 0" "bar_reg (proto_quiet st) REG_CMD = 0" "qemu_connected (proto_quiet st) = qemu_connected st"
  "irq_fd (proto_quiet st) = irq_fd st"
  by (simp_all add: proto_quiet_def reg_set_reg proto_reg_defs)

lemma proto_quiet_control [simp]: "bar_reg (set_reg REG_CONTROL v (proto_quiet st)) REG_CMD = 0"
proof -
  have "unat REG_CMD div 4 \<noteq> unat REG_CONTROL div 4" by (simp add: proto_reg_defs)
  then show ?thesis by (simp add: reg_set_reg)
qed

lemma deliver_one:
  assumes "operation_pending adev" "status AND (STATUS_DONE OR STATUS_ERROR) \<noteq> 0" "bar_reg st REG_STATUS = status"
    and "bar_reg st REG_RESULT_LO = ucast (r AND 0xFFFFFFFF)" "bar_reg st REG_RESULT_HI = ucast (drop_bit 32 r)"
  shows "deliver (proto_regs store) (Suc 0) adev (st, evs, l) =
    (served r adev, proto_quiet st, evs @ [guest_write REG_STATUS 0, guest_write REG_CMD 0], l)"
proof -
  have 1: "pci_irq_handler (proto_regs store) adev (st, evs, l) =
      (True, adev\<lparr>interrupts_received := interrupts_received adev + 1, work_queued := True\<rparr>,
       set_reg REG_STATUS 0 st, evs @ [guest_write REG_STATUS 0], l)"
    using assms(2,3) by (simp add: pci_irq_handler_def)
  have 2: "pci_read_result (proto_regs store) (set_reg REG_STATUS 0 st, es, l) = (r, set_reg REG_STATUS 0 st, es, l)" for es
    using assms(4,5) combine [of r] by (simp add: pci_read_result_def reg_set_reg proto_reg_defs)
  show ?thesis
    using assms(1) by (simp add: 1 pci_work_handler_def 2 served_def proto_quiet_def Let_def) (simp add: reg_set_reg)
qed

subsection \<open>A command in interrupt mode\<close>

definition command_st :: "u32 \<Rightarrow> u32 \<Rightarrow> device_state \<Rightarrow> device_state" where
  "command_st cmd data st =
     (let st = set_reg REG_STATUS 0 st;
          st = (if cmd \<noteq> CMD_EXECUTE_CMDBUF \<and> cmd \<noteq> CMD_DMA_FRAME then set_reg REG_DATA data st else st)
      in set_reg REG_CMD cmd (set_reg REG_CONTROL CTRL_ENABLE st))"

lemma command_regs_st:
  "\<exists>evs'. command_regs (proto_bus L irqs store) cmd data (st, evs, l) = (command_st cmd data st, evs @ evs', l) \<and>
     guest_write REG_CMD cmd \<in> set evs'"
  by (simp add: command_regs_def command_st_def Let_def)

lemma irq_command:
  assumes "d_irq adev \<noteq> 0" "\<not> operation_pending adev"
    and "\<And>ev. is_cmd ev \<Longrightarrow> handle_event L ev (command_st cmd data st) l = Some (st2, l2)" "irqs l2 = irqs l + 1"
    and "bar_reg st2 REG_CMD = 0" "bar_reg st2 REG_STATUS AND (STATUS_DONE OR STATUS_ERROR) \<noteq> 0"
    and "bar_reg st2 REG_RESULT_LO = ucast (r AND 0xFFFFFFFF)" "bar_reg st2 REG_RESULT_HI = ucast (drop_bit 32 r)"
  shows "\<exists>evs'. pci_execute_command stale (proto_bus L irqs store) cmd data adev (st, evs, l) =
    Some (Inr r, (served r (adev\<lparr>last_command := cmd\<rparr>))\<lparr>op_completion := False\<rparr>,
      set_reg REG_CONTROL CTRL_ENABLE (proto_quiet st2), evs', l2)"
proof -
  let ?adev = "adev\<lparr>operation_pending := True, last_command := cmd, op_completion := False\<rparr>"
  obtain es where es: "command_regs (proto_bus L irqs store) cmd data (st, evs, l) = (command_st cmd data st, evs @ es, l)"
    "guest_write REG_CMD cmd \<in> set es" using command_regs_st [of L irqs store cmd data st evs l] by blast
  have "is_cmd (guest_write REG_CMD cmd)" by (simp add: is_cmd_def guest_write_def proto_reg_defs)
  then have "proto_card_runs L (evs @ es) (command_st cmd data st) l = Some (st2, l2)"
    using runs_once [of _ "evs @ es" L "command_st cmd data st" l st2 l2] es(2) assms(3,5) by auto
  then have "bus_wait (proto_bus L irqs store) ?adev (command_st cmd data st, evs @ es, l) =
      Some (served r ?adev, proto_quiet st2, [guest_write REG_STATUS 0, guest_write REG_CMD 0], l2)"
    using deliver_one [OF _ assms(6) refl assms(7,8), of ?adev store "[]" l2] assms(4) by (simp add: proto_bus_def)
  then show ?thesis
    using assms(1,2) by (simp add: pci_execute_command_def Let_def es(1) finish_irq_def) (simp add: served_def)
qed

text \<open>What the card computes itself.\<close>

definition local_done :: "u32 \<Rightarrow> u64 \<Rightarrow> device_state \<Rightarrow> device_state" where
  "local_done status r st = set_reg REG_CMD 0 (set_reg REG_STATUS status (set_reg REG_RESULT_HI (ucast (drop_bit 32 r))
     (set_reg REG_RESULT_LO (ucast (r AND 0xFFFFFFFF)) (set_reg REG_STATUS STATUS_BUSY st))))"

lemma reg_local_done:
  "bar_reg (local_done s r st) REG_STATUS = s" "bar_reg (local_done s r st) REG_CMD = 0"
  "bar_reg (local_done s r st) REG_RESULT_LO = ucast (r AND 0xFFFFFFFF)" "bar_reg (local_done s r st) REG_RESULT_HI = ucast (drop_bit 32 r)"
  by (simp_all add: local_done_def reg_set_reg proto_reg_defs)

definition local_status :: "u32 \<Rightarrow> u32 \<Rightarrow> u32" where
  "local_status cmd data = (if local_result cmd data = None then STATUS_DONE OR STATUS_ERROR else STATUS_DONE)"

lemma local_event:
  assumes "is_cmd ev" "cmd \<noteq> 0" "cmd \<noteq> CMD_EXECUTE_CMDBUF" "cmd \<noteq> CMD_DMA_FRAME"
    and "r = (case local_result cmd data of None \<Rightarrow> 0 | Some v \<Rightarrow> v)"
    and "st' = local_done (local_status cmd data) r (command_st cmd data st)"
  shows "handle_event L ev (command_st cmd data st) l = Some (st', l_inject L st' l)"
proof -
  have r: "bar_reg (command_st cmd data st) REG_CMD = cmd" "bar_reg (set_reg REG_STATUS v (command_st cmd data st)) REG_CMD = cmd"
    "bar_reg (set_reg REG_STATUS v (command_st cmd data st)) REG_DATA = data" for v
    using assms(3,4) by (simp_all add: command_st_def Let_def reg_set_reg proto_reg_defs)
  have "ev_offset ev = ucast REG_CMD" "ev_type ev = 2" "ev_bar ev = 0" using assms(1) by (simp_all add: is_cmd_def proto_reg_defs)
  then show ?thesis
    using assms(2-4) unfolding assms(6,5)
    by (simp add: handle_event_def handle_bar0_write_def r process_command_local_def Let_def local_done_def local_status_def)
qed

subsection \<open>The card and the backend over the ioctls\<close>

definition proto_irqs :: "card_world link_world \<Rightarrow> nat" where
  "proto_irqs = (\<lambda>(_, _, w). card_irqs w)"

text \<open>The driver's stores into its coherent buffers, which the card reaches at the same addresses.\<close>

definition cpu_store :: "dma_env \<Rightarrow> u64 \<Rightarrow> u8 list \<Rightarrow> card_world link_world \<Rightarrow> card_world link_world" where
  "cpu_store env a bs = (\<lambda>(m, q, w). (m, q, w\<lparr>card_dma := (card_dma w)
     \<lparr>gmem := put_bytes (gmem (card_dma w)) (zip (dma_addrs env a (length bs)) bs)\<rparr>\<rparr>))"

definition accel_bus ::
    "dma_env \<Rightarrow> user_env \<Rightarrow> u64 \<Rightarrow> bool \<Rightarrow> (u8 \<Rightarrow> u8 \<Rightarrow> u8 \<Rightarrow> u32) \<Rightarrow> card_world link_world proto_world pci_bus" where
  "accel_bus env uenv buf_at full rgb =
     proto_bus (backend_link (irqfd_write full) (card_ioctl_host env uenv buf_at) rgb) proto_irqs (cpu_store env)"

lemma accel_inject:
  "proto_irqs (l_inject (backend_link (irqfd_write full) (card_ioctl_host env uenv buf_at) rgb) st l) = proto_irqs l + 1"
proof -
  obtain m q w where l: "l = (m, q, w)" by (cases l) auto
  show ?thesis
    using accel.inject_once [of full env uenv buf_at st w] by (simp add: l backend_link_def proto_irqs_def)
qed

lemma local_command:
  assumes "d_irq adev \<noteq> 0" "\<not> operation_pending adev" "cmd \<noteq> 0" "cmd \<noteq> CMD_EXECUTE_CMDBUF" "cmd \<noteq> CMD_DMA_FRAME"
    and "r = (case local_result cmd data of None \<Rightarrow> 0 | Some v \<Rightarrow> v)"
  shows "\<exists>w'. pci_execute_command stale (accel_bus env uenv buf_at full rgb) cmd data adev w =
    Some (Inr r, (served r (adev\<lparr>last_command := cmd\<rparr>))\<lparr>op_completion := False\<rparr>, w')"
proof -
  obtain st evs l where w: "w = (st, evs, l)" by (cases w) auto
  let ?L = "backend_link (irqfd_write full) (card_ioctl_host env uenv buf_at) rgb"
  define st2 where "st2 = local_done (local_status cmd data) r (command_st cmd data st)"
  have "local_status cmd data AND (STATUS_DONE OR STATUS_ERROR) \<noteq> 0"
    by (simp add: local_status_def proto_status_defs)
  then have "\<exists>evs'. pci_execute_command stale (proto_bus ?L proto_irqs (cpu_store env)) cmd data adev (st, evs, l) =
    Some (Inr r, (served r (adev\<lparr>last_command := cmd\<rparr>))\<lparr>op_completion := False\<rparr>,
      set_reg REG_CONTROL CTRL_ENABLE (proto_quiet st2), evs', l_inject ?L st2 l)"
    using irq_command [OF assms(1,2), of ?L cmd data st l st2 "l_inject ?L st2 l" proto_irqs r stale "cpu_store env" evs]
      local_event [OF _ assms(3-6) st2_def, of _ ?L l] accel_inject [of full env uenv buf_at rgb st2 l]
    by (simp add: st2_def reg_local_done)
  then show ?thesis unfolding w accel_bus_def by blast
qed

lemma local_result_exact:
  "\<exists>r. local_result CMD_ADD data = Some r \<and> unat r = unat data + unat data"
  "\<exists>r. local_result CMD_MULTIPLY data = Some r \<and> unat r = unat data * unat data"
  "\<exists>r. local_result CMD_XOR data = Some r \<and> unat r = 2 ^ 32 - 1 - unat data"
proof -
  have lt: "unat x < 2 ^ 32" for x :: u32 by (rule order_less_le_trans [OF unsigned_less]) simp
  note d = lt [of data]
  have u: "unat (ucast x :: u64) = unat x" for x :: u32
    using lt [of x] by (simp add: unsigned_ucast_eq take_bit_nat_eq_self)
  have "unat data * unat data \<le> (2 ^ 32 - 1) * (2 ^ 32 - 1)" using d by (intro mult_le_mono) simp_all
  then have m: "unat data * unat data < 2 ^ 64" by simp
  show "\<exists>r. local_result CMD_ADD data = Some r \<and> unat r = unat data + unat data"
    using d by (simp add: local_result_def unat_word_ariths u)
  show "\<exists>r. local_result CMD_MULTIPLY data = Some r \<and> unat r = unat data * unat data"
    using m by (simp add: local_result_def proto_cmd_defs unat_word_ariths u)
  have m1: "(0xFFFFFFFF :: u32) = - 1" by simp
  have "data XOR 0xFFFFFFFF = NOT data" unfolding m1 by (rule bit_word_eqI) (simp add: bit_simps)
  moreover have "NOT data = - 1 - data" by (simp add: not_eq_complement)
  moreover have "unat (- 1 :: u32) = 2 ^ 32 - 1" by (simp flip: m1)
  moreover have "unat (- 1 - data) = unat (- 1 :: u32) - unat data" by (rule unat_sub_if_le) simp
  ultimately show "\<exists>r. local_result CMD_XOR data = Some r \<and> unat r = 2 ^ 32 - 1 - unat data"
    by (simp add: local_result_def proto_cmd_defs u)
qed

text \<open>
  C23. Simple commands. In interrupt mode the driver's ADD, MULTIPLY and XOR return the exact 64-bit
  result for the 32-bit operand, whatever events are still in the ring, with one interrupt and one
  operation counted and nothing pending; no carry is lost.
\<close>

theorem protopciem_computes:
  assumes "d_irq adev \<noteq> 0" "\<not> operation_pending adev"
    and "(cmd, n) \<in> {(CMD_ADD, unat data + unat data), (CMD_MULTIPLY, unat data * unat data), (CMD_XOR, 2 ^ 32 - 1 - unat data)}"
  shows "\<exists>r adev' w'. pci_execute_command stale (accel_bus env uenv buf_at full rgb) cmd data adev w = Some (Inr r, adev', w') \<and>
    unat r = n \<and> \<not> operation_pending adev' \<and> errors adev' = errors adev \<and>
    operations_completed adev' = operations_completed adev + 1 \<and> interrupts_received adev' = interrupts_received adev + 1"
proof -
  obtain r where r: "local_result cmd data = Some r" "unat r = n" "cmd \<noteq> 0" "cmd \<noteq> CMD_EXECUTE_CMDBUF" "cmd \<noteq> CMD_DMA_FRAME"
    using assms(3) local_result_exact [of data] by (auto simp: proto_cmd_defs)
  from local_command [OF assms(1,2) r(3-5), of r data stale env uenv buf_at full rgb w] r(1,2)
  show ?thesis by (auto simp: served_def)
qed

text \<open>
  A command the device does not know ends as a success with the result 0: the card reports the error in the
  status register, the interrupt handler clears that register before the work and the driver read it.
\<close>

theorem unknown_command_succeeds:
  assumes "d_irq adev \<noteq> 0" "\<not> operation_pending adev" "cmd \<notin> {0, CMD_ADD, CMD_MULTIPLY, CMD_XOR, CMD_EXECUTE_CMDBUF, CMD_DMA_FRAME}"
  shows "\<exists>adev' w'. pci_execute_command stale (accel_bus env uenv buf_at full rgb) cmd data adev w = Some (Inr 0, adev', w') \<and>
    errors adev' = errors adev \<and> local_status cmd data AND STATUS_ERROR \<noteq> 0"
proof -
  have r: "local_result cmd data = None" using assms(3) by (simp add: local_result_def)
  from local_command [OF assms(1,2), of cmd 0 data stale env uenv buf_at full rgb w] assms(3) r
  show ?thesis by (auto simp: served_def local_status_def proto_status_defs)
qed

text \<open>The mode without interrupts never returns the device's result: the variable it returns is not assigned.\<close>

theorem polling_returns_stale:
  assumes "finish_poll stale B adev w = (Inr r, adev', w')"
  shows "r = stale"
  using assms by (auto simp: finish_poll_def Let_def split: prod.splits option.splits if_splits)

text \<open>A status that stops the loop at its last turn counts as a time-out.\<close>

theorem last_poll_times_out:
  assumes "poll_status B (\<lambda>s. s AND STATUS_DONE \<noteq> 0) 1000 w = (Some status, 0, w')"
  shows "fst (finish_poll stale B adev w) = Inl ETIMEDOUT"
  using assms by (simp add: finish_poll_def Let_def split: prod.splits)

subsection \<open>Command buffers and frames\<close>

definition submit_st :: "u64 \<Rightarrow> u32 \<Rightarrow> device_state \<Rightarrow> device_state" where
  "submit_st phys len st =
     set_reg REG_DMA_LEN len (set_reg REG_DMA_DST_HI 0 (set_reg REG_DMA_DST_LO 0
       (set_reg REG_DMA_SRC_HI (ucast (drop_bit 32 phys)) (set_reg REG_DMA_SRC_LO (ucast (phys AND 0xFFFFFFFF)) st))))"

lemma submit_regs:
  "\<exists>es. submit stale (proto_bus L irqs store) phys len cmd adev (st, evs, l) =
     pci_execute_command stale (proto_bus L irqs store) cmd 0 adev (submit_st phys len st, evs @ es, l)"
proof -
  have "REG_DMA_SRC_LO + 4 = REG_DMA_SRC_HI" "REG_DMA_DST_LO + 4 = REG_DMA_DST_HI" by (simp_all add: proto_reg_defs)
  then show ?thesis by (auto simp: submit_def pci_write_reg64_def submit_st_def Let_def)
qed

lemma submitted:
  assumes "cmd = CMD_EXECUTE_CMDBUF \<or> cmd = CMD_DMA_FRAME" "st' = command_st cmd 0 (submit_st phys len st)"
  shows "bar_reg st' REG_CONTROL AND 2 = 0" "bar_reg st' REG_CMD = cmd" "bar_reg st' REG_DMA_LEN = len" "qemu_connected st' = qemu_connected st"
    "phys = push_bit 32 (ucast (bar_reg st' REG_DMA_SRC_HI)) OR ucast (bar_reg st' REG_DMA_SRC_LO)"
  using assms combine [of phys]
  by (auto simp: command_st_def submit_st_def Let_def reg_set_reg proto_reg_defs CTRL_ENABLE_def)

lemma cmd_event: "is_cmd ev \<Longrightarrow> handle_event L ev st l = handle_event L (guest_write REG_CMD 0) st l"
  by (simp add: handle_event_def handle_bar0_write_def is_cmd_def guest_write_def proto_reg_defs Let_def)

lemma submit_done:
  assumes "d_irq adev \<noteq> 0" "\<not> operation_pending adev"
    and "handle_event L (guest_write REG_CMD 0) (command_st cmd 0 (submit_st phys len st)) l = Some (st2, l2)" "irqs l2 = irqs l + 1"
    and "bar_reg st2 REG_CMD = 0" "bar_reg st2 REG_STATUS = STATUS_DONE"
    and "bar_reg st2 REG_RESULT_LO = ucast (r AND 0xFFFFFFFF)" "bar_reg st2 REG_RESULT_HI = ucast (drop_bit 32 r)"
  shows "\<exists>adev' evs'. submit stale (proto_bus L irqs store) phys len cmd adev (st, evs, l) =
      Some (Inr r, adev', set_reg REG_CONTROL CTRL_ENABLE (proto_quiet st2), evs', l2) \<and>
    \<not> operation_pending adev' \<and> operations_completed adev' = operations_completed adev + 1 \<and> errors adev' = errors adev"
proof -
  obtain es where es: "submit stale (proto_bus L irqs store) phys len cmd adev (st, evs, l) =
     pci_execute_command stale (proto_bus L irqs store) cmd 0 adev (submit_st phys len st, evs @ es, l)"
    using submit_regs [of stale L irqs store phys len cmd adev st evs l] by blast
  from irq_command [OF assms(1,2), of L cmd 0 "submit_st phys len st" l st2 l2 irqs r stale store "evs @ es"] assms(3-8)
    cmd_event [of _ L "command_st cmd 0 (submit_st phys len st)" l]
  obtain evs' where "pci_execute_command stale (proto_bus L irqs store) cmd 0 adev (submit_st phys len st, evs @ es, l) =
    Some (Inr r, (served r (adev\<lparr>last_command := cmd\<rparr>))\<lparr>op_completion := False\<rparr>,
      set_reg REG_CONTROL CTRL_ENABLE (proto_quiet st2), evs', l2)" by (auto simp: proto_status_defs)
  then show ?thesis unfolding es by (auto simp: served_def)
qed

text \<open>
  C7. Command buffers. When a program writes an encoded list of commands to the driver's device, in
  interrupt mode with the backend connected, the write returns the number of bytes, and the frame
  buffer of the backend has become what drawing the commands in their order makes of it: every byte
  went through the driver's DMA buffer, the card's DMA ioctl and the socket. There is one interrupt, one
  operation is counted, and driver, card and backend are ready for the next command.
\<close>

theorem protopciem_draws:
  assumes "d_irq adev \<noteq> 0" "\<not> operation_pending adev" "cmdbuf_size adev = CMD_BUFFER_SIZE"
    and "bs = gpu_encodes cs" "bs \<noteq> []" "length bs \<le> CMD_BUFFER_SIZE" "\<forall>c\<in>set cs. gpu_cmd_ok c"
    and "card_good env uenv buf_at (cmdbuf_phys adev) (length bs)" "distinct (dma_addrs env (cmdbuf_phys adev) (length bs))"
    and "qemu_connected st" "q_status q AND NOT STATUS_DONE = 0"
  shows "\<exists>adev' st' evs' q' w'. protopciem_write stale (accel_bus env uenv buf_at full rgb) (True, bs) (length bs) adev (st, evs, m, Some q, w) =
      Some (Inr (length bs), adev', st', evs', None, Some q', w') \<and>
    q_framebuffer q' = fold gpu_draw cs (q_framebuffer q) \<and> card_irqs w' = card_irqs w + 1 \<and>
    operations_completed adev' = operations_completed adev + 1 \<and> \<not> operation_pending adev' \<and> errors adev' = errors adev \<and>
    q_status q' AND NOT STATUS_DONE = 0 \<and> qemu_connected st' \<and> bar_reg st' REG_CMD = 0"
proof -
  let ?A = "dma_addrs env (cmdbuf_phys adev) (length bs)" and ?len = "of_nat (length bs) :: u32"
  let ?L = "backend_link (irqfd_write full) (card_ioctl_host env uenv buf_at) rgb"
  define w1 where "w1 = w\<lparr>card_dma := (card_dma w)\<lparr>gmem := put_bytes (gmem (card_dma w)) (zip ?A bs)\<rparr>\<rparr>"
  define st1 where "st1 = command_st CMD_EXECUTE_CMDBUF 0 (submit_st (cmdbuf_phys adev) ?len st)"
  have read: "map (gmem (card_dma w1)) ?A = bs" using put_bytes_get [OF assms(9), of bs] by (simp add: w1_def)
  have len: "unat ?len = length bs" using assms(6) by (simp add: CMD_BUFFER_SIZE_def unsigned_of_nat take_bit_nat_eq_self)
  note r = submitted [OF disjI1 [OF refl] st1_def]
  have ev: "ev_type (guest_write REG_CMD 0) = 2" "ev_bar (guest_write REG_CMD 0) = 0" "ev_offset (guest_write REG_CMD 0) = 8"
    by (simp_all add: guest_write_def proto_reg_defs)
  from accel.event_draws [OF r(1,2) _ ev r(5), of cs env uenv buf_at w1 q full rgb m] assms(4,6-8,10,11) read len r(3,4)
  obtain st2 q' w2 where h: "handle_event ?L (guest_write REG_CMD 0) st1 (m, Some q, w1) = Some (st2, None, Some q', w2)"
    "q_framebuffer q' = fold gpu_draw cs (q_framebuffer q)" "q_status q' = STATUS_DONE" "card_irqs w2 = card_irqs w1 + 1"
    "bar_reg st2 REG_CMD = 0" "bar_reg st2 REG_STATUS = STATUS_DONE" "qemu_connected st2"
    "bar_reg st2 REG_RESULT_LO = ucast (result_of q AND 0xFFFFFFFF)" "bar_reg st2 REG_RESULT_HI = ucast (drop_bit 32 (result_of q))"
    by auto
  have "proto_irqs (None, Some q', w2) = proto_irqs (m, Some q, w1) + 1" using h(4) by (simp add: proto_irqs_def)
  from submit_done [OF assms(1,2) h(1) [unfolded st1_def] this h(5,6,8,9), of stale "cpu_store env" evs]
  obtain adev' evs' where "submit stale (accel_bus env uenv buf_at full rgb) (cmdbuf_phys adev) ?len CMD_EXECUTE_CMDBUF adev (st, evs, m, Some q, w1) =
      Some (Inr (result_of q), adev', set_reg REG_CONTROL CTRL_ENABLE (proto_quiet st2), evs', None, Some q', w2)"
    "\<not> operation_pending adev'" "operations_completed adev' = operations_completed adev + 1" "errors adev' = errors adev"
    unfolding accel_bus_def by blast
  then have "protopciem_write stale (accel_bus env uenv buf_at full rgb) (True, bs) (length bs) adev (st, evs, m, Some q, w) =
      Some (Inr (length bs), adev', set_reg REG_CONTROL CTRL_ENABLE (proto_quiet st2), evs', None, Some q', w2)"
    using assms(3,5,6) by (simp add: protopciem_write_def accel_bus_def cpu_store_def w1_def)
  with h show ?thesis
    using \<open>\<not> operation_pending adev'\<close> \<open>operations_completed adev' = _\<close> \<open>errors adev' = _\<close>
    by (auto simp: w1_def)
qed

text \<open>
  C29. Frames. When the program asks the driver to submit one of its two frame buffers, the surface of
  the backend's console shows it: the pixel in column \<open>x\<close> of row \<open>y\<close> has the colour of the three bytes at
  its place in that buffer, whatever the surface's distance between rows.
\<close>

theorem protopciem_shows:
  assumes "d_irq adev \<noteq> 0" "\<not> operation_pending adev" "b \<le> 1" "src = framebuf_phys adev + ucast (b * of_nat FB_SIZE)"
    and "card_good env uenv buf_at src FB_SIZE" "qemu_connected st" "q_status q AND NOT STATUS_DONE = 0"
    and "q_surface q = Some (stride, d)" "4 * 640 \<le> stride"
  shows "\<exists>adev' st' evs' q' w' d'. protopciem_ioctl stale (accel_bus env uenv buf_at full rgb) PROTOPCIEM_IOCTL_SUBMIT_FRAME (Some b) adev
        (st, evs, m, Some q, w) = Some (Inr (), adev', st', evs', None, Some q', w') \<and>
    q_surface q' = Some (stride, d') \<and>
    (\<forall>x y. x < 640 \<and> y < 480 \<longrightarrow> (let f = (\<lambda>i. gmem (card_dma w) (dma_addrs env src FB_SIZE ! i)); i = (y * 640 + x) * 3
       in get32 d' (y * stride + 4 * x) = rgb (f i) (f (i + 1)) (f (i + 2)))) \<and>
    card_irqs w' = card_irqs w + 1 \<and> \<not> operation_pending adev' \<and> errors adev' = errors adev \<and> qemu_connected st'"
proof -
  let ?A = "dma_addrs env src FB_SIZE" and ?L = "backend_link (irqfd_write full) (card_ioctl_host env uenv buf_at) rgb"
  define st1 where "st1 = command_st CMD_DMA_FRAME 0 (submit_st src (of_nat FB_SIZE) st)"
  note r = submitted [OF disjI2 [OF refl] st1_def]
  have ev: "ev_type (guest_write REG_CMD 0) = 2" "ev_bar (guest_write REG_CMD 0) = 0" "ev_offset (guest_write REG_CMD 0) = 8"
    by (simp_all add: guest_write_def proto_reg_defs)
  have len: "unat (of_nat FB_SIZE :: u32) = FB_SIZE" by (simp add: FB_SIZE_def)
  from accel.event_shows [OF r(1,2) _ ev r(5), of env uenv buf_at q full rgb m w] assms(5-7) len r(3,4)
  obtain st2 q' w2 where h: "handle_event ?L (guest_write REG_CMD 0) st1 (m, Some q, w) = Some (st2, None, Some q', w2)"
    "q_framebuffer q' = poke (q_framebuffer q) 0 (map (gmem (card_dma w)) ?A)"
    "q_surface q' = map_option (\<lambda>(stride, d). (stride, display_rows rgb stride (q_framebuffer q') d)) (q_surface q)"
    "card_irqs w2 = card_irqs w + 1" "bar_reg st2 REG_CMD = 0" "bar_reg st2 REG_STATUS = STATUS_DONE" "qemu_connected st2"
    "bar_reg st2 REG_RESULT_LO = ucast (result_of q AND 0xFFFFFFFF)" "bar_reg st2 REG_RESULT_HI = ucast (drop_bit 32 (result_of q))"
    by auto
  have "proto_irqs (None, Some q', w2) = proto_irqs (m, Some q, w) + 1" using h(4) by (simp add: proto_irqs_def)
  from submit_done [OF assms(1,2) h(1) [unfolded st1_def] this h(5,6,8,9), of stale "cpu_store env" evs]
  obtain adev' evs' where s: "submit stale (accel_bus env uenv buf_at full rgb) src (of_nat FB_SIZE) CMD_DMA_FRAME adev (st, evs, m, Some q, w) =
      Some (Inr (result_of q), adev', set_reg REG_CONTROL CTRL_ENABLE (proto_quiet st2), evs', None, Some q', w2)"
    "\<not> operation_pending adev'" "errors adev' = errors adev"
    unfolding accel_bus_def by blast
  have "protopciem_ioctl stale (accel_bus env uenv buf_at full rgb) PROTOPCIEM_IOCTL_SUBMIT_FRAME (Some b) adev (st, evs, m, Some q, w) =
      Some (Inr (), adev', set_reg REG_CONTROL CTRL_ENABLE (proto_quiet st2), evs', None, Some q', w2)"
    using assms(3) s(1) by (simp add: protopciem_ioctl_def assms(4) not_less)
  moreover have "get32 (display_rows rgb stride (q_framebuffer q') d) (y * stride + 4 * x) =
      (let f = (\<lambda>i. gmem (card_dma w) (?A ! i)); i = (y * 640 + x) * 3 in rgb (f i) (f (i + 1)) (f (i + 2)))"
    if "x < 640" "y < 480" for x y
  proof -
    have "(y * 640 + x) * 3 + 2 < FB_SIZE" using that by (simp add: FB_SIZE_def)
    then show ?thesis unfolding display_rows_shows [OF assms(9) that] Let_def h(2) by (simp add: poke_def)
  qed
  ultimately show ?thesis using h(3,4,7) s(2,3) assms(8) by (auto simp: Let_def)
qed

subsection \<open>An accelerator at work\<close>

definition proto_adev0 :: pci_device where
  "proto_adev0 = \<lparr>d_irq = 40, op_completion = False, work_queued = False, operation_pending = False, last_command = 0,
     last_result = 0, operations_completed = 0, interrupts_received = 0, errors = 0, cmdbuf_phys = 0x100000,
     cmdbuf_size = CMD_BUFFER_SIZE, framebuf_phys = 0x800000, framebuf_size = MMAP_SIZE\<rparr>"

definition proto_card0 :: device_state where
  "proto_card0 = \<lparr>p_bar0 = (\<lambda>_. 0), qemu_connected = True, waiting_for_ack = False, last_resp = None, irq_fd = 5\<rparr>"

definition proto_cards0 :: card_world where
  "proto_cards0 = \<lparr>card_dma = \<lparr>gmem = (\<lambda>a. ucast a), umem = (\<lambda>_. 0), kbufs = 0\<rparr>, card_sent = [], card_irqs = 0\<rparr>"

definition rgb32 :: "u8 \<Rightarrow> u8 \<Rightarrow> u8 \<Rightarrow> u32" where
  "rgb32 r g b = push_bit 16 (ucast r) OR push_bit 8 (ucast g) OR ucast b"

abbreviation accel_bus0 :: "card_world link_world proto_world pci_bus" where
  "accel_bus0 \<equiv> accel_bus ram_env uenv0 0x200000 False rgb32"

theorem protopciem_computes_witness:
  "\<exists>r adev' w'. pci_execute_command 7 accel_bus0 CMD_MULTIPLY 0xFFFFFFFF proto_adev0 (proto_card0, [], None, None, proto_cards0) =
      Some (Inr r, adev', w') \<and> unat r = 0xFFFFFFFE00000001"
  using protopciem_computes [of proto_adev0 CMD_MULTIPLY "0xFFFFFFFE00000001" "0xFFFFFFFF" 7 ram_env uenv0 "0x200000" False rgb32
      "(proto_card0, [], None, None, proto_cards0)"]
  by (auto simp: proto_adev0_def)

theorem protopciem_draws_witness:
  "\<exists>adev' st' evs' q' w'. protopciem_write 7 accel_bus0 (True, gpu_encodes [Clear (1, 2, 3), Line 0 0 1 1 (9, 9, 9)]) 32 proto_adev0
      (proto_card0, [], None, Some (backend_init None), proto_cards0) = Some (Inr 32, adev', st', evs', None, Some q', w') \<and>
    map (q_framebuffer q') [0, 3, 4, 5] = [9, 1, 2, 3] \<and> card_irqs w' = 1"
proof -
  let ?cs = "[Clear (1, 2, 3), Line 0 0 1 1 (9, 9, 9)]"
  have l: "length (gpu_encodes ?cs) = 32" by (simp add: gpu_encodes_def le16_def)
  have d: "distinct (dma_addrs ram_env 0x100000 32)" using ram_range(1) [of "0x100000" 32] by simp
  have p: "line_points 0 0 1 1 = [(0, 0), (1, 1)]" by (simp add: line_points_def Let_def near_def upto_rec1)
  have f: "map (fold gpu_draw ?cs fb) [0, 3, 4, 5] = [9, 1, 2, 3]" for fb
    by (simp add: p plot_def poke_def cleared_def)
  show ?thesis
    using protopciem_draws [of proto_adev0 "gpu_encodes ?cs" ?cs ram_env uenv0 "0x200000" proto_card0 "backend_init None" 7 False rgb32
        "[]" None proto_cards0] d f
    by (auto simp: l proto_adev0_def proto_card0_def proto_cards0_def backend_init_def CMD_BUFFER_SIZE_def card_good0 gpu_encodes_def)
qed

theorem protopciem_shows_witness:
  "\<exists>adev' st' evs' q' w' d'. protopciem_ioctl 7 accel_bus0 PROTOPCIEM_IOCTL_SUBMIT_FRAME (Some 0) proto_adev0
        (proto_card0, [], None, Some (backend_init (Some (2560, \<lambda>_. 0))), proto_cards0) = Some (Inr (), adev', st', evs', None, Some q', w') \<and>
    q_surface q' = Some (2560, d') \<and> get32 d' (2 * 2560 + 4 * 1) = 0x030405"
proof -
  let ?q = "backend_init (Some (2560, \<lambda>_. 0))" and ?f = "\<lambda>i. gmem (card_dma proto_cards0) (dma_addrs ram_env 0x800000 FB_SIZE ! i)"
  have nth: "i < n \<Longrightarrow> dma_addrs ram_env a n ! i = a + of_nat i" for a i n by (simp add: ram_addrs)
  have f: "?f ((2 * 640 + 1) * 3) = 3" "?f ((2 * 640 + 1) * 3 + 1) = 4" "?f ((2 * 640 + 1) * 3 + 2) = 5"
    by (simp_all add: nth FB_SIZE_def proto_cards0_def)
  have "card_good ram_env uenv0 0x200000 0x800000 FB_SIZE" by (simp add: card_good0 FB_SIZE_def)
  moreover have "q_surface ?q = Some (2560, \<lambda>_. 0)" "q_status ?q AND NOT STATUS_DONE = 0" by (simp_all add: backend_init_def)
  ultimately obtain adev' st' evs' q' w' d' where r: "protopciem_ioctl 7 accel_bus0 PROTOPCIEM_IOCTL_SUBMIT_FRAME (Some 0) proto_adev0
        (proto_card0, [], None, Some ?q, proto_cards0) = Some (Inr (), adev', st', evs', None, Some q', w')"
      "q_surface q' = Some (2560, d')"
      "\<forall>x y. x < 640 \<and> y < 480 \<longrightarrow> (let i = (y * 640 + x) * 3 in get32 d' (y * 2560 + 4 * x) = rgb32 (?f i) (?f (i + 1)) (?f (i + 2)))"
    using protopciem_shows [where adev = proto_adev0 and b = 0 and src = "0x800000" and env = ram_env and uenv = uenv0
        and buf_at = "0x200000" and st = proto_card0 and q = ?q and stride = 2560 and d = "\<lambda>_. 0" and stale = 7 and full = False
        and rgb = rgb32 and evs = "[]" and m = None and w = proto_cards0]
    by (fastforce simp: proto_adev0_def proto_card0_def Let_def)
  from spec [OF spec [OF r(3), of 1], of 2] f have "get32 d' (2 * 2560 + 4 * 1) = 0x030405"
    by (simp add: Let_def rgb32_def)
  with r(1,2) show ?thesis by blast
qed

end
