(* ===== verification/ProtoProbe.thy ===== *)
theory ProtoProbe
  imports ProtoDriver
begin

text \<open>
  How the accelerator's driver comes and goes (\<open>pci_probe\<close> and \<open>pci_remove\<close> of
  \<^verbatim>\<open>examples/protopciem/driver/protopciem_driver.c\<close>). What the driver holds is a set; to give back what is
  not held is a crash, \<open>None\<close>. The kernel's answers are an argument.
\<close>

subsection \<open>What the driver holds\<close>

datatype held = Adev | Enabled | Regions | Bar0 | Msi | Irq | Wq | Cmdbuf | Framebuf | Misc

definition give_back :: "held \<Rightarrow> held set \<Rightarrow> held set option" where
  "give_back r h = (if r \<in> h then Some (h - {r}) else None)"

lemma give_back_insert [simp]: "r \<notin> h \<Longrightarrow> give_back r (insert r h) = Some h"
  by (simp add: give_back_def)

record probe_answers =
  pa_alloc :: bool
  pa_enable :: "unit res"
  pa_regions :: "unit res"
  pa_iomap :: bool
  pa_msi :: "unit res"
  pa_msi_number :: int
  pa_msi_irq :: "unit res"
  pa_legacy :: int
  pa_legacy_irq :: "unit res"
  pa_wq :: bool
  pa_cmdbuf :: "u64 option"
  pa_framebuf :: "u64 option"
  pa_misc :: "unit res"

subsection \<open>The error path\<close>

text \<open>The labels of \<open>pci_probe\<close>, each falling through to the next.\<close>

definition err_free :: "held set \<Rightarrow> held set option" where
  "err_free h = give_back Adev h"

definition err_disable :: "held set \<Rightarrow> held set option" where
  "err_disable h = do { h \<leftarrow> give_back Enabled h; err_free h }"

definition err_regions :: "held set \<Rightarrow> held set option" where
  "err_regions h = do { h \<leftarrow> give_back Regions h; err_disable h }"

definition err_irq :: "int \<Rightarrow> bool \<Rightarrow> held set \<Rightarrow> held set option" where
  "err_irq irq msi h =
     do {
       h \<leftarrow> (if irq \<noteq> 0 then give_back Irq h else Some h);
       h \<leftarrow> (if msi then give_back Msi h else Some h);
       h \<leftarrow> give_back Bar0 h;
       err_regions h }"

definition err_wq :: "int \<Rightarrow> bool \<Rightarrow> held set \<Rightarrow> held set option" where
  "err_wq irq msi h = do { h \<leftarrow> give_back Wq h; err_irq irq msi h }"

definition err_dma_cmdbuf :: "int \<Rightarrow> bool \<Rightarrow> held set \<Rightarrow> held set option" where
  "err_dma_cmdbuf irq msi h = do { h \<leftarrow> give_back Cmdbuf h; err_wq irq msi h }"

definition err_dma_framebuf :: "int \<Rightarrow> bool \<Rightarrow> held set \<Rightarrow> held set option" where
  "err_dma_framebuf irq msi h = do { h \<leftarrow> give_back Framebuf h; err_dma_cmdbuf irq msi h }"

subsection \<open>Probe and remove\<close>

text \<open>MSI first, then the legacy interrupt, then none: the number (0 for none) and whether MSI is on.\<close>

definition probe_irq :: "probe_answers \<Rightarrow> held set \<Rightarrow> (int \<times> bool \<times> held set) option" where
  "probe_irq A h =
     do {
       (irq, msi, h) \<leftarrow>
         (case pa_msi A of
            Inl _ \<Rightarrow> Some (0, False, h)
          | Inr _ \<Rightarrow>
              (case pa_msi_irq A of
                 Inr _ \<Rightarrow> Some (pa_msi_number A, True, insert Irq (insert Msi h))
               | Inl _ \<Rightarrow> do { h \<leftarrow> give_back Msi (insert Msi h); Some (0, False, h) }));
       if \<not> msi \<and> pa_legacy A > 0 then
         (case pa_legacy_irq A of
            Inr _ \<Rightarrow> Some (pa_legacy A, msi, insert Irq h)
          | Inl _ \<Rightarrow> Some (0, msi, h))
       else Some (irq, msi, h) }"

definition zeroed_adev :: "int \<Rightarrow> pci_device" where
  "zeroed_adev irq = \<lparr>d_irq = irq, op_completion = False, work_queued = False, operation_pending = False, last_command = 0,
     last_result = 0, operations_completed = 0, interrupts_received = 0, errors = 0, cmdbuf_phys = 0, cmdbuf_size = 0,
     framebuf_phys = 0, framebuf_size = 0\<rparr>"

text \<open>The answer, what is held, whether MSI is on, and the device as the driver left it.\<close>

type_synonym 'w probed = "(pci_device \<times> bool) res \<times> held set \<times> 'w"

definition failed :: "errno \<Rightarrow> 'w \<Rightarrow> held set option \<Rightarrow> 'w probed option" where
  "failed e w h = map_option (\<lambda>h. (Inl e, h, w)) h"

definition probe_buffers :: "'w pci_bus \<Rightarrow> probe_answers \<Rightarrow> int \<Rightarrow> bool \<Rightarrow> held set \<Rightarrow> 'w \<Rightarrow> 'w probed option" where
  "probe_buffers B A irq msi h w =
     (case pa_cmdbuf A of
        None \<Rightarrow> failed ENOMEM w (err_wq irq msi h)
      | Some cmdbuf \<Rightarrow>
          (let h = insert Cmdbuf h in
           case pa_framebuf A of
             None \<Rightarrow> failed ENOMEM w (err_dma_cmdbuf irq msi h)
           | Some framebuf \<Rightarrow>
               (let h = insert Framebuf h in
                case pa_misc A of
                  Inl e \<Rightarrow> failed e w (err_dma_framebuf irq msi h)
                | Inr _ \<Rightarrow>
                    Some (Inr ((zeroed_adev irq)\<lparr>cmdbuf_phys := cmdbuf, cmdbuf_size := 4 * 1024 * 1024,
                                 framebuf_phys := framebuf, framebuf_size := MMAP_SIZE\<rparr>, msi),
                          insert Misc h, bus_write B REG_CONTROL CTRL_ENABLE w))))"

definition pci_probe :: "'w pci_bus \<Rightarrow> probe_answers \<Rightarrow> held set \<Rightarrow> 'w \<Rightarrow> 'w probed option" where
  "pci_probe B A h w =
     (if \<not> pa_alloc A then Some (Inl ENOMEM, h, w)
      else
        (let h = insert Adev h in
         case pa_enable A of
           Inl e \<Rightarrow> failed e w (err_free h)
         | Inr _ \<Rightarrow>
             (let h = insert Enabled h in
              case pa_regions A of
                Inl e \<Rightarrow> failed e w (err_disable h)
              | Inr _ \<Rightarrow>
                  (let h = insert Regions h in
                   if \<not> pa_iomap A then failed ENOMEM w (err_regions h)
                   else do {
                     (irq, msi, h) \<leftarrow> probe_irq A (insert Bar0 h);
                     if \<not> pa_wq A then failed ENOMEM w (err_irq irq msi h)
                     else probe_buffers B A irq msi (insert Wq h) (snd (pci_reset B w)) }))))"

definition pci_remove :: "'w pci_bus \<Rightarrow> pci_device \<Rightarrow> bool \<Rightarrow> held set \<Rightarrow> 'w \<Rightarrow> (held set \<times> 'w) option" where
  "pci_remove B adev msi h w =
     do {
       h \<leftarrow> give_back Misc h;
       h \<leftarrow> give_back Cmdbuf h;
       h \<leftarrow> give_back Framebuf h;
       let w = bus_write B REG_CONTROL 0 w;
       h \<leftarrow> give_back Wq h;
       h \<leftarrow> (if d_irq adev \<noteq> 0 then give_back Irq h else Some h);
       h \<leftarrow> (if msi then give_back Msi h else Some h);
       h \<leftarrow> give_back Bar0 h;
       h \<leftarrow> give_back Regions h;
       h \<leftarrow> give_back Enabled h;
       h \<leftarrow> give_back Adev h;
       Some (h, w) }"

subsection \<open>All or nothing\<close>

text \<open>What the interrupt set-up holds, by the number and the mode it ends with.\<close>

definition irq_held :: "int \<Rightarrow> bool \<Rightarrow> held set \<Rightarrow> held set" where
  "irq_held irq msi h = (if irq \<noteq> 0 then {Irq} else {}) \<union> ((if msi then {Msi} else {}) \<union> h)"

lemma probe_irq_held:
  assumes "pa_msi_number A \<noteq> 0" "Msi \<notin> h" "Irq \<notin> h"
  shows "\<exists>irq msi. probe_irq A h = Some (irq, msi, irq_held irq msi h)"
proof -
  define first where "first = (case pa_msi A of Inl _ \<Rightarrow> Some (0, False, h)
      | Inr _ \<Rightarrow> (case pa_msi_irq A of Inr _ \<Rightarrow> Some (pa_msi_number A, True, insert Irq (insert Msi h))
                  | Inl _ \<Rightarrow> do { h \<leftarrow> give_back Msi (insert Msi h); Some (0, False, h) }))"
  have p: "probe_irq A h = do { (irq, msi, h) \<leftarrow> first;
      if \<not> msi \<and> pa_legacy A > 0 then (case pa_legacy_irq A of Inr _ \<Rightarrow> Some (pa_legacy A, msi, insert Irq h) | Inl _ \<Rightarrow> Some (0, msi, h))
      else Some (irq, msi, h) }"
    by (simp add: probe_irq_def first_def)
  have "first = Some (pa_msi_number A, True, insert Irq (insert Msi h)) \<or> first = Some (0, False, h)"
    using assms(2) by (cases "pa_msi A"; cases "pa_msi_irq A") (simp_all add: first_def)
  then show ?thesis
  proof
    assume "first = Some (pa_msi_number A, True, insert Irq (insert Msi h))"
    then show ?thesis using assms(1) by (intro exI [of _ "pa_msi_number A"] exI [of _ True]) (auto simp: p irq_held_def)
  next
    assume "first = Some (0, False, h)"
    then show ?thesis by (cases "pa_legacy_irq A") (auto simp: p irq_held_def)
  qed
qed

lemma undo_irq_held:
  assumes "Irq \<notin> h" "Msi \<notin> h"
  shows "(if irq \<noteq> 0 then give_back Irq (irq_held irq msi h) else Some (irq_held irq msi h)) =
      Some ((if msi then {Msi} else {}) \<union> h)"
    "(if msi then give_back Msi ((if msi then {Msi} else {}) \<union> h) else Some ((if msi then {Msi} else {}) \<union> h)) = Some h"
  using assms by (auto simp: irq_held_def give_back_def)

definition base_held :: "held set" where
  "base_held = insert Bar0 (insert Regions (insert Enabled {Adev}))"

lemma err_paths:
  "err_irq irq msi (irq_held irq msi base_held) = Some {}"
  "err_wq irq msi (insert Wq (irq_held irq msi base_held)) = Some {}"
  "err_dma_cmdbuf irq msi (insert Cmdbuf (insert Wq (irq_held irq msi base_held))) = Some {}"
  "err_dma_framebuf irq msi (insert Framebuf (insert Cmdbuf (insert Wq (irq_held irq msi base_held)))) = Some {}"
proof -
  have "Irq \<notin> base_held" "Msi \<notin> base_held" by (simp_all add: base_held_def)
  note u = undo_irq_held [OF this]
  have n: "Wq \<notin> irq_held irq msi base_held" "Cmdbuf \<notin> irq_held irq msi base_held" "Framebuf \<notin> irq_held irq msi base_held"
    by (auto simp: irq_held_def base_held_def)
  have b: "do { h \<leftarrow> give_back Bar0 base_held; err_regions h } = Some {}"
    by (simp add: base_held_def err_regions_def err_disable_def err_free_def)
  show 1: "err_irq irq msi (irq_held irq msi base_held) = Some {}"
    unfolding err_irq_def by (simp only: u Option.bind.simps b)
  show 2: "err_wq irq msi (insert Wq (irq_held irq msi base_held)) = Some {}" using n by (simp add: err_wq_def 1)
  show 3: "err_dma_cmdbuf irq msi (insert Cmdbuf (insert Wq (irq_held irq msi base_held))) = Some {}"
    using n by (simp add: err_dma_cmdbuf_def 2)
  show "err_dma_framebuf irq msi (insert Framebuf (insert Cmdbuf (insert Wq (irq_held irq msi base_held)))) = Some {}"
    using n by (simp add: err_dma_framebuf_def 3)
qed

lemma remove_gives_all:
  assumes "d_irq adev = irq" "h = insert Misc (insert Framebuf (insert Cmdbuf (insert Wq (irq_held irq msi base_held))))"
  shows "pci_remove B adev msi h w = Some ({}, bus_write B REG_CONTROL 0 w)"
proof -
  have "Irq \<notin> base_held" "Msi \<notin> base_held" by (simp_all add: base_held_def)
  note u = undo_irq_held [OF this]
  have n: "r \<notin> irq_held irq msi base_held" if "r \<in> {Wq, Cmdbuf, Framebuf, Misc}" for r
    using that by (auto simp: irq_held_def base_held_def)
  have b: "do { h \<leftarrow> give_back Bar0 base_held; h \<leftarrow> give_back Regions h; h \<leftarrow> give_back Enabled h; h \<leftarrow> give_back Adev h; Some (h, v) } = Some ({}, v)" for v
    by (simp add: base_held_def)
  have g: "give_back Misc h = Some (insert Framebuf (insert Cmdbuf (insert Wq (irq_held irq msi base_held))))"
    "give_back Cmdbuf (insert Framebuf (insert Cmdbuf (insert Wq (irq_held irq msi base_held)))) =
      Some (insert Framebuf (insert Wq (irq_held irq msi base_held)))"
    "give_back Framebuf (insert Framebuf (insert Wq (irq_held irq msi base_held))) = Some (insert Wq (irq_held irq msi base_held))"
    "give_back Wq (insert Wq (irq_held irq msi base_held)) = Some (irq_held irq msi base_held)"
    using n by (auto simp: assms(2) give_back_def)
  show ?thesis unfolding pci_remove_def Let_def assms(1) by (simp only: g u Option.bind.simps b)
qed

lemma probe_buffers_ok:
  "\<exists>r h w'. probe_buffers B A irq msi (insert Wq (irq_held irq msi base_held)) w = Some (r, h, w') \<and>
    (case r of Inl e \<Rightarrow> h = {}
     | Inr (adev, msi') \<Rightarrow> d_irq adev = irq \<and> msi' = msi \<and>
         h = insert Misc (insert Framebuf (insert Cmdbuf (insert Wq (irq_held irq msi base_held)))))"
  by (simp add: probe_buffers_def failed_def err_paths Let_def zeroed_adev_def split: option.splits sum.splits)

text \<open>
  C36. Probe and remove. Whatever the kernel answers, the driver's probe returns; when it fails, at any of
  its ten steps, it holds nothing, and it has given back each thing once; when it succeeds, removing the
  driver gives back everything, in an order in which nothing is given back twice.
\<close>

theorem protopciem_probe_all_or_nothing:
  assumes "pa_msi_number A \<noteq> 0"
  shows "\<exists>r h w'. pci_probe B A {} w = Some (r, h, w') \<and>
    (case r of
       Inl e \<Rightarrow> h = {}
     | Inr (adev, msi) \<Rightarrow> {Adev, Enabled, Regions, Bar0, Wq, Cmdbuf, Framebuf, Misc} \<subseteq> h \<and>
         (\<exists>w''. pci_remove B adev msi h w' = Some ({}, w'')))"
proof -
  obtain irq msi where i: "probe_irq A base_held = Some (irq, msi, irq_held irq msi base_held)"
    using probe_irq_held [OF assms, of base_held] by (auto simp: base_held_def)
  obtain rb hb wb where b: "probe_buffers B A irq msi (insert Wq (irq_held irq msi base_held)) (snd (pci_reset B w)) = Some (rb, hb, wb)"
    "case rb of Inl e \<Rightarrow> hb = {} | Inr (adev, msi') \<Rightarrow> d_irq adev = irq \<and> msi' = msi \<and>
       hb = insert Misc (insert Framebuf (insert Cmdbuf (insert Wq (irq_held irq msi base_held))))"
    using probe_buffers_ok [of B A irq msi "snd (pci_reset B w)"] by blast
  have ok: "case rb of Inl e \<Rightarrow> hb = {} | Inr (adev, msi) \<Rightarrow> {Adev, Enabled, Regions, Bar0, Wq, Cmdbuf, Framebuf, Misc} \<subseteq> hb \<and>
      (\<exists>w''. pci_remove B adev msi hb wb = Some ({}, w''))"
    using b(2) remove_gives_all [of _ irq hb msi B wb] by (auto simp: irq_held_def base_held_def split: sum.splits)
  have base: "insert Bar0 (insert Regions (insert Enabled {Adev})) = base_held" by (simp add: base_held_def)
  show ?thesis
  proof (cases "pa_alloc A \<and> \<not> isl (pa_enable A) \<and> \<not> isl (pa_regions A) \<and> pa_iomap A \<and> pa_wq A")
    case True
    then have "pci_probe B A {} w = Some (rb, hb, wb)"
      using i b(1) by (auto simp: pci_probe_def Let_def base isl_def split: sum.splits)
    with ok show ?thesis by blast
  next
    case False
    then have "\<exists>e. pci_probe B A {} w = Some (Inl e, {}, w)"
      using i by (auto simp: pci_probe_def Let_def base failed_def err_paths err_regions_def err_disable_def err_free_def split: sum.splits)
    then show ?thesis by auto
  qed
qed

text \<open>A kernel without room for the frame buffers, and a device whose registers all read 0.\<close>

definition pci_bus0 :: "unit pci_bus" where
  "pci_bus0 = \<lparr>bus_read = (\<lambda>_ w. (0, w)), bus_write = (\<lambda>_ _ w. w), bus_store = (\<lambda>_ _ w. w), bus_wait = (\<lambda>d w. Some (d, w))\<rparr>"

definition probe_answers0 :: probe_answers where
  "probe_answers0 = \<lparr>pa_alloc = True, pa_enable = Inr (), pa_regions = Inr (), pa_iomap = True, pa_msi = Inr (), pa_msi_number = 40,
     pa_msi_irq = Inl EBUSY, pa_legacy = 11, pa_legacy_irq = Inr (), pa_wq = True, pa_cmdbuf = Some 0x100000, pa_framebuf = None,
     pa_misc = Inr ()\<rparr>"

theorem protopciem_probe_all_or_nothing_witness:
  "\<exists>r h w'. pci_probe pci_bus0 probe_answers0 {} () = Some (r, h, w') \<and> r = Inl ENOMEM \<and> h = {}"
proof -
  obtain r h w' where r: "pci_probe pci_bus0 probe_answers0 {} () = Some (r, h, w')"
    "case r of Inl e \<Rightarrow> h = {} | Inr (adev, msi) \<Rightarrow> {Adev, Enabled, Regions, Bar0, Wq, Cmdbuf, Framebuf, Misc} \<subseteq> h \<and>
       (\<exists>w''. pci_remove pci_bus0 adev msi h w' = Some ({}, w''))"
    using protopciem_probe_all_or_nothing [of probe_answers0 pci_bus0 "()"] by (auto simp: probe_answers0_def)
  have "fst (the (pci_probe pci_bus0 probe_answers0 {} ())) = Inl ENOMEM"
    using r(1) by (auto simp: pci_probe_def probe_irq_def probe_buffers_def failed_def Let_def probe_answers0_def split: option.splits)
  then show ?thesis using r by auto
qed

end
