(* ===== verification/PageTables.thy ===== *)
theory PageTables
  imports Trace
begin

text \<open>
  Poisoning and restoring the kernel mapping of a traced range, as the RISC-V and the arm64 code do it
  (\<^verbatim>\<open>smptrace_arch_poison_pte\<close>, \<^verbatim>\<open>smptrace_arch_restore_pte\<close>; the two files differ only in how they
  walk the tables). Memory of page tables is a function from physical addresses of entries to values; a
  walk answers the address of the entry that maps an address, and its level.
\<close>

type_synonym tables = "u64 \<Rightarrow> u64"

type_synonym walk = "tables \<Rightarrow> u64 \<Rightarrow> (u64 \<times> pt_level) option"

definition PAGE_BYTES :: int where "PAGE_BYTES = 4096"

fun level2size :: "pt_level \<Rightarrow> int" where
  "level2size Level_PTE = PAGE_BYTES"
| "level2size Level_PMD = 2 ^ 21"
| "level2size Level_PUD = 2 ^ 30"

lemma level2size_pos [simp]: "level2size l > 0"
  by (cases l) (simp_all add: PAGE_BYTES_def)

text \<open>
  Poisoning saves every entry of the range and clears it; \<open>alloc n\<close> answers whether the record of the
  \<open>n\<close>-th entry could be allocated. A failure frees what was saved and leaves the entries cleared.
\<close>

function poison_loop :: "walk \<Rightarrow> (nat \<Rightarrow> bool) \<Rightarrow> u64 \<Rightarrow> int \<Rightarrow>
    smptrace_pte list \<Rightarrow> tables \<Rightarrow> unit res \<times> smptrace_pte list \<times> tables" where
  "poison_loop walk alloc va remain saved mem =
     (if remain \<le> 0 then (Inr (), saved, mem)
      else (case walk mem va of
              None \<Rightarrow> (Inl ENOENT, [], mem)
            | Some (e, level) \<Rightarrow>
                if \<not> alloc (length saved) then (Inl ENOMEM, [], mem)
                else poison_loop walk alloc (va + word_of_int (level2size level)) (remain - level2size level)
                       (saved @ [\<lparr>pte_va = va, pte_bits = mem e, pte_level = level\<rparr>]) (mem(e := 0))))"
  by pat_completeness auto
termination
proof (relation "measure (\<lambda>(_, _, _, remain, _, _). nat remain)")
  fix remain :: int and level
  assume "\<not> remain \<le> 0"
  then have "nat (remain - level2size level) < nat remain" using level2size_pos [of level] by simp
  then show "((walk, alloc, va', remain - level2size level, s', m'), walk, alloc, va, remain, s, m)
      \<in> measure (\<lambda>(_, _, _, remain, _, _). nat remain)" for walk alloc va' s' m' va s m
    by simp
qed simp

declare poison_loop.simps [simp del]

definition poison_pte :: "walk \<Rightarrow> (nat \<Rightarrow> bool) \<Rightarrow> tables poison_fun" where
  "poison_pte walk alloc m mem =
     (let (rc, saved, mem') = poison_loop walk alloc (map_va m) (sint (map_len m)) (ptes m) mem
      in (rc, m\<lparr>ptes := saved\<rparr>, mem'))"

text \<open>Restoring walks the range again and puts back what was saved for each address it finds an entry for.\<close>

function restore_loop :: "walk \<Rightarrow> u64 \<Rightarrow> int \<Rightarrow>
    smptrace_pte list \<Rightarrow> tables \<Rightarrow> tables" where
  "restore_loop walk va remain saved mem =
     (if remain \<le> 0 then mem
      else (case walk mem va of
              None \<Rightarrow> restore_loop walk (va + word_of_int PAGE_BYTES) (remain - PAGE_BYTES) saved mem
            | Some (e, level) \<Rightarrow>
                (case find (\<lambda>p. pte_va p = va) saved of
                   None \<Rightarrow> restore_loop walk (va + word_of_int (level2size level))
                             (remain - level2size level) saved mem
                 | Some orig \<Rightarrow> restore_loop walk (va + word_of_int (level2size level))
                             (remain - level2size level) (remove1 orig saved) (mem(e := pte_bits orig)))))"
  by pat_completeness auto
termination
proof (relation "measure (\<lambda>(_, _, remain, _, _). nat remain)")
  fix remain :: int and level
  assume "\<not> remain \<le> 0"
  then have "nat (remain - level2size level) < nat remain" using level2size_pos [of level] by simp
  then show "((walk, va', remain - level2size level, s', m'), walk, va, remain, s, m)
      \<in> measure (\<lambda>(_, _, remain, _, _). nat remain)" for walk va' s' m' va s m
    by simp
  then show "((walk, va', remain - level2size level, s', m'), walk, va, remain, s, m)
      \<in> measure (\<lambda>(_, _, remain, _, _). nat remain)" for walk va' s' m' va s m
    by simp
qed (simp_all add: PAGE_BYTES_def)

declare restore_loop.simps [simp del]

definition restore_pte :: "walk \<Rightarrow> tables restore_fun" where
  "restore_pte walk m mem = restore_loop walk (map_va m) (sint (map_len m)) (ptes m) mem"

subsection \<open>What a walk reads\<close>

text \<open>
  A walk depends on the entries on its path only. Entries that map a page are not on the path of the
  pages poisoned with them, where the tables are well-formed.
\<close>

definition pages_at :: "walk \<Rightarrow> (tables \<Rightarrow> u64 \<Rightarrow> u64 set) \<Rightarrow> tables \<Rightarrow> u64 \<Rightarrow> (nat \<Rightarrow> u64) \<Rightarrow> nat \<Rightarrow> bool" where
  "pages_at walk path mem va e n \<longleftrightarrow> (\<forall>k<n. walk mem (va + 4096 * of_nat k) = Some (e k, Level_PTE) \<and>
     (\<forall>j<n. e j \<notin> path mem (va + 4096 * of_nat k)))"

definition saved_pages :: "u64 \<Rightarrow> (nat \<Rightarrow> u64) \<Rightarrow> nat \<Rightarrow> smptrace_pte list" where
  "saved_pages va b n = map (\<lambda>k. \<lparr>pte_va = va + 4096 * of_nat k, pte_bits = b k, pte_level = Level_PTE\<rparr>) [0..<n]"

definition put_all :: "(nat \<Rightarrow> u64) \<Rightarrow> (nat \<Rightarrow> u64) \<Rightarrow> nat \<Rightarrow> tables \<Rightarrow> tables" where
  "put_all e b n mem = fold (\<lambda>k m. m(e k := b k)) [0..<n] mem"

lemma upt_0_Suc: "[0..<Suc n] = 0 # map Suc [0..<n]"
  by (simp add: map_Suc_upt upt_conv_Cons del: upt_Suc)

lemma saved_pages_Suc:
  "saved_pages va b (Suc n) = \<lparr>pte_va = va, pte_bits = b 0, pte_level = Level_PTE\<rparr> # saved_pages (va + 4096) (\<lambda>k. b (Suc k)) n"
  by (simp add: saved_pages_def upt_0_Suc algebra_simps del: upt_Suc)

lemma put_all_Suc: "put_all e b (Suc n) mem = put_all (\<lambda>k. e (Suc k)) (\<lambda>k. b (Suc k)) n (mem(e 0 := b 0))"
  by (simp add: put_all_def upt_0_Suc fold_map comp_def del: upt_Suc)

lemma put_all_0 [simp]: "put_all e b 0 mem = mem"
  by (simp add: put_all_def)

lemma put_all_other: "a \<notin> e ` {..<n} \<Longrightarrow> put_all e b n mem a = mem a"
  by (induction n) (auto simp: put_all_def lessThan_Suc)

lemma put_all_at: "inj_on e {..<n} \<Longrightarrow> k < n \<Longrightarrow> put_all e b n mem (e k) = b k"
proof (induction n)
  case (Suc n)
  then show ?case by (cases "k = n") (auto simp: put_all_def lessThan_Suc inj_on_def less_Suc_eq)
qed simp

lemma put_all_restore: "inj_on e {..<n} \<Longrightarrow> put_all e (\<lambda>k. mem (e k)) n (put_all e b n mem) = mem"
proof
  fix a
  assume inj: "inj_on e {..<n}"
  show "put_all e (\<lambda>k. mem (e k)) n (put_all e b n mem) a = mem a"
  proof (cases "a \<in> e ` {..<n}")
    case True
    then obtain k where "k < n" "a = e k" by auto
    then show ?thesis using put_all_at [OF inj] by simp
  qed (simp add: put_all_other)
qed

text \<open>The number of pages of a range: \<open>n\<close> pages cover it, and no fewer.\<close>

definition covers :: "nat \<Rightarrow> int \<Rightarrow> bool" where
  "covers n r \<longleftrightarrow> r \<le> 4096 * int n \<and> (0 < n \<longrightarrow> 4096 * (int n - 1) < r)"

lemma covers_Suc: "covers (Suc n) r \<Longrightarrow> 0 < r \<and> covers n (r - 4096)"
  by (auto simp: covers_def)

lemma covers_0: "covers 0 r \<Longrightarrow> r \<le> 0"
  by (simp add: covers_def)

locale page_walk =
  fixes walk :: walk and path :: "tables \<Rightarrow> u64 \<Rightarrow> u64 set"
  assumes path_local: "(\<And>e. e \<in> path mem va \<Longrightarrow> mem' e = mem e) \<Longrightarrow> walk mem' va = walk mem va \<and> path mem' va = path mem va"
begin

lemma pages_at_update:
  assumes "pages_at walk path mem va e n" "i < n"
  shows "pages_at walk path (mem(e i := x)) va e n"
proof -
  have "walk (mem(e i := x)) (va + 4096 * of_nat k) = walk mem (va + 4096 * of_nat k) \<and>
      path (mem(e i := x)) (va + 4096 * of_nat k) = path mem (va + 4096 * of_nat k)" if "k < n" for k
    using assms that by (intro path_local) (auto simp: pages_at_def)
  with assms(1) show ?thesis by (simp add: pages_at_def)
qed

lemma pages_at_head: "pages_at walk path mem va e (Suc n) \<Longrightarrow> walk mem va = Some (e 0, Level_PTE)"
  by (auto simp: pages_at_def dest: spec [of _ 0])

lemma pages_at_tail:
  assumes "pages_at walk path mem va e (Suc n)"
  shows "pages_at walk path (mem(e 0 := x)) (va + 4096) (\<lambda>k. e (Suc k)) n"
proof -
  have "pages_at walk path (mem(e 0 := x)) va e (Suc n)" using pages_at_update [OF assms] by simp
  then show ?thesis unfolding pages_at_def
    by (auto simp: algebra_simps dest: spec [of _ "Suc _"])
qed

lemma poison_run:
  assumes "pages_at walk path mem va e n" "inj_on e {..<n}" "covers n r" "\<forall>i. alloc i"
  shows "poison_loop walk alloc va r saved mem =
    (Inr (), saved @ saved_pages va (\<lambda>k. mem (e k)) n, put_all e (\<lambda>_. 0) n mem)"
  using assms(1-3)
proof (induction n arbitrary: va e r saved mem)
  case 0
  then show ?case using covers_0 by (simp add: poison_loop.simps [of walk] saved_pages_def)
next
  case (Suc n)
  note r = covers_Suc [OF Suc(4)]
  have inj: "inj_on (\<lambda>k. e (Suc k)) {..<n}" using Suc(3) by (auto simp: inj_on_def)
  have b: "(mem(e 0 := 0)) (e (Suc k)) = mem (e (Suc k))" if "k < n" for k
    using Suc(3) that by (auto simp: inj_on_def)
  have saved: "saved_pages (va + 4096) (\<lambda>k. (mem(e 0 := 0)) (e (Suc k))) n = saved_pages (va + 4096) (\<lambda>k. mem (e (Suc k))) n"
    unfolding saved_pages_def by (rule map_cong) (simp_all add: b del: fun_upd_apply)
  have alloc: "alloc (length saved)" using assms(4) by blast
  have "poison_loop walk alloc va r saved mem = poison_loop walk alloc (va + 4096) (r - 4096)
      (saved @ [\<lparr>pte_va = va, pte_bits = mem (e 0), pte_level = Level_PTE\<rparr>]) (mem(e 0 := 0))"
    using r by (subst poison_loop.simps) (simp add: pages_at_head [OF Suc(2)] alloc PAGE_BYTES_def del: fun_upd_apply)
  then show ?case
    using Suc(1) [OF pages_at_tail [OF Suc(2)] inj conjunct2 [OF r]]
    by (simp add: saved saved_pages_Suc put_all_Suc del: fun_upd_apply)
qed

lemma restore_run:
  assumes "pages_at walk path mem va e n" "covers n r"
  shows "restore_loop walk va r (saved_pages va b n) mem = put_all e b n mem"
  using assms
proof (induction n arbitrary: va e r b mem)
  case 0
  then show ?case using covers_0 by (simp add: restore_loop.simps [of walk])
next
  case (Suc n)
  note r = covers_Suc [OF Suc(3)]
  have "restore_loop walk va r (saved_pages va b (Suc n)) mem =
      restore_loop walk (va + 4096) (r - 4096) (saved_pages (va + 4096) (\<lambda>k. b (Suc k)) n) (mem(e 0 := b 0))"
    using r by (subst restore_loop.simps) (simp add: pages_at_head [OF Suc(2)] PAGE_BYTES_def saved_pages_Suc del: fun_upd_apply)
  then show ?case
    using Suc(1) [OF pages_at_tail [OF Suc(2)] conjunct2 [OF r]] by (simp add: put_all_Suc del: fun_upd_apply)
qed

lemma pages_at_put_all: "pages_at walk path mem va e n \<Longrightarrow> pages_at walk path (put_all e b n mem) va e n"
proof -
  assume a: "pages_at walk path mem va e n"
  have "pages_at walk path (put_all e b i mem) va e n" if "i \<le> n" for i
    using that by (induction i) (auto simp: a put_all_def intro: pages_at_update)
  then show ?thesis by simp
qed

text \<open>Restoring puts every page back.\<close>

lemma restore_poison:
  assumes "pages_at walk path mem (map_va m) e n" "inj_on e {..<n}" "covers n (sint (map_len m))" "\<forall>i. alloc i"
    and "ptes m = []"
  shows "\<exists>m' mem'. poison_pte walk alloc m mem = (Inr (), m', mem') \<and> (\<forall>k<n. mem' (e k) = 0) \<and> restore_pte walk m' mem' = mem"
  using restore_run [OF pages_at_put_all [OF assms(1)] assms(3)]
  by (simp add: poison_pte_def restore_pte_def poison_run [OF assms(1-4)] assms(5) put_all_at [OF assms(2)] put_all_restore [OF assms(2)])

end

text \<open>A range in one huge entry: once the entry is cleared the walk finds nothing there.\<close>

lemma restore_nothing:
  assumes "\<forall>k<n. walk mem (va + 4096 * of_nat k) = None" "covers n r"
  shows "restore_loop walk va r saved mem = mem"
  using assms
proof (induction n arbitrary: va r)
  case 0
  then show ?case using covers_0 by (simp add: restore_loop.simps [of walk])
next
  case (Suc n)
  have "walk mem va = None" using Suc(2) by (auto dest: spec [of _ 0])
  moreover have "\<forall>k<n. walk mem (va + 4096 + 4096 * of_nat k) = None"
    using Suc(2) by (auto simp: algebra_simps dest: spec [of _ "Suc _"])
  ultimately show ?case using Suc(1) [of "va + 4096" "r - 4096"] covers_Suc [OF Suc(3)]
    by (simp add: restore_loop.simps [of walk va] PAGE_BYTES_def)
qed

end
