(* ===== verification/Riscv.thy ===== *)
theory Riscv
  imports PageTables
begin

text \<open>
  The RISC-V side of the tracer (\<^verbatim>\<open>kernel/trace/arch/riscv/smptrace_arch.c\<close>): the walk of the page
  tables, poisoning and restoring a mapping, the decoder of loads and stores, and the emulation of a
  fault.
\<close>

subsection \<open>Page tables\<close>

definition riscv_pte_pa :: "u64 \<Rightarrow> u64" where
  "riscv_pte_pa pte = push_bit 12 (drop_bit 10 (pte AND 0x3FFFFFFFFFFC00))"

definition pte_present :: "u64 \<Rightarrow> bool" where
  "pte_present pte \<longleftrightarrow> pte AND 1 \<noteq> 0"

definition pte_leaf :: "u64 \<Rightarrow> bool" where
  "pte_leaf pte \<longleftrightarrow> pte AND (2 OR 8) \<noteq> 0"

definition entry_at :: "u64 \<Rightarrow> nat \<Rightarrow> u64 \<Rightarrow> u64" where
  "entry_at table shift va = table + 8 * (drop_bit shift va AND 0x1FF)"

text \<open>
  One level of the walk: an entry that is not valid ends it, a leaf is the answer with the level given,
  anything else is the next table.
\<close>

datatype walk_step = No_entry | Found u64 pt_level | Next u64

definition walk_level :: "tables \<Rightarrow> u64 \<Rightarrow> u64 \<Rightarrow> nat \<Rightarrow> pt_level \<Rightarrow> walk_step" where
  "walk_level mem va table shift level =
     (let e = entry_at table shift va; pte = mem e in
      if \<not> pte_present pte then No_entry else if pte_leaf pte then Found e level else Next (riscv_pte_pa pte))"

fun walk_levels :: "tables \<Rightarrow> u64 \<Rightarrow> (nat \<times> pt_level) list \<Rightarrow> u64 \<Rightarrow> (u64 \<times> pt_level) option" where
  "walk_levels mem va [] table = Some (entry_at table 12 va, Level_PTE)"
| "walk_levels mem va ((shift, level) # ls) table =
     (case walk_level mem va table shift level of
        No_entry \<Rightarrow> None
      | Found e l \<Rightarrow> Some (e, l)
      | Next t \<Rightarrow> walk_levels mem va ls t)"

definition riscv_levels :: "u64 \<Rightarrow> (nat \<times> pt_level) list" where
  "riscv_levels satp =
     (let mode = drop_bit 60 satp in
      (if mode \<ge> 10 then [(48, Level_PUD)] else []) @ (if mode \<ge> 9 then [(39, Level_PUD)] else []) @
      [(30, Level_PUD), (21, Level_PMD)])"

definition riscv_walk_pte :: "u64 \<Rightarrow> tables \<Rightarrow> u64 \<Rightarrow> (u64 \<times> pt_level) option" where
  "riscv_walk_pte satp mem va = walk_levels mem va (riscv_levels satp) (push_bit 12 (satp AND 0xFFFFFFFFFFF))"

definition riscv_poison_pte :: "u64 \<Rightarrow> (nat \<Rightarrow> bool) \<Rightarrow> tables poison_fun" where
  "riscv_poison_pte satp alloc = poison_pte (riscv_walk_pte satp) alloc"

definition riscv_restore_pte :: "u64 \<Rightarrow> tables restore_fun" where
  "riscv_restore_pte satp = restore_pte (riscv_walk_pte satp)"

subsection \<open>Poisoning and restoring\<close>

text \<open>The entries a walk reads.\<close>

fun walk_path :: "tables \<Rightarrow> u64 \<Rightarrow> (nat \<times> pt_level) list \<Rightarrow> u64 \<Rightarrow> u64 set" where
  "walk_path mem va [] table = {}"
| "walk_path mem va ((shift, level) # ls) table =
     insert (entry_at table shift va)
       (case walk_level mem va table shift level of Next t \<Rightarrow> walk_path mem va ls t | _ \<Rightarrow> {})"

definition riscv_path :: "u64 \<Rightarrow> tables \<Rightarrow> u64 \<Rightarrow> u64 set" where
  "riscv_path satp mem va = walk_path mem va (riscv_levels satp) (push_bit 12 (satp AND 0xFFFFFFFFFFF))"

lemma walk_levels_local:
  "(\<And>e. e \<in> walk_path mem va ls table \<Longrightarrow> mem' e = mem e) \<Longrightarrow>
    walk_levels mem' va ls table = walk_levels mem va ls table \<and> walk_path mem' va ls table = walk_path mem va ls table"
proof (induction ls arbitrary: table)
  case (Cons l ls)
  obtain shift level where l: "l = (shift, level)" by (cases l)
  have same: "walk_level mem' va table shift level = walk_level mem va table shift level"
  proof -
    have "mem' (entry_at table shift va) = mem (entry_at table shift va)" by (rule Cons(2)) (simp add: l)
    then show ?thesis by (simp add: walk_level_def)
  qed
  show ?case
  proof (cases "walk_level mem va table shift level")
    case (Next t)
    have "walk_levels mem' va ls t = walk_levels mem va ls t \<and> walk_path mem' va ls t = walk_path mem va ls t"
      by (rule Cons(1)) (rule Cons(2), simp add: l Next)
    then show ?thesis by (simp add: l same Next)
  qed (simp_all add: l same)
qed simp

interpretation riscv: page_walk "riscv_walk_pte satp" "riscv_path satp" for satp
  by unfold_locales (unfold riscv_walk_pte_def riscv_path_def, rule walk_levels_local)

text \<open>
  Restoring undoes poisoning, page by page. If the range is mapped by single pages whose entries
  are different ones and no entry of it lies on the walk to another page, poisoning clears all of them,
  so that every access faults, and restoring with what was saved gives back the very same page tables.
\<close>

theorem riscv_poison_roundtrip:
  assumes "pages_at (riscv_walk_pte satp) (riscv_path satp) mem (map_va m) e n" and "inj_on e {..<n}"
    and "covers n (sint (map_len m))" and "\<forall>i. alloc i" and "ptes m = []"
  shows "\<exists>m' mem'. riscv_poison_pte satp alloc m mem = (Inr (), m', mem') \<and> (\<forall>k<n. mem' (e k) = 0) \<and>
    riscv_restore_pte satp m' mem' = mem"
  using riscv.restore_poison [OF assms] by (simp add: riscv_poison_pte_def riscv_restore_pte_def)

text \<open>A three-level table that maps the first two pages.\<close>

definition satp0 :: u64 where "satp0 = 0x8000000000000001"

definition tables0 :: tables where
  "tables0 = (\<lambda>_. 0)(0x1000 := 0x801, 0x2000 := 0xC01, 0x3000 := 0x40000007, 0x3008 := 0x40000407)"

lemma satp0_levels: "riscv_levels satp0 = [(30, Level_PUD), (21, Level_PMD)]" "satp0 AND 0xFFFFFFFFFFF = 1"
  by (simp_all add: riscv_levels_def satp0_def Let_def)

theorem riscv_poison_roundtrip_witness:
  "\<exists>m' mem'. riscv_poison_pte satp0 (\<lambda>_. True) \<lparr>map_va = 0, map_len = 0x2000, map_pa = 0x100000, ptes = []\<rparr> tables0 =
      (Inr (), m', mem') \<and> mem' 0x3000 = 0 \<and> mem' 0x3008 = 0 \<and> riscv_restore_pte satp0 m' mem' = tables0"
proof -
  have two: "k < 2 \<longleftrightarrow> k = 0 \<or> k = 1" for k :: nat by auto
  have steps: "walk_level tables0 va 0x1000 30 Level_PUD = Next 0x2000" "walk_level tables0 va 0x2000 21 Level_PMD = Next 0x3000"
    if "va = 0 \<or> va = 4096" for va
    using that by (auto simp: walk_level_def entry_at_def tables0_def pte_present_def pte_leaf_def riscv_pte_pa_def)
  have walk: "riscv_walk_pte satp0 tables0 va = Some (entry_at 0x3000 12 va, Level_PTE)"
      "riscv_path satp0 tables0 va = {0x1000, 0x2000}" if "va = 0 \<or> va = 4096" for va
    using steps [OF that] that by (auto simp: riscv_walk_pte_def riscv_path_def satp0_levels entry_at_def)
  define m where "m = \<lparr>map_va = 0, map_len = 0x2000, map_pa = 0x100000, ptes = []\<rparr>"
  define e :: "nat \<Rightarrow> u64" where "e = (\<lambda>k. if k = 0 then 0x3000 else 0x3008)"
  have "pages_at (riscv_walk_pte satp0) (riscv_path satp0) tables0 (map_va m) e 2"
    unfolding pages_at_def two m_def e_def by (auto simp: walk entry_at_def)
  moreover have "inj_on e {..<2}" by (auto simp: inj_on_def e_def two split: if_splits)
  moreover have "covers 2 (sint (map_len m))" by (simp add: covers_def m_def)
  ultimately show ?thesis
    using riscv_poison_roundtrip [of satp0 tables0 m e 2 "\<lambda>_. True"] by (auto simp: m_def e_def two)
qed

subsection \<open>Huge pages\<close>

text \<open>Clearing a middle-level leaf ends every walk of its two megabytes there.\<close>

lemma entry_at_same: "drop_bit 21 va' = drop_bit 21 va \<Longrightarrow> 21 \<le> shift \<Longrightarrow> entry_at table shift va' = entry_at table shift va"
proof -
  assume "drop_bit 21 va' = drop_bit 21 va" "21 \<le> shift"
  moreover have "drop_bit shift x = drop_bit (shift - 21) (drop_bit 21 x)" if "21 \<le> shift" for x :: u64
    using that by (simp add: drop_bit_drop_bit)
  ultimately have "drop_bit shift va' = drop_bit shift va" by metis
  then show ?thesis by (simp add: entry_at_def)
qed

lemma huge_cleared:
  assumes "walk_levels mem va (upper @ [(21, Level_PMD)]) table = Some (e, Level_PMD)"
    and "\<forall>(shift, l)\<in>set upper. 21 \<le> shift \<and> l = Level_PUD" and "drop_bit 21 va' = drop_bit 21 va"
  shows "walk_levels (mem(e := 0)) va' (upper @ [(21, Level_PMD)]) table = None \<and> pte_leaf (mem e)"
  using assms(1,2)
proof (induction upper arbitrary: table)
  case Nil
  have "walk_level mem va table 21 Level_PMD = Found e Level_PMD"
    using Nil(1) by (cases "walk_level mem va table 21 Level_PMD") auto
  then have "e = entry_at table 21 va" "pte_leaf (mem e)" by (auto simp: walk_level_def Let_def split: if_splits)
  then show ?case by (simp add: walk_level_def entry_at_same [OF assms(3)] pte_present_def)
next
  case (Cons l upper)
  then obtain shift where l: "l = (shift, Level_PUD)" "21 \<le> shift" by (cases l) auto
  obtain t where t: "walk_level mem va table shift Level_PUD = Next t"
    using Cons(2) by (cases "walk_level mem va table shift Level_PUD") (auto simp: l walk_level_def Let_def split: if_splits)
  have ih: "walk_levels (mem(e := 0)) va' (upper @ [(21, Level_PMD)]) t = None \<and> pte_leaf (mem e)"
    using Cons t by (simp add: l del: fun_upd_apply)
  have "\<not> pte_leaf (mem (entry_at table shift va))" using t by (auto simp: walk_level_def Let_def split: if_splits)
  then have "entry_at table shift va \<noteq> e" using ih by auto
  then have "walk_level (mem(e := 0)) va' table shift Level_PUD = Next t"
    using t by (simp add: walk_level_def entry_at_same [OF assms(3) l(2)])
  then show ?case using ih by (simp add: l del: fun_upd_apply)
qed

lemma same_two_megabytes:
  fixes va :: u64
  assumes "take_bit 21 va = 0" "k < 512"
  shows "drop_bit 21 (va + 4096 * of_nat k) = drop_bit 21 va"
proof -
  have "unat (4096 * of_nat k :: u64) = 4096 * k" using assms(2) by (simp add: unat_word_ariths unat_of_nat)
  moreover have div: "2 ^ 21 dvd unat va" using assms(1)
    by (metis dvd_eq_mod_eq_0 take_bit_eq_mod unat_0 unsigned_take_bit_eq)
  moreover have "unat va < 2 ^ 64" using unsigned_less [of va] by simp
  ultimately have sum: "unat (va + 4096 * of_nat k) = unat va + 4096 * k"
    using assms(2) by (subst unat_word_ariths) (auto elim!: dvdE)
  have "(unat va + 4096 * k) div 2 ^ 21 = unat va div 2 ^ 21" using div assms(2) by (auto elim!: dvdE)
  then have "unat (drop_bit 21 (va + 4096 * of_nat k)) = unat (drop_bit 21 va)"
    by (simp only: unat_drop_bit sum)
  then show ?thesis by (simp only: unsigned_word_eqI)
qed

text \<open>
  A huge mapping is lost. If the traced range lies in a two-megabyte page, poisoning clears its one
  entry; restoring then walks the tables, finds no valid entry on the way, steps over the whole range page
  by page and puts nothing back: the entry stays clear although its old value, a leaf, was saved.
\<close>

theorem riscv_huge_page_lost:
  assumes "riscv_walk_pte satp mem (map_va m) = Some (e, Level_PMD)" and "take_bit 21 (map_va m) = 0"
    and "0 < sint (map_len m)" and "sint (map_len m) \<le> 2 ^ 21" and "\<forall>i. alloc i" and "ptes m = []"
  shows "\<exists>m' mem'. riscv_poison_pte satp alloc m mem = (Inr (), m', mem') \<and>
    ptes m' = [\<lparr>pte_va = map_va m, pte_bits = mem e, pte_level = Level_PMD\<rparr>] \<and>
    riscv_restore_pte satp m' mem' = mem(e := 0) \<and> mem e \<noteq> 0"
proof -
  define upper :: "(nat \<times> pt_level) list" where "upper = (if drop_bit 60 satp \<ge> 10 then [(48, Level_PUD)] else []) @
    (if drop_bit 60 satp \<ge> 9 then [(39, Level_PUD)] else []) @ [(30, Level_PUD)]"
  have levels: "riscv_levels satp = upper @ [(21, Level_PMD)]" by (simp add: riscv_levels_def upper_def Let_def)
  have up: "\<forall>(shift, l)\<in>set upper. 21 \<le> shift \<and> l = Level_PUD" by (auto simp: upper_def)
  note cleared = huge_cleared [OF assms(1) [unfolded riscv_walk_pte_def levels] up]
  have none: "\<forall>k<512. riscv_walk_pte satp (mem(e := 0)) (map_va m + 4096 * of_nat k) = None"
    using cleared same_two_megabytes [OF assms(2)] by (simp add: riscv_walk_pte_def levels del: fun_upd_apply)
  have leaf: "mem e \<noteq> 0" using cleared [OF refl] by (auto simp: pte_leaf_def)
  define n where "n = nat ((sint (map_len m) + 4095) div 4096)"
  have n: "n \<le> 512" "covers n (sint (map_len m))" using assms(3,4) by (auto simp: n_def covers_def)
  have "poison_loop (riscv_walk_pte satp) alloc (map_va m) (sint (map_len m)) [] mem =
      (Inr (), [\<lparr>pte_va = map_va m, pte_bits = mem e, pte_level = Level_PMD\<rparr>], mem(e := 0))"
    using assms(3-5) by (subst poison_loop.simps) (simp add: assms(1) poison_loop.simps [of _ _ _ "_ - _"])
  then show ?thesis
    using restore_nothing [of n "riscv_walk_pte satp" "mem(e := 0)" "map_va m"] none n leaf
    by (simp add: riscv_poison_pte_def poison_pte_def riscv_restore_pte_def restore_pte_def assms(6) del: fun_upd_apply)
qed

text \<open>The first two megabytes mapped by one entry.\<close>

definition tables1 :: tables where
  "tables1 = (\<lambda>_. 0)(0x1000 := 0x801, 0x2000 := 0x40000007)"

theorem riscv_huge_page_lost_witness:
  "\<exists>m' mem'. riscv_poison_pte satp0 (\<lambda>_. True) \<lparr>map_va = 0, map_len = 0x4000, map_pa = 0x100000, ptes = []\<rparr> tables1 =
      (Inr (), m', mem') \<and> tables1 0x2000 = 0x40000007 \<and> riscv_restore_pte satp0 m' mem' 0x2000 = 0"
proof -
  define m where "m = \<lparr>map_va = 0, map_len = 0x4000, map_pa = 0x100000, ptes = []\<rparr>"
  have steps: "walk_level tables1 0 0x1000 30 Level_PUD = Next 0x2000" "walk_level tables1 0 0x2000 21 Level_PMD = Found 0x2000 Level_PMD"
    by (simp_all add: walk_level_def entry_at_def tables1_def pte_present_def pte_leaf_def riscv_pte_pa_def)
  then have "riscv_walk_pte satp0 tables1 (map_va m) = Some (0x2000, Level_PMD)"
    by (simp add: riscv_walk_pte_def satp0_levels m_def)
  from riscv_huge_page_lost [OF this, of "\<lambda>_. True"] show ?thesis by (auto simp: m_def tables1_def)
qed

end
