(* ===== verification/InsnFields.thy ===== *)
theory InsnFields
  imports Prelude
begin

text \<open>
  Fields of instruction words, and the sign extension both emulators of the tracer compute by shifting
  up and down: what the decoder theories share.
\<close>

definition field :: "nat \<Rightarrow> nat \<Rightarrow> u32 \<Rightarrow> u32" where
  "field m n w = take_bit n (drop_bit m w)"

lemma field_or: "field m n (a OR b) = field m n a OR field m n b"
  by (simp add: field_def)

lemma field_above: "m + n \<le> k \<Longrightarrow> field m n (push_bit k x) = 0"
  by (rule bit_word_eqI) (auto simp: field_def bit_simps)

lemma field_below: "k + LENGTH('a) \<le> m \<Longrightarrow> field m n (push_bit k (ucast (x :: 'a::len word))) = 0"
  by (rule bit_word_eqI) (auto simp: field_def bit_simps dest: bit_imp_le_length)

lemma field_at: "LENGTH('a) = n \<Longrightarrow> m + n \<le> 32 \<Longrightarrow> field m n (push_bit m (ucast (x :: 'a::len word))) = ucast x"
  by (rule bit_word_eqI) (auto simp: field_def bit_simps dest: bit_imp_le_length)

lemma field_low:
  "LENGTH('a) = n \<Longrightarrow> n \<le> 32 \<Longrightarrow> field 0 n (ucast (x :: 'a::len word)) = ucast x"
  "LENGTH('a) \<le> m \<Longrightarrow> field m n (ucast (x :: 'a::len word)) = 0"
  by (rule bit_word_eqI; auto simp: field_def bit_simps dest: bit_imp_le_length)+

lemma field_const: "field m n 0 = 0" "field 0 2 2 = 2" "field 13 3 2 = 0" "field 7 5 2 = 0" "field 2 5 2 = 0"
  by (simp_all add: field_def)

lemma field_ucast: "m + n \<le> 16 \<Longrightarrow> field m n (ucast (ucast w :: u16)) = field m n w"
  by (rule bit_word_eqI) (auto simp: field_def bit_simps)

lemmas field_rules = field_or field_above field_below field_at field_low field_ucast

lemma and_fields:
  "w AND 3 = field 0 2 w" "w AND 0x7F = field 0 7 w" "drop_bit m w AND 7 = field m 3 w" "drop_bit m w AND 0x1F = field m 5 w"
  by (simp_all add: field_def take_bit_eq_mask mask_eq_exp_minus_1)

text \<open>The arithmetic shift that extends the sign of a value of \<open>sz\<close> bytes.\<close>

definition extend_sign :: "u32 \<Rightarrow> u64 \<Rightarrow> u64" where
  "extend_sign sz val = (let k = 64 - unat (sz * 8) in signed_drop_bit k (push_bit k val))"

lemma extend_sign_scast:
  "extend_sign 1 v = scast (ucast v :: u8)" "extend_sign 2 v = scast (ucast v :: u16)" "extend_sign 4 v = scast (ucast v :: u32)"
  by (rule bit_word_eqI; auto simp: extend_sign_def bit_simps)+

end
