(* ===== verification/RiscvInsn.thy ===== *)
theory RiscvInsn
  imports Riscv InsnFields
begin

text \<open>
  The second half of \<^verbatim>\<open>kernel/trace/arch/riscv/smptrace_arch.c\<close>: decoding loads and stores, emulating
  the faulting one, and the probe on the kernel's fault handler. The reference is a fragment of the ISA
  with its encoding, compressed instructions included, and the value a load gives to its register.

  Registers are numbered as in the instructions; the table of their offsets in \<open>struct pt_regs\<close> is
  that numbering. Reading an instruction from memory is an argument (\<open>copy_from_kernel_nofault\<close>).
\<close>

record riscv_ls_insn =
  ls_rd :: u32
  ls_rs2 :: u32
  ls_size :: u32
  is_store :: bool
  sign_extend :: bool

record rv_regs =
  gpr :: "nat \<Rightarrow> u64"
  epc :: u64
  badaddr :: u64
  cause :: u64
  from_user :: bool

definition riscv_get_reg :: "rv_regs \<Rightarrow> u32 \<Rightarrow> u64" where
  "riscv_get_reg regs regno = (if regno = 0 then 0 else gpr regs (unat regno))"

definition riscv_set_reg :: "rv_regs \<Rightarrow> u32 \<Rightarrow> u64 \<Rightarrow> rv_regs" where
  "riscv_set_reg regs regno val = (if regno = 0 then regs else regs\<lparr>gpr := (gpr regs)(unat regno := val)\<rparr>)"

definition ld_insn :: "u32 \<Rightarrow> u32 \<Rightarrow> bool \<Rightarrow> riscv_ls_insn" where
  "ld_insn rd sz sx = \<lparr>ls_rd = rd, ls_rs2 = 0, ls_size = sz, is_store = False, sign_extend = sx\<rparr>"

definition st_insn :: "u32 \<Rightarrow> u32 \<Rightarrow> riscv_ls_insn" where
  "st_insn rs2 sz = \<lparr>ls_rd = 0, ls_rs2 = rs2, ls_size = sz, is_store = True, sign_extend = False\<rparr>"

definition riscv_decode_rvc_ls_insn :: "u16 \<Rightarrow> riscv_ls_insn res" where
  "riscv_decode_rvc_ls_insn insn16 =
     (let w = ucast insn16 :: u32; op = w AND 0x3; funct3 = drop_bit 13 w AND 0x7;
          rp = drop_bit 2 w AND 0x7; rd = drop_bit 7 w AND 0x1F; rs2 = drop_bit 2 w AND 0x1F
      in if op = 0 then
           (if funct3 = 2 then Inr (ld_insn (8 + rp) 4 False)
            else if funct3 = 3 then Inr (ld_insn (8 + rp) 8 False)
            else if funct3 = 6 then Inr (st_insn (8 + rp) 4)
            else if funct3 = 7 then Inr (st_insn (8 + rp) 8)
            else Inl EINVAL)
         else if op = 2 then
           (if funct3 = 2 then Inr (ld_insn rd 4 False)
            else if funct3 = 3 then Inr (ld_insn rd 8 False)
            else if funct3 = 6 then Inr (st_insn rs2 4)
            else if funct3 = 7 then Inr (st_insn rs2 8)
            else Inl EINVAL)
         else Inl EINVAL)"

definition riscv_decode_ls_insn :: "u32 \<Rightarrow> riscv_ls_insn res" where
  "riscv_decode_ls_insn insn =
     (let opcode = insn AND 0x7F; funct3 = drop_bit 12 insn AND 0x7;
          rd = drop_bit 7 insn AND 0x1F; rs2 = drop_bit 20 insn AND 0x1F
      in if opcode = 0x03 then
           (if funct3 = 0 then Inr (ld_insn rd 1 True)
            else if funct3 = 1 then Inr (ld_insn rd 2 True)
            else if funct3 = 2 then Inr (ld_insn rd 4 True)
            else if funct3 = 3 then Inr (ld_insn rd 8 False)
            else if funct3 = 4 then Inr (ld_insn rd 1 False)
            else if funct3 = 5 then Inr (ld_insn rd 2 False)
            else if funct3 = 6 then Inr (ld_insn rd 4 False)
            else Inl EINVAL)
         else if opcode = 0x23 then
           (if funct3 = 0 then Inr (st_insn rs2 1)
            else if funct3 = 1 then Inr (st_insn rs2 2)
            else if funct3 = 2 then Inr (st_insn rs2 4)
            else if funct3 = 3 then Inr (st_insn rs2 8)
            else Inl EINVAL)
         else Inl EINVAL)"

definition emulate_riscv_fault ::
    "(u64 \<Rightarrow> u32 option) \<Rightarrow> smptrace_ctx \<Rightarrow> smptrace_map \<Rightarrow> u64 \<Rightarrow> rv_regs \<Rightarrow> (unit res \<times> smptrace_ctx \<times> rv_regs) option" where
  "emulate_riscv_fault code ctx m fault_va regs =
     (if from_user regs then Some (Inl EACCES, ctx, regs)
      else (case code (epc regs) of
              None \<Rightarrow> Some (Inl EFAULT, ctx, regs)
            | Some insn \<Rightarrow>
                (let is_rvc = insn AND 0x3 \<noteq> 0x3
                 in case (if is_rvc then riscv_decode_rvc_ls_insn (ucast insn) else riscv_decode_ls_insn insn) of
                      Inl _ \<Rightarrow> Some (Inl EINVAL, ctx, regs)
                    | Inr ls \<Rightarrow>
                        (let next_epc = epc regs + (if is_rvc then 2 else 4)
                         in if is_store ls
                            then (case smptrace_emulate_write ctx m fault_va (ls_size ls) (le64 (riscv_get_reg regs (ls_rs2 ls))) of
                                    None \<Rightarrow> None
                                  | Some ctx' \<Rightarrow> Some (Inr (), ctx', regs\<lparr>epc := next_epc\<rparr>))
                            else (case smptrace_emulate_read ctx m fault_va (ls_size ls) of
                                    None \<Rightarrow> None
                                  | Some (bs, ctx') \<Rightarrow>
                                      (let val = of_le bs;
                                           res = (if sign_extend ls then extend_sign (ls_size ls) val else val);
                                           regs' = (if ls_rd ls \<noteq> 0 then riscv_set_reg regs (ls_rd ls) res else regs)
                                       in Some (Inr (), ctx', regs'\<lparr>epc := next_epc\<rparr>)))))))"

text \<open>The probe: load and store page faults of the kernel only.\<close>

definition EXC_LOAD_PAGE_FAULT :: u64 where "EXC_LOAD_PAGE_FAULT = 13"
definition EXC_STORE_PAGE_FAULT :: u64 where "EXC_STORE_PAGE_FAULT = 15"

definition enter_riscv_handle_page_fault ::
    "(u64 \<Rightarrow> u32 option) \<Rightarrow> nat \<Rightarrow> smptrace_ctx \<Rightarrow> rv_regs \<Rightarrow> (bool \<times> smptrace_ctx \<times> rv_regs) option" where
  "enter_riscv_handle_page_fault code cpu ctx regs =
     (if cause regs \<noteq> EXC_LOAD_PAGE_FAULT \<and> cause regs \<noteq> EXC_STORE_PAGE_FAULT then Some (False, ctx, regs)
      else if from_user regs then Some (False, ctx, regs)
      else fault_body (emulate_riscv_fault code) cpu ctx (badaddr regs) regs)"

definition riscv_arch_activate :: "u64 \<Rightarrow> bool \<Rightarrow> unit res \<Rightarrow> unit res \<Rightarrow> unit res \<Rightarrow> smptrace_ctx \<Rightarrow> unit res \<times> smptrace_ctx" where
  "riscv_arch_activate satp ioremap_ok p1 p2 p3 ctx =
     (if satp = 0 then (Inl EINVAL, ctx) else arch_activate ioremap_ok p1 p2 p3 ctx)"

lemma emulate_riscv_config: "emulate_riscv_fault code ctx m va regs = Some (rc, ctx', regs') \<Longrightarrow> same_config ctx ctx'"
  by (auto simp: emulate_riscv_fault_def Let_def dest: emulate_write_Some emulate_read_Some
      split: option.splits sum.splits if_splits)

lemma emulate_riscv_fails: "emulate_riscv_fault code ctx m va regs = Some (Inl e, ctx', regs') \<Longrightarrow> ctx' = ctx \<and> regs' = regs"
  by (auto simp: emulate_riscv_fault_def Let_def split: option.splits sum.splits if_splits)

interpretation riscv_emulator: fault_emulator "emulate_riscv_fault code" for code
  by unfold_locales (blast dest: emulate_riscv_config emulate_riscv_fails)+

subsection \<open>The reference: a fragment of the ISA\<close>

text \<open>The instruction formats: fields from the most significant one down.\<close>

definition fmt32 :: "7 word \<Rightarrow> 5 word \<Rightarrow> 5 word \<Rightarrow> 3 word \<Rightarrow> 5 word \<Rightarrow> 7 word \<Rightarrow> u32" where
  "fmt32 f7 b c f3 d opc =
     push_bit 25 (ucast f7) OR push_bit 20 (ucast b) OR push_bit 15 (ucast c) OR push_bit 12 (ucast f3) OR
     push_bit 7 (ucast d) OR ucast opc"

definition fmt_cl :: "3 word \<Rightarrow> 3 word \<Rightarrow> 3 word \<Rightarrow> 2 word \<Rightarrow> 3 word \<Rightarrow> u16" where
  "fmt_cl f3 i3 r1 i2 r2 = ucast
     (push_bit 13 (ucast f3) OR push_bit 10 (ucast i3) OR push_bit 7 (ucast r1) OR push_bit 5 (ucast i2) OR
      push_bit 2 (ucast r2) OR ucast (0 :: 2 word) :: u32)"

definition fmt_ci :: "3 word \<Rightarrow> 1 word \<Rightarrow> 5 word \<Rightarrow> 5 word \<Rightarrow> u16" where
  "fmt_ci f3 i1 rd i5 = ucast
     (push_bit 13 (ucast f3) OR push_bit 12 (ucast i1) OR push_bit 7 (ucast rd) OR push_bit 2 (ucast i5) OR ucast (2 :: 2 word) :: u32)"

definition fmt_css :: "3 word \<Rightarrow> 6 word \<Rightarrow> 5 word \<Rightarrow> u16" where
  "fmt_css f3 i6 rs2 = ucast
     (push_bit 13 (ucast f3) OR push_bit 7 (ucast i6) OR push_bit 2 (ucast rs2) OR ucast (2 :: 2 word) :: u32)"

lemma fmt_fields:
  "field 0 7 (fmt32 f7 b c f3 d opc) = ucast opc" "field 12 3 (fmt32 f7 b c f3 d opc) = ucast f3"
  "field 7 5 (fmt32 f7 b c f3 d opc) = ucast d" "field 20 5 (fmt32 f7 b c f3 d opc) = ucast b"
  "field 0 2 (ucast (fmt_cl f3 i3 r1 i2 r2)) = 0" "field 13 3 (ucast (fmt_cl f3 i3 r1 i2 r2)) = ucast f3"
  "field 2 3 (ucast (fmt_cl f3 i3 r1 i2 r2)) = ucast r2"
  "field 0 2 (ucast (fmt_ci f3 i1 d i5)) = 2" "field 13 3 (ucast (fmt_ci f3 i1 d i5)) = ucast f3"
  "field 7 5 (ucast (fmt_ci f3 i1 d i5)) = ucast d"
  "field 0 2 (ucast (fmt_css f3 i6 b)) = 2" "field 13 3 (ucast (fmt_css f3 i6 b)) = ucast f3"
  "field 2 5 (ucast (fmt_css f3 i6 b)) = ucast b"
  by (simp_all only: fmt32_def fmt_cl_def fmt_ci_def fmt_css_def field_ucast field_or) (simp_all add: field_rules field_const)

datatype rv_load = LB | LH | LW | LD | LBU | LHU | LWU

datatype rv_store = SB | SH | SW | SD

text \<open>Destination or source register, base register, offset.\<close>

datatype rv_ls =
    Load rv_load "5 word" "5 word" "12 word"
  | Store rv_store "5 word" "5 word" "12 word"
  | C_LW "3 word" "3 word" "5 word"
  | C_LD "3 word" "3 word" "5 word"
  | C_SW "3 word" "3 word" "5 word"
  | C_SD "3 word" "3 word" "5 word"
  | C_LWSP "5 word" "6 word"
  | C_LDSP "5 word" "6 word"
  | C_SWSP "5 word" "6 word"
  | C_SDSP "5 word" "6 word"

fun load_f3 :: "rv_load \<Rightarrow> 3 word" where
  "load_f3 LB = 0" | "load_f3 LH = 1" | "load_f3 LW = 2" | "load_f3 LD = 3" | "load_f3 LBU = 4" | "load_f3 LHU = 5"
| "load_f3 LWU = 6"

fun store_f3 :: "rv_store \<Rightarrow> 3 word" where
  "store_f3 SB = 0" | "store_f3 SH = 1" | "store_f3 SW = 2" | "store_f3 SD = 3"

text \<open>An instruction word that encodes the instruction; the next one follows a compressed one in it.\<close>

fun encodes :: "rv_ls \<Rightarrow> u32 \<Rightarrow> bool" where
  "encodes (Load l rd rs1 imm) w = (w = fmt32 (ucast (drop_bit 5 imm)) (ucast imm) rs1 (load_f3 l) rd 0x03)"
| "encodes (Store s rs2 rs1 imm) w = (w = fmt32 (ucast (drop_bit 5 imm)) rs2 rs1 (store_f3 s) (ucast imm) 0x23)"
| "encodes (C_LW rd rs1 imm) w = (ucast w = fmt_cl 2 (ucast (drop_bit 2 imm)) rs1 (ucast imm) rd)"
| "encodes (C_LD rd rs1 imm) w = (ucast w = fmt_cl 3 (ucast (drop_bit 2 imm)) rs1 (ucast imm) rd)"
| "encodes (C_SW rs2 rs1 imm) w = (ucast w = fmt_cl 6 (ucast (drop_bit 2 imm)) rs1 (ucast imm) rs2)"
| "encodes (C_SD rs2 rs1 imm) w = (ucast w = fmt_cl 7 (ucast (drop_bit 2 imm)) rs1 (ucast imm) rs2)"
| "encodes (C_LWSP rd imm) w = (ucast w = fmt_ci 2 (ucast (drop_bit 5 imm)) rd (ucast imm))"
| "encodes (C_LDSP rd imm) w = (ucast w = fmt_ci 3 (ucast (drop_bit 5 imm)) rd (ucast imm))"
| "encodes (C_SWSP rs2 imm) w = (ucast w = fmt_css 6 imm rs2)"
| "encodes (C_SDSP rs2 imm) w = (ucast w = fmt_css 7 imm rs2)"

text \<open>
  What the instruction does with the bytes at the address: the register it loads, how many bytes, and
  the value made of them; or the register it stores and how many bytes. Registers of the short formats
  are \<open>x8\<close> to \<open>x15\<close>.
\<close>

datatype effect = Loads u32 u32 "u64 \<Rightarrow> u64" | Stores u32 u32

fun isa :: "rv_ls \<Rightarrow> effect" where
  "isa (Load LB rd rs1 imm) = Loads (ucast rd) 1 (\<lambda>v. scast (ucast v :: u8))"
| "isa (Load LH rd rs1 imm) = Loads (ucast rd) 2 (\<lambda>v. scast (ucast v :: u16))"
| "isa (Load LW rd rs1 imm) = Loads (ucast rd) 4 (\<lambda>v. scast (ucast v :: u32))"
| "isa (Load LD rd rs1 imm) = Loads (ucast rd) 8 id"
| "isa (Load LBU rd rs1 imm) = Loads (ucast rd) 1 id"
| "isa (Load LHU rd rs1 imm) = Loads (ucast rd) 2 id"
| "isa (Load LWU rd rs1 imm) = Loads (ucast rd) 4 id"
| "isa (Store SB rs2 rs1 imm) = Stores (ucast rs2) 1"
| "isa (Store SH rs2 rs1 imm) = Stores (ucast rs2) 2"
| "isa (Store SW rs2 rs1 imm) = Stores (ucast rs2) 4"
| "isa (Store SD rs2 rs1 imm) = Stores (ucast rs2) 8"
| "isa (C_LW rd rs1 imm) = Loads (8 + ucast rd) 4 (\<lambda>v. scast (ucast v :: u32))"
| "isa (C_LD rd rs1 imm) = Loads (8 + ucast rd) 8 id"
| "isa (C_SW rs2 rs1 imm) = Stores (8 + ucast rs2) 4"
| "isa (C_SD rs2 rs1 imm) = Stores (8 + ucast rs2) 8"
| "isa (C_LWSP rd imm) = Loads (ucast rd) 4 (\<lambda>v. scast (ucast v :: u32))"
| "isa (C_LDSP rd imm) = Loads (ucast rd) 8 id"
| "isa (C_SWSP rs2 imm) = Stores (ucast rs2) 4"
| "isa (C_SDSP rs2 imm) = Stores (ucast rs2) 8"

fun insn_bytes :: "rv_ls \<Rightarrow> u64" where
  "insn_bytes (Load _ _ _ _) = 4" | "insn_bytes (Store _ _ _ _) = 4" | "insn_bytes _ = 2"

fun word_compressed :: "rv_ls \<Rightarrow> bool" where
  "word_compressed (C_LW _ _ _) = True" | "word_compressed (C_LWSP _ _) = True" | "word_compressed _ = False"

definition isa_step :: "rv_ls \<Rightarrow> effect \<Rightarrow> smptrace_ctx \<Rightarrow> smptrace_map \<Rightarrow> u64 \<Rightarrow> rv_regs \<Rightarrow>
    (unit res \<times> smptrace_ctx \<times> rv_regs) option" where
  "isa_step i eff ctx m va regs =
     (case eff of
        Loads rd sz val \<Rightarrow>
          map_option (\<lambda>(bs, ctx'). (Inr (), ctx', (riscv_set_reg regs rd (val (of_le bs)))\<lparr>epc := epc regs + insn_bytes i\<rparr>))
            (smptrace_emulate_read ctx m va sz)
      | Stores rs2 sz \<Rightarrow>
          map_option (\<lambda>ctx'. (Inr (), ctx', regs\<lparr>epc := epc regs + insn_bytes i\<rparr>))
            (smptrace_emulate_write ctx m va sz (le64 (riscv_get_reg regs rs2))))"

text \<open>What the decoder makes of an encoded instruction.\<close>

fun decoded :: "effect \<Rightarrow> bool \<Rightarrow> riscv_ls_insn" where
  "decoded (Loads rd sz val) sx = ld_insn rd sz sx"
| "decoded (Stores rs2 sz) sx = st_insn rs2 sz"

fun extends :: "rv_ls \<Rightarrow> bool" where
  "extends (Load l _ _ _) = (l \<in> {LB, LH, LW})" | "extends _ = False"

lemma fmt32_low: "field 0 2 (fmt32 f7 b c f3 d opc) = take_bit 2 (ucast opc)"
proof -
  have "field 0 2 w = take_bit 2 (field 0 7 w)" for w by (simp add: field_def)
  then show ?thesis by (simp add: fmt_fields)
qed

lemma decode_encoded:
  assumes "encodes i w"
  shows "(w AND 3 \<noteq> 3) = (insn_bytes i = 2)"
    and "(if w AND 3 \<noteq> 3 then riscv_decode_rvc_ls_insn (ucast w) else riscv_decode_ls_insn w) = Inr (decoded (isa i) (extends i))"
proof -
  have rvc: "w AND 3 = field 0 2 (ucast u)" if "ucast w = u" for u :: u16
    using field_ucast [of 0 2 w] that by (simp add: and_fields)
  show low: "(w AND 3 \<noteq> 3) = (insn_bytes i = 2)"
    using assms rvc [OF refl] by (cases i) (simp_all add: and_fields fmt32_low fmt_fields)
  show "(if w AND 3 \<noteq> 3 then riscv_decode_rvc_ls_insn (ucast w) else riscv_decode_ls_insn w) = Inr (decoded (isa i) (extends i))"
  proof (cases i)
    case (Load l rd rs1 imm)
    then have "\<not> w AND 3 \<noteq> 3" using low by simp
    then show ?thesis using assms Load
      by (cases l) (simp_all add: riscv_decode_ls_insn_def Let_def and_fields fmt_fields ld_insn_def)
  next
    case (Store l rs2 rs1 imm)
    then have "\<not> w AND 3 \<noteq> 3" using low by simp
    then show ?thesis using assms Store
      by (cases l) (simp_all add: riscv_decode_ls_insn_def Let_def and_fields fmt_fields st_insn_def)
  qed (use assms low in \<open>simp_all add: riscv_decode_rvc_ls_insn_def Let_def and_fields fmt_fields\<close>)
qed

text \<open>The emulation runs the decoded instruction; compressed word loads keep the value as it is.\<close>

lemma emulate_decoded:
  assumes "encodes i w" and "code (epc regs) = Some w" and "\<not> from_user regs"
  shows "emulate_riscv_fault code ctx m va regs =
    isa_step i (case isa i of Loads rd sz val \<Rightarrow> Loads rd sz (if word_compressed i then id else val) | Stores r sz \<Rightarrow> Stores r sz)
      ctx m va regs"
proof -
  note d = decode_encoded [OF assms(1)]
  have len: "epc regs + (if w AND 3 \<noteq> 3 then 2 else 4) = epc regs + insn_bytes i"
    using d(1) by (cases i) auto
  have val: "(if extends i then extend_sign sz v else v) = (if word_compressed i then id else val) v"
    if "isa i = Loads rd sz val" for rd sz val v
    using that by (cases i rule: isa.cases) (auto simp: extend_sign_scast)
  show ?thesis
  proof (cases "isa i")
    case (Loads rd sz val)
    then show ?thesis
      using assms(2,3) d(2) len val [OF Loads]
      by (cases "extends i"; cases "word_compressed i")
        (simp_all add: emulate_riscv_fault_def Let_def ld_insn_def isa_step_def riscv_set_reg_def split: option.splits prod.splits)
  next
    case (Stores r sz)
    then show ?thesis
      using assms(2,3) d(2) len
      by (simp add: emulate_riscv_fault_def Let_def st_insn_def isa_step_def split: option.splits)
  qed
qed

text \<open>
  What the emulation does for a load or store of the integer registers: the effect of the ISA, but the two
  compressed word loads give the word without its sign.
\<close>

fun as_emulated :: "rv_ls \<Rightarrow> effect" where
  "as_emulated (C_LW rd rs1 imm) = Loads (8 + ucast rd) 4 id"
| "as_emulated (C_LWSP rd imm) = Loads (ucast rd) 4 id"
| "as_emulated i = isa i"

lemma as_emulated_isa:
  "as_emulated i = (case isa i of Loads rd sz val \<Rightarrow> Loads rd sz (if word_compressed i then id else val) | Stores r sz \<Rightarrow> Stores r sz)"
  by (cases i rule: isa.cases) simp_all

text \<open>
  The other instructions that access memory: floating-point loads and stores of any width, compressed ones
  included, and the atomic ones (\<open>LR\<close>, \<open>SC\<close> and the \<open>AMO\<close>s).
\<close>

datatype rv_other =
    F_Load "3 word" "5 word" "5 word" "12 word"
  | F_Store "3 word" "5 word" "5 word" "12 word"
  | Atomic "7 word" "3 word" "5 word" "5 word" "5 word"
  | C_FLD "3 word" "3 word" "5 word"
  | C_FSD "3 word" "3 word" "5 word"
  | C_FLDSP "5 word" "6 word"
  | C_FSDSP "5 word" "6 word"

fun encodes_other :: "rv_other \<Rightarrow> u32 \<Rightarrow> bool" where
  "encodes_other (F_Load f3 rd rs1 imm) w = (w = fmt32 (ucast (drop_bit 5 imm)) (ucast imm) rs1 f3 rd 0x07)"
| "encodes_other (F_Store f3 rs2 rs1 imm) w = (w = fmt32 (ucast (drop_bit 5 imm)) rs2 rs1 f3 (ucast imm) 0x27)"
| "encodes_other (Atomic f7 f3 rd rs1 rs2) w = (w = fmt32 f7 rs2 rs1 f3 rd 0x2f)"
| "encodes_other (C_FLD rd rs1 imm) w = (ucast w = fmt_cl 1 (ucast (drop_bit 2 imm)) rs1 (ucast imm) rd)"
| "encodes_other (C_FSD rs2 rs1 imm) w = (ucast w = fmt_cl 5 (ucast (drop_bit 2 imm)) rs1 (ucast imm) rs2)"
| "encodes_other (C_FLDSP rd imm) w = (ucast w = fmt_ci 1 (ucast (drop_bit 5 imm)) rd (ucast imm))"
| "encodes_other (C_FSDSP rs2 imm) w = (ucast w = fmt_css 5 imm rs2)"

lemma decode_other:
  assumes "encodes_other i w"
  shows "(if w AND 3 \<noteq> 3 then riscv_decode_rvc_ls_insn (ucast w) else riscv_decode_ls_insn w) = Inl EINVAL"
proof -
  have rvc: "w AND 3 = field 0 2 (ucast u)" if "ucast w = u" for u :: u16
    using field_ucast [of 0 2 w] that by (simp add: and_fields)
  show ?thesis
    using assms rvc [OF refl]
    by (cases i) (simp_all add: riscv_decode_ls_insn_def riscv_decode_rvc_ls_insn_def Let_def and_fields fmt32_low fmt_fields)
qed

lemma emulate_other:
  assumes "encodes_other i w" "code (epc regs) = Some w" "\<not> from_user regs"
  shows "emulate_riscv_fault code ctx m va regs = Some (Inl EINVAL, ctx, regs)"
  using decode_other [OF assms(1)] assms(2,3) by (simp add: emulate_riscv_fault_def)

text \<open>
  C27. The emulator against the processor, for every instruction that loads or stores. With any registers
  and any offset, the emulation of the fault of an integer load or store, 32-bit or compressed, does to
  registers, program counter and traced memory what the instruction does on real memory: the same register,
  the same number of bytes, the same extension of the sign, \<open>x0\<close> never written, and the program counter past
  the instruction by its own length. Two instructions differ, and only in the value: \<open>C.LW\<close> and \<open>C.LWSP\<close>
  give the word they read extended with zeros (\<open>as_emulated\<close>), where the ISA extends its sign. A
  floating-point or atomic access is not emulated: it is refused with \<open>EINVAL\<close>, and nothing changes.
\<close>

theorem riscv_emulation_matches_isa:
  assumes "code (epc regs) = Some w" and "\<not> from_user regs"
  shows "(encodes i w \<longrightarrow> emulate_riscv_fault code ctx m va regs = isa_step i (as_emulated i) ctx m va regs) \<and>
    (as_emulated i \<noteq> isa i \<longrightarrow> word_compressed i) \<and>
    (encodes_other j w \<longrightarrow> emulate_riscv_fault code ctx m va regs = Some (Inl EINVAL, ctx, regs))"
proof (intro conjI impI)
  show "emulate_riscv_fault code ctx m va regs = isa_step i (as_emulated i) ctx m va regs" if "encodes i w"
    unfolding as_emulated_isa by (rule emulate_decoded [where code = code, OF that assms])
  show "word_compressed i" if "as_emulated i \<noteq> isa i" using that by (cases i) simp_all
  show "emulate_riscv_fault code ctx m va regs = Some (Inl EINVAL, ctx, regs)" if "encodes_other j w"
    by (rule emulate_other [where code = code, OF that assms])
qed

definition ctx0 :: smptrace_ctx where
  "ctx0 = \<lparr>notif_read = True, notif_write = True, opaque = 0, ctx_pa = 0x100000, ctx_len = 0x2000, stop_writes = False,
     maps = [\<lparr>map_va = 0x5000, map_len = 0x2000, map_pa = 0x100000, ptes = []\<rparr>], shadow_mapped = True,
     shadow = (\<lambda>i. if i < 0x100 then 0x80 else 0), in_pf = (\<lambda>_. False), badarea_kp = True, iounmap_kp = True,
     ioremap_krp = True, io_calls = []\<rparr>"

definition regs0 :: rv_regs where
  "regs0 = \<lparr>gpr = (\<lambda>n. of_nat n), epc = 0x8000, badaddr = 0x5010, cause = 13, from_user = False\<rparr>"

lemma ctx0_read:
  "smptrace_emulate_read ctx0 (hd (maps ctx0)) 0x5010 2 =
     Some ([0x80, 0x80], ctx0\<lparr>io_calls := [(False, \<lparr>io_offset = 0x10, io_data = 0x8080, io_size = 2\<rparr>)]\<rparr>)"
  "smptrace_emulate_read ctx0 (hd (maps ctx0)) 0x5010 4 =
     Some ([0x80, 0x80, 0x80, 0x80], ctx0\<lparr>io_calls := [(False, \<lparr>io_offset = 0x10, io_data = 0x80808080, io_size = 4\<rparr>)]\<rparr>)"
  by (simp_all add: ctx0_def smptrace_emulate_read_def io_off_def io_outside_def notify_io_def fill_io_notif_def bytes_of_def
      of_le_def upt_conv_Cons Let_def)

text \<open>\<open>lh x7, 16(x5)\<close>, \<open>c.lw x9, 0(x8)\<close> and \<open>flw f1, 0(x5)\<close>.\<close>

theorem riscv_emulation_matches_isa_witness:
  "(\<exists>ctx'. emulate_riscv_fault (\<lambda>_. Some 0x01029383) ctx0 (hd (maps ctx0)) 0x5010 regs0 =
     Some (Inr (), ctx', regs0\<lparr>gpr := (gpr regs0)(7 := - 0x7F80), epc := 0x8004\<rparr>) \<and>
     io_calls ctx' = [(False, \<lparr>io_offset = 0x10, io_data = 0x8080, io_size = 2\<rparr>)]) \<and>
   (\<exists>ctx'. emulate_riscv_fault (\<lambda>_. Some 0x00004004) ctx0 (hd (maps ctx0)) 0x5010 regs0 =
     Some (Inr (), ctx', regs0\<lparr>gpr := (gpr regs0)(9 := 0x80808080), epc := 0x8002\<rparr>)) \<and>
   emulate_riscv_fault (\<lambda>_. Some 0x0002A087) ctx0 (hd (maps ctx0)) 0x5010 regs0 = Some (Inl EINVAL, ctx0, regs0)"
proof -
  have k: "\<not> from_user regs0" by (simp add: regs0_def)
  have enc: "encodes (Load LH 7 5 16) 0x01029383" "encodes (C_LW 1 0 0) 0x00004004" "encodes_other (F_Load 2 1 5 0) 0x0002A087"
    by (simp_all add: fmt32_def fmt_cl_def)
  note matches = riscv_emulation_matches_isa [OF _ k, where ctx = ctx0 and m = "hd (maps ctx0)" and va = "0x5010"]
  show ?thesis
    using matches [where code = "\<lambda>_. Some 0x01029383" and i = "Load LH 7 5 16"] matches [where code = "\<lambda>_. Some 0x00004004" and i = "C_LW 1 0 0"]
      matches [where code = "\<lambda>_. Some 0x0002A087" and j = "F_Load 2 1 5 0"] enc
    by (simp add: isa_step_def ctx0_read) (simp add: regs0_def riscv_set_reg_def of_le_def)
qed

text \<open>
  A compressed word load gives the wrong register. \<open>C.LW\<close> and \<open>C.LWSP\<close> extend the sign of the word
  in the ISA; the emulator extends it with zeros, so that the register differs from the real one exactly
  if the highest bit of the word read is set.
\<close>

theorem riscv_compressed_load_unsigned:
  assumes "encodes i w" and "code (epc regs) = Some w" and "\<not> from_user regs" and "isa i = Loads rd 4 val"
    and "word_compressed i" and "rd \<noteq> 0" and "smptrace_emulate_read ctx m va 4 = Some (bs, ctx')"
  shows "emulate_riscv_fault code ctx m va regs =
      Some (Inr (), ctx', regs\<lparr>gpr := (gpr regs)(unat rd := of_le bs), epc := epc regs + 2\<rparr>) \<and>
    (val (of_le bs) \<noteq> of_le bs \<longleftrightarrow> bit (of_le bs) 31)"
proof -
  have len: "length bs = 4" using emulate_read_Some(3) [OF assms(7)] by simp
  have high: "\<not> bit (of_le bs) j" if "32 \<le> j" for j using of_le_bit [of bs j] len that by auto
  have "val = (\<lambda>v. scast (ucast v :: u32))" "insn_bytes i = 2" using assms(4,5) by (cases i; simp)+
  moreover have "scast (ucast v :: u32) \<noteq> v \<longleftrightarrow> bit v 31" if "\<And>j. 32 \<le> j \<Longrightarrow> \<not> bit v j" for v :: u64
  proof
    assume "scast (ucast v :: u32) \<noteq> v"
    show "bit v 31"
    proof (rule ccontr)
      assume "\<not> bit v 31"
      then have "\<not> bit v j" if "31 \<le> j" for j using \<open>\<And>j. 32 \<le> j \<Longrightarrow> \<not> bit v j\<close> that by (cases "j = 31") auto
      then have "scast (ucast v :: u32) = v" by (intro bit_word_eqI) (auto simp: bit_simps not_less min_def)
      with \<open>scast (ucast v :: u32) \<noteq> v\<close> show False by blast
    qed
  next
    assume "bit v 31"
    then have "bit (scast (ucast v :: u32) :: u64) 40" by (simp add: bit_simps)
    moreover have "\<not> bit v 40" using that by simp
    ultimately show "scast (ucast v :: u32) \<noteq> v" by metis
  qed
  ultimately show ?thesis
    using emulate_decoded [of i w code regs ctx m va, OF assms(1-3)] assms(4-7) high
    by (simp add: isa_step_def riscv_set_reg_def)
qed

text \<open>\<open>c.lw x9, 0(x8)\<close>.\<close>

theorem riscv_compressed_load_unsigned_witness:
  "\<exists>ctx'. emulate_riscv_fault (\<lambda>_. Some 0x00004004) ctx0 (hd (maps ctx0)) 0x5010 regs0 =
     Some (Inr (), ctx', regs0\<lparr>gpr := (gpr regs0)(9 := 0x80808080), epc := 0x8002\<rparr>) \<and>
     (\<exists>val. isa (C_LW 1 0 0) = Loads 9 4 val \<and> val 0x80808080 = 0xFFFFFFFF80808080)"
proof -
  have enc: "encodes (C_LW 1 0 0) 0x00004004" by (simp add: fmt_cl_def)
  have val: "of_le [0x80, 0x80, 0x80, 0x80] = (0x80808080 :: u64)" by (simp add: of_le_def)
  have "isa (C_LW 1 0 0) = Loads 9 4 (\<lambda>v. scast (ucast v :: u32))" by simp
  with riscv_compressed_load_unsigned [OF enc, where code = "\<lambda>_. Some 0x00004004" and regs = regs0, OF _ _ this _ _ ctx0_read(2)]
  show ?thesis by (simp add: regs0_def val)
qed

end
