(* ===== verification/Arm64.thy ===== *)
theory Arm64
  imports PageTables InsnFields
begin

text \<open>
  The arm64 side of the tracer (\<^verbatim>\<open>kernel/trace/arch/arm64/smptrace_arch.c\<close>): the walk of the kernel
  page tables, the decoder of loads and stores with an immediate offset, the emulation of a fault with
  or without a valid syndrome, and the probe on \<^verbatim>\<open>__do_kernel_fault\<close>.

  The page-table macros of the kernel are the fields of \<open>pgtable_ops\<close>: where an entry is, from the
  address and value of the entry above it, and the tests on its value. Pages have 4 KiB.
\<close>

subsection \<open>Page tables\<close>

record pgtable_ops =
  pgd_offset :: "u64 \<Rightarrow> u64 \<Rightarrow> u64"
  p4d_offset :: "u64 \<Rightarrow> u64 \<Rightarrow> u64 \<Rightarrow> u64"
  pud_offset :: "u64 \<Rightarrow> u64 \<Rightarrow> u64 \<Rightarrow> u64"
  pmd_offset :: "u64 \<Rightarrow> u64 \<Rightarrow> u64 \<Rightarrow> u64"
  pte_offset :: "u64 \<Rightarrow> u64 \<Rightarrow> u64 \<Rightarrow> u64"
  entry_none :: "u64 \<Rightarrow> bool"
  pgd_bad :: "u64 \<Rightarrow> bool"
  p4d_bad :: "u64 \<Rightarrow> bool"
  pud_bad :: "u64 \<Rightarrow> bool"
  pmd_bad :: "u64 \<Rightarrow> bool"
  pud_sect :: "u64 \<Rightarrow> bool"
  pmd_sect :: "u64 \<Rightarrow> bool"

definition ttbr_to_phys :: "u64 \<Rightarrow> u64" where
  "ttbr_to_phys ttbr = (ttbr AND 0xFFFFFFFFF000) OR push_bit 46 (ttbr AND 0x3C)"

definition arm64_walk_pte :: "pgtable_ops \<Rightarrow> u64 \<Rightarrow> walk" where
  "arm64_walk_pte ops ttbr mem va =
     (let pgdp = pgd_offset ops (ttbr_to_phys ttbr) va; pgd = mem pgdp
      in if entry_none ops pgd \<or> pgd_bad ops pgd then None
         else (let p4dp = p4d_offset ops pgdp pgd va; p4d = mem p4dp
      in if entry_none ops p4d \<or> p4d_bad ops p4d then None
         else (let pudp = pud_offset ops p4dp p4d va; pud = mem pudp
      in if entry_none ops pud then None
         else if pud_sect ops pud then Some (pudp, Level_PUD)
         else if pud_bad ops pud then None
         else (let pmdp = pmd_offset ops pudp pud va; pmd = mem pmdp
      in if entry_none ops pmd then None
         else if pmd_sect ops pmd then Some (pmdp, Level_PMD)
         else if pmd_bad ops pmd then None
         else Some (pte_offset ops pmdp pmd va, Level_PTE)))))"

definition arm64_path :: "pgtable_ops \<Rightarrow> u64 \<Rightarrow> tables \<Rightarrow> u64 \<Rightarrow> u64 set" where
  "arm64_path ops ttbr mem va =
     (let pgdp = pgd_offset ops (ttbr_to_phys ttbr) va; p4dp = p4d_offset ops pgdp (mem pgdp) va;
          pudp = pud_offset ops p4dp (mem p4dp) va; pmdp = pmd_offset ops pudp (mem pudp) va
      in {pgdp, p4dp, pudp, pmdp})"

definition arm64_poison_pte :: "pgtable_ops \<Rightarrow> u64 \<Rightarrow> (nat \<Rightarrow> bool) \<Rightarrow> tables poison_fun" where
  "arm64_poison_pte ops ttbr alloc = poison_pte (arm64_walk_pte ops ttbr) alloc"

definition arm64_restore_pte :: "pgtable_ops \<Rightarrow> u64 \<Rightarrow> tables restore_fun" where
  "arm64_restore_pte ops ttbr = restore_pte (arm64_walk_pte ops ttbr)"

lemma arm64_walk_local:
  assumes "\<And>e. e \<in> arm64_path ops ttbr mem va \<Longrightarrow> mem' e = mem e"
  shows "arm64_walk_pte ops ttbr mem' va = arm64_walk_pte ops ttbr mem va \<and> arm64_path ops ttbr mem' va = arm64_path ops ttbr mem va"
proof -
  define a where "a = pgd_offset ops (ttbr_to_phys ttbr) va"
  define b where "b = p4d_offset ops a (mem a) va"
  define c where "c = pud_offset ops b (mem b) va"
  define d where "d = pmd_offset ops c (mem c) va"
  have "mem' a = mem a" "mem' b = mem b" "mem' c = mem c" "mem' d = mem d"
    by (intro assms; simp add: arm64_path_def Let_def a_def b_def c_def d_def)+
  then show ?thesis
    by (simp add: arm64_walk_pte_def arm64_path_def Let_def a_def [symmetric] b_def [symmetric] c_def [symmetric] d_def [symmetric])
qed

interpretation arm64: page_walk "arm64_walk_pte ops ttbr" "arm64_path ops ttbr" for ops ttbr
  by unfold_locales (rule arm64_walk_local)

text \<open>Page by page, restoring undoes poisoning here as well.\<close>

lemma arm64_restore_poison:
  assumes "pages_at (arm64_walk_pte ops ttbr) (arm64_path ops ttbr) mem (map_va m) e n" "inj_on e {..<n}"
    and "covers n (sint (map_len m))" "\<forall>i. alloc i" "ptes m = []"
  shows "\<exists>m' mem'. arm64_poison_pte ops ttbr alloc m mem = (Inr (), m', mem') \<and> (\<forall>k<n. mem' (e k) = 0) \<and>
    arm64_restore_pte ops ttbr m' mem' = mem"
  using arm64.restore_poison [OF assms] by (simp add: arm64_poison_pte_def arm64_restore_pte_def)

subsection \<open>Decoding\<close>

record arm64_ls_insn =
  a_rt :: u32
  a_rn :: u32
  a_size :: u32
  a_store :: bool
  a_sign :: bool
  a_sf :: bool
  post_index :: bool
  pre_index :: bool
  wb_delta :: u64

text \<open>The immediate of an unscaled access, sign-extended from nine bits.\<close>

definition imm9_delta :: "u32 \<Rightarrow> u64" where
  "imm9_delta insn = scast (signed_drop_bit 23 (push_bit 23 (drop_bit 12 insn AND 0x1FF)))"

text \<open>The addressing mode: post-index, pre-index and the change of the base register.\<close>

definition arm64_index :: "u32 \<Rightarrow> (bool \<times> bool \<times> u64) res" where
  "arm64_index insn =
     (let group = drop_bit 24 insn AND 0x3F; idx = drop_bit 10 insn AND 3
      in if group = 0x39 then Inr (False, False, 0)
         else if group = 0x38 \<and> drop_bit 21 insn AND 1 = 0 then
           (if idx = 0 then Inr (False, False, 0)
            else if idx = 1 \<or> idx = 3 then Inr (idx = 1, idx = 3, imm9_delta insn)
            else Inl EINVAL)
         else Inl EINVAL)"

text \<open>Store, sign extension and register width, from the size and operation fields together.\<close>

definition arm64_op :: "u32 \<Rightarrow> (bool \<times> bool \<times> bool) res" where
  "arm64_op k =
     (if k = 0x00 then Inr (True, False, True)
      else if k = 0x01 then Inr (False, False, True)
      else if k = 0x02 then Inr (False, True, True)
      else if k = 0x03 then Inr (False, True, False)
      else if k = 0x04 then Inr (True, False, True)
      else if k = 0x05 then Inr (False, False, True)
      else if k = 0x06 then Inr (False, True, True)
      else if k = 0x07 then Inr (False, True, False)
      else if k = 0x08 then Inr (True, False, True)
      else if k = 0x09 then Inr (False, False, False)
      else if k = 0x0A then Inr (False, True, True)
      else if k = 0x0C then Inr (True, False, True)
      else if k = 0x0D then Inr (False, False, True)
      else Inl EINVAL)"

definition arm64_decode_ls_insn :: "u32 \<Rightarrow> arm64_ls_insn res" where
  "arm64_decode_ls_insn insn =
     (if drop_bit 26 insn AND 1 \<noteq> 0 then Inl EINVAL
      else
        (let size_field = drop_bit 30 insn AND 3; opc = drop_bit 22 insn AND 3
         in case arm64_index insn of
              Inl e \<Rightarrow> Inl e
            | Inr (post, pre, delta) \<Rightarrow>
                (case arm64_op (push_bit 2 size_field OR opc) of
                   Inl e \<Rightarrow> Inl e
                 | Inr (st, sx, sf) \<Rightarrow>
                     Inr \<lparr>a_rt = insn AND 0x1F, a_rn = drop_bit 5 insn AND 0x1F, a_size = push_bit (unat size_field) 1,
                          a_store = st, a_sign = sx, a_sf = sf, post_index = post, pre_index = pre, wb_delta = delta\<rparr>)))"

subsection \<open>Emulation\<close>

record arm_regs =
  x_regs :: "nat \<Rightarrow> u64"
  arm_sp :: u64
  arm_pc :: u64
  arm_user :: bool

definition write_back :: "arm64_ls_insn \<Rightarrow> arm_regs \<Rightarrow> arm_regs" where
  "write_back ls regs =
     (if (pre_index ls \<or> post_index ls) \<and> a_rn ls \<noteq> 31
      then regs\<lparr>x_regs := (x_regs regs)(unat (a_rn ls) := x_regs regs (unat (a_rn ls)) + wb_delta ls)\<rparr>
      else regs)"

text \<open>The access itself, once register, size and extension are known.\<close>

definition arm64_access :: "u32 \<Rightarrow> u32 \<Rightarrow> bool \<Rightarrow> bool \<Rightarrow> bool \<Rightarrow> smptrace_ctx \<Rightarrow> smptrace_map \<Rightarrow> u64 \<Rightarrow> arm_regs \<Rightarrow>
    (unit res \<times> smptrace_ctx \<times> arm_regs) option" where
  "arm64_access srt sz store sse sf ctx m addr regs =
     (if store
      then (case smptrace_emulate_write ctx m addr sz (le64 (if srt = 31 then 0 else x_regs regs (unat srt))) of
              None \<Rightarrow> None
            | Some ctx' \<Rightarrow> Some (Inr (), ctx', regs\<lparr>arm_pc := arm_pc regs + 4\<rparr>))
      else (case smptrace_emulate_read ctx m addr sz of
              None \<Rightarrow> None
            | Some (bs, ctx') \<Rightarrow>
                (let val = of_le bs;
                     ext = (if sse then extend_sign sz val else val);
                     res = (if sf then ext else ucast (ucast ext :: u32));
                     regs' = (if srt = 31 then regs else regs\<lparr>x_regs := (x_regs regs)(unat srt := res)\<rparr>)
                 in Some (Inr (), ctx', regs'\<lparr>arm_pc := arm_pc regs + 4\<rparr>))))"

definition emulate_arm64_fault ::
    "(u64 \<Rightarrow> u32 option) \<Rightarrow> u64 \<Rightarrow> smptrace_ctx \<Rightarrow> smptrace_map \<Rightarrow> u64 \<Rightarrow> arm_regs \<Rightarrow> (unit res \<times> smptrace_ctx \<times> arm_regs) option" where
  "emulate_arm64_fault code esr ctx m fault_va regs =
     (if arm_user regs then Some (Inl EACCES, ctx, regs)
      else if bit esr 24
      then arm64_access (ucast (drop_bit 16 esr AND 0x1F)) (push_bit (unat (drop_bit 22 esr AND 3)) 1)
             (bit esr 6) (bit esr 21) (bit esr 15) ctx m fault_va regs
      else (case code (arm_pc regs) of
              None \<Rightarrow> Some (Inl EFAULT, ctx, regs)
            | Some insn \<Rightarrow>
                (case arm64_decode_ls_insn insn of
                   Inl _ \<Rightarrow> Some (Inl EINVAL, ctx, regs)
                 | Inr ls \<Rightarrow> arm64_access (a_rt ls) (a_size ls) (a_store ls) (a_sign ls) (a_sf ls) ctx m fault_va (write_back ls regs))))"

definition enter_do_kernel_fault ::
    "(u64 \<Rightarrow> u32 option) \<Rightarrow> nat \<Rightarrow> u64 \<Rightarrow> u64 \<Rightarrow> smptrace_ctx \<Rightarrow> arm_regs \<Rightarrow> (bool \<times> smptrace_ctx \<times> arm_regs) option" where
  "enter_do_kernel_fault code cpu fault_va esr ctx regs =
     (if drop_bit 26 esr AND 0x3F \<noteq> 0x25 then Some (False, ctx, regs)
      else fault_body (emulate_arm64_fault code esr) cpu ctx fault_va regs)"

definition arm64_arch_activate :: "bool \<Rightarrow> unit res \<Rightarrow> unit res \<Rightarrow> unit res \<Rightarrow> smptrace_ctx \<Rightarrow> unit res \<times> smptrace_ctx" where
  "arm64_arch_activate = arch_activate"

lemma arm64_access_cases:
  assumes "arm64_access srt sz store sse sf ctx m addr regs = Some (rc, ctx', regs')"
  shows "same_config ctx ctx'" "rc = Inr ()"
  using assms by (auto simp: arm64_access_def Let_def dest: emulate_write_Some emulate_read_Some split: option.splits if_splits)

lemma emulate_arm64_config: "emulate_arm64_fault code esr ctx m va regs = Some (rc, ctx', regs') \<Longrightarrow> same_config ctx ctx'"
  by (auto simp: emulate_arm64_fault_def dest: arm64_access_cases split: option.splits sum.splits if_splits)

lemma emulate_arm64_fails: "emulate_arm64_fault code esr ctx m va regs = Some (Inl e, ctx', regs') \<Longrightarrow> ctx' = ctx \<and> regs' = regs"
  by (auto simp: emulate_arm64_fault_def dest: arm64_access_cases(2) split: option.splits sum.splits if_splits)

interpretation arm64_emulator: fault_emulator "emulate_arm64_fault code esr" for code esr
  by unfold_locales (blast dest: emulate_arm64_config emulate_arm64_fails)+

end
