(* ===== verification/Arm64Insn.thy ===== *)
theory Arm64Insn
  imports Arm64
begin

text \<open>
  The reference for the arm64 emulator: loads and stores of general registers with an immediate offset,
  in their four addressing modes, with their encoding and their effect; the emulator agrees with it,
  except for what it does to the stack pointer.
\<close>

datatype arm_op =
    A_STRB | A_LDRB | A_LDRSB | A_LDRSBW | A_STRH | A_LDRH | A_LDRSH | A_LDRSHW | A_STRW | A_LDRW | A_LDRSW | A_STR | A_LDR

datatype arm_mode = Offset "12 word" | Unscaled "9 word" | Post "9 word" | Pre "9 word"

fun op_size :: "arm_op \<Rightarrow> 2 word" where
  "op_size A_STRB = 0" | "op_size A_LDRB = 0" | "op_size A_LDRSB = 0" | "op_size A_LDRSBW = 0"
| "op_size A_STRH = 1" | "op_size A_LDRH = 1" | "op_size A_LDRSH = 1" | "op_size A_LDRSHW = 1"
| "op_size A_STRW = 2" | "op_size A_LDRW = 2" | "op_size A_LDRSW = 2" | "op_size A_STR = 3" | "op_size A_LDR = 3"

fun op_opc :: "arm_op \<Rightarrow> 2 word" where
  "op_opc A_STRB = 0" | "op_opc A_LDRB = 1" | "op_opc A_LDRSB = 2" | "op_opc A_LDRSBW = 3"
| "op_opc A_STRH = 0" | "op_opc A_LDRH = 1" | "op_opc A_LDRSH = 2" | "op_opc A_LDRSHW = 3"
| "op_opc A_STRW = 0" | "op_opc A_LDRW = 1" | "op_opc A_LDRSW = 2" | "op_opc A_STR = 0" | "op_opc A_LDR = 1"

text \<open>Bits 29 to 24, and bits 21 to 10.\<close>

fun mode_group :: "arm_mode \<Rightarrow> 6 word" where
  "mode_group (Offset _) = 0x39" | "mode_group _ = 0x38"

fun mode_mid :: "arm_mode \<Rightarrow> 12 word" where
  "mode_mid (Offset imm) = imm"
| "mode_mid (Unscaled imm) = push_bit 2 (ucast imm) OR ucast (0 :: 2 word)"
| "mode_mid (Post imm) = push_bit 2 (ucast imm) OR ucast (1 :: 2 word)"
| "mode_mid (Pre imm) = push_bit 2 (ucast imm) OR ucast (3 :: 2 word)"

definition encode :: "arm_op \<Rightarrow> arm_mode \<Rightarrow> 5 word \<Rightarrow> 5 word \<Rightarrow> u32" where
  "encode i mode rn rt =
     push_bit 30 (ucast (op_size i)) OR push_bit 24 (ucast (mode_group mode)) OR push_bit 22 (ucast (op_opc i)) OR
     push_bit 10 (ucast (mode_mid mode)) OR push_bit 5 (ucast rn) OR ucast rt"

lemma encode_fields:
  "field 30 2 (encode i mode rn rt) = ucast (op_size i)" "field 24 6 (encode i mode rn rt) = ucast (mode_group mode)"
  "field 22 2 (encode i mode rn rt) = ucast (op_opc i)" "field 10 12 (encode i mode rn rt) = ucast (mode_mid mode)"
  "field 5 5 (encode i mode rn rt) = ucast rn" "field 0 5 (encode i mode rn rt) = ucast rt"
  unfolding encode_def by (simp_all only: field_or) (simp_all add: field_rules)

lemma sub_field: "k + n \<le> l \<Longrightarrow> field (m + k) n w = field k n (field m l w)"
  by (rule bit_word_eqI) (auto simp: field_def bit_simps ac_simps)

lemma sub_fields:
  "field 26 (Suc 0) w = field 2 (Suc 0) (field 24 6 w)" "field 10 2 w = field 0 2 (field 10 12 w)"
  "field 21 (Suc 0) w = field 11 (Suc 0) (field 10 12 w)" "field 12 9 w = field 2 9 (field 10 12 w)"
  using sub_field [of 2 1 6 24 w] sub_field [of 0 2 12 10 w] sub_field [of 11 1 12 10 w] sub_field [of 2 9 12 10 w] by simp_all

lemma mid_fields:
  fixes imm :: "9 word" and idx :: "2 word"
  shows "field 0 2 (ucast (push_bit 2 (ucast imm) OR ucast idx :: 12 word)) = ucast idx"
    "field 11 (Suc 0) (ucast (push_bit 2 (ucast imm) OR ucast idx :: 12 word)) = 0"
    "field 2 9 (ucast (push_bit 2 (ucast imm) OR ucast idx :: 12 word)) = ucast imm"
proof -
  have eq: "(ucast (push_bit 2 (ucast imm) OR ucast idx :: 12 word) :: u32) = push_bit 2 (ucast imm) OR ucast idx"
    by (rule bit_word_eqI) (auto simp: bit_simps dest: bit_imp_le_length)
  show "field 0 2 (ucast (push_bit 2 (ucast imm) OR ucast idx :: 12 word)) = ucast idx"
    "field 11 (Suc 0) (ucast (push_bit 2 (ucast imm) OR ucast idx :: 12 word)) = 0"
    "field 2 9 (ucast (push_bit 2 (ucast imm) OR ucast idx :: 12 word)) = ucast imm"
    unfolding eq by (simp_all only: field_or) (simp_all add: field_rules)
qed

lemmas mid_cases = mid_fields [where idx = 0, simplified] mid_fields [where idx = 1, simplified] mid_fields [where idx = 3, simplified]

lemma and_arm:
  "drop_bit m w AND 0x3F = field m 6 w" "drop_bit m w AND 3 = field m 2 w" "drop_bit m w AND 1 = field m (Suc 0) w"
  "drop_bit m w AND 0x1FF = field m 9 w" "w AND 0x1F = field 0 5 w" "field 0 n (drop_bit m w) = field m n w"
  by (simp_all add: field_def take_bit_eq_mask mask_eq_exp_minus_1)

text \<open>Bytes accessed, and for a load the value of the register.\<close>

fun op_bytes :: "arm_op \<Rightarrow> u32" where
  "op_bytes i = (if op_size i = 0 then 1 else if op_size i = 1 then 2 else if op_size i = 2 then 4 else 8)"

fun arm_value :: "arm_op \<Rightarrow> (u64 \<Rightarrow> u64) option" where
  "arm_value A_LDRB = Some id" | "arm_value A_LDRH = Some id" | "arm_value A_LDRW = Some id" | "arm_value A_LDR = Some id"
| "arm_value A_LDRSB = Some (\<lambda>v. scast (ucast v :: u8))"
| "arm_value A_LDRSBW = Some (\<lambda>v. ucast (scast (ucast v :: u8) :: u32))"
| "arm_value A_LDRSH = Some (\<lambda>v. scast (ucast v :: u16))"
| "arm_value A_LDRSHW = Some (\<lambda>v. ucast (scast (ucast v :: u16) :: u32))"
| "arm_value A_LDRSW = Some (\<lambda>v. scast (ucast v :: u32))"
| "arm_value _ = None"

fun mode_delta :: "arm_mode \<Rightarrow> u64 option" where
  "mode_delta (Post imm) = Some (scast imm)" | "mode_delta (Pre imm) = Some (scast imm)" | "mode_delta _ = None"

text \<open>Register 31 is the stack pointer as a base, and zero as data.\<close>

definition base_update :: "arm_mode \<Rightarrow> nat \<Rightarrow> arm_regs \<Rightarrow> arm_regs" where
  "base_update mode rn regs =
     (case mode_delta mode of
        None \<Rightarrow> regs
      | Some d \<Rightarrow> if rn = 31 then regs\<lparr>arm_sp := arm_sp regs + d\<rparr>
                  else regs\<lparr>x_regs := (x_regs regs)(rn := x_regs regs rn + d)\<rparr>)"

definition arm_isa_step :: "arm_op \<Rightarrow> arm_mode \<Rightarrow> 5 word \<Rightarrow> 5 word \<Rightarrow> smptrace_ctx \<Rightarrow> smptrace_map \<Rightarrow> u64 \<Rightarrow> arm_regs \<Rightarrow>
    (unit res \<times> smptrace_ctx \<times> arm_regs) option" where
  "arm_isa_step i mode rn rt ctx m va regs =
     (let after = (base_update mode (unat rn) regs)\<lparr>arm_pc := arm_pc regs + 4\<rparr>
      in case arm_value i of
           None \<Rightarrow> map_option (\<lambda>ctx'. (Inr (), ctx', after))
             (smptrace_emulate_write ctx m va (op_bytes i) (le64 (if rt = 31 then 0 else x_regs regs (unat rt))))
         | Some val \<Rightarrow> map_option (\<lambda>(bs, ctx'). (Inr (), ctx',
               if rt = 31 then after else after\<lparr>x_regs := (x_regs after)(unat rt := val (of_le bs))\<rparr>))
             (smptrace_emulate_read ctx m va (op_bytes i)))"

subsection \<open>The emulator agrees\<close>

lemma imm9_scast: "field 12 9 w = ucast (imm :: 9 word) \<Longrightarrow> imm9_delta w = scast imm"
  unfolding imm9_delta_def and_arm by (simp only:) (rule bit_word_eqI, auto simp: bit_simps)

lemma index_encoded:
  "arm64_index (encode i mode rn rt) = Inr (\<exists>imm. mode = Post imm, \<exists>imm. mode = Pre imm, case mode_delta mode of None \<Rightarrow> 0 | Some d \<Rightarrow> d)"
proof (cases mode)
  case (Post imm)
  then have "imm9_delta (encode i mode rn rt) = scast imm" by (intro imm9_scast) (simp add: sub_fields encode_fields mid_cases)
  then show ?thesis using Post by (simp add: arm64_index_def and_arm sub_fields encode_fields mid_cases Let_def)
next
  case (Pre imm)
  then have "imm9_delta (encode i mode rn rt) = scast imm" by (intro imm9_scast) (simp add: sub_fields encode_fields mid_cases)
  then show ?thesis using Pre by (simp add: arm64_index_def and_arm sub_fields encode_fields mid_cases Let_def)
next
  case (Unscaled imm)
  then show ?thesis by (simp add: arm64_index_def and_arm sub_fields encode_fields mid_cases Let_def)
qed (simp add: arm64_index_def and_arm encode_fields Let_def)

definition arm_decoded :: "arm_op \<Rightarrow> arm_mode \<Rightarrow> 5 word \<Rightarrow> 5 word \<Rightarrow> arm64_ls_insn" where
  "arm_decoded i mode rn rt = \<lparr>a_rt = ucast rt, a_rn = ucast rn, a_size = op_bytes i, a_store = (arm_value i = None),
     a_sign = (i \<in> {A_LDRSB, A_LDRSBW, A_LDRSH, A_LDRSHW, A_LDRSW}), a_sf = (i \<notin> {A_LDRSBW, A_LDRSHW, A_LDRW}),
     post_index = (\<exists>imm. mode = Post imm), pre_index = (\<exists>imm. mode = Pre imm),
     wb_delta = (case mode_delta mode of None \<Rightarrow> 0 | Some d \<Rightarrow> d)\<rparr>"

lemma decode_encode: "arm64_decode_ls_insn (encode i mode rn rt) = Inr (arm_decoded i mode rn rt)"
proof -
  have "field 26 (Suc 0) (encode i mode rn rt) = field 2 (Suc 0) (ucast (mode_group mode))" for i by (simp add: sub_fields encode_fields)
  then have v: "field 26 (Suc 0) (encode i mode rn rt) = 0" for i by (cases mode) (simp_all add: field_def)
  show ?thesis
    by (cases i) (simp_all add: arm64_decode_ls_insn_def and_arm v encode_fields index_encoded Let_def arm64_op_def arm_decoded_def)
qed

lemma reg31: "(ucast (r :: 5 word) :: u32) = 31 \<longleftrightarrow> r = 31" "unat (ucast (r :: 5 word) :: u32) = unat r"
    "unat (r :: 5 word) = 31 \<longleftrightarrow> r = 31"
proof -
  have "unat r < 2 ^ LENGTH(5)" by (rule unsigned_less)
  then have "unat r < 2 ^ 32" by simp
  then show u: "unat (ucast (r :: 5 word) :: u32) = unat r" by (simp add: unsigned_ucast_eq take_bit_nat_eq_self)
  have "unat (31 :: 5 word) = 31" by simp
  then show n: "unat r = 31 \<longleftrightarrow> r = 31" using unsigned_word_eqI [of r 31] by metis
  have "unat (31 :: u32) = 31" by simp
  then show "(ucast r :: u32) = 31 \<longleftrightarrow> r = 31" using unsigned_word_eqI [of "ucast r :: u32" 31] u n by metis
qed

lemma scast_narrow:
  "(ucast (scast (a :: u8) :: u64) :: u32) = scast a" "(ucast (scast (b :: u16) :: u64) :: u32) = scast b"
  by (rule bit_word_eqI; auto simp: bit_simps)+

text \<open>
  C26. The arm64 emulator is the processor, for all thirteen loads and stores of general registers with
  an immediate offset, in their four addressing modes and with any registers: without a valid syndrome the
  instruction is read and decoded, and registers, base register, program counter and traced memory are
  what the instruction makes of them. Excepted are write-back forms whose base is the stack pointer, which
  the code does not update, and those whose base is also the data register, which the architecture leaves
  unpredictable.
\<close>

theorem arm64_emulation_matches_isa:
  assumes "code (arm_pc regs) = Some (encode i mode rn rt)" and "\<not> bit esr 24" and "\<not> arm_user regs"
    and "mode_delta mode = None \<or> rn \<noteq> 31 \<and> rn \<noteq> rt"
  shows "emulate_arm64_fault code esr ctx m va regs = arm_isa_step i mode rn rt ctx m va regs"
proof -
  define ls where "ls = arm_decoded i mode rn rt"
  have wb: "write_back ls regs = base_update mode (unat rn) regs"
    using assms(4) by (cases mode) (auto simp: write_back_def ls_def arm_decoded_def base_update_def reg31)
  have run: "emulate_arm64_fault code esr ctx m va regs =
      arm64_access (ucast rt) (op_bytes i) (arm_value i = None) (a_sign ls) (a_sf ls) ctx m va (base_update mode (unat rn) regs)"
    using assms(1-3) by (simp add: emulate_arm64_fault_def decode_encode ls_def [symmetric] wb) (simp add: ls_def arm_decoded_def)
  have rt: "x_regs (base_update mode (unat rn) regs) (unat rt) = x_regs regs (unat rt)"
    using assms(4) unsigned_word_eqI [of rt rn] by (auto simp: base_update_def split: option.split)
  have pc: "arm_pc (base_update mode (unat rn) regs) = arm_pc regs"
    by (simp add: base_update_def split: option.split)
  have val: "(let ext = (if a_sign ls then extend_sign (op_bytes i) v else v) in if a_sf ls then ext else ucast (ucast ext :: u32)) = f v"
    if "arm_value i = Some f" "op_bytes i = 4 \<and> i = A_LDRW \<longrightarrow> ucast (ucast v :: u32) = v" for f v
    using that by (cases i) (auto simp: ls_def arm_decoded_def extend_sign_scast scast_narrow)
  show ?thesis
  proof (cases "arm_value i")
    case None
    then show ?thesis
      by (simp add: run arm64_access_def arm_isa_step_def reg31 rt pc Let_def split: option.splits)
  next
    case (Some f)
    have low: "ucast (ucast (of_le bs) :: u32) = of_le bs"
      if "op_bytes i = 4" "smptrace_emulate_read ctx m va (op_bytes i) = Some (bs, ctx')" for bs ctx'
    proof (rule bit_word_eqI)
      fix n :: nat
      have "length bs = 4" using emulate_read_Some(3) [OF that(2)] that(1) by simp
      then show "bit (ucast (ucast (of_le bs) :: u32) :: u64) n = bit (of_le bs) n"
        using of_le_bit [of bs n] by (auto simp: bit_simps)
    qed
    show ?thesis
    proof (cases "smptrace_emulate_read ctx m va (op_bytes i)")
      case (Some r)
      obtain bs ctx' where r: "r = (bs, ctx')" by (cases r)
      have "op_bytes i = 4 \<and> i = A_LDRW \<longrightarrow> ucast (ucast (of_le bs) :: u32) = of_le bs" using low Some r by blast
      note v = val [OF \<open>arm_value i = Some f\<close> this]
      show ?thesis using \<open>arm_value i = Some f\<close> Some v
        by (simp add: run r arm64_access_def arm_isa_step_def reg31 rt pc Let_def del: op_bytes.simps)
    qed (simp add: run arm64_access_def arm_isa_step_def \<open>arm_value i = Some f\<close> Let_def del: op_bytes.simps)
  qed
qed

definition arm_ctx0 :: smptrace_ctx where
  "arm_ctx0 = \<lparr>notif_read = True, notif_write = True, opaque = 0, ctx_pa = 0x100000, ctx_len = 0x2000, stop_writes = False,
     maps = [\<lparr>map_va = 0x5000, map_len = 0x2000, map_pa = 0x100000, ptes = []\<rparr>], shadow_mapped = True,
     shadow = (\<lambda>i. if i < 0x100 then 0x80 else 0), in_pf = (\<lambda>_. False), badarea_kp = True, iounmap_kp = True,
     ioremap_krp = True, io_calls = []\<rparr>"

definition arm_regs0 :: arm_regs where
  "arm_regs0 = \<lparr>x_regs = (\<lambda>n. of_nat n), arm_sp = 0x7000, arm_pc = 0x8000, arm_user = False\<rparr>"

text \<open>\<open>ldrsh w3, [x4], #-2\<close>.\<close>

theorem arm64_emulation_matches_isa_witness:
  "\<exists>ctx'. emulate_arm64_fault (\<lambda>_. Some (encode A_LDRSHW (Post (- 2)) 4 3)) 0x94000000 arm_ctx0 (hd (maps arm_ctx0)) 0x5010 arm_regs0 =
     Some (Inr (), ctx', arm_regs0\<lparr>x_regs := (x_regs arm_regs0)(4 := 2, 3 := 0xFFFF8080), arm_pc := 0x8004\<rparr>)"
proof -
  have rd: "smptrace_emulate_read arm_ctx0 (hd (maps arm_ctx0)) 0x5010 2 =
     Some ([0x80, 0x80], arm_ctx0\<lparr>io_calls := [(False, \<lparr>io_offset = 0x10, io_data = 0x8080, io_size = 2\<rparr>)]\<rparr>)"
    by (simp add: arm_ctx0_def smptrace_emulate_read_def io_off_def io_outside_def notify_io_def fill_io_notif_def bytes_of_def
        of_le_def upt_conv_Cons Let_def)
  have "emulate_arm64_fault (\<lambda>_. Some (encode A_LDRSHW (Post (- 2)) 4 3)) 0x94000000 arm_ctx0 (hd (maps arm_ctx0)) 0x5010 arm_regs0 =
      arm_isa_step A_LDRSHW (Post (- 2)) 4 3 arm_ctx0 (hd (maps arm_ctx0)) 0x5010 arm_regs0"
    by (rule arm64_emulation_matches_isa) (simp_all add: arm_regs0_def)
  then show ?thesis by (simp add: arm_isa_step_def rd Let_def) (simp add: arm_regs0_def base_update_def of_le_def)
qed

end
