(* ===== verification/X86Trace.thy ===== *)
theory X86Trace
  imports PageTables InsnFields
begin

text \<open>
  The x86 side of the tracer (\<^verbatim>\<open>kernel/trace/arch/x86/smptrace_arch.c\<close>) with the classification of
  memory instructions it relies on (\<open>insn_decode_mmio\<close> of \<^verbatim>\<open>lib/insn-eval.c\<close>). The instruction decoder
  itself, copied from Linux, is an argument: it answers the opcode bytes, the operand size, the immediate,
  the length, the register operand and the address operand of the instruction at an address.
  \<open>lookup_address\<close> and the encodings of absent entries are arguments too. \<open>None\<close> is \<open>BUG()\<close>.
\<close>

subsection \<open>Page tables\<close>

text \<open>The levels of \<open>lookup_address\<close>: 1 for 4 KiB, 2 for 2 MiB, 3 for 1 GiB; anything else is refused.\<close>

definition x86_level2size :: "nat \<Rightarrow> int option" where
  "x86_level2size level = (if level = 1 then Some 4096 else if level = 2 then Some (2 ^ 21) else if level = 3 then Some (2 ^ 30) else None)"

record x86_pte =
  x_va :: u64
  x_bits :: u64
  x_level :: nat

type_synonym x86_lookup = "tables \<Rightarrow> u64 \<Rightarrow> (u64 \<times> nat) option"

definition x86_poison_entry :: "(u64 \<Rightarrow> u64) \<Rightarrow> nat \<Rightarrow> u64 \<Rightarrow> u64" where
  "x86_poison_entry mkinvalid level bits = (if level = 1 then 0 else mkinvalid bits)"

function x86_poison_loop :: "x86_lookup \<Rightarrow> (u64 \<Rightarrow> u64) \<Rightarrow> (nat \<Rightarrow> bool) \<Rightarrow> u64 \<Rightarrow> int \<Rightarrow>
    x86_pte list \<Rightarrow> tables \<Rightarrow> unit res \<times> x86_pte list \<times> tables" where
  "x86_poison_loop lookup mkinvalid alloc va remain saved mem =
     (if remain \<le> 0 then (Inr (), saved, mem)
      else (case lookup mem va of
              None \<Rightarrow> (Inl ENOENT, [], mem)
            | Some (e, level) \<Rightarrow>
                if \<not> alloc (length saved) then (Inl ENOMEM, [], mem)
                else (case x86_level2size level of
                        None \<Rightarrow> (Inl EINVAL, [], mem)
                      | Some sz \<Rightarrow>
                          x86_poison_loop lookup mkinvalid alloc (va + word_of_int sz) (remain - sz)
                            (saved @ [\<lparr>x_va = va, x_bits = mem e, x_level = level\<rparr>])
                            (mem(e := x86_poison_entry mkinvalid level (mem e))))))"
  by pat_completeness auto
termination
  by (relation "measure (\<lambda>(_, _, _, _, remain, _, _). nat remain)") (auto simp: x86_level2size_def split: if_splits)

declare x86_poison_loop.simps [simp del]

text \<open>The step after a restored entry is the size of the level that was saved.\<close>

function x86_restore_loop :: "x86_lookup \<Rightarrow> u64 \<Rightarrow> int \<Rightarrow> x86_pte list \<Rightarrow> tables \<Rightarrow> tables option" where
  "x86_restore_loop lookup va remain saved mem =
     (if remain \<le> 0 then Some mem
      else (case lookup mem va of
              None \<Rightarrow> x86_restore_loop lookup (va + 4096) (remain - 4096) saved mem
            | Some (e, level) \<Rightarrow>
                (case find (\<lambda>p. x_va p = va) saved of
                   None \<Rightarrow>
                     (case x86_level2size level of
                        None \<Rightarrow> None
                      | Some sz \<Rightarrow> x86_restore_loop lookup (va + word_of_int sz) (remain - sz) saved mem)
                 | Some orig \<Rightarrow>
                     if x86_level2size level = None then Some mem
                     else (case x86_level2size (x_level orig) of
                             None \<Rightarrow> None
                           | Some sz \<Rightarrow> x86_restore_loop lookup (va + word_of_int sz) (remain - sz)
                                          (remove1 orig saved) (mem(e := x_bits orig))))))"
  by pat_completeness auto
termination
  by (relation "measure (\<lambda>(_, _, remain, _, _). nat remain)") (auto simp: x86_level2size_def split: if_splits)

declare x86_restore_loop.simps [simp del]

text \<open>Both start at the address of the mapping, with its length as a signed number.\<close>

definition x86_poison_pte :: "x86_lookup \<Rightarrow> (u64 \<Rightarrow> u64) \<Rightarrow> (nat \<Rightarrow> bool) \<Rightarrow> smptrace_map \<Rightarrow> tables \<Rightarrow>
    unit res \<times> x86_pte list \<times> tables" where
  "x86_poison_pte lookup mkinvalid alloc m mem = x86_poison_loop lookup mkinvalid alloc (map_va m) (sint (map_len m)) [] mem"

definition x86_restore_pte :: "x86_lookup \<Rightarrow> smptrace_map \<Rightarrow> x86_pte list \<Rightarrow> tables \<Rightarrow> tables option" where
  "x86_restore_pte lookup m saved mem = x86_restore_loop lookup (map_va m) (sint (map_len m)) saved mem"

subsection \<open>Decoding\<close>

record x86_insn =
  opcode_ok :: bool
  opcode0 :: u8
  opcode1 :: u8
  opnd_bytes :: u8
  immediate1 :: u32
  insn_length :: u8
  modrm_reg :: "nat option"

datatype insn_mmio_type =
    MMIO_DECODE_FAILED | MMIO_WRITE | MMIO_WRITE_IMM | MMIO_READ | MMIO_READ_ZERO_EXTEND | MMIO_READ_SIGN_EXTEND | MMIO_MOVS

definition insn_decode_mmio :: "x86_insn \<Rightarrow> insn_mmio_type \<times> u32" where
  "insn_decode_mmio i =
     (let op = opcode0 i; full = ucast (opnd_bytes i) in
      if \<not> opcode_ok i then (MMIO_DECODE_FAILED, 0)
      else if op = 0x88 then (MMIO_WRITE, 1)
      else if op = 0x89 then (MMIO_WRITE, full)
      else if op = 0xc6 then (MMIO_WRITE_IMM, 1)
      else if op = 0xc7 then (MMIO_WRITE_IMM, full)
      else if op = 0x8a then (MMIO_READ, 1)
      else if op = 0x8b then (MMIO_READ, full)
      else if op = 0xa4 then (MMIO_MOVS, 1)
      else if op = 0xa5 then (MMIO_MOVS, full)
      else if op = 0x0f then
        (if opcode1 i = 0xb6 then (MMIO_READ_ZERO_EXTEND, 1)
         else if opcode1 i = 0xb7 then (MMIO_READ_ZERO_EXTEND, 2)
         else if opcode1 i = 0xbe then (MMIO_READ_SIGN_EXTEND, 1)
         else if opcode1 i = 0xbf then (MMIO_READ_SIGN_EXTEND, 2)
         else (MMIO_DECODE_FAILED, 0))
      else (MMIO_DECODE_FAILED, 0))"

subsection \<open>Emulation\<close>

record x86_regs =
  gp :: "nat \<Rightarrow> u64"
  ip :: u64
  x86_user :: bool

text \<open>Stores of bytes into a register through a pointer: the other bytes stay.\<close>

definition put_low :: "u8 list \<Rightarrow> u64 \<Rightarrow> u64" where
  "put_low bs v = of_le (bs @ drop (length bs) (le64 v))"

definition set_gp :: "nat \<Rightarrow> u64 \<Rightarrow> x86_regs \<Rightarrow> x86_regs" where
  "set_gp r v regs = regs\<lparr>gp := (gp regs)(r := v)\<rparr>"

definition low_set :: "u8 list \<Rightarrow> nat \<Rightarrow> x86_regs \<Rightarrow> x86_regs" where
  "low_set bs r regs = set_gp r (put_low bs (gp regs r)) regs"

text \<open>A read into the register operand.\<close>

definition read_reg :: "smptrace_ctx \<Rightarrow> smptrace_map \<Rightarrow> u64 \<Rightarrow> u32 \<Rightarrow> nat \<Rightarrow> x86_regs \<Rightarrow> (smptrace_ctx \<times> x86_regs) option" where
  "read_reg ctx m addr sz r regs =
     map_option (\<lambda>(bs, ctx'). (ctx', low_set bs r regs)) (smptrace_emulate_read ctx m addr sz)"

definition x86_access :: "insn_mmio_type \<Rightarrow> u32 \<Rightarrow> x86_insn \<Rightarrow> nat \<Rightarrow> u64 \<Rightarrow> smptrace_ctx \<Rightarrow> smptrace_map \<Rightarrow> x86_regs \<Rightarrow>
    (smptrace_ctx \<times> x86_regs) res option" where
  "x86_access mmio sz i r addr ctx m regs =
     (case mmio of
        MMIO_WRITE \<Rightarrow> map_option (\<lambda>c. Inr (c, regs)) (smptrace_emulate_write ctx m addr sz (le64 (gp regs r)))
      | MMIO_WRITE_IMM \<Rightarrow>
          if sz > 4 then None
          else map_option (\<lambda>c. Inr (c, regs)) (smptrace_emulate_write ctx m addr sz (le32 (immediate1 i)))
      | MMIO_READ \<Rightarrow> map_option Inr (read_reg ctx m addr sz r (if sz = 4 then set_gp r 0 regs else regs))
      | MMIO_READ_ZERO_EXTEND \<Rightarrow>
          map_option Inr (read_reg ctx m addr sz r (low_set (replicate (unat (opnd_bytes i)) 0) r regs))
      | MMIO_READ_SIGN_EXTEND \<Rightarrow>
          (case smptrace_emulate_read ctx m addr sz of
             None \<Rightarrow> None
           | Some (bs, ctx1) \<Rightarrow>
               (let sign = (if bit (last bs) 7 then 0xff else 0)
                in map_option Inr (read_reg ctx1 m addr sz r (low_set (replicate (unat (opnd_bytes i)) sign) r regs))))
      | _ \<Rightarrow> Some (Inl ENOTSUPP))"

definition emulate_pf_instruction ::
    "(u64 \<Rightarrow> x86_insn res) \<Rightarrow> (x86_insn \<Rightarrow> x86_regs \<Rightarrow> u64) \<Rightarrow> smptrace_ctx \<Rightarrow> smptrace_map \<Rightarrow> u64 \<Rightarrow> x86_regs \<Rightarrow>
       (unit res \<times> smptrace_ctx \<times> x86_regs) option" where
  "emulate_pf_instruction decode addr_ref ctx m pf_va regs =
     (if x86_user regs then Some (Inl EACCES, ctx, regs)
      else (case decode (ip regs) of
              Inl e \<Rightarrow> Some (Inl e, ctx, regs)
            | Inr i \<Rightarrow>
                (let (mmio, sz) = insn_decode_mmio i in
                 if mmio = MMIO_DECODE_FAILED then Some (Inl EINVAL, ctx, regs)
                 else if mmio \<notin> {MMIO_WRITE_IMM, MMIO_MOVS} \<and> modrm_reg i = None then Some (Inl EINVAL, ctx, regs)
                 else (case x86_access mmio sz i (case modrm_reg i of None \<Rightarrow> 0 | Some r \<Rightarrow> r) (addr_ref i regs) ctx m regs of
                         None \<Rightarrow> None
                       | Some (Inl e) \<Rightarrow> Some (Inl e, ctx, regs)
                       | Some (Inr (ctx', regs')) \<Rightarrow> Some (Inr (), ctx', regs'\<lparr>ip := ip regs + ucast (insn_length i)\<rparr>)))))"

definition enter_badarea ::
    "(u64 \<Rightarrow> x86_insn res) \<Rightarrow> (x86_insn \<Rightarrow> x86_regs \<Rightarrow> u64) \<Rightarrow> nat \<Rightarrow> u64 \<Rightarrow> smptrace_ctx \<Rightarrow> x86_regs \<Rightarrow>
       (bool \<times> smptrace_ctx \<times> x86_regs) option" where
  "enter_badarea decode addr_ref cpu pf_va ctx regs = fault_body (emulate_pf_instruction decode addr_ref) cpu ctx pf_va regs"

definition x86_arch_activate :: "bool \<Rightarrow> unit res \<Rightarrow> unit res \<Rightarrow> unit res \<Rightarrow> smptrace_ctx \<Rightarrow> unit res \<times> smptrace_ctx" where
  "x86_arch_activate = arch_activate"

lemma x86_access_config: "x86_access mmio sz i r addr ctx m regs = Some (Inr (ctx', regs')) \<Longrightarrow> same_config ctx ctx'"
  by (auto simp: x86_access_def read_reg_def Let_def dest: emulate_write_Some emulate_read_Some
      split: insn_mmio_type.splits if_splits option.splits intro: same_config_trans dest!: emulate_read_Some(1))

lemma emulate_pf_config:
  "emulate_pf_instruction decode addr_ref ctx m va regs = Some (rc, ctx', regs') \<Longrightarrow> same_config ctx ctx'"
  by (auto simp: emulate_pf_instruction_def Let_def split: if_splits sum.splits option.splits prod.splits dest: x86_access_config)

lemma emulate_pf_fails:
  "emulate_pf_instruction decode addr_ref ctx m va regs = Some (Inl e, ctx', regs') \<Longrightarrow> ctx' = ctx \<and> regs' = regs"
  by (auto simp: emulate_pf_instruction_def Let_def split: if_splits sum.splits option.splits prod.splits)

interpretation x86_emulator: fault_emulator "emulate_pf_instruction decode addr_ref" for decode addr_ref
  by unfold_locales (blast dest: emulate_pf_config emulate_pf_fails)+

end
