(* ===== verification/X86Insn.thy ===== *)
theory X86Insn
  imports X86Trace
begin

text \<open>
  The x86 emulator against the instruction set: the MOV, MOVZX and MOVSX forms that access memory, as the
  architecture describes them, and where \<open>emulate_pf_instruction\<close> agrees with them.
\<close>

subsection \<open>Bytes of a register\<close>

lemma of_le_bits: "length bs \<le> 8 \<Longrightarrow> n < 8 * length bs \<Longrightarrow> bit (of_le bs) n = bit (bs ! (n div 8)) (n mod 8)"
  using of_le_nth [of bs "n div 8", symmetric] by (simp add: bit_simps less_mult_imp_div_less mult.commute)

lemma put_low_bit:
  assumes "length bs \<le> 8" "n < 64"
  shows "bit (put_low bs v) n = (if n < 8 * length bs then bit (of_le bs) n else bit v n)"
proof -
  have k: "n div 8 < 8" "length (bs @ drop (length bs) (le64 v)) = 8" using assms by auto
  have "bit (put_low bs v) n = bit ((bs @ drop (length bs) (le64 v)) ! (n div 8)) (n mod 8)"
    unfolding put_low_def using assms k by (subst of_le_bits) simp_all
  moreover have "bit (le64 v ! (n div 8)) (n mod 8) = bit v n"
    using k(1) by (simp add: le64_def bit_simps)
  ultimately show ?thesis
    using assms k(1) by (auto simp: nth_append of_le_bits less_mult_imp_div_less mult.commute div_less_iff_less_mult)
qed

subsection \<open>The instruction set\<close>

text \<open>
  Stores of a register or an immediate, loads of so many bytes into a register operand of so many bytes,
  with or without the sign. A register operand of 4 bytes clears the upper half of the register, one of
  1 or 2 bytes leaves the rest of it.
\<close>

datatype x86_mov = Mov_store nat | Mov_store_imm nat | Mov_load nat nat bool

datatype x86_op = MOV_mr8 | MOV_mr | MOV_mi8 | MOV_mi | MOV_rm8 | MOV_rm | MOVZX8 | MOVZX16 | MOVSX8 | MOVSX16

fun op_code :: "x86_op \<Rightarrow> u8 \<times> u8 option" where
  "op_code MOV_mr8 = (0x88, None)" | "op_code MOV_mr = (0x89, None)"
| "op_code MOV_mi8 = (0xc6, None)" | "op_code MOV_mi = (0xc7, None)"
| "op_code MOV_rm8 = (0x8a, None)" | "op_code MOV_rm = (0x8b, None)"
| "op_code MOVZX8 = (0x0f, Some 0xb6)" | "op_code MOVZX16 = (0x0f, Some 0xb7)"
| "op_code MOVSX8 = (0x0f, Some 0xbe)" | "op_code MOVSX16 = (0x0f, Some 0xbf)"

text \<open>The effect with an operand size of \<open>w\<close> bytes.\<close>

fun x86_effect :: "x86_op \<Rightarrow> nat \<Rightarrow> x86_mov" where
  "x86_effect MOV_mr8 w = Mov_store 1" | "x86_effect MOV_mr w = Mov_store w"
| "x86_effect MOV_mi8 w = Mov_store_imm 1" | "x86_effect MOV_mi w = Mov_store_imm w"
| "x86_effect MOV_rm8 w = Mov_load 1 1 False" | "x86_effect MOV_rm w = Mov_load w w False"
| "x86_effect MOVZX8 w = Mov_load 1 w False" | "x86_effect MOVZX16 w = Mov_load 2 w False"
| "x86_effect MOVSX8 w = Mov_load 1 w True" | "x86_effect MOVSX16 w = Mov_load 2 w True"

definition x86_encodes :: "x86_insn \<Rightarrow> x86_op \<Rightarrow> nat \<Rightarrow> bool" where
  "x86_encodes i op w \<longleftrightarrow> opcode_ok i \<and> unat (opnd_bytes i) = w \<and> opcode0 i = fst (op_code op) \<and>
     (case snd (op_code op) of None \<Rightarrow> True | Some b \<Rightarrow> opcode1 i = b)"

text \<open>Writing a register operand of \<open>d\<close> bytes.\<close>

definition merge_low :: "nat \<Rightarrow> u64 \<Rightarrow> u64 \<Rightarrow> u64" where
  "merge_low d new old = take_bit (8 * d) new OR (old AND NOT (mask (8 * d)))"




subsection \<open>Register values\<close>


lemma merge_low_bit: "n < 64 \<Longrightarrow> bit (merge_low d new old) n = (if n < 8 * d then bit new n else bit old n)"
  by (auto simp: merge_low_def bit_simps)




lemma put_low_merge:
  assumes "length bs = n" "n \<in> {1, 2}" "d \<in> {2, 4, 8}" "s = (if sg \<and> bit (last bs) 7 then 0xff else 0)"
  shows "put_low bs (put_low (replicate d s) v) =
    merge_low d (if sg then signed_take_bit (8 * n - 1) (of_le bs) else of_le bs) v"
proof (rule bit_word_eqI)
  fix k :: nat
  assume k: "k < LENGTH(64)"
  have "bit (mask 8 :: u8) j" if "j < 8" for j using that by (simp add: bit_mask_iff)
  then have ones: "bit (0xff :: u8) j" if "j < 8" for j using that by (simp add: mask_eq_exp_minus_1)
  have sgn: "bit s (k mod 8) \<longleftrightarrow> sg \<and> bit (of_le bs) (8 * n - 1)"
  proof -
    have "bs \<noteq> []" using assms(1,2) by auto
    then have "last bs = bs ! (n - 1)" using assms(1) by (simp add: last_conv_nth)
    then have "bit (of_le bs) (8 * n - 1) = bit (last bs) 7" using assms(1,2) by (auto simp: of_le_bits)
    then show ?thesis using ones [of "k mod 8"] by (simp add: assms(4))
  qed
  have rep: "bit (of_le (replicate d s)) k = bit s (k mod 8)" if "k < 8 * d"
    using assms(3) that by (auto simp: of_le_bits)
  have high: "bit (of_le bs) k \<Longrightarrow> k < 8 * n" using of_le_bit [of bs k] assms(1) by simp
  have sizes: "length bs \<le> 8" "length (replicate d s) \<le> 8" "d \<in> {1, 2, 4, 8}" "n \<le> d" "0 < n" using assms by auto
  have lhs: "bit (put_low bs (put_low (replicate d s) v)) k =
      (if k < 8 * n then bit (of_le bs) k else if k < 8 * d then bit s (k mod 8) else bit v k)"
    using k sizes rep by (simp add: put_low_bit assms(1))
  have rhs: "bit (merge_low d w v) k = (if k < 8 * d then bit w k else bit v k)" for w
    using k by (simp add: merge_low_bit)
  have ext: "bit (signed_take_bit (8 * n - 1) (of_le bs)) k = bit (of_le bs) (if k < 8 * n then k else 8 * n - 1)"
  proof -
    have "min k (8 * n - 1) = (if k < 8 * n then k else 8 * n - 1)" using sizes(5) by auto
    then show ?thesis using k by (simp add: bit_signed_take_bit_iff min.commute)
  qed
  show "bit (put_low bs (put_low (replicate d s) v)) k =
      bit (merge_low d (if sg then signed_take_bit (8 * n - 1) (of_le bs) else of_le bs) v) k"
    using sizes(4) high sgn unfolding lhs rhs by (cases sg; cases "k < 8 * n") (auto simp: ext [simplified])
qed

subsection \<open>Accesses\<close>



text \<open>A second read of the same bytes answers the same, and adds to the log only.\<close>

lemma read_again:
  assumes "smptrace_emulate_read ctx m addr sz = Some (bs, c1)"
  shows "\<exists>c2. smptrace_emulate_read c1 m addr sz = Some (bs, c2) \<and> c2\<lparr>io_calls := []\<rparr> = c1\<lparr>io_calls := []\<rparr> \<and>
    length (io_calls c2) = length (io_calls c1) + (if notif_read ctx then 1 else 0)"
  using assms
  by (auto simp: smptrace_emulate_read_def Let_def io_off_def io_outside_def notify_io_def fill_io_notif_def split: if_splits)

definition finish_pf :: "x86_insn \<Rightarrow> smptrace_ctx \<Rightarrow> x86_regs \<Rightarrow> (smptrace_ctx \<times> x86_regs) res option \<Rightarrow>
    (unit res \<times> smptrace_ctx \<times> x86_regs) option" where
  "finish_pf i ctx regs a =
     (case a of None \<Rightarrow> None
      | Some (Inl e) \<Rightarrow> Some (Inl e, ctx, regs)
      | Some (Inr (ctx', regs')) \<Rightarrow> Some (Inr (), ctx', regs'\<lparr>ip := ip regs + ucast (insn_length i)\<rparr>))"




lemma access_extend:
  assumes "n \<in> {1, 2}" "d \<in> {2, 4, 8}" "unat (opnd_bytes i) = d" "smptrace_emulate_read ctx m addr (of_nat n) = Some (bs, c)"
  shows "\<exists>c2. finish_pf i ctx regs (x86_access (if sg then MMIO_READ_SIGN_EXTEND else MMIO_READ_ZERO_EXTEND) (of_nat n) i r addr ctx m regs) =
      Some (Inr (), c2, (set_gp r (merge_low d (if sg then signed_take_bit (8 * n - 1) (of_le bs) else of_le bs) (gp regs r)) regs)
        \<lparr>ip := ip regs + ucast (insn_length i)\<rparr>) \<and> c2\<lparr>io_calls := []\<rparr> = c\<lparr>io_calls := []\<rparr> \<and>
      length (io_calls c2) = length (io_calls c) + (if sg \<and> notif_read ctx then 1 else 0)"
proof -
  have len: "length bs = n" using emulate_read_Some(3) [OF assms(4)] assms(1) by auto
  from read_again [OF assms(4)] obtain c2 where c2: "smptrace_emulate_read c m addr (of_nat n) = Some (bs, c2)"
    "c2\<lparr>io_calls := []\<rparr> = c\<lparr>io_calls := []\<rparr>" "length (io_calls c2) = length (io_calls c) + (if notif_read ctx then 1 else 0)" by blast
  note put = put_low_merge [OF len assms(1,2) refl, of sg "gp regs r"]
  show ?thesis
    by (cases sg)
      (use assms(3,4) c2 put in \<open>simp_all add: finish_pf_def x86_access_def read_reg_def low_set_def set_gp_def Let_def\<close>)
qed


fun mmio_of :: "x86_op \<Rightarrow> insn_mmio_type" where
  "mmio_of MOV_mr8 = MMIO_WRITE" | "mmio_of MOV_mr = MMIO_WRITE"
| "mmio_of MOV_mi8 = MMIO_WRITE_IMM" | "mmio_of MOV_mi = MMIO_WRITE_IMM"
| "mmio_of MOV_rm8 = MMIO_READ" | "mmio_of MOV_rm = MMIO_READ"
| "mmio_of MOVZX8 = MMIO_READ_ZERO_EXTEND" | "mmio_of MOVZX16 = MMIO_READ_ZERO_EXTEND"
| "mmio_of MOVSX8 = MMIO_READ_SIGN_EXTEND" | "mmio_of MOVSX16 = MMIO_READ_SIGN_EXTEND"

fun mem_bytes :: "x86_mov \<Rightarrow> nat" where
  "mem_bytes (Mov_store n) = n" | "mem_bytes (Mov_store_imm n) = n" | "mem_bytes (Mov_load n d sg) = n"

lemma decode_mmio: "x86_encodes i op w \<Longrightarrow> insn_decode_mmio i = (mmio_of op, of_nat (mem_bytes (x86_effect op w)))"
  by (cases op) (auto simp: x86_encodes_def insn_decode_mmio_def Let_def)

lemma emulate_pf_runs:
  assumes "decode (ip regs) = Inr i" "\<not> x86_user regs" "x86_encodes i op w" "modrm_reg i = Some r"
  shows "emulate_pf_instruction decode addr_ref ctx m va regs =
    finish_pf i ctx regs (x86_access (mmio_of op) (of_nat (mem_bytes (x86_effect op w))) i r (addr_ref i regs) ctx m regs)"
proof -
  have "mmio_of op \<noteq> MMIO_DECODE_FAILED" by (cases op) simp_all
  with assms show ?thesis
    by (simp add: emulate_pf_instruction_def decode_mmio finish_pf_def)
qed

subsection \<open>Properties\<close>


text \<open>
  What the extending loads do with a 32-bit operand, which on the processor clears the upper half of
  the register: the emulator keeps the old upper half. And a sign-extending load reads the device twice,
  so that user space sees two read events for one instruction.
\<close>

theorem x86_extending_loads_deviate:
  assumes "decode (ip regs) = Inr i" "\<not> x86_user regs" "x86_encodes i op 4" "modrm_reg i = Some r"
    and "x86_effect op 4 = Mov_load n 4 sg" "n < 4"
    and rd: "smptrace_emulate_read ctx m (addr_ref i regs) (of_nat n) = Some (bs, c)" and "notif_read ctx"
  shows "\<exists>ctx' regs'. emulate_pf_instruction decode addr_ref ctx m va regs = Some (Inr (), ctx', regs') \<and>
    take_bit 32 (gp regs' r) = take_bit 32 (if sg then signed_take_bit (8 * n - 1) (of_le bs) else of_le bs) \<and>
    drop_bit 32 (gp regs' r) = drop_bit 32 (gp regs r) \<and>
    length (io_calls ctx') = length (io_calls ctx) + (if sg then 2 else 1)"
proof -
  have op: "op \<in> {MOVZX8, MOVZX16, MOVSX8, MOVSX16}" "n \<in> {1, 2}"
    "mmio_of op = (if sg then MMIO_READ_SIGN_EXTEND else MMIO_READ_ZERO_EXTEND)" "mem_bytes (x86_effect op 4) = n"
    using assms(5,6) by (cases op; auto)+
  have o: "unat (opnd_bytes i) = 4" using assms(3) by (simp add: x86_encodes_def)
  have log: "length (io_calls c) = length (io_calls ctx) + 1"
    using rd \<open>notif_read ctx\<close> by (auto simp: smptrace_emulate_read_def Let_def notify_io_def fill_io_notif_def split: if_splits)
  have halves: "take_bit 32 (merge_low 4 x y) = take_bit 32 x" "drop_bit 32 (merge_low 4 x y) = drop_bit 32 y" for x y
    by (rule bit_word_eqI; auto simp: merge_low_def bit_simps dest: bit_imp_le_length)+
  show ?thesis
    using access_extend [OF op(2) _ o rd, of regs sg r] log \<open>notif_read ctx\<close>
    by (auto simp: emulate_pf_runs [where decode = decode and regs = regs, OF assms(1-4)] op(3,4) set_gp_def halves)
qed

definition x86_ctx0 :: smptrace_ctx where
  "x86_ctx0 = \<lparr>notif_read = True, notif_write = True, opaque = 0, ctx_pa = 0x100000, ctx_len = 0x2000, stop_writes = False,
     maps = [\<lparr>map_va = 0x5000, map_len = 0x2000, map_pa = 0x100000, ptes = []\<rparr>], shadow_mapped = True,
     shadow = (\<lambda>i. if i < 0x100 then 0x90 else 0), in_pf = (\<lambda>_. False), badarea_kp = True, iounmap_kp = True,
     ioremap_krp = True, io_calls = []\<rparr>"

definition x86_regs0 :: x86_regs where
  "x86_regs0 = \<lparr>gp = (\<lambda>n. if n = 3 then 0xAAAABBBBCCCCDDDD else 0), ip = 0x8000, x86_user = False\<rparr>"

text \<open>\<open>movswq (mem), %rbx\<close> and \<open>movsbl (mem), %ebx\<close>.\<close>

definition movsx_insn :: "u8 \<Rightarrow> u8 \<Rightarrow> x86_insn" where
  "movsx_insn code w = \<lparr>opcode_ok = True, opcode0 = 0x0f, opcode1 = code, opnd_bytes = w, immediate1 = 0, insn_length = 4,
     modrm_reg = Some 3\<rparr>"

lemma x86_read0:
  "smptrace_emulate_read x86_ctx0 (hd (maps x86_ctx0)) 0x5010 2 =
     Some ([0x90, 0x90], x86_ctx0\<lparr>io_calls := [(False, \<lparr>io_offset = 0x10, io_data = 0x9090, io_size = 2\<rparr>)]\<rparr>)"
  "smptrace_emulate_read x86_ctx0 (hd (maps x86_ctx0)) 0x5010 1 =
     Some ([0x90], x86_ctx0\<lparr>io_calls := [(False, \<lparr>io_offset = 0x10, io_data = 0x90, io_size = 1\<rparr>)]\<rparr>)"
  by (simp_all add: x86_ctx0_def smptrace_emulate_read_def io_off_def io_outside_def notify_io_def fill_io_notif_def bytes_of_def
      of_le_def upt_conv_Cons Let_def)


theorem x86_extending_loads_deviate_witness:
  "\<exists>ctx' regs'. emulate_pf_instruction (\<lambda>_. Inr (movsx_insn 0xbe 4)) (\<lambda>_ _. 0x5010) x86_ctx0 (hd (maps x86_ctx0)) 0x5010 x86_regs0 =
      Some (Inr (), ctx', regs') \<and> drop_bit 32 (gp regs' 3) = 0xAAAABBBB \<and> length (io_calls ctx') = 2"
proof -
  have c: "notif_read x86_ctx0" "io_calls x86_ctx0 = []" by (simp_all add: x86_ctx0_def)
  have r: "\<not> x86_user x86_regs0" "drop_bit 32 (gp x86_regs0 3) = 0xAAAABBBB" by (simp_all add: x86_regs0_def)
  have e: "x86_encodes (movsx_insn 0xbe 4) MOVSX8 4" "modrm_reg (movsx_insn 0xbe 4) = Some 3" "x86_effect MOVSX8 4 = Mov_load 1 4 True"
    by (simp_all add: x86_encodes_def movsx_insn_def)
  have "smptrace_emulate_read x86_ctx0 (hd (maps x86_ctx0)) ((\<lambda>_ _. 0x5010) (movsx_insn 0xbe 4) x86_regs0) (of_nat 1) =
     Some ([0x90], x86_ctx0\<lparr>io_calls := [(False, \<lparr>io_offset = 0x10, io_data = 0x90, io_size = 1\<rparr>)]\<rparr>)"
    using x86_read0(2) by simp
  from x86_extending_loads_deviate [where decode = "\<lambda>_. Inr (movsx_insn 0xbe 4)" and regs = x86_regs0 and addr_ref = "\<lambda>_ _. 0x5010"
      and va = "0x5010", OF refl r(1) e _ this c(1)] r(2) c(2)
  show ?thesis by auto
qed

end
