(* ===== verification/Emulation.thy ===== *)
theory Emulation
  imports RiscvInsn Arm64Insn X86Insn
begin

text \<open>
  What the decoders of the tracer may hand to its common part (\<^verbatim>\<open>kernel/trace/smptrace.c\<close>): accesses of
  a size a notification can carry, on registers that exist. With it the probes of riscv and arm64 never
  stop the kernel inside the traced range, whatever instruction faults; outside of it they do.
\<close>

definition plain_size :: "u32 \<Rightarrow> bool" where
  "plain_size sz \<longleftrightarrow> sz \<in> {1, 2, 4, 8}"

definition wf_riscv :: "riscv_ls_insn \<Rightarrow> bool" where
  "wf_riscv i \<longleftrightarrow> plain_size (ls_size i) \<and> ls_rd i < 32 \<and> ls_rs2 i < 32 \<and> (is_store i \<longrightarrow> \<not> sign_extend i) \<and>
     (sign_extend i \<longrightarrow> ls_size i < 8)"

definition wf_arm64 :: "arm64_ls_insn \<Rightarrow> bool" where
  "wf_arm64 i \<longleftrightarrow> plain_size (a_size i) \<and> a_rt i < 32 \<and> a_rn i < 32 \<and> \<not> (pre_index i \<and> post_index i) \<and>
     (a_store i \<longrightarrow> \<not> a_sign i) \<and> (\<not> pre_index i \<and> \<not> post_index i \<longrightarrow> wb_delta i = 0)"

lemma and_31: "w AND 0x1F < (32 :: u32)"
  by (rule order_le_less_trans [OF word_and_le1]) simp

lemma and_7: "8 + (w AND 7) < (32 :: u32)"
proof -
  have "w AND 7 \<le> (7 :: u32)" by (rule word_and_le1)
  then have "unat (w AND 7) \<le> 7" by (simp add: word_le_nat_alt)
  then have "unat (8 + (w AND 7)) < 32" by (subst unat_add_small) simp_all
  then show ?thesis by (simp add: word_less_nat_alt)
qed

lemma riscv_wf: "riscv_decode_ls_insn w = Inr i \<Longrightarrow> wf_riscv i"
  by (auto simp: riscv_decode_ls_insn_def Let_def wf_riscv_def plain_size_def ld_insn_def st_insn_def and_31 split: if_splits)

lemma rvc_wf: "riscv_decode_rvc_ls_insn h = Inr i \<Longrightarrow> wf_riscv i"
  by (auto simp: riscv_decode_rvc_ls_insn_def Let_def wf_riscv_def plain_size_def ld_insn_def st_insn_def and_31 and_7 split: if_splits)

lemma two_bits: "push_bit (unat (w AND 3 :: 'a::len word)) (1 :: u32) \<in> {1, 2, 4, 8}"
proof -
  have "unat (w AND 3) = unat (take_bit 2 w)" by (simp add: take_bit_eq_mask mask_eq_exp_minus_1)
  also have "\<dots> = take_bit 2 (unat w)" by (rule unsigned_take_bit_eq)
  also have "\<dots> < 4" using take_bit_nat_less_exp [of 2 "unat w"] by simp
  finally have "unat (w AND 3) \<in> {0, 1, 2, 3}" by auto
  then show ?thesis by (auto simp: push_bit_eq_mult)
qed

lemma arm64_index_wf: "arm64_index w = Inr (post, pre, d) \<Longrightarrow> \<not> (pre \<and> post) \<and> (\<not> pre \<and> \<not> post \<longrightarrow> d = 0)"
  by (auto simp: arm64_index_def Let_def split: if_splits)

lemma arm64_op_wf: "arm64_op k = Inr (st, sx, sf) \<Longrightarrow> st \<longrightarrow> \<not> sx"
  by (auto simp: arm64_op_def split: if_splits)

lemma arm64_wf:
  assumes "arm64_decode_ls_insn w = Inr i"
  shows "wf_arm64 i"
proof -
  obtain post pre d st sx sf where ix: "arm64_index w = Inr (post, pre, d)"
      and op: "arm64_op (push_bit 2 (drop_bit 30 w AND 3) OR (drop_bit 22 w AND 3)) = Inr (st, sx, sf)"
      and i: "i = \<lparr>a_rt = w AND 0x1F, a_rn = drop_bit 5 w AND 0x1F, a_size = push_bit (unat (drop_bit 30 w AND 3)) 1,
        a_store = st, a_sign = sx, a_sf = sf, post_index = post, pre_index = pre, wb_delta = d\<rparr>"
    using assms by (auto simp only: arm64_decode_ls_insn_def Let_def sum.inject split: if_splits sum.splits prod.splits)
  show ?thesis
    using two_bits [of "drop_bit 30 w"] arm64_index_wf [OF ix] arm64_op_wf [OF op]
    unfolding i wf_arm64_def plain_size_def by (simp add: and_31 del: push_bit_numeral)
qed

subsection \<open>Inside the range\<close>

text \<open>An access of any plain size at \<open>va\<close> stays inside the traced range.\<close>

definition inside :: "smptrace_ctx \<Rightarrow> smptrace_map \<Rightarrow> u64 \<Rightarrow> bool" where
  "inside ctx m va \<longleftrightarrow> \<not> io_outside ctx (io_off ctx m va) 1 \<and> \<not> io_outside ctx (io_off ctx m va) 2 \<and>
     \<not> io_outside ctx (io_off ctx m va) 4 \<and> \<not> io_outside ctx (io_off ctx m va) 8"

lemma read_inside: "inside ctx m va \<Longrightarrow> plain_size sz \<Longrightarrow> smptrace_emulate_read ctx m va sz \<noteq> None"
  by (auto simp: inside_def plain_size_def smptrace_emulate_read_def notify_io_def fill_io_notif_def Let_def)

lemma write_inside: "inside ctx m va \<Longrightarrow> plain_size sz \<Longrightarrow> smptrace_emulate_write ctx m va sz src \<noteq> None"
  by (auto simp: inside_def plain_size_def smptrace_emulate_write_def notify_io_def fill_io_notif_def Let_def)

lemma riscv_inside:
  assumes "inside ctx m va"
  shows "emulate_riscv_fault code ctx m va regs \<noteq> None"
proof (cases "from_user regs")
  case False
  show ?thesis
  proof (cases "code (epc regs)")
    case (Some insn)
    define d where "d = (if insn AND 0x3 \<noteq> 0x3 then riscv_decode_rvc_ls_insn (ucast insn) else riscv_decode_ls_insn insn)"
    show ?thesis
    proof (cases d)
      case (Inr ls)
      then have sz: "plain_size (ls_size ls)" by (auto simp: d_def wf_riscv_def dest!: riscv_wf rvc_wf split: if_splits)
      obtain bs c c' where "smptrace_emulate_read ctx m va (ls_size ls) = Some (bs, c)"
          "smptrace_emulate_write ctx m va (ls_size ls) (le64 (riscv_get_reg regs (ls_rs2 ls))) = Some c'"
        using read_inside [OF assms sz] write_inside [OF assms sz, of "le64 (riscv_get_reg regs (ls_rs2 ls))"]
        by (auto simp only: not_None_eq split_paired_Ex)
      with Inr show ?thesis
        by (simp add: emulate_riscv_fault_def False Some d_def [symmetric] Let_def)
    qed (simp add: emulate_riscv_fault_def False Some d_def [symmetric] Let_def)
  qed (simp add: emulate_riscv_fault_def False)
qed (simp add: emulate_riscv_fault_def)

lemma arm64_access_inside:
  assumes "inside ctx m va" "plain_size sz"
  shows "arm64_access rt sz st sx sf ctx m va regs \<noteq> None"
proof (cases st)
  case True
  then show ?thesis
    using write_inside [OF assms, of "le64 (if rt = 31 then 0 else x_regs regs (unat rt))"]
    by (auto simp: arm64_access_def simp del: not_None_eq split: option.splits if_splits)
next
  case False
  then show ?thesis using read_inside [OF assms] by (auto simp: arm64_access_def Let_def)
qed

lemma arm64_inside: "inside ctx m va \<Longrightarrow> emulate_arm64_fault code esr ctx m va regs \<noteq> None"
  using arm64_access_inside [of ctx m va] two_bits [of "drop_bit 22 esr"]
  by (auto simp: emulate_arm64_fault_def wf_arm64_def plain_size_def dest!: arm64_wf split: option.splits sum.splits)

lemma fault_body_inside:
  assumes "\<And>m. smptrace_find_map_rcu ctx va = Some m \<Longrightarrow> inside ctx m va"
    and "\<And>c m. inside c m va \<Longrightarrow> emulate c m va regs \<noteq> None"
  shows "fault_body emulate cpu ctx va regs \<noteq> None"
proof (cases "smptrace_find_map_rcu ctx va")
  case (Some m)
  have "inside (ctx\<lparr>in_pf := (in_pf ctx)(cpu := True)\<rparr>) m va"
    using assms(1) [OF Some] by (simp add: inside_def io_outside_def io_off_def)
  from assms(2) [OF this] show ?thesis by (auto simp: fault_body_def Some split: option.splits)
qed (simp add: fault_body_def)

subsection \<open>Properties\<close>

text \<open>
  C39. The decoders are well-typed: for every instruction word, the riscv and arm64 decoders either refuse
  with \<open>EINVAL\<close> or answer an access of 1, 2, 4 or 8 bytes on registers below 32, with at most one of pre-
  and post-index, a base update only with one of them, and a sign extension only for loads.
\<close>

theorem decoders_well_typed:
  "(case riscv_decode_ls_insn w of Inl e \<Rightarrow> e = EINVAL | Inr i \<Rightarrow> wf_riscv i) \<and>
   (case riscv_decode_rvc_ls_insn h of Inl e \<Rightarrow> e = EINVAL | Inr i \<Rightarrow> wf_riscv i) \<and>
   (case arm64_decode_ls_insn w of Inl e \<Rightarrow> e = EINVAL | Inr j \<Rightarrow> wf_arm64 j)"
proof -
  have "e = EINVAL" if "riscv_decode_ls_insn w = Inl e" for e
    using that by (auto simp: riscv_decode_ls_insn_def Let_def split: if_splits)
  moreover have "e = EINVAL" if "riscv_decode_rvc_ls_insn h = Inl e" for e
    using that by (auto simp: riscv_decode_rvc_ls_insn_def Let_def split: if_splits)
  moreover have "e = EINVAL" if "arm64_decode_ls_insn w = Inl e" for e
    using that by (auto simp: arm64_decode_ls_insn_def arm64_index_def arm64_op_def Let_def split: if_splits)
  ultimately show ?thesis by (auto split: sum.split intro: riscv_wf rvc_wf arm64_wf)
qed

text \<open>
  The probes stop the kernel for no instruction: if an access of 8 bytes at the faulting address stays
  inside the traced range, the probes of riscv and arm64 return, handled or not, whatever the instruction,
  the registers and the syndrome are.
\<close>

theorem probes_return:
  assumes "\<And>m. smptrace_find_map_rcu ctx (badaddr regs) = Some m \<Longrightarrow> inside ctx m (badaddr regs)"
    and "\<And>m. smptrace_find_map_rcu ctx va = Some m \<Longrightarrow> inside ctx m va"
  shows "enter_riscv_handle_page_fault code cpu ctx regs \<noteq> None \<and> enter_do_kernel_fault code cpu va esr ctx aregs \<noteq> None"
  using fault_body_inside [where emulate = "emulate_riscv_fault code", OF assms(1) riscv_inside]
    fault_body_inside [where emulate = "emulate_arm64_fault code esr", OF assms(2) arm64_inside]
  by (auto simp: enter_riscv_handle_page_fault_def enter_do_kernel_fault_def)

text \<open>An instruction that is neither a load nor a store, and one that the syndrome describes as a load.\<close>

theorem probes_return_witness:
  "enter_riscv_handle_page_fault (\<lambda>_. Some 0x13) 0 arm_ctx0 (regs0\<lparr>badaddr := 0x5010\<rparr>) \<noteq> None \<and>
   enter_do_kernel_fault (\<lambda>_. None) 0 0x5010 0x95000000 arm_ctx0 arm_regs0 \<noteq> None"
proof -
  have "inside arm_ctx0 m 0x5010" if "smptrace_find_map_rcu arm_ctx0 0x5010 = Some m" for m
    using that by (auto simp: smptrace_find_map_rcu_def arm_ctx0_def inside_def io_outside_def io_off_def)
  then show ?thesis using probes_return [of arm_ctx0 "regs0\<lparr>badaddr := 0x5010\<rparr>" "0x5010"] by simp
qed

end
