(* ===== verification/X86Pages.thy ===== *)
theory X86Pages
  imports X86Trace
begin

text \<open>
  Poisoning and restoring of the x86 tracer, over single pages and huge ones: the entries a range is
  mapped by, what poisoning saves of them, and that restoring puts it back.
\<close>

text \<open>The entries of a range, each with its level, as \<open>lookup_address\<close> finds them one after the other.\<close>

fun mapped_by :: "x86_lookup \<Rightarrow> tables \<Rightarrow> u64 \<Rightarrow> int \<Rightarrow> (u64 \<times> nat) list \<Rightarrow> bool" where
  "mapped_by lookup mem va r [] \<longleftrightarrow> r \<le> 0"
| "mapped_by lookup mem va r ((e, l) # xs) \<longleftrightarrow> 0 < r \<and> lookup mem va = Some (e, l) \<and>
     (case x86_level2size l of None \<Rightarrow> False | Some sz \<Rightarrow> mapped_by lookup mem (va + word_of_int sz) (r - sz) xs)"

fun saved_entries :: "tables \<Rightarrow> u64 \<Rightarrow> (u64 \<times> nat) list \<Rightarrow> x86_pte list" where
  "saved_entries mem va [] = []"
| "saved_entries mem va ((e, l) # xs) = \<lparr>x_va = va, x_bits = mem e, x_level = l\<rparr> #
     saved_entries mem (va + word_of_int (case x86_level2size l of None \<Rightarrow> 0 | Some sz \<Rightarrow> sz)) xs"

definition poison_all :: "(u64 \<Rightarrow> u64) \<Rightarrow> tables \<Rightarrow> (u64 \<times> nat) list \<Rightarrow> tables \<Rightarrow> tables" where
  "poison_all mkinvalid mem xs = fold (\<lambda>(e, l) m. m(e := x86_poison_entry mkinvalid l (mem e))) xs"

definition put_back :: "tables \<Rightarrow> (u64 \<times> nat) list \<Rightarrow> tables \<Rightarrow> tables" where
  "put_back mem xs = fold (\<lambda>(e, l) m. m(e := mem e)) xs"

text \<open>Tables in which some entries of \<open>xs\<close> are poisoned and everything else is as in \<open>mem\<close>.\<close>

definition between :: "(u64 \<Rightarrow> u64) \<Rightarrow> tables \<Rightarrow> (u64 \<times> nat) list \<Rightarrow> tables \<Rightarrow> bool" where
  "between mkinvalid mem xs t \<longleftrightarrow>
     (\<forall>a. t a = mem a \<or> (\<exists>l. (a, l) \<in> set xs \<and> t a = x86_poison_entry mkinvalid l (mem a)))"

lemma between_put: "between mkinvalid mem xs t \<Longrightarrow> between mkinvalid mem xs (t(e := mem e))"
  by (simp add: between_def)

lemma between_poison:
  "between mkinvalid mem xs t \<Longrightarrow> (e, l) \<in> set xs \<Longrightarrow> between mkinvalid mem xs (t(e := x86_poison_entry mkinvalid l (mem e)))"
  by (auto simp: between_def)

lemma between_poison_all:
  "between mkinvalid mem xs t \<Longrightarrow> set ys \<subseteq> set xs \<Longrightarrow> between mkinvalid mem xs (poison_all mkinvalid mem ys t)"
  by (induction ys arbitrary: t) (auto simp: poison_all_def intro: between_poison simp del: fun_upd_apply)

lemma x86_poison_run:
  assumes stable: "\<And>t v. between mkinvalid mem all t \<Longrightarrow> lookup t v = lookup mem v" and "\<forall>i. alloc i"
    and "mapped_by lookup mem va r xs" "between mkinvalid mem all t" "set xs \<subseteq> set all" "distinct (map fst xs)"
    and "\<forall>e\<in>set (map fst xs). t e = mem e"
  shows "x86_poison_loop lookup mkinvalid alloc va r saved t = (Inr (), saved @ saved_entries mem va xs, poison_all mkinvalid mem xs t)"
  using assms(3-)
proof (induction xs arbitrary: va r saved t)
  case Nil
  then show ?case by (simp add: x86_poison_loop.simps poison_all_def)
next
  case (Cons x xs)
  obtain e l where x: "x = (e, l)" by (cases x)
  obtain sz where sz: "x86_level2size l = Some sz" "mapped_by lookup mem (va + word_of_int sz) (r - sz) xs"
    using Cons(2) by (auto simp: x split: option.splits)
  have here: "0 < r" "lookup t va = Some (e, l)" "t e = mem e" "alloc (length saved)"
    using Cons(2,3,6) stable assms(2) by (simp_all add: x)
  have "x86_poison_loop lookup mkinvalid alloc va r saved t = x86_poison_loop lookup mkinvalid alloc (va + word_of_int sz) (r - sz)
      (saved @ [\<lparr>x_va = va, x_bits = mem e, x_level = l\<rparr>]) (t(e := x86_poison_entry mkinvalid l (mem e)))"
    using here sz(1) by (subst x86_poison_loop.simps) (simp del: fun_upd_apply)
  also have "\<dots> = (Inr (), (saved @ [\<lparr>x_va = va, x_bits = mem e, x_level = l\<rparr>]) @ saved_entries mem (va + word_of_int sz) xs,
      poison_all mkinvalid mem xs (t(e := x86_poison_entry mkinvalid l (mem e))))"
  proof (rule Cons(1) [OF sz(2)])
    show "between mkinvalid mem all (t(e := x86_poison_entry mkinvalid l (mem e)))"
      using between_poison [OF Cons(3)] Cons(4) by (simp add: x del: fun_upd_apply)
  qed (use Cons(4-6) in \<open>auto simp: x\<close>)
  finally show ?case using sz(1) by (simp add: x poison_all_def del: fun_upd_apply)
qed

lemma x86_restore_run:
  assumes stable: "\<And>t v. between mkinvalid mem all t \<Longrightarrow> lookup t v = lookup mem v"
    and "mapped_by lookup mem va r xs" "between mkinvalid mem all t"
  shows "x86_restore_loop lookup va r (saved_entries mem va xs) t = Some (put_back mem xs t)"
  using assms(2-)
proof (induction xs arbitrary: va r t)
  case Nil
  then show ?case by (simp add: x86_restore_loop.simps put_back_def)
next
  case (Cons x xs)
  obtain e l where x: "x = (e, l)" by (cases x)
  obtain sz where sz: "x86_level2size l = Some sz" "mapped_by lookup mem (va + word_of_int sz) (r - sz) xs"
    using Cons(2) by (auto simp: x split: option.splits)
  have here: "0 < r" "lookup t va = Some (e, l)" using Cons(2,3) stable by (simp_all add: x)
  have "x86_restore_loop lookup va r (saved_entries mem va (x # xs)) t =
      x86_restore_loop lookup (va + word_of_int sz) (r - sz) (saved_entries mem (va + word_of_int sz) xs) (t(e := mem e))"
    using here sz(1) by (subst x86_restore_loop.simps) (simp add: x del: fun_upd_apply)
  then show ?case using Cons(1) [OF sz(2) between_put [OF Cons(3)]] by (simp add: x put_back_def del: fun_upd_apply)
qed

lemma put_back_other: "a \<notin> fst ` set xs \<Longrightarrow> put_back mem xs t a = t a"
  by (induction xs arbitrary: t) (auto simp: put_back_def)

lemma put_back_at: "a \<in> fst ` set xs \<Longrightarrow> put_back mem xs t a = mem a"
proof (induction xs arbitrary: t)
  case (Cons x xs)
  have step: "put_back mem (x # xs) t = put_back mem xs (t(fst x := mem (fst x)))" by (cases x) (simp add: put_back_def)
  show ?case using Cons put_back_other [of a xs mem "t(fst x := mem (fst x))"]
    by (cases "a \<in> fst ` set xs") (auto simp: step)
qed simp

lemma poison_all_other: "a \<notin> fst ` set xs \<Longrightarrow> poison_all mkinvalid mem xs t a = t a"
  by (induction xs arbitrary: t) (auto simp: poison_all_def)

lemma poison_all_at: "distinct (map fst xs) \<Longrightarrow> (e, l) \<in> set xs \<Longrightarrow> poison_all mkinvalid mem xs t e = x86_poison_entry mkinvalid l (mem e)"
proof (induction xs arbitrary: t)
  case (Cons x xs)
  then show ?case using poison_all_other [of e xs mkinvalid mem "t(e := x86_poison_entry mkinvalid l (mem e))"]
    by (cases x) (auto simp: poison_all_def image_iff simp del: fun_upd_apply simp add: fun_upd_same)
qed simp

lemma put_back_poison: "put_back mem xs (poison_all mkinvalid mem xs mem) = mem"
proof
  fix a
  show "put_back mem xs (poison_all mkinvalid mem xs mem) a = mem a"
    by (cases "a \<in> fst ` set xs") (simp_all add: put_back_at put_back_other poison_all_other)
qed

subsection \<open>Properties\<close>

text \<open>
  On x86 restoring undoes poisoning, huge pages included. If the range is mapped by different entries
  and \<open>lookup_address\<close> still finds them at their levels while some are poisoned (it does: the invalid form
  of a huge entry is not the empty one), poisoning succeeds, makes every entry of the range invalid, and
  restoring with what was saved gives back the very same page tables.
\<close>

theorem x86_poison_roundtrip:
  assumes "\<And>t v. between mkinvalid mem xs t \<Longrightarrow> lookup t v = lookup mem v"
    and "mapped_by lookup mem (map_va m) (sint (map_len m)) xs" and "distinct (map fst xs)" and "\<forall>i. alloc i"
  shows "\<exists>saved mem'. x86_poison_pte lookup mkinvalid alloc m mem = (Inr (), saved, mem') \<and>
    (\<forall>(e, l)\<in>set xs. mem' e = x86_poison_entry mkinvalid l (mem e)) \<and>
    x86_restore_pte lookup m saved mem' = Some mem"
proof -
  have start: "between mkinvalid mem xs mem" by (simp add: between_def)
  have run: "x86_poison_pte lookup mkinvalid alloc m mem =
      (Inr (), saved_entries mem (map_va m) xs, poison_all mkinvalid mem xs mem)"
    unfolding x86_poison_pte_def using x86_poison_run [OF assms(1,4,2) start subset_refl assms(3), of "[]"] by simp
  have "x86_restore_pte lookup m (saved_entries mem (map_va m) xs) (poison_all mkinvalid mem xs mem) = Some mem"
    unfolding x86_restore_pte_def
    using x86_restore_run [OF assms(1,2) between_poison_all [OF start subset_refl]] put_back_poison by simp
  with run poison_all_at [OF assms(3)] show ?thesis by auto
qed

text \<open>A huge page and a single one behind it; an empty entry would hide the huge page.\<close>

definition pages0 :: tables where
  "pages0 = (\<lambda>_. 0)(0x10 := 0x83, 0x18 := 0x1003)"

definition lookup0 :: x86_lookup where
  "lookup0 t va = (if va = 0x200000 \<and> t 0x10 \<noteq> 0 then Some (0x10, 2) else if va = 0x400000 then Some (0x18, 1) else None)"

theorem x86_poison_roundtrip_witness:
  "\<exists>saved mem'. x86_poison_pte lookup0 (\<lambda>x. x AND NOT 1) (\<lambda>_. True)
      \<lparr>map_va = 0x200000, map_len = 0x201000, map_pa = 0, ptes = []\<rparr> pages0 = (Inr (), saved, mem') \<and>
    mem' 0x10 = 0x82 \<and> mem' 0x18 = 0 \<and>
    x86_restore_pte lookup0 \<lparr>map_va = 0x200000, map_len = 0x201000, map_pa = 0, ptes = []\<rparr> saved mem' = Some pages0"
proof -
  define m where "m = \<lparr>map_va = 0x200000, map_len = 0x201000, map_pa = 0, ptes = []\<rparr>"
  let ?xs = "[(0x10, 2), (0x18, 1)] :: (u64 \<times> nat) list"
  have stable: "lookup0 t v = lookup0 pages0 v" if "between (\<lambda>x. x AND NOT 1) pages0 ?xs t" for t v
  proof -
    have "t 0x10 = pages0 0x10 \<or> (\<exists>l. (0x10, l) \<in> set ?xs \<and> t 0x10 = x86_poison_entry (\<lambda>x. x AND NOT 1) l (pages0 0x10))"
      using that unfolding between_def by blast
    then have "t 0x10 = 0x83 \<or> t 0x10 = 0x82" by (auto simp: pages0_def x86_poison_entry_def)
    then show ?thesis by (auto simp: lookup0_def pages0_def)
  qed
  have "mapped_by lookup0 pages0 (map_va m) (sint (map_len m)) ?xs"
    by (simp add: m_def lookup0_def pages0_def x86_level2size_def)
  from x86_poison_roundtrip [where mkinvalid = "\<lambda>x. x AND NOT 1" and alloc = "\<lambda>_. True", OF stable this]
  show ?thesis by (auto simp: m_def x86_poison_entry_def pages0_def)
qed

end
