(* ===== verification/Spec2Isabelle.thy ===== *)
theory Spec2Isabelle
  imports SessionRaces NvmeHost NvmeBoot E1000Host HdaHost CardRun ProtoSystem ProtoProbe Emulation X86Pages
begin

text \<open>
  Verification library of pciem, a framework that lets a user-space program implement a PCI Express
  device which the running kernel sees as real.

  A program opens \<^verbatim>\<open>/dev/pciem\<close>, creates functions, gives them BARs, capabilities and
  identification registers, and registers them; the kernel module builds their configuration spaces
  and puts them on a virtual root bus or on an existing one. From then on the host reads and writes
  configuration space and BARs, the program receives events through a shared ring, raises interrupts,
  and reaches guest memory through DMA ioctls. Accesses to a traced BAR are caught by poisoning the
  driver's mapping and emulating the faulting instruction.

  The theories, from the bottom up, with the files under \<^verbatim>\<open>src/\<close> they model:

  \<^item> Prelude: machine integers, error codes, C arrays of bytes, little-endian stores and loads,
    memory as a function on addresses.
  \<^item> Caps, CapsBuild, CapsAccess (\<^verbatim>\<open>kernel/framework/capabilities.c\<close>): the capability manager
    and its invariant, the two capability lists written into configuration space, reads and writes of
    capability registers.
  \<^item> Pool (\<^verbatim>\<open>kernel/framework/pool.c\<close>): the pool of physical addresses BARs are carved from.
  \<^item> Bars, Conf, HostView (\<^verbatim>\<open>kernel/framework/pciem.c\<close>): BAR registration, address registers,
    configuration accesses of the two bus modes, and what the host sees of a function: the lists it walks,
    the sizes it measures, what it reads back. The address register is the locale \<open>address_register\<close>.
  \<^item> Device, DeviceLife (\<^verbatim>\<open>kernel/framework/pciem.c\<close>): the life of a function, from its allocation
    through \<open>pciem_complete_init\<close> in both bus modes to teardown, with its start and its interrupts; what
    initialisation achieves, what failure leaves, and that teardown undoes it.
  \<^item> Session, SessionLife (\<^verbatim>\<open>kernel/framework/userspace.c\<close>): the control ioctls on a session and
    the invariant of its slot; Visible: that registration succeeds, and what the host then reads at the
    device's place; SessionRaces: several threads on one session, as a step relation.
  \<^item> P2P, Dma (\<^verbatim>\<open>kernel/framework/p2p.c\<close>, \<^verbatim>\<open>kernel/framework/dma.c\<close>): transfers to
    whitelisted physical regions, and to guest memory through the IOMMU.
  \<^item> DmaIoctl, Prp, Ring, Irqfd (\<^verbatim>\<open>kernel/framework/userspace.c\<close>): the transfer ioctls, the indirect
    transfer over region page lists, the event ring with its eventfd notification (the locale
    \<open>bounded_queue\<close>), and interrupts through eventfds.
  \<^item> Trace (\<^verbatim>\<open>kernel/trace/smptrace.c\<close>): the tracer without its architectures. Their instruction
    emulation is the locale \<open>fault_emulator\<close>, their page tables (PageTables) the locale \<open>page_walk\<close>.
  \<^item> InsnFields, Riscv, RiscvInsn, Arm64, Arm64Insn, X86Trace, X86Insn, X86Pages
    (\<^verbatim>\<open>kernel/trace/arch/\<close>): page tables, decoders, emulation and probes of the three architectures,
    each interpretation of the locales, and each emulator against a fragment of its instruction set with
    the encoding written out; Emulation: what the decoders have in common.
  \<^item> TraceBar (\<^verbatim>\<open>kernel/framework/userspace.c\<close>): tracing a BAR, from the ioctl to the event.
  \<^item> Dispatch, DispatchLife (\<^verbatim>\<open>kernel/framework/userspace.c\<close>, \<^verbatim>\<open>kernel/framework/pciem.c\<close>): the character
    device: the state of all ioctls together, the command numbers, opening and the two kinds of
    descriptors; a session lives as long as one of them, and the last close gives everything back.
  \<^item> Nvme (\<^verbatim>\<open>examples/nvme/nvme_card.c\<close>): the NVMe disk that comes with the framework, a program over
    the ioctls, which are an argument. NvmeQueues: ringing a doorbell serves the pending commands, the
    phase tag; NvmeDisk: the locale \<open>nvme_transfers\<close> of what the card expects of an indirect transfer;
    NvmeCtrl: the registers, the invariant of the controller, the event loop; NvmeHost: the card over
    the DMA ioctls of DmaIoctl and Prp, which interpret the locale: what a guest writes it reads back.
    NvmeBoot: the card's start and end over the character device.
  \<^item> CardHost: the calls an example card makes as a record of functions, what it relies on as the locale
    \<open>card_memory\<close>, interpreted on the DMA ioctl of DmaIoctl, and the loop that empties the event ring.
  \<^item> E1000 (\<^verbatim>\<open>examples/e1000/e1000_card.c\<close>): the network card. E1000Eeprom: its serial EEPROM
    against the protocol of the driver; E1000Tx: the transmit ring against a list of frames; E1000Rx: the
    receive ring; E1000Host: both over the DMA ioctl.
  \<^item> Hda (\<^verbatim>\<open>examples/hda/hda_card.c\<close>): the sound card. HdaRings: commands and their answers; HdaStream:
    the turns of the sound thread against the list of buffers; HdaHost: both over the DMA ioctl.
  \<^item> Bochs (\<^verbatim>\<open>examples/bochs_bga/bochs_card.c\<close>): the graphics card, from the writes that set a mode to the
    pixels in its window.
  \<^item> CardBoot, CardStart: how these three cards and the accelerator come up and go away over the character
    device; CardCaps: that nothing is left of one that has ended, and that none gets the MSI it asks for;
    CardRun: the graphics card comes up.
  \<^item> ProtoGpu, ProtoCmd, ProtoBackend (\<^verbatim>\<open>examples/protopciem/qemu/\<close>): the accelerator's backend in QEMU:
    lines against their ideal points, the interpreter of command buffers against their encoding, registers,
    messages, the display. ProtoCard (\<^verbatim>\<open>examples/protopciem/userspace/protopciem_card.c\<close>): the card between
    guest and backend; ProtoLink: both together (the locale \<open>proto_card\<close>, an extension of \<open>card_memory\<close>).
    ProtoDriver, ProtoProbe (\<^verbatim>\<open>examples/protopciem/driver/protopciem_driver.c\<close>): the driver in the guest;
    ProtoSystem: all three, from the \<open>write\<close> of a program to the pixels.

  Kernel services (allocators, the IOMMU, access to user memory, the PCI core, probes, page-table macros)
  are arguments of the definitions. Results are sums of an error code and a value; a crash (an access
  outside an array or to a freed object, \<open>BUG()\<close>) is \<open>None\<close>.

  Loops are structural recursions or have a termination proof. Those not known to end are
  \<open>partial_function\<close>: the chained lists of Prp, the bus operations of Visible, in Nvme the loop that
  serves a submission queue and the one that empties the event ring, \<open>ring_drain\<close> of CardHost, \<open>tx_loop\<close>
  of E1000, \<open>corb_loop\<close> of Hda, \<open>line_loop\<close> of ProtoGpu, and \<open>writen\<close> of ProtoCard. For each there is a
  theorem that it returns where it should; for the first three and \<open>corb_loop\<close> there is also one that it may
  run for ever. The one bound on a recursion is the number of steps in the list walk of a host (CapsBuild),
  which is specification and not code.

  Locks are left out: an ioctl is one step, except where an interleaving matters and is written as a step
  relation (Ring, Irqfd, SessionRaces). Reference counts are modelled for the session only.

  Not modelled:

  \<^item> the x86 instruction decoder copied from Linux (\<^verbatim>\<open>kernel/trace/arch/x86/lib\<close>, apart from
    \<open>insn_decode_mmio\<close>), part of it generated: its answers are arguments of X86Trace;
  \<^item> TLB flushes, RCU, logging;
  \<^item> the socket and thread set-up of the example devices, PipeWire's side of the sound card and SDL's of the
    graphics card.
\<close>

end
